(* ===== verification/PyFloat.thy ===== *)
theory PyFloat
  imports Prelude "HOL-Library.Log_Nat"
begin

text \<open>
  Python's \<open>float\<close>: IEEE binary64, as the exact rational a finite float denotes.

  \<^item> \<open>fl\<close> is the rounding of an exact rational to the nearest representable number,
    ties to even: 53 significant bits, and below exponent \<open>-1074\<close> the subnormal grid.
  \<^item> \<open>fadd\<close>, \<open>fsub\<close>, \<open>fmul\<close>, \<open>fdiv\<close> are Python's \<open>+ - * /\<close> on floats (the exact
    result, rounded once); a decimal literal of the source such as \<open>0.3\<close> is
    \<open>fl (3/10)\<close>, and comparisons of floats are the exact comparisons of rationals.
  \<^item> \<open>pyround x n\<close> is \<open>round(x, n)\<close>: the exact value rounded half-to-even at \<open>n\<close>
    decimal places and then to the nearest float; \<open>rhe x\<close> is \<open>round(x)\<close>.

  Not modelled: results above the largest double (the exponent is unbounded above),
  signed zeros, and NaN. Where the source produces or tests an infinity the model of
  that function has an explicit constructor for it.

  The lemmas below are what the components use: rounding is monotone
  (\<open>fl_mono\<close>), fixes representable numbers (\<open>fl_repr\<close>, \<open>fl_fl\<close>), keeps signs, and is
  off by at most half a unit in the last place (\<open>fl_error\<close>).
\<close>

section \<open>Rounding to the nearest representable number\<close>

definition flog2 :: "rat \<Rightarrow> int" where
  "flog2 x = (let (n, d) = quotient_of x; e = bitlen n - bitlen d
              in if 2 powi e \<le> x then e else e - 1)"

definition rhe :: "rat \<Rightarrow> int" where
  "rhe x = (let f = \<lfloor>x\<rfloor>; r = x - of_int f
            in if r < 1 / 2 then f else if 1 / 2 < r then f + 1
               else if even f then f else f + 1)"

definition fexp :: "rat \<Rightarrow> int" where
  "fexp x = max (flog2 \<bar>x\<bar> - 52) (- 1074)"

definition fl :: "rat \<Rightarrow> rat" where
  "fl x = (if x = 0 then 0 else of_int (rhe (x / 2 powi fexp x)) * 2 powi fexp x)"

lemma rhe_mono: "x \<le> y \<Longrightarrow> rhe x \<le> rhe y"
proof -
  assume le: "x \<le> y"
  then have fle: "\<lfloor>x\<rfloor> \<le> \<lfloor>y\<rfloor>" by (rule floor_mono)
  show ?thesis
  proof (cases "\<lfloor>x\<rfloor> = \<lfloor>y\<rfloor>")
    case True
    then show ?thesis using le by (auto simp: rhe_def Let_def)
  next
    case False
    with fle have "\<lfloor>x\<rfloor> + 1 \<le> \<lfloor>y\<rfloor>" by simp
    then show ?thesis by (auto simp: rhe_def Let_def)
  qed
qed

lemma rhe_of_int [simp]: "rhe (of_int k) = k"
  by (simp add: rhe_def)

lemma rhe_minus: "rhe (- x) = - rhe x"
proof (cases "x = of_int \<lfloor>x\<rfloor>")
  case True
  then obtain k where "x = of_int k" ..
  then show ?thesis using rhe_of_int [of "- k"] by simp
next
  case False
  then have lt: "of_int \<lfloor>x\<rfloor> < x" using of_int_floor_le[of x] by linarith
  have *: "\<lfloor>- x\<rfloor> = - \<lfloor>x\<rfloor> - 1"
    using lt of_int_floor_le[of x] floor_correct[of x] by (simp add: floor_eq_iff)
  show ?thesis
    by (auto simp: rhe_def Let_def * field_simps)
qed

lemma bitlen_powi:
  assumes "0 < n"
  shows "2 powi (bitlen n - 1) \<le> (of_int n :: rat)" and "of_int n < (2 powi bitlen n :: rat)"
proof -
  have pos: "0 < bitlen n"
    using assms bitlen_nonneg[of n] bitlen_eq_zero_iff[of n] by linarith
  have lo: "(2 powi (bitlen n - 1) :: rat) = of_int (2 ^ nat (bitlen n - 1))"
    and hi: "(2 powi bitlen n :: rat) = of_int (2 ^ nat (bitlen n))"
    using pos by (simp_all add: power_int_def)
  show "2 powi (bitlen n - 1) \<le> (of_int n :: rat)" "of_int n < (2 powi bitlen n :: rat)"
    unfolding lo hi of_int_le_iff of_int_less_iff using bitlen_bounds[OF assms] by auto
qed

lemma flog2_bounds:
  assumes "0 < x"
  shows "2 powi flog2 x \<le> x \<and> x < 2 powi (flog2 x + 1)"
proof -
  obtain n d where q: "quotient_of x = (n, d)" by (cases "quotient_of x")
  have d: "0 < d" using q by (rule quotient_of_denom_pos)
  have x: "x = of_int n / of_int d" using q by (rule quotient_of_div)
  have n: "0 < n" using assms d x by (simp add: zero_less_divide_iff)
  define a b where "a = bitlen n - 1" and "b = bitlen d - 1"
  have nb: "2 powi a \<le> (of_int n :: rat)" "of_int n < (2 powi (a + 1) :: rat)"
    and db: "2 powi b \<le> (of_int d :: rat)" "of_int d < (2 powi (b + 1) :: rat)"
    unfolding a_def b_def using bitlen_powi[OF n] bitlen_powi[OF d] by simp_all
  have lo: "2 powi (a - b - 1) < x"
  proof -
    have "2 powi (a - b - 1) * of_int d < (2 powi (a - b - 1) * 2 powi (b + 1) :: rat)"
      using db by simp
    also have "\<dots> = 2 powi a" by (simp flip: power_int_add)
    also have "\<dots> \<le> of_int n" by (rule nb)
    finally show ?thesis using d by (simp add: x pos_less_divide_eq)
  qed
  have hi: "x < 2 powi (a - b + 1)"
  proof -
    have "of_int n < (2 powi (a + 1) :: rat)" by (rule nb)
    also have "\<dots> = 2 powi (a - b + 1) * 2 powi b" by (simp flip: power_int_add)
    also have "\<dots> \<le> 2 powi (a - b + 1) * of_int d" using db by simp
    finally show ?thesis using d by (simp add: x pos_divide_less_eq)
  qed
  have e: "bitlen n - bitlen d = a - b" by (simp add: a_def b_def)
  show ?thesis
    using lo hi by (auto simp: flog2_def q e Let_def add.commute diff_add_eq)
qed

lemma powi_less_imp: "(2 powi a :: rat) < 2 powi b \<Longrightarrow> a < b"
  using power_int_increasing[of b a "2 :: rat"] by (cases "b \<le> a") auto

lemma flog2_mono:
  assumes "0 < x" "x \<le> y"
  shows "flog2 x \<le> flog2 y"
proof (rule ccontr)
  assume "\<not> flog2 x \<le> flog2 y"
  then have "(2 powi (flog2 y + 1) :: rat) \<le> 2 powi flog2 x"
    by (intro power_int_increasing) auto
  with flog2_bounds[of x] flog2_bounds[of y] assms show False by auto
qed

lemma fexp_mono: "0 < x \<Longrightarrow> x \<le> y \<Longrightarrow> fexp x \<le> fexp y"
  using flog2_mono[of x y] by (simp add: fexp_def)

lemma fexp_min: "- 1074 \<le> fexp x"
  by (simp add: fexp_def)

lemma fexp_minus [simp]: "fexp (- x) = fexp x"
  by (simp add: fexp_def)

lemma below_53_bits: "0 < x \<Longrightarrow> x < 2 ^ 53 * 2 powi fexp x"
proof -
  assume x: "0 < x"
  have "x < 2 powi (flog2 x + 1)" using flog2_bounds[OF x] by simp
  also have "\<dots> \<le> 2 powi (53 + fexp x)"
    using x by (intro power_int_increasing) (auto simp: fexp_def)
  also have "\<dots> = 2 ^ 53 * 2 powi fexp x" by (simp add: power_int_add)
  finally show ?thesis .
qed

lemma above_52_bits: "0 < x \<Longrightarrow> - 1074 < fexp x \<Longrightarrow> 2 ^ 52 * 2 powi fexp x \<le> x"
proof -
  assume x: "0 < x" and e: "- 1074 < fexp x"
  have "(2 ^ 52 * 2 powi fexp x :: rat) = 2 powi (52 + fexp x)" by (simp add: power_int_add)
  also have "52 + fexp x = flog2 x" using x e by (auto simp: fexp_def max_def split: if_splits)
  also have "2 powi flog2 x \<le> x" using flog2_bounds[OF x] by simp
  finally show ?thesis .
qed

lemma rhe_ge: "of_int k \<le> x \<Longrightarrow> k \<le> rhe x"
  using rhe_mono[of "of_int k" x] by simp

lemma rhe_le: "x \<le> of_int k \<Longrightarrow> rhe x \<le> k"
  using rhe_mono[of x "of_int k"] by simp

lemma rhe_error: "\<bar>of_int (rhe x) - x\<bar> \<le> 1 / 2"
  unfolding rhe_def Let_def abs_le_iff
  using of_int_floor_le[of x] floor_correct[of x] by (simp add: algebra_simps) linarith

lemma fl_0 [simp]: "fl 0 = 0"
  by (simp add: fl_def)

lemma fl_minus: "fl (- x) = - fl x"
  by (simp add: fl_def rhe_minus)

lemma fl_abs: "fl \<bar>x\<bar> = \<bar>fl x\<bar>" if "0 \<le> fl \<bar>x\<bar>"
  using that by (cases "0 \<le> x") (auto simp: fl_minus abs_if)

lemma fl_mono_pos:
  assumes x: "0 < x" and xy: "x \<le> y"
  shows "fl x \<le> fl y"
proof (cases "fexp x = fexp y")
  case True
  have "rhe (x / 2 powi fexp x) \<le> rhe (y / 2 powi fexp x)"
    using xy by (intro rhe_mono divide_right_mono) auto
  then show ?thesis using x xy True by (simp add: fl_def)
next
  case False
  then have lt: "fexp x < fexp y" using fexp_mono[OF x xy] by simp
  have y: "0 < y" using x xy by simp
  have "rhe (x / 2 powi fexp x) \<le> 2 ^ 53"
    using below_53_bits[OF x] by (intro rhe_le) (simp add: pos_divide_le_eq)
  then have "fl x \<le> of_int (2 ^ 53) * 2 powi fexp x"
    using x unfolding fl_def by (simp del: of_int_power of_int_numeral)
  also have "\<dots> = 2 powi (53 + fexp x)" by (simp add: power_int_add)
  also have "\<dots> \<le> 2 powi (52 + fexp y)" using lt by (intro power_int_increasing) auto
  also have "\<dots> = of_int (2 ^ 52) * 2 powi fexp y" by (simp add: power_int_add)
  also have "\<dots> \<le> fl y"
  proof -
    have "2 ^ 52 \<le> rhe (y / 2 powi fexp y)"
      using above_52_bits[OF y] lt fexp_min[of x] by (intro rhe_ge) (simp add: pos_le_divide_eq)
    then show ?thesis using y unfolding fl_def by (simp del: of_int_power of_int_numeral)
  qed
  finally show ?thesis .
qed

lemma fl_nonneg: "0 \<le> x \<Longrightarrow> 0 \<le> fl x"
  by (auto simp: fl_def intro!: mult_nonneg_nonneg rhe_ge[of 0, simplified])

lemma fl_nonpos: "x \<le> 0 \<Longrightarrow> fl x \<le> 0"
  using fl_nonneg[of "- x"] by (simp add: fl_minus)

lemma fl_mono: "x \<le> y \<Longrightarrow> fl x \<le> fl y"
proof -
  assume xy: "x \<le> y"
  consider "0 < x" | "y < 0" | "x \<le> 0" "0 \<le> y" by linarith
  then show ?thesis
  proof cases
    case 1 then show ?thesis using xy by (rule fl_mono_pos)
  next
    case 2 then show ?thesis using xy fl_mono_pos[of "- y" "- x"] by (simp add: fl_minus)
  next
    case 3 then show ?thesis using fl_nonpos[of x] fl_nonneg[of y] by simp
  qed
qed

lemma fl_repr_aux:
  assumes k: "0 < k" and e: "fexp (of_int k * 2 powi e) \<le> e"
  shows "fl (of_int k * 2 powi e) = of_int k * 2 powi e"
proof -
  let ?x = "of_int k * 2 powi e :: rat"
  have s: "(2 powi e :: rat) = of_int (2 ^ nat (e - fexp ?x)) * 2 powi fexp ?x"
    using e by (simp flip: power_int_of_nat power_int_add)
  have "?x / 2 powi fexp ?x = of_int (k * 2 ^ nat (e - fexp ?x))"
    by (subst s) simp
  then have "fl ?x = of_int (k * 2 ^ nat (e - fexp ?x)) * 2 powi fexp ?x"
    using k unfolding fl_def by (simp only: rhe_of_int) simp
  also have "\<dots> = ?x" by (subst (2) s) simp
  finally show ?thesis .
qed

lemma fl_repr_pos:
  assumes k: "0 < k" "k < 2 ^ 53" and e: "- 1074 \<le> e"
  shows "fl (of_int k * 2 powi e) = of_int k * 2 powi e"
proof (rule fl_repr_aux[OF k(1)])
  let ?x = "of_int k * 2 powi e :: rat"
  have pos: "0 < ?x" using k by simp
  have "(2 powi flog2 ?x :: rat) \<le> ?x" using flog2_bounds[OF pos] by simp
  also have "?x < of_int (2 ^ 53) * 2 powi e"
    using k by (intro mult_strict_right_mono) (simp_all del: of_int_power of_int_numeral)
  also have "\<dots> = 2 powi (53 + e)" by (simp add: power_int_add)
  finally have "flog2 ?x < 53 + e" by (rule powi_less_imp)
  then show "fexp ?x \<le> e" using e pos by (simp add: fexp_def)
qed

lemma fl_repr:
  assumes k: "\<bar>k\<bar> \<le> 2 ^ 53" and e: "- 1074 \<le> e"
  shows "fl (of_int k * 2 powi e) = of_int k * 2 powi e"
proof -
  have pos: "fl (of_int j * 2 powi e) = of_int j * 2 powi e" if j: "0 < j" "j \<le> 2 ^ 53" for j
  proof (cases "j = 2 ^ 53")
    case True
    have "(of_int j * 2 powi e :: rat) = of_int (2 ^ 52) * 2 powi (e + 1)"
      by (simp add: True power_int_add)
    then show ?thesis using fl_repr_pos[of "2 ^ 52" "e + 1"] e by simp
  next
    case False
    then show ?thesis using j e by (intro fl_repr_pos) auto
  qed
  consider "k = 0" | "0 < k" | "0 < - k" by linarith
  then show ?thesis
  proof cases
    case 1 then show ?thesis by simp
  next
    case 2 then show ?thesis using k by (intro pos) auto
  next
    case 3 then show ?thesis using pos[of "- k"] k by (simp add: fl_minus)
  qed
qed

section \<open>Representable numbers\<close>

definition is_float :: "rat \<Rightarrow> bool" where
  "is_float x \<longleftrightarrow> fl x = x"

lemma fl_of_int: "\<bar>k\<bar> \<le> 2 ^ 53 \<Longrightarrow> fl (of_int k) = of_int k"
  using fl_repr[of k 0] by simp

lemma fl_dyadic: "\<bar>k\<bar> \<le> 2 ^ 53 \<Longrightarrow> n \<le> 1074 \<Longrightarrow> fl (of_int k / 2 ^ n) = of_int k / 2 ^ n"
  using fl_repr[of k "- int n"] by (simp add: power_int_minus divide_inverse)

lemma is_float_fl [simp]: "is_float (fl x)"
proof -
  have "fl (fl y) = fl y" if y: "0 < y" for y
  proof -
    define m where "m = rhe (y / 2 powi fexp y)"
    have f: "fl y = of_int m * 2 powi fexp y" using y by (simp add: fl_def m_def)
    have "0 \<le> m" unfolding m_def using y by (intro rhe_ge) simp
    moreover have "m \<le> 2 ^ 53"
      unfolding m_def using below_53_bits[OF y] by (intro rhe_le) (simp add: pos_divide_le_eq)
    ultimately show ?thesis unfolding f by (intro fl_repr fexp_min) auto
  qed
  from this[of x] this[of "- x"] show ?thesis
    by (cases "x = 0"; cases "0 < x") (auto simp: is_float_def fl_minus)
qed

lemma fl_fl [simp]: "fl (fl x) = fl x"
  using is_float_fl[of x] by (simp only: is_float_def)

lemma is_float_0 [simp]: "is_float 0"
  by (simp add: is_float_def)

lemma is_float_minus [simp]: "is_float (- x) \<longleftrightarrow> is_float x"
  by (simp add: is_float_def fl_minus)

lemma fl_le_float: "x \<le> y \<Longrightarrow> is_float y \<Longrightarrow> fl x \<le> y"
  using fl_mono[of x y] by (simp add: is_float_def)

lemma float_le_fl: "x \<le> y \<Longrightarrow> is_float x \<Longrightarrow> x \<le> fl y"
  using fl_mono[of x y] by (simp add: is_float_def)

lemma fl_error:
  "x \<noteq> 0 \<Longrightarrow> \<bar>fl x - x\<bar> \<le> 2 powi (fexp x - 1)"
proof -
  assume "x \<noteq> 0"
  let ?u = "2 powi fexp x :: rat"
  have u: "0 < ?u" by simp
  have "fl x - x = (of_int (rhe (x / ?u)) - x / ?u) * ?u"
    using \<open>x \<noteq> 0\<close> by (simp add: fl_def left_diff_distrib)
  then have "\<bar>fl x - x\<bar> = \<bar>of_int (rhe (x / ?u)) - x / ?u\<bar> * ?u"
    by (simp add: abs_mult)
  also have "\<dots> \<le> (1 / 2) * ?u" using rhe_error u by (intro mult_right_mono) auto
  also have "\<dots> = 2 powi (fexp x - 1)" by (simp add: power_int_diff)
  finally show ?thesis .
qed

section \<open>Python's float operators\<close>

definition fadd :: "rat \<Rightarrow> rat \<Rightarrow> rat" where "fadd x y = fl (x + y)"
definition fsub :: "rat \<Rightarrow> rat \<Rightarrow> rat" where "fsub x y = fl (x - y)"
definition fmul :: "rat \<Rightarrow> rat \<Rightarrow> rat" where "fmul x y = fl (x * y)"
definition fdiv :: "rat \<Rightarrow> rat \<Rightarrow> rat" where "fdiv x y = fl (x / y)"

definition pyround :: "rat \<Rightarrow> nat \<Rightarrow> rat" where
  "pyround x n = fl (of_int (rhe (x * 10 ^ n)) / 10 ^ n)"

lemma pyround_mono: "x \<le> y \<Longrightarrow> pyround x n \<le> pyround y n"
  unfolding pyround_def
  by (intro fl_mono divide_right_mono) (auto intro!: rhe_mono mult_right_mono)

lemma is_float_ops [simp]:
  "is_float (fadd x y)" "is_float (fsub x y)" "is_float (fmul x y)" "is_float (fdiv x y)"
  "is_float (pyround x n)"
  by (simp_all add: fadd_def fsub_def fmul_def fdiv_def pyround_def)

lemma is_float_max: "is_float x \<Longrightarrow> is_float y \<Longrightarrow> is_float (max x y)"
  by (simp add: max_def)

lemma is_float_min: "is_float x \<Longrightarrow> is_float y \<Longrightarrow> is_float (min x y)"
  by (simp add: min_def)

lemma fadd_mono [float_intros]: "x \<le> x' \<Longrightarrow> y \<le> y' \<Longrightarrow> fadd x y \<le> fadd x' y'"
  unfolding fadd_def by (intro fl_mono add_mono)

lemma fsub_mono [float_intros]: "x \<le> x' \<Longrightarrow> y' \<le> y \<Longrightarrow> fsub x y \<le> fsub x' y'"
  unfolding fsub_def by (intro fl_mono diff_mono)

lemma fmul_mono [float_intros]:
  "0 \<le> x \<Longrightarrow> 0 \<le> y' \<Longrightarrow> x \<le> x' \<Longrightarrow> y \<le> y' \<Longrightarrow> 0 \<le> y \<Longrightarrow> fmul x y \<le> fmul x' y'"
  unfolding fmul_def by (intro fl_mono mult_mono) auto

lemma fdiv_mono [float_intros]: "0 < z \<Longrightarrow> x \<le> y \<Longrightarrow> fdiv x z \<le> fdiv y z"
  unfolding fdiv_def by (intro fl_mono divide_right_mono) auto

lemma fadd_nonneg [float_intros]: "0 \<le> x \<Longrightarrow> 0 \<le> y \<Longrightarrow> 0 \<le> fadd x y"
  unfolding fadd_def by (intro fl_nonneg add_nonneg_nonneg)

lemma fmul_nonneg [float_intros]: "0 \<le> x \<Longrightarrow> 0 \<le> y \<Longrightarrow> 0 \<le> fmul x y"
  unfolding fmul_def by (intro fl_nonneg mult_nonneg_nonneg)

lemma fdiv_nonneg [float_intros]: "0 \<le> x \<Longrightarrow> 0 \<le> y \<Longrightarrow> 0 \<le> fdiv x y"
  unfolding fdiv_def by (intro fl_nonneg divide_nonneg_nonneg)

lemma fadd_ge: "is_float x \<Longrightarrow> 0 \<le> y \<Longrightarrow> x \<le> fadd x y"
  unfolding fadd_def by (rule float_le_fl) auto

lemma fsub_le: "is_float x \<Longrightarrow> 0 \<le> y \<Longrightarrow> fsub x y \<le> x"
  unfolding fsub_def by (rule fl_le_float) auto

lemma fsub_nonneg: "y \<le> x \<Longrightarrow> 0 \<le> fsub x y"
  unfolding fsub_def by (rule fl_nonneg) simp

lemma fsub_self [simp]: "fsub x x = 0"
  by (simp add: fsub_def)

lemma fmul_le_float: "x * y \<le> z \<Longrightarrow> is_float z \<Longrightarrow> fmul x y \<le> z"
  unfolding fmul_def by (rule fl_le_float)

lemma fdiv_le_float: "x / y \<le> z \<Longrightarrow> is_float z \<Longrightarrow> fdiv x y \<le> z"
  unfolding fdiv_def by (rule fl_le_float)

lemma fadd_le_float: "x + y \<le> z \<Longrightarrow> is_float z \<Longrightarrow> fadd x y \<le> z"
  unfolding fadd_def by (rule fl_le_float)

lemma is_float_of_int: "\<bar>k\<bar> \<le> 2 ^ 53 \<Longrightarrow> is_float (of_int k)"
  by (simp add: is_float_def fl_of_int)

lemma is_float_numeral [simp]: "(numeral w :: int) \<le> 2 ^ 53 \<Longrightarrow> is_float (numeral w)"
  using is_float_of_int [of "numeral w"] by simp

lemma is_float_1 [simp]: "is_float 1"
  using is_float_of_int [of 1] by simp

lemma is_float_half [simp]: "is_float (1 / 2)"
  using fl_dyadic [of 1 1] by (simp add: is_float_def)

lemma pyround_nonneg [float_intros]: "0 \<le> x \<Longrightarrow> 0 \<le> pyround x n"
  unfolding pyround_def
  by (intro fl_nonneg divide_nonneg_nonneg) (auto intro!: rhe_ge [of 0, simplified])

lemma pyround_of_int: "\<bar>k\<bar> \<le> 2 ^ 53 \<Longrightarrow> pyround (of_int k) n = of_int k"
proof -
  assume k: "\<bar>k\<bar> \<le> 2 ^ 53"
  have "(of_int k * 10 ^ n :: rat) = of_int (k * 10 ^ n)" by simp
  then have "rhe (of_int k * 10 ^ n) = k * 10 ^ n" by (simp only: rhe_of_int)
  then show ?thesis using k by (simp add: pyround_def fl_of_int)
qed

lemma pyround_le_int: "x \<le> of_int k \<Longrightarrow> \<bar>k\<bar> \<le> 2 ^ 53 \<Longrightarrow> pyround x n \<le> of_int k"
  using pyround_mono [of x "of_int k" n] by (simp add: pyround_of_int)

lemma pyround_ge_int: "of_int k \<le> x \<Longrightarrow> \<bar>k\<bar> \<le> 2 ^ 53 \<Longrightarrow> of_int k \<le> pyround x n"
  using pyround_mono [of "of_int k" x n] by (simp add: pyround_of_int)

text \<open>Every float is a multiple of the least subnormal, so a difference of floats never rounds to zero.\<close>

lemma powi_split: "e \<le> f \<Longrightarrow> (2 powi f :: rat) = of_int (2 ^ nat (f - e)) * 2 powi e"
  by (simp flip: power_int_of_nat power_int_add)

lemma is_float_grid: "is_float x \<Longrightarrow> \<exists>k. x = of_int k * 2 powi (- 1074)"
proof -
  assume x: "is_float x"
  define m where "m = rhe (x / 2 powi fexp x)"
  have "x = of_int m * 2 powi fexp x"
    using x by (cases "x = 0") (auto simp: is_float_def fl_def m_def rhe_of_int[of 0, simplified])
  moreover have "(2 powi fexp x :: rat) = of_int (2 ^ nat (fexp x + 1074)) * 2 powi (- 1074)"
    using powi_split[OF fexp_min[of x]] by (simp only: diff_minus_eq_add)
  ultimately have "x = of_int (m * 2 ^ nat (fexp x + 1074)) * 2 powi (- 1074)" by simp
  then show ?thesis ..
qed

lemma fsub_pos: "is_float x \<Longrightarrow> is_float y \<Longrightarrow> x < y \<Longrightarrow> 0 < fsub y x"
proof -
  assume fx: "is_float x" and fy: "is_float y" and lt: "x < y"
  obtain j k where j: "x = of_int j * 2 powi (- 1074)" and k: "y = of_int k * 2 powi (- 1074)"
    using is_float_grid[OF fx] is_float_grid[OF fy] by auto
  have u: "(0 :: rat) < 2 powi (- 1074)" by simp
  have "j < k" using lt u unfolding j k by (simp del: zero_less_power_int add: mult_less_cancel_right)
  then have "(of_int 1 :: rat) * 2 powi (- 1074) \<le> of_int (k - j) * 2 powi (- 1074)"
  proof (intro mult_right_mono)
    show "(of_int 1 :: rat) \<le> of_int (k - j)" using \<open>j < k\<close> unfolding of_int_le_iff by simp
  qed (use u in simp)
  also have "\<dots> = y - x" by (simp add: j k left_diff_distrib)
  finally have "of_int 1 * 2 powi (- 1074) \<le> y - x" .
  moreover have "is_float (of_int 1 * 2 powi (- 1074))"
    unfolding is_float_def by (rule fl_repr) simp_all
  ultimately have "of_int 1 * 2 powi (- 1074) \<le> fsub y x" unfolding fsub_def by (rule float_le_fl)
  then show ?thesis using u by simp
qed

text \<open>
  The unit in the last place of a float \<open>x\<close> is \<open>2 powi fexp x\<close>. A step of one unit reaches another float; and a smaller
  float is at least half a unit away.
\<close>

lemma float_digits:
  assumes "is_float x" "0 < x"
  obtains m where "x = of_int m * 2 powi fexp x" "1 \<le> m" "m < 2 ^ 53"
proof -
  define m where "m = rhe (x / 2 powi fexp x)"
  have x: "x = of_int m * 2 powi fexp x" using assms by (auto simp: is_float_def fl_def m_def)
  have u: "(0 :: rat) < 2 powi fexp x" by simp
  have "0 < m" using assms(2) u by (subst (asm) x) (simp add: zero_less_mult_iff)
  moreover have "of_int m * 2 powi fexp x < of_int (2 ^ 53) * (2 powi fexp x :: rat)"
    using below_53_bits[OF assms(2)] x by simp
  then have "m < 2 ^ 53" using u unfolding mult_less_cancel_right of_int_less_iff by simp
  ultimately show thesis using that[OF x] by simp
qed

lemma float_step:
  assumes "is_float x" "0 < x"
  shows "is_float (x + 2 powi fexp x)" "is_float (x - 2 powi fexp x)"
proof -
  obtain m where m: "x = of_int m * 2 powi fexp x" "1 \<le> m" "m < 2 ^ 53" using float_digits[OF assms] .
  have e: "x + 2 powi fexp x = of_int (m + 1) * 2 powi fexp x" "x - 2 powi fexp x = of_int (m - 1) * 2 powi fexp x"
    by (subst (1) m(1), simp add: algebra_simps)+
  show "is_float (x + 2 powi fexp x)" "is_float (x - 2 powi fexp x)"
    unfolding e is_float_def using m(2,3) fexp_min[of x] by (intro fl_repr; simp)+
qed

lemma float_moves:
  assumes "is_float x" "0 < x" "2 powi fexp x \<le> t"
  shows "x < fadd x t" "fsub x t < x"
proof -
  have u: "(0 :: rat) < 2 powi fexp x" by simp
  have "x + 2 powi fexp x \<le> fadd x t"
    unfolding fadd_def using assms by (intro float_le_fl float_step) auto
  then show "x < fadd x t" using u by linarith
  have "fsub x t \<le> x - 2 powi fexp x"
    unfolding fsub_def using assms by (intro fl_le_float float_step) auto
  then show "fsub x t < x" using u by linarith
qed

lemma grid_gap:
  assumes "x = of_int j * u" "y = of_int k * u" "0 < u" "y < x"
  shows "u \<le> x - (y :: rat)"
proof -
  have "k < j" using assms by (simp add: mult_less_cancel_right)
  then have "of_int 1 * u \<le> of_int (j - k) * u" using assms(3) by (intro mult_right_mono) (auto simp del: of_int_1 of_int_diff)
  then show ?thesis by (simp add: assms(1,2) left_diff_distrib)
qed

lemma float_gap:
  assumes x: "is_float x" "0 < x" and y: "is_float y" "y < x"
  shows "2 powi (fexp x - 1) \<le> x - y"
proof (cases "0 < y")
  case False
  obtain m where m: "x = of_int m * 2 powi fexp x" "1 \<le> m" using float_digits[OF x] .
  have "1 * 2 powi fexp x \<le> of_int m * (2 powi fexp x :: rat)" using m(2) by (intro mult_right_mono) auto
  then have "2 powi fexp x \<le> x" using m(1) by simp
  moreover have "(2 powi (fexp x - 1) :: rat) \<le> 2 powi fexp x" by (intro power_int_increasing) auto
  ultimately show ?thesis using False by linarith
next
  case True
  obtain m where m: "x = of_int m * 2 powi fexp x" "1 \<le> m" using float_digits[OF x] .
  obtain n where n: "y = of_int n * 2 powi fexp y" "n < 2 ^ 53" using float_digits[OF y(1) True] .
  show ?thesis
  proof (cases "fexp x - 1 \<le> fexp y")
    case True
    have "x = of_int (m * 2 ^ nat 1) * 2 powi (fexp x - 1)"
      using powi_split[of "fexp x - 1" "fexp x"] m(1) by simp
    moreover have "y = of_int (n * 2 ^ nat (fexp y - (fexp x - 1))) * 2 powi (fexp x - 1)"
      using powi_split[OF True] n(1) by simp
    ultimately show ?thesis by (rule grid_gap) (use y(2) in auto)
  next
    case False
    have e: "- 1074 < fexp x" using False fexp_min[of y] by linarith
    have "y < 2 ^ 53 * 2 powi fexp y" by (rule below_53_bits[OF \<open>0 < y\<close>])
    also have "\<dots> \<le> 2 ^ 53 * 2 powi (fexp x - 2)"
      using False by (intro mult_left_mono power_int_increasing) auto
    also have "\<dots> = 2 ^ 52 * 2 powi (fexp x - 1)" using powi_split[of "fexp x - 2" "fexp x - 1"] by simp
    finally have *: "y < 4503599627370496 * 2 powi (fexp x - 1)" by simp
    have "2 ^ 52 * 2 powi fexp x \<le> x" by (rule above_52_bits[OF x(2) e])
    moreover have "(2 powi fexp x :: rat) = 2 * 2 powi (fexp x - 1)" using powi_split[of "fexp x - 1" "fexp x"] by simp
    ultimately have "9007199254740992 * 2 powi (fexp x - 1) \<le> x" by simp
    moreover have "(0 :: rat) < 2 powi (fexp x - 1)" by simp
    ultimately show ?thesis using * by linarith
  qed
qed

text \<open>So a distance of twice the gap between two floats moves the larger one, and a gap of one moves the smaller.\<close>

lemma double_gap_moves:
  assumes x: "is_float x" "0 < x" and y: "is_float y" "y \<noteq> x" and k: "2 \<le> k" and d: "d = fsub (max x y) (min x y)"
  shows "x < fadd x (fmul k d)" "fsub x (fmul k d) < x"
proof -
  let ?u = "2 powi fexp x :: rat"
  have half: "?u = 2 * 2 powi (fexp x - 1)" using powi_split[of "fexp x - 1" "fexp x"] by simp
  have gap: "2 powi (fexp x - 1) \<le> max x y - min x y"
  proof (cases "y < x")
    case True
    then show ?thesis using float_gap[OF x y(1)] by simp
  next
    case False
    then have lt: "x < y" using y(2) by simp
    have "(2 powi (fexp x - 1) :: rat) \<le> 2 powi (fexp y - 1)"
      using fexp_mono[OF x(2), of y] lt by (intro power_int_increasing) auto
    then show ?thesis using float_gap[OF y(1) _ x(1) lt] x(2) lt by simp
  qed
  have "?u \<le> 2 * d"
  proof (cases "fexp x = - 1074")
    case True
    obtain i j where "x = of_int i * 2 powi (- 1074)" "y = of_int j * 2 powi (- 1074)"
      using is_float_grid[OF x(1)] is_float_grid[OF y(1)] by auto
    then have "?u \<le> max x y - min x y"
      using grid_gap[of x i ?u y j] grid_gap[of y j ?u x i] y(2) True by (cases "y < x") auto
    moreover have "is_float ?u" using fl_repr[of 1 "fexp x"] fexp_min[of x] by (simp add: is_float_def)
    ultimately have "?u \<le> d" unfolding d fsub_def by (intro float_le_fl)
    moreover have "0 < ?u" by simp
    ultimately show ?thesis by linarith
  next
    case False
    then have "is_float (2 powi (fexp x - 1))" using fl_repr[of 1 "fexp x - 1"] fexp_min[of x] by (simp add: is_float_def)
    then have "2 powi (fexp x - 1) \<le> d" unfolding d fsub_def using gap by (intro float_le_fl)
    then show ?thesis using half by simp
  qed
  moreover have "0 < ?u" by simp
  ultimately have "0 \<le> d" by linarith
  then have "2 * d \<le> k * d" using k by (intro mult_right_mono)
  then have "?u \<le> k * d" using \<open>?u \<le> 2 * d\<close> by linarith
  moreover have "is_float ?u" using fl_repr[of 1 "fexp x"] fexp_min[of x] by (simp add: is_float_def)
  ultimately have "?u \<le> fmul k d" unfolding fmul_def by (intro float_le_fl)
  from float_moves[OF x this] show "x < fadd x (fmul k d)" "fsub x (fmul k d) < x" by auto
qed

text \<open>\<open>sum(xs)\<close> on a list of floats (the left fold of CPython before 3.12, the version the Dockerfile pins).\<close>

definition fsum :: "rat list \<Rightarrow> rat" where
  "fsum xs = foldl fadd 0 xs"

lemma fsum_nonneg [float_intros]: "(\<And>x. x \<in> set xs \<Longrightarrow> 0 \<le> x) \<Longrightarrow> 0 \<le> fsum xs"
proof -
  have "0 \<le> a \<Longrightarrow> (\<And>x. x \<in> set xs \<Longrightarrow> 0 \<le> x) \<Longrightarrow> 0 \<le> foldl fadd a xs" for a
    by (induction xs arbitrary: a) (auto intro: fadd_nonneg)
  then show "(\<And>x. x \<in> set xs \<Longrightarrow> 0 \<le> x) \<Longrightarrow> 0 \<le> fsum xs" by (simp add: fsum_def)
qed

text \<open>\<open>int(x)\<close> on a float: truncation toward zero.\<close>

definition py_int :: "rat \<Rightarrow> int" where
  "py_int x = (if 0 \<le> x then \<lfloor>x\<rfloor> else \<lceil>x\<rceil>)"

lemma py_int_less: "x < of_int (py_int x) + 1"
  by (cases "0 \<le> x") (auto simp: py_int_def, linarith+)

lemma py_int_le: "x \<le> y \<Longrightarrow> 0 \<le> y \<Longrightarrow> of_int (py_int x) \<le> y"
proof (cases "0 \<le> x")
  case False
  then have "of_int \<lceil>x\<rceil> \<le> (0 :: rat)" unfolding of_int_le_0_iff ceiling_le_iff by simp
  also assume "0 \<le> y"
  finally show ?thesis using False by (simp add: py_int_def)
qed (simp add: py_int_def le_floor_iff order_trans[OF of_int_floor_le])

end
