(* ===== verification/Tuning.thy ===== *)
theory Tuning
  imports PyFloat "HOL-Library.List_Lexorder" "HOL-Library.Char_ord"
begin

text \<open>
  \<^verbatim>\<open>app/config/tuning.py\<close>: the bundle of every knob of the harmonic pipeline, its
  construction-time validation (\<open>__post_init__\<close>), the process-local override stack
  (\<open>get_tuning\<close>, \<open>apply_tuning\<close>, \<open>TuningScope\<close>) and the dict serialisation.

  Numbers are binary64 values (\<open>PyFloat\<close>) or ints, dicts are association lists in
  insertion order, the frozenset of family names is a set. Values of numeric dicts are
  rationals: an int value is the same number. A raised \<open>ValueError\<close> is the \<open>Inl\<close> of
  \<open>tuning_error\<close>, one constructor per \<open>raise\<close>, with the values the message prints.
\<close>

section \<open>The constants\<close>

definition REQUIRED_EXTENDED_FAMILIES :: "string list" where
  "REQUIRED_EXTENDED_FAMILIES =
     [''butterfly'', ''deep butterfly'', ''crab'', ''deep crab'', ''shark'', ''deep shark'']"

definition REQUIRED_PATTERN_FAMILIES :: "string list" where
  "REQUIRED_PATTERN_FAMILIES =
     [''gartley'', ''bat'', ''butterfly'', ''crab'', ''deep crab'', ''shark'']"

definition REQUIRED_CONFLUENCE_KEYS :: "string list" where
  "REQUIRED_CONFLUENCE_KEYS =
     [''price_action'', ''htf_trend'', ''rsi'', ''structure'', ''macd'', ''funding'']"

definition REQUIRED_STOP_LOSS_LEVELS :: "string list" where
  "REQUIRED_STOP_LOSS_LEVELS = [''conservative'', ''standard'', ''aggressive'']"

definition REQUIRED_HTF_KEYS :: "string list" where
  "REQUIRED_HTF_KEYS = [''15m'', ''1h'', ''4h'', ''1d'', ''1w'']"

record TuningConstants =
  fib_tp1 :: rat
  fib_tp2 :: rat
  fib_tp3 :: rat
  extended_patterns :: "string set"
  htf_rule :: "(string \<times> string) list"
  atr_stop_buffer :: "(string \<times> rat) list"
  atr_prz_sweep :: rat
  tp_close_pcts :: "int list"
  fee_rate :: rat
  slippage_rate :: rat
  max_d_age_bars :: int
  max_prz_distance_atr :: rat
  max_forming_prz_width_atr :: rat
  authenticity_halve :: int
  authenticity_veto :: int
  adverse_sharpe_threshold :: rat
  regime_moderate :: int
  regime_high :: int
  target_atr_pct :: rat
  default_ttl_bars :: int
  funding_confluence_default :: int
  confluence_weights :: "(string \<times> rat) list"
  a_grade_min :: int
  a_grade_min_high_quant :: int
  high_quant_position_mult :: rat
  pattern_base_score :: "(string \<times> rat) list"
  stability_window :: int
  min_candles :: int
  atr_window :: int
  atr_long_window :: int
  rsi_window :: int
  volume_ma_window :: int
  swing_lookback :: int
  quant_trap_lookback :: int
  volume_authenticity_window :: int
  quant_regime_window :: int
  per_bar_sharpe_window :: int
  slope_trend_up :: rat
  slope_trend_down :: rat
  mult_trending_aligned :: rat
  mult_ranging_aligned :: rat
  mult_trending_inverse :: rat
  mult_ranging_inverse :: rat
  mult_extreme_inverse :: rat
  mult_data_short :: rat
  extreme_deviation_pct :: rat
  min_daily_bars :: int

text \<open>The defaults of the dataclass; \<open>TUNING\<close> is the module singleton built from them.\<close>

definition TUNING :: TuningConstants where
  "TUNING = \<lparr>
     fib_tp1 = fl (191 / 500),
     fib_tp2 = fl (309 / 500),
     fib_tp3 = fl (159 / 125),
     extended_patterns = set REQUIRED_EXTENDED_FAMILIES,
     htf_rule = [(''15m'', ''1h''), (''1h'', ''4h''), (''4h'', ''1D''), (''1d'', ''1W''), (''1w'', ''1ME'')],
     atr_stop_buffer = [(''conservative'', 1), (''standard'', fl (3 / 10)), (''aggressive'', 1 / 4)],
     atr_prz_sweep = fl (3 / 10),
     tp_close_pcts = [50, 30, 20],
     fee_rate = fl (1 / 1000),
     slippage_rate = fl (1 / 2000),
     max_d_age_bars = 20,
     max_prz_distance_atr = 3,
     max_forming_prz_width_atr = 1,
     authenticity_halve = 40,
     authenticity_veto = 25,
     adverse_sharpe_threshold = 1,
     regime_moderate = 35,
     regime_high = 60,
     target_atr_pct = 5 / 2,
     default_ttl_bars = 40,
     funding_confluence_default = 5,
     confluence_weights = [(''price_action'', 25), (''htf_trend'', 25), (''rsi'', 15), (''structure'', 15),
       (''macd'', 10), (''funding'', 10)],
     a_grade_min = 70,
     a_grade_min_high_quant = 85,
     high_quant_position_mult = fl (3 / 5),
     pattern_base_score = [(''gartley'', 5), (''bat'', 2), (''butterfly'', 0), (''crab'', - 3), (''deep crab'', - 5),
       (''shark'', - 8)],
     stability_window = 5,
     min_candles = 60,
     atr_window = 14,
     atr_long_window = 100,
     rsi_window = 14,
     volume_ma_window = 20,
     swing_lookback = 60,
     quant_trap_lookback = 60,
     volume_authenticity_window = 60,
     quant_regime_window = 100,
     per_bar_sharpe_window = 20,
     slope_trend_up = 1 / 2,
     slope_trend_down = - (1 / 2),
     mult_trending_aligned = 1,
     mult_ranging_aligned = 1,
     mult_trending_inverse = fl (3 / 5),
     mult_ranging_inverse = 1 / 2,
     mult_extreme_inverse = fl (6 / 5),
     mult_data_short = fl (4 / 5),
     extreme_deviation_pct = 20,
     min_daily_bars = 210\<rparr>"

section \<open>Validation on construction\<close>

datatype tuning_error =
    FibOrdering rat rat rat
  | TpClosePctsSum int
  | AuthenticityOrdering int int
  | RegimeOrdering int int
  | WeightSum rat
  | WeightKeysMissing "string list"
  | ExtendedFamiliesMissing "string list"
  | StopLevelsMissing "string list"
  | StandardBufferBounds rat
  | HtfIntervalsMissing "string list"
  | PatternFamiliesMissing "string list"
  | ExtremeBelowInverse rat rat
  | AlignedBelowInverse string rat rat
  | DataShortBounds rat
  | ExtremeAboveCeiling rat
  | WindowNotPositive int
  | AtrWindows int int
  | UnknownFieldType string

text \<open>\<open>required - set(present)\<close>, in the order the required keys are listed.\<close>

definition missing_from :: "string list \<Rightarrow> string list \<Rightarrow> string list" where
  "missing_from required present = filter (\<lambda>k. k \<notin> set present) required"

definition int_fields :: "TuningConstants \<Rightarrow> int list" where
  "int_fields t =
     [max_d_age_bars t, default_ttl_bars t, atr_window t, atr_long_window t, rsi_window t,
      volume_ma_window t, swing_lookback t, stability_window t, min_candles t, min_daily_bars t,
      quant_trap_lookback t, volume_authenticity_window t, quant_regime_window t,
      per_bar_sharpe_window t, authenticity_halve t, authenticity_veto t, regime_moderate t,
      regime_high t, a_grade_min t, a_grade_min_high_quant t]"

text \<open>The hard constraints, in the order of the source; \<open>None\<close> when all of them hold.\<close>

definition hard_violation :: "TuningConstants \<Rightarrow> tuning_error option" where
  "hard_violation t =
     (let weight_sum = fsum (vals_of (confluence_weights t));
          missing_keys = missing_from REQUIRED_CONFLUENCE_KEYS (keys_of (confluence_weights t));
          missing_families = filter (\<lambda>k. k \<notin> extended_patterns t) REQUIRED_EXTENDED_FAMILIES;
          missing_levels = missing_from REQUIRED_STOP_LOSS_LEVELS (keys_of (atr_stop_buffer t));
          std = map_of (atr_stop_buffer t) ''standard'';
          missing_intervals = missing_from REQUIRED_HTF_KEYS (keys_of (htf_rule t));
          missing_pat = missing_from REQUIRED_PATTERN_FAMILIES (keys_of (pattern_base_score t))
      in if \<not> (fib_tp1 t < fib_tp2 t \<and> fib_tp2 t < fib_tp3 t)
           then Some (FibOrdering (fib_tp1 t) (fib_tp2 t) (fib_tp3 t))
         else if sum_list (tp_close_pcts t) \<noteq> 100 then Some (TpClosePctsSum (sum_list (tp_close_pcts t)))
         else if \<not> authenticity_veto t < authenticity_halve t
           then Some (AuthenticityOrdering (authenticity_veto t) (authenticity_halve t))
         else if \<not> regime_moderate t < regime_high t
           then Some (RegimeOrdering (regime_moderate t) (regime_high t))
         else if \<bar>fsub weight_sum 100\<bar> > fl (1 / 1000000) then Some (WeightSum weight_sum)
         else if missing_keys \<noteq> [] then Some (WeightKeysMissing missing_keys)
         else if missing_families \<noteq> [] then Some (ExtendedFamiliesMissing missing_families)
         else if missing_levels \<noteq> [] then Some (StopLevelsMissing missing_levels)
         else case std of
           Some x \<Rightarrow>
             if x < fl (2 / 10) \<or> x > 1 / 2 then Some (StandardBufferBounds x)
             else if missing_intervals \<noteq> [] then Some (HtfIntervalsMissing missing_intervals)
             else if missing_pat \<noteq> [] then Some (PatternFamiliesMissing missing_pat)
             else None
         | None \<Rightarrow>
             if missing_intervals \<noteq> [] then Some (HtfIntervalsMissing missing_intervals)
             else if missing_pat \<noteq> [] then Some (PatternFamiliesMissing missing_pat)
             else None)"

text \<open>The soft monotonicity rules of the macro policy and the window checks.\<close>

definition soft_violation :: "TuningConstants \<Rightarrow> tuning_error option" where
  "soft_violation t =
     (let inverse_max = max (mult_trending_inverse t) (mult_ranging_inverse t);
          inverse_min = min (mult_trending_inverse t) (mult_ranging_inverse t)
      in if mult_extreme_inverse t < inverse_max
           then Some (ExtremeBelowInverse (mult_extreme_inverse t) inverse_max)
         else if mult_trending_aligned t < inverse_min
           then Some (AlignedBelowInverse ''mult_trending_aligned'' (mult_trending_aligned t) inverse_min)
         else if mult_ranging_aligned t < inverse_min
           then Some (AlignedBelowInverse ''mult_ranging_aligned'' (mult_ranging_aligned t) inverse_min)
         else if \<not> (1 / 2 \<le> mult_data_short t \<and> mult_data_short t \<le> 1)
           then Some (DataShortBounds (mult_data_short t))
         else if mult_extreme_inverse t > 3 / 2
           then Some (ExtremeAboveCeiling (mult_extreme_inverse t))
         else case filter (\<lambda>v. v \<le> 0) (int_fields t) of
           v # _ \<Rightarrow> Some (WindowNotPositive v)
         | [] \<Rightarrow>
             if atr_long_window t < atr_window t
             then Some (AtrWindows (atr_long_window t) (atr_window t)) else None)"

definition post_init :: "TuningConstants \<Rightarrow> tuning_error + TuningConstants" where
  "post_init t =
     (case hard_violation t of
        Some e \<Rightarrow> Inl e
      | None \<Rightarrow> (case soft_violation t of Some e \<Rightarrow> Inl e | None \<Rightarrow> Inr t))"

definition valid_tuning :: "TuningConstants \<Rightarrow> bool" where
  "valid_tuning t = (post_init t = Inr t)"

lemma valid_tuning_iff:
  "valid_tuning t \<longleftrightarrow> hard_violation t = None \<and> soft_violation t = None"
  by (auto simp: valid_tuning_def post_init_def split: option.splits)

lemma post_init_Inr: "post_init t = Inr t' \<Longrightarrow> t' = t \<and> valid_tuning t"
  by (auto simp: valid_tuning_def post_init_def split: option.splits)

lemma missing_from_Nil: "missing_from req present = [] \<longleftrightarrow> set req \<subseteq> set present"
  by (auto simp: missing_from_def filter_empty_conv)

text \<open>What the rest of the pipeline relies on once an instance exists.\<close>

lemma valid_fib:
  "valid_tuning t \<Longrightarrow> fib_tp1 t < fib_tp2 t \<and> fib_tp2 t < fib_tp3 t"
  by (auto simp: valid_tuning_iff hard_violation_def Let_def split: if_splits option.splits)

lemma valid_stop_levels:
  "valid_tuning t \<Longrightarrow> set REQUIRED_STOP_LOSS_LEVELS \<subseteq> dom (map_of (atr_stop_buffer t))"
  by (auto simp: valid_tuning_iff hard_violation_def Let_def missing_from_Nil keys_of_def
      dom_map_of_conv_image_fst split: if_splits option.splits)

lemma valid_standard_buffer:
  "valid_tuning t \<Longrightarrow> map_of (atr_stop_buffer t) ''standard'' = Some x \<Longrightarrow> fl (2 / 10) \<le> x \<and> x \<le> 1 / 2"
  by (auto simp: valid_tuning_iff hard_violation_def Let_def split: if_splits)

lemma valid_mults:
  assumes "valid_tuning t"
  shows "mult_extreme_inverse t \<le> 3 / 2"
    and "mult_trending_inverse t \<le> mult_extreme_inverse t"
    and "mult_ranging_inverse t \<le> mult_extreme_inverse t"
    and "1 / 2 \<le> mult_data_short t" and "mult_data_short t \<le> 1"
  using assms by (auto simp: valid_tuning_iff soft_violation_def Let_def split: if_splits)

lemma valid_windows: "valid_tuning t \<Longrightarrow> v \<in> set (int_fields t) \<Longrightarrow> 0 < v"
proof -
  assume "valid_tuning t" and v: "v \<in> set (int_fields t)"
  then have "filter (\<lambda>v. v \<le> 0) (int_fields t) = []"
    unfolding valid_tuning_iff soft_violation_def Let_def by (auto split: if_splits list.splits)
  with v show ?thesis by (simp add: filter_empty_conv not_le)
qed

lemma valid_regime_order:
  assumes "valid_tuning t"
  shows "0 < regime_moderate t \<and> regime_moderate t < regime_high t"
proof -
  have "regime_moderate t \<in> set (int_fields t)" by (simp add: int_fields_def)
  then have "0 < regime_moderate t" by (rule valid_windows [OF assms])
  moreover have "regime_moderate t < regime_high t"
    using assms by (auto simp: valid_tuning_iff hard_violation_def Let_def split: if_splits)
  ultimately show ?thesis by simp
qed

section \<open>The effective tuning: applied value and scope stack\<close>

text \<open>\<open>scopes\<close> is the module list \<open>_tuning_context\<close>: \<open>__enter__\<close> appends, \<open>__exit__\<close> pops.\<close>

record tuning_state =
  applied :: "TuningConstants option"
  scopes :: "TuningConstants list"

definition get_tuning :: "tuning_state \<Rightarrow> TuningConstants" where
  "get_tuning s =
     (if scopes s \<noteq> [] then last (scopes s)
      else case applied s of Some t \<Rightarrow> t | None \<Rightarrow> TUNING)"

definition apply_tuning :: "TuningConstants \<Rightarrow> tuning_state \<Rightarrow> tuning_state" where
  "apply_tuning t s = s\<lparr>applied := Some t\<rparr>"

definition reset_tuning :: "tuning_state \<Rightarrow> tuning_state" where
  "reset_tuning s = s\<lparr>applied := None\<rparr>"

definition scope_enter :: "TuningConstants \<Rightarrow> tuning_state \<Rightarrow> tuning_state" where
  "scope_enter t s = s\<lparr>scopes := scopes s @ [t]\<rparr>"

text \<open>\<open>list.pop()\<close> of an empty list raises; \<open>None\<close> is that IndexError.\<close>

definition scope_exit :: "tuning_state \<Rightarrow> tuning_state option" where
  "scope_exit s = (if scopes s = [] then None else Some (s\<lparr>scopes := butlast (scopes s)\<rparr>))"

text \<open>
  Client programs over this state: a body that applies, resets, opens nested scopes or
  raises. \<open>with TuningScope(t): body\<close> runs \<open>__exit__\<close> whether or not the body raised;
  the flag of the result says whether an exception is propagating.
\<close>

datatype tcmd = TApply TuningConstants | TReset | TRaise | TScope TuningConstants "tcmd list"

fun run_tcmd :: "tcmd \<Rightarrow> tuning_state \<Rightarrow> (tuning_state \<times> bool) option"
  and run_tcmds :: "tcmd list \<Rightarrow> tuning_state \<Rightarrow> (tuning_state \<times> bool) option" where
  "run_tcmd (TApply t) s = Some (apply_tuning t s, False)"
| "run_tcmd TReset s = Some (reset_tuning s, False)"
| "run_tcmd TRaise s = Some (s, True)"
| "run_tcmd (TScope t body) s =
     (case run_tcmds body (scope_enter t s) of
        None \<Rightarrow> None
      | Some (s', raised) \<Rightarrow> map_option (\<lambda>s''. (s'', raised)) (scope_exit s'))"
| "run_tcmds [] s = Some (s, False)"
| "run_tcmds (c # cs) s =
     (case run_tcmd c s of
        None \<Rightarrow> None
      | Some (s', raised) \<Rightarrow> if raised then Some (s', True) else run_tcmds cs s')"

fun touches_applied :: "tcmd \<Rightarrow> bool" where
  "touches_applied (TApply _) = True"
| "touches_applied TReset = True"
| "touches_applied TRaise = False"
| "touches_applied (TScope _ body) = list_ex touches_applied body"

lemma scope_exit_enter: "scopes s' = scopes (scope_enter t s) \<Longrightarrow>
   scope_exit s' = Some (s'\<lparr>scopes := scopes s\<rparr>)"
  by (simp add: scope_exit_def scope_enter_def)

lemma run_tcmds_balanced:
  "\<exists>s' r. run_tcmd c s = Some (s', r) \<and> scopes s' = scopes s"
  "\<exists>s' r. run_tcmds cs s = Some (s', r) \<and> scopes s' = scopes s"
proof (induction c s and cs s rule: run_tcmd_run_tcmds.induct)
  case (4 t body s)
  then obtain s' r where "run_tcmds body (scope_enter t s) = Some (s', r)"
    and "scopes s' = scopes (scope_enter t s)" by blast
  then show ?case using scope_exit_enter [of s' t s] by simp
next
  case (6 c cs s)
  then obtain s' r where 1: "run_tcmd c s = Some (s', r)" "scopes s' = scopes s" by blast
  show ?case
  proof (cases r)
    case True
    then show ?thesis using 1 by auto
  next
    case False
    then show ?thesis using "6.IH"(2) [OF 1(1)] 1 by auto
  qed
qed (auto simp: apply_tuning_def reset_tuning_def)

lemma run_tcmds_applied:
  "run_tcmd c s = Some (s', r) \<Longrightarrow> \<not> touches_applied c \<Longrightarrow> applied s' = applied s"
  "run_tcmds cs s = Some (s', r) \<Longrightarrow> \<not> list_ex touches_applied cs \<Longrightarrow> applied s' = applied s"
proof (induction c s and cs s arbitrary: s' r and s' r rule: run_tcmd_run_tcmds.induct)
  case (4 t body s)
  from "4.prems"(1) obtain s1 where "run_tcmds body (scope_enter t s) = Some (s1, r)"
    and "scope_exit s1 = Some s'" by (auto split: option.splits)
  with "4.IH" [of s1 r] "4.prems"(2) show ?case
    by (auto simp: scope_exit_def scope_enter_def split: if_splits)
next
  case (6 c cs s)
  from "6.prems"(1) obtain s1 r1 where 1: "run_tcmd c s = Some (s1, r1)"
    and 2: "if r1 then s1 = s' else run_tcmds cs s1 = Some (s', r)"
    by (auto split: option.splits if_splits)
  have "applied s1 = applied s" using "6.IH"(1) [OF 1] "6.prems"(2) by simp
  then show ?case using "6.IH"(2) [OF 1 refl, of s' r] 2 "6.prems"(2) by (cases r1) auto
qed auto

section \<open>Serialisation to a plain dict and back\<close>

text \<open>
  The value of one field. \<open>FStrList\<close> is the sorted list that \<open>to_dict\<close> writes for a
  frozenset.
\<close>

datatype fieldval =
    FFloat rat
  | FInt int
  | FNumDict "(string \<times> rat) list"
  | FStrDict "(string \<times> string) list"
  | FStrSet "string set"
  | FIntTuple "int list"
  | FStrList "string list"

text \<open>
  \<open>setattr\<close> for one field. A value of another Python type has no place in the typed record:
  \<open>None\<close> (the source would store it and fail at its first use).
\<close>

fun put_Float :: "(rat \<Rightarrow> 't \<Rightarrow> 't) \<Rightarrow> fieldval \<Rightarrow> 't \<Rightarrow> 't option" where
  "put_Float f (FFloat v) t = Some (f v t)"
| "put_Float f _ t = None"

fun put_Int :: "(int \<Rightarrow> 't \<Rightarrow> 't) \<Rightarrow> fieldval \<Rightarrow> 't \<Rightarrow> 't option" where
  "put_Int f (FInt v) t = Some (f v t)"
| "put_Int f _ t = None"

fun put_NumDict :: "((string \<times> rat) list \<Rightarrow> 't \<Rightarrow> 't) \<Rightarrow> fieldval \<Rightarrow> 't \<Rightarrow> 't option" where
  "put_NumDict f (FNumDict v) t = Some (f v t)"
| "put_NumDict f _ t = None"

fun put_StrDict :: "((string \<times> string) list \<Rightarrow> 't \<Rightarrow> 't) \<Rightarrow> fieldval \<Rightarrow> 't \<Rightarrow> 't option" where
  "put_StrDict f (FStrDict v) t = Some (f v t)"
| "put_StrDict f _ t = None"

fun put_StrSet :: "(string set \<Rightarrow> 't \<Rightarrow> 't) \<Rightarrow> fieldval \<Rightarrow> 't \<Rightarrow> 't option" where
  "put_StrSet f (FStrSet v) t = Some (f v t)"
| "put_StrSet f _ t = None"

fun put_IntTuple :: "(int list \<Rightarrow> 't \<Rightarrow> 't) \<Rightarrow> fieldval \<Rightarrow> 't \<Rightarrow> 't option" where
  "put_IntTuple f (FIntTuple v) t = Some (f v t)"
| "put_IntTuple f _ t = None"

text \<open>\<open>dataclasses.fields\<close>: every field with its name, \<open>getattr\<close> and \<open>setattr\<close>.\<close>

definition field_table :: "(string \<times> (TuningConstants \<Rightarrow> fieldval) \<times> (fieldval \<Rightarrow> TuningConstants \<Rightarrow> TuningConstants option)) list" where
  "field_table = [
     (''fib_tp1'', (\<lambda>t. FFloat (fib_tp1 t)), put_Float (\<lambda>v t. t\<lparr>fib_tp1 := v\<rparr>)),
     (''fib_tp2'', (\<lambda>t. FFloat (fib_tp2 t)), put_Float (\<lambda>v t. t\<lparr>fib_tp2 := v\<rparr>)),
     (''fib_tp3'', (\<lambda>t. FFloat (fib_tp3 t)), put_Float (\<lambda>v t. t\<lparr>fib_tp3 := v\<rparr>)),
     (''extended_patterns'', (\<lambda>t. FStrSet (extended_patterns t)), put_StrSet (\<lambda>v t. t\<lparr>extended_patterns := v\<rparr>)),
     (''htf_rule'', (\<lambda>t. FStrDict (htf_rule t)), put_StrDict (\<lambda>v t. t\<lparr>htf_rule := v\<rparr>)),
     (''atr_stop_buffer'', (\<lambda>t. FNumDict (atr_stop_buffer t)), put_NumDict (\<lambda>v t. t\<lparr>atr_stop_buffer := v\<rparr>)),
     (''atr_prz_sweep'', (\<lambda>t. FFloat (atr_prz_sweep t)), put_Float (\<lambda>v t. t\<lparr>atr_prz_sweep := v\<rparr>)),
     (''tp_close_pcts'', (\<lambda>t. FIntTuple (tp_close_pcts t)), put_IntTuple (\<lambda>v t. t\<lparr>tp_close_pcts := v\<rparr>)),
     (''fee_rate'', (\<lambda>t. FFloat (fee_rate t)), put_Float (\<lambda>v t. t\<lparr>fee_rate := v\<rparr>)),
     (''slippage_rate'', (\<lambda>t. FFloat (slippage_rate t)), put_Float (\<lambda>v t. t\<lparr>slippage_rate := v\<rparr>)),
     (''max_d_age_bars'', (\<lambda>t. FInt (max_d_age_bars t)), put_Int (\<lambda>v t. t\<lparr>max_d_age_bars := v\<rparr>)),
     (''max_prz_distance_atr'', (\<lambda>t. FFloat (max_prz_distance_atr t)), put_Float (\<lambda>v t. t\<lparr>max_prz_distance_atr := v\<rparr>)),
     (''max_forming_prz_width_atr'', (\<lambda>t. FFloat (max_forming_prz_width_atr t)), put_Float (\<lambda>v t. t\<lparr>max_forming_prz_width_atr := v\<rparr>)),
     (''authenticity_halve'', (\<lambda>t. FInt (authenticity_halve t)), put_Int (\<lambda>v t. t\<lparr>authenticity_halve := v\<rparr>)),
     (''authenticity_veto'', (\<lambda>t. FInt (authenticity_veto t)), put_Int (\<lambda>v t. t\<lparr>authenticity_veto := v\<rparr>)),
     (''adverse_sharpe_threshold'', (\<lambda>t. FFloat (adverse_sharpe_threshold t)), put_Float (\<lambda>v t. t\<lparr>adverse_sharpe_threshold := v\<rparr>)),
     (''regime_moderate'', (\<lambda>t. FInt (regime_moderate t)), put_Int (\<lambda>v t. t\<lparr>regime_moderate := v\<rparr>)),
     (''regime_high'', (\<lambda>t. FInt (regime_high t)), put_Int (\<lambda>v t. t\<lparr>regime_high := v\<rparr>)),
     (''target_atr_pct'', (\<lambda>t. FFloat (target_atr_pct t)), put_Float (\<lambda>v t. t\<lparr>target_atr_pct := v\<rparr>)),
     (''default_ttl_bars'', (\<lambda>t. FInt (default_ttl_bars t)), put_Int (\<lambda>v t. t\<lparr>default_ttl_bars := v\<rparr>)),
     (''funding_confluence_default'', (\<lambda>t. FInt (funding_confluence_default t)), put_Int (\<lambda>v t. t\<lparr>funding_confluence_default := v\<rparr>)),
     (''confluence_weights'', (\<lambda>t. FNumDict (confluence_weights t)), put_NumDict (\<lambda>v t. t\<lparr>confluence_weights := v\<rparr>)),
     (''a_grade_min'', (\<lambda>t. FInt (a_grade_min t)), put_Int (\<lambda>v t. t\<lparr>a_grade_min := v\<rparr>)),
     (''a_grade_min_high_quant'', (\<lambda>t. FInt (a_grade_min_high_quant t)), put_Int (\<lambda>v t. t\<lparr>a_grade_min_high_quant := v\<rparr>)),
     (''high_quant_position_mult'', (\<lambda>t. FFloat (high_quant_position_mult t)), put_Float (\<lambda>v t. t\<lparr>high_quant_position_mult := v\<rparr>)),
     (''pattern_base_score'', (\<lambda>t. FNumDict (pattern_base_score t)), put_NumDict (\<lambda>v t. t\<lparr>pattern_base_score := v\<rparr>)),
     (''stability_window'', (\<lambda>t. FInt (stability_window t)), put_Int (\<lambda>v t. t\<lparr>stability_window := v\<rparr>)),
     (''min_candles'', (\<lambda>t. FInt (min_candles t)), put_Int (\<lambda>v t. t\<lparr>min_candles := v\<rparr>)),
     (''atr_window'', (\<lambda>t. FInt (atr_window t)), put_Int (\<lambda>v t. t\<lparr>atr_window := v\<rparr>)),
     (''atr_long_window'', (\<lambda>t. FInt (atr_long_window t)), put_Int (\<lambda>v t. t\<lparr>atr_long_window := v\<rparr>)),
     (''rsi_window'', (\<lambda>t. FInt (rsi_window t)), put_Int (\<lambda>v t. t\<lparr>rsi_window := v\<rparr>)),
     (''volume_ma_window'', (\<lambda>t. FInt (volume_ma_window t)), put_Int (\<lambda>v t. t\<lparr>volume_ma_window := v\<rparr>)),
     (''swing_lookback'', (\<lambda>t. FInt (swing_lookback t)), put_Int (\<lambda>v t. t\<lparr>swing_lookback := v\<rparr>)),
     (''quant_trap_lookback'', (\<lambda>t. FInt (quant_trap_lookback t)), put_Int (\<lambda>v t. t\<lparr>quant_trap_lookback := v\<rparr>)),
     (''volume_authenticity_window'', (\<lambda>t. FInt (volume_authenticity_window t)), put_Int (\<lambda>v t. t\<lparr>volume_authenticity_window := v\<rparr>)),
     (''quant_regime_window'', (\<lambda>t. FInt (quant_regime_window t)), put_Int (\<lambda>v t. t\<lparr>quant_regime_window := v\<rparr>)),
     (''per_bar_sharpe_window'', (\<lambda>t. FInt (per_bar_sharpe_window t)), put_Int (\<lambda>v t. t\<lparr>per_bar_sharpe_window := v\<rparr>)),
     (''slope_trend_up'', (\<lambda>t. FFloat (slope_trend_up t)), put_Float (\<lambda>v t. t\<lparr>slope_trend_up := v\<rparr>)),
     (''slope_trend_down'', (\<lambda>t. FFloat (slope_trend_down t)), put_Float (\<lambda>v t. t\<lparr>slope_trend_down := v\<rparr>)),
     (''mult_trending_aligned'', (\<lambda>t. FFloat (mult_trending_aligned t)), put_Float (\<lambda>v t. t\<lparr>mult_trending_aligned := v\<rparr>)),
     (''mult_ranging_aligned'', (\<lambda>t. FFloat (mult_ranging_aligned t)), put_Float (\<lambda>v t. t\<lparr>mult_ranging_aligned := v\<rparr>)),
     (''mult_trending_inverse'', (\<lambda>t. FFloat (mult_trending_inverse t)), put_Float (\<lambda>v t. t\<lparr>mult_trending_inverse := v\<rparr>)),
     (''mult_ranging_inverse'', (\<lambda>t. FFloat (mult_ranging_inverse t)), put_Float (\<lambda>v t. t\<lparr>mult_ranging_inverse := v\<rparr>)),
     (''mult_extreme_inverse'', (\<lambda>t. FFloat (mult_extreme_inverse t)), put_Float (\<lambda>v t. t\<lparr>mult_extreme_inverse := v\<rparr>)),
     (''mult_data_short'', (\<lambda>t. FFloat (mult_data_short t)), put_Float (\<lambda>v t. t\<lparr>mult_data_short := v\<rparr>)),
     (''extreme_deviation_pct'', (\<lambda>t. FFloat (extreme_deviation_pct t)), put_Float (\<lambda>v t. t\<lparr>extreme_deviation_pct := v\<rparr>)),
     (''min_daily_bars'', (\<lambda>t. FInt (min_daily_bars t)), put_Int (\<lambda>v t. t\<lparr>min_daily_bars := v\<rparr>))]"

definition field_names :: "string list" where
  "field_names = map fst field_table"

definition getattr :: "TuningConstants \<Rightarrow> string \<Rightarrow> fieldval option" where
  "getattr t name = map_option (\<lambda>(get, _). get t) (map_of field_table name)"

text \<open>\<open>dataclasses.replace(t, name=v)\<close>: the copy with one field changed, validated again.\<close>

definition replace_field :: "TuningConstants \<Rightarrow> string \<Rightarrow> fieldval \<Rightarrow> tuning_error + TuningConstants" where
  "replace_field t name v =
     (case map_of field_table name of
        None \<Rightarrow> Inl (UnknownFieldType name)
      | Some (_, put) \<Rightarrow>
          (case put v t of None \<Rightarrow> Inl (UnknownFieldType name) | Some t' \<Rightarrow> post_init t'))"

fun plain :: "fieldval \<Rightarrow> fieldval" where
  "plain (FStrSet s) = FStrList (sorted_list_of_set s)"
| "plain v = v"

definition to_dict :: "TuningConstants \<Rightarrow> (string \<times> fieldval) list" where
  "to_dict t = map (\<lambda>(n, get, _). (n, plain (get t))) field_table"

fun coerce :: "fieldval \<Rightarrow> fieldval \<Rightarrow> fieldval" where
  "coerce (FStrSet _) (FStrList l) = FStrSet (set l)"
| "coerce existing v = v"

fun override_all ::
  "(string \<times> (TuningConstants \<Rightarrow> fieldval) \<times> (fieldval \<Rightarrow> TuningConstants \<Rightarrow> TuningConstants option)) list
   \<Rightarrow> (string \<times> fieldval) list \<Rightarrow> TuningConstants \<Rightarrow> tuning_error + TuningConstants" where
  "override_all [] d t = Inr t"
| "override_all ((n, get, put) # fs) d t =
     (case map_of d n of
        None \<Rightarrow> override_all fs d t
      | Some v \<Rightarrow> (case put (coerce (get TUNING) v) t of
                   None \<Rightarrow> Inl (UnknownFieldType n)
                 | Some t' \<Rightarrow> override_all fs d t'))"

definition from_dict :: "(string \<times> fieldval) list \<Rightarrow> tuning_error + TuningConstants" where
  "from_dict d = (case override_all field_table d TUNING of Inl e \<Rightarrow> Inl e | Inr t \<Rightarrow> post_init t)"

lemma distinct_field_names: "distinct field_names"
  unfolding field_names_def field_table_def by code_simp

lemma map_of_to_dict:
  "(n, get, put) \<in> set field_table \<Longrightarrow> map_of (to_dict t) n = Some (plain (get t))"
proof -
  assume in_tab: "(n, get, put) \<in> set field_table"
  have "map fst (to_dict t) = field_names"
    by (simp add: to_dict_def field_names_def split_def)
  then have "distinct (map fst (to_dict t))" by (simp add: distinct_field_names)
  moreover have "(n, plain (get t)) \<in> set (to_dict t)"
    using in_tab by (force simp: to_dict_def)
  ultimately show ?thesis by (rule map_of_is_SomeI)
qed

text \<open>Overriding from \<open>to_dict t\<close> never looks past the field itself, so it is a fold of the setters.\<close>

fun set_all where
  "set_all [] t u = Some u"
| "set_all ((n, get, put) # fs) t u =
     (case put (coerce (get TUNING) (plain (get t))) u of
        None \<Rightarrow> None | Some u' \<Rightarrow> set_all fs t u')"

lemma override_all_to_dict:
  "set fs \<subseteq> set field_table \<Longrightarrow> set_all fs t u = Some w \<Longrightarrow> override_all fs (to_dict t) u = Inr w"
  by (induction fs arbitrary: u)
    (auto simp: map_of_to_dict split: option.splits)

lemma set_all_field_table:
  "finite (extended_patterns t) \<Longrightarrow> set_all field_table t TUNING = Some t"
  unfolding field_table_def by (simp add: TUNING_def)

lemma from_dict_to_dict_aux:
  "finite (extended_patterns t) \<Longrightarrow> from_dict (to_dict t) = post_init t"
  using override_all_to_dict [OF subset_refl set_all_field_table]
  by (simp add: from_dict_def)

section \<open>The search clusters\<close>

definition clusters :: "(string \<times> string list) list" where
  "clusters = [
     (''C1 Geometry'', [''atr_stop_buffer'', ''atr_prz_sweep'', ''tp_close_pcts'', ''fee_rate'', ''slippage_rate'']),
     (''C2 Discipline'', [''max_d_age_bars'', ''max_prz_distance_atr'', ''max_forming_prz_width_atr'',
        ''authenticity_halve'', ''authenticity_veto'', ''adverse_sharpe_threshold'', ''regime_moderate'',
        ''regime_high'', ''target_atr_pct'', ''default_ttl_bars'']),
     (''C3 Confluence'', [''confluence_weights'', ''a_grade_min'', ''a_grade_min_high_quant'',
        ''high_quant_position_mult'', ''pattern_base_score'', ''stability_window'', ''min_candles'',
        ''atr_window'', ''atr_long_window'', ''rsi_window'', ''volume_ma_window'', ''swing_lookback'']),
     (''C4 Macro'', [''slope_trend_up'', ''slope_trend_down'', ''mult_trending_aligned'', ''mult_ranging_aligned'',
        ''mult_trending_inverse'', ''mult_ranging_inverse'', ''mult_extreme_inverse'', ''mult_data_short'',
        ''extreme_deviation_pct'', ''min_daily_bars'']),
     (''C5 Windows'', [''quant_trap_lookback'', ''volume_authenticity_window'', ''quant_regime_window'',
        ''per_bar_sharpe_window''])]"

section \<open>The defaults are valid\<close>

lemma field_names_list: "field_names = [''fib_tp1'', ''fib_tp2'', ''fib_tp3'', ''extended_patterns'', ''htf_rule'', ''atr_stop_buffer'',
        ''atr_prz_sweep'', ''tp_close_pcts'', ''fee_rate'', ''slippage_rate'', ''max_d_age_bars'',
        ''max_prz_distance_atr'', ''max_forming_prz_width_atr'', ''authenticity_halve'', ''authenticity_veto'',
        ''adverse_sharpe_threshold'', ''regime_moderate'', ''regime_high'', ''target_atr_pct'',
        ''default_ttl_bars'', ''funding_confluence_default'', ''confluence_weights'', ''a_grade_min'',
        ''a_grade_min_high_quant'', ''high_quant_position_mult'', ''pattern_base_score'', ''stability_window'',
        ''min_candles'', ''atr_window'', ''atr_long_window'', ''rsi_window'', ''volume_ma_window'',
        ''swing_lookback'', ''quant_trap_lookback'', ''volume_authenticity_window'', ''quant_regime_window'',
        ''per_bar_sharpe_window'', ''slope_trend_up'', ''slope_trend_down'', ''mult_trending_aligned'',
        ''mult_ranging_aligned'', ''mult_trending_inverse'', ''mult_ranging_inverse'', ''mult_extreme_inverse'',
        ''mult_data_short'', ''extreme_deviation_pct'', ''min_daily_bars'']"
  by (simp add: field_names_def field_table_def)
lemma TUNING_fields:
  "atr_stop_buffer TUNING = [(''conservative'', 1), (''standard'', fl (3 / 10)), (''aggressive'', 1 / 4)]"
  "extended_patterns TUNING = set REQUIRED_EXTENDED_FAMILIES"
  "fib_tp1 TUNING = fl (191 / 500)" "fib_tp2 TUNING = fl (309 / 500)" "fib_tp3 TUNING = fl (159 / 125)"
  "tp_close_pcts TUNING = [50, 30, 20]"
  by (simp_all add: TUNING_def)
lemma tuning_literals:
  "fl (191 / 500) < fl (309 / 500)" "fl (309 / 500) < fl (159 / 125)"
  "fl (3 / 5) < 1" "fl (6/5) > 1" "fl (6/5) < 3/2" "fl (4/5) < 1" "fl (4/5) > 1/2" "fl (2/10) < fl (3/10)" "fl (3/10) < 1/2" "0 < fl (1/1000000)" "1/2 < fl (3/5)" "fl (3/5) < fl (6/5)"
  by code_simp+
lemma default_weights: "fsum [25,25,15,15,10,10] = 100"
  by code_simp
lemma TUNING_hard: "hard_violation TUNING = None"
  using tuning_literals default_weights
  by (simp add: hard_violation_def Let_def TUNING_def vals_of_def keys_of_def missing_from_def
   REQUIRED_CONFLUENCE_KEYS_def REQUIRED_EXTENDED_FAMILIES_def REQUIRED_STOP_LOSS_LEVELS_def REQUIRED_HTF_KEYS_def REQUIRED_PATTERN_FAMILIES_def fsub_def not_less less_imp_le)
lemma TUNING_soft: "soft_violation TUNING = None"
  using tuning_literals
  by (simp add: soft_violation_def Let_def TUNING_def int_fields_def not_less less_imp_le max_def min_def)
lemma TUNING_valid: "valid_tuning TUNING"
  by (simp add: valid_tuning_iff TUNING_hard TUNING_soft)

section \<open>Properties\<close>

text \<open>
  A validated tuning survives serialisation. \<open>from_dict(to_dict(t))\<close> rebuilds exactly \<open>t\<close>,
  every field included, through the sorted list the family set is written as.
\<close>

theorem tuning_round_trip:
  assumes "valid_tuning t" "finite (extended_patterns t)"
  shows "from_dict (to_dict t) = Inr t"
  using assms from_dict_to_dict_aux [of t] by (simp add: valid_tuning_def)

theorem tuning_round_trip_witness: "from_dict (to_dict TUNING) = Inr TUNING"
  by (rule tuning_round_trip) (simp_all add: TUNING_valid TUNING_fields)

text \<open>
  Scoped overrides are undone on every exit. Any program of applies, resets, nested scopes
  and raises leaves the scope stack as it found it, so the effective tuning after a \<open>with
  TuningScope\<close> block is the one before it whenever an outer scope is active or the block does
  not itself apply or reset, whether the block ended normally or raised; inside the block the
  scoped value is in force.
\<close>

theorem tuning_scope_restored:
  assumes "scopes s \<noteq> [] \<or> \<not> list_ex touches_applied body"
  shows "get_tuning (scope_enter t s) = t \<and>
    (\<exists>s' raised. run_tcmd (TScope t body) s = Some (s', raised) \<and> scopes s' = scopes s \<and>
       get_tuning s' = get_tuning s)"
proof -
  obtain s' r where run: "run_tcmd (TScope t body) s = Some (s', r)" and sc: "scopes s' = scopes s"
    using run_tcmds_balanced(1) by blast
  have "applied s' = applied s" if "\<not> list_ex touches_applied body"
    using run_tcmds_applied(1) [OF run] that by simp
  then have "get_tuning s' = get_tuning s"
    using assms sc by (auto simp: get_tuning_def)
  then show ?thesis using run sc by (simp add: get_tuning_def scope_enter_def)
qed

theorem tuning_scope_restored_witness:
  "\<exists>s' raised. run_tcmd (TScope TUNING [TScope TUNING [TRaise]]) \<lparr>applied = None, scopes = []\<rparr> = Some (s', raised) \<and>
     scopes s' = [] \<and> get_tuning s' = TUNING"
  using tuning_scope_restored [of "\<lparr>applied = None, scopes = []\<rparr>" "[TScope TUNING [TRaise]]" TUNING]
  by (simp add: get_tuning_def)

text \<open>
  Every field name a search cluster freezes is a real field of the dataclass, and no field
  belongs to two clusters, so a per-cluster search can neither miss its target by a typo nor have
  two clusters fight over one knob. The only fields outside the clusters are the ones listed.
\<close>

theorem clusters_partition_fields:
  "set (concat (map snd clusters)) \<subseteq> set field_names \<and> distinct (concat (map snd clusters)) \<and>
   filter (\<lambda>n. n \<notin> set (concat (map snd clusters))) field_names = [''fib_tp1'', ''fib_tp2'', ''fib_tp3'', ''extended_patterns'', ''htf_rule'',
        ''funding_confluence_default'']"
  unfolding field_names_list by code_simp

end
