(* ===== verification/Signals.thy ===== *)
theory Signals
  imports Tuning
begin

text \<open>
  \<^verbatim>\<open>app/domain/signals.py\<close>: the entry-time math of a harmonic signal. Prices are
  binary64 values, directions and statuses are datatypes with the source's labels, and
  the reads of \<open>get_tuning()\<close> are an argument \<open>tun\<close>, the effective tuning.

  A function that can raise returns \<open>signal_error + 'a\<close>: \<open>ViolationError\<close> is what an
  \<open>icontract\<close> \<open>@require\<close> or \<open>@ensure\<close> raises, \<open>IndexError\<close> and \<open>KeyError\<close> are Python's.
  The human-readable \<open>stop_basis\<close> is kept as its structure (which anchor, the multiplier
  printed, the factors of the chain suffix, whether a swing anchor was used).
\<close>

section \<open>Value objects\<close>

datatype direction = LONG | SHORT

datatype signal_error = ViolationError | IndexError | KeyError string

record Candidate =
  family :: string
  cname :: string
  bullish :: bool
  formed :: bool
  cpoints :: "rat list"
  completion_min :: rat
  completion_max :: rat
  ctimes :: "int list"
  cindices :: "int list"

definition cand_direction :: "Candidate \<Rightarrow> direction" where
  "cand_direction c = (if bullish c then LONG else SHORT)"

definition x_price :: "Candidate \<Rightarrow> signal_error + rat" where
  "x_price c = index_at IndexError (cpoints c) 0"

definition a_price :: "Candidate \<Rightarrow> signal_error + rat" where
  "a_price c = (if family c = ''XABCD'' then index_at IndexError (cpoints c) 1
                else index_at IndexError (cpoints c) 0)"

definition prz_low :: "Candidate \<Rightarrow> rat" where
  "prz_low c = min (completion_min c) (completion_max c)"

definition prz_high :: "Candidate \<Rightarrow> rat" where
  "prz_high c = max (completion_min c) (completion_max c)"

lemma prz_low_le_high: "prz_low c \<le> prz_high c"
  by (simp add: prz_low_def prz_high_def)

text \<open>A candidate whose numbers are floats, as every Python candidate is.\<close>

definition float_candidate :: "Candidate \<Rightarrow> bool" where
  "float_candidate c \<longleftrightarrow> list_all is_float (cpoints c) \<and> is_float (completion_min c) \<and> is_float (completion_max c)"

lemma float_candidate_prz [simp]:
  "float_candidate c \<Longrightarrow> is_float (prz_low c)" "float_candidate c \<Longrightarrow> is_float (prz_high c)"
  by (auto simp: float_candidate_def prz_low_def prz_high_def intro: is_float_min is_float_max)

lemma float_candidate_x [simp]: "float_candidate c \<Longrightarrow> x_price c = Inr x \<Longrightarrow> is_float x"
  by (auto simp: float_candidate_def x_price_def list_all_length)

record SignalTarget =
  target_label :: string
  target_price :: rat
  fib_basis :: string
  close_pct :: int
  move_stop_to :: string

datatype grade_label = GradeA | GradeB | GradeC | GradeCref

section \<open>PRZ state\<close>

datatype prz_status = Swept | In_prz | Approaching

definition prz_state :: "rat \<Rightarrow> rat \<Rightarrow> rat \<Rightarrow> bool \<Rightarrow> prz_status" where
  "prz_state p low high swept =
     (if swept then Swept else if low \<le> p \<and> p \<le> high then In_prz else Approaching)"

definition is_swept :: "rat \<Rightarrow> rat \<Rightarrow> rat \<Rightarrow> rat \<Rightarrow> rat \<Rightarrow> bool" where
  "is_swept low high close przl przh =
     (let pierced_below = low < przl \<and> przl \<le> close \<and> close \<le> przh;
          pierced_above = high > przh \<and> przh \<ge> close \<and> close \<ge> przl
      in pierced_below \<or> pierced_above)"

section \<open>Stop loss\<close>

definition STOP_LOSS_LEVELS :: "string list" where
  "STOP_LOSS_LEVELS = keys_of (atr_stop_buffer TUNING)"

definition REGIME_STOP_MULTIPLIER :: "(string \<times> rat) list" where
  "REGIME_STOP_MULTIPLIER = [(''normal'', 1), (''high_quant'', 3 / 2)]"

definition GRADE_STOP_MULTIPLIER :: "(grade_label \<times> rat) list" where
  "GRADE_STOP_MULTIPLIER = [(GradeA, 1), (GradeB, 1), (GradeC, fl (13 / 10)), (GradeCref, 3 / 2)]"

definition MAX_STOP_BUFFER_MULT :: rat where
  "MAX_STOP_BUFFER_MULT = 2"

text \<open>\<open>_chain_suffix\<close>: the factors that deviate from 1, and nothing with the escape hatch.\<close>

datatype chain_factor = TrapFactor rat | RegimeFactor rat | GradeFactor rat

definition chain_suffix :: "rat \<Rightarrow> rat \<Rightarrow> rat \<Rightarrow> rat option \<Rightarrow> chain_factor list" where
  "chain_suffix trap_m regime_m grade_m stop_buffer_atr =
     (if stop_buffer_atr \<noteq> None then []
      else (if trap_m \<noteq> 1 then [TrapFactor trap_m] else [])
         @ (if regime_m \<noteq> 1 then [RegimeFactor regime_m] else [])
         @ (if grade_m \<noteq> 1 then [GradeFactor grade_m] else []))"

datatype basis_anchor = PrzOuter | XPoint | XOrPrz

record stop_basis =
  anchor_kind :: basis_anchor
  multiplier_label :: rat
  chain :: "chain_factor list"
  swing_used :: bool

text \<open>The optional keyword arguments of \<open>compute_stop\<close>, with their defaults.\<close>

record stop_opts =
  opt_swing :: "rat option"
  opt_entry :: "rat option"
  opt_trap :: rat
  opt_regime :: string
  opt_grade :: "grade_label option"
  opt_buffer_atr :: "rat option"

definition default_opts :: stop_opts where
  "default_opts = \<lparr>opt_swing = None, opt_entry = None, opt_trap = 1,
     opt_regime = ''normal'', opt_grade = None, opt_buffer_atr = None\<rparr>"

definition stop_base :: "TuningConstants \<Rightarrow> string \<Rightarrow> stop_opts \<Rightarrow> signal_error + rat" where
  "stop_base tun level opts =
     (case opt_buffer_atr opts of
        Some b \<Rightarrow> Inr b
      | None \<Rightarrow> dict_at (KeyError level) (atr_stop_buffer tun) level)"

definition trap_factor :: "stop_opts \<Rightarrow> rat" where
  "trap_factor opts = max 1 (opt_trap opts)"

definition regime_factor :: "stop_opts \<Rightarrow> rat" where
  "regime_factor opts = get_default REGIME_STOP_MULTIPLIER (opt_regime opts) 1"

definition grade_factor :: "stop_opts \<Rightarrow> rat" where
  "grade_factor opts = (case opt_grade opts of None \<Rightarrow> 1 | Some g \<Rightarrow> get_default GRADE_STOP_MULTIPLIER g 1)"

definition stop_buffer :: "rat \<Rightarrow> stop_opts \<Rightarrow> rat \<Rightarrow> rat" where
  "stop_buffer base opts atr =
     fmul (min (fmul (fmul (fmul base (trap_factor opts)) (regime_factor opts)) (grade_factor opts))
               MAX_STOP_BUFFER_MULT) atr"

text \<open>The structural anchor chosen by risk level; \<open>ext\<close> is whether the pattern is an extended family.\<close>

definition stop_anchor :: "Candidate \<Rightarrow> string \<Rightarrow> bool \<Rightarrow> signal_error + (rat \<times> basis_anchor)" where
  "stop_anchor c level ext =
     (if level = ''conservative''
        then Inr (if bullish c then prz_low c else prz_high c, PrzOuter)
      else if level = ''aggressive''
        then ebind (x_price c) (\<lambda>x. Inr (if bullish c then min x (prz_low c) else max x (prz_high c), XPoint))
      else if ext then Inr (if bullish c then prz_low c else prz_high c, XOrPrz)
      else ebind (x_price c) (\<lambda>x. Inr (if bullish c then min x (prz_low c) else max x (prz_high c), XOrPrz)))"

text \<open>A swing anchor replaces the structural one only on the right side of entry and when tighter.\<close>

definition apply_swing :: "Candidate \<Rightarrow> stop_opts \<Rightarrow> rat \<Rightarrow> rat \<times> bool" where
  "apply_swing c opts anchor =
     (case (opt_swing opts, opt_entry opts) of
        (Some sw, Some en) \<Rightarrow>
          if bullish c
          then (if sw < en \<and> sw > 0 \<and> sw > anchor then (sw, True) else (anchor, False))
          else (if sw > en \<and> sw > 0 \<and> sw < anchor then (sw, True) else (anchor, False))
      | _ \<Rightarrow> (anchor, False))"

definition is_extended :: "TuningConstants \<Rightarrow> Candidate \<Rightarrow> bool" where
  "is_extended tun c = (lower (cname c) \<in> extended_patterns tun)"

definition compute_stop_body ::
  "TuningConstants \<Rightarrow> Candidate \<Rightarrow> rat \<Rightarrow> string \<Rightarrow> stop_opts \<Rightarrow> signal_error + (rat \<times> stop_basis \<times> rat)" where
  "compute_stop_body tun c atr level0 opts =
     (let level = (if level0 \<in> set STOP_LOSS_LEVELS then level0 else ''standard'') in
      ebind (stop_base tun level opts) (\<lambda>base.
      ebind (stop_anchor c level (is_extended tun c)) (\<lambda>(anchor0, kind).
        let buffer = stop_buffer base opts atr;
            (anchor, swung) = apply_swing c opts anchor0;
            basis = \<lparr>anchor_kind = kind, multiplier_label = base,
                     chain = chain_suffix (trap_factor opts) (regime_factor opts) (grade_factor opts)
                                (opt_buffer_atr opts),
                     swing_used = swung\<rparr>
        in Inr (pyround (if bullish c then fsub anchor buffer else fadd anchor buffer) 8,
                basis, pyround anchor 8))))"

text \<open>The contracts of the decorators around the body.\<close>

definition compute_stop ::
  "TuningConstants \<Rightarrow> Candidate \<Rightarrow> rat \<Rightarrow> string \<Rightarrow> stop_opts \<Rightarrow> signal_error + (rat \<times> stop_basis \<times> rat)" where
  "compute_stop tun c atr level opts =
     check (atr > 0) ViolationError (
     check (prz_low c > 0 \<and> prz_high c > 0) ViolationError (
     check (list_all (\<lambda>p. p > 0) (cpoints c)) ViolationError (
     ebind (compute_stop_body tun c atr level opts) (\<lambda>(stop, basis, inval).
       check (stop > 0) ViolationError (check (inval > 0) ViolationError (Inr (stop, basis, inval)))))))"

lemma regime_factor_bounds: "1 \<le> regime_factor opts" "regime_factor opts \<le> 3 / 2"
  by (auto simp: regime_factor_def get_default_def REGIME_STOP_MULTIPLIER_def)

lemma fl_13_10: "1 \<le> fl (13 / 10)"
  by (rule float_le_fl) auto

lemma grade_factor_ge1: "1 \<le> grade_factor opts"
  using fl_13_10
  by (auto simp: grade_factor_def get_default_def GRADE_STOP_MULTIPLIER_def split: option.splits)

lemma trap_factor_ge1: "1 \<le> trap_factor opts"
  by (simp add: trap_factor_def)

lemma stop_buffer_nonneg [float_intros]:
  assumes "0 \<le> base" "0 \<le> atr"
  shows "0 \<le> stop_buffer base opts atr"
proof -
  have "0 \<le> trap_factor opts" "0 \<le> regime_factor opts" "0 \<le> grade_factor opts"
    using trap_factor_ge1 [of opts] regime_factor_bounds(1) [of opts] grade_factor_ge1 [of opts] by linarith+
  then have "0 \<le> fmul (fmul (fmul base (trap_factor opts)) (regime_factor opts)) (grade_factor opts)"
    using assms by (intro fmul_nonneg)
  then show ?thesis
    using assms unfolding stop_buffer_def MAX_STOP_BUFFER_MULT_def by (intro fmul_nonneg) auto
qed

lemma stop_buffer_capped: "0 \<le> atr \<Longrightarrow> stop_buffer base opts atr \<le> fmul 2 atr"
  unfolding stop_buffer_def MAX_STOP_BUFFER_MULT_def fmul_def
  by (intro fl_mono mult_right_mono) auto

lemma stop_anchor_float:
  "float_candidate c \<Longrightarrow> stop_anchor c level ext = Inr (a, k) \<Longrightarrow> is_float a"
  by (auto simp: stop_anchor_def intro!: is_float_min is_float_max split: if_splits)

lemma apply_swing_cases:
  "apply_swing c opts a = (a', sw) \<Longrightarrow>
     (a' = a \<and> \<not> sw) \<or>
     (sw \<and> opt_swing opts = Some a' \<and> (\<exists>e. opt_entry opts = Some e \<and>
        (if bullish c then a' < e \<and> a < a' else e < a' \<and> a' < a)))"
  by (auto simp: apply_swing_def split: option.splits if_splits)

text \<open>What a successful call computed.\<close>

lemma compute_stop_Inr:
  assumes "compute_stop tun c atr level opts = Inr (stop, basis, inval)"
  obtains base anchor0 kind anchor sw where
    "0 < atr" "stop_base tun (if level \<in> set STOP_LOSS_LEVELS then level else ''standard'') opts = Inr base"
    "stop_anchor c (if level \<in> set STOP_LOSS_LEVELS then level else ''standard'') (is_extended tun c) = Inr (anchor0, kind)"
    "apply_swing c opts anchor0 = (anchor, sw)"
    "stop = pyround (if bullish c then fsub anchor (stop_buffer base opts atr)
                     else fadd anchor (stop_buffer base opts atr)) 8"
    "inval = pyround anchor 8" "0 < stop" "0 < inval"
proof -
  let ?level = "if level \<in> set STOP_LOSS_LEVELS then level else ''standard''"
  from assms have pos: "0 < atr" and body: "compute_stop_body tun c atr level opts = Inr (stop, basis, inval)"
    and res: "0 < stop" "0 < inval"
    by (auto simp: compute_stop_def)
  from body obtain base anchor0 kind where base: "stop_base tun ?level opts = Inr base"
    and anc: "stop_anchor c ?level (is_extended tun c) = Inr (anchor0, kind)"
    and rest: "(let (anchor, swung) = apply_swing c opts anchor0;
                    b = \<lparr>anchor_kind = kind, multiplier_label = base,
                     chain = chain_suffix (trap_factor opts) (regime_factor opts) (grade_factor opts)
                                (opt_buffer_atr opts),
                     swing_used = swung\<rparr>
        in Inr (pyround (if bullish c then fsub anchor (stop_buffer base opts atr)
                     else fadd anchor (stop_buffer base opts atr)) 8, b, pyround anchor 8))
        = (Inr (stop, basis, inval) :: signal_error + rat \<times> stop_basis \<times> rat)"
    unfolding compute_stop_body_def Let_def ebind_eq_Inr by fastforce
  obtain anchor sw where sw: "apply_swing c opts anchor0 = (anchor, sw)" by fastforce
  show ?thesis using that [OF pos base anc sw] rest sw res by (simp add: Let_def)
qed

section \<open>Take profits\<close>

definition compute_targets :: "TuningConstants \<Rightarrow> Candidate \<Rightarrow> rat \<Rightarrow> signal_error + SignalTarget list" where
  "compute_targets tun c entry =
     ebind (a_price c) (\<lambda>a.
       let d = entry; span = \<bar>fsub a d\<bar>;
           prices = (if bullish c
             then [fadd d (fmul (fib_tp1 tun) span), fadd d (fmul (fib_tp2 tun) span), fadd d (fmul (fib_tp3 tun) span)]
             else [fsub d (fmul (fib_tp1 tun) span), fsub d (fmul (fib_tp2 tun) span), fsub d (fmul (fib_tp3 tun) span)])
       in ebind (index_at IndexError (tp_close_pcts tun) 0) (\<lambda>p0.
          ebind (index_at IndexError (tp_close_pcts tun) 1) (\<lambda>p1.
          ebind (index_at IndexError (tp_close_pcts tun) 2) (\<lambda>p2.
          Inr [\<lparr>target_label = ''TP1'', target_price = pyround (prices ! 0) 8, fib_basis = ''AD 38.2% retrace'',
                close_pct = p0, move_stop_to = ''breakeven''\<rparr>,
               \<lparr>target_label = ''TP2'', target_price = pyround (prices ! 1) 8, fib_basis = ''AD 61.8% retrace'',
                close_pct = p1, move_stop_to = ''tp1''\<rparr>,
               \<lparr>target_label = ''TP3'', target_price = pyround (prices ! 2) 8, fib_basis = ''AD 127.2% extension'',
                close_pct = p2, move_stop_to = ''trail 1*ATR''\<rparr>]))))"

section \<open>Net risk/reward\<close>

definition net_rr_body :: "rat \<Rightarrow> rat \<Rightarrow> rat \<Rightarrow> rat \<Rightarrow> rat \<Rightarrow> rat option" where
  "net_rr_body entry stop target fee slip =
     (let risk = \<bar>fsub entry stop\<bar> in
      if risk \<le> 0 \<or> entry \<le> 0 then None
      else let cost = fmul (fmul 2 (fadd fee slip)) entry;
               reward = fsub \<bar>fsub target entry\<bar> cost;
               net_risk = fadd risk cost
           in if reward \<le> 0 \<or> net_risk \<le> 0 then None
              else Some (pyround (fdiv reward net_risk) 4))"

definition net_rr ::
  "TuningConstants \<Rightarrow> rat \<Rightarrow> rat \<Rightarrow> rat \<Rightarrow> rat option \<Rightarrow> rat option \<Rightarrow> signal_error + rat option" where
  "net_rr tun entry stop target fee slip =
     check (entry > 0) ViolationError (
     check (stop > 0) ViolationError (
     check (target > 0) ViolationError (
     check (case fee of None \<Rightarrow> True | Some f \<Rightarrow> f \<ge> 0) ViolationError (
     check (case slip of None \<Rightarrow> True | Some s \<Rightarrow> s \<ge> 0) ViolationError (
       let f = (case fee of None \<Rightarrow> fee_rate tun | Some f \<Rightarrow> f);
           s = (case slip of None \<Rightarrow> slippage_rate tun | Some s \<Rightarrow> s);
           r = net_rr_body entry stop target f s
       in check (case r of None \<Rightarrow> True | Some x \<Rightarrow> x > 0) ViolationError (Inr r))))))"

section \<open>Grading\<close>

text \<open>The score is a number from 0 to 100: annotated \<open>int\<close>, passed as a float by the engine.\<close>

definition grade_body :: "rat \<Rightarrow> rat option \<Rightarrow> rat option \<Rightarrow> bool \<Rightarrow> bool \<Rightarrow> int \<Rightarrow> rat option \<Rightarrow> grade_label option" where
  "grade_body score rr_tp1 rr_tp2 htf_aligned htf_counter a_min width_pct =
     (case (rr_tp1, rr_tp2) of
        (Some r1, Some r2) \<Rightarrow>
          if (case width_pct of Some w \<Rightarrow> w \<ge> fl (4 / 100) | None \<Rightarrow> False)
            then (if score \<ge> 45 then Some GradeCref else None)
          else if htf_counter then (if score \<ge> 45 then Some GradeCref else None)
          else if r1 < 1 \<or> r2 < 3 / 2 then (if score \<ge> 45 then Some GradeCref else None)
          else if score \<ge> of_int a_min \<and> r2 \<ge> 2 \<and> htf_aligned then Some GradeA
          else if score \<ge> 60 then Some GradeB
          else if score \<ge> 45 then Some GradeCref
          else None
      | _ \<Rightarrow> None)"

definition grade ::
  "rat \<Rightarrow> rat option \<Rightarrow> rat option \<Rightarrow> bool \<Rightarrow> bool \<Rightarrow> int \<Rightarrow> rat option \<Rightarrow> signal_error + grade_label option" where
  "grade score rr_tp1 rr_tp2 htf_aligned htf_counter a_min width_pct =
     check (0 \<le> score \<and> score \<le> 100) ViolationError (
     check (0 < a_min \<and> a_min \<le> 100) ViolationError (
     check (\<not> (htf_aligned \<and> htf_counter)) ViolationError (
       let r = grade_body score rr_tp1 rr_tp2 htf_aligned htf_counter a_min width_pct
       in check (r \<in> {None, Some GradeA, Some GradeB, Some GradeCref}) ViolationError (Inr r))))"

text \<open>How good a grade is, for monotonicity statements.\<close>

fun grade_rank :: "grade_label option \<Rightarrow> nat" where
  "grade_rank (Some GradeA) = 3"
| "grade_rank (Some GradeB) = 2"
| "grade_rank (Some GradeC) = 1"
| "grade_rank (Some GradeCref) = 1"
| "grade_rank None = 0"

lemma grade_body_never_C: "grade_body s r1 r2 al ct am w \<noteq> Some GradeC"
  by (auto simp: grade_body_def split: option.splits if_splits)


section \<open>Properties of the stop\<close>

lemma apply_swing_float:
  "apply_swing c opts a = (a', sw) \<Longrightarrow> is_float a \<Longrightarrow>
   (\<And>s. opt_swing opts = Some s \<Longrightarrow> is_float s) \<Longrightarrow> is_float a'"
  using apply_swing_cases by blast

text \<open>
  A stop returned by \<open>compute_stop\<close> lies on the losing side of the invalidation point it
  returns (below it for a long, above it for a short), and never more than the clamp of
  \<open>MAX_STOP_BUFFER_MULT\<close> = 2 ATR beyond the anchor that was rounded to that point, whatever the
  trap, regime and grade multipliers are.
\<close>

theorem compute_stop_side_and_clamp:
  assumes ok: "compute_stop tun c atr level opts = Inr (stop, basis, inval)"
    and fc: "float_candidate c"
    and fs: "\<And>s. opt_swing opts = Some s \<Longrightarrow> is_float s"
    and base: "\<And>b. stop_base tun (if level \<in> set STOP_LOSS_LEVELS then level else ''standard'') opts = Inr b \<Longrightarrow> 0 \<le> b"
  shows "\<exists>anchor. is_float anchor \<and> inval = pyround anchor 8 \<and> 0 < stop \<and> 0 < inval \<and>
     (if bullish c then stop \<le> inval \<and> pyround (fsub anchor (fmul 2 atr)) 8 \<le> stop
      else inval \<le> stop \<and> stop \<le> pyround (fadd anchor (fmul 2 atr)) 8)"
proof -
  from ok obtain b a0 k a sw where pos: "0 < atr"
    and b: "stop_base tun (if level \<in> set STOP_LOSS_LEVELS then level else ''standard'') opts = Inr b"
    and anc: "stop_anchor c (if level \<in> set STOP_LOSS_LEVELS then level else ''standard'') (is_extended tun c) = Inr (a0, k)"
    and sw: "apply_swing c opts a0 = (a, sw)"
    and st: "stop = pyround (if bullish c then fsub a (stop_buffer b opts atr) else fadd a (stop_buffer b opts atr)) 8"
    and iv: "inval = pyround a 8" "0 < stop" "0 < inval"
    by (rule compute_stop_Inr)
  have fa: "is_float a" using stop_anchor_float [OF fc anc] fs by (rule apply_swing_float [OF sw])
  have nn: "0 \<le> stop_buffer b opts atr" using base [OF b] pos by (intro stop_buffer_nonneg) auto
  have cap: "stop_buffer b opts atr \<le> fmul 2 atr" using pos by (intro stop_buffer_capped) simp
  have "if bullish c then stop \<le> inval \<and> pyround (fsub a (fmul 2 atr)) 8 \<le> stop
      else inval \<le> stop \<and> stop \<le> pyround (fadd a (fmul 2 atr)) 8"
    unfolding st iv using fsub_le [OF fa nn] fadd_ge [OF fa nn] cap
    by (auto intro!: pyround_mono fsub_mono fadd_mono)
  then show ?thesis using fa iv by blast
qed

definition demo_long :: Candidate where
  "demo_long = \<lparr>family = ''XABCD'', cname = ''gartley'', bullish = True, formed = True,
     cpoints = [90, 120, 100, 110, 96], completion_min = 95, completion_max = 97,
     ctimes = [], cindices = []\<rparr>"

text \<open>Evaluation at the shipped tuning reads only the two fields the stop depends on.\<close>

lemma stop_levels_list: "STOP_LOSS_LEVELS = [''conservative'', ''standard'', ''aggressive'']"
  by (simp add: STOP_LOSS_LEVELS_def TUNING_fields keys_of_def)

lemma fl_of_numeral: "(numeral n :: int) \<le> 2 ^ 53 \<Longrightarrow> fl (numeral n) = numeral n"
  using fl_of_int [of "numeral n"] by simp

lemma pyround_of_numeral: "(numeral n :: int) \<le> 2 ^ 53 \<Longrightarrow> pyround (numeral n) k = numeral n"
  using pyround_of_int [of "numeral n" k] by simp

lemma fl_one: "fl 1 = 1"
  using fl_of_int [of 1] by simp

lemmas stop_eval = compute_stop_def compute_stop_body_def stop_levels_list stop_base_def dict_at_def
  stop_anchor_def stop_buffer_def apply_swing_def default_opts_def trap_factor_def regime_factor_def
  REGIME_STOP_MULTIPLIER_def grade_factor_def get_default_def MAX_STOP_BUFFER_MULT_def TUNING_fields
  chain_suffix_def prz_low_def prz_high_def Let_def fmul_def fsub_def fl_of_numeral pyround_of_numeral fl_one

lemma demo_long_stop:
  "compute_stop TUNING demo_long 4 ''conservative'' default_opts =
   Inr (91, \<lparr>anchor_kind = PrzOuter, multiplier_label = 1, chain = [], swing_used = False\<rparr>, 95)"
  by (simp add: stop_eval demo_long_def)

theorem compute_stop_side_and_clamp_witness:
  "\<exists>anchor. is_float anchor \<and> (95 :: rat) = pyround anchor 8 \<and> (0 :: rat) < 91 \<and> (0 :: rat) < 95 \<and>
     (if bullish demo_long then (91 :: rat) \<le> 95 \<and> pyround (fsub anchor (fmul 2 4)) 8 \<le> 91
      else (95 :: rat) \<le> 91 \<and> 91 \<le> pyround (fadd anchor (fmul 2 4)) 8)"
proof (rule compute_stop_side_and_clamp [OF demo_long_stop])
  show "float_candidate demo_long" by code_simp
  show "\<And>s. opt_swing default_opts = Some s \<Longrightarrow> is_float s" by (simp add: default_opts_def)
  show "\<And>b. stop_base TUNING (if ''conservative'' \<in> set STOP_LOSS_LEVELS then ''conservative'' else ''standard'')
      default_opts = Inr b \<Longrightarrow> 0 \<le> b"
    by (auto simp: stop_eval)
qed

text \<open>
  A swing anchor never loosens the stop. Where both calls return, the stop with the
  swing anchor is at least as tight as the one from the structural anchor alone, and when the
  swing lies on the wrong side of entry (or is not positive) the two results are the same.
\<close>

theorem compute_stop_swing_tightens:
  assumes w: "compute_stop tun c atr level opts = Inr (s1, b1, i1)"
    and wo: "compute_stop tun c atr level (opts\<lparr>opt_swing := None\<rparr>) = Inr (s0, b0, i0)"
  shows "(if bullish c then s0 \<le> s1 \<and> i0 \<le> i1 else s1 \<le> s0 \<and> i1 \<le> i0) \<and>
    (case (opt_swing opts, opt_entry opts) of
       (Some sw, Some en) \<Rightarrow>
         (if sw \<le> 0 \<or> (if bullish c then en \<le> sw else sw \<le> en) then (s1, b1, i1) = (s0, b0, i0) else True)
     | _ \<Rightarrow> (s1, b1, i1) = (s0, b0, i0))"
proof -
  let ?l = "if level \<in> set STOP_LOSS_LEVELS then level else ''standard''"
  have same: "stop_base tun ?l (opts\<lparr>opt_swing := None\<rparr>) = stop_base tun ?l opts"
    "stop_buffer b (opts\<lparr>opt_swing := None\<rparr>) atr = stop_buffer b opts atr" for b
    by (simp_all add: stop_base_def stop_buffer_def trap_factor_def regime_factor_def grade_factor_def)
  from w obtain b a k a1 sw1 where 1: "stop_base tun ?l opts = Inr b"
    "stop_anchor c ?l (is_extended tun c) = Inr (a, k)" "apply_swing c opts a = (a1, sw1)"
    "s1 = pyround (if bullish c then fsub a1 (stop_buffer b opts atr) else fadd a1 (stop_buffer b opts atr)) 8"
    "i1 = pyround a1 8" by (rule compute_stop_Inr)
  from wo obtain b' a' k' a0 sw0 where 0: "stop_base tun ?l (opts\<lparr>opt_swing := None\<rparr>) = Inr b'"
    "stop_anchor c ?l (is_extended tun c) = Inr (a', k')" "apply_swing c (opts\<lparr>opt_swing := None\<rparr>) a' = (a0, sw0)"
    "s0 = pyround (if bullish c then fsub a0 (stop_buffer b' (opts\<lparr>opt_swing := None\<rparr>) atr)
       else fadd a0 (stop_buffer b' (opts\<lparr>opt_swing := None\<rparr>) atr)) 8"
    "i0 = pyround a0 8" by (rule compute_stop_Inr)
  have eqs: "b' = b" "a' = a" "a0 = a" using 0 1 same by (auto simp: apply_swing_def)
  have ord: "if bullish c then a \<le> a1 else a1 \<le> a"
    using apply_swing_cases [OF 1(3)] by (auto split: if_splits)
  have "if bullish c then s0 \<le> s1 \<and> i0 \<le> i1 else s1 \<le> s0 \<and> i1 \<le> i0"
    using ord unfolding 1(4,5) 0(4,5) eqs same by (auto intro!: pyround_mono fsub_mono fadd_mono)
  moreover have "(s1, b1, i1) = (s0, b0, i0)" if "apply_swing c opts a = (a, False)"
  proof -
    have "compute_stop tun c atr level opts = compute_stop tun c atr level (opts\<lparr>opt_swing := None\<rparr>)"
      using that 1(1,2) same
      by (simp add: compute_stop_def compute_stop_body_def Let_def apply_swing_def
          trap_factor_def regime_factor_def grade_factor_def)
    then show ?thesis using w wo by simp
  qed
  ultimately show ?thesis by (auto simp: apply_swing_def split: option.splits)
qed

definition swing_opts :: stop_opts where
  "swing_opts = default_opts\<lparr>opt_swing := Some 96, opt_entry := Some 97\<rparr>"

theorem compute_stop_swing_tightens_witness:
  "(91 :: rat) \<le> 92 \<and> (95 :: rat) \<le> 96 \<and> opt_swing swing_opts = Some 96"
proof -
  have 1: "compute_stop TUNING demo_long 4 ''conservative'' swing_opts =
     Inr (92, \<lparr>anchor_kind = PrzOuter, multiplier_label = 1, chain = [], swing_used = True\<rparr>, 96)"
    by (simp add: stop_eval demo_long_def swing_opts_def)
  have 0: "compute_stop TUNING demo_long 4 ''conservative'' (swing_opts\<lparr>opt_swing := None\<rparr>) =
     Inr (91, \<lparr>anchor_kind = PrzOuter, multiplier_label = 1, chain = [], swing_used = False\<rparr>, 95)"
    by (simp add: stop_eval demo_long_def swing_opts_def)
  show ?thesis
    using compute_stop_swing_tightens [OF 1 0] by (simp add: demo_long_def swing_opts_def)
qed

section \<open>Properties of targets, risk/reward and grade\<close>

text \<open>
  The take-profit ladder. Under a validated tuning with a non-negative first level,
  \<open>compute_targets\<close> returns exactly three targets, ordered away from the entry in the trade's
  direction: entry, TP1, TP2, TP3 rise for a long and fall for a short.
\<close>

theorem compute_targets_ladder:
  assumes ok: "compute_targets tun c entry = Inr ts" and v: "valid_tuning tun"
    and f1: "0 \<le> fib_tp1 tun" and fe: "is_float entry"
  shows "map target_label ts = [''TP1'', ''TP2'', ''TP3''] \<and>
    (if bullish c
     then sorted (pyround entry 8 # map target_price ts)
     else sorted (rev (pyround entry 8 # map target_price ts)))"
proof -
  from ok obtain a where a: "a_price c = Inr a"
    and ts: "map target_label ts = [''TP1'', ''TP2'', ''TP3'']"
    "map target_price ts =
       (if bullish c
        then [pyround (fadd entry (fmul (fib_tp1 tun) \<bar>fsub a entry\<bar>)) 8,
              pyround (fadd entry (fmul (fib_tp2 tun) \<bar>fsub a entry\<bar>)) 8,
              pyround (fadd entry (fmul (fib_tp3 tun) \<bar>fsub a entry\<bar>)) 8]
        else [pyround (fsub entry (fmul (fib_tp1 tun) \<bar>fsub a entry\<bar>)) 8,
              pyround (fsub entry (fmul (fib_tp2 tun) \<bar>fsub a entry\<bar>)) 8,
              pyround (fsub entry (fmul (fib_tp3 tun) \<bar>fsub a entry\<bar>)) 8])"
    by (cases "bullish c") (auto simp: compute_targets_def Let_def)
  define sp where "sp = \<bar>fsub a entry\<bar>"
  have sp: "0 \<le> sp" by (simp add: sp_def)
  have fib: "fib_tp1 tun \<le> fib_tp2 tun" "fib_tp2 tun \<le> fib_tp3 tun" using valid_fib [OF v] by auto
  have m: "0 \<le> fmul (fib_tp1 tun) sp" "fmul (fib_tp1 tun) sp \<le> fmul (fib_tp2 tun) sp"
    "fmul (fib_tp2 tun) sp \<le> fmul (fib_tp3 tun) sp"
    using sp f1 fib by (auto intro!: fl_nonneg fl_mono mult_right_mono mult_nonneg_nonneg simp: fmul_def)
  have up: "entry \<le> fadd entry (fmul (fib_tp1 tun) sp)" and dn: "fsub entry (fmul (fib_tp1 tun) sp) \<le> entry"
    using fadd_ge [OF fe m(1)] fsub_le [OF fe m(1)] by auto
  show ?thesis
    using ts m up dn unfolding sp_def [symmetric]
    by (cases "bullish c") (auto intro!: pyround_mono fadd_mono fsub_mono intro: order_trans)
qed

theorem compute_targets_ladder_witness:
  "\<exists>ts. compute_targets TUNING demo_long 96 = Inr ts \<and> map target_label ts = [''TP1'', ''TP2'', ''TP3''] \<and>
     sorted (pyround 96 8 # map target_price ts)"
proof -
  have "\<exists>ts. compute_targets TUNING demo_long 96 = Inr ts"
    by (simp add: compute_targets_def a_price_def demo_long_def index_at_def TUNING_fields Let_def)
  then obtain ts where ts: "compute_targets TUNING demo_long 96 = Inr ts" ..
  have "0 \<le> fib_tp1 TUNING" by (simp add: TUNING_fields fl_nonneg)
  from compute_targets_ladder [OF ts TUNING_valid this] show ?thesis
    using ts by (simp add: demo_long_def)
qed

lemma net_rr_body_nonneg: "net_rr_body e s t f l = Some x \<Longrightarrow> 0 \<le> x"
  by (auto simp: net_rr_body_def Let_def not_le intro!: pyround_nonneg fdiv_nonneg split: if_splits)

text \<open>
  The contract of \<open>net_rr\<close>. On inputs that satisfy its preconditions a returned ratio is
  strictly positive, and the call raises exactly when the setup has a positive net reward and risk
  but their ratio rounds to zero at four decimals, a case the function body does not map to
  \<open>None\<close>.
\<close>

theorem net_rr_contract:
  assumes "0 < entry" "0 < stop" "0 < target" "0 \<le> fee" "0 \<le> slip"
  shows "(case net_rr tun entry stop target (Some fee) (Some slip) of
           Inr None \<Rightarrow> net_rr_body entry stop target fee slip = None
         | Inr (Some x) \<Rightarrow> 0 < x \<and> net_rr_body entry stop target fee slip = Some x
         | Inl e \<Rightarrow> e = ViolationError \<and> net_rr_body entry stop target fee slip = Some 0)"
proof (cases "net_rr_body entry stop target fee slip")
  case None
  then show ?thesis using assms by (simp add: net_rr_def)
next
  case (Some x)
  then have "0 \<le> x" by (rule net_rr_body_nonneg)
  then show ?thesis using Some assms by (cases "x = 0") (auto simp: net_rr_def check_def)
qed

lemma net_rr_body_tiny: "net_rr_body 100 1 (102401 / 1024) 0 0 = Some 0"
  by code_simp

lemma net_rr_tiny: "net_rr TUNING 100 1 (102401 / 1024) (Some 0) (Some 0) = Inl ViolationError"
  by (simp add: net_rr_def net_rr_body_tiny)

theorem net_rr_contract_witness:
  "net_rr_body 100 1 (102401 / 1024) 0 0 = Some 0"
  using net_rr_contract [of 100 1 "102401 / 1024" 0 0 TUNING] net_rr_tiny by simp

text \<open>
  Grading. Raising the confluence score never lowers the grade; grade A is given only to an
  HTF-aligned signal at or above the A floor with TP1 at 1R and TP2 at 2R or better; and a
  counter-trend, too-wide or under-rewarded signal is never graded A or B.
\<close>

theorem grade_monotone_and_gated:
  assumes s: "grade s r1 r2 al ct am w = Inr g" and s': "grade s' r1 r2 al ct am w = Inr g'" and le: "s \<le> s'"
  shows "grade_rank g \<le> grade_rank g' \<and>
    (if g = Some GradeA then al \<and> \<not> ct \<and> of_int am \<le> s \<and> (\<exists>x y. r1 = Some x \<and> r2 = Some y \<and> 1 \<le> x \<and> 2 \<le> y)
     else True) \<and>
    (if ct \<or> (\<exists>x. w = Some x \<and> fl (4 / 100) \<le> x) \<or> (\<exists>x. r1 = Some x \<and> x < 1) \<or> (\<exists>y. r2 = Some y \<and> y < 3 / 2)
     then grade_rank g \<le> 1 else True)"
proof -
  have g: "g = grade_body s r1 r2 al ct am w" "g' = grade_body s' r1 r2 al ct am w" "\<not> (al \<and> ct)"
    using s s' by (auto simp: grade_def Let_def)
  show ?thesis
    using le unfolding g(1,2) grade_body_def
    by (cases r1; cases r2; cases w) (use g(3) in auto)
qed

theorem grade_monotone_and_gated_witness:
  "grade_rank (Some GradeB) \<le> grade_rank (Some GradeA) \<and>
   grade 65 (Some 1) (Some 2) True False 75 None = Inr (Some GradeB)"
proof -
  have 1: "grade 65 (Some 1) (Some 2) True False 75 None = Inr (Some GradeB)" by code_simp
  have 2: "grade 80 (Some 1) (Some 2) True False 75 None = Inr (Some GradeA)" by code_simp
  show ?thesis using grade_monotone_and_gated [OF 1 2] 1 by simp
qed

end
