(* ===== verification/Validation.thy ===== *)
theory Validation
  imports Signals
begin

text \<open>
  \<^verbatim>\<open>app/domain/validation.py\<close>: the candidate validity filter and the statistical gates.

  A pandas frame of candles is a list of bars, oldest first; \<open>df.tail(n)\<close> is \<open>tail_rows n\<close>.
  The reductions \<open>mean\<close>, \<open>std\<close> and \<open>sum\<close> of numpy and pandas are not code of the repository:
  they are arguments of the definitions that call them. Reason strings are constructors that
  carry the rate the message prints.
\<close>

record bar =
  bopen :: rat
  bhigh :: rat
  blow :: rat
  bclose :: rat
  bvol :: rat

definition tail_rows :: "nat \<Rightarrow> 'a list \<Rightarrow> 'a list" where
  "tail_rows k xs = drop (length xs - k) xs"

text \<open>\<open>sum(1 for i in range(a, b) if P i)\<close>: the counting loops of the module.\<close>

definition count_range :: "nat \<Rightarrow> nat \<Rightarrow> (nat \<Rightarrow> bool) \<Rightarrow> nat" where
  "count_range a b P = length (filter P [a..<b])"

lemma count_range_le: "count_range a b P \<le> b - a"
  unfolding count_range_def by (rule order_trans [OF length_filter_le]) simp

section \<open>Candidate validity\<close>

datatype rejection = StaleDistance | StaleAge | DegeneratePrz | Violated | Completed

definition prz_mid :: "Candidate \<Rightarrow> rat" where
  "prz_mid c = fdiv (fadd (prz_low c) (prz_high c)) 2"

definition too_far :: "TuningConstants \<Rightarrow> Candidate \<Rightarrow> rat \<Rightarrow> rat \<Rightarrow> bool" where
  "too_far tun c p atr = (atr > 0 \<and> \<bar>fsub p (prz_mid c)\<bar> > fmul (max_prz_distance_atr tun) atr)"

definition too_old :: "TuningConstants \<Rightarrow> Candidate \<Rightarrow> int list option \<Rightarrow> bool" where
  "too_old tun c close_times =
     (case close_times of
        None \<Rightarrow> False
      | Some cts \<Rightarrow> ctimes c \<noteq> [] \<and>
          int (length (filter (\<lambda>ct. ct > last (ctimes c)) cts)) > max_d_age_bars tun)"

definition degenerate :: "TuningConstants \<Rightarrow> Candidate \<Rightarrow> rat \<Rightarrow> bool" where
  "degenerate tun c atr =
     (\<not> formed c \<and> (let width = fsub (prz_high c) (prz_low c) in
        width \<le> 0 \<or> (atr > 0 \<and> width > fmul (max_forming_prz_width_atr tun) atr)))"

text \<open>Whether price is through the default-level stop; only asked with a positive ATR.\<close>

definition stop_violated :: "TuningConstants \<Rightarrow> Candidate \<Rightarrow> rat \<Rightarrow> rat \<Rightarrow> signal_error + bool" where
  "stop_violated tun c p atr =
     (if atr > 0
      then ebind (compute_stop tun c atr ''standard'' default_opts) (\<lambda>(stop, _).
        Inr (if bullish c then p < stop else p > stop))
      else Inr False)"

definition played_out :: "TuningConstants \<Rightarrow> Candidate \<Rightarrow> rat \<Rightarrow> signal_error + bool" where
  "played_out tun c p =
     ebind (compute_targets tun c (prz_mid c)) (\<lambda>ts.
     ebind (index_at IndexError ts 1) (\<lambda>tp2.
       Inr (if bullish c then p > target_price tp2 else p < target_price tp2)))"

definition rejection_reason ::
  "TuningConstants \<Rightarrow> Candidate \<Rightarrow> rat \<Rightarrow> rat \<Rightarrow> int list option \<Rightarrow> signal_error + rejection option" where
  "rejection_reason tun c p atr close_times =
     (if too_far tun c p atr then Inr (Some StaleDistance)
      else if too_old tun c close_times then Inr (Some StaleAge)
      else if degenerate tun c atr then Inr (Some DegeneratePrz)
      else ebind (stop_violated tun c p atr) (\<lambda>v.
        if v then Inr (Some Violated)
        else ebind (played_out tun c p) (\<lambda>d. Inr (if d then Some Completed else None))))"

fun filter_candidates ::
  "TuningConstants \<Rightarrow> Candidate list \<Rightarrow> rat \<Rightarrow> rat \<Rightarrow> int list option \<Rightarrow>
   signal_error + (Candidate list \<times> (Candidate \<times> rejection) list)" where
  "filter_candidates tun [] p atr cts = Inr ([], [])"
| "filter_candidates tun (c # cs) p atr cts =
     ebind (rejection_reason tun c p atr cts) (\<lambda>r.
     ebind (filter_candidates tun cs p atr cts) (\<lambda>(valid, rejected).
       case r of None \<Rightarrow> Inr (c # valid, rejected) | Some why \<Rightarrow> Inr (valid, (c, why) # rejected)))"

lemma filter_candidates_Inr:
  "filter_candidates tun cs p atr cts = Inr (valid, rejected) \<Longrightarrow>
     valid = filter (\<lambda>c. rejection_reason tun c p atr cts = Inr None) cs \<and>
     map fst rejected = filter (\<lambda>c. rejection_reason tun c p atr cts \<noteq> Inr None) cs \<and>
     (\<forall>(c, why) \<in> set rejected. rejection_reason tun c p atr cts = Inr (Some why))"
proof (induction cs arbitrary: valid rejected)
  case (Cons c cs)
  from Cons.prems obtain r v rj where r: "rejection_reason tun c p atr cts = Inr r"
    and rest: "filter_candidates tun cs p atr cts = Inr (v, rj)"
    and res: "(case r of None \<Rightarrow> Inr (c # v, rj) | Some why \<Rightarrow> Inr (v, (c, why) # rj)) = (Inr (valid, rejected) :: signal_error + _)"
    by auto
  show ?case using Cons.IH [OF rest] r res by (cases r) auto
qed simp

definition direction_invariant_ok :: "direction \<Rightarrow> rat \<Rightarrow> rat \<Rightarrow> rat list \<Rightarrow> bool" where
  "direction_invariant_ok d entry stop targets =
     (if length targets < 3 then False
      else let t1 = targets ! 0; t2 = targets ! 1; t3 = targets ! 2
           in if d = LONG then stop < entry \<and> entry \<le> t1 \<and> t1 < t2 \<and> t2 < t3
              else stop > entry \<and> entry \<ge> t1 \<and> t1 > t2 \<and> t2 > t3)"

section \<open>Quant-trap risk\<close>

definition FALSE_BREAK_VETO :: rat where "FALSE_BREAK_VETO = 1 / 4"
definition FALSE_BREAK_PENALTY :: rat where "FALSE_BREAK_PENALTY = fl (15 / 100)"
definition FALSE_BREAK_WARN :: rat where "FALSE_BREAK_WARN = fl (8 / 100)"
definition STOP_HUNT_PENALTY :: rat where "STOP_HUNT_PENALTY = fl (10 / 100)"
definition VOL_CLIMAX_PENALTY :: rat where "VOL_CLIMAX_PENALTY = fl (12 / 100)"

datatype trap_reason =
    FalseBreakVeto rat | FalseBreakOften rat | FalseBreakSome rat
  | StopHunt rat | VolumeClimax rat | PrzSupportFailed | PrzResistanceFailed

definition window_of :: "('a \<Rightarrow> rat) \<Rightarrow> 'a list \<Rightarrow> nat \<Rightarrow> nat \<Rightarrow> rat list" where
  "window_of f d i k = map f (take k (drop (i - k) d))"

definition false_break :: "bar list \<Rightarrow> nat \<Rightarrow> bool" where
  "false_break d i =
     (let prev_high = list_max (window_of bhigh d i 5); prev_low = list_min (window_of blow d i 5); b = d ! i
      in (bhigh b > fmul prev_high (fl (101 / 100)) \<and> bclose b < prev_high)
       \<or> (blow b < fmul prev_low (fl (99 / 100)) \<and> bclose b > prev_low))"

definition stop_hunt :: "bar list \<Rightarrow> nat \<Rightarrow> bool" where
  "stop_hunt d i =
     (let recent_low = list_min (window_of blow d i 3)
      in blow (d ! i) < fmul recent_low (fl (995 / 1000)) \<and> bclose (d ! (i + 1)) > bhigh (d ! i))"

definition vol_climax :: "bar list \<Rightarrow> nat \<Rightarrow> bool" where
  "vol_climax d i =
     (let b = d ! i; v0 = bvol (d ! (i - 1)) in
      v0 > 0 \<and> bvol b > fmul 2 v0 \<and>
      (let body = \<bar>fsub (bclose b) (bopen b)\<bar>; price = (if bclose b > 0 then bclose b else bopen b)
       in price > 0 \<and> fdiv body price < fl (15 / 1000)))"

definition prz_failure :: "rat \<Rightarrow> rat \<Rightarrow> bool \<Rightarrow> bar \<Rightarrow> bool" where
  "prz_failure low high bull b =
     (if bull then low \<le> blow b \<and> blow b \<le> high \<and> bclose b < low
      else low \<le> bhigh b \<and> bhigh b \<le> high \<and> bclose b > high)"

definition ratio :: "nat \<Rightarrow> nat \<Rightarrow> rat" where
  "ratio k n = fdiv (of_nat k) (of_nat n)"

definition fb_rate :: "bar list \<Rightarrow> rat" where
  "fb_rate d = ratio (count_range 5 (length d) (false_break d)) (length d - 5)"

definition sh_rate :: "bar list \<Rightarrow> rat" where
  "sh_rate d = ratio (count_range 3 (length d - 1) (stop_hunt d)) (length d - 4)"

definition vc_rate :: "bar list \<Rightarrow> rat" where
  "vc_rate d = ratio (count_range 1 (length d) (vol_climax d)) (length d - 1)"

text \<open>Each stage maps (score, veto, reasons) to the next one, in the order of the body.\<close>

definition fb_stage :: "rat \<Rightarrow> int \<times> bool \<times> trap_reason list \<Rightarrow> int \<times> bool \<times> trap_reason list" where
  "fb_stage r = (\<lambda>(score, veto, reasons).
     if r > FALSE_BREAK_VETO then (score, True, reasons @ [FalseBreakVeto r])
     else if r > FALSE_BREAK_PENALTY then (score - 20, veto, reasons @ [FalseBreakOften r])
     else if r > FALSE_BREAK_WARN then (score - 8, veto, reasons @ [FalseBreakSome r])
     else (score, veto, reasons))"

definition sh_stage :: "rat \<Rightarrow> int \<times> bool \<times> trap_reason list \<Rightarrow> int \<times> bool \<times> trap_reason list" where
  "sh_stage r = (\<lambda>(score, veto, reasons).
     if r > STOP_HUNT_PENALTY then (score - 15, veto, reasons @ [StopHunt r]) else (score, veto, reasons))"

definition vc_stage :: "rat \<Rightarrow> int \<times> bool \<times> trap_reason list \<Rightarrow> int \<times> bool \<times> trap_reason list" where
  "vc_stage r = (\<lambda>(score, veto, reasons).
     if r > VOL_CLIMAX_PENALTY then (score - 15, veto, reasons @ [VolumeClimax r]) else (score, veto, reasons))"

definition prz_stage :: "bool \<Rightarrow> bool \<Rightarrow> int \<times> bool \<times> trap_reason list \<Rightarrow> int \<times> bool \<times> trap_reason list" where
  "prz_stage failed bull = (\<lambda>(score, veto, reasons).
     if failed then (score, True, reasons @ [if bull then PrzSupportFailed else PrzResistanceFailed])
     else (score, veto, reasons))"

definition quant_trap_risk ::
  "bar list \<Rightarrow> rat \<Rightarrow> rat \<Rightarrow> bool \<Rightarrow> nat \<Rightarrow> int \<times> bool \<times> trap_reason list" where
  "quant_trap_risk df low high bull lookback =
     (let d = tail_rows lookback df in
      if length d < 15 then (50, False, [])
      else let (score, veto, reasons) =
             prz_stage (list_ex (prz_failure low high bull) d) bull
               (vc_stage (vc_rate d) (sh_stage (sh_rate d) (fb_stage (fb_rate d) (50, False, []))))
           in (min 90 (max 10 score), veto, reasons))"

definition trap_stop_body :: "int \<Rightarrow> rat" where
  "trap_stop_body s =
     (if s < 60 then 1
      else if s < 75 then fadd 1 (fmul (fdiv (of_int (s - 60)) 15) (1 / 2))
      else if s < 85 then fadd (3 / 2) (fmul (fdiv (of_int (s - 75)) 10) (fl (3 / 10)))
      else min 2 (fadd (fl (18 / 10)) (fmul (fdiv (of_int (s - 85)) 5) (fl (2 / 10)))))"

definition trap_stop_multiplier :: "int \<Rightarrow> signal_error + rat" where
  "trap_stop_multiplier s =
     check (0 \<le> s \<and> s \<le> 100) ViolationError (
       let r = trap_stop_body s in check (1 \<le> r \<and> r \<le> 2) ViolationError (Inr r))"

section \<open>Volume authenticity\<close>

definition volume_authenticity ::
  "(rat list \<Rightarrow> rat) \<Rightarrow> (rat list \<Rightarrow> rat) \<Rightarrow> bar list \<Rightarrow> nat \<Rightarrow> int" where
  "volume_authenticity np_mean np_sum df window =
     (let d = tail_rows window df; n = length d in
      if n < 10 then 50
      else let vols = map bvol d;
               aligned = count_range 1 n (\<lambda>i.
                 (bclose (d ! i) > bclose (d ! (i - 1))) = (bvol (d ! i) > bvol (d ! (i - 1))));
               alignment_rate = ratio aligned (n - 1);
               vol_mean = np_mean vols;
               spike_rate = (if vol_mean > 0
                 then ratio (length (filter (\<lambda>x. x > fmul vol_mean (5 / 2)) vols)) n else 0);
               v = map (\<lambda>x. fsub x vol_mean) vols;
               denom = np_sum (map2 fmul v v);
               autocorr = (if denom > 0 then fdiv (np_sum (map2 fmul (butlast v) (tl v))) denom else 0);
               align_score = fmul alignment_rate 100;
               spike_score = max 0 (fsub 100 (fmul spike_rate 400));
               autocorr_score = max 0 (fadd 50 (fmul autocorr 50));
               score = fadd (fadd (fmul align_score (fl (40 / 100))) (fmul spike_score (fl (40 / 100))))
                         (fmul autocorr_score (fl (20 / 100)))
           in min 100 (max 0 (rhe score)))"

section \<open>Window stability\<close>

text \<open>An \<open>Optional[str]\<close> is tested for truth: \<open>None\<close> and the empty string are both false.\<close>

fun truthy :: "string option \<Rightarrow> bool" where
  "truthy None = False"
| "truthy (Some s) = (s \<noteq> [])"

definition stability_verdict :: "string option \<Rightarrow> string option \<Rightarrow> string option \<Rightarrow> int \<times> bool" where
  "stability_verdict full sub1 sub2 =
     (if truthy full \<and> truthy sub1 \<and> truthy sub2
        then (if full = sub1 \<and> sub1 = sub2 then (85, False)
              else if full = sub1 \<or> full = sub2 then (55, False) else (25, False))
      else if truthy full \<and> (truthy sub1 \<or> truthy sub2) then (40, False)
      else if truthy full then (20, True)
      else (60, False))"

section \<open>Quant regime\<close>

definition regime_gap :: "bar list \<Rightarrow> nat \<Rightarrow> bool" where
  "regime_gap d i =
     (let c0 = bclose (d ! (i - 1)) in
      c0 > 0 \<and> fdiv \<bar>fsub (bopen (d ! i)) c0\<bar> c0 > fl (8 / 1000))"

definition regime_reversal :: "bar \<Rightarrow> bool" where
  "regime_reversal b =
     (bopen b > 0 \<and> blow b > 0 \<and>
      (let body = fdiv \<bar>fsub (bclose b) (bopen b)\<bar> (bopen b); rng = fdiv (fsub (bhigh b) (blow b)) (blow b)
       in rng > fl (3 / 100) \<and> body < fl (5 / 1000)))"

definition bar_returns :: "bar list \<Rightarrow> rat list" where
  "bar_returns d = map2 (\<lambda>c1 c0. fdiv (fsub c1 c0) c0) (tl (map bclose d)) (butlast (map bclose d))"

definition regime_score ::
  "(rat list \<Rightarrow> rat) \<Rightarrow> (rat list \<Rightarrow> rat) \<Rightarrow> bar list \<Rightarrow> int" where
  "regime_score np_mean np_std d =
     (let n = length d;
          gap_freq = ratio (count_range 1 n (regime_gap d)) (n - 1);
          reversal_rate = ratio (length (filter regime_reversal d)) n;
          vols = map bvol d;
          vol_mean = np_mean vols;
          vol_cv = (if vol_mean > 0 then fdiv (np_std vols) vol_mean else 0);
          rets = bar_returns d;
          ret_mean = np_mean rets;
          ret_std = np_std rets;
          tails = (if ret_std > 0 then length (filter (\<lambda>r. \<bar>fsub r ret_mean\<bar> > fmul 3 ret_std) rets) else 0);
          tail_rate = ratio tails (length rets);
          gap_score = min 100 (fmul gap_freq 300);
          reversal_score = min 100 (fmul reversal_rate 500);
          vol_score = min 100 (fmul vol_cv 80);
          tail_score = min 100 (fmul tail_rate 1000);
          score = fadd (fadd (fadd (fmul gap_score (1 / 4)) (fmul reversal_score (1 / 4)))
                    (fmul vol_score (fl (30 / 100)))) (fmul tail_score (fl (20 / 100)))
      in min 100 (max 0 (rhe score)))"

definition quant_regime ::
  "(rat list \<Rightarrow> rat) \<Rightarrow> (rat list \<Rightarrow> rat) \<Rightarrow> TuningConstants \<Rightarrow> bar list \<Rightarrow> nat \<Rightarrow> int \<times> string" where
  "quant_regime np_mean np_std tun df window =
     (let d = tail_rows window df in
      if length d < 20 then (50, ''normal'')
      else let score = regime_score np_mean np_std d
           in (score, if score \<ge> regime_high tun then ''high_quant''
                      else if score \<ge> regime_moderate tun then ''moderate_quant'' else ''normal''))"

section \<open>Statistical gates\<close>

text \<open>A Sharpe value may be infinite: \<open>per_bar_sharpe\<close> returns \<open>math.inf\<close> for variance-free drift.\<close>

datatype sharpe_value = NegInf | Fin rat | PosInf

fun sharpe_less :: "sharpe_value \<Rightarrow> rat \<Rightarrow> bool" where
  "sharpe_less NegInf y = True"
| "sharpe_less (Fin x) y = (x < y)"
| "sharpe_less PosInf y = False"

fun sharpe_greater :: "sharpe_value \<Rightarrow> rat \<Rightarrow> bool" where
  "sharpe_greater NegInf y = False"
| "sharpe_greater (Fin x) y = (x > y)"
| "sharpe_greater PosInf y = True"

text \<open>\<open>pd_std\<close> gives \<open>None\<close> for NaN.\<close>

definition per_bar_sharpe ::
  "(rat list \<Rightarrow> rat) \<Rightarrow> (rat list \<Rightarrow> rat option) \<Rightarrow> (rat list \<Rightarrow> rat list) \<Rightarrow> TuningConstants \<Rightarrow> rat list \<Rightarrow> nat option \<Rightarrow> sharpe_value" where
  "per_bar_sharpe pd_mean pd_std pct_change tun closes window =
     (let w = (case window of None \<Rightarrow> nat (per_bar_sharpe_window tun) | Some w \<Rightarrow> w);
          rets = tail_rows w (pct_change closes)
      in if length rets < 3 then Fin 0
         else let mean = pd_mean rets; flat = (if mean > 0 then PosInf else if mean < 0 then NegInf else Fin 0)
              in case pd_std rets of
                   None \<Rightarrow> flat
                 | Some sd \<Rightarrow> if sd < fl (1 / 1000000000000) then flat else Fin (fdiv mean sd))"

definition adverse_momentum_veto :: "TuningConstants \<Rightarrow> direction \<Rightarrow> sharpe_value \<Rightarrow> rat option \<Rightarrow> bool" where
  "adverse_momentum_veto tun d sharpe threshold =
     (let th = (case threshold of None \<Rightarrow> adverse_sharpe_threshold tun | Some x \<Rightarrow> x)
      in if d = LONG then sharpe_less sharpe (- th) else sharpe_greater sharpe th)"

definition volatility_multiplier :: "TuningConstants \<Rightarrow> rat \<Rightarrow> rat \<Rightarrow> rat option \<Rightarrow> rat" where
  "volatility_multiplier tun atr close target =
     (let tgt = (case target of None \<Rightarrow> target_atr_pct tun | Some x \<Rightarrow> x) in
      if close \<le> 0 then 1
      else let atr_pct = fmul (fdiv atr close) 100; mult = fdiv tgt (max atr_pct (1 / 2))
           in pyround (min (3 / 2) (max (1 / 2) mult)) 4)"

section \<open>Properties\<close>

text \<open>
  The validity filter. It splits the candidates without losing, duplicating or reordering
  any, each rejected one carries the reason \<open>rejection_reason\<close> gives, and every candidate it lets
  through is near the PRZ, fresh, has a non-degenerate zone while forming, has price on the
  surviving side of its stop, and has not already run past TP2.
\<close>

theorem filter_candidates_sound:
  assumes ok: "filter_candidates tun cs p atr cts = Inr (valid, rejected)"
  shows "valid = filter (\<lambda>c. rejection_reason tun c p atr cts = Inr None) cs \<and>
    map fst rejected = filter (\<lambda>c. rejection_reason tun c p atr cts \<noteq> Inr None) cs \<and>
    list_all (\<lambda>c. \<not> too_far tun c p atr \<and> \<not> too_old tun c cts \<and> \<not> degenerate tun c atr \<and>
      stop_violated tun c p atr = Inr False \<and> played_out tun c p = Inr False) valid \<and>
    list_all (\<lambda>(c, why). rejection_reason tun c p atr cts = Inr (Some why)) rejected"
proof -
  note split = filter_candidates_Inr [OF ok]
  have "\<not> too_far tun c p atr \<and> \<not> too_old tun c cts \<and> \<not> degenerate tun c atr \<and>
      stop_violated tun c p atr = Inr False \<and> played_out tun c p = Inr False"
    if "rejection_reason tun c p atr cts = Inr None" for c
    using that by (auto simp: rejection_reason_def split: if_splits)
  then show ?thesis using split by (auto simp: list_all_iff)
qed

text \<open>A forming candidate with a zero-width zone, and no ATR: rejected as degenerate.\<close>

definition thin_candidate :: Candidate where
  "thin_candidate = demo_long\<lparr>formed := False, completion_min := 95, completion_max := 95\<rparr>"

lemma thin_rejected: "filter_candidates TUNING [thin_candidate] 96 0 None = Inr ([], [(thin_candidate, DegeneratePrz)])"
  by (simp add: rejection_reason_def too_far_def too_old_def degenerate_def thin_candidate_def demo_long_def
      prz_low_def prz_high_def)

theorem filter_candidates_sound_witness:
  "rejection_reason TUNING thin_candidate 96 0 None = Inr (Some DegeneratePrz)"
  using filter_candidates_sound [OF thin_rejected] by simp

text \<open>
  The quant-trap score never leaves [10, 50]: every stage only subtracts from the neutral 50,
  so the \<open>trap_stop_multiplier\<close> the engine applies to it is always exactly 1 (its curve starts at
  60). With fewer than 15 bars the verdict is neutral; otherwise the veto is raised exactly when
  the false-breakout rate exceeds 25% or a bar fails the zone, and a veto always has a reason.
\<close>

theorem quant_trap_score_and_veto:
  shows "case quant_trap_risk df low high bull lb of (score, veto, reasons) \<Rightarrow>
    10 \<le> score \<and> score \<le> 50 \<and> trap_stop_multiplier score = Inr 1 \<and>
    (veto \<longleftrightarrow> 15 \<le> length (tail_rows lb df) \<and>
       (FALSE_BREAK_VETO < fb_rate (tail_rows lb df) \<or> list_ex (prz_failure low high bull) (tail_rows lb df))) \<and>
    \<not> (veto \<and> reasons = [])"
proof -
  obtain score veto reasons where r: "quant_trap_risk df low high bull lb = (score, veto, reasons)"
    by (cases "quant_trap_risk df low high bull lb") auto
  have b: "10 \<le> score" "score \<le> 50"
    using r by (auto simp: quant_trap_risk_def Let_def fb_stage_def sh_stage_def vc_stage_def prz_stage_def
        split: if_splits)
  have v: "veto \<longleftrightarrow> 15 \<le> length (tail_rows lb df) \<and>
       (FALSE_BREAK_VETO < fb_rate (tail_rows lb df) \<or> list_ex (prz_failure low high bull) (tail_rows lb df))"
    using r by (auto simp: quant_trap_risk_def Let_def fb_stage_def sh_stage_def vc_stage_def prz_stage_def
        split: if_splits)
  have n: "\<not> (veto \<and> reasons = [])"
    using r by (auto simp: quant_trap_risk_def Let_def fb_stage_def sh_stage_def vc_stage_def prz_stage_def
        split: if_splits)
  have m: "trap_stop_multiplier score = Inr 1"
    using b by (simp add: trap_stop_multiplier_def trap_stop_body_def)
  show ?thesis unfolding r prod.case using b m v n by (intro conjI)
qed

lemma trap_stop_pieces:
  "s \<le> s' \<Longrightarrow> fadd 1 (fmul (fdiv (of_int (s - 60)) 15) (1 / 2)) \<le> fadd 1 (fmul (fdiv (of_int (s' - 60)) 15) (1 / 2))"
  "s \<le> s' \<Longrightarrow> fadd (3 / 2) (fmul (fdiv (of_int (s - 75)) 10) (fl (3 / 10)))
      \<le> fadd (3 / 2) (fmul (fdiv (of_int (s' - 75)) 10) (fl (3 / 10)))"
  "s \<le> s' \<Longrightarrow> fadd (fl (18 / 10)) (fmul (fdiv (of_int (s - 85)) 5) (fl (2 / 10)))
      \<le> fadd (fl (18 / 10)) (fmul (fdiv (of_int (s' - 85)) 5) (fl (2 / 10)))"
  unfolding fadd_def fmul_def fdiv_def
  by (auto intro!: fl_mono add_left_mono mult_right_mono divide_right_mono fl_nonneg)

lemma trap_stop_knots:
  "fadd 1 (fmul (fdiv 0 15) (1 / 2)) = 1" "fadd 1 (fmul (fdiv 15 15) (1 / 2)) = 3 / 2"
  "fadd (3 / 2) (fmul (fdiv 0 10) (fl (3 / 10))) = 3 / 2"
  "fadd (3 / 2) (fmul (fdiv 10 10) (fl (3 / 10))) \<le> fadd (fl (18 / 10)) (fmul (fdiv 0 5) (fl (2 / 10)))"
  "fadd (3 / 2) (fmul (fdiv 10 10) (fl (3 / 10))) \<le> 2"
  "3 / 2 \<le> fadd (fl (18 / 10)) (fmul (fdiv 0 5) (fl (2 / 10)))"
  "2 \<le> fadd (fl (18 / 10)) (fmul (fdiv 5 5) (fl (2 / 10)))"
  by code_simp+

text \<open>The four pieces, each between its knots.\<close>

definition trap_knot :: rat where
  "trap_knot = min 2 (fadd (fl (18 / 10)) (fmul (fdiv 0 5) (fl (2 / 10))))"

lemma trap_knot_bounds: "3 / 2 \<le> trap_knot" "trap_knot \<le> 2"
  using trap_stop_knots(6) by (simp_all add: trap_knot_def)

lemma trap_stop_body_1: "s < 60 \<Longrightarrow> trap_stop_body s = 1"
  by (simp add: trap_stop_body_def)

lemma trap_stop_body_2: "60 \<le> s \<Longrightarrow> s < 75 \<Longrightarrow> 1 \<le> trap_stop_body s \<and> trap_stop_body s \<le> 3 / 2"
  using trap_stop_pieces(1) [of 60 s] trap_stop_pieces(1) [of s 75] trap_stop_knots(1,2)
  by (simp add: trap_stop_body_def)

lemma trap_stop_body_3: "75 \<le> s \<Longrightarrow> s < 85 \<Longrightarrow> 3 / 2 \<le> trap_stop_body s \<and> trap_stop_body s \<le> trap_knot"
  using trap_stop_pieces(2) [of 75 s] trap_stop_pieces(2) [of s 85] trap_stop_knots(3,4,5)
  by (simp add: trap_stop_body_def trap_knot_def)

lemma trap_stop_body_4: "85 \<le> s \<Longrightarrow> trap_knot \<le> trap_stop_body s \<and> trap_stop_body s \<le> 2"
  using trap_stop_pieces(3) [of 85 s]
  by (auto simp: trap_stop_body_def trap_knot_def min_le_iff_disj)

lemma trap_stop_body_bounds: "1 \<le> trap_stop_body s" "trap_stop_body s \<le> 2"
proof -
  consider "s < 60" | "60 \<le> s" "s < 75" | "75 \<le> s" "s < 85" | "85 \<le> s" by linarith
  then have "1 \<le> trap_stop_body s \<and> trap_stop_body s \<le> 2"
    by cases (use trap_stop_body_1 trap_stop_body_2 trap_stop_body_3 trap_stop_body_4 trap_knot_bounds in fastforce)+
  then show "1 \<le> trap_stop_body s" "trap_stop_body s \<le> 2" by auto
qed

lemma trap_stop_body_mono:
  assumes "s \<le> s'"
  shows "trap_stop_body s \<le> trap_stop_body s'"
proof (cases "(s < 60) = (s' < 60) \<and> (s < 75) = (s' < 75) \<and> (s < 85) = (s' < 85)")
  case True
  then show ?thesis
    using trap_stop_pieces [OF assms] by (auto simp: trap_stop_body_def min_le_iff_disj)
next
  case False
  then consider "s < 60" | "60 \<le> s" "s < 75" "75 \<le> s'" "s' < 85" | "60 \<le> s" "s < 75" "85 \<le> s'"
    | "75 \<le> s" "s < 85" "85 \<le> s'"
    using assms by linarith
  then show ?thesis
  proof cases
    case 1
    then show ?thesis using trap_stop_body_1 [of s] trap_stop_body_bounds(1) [of s'] by simp
  next
    case 2
    then show ?thesis using trap_stop_body_2 [of s] trap_stop_body_3 [of s'] by linarith
  next
    case 3
    then show ?thesis using trap_stop_body_2 [of s] trap_stop_body_4 [of s'] trap_knot_bounds by linarith
  next
    case 4
    then show ?thesis using trap_stop_body_3 [of s] trap_stop_body_4 [of s'] by linarith
  qed
qed

text \<open>
  The trap multiplier meets its contract on every admissible score and never raises: it lies
  in [1, 2], is monotone in the score, and has already reached its cap of 2 at score 90.
\<close>

theorem trap_stop_multiplier_contract:
  assumes "0 \<le> s" "s \<le> s'" "s' \<le> 100"
  shows "\<exists>m m'. trap_stop_multiplier s = Inr m \<and> trap_stop_multiplier s' = Inr m' \<and>
    1 \<le> m \<and> m \<le> m' \<and> m' \<le> 2 \<and> (if 90 \<le> s then m = 2 else True)"
proof -
  have cap: "trap_stop_body s = 2" if "90 \<le> s"
    using that trap_stop_pieces(3) [of 90 s] trap_stop_knots(7) by (auto simp: trap_stop_body_def)
  show ?thesis
    using assms trap_stop_body_bounds trap_stop_body_mono [OF assms(2)] cap by (simp add: trap_stop_multiplier_def)
qed

theorem trap_stop_multiplier_contract_witness:
  "\<exists>m m'. trap_stop_multiplier 90 = Inr m \<and> trap_stop_multiplier 100 = Inr m' \<and> 1 \<le> m \<and> m \<le> m' \<and> m' \<le> 2 \<and> m = 2"
  using trap_stop_multiplier_contract [of 90 100] by simp

text \<open>
  Volatility targeting. The multiplier lies in [0.5, 1.5] for every input, and for a
  non-negative target a larger ATR never gives a larger position.
\<close>

theorem volatility_multiplier_bounds_antitone:
  assumes "atr \<le> atr'" "case target of None \<Rightarrow> 0 \<le> target_atr_pct tun | Some x \<Rightarrow> 0 \<le> x"
  shows "1 / 2 \<le> volatility_multiplier tun atr close target \<and> volatility_multiplier tun atr close target \<le> 3 / 2 \<and>
    volatility_multiplier tun atr' close target \<le> volatility_multiplier tun atr close target"
proof -
  have r: "pyround (1 / 2) 4 = 1 / 2" "pyround (3 / 2) 4 = 3 / 2" by code_simp+
  have b: "1 / 2 \<le> pyround (min (3 / 2) (max (1 / 2) m)) 4 \<and> pyround (min (3 / 2) (max (1 / 2) m)) 4 \<le> 3 / 2" for m
    using pyround_mono [of "1 / 2" "min (3 / 2) (max (1 / 2) m)" 4]
      pyround_mono [of "min (3 / 2) (max (1 / 2) m)" "3 / 2" 4] r by auto
  have dm: "fdiv tgt (max (fmul (fdiv atr' close) 100) (1 / 2)) \<le> fdiv tgt (max (fmul (fdiv atr close) 100) (1 / 2))"
    if "0 < close" "0 \<le> tgt" for tgt
  proof -
    have "fmul (fdiv atr close) 100 \<le> fmul (fdiv atr' close) 100"
      using that assms(1) unfolding fmul_def fdiv_def
      by (intro fl_mono mult_right_mono divide_right_mono) auto
    then show ?thesis using that unfolding fdiv_def
      by (intro fl_mono divide_left_mono) (auto intro: mult_pos_pos simp: less_max_iff_disj)
  qed
  show ?thesis
    using b dm assms(2)
    by (auto simp: volatility_multiplier_def Let_def intro!: pyround_mono min.mono max.mono split: option.splits)
qed

theorem volatility_multiplier_bounds_antitone_witness:
  "volatility_multiplier TUNING 4 100 (Some 2) \<le> volatility_multiplier TUNING 2 100 (Some 2)"
  using volatility_multiplier_bounds_antitone [where target = "Some 2" and tun = TUNING and atr = 2 and atr' = 4 and close = 100] by simp

end
