(* ===== verification/SignalEngine.thy ===== *)
theory SignalEngine
  imports Validation "HOL-Library.Product_Lexorder"
begin

text \<open>
  \<^verbatim>\<open>app/services/signal_engine.py\<close>: from harmonic pattern candidates to one executable signal. The
  pandas reductions (means, exponentially weighted means, resampling) and the pattern objects of the
  third-party detector are arguments; everything the engine does with them is here. A series whose
  first value is NaN is the list of its remaining values.

  \<open>score_candidate\<close> runs the gates of one candidate in the source's order, \<open>rank_signals\<close> picks the
  strongest, \<open>apply_stability\<close> re-detects it on two sub-windows, \<open>build_signal\<close> composes them.
\<close>

section \<open>Frames and indicators\<close>

record frame =
  f_bars :: "bar list"
  f_close_time :: "int list option"
  f_dts :: bool

text \<open>
  The pandas and numpy operations the engine calls: \<open>mean\<close>, the last value of a rolling mean, the series
  of \<open>ewm(alpha)\<close> and \<open>ewm(span)\<close> means, the closes of the resampled frame, and the reductions the
  validation gates use.
\<close>

record indicators =
  i_mean :: "rat list \<Rightarrow> rat"
  i_roll :: "nat \<Rightarrow> rat list \<Rightarrow> rat"
  i_ewm :: "rat \<Rightarrow> rat list \<Rightarrow> rat list"
  i_ema :: "nat \<Rightarrow> rat list \<Rightarrow> rat list"
  i_resample :: "string \<Rightarrow> frame \<Rightarrow> rat list"
  i_np_mean :: "rat list \<Rightarrow> rat"
  i_np_sum :: "rat list \<Rightarrow> rat"
  i_np_std :: "rat list \<Rightarrow> rat"
  i_pd_std :: "rat list \<Rightarrow> rat option"
  i_pct_change :: "rat list \<Rightarrow> rat list"

definition deltas :: "rat list \<Rightarrow> rat list" where
  "deltas xs = map2 fsub (tl xs) (butlast xs)"

definition true_ranges :: "bar list \<Rightarrow> rat list" where
  "true_ranges bs =
     (case bs of [] \<Rightarrow> []
      | b # r \<Rightarrow> fsub (bhigh b) (blow b)
          # map2 (\<lambda>x p. max (max (fsub (bhigh x) (blow x)) \<bar>fsub (bhigh x) (bclose p)\<bar>) \<bar>fsub (blow x) (bclose p)\<bar>)
              r (butlast bs))"

definition compute_atr :: "indicators \<Rightarrow> TuningConstants \<Rightarrow> bar list \<Rightarrow> int option \<Rightarrow> signal_error + rat" where
  "compute_atr ind tun bs window0 =
     (let window = (case window0 of None \<Rightarrow> atr_window tun | Some w \<Rightarrow> w)
      in check (2 \<le> length bs) ViolationError (check (1 \<le> window) ViolationError
         (let w = nat window; tr = true_ranges bs in
          if length tr < w
          then let t = tail_rows w bs
               in Inr (fdiv (fsub (list_max (map bhigh t)) (list_min (map blow t))) (of_int window))
          else Inr (min (i_roll ind w tr) (i_mean ind (tail_rows (nat (atr_long_window tun)) tr))))))"

definition gains :: "indicators \<Rightarrow> int \<Rightarrow> rat list \<Rightarrow> rat list" where
  "gains ind w closes = i_ewm ind (fdiv 1 (of_int w)) (map (\<lambda>d. max d 0) (deltas closes))"

definition losses :: "indicators \<Rightarrow> int \<Rightarrow> rat list \<Rightarrow> rat list" where
  "losses ind w closes = i_ewm ind (fdiv 1 (of_int w)) (map (\<lambda>d. - min d 0) (deltas closes))"

text \<open>\<open>100 - 100 / (1 + gain / loss.replace(0, NA))\<close>.\<close>

definition rsi_point :: "rat \<Rightarrow> rat \<Rightarrow> rat option" where
  "rsi_point gain loss = (if loss = 0 then None else Some (fsub 100 (fdiv 100 (fadd 1 (fdiv gain loss)))))"

definition compute_rsi :: "indicators \<Rightarrow> TuningConstants \<Rightarrow> rat list \<Rightarrow> int option \<Rightarrow> signal_error + rat" where
  "compute_rsi ind tun closes window0 =
     (let window = (case window0 of None \<Rightarrow> rsi_window tun | Some w \<Rightarrow> w)
      in check (1 \<le> window) ViolationError
         (if deltas closes = [] then Inr 50
          else let gain = last (gains ind window closes); loss = last (losses ind window closes)
               in case rsi_point gain loss of
                    None \<Rightarrow> Inr (if 0 < gain then 100 else 50)
                  | Some v \<Rightarrow> Inr v))"

definition rsi_series :: "indicators \<Rightarrow> TuningConstants \<Rightarrow> rat list \<Rightarrow> rat option list" where
  "rsi_series ind tun closes =
     (if closes = [] then []
      else None # map2 rsi_point (gains ind (rsi_window tun) closes) (losses ind (rsi_window tun) closes))"

datatype trend = Bull | Bear | UnknownTrend

definition htf_trend :: "indicators \<Rightarrow> TuningConstants \<Rightarrow> frame \<Rightarrow> string \<Rightarrow> signal_error + trend" where
  "htf_trend ind tun f interval =
     check (interval \<noteq> []) ViolationError
       (case map_of (htf_rule tun) interval of
          None \<Rightarrow> Inr UnknownTrend
        | Some rule \<Rightarrow>
            if \<not> f_dts f then Inr UnknownTrend
            else let closes = i_resample ind rule f
                 in if length closes < 55 then Inr UnknownTrend
                    else let fast = last (i_ema ind 21 closes); slow = last (i_ema ind 55 closes)
                         in Inr (if slow < fast then Bull else if fast < slow then Bear else UnknownTrend))"

section \<open>Candidates from a detection result\<close>

text \<open>
  A pattern object of the detector: each attribute with the conversion the engine applies, \<open>None\<close>
  where reading or converting it raises. An entry of \<open>x\<close> converts to an integer position, to an epoch,
  to both or to neither.
\<close>

record raw_x =
  x_int :: "int option"
  x_epoch :: "int option"

record raw_pattern =
  rp_points :: "rat list option"
  rp_min :: "rat option"
  rp_max :: "rat option"
  rp_name :: "string option"
  rp_bullish :: "bool option"
  rp_x :: "raw_x list"

fun map_times :: "int list \<Rightarrow> raw_x list \<Rightarrow> int list" where
  "map_times cts [] = []"
| "map_times cts (t # ts) =
     (case x_int t of
        Some pos \<Rightarrow> if 0 \<le> pos \<and> pos < int (length cts) then cts ! nat pos # map_times cts ts else map_times cts ts
      | None \<Rightarrow> (case x_epoch t of Some e \<Rightarrow> e # map_times cts ts | None \<Rightarrow> map_times cts ts))"

definition extract_times :: "raw_x list \<Rightarrow> int list option \<Rightarrow> int list \<times> int list" where
  "extract_times xs close_times =
     (let indices = List.map_filter x_int xs
      in case close_times of
           None \<Rightarrow> (if list_all (\<lambda>t. x_int t \<noteq> None) xs then indices else [], indices)
         | Some cts \<Rightarrow> (map_times cts xs, indices))"

definition to_candidate :: "raw_pattern \<Rightarrow> string \<Rightarrow> bool \<Rightarrow> int list option \<Rightarrow> Candidate option" where
  "to_candidate p fam fmd close_times =
     (case (rp_points p, rp_min p, rp_max p, rp_name p, rp_bullish p) of
        (Some points, Some c_min, Some c_max, Some nm, Some bull) \<Rightarrow>
          if length points < 3 \<or> c_min \<le> 0 \<or> c_max \<le> 0 then None
          else let (times, indices) = extract_times (rp_x p) close_times
               in Some \<lparr>family = fam, cname = nm, bullish = bull, formed = fmd, cpoints = points,
                        completion_min = c_min, completion_max = c_max, ctimes = times, cindices = indices\<rparr>
      | _ \<Rightarrow> None)"

text \<open>\<open>raw_assessment\<close>: the formed and the forming patterns, each by family; absent groups are empty.\<close>

type_synonym assessment = "(string \<times> raw_pattern list) list \<times> (string \<times> raw_pattern list) list"

definition extract_candidates :: "assessment \<Rightarrow> int list option \<Rightarrow> Candidate list" where
  "extract_candidates a close_times =
     (let group = (\<lambda>fmd g. concat (map (\<lambda>(fam, ps). List.map_filter (\<lambda>p. to_candidate p fam fmd close_times) ps) g))
      in group True (fst a) @ group False (snd a))"

section \<open>Confluence\<close>

definition is_reversal_candle :: "bar \<Rightarrow> bool \<Rightarrow> bool" where
  "is_reversal_candle row bull =
     (let rng = fsub (bhigh row) (blow row)
      in if rng \<le> 0 then False
         else if bull then
           let lower_wick = fsub (min (bopen row) (bclose row)) (blow row)
           in bopen row < bclose row \<and> fmul (1 / 2) rng \<le> lower_wick
         else let upper_wick = fsub (bhigh row) (max (bopen row) (bclose row))
              in bclose row < bopen row \<and> fmul (1 / 2) rng \<le> upper_wick)"

definition rsi_rising :: "rat option list \<Rightarrow> bool" where
  "rsi_rising series =
     (let recent = (if 2 \<le> length series then tail_rows 5 series else [])
      in if 2 \<le> length recent
         then (case (last recent, hd recent) of (Some b, Some a) \<Rightarrow> a < b | _ \<Rightarrow> False)
         else False)"

definition rsi_zone_score :: "rat \<Rightarrow> bool \<Rightarrow> rat option list \<Rightarrow> int" where
  "rsi_zone_score rsi bull series =
     (let rising = rsi_rising series in
      if bull then
        let s0 = (if rsi \<le> 30 then 7 else if rsi \<le> 40 then 5 else if rsi \<le> 50 then 2 else 0);
            s1 = (if 0 < s0 \<and> rising then s0 + 3 else s0)
        in if 60 \<le> rsi then s1 - 3 else s1
      else
        let s0 = (if 70 \<le> rsi then 7 else if 60 \<le> rsi then 5 else if 50 \<le> rsi then 2 else 0);
            s1 = (if 0 < s0 \<and> \<not> rising then s0 + 3 else s0)
        in if rsi \<le> 40 then s1 - 3 else s1)"

record divergence =
  d_name :: "string option"
  d_bullish :: "bool option"

definition divs :: "divergence list \<Rightarrow> string \<Rightarrow> bool \<Rightarrow> bool" where
  "divs ds kind bull = list_ex (\<lambda>d. d_name d = Some kind \<and> d_bullish d = Some bull) ds"

text \<open>The reads of \<open>confluence_score\<close> beside the frame: keyword arguments and their defaults.\<close>

record confluence_in =
  ci_atr :: rat
  ci_rsi :: rat
  ci_trend :: trend
  ci_divs :: "(string \<times> divergence list) list"
  ci_pa_scale :: rat
  ci_rsi_series :: "rat option list"
  ci_macd_line :: rat
  ci_macd_hist :: rat
  ci_macd_hist_prev :: rat

definition weight :: "TuningConstants \<Rightarrow> string \<Rightarrow> rat \<Rightarrow> rat" where
  "weight tun k v = get_default (confluence_weights tun) k v"

definition price_action_factor :: "indicators \<Rightarrow> TuningConstants \<Rightarrow> bar list \<Rightarrow> bool \<Rightarrow> rat \<Rightarrow> rat" where
  "price_action_factor ind tun bs bull pa_scale =
     (let row = last bs;
          pa = (if is_reversal_candle row bull
                then let vol_ma = i_mean ind (tail_rows (nat (volume_ma_window tun)) (map bvol bs))
                     in if 0 < vol_ma \<and> fmul (3 / 2) vol_ma \<le> bvol row then fadd 15 10 else 15
                else 0)
      in fmul (fmul (fdiv pa 25) (weight tun ''price_action'' 25)) pa_scale)"

definition trend_of :: "bool \<Rightarrow> trend" where
  "trend_of bull = (if bull then Bull else Bear)"

definition htf_factor :: "TuningConstants \<Rightarrow> bool \<Rightarrow> trend \<Rightarrow> rat" where
  "htf_factor tun bull tr =
     (let w = weight tun ''htf_trend'' 25
      in if tr = trend_of bull then w else if tr = UnknownTrend then fmul w (fl (4 / 10)) else 0)"

definition clip_factor :: "rat \<Rightarrow> rat \<Rightarrow> rat" where
  "clip_factor cap x = max (- cap) (min cap x)"

definition rsi_factor :: "TuningConstants \<Rightarrow> bool \<Rightarrow> confluence_in \<Rightarrow> rat" where
  "rsi_factor tun bull ci =
     (let ds = get_default (ci_divs ci) ''rsi'' [];
          s = (if divs ds ''Regular'' bull then 8 else if divs ds ''Hidden'' bull then - 5 else 0)
              + rsi_zone_score (ci_rsi ci) bull (ci_rsi_series ci);
          cap = weight tun ''rsi'' 15
      in clip_factor cap (fmul (fdiv (of_int s) 15) cap))"

definition structure_factor :: "TuningConstants \<Rightarrow> bar list \<Rightarrow> Candidate \<Rightarrow> rat \<Rightarrow> rat" where
  "structure_factor tun bs c atr =
     (let t = tail_rows (nat (swing_lookback tun)) bs;
          swing = (if bullish c then list_min (map blow t) else list_max (map bhigh t));
          mid = fdiv (fadd (prz_low c) (prz_high c)) 2
      in if \<bar>fsub mid swing\<bar> \<le> fmul (atr_prz_sweep tun) atr then weight tun ''structure'' 15 else 0)"

definition macd_factor :: "TuningConstants \<Rightarrow> bool \<Rightarrow> confluence_in \<Rightarrow> rat" where
  "macd_factor tun bull ci =
     (let ds = get_default (ci_divs ci) ''macd'' [];
          s = (if divs ds ''Regular'' bull then 10 else if divs ds ''Hidden'' bull then - 5 else 0 :: int);
          cap = weight tun ''macd'' 10
      in clip_factor cap (fmul (fdiv (of_int s) 10) cap))"

definition macd_zero_factor :: "bool \<Rightarrow> rat \<Rightarrow> rat" where
  "macd_zero_factor bull line = (if (if bull then line < 0 else 0 < line) then 8 else - 4)"

definition dual_factor :: "bool \<Rightarrow> confluence_in \<Rightarrow> rat" where
  "dual_factor bull ci =
     (let r = divs (get_default (ci_divs ci) ''rsi'' []) ''Regular'' bull;
          m = divs (get_default (ci_divs ci) ''macd'' []) ''Regular'' bull
      in if r \<and> m then 8 else if r \<or> m then 3 else 0)"

definition histogram_factor :: "bool \<Rightarrow> rat \<Rightarrow> rat \<Rightarrow> rat" where
  "histogram_factor bull h prev =
     (if bull then (if 0 < h \<and> prev < h then 5 else 0) else (if h < 0 \<and> h < prev then 5 else 0))"

definition confluence_score ::
    "indicators \<Rightarrow> TuningConstants \<Rightarrow> bar list \<Rightarrow> Candidate \<Rightarrow> confluence_in \<Rightarrow> signal_error + (rat \<times> (string \<times> rat) list)" where
  "confluence_score ind tun bs c ci =
     check (0 \<le> ci_atr ci) ViolationError (check (0 \<le> ci_rsi ci \<and> ci_rsi ci \<le> 100) ViolationError
     (check (0 \<le> ci_pa_scale ci \<and> ci_pa_scale ci \<le> 2) ViolationError
     (check (0 < prz_low c \<and> 0 < prz_high c) ViolationError
     (let bull = bullish c;
          factors = [(''price_action'', price_action_factor ind tun bs bull (ci_pa_scale ci)),
                     (''htf_trend'', htf_factor tun bull (ci_trend ci)),
                     (''rsi'', rsi_factor tun bull ci),
                     (''structure'', structure_factor tun bs c (ci_atr ci)),
                     (''macd'', macd_factor tun bull ci),
                     (''macd_zero'', macd_zero_factor bull (ci_macd_line ci)),
                     (''dual_confirm'', dual_factor bull ci),
                     (''histogram'', histogram_factor bull (ci_macd_hist ci) (ci_macd_hist_prev ci)),
                     (''funding'', fmul (weight tun ''funding'' 10) (1 / 2))]
      in Inr (fsum (vals_of factors), factors)))))"

section \<open>One candidate\<close>

definition clamp_sharpe :: "sharpe_value \<Rightarrow> rat" where
  "clamp_sharpe s = pyround (case s of NegInf \<Rightarrow> - 10 | PosInf \<Rightarrow> 10 | Fin x \<Rightarrow> max (- 10) (min 10 x)) 4"

definition pattern_bump :: "TuningConstants \<Rightarrow> string \<Rightarrow> rat" where
  "pattern_bump tun nm =
     (if nm = [] then 0
      else case find (\<lambda>(fam, bump). startswith (lower nm) fam) (pattern_base_score tun) of
             None \<Rightarrow> 0 | Some (fam, bump) \<Rightarrow> bump)"

definition swing_anchor :: "bar list \<Rightarrow> rat \<Rightarrow> bool \<Rightarrow> rat option" where
  "swing_anchor bs atr bull =
     (if atr \<le> 0 \<or> length bs < 20 then None
      else let recent = tail_rows 60 bs;
               bar_range = fsub (list_max (map bhigh recent)) (list_min (map blow recent))
           in if bar_range \<le> 0 then None
              else let lookback = max 20 (min 120 (py_int (fmul (fdiv (fmul 8 atr) bar_range) 60)));
                       window = tail_rows (min (nat lookback) (length bs)) bs
                   in Some (if bull then list_min (map blow window) else list_max (map bhigh window)))"

record score_context =
  sc_bars :: "bar list"
  sc_atr :: rat
  sc_rsi :: rat
  sc_trend :: trend
  sc_sharpe :: sharpe_value
  sc_regime :: string
  sc_a_min :: int
  sc_pa_scale :: rat
  sc_position_mult :: rat
  sc_price :: rat
  sc_divs :: "(string \<times> divergence list) list"
  sc_auth :: int
  sc_buffer_atr :: "rat option"
  sc_rsi_series :: "rat option list"
  sc_macd_line :: rat
  sc_macd_signal :: rat
  sc_macd_hist :: rat
  sc_macd_hist_prev :: rat

definition prepare_score_context ::
    "indicators \<Rightarrow> TuningConstants \<Rightarrow> frame \<Rightarrow> string \<Rightarrow> (string \<times> divergence list) list \<Rightarrow> rat option
       \<Rightarrow> signal_error + score_context option" where
  "prepare_score_context ind tun f interval divergences buffer_atr =
     (let bs = f_bars f; closes = map bclose bs;
          auth = volume_authenticity (i_np_mean ind) (i_np_sum ind) bs (nat (volume_authenticity_window TUNING));
          pa_scale = (if auth < authenticity_halve tun then 1 / 2 else 1)
      in ebind (compute_atr ind tun bs None) (\<lambda>atr.
         if atr \<le> 0 then Inr None
         else ebind (compute_rsi ind tun closes None) (\<lambda>rsi.
              ebind (htf_trend ind tun f interval) (\<lambda>tr.
              let sharpe = per_bar_sharpe (i_mean ind) (i_pd_std ind) (i_pct_change ind) tun closes None;
                  regime = snd (quant_regime (i_np_mean ind) (i_np_std ind) tun bs (nat (quant_regime_window TUNING)));
                  a_min = (if regime = ''high_quant'' then a_grade_min_high_quant tun else a_grade_min tun);
                  regime_mult = (if regime = ''high_quant'' then high_quant_position_mult tun else 1);
                  price = last closes;
                  position_mult = pyround (fmul (volatility_multiplier tun atr price None) regime_mult) 4;
                  line = map2 fsub (i_ema ind 12 closes) (i_ema ind 26 closes);
                  sig = i_ema ind 9 line;
                  hist = map2 fsub line sig
              in Inr (Some \<lparr>sc_bars = bs, sc_atr = atr, sc_rsi = rsi, sc_trend = tr, sc_sharpe = sharpe,
                     sc_regime = regime, sc_a_min = a_min, sc_pa_scale = pa_scale, sc_position_mult = position_mult,
                     sc_price = price, sc_divs = divergences, sc_auth = auth, sc_buffer_atr = buffer_atr,
                     sc_rsi_series = rsi_series ind tun closes,
                     sc_macd_line = last line, sc_macd_signal = last sig, sc_macd_hist = last hist,
                     sc_macd_hist_prev = (if 2 \<le> length hist then hist ! (length hist - 2) else 0)\<rparr>)))))"

datatype signal_status = Status prz_status | Confirmed

record signal =
  sg_status :: signal_status
  sg_grade :: grade_label
  sg_direction :: direction
  sg_pattern :: string
  sg_family :: string
  sg_formed :: bool
  sg_entry_zone :: "rat \<times> rat"
  sg_entry :: rat
  sg_stop :: rat
  sg_stop_basis :: stop_basis
  sg_stop_level :: string
  sg_invalidation :: rat
  sg_targets :: "SignalTarget list"
  sg_rr1 :: rat
  sg_rr2 :: rat
  sg_score :: int
  sg_confluence :: "(string \<times> rat) list"
  sg_trend :: trend
  sg_sharpe :: rat
  sg_regime :: string
  sg_position_mult :: rat
  sg_stability :: "int option"
  sg_trap :: int
  sg_tradable :: bool
  sg_width_pct :: rat

definition candidate_status :: "score_context \<Rightarrow> Candidate \<Rightarrow> signal_status" where
  "candidate_status ctx c =
     (let row = last (sc_bars ctx);
          swept = is_swept (blow row) (bhigh row) (sc_price ctx) (prz_low c) (prz_high c);
          st = prz_state (sc_price ctx) (prz_low c) (prz_high c) swept
      in if st \<in> {In_prz, Swept} \<and> is_reversal_candle row (bullish c) then Confirmed else Status st)"

definition candidate_entry :: "score_context \<Rightarrow> Candidate \<Rightarrow> rat" where
  "candidate_entry ctx c =
     (if candidate_status ctx c \<noteq> Status Approaching then sc_price ctx
      else if bullish c then prz_high c else prz_low c)"

definition prz_width :: "Candidate \<Rightarrow> rat" where
  "prz_width c =
     (let mid = fdiv (fadd (prz_low c) (prz_high c)) 2
      in if 0 < mid then fdiv (fsub (prz_high c) (prz_low c)) mid else 0)"

definition confluence_of :: "score_context \<Rightarrow> confluence_in" where
  "confluence_of ctx =
     \<lparr>ci_atr = sc_atr ctx, ci_rsi = sc_rsi ctx, ci_trend = sc_trend ctx, ci_divs = sc_divs ctx,
      ci_pa_scale = sc_pa_scale ctx, ci_rsi_series = sc_rsi_series ctx, ci_macd_line = sc_macd_line ctx,
      ci_macd_hist = sc_macd_hist ctx, ci_macd_hist_prev = sc_macd_hist_prev ctx\<rparr>"

definition score_candidate ::
    "indicators \<Rightarrow> TuningConstants \<Rightarrow> score_context \<Rightarrow> Candidate \<Rightarrow> string \<Rightarrow> signal_error + signal option" where
  "score_candidate ind tun ctx c level =
     check (level \<in> {''conservative'', ''standard'', ''aggressive''}) ViolationError
     (check (0 < sc_atr ctx) ViolationError
     (if sc_auth ctx < (if formed c then authenticity_veto tun else authenticity_halve tun) then Inr None
      else
      let bs = sc_bars ctx; atr = sc_atr ctx; entry = candidate_entry ctx c;
          opts = default_opts\<lparr>opt_swing := swing_anchor bs atr (bullish c), opt_entry := Some entry\<rparr>
      in ebind (compute_stop tun c atr level opts) (\<lambda>(stop1, _, _).
         let (trap_score, trap_veto, _) =
               quant_trap_risk bs (prz_low c) (prz_high c) (bullish c) (nat (quant_trap_lookback TUNING))
         in if trap_veto then Inr None
            else if adverse_momentum_veto tun (cand_direction c) (sc_sharpe ctx) None then Inr None
            else ebind (compute_targets tun c entry) (\<lambda>targets.
              if \<not> direction_invariant_ok (cand_direction c) entry stop1 (map target_price targets) then Inr None
              else ebind (net_rr tun entry stop1 (target_price (targets ! 0)) None None) (\<lambda>rr1.
                ebind (net_rr tun entry stop1 (target_price (targets ! 1)) None None) (\<lambda>rr2.
                ebind (confluence_score ind tun bs c (confluence_of ctx)) (\<lambda>(raw, factors).
                let score = max 0 (min 100 (fadd raw (pattern_bump tun (cname c))));
                    width = prz_width c;
                    aligned = (sc_trend ctx = trend_of (bullish c));
                    counter = (sc_trend ctx = trend_of (\<not> bullish c))
                in ebind (grade score rr1 rr2 aligned counter (sc_a_min ctx) (Some width)) (\<lambda>g.
                   case g of None \<Rightarrow> Inr None
                   | Some gr \<Rightarrow>
                       ebind (trap_stop_multiplier trap_score) (\<lambda>trap_m.
                       ebind (compute_stop tun c atr level
                                (opts\<lparr>opt_trap := trap_m, opt_regime := sc_regime ctx, opt_grade := Some gr,
                                      opt_buffer_atr := sc_buffer_atr ctx\<rparr>)) (\<lambda>(stop, basis, inval).
                       ebind (net_rr tun entry stop (target_price (targets ! 0)) None None) (\<lambda>fr1.
                       ebind (net_rr tun entry stop (target_price (targets ! 1)) None None) (\<lambda>fr2.
                       Inr (Some \<lparr>sg_status = candidate_status ctx c, sg_grade = gr, sg_direction = cand_direction c,
                          sg_pattern = cname c, sg_family = family c, sg_formed = formed c,
                          sg_entry_zone = (prz_low c, prz_high c), sg_entry = pyround entry 8,
                          sg_stop = stop, sg_stop_basis = basis, sg_stop_level = level, sg_invalidation = inval,
                          sg_targets = targets,
                          sg_rr1 = (case fr1 of Some r \<Rightarrow> r | None \<Rightarrow> 0),
                          sg_rr2 = (case fr2 of Some r \<Rightarrow> r | None \<Rightarrow> 0),
                          sg_score = rhe score, sg_confluence = factors, sg_trend = sc_trend ctx,
                          sg_sharpe = clamp_sharpe (sc_sharpe ctx), sg_regime = sc_regime ctx,
                          sg_position_mult = sc_position_mult ctx, sg_stability = None, sg_trap = trap_score,
                          sg_tradable = (gr \<noteq> GradeCref), sg_width_pct = pyround width 4\<rparr>)))))))))))))"

section \<open>The strongest signal\<close>

text \<open>\<open>{"A": 3, "B": 2, "C": 1}.get(grade, 0)\<close>, then the score, then the formed flag.\<close>

fun rank_grade :: "grade_label \<Rightarrow> int" where
  "rank_grade GradeA = 3"
| "rank_grade GradeB = 2"
| "rank_grade GradeC = 1"
| "rank_grade GradeCref = 0"

definition rank_of :: "signal \<Rightarrow> int \<times> rat \<times> bool" where
  "rank_of s = (rank_grade (sg_grade s), of_int (sg_score s), sg_formed s)"

text \<open>Python compares tuples lexicographically: the library's order on products.\<close>

fun rank_loop :: "signal list \<Rightarrow> signal option \<Rightarrow> int \<times> rat \<times> bool \<Rightarrow> signal option" where
  "rank_loop [] best best_rank = best"
| "rank_loop (s # ss) best best_rank =
     (if best_rank < rank_of s then rank_loop ss (Some s) (rank_of s) else rank_loop ss best best_rank)"

definition rank_signals :: "signal list \<Rightarrow> signal option" where
  "rank_signals ss = rank_loop ss None (- 1, - 1, False)"

text \<open>\<open>df.iloc[:-n]\<close> and \<open>df.iloc[n:]\<close>.\<close>

definition drop_last :: "int \<Rightarrow> 'a list \<Rightarrow> 'a list" where
  "drop_last n xs = (if 0 < n then take (length xs - nat n) xs else take (nat (- n)) xs)"

definition drop_first :: "int \<Rightarrow> 'a list \<Rightarrow> 'a list" where
  "drop_first n xs = (if 0 \<le> n then drop (nat n) xs else tail_rows (nat (- n)) xs)"

definition sub_frame :: "(bar list \<Rightarrow> bar list) \<Rightarrow> (int list \<Rightarrow> int list) \<Rightarrow> frame \<Rightarrow> frame" where
  "sub_frame g h f = f\<lparr>f_bars := g (f_bars f), f_close_time := map_option h (f_close_time f)\<rparr>"

text \<open>The detector returns a pattern name or nothing (\<open>Some r\<close>), or raises (\<open>None\<close>).\<close>

definition sub_detections ::
    "TuningConstants \<Rightarrow> frame \<Rightarrow> (frame \<Rightarrow> string option option) \<Rightarrow> string option \<times> string option" where
  "sub_detections tun f detect =
     (let stab = stability_window tun in
      case detect (sub_frame (drop_last stab) (drop_last stab) f) of
        None \<Rightarrow> (None, None)
      | Some r1 \<Rightarrow>
          (case detect (sub_frame (drop_first stab) (drop_first stab) f) of
             None \<Rightarrow> (None, None) | Some r2 \<Rightarrow> (r1, r2)))"

definition apply_stability ::
    "TuningConstants \<Rightarrow> frame \<Rightarrow> signal option \<Rightarrow> (frame \<Rightarrow> string option option) option \<Rightarrow> signal option" where
  "apply_stability tun f best detector =
     (case (best, detector) of
        (Some b, Some detect) \<Rightarrow>
          if sg_grade b \<notin> {GradeA, GradeB} then best
          else let (sub1, sub2) = sub_detections tun f detect;
                   (s_score, suspect) = stability_verdict (Some (sg_pattern b)) sub1 sub2
               in if suspect then None else Some (b\<lparr>sg_stability := Some s_score\<rparr>)
      | _ \<Rightarrow> best)"

fun score_all ::
    "indicators \<Rightarrow> TuningConstants \<Rightarrow> score_context \<Rightarrow> string \<Rightarrow> Candidate list \<Rightarrow> signal_error + signal list" where
  "score_all ind tun ctx level [] = Inr []"
| "score_all ind tun ctx level (c # cs) =
     ebind (score_candidate ind tun ctx c level) (\<lambda>s.
     ebind (score_all ind tun ctx level cs) (\<lambda>ss.
       Inr (case s of None \<Rightarrow> ss | Some sg \<Rightarrow> sg # ss)))"

definition build_signal ::
    "indicators \<Rightarrow> TuningConstants \<Rightarrow> frame option \<Rightarrow> string \<Rightarrow> Candidate list \<Rightarrow> (string \<times> divergence list) list
       \<Rightarrow> (frame \<Rightarrow> string option option) option \<Rightarrow> string \<Rightarrow> rat option \<Rightarrow> signal_error + signal option" where
  "build_signal ind tun df interval candidates divergences detector level buffer_atr =
     check (interval \<noteq> []) ViolationError
     (check (level \<in> {''conservative'', ''standard'', ''aggressive''}) ViolationError
     (case df of
        None \<Rightarrow> Inr None
      | Some f \<Rightarrow>
          if int (length (f_bars f)) < min_candles tun \<or> candidates = [] then Inr None
          else ebind (prepare_score_context ind tun f interval divergences buffer_atr) (\<lambda>ctx0.
            case ctx0 of None \<Rightarrow> Inr None
            | Some ctx \<Rightarrow>
                ebind (filter_candidates tun candidates (sc_price ctx) (sc_atr ctx) (f_close_time f)) (\<lambda>(valid, rejected).
                ebind (score_all ind tun ctx level valid) (\<lambda>scored.
                Inr (apply_stability tun f (rank_signals scored) detector))))))"

section \<open>What a scored signal went through\<close>

definition base_opts :: "score_context \<Rightarrow> Candidate \<Rightarrow> stop_opts" where
  "base_opts ctx c =
     default_opts\<lparr>opt_swing := swing_anchor (sc_bars ctx) (sc_atr ctx) (bullish c), opt_entry := Some (candidate_entry ctx c)\<rparr>"

definition final_opts :: "score_context \<Rightarrow> Candidate \<Rightarrow> rat \<Rightarrow> grade_label \<Rightarrow> stop_opts" where
  "final_opts ctx c trap_m gr =
     (base_opts ctx c)\<lparr>opt_trap := trap_m, opt_regime := sc_regime ctx, opt_grade := Some gr, opt_buffer_atr := sc_buffer_atr ctx\<rparr>"

definition candidate_score :: "TuningConstants \<Rightarrow> Candidate \<Rightarrow> rat \<Rightarrow> rat" where
  "candidate_score tun c raw = max 0 (min 100 (fadd raw (pattern_bump tun (cname c))))"

lemma score_candidate_Some:
  assumes "score_candidate ind tun ctx c level = Inr (Some sig)"
  obtains stop1 basis1 inval1 trap_score reasons targets rr1 rr2 raw factors trap_m basis inval where
    "\<not> sc_auth ctx < (if formed c then authenticity_veto tun else authenticity_halve tun)"
    and "compute_stop tun c (sc_atr ctx) level (base_opts ctx c) = Inr (stop1, basis1, inval1)"
    and "quant_trap_risk (sc_bars ctx) (prz_low c) (prz_high c) (bullish c) (nat (quant_trap_lookback TUNING))
           = (trap_score, False, reasons)"
    and "\<not> adverse_momentum_veto tun (cand_direction c) (sc_sharpe ctx) None"
    and "compute_targets tun c (candidate_entry ctx c) = Inr targets"
    and "direction_invariant_ok (cand_direction c) (candidate_entry ctx c) stop1 (map target_price targets)"
    and "confluence_score ind tun (sc_bars ctx) c (confluence_of ctx) = Inr (raw, factors)"
    and "net_rr tun (candidate_entry ctx c) stop1 (target_price (targets ! 0)) None None = Inr rr1"
    and "net_rr tun (candidate_entry ctx c) stop1 (target_price (targets ! 1)) None None = Inr rr2"
    and "grade (candidate_score tun c raw) rr1 rr2 (sc_trend ctx = trend_of (bullish c))
           (sc_trend ctx = trend_of (\<not> bullish c)) (sc_a_min ctx) (Some (prz_width c)) = Inr (Some (sg_grade sig))"
    and "trap_stop_multiplier trap_score = Inr trap_m"
    and "compute_stop tun c (sc_atr ctx) level (final_opts ctx c trap_m (sg_grade sig)) = Inr (sg_stop sig, basis, inval)"
    and "sg_direction sig = cand_direction c" "sg_targets sig = targets" "sg_score sig = rhe (candidate_score tun c raw)"
    and "sg_tradable sig = (sg_grade sig \<noteq> GradeCref)" "sg_pattern sig = cname c" "sg_formed sig = formed c"
    and "sg_entry sig = pyround (candidate_entry ctx c) 8" "sg_trap sig = trap_score" "sg_stability sig = None"
proof -
  note st = assms[unfolded score_candidate_def Let_def check_eq_Inr base_opts_def[symmetric] candidate_score_def[symmetric]]
  have auth: "\<not> sc_auth ctx < (if formed c then authenticity_veto tun else authenticity_halve tun)"
    using st by (auto split: if_splits)
  obtain stop1 basis1 inval1 where s1: "compute_stop tun c (sc_atr ctx) level (base_opts ctx c) = Inr (stop1, basis1, inval1)"
    using st auth by (auto split: if_splits)
  obtain trap_score veto reasons where trap: "quant_trap_risk (sc_bars ctx) (prz_low c) (prz_high c) (bullish c)
      (nat (quant_trap_lookback TUNING)) = (trap_score, veto, reasons)" by (cases "quant_trap_risk (sc_bars ctx) (prz_low c)
      (prz_high c) (bullish c) (nat (quant_trap_lookback TUNING))") auto
  note st1 = st[unfolded s1 trap ebind.simps prod.case]
  have veto: "\<not> veto" "\<not> adverse_momentum_veto tun (cand_direction c) (sc_sharpe ctx) None"
    using st1 auth by (auto split: if_splits)
  obtain targets where tg: "compute_targets tun c (candidate_entry ctx c) = Inr targets"
    using st1 auth veto by (auto split: if_splits)
  note st2 = st1[unfolded tg ebind.simps]
  have ok: "direction_invariant_ok (cand_direction c) (candidate_entry ctx c) stop1 (map target_price targets)"
    using st2 auth veto by (auto split: if_splits)
  obtain rr1 rr2 raw factors where rr: "net_rr tun (candidate_entry ctx c) stop1 (target_price (targets ! 0)) None None = Inr rr1"
    "net_rr tun (candidate_entry ctx c) stop1 (target_price (targets ! 1)) None None = Inr rr2"
    "confluence_score ind tun (sc_bars ctx) c (confluence_of ctx) = Inr (raw, factors)"
    using st2 auth veto ok by (auto split: if_splits)
  note st3 = st2[unfolded rr ebind.simps prod.case]
  obtain gr where gr: "grade (candidate_score tun c raw) rr1 rr2 (sc_trend ctx = trend_of (bullish c))
           (sc_trend ctx = trend_of (\<not> bullish c)) (sc_a_min ctx) (Some (prz_width c)) = Inr (Some gr)"
    using st3 auth veto ok by (auto split: if_splits option.splits)
  note st4 = st3[unfolded gr ebind.simps option.case]
  obtain trap_m where tm: "trap_stop_multiplier trap_score = Inr trap_m"
    using st4 auth veto ok by (auto split: if_splits)
  note st5 = st4[unfolded tm ebind.simps final_opts_def[symmetric]]
  obtain stop basis inval where s2: "compute_stop tun c (sc_atr ctx) level (final_opts ctx c trap_m gr) = Inr (stop, basis, inval)"
    using st5 auth veto ok by (auto simp: final_opts_def split: if_splits)
  have res: "sg_grade sig = gr" "sg_stop sig = stop" "sg_direction sig = cand_direction c" "sg_targets sig = targets"
    "sg_score sig = rhe (candidate_score tun c raw)" "sg_tradable sig = (gr \<noteq> GradeCref)" "sg_pattern sig = cname c"
    "sg_formed sig = formed c" "sg_entry sig = pyround (candidate_entry ctx c) 8" "sg_trap sig = trap_score"
    "sg_stability sig = None"
    using st5 auth veto ok s2 by (auto simp: final_opts_def split: if_splits)
  show ?thesis using auth s1 trap veto tg ok rr gr tm s2 res by (intro that) auto
qed

section \<open>Ranking\<close>

text \<open>Grade labels are ordered by their rank.\<close>

lemma rank_grade_inject: "rank_grade g = rank_grade g' \<longleftrightarrow> g = g'"
  by (cases g; cases g') auto

instantiation grade_label :: linorder
begin

definition less_eq_grade_label :: "grade_label \<Rightarrow> grade_label \<Rightarrow> bool" where
  "less_eq_grade_label g g' = (rank_grade g \<le> rank_grade g')"

definition less_grade_label :: "grade_label \<Rightarrow> grade_label \<Rightarrow> bool" where
  "less_grade_label g g' = (rank_grade g < rank_grade g')"

instance
  by standard (auto simp: less_eq_grade_label_def less_grade_label_def rank_grade_inject)

end

lemma rank_grade_nonneg: "0 \<le> rank_grade g"
  by (cases g) auto

lemma rank_of_start: "(- 1, - 1, False) < rank_of s"
  using rank_grade_nonneg[of "sg_grade s"] by (simp add: rank_of_def less_prod_simp)

lemma rank_loop_best:
  assumes "rank_loop ss best r = res" and "r = (case best of None \<Rightarrow> (- 1, - 1, False) | Some b \<Rightarrow> rank_of b)"
  shows "(res = best \<and> (\<forall>s \<in> set ss. rank_of s \<le> r))
       \<or> (\<exists>xs b ys. ss = xs @ b # ys \<and> res = Some b \<and> r < rank_of b
            \<and> (\<forall>x \<in> set xs. rank_of x < rank_of b) \<and> (\<forall>y \<in> set ys. rank_of y \<le> rank_of b))"
  using assms
proof (induction ss arbitrary: best r)
  case (Cons s ss)
  show ?case
  proof (cases "r < rank_of s")
    case True
    have res: "rank_loop ss (Some s) (rank_of s) = res" using Cons.prems True by simp
    from Cons.IH[OF res] consider "res = Some s" "\<forall>x \<in> set ss. rank_of x \<le> rank_of s"
      | xs b ys where "ss = xs @ b # ys" "res = Some b" "rank_of s < rank_of b"
          "\<forall>x \<in> set xs. rank_of x < rank_of b" "\<forall>y \<in> set ys. rank_of y \<le> rank_of b" by auto
    then show ?thesis
    proof cases
      case 1
      then show ?thesis using True by (intro disjI2 exI[of _ "[]"] exI[of _ s] exI[of _ ss]) auto
    next
      case 2
      then show ?thesis using True by (intro disjI2 exI[of _ "s # xs"] exI[of _ b] exI[of _ ys]) (auto intro: less_trans)
    qed
  next
    case False
    have res: "rank_loop ss best r = res" using Cons.prems False by simp
    from Cons.IH[OF res Cons.prems(2)] show ?thesis
    proof (elim disjE exE conjE)
      assume "res = best" "\<forall>s \<in> set ss. rank_of s \<le> r"
      then show ?thesis using False by auto
    next
      fix xs b ys
      assume "ss = xs @ b # ys" "res = Some b" "r < rank_of b"
        "\<forall>x \<in> set xs. rank_of x < rank_of b" "\<forall>y \<in> set ys. rank_of y \<le> rank_of b"
      then show ?thesis using False
        by (intro disjI2 exI[of _ "s # xs"] exI[of _ b] exI[of _ ys]) auto
    qed
  qed
qed auto

text \<open>
  Ranking returns the first strongest signal. From a list of signals it returns none exactly when
  the list is empty, and otherwise the earliest signal of the list whose rank (grade, then
  score, then formed over forming) no other exceeds; in particular no signal of the list has a better grade.
\<close>

theorem rank_signals_first_best:
  "case rank_signals ss of
     None \<Rightarrow> ss = []
   | Some b \<Rightarrow> (\<exists>xs ys. ss = xs @ b # ys \<and> (\<forall>x \<in> set xs. rank_of x < rank_of b) \<and> (\<forall>y \<in> set ys. rank_of y \<le> rank_of b))
       \<and> (\<forall>s \<in> set ss. sg_grade s \<le> sg_grade b)"
proof -
  have le: "sg_grade s \<le> sg_grade b" if "rank_of s \<le> rank_of b" for s b
    using that by (auto simp: rank_of_def less_eq_grade_label_def less_eq_prod_simp)
  from rank_loop_best[of ss None "(- 1, - 1, False)" "rank_signals ss"]
  consider "rank_signals ss = None" "\<forall>s \<in> set ss. rank_of s \<le> (- 1, - 1, False)"
    | xs b ys where "ss = xs @ b # ys" "rank_signals ss = Some b" "\<forall>x \<in> set xs. rank_of x < rank_of b"
        "\<forall>y \<in> set ys. rank_of y \<le> rank_of b"
    by (auto simp: rank_signals_def)
  then show ?thesis
  proof cases
    case 1
    then show ?thesis using rank_of_start by (cases ss) (auto simp: not_less[symmetric])
  next
    case 2
    have "sg_grade s \<le> sg_grade b" if "s \<in> set ss" for s
      using that 2(1,3,4) by (intro le) (auto intro: less_imp_le)
    then show ?thesis using 2 by auto
  qed
qed

definition demo_signal :: "grade_label \<Rightarrow> int \<Rightarrow> signal" where
  "demo_signal g s = \<lparr>sg_status = Confirmed, sg_grade = g, sg_direction = LONG, sg_pattern = ''bat'', sg_family = ''XABCD'',
     sg_formed = True, sg_entry_zone = (99, 101), sg_entry = 100, sg_stop = 98,
     sg_stop_basis = \<lparr>anchor_kind = PrzOuter, multiplier_label = 1, chain = [], swing_used = False\<rparr>,
     sg_stop_level = ''standard'', sg_invalidation = 99, sg_targets = [], sg_rr1 = 1, sg_rr2 = 2, sg_score = s,
     sg_confluence = [], sg_trend = Bull, sg_sharpe = 0, sg_regime = ''normal'', sg_position_mult = 1,
     sg_stability = None, sg_trap = 50, sg_tradable = True, sg_width_pct = 0\<rparr>"

theorem rank_signals_first_best_witness:
  "\<exists>b. rank_signals [demo_signal GradeB 70, demo_signal GradeA 72, demo_signal GradeA 71] = Some b \<and> GradeA \<le> sg_grade b"
  using rank_signals_first_best[of "[demo_signal GradeB 70, demo_signal GradeA 72, demo_signal GradeA 71]"]
  by (auto simp: demo_signal_def split: option.splits)

section \<open>The relative strength index\<close>

lemma rsi_point_unit:
  assumes "0 \<le> g" "0 \<le> l" "rsi_point g l = Some v"
  shows "0 \<le> v \<and> v \<le> 100"
proof -
  have v: "v = fsub 100 (fdiv 100 (fadd 1 (fdiv g l)))" and l: "0 < l"
    using assms by (auto simp: rsi_point_def split: if_splits)
  have rs: "0 \<le> fdiv g l" using assms(1) l by (intro fdiv_nonneg) auto
  have one: "1 \<le> fadd 1 (fdiv g l)" using rs by (intro fadd_ge) auto
  have q: "0 \<le> fdiv 100 (fadd 1 (fdiv g l))" using one by (intro fdiv_nonneg) auto
  have "fdiv 100 (fadd 1 (fdiv g l)) \<le> 100"
    using one by (intro fdiv_le_float) (auto simp: divide_le_eq)
  then show ?thesis using q unfolding v by (auto intro: fsub_nonneg fsub_le)
qed

text \<open>What the engine relies on: an exponentially weighted mean of nonnegative values is nonnegative.\<close>

definition ewm_nonneg :: "indicators \<Rightarrow> bool" where
  "ewm_nonneg ind = (\<forall>a xs. (\<forall>x \<in> set xs. 0 \<le> x) \<longrightarrow> (\<forall>y \<in> set (i_ewm ind a xs). 0 \<le> y))"

definition ewm_length :: "indicators \<Rightarrow> bool" where
  "ewm_length ind = (\<forall>a xs. length (i_ewm ind a xs) = length xs)"

lemma gains_losses_nonneg:
  assumes "ewm_nonneg ind"
  shows "y \<in> set (gains ind w xs) \<Longrightarrow> 0 \<le> y" and "y \<in> set (losses ind w xs) \<Longrightarrow> 0 \<le> y"
proof -
  show "0 \<le> y" if "y \<in> set (gains ind w xs)"
    using assms that unfolding ewm_nonneg_def gains_def by (elim allE impE) auto
  show "0 \<le> y" if "y \<in> set (losses ind w xs)"
    using assms that unfolding ewm_nonneg_def losses_def by (elim allE impE) auto
qed

text \<open>
  The relative strength index is a percentage. Whatever the closes are, where the window is at
  least one bar the engine's RSI is between 0 and 100 (the precondition of the confluence score),
  and so is every value of the series it scores the trend with; with a smaller window it raises.
\<close>

theorem rsi_is_percentage:
  assumes "ewm_nonneg ind" and "ewm_length ind"
  shows "(if 1 \<le> (case w of None \<Rightarrow> rsi_window tun | Some x \<Rightarrow> x)
          then \<exists>v. compute_rsi ind tun closes w = Inr v \<and> 0 \<le> v \<and> v \<le> 100
          else compute_rsi ind tun closes w = Inl ViolationError)
       \<and> (\<forall>v. Some v \<in> set (rsi_series ind tun closes) \<longrightarrow> 0 \<le> v \<and> v \<le> 100)"
proof -
  have last: "0 \<le> last (gains ind x closes) \<and> 0 \<le> last (losses ind x closes)" if "deltas closes \<noteq> []" for x
  proof -
    have "gains ind x closes \<noteq> []" "losses ind x closes \<noteq> []"
      using assms(2) that by (auto simp: ewm_length_def gains_def losses_def dest!: arg_cong[where f = length])
    then show ?thesis using gains_losses_nonneg[OF assms(1)] last_in_set by blast
  qed
  have series: "0 \<le> v \<and> v \<le> 100" if v: "Some v \<in> set (rsi_series ind tun closes)" for v
  proof -
    obtain g l where gl: "(g, l) \<in> set (zip (gains ind (rsi_window tun) closes) (losses ind (rsi_window tun) closes))"
      "rsi_point g l = Some v"
      using v by (fastforce simp: rsi_series_def split: if_splits)
    have "0 \<le> g" by (rule gains_losses_nonneg(1)[OF assms(1) set_zip_leftD[OF gl(1)]])
    moreover have "0 \<le> l" by (rule gains_losses_nonneg(2)[OF assms(1) set_zip_rightD[OF gl(1)]])
    ultimately show ?thesis using gl(2) by (rule rsi_point_unit)
  qed
  have point: "0 \<le> v \<and> v \<le> 100"
    if "deltas closes \<noteq> []" "rsi_point (last (gains ind x closes)) (last (losses ind x closes)) = Some v" for x v
    using last[OF that(1), of x] by (intro rsi_point_unit[OF _ _ that(2)]) simp_all
  let ?w = "case w of None \<Rightarrow> rsi_window tun | Some x \<Rightarrow> x"
  have "\<exists>v. compute_rsi ind tun closes w = Inr v \<and> 0 \<le> v \<and> v \<le> 100" if w: "1 \<le> ?w"
  proof (cases "deltas closes = []")
    case True
    then show ?thesis using w by (simp add: compute_rsi_def Let_def)
  next
    case False
    then show ?thesis using w point[OF False, of ?w]
      by (cases "rsi_point (last (gains ind ?w closes)) (last (losses ind ?w closes))") (simp_all add: compute_rsi_def Let_def)
  qed
  moreover have "compute_rsi ind tun closes w = Inl ViolationError" if "\<not> 1 \<le> ?w"
    using that by (simp add: compute_rsi_def Let_def check_def)
  ultimately show ?thesis using series by auto
qed

definition demo_ind :: indicators where
  "demo_ind = \<lparr>i_mean = (\<lambda>xs. fdiv (fsum xs) (of_nat (length xs))), i_roll = (\<lambda>n xs. fdiv (fsum (tail_rows n xs)) (of_nat n)),
     i_ewm = (\<lambda>a xs. xs), i_ema = (\<lambda>n xs. xs), i_resample = (\<lambda>r f. map bclose (f_bars f)),
     i_np_mean = (\<lambda>xs. fdiv (fsum xs) (of_nat (length xs))), i_np_sum = fsum, i_np_std = (\<lambda>xs. 0),
     i_pd_std = (\<lambda>xs. None), i_pct_change = (\<lambda>xs. [])\<rparr>"

lemma demo_ind_ewm: "ewm_nonneg demo_ind" "ewm_length demo_ind"
  by (simp_all add: ewm_nonneg_def ewm_length_def demo_ind_def)

theorem rsi_is_percentage_witness:
  "\<exists>v. compute_rsi demo_ind TUNING [1, 2, 3] (Some 14) = Inr v \<and> 0 \<le> v \<and> v \<le> 100"
  using rsi_is_percentage[OF demo_ind_ewm, where w = "Some 14" and tun = TUNING and closes = "[1, 2, 3]"] by simp

text \<open>
  Without an RSI history nothing is known of its trend, yet a bearish candidate gets the bonus for a
  falling RSI; a bullish one gets none for a rising one.
\<close>

lemma missing_rsi_history_favours_bears:
  "rsi_zone_score 75 False [] = 10 \<and> rsi_zone_score 25 True [] = 7"
  by (simp add: rsi_zone_score_def rsi_rising_def)

section \<open>Geometry of a signal\<close>

lemma buffer_widens:
  assumes "0 \<le> base" "0 \<le> atr"
  shows "stop_buffer base (base_opts ctx c) atr \<le> stop_buffer base (final_opts ctx c m g) atr"
proof -
  let ?o = "base_opts ctx c" and ?o' = "final_opts ctx c m g"
  have f: "trap_factor ?o = 1" "regime_factor ?o = 1" "grade_factor ?o = 1"
    by (simp_all add: base_opts_def default_opts_def trap_factor_def regime_factor_def grade_factor_def
        get_default_def REGIME_STOP_MULTIPLIER_def)
  have ge: "1 \<le> trap_factor ?o'" "1 \<le> regime_factor ?o'" "1 \<le> grade_factor ?o'"
    by (simp_all add: trap_factor_ge1 regime_factor_bounds grade_factor_ge1)
  have "fmul (fmul (fmul base 1) 1) 1 \<le> fmul (fmul (fmul base (trap_factor ?o')) (regime_factor ?o')) (grade_factor ?o')"
    using assms ge by (intro fmul_mono fmul_nonneg) auto
  moreover have "0 \<le> fmul (fmul (fmul base 1) 1) 1" using assms by (intro fmul_nonneg) auto
  ultimately show ?thesis
    using assms unfolding stop_buffer_def f by (intro fmul_mono) (auto simp: MAX_STOP_BUFFER_MULT_def)
qed

text \<open>Without the escape hatch the second stop lies no nearer than the first.\<close>

lemma second_stop_no_nearer:
  assumes s1: "compute_stop tun c atr level (base_opts ctx c) = Inr (stop1, b1, i1)"
    and s2: "compute_stop tun c atr level (final_opts ctx c m g) = Inr (stop2, b2, i2)"
    and hatch: "sc_buffer_atr ctx = None" and pos: "\<forall>(k, b) \<in> set (atr_stop_buffer tun). 0 \<le> b"
  shows "if bullish c then stop2 \<le> stop1 else stop1 \<le> stop2"
proof -
  let ?l = "if level \<in> set STOP_LOSS_LEVELS then level else ''standard''"
  obtain base a0 k a sw where A: "0 < atr" "stop_base tun ?l (base_opts ctx c) = Inr base"
    "stop_anchor c ?l (is_extended tun c) = Inr (a0, k)" "apply_swing c (base_opts ctx c) a0 = (a, sw)"
    "stop1 = pyround (if bullish c then fsub a (stop_buffer base (base_opts ctx c) atr) else fadd a (stop_buffer base (base_opts ctx c) atr)) 8"
    by (rule compute_stop_Inr[OF s1])
  obtain base' a0' k' a' sw' where B: "stop_base tun ?l (final_opts ctx c m g) = Inr base'"
    "stop_anchor c ?l (is_extended tun c) = Inr (a0', k')" "apply_swing c (final_opts ctx c m g) a0' = (a', sw')"
    "stop2 = pyround (if bullish c then fsub a' (stop_buffer base' (final_opts ctx c m g) atr) else fadd a' (stop_buffer base' (final_opts ctx c m g) atr)) 8"
    by (rule compute_stop_Inr[OF s2])
  have same: "base' = base" "a' = a"
    using A B hatch by (auto simp: stop_base_def base_opts_def final_opts_def default_opts_def apply_swing_def)
  have "(?l, base) \<in> set (atr_stop_buffer tun)"
    using A(2) by (auto simp: stop_base_def base_opts_def default_opts_def dest: map_of_SomeD)
  then have "0 \<le> base" using pos by auto
  then have le: "stop_buffer base (base_opts ctx c) atr \<le> stop_buffer base (final_opts ctx c m g) atr"
    using A(1) by (intro buffer_widens) auto
  show ?thesis unfolding A(5) B(4) same using le by (auto intro!: pyround_mono fsub_mono fadd_mono)
qed

lemma score_all_mem:
  "score_all ind tun ctx level cs = Inr ss \<Longrightarrow> s \<in> set ss \<Longrightarrow> \<exists>c \<in> set cs. score_candidate ind tun ctx c level = Inr (Some s)"
  by (induction cs arbitrary: ss) (auto split: option.splits)

lemma rank_signals_mem: "rank_signals ss = Some b \<Longrightarrow> b \<in> set ss"
  using rank_loop_best[of ss None "(- 1, - 1, False)" "rank_signals ss"] by (auto simp: rank_signals_def)

lemma apply_stability_Some:
  "apply_stability tun f best det = Some sig \<Longrightarrow> \<exists>b. best = Some b \<and> (\<exists>x. sig = b\<lparr>sg_stability := x\<rparr>)"
proof -
  have self: "\<exists>x. sig = sig\<lparr>sg_stability := x\<rparr>" by (rule exI[of _ "sg_stability sig"]) simp
  assume some: "apply_stability tun f best det = Some sig"
  then obtain b where b: "best = Some b" by (cases best) (auto simp: apply_stability_def)
  show ?thesis
  proof (cases "\<exists>detect. det = Some detect \<and> sg_grade b \<in> {GradeA, GradeB}")
    case True
    then obtain s where "sig = b\<lparr>sg_stability := Some s\<rparr>"
      using some b by (auto simp: apply_stability_def split: if_splits prod.splits)
    then show ?thesis using b by blast
  next
    case False
    then have "best = Some sig" using some b by (cases det) (auto simp: apply_stability_def)
    then show ?thesis using self b by simp
  qed
qed

lemma build_signal_Some:
  assumes "build_signal ind tun df interval cs dv det level hatch = Inr (Some sig)"
  obtains f ctx valid rejected b scored c x where "df = Some f"
    and "prepare_score_context ind tun f interval dv hatch = Inr (Some ctx)"
    and "filter_candidates tun cs (sc_price ctx) (sc_atr ctx) (f_close_time f) = Inr (valid, rejected)"
    and "score_all ind tun ctx level valid = Inr scored" "rank_signals scored = Some b"
    and "c \<in> set valid" "score_candidate ind tun ctx c level = Inr (Some b)"
    and "apply_stability tun f (Some b) det = Some sig" "sig = b\<lparr>sg_stability := x\<rparr>"
proof -
  obtain f where df: "df = Some f" using assms by (auto simp: build_signal_def split: option.splits)
  obtain ctx valid rejected scored where *: "prepare_score_context ind tun f interval dv hatch = Inr (Some ctx)"
    "filter_candidates tun cs (sc_price ctx) (sc_atr ctx) (f_close_time f) = Inr (valid, rejected)"
    "score_all ind tun ctx level valid = Inr scored" "apply_stability tun f (rank_signals scored) det = Some sig"
    using assms by (auto simp: build_signal_def df split: if_splits option.splits)
  obtain b x where b: "rank_signals scored = Some b" "sig = b\<lparr>sg_stability := x\<rparr>"
    using apply_stability_Some[OF *(4)] by blast
  obtain c where "c \<in> set valid" "score_candidate ind tun ctx c level = Inr (Some b)"
    using score_all_mem[OF *(3) rank_signals_mem[OF b(1)]] by blast
  then show ?thesis using df * b by (intro that) auto
qed

text \<open>The context keeps the escape hatch it was given.\<close>

lemma prepare_hatch: "prepare_score_context ind tun f interval dv hatch = Inr (Some ctx) \<Longrightarrow> sc_buffer_atr ctx = hatch"
  by (auto simp: prepare_score_context_def Let_def split: if_splits)

lemma scored_geometry:
  assumes scored: "score_candidate ind tun ctx c level = Inr (Some b)"
    and hatch: "sc_buffer_atr ctx = None" and pos: "\<forall>(k, b) \<in> set (atr_stop_buffer tun). 0 \<le> b"
  shows "\<exists>t1 t2 t3. map target_price (sg_targets b) = [t1, t2, t3]
    \<and> sg_direction b = cand_direction c \<and> sg_entry b = pyround (candidate_entry ctx c) 8
    \<and> (if bullish c then sg_stop b < candidate_entry ctx c \<and> candidate_entry ctx c \<le> t1 \<and> t1 < t2 \<and> t2 < t3
       else candidate_entry ctx c < sg_stop b \<and> t1 \<le> candidate_entry ctx c \<and> t2 < t1 \<and> t3 < t2)
    \<and> sg_grade b \<in> {GradeA, GradeB, GradeCref} \<and> 0 \<le> sg_score b \<and> sg_score b \<le> 100
    \<and> sg_tradable b = (sg_grade b \<noteq> GradeCref)"
proof -
  obtain stop1 basis1 inval1 targets raw rr1 rr2 m basis inval where S:
    "compute_stop tun c (sc_atr ctx) level (base_opts ctx c) = Inr (stop1, basis1, inval1)"
    "compute_targets tun c (candidate_entry ctx c) = Inr targets"
    "direction_invariant_ok (cand_direction c) (candidate_entry ctx c) stop1 (map target_price targets)"
    "grade (candidate_score tun c raw) rr1 rr2 (sc_trend ctx = trend_of (bullish c))
       (sc_trend ctx = trend_of (\<not> bullish c)) (sc_a_min ctx) (Some (prz_width c)) = Inr (Some (sg_grade b))"
    "compute_stop tun c (sc_atr ctx) level (final_opts ctx c m (sg_grade b)) = Inr (sg_stop b, basis, inval)"
    "sg_direction b = cand_direction c" "sg_targets b = targets" "sg_score b = rhe (candidate_score tun c raw)"
    "sg_tradable b = (sg_grade b \<noteq> GradeCref)" "sg_entry b = pyround (candidate_entry ctx c) 8"
    by (rule score_candidate_Some[OF scored])
  have stop: "if bullish c then sg_stop b \<le> stop1 else stop1 \<le> sg_stop b"
    using second_stop_no_nearer[OF S(1,5) hatch pos] .
  obtain t1 t2 t3 where t: "map target_price targets = [t1, t2, t3]"
    using S(2) by (auto simp: compute_targets_def Let_def)
  have geo: "if bullish c then sg_stop b < candidate_entry ctx c \<and> candidate_entry ctx c \<le> t1 \<and> t1 < t2 \<and> t2 < t3
       else candidate_entry ctx c < sg_stop b \<and> t1 \<le> candidate_entry ctx c \<and> t2 < t1 \<and> t3 < t2"
    using S(3) stop unfolding t by (auto simp: direction_invariant_ok_def cand_direction_def split: if_splits)
  have g: "sg_grade b \<in> {GradeA, GradeB, GradeCref}" using S(4) by (auto simp: grade_def Let_def)
  have "0 \<le> candidate_score tun c raw" "candidate_score tun c raw \<le> 100" by (auto simp: candidate_score_def)
  then have "0 \<le> rhe (candidate_score tun c raw)" "rhe (candidate_score tun c raw) \<le> 100"
    using rhe_mono[of 0 "candidate_score tun c raw"] rhe_mono[of "candidate_score tun c raw" 100]
      rhe_of_int[of 0] rhe_of_int[of 100] by simp_all
  then show ?thesis
    using t geo g S(6-10) by (intro exI[of _ t1] exI[of _ t2] exI[of _ t3]) simp_all
qed

text \<open>
  C1: A published signal is executable. Without the escape hatch and with nonnegative stop buffers, every
  signal the engine builds comes from one of the given candidates and, at the entry the engine
  computed for it, has its stop strictly on the losing side and three targets in strict order on the
  winning side; its grade is A, B or C(reference), its score is between 0 and 100, it is marked
  tradable exactly when it is not C(reference), and its entry is the rounded entry.
\<close>

theorem signal_executable:
  assumes res: "build_signal ind tun df interval cs dv det level None = Inr (Some sig)"
    and pos: "\<forall>(k, b) \<in> set (atr_stop_buffer tun). 0 \<le> b"
  shows "\<exists>c \<in> set cs. \<exists>ctx t1 t2 t3. map target_price (sg_targets sig) = [t1, t2, t3]
    \<and> sg_direction sig = cand_direction c \<and> sg_entry sig = pyround (candidate_entry ctx c) 8
    \<and> (if bullish c then sg_stop sig < candidate_entry ctx c \<and> candidate_entry ctx c \<le> t1 \<and> t1 < t2 \<and> t2 < t3
       else candidate_entry ctx c < sg_stop sig \<and> t1 \<le> candidate_entry ctx c \<and> t2 < t1 \<and> t3 < t2)
    \<and> sg_grade sig \<in> {GradeA, GradeB, GradeCref} \<and> 0 \<le> sg_score sig \<and> sg_score sig \<le> 100
    \<and> sg_tradable sig = (sg_grade sig \<noteq> GradeCref)"
proof -
  obtain f ctx valid rejected b c x where P: "prepare_score_context ind tun f interval dv None = Inr (Some ctx)"
    "filter_candidates tun cs (sc_price ctx) (sc_atr ctx) (f_close_time f) = Inr (valid, rejected)"
    "c \<in> set valid" "score_candidate ind tun ctx c level = Inr (Some b)" "sig = b\<lparr>sg_stability := x\<rparr>"
    by (rule build_signal_Some[OF res])
  have c: "c \<in> set cs" using filter_candidates_Inr[OF P(2)] P(3) by auto
  show ?thesis
    using scored_geometry[OF P(4) prepare_hatch[OF P(1)] pos] unfolding P(5)
    by (intro bexI[OF _ c] exI[of _ ctx]) (cases b, simp only: signal.select_convs signal.update_convs)
qed

text \<open>
  C2: Every gate holds for a published signal. Its candidate passed the validity filter, had enough
  volume authenticity for its stage, is not vetoed by the trap check or by adverse momentum, and its
  trap score is the one shown; an A or B signal checked by a detector was seen in at least one of the two
  sub-windows, and carries the stability score; other signals are not re-detected.
\<close>

theorem signal_passed_gates:
  assumes res: "build_signal ind tun (Some f) interval cs dv det level hatch = Inr (Some sig)"
  shows "\<exists>c \<in> set cs. \<exists>ctx. prepare_score_context ind tun f interval dv hatch = Inr (Some ctx)
    \<and> rejection_reason tun c (sc_price ctx) (sc_atr ctx) (f_close_time f) = Inr None
    \<and> (if formed c then authenticity_veto tun else authenticity_halve tun) \<le> sc_auth ctx
    \<and> (\<exists>reasons. quant_trap_risk (sc_bars ctx) (prz_low c) (prz_high c) (bullish c) (nat (quant_trap_lookback TUNING))
         = (sg_trap sig, False, reasons))
    \<and> \<not> adverse_momentum_veto tun (cand_direction c) (sc_sharpe ctx) None
    \<and> sg_pattern sig = cname c
    \<and> (case det of None \<Rightarrow> sg_stability sig = None
       | Some detect \<Rightarrow>
           if sg_grade sig \<in> {GradeA, GradeB}
           then \<exists>s. stability_verdict (Some (cname c)) (fst (sub_detections tun f detect)) (snd (sub_detections tun f detect)) = (s, False)
                  \<and> sg_stability sig = Some s
                  \<and> (cname c = [] \<or> truthy (fst (sub_detections tun f detect)) \<or> truthy (snd (sub_detections tun f detect)))
           else sg_stability sig = None)"
proof -
  obtain f' ctx valid rejected scored b c x where P: "Some f = Some f'"
    "prepare_score_context ind tun f' interval dv hatch = Inr (Some ctx)"
    "filter_candidates tun cs (sc_price ctx) (sc_atr ctx) (f_close_time f') = Inr (valid, rejected)"
    "c \<in> set valid" "score_candidate ind tun ctx c level = Inr (Some b)" "apply_stability tun f' (Some b) det = Some sig"
    "sig = b\<lparr>sg_stability := x\<rparr>"
    by (rule build_signal_Some[OF res])
  obtain reasons where S: "\<not> sc_auth ctx < (if formed c then authenticity_veto tun else authenticity_halve tun)"
    "quant_trap_risk (sc_bars ctx) (prz_low c) (prz_high c) (bullish c) (nat (quant_trap_lookback TUNING)) = (sg_trap b, False, reasons)"
    "\<not> adverse_momentum_veto tun (cand_direction c) (sc_sharpe ctx) None" "sg_pattern b = cname c" "sg_stability b = None"
    by (rule score_candidate_Some[OF P(5)]) blast
  have c: "c \<in> set cs" "rejection_reason tun c (sc_price ctx) (sc_atr ctx) (f_close_time f') = Inr None"
    using filter_candidates_Inr[OF P(3)] P(4) by auto
  have stab: "case det of None \<Rightarrow> sg_stability sig = None
       | Some detect \<Rightarrow>
           if sg_grade sig \<in> {GradeA, GradeB}
           then \<exists>s. stability_verdict (Some (cname c)) (fst (sub_detections tun f detect)) (snd (sub_detections tun f detect)) = (s, False)
                  \<and> sg_stability sig = Some s
                  \<and> (cname c = [] \<or> truthy (fst (sub_detections tun f detect)) \<or> truthy (snd (sub_detections tun f detect)))
           else sg_stability sig = None"
  proof (cases det)
    case None
    then show ?thesis using P(6) S(5) by (auto simp: apply_stability_def)
  next
    case (Some detect)
    obtain s1 s2 where d: "sub_detections tun f detect = (s1, s2)" by fastforce
    obtain s sus where v: "stability_verdict (Some (cname c)) s1 s2 = (s, sus)" by fastforce
    show ?thesis
    proof (cases "sg_grade b \<in> {GradeA, GradeB}")
      case True
      then have "\<not> sus" "sig = b\<lparr>sg_stability := Some s\<rparr>"
        using P(1,6) Some d v S(4) by (auto simp: apply_stability_def split: if_splits)
      then show ?thesis using True Some d v by (auto simp: stability_verdict_def split: if_splits)
    next
      case False
      then have "sig = b" using P(6) Some by (auto simp: apply_stability_def split: if_splits)
      then show ?thesis using False Some S(5) by simp
    qed
  qed
  show ?thesis using c S(1-4) P(1,2,7) stab by (intro bexI[of _ c] exI[of _ ctx]) (auto simp: not_less)
qed

section \<open>A built signal\<close>

definition demo_tun :: TuningConstants where
  "demo_tun = TUNING\<lparr>fib_tp1 := 1, fib_tp2 := 2, fib_tp3 := 3, htf_rule := [],
     atr_stop_buffer := [(''conservative'', 1), (''standard'', 1), (''aggressive'', 1)], atr_prz_sweep := 10,
     fee_rate := 0, slippage_rate := 0, max_prz_distance_atr := 5, authenticity_halve := 40, authenticity_veto := 30,
     adverse_sharpe_threshold := 1, a_grade_min := 70, pattern_base_score := [], min_candles := 2, atr_window := 14,
     rsi_window := 14, volume_ma_window := 20, swing_lookback := 20,
     confluence_weights := [(''price_action'', 40), (''htf_trend'', 0), (''rsi'', 20), (''structure'', 20),
                            (''macd'', 10), (''funding'', 10)]\<rparr>"

definition demo_bars :: "bar list" where
  "demo_bars = [\<lparr>bopen = 204, bhigh = 206, blow = 200, bclose = 203, bvol = 1\<rparr>,
     \<lparr>bopen = 203, bhigh = 204, blow = 200, bclose = 202, bvol = 1\<rparr>,
     \<lparr>bopen = 199, bhigh = 200, blow = 192, bclose = 200, bvol = 4\<rparr>]"

definition demo_frame :: frame where
  "demo_frame = \<lparr>f_bars = demo_bars, f_close_time = None, f_dts = True\<rparr>"

definition demo_cand :: Candidate where
  "demo_cand = \<lparr>family = ''XABCD'', cname = ''bat'', bullish = True, formed = True, cpoints = [190, 212, 195, 205],
     completion_min = 198, completion_max = 202, ctimes = [], cindices = []\<rparr>"

definition demo_divs :: "(string \<times> divergence list) list" where
  "demo_divs = [(''rsi'', [\<lparr>d_name = Some ''Regular'', d_bullish = Some True\<rparr>])]"

lemma fl_of_neg_numeral: "(numeral n :: int) \<le> 2 ^ 53 \<Longrightarrow> fl (- numeral n) = - numeral n"
  by (simp add: fl_minus fl_of_numeral)

lemma fl_of_neg_one: "fl (- 1) = - 1"
  by (simp add: fl_minus fl_one)

lemmas float_eval = fl_of_neg_one fadd_def fsub_def fmul_def fdiv_def fl_of_numeral fl_of_neg_numeral fl_one pyround_of_numeral

lemma length_tail_rows: "length (tail_rows k xs) \<le> length xs"
  by (simp add: tail_rows_def)

lemma tail_rows_all: "length xs \<le> k \<Longrightarrow> tail_rows k xs = xs"
  by (simp add: tail_rows_def)

lemma short_frame_gates:
  "length bs < 10 \<Longrightarrow> volume_authenticity m s bs w = 50"
  "length bs < 10 \<Longrightarrow> quant_regime m d tun bs w = (50, ''normal'')"
  "length bs < 10 \<Longrightarrow> quant_trap_risk bs lo hi b w = (50, False, [])"
  using length_tail_rows[of w bs]
  by (auto simp: volume_authenticity_def quant_regime_def quant_trap_risk_def Let_def)

lemma demo_prepared:
  "\<exists>ctx. prepare_score_context demo_ind demo_tun demo_frame ''1h'' demo_divs None = Inr (Some ctx)
     \<and> sc_bars ctx = demo_bars \<and> sc_atr ctx = 1 \<and> sc_rsi ctx = 0 \<and> sc_trend ctx = UnknownTrend \<and> sc_sharpe ctx = Fin 0
     \<and> sc_regime ctx = ''normal'' \<and> sc_a_min ctx = 70 \<and> sc_pa_scale ctx = 1 \<and> sc_price ctx = 200
     \<and> sc_divs ctx = demo_divs \<and> sc_auth ctx = 50 \<and> sc_buffer_atr ctx = None
     \<and> sc_rsi_series ctx = [None, Some 0, Some 0] \<and> sc_macd_line ctx = 0 \<and> sc_macd_hist ctx = 0"
proof -
  have atr: "compute_atr demo_ind demo_tun demo_bars None = Inr 1"
    by (simp add: compute_atr_def demo_tun_def true_ranges_def demo_bars_def tail_rows_def float_eval Let_def)
  have rsi: "compute_rsi demo_ind demo_tun (map bclose demo_bars) None = Inr 0"
    by (simp add: compute_rsi_def demo_tun_def deltas_def demo_bars_def gains_def losses_def demo_ind_def rsi_point_def float_eval Let_def)
  have series: "rsi_series demo_ind demo_tun (map bclose demo_bars) = [None, Some 0, Some 0]"
    by (simp add: rsi_series_def demo_tun_def deltas_def demo_bars_def gains_def losses_def demo_ind_def rsi_point_def float_eval Let_def)
  have tr: "htf_trend demo_ind demo_tun demo_frame ''1h'' = Inr UnknownTrend"
    by (simp add: htf_trend_def demo_tun_def)
  have sh: "per_bar_sharpe m sd (i_pct_change demo_ind) demo_tun cl None = Fin 0" for m sd cl
    by (simp add: per_bar_sharpe_def demo_ind_def tail_rows_def Let_def)
  have len: "length demo_bars < 10" by (simp add: demo_bars_def)
  have bars: "f_bars demo_frame = demo_bars" by (simp add: demo_frame_def)
  show ?thesis
    unfolding prepare_score_context_def Let_def bars atr rsi tr sh series short_frame_gates[OF len]
    by (simp add: demo_tun_def demo_bars_def demo_ind_def float_eval)
qed

lemma demo_stop:
  assumes "opt_trap o1 = 1" "opt_regime o1 = ''normal''" "opt_grade o1 = None \<or> opt_grade o1 = Some GradeB"
    "opt_buffer_atr o1 = None" "opt_swing o1 = None"
  shows "\<exists>b i. compute_stop demo_tun demo_cand 1 ''conservative'' o1 = Inr (197, b, i)"
    and "\<exists>b i. compute_stop demo_tun demo_cand 1 ''standard'' o1 = Inr (189, b, i)"
  using assms
  by (auto simp: compute_stop_def compute_stop_body_def stop_levels_list stop_base_def dict_at_def stop_anchor_def
      stop_buffer_def apply_swing_def trap_factor_def regime_factor_def grade_factor_def REGIME_STOP_MULTIPLIER_def
      GRADE_STOP_MULTIPLIER_def get_default_def MAX_STOP_BUFFER_MULT_def prz_low_def prz_high_def Let_def float_eval
      demo_tun_def demo_cand_def x_price_def is_extended_def TUNING_fields REQUIRED_EXTENDED_FAMILIES_def lower_def lower_char_def)

lemma demo_targets:
  "\<exists>ts. compute_targets demo_tun demo_cand 200 = Inr ts \<and> map target_price ts = [212, 224, 236]"
  by (simp add: compute_targets_def a_price_def demo_cand_def demo_tun_def TUNING_fields Let_def float_eval)

lemma demo_scored:
  assumes ctx: "sc_bars ctx = demo_bars" "sc_atr ctx = 1" "sc_rsi ctx = 0" "sc_trend ctx = UnknownTrend" "sc_sharpe ctx = Fin 0"
     "sc_regime ctx = ''normal''" "sc_a_min ctx = 70" "sc_pa_scale ctx = 1" "sc_price ctx = 200"
     "sc_divs ctx = demo_divs" "sc_auth ctx = 50" "sc_buffer_atr ctx = None"
     "sc_rsi_series ctx = [None, Some 0, Some 0]" "sc_macd_line ctx = 0" "sc_macd_hist ctx = 0"
  shows "\<exists>sig. score_candidate demo_ind demo_tun ctx demo_cand ''conservative'' = Inr (Some sig)"
proof -
  have len: "length demo_bars < 10" by (simp add: demo_bars_def)
  have rev: "is_reversal_candle (last demo_bars) True"
    by (simp add: is_reversal_candle_def demo_bars_def float_eval Let_def)
  have status: "candidate_status ctx demo_cand = Confirmed"
    using ctx(1,9) by (simp add: candidate_status_def is_swept_def prz_state_def demo_bars_def demo_cand_def prz_low_def
        prz_high_def is_reversal_candle_def float_eval Let_def)
  have entry: "candidate_entry ctx demo_cand = 200" using ctx(9) by (simp add: candidate_entry_def status)
  have swing: "swing_anchor demo_bars 1 True = None" by (simp add: swing_anchor_def demo_bars_def)
  have "bullish demo_cand" by (simp add: demo_cand_def)
  define o1 where "o1 = default_opts\<lparr>opt_swing := None, opt_entry := Some (200 :: rat)\<rparr>"
  obtain b1 i1 where s1: "compute_stop demo_tun demo_cand 1 ''conservative'' o1 = Inr (197, b1, i1)"
    using demo_stop(1)[of o1] by (auto simp: o1_def default_opts_def)
  obtain b2 i2 where s2: "compute_stop demo_tun demo_cand 1 ''conservative''
      (o1\<lparr>opt_trap := 1, opt_regime := ''normal'', opt_grade := Some GradeB, opt_buffer_atr := None\<rparr>) = Inr (197, b2, i2)"
    using demo_stop(1)[of "o1\<lparr>opt_trap := 1, opt_regime := ''normal'', opt_grade := Some GradeB, opt_buffer_atr := None\<rparr>"]
    by (auto simp: o1_def default_opts_def)
  obtain ts where ts: "compute_targets demo_tun demo_cand 200 = Inr ts" "map target_price ts = [212, 224, 236]"
    by (rule exE[OF demo_targets], erule conjE) (rule that)
  have nth: "target_price (ts ! 0) = 212" "target_price (ts ! 1) = 224"
    using ts(2) by (auto simp: map_eq_Cons_conv)
  have rr: "net_rr demo_tun 200 197 212 None None = Inr (Some 4)" "net_rr demo_tun 200 197 224 None None = Inr (Some 8)"
    by (simp_all add: net_rr_def net_rr_body_def demo_tun_def float_eval Let_def)
  obtain fs where conf: "confluence_score demo_ind demo_tun demo_bars demo_cand (confluence_of ctx) = Inr (84, fs)"
  proof -
    have pa: "price_action_factor demo_ind demo_tun demo_bars True 1 = 40"
      by (simp add: price_action_factor_def rev Let_def) (simp add: demo_ind_def demo_bars_def demo_tun_def tail_rows_def
          weight_def get_default_def fsum_def float_eval)
    have rsi: "rsi_factor demo_tun True (confluence_of ctx) = 20"
      using ctx by (simp add: rsi_factor_def confluence_of_def demo_divs_def divs_def get_default_def rsi_zone_score_def
          rsi_rising_def tail_rows_def weight_def demo_tun_def clip_factor_def float_eval Let_def)
    have st: "structure_factor demo_tun demo_bars demo_cand 1 = 20"
      by (simp add: structure_factor_def demo_bars_def demo_cand_def demo_tun_def tail_rows_def prz_low_def prz_high_def
          weight_def get_default_def float_eval Let_def)
    have rest: "htf_factor demo_tun True UnknownTrend = 0" "macd_factor demo_tun True (confluence_of ctx) = 0"
      "macd_zero_factor True 0 = - 4" "dual_factor True (confluence_of ctx) = 3" "histogram_factor True 0 p = 0"
      "weight demo_tun ''funding'' 10 = 10" for p
      using ctx by (simp_all add: htf_factor_def macd_factor_def macd_zero_factor_def dual_factor_def histogram_factor_def
          weight_def demo_tun_def get_default_def confluence_of_def demo_divs_def divs_def clip_factor_def trend_of_def float_eval)
    have ci: "ci_atr (confluence_of ctx) = 1" "ci_rsi (confluence_of ctx) = 0" "ci_pa_scale (confluence_of ctx) = 1"
      "ci_trend (confluence_of ctx) = UnknownTrend" "ci_macd_line (confluence_of ctx) = 0" "ci_macd_hist (confluence_of ctx) = 0"
      using ctx by (simp_all add: confluence_of_def)
    have prz: "0 < prz_low demo_cand" "0 < prz_high demo_cand" "bullish demo_cand"
      by (simp_all add: demo_cand_def prz_low_def prz_high_def)
    have "\<exists>fs. confluence_score demo_ind demo_tun demo_bars demo_cand (confluence_of ctx) = Inr (84, fs)"
      by (simp add: confluence_score_def Let_def ci prz pa rsi st rest vals_of_def fsum_def float_eval)
    then show ?thesis using that by (elim exE) assumption
  qed
  have width: "prz_width demo_cand < fl (4 / 100)"
    by (simp add: prz_width_def demo_cand_def prz_low_def prz_high_def float_eval Let_def) code_simp
  have gr: "grade 84 (Some 4) (Some 8) False False 70 (Some (prz_width demo_cand)) = Inr (Some GradeB)"
    using width by (simp add: grade_def grade_body_def)
  have tm: "trap_stop_multiplier 50 = Inr 1" by (simp add: trap_stop_multiplier_def trap_stop_body_def)
  have bump: "fadd 84 (pattern_bump demo_tun (cname demo_cand)) = 84"
    by (simp add: pattern_bump_def demo_cand_def demo_tun_def float_eval)
  have inv: "direction_invariant_ok (cand_direction demo_cand) 200 197 [212, 224, 236]"
    by (simp add: direction_invariant_ok_def cand_direction_def demo_cand_def)
  have gates: "\<not> 50 < authenticity_veto demo_tun" "formed demo_cand" "\<not> adverse_momentum_veto demo_tun (cand_direction demo_cand) (Fin 0) None"
    by (simp_all add: demo_tun_def demo_cand_def adverse_momentum_veto_def cand_direction_def)
  show ?thesis
    unfolding score_candidate_def ctx entry \<open>bullish demo_cand\<close>[THEN eqTrueI] swing Let_def
    by (simp add: gates short_frame_gates[OF len] o1_def[symmetric] s1 ts inv nth rr conf bump gr tm s2 trend_of_def
        del: One_nat_def)
qed

lemma demo_cand_accepted: "rejection_reason demo_tun demo_cand 200 1 None = Inr None"
proof -
  obtain b i where stop: "compute_stop demo_tun demo_cand 1 ''standard'' default_opts = Inr (189, b, i)"
    using demo_stop(2)[of default_opts] by (auto simp: default_opts_def)
  have near: "\<not> too_far demo_tun demo_cand 200 1"
    by (simp add: too_far_def prz_mid_def prz_low_def prz_high_def demo_cand_def demo_tun_def float_eval)
  have "\<not> too_old demo_tun demo_cand None" "\<not> degenerate demo_tun demo_cand 1"
    by (simp_all add: too_old_def degenerate_def demo_cand_def prz_low_def prz_high_def demo_tun_def float_eval)
  moreover have "stop_violated demo_tun demo_cand 200 1 = Inr False"
    by (simp add: stop_violated_def stop) (simp add: demo_cand_def)
  moreover have "played_out demo_tun demo_cand 200 = Inr False"
  proof -
    have mid: "prz_mid demo_cand = 200" and long: "bullish demo_cand"
      by (simp_all add: prz_mid_def prz_low_def prz_high_def demo_cand_def float_eval)
    obtain ts where ts: "compute_targets demo_tun demo_cand 200 = Inr ts" "map target_price ts = [212, 224, 236]"
      by (rule exE[OF demo_targets], erule conjE) (rule that)
    have "1 < length ts" "target_price (ts ! 1) = 224" using ts(2) by (auto simp: map_eq_Cons_conv)
    then show ?thesis by (simp add: played_out_def mid long ts(1))
  qed
  ultimately show ?thesis using near by (simp add: rejection_reason_def)
qed

lemma demo_built: "\<exists>sig. build_signal demo_ind demo_tun (Some demo_frame) ''1h'' [demo_cand] demo_divs None ''conservative'' None
    = Inr (Some sig)"
proof -
  obtain ctx where prep: "prepare_score_context demo_ind demo_tun demo_frame ''1h'' demo_divs None = Inr (Some ctx)"
    and ctx: "sc_bars ctx = demo_bars" "sc_atr ctx = 1" "sc_rsi ctx = 0" "sc_trend ctx = UnknownTrend" "sc_sharpe ctx = Fin 0"
     "sc_regime ctx = ''normal''" "sc_a_min ctx = 70" "sc_pa_scale ctx = 1" "sc_price ctx = 200"
     "sc_divs ctx = demo_divs" "sc_auth ctx = 50" "sc_buffer_atr ctx = None"
     "sc_rsi_series ctx = [None, Some 0, Some 0]" "sc_macd_line ctx = 0" "sc_macd_hist ctx = 0"
    by (rule exE[OF demo_prepared], elim conjE) (rule that)
  obtain sig where scored: "score_candidate demo_ind demo_tun ctx demo_cand ''conservative'' = Inr (Some sig)"
    by (rule exE[OF demo_scored[OF ctx]]) (rule that)
  have all: "score_all demo_ind demo_tun ctx ''conservative'' [demo_cand] = Inr [sig]"
    by (simp add: scored)
  have filt: "filter_candidates demo_tun [demo_cand] 200 1 (f_close_time demo_frame) = Inr ([demo_cand], [])"
    using demo_cand_accepted by (simp add: demo_frame_def)
  have size: "length (f_bars demo_frame) = 3" "min_candles demo_tun = 2"
    by (simp_all add: demo_frame_def demo_bars_def demo_tun_def)
  have "rank_signals [sig] = Some sig"
    by (cases "sg_grade sig") (simp_all add: rank_signals_def rank_of_def)
  then show ?thesis
    by (simp add: build_signal_def size prep ctx filt all apply_stability_def del: score_all.simps filter_candidates.simps)
qed

theorem signal_executable_witness:
  "\<exists>(sig :: signal) (ctx :: score_context) t1 t2 t3. map target_price (sg_targets sig) = [t1, t2, t3] \<and> sg_stop sig < candidate_entry ctx demo_cand
     \<and> candidate_entry ctx demo_cand \<le> t1 \<and> t1 < t2 \<and> t2 < t3"
proof -
  obtain sig where built: "build_signal demo_ind demo_tun (Some demo_frame) ''1h'' [demo_cand] demo_divs None ''conservative'' None
    = Inr (Some sig)"
    using demo_built by (elim exE)
  have buf: "\<forall>(k, b) \<in> set (atr_stop_buffer demo_tun). 0 \<le> b" by (simp add: demo_tun_def)
  have bull: "bullish demo_cand" by (simp add: demo_cand_def)
  have "\<exists>(ctx :: score_context) t1 t2 t3. map target_price (sg_targets sig) = [t1, t2, t3] \<and> sg_stop sig < candidate_entry ctx demo_cand
     \<and> candidate_entry ctx demo_cand \<le> t1 \<and> t1 < t2 \<and> t2 < t3"
    using signal_executable[OF built buf] bull by (simp only: bex_simps list.set simp_thms if_True) (elim exE conjE, intro exI conjI)
  then show ?thesis by (rule exI[of _ sig])
qed

theorem signal_passed_gates_witness:
  "\<exists>(sig :: signal) (ctx :: score_context). sg_pattern sig = cname demo_cand \<and> authenticity_veto demo_tun \<le> sc_auth ctx \<and> sg_stability sig = None"
proof -
  obtain sig where built: "build_signal demo_ind demo_tun (Some demo_frame) ''1h'' [demo_cand] demo_divs None ''conservative'' None
    = Inr (Some sig)"
    using demo_built by (elim exE)
  have "formed demo_cand" by (simp add: demo_cand_def)
  then show ?thesis using signal_passed_gates[OF built] by (intro exI[of _ sig]) auto
qed

end
