(* ===== verification/TradeSim.thy ===== *)
theory TradeSim
  imports Validation
begin

text \<open>
  \<^verbatim>\<open>app/services/vibe/backtest_engine.py\<close>: the bar-by-bar trade simulator every backtest of the
  repository runs on, and its summary metrics. A data frame is a list of rows, each a timestamp
  (nanoseconds) with its bar; a row has all four price columns, so the missing-column error cannot occur.
\<close>

section \<open>Trades and configuration\<close>

datatype trade_result = Win | Loss | Scratch

record trade =
  t_direction :: direction
  t_entry :: rat
  t_stop :: rat
  t_target :: rat
  t_exit :: rat
  t_result :: trade_result
  t_r :: rat
  t_entry_time :: int
  t_exit_time :: "int option"
  t_fees :: rat
  t_slippage :: rat
  t_funding :: rat
  t_risk :: rat

record bt_config =
  fee_bps :: rat
  slippage_bps :: rat
  funding_bps_per_8h :: rat
  leverage :: "int option"
  bar_hours :: rat

definition default_bt_config :: bt_config where
  "default_bt_config = \<lparr>fee_bps = 0, slippage_bps = 0, funding_bps_per_8h = 0, leverage = Some 1, bar_hours = 1\<rparr>"

datatype bt_error = BadLongLevels | BadShortLevels | BadLeverage

section \<open>One candle\<close>

definition resolve_exit :: "direction \<Rightarrow> rat \<Rightarrow> rat \<Rightarrow> rat \<Rightarrow> rat \<Rightarrow> rat \<Rightarrow> rat \<times> trade_result option" where
  "resolve_exit d low high entry stop target =
     (if d = LONG then
        let stop_hit = low \<le> stop; target_hit = target \<le> high in
        if \<not> stop_hit \<and> \<not> target_hit then (0, None)
        else if stop_hit \<and> target_hit then
          (if fsub entry stop \<le> fsub target entry then (stop, Some Loss) else (target, Some Win))
        else if stop_hit then (stop, Some Loss) else (target, Some Win)
      else
        let stop_hit = stop \<le> high; target_hit = low \<le> target in
        if \<not> stop_hit \<and> \<not> target_hit then (0, None)
        else if stop_hit \<and> target_hit then
          (if fsub stop entry \<le> fsub entry target then (stop, Some Loss) else (target, Some Win))
        else if stop_hit then (stop, Some Loss) else (target, Some Win))"

text \<open>The prices and rates one run of the simulator is set up with.\<close>

record sim_params =
  p_direction :: direction
  p_entry :: rat
  p_eff_entry :: rat
  p_eff_stop :: rat
  p_eff_target :: rat
  p_fee :: rat
  p_funding_per_bar :: rat

definition sim_setup :: "direction \<Rightarrow> rat \<Rightarrow> rat \<Rightarrow> rat \<Rightarrow> bt_config \<Rightarrow> sim_params" where
  "sim_setup d entry stop target cfg =
     (let slip = fdiv (slippage_bps cfg) 10000; up = fadd 1 slip; down = fsub 1 slip
      in \<lparr>p_direction = d, p_entry = entry,
          p_eff_entry = fmul entry (if d = LONG then up else down),
          p_eff_stop = fmul stop (if d = LONG then down else up),
          p_eff_target = fmul target (if d = LONG then down else up),
          p_fee = fdiv (fee_bps cfg) 10000,
          p_funding_per_bar = fmul (fdiv (funding_bps_per_8h cfg) 10000) (fdiv (bar_hours cfg) 8)\<rparr>)"

definition open_trade :: "sim_params \<Rightarrow> int \<Rightarrow> trade" where
  "open_trade p ts =
     \<lparr>t_direction = p_direction p, t_entry = p_eff_entry p, t_stop = p_eff_stop p, t_target = p_eff_target p,
      t_exit = 0, t_result = Scratch, t_r = 0, t_entry_time = ts, t_exit_time = None,
      t_fees = 0, t_slippage = 0, t_funding = 0, t_risk = 0\<rparr>"

text \<open>\<open>_close_trade\<close>: \<open>n\<close> is \<open>bars_in_trade\<close> at the close.\<close>

definition close_r :: "trade_result \<Rightarrow> rat \<Rightarrow> rat \<Rightarrow> rat \<Rightarrow> rat" where
  "close_r res reward risk costs =
     (let net = fsub (fdiv reward risk) (fdiv costs risk) in if res = Loss then - \<bar>net\<bar> else net)"

definition close_trade :: "sim_params \<Rightarrow> int \<Rightarrow> trade \<Rightarrow> rat \<Rightarrow> trade_result \<Rightarrow> int \<Rightarrow> trade" where
  "close_trade p n t exit_price res ts =
     (let funding = fmul (fmul (p_funding_per_bar p) (of_int n)) exit_price;
          fees = fmul (p_fee p) (fadd (t_entry t) exit_price);
          risk = \<bar>fsub (t_entry t) (t_stop t)\<bar>;
          reward = \<bar>fsub exit_price (t_entry t)\<bar>
      in t\<lparr>t_exit := exit_price, t_result := res, t_exit_time := Some ts, t_funding := funding, t_fees := fees,
           t_slippage := 0, t_risk := risk,
           t_r := (if risk \<le> 0 then 0 else close_r res reward risk (fadd fees funding))\<rparr>)"

definition close_scratch :: "sim_params \<Rightarrow> int \<Rightarrow> trade \<Rightarrow> rat \<Rightarrow> int \<Rightarrow> trade" where
  "close_scratch p n t last_close ts =
     (let funding = fmul (fmul (p_funding_per_bar p) (of_int n)) last_close;
          fees = fmul (p_fee p) (fadd (t_entry t) last_close);
          risk = \<bar>fsub (t_entry t) (t_stop t)\<bar>
      in t\<lparr>t_exit := last_close, t_result := Scratch, t_exit_time := Some ts, t_funding := funding, t_fees := fees,
           t_risk := risk, t_r := (if 0 < risk then fsub 0 (fdiv (fadd fees funding) risk) else t_r t)\<rparr>)"

section \<open>The walk over the candles\<close>

text \<open>The loop state: the closed trades, and the open one with its \<open>bars_in_trade\<close>.\<close>

type_synonym sim_state = "trade list \<times> (trade \<times> int) option"

definition sim_exit :: "sim_params \<Rightarrow> bar \<Rightarrow> rat \<times> trade_result option" where
  "sim_exit p row = resolve_exit (p_direction p) (blow row) (bhigh row) (p_eff_entry p) (p_eff_stop p) (p_eff_target p)"

fun sim_bar :: "sim_params \<Rightarrow> int \<times> bar \<Rightarrow> sim_state \<Rightarrow> sim_state" where
  "sim_bar p (ts, row) (dn, None) =
     (if blow row \<le> p_entry p \<and> p_entry p \<le> bhigh row
      then (case sim_exit p row of
              (price, Some res) \<Rightarrow> (dn @ [close_trade p 0 (open_trade p ts) price res ts], None)
            | (_, None) \<Rightarrow> (dn, Some (open_trade p ts, 1)))
      else (dn, None))"
| "sim_bar p (ts, row) (dn, Some (t, n)) =
     (case sim_exit p row of
        (price, Some res) \<Rightarrow> (dn @ [close_trade p (n + 1) t price res ts], None)
      | (_, None) \<Rightarrow> (dn, Some (t, n + 1)))"

fun sim_walk :: "sim_params \<Rightarrow> (int \<times> bar) list \<Rightarrow> sim_state \<Rightarrow> sim_state" where
  "sim_walk p [] s = s"
| "sim_walk p (x # xs) s = sim_walk p xs (sim_bar p x s)"

definition levels_ok :: "direction \<Rightarrow> rat \<Rightarrow> rat \<Rightarrow> rat \<Rightarrow> bool" where
  "levels_ok d entry stop target =
     (if d = LONG then \<not> (entry \<le> stop \<or> target \<le> entry) else \<not> (stop \<le> entry \<or> entry \<le> target))"

definition simulate_trades ::
    "(int \<times> bar) list \<Rightarrow> direction \<Rightarrow> rat \<Rightarrow> rat \<Rightarrow> rat \<Rightarrow> bt_config option \<Rightarrow> bt_error + trade list" where
  "simulate_trades rows d entry stop target config =
     (if rows = [] then Inr []
      else check (levels_ok d entry stop target) (if d = LONG then BadLongLevels else BadShortLevels)
       (let cfg = (case config of None \<Rightarrow> default_bt_config | Some c \<Rightarrow> c) in
        check (case leverage cfg of None \<Rightarrow> False | Some n \<Rightarrow> 1 \<le> n) BadLeverage
        (let p = sim_setup d entry stop target cfg in
         Inr (case sim_walk p rows ([], None) of
                (dn, None) \<Rightarrow> dn
              | (dn, Some (t, n)) \<Rightarrow> dn @ [close_scratch p n t (bclose (snd (last rows))) (fst (last rows))]))))"

section \<open>Summary metrics\<close>

datatype pf_value = PF rat | PFInf

record bt_summary =
  s_total :: int
  s_wins :: int
  s_losses :: int
  s_scratches :: int
  s_win_rate :: rat
  s_avg_rr :: rat
  s_pf :: pf_value
  s_max_dd :: rat
  s_total_r :: rat
  s_fees :: rat
  s_slip :: rat
  s_fund :: rat
  s_low_sample :: bool
  s_min_trades :: int

definition count_result :: "trade_result \<Rightarrow> trade list \<Rightarrow> int" where
  "count_result res ts = int (length (filter (\<lambda>t. t_result t = res) ts))"

fun drawdown_loop :: "trade list \<Rightarrow> rat \<Rightarrow> rat \<Rightarrow> rat \<Rightarrow> rat" where
  "drawdown_loop [] equity peak worst = worst"
| "drawdown_loop (t # ts) equity peak worst =
     (let equity' = fadd equity (t_r t); peak' = max peak equity'; dd = fsub peak' equity'
      in drawdown_loop ts equity' peak' (if worst < dd then dd else worst))"

text \<open>\<open>None\<close> stands for the \<open>ZeroDivisionError\<close> of dividing by the losers' sum.\<close>

definition compute_metrics :: "trade list \<Rightarrow> int \<Rightarrow> bt_summary option" where
  "compute_metrics ts min_trades =
     (let low = int (length ts) < min_trades in
      if ts = [] then
        Some \<lparr>s_total = 0, s_wins = 0, s_losses = 0, s_scratches = 0, s_win_rate = 0, s_avg_rr = 0, s_pf = PF 0,
              s_max_dd = 0, s_total_r = 0, s_fees = 0, s_slip = 0, s_fund = 0, s_low_sample = low, s_min_trades = min_trades\<rparr>
      else
        let n = of_nat (length ts);
            wins = map t_r (filter (\<lambda>t. t_result t = Win) ts);
            losses = map (\<lambda>t. \<bar>t_r t\<bar>) (filter (\<lambda>t. t_result t = Loss) ts)
        in if losses \<noteq> [] \<and> fsum losses = 0 then None
           else Some \<lparr>s_total = int (length ts), s_wins = count_result Win ts, s_losses = count_result Loss ts,
                  s_scratches = count_result Scratch ts,
                  s_win_rate = fdiv (of_int (count_result Win ts)) n,
                  s_avg_rr = fdiv (fsum (map t_r ts)) n,
                  s_pf = (if losses = [] then PFInf else PF (fdiv (fsum wins) (fsum losses))),
                  s_max_dd = drawdown_loop ts 0 0 0, s_total_r = fsum (map t_r ts),
                  s_fees = fsum (map t_fees ts), s_slip = fsum (map t_slippage ts), s_fund = fsum (map t_funding ts),
                  s_low_sample = low, s_min_trades = min_trades\<rparr>)"

section \<open>The exit rule\<close>

lemma resolve_exit_None: "snd (resolve_exit d low high entry stop target) = None \<longleftrightarrow>
    \<not> (if d = LONG then low \<le> stop \<or> target \<le> high else stop \<le> high \<or> low \<le> target)"
  by (auto simp: resolve_exit_def Let_def)

lemma resolve_exit_price: "resolve_exit d low high entry stop target = (price, Some res) \<Longrightarrow>
    res = Win \<and> price = target \<or> res = Loss \<and> price = stop"
  by (auto simp: resolve_exit_def Let_def split: if_splits)

section \<open>Trades follow one another\<close>

definition done_ok :: "sim_params \<Rightarrow> trade \<Rightarrow> bool" where
  "done_ok p t \<longleftrightarrow> t_direction t = p_direction p \<and> t_entry t = p_eff_entry p \<and> t_stop t = p_eff_stop p
     \<and> t_target t = p_eff_target p
     \<and> (t_result t = Win \<and> t_exit t = p_eff_target p \<or> t_result t = Loss \<and> t_exit t = p_eff_stop p)
     \<and> (\<exists>res n price ts. t = close_trade p n (open_trade p (t_entry_time t)) price res ts)"

definition exit_before :: "trade \<Rightarrow> int \<Rightarrow> bool" where
  "exit_before t ts \<longleftrightarrow> (\<exists>x. t_exit_time t = Some x \<and> x < ts)"

definition spans_until :: "int \<Rightarrow> trade \<Rightarrow> bool" where
  "spans_until now t \<longleftrightarrow> (\<exists>x. t_exit_time t = Some x \<and> t_entry_time t \<le> x \<and> x \<le> now)"

text \<open>The loop invariant after the row stamped \<open>now\<close>.\<close>

fun sim_inv :: "sim_params \<Rightarrow> int \<Rightarrow> sim_state \<Rightarrow> bool" where
  "sim_inv p now (dn, opn) \<longleftrightarrow>
     list_all (\<lambda>t. done_ok p t \<and> spans_until now t) dn
     \<and> sorted_wrt (\<lambda>s t. exit_before s (t_entry_time t)) dn
     \<and> (case opn of None \<Rightarrow> True
        | Some (t, n) \<Rightarrow> t = open_trade p (t_entry_time t) \<and> t_entry_time t \<le> now
            \<and> list_all (\<lambda>s. exit_before s (t_entry_time t)) dn)"

lemma close_trade_simps [simp]:
  "t_direction (close_trade p n t price res ts) = t_direction t"
  "t_entry (close_trade p n t price res ts) = t_entry t"
  "t_stop (close_trade p n t price res ts) = t_stop t"
  "t_target (close_trade p n t price res ts) = t_target t"
  "t_exit (close_trade p n t price res ts) = price"
  "t_result (close_trade p n t price res ts) = res"
  "t_entry_time (close_trade p n t price res ts) = t_entry_time t"
  "t_exit_time (close_trade p n t price res ts) = Some ts"
  by (simp_all add: close_trade_def Let_def)

lemma open_trade_simps [simp]:
  "t_direction (open_trade p ts) = p_direction p" "t_entry (open_trade p ts) = p_eff_entry p"
  "t_stop (open_trade p ts) = p_eff_stop p" "t_target (open_trade p ts) = p_eff_target p"
  "t_entry_time (open_trade p ts) = ts" "t_result (open_trade p ts) = Scratch"
  by (simp_all add: open_trade_def)

lemma close_scratch_simps [simp]:
  "t_direction (close_scratch p n t price ts) = t_direction t"
  "t_entry (close_scratch p n t price ts) = t_entry t"
  "t_stop (close_scratch p n t price ts) = t_stop t"
  "t_target (close_scratch p n t price ts) = t_target t"
  "t_exit (close_scratch p n t price ts) = price"
  "t_result (close_scratch p n t price ts) = Scratch"
  "t_entry_time (close_scratch p n t price ts) = t_entry_time t"
  "t_exit_time (close_scratch p n t price ts) = Some ts"
  by (simp_all add: close_scratch_def Let_def)

lemma done_ok_close:
  assumes ex: "sim_exit p row = (price, Some res)" and op: "t = open_trade p (t_entry_time t)"
  shows "done_ok p (close_trade p n t price res ts)"
proof -
  have "t_direction t = p_direction p \<and> t_entry t = p_eff_entry p \<and> t_stop t = p_eff_stop p \<and> t_target t = p_eff_target p"
    by (subst (1 2 3 4) op) simp
  moreover have "close_trade p n t price res ts
      = close_trade p n (open_trade p (t_entry_time (close_trade p n t price res ts))) price res ts"
    using op by simp
  ultimately show ?thesis
    using resolve_exit_price[OF ex[unfolded sim_exit_def]] unfolding done_ok_def by auto
qed

lemma spans_until_mono: "spans_until now t \<Longrightarrow> now \<le> later \<Longrightarrow> spans_until later t"
  by (auto simp: spans_until_def)

lemma spans_exit_before: "spans_until now t \<Longrightarrow> now < ts \<Longrightarrow> exit_before t ts"
  by (auto simp: spans_until_def exit_before_def)

lemma sim_bar_inv:
  assumes inv: "sim_inv p now s" and later: "now < ts"
  shows "sim_inv p ts (sim_bar p (ts, row) s)"
proof (cases s)
  case (Pair dn opn)
  have all: "list_all (\<lambda>t. done_ok p t \<and> spans_until ts t) dn" "list_all (\<lambda>t. exit_before t ts) dn"
    using inv later spans_until_mono[of now _ ts] spans_exit_before[of now _ ts] by (auto simp: Pair list_all_iff)
  have sorted: "sorted_wrt (\<lambda>s t. exit_before s (t_entry_time t)) dn" using inv by (simp add: Pair)
  show ?thesis
  proof (cases opn)
    case None
    obtain price out where ex: "sim_exit p row = (price, out)" by (cases "sim_exit p row")
    show ?thesis
    proof (cases "blow row \<le> p_entry p \<and> p_entry p \<le> bhigh row")
      case False
      then show ?thesis using all sorted by (auto simp: Pair None)
    next
      case True
      show ?thesis
      proof (cases out)
        case out: None
        then show ?thesis using all sorted True ex by (simp add: Pair None)
      next
        case (Some res)
        have "done_ok p (close_trade p 0 (open_trade p ts) price res ts)"
          by (rule done_ok_close[of p row]) (simp_all add: ex Some)
        then show ?thesis using all sorted True ex Some
          by (simp add: Pair None sorted_wrt_append list_all_iff spans_until_def)
      qed
    qed
  next
    case (Some tn)
    then obtain t n where tn: "opn = Some (t, n)" by (cases tn) auto
    obtain price out where ex: "sim_exit p row = (price, out)" by (cases "sim_exit p row")
    have t: "t = open_trade p (t_entry_time t)" "t_entry_time t \<le> now" "list_all (\<lambda>s. exit_before s (t_entry_time t)) dn"
      using inv by (simp_all add: Pair tn)
    show ?thesis
    proof (cases out)
      case None
      then show ?thesis using all sorted t later ex by (simp add: Pair tn)
    next
      case (Some res)
      have "done_ok p (close_trade p (n + 1) t price res ts)"
        by (rule done_ok_close[of p row]) (use ex Some t in auto)
      then show ?thesis using all sorted t later ex Some
        by (simp add: Pair tn sorted_wrt_append list_all_iff spans_until_def)
    qed
  qed
qed

lemma sim_walk_inv:
  "sim_inv p now s \<Longrightarrow> sorted_wrt (<) (now # map fst rows) \<Longrightarrow> sim_inv p (last (now # map fst rows)) (sim_walk p rows s)"
proof (induction rows arbitrary: now s)
  case (Cons x rows)
  obtain ts row where x: "x = (ts, row)" by (cases x)
  have "sim_inv p ts (sim_bar p x s)" using Cons.prems x sim_bar_inv[of p now s ts row] by simp
  then have "sim_inv p (last (ts # map fst rows)) (sim_walk p rows (sim_bar p x s))"
    using Cons.prems(2) x by (intro Cons.IH) auto
  then show ?case by (simp add: x)
qed simp

text \<open>How the outcome of one run is read off the last loop state.\<close>

lemma simulate_trades_Inr:
  assumes "simulate_trades rows d entry stop target config = Inr ts" and "rows \<noteq> []"
  obtains cfg dn opn where "levels_ok d entry stop target" "cfg = (case config of None \<Rightarrow> default_bt_config | Some c \<Rightarrow> c)"
    "sim_walk (sim_setup d entry stop target cfg) rows ([], None) = (dn, opn)"
    "ts = (case opn of None \<Rightarrow> dn
           | Some (t, n) \<Rightarrow> dn @ [close_scratch (sim_setup d entry stop target cfg) n t (bclose (snd (last rows))) (fst (last rows))])"
proof -
  define cfg where "cfg = (case config of None \<Rightarrow> default_bt_config | Some c \<Rightarrow> c)"
  obtain dn opn where walk: "sim_walk (sim_setup d entry stop target cfg) rows ([], None) = (dn, opn)"
    by (cases "sim_walk (sim_setup d entry stop target cfg) rows ([], None)")
  show ?thesis
  proof (rule that[OF _ cfg_def walk])
    show "levels_ok d entry stop target"
      using assms by (auto simp: simulate_trades_def)
    show "ts = (case opn of None \<Rightarrow> dn
           | Some (t, n) \<Rightarrow> dn @ [close_scratch (sim_setup d entry stop target cfg) n t (bclose (snd (last rows))) (fst (last rows))])"
      using assms walk by (auto simp: simulate_trades_def Let_def cfg_def[symmetric] split: option.splits)
  qed
qed

definition level_exit :: "trade \<Rightarrow> bool" where
  "level_exit t \<longleftrightarrow> t_result t = Win \<and> t_exit t = t_target t \<or> t_result t = Loss \<and> t_exit t = t_stop t"

lemma done_level_exit: "done_ok p t \<Longrightarrow> level_exit t"
  by (auto simp: done_ok_def level_exit_def)

text \<open>
  C15: The simulated trades follow one another. With strictly increasing timestamps, every trade is closed
  no earlier than it was opened, the next one opens strictly after the previous one closed, all have the
  same effective entry, stop and target, a win is closed at the target and a loss at the stop, and only
  the last trade can be a scratch, closed at the last row's close.
\<close>

theorem trades_in_sequence:
  assumes run: "simulate_trades rows d entry stop target config = Inr ts"
    and times: "sorted_wrt (<) (map fst rows)"
    and p_def: "p = sim_setup d entry stop target (case config of None \<Rightarrow> default_bt_config | Some c \<Rightarrow> c)"
  shows "sorted_wrt (\<lambda>s t. exit_before s (t_entry_time t)) ts
    \<and> list_all (\<lambda>t. spans_until (fst (last rows)) t) ts
    \<and> list_all (\<lambda>t. t_entry t = p_eff_entry p \<and> t_stop t = p_eff_stop p \<and> t_target t = p_eff_target p) ts
    \<and> list_all level_exit (butlast ts)
    \<and> (ts = [] \<or> level_exit (last ts) \<or> t_result (last ts) = Scratch \<and> t_exit (last ts) = bclose (snd (last rows)))"
proof (cases rows)
  case Nil
  then show ?thesis using run by (auto simp: simulate_trades_def)
next
  case (Cons x xs)
  then have rows: "rows \<noteq> []" by simp
  obtain dn opn where walk: "sim_walk p rows ([], None) = (dn, opn)"
    and ts: "ts = (case opn of None \<Rightarrow> dn
           | Some (t, n) \<Rightarrow> dn @ [close_scratch p n t (bclose (snd (last rows))) (fst (last rows))])"
    using simulate_trades_Inr[OF run rows] p_def by metis
  have inv: "sim_inv p (fst (last rows)) (dn, opn)"
  proof -
    have "sorted_wrt (<) ((fst x - 1) # map fst rows)" using times Cons by force
    moreover have "last ((fst x - 1) # map fst rows) = fst (last rows)" using Cons by (simp add: last_map)
    ultimately show ?thesis using sim_walk_inv[of p "fst x - 1" "([], None)" rows] walk by simp
  qed
  have dn: "list_all level_exit dn"
    "list_all (\<lambda>t. t_entry t = p_eff_entry p \<and> t_stop t = p_eff_stop p \<and> t_target t = p_eff_target p) dn"
    using inv done_level_exit[of p] by (auto simp: list_all_iff done_ok_def)
  show ?thesis
  proof (cases opn)
    case None
    then have "ts = dn" using ts by simp
    then show ?thesis using inv dn None by (auto simp: list_all_iff dest: in_set_butlastD)
  next
    case (Some tn)
    then obtain t n where tn: "opn = Some (t, n)" by (cases tn) auto
    then have t: "t = open_trade p (t_entry_time t)" "t_entry_time t \<le> fst (last rows)"
      "list_all (\<lambda>s. exit_before s (t_entry_time t)) dn" using inv by simp_all
    have "t_entry t = p_eff_entry p \<and> t_stop t = p_eff_stop p \<and> t_target t = p_eff_target p"
      by (subst (1 2 3) t(1)) simp
    then show ?thesis using inv dn ts t(2,3) tn
      by (auto simp: list_all_iff sorted_wrt_append spans_until_def)
  qed
qed

section \<open>R multiples without costs\<close>

lemma fl_mult_1: "is_float x \<Longrightarrow> fmul x 1 = x" "is_float x \<Longrightarrow> fdiv x 1 = x"
  by (simp_all add: fmul_def fdiv_def is_float_def)

lemma fdiv_self: "x \<noteq> 0 \<Longrightarrow> fdiv x x = 1"
  using is_float_1 by (simp add: fdiv_def is_float_def)

lemma zero_ops [simp]: "fmul 0 x = 0" "fmul x 0 = 0" "fdiv 0 x = 0"
  by (simp_all add: fmul_def fdiv_def)

lemma default_setup:
  assumes "is_float entry" "is_float stop" "is_float target"
  shows "sim_setup d entry stop target default_bt_config =
    \<lparr>p_direction = d, p_entry = entry, p_eff_entry = entry, p_eff_stop = stop, p_eff_target = target,
     p_fee = 0, p_funding_per_bar = 0\<rparr>"
proof -
  have "fadd 1 0 = 1" "fsub 1 0 = 1" using is_float_1 by (simp_all add: fadd_def fsub_def is_float_def)
  then show ?thesis using assms by (simp add: sim_setup_def default_bt_config_def Let_def fl_mult_1)
qed

lemma fsub_swap: "\<bar>fsub x y\<bar> = \<bar>fsub y x\<bar>"
  using fl_minus[of "x - y"] by (simp add: fsub_def)

definition ideal_r :: "rat \<Rightarrow> rat \<Rightarrow> rat \<Rightarrow> trade_result \<Rightarrow> rat" where
  "ideal_r entry stop target res =
     (case res of Win \<Rightarrow> fdiv \<bar>fsub target entry\<bar> \<bar>fsub entry stop\<bar> | Loss \<Rightarrow> - 1 | Scratch \<Rightarrow> 0)"

lemma close_r_free: "0 < risk \<Longrightarrow> close_r res reward risk 0 = (if res = Loss then - \<bar>fdiv reward risk\<bar> else fdiv reward risk)"
proof -
  have "fsub (fdiv reward risk) 0 = fdiv reward risk"
    using is_float_ops(4)[of reward risk] by (simp add: fsub_def is_float_def)
  then show ?thesis by (simp add: close_r_def Let_def)
qed

text \<open>The R multiple of every closed trade, from its result alone, when nothing is charged.\<close>

lemma free_close_r:
  assumes p: "p_fee p = 0" "p_funding_per_bar p = 0"
    and risk: "0 < \<bar>fsub (p_eff_entry p) (p_eff_stop p)\<bar>"
    and exit_at: "res = Win \<and> price = p_eff_target p \<or> res = Loss \<and> price = p_eff_stop p"
  shows "t_r (close_trade p n (open_trade p ts0) price res ts) = ideal_r (p_eff_entry p) (p_eff_stop p) (p_eff_target p) res"
proof -
  have "fdiv \<bar>fsub (p_eff_stop p) (p_eff_entry p)\<bar> \<bar>fsub (p_eff_entry p) (p_eff_stop p)\<bar> = 1"
    using risk by (subst fsub_swap) (rule fdiv_self, simp)
  then show ?thesis
    using exit_at risk by (auto simp: close_trade_def Let_def p fadd_def close_r_free ideal_r_def)
qed

lemma levels_risk:
  assumes "levels_ok d entry stop target" and f: "is_float entry" "is_float stop" "is_float target"
  shows "0 < \<bar>fsub entry stop\<bar>" "0 < \<bar>fsub target entry\<bar>"
proof -
  have ne: "fsub x y \<noteq> 0" if "is_float x" "is_float y" "x \<noteq> y" for x y
  proof (cases "x < y")
    case True
    then show ?thesis using fsub_pos[of x y] fsub_swap[of x y] that by auto
  next
    case False
    then show ?thesis using fsub_pos[of y x] that by auto
  qed
  have "entry \<noteq> stop" "target \<noteq> entry" using assms(1) by (auto simp: levels_ok_def split: if_splits)
  then show "0 < \<bar>fsub entry stop\<bar>" "0 < \<bar>fsub target entry\<bar>" using ne f by simp_all
qed

definition free_params :: "sim_params \<Rightarrow> bool" where
  "free_params p \<longleftrightarrow> p_fee p = 0 \<and> p_funding_per_bar p = 0 \<and> 0 < \<bar>fsub (p_eff_entry p) (p_eff_stop p)\<bar>"

fun free_inv :: "sim_params \<Rightarrow> sim_state \<Rightarrow> bool" where
  "free_inv p (dn, opn) \<longleftrightarrow>
     list_all (\<lambda>t. t_r t = ideal_r (p_eff_entry p) (p_eff_stop p) (p_eff_target p) (t_result t)) dn
     \<and> (case opn of None \<Rightarrow> True | Some (t, n) \<Rightarrow> t = open_trade p (t_entry_time t))"

lemma free_close:
  assumes "free_params p" "sim_exit p row = (price, Some res)"
  shows "t_r (close_trade p n (open_trade p ts0) price res now)
    = ideal_r (p_eff_entry p) (p_eff_stop p) (p_eff_target p) res"
  using free_close_r[of p res price n ts0 now] resolve_exit_price[of _ _ _ _ _ _ price res] assms
  by (auto simp: sim_exit_def free_params_def)

lemma sim_bar_free_inv: "free_params p \<Longrightarrow> free_inv p s \<Longrightarrow> free_inv p (sim_bar p (now, row) s)"
proof -
  assume p: "free_params p" and inv: "free_inv p s"
  obtain dn opn where s: "s = (dn, opn)" by (cases s)
  obtain price out where ex: "sim_exit p row = (price, out)" by (cases "sim_exit p row")
  show ?thesis
  proof (cases opn)
    case None
    then show ?thesis using inv ex free_close[OF p, of row price] by (cases out) (auto simp: s)
  next
    case (Some tn)
    then obtain t n where tn: "opn = Some (t, n)" by (cases tn) auto
    then have t: "t = open_trade p (t_entry_time t)" using inv s by simp
    show ?thesis
      using inv ex free_close[OF p, of row price _ "n + 1" "t_entry_time t" now] t by (cases out) (auto simp: s tn)
  qed
qed

lemma sim_walk_free_inv: "free_params p \<Longrightarrow> free_inv p s \<Longrightarrow> free_inv p (sim_walk p xs s)"
proof (induction xs arbitrary: s)
  case (Cons x xs)
  obtain now row where x: "x = (now, row)" by (cases x)
  show ?case
    unfolding x sim_walk.simps by (rule Cons.IH) (use Cons.prems sim_bar_free_inv in blast)+
qed simp

lemma free_scratch: "free_params p \<Longrightarrow> t_r (close_scratch p n (open_trade p ts0) price now) = 0"
  by (simp add: close_scratch_def Let_def free_params_def fsub_def fadd_def)

text \<open>
  Without costs the R multiples are the textbook ones. With the default configuration and float levels
  on the right sides of the entry, every loss is exactly -1 R, every scratch 0 R, and every win the ratio of
  the distance to the target over the distance to the stop, which is never negative.
\<close>

theorem costless_r_multiples:
  assumes run: "simulate_trades rows d entry stop target None = Inr ts"
    and floats: "is_float entry" "is_float stop" "is_float target"
  shows "list_all (\<lambda>t. t_r t = ideal_r entry stop target (t_result t) \<and> (t_result t = Win \<longrightarrow> 0 \<le> t_r t)) ts"
proof (cases "rows = []")
  case True
  then show ?thesis using run by (auto simp: simulate_trades_def)
next
  case False
  define p where "p = sim_setup d entry stop target default_bt_config"
  have p: "p = \<lparr>p_direction = d, p_entry = entry, p_eff_entry = entry, p_eff_stop = stop, p_eff_target = target,
     p_fee = 0, p_funding_per_bar = 0\<rparr>" by (simp add: p_def default_setup[OF floats])
  obtain dn opn where lv: "levels_ok d entry stop target" and walk: "sim_walk p rows ([], None) = (dn, opn)"
    and ts: "ts = (case opn of None \<Rightarrow> dn | Some (t, n) \<Rightarrow> dn @ [close_scratch p n t (bclose (snd (last rows))) (fst (last rows))])"
    using simulate_trades_Inr[OF run False] unfolding p_def by (metis option.simps(4))
  have free: "free_params p" using levels_risk[OF lv floats] by (simp add: free_params_def p)
  have inv: "free_inv p (dn, opn)" using sim_walk_free_inv[OF free, of "([], None)" rows] walk by simp
  have "list_all (\<lambda>t. t_r t = ideal_r entry stop target (t_result t)) ts"
  proof (cases opn)
    case None
    then show ?thesis using inv ts by (simp add: p)
  next
    case (Some tn)
    then obtain t n where tn: "opn = Some (t, n)" by (cases tn) auto
    then have t: "t = open_trade p (t_entry_time t)" using inv by simp
    have "t_r (close_scratch p n t price now) = 0" for price now
      by (subst t) (rule free_scratch[OF free])
    then show ?thesis using inv ts tn by (simp add: p ideal_r_def)
  qed
  then show ?thesis
    by (auto simp: list_all_iff ideal_r_def fdiv_nonneg)
qed

section \<open>Costs\<close>

text \<open>
  \<open>_close_trade\<close> debits the costs from the gross R and takes \<open>-abs\<close> of a loss: up to a full risk unit of
  costs, a dearer trade therefore reports a smaller loss, never one worse than -1 R.
\<close>

lemma costs_shrink_losses:
  assumes risk: "0 < risk" and c: "0 \<le> c" "c \<le> c'" "c' \<le> risk"
  shows "- 1 \<le> close_r Loss risk risk c" and "close_r Loss risk risk c \<le> close_r Loss risk risk c'"
    and "close_r Loss risk risk c' \<le> 0"
proof -
  have one: "fdiv risk risk = 1" using risk by (simp add: fdiv_self)
  have "fdiv c' risk \<le> 1" using risk c by (intro fdiv_le_float) auto
  moreover have "fdiv c risk \<le> fdiv c' risk" using risk c by (intro fdiv_mono) auto
  ultimately have d: "0 \<le> fdiv c risk" "fdiv c risk \<le> fdiv c' risk" "fdiv c' risk \<le> 1"
    using risk c by (auto intro: fdiv_nonneg)
  have n: "0 \<le> fsub 1 (fdiv c' risk)" "fsub 1 (fdiv c' risk) \<le> fsub 1 (fdiv c risk)" "fsub 1 (fdiv c risk) \<le> 1"
    using d fsub_le[of 1 "fdiv c risk"] by (auto intro: fsub_nonneg fsub_mono)
  then show "- 1 \<le> close_r Loss risk risk c" "close_r Loss risk risk c \<le> close_r Loss risk risk c'"
    "close_r Loss risk risk c' \<le> 0"
    by (simp_all add: close_r_def one)
qed

text \<open>The leverage of the configuration is checked and then never read.\<close>

lemma leverage_without_effect:
  "1 \<le> k \<Longrightarrow> 1 \<le> k' \<Longrightarrow>
   simulate_trades rows d entry stop target (Some (cfg\<lparr>leverage := Some k\<rparr>))
     = simulate_trades rows d entry stop target (Some (cfg\<lparr>leverage := Some k'\<rparr>))"
  by (simp add: simulate_trades_def sim_setup_def Let_def)

section \<open>Long and short are mirror images\<close>

fun flip :: "direction \<Rightarrow> direction" where
  "flip LONG = SHORT"
| "flip SHORT = LONG"

definition mirror_bar :: "bar \<Rightarrow> bar" where
  "mirror_bar b = b\<lparr>bopen := - bopen b, bhigh := - blow b, blow := - bhigh b, bclose := - bclose b\<rparr>"

definition mirror_rows :: "(int \<times> bar) list \<Rightarrow> (int \<times> bar) list" where
  "mirror_rows rows = map (\<lambda>(ts, b). (ts, mirror_bar b)) rows"

definition mirror_trade :: "trade \<Rightarrow> trade" where
  "mirror_trade t = t\<lparr>t_direction := flip (t_direction t), t_entry := - t_entry t, t_stop := - t_stop t,
     t_target := - t_target t, t_exit := - t_exit t\<rparr>"

definition mirror_params :: "sim_params \<Rightarrow> sim_params" where
  "mirror_params p = p\<lparr>p_direction := flip (p_direction p), p_entry := - p_entry p, p_eff_entry := - p_eff_entry p,
     p_eff_stop := - p_eff_stop p, p_eff_target := - p_eff_target p\<rparr>"

fun mirror_state :: "sim_state \<Rightarrow> sim_state" where
  "mirror_state (dn, opn) = (map mirror_trade dn, map_option (\<lambda>(t, n). (mirror_trade t, n)) opn)"

lemma fsub_neg: "fsub (- x) (- y) = fsub y x"
  by (simp add: fsub_def)

lemma mirror_exit:
  "sim_exit (mirror_params p) (mirror_bar row) = (case sim_exit p row of (price, out) \<Rightarrow> (- price, out))"
  by (cases "p_direction p")
     (simp_all add: sim_exit_def resolve_exit_def mirror_params_def mirror_bar_def fsub_neg Let_def)

lemma mirror_open: "open_trade (mirror_params p) ts = mirror_trade (open_trade p ts)"
  by (simp add: open_trade_def mirror_params_def mirror_trade_def)

lemma mirror_close:
  assumes "p_fee p = 0" "p_funding_per_bar p = 0"
  shows "close_trade (mirror_params p) n (mirror_trade t) (- price) res ts = mirror_trade (close_trade p n t price res ts)"
    and "close_scratch (mirror_params p) n (mirror_trade t) (- price) ts = mirror_trade (close_scratch p n t price ts)"
  using assms fsub_swap[of "t_stop t" "t_entry t"] fsub_swap[of "t_entry t" price]
  by (simp_all add: close_trade_def close_scratch_def mirror_params_def mirror_trade_def Let_def fsub_neg)

lemma mirror_sim_bar:
  assumes free: "p_fee p = 0" "p_funding_per_bar p = 0"
  shows "sim_bar (mirror_params p) (ts, mirror_bar row) (mirror_state s) = mirror_state (sim_bar p (ts, row) s)"
proof -
  obtain dn opn where s: "s = (dn, opn)" by (cases s)
  obtain price out where ex: "sim_exit p row = (price, out)" by (cases "sim_exit p row")
  have touch: "blow (mirror_bar row) \<le> p_entry (mirror_params p) \<and> p_entry (mirror_params p) \<le> bhigh (mirror_bar row)
      \<longleftrightarrow> blow row \<le> p_entry p \<and> p_entry p \<le> bhigh row"
    by (auto simp: mirror_params_def mirror_bar_def)
  show ?thesis
    using ex mirror_close[OF free] mirror_open[of p ts]
    by (cases opn; cases out) (auto simp: s touch mirror_exit)
qed

lemma mirror_sim_walk:
  "p_fee p = 0 \<Longrightarrow> p_funding_per_bar p = 0 \<Longrightarrow>
   sim_walk (mirror_params p) (mirror_rows rows) (mirror_state s) = mirror_state (sim_walk p rows s)"
proof (induction rows arbitrary: s)
  case (Cons x rows)
  obtain ts row where x: "x = (ts, row)" by (cases x)
  show ?case
    using Cons.IH[of "sim_bar p x s"] Cons.prems mirror_sim_bar[of p ts row s]
    by (simp add: mirror_rows_def x del: mirror_state.simps)
qed (simp add: mirror_rows_def)

text \<open>
  C16: Longs and shorts are treated alike. Without costs, negating all prices and swapping the direction
  negates the prices of every simulated trade and changes nothing else: same trades, times, results and
  R multiples; invalid levels are rejected on both sides.
\<close>

theorem long_short_mirror:
  assumes floats: "is_float entry" "is_float stop" "is_float target"
  shows "simulate_trades (mirror_rows rows) (flip d) (- entry) (- stop) (- target) None
    = (case simulate_trades rows d entry stop target None of
         Inl e \<Rightarrow> Inl (if e = BadLongLevels then BadShortLevels else if e = BadShortLevels then BadLongLevels else e)
       | Inr ts \<Rightarrow> Inr (map mirror_trade ts))"
proof (cases "rows = [] \<or> \<not> levels_ok d entry stop target")
  case True
  then show ?thesis by (cases d) (auto simp: simulate_trades_def mirror_rows_def levels_ok_def check_def)
next
  case False
  define p where "p = sim_setup d entry stop target default_bt_config"
  have p: "p_fee p = 0" "p_funding_per_bar p = 0" by (simp_all add: p_def default_setup[OF floats])
  have mp: "sim_setup (flip d) (- entry) (- stop) (- target) default_bt_config = mirror_params p"
    using floats by (simp add: p_def default_setup mirror_params_def)
  have lv: "levels_ok (flip d) (- entry) (- stop) (- target)" "levels_ok d entry stop target"
    using False by (cases d; auto simp: levels_ok_def)+
  have lev: "leverage default_bt_config = Some 1" by (simp add: default_bt_config_def)
  have ends: "bclose (snd (last (mirror_rows rows))) = - bclose (snd (last rows))"
    "fst (last (mirror_rows rows)) = fst (last rows)"
    using False by (auto simp: mirror_rows_def last_map mirror_bar_def split: prod.splits)
  obtain dn opn where w: "sim_walk p rows ([], None) = (dn, opn)" by (cases "sim_walk p rows ([], None)")
  have mw: "sim_walk (mirror_params p) (mirror_rows rows) ([], None) = mirror_state (dn, opn)"
    using mirror_sim_walk[OF p, of rows "([], None)"] w by simp
  have ne: "rows \<noteq> []" "mirror_rows rows \<noteq> []" using False by (auto simp: mirror_rows_def)
  show ?thesis
    using lv ne w mw ends mirror_close(2)[OF p] lev
    by (cases opn) (auto simp: simulate_trades_def mp p_def[symmetric] Let_def)
qed

section \<open>Metrics\<close>

text \<open>The equity curve in R, after each trade.\<close>

fun equity_curve :: "rat \<Rightarrow> trade list \<Rightarrow> rat list" where
  "equity_curve e [] = []"
| "equity_curve e (t # ts) = fadd e (t_r t) # equity_curve (fadd e (t_r t)) ts"

lemma length_equity [simp]: "length (equity_curve e ts) = length ts"
  by (induction ts arbitrary: e) auto

lemma drawdown_ge_worst: "worst \<le> drawdown_loop ts e pk worst"
proof (induction ts arbitrary: e pk worst)
  case (Cons t ts)
  show ?case
    using Cons.IH[of worst] Cons.IH[of "fsub (max pk (fadd e (t_r t))) (fadd e (t_r t))"]
    by (auto simp: Let_def intro: order_trans less_imp_le)
qed simp

lemma drawdown_step: "drawdown_loop (t # ts) e pk worst
    = drawdown_loop ts (fadd e (t_r t)) (max pk (fadd e (t_r t))) (max worst (fsub (max pk (fadd e (t_r t))) (fadd e (t_r t))))"
  by (simp add: Let_def max_def)

lemma drawdown_bound:
  "j < length ts \<Longrightarrow> fsub pk (equity_curve e ts ! j) \<le> drawdown_loop ts e pk worst
     \<and> (\<forall>i \<le> j. fsub (equity_curve e ts ! i) (equity_curve e ts ! j) \<le> drawdown_loop ts e pk worst)"
proof (induction ts arbitrary: e pk worst j)
  case (Cons t ts)
  define e' pk' w' where d: "e' = fadd e (t_r t)" "pk' = max pk e'" "w' = max worst (fsub pk' e')"
  have loop: "drawdown_loop (t # ts) e pk worst = drawdown_loop ts e' pk' w'"
    unfolding d by (rule drawdown_step)
  have cv: "equity_curve e (t # ts) = e' # equity_curve e' ts" by (simp add: d)
  have here: "fsub pk' e' \<le> drawdown_loop ts e' pk' w'"
    using drawdown_ge_worst[of w' ts e' pk'] by (simp add: d)
  have up: "fsub pk x \<le> fsub pk' x" "fsub e' x \<le> fsub pk' x" for x
    by (auto simp: d intro!: fsub_mono)
  show ?case
  proof (cases j)
    case 0
    then show ?thesis unfolding loop cv using order_trans[OF up(1) here] order_trans[OF up(2) here] by simp
  next
    case (Suc k)
    then have IH: "fsub pk' (equity_curve e' ts ! k) \<le> drawdown_loop ts e' pk' w'"
      "\<forall>i \<le> k. fsub (equity_curve e' ts ! i) (equity_curve e' ts ! k) \<le> drawdown_loop ts e' pk' w'"
      using Cons.IH[of k pk' e' w'] Cons.prems by simp_all
    have "fsub ((e' # equity_curve e' ts) ! i) (equity_curve e' ts ! k) \<le> drawdown_loop ts e' pk' w'" if "i \<le> Suc k" for i
      using IH that order_trans[OF up(2) IH(1)] by (cases i) auto
    then show ?thesis unfolding loop cv using Suc order_trans[OF up(1) IH(1)] by simp
  qed
qed simp

lemma drawdown_attained:
  "drawdown_loop ts e pk worst = worst
   \<or> (\<exists>j < length ts. drawdown_loop ts e pk worst = fsub pk (equity_curve e ts ! j))
   \<or> (\<exists>j < length ts. \<exists>i \<le> j. drawdown_loop ts e pk worst = fsub (equity_curve e ts ! i) (equity_curve e ts ! j))"
proof (induction ts arbitrary: e pk worst)
  case (Cons t ts)
  define e' pk' w' where d: "e' = fadd e (t_r t)" "pk' = max pk e'" "w' = max worst (fsub pk' e')"
  have loop: "drawdown_loop (t # ts) e pk worst = drawdown_loop ts e' pk' w'"
    unfolding d by (rule drawdown_step)
  have cv: "equity_curve e (t # ts) = e' # equity_curve e' ts" by (simp add: d)
  note [simp del] = drawdown_loop.simps equity_curve.simps
  consider "drawdown_loop ts e' pk' w' = worst" | "drawdown_loop ts e' pk' w' = fsub pk e'"
    | "drawdown_loop ts e' pk' w' = fsub e' e'"
    | j where "j < length ts" "drawdown_loop ts e' pk' w' = fsub pk (equity_curve e' ts ! j)"
    | j where "j < length ts" "drawdown_loop ts e' pk' w' = fsub e' (equity_curve e' ts ! j)"
    | i j where "j < length ts" "i \<le> j" "drawdown_loop ts e' pk' w' = fsub (equity_curve e' ts ! i) (equity_curve e' ts ! j)"
    using Cons.IH[of e' pk' w'] by (auto simp: d max_def split: if_splits)
  then show ?case
  proof cases
    case 1 then show ?thesis using loop by simp
  next
    case 2 then show ?thesis using loop cv by (intro disjI2 disjI1 exI[of _ 0]) simp
  next
    case 3 then show ?thesis using loop cv by (intro disjI2 exI[of _ 0] conjI exI[of _ 0]) simp_all
  next
    case (4 j) then show ?thesis using loop cv by (intro disjI2 disjI1 exI[of _ "Suc j"]) simp
  next
    case (5 j) then show ?thesis using loop cv by (intro disjI2 exI[of _ "Suc j"] conjI exI[of _ 0]) simp_all
  next
    case (6 i j) then show ?thesis using loop cv by (intro disjI2 exI[of _ "Suc j"] conjI exI[of _ "Suc i"]) simp_all
  qed
qed simp

lemma count_result_split:
  "count_result Win ts + count_result Loss ts + count_result Scratch ts = int (length ts)"
proof (induction ts)
  case (Cons t ts)
  then show ?case by (cases "t_result t") (auto simp: count_result_def)
qed (simp add: count_result_def)

lemma win_share:
  assumes "ts \<noteq> []"
  shows "0 \<le> fdiv (of_int (count_result Win ts)) (of_nat (length ts))" "fdiv (of_int (count_result Win ts)) (of_nat (length ts)) \<le> 1"
proof -
  have pos: "(0 :: rat) < of_nat (length ts)" using assms by simp
  show "0 \<le> fdiv (of_int (count_result Win ts)) (of_nat (length ts))"
    by (rule fdiv_nonneg) (simp_all add: count_result_def)
  have "(of_int (count_result Win ts) :: rat) \<le> of_nat (length ts)"
    by (simp add: count_result_def)
  then show "fdiv (of_int (count_result Win ts)) (of_nat (length ts)) \<le> 1"
    using pos by (intro fdiv_le_float) (simp_all add: pos_divide_le_eq)
qed

lemma drawdown_reference:
  "let E = 0 # equity_curve 0 ts in (\<forall>j < length E. \<forall>i \<le> j. fsub (E ! i) (E ! j) \<le> drawdown_loop ts 0 0 0)
      \<and> (\<exists>j < length E. \<exists>i \<le> j. drawdown_loop ts 0 0 0 = fsub (E ! i) (E ! j))"
proof -
  define E where "E = 0 # equity_curve 0 ts"
  have upper: "fsub (E ! i) (E ! j) \<le> drawdown_loop ts 0 0 0" if "j < length E" "i \<le> j" for i j
  proof (cases j)
    case 0
    then show ?thesis using that drawdown_ge_worst[of 0 ts 0 0] by simp
  next
    case (Suc k)
    then show ?thesis
      using that drawdown_bound[of k ts 0 0 0]
      by (cases i) (auto simp: E_def)
  qed
  have "\<exists>j < length E. \<exists>i \<le> j. drawdown_loop ts 0 0 0 = fsub (E ! i) (E ! j)"
    using drawdown_attained[of ts 0 0 0]
  proof (elim disjE exE conjE)
    assume "drawdown_loop ts 0 0 0 = 0"
    then show ?thesis by (intro exI[of _ 0] conjI) (simp_all add: E_def)
  next
    fix j assume "j < length ts" "drawdown_loop ts 0 0 0 = fsub 0 (equity_curve 0 ts ! j)"
    then show ?thesis by (intro exI[of _ "Suc j"] conjI exI[of _ 0]) (simp_all add: E_def)
  next
    fix i j assume "j < length ts" "i \<le> j" "drawdown_loop ts 0 0 0 = fsub (equity_curve 0 ts ! i) (equity_curve 0 ts ! j)"
    then show ?thesis by (intro exI[of _ "Suc j"] conjI exI[of _ "Suc i"]) (simp_all add: E_def)
  qed
  then show ?thesis using upper by (simp add: E_def)
qed

text \<open>
  The summary is exact. The outcome counts add up to the number of trades, the win rate is in [0, 1], and
  the maximal drawdown is the largest drop of the equity curve (from 0) between an earlier point and a later
  one, attained. The summary is missing exactly when there are losses and all of them are zero, which divides by zero.
\<close>

theorem metrics_exact:
  "(compute_metrics ts m = None \<longleftrightarrow>
      (\<exists>t \<in> set ts. t_result t = Loss) \<and> fsum (map (\<lambda>t. \<bar>t_r t\<bar>) (filter (\<lambda>t. t_result t = Loss) ts)) = 0)
   \<and> (\<forall>s. compute_metrics ts m = Some s \<longrightarrow>
        s_total s = int (length ts) \<and> s_wins s + s_losses s + s_scratches s = s_total s
        \<and> 0 \<le> s_win_rate s \<and> s_win_rate s \<le> 1 \<and> s_low_sample s = (s_total s < m)
        \<and> (let E = 0 # equity_curve 0 ts in
             (\<forall>j < length E. \<forall>i \<le> j. fsub (E ! i) (E ! j) \<le> s_max_dd s)
             \<and> (\<exists>j < length E. \<exists>i \<le> j. s_max_dd s = fsub (E ! i) (E ! j))))"
proof (intro conjI allI impI)
  show "compute_metrics ts m = None \<longleftrightarrow> (\<exists>t \<in> set ts. t_result t = Loss)
      \<and> fsum (map (\<lambda>t. \<bar>t_r t\<bar>) (filter (\<lambda>t. t_result t = Loss) ts)) = 0"
    by (auto simp: compute_metrics_def Let_def filter_empty_conv)
next
  fix s assume s: "compute_metrics ts m = Some s"
  show "s_total s = int (length ts)" "s_wins s + s_losses s + s_scratches s = s_total s"
    "s_low_sample s = (s_total s < m)"
    using s count_result_split[of ts] by (auto simp: compute_metrics_def Let_def split: if_splits)
  show "0 \<le> s_win_rate s" "s_win_rate s \<le> 1"
    using s win_share[of ts] by (auto simp: compute_metrics_def Let_def split: if_splits)
  have dd: "s_max_dd s = drawdown_loop ts 0 0 0"
    using s by (auto simp: compute_metrics_def Let_def split: if_splits)
  show "let E = 0 # equity_curve 0 ts in (\<forall>j < length E. \<forall>i \<le> j. fsub (E ! i) (E ! j) \<le> s_max_dd s)
      \<and> (\<exists>j < length E. \<exists>i \<le> j. s_max_dd s = fsub (E ! i) (E ! j))"
    unfolding dd by (rule drawdown_reference)
qed

text \<open>A long from 100 that opens on the first row and reaches its target on the second; the third re-enters.\<close>

definition demo_rows :: "(int \<times> bar) list" where
  "demo_rows = [(0, \<lparr>bopen = 100, bhigh = 101, blow = 99, bclose = 100, bvol = 1\<rparr>),
     (1, \<lparr>bopen = 100, bhigh = 112, blow = 100, bclose = 111, bvol = 1\<rparr>),
     (2, \<lparr>bopen = 101, bhigh = 103, blow = 97, bclose = 98, bvol = 1\<rparr>)]"

lemma demo_run: "\<exists>ts. simulate_trades demo_rows LONG 100 90 110 None = Inr ts \<and> map t_result ts = [Win, Scratch]
    \<and> map t_entry_time ts = [0, 2]"
proof -
  have lev: "leverage default_bt_config = Some 1" by (simp add: default_bt_config_def)
  have par: "sim_setup LONG 100 90 110 default_bt_config =
    \<lparr>p_direction = LONG, p_entry = 100, p_eff_entry = 100, p_eff_stop = 90, p_eff_target = 110, p_fee = 0, p_funding_per_bar = 0\<rparr>"
    by (rule default_setup) simp_all
  show ?thesis
    by (simp add: simulate_trades_def levels_ok_def lev par Let_def demo_rows_def sim_exit_def resolve_exit_def)
qed

theorem trades_in_sequence_witness:
  "\<exists>(ts :: trade list). map t_result ts = [Win, Scratch] \<and> sorted_wrt (\<lambda>s t. exit_before s (t_entry_time t)) ts"
proof -
  obtain ts where ts: "simulate_trades demo_rows LONG 100 90 110 None = Inr ts" "map t_result ts = [Win, Scratch]"
    using demo_run by auto
  have "sorted_wrt (<) (map fst demo_rows)" by (simp add: demo_rows_def)
  from trades_in_sequence[OF ts(1) this refl] ts(2) show ?thesis by (intro exI[of _ ts]) simp
qed

theorem costless_r_multiples_witness: "\<exists>(ts :: trade list). map t_result ts = [Win, Scratch] \<and> map t_r ts = [1, 0]"
proof -
  obtain ts where ts: "simulate_trades demo_rows LONG 100 90 110 None = Inr ts" "map t_result ts = [Win, Scratch]"
    using demo_run by auto
  have "list_all (\<lambda>t. t_r t = ideal_r 100 90 110 (t_result t) \<and> (t_result t = Win \<longrightarrow> 0 \<le> t_r t)) ts"
    by (rule costless_r_multiples[OF ts(1)]) simp_all
  moreover have "ideal_r 100 90 110 Win = 1"
    using fdiv_self[of 10] by (simp add: ideal_r_def fsub_def fl_of_numeral)
  ultimately have "map t_r ts = [1, 0]" using ts(2) by (auto simp: map_eq_Cons_conv ideal_r_def)
  then show ?thesis using ts(2) by (intro exI[of _ ts]) simp
qed

theorem long_short_mirror_witness:
  "\<exists>ts. simulate_trades (mirror_rows demo_rows) SHORT (- 100) (- 90) (- 110) None = Inr (map mirror_trade ts)
     \<and> map t_result ts = [Win, Scratch]"
proof -
  obtain ts where ts: "simulate_trades demo_rows LONG 100 90 110 None = Inr ts" "map t_result ts = [Win, Scratch]"
    using demo_run by auto
  have "simulate_trades (mirror_rows demo_rows) (flip LONG) (- 100) (- 90) (- 110) None
    = (case simulate_trades demo_rows LONG 100 90 110 None of
         Inl e \<Rightarrow> Inl (if e = BadLongLevels then BadShortLevels else if e = BadShortLevels then BadLongLevels else e)
       | Inr ts \<Rightarrow> Inr (map mirror_trade ts))"
    by (rule long_short_mirror) simp_all
  then show ?thesis using ts by auto
qed

theorem metrics_exact_witness:
  "\<exists>s. compute_metrics [open_trade (sim_setup LONG 100 90 110 default_bt_config) 0] 30 = Some s
     \<and> s_total s = 1 \<and> s_wins s + s_losses s + s_scratches s = 1"
proof -
  define ts where "ts = [open_trade (sim_setup LONG 100 90 110 default_bt_config) 0]"
  obtain s where s: "compute_metrics ts 30 = Some s"
  proof (cases "compute_metrics ts 30")
    case None
    then have "\<exists>t \<in> set ts. t_result t = Loss" by (auto simp: compute_metrics_def Let_def filter_empty_conv split: if_splits)
    then show ?thesis by (simp add: ts_def)
  qed
  have "s_total s = int (length ts) \<and> s_wins s + s_losses s + s_scratches s = s_total s"
    using metrics_exact[of ts 30, THEN conjunct2, rule_format, OF s] by blast
  then show ?thesis using s by (simp add: ts_def)
qed

end
