(* ===== verification/WalkForward.thy ===== *)
theory WalkForward
  imports SignalEngine TradeSim
begin

text \<open>
  \<^verbatim>\<open>scripts/backtest_harmonic_lib.py\<close> and \<open>grid_search_weights\<close> of
  \<^verbatim>\<open>app/services/signal_engine.py\<close>: the walk-forward backtest. A window rolls over the history, the
  engine builds a signal from it, the next bars simulate the trade, the records are aggregated, and
  the weight search runs the whole backtest once per weight vector.

  The detector (pyharmonics) is an argument: a function from a window to the patterns it reports, the
  divergences, and whether its \<open>patterns\<close> and \<open>raw_assessment\<close> entries are nonempty.
\<close>

section \<open>Histories and slices\<close>

record history =
  h_frame :: frame
  h_index :: "int list"

definition h_len :: "history \<Rightarrow> int" where
  "h_len h = int (length (f_bars (h_frame h)))"

text \<open>Python's \<open>xs[a:b]\<close> with its treatment of negative and out-of-range bounds, and \<open>xs[i]\<close>.\<close>

definition slice_bound :: "int \<Rightarrow> int \<Rightarrow> nat" where
  "slice_bound n i = nat (max 0 (min n (if i < 0 then i + n else i)))"

definition py_slice :: "int \<Rightarrow> int \<Rightarrow> 'a list \<Rightarrow> 'a list" where
  "py_slice a b xs =
     (let n = int (length xs) in drop (slice_bound n a) (take (slice_bound n b) xs))"

definition py_index :: "'e \<Rightarrow> 'a list \<Rightarrow> int \<Rightarrow> 'e + 'a" where
  "py_index e xs i =
     (let n = int (length xs); j = (if i < 0 then i + n else i)
      in if 0 \<le> j \<and> j < n then Inr (xs ! nat j) else Inl e)"

definition window_of :: "int \<Rightarrow> int \<Rightarrow> history \<Rightarrow> history" where
  "window_of a b h =
     \<lparr>h_frame = sub_frame (py_slice a b) (py_slice a b) (h_frame h), h_index = py_slice a b (h_index h)\<rparr>"

definition rows_of :: "history \<Rightarrow> (int \<times> bar) list" where
  "rows_of h = zip (h_index h) (f_bars (h_frame h))"

text \<open>\<open>df.sort_index()\<close>: rows by index label (labels are unique in a price history).\<close>

definition sort_index :: "history \<Rightarrow> history" where
  "sort_index h =
     (let by = (\<lambda>xs. map snd (sort_key fst (zip (h_index h) xs)))
      in \<lparr>h_frame = (h_frame h)\<lparr>f_bars := map snd (sort_key fst (rows_of h)),
             f_close_time := map_option by (f_close_time (h_frame h))\<rparr>,
          h_index = sort (h_index h)\<rparr>)"

text \<open>\<open>range(a, b, step)\<close> for a positive step.\<close>

function range_up :: "int \<Rightarrow> int \<Rightarrow> int \<Rightarrow> int list" where
  "range_up a b step = (if 0 < step \<and> a < b then a # range_up (a + step) b step else [])"
  by pat_completeness auto

termination by (relation "measure (\<lambda>(a, b, step). nat (b - a))") auto

declare range_up.simps [simp del]

section \<open>One window: the strongest signal\<close>

text \<open>\<open>det_found\<close>: one of the entries \<open>patterns\<close> and \<open>raw_assessment\<close> is nonempty.\<close>

record detection =
  det_found :: bool
  det_assessment :: assessment
  det_divs :: "(string \<times> divergence list) list"

datatype wf_error = SignalErr signal_error | TuningErr tuning_error | ZeroStep | OutOfRange

definition lift_err :: "('e \<Rightarrow> 'f) \<Rightarrow> 'e + 'a \<Rightarrow> 'f + 'a" where
  "lift_err g m = (case m of Inl e \<Rightarrow> Inl (g e) | Inr x \<Rightarrow> Inr x)"

text \<open>
  \<open>_maybe_relax_filters\<close> replaces \<open>rejection_reason\<close> by a function that accepts everything and enters a
  scope whose tuning is the default one with \<open>min_candles\<close> 30; \<open>_restore_filters\<close> undoes both.
\<close>

definition RELAXED_OVERRIDES :: "(string \<times> fieldval) list" where
  "RELAXED_OVERRIDES = [(''min_candles'', FInt 30)]"

definition relax_scope :: "bool \<Rightarrow> tuning_state \<Rightarrow> tuning_error + tuning_state" where
  "relax_scope relax s =
     (if relax then (case from_dict RELAXED_OVERRIDES of Inl e \<Rightarrow> Inl e | Inr t \<Rightarrow> Inr (scope_enter t s)) else Inr s)"

text \<open>\<open>build_signal\<close> under the patched filter: every candidate is valid.\<close>

definition build_signal_patched ::
    "indicators \<Rightarrow> TuningConstants \<Rightarrow> frame \<Rightarrow> string \<Rightarrow> Candidate list \<Rightarrow> (string \<times> divergence list) list
       \<Rightarrow> signal_error + signal option" where
  "build_signal_patched ind tun f interval candidates divergences =
     check (interval \<noteq> []) ViolationError
     (if int (length (f_bars f)) < min_candles tun \<or> candidates = [] then Inr None
      else ebind (prepare_score_context ind tun f interval divergences None) (\<lambda>ctx0.
        case ctx0 of None \<Rightarrow> Inr None
        | Some ctx \<Rightarrow>
            ebind (score_all ind tun ctx ''standard'' candidates) (\<lambda>scored.
            Inr (apply_stability tun f (rank_signals scored) None))))"

definition drop_violation :: "signal_error + signal option \<Rightarrow> wf_error + signal option" where
  "drop_violation m =
     (case m of Inl ViolationError \<Rightarrow> Inr None | Inl e \<Rightarrow> Inl (SignalErr e) | Inr r \<Rightarrow> Inr r)"

definition extract_signal ::
    "indicators \<Rightarrow> tuning_state \<Rightarrow> detection \<Rightarrow> string \<Rightarrow> bool \<Rightarrow> history \<Rightarrow> wf_error + signal option" where
  "extract_signal ind s det interval relax w =
     (if \<not> det_found det then Inr None
      else case f_close_time (h_frame w) of
        None \<Rightarrow> Inl (SignalErr (KeyError ''close_time''))
      | Some cts0 \<Rightarrow>
          let f = h_frame (if sorted cts0 then w else sort_index w);
              candidates = extract_candidates (det_assessment det) (f_close_time f) in
          if candidates = [] then Inr None
          else ebind (lift_err TuningErr (relax_scope relax s)) (\<lambda>s'.
               let tun = get_tuning s' in
               drop_violation
                 (if relax then build_signal_patched ind tun f interval candidates (det_divs det)
                  else build_signal ind tun (Some f) interval candidates (det_divs det) None ''standard'' None)))"

section \<open>One signal: the forward trade\<close>

datatype wf_result = WfWin | WfLoss | WfScratch | WfSkipped

fun wf_of :: "trade_result \<Rightarrow> wf_result" where
  "wf_of Win = WfWin"
| "wf_of Loss = WfLoss"
| "wf_of Scratch = WfScratch"

record forward =
  fw_result :: wf_result
  fw_r :: rat
  fw_exit_time :: "int option"
  fw_bars :: "int option"

definition skipped :: forward where
  "skipped = \<lparr>fw_result = WfSkipped, fw_r = 0, fw_exit_time = None, fw_bars = None\<rparr>"

fun direction_label :: "direction \<Rightarrow> string" where
  "direction_label LONG = ''long''"
| "direction_label SHORT = ''short''"

text \<open>One day in nanoseconds.\<close>

definition DAY :: rat where
  "DAY = 86400000000000"

definition sim_direction :: "signal \<Rightarrow> direction" where
  "sim_direction sg = (if direction_label (sg_direction sg) = ''bullish'' then LONG else SHORT)"

definition simulate_one ::
    "(int \<times> bar) list \<Rightarrow> signal \<Rightarrow> rat option \<Rightarrow> rat option \<Rightarrow> rat option \<Rightarrow> forward" where
  "simulate_one rows sg current_price entry_price tp =
     (let d = sim_direction sg;
          entry = (case entry_price of Some x \<Rightarrow> x
                   | None \<Rightarrow> (case current_price of Some x \<Rightarrow> x | None \<Rightarrow> sg_entry sg));
          target = (case tp of Some x \<Rightarrow> x
                    | None \<Rightarrow> if sg_targets sg \<noteq> [] then target_price (sg_targets sg ! 0)
                              else fmul entry (if d = LONG then fl (101 / 100) else fl (99 / 100)))
      in if \<not> (if d = LONG then sg_stop sg < entry \<and> entry < target else entry < sg_stop sg \<and> target < entry) then skipped
         else (case simulate_trades rows d entry (sg_stop sg) target None of
                 Inl _ \<Rightarrow> skipped
               | Inr [] \<Rightarrow> skipped
               | Inr (t # _) \<Rightarrow>
                   \<lparr>fw_result = wf_of (t_result t), fw_r = t_r t, fw_exit_time = t_exit_time t,
                    fw_bars = map_option (\<lambda>e. py_int (fdiv (of_int (e - t_entry_time t)) DAY)) (t_exit_time t)\<rparr>))"

section \<open>The walk\<close>

record wf_record =
  r_step :: int
  r_time :: int
  r_direction :: direction
  r_grade :: grade_label
  r_pattern :: string
  r_family :: string
  r_formed :: bool
  r_entry_price :: rat
  r_stop :: rat
  r_tp1 :: "rat option"
  r_rr1 :: rat
  r_entry_ref :: rat
  r_zone :: "rat \<times> rat"
  r_horizon :: int
  r_result :: wf_result
  r_r :: rat
  r_exit_time :: "int option"
  r_bars_held :: "int option"

text \<open>\<open>min_grade\<close> is a string; any other than the three grades ranks 0, and so does the plain grade C.\<close>

datatype grade_arg = Grade grade_label | OtherGrade string

fun filter_rank :: "grade_arg \<Rightarrow> int" where
  "filter_rank (Grade GradeA) = 3"
| "filter_rank (Grade GradeB) = 2"
| "filter_rank (Grade GradeCref) = 1"
| "filter_rank _ = 0"

record wf_config =
  c_window :: int
  c_step :: int
  c_horizon :: int
  c_offset :: string
  c_entry_mode :: string
  c_min_grade :: "grade_arg option"

definition signal_time :: "wf_config \<Rightarrow> history \<Rightarrow> int \<Rightarrow> wf_error + int" where
  "signal_time cfg h e =
     (if c_offset cfg = ''next_open'' \<and> e + 1 < h_len h then py_index OutOfRange (h_index h) (e + 1)
      else py_index OutOfRange (h_index h) e)"

definition below_min_grade :: "wf_config \<Rightarrow> signal \<Rightarrow> bool" where
  "below_min_grade cfg sg =
     (case c_min_grade cfg of None \<Rightarrow> False | Some g \<Rightarrow> filter_rank (Grade (sg_grade sg)) < filter_rank g)"

type_synonym extractor = "history \<Rightarrow> wf_error + signal option"
type_synonym forward_sim = "(int \<times> bar) list \<Rightarrow> signal \<Rightarrow> rat option \<Rightarrow> rat option \<Rightarrow> forward"

definition wf_window :: "wf_config \<Rightarrow> history \<Rightarrow> int \<Rightarrow> history" where
  "wf_window cfg h e = window_of (e - c_window cfg + 1) (e + 1) h"

definition wf_ahead :: "wf_config \<Rightarrow> history \<Rightarrow> int \<Rightarrow> history" where
  "wf_ahead cfg h e = window_of (e + 1) (e + 1 + c_horizon cfg + 1) h"

definition make_record :: "wf_config \<Rightarrow> int \<Rightarrow> int \<Rightarrow> signal \<Rightarrow> rat \<Rightarrow> forward \<Rightarrow> wf_record" where
  "make_record cfg e ts sg price fw =
     \<lparr>r_step = e, r_time = ts, r_direction = sg_direction sg, r_grade = sg_grade sg, r_pattern = sg_pattern sg,
      r_family = sg_family sg, r_formed = sg_formed sg, r_entry_price = price, r_stop = sg_stop sg,
      r_tp1 = (if sg_targets sg \<noteq> [] then Some (target_price (sg_targets sg ! 0)) else None),
      r_rr1 = sg_rr1 sg, r_entry_ref = sg_entry sg, r_zone = sg_entry_zone sg, r_horizon = c_horizon cfg,
      r_result = fw_result fw, r_r = fw_r fw, r_exit_time = fw_exit_time fw, r_bars_held = fw_bars fw\<rparr>"

definition wf_step :: "wf_config \<Rightarrow> extractor \<Rightarrow> forward_sim \<Rightarrow> history \<Rightarrow> int \<Rightarrow> wf_error + wf_record option" where
  "wf_step cfg extract sim h e =
     ebind (extract (wf_window cfg h e)) (\<lambda>found.
     case found of None \<Rightarrow> Inr None
     | Some sg \<Rightarrow>
         if below_min_grade cfg sg then Inr None
         else ebind (py_index OutOfRange (map bclose (f_bars (h_frame (wf_window cfg h e)))) (- 1)) (\<lambda>price.
              let entry = (if c_entry_mode cfg = ''prz'' then Some (sg_entry sg) else None);
                  fw = sim (rows_of (wf_ahead cfg h e)) sg (Some price) entry
              in ebind (signal_time cfg h e) (\<lambda>ts. Inr (Some (make_record cfg e ts sg price fw)))))"

fun wf_steps :: "wf_config \<Rightarrow> extractor \<Rightarrow> forward_sim \<Rightarrow> history \<Rightarrow> int list \<Rightarrow> wf_error + wf_record list" where
  "wf_steps cfg extract sim h [] = Inr []"
| "wf_steps cfg extract sim h (e # es) =
     ebind (wf_step cfg extract sim h e) (\<lambda>r.
     ebind (wf_steps cfg extract sim h es) (\<lambda>rs. Inr (case r of None \<Rightarrow> rs | Some x \<Rightarrow> x # rs)))"

text \<open>
  The steps visited. A negative step gives the empty range here, because the range starts below its
  end; a zero step raises.
\<close>

definition walk_forward_with ::
    "wf_config \<Rightarrow> extractor \<Rightarrow> forward_sim \<Rightarrow> history \<Rightarrow> wf_error + wf_record list" where
  "walk_forward_with cfg extract sim h =
     (let n = h_len h in
      if n < c_window cfg + c_horizon cfg + 1 then Inr []
      else if c_step cfg = 0 then Inl ZeroStep
      else wf_steps cfg extract sim h (range_up (c_window cfg - 1) (n - c_horizon cfg) (c_step cfg)))"

definition default_extract :: "indicators \<Rightarrow> tuning_state \<Rightarrow> (history \<Rightarrow> detection) \<Rightarrow> string \<Rightarrow> extractor" where
  "default_extract ind s detect interval w = extract_signal ind s (detect w) interval True w"

definition walk_forward ::
    "indicators \<Rightarrow> tuning_state \<Rightarrow> (history \<Rightarrow> detection) \<Rightarrow> string \<Rightarrow> wf_config \<Rightarrow> history
       \<Rightarrow> wf_error + wf_record list" where
  "walk_forward ind s detect interval cfg h =
     walk_forward_with cfg (default_extract ind s detect interval)
       (\<lambda>rows sg price entry. simulate_one rows sg price entry None) h"

section \<open>Aggregation\<close>

record wf_bucket =
  b_count :: int
  b_wins :: int
  b_losses :: int
  b_r :: rat

definition bump :: "wf_record \<Rightarrow> wf_bucket \<Rightarrow> wf_bucket" where
  "bump r b = b\<lparr>b_count := b_count b + 1,
                b_wins := b_wins b + (if r_result r = WfWin then 1 else 0),
                b_losses := b_losses b + (if r_result r = WfLoss then 1 else 0),
                b_r := fadd (b_r b) (r_r r)\<rparr>"

definition empty_bucket :: wf_bucket where
  "empty_bucket = \<lparr>b_count = 0, b_wins = 0, b_losses = 0, b_r = 0\<rparr>"

text \<open>\<open>setdefault\<close> and the updates, over the records in order.\<close>

fun bucket_by :: "(wf_record \<Rightarrow> 'k) \<Rightarrow> wf_record list \<Rightarrow> ('k \<times> wf_bucket) list \<Rightarrow> ('k \<times> wf_bucket) list" where
  "bucket_by key [] d = d"
| "bucket_by key (r # rs) d =
     bucket_by key rs (AList.update (key r) (bump r (get_default d (key r) empty_bucket)) d)"

record wf_summary =
  w_total :: int
  w_skipped :: int
  w_decisions :: int
  w_wins :: int
  w_losses :: int
  w_scratches :: int
  w_win_rate :: rat
  w_avg_r :: rat
  w_total_r :: rat
  w_pf :: pf_value
  w_by_grade :: "(grade_label \<times> wf_bucket) list"
  w_by_family :: "(string \<times> wf_bucket) list"

definition count_wf :: "wf_result \<Rightarrow> wf_record list \<Rightarrow> int" where
  "count_wf res rs = int (length (filter (\<lambda>r. r_result r = res) rs))"

definition sum_wf :: "wf_result \<Rightarrow> wf_record list \<Rightarrow> rat" where
  "sum_wf res rs = fsum (map r_r (filter (\<lambda>r. r_result r = res) rs))"

definition aggregate_records :: "wf_record list \<Rightarrow> wf_summary" where
  "aggregate_records rs =
     (let wins = count_wf WfWin rs; losses = count_wf WfLoss rs; win_r = sum_wf WfWin rs; loss_r = sum_wf WfLoss rs;
          total_r = fsum (map r_r rs); decided = wins + losses
      in \<lparr>w_total = int (length rs), w_skipped = count_wf WfSkipped rs, w_decisions = decided,
          w_wins = wins, w_losses = losses, w_scratches = count_wf WfScratch rs,
          w_win_rate = (if decided \<noteq> 0 then fdiv (of_int wins) (of_int decided) else 0),
          w_avg_r = (if rs \<noteq> [] then fdiv total_r (of_nat (length rs)) else 0),
          w_total_r = total_r,
          w_pf = (if losses = 0 \<or> loss_r = 0 then (if 0 < wins then PFInf else PF 0) else PF (fdiv win_r \<bar>loss_r\<bar>)),
          w_by_grade = bucket_by r_grade rs [], w_by_family = bucket_by r_family rs []\<rparr>)"

section \<open>The weight search\<close>

definition MAIN_WEIGHT_KEYS :: "string list" where
  "MAIN_WEIGHT_KEYS = [''price_action'', ''htf_trend'', ''rsi'', ''structure'', ''macd'']"

type_synonym weights = "(string \<times> rat) list"

text \<open>\<open>_complete_weights\<close>; \<open>None\<close> is the failed assertion on the keys.\<close>

definition complete_weights :: "weights \<Rightarrow> weights option" where
  "complete_weights w5 =
     (if set (keys_of w5) = set MAIN_WEIGHT_KEYS then Some (w5 @ [(''funding'', fsub 100 (fsum (vals_of w5)))]) else None)"

record outcome_row =
  o_weights :: weights
  o_win_rate :: rat
  o_avg_r :: rat
  o_n :: int

definition eval_outcome :: "weights \<Rightarrow> wf_record list \<Rightarrow> outcome_row" where
  "eval_outcome w rs =
     (let wins = count_wf WfWin rs; losses = count_wf WfLoss rs; n = wins + losses; total_r = fsum (map r_r rs)
      in \<lparr>o_weights = w, o_win_rate = (if n \<noteq> 0 then fdiv (of_int wins) (of_int n) else 0),
          o_avg_r = (if n \<noteq> 0 then fdiv total_r (of_int n) else 0), o_n = n\<rparr>)"

text \<open>
  \<open>_eval\<close>: the candidate's tuning is validated, pushed as a scope, and the backtest runs inside. The
  keyword arguments left out of the call to \<open>walk_forward\<close> have their defaults.
\<close>

definition grid_cfg :: "int \<Rightarrow> int \<Rightarrow> int \<Rightarrow> wf_config" where
  "grid_cfg window step horizon =
     \<lparr>c_window = window, c_step = step, c_horizon = horizon, c_offset = ''close'', c_entry_mode = ''market'', c_min_grade = None\<rparr>"

definition eval_weights ::
    "indicators \<Rightarrow> tuning_state \<Rightarrow> (history \<Rightarrow> detection) \<Rightarrow> string \<Rightarrow> wf_config \<Rightarrow> history \<Rightarrow> weights
       \<Rightarrow> wf_error + outcome_row" where
  "eval_weights ind s detect interval cfg h w =
     ebind (lift_err TuningErr (post_init (TUNING\<lparr>confluence_weights := w\<rparr>))) (\<lambda>tuned.
     ebind (walk_forward ind (scope_enter tuned s) detect interval cfg h) (\<lambda>rs. Inr (eval_outcome w rs)))"

fun eval_all :: "(weights \<Rightarrow> wf_error + outcome_row) \<Rightarrow> weights list \<Rightarrow> wf_error + outcome_row list" where
  "eval_all ev [] = Inr []"
| "eval_all ev (w # ws) = ebind (ev w) (\<lambda>o1. ebind (eval_all ev ws) (\<lambda>os. Inr (o1 # os)))"

definition outcome_key :: "outcome_row \<Rightarrow> rat" where
  "outcome_key o1 = fadd (fmul (o_win_rate o1) (fl (4 / 10))) (fmul (o_avg_r o1) (fl (6 / 10)))"

text \<open>\<open>max(xs, key=...)\<close>: the first element of maximal key.\<close>

fun max_by :: "('a \<Rightarrow> rat) \<Rightarrow> 'a \<Rightarrow> 'a list \<Rightarrow> 'a" where
  "max_by key best [] = best"
| "max_by key best (x # xs) = (if key best < key x then max_by key x xs else max_by key best xs)"

definition grid_search_weights ::
    "indicators \<Rightarrow> tuning_state \<Rightarrow> (history \<Rightarrow> detection) \<Rightarrow> string \<Rightarrow> history \<Rightarrow> weights list \<Rightarrow> int \<Rightarrow> int \<Rightarrow> int
       \<Rightarrow> wf_error + (weights \<times> outcome_row list)" where
  "grid_search_weights ind s detect interval h candidates window step horizon =
     ebind (eval_all (eval_weights ind s detect interval (grid_cfg window step horizon) h) candidates) (\<lambda>outcomes.
     case filter (\<lambda>o1. 5 \<le> o_n o1) outcomes of
       [] \<Rightarrow> (case candidates of [] \<Rightarrow> Inl OutOfRange | w # _ \<Rightarrow> Inr (w, outcomes))
     | x # xs \<Rightarrow> Inr (o_weights (max_by outcome_key x xs), outcomes))"

section \<open>Slices of an extended history\<close>

lemma slice_bound_in: "0 \<le> i \<Longrightarrow> i \<le> n \<Longrightarrow> slice_bound n i = nat i"
  by (simp add: slice_bound_def)

lemma py_slice_nonneg: "0 \<le> a \<Longrightarrow> a \<le> int (length xs) \<Longrightarrow> 0 \<le> b \<Longrightarrow> b \<le> int (length xs) \<Longrightarrow>
    py_slice a b xs = drop (nat a) (take (nat b) xs)"
  by (simp add: py_slice_def slice_bound_in Let_def)

lemma py_slice_append:
  assumes "0 \<le> a" "a \<le> int (length xs)" "0 \<le> b" "b \<le> int (length xs)"
  shows "py_slice a b (xs @ ys) = py_slice a b xs"
  using assms by (simp add: py_slice_nonneg nat_le_iff)

lemma py_index_append: "0 \<le> i \<Longrightarrow> i < int (length xs) \<Longrightarrow> py_index e (xs @ ys) i = py_index e xs i"
  by (simp add: py_index_def nth_append nat_less_iff Let_def)

text \<open>A history whose columns have one length, and the same history with later rows appended.\<close>

definition wf_history :: "history \<Rightarrow> bool" where
  "wf_history h \<longleftrightarrow> length (h_index h) = length (f_bars (h_frame h))
     \<and> (case f_close_time (h_frame h) of None \<Rightarrow> True | Some cts \<Rightarrow> length cts = length (f_bars (h_frame h)))"

definition extended :: "history \<Rightarrow> history \<Rightarrow> bool" where
  "extended h h' \<longleftrightarrow> (\<exists>bs ix cts.
     f_bars (h_frame h') = f_bars (h_frame h) @ bs \<and> h_index h' = h_index h @ ix
     \<and> f_close_time (h_frame h') = map_option (\<lambda>xs. xs @ cts) (f_close_time (h_frame h))
     \<and> f_dts (h_frame h') = f_dts (h_frame h) \<and> length ix = length bs)"

lemma window_of_extended:
  assumes "wf_history h" "extended h h'" "0 \<le> a" "a \<le> h_len h" "0 \<le> b" "b \<le> h_len h"
  shows "window_of a b h' = window_of a b h"
proof -
  obtain bs ix cts where e: "f_bars (h_frame h') = f_bars (h_frame h) @ bs" "h_index h' = h_index h @ ix"
     "f_close_time (h_frame h') = map_option (\<lambda>xs. xs @ cts) (f_close_time (h_frame h))"
     "f_dts (h_frame h') = f_dts (h_frame h)"
    using assms(2) by (auto simp: extended_def)
  show ?thesis
    using assms(1,3-6) e
    by (cases "f_close_time (h_frame h)")
       (auto simp: window_of_def sub_frame_def h_len_def wf_history_def py_slice_append)
qed

lemma h_len_extended: "extended h h' \<Longrightarrow> h_len h \<le> h_len h'"
  by (auto simp: extended_def h_len_def)

section \<open>The steps of the walk\<close>

lemma range_up_set: "e \<in> set (range_up a b step) \<Longrightarrow> a \<le> e \<and> e < b \<and> (\<exists>k. e = a + int k * step)"
proof (induction a b step rule: range_up.induct)
  case (1 a b step)
  show ?case
  proof (cases "0 < step \<and> a < b")
    case True
    then consider "e = a" | "e \<in> set (range_up (a + step) b step)"
      using "1.prems" by (subst (asm) range_up.simps) auto
    then show ?thesis
    proof cases
      case 1
      then show ?thesis using True by (auto intro: exI[of _ 0])
    next
      case 2
      obtain k where k: "a + step \<le> e" "e < b" "e = a + step + int k * step" using "1.IH"[OF True 2] by blast
      then have "e = a + int (Suc k) * step" by (simp add: algebra_simps)
      then show ?thesis using k True by (intro conjI) (auto simp del: of_nat_Suc)
    qed
  next
    case False
    then show ?thesis using "1.prems" by (subst (asm) range_up.simps) auto
  qed
qed

lemma range_up_sorted: "sorted_wrt (<) (range_up a b step)"
proof (induction a b step rule: range_up.induct)
  case (1 a b step)
  have "a < e" if "0 < step" "e \<in> set (range_up (a + step) b step)" for e
    using range_up_set[OF that(2)] that(1) by simp
  then show ?case using 1 by (subst range_up.simps) auto
qed

lemma range_up_filter:
  "b \<le> b' \<Longrightarrow> filter (\<lambda>e. e < c) (range_up a b' step) = filter (\<lambda>e. e < c) (range_up a b step)" if "c \<le> b"
proof (induction a b' step rule: range_up.induct)
  case (1 a b' step)
  show ?case
  proof (cases "0 < step \<and> a < b")
    case True
    then show ?thesis using 1 by (subst (1 2) range_up.simps) auto
  next
    case False
    then have "range_up a b step = []" by (subst range_up.simps) simp
    moreover have "filter (\<lambda>e. e < c) (range_up a b' step) = []" if "0 < step" "b \<le> a"
      using that \<open>c \<le> b\<close> range_up_set[of _ a b' step] by (force simp: filter_empty_conv)
    moreover have "range_up a b' step = []" if "\<not> 0 < step" using that by (subst range_up.simps) simp
    ultimately show ?thesis using False by (cases "0 < step") auto
  qed
qed

lemma wf_steps_Inr:
  "wf_steps cfg ex sim h es = Inr rs \<Longrightarrow>
     (\<forall>e \<in> set es. \<exists>r. wf_step cfg ex sim h e = Inr r)
     \<and> rs = List.map_filter (\<lambda>e. case wf_step cfg ex sim h e of Inr r \<Rightarrow> r | Inl _ \<Rightarrow> None) es"
  by (induction es arbitrary: rs) (auto simp: List.map_filter_simps split: option.splits)

lemma wf_steps_mem:
  "wf_steps cfg ex sim h es = Inr rs \<Longrightarrow> r \<in> set rs \<Longrightarrow> \<exists>e \<in> set es. wf_step cfg ex sim h e = Inr (Some r)"
  by (induction es arbitrary: rs) (auto split: option.splits)

lemma walk_forward_mem:
  assumes "walk_forward_with cfg ex sim h = Inr rs" "r \<in> set rs"
  shows "\<exists>e. c_window cfg - 1 \<le> e \<and> e < h_len h - c_horizon cfg \<and> wf_step cfg ex sim h e = Inr (Some r)"
  using assms wf_steps_mem[of cfg ex sim h _ rs r] range_up_set[of _ "c_window cfg - 1" "h_len h - c_horizon cfg" "c_step cfg"]
  by (fastforce simp: walk_forward_with_def Let_def split: if_splits)

lemma wf_step_at: "wf_step cfg ex sim h e = Inr (Some r) \<Longrightarrow> r_step r = e"
  by (auto simp: wf_step_def make_record_def Let_def split: option.splits if_splits)

lemma filter_map_filter:
  assumes "\<And>x y. f x = Some y \<Longrightarrow> P y = Q x"
  shows "filter P (List.map_filter f xs) = List.map_filter f (filter Q xs)"
  using assms by (induction xs) (auto simp: List.map_filter_simps split: option.splits)

lemma map_filter_cong: "(\<And>x. x \<in> set xs \<Longrightarrow> f x = g x) \<Longrightarrow> List.map_filter f xs = List.map_filter g xs"
  by (induction xs) (auto simp: List.map_filter_simps split: option.splits)

lemma wf_step_extended:
  assumes h: "wf_history h" "extended h h'" and c: "1 \<le> c_window cfg" "0 \<le> c_horizon cfg"
    and e: "c_window cfg - 1 \<le> e" "e + c_horizon cfg + 1 < h_len h"
  shows "wf_step cfg ex sim h' e = wf_step cfg ex sim h e"
proof -
  have win: "wf_window cfg h' e = wf_window cfg h e" "wf_ahead cfg h' e = wf_ahead cfg h e"
    unfolding wf_window_def wf_ahead_def using c e by (intro window_of_extended[OF h]; simp)+
  obtain ix where i: "h_index h' = h_index h @ ix" using h(2) by (auto simp: extended_def)
  have len: "int (length (h_index h)) = h_len h" using h(1) by (simp add: wf_history_def h_len_def)
  have st: "signal_time cfg h' e = signal_time cfg h e"
    using c e len h_len_extended[OF h(2)] py_index_append[of "e + 1" "h_index h" OutOfRange ix]
      py_index_append[of e "h_index h" OutOfRange ix]
    by (auto simp: signal_time_def i)
  show ?thesis unfolding wf_step_def win st ..
qed

text \<open>
  C13: The backtest does not look ahead. Appending later bars to a history changes no record whose forward
  window was already complete: for any extractor and forward simulation, the records of the steps at
  least \<open>horizon + 2\<close> bars before the end are the same, in the same order.
\<close>

theorem walk_forward_no_lookahead:
  assumes h: "wf_history h" "extended h h'" and c: "1 \<le> c_window cfg" "0 \<le> c_horizon cfg"
    and run: "walk_forward_with cfg ex sim h = Inr rs" "walk_forward_with cfg ex sim h' = Inr rs'"
    and long: "c_window cfg + c_horizon cfg + 1 \<le> h_len h"
  shows "filter (\<lambda>r. r_step r + c_horizon cfg + 1 < h_len h) rs' = filter (\<lambda>r. r_step r + c_horizon cfg + 1 < h_len h) rs"
proof -
  let ?f = "\<lambda>h e. case wf_step cfg ex sim h e of Inr r \<Rightarrow> r | Inl _ \<Rightarrow> None"
  let ?es = "\<lambda>h. range_up (c_window cfg - 1) (h_len h - c_horizon cfg) (c_step cfg)"
  let ?ok = "\<lambda>e. e < h_len h - c_horizon cfg - 1"
  have le: "h_len h \<le> h_len h'" using h_len_extended[OF h(2)] .
  have rs: "rs = List.map_filter (?f h) (?es h)" "rs' = List.map_filter (?f h') (?es h')"
    using run long le wf_steps_Inr[of cfg ex sim] by (auto simp: walk_forward_with_def Let_def split: if_splits)
  have at: "?f g e = Some r \<Longrightarrow> (r_step r + c_horizon cfg + 1 < h_len h) = ?ok e" for g e r
    using wf_step_at[of cfg ex sim g e r] by (auto split: sum.splits)
  have "filter (\<lambda>r. r_step r + c_horizon cfg + 1 < h_len h) rs' = List.map_filter (?f h') (filter ?ok (?es h'))"
    unfolding rs by (rule filter_map_filter[OF at])
  also have "filter ?ok (?es h') = filter ?ok (?es h)"
    using le by (intro range_up_filter) auto
  also have "List.map_filter (?f h') (filter ?ok (?es h)) = List.map_filter (?f h) (filter ?ok (?es h))"
  proof (rule map_filter_cong)
    fix e assume e: "e \<in> set (filter ?ok (?es h))"
    then have "c_window cfg - 1 \<le> e" using range_up_set by auto
    then show "?f h' e = ?f h e" using wf_step_extended[OF h c, of e ex sim] e by simp
  qed
  also have "\<dots> = filter (\<lambda>r. r_step r + c_horizon cfg + 1 < h_len h) rs"
    unfolding rs by (rule filter_map_filter[OF at, symmetric])
  finally show ?thesis .
qed

section \<open>The relaxed tuning\<close>

lemma override_absent: "map_of d n = None \<Longrightarrow> override_all ((n, g, p) # fs) d t = override_all fs d t"
  by simp

lemma override_single:
  "distinct (map fst fs) \<Longrightarrow> (k, g, p) \<in> set fs \<Longrightarrow> p (coerce (g TUNING) v) t = Some t' \<Longrightarrow>
     override_all fs [(k, v)] t = Inr t'"
proof (induction fs)
  case (Cons f fs)
  obtain n g' p' where f: "f = (n, g', p')" by (cases f)
  have none: "override_all fs [(k, v)] u = Inr u" if "k \<notin> fst ` set fs" for u
    using that by (induction fs) (auto split: prod.splits)
  show ?case
  proof (cases "n = k")
    case True
    then have "k \<notin> fst ` set fs" "g' = g" "p' = p" using Cons.prems(1,2) f by force+
    then show ?thesis using Cons.prems(3) none True f by simp
  next
    case False
    then show ?thesis using Cons f by auto
  qed
qed simp

lemma relaxed_tuning:
  assumes "from_dict RELAXED_OVERRIDES = Inr t"
  shows "t = TUNING\<lparr>min_candles := 30\<rparr>"
proof -
  have mem: "(''min_candles'', (\<lambda>t. FInt (min_candles t)), put_Int (\<lambda>v t. t\<lparr>min_candles := v\<rparr>)) \<in> set field_table"
    by (simp add: field_table_def)
  have "distinct (map fst field_table)" using distinct_field_names by (simp add: field_names_def)
  from override_single[OF this mem, of "FInt 30" TUNING]
  have "override_all field_table RELAXED_OVERRIDES TUNING = Inr (TUNING\<lparr>min_candles := 30\<rparr>)"
    by (simp add: RELAXED_OVERRIDES_def)
  then show ?thesis using assms post_init_Inr by (simp add: from_dict_def)
qed

lemma get_tuning_scope: "get_tuning (scope_enter t s) = t"
  by (simp add: get_tuning_def scope_enter_def)

text \<open>Extraction under relaxed filters never reads the caller's tuning.\<close>

lemma extract_relaxed_independent: "extract_signal ind s det interval True w = extract_signal ind s' det interval True w"
proof (cases "from_dict RELAXED_OVERRIDES")
  case (Inl e)
  show ?thesis
    unfolding extract_signal_def Let_def relax_scope_def if_True Inl lift_err_def sum.case ebind.simps ..
next
  case (Inr t)
  show ?thesis
    unfolding extract_signal_def Let_def relax_scope_def if_True Inr lift_err_def sum.case ebind.simps get_tuning_scope ..
qed

lemma walk_forward_independent: "walk_forward ind s detect interval cfg h = walk_forward ind s' detect interval cfg h"
proof -
  have "default_extract ind s detect interval = default_extract ind s' detect interval"
    using extract_relaxed_independent by (auto simp: default_extract_def)
  then show ?thesis by (simp add: walk_forward_def)
qed

section \<open>The weight search does not search\<close>

lemma max_by_const: "(\<And>y. y \<in> set xs \<Longrightarrow> key y = key x) \<Longrightarrow> max_by key x xs = x"
  by (induction xs) auto

lemma eval_all_Inr:
  "eval_all ev ws = Inr os \<Longrightarrow> length os = length ws \<and> (\<forall>i < length ws. ev (ws ! i) = Inr (os ! i))"
proof (induction ws arbitrary: os)
  case (Cons w ws)
  then obtain o1 os' where "ev w = Inr o1" "eval_all ev ws = Inr os'" "os = o1 # os'" by auto
  then show ?case using Cons.IH[of os'] by (auto simp: nth_Cons split: nat.splits)
qed simp

lemma eval_weights_Inr:
  assumes "eval_weights ind s detect interval cfg h w = Inr o1"
  shows "\<exists>rs. walk_forward ind s detect interval cfg h = Inr rs \<and> o1 = eval_outcome w rs"
proof -
  obtain tuned rs where "walk_forward ind (scope_enter tuned s) detect interval cfg h = Inr rs" "o1 = eval_outcome w rs"
    using assms by (auto simp: eval_weights_def)
  then show ?thesis using walk_forward_independent[of ind "scope_enter tuned s" detect interval cfg h s] by auto
qed

text \<open>
  The weight search ignores the weights. The default extraction pushes its own tuning scope over the
  candidate's, so every weight vector gets the same win rate, average R and sample size, and the search
  returns its first candidate, whatever the history.
\<close>

theorem grid_search_returns_first:
  assumes run: "grid_search_weights ind s detect interval h candidates window step horizon = Inr (best, outcomes)"
  shows "candidates \<noteq> [] \<and> best = hd candidates \<and> map o_weights outcomes = candidates
    \<and> (\<exists>rate avg n. map (\<lambda>o1. (o_win_rate o1, o_avg_r o1, o_n o1)) outcomes = replicate (length candidates) (rate, avg, n))"
proof -
  let ?cfg = "grid_cfg window step horizon"
  let ?ev = "eval_weights ind s detect interval ?cfg h"
  obtain os where os: "eval_all ?ev candidates = Inr os"
    and rest: "(case filter (\<lambda>o1. 5 \<le> o_n o1) os of
       [] \<Rightarrow> (case candidates of [] \<Rightarrow> Inl OutOfRange | w # _ \<Rightarrow> Inr (w, os))
     | x # xs \<Rightarrow> Inr (o_weights (max_by outcome_key x xs), os)) = Inr (best, outcomes)"
    using run unfolding grid_search_weights_def ebind_eq_Inr by blast
  from rest have same_os: "os = outcomes"
    by (cases "filter (\<lambda>o1. 5 \<le> o_n o1) os"; cases candidates) auto
  note rest = rest[unfolded same_os]
  note ev = eval_all_Inr[OF os[unfolded same_os]]
  have ne: "candidates \<noteq> []" using os rest same_os by (cases candidates) auto
  then have "?ev (candidates ! 0) = Inr (outcomes ! 0)" using ev by auto
  then obtain rs where rs: "walk_forward ind s detect interval ?cfg h = Inr rs"
    using eval_weights_Inr by blast
  have each: "outcomes ! i = eval_outcome (candidates ! i) rs" if "i < length candidates" for i
    using ev that eval_weights_Inr[of ind s detect interval ?cfg h "candidates ! i" "outcomes ! i"] rs by auto
  have outs: "outcomes = map (\<lambda>w. eval_outcome w rs) candidates"
    using ev each by (intro nth_equalityI) auto
  have w: "o_weights (eval_outcome w rs) = w" for w by (simp add: eval_outcome_def Let_def)
  define o1 where "o1 = eval_outcome [] rs"
  have same: "(o_win_rate (eval_outcome w rs), o_avg_r (eval_outcome w rs), o_n (eval_outcome w rs))
      = (o_win_rate o1, o_avg_r o1, o_n o1)" for w
    by (simp add: eval_outcome_def o1_def Let_def)
  obtain c cs where c: "candidates = c # cs" using ne by (cases candidates) auto
  have "best = c"
  proof (cases "5 \<le> o_n o1")
    case True
    then have keep: "filter (\<lambda>o1. 5 \<le> o_n o1) outcomes = outcomes" using same by (auto simp: outs filter_id_conv)
    have "max_by outcome_key (eval_outcome c rs) (map (\<lambda>w. eval_outcome w rs) cs) = eval_outcome c rs"
      using same by (intro max_by_const) (auto simp: outcome_key_def)
    then show ?thesis using rest keep by (simp add: outs c w)
  next
    case False
    then have "filter (\<lambda>o1. 5 \<le> o_n o1) outcomes = []" using same by (auto simp: outs filter_empty_conv)
    then show ?thesis using rest by (simp add: c)
  qed
  moreover have "map (\<lambda>o1. (o_win_rate o1, o_avg_r o1, o_n o1)) outcomes
      = replicate (length candidates) (o_win_rate o1, o_avg_r o1, o_n o1)"
    using same by (simp add: outs map_replicate_const[symmetric] comp_def)
  ultimately show ?thesis using ne w by (auto simp: outs c comp_def)
qed

section \<open>Long signals are never traded\<close>

lemma score_patched:
  assumes "build_signal_patched ind tun f interval cs dv = Inr (Some sg)"
  obtains ctx c where "prepare_score_context ind tun f interval dv None = Inr (Some ctx)" "c \<in> set cs"
    "score_candidate ind tun ctx c ''standard'' = Inr (Some sg)"
proof -
  obtain ctx scored where p: "prepare_score_context ind tun f interval dv None = Inr (Some ctx)"
    "score_all ind tun ctx ''standard'' cs = Inr scored" "apply_stability tun f (rank_signals scored) None = Some sg"
    using assms by (auto simp: build_signal_patched_def split: if_splits option.splits)
  have "rank_signals scored = Some sg" using p(3) by (auto simp: apply_stability_def split: option.splits)
  then show ?thesis using score_all_mem[OF p(2) rank_signals_mem] p(1) that by blast
qed

lemma extract_long_geometry:
  assumes "extract_signal ind s det interval True w = Inr (Some sg)"
  shows "sg_targets sg \<noteq> [] \<and> (sg_direction sg = LONG \<longrightarrow> sg_stop sg < target_price (sg_targets sg ! 0))"
proof -
  obtain t f cs where t: "from_dict RELAXED_OVERRIDES = Inr t"
    and built: "build_signal_patched ind t f interval cs (det_divs det) = Inr (Some sg)"
    using assms
    by (auto simp: extract_signal_def relax_scope_def lift_err_def drop_violation_def get_tuning_scope Let_def
        split: if_splits option.splits sum.splits signal_error.splits)
  obtain ctx c where ctx: "prepare_score_context ind t f interval (det_divs det) None = Inr (Some ctx)"
    and sc: "score_candidate ind t ctx c ''standard'' = Inr (Some sg)"
    by (rule score_patched[OF built])
  have "fl (3 / 10) \<ge> 0" by (rule fl_nonneg) simp
  then have pos: "\<forall>(k, b) \<in> set (atr_stop_buffer t). 0 \<le> b"
    by (simp add: relaxed_tuning[OF t] TUNING_fields)
  obtain t1 t2 t3 where g: "map target_price (sg_targets sg) = [t1, t2, t3]" "sg_direction sg = cand_direction c"
    "if bullish c then sg_stop sg < candidate_entry ctx c \<and> candidate_entry ctx c \<le> t1 else True"
    using scored_geometry[OF sc prepare_hatch[OF ctx] pos] by (auto split: if_splits)
  then have "sg_targets sg \<noteq> []" "target_price (sg_targets sg ! 0) = t1" by (auto simp: map_eq_Cons_conv)
  then show ?thesis using g by (auto simp: cand_direction_def split: if_splits)
qed

lemma sim_direction_short: "sim_direction sg = SHORT"
  by (cases "sg_direction sg") (simp_all add: sim_direction_def)

lemma simulate_long_skipped:
  assumes "sg_targets sg \<noteq> []" "sg_stop sg < target_price (sg_targets sg ! 0)"
  shows "simulate_one rows sg price entry None = skipped"
  using assms by (auto simp: simulate_one_def sim_direction_short Let_def)

text \<open>
  Every long signal is skipped. The forward simulation compares the signal's direction with the word
  bullish, while the engine writes long or short, so every signal is simulated as a short: whatever the
  history, the detector and the settings, each long record of the backtest is skipped with 0 R.
\<close>

theorem walk_forward_skips_longs:
  assumes run: "walk_forward ind s detect interval cfg h = Inr rs"
  shows "\<forall>r \<in> set rs. r_direction r = LONG \<longrightarrow> r_result r = WfSkipped \<and> r_r r = 0"
proof (intro ballI impI)
  fix r assume r: "r \<in> set rs" and long: "r_direction r = LONG"
  let ?ex = "default_extract ind s detect interval"
  let ?sim = "\<lambda>rows sg price entry. simulate_one rows sg price entry None"
  obtain e where step: "wf_step cfg ?ex ?sim h e = Inr (Some r)"
    using walk_forward_mem[OF run[unfolded walk_forward_def] r] by blast
  obtain sg price entry ts where sg: "?ex (wf_window cfg h e) = Inr (Some sg)"
    and rec: "r = make_record cfg e ts sg price (simulate_one (rows_of (wf_ahead cfg h e)) sg (Some price) entry None)"
    using step by (auto simp: wf_step_def Let_def split: option.splits if_splits)
  have "sg_direction sg = LONG" using long by (simp add: rec make_record_def)
  then have "simulate_one (rows_of (wf_ahead cfg h e)) sg (Some price) entry None = skipped"
    using extract_long_geometry sg unfolding default_extract_def by (intro simulate_long_skipped) blast+
  then show "r_result r = WfSkipped \<and> r_r r = 0" by (simp add: rec make_record_def skipped_def)
qed

section \<open>The steps visited\<close>

lemma length_range_up: "0 < step \<Longrightarrow> int (length (range_up a b step)) * step < b - a + step \<or> range_up a b step = []"
proof (induction a b step rule: range_up.induct)
  case (1 a b step)
  show ?case
  proof (cases "a < b")
    case True
    have unf: "range_up a b step = a # range_up (a + step) b step"
      using 1(2) True by (subst range_up.simps) simp
    have "int (length (range_up (a + step) b step)) * step < b - (a + step) + step \<or> range_up (a + step) b step = []"
      using 1 True by blast
    then show ?thesis using True 1(2) by (auto simp: unf algebra_simps)
  qed (subst range_up.simps, simp)
qed

lemma wf_steps_sorted:
  "wf_steps cfg ex sim h es = Inr rs \<Longrightarrow> sorted_wrt (<) es \<Longrightarrow>
     sorted_wrt (<) (map r_step rs) \<and> set (map r_step rs) \<subseteq> set es \<and> length rs \<le> length es"
proof (induction es arbitrary: rs)
  case (Cons e es)
  obtain r rs' where *: "wf_step cfg ex sim h e = Inr r" "wf_steps cfg ex sim h es = Inr rs'"
    "rs = (case r of None \<Rightarrow> rs' | Some x \<Rightarrow> x # rs')" using Cons.prems(1) by auto
  have IH: "sorted_wrt (<) (map r_step rs')" "set (map r_step rs') \<subseteq> set es" "length rs' \<le> length es"
    using Cons.IH[OF *(2)] Cons.prems(2) by auto
  then show ?case using * Cons.prems(2) wf_step_at[of cfg ex sim h e] by (cases r) (auto simp: subset_iff)
qed simp

text \<open>
  C14: The walk ends. With a positive step the backtest visits strictly increasing window ends from
  \<open>window - 1\<close>, \<open>step\<close> apart, each with a full window behind it and at least \<open>horizon\<close> bars
  ahead, and produces at most one record per step: fewer than (bars - window - horizon + 1) / step + 1.
\<close>

theorem walk_forward_steps:
  assumes run: "walk_forward_with cfg ex sim h = Inr rs" and step: "0 < c_step cfg"
  shows "sorted_wrt (<) (map r_step rs)
    \<and> (\<forall>r \<in> set rs. \<exists>k. r_step r = c_window cfg - 1 + int k * c_step cfg \<and> r_step r + c_horizon cfg < h_len h)
    \<and> (rs = [] \<or> int (length rs) * c_step cfg < h_len h - c_window cfg - c_horizon cfg + 1 + c_step cfg)"
proof (cases "rs = []")
  case False
  let ?es = "range_up (c_window cfg - 1) (h_len h - c_horizon cfg) (c_step cfg)"
  have "wf_steps cfg ex sim h ?es = Inr rs"
    using run False by (auto simp: walk_forward_with_def Let_def split: if_splits)
  note st = wf_steps_sorted[OF this range_up_sorted]
  have "?es \<noteq> []" using st False by auto
  then have len: "int (length ?es) * c_step cfg < h_len h - c_horizon cfg - (c_window cfg - 1) + c_step cfg"
    using length_range_up[OF step, of "c_window cfg - 1" "h_len h - c_horizon cfg"] by auto
  have "int (length rs) * c_step cfg \<le> int (length ?es) * c_step cfg"
    using st step by (intro mult_right_mono) auto
  then have "int (length rs) * c_step cfg < h_len h - c_window cfg - c_horizon cfg + 1 + c_step cfg"
    using len by linarith
  moreover have "\<forall>r \<in> set rs. \<exists>k. r_step r = c_window cfg - 1 + int k * c_step cfg \<and> r_step r + c_horizon cfg < h_len h"
  proof
    fix r assume "r \<in> set rs"
    then have "r_step r \<in> set ?es" using st by auto
    from range_up_set[OF this] show "\<exists>k. r_step r = c_window cfg - 1 + int k * c_step cfg \<and> r_step r + c_horizon cfg < h_len h"
      by auto
  qed
  ultimately show ?thesis using st by blast
qed simp

section \<open>The report\<close>

lemma count_wf_split: "count_wf WfWin rs + count_wf WfLoss rs + count_wf WfScratch rs + count_wf WfSkipped rs = int (length rs)"
proof (induction rs)
  case (Cons r rs)
  then show ?case by (cases "r_result r") (auto simp: count_wf_def)
qed (simp add: count_wf_def)

text \<open>The grouping, against its specification: one bucket per key, in order of appearance, each with its counts.\<close>

definition group_count :: "(wf_record \<Rightarrow> bool) \<Rightarrow> wf_record list \<Rightarrow> int" where
  "group_count P rs = int (length (filter P rs))"

lemma map_of_update: "map_of (AList.update k v d) = (map_of d)(k \<mapsto> v)"
  by (simp add: update_conv')

lemma bucket_by_spec:
  "map_option b_count (map_of (bucket_by key rs d) k) =
     (case map_of d k of None \<Rightarrow> if k \<in> key ` set rs then Some (group_count (\<lambda>r. key r = k) rs) else None
      | Some b \<Rightarrow> Some (b_count b + group_count (\<lambda>r. key r = k) rs))"
  "map_option b_wins (map_of (bucket_by key rs d) k) =
     (case map_of d k of None \<Rightarrow> if k \<in> key ` set rs then Some (group_count (\<lambda>r. key r = k \<and> r_result r = WfWin) rs) else None
      | Some b \<Rightarrow> Some (b_wins b + group_count (\<lambda>r. key r = k \<and> r_result r = WfWin) rs))"
  "map_option b_losses (map_of (bucket_by key rs d) k) =
     (case map_of d k of None \<Rightarrow> if k \<in> key ` set rs then Some (group_count (\<lambda>r. key r = k \<and> r_result r = WfLoss) rs) else None
      | Some b \<Rightarrow> Some (b_losses b + group_count (\<lambda>r. key r = k \<and> r_result r = WfLoss) rs))"
  by (induction rs arbitrary: d)
     (auto simp: group_count_def map_of_update bump_def empty_bucket_def get_default_def split: option.splits)

text \<open>
  The report adds up. The four outcome counts partition the records, the win rate is a share in [0, 1] of
  the decided trades, and the breakdowns by grade and by family have one bucket per value that occurs, with
  exactly its records, wins and losses.
\<close>

theorem aggregate_records_exact:
  "w_wins (aggregate_records rs) + w_losses (aggregate_records rs) + w_scratches (aggregate_records rs)
      + w_skipped (aggregate_records rs) = w_total (aggregate_records rs)
   \<and> w_total (aggregate_records rs) = int (length rs)
   \<and> 0 \<le> w_win_rate (aggregate_records rs) \<and> w_win_rate (aggregate_records rs) \<le> 1
   \<and> map_option b_count (map_of (w_by_grade (aggregate_records rs)) g) =
       (if g \<in> r_grade ` set rs then Some (group_count (\<lambda>r. r_grade r = g) rs) else None)
   \<and> map_option b_wins (map_of (w_by_family (aggregate_records rs)) fam) =
       (if fam \<in> r_family ` set rs then Some (group_count (\<lambda>r. r_family r = fam \<and> r_result r = WfWin) rs) else None)
   \<and> map_option b_losses (map_of (w_by_family (aggregate_records rs)) fam) =
       (if fam \<in> r_family ` set rs then Some (group_count (\<lambda>r. r_family r = fam \<and> r_result r = WfLoss) rs) else None)"
proof -
  let ?w = "count_wf WfWin rs" and ?l = "count_wf WfLoss rs"
  have nn: "0 \<le> ?w" "0 \<le> ?l" by (simp_all add: count_wf_def)
  have rate: "0 \<le> fdiv (of_int ?w) (of_int (?w + ?l))" "fdiv (of_int ?w) (of_int (?w + ?l)) \<le> 1"
    if "?w + ?l \<noteq> 0"
  proof -
    have pos: "(0 :: rat) < of_int (?w + ?l)" unfolding of_int_0_less_iff using that nn by linarith
    show "0 \<le> fdiv (of_int ?w) (of_int (?w + ?l))" using nn by (intro fdiv_nonneg) simp_all
    have "(of_int ?w :: rat) \<le> of_int (?w + ?l)" unfolding of_int_le_iff using nn by simp
    then show "fdiv (of_int ?w) (of_int (?w + ?l)) \<le> 1"
      using pos by (intro fdiv_le_float) (simp_all only: pos_divide_le_eq, simp_all)
  qed
  have f: "w_wins (aggregate_records rs) = ?w" "w_losses (aggregate_records rs) = ?l"
    "w_scratches (aggregate_records rs) = count_wf WfScratch rs" "w_skipped (aggregate_records rs) = count_wf WfSkipped rs"
    "w_total (aggregate_records rs) = int (length rs)"
    "w_win_rate (aggregate_records rs) = (if ?w + ?l \<noteq> 0 then fdiv (of_int ?w) (of_int (?w + ?l)) else 0)"
    "w_by_grade (aggregate_records rs) = bucket_by r_grade rs []"
    "w_by_family (aggregate_records rs) = bucket_by r_family rs []"
    by (simp_all add: aggregate_records_def Let_def)
  show ?thesis
    unfolding f using count_wf_split[of rs] rate
    by (intro conjI; (simp only: bucket_by_spec map_of.simps option.case)?) simp_all
qed

section \<open>Example runs\<close>

text \<open>A detector that always reports the same signal, over six bars.\<close>

definition demo_wf_cfg :: wf_config where
  "demo_wf_cfg = \<lparr>c_window = 2, c_step = 1, c_horizon = 1, c_offset = ''close'', c_entry_mode = ''market'', c_min_grade = None\<rparr>"

definition flat_bar :: "rat \<Rightarrow> bar" where
  "flat_bar x = \<lparr>bopen = x, bhigh = x, blow = x, bclose = x, bvol = 1\<rparr>"

definition demo_history :: "rat list \<Rightarrow> history" where
  "demo_history xs = \<lparr>h_frame = \<lparr>f_bars = map flat_bar xs, f_close_time = Some (map int [0 ..< length xs]), f_dts = True\<rparr>,
     h_index = map int [0 ..< length xs]\<rparr>"

definition always :: extractor where
  "always w = Inr (Some (demo_signal GradeA 80))"

definition never_traded :: forward_sim where
  "never_traded rows sg price entry = skipped"

lemma demo_run_steps: "\<exists>rs. walk_forward_with demo_wf_cfg always never_traded (demo_history [1, 2, 3, 4]) = Inr rs
    \<and> map r_step rs = [1, 2]"
  "\<exists>rs. walk_forward_with demo_wf_cfg always never_traded (demo_history [1, 2, 3, 4, 5]) = Inr rs \<and> map r_step rs = [1, 2, 3]"
proof -
  have r: "range_up 1 3 1 = [1, 2]" "range_up 1 4 1 = [1, 2, 3]" by (simp_all add: range_up.simps)
  show "\<exists>rs. walk_forward_with demo_wf_cfg always never_traded (demo_history [1, 2, 3, 4]) = Inr rs \<and> map r_step rs = [1, 2]"
    "\<exists>rs. walk_forward_with demo_wf_cfg always never_traded (demo_history [1, 2, 3, 4, 5]) = Inr rs \<and> map r_step rs = [1, 2, 3]"
    by (simp_all add: walk_forward_with_def demo_wf_cfg_def h_len_def demo_history_def r wf_step_def always_def
        below_min_grade_def wf_window_def window_of_def sub_frame_def py_slice_def slice_bound_def py_index_def
        signal_time_def make_record_def Let_def upt_rec)
qed

theorem walk_forward_no_lookahead_witness:
  "\<exists>rs rs'. walk_forward_with demo_wf_cfg always never_traded (demo_history [1, 2, 3, 4]) = Inr rs
     \<and> walk_forward_with demo_wf_cfg always never_traded (demo_history [1, 2, 3, 4, 5]) = Inr rs'
     \<and> map r_step rs = [1, 2] \<and> map r_step rs' = [1, 2, 3]
     \<and> filter (\<lambda>r. r_step r + 1 + 1 < 4) rs' = filter (\<lambda>r. r_step r + 1 + 1 < 4) rs"
proof -
  obtain rs where rs: "walk_forward_with demo_wf_cfg always never_traded (demo_history [1, 2, 3, 4]) = Inr rs"
      "map r_step rs = [1, 2]"
    by (rule exE[OF demo_run_steps(1)], erule conjE) (rule that)
  obtain rs' where rs': "walk_forward_with demo_wf_cfg always never_traded (demo_history [1, 2, 3, 4, 5]) = Inr rs'"
      "map r_step rs' = [1, 2, 3]"
    by (rule exE[OF demo_run_steps(2)], erule conjE) (rule that)
  have h: "wf_history (demo_history [1, 2, 3, 4])" by (simp add: wf_history_def demo_history_def)
  have ext: "extended (demo_history [1, 2, 3, 4]) (demo_history [1, 2, 3, 4, 5])"
    unfolding extended_def by (rule exI[of _ "[flat_bar 5]"], rule exI[of _ "[4]"], rule exI[of _ "[4]"])
      (simp add: demo_history_def upt_rec)
  have n: "h_len (demo_history [1, 2, 3, 4]) = 4" by (simp add: h_len_def demo_history_def)
  have "filter (\<lambda>r. r_step r + c_horizon demo_wf_cfg + 1 < h_len (demo_history [1, 2, 3, 4])) rs'
      = filter (\<lambda>r. r_step r + c_horizon demo_wf_cfg + 1 < h_len (demo_history [1, 2, 3, 4])) rs"
    by (rule walk_forward_no_lookahead[OF h ext _ _ rs(1) rs'(1)]) (simp_all add: demo_wf_cfg_def n)
  moreover have "c_horizon demo_wf_cfg = 1" by (simp add: demo_wf_cfg_def)
  ultimately have "filter (\<lambda>r. r_step r + 1 + 1 < 4) rs' = filter (\<lambda>r. r_step r + 1 + 1 < 4) rs"
    by (simp only: n)
  then show ?thesis using rs rs' by (intro exI[of _ rs] exI[of _ rs'] conjI)
qed

theorem walk_forward_steps_witness:
  "\<exists>rs. walk_forward_with demo_wf_cfg always never_traded (demo_history [1, 2, 3, 4]) = Inr rs
     \<and> rs \<noteq> [] \<and> sorted_wrt (<) (map r_step rs)"
proof -
  obtain rs where rs: "walk_forward_with demo_wf_cfg always never_traded (demo_history [1, 2, 3, 4]) = Inr rs" "map r_step rs = [1, 2]"
    by (rule exE[OF demo_run_steps(1)], erule conjE) (rule that)
  have "sorted_wrt (<) (map r_step rs)"
    by (rule walk_forward_steps[OF rs(1), THEN conjunct1]) (simp add: demo_wf_cfg_def)
  moreover have "rs \<noteq> []" using rs(2) by auto
  ultimately show ?thesis using rs(1) by (intro exI[of _ rs] conjI)
qed

definition blank :: "history \<Rightarrow> detection" where
  "blank w = \<lparr>det_found = False, det_assessment = ([], []), det_divs = []\<rparr>"

definition fresh :: tuning_state where
  "fresh = \<lparr>applied = None, scopes = []\<rparr>"

lemma demo_blank: "walk_forward demo_ind s blank ''1h'' demo_wf_cfg (demo_history [1, 2, 3, 4]) = Inr []"
proof -
  have r: "range_up 1 3 1 = [1, 2]" by (simp add: range_up.simps)
  show ?thesis
    by (simp add: walk_forward_def walk_forward_with_def demo_wf_cfg_def h_len_def demo_history_def r wf_step_def
        default_extract_def extract_signal_def blank_def)
qed

lemma tuning_same_weights: "TUNING\<lparr>confluence_weights := confluence_weights TUNING\<rparr> = TUNING"
  by (cases TUNING) simp

theorem grid_search_returns_first_witness:
  "\<exists>outcomes. grid_search_weights demo_ind fresh blank ''1h'' (demo_history [1, 2, 3, 4]) [confluence_weights TUNING] 2 1 1
     = Inr (confluence_weights TUNING, outcomes) \<and> map o_weights outcomes = [confluence_weights TUNING]"
proof -
  have cfg: "grid_cfg 2 1 1 = demo_wf_cfg" by (simp add: grid_cfg_def demo_wf_cfg_def)
  have "eval_weights demo_ind fresh blank ''1h'' demo_wf_cfg (demo_history [1, 2, 3, 4]) (confluence_weights TUNING)
      = Inr (eval_outcome (confluence_weights TUNING) [])"
    using TUNING_valid by (simp add: eval_weights_def tuning_same_weights valid_tuning_def lift_err_def demo_blank)
  then obtain best outcomes where run: "grid_search_weights demo_ind fresh blank ''1h'' (demo_history [1, 2, 3, 4])
      [confluence_weights TUNING] 2 1 1 = Inr (best, outcomes)"
    by (simp add: grid_search_weights_def cfg eval_outcome_def count_wf_def)
  from grid_search_returns_first[OF run] run show ?thesis by auto
qed

theorem walk_forward_skips_longs_witness:
  "\<exists>rs. walk_forward demo_ind fresh blank ''1h'' demo_wf_cfg (demo_history [1, 2, 3, 4]) = Inr rs
     \<and> (\<forall>r \<in> set rs. r_direction r = LONG \<longrightarrow> r_result r = WfSkipped)"
  using walk_forward_skips_longs[OF demo_blank[of fresh]] demo_blank[of fresh] by blast

text \<open>
  The same long signal, filled at 100 with stop 90 and target 110 on bars that reach the target: the
  simulator wins it, the backtest skips it.
\<close>

lemma long_win_is_skipped:
  "map_sum id (map t_result) (simulate_trades demo_rows LONG 100 90 110 None) = Inr [Win, Scratch]"
  "simulate_one demo_rows (demo_signal GradeA 80\<lparr>sg_stop := 90,
     sg_targets := [\<lparr>target_label = ''TP1'', target_price = 110, fib_basis = [], close_pct = 50, move_stop_to = []\<rparr>]\<rparr>)
     (Some 100) None None = skipped"
proof -
  obtain ts where "simulate_trades demo_rows LONG 100 90 110 None = Inr ts" "map t_result ts = [Win, Scratch]"
    using TradeSim.demo_run by auto
  then show "map_sum id (map t_result) (simulate_trades demo_rows LONG 100 90 110 None) = Inr [Win, Scratch]" by simp
  show "simulate_one demo_rows (demo_signal GradeA 80\<lparr>sg_stop := 90,
     sg_targets := [\<lparr>target_label = ''TP1'', target_price = 110, fib_basis = [], close_pct = 50, move_stop_to = []\<rparr>]\<rparr>)
     (Some 100) None None = skipped"
    by (rule simulate_long_skipped) simp_all
qed

end
