(* ===== verification/BenchRecord.thy ===== *)
theory BenchRecord
  imports TradeSim "HOL-Library.List_Lexorder" "HOL-Library.Char_ord"
begin

text \<open>
  \<^verbatim>\<open>bench/dataset\<close>: the row type of the benchmark, and its in-sample / out-of-sample split. The functions
  of the source mutate the records of a list in place; here they return the list with every record updated.
  \<open>rec.r_multiple\<close> is no field of the class: stage 2 creates the attribute, \<open>sr_r_multiple\<close> is \<open>None\<close> before.
\<close>

section \<open>The record\<close>

datatype outcome = OutTp3 | OutTp2 | OutTp1 | OutBreakeven | OutStoploss | OutExpired | OutIncomplete

datatype split = SplitIs | SplitOos

record signal_record =
  sr_signal_id :: string
  sr_run_id :: string
  sr_params_sha :: string
  sr_timestamp :: string
  sr_symbol :: string
  sr_timeframe :: string
  sr_pattern_type :: string
  sr_pattern_family :: string
  sr_direction :: direction
  sr_grade :: grade_label
  sr_entry_price :: rat
  sr_stop_price :: rat
  sr_tp1 :: "rat option"
  sr_tp2 :: rat
  sr_tp3 :: rat
  sr_atr_at_entry :: rat
  sr_prz_width_atr :: rat
  sr_entry_offset_atr :: rat
  sr_confluence_score :: rat
  sr_pattern_base_score :: rat
  sr_stability_verdict :: string
  sr_regime :: string
  sr_volume_authenticity_score :: rat
  sr_outcome :: "outcome option"
  sr_net_rr :: "rat option"
  sr_bars_held :: "int option"
  sr_exit_price :: "rat option"
  sr_exit_reason :: "string option"
  sr_mae :: "rat option"
  sr_mfe :: "rat option"
  sr_mae_atr_ratio :: "rat option"
  sr_mfe_atr_ratio :: "rat option"
  sr_callback_depth :: "rat option"
  sr_callback_bars :: "int option"
  sr_callback_volume_ratio :: "rat option"
  sr_hit_stop_before_tp :: "bool option"
  sr_stop_zone_touches :: "int option"
  sr_price_efficiency :: "rat option"
  sr_split :: "split option"
  sr_crosses_boundary :: bool
  sr_boundary_distance_bars :: "int option"
  sr_weak_validity :: bool
  sr_ai_score :: "rat option"
  sr_ai_reasoning :: "string option"
  sr_ai_agreement :: "string option"
  sr_ai_confidence :: "rat option"
  sr_ai_degraded :: bool
  sr_stage1_score :: "rat option"
  sr_stage3_score :: "rat option"
  sr_stage4a_score :: "rat option"
  sr_stage4b_score :: "rat option"
  sr_stage4c_score :: "rat option"
  sr_signal_score :: "rat option"
  sr_config_score :: "rat option"
  sr_bench_total :: "rat option"
  sr_r_multiple :: "rat option option"

definition empty_record :: signal_record where
  "empty_record = \<lparr>sr_signal_id = ''sid_test'', sr_run_id = ''rid_test'', sr_params_sha = ''paramsha_test'',
     sr_timestamp = ''2026-07-30T00:00:00Z'', sr_symbol = ''BTCUSDT'', sr_timeframe = ''4h'',
     sr_pattern_type = ''gartley'', sr_pattern_family = ''XABCD'', sr_direction = LONG, sr_grade = GradeC,
     sr_entry_price = 100, sr_stop_price = 95, sr_tp1 = Some 110, sr_tp2 = 115, sr_tp3 = 120,
     sr_atr_at_entry = 2, sr_prz_width_atr = fl (3 / 10), sr_entry_offset_atr = 0,
     sr_confluence_score = 0, sr_pattern_base_score = 0, sr_stability_verdict = [], sr_regime = [],
     sr_volume_authenticity_score = 0,
     sr_outcome = None, sr_net_rr = None, sr_bars_held = None, sr_exit_price = None, sr_exit_reason = None,
     sr_mae = None, sr_mfe = None, sr_mae_atr_ratio = None, sr_mfe_atr_ratio = None, sr_callback_depth = None,
     sr_callback_bars = None, sr_callback_volume_ratio = None, sr_hit_stop_before_tp = None,
     sr_stop_zone_touches = None, sr_price_efficiency = None,
     sr_split = None, sr_crosses_boundary = False, sr_boundary_distance_bars = None, sr_weak_validity = False,
     sr_ai_score = None, sr_ai_reasoning = None, sr_ai_agreement = None, sr_ai_confidence = None, sr_ai_degraded = False,
     sr_stage1_score = None, sr_stage3_score = None, sr_stage4a_score = None, sr_stage4b_score = None,
     sr_stage4c_score = None, sr_signal_score = None, sr_config_score = None, sr_bench_total = None,
     sr_r_multiple = None\<rparr>"

text \<open>What the functions of the package raise.\<close>

datatype bench_error =
    BadTotalBars | BadRatio | NoHorizon | BadHorizon
  | NoTarget | NoPrices | EmptyFrame | NonPositivePrice | NonPositiveAtr | NegativeZone | LongOrder | ShortOrder
  | NoPosition | EngineError bt_error
  | GradeKey | NoneCompared
  | BadSuccesses | BadAlpha | AlphaNotTabled | BadPValue

section \<open>The split\<close>

definition split_boundary :: "int \<Rightarrow> rat \<Rightarrow> bench_error + int" where
  "split_boundary total_bars is_ratio =
     check (0 < total_bars) BadTotalBars
       (check (0 < is_ratio \<and> is_ratio < 1) BadRatio (Inr (py_int (fmul (of_int total_bars) is_ratio))))"

definition assign_one :: "(string \<times> int) list \<Rightarrow> int \<Rightarrow> signal_record \<Rightarrow> signal_record" where
  "assign_one bar_index_of boundary rec =
     (case map_of bar_index_of (sr_signal_id rec) of
        None \<Rightarrow> rec
      | Some idx \<Rightarrow> rec\<lparr>sr_split := Some (if idx \<le> boundary then SplitIs else SplitOos)\<rparr>)"

definition assign_split :: "signal_record list \<Rightarrow> (string \<times> int) list \<Rightarrow> int \<Rightarrow> signal_record list \<times> int" where
  "assign_split records bar_index_of boundary =
     (map (assign_one bar_index_of boundary) records,
      int (length (filter (\<lambda>r. map_of bar_index_of (sr_signal_id r) \<noteq> None) records)))"

text \<open>\<open>h\<close> of one record: from \<open>horizon_of\<close> when that is given, else the uniform horizon.\<close>

definition horizon_for :: "int option \<Rightarrow> (string \<times> int) list option \<Rightarrow> signal_record \<Rightarrow> int option" where
  "horizon_for horizon horizon_of rec =
     (case horizon_of of Some d \<Rightarrow> map_of d (sr_signal_id rec) | None \<Rightarrow> horizon)"

definition clear_crossing :: "signal_record \<Rightarrow> signal_record" where
  "clear_crossing rec = rec\<lparr>sr_crosses_boundary := False, sr_boundary_distance_bars := None\<rparr>"

definition mark_crossing ::
    "(string \<times> int) list \<Rightarrow> int \<Rightarrow> int option \<Rightarrow> (string \<times> int) list option \<Rightarrow> signal_record \<Rightarrow> signal_record" where
  "mark_crossing bar_index_of boundary horizon horizon_of rec =
     (case map_of bar_index_of (sr_signal_id rec) of
        None \<Rightarrow> clear_crossing rec
      | Some idx \<Rightarrow>
          (case horizon_for horizon horizon_of rec of
             None \<Rightarrow> clear_crossing rec
           | Some h \<Rightarrow>
               if h \<le> 0 then clear_crossing rec
               else let exit_bar = idx + h - 1
                    in if idx \<le> boundary \<and> boundary < exit_bar
                       then rec\<lparr>sr_crosses_boundary := True, sr_boundary_distance_bars := Some (exit_bar - boundary)\<rparr>
                       else clear_crossing rec))"

definition find_boundary_crossings ::
    "signal_record list \<Rightarrow> (string \<times> int) list \<Rightarrow> int \<Rightarrow> int option \<Rightarrow> (string \<times> int) list option
     \<Rightarrow> bench_error + signal_record list \<times> int" where
  "find_boundary_crossings records bar_index_of boundary horizon horizon_of =
     check (horizon_of \<noteq> None \<or> horizon \<noteq> None) NoHorizon
       (check (\<not> (horizon_of = None \<and> (case horizon of None \<Rightarrow> False | Some h \<Rightarrow> h \<le> 0))) BadHorizon
         (let rs = map (mark_crossing bar_index_of boundary horizon horizon_of) records
          in Inr (rs, int (length (filter sr_crosses_boundary rs)))))"

definition boundary_discount :: "signal_record \<Rightarrow> int \<Rightarrow> rat" where
  "boundary_discount rec horizon =
     (if \<not> sr_crosses_boundary rec then 1
      else case sr_boundary_distance_bars rec of
        None \<Rightarrow> 1
      | Some n \<Rightarrow>
          if horizon \<le> 0 then 1
          else let discount = fsub 1 (fdiv (of_int n) (of_int horizon)) in if discount < 0 then 0 else discount)"

definition partition_by_split :: "signal_record list \<Rightarrow> signal_record list \<times> signal_record list" where
  "partition_by_split records =
     (filter (\<lambda>r. sr_split r = Some SplitIs) records, filter (\<lambda>r. sr_split r = Some SplitOos) records)"

section \<open>The boundary lies inside the data\<close>

text \<open>The floats below 1 keep a distance from it.\<close>

lemma flog2_half: "1 / 2 \<le> x \<Longrightarrow> x < 1 \<Longrightarrow> flog2 x = - 1"
proof -
  assume h: "1 / 2 \<le> x" and x: "x < 1"
  have pos: "0 < x" using h by simp
  have b: "2 powi flog2 x \<le> x" "x < 2 powi (flog2 x + 1)" using flog2_bounds[OF pos] by auto
  have "(2 powi flog2 x :: rat) < 2 powi 0" using b(1) x by simp
  moreover have "(2 powi (- 1) :: rat) < 2 powi (flog2 x + 1)" using b(2) h by (simp add: power_int_minus)
  ultimately show ?thesis using powi_less_imp[of "flog2 x" 0] powi_less_imp[of "- 1" "flog2 x + 1"] by linarith
qed

lemma float_below_one: 
  assumes fx: "is_float x" and x: "x < 1"
  shows "x \<le> 1 - 1 / 2 ^ 53"
proof (cases "1 / 2 \<le> x")
  case True
  define k where "k = rhe (x / 2 powi fexp x)"
  have e: "fexp x = - 53" using flog2_half[OF True x] True by (simp add: fexp_def)
  have "x = of_int k * 2 powi (- 53)"
    using fx True unfolding is_float_def fl_def k_def e by auto
  then have xk: "x = of_int k / 2 ^ 53" by (simp only: power_int_minus divide_inverse) simp
  then have "(of_int k :: rat) < of_int (2 ^ 53)" using x by simp
  then have "k < 2 ^ 53" by (simp only: of_int_less_iff)
  then have "k \<le> 2 ^ 53 - 1" by simp
  then have "(of_int k :: rat) \<le> of_int (2 ^ 53 - 1)" by (simp only: of_int_le_iff)
  then have "x \<le> of_int (2 ^ 53 - 1) / 2 ^ 53" unfolding xk by (rule divide_right_mono) simp
  then show ?thesis by (simp add: field_simps)
next
  case False
  have "(1 / 2 :: rat) \<le> 1 - 1 / 2 ^ 53" by simp
  then show ?thesis using False by linarith
qed

lemma is_float_below_one: "is_float (1 - 1 / 2 ^ 53)" and is_float_eps: "is_float (1 / 2 ^ 53)"
proof -
  have eq: "(1 - 1 / 2 ^ 53 :: rat) = of_int (2 ^ 53 - 1) / 2 ^ 53" by (simp add: field_simps)
  have "fl (of_int (2 ^ 53 - 1) / 2 ^ 53) = of_int (2 ^ 53 - 1) / 2 ^ 53" by (rule fl_dyadic) simp_all
  then show "is_float (1 - 1 / 2 ^ 53)" unfolding is_float_def eq .
  show "is_float (1 / 2 ^ 53)" using fl_dyadic[of 1 53] by (simp add: is_float_def)
qed

lemma fl_below: 
  assumes x: "0 < x" and n: "1 \<le> n" and le: "x \<le> n * (1 - 1 / 2 ^ 53)"
  shows "fl x < n"
proof -
  have err: "fl x \<le> x + 2 powi (fexp x - 1)" using fl_error[of x] x by linarith
  have gap: "n / 2 ^ 53 \<le> n - x" using le by (simp add: algebra_simps)
  have low: "2 powi flog2 x \<le> x" using flog2_bounds[OF x] by simp
  show ?thesis
  proof (cases "- 1074 \<le> flog2 x - 52")
    case True
    then have "fexp x - 1 = flog2 x - 53" using x by (simp add: fexp_def)
    then have "(2 powi (fexp x - 1) :: rat) = 2 powi (flog2 x - 53)" by (rule arg_cong)
    also have "\<dots> = 2 powi flog2 x / 2 ^ 53" by (simp add: power_int_diff)
    also have "\<dots> \<le> x / 2 ^ 53" using low by (rule divide_right_mono) simp
    also have "\<dots> < n / 2 ^ 53"
    proof -
      have "0 < n / 2 ^ 53" using n by simp
      then have "x < n" using gap by linarith
      then show ?thesis by (rule divide_strict_right_mono) simp
    qed
    finally show ?thesis using err gap by linarith
  next
    case False
    then have e: "fexp x = - 1074" using x by (simp add: fexp_def max_def)
    have "fexp x - 1 = - 1075" using e by simp
    then have "(2 powi (fexp x - 1) :: rat) = 2 powi (- 1075)" by (rule arg_cong)
    also have "\<dots> < 2 powi (- 53)" by (rule power_int_strict_increasing) simp_all
    also have "\<dots> = 1 / 2 ^ 53" by (simp only: power_int_minus power_int_numeral divide_inverse mult_1)
    also have "\<dots> \<le> n / 2 ^ 53" using n by (rule divide_right_mono) simp
    finally show ?thesis using err gap by linarith
  qed
qed

lemma boundary_inside:
  assumes sb: "split_boundary total_bars is_ratio = Inr boundary"
    and fl: "is_float is_ratio" and small: "total_bars \<le> 2 ^ 53"
  shows "0 \<le> boundary \<and> boundary < total_bars"
proof -
  let ?n = "of_int total_bars :: rat"
  have n: "1 \<le> total_bars" and r: "0 < is_ratio" "is_ratio < 1"
    and b: "boundary = py_int (fl (?n * is_ratio))"
    using sb by (auto simp: split_boundary_def fmul_def)
  have n1: "1 \<le> ?n" using n by simp
  have "is_ratio \<le> 1 - 1 / 2 ^ 53" using float_below_one fl r by blast
  then have "?n * is_ratio \<le> ?n * (1 - 1 / 2 ^ 53)" using n1 by (intro mult_left_mono) auto
  then have lt: "fl (?n * is_ratio) < ?n" using fl_below[of "?n * is_ratio" ?n] n1 r by simp
  have nn: "0 \<le> fl (?n * is_ratio)" using n1 r by (intro fl_nonneg) auto
  then have "boundary = \<lfloor>fl (?n * is_ratio)\<rfloor>" using b by (simp add: py_int_def)
  then show ?thesis using lt nn by (simp add: floor_less_iff)
qed

section \<open>What the split promises\<close>

lemma mark_crossing_simps [simp]:
  "sr_split (mark_crossing ix b hz hs rec) = sr_split rec" "sr_signal_id (mark_crossing ix b hz hs rec) = sr_signal_id rec"
  by (simp_all add: mark_crossing_def clear_crossing_def Let_def split: option.splits)

lemma assign_one_simps [simp]: "sr_signal_id (assign_one ix b rec) = sr_signal_id rec"
  by (simp add: assign_one_def split: option.splits)

lemma crosses_iff:
  "sr_crosses_boundary (mark_crossing ix b hz hs rec) \<longleftrightarrow>
     (\<exists>e h. map_of ix (sr_signal_id rec) = Some e \<and> horizon_for hz hs rec = Some h \<and> 0 < h \<and> e \<le> b \<and> b < e + h - 1)"
  by (auto simp: mark_crossing_def clear_crossing_def Let_def split: option.splits)

lemma crossing_distance:
  assumes "sr_crosses_boundary (mark_crossing ix b hz hs rec)"
    and "map_of ix (sr_signal_id rec) = Some e" and "horizon_for hz hs rec = Some h"
  shows "sr_boundary_distance_bars (mark_crossing ix b hz hs rec) = Some (e + h - 1 - b)" and "1 \<le> e + h - 1 - b" and "e + h - 1 - b \<le> h - 1"
  using assms by (auto simp: mark_crossing_def clear_crossing_def Let_def split: if_splits)

lemma fraction_floats:
  assumes n: "1 \<le> n" "n \<le> h - 1" and h: "h \<le> 2 ^ 53"
  shows "1 / 2 ^ 53 \<le> fdiv (of_int n) (of_int h)" and "fdiv (of_int n) (of_int h) \<le> 1 - 1 / 2 ^ 53"
proof -
  let ?n = "of_int n :: rat" and ?h = "of_int h :: rat"
  have h0: "0 < ?h" and n1: "1 \<le> ?n" using n by simp_all
  have "(of_int h :: rat) \<le> of_int (2 ^ 53)" using h by (rule iffD2[OF of_int_le_iff])
  then have hp: "?h \<le> 2 ^ 53" by simp
  have nh: "?n \<le> ?h - 1" using n(2) by (metis of_int_1 of_int_diff of_int_le_iff)
  have inv: "1 / 2 ^ 53 \<le> 1 / ?h" using hp h0 by (intro divide_left_mono) auto
  also have "\<dots> \<le> ?n / ?h" using n1 h0 by (intro divide_right_mono) auto
  finally show "1 / 2 ^ 53 \<le> fdiv (of_int n) (of_int h)"
    unfolding fdiv_def by (rule float_le_fl) (rule is_float_eps)
  have "?n / ?h \<le> (?h - 1) / ?h" using nh h0 by (intro divide_right_mono) auto
  also have "\<dots> = 1 - 1 / ?h" using h0 by (simp add: diff_divide_distrib)
  also have "\<dots> \<le> 1 - 1 / 2 ^ 53" using inv by linarith
  finally show "fdiv (of_int n) (of_int h) \<le> 1 - 1 / 2 ^ 53"
    unfolding fdiv_def by (rule fl_le_float) (rule is_float_below_one)
qed

lemma discount_between:
  assumes n: "1 \<le> n" "n \<le> h - 1" and h: "h \<le> 2 ^ 53"
  shows "0 < fsub 1 (fdiv (of_int n) (of_int h))" and "fsub 1 (fdiv (of_int n) (of_int h)) < 1"
proof -
  have "1 / 2 ^ 53 \<le> 1 - fdiv (of_int n) (of_int h)" using fraction_floats(2)[OF n h] by linarith
  then have "1 / 2 ^ 53 \<le> fsub 1 (fdiv (of_int n) (of_int h))"
    unfolding fsub_def by (rule float_le_fl) (rule is_float_eps)
  then show "0 < fsub 1 (fdiv (of_int n) (of_int h))" by (rule less_le_trans[rotated]) simp
  have "1 - fdiv (of_int n) (of_int h) \<le> 1 - 1 / 2 ^ 53" using fraction_floats(1)[OF n h] by linarith
  then have "fsub 1 (fdiv (of_int n) (of_int h)) \<le> 1 - 1 / 2 ^ 53"
    unfolding fsub_def by (rule fl_le_float) (rule is_float_below_one)
  then show "fsub 1 (fdiv (of_int n) (of_int h)) < 1" by (rule le_less_trans) simp
qed

text \<open>
  C31: The walk-forward split is sound, floats included. The boundary computed from a ratio lies inside the
  data (the comment that no clamp is needed is right although the product is rounded). A record labelled
  in-sample and not marked as crossing has its whole forward window at or before the boundary, one
  labelled out-of-sample starts after it, and exactly the crossing records get a discount strictly between 0
  and 1; every other record keeps the factor 1.
\<close>

theorem split_sound:
  assumes "split_boundary total_bars is_ratio = Inr b" "is_float is_ratio" "total_bars \<le> 2 ^ 53"
    and ix: "map_of ix (sr_signal_id rec) = Some e" and hz: "0 < h" "h \<le> 2 ^ 53"
    and r: "r = mark_crossing ix b (Some h) None (assign_one ix b rec)"
  shows "0 \<le> b \<and> b < total_bars
    \<and> (sr_split r = Some SplitIs \<longleftrightarrow> e \<le> b) \<and> (sr_split r = Some SplitOos \<longleftrightarrow> b < e)
    \<and> (sr_crosses_boundary r \<longleftrightarrow> e \<le> b \<and> b < e + h - 1)
    \<and> (if sr_crosses_boundary r then 0 < boundary_discount r h \<and> boundary_discount r h < 1 else boundary_discount r h = 1)"
proof -
  let ?a = "assign_one ix b rec"
  have sp: "sr_split r = Some (if e \<le> b then SplitIs else SplitOos)" by (simp add: r assign_one_def ix)
  have hf: "horizon_for (Some h) None ?a = Some h" and ia: "map_of ix (sr_signal_id ?a) = Some e"
    by (simp_all add: horizon_for_def ix)
  have cr: "sr_crosses_boundary r \<longleftrightarrow> e \<le> b \<and> b < e + h - 1" unfolding r crosses_iff hf ia using hz by simp
  have disc: "if sr_crosses_boundary r then 0 < boundary_discount r h \<and> boundary_discount r h < 1 else boundary_discount r h = 1"
  proof (cases "sr_crosses_boundary r")
    case True
    have d: "sr_boundary_distance_bars r = Some (e + h - 1 - b)" "1 \<le> e + h - 1 - b" "e + h - 1 - b \<le> h - 1"
      using crossing_distance[OF _ ia hf] True by (simp_all add: r)
    have pos: "0 < fsub 1 (fdiv (of_int (e + h - 1 - b)) (of_int h))" and lt: "fsub 1 (fdiv (of_int (e + h - 1 - b)) (of_int h)) < 1"
      using discount_between[OF d(2,3) hz(2)] by auto
    have "boundary_discount r h = fsub 1 (fdiv (of_int (e + h - 1 - b)) (of_int h))"
      using pos hz(1) unfolding boundary_discount_def d(1) Let_def by (simp only: True option.case) auto
    then show ?thesis using True pos lt by simp
  qed (simp add: boundary_discount_def)
  have "(sr_split r = Some SplitIs \<longleftrightarrow> e \<le> b) \<and> (sr_split r = Some SplitOos \<longleftrightarrow> b < e)" by (simp add: sp)
  then show ?thesis using boundary_inside[OF assms(1-3)] cr disc by blast
qed

theorem split_sound_witness:
  "\<exists>b r. split_boundary 10 (1 / 2) = Inr b \<and> r = mark_crossing [(''sid_test'', 4)] b (Some 3) None (assign_one [(''sid_test'', 4)] b empty_record)
     \<and> sr_split r = Some SplitIs \<and> sr_crosses_boundary r \<and> boundary_discount r 3 < 1"
proof -
  have b: "split_boundary 10 (1 / 2) = Inr 5" by code_simp
  let ?r = "mark_crossing [(''sid_test'', 4)] 5 (Some 3) None (assign_one [(''sid_test'', 4)] 5 empty_record)"
  have ix: "map_of [(''sid_test'', 4 :: int)] (sr_signal_id empty_record) = Some 4" by (simp add: empty_record_def)
  have "0 \<le> (5 :: int) \<and> (5 :: int) < 10
    \<and> (sr_split ?r = Some SplitIs \<longleftrightarrow> (4 :: int) \<le> 5) \<and> (sr_split ?r = Some SplitOos \<longleftrightarrow> (5 :: int) < 4)
    \<and> (sr_crosses_boundary ?r \<longleftrightarrow> (4 :: int) \<le> 5 \<and> (5 :: int) < 4 + 3 - 1)
    \<and> (if sr_crosses_boundary ?r then 0 < boundary_discount ?r 3 \<and> boundary_discount ?r 3 < 1 else boundary_discount ?r 3 = 1)"
    by (rule split_sound[OF b is_float_half _ ix _ _ refl]) simp_all
  then have "sr_split ?r = Some SplitIs \<and> sr_crosses_boundary ?r \<and> boundary_discount ?r 3 < 1" by simp
  then show ?thesis using b by blast
qed

text \<open>The two halves of a partition are disjoint, in order, and miss only the unlabelled records.\<close>

lemma partition_covers:
  "length (fst (partition_by_split rs)) + length (snd (partition_by_split rs)) + length (filter (\<lambda>r. sr_split r = None) rs) = length rs"
proof (induction rs)
  case (Cons r rs)
  then show ?case by (cases "sr_split r"; cases "the (sr_split r)") (auto simp: partition_by_split_def)
qed (simp add: partition_by_split_def)

end
