(* ===== verification/BenchMetrics.thy ===== *)
theory BenchMetrics
  imports BenchRecord
begin

text \<open>
  \<^verbatim>\<open>bench/pipeline/trade_metrics.py\<close> and \<^verbatim>\<open>stage2_backtest.py\<close>: the trade simulator run on one record,
  and the excursions of the bars the trade was held. A data frame is the simulator's list of rows, which carry
  all five columns. The mean of a volume column is pandas' and an argument, \<open>vmean\<close>.
\<close>

section \<open>Excursions\<close>

record trade_metrics =
  tm_mae :: rat
  tm_mfe :: rat
  tm_mae_atr_ratio :: rat
  tm_mfe_atr_ratio :: rat
  tm_callback_depth :: rat
  tm_callback_bars :: int
  tm_callback_volume_ratio :: "rat option"
  tm_hit_stop_before_tp :: bool
  tm_stop_zone_touches :: int

definition stop_zone :: "rat \<Rightarrow> rat \<Rightarrow> rat \<Rightarrow> rat \<times> rat" where
  "stop_zone stop_price atr zone_atr = (let half = fmul atr zone_atr in (fsub stop_price half, fadd stop_price half))"

definition callback_volume_ratio :: "(rat list \<Rightarrow> rat) \<Rightarrow> bar list \<Rightarrow> nat option \<Rightarrow> rat option" where
  "callback_volume_ratio vmean df mae_bar_index =
     (case mae_bar_index of None \<Rightarrow> None
      | Some i \<Rightarrow>
          if i \<le> 0 then None
          else let pre_mean = vmean (map bvol (take i df))
               in if pre_mean \<le> 0 then None else Some (fdiv (vmean (map bvol (take (i + 1) df))) pre_mean))"

text \<open>The excursions of one bar against and for the trade, and what it touches.\<close>

definition bar_mae :: "direction \<Rightarrow> rat \<Rightarrow> bar \<Rightarrow> rat" where
  "bar_mae d entry b = (if d = LONG then max (fsub entry (blow b)) 0 else max (fsub (bhigh b) entry) 0)"

definition bar_mfe :: "direction \<Rightarrow> rat \<Rightarrow> bar \<Rightarrow> rat" where
  "bar_mfe d entry b = (if d = LONG then max (fsub (bhigh b) entry) 0 else max (fsub entry (blow b)) 0)"

definition stop_touched :: "direction \<Rightarrow> rat \<Rightarrow> bar \<Rightarrow> bool" where
  "stop_touched d stop b = (if d = LONG then blow b \<le> stop else stop \<le> bhigh b)"

definition target_touched :: "direction \<Rightarrow> rat \<Rightarrow> bar \<Rightarrow> bool" where
  "target_touched d target b = (if d = LONG then target \<le> bhigh b else blow b \<le> target)"

definition in_stop_zone :: "rat \<times> rat \<Rightarrow> bar \<Rightarrow> bool" where
  "in_stop_zone zone b \<longleftrightarrow> blow b \<le> snd zone \<and> fst zone \<le> bhigh b"

record metric_state =
  ms_mae :: rat
  ms_mfe :: rat
  ms_index :: "nat option"
  ms_touches :: int
  ms_stop :: bool
  ms_target :: bool

definition metric_start :: metric_state where
  "metric_start = \<lparr>ms_mae = 0, ms_mfe = 0, ms_index = None, ms_touches = 0, ms_stop = False, ms_target = False\<rparr>"

definition metric_bar ::
    "direction \<Rightarrow> rat \<Rightarrow> rat \<Rightarrow> rat \<Rightarrow> rat \<times> rat \<Rightarrow> nat \<Rightarrow> bar \<Rightarrow> metric_state \<Rightarrow> metric_state" where
  "metric_bar d entry stop target zone i b m =
     \<lparr>ms_mae = (if ms_mae m < bar_mae d entry b then bar_mae d entry b else ms_mae m),
      ms_mfe = (if ms_mfe m < bar_mfe d entry b then bar_mfe d entry b else ms_mfe m),
      ms_index = (if ms_mae m < bar_mae d entry b then Some i else ms_index m),
      ms_touches = ms_touches m + (if in_stop_zone zone b then 1 else 0),
      ms_stop = (ms_stop m \<or> stop_touched d stop b \<and> \<not> ms_target m),
      ms_target = (ms_target m \<or> target_touched d target b)\<rparr>"

fun metric_loop ::
    "direction \<Rightarrow> rat \<Rightarrow> rat \<Rightarrow> rat \<Rightarrow> rat \<times> rat \<Rightarrow> nat \<Rightarrow> bar list \<Rightarrow> metric_state \<Rightarrow> metric_state" where
  "metric_loop d entry stop target zone i [] m = m"
| "metric_loop d entry stop target zone i (b # bs) m =
     metric_loop d entry stop target zone (Suc i) bs (metric_bar d entry stop target zone i b m)"

definition compute_trade_metrics ::
    "(rat list \<Rightarrow> rat) \<Rightarrow> bar list \<Rightarrow> rat \<Rightarrow> rat \<Rightarrow> rat \<Rightarrow> direction \<Rightarrow> rat \<Rightarrow> rat \<Rightarrow> bench_error + trade_metrics" where
  "compute_trade_metrics vmean df entry_price stop_price tp_price d atr_at_entry stop_zone_atr =
     check (df \<noteq> []) EmptyFrame
       (check (\<not> (entry_price \<le> 0 \<or> stop_price \<le> 0 \<or> tp_price \<le> 0)) NonPositivePrice
         (check (\<not> atr_at_entry \<le> 0) NonPositiveAtr
           (check (\<not> stop_zone_atr < 0) NegativeZone
             (check (if d = LONG then stop_price < entry_price \<and> entry_price < tp_price
                     else entry_price < stop_price \<and> tp_price < entry_price)
                    (if d = LONG then LongOrder else ShortOrder)
               (let m = metric_loop d entry_price stop_price tp_price (stop_zone stop_price atr_at_entry stop_zone_atr)
                          0 df metric_start
                in Inr \<lparr>tm_mae = ms_mae m, tm_mfe = ms_mfe m,
                        tm_mae_atr_ratio = fdiv (ms_mae m) atr_at_entry, tm_mfe_atr_ratio = fdiv (ms_mfe m) atr_at_entry,
                        tm_callback_depth = fdiv (ms_mae m) atr_at_entry,
                        tm_callback_bars = (case ms_index m of None \<Rightarrow> 0 | Some i \<Rightarrow> int i + 1),
                        tm_callback_volume_ratio = callback_volume_ratio vmean df (ms_index m),
                        tm_hit_stop_before_tp = (ms_stop m \<and> \<not> ms_target m),
                        tm_stop_zone_touches = ms_touches m\<rparr>)))))"

definition price_efficiency_for :: "outcome \<Rightarrow> nat option \<Rightarrow> int \<Rightarrow> rat" where
  "price_efficiency_for oc tp_bar_index total_bars_held =
     (if oc \<in> {OutTp3, OutTp2, OutTp1} then
        (case tp_bar_index of None \<Rightarrow> 0
         | Some i \<Rightarrow>
             if total_bars_held \<le> 0 then 0
             else let eff = fdiv (of_nat i) (of_int total_bars_held) in if 1 < eff then 1 else eff)
      else 0)"

fun find_tp_bar :: "bar list \<Rightarrow> direction \<Rightarrow> rat \<Rightarrow> nat option" where
  "find_tp_bar [] d target = None"
| "find_tp_bar (b # bs) d target =
     (if target_touched d target b then Some 0 else map_option Suc (find_tp_bar bs d target))"

text \<open>
  \<open>apply_trade_metrics\<close>. A record without \<open>tp1\<close> makes the price test compare \<open>None\<close> with 0, unless one of the
  other prices already failed it. A metric that is \<open>None\<close> leaves the record's old value.
\<close>

definition write_metrics :: "trade_metrics \<Rightarrow> signal_record \<Rightarrow> signal_record" where
  "write_metrics m rec = rec\<lparr>sr_mae := Some (tm_mae m), sr_mfe := Some (tm_mfe m),
     sr_mae_atr_ratio := Some (tm_mae_atr_ratio m), sr_mfe_atr_ratio := Some (tm_mfe_atr_ratio m),
     sr_callback_depth := Some (tm_callback_depth m), sr_callback_bars := Some (tm_callback_bars m),
     sr_callback_volume_ratio := (case tm_callback_volume_ratio m of None \<Rightarrow> sr_callback_volume_ratio rec | Some v \<Rightarrow> Some v),
     sr_hit_stop_before_tp := Some (tm_hit_stop_before_tp m), sr_stop_zone_touches := Some (tm_stop_zone_touches m)\<rparr>"

definition record_efficiency :: "signal_record \<Rightarrow> bar list \<Rightarrow> rat \<Rightarrow> rat option" where
  "record_efficiency rec df target =
     (case (sr_outcome rec, sr_bars_held rec) of
        (Some oc, Some n) \<Rightarrow>
          if 0 < n then Some (price_efficiency_for oc (find_tp_bar df (sr_direction rec) target) n) else None
      | _ \<Rightarrow> None)"

definition apply_trade_metrics :: "(rat list \<Rightarrow> rat) \<Rightarrow> signal_record \<Rightarrow> bar list \<Rightarrow> bench_error + signal_record" where
  "apply_trade_metrics vmean rec df =
     (case sr_tp1 rec of
        None \<Rightarrow> Inl (if df = [] then EmptyFrame
                     else if sr_entry_price rec \<le> 0 \<or> sr_stop_price rec \<le> 0 then NonPositivePrice else NoneCompared)
      | Some target \<Rightarrow>
          ebind (compute_trade_metrics vmean df (sr_entry_price rec) (sr_stop_price rec) target (sr_direction rec)
                   (sr_atr_at_entry rec) (fl (1 / 10))) (\<lambda>m.
            Inr ((write_metrics m rec)\<lparr>sr_price_efficiency := record_efficiency rec df target\<rparr>)))"

section \<open>Stage 2\<close>

text \<open>
  \<open>df.index.get_loc(ts)\<close>: the position of a label that occurs once, the start of its run in a non-decreasing
  index, and otherwise a mask, which \<open>int\<close> refuses.
\<close>

fun first_position :: "int list \<Rightarrow> int \<Rightarrow> nat option" where
  "first_position [] ts = None"
| "first_position (x # xs) ts = (if x = ts then Some 0 else map_option Suc (first_position xs ts))"

definition row_position :: "int list \<Rightarrow> int \<Rightarrow> bench_error + nat option" where
  "row_position index ts =
     (if length (filter (\<lambda>x. x = ts) index) \<le> 1 \<or> sorted index then Inr (first_position index ts) else Inl NoPosition)"

definition outcome_of_r :: "rat \<Rightarrow> outcome" where
  "outcome_of_r r = (if 0 < r then OutTp1 else if r = 0 then OutBreakeven else OutStoploss)"

definition held_positions :: "(int \<times> bar) list \<Rightarrow> trade \<Rightarrow> bench_error + nat \<times> nat" where
  "held_positions rows t =
     ebind (row_position (map fst rows) (t_entry_time t)) (\<lambda>a.
     ebind (case t_exit_time t of None \<Rightarrow> Inr None | Some x \<Rightarrow> row_position (map fst rows) x) (\<lambda>b.
       case (a, b) of (Some i, Some j) \<Rightarrow> check (i \<le> j) NoPosition (Inr (i, j)) | _ \<Rightarrow> Inl NoPosition))"

definition settle_record :: "(rat list \<Rightarrow> rat) \<Rightarrow> (int \<times> bar) list \<Rightarrow> signal_record \<Rightarrow> trade \<Rightarrow> bench_error + signal_record" where
  "settle_record vmean rows rec t =
     ebind (held_positions rows t) (\<lambda>(i, j).
       apply_trade_metrics vmean
         (rec\<lparr>sr_outcome := Some (outcome_of_r (t_r t)), sr_r_multiple := Some (Some (t_r t)),
             sr_bars_held := Some (int j - int i + 1)\<rparr>)
         (map snd (take (j + 1 - i) (drop i rows))))"

definition stage2_backtest ::
    "(rat list \<Rightarrow> rat) \<Rightarrow> signal_record \<Rightarrow> (int \<times> bar) list \<Rightarrow> rat option \<Rightarrow> bench_error + trade option \<times> signal_record" where
  "stage2_backtest vmean rec rows tp1 =
     (case (case tp1 of Some x \<Rightarrow> Some x | None \<Rightarrow> sr_tp1 rec) of
        None \<Rightarrow> Inl NoTarget
      | Some target \<Rightarrow>
          let rec1 = (if sr_tp1 rec = None then rec\<lparr>sr_tp1 := Some target\<rparr> else rec)
          in case simulate_trades rows (sr_direction rec) (sr_entry_price rec) (sr_stop_price rec) target None of
               Inl e \<Rightarrow> Inl (EngineError e)
             | Inr [] \<Rightarrow> Inr (None, rec1\<lparr>sr_outcome := None, sr_r_multiple := Some None, sr_bars_held := None\<rparr>)
             | Inr (t # _) \<Rightarrow> ebind (settle_record vmean rows rec1 t) (\<lambda>r. Inr (Some t, r)))"

section \<open>The metrics are the extremes of the held bars\<close>

lemma bar_mae_nonneg [simp]: "0 \<le> bar_mae d entry b" and bar_mfe_nonneg [simp]: "0 \<le> bar_mfe d entry b"
  by (simp_all add: bar_mae_def bar_mfe_def)

text \<open>The running maximum over the bars, and the first bar that reaches it.\<close>

fun peak :: "(bar \<Rightarrow> rat) \<Rightarrow> rat \<Rightarrow> bar list \<Rightarrow> rat" where
  "peak f x [] = x"
| "peak f x (b # bs) = peak f (max x (f b)) bs"

lemma peak_ge: "x \<le> peak f x bs \<and> (\<forall>b \<in> set bs. f b \<le> peak f x bs)"
proof (induction bs arbitrary: x)
  case (Cons b bs)
  show ?case using Cons.IH[of "max x (f b)"] by auto
qed simp

lemma peak_attained: "peak f x bs = x \<or> peak f x bs \<in> f ` set bs"
proof (induction bs arbitrary: x)
  case (Cons b bs)
  show ?case using Cons.IH[of "max x (f b)"] by (auto simp: max_def)
qed simp

lemma loop_extremes:
  "ms_mae (metric_loop d en st tg zone i bs m) = peak (bar_mae d en) (ms_mae m) bs
   \<and> ms_mfe (metric_loop d en st tg zone i bs m) = peak (bar_mfe d en) (ms_mfe m) bs
   \<and> ms_touches (metric_loop d en st tg zone i bs m) = ms_touches m + int (length (filter (in_stop_zone zone) bs))
   \<and> ms_target (metric_loop d en st tg zone i bs m) = (ms_target m \<or> (\<exists>b \<in> set bs. target_touched d tg b))"
proof (induction bs arbitrary: i m)
  case (Cons b bs)
  have e: "ms_mae (metric_bar d en st tg zone i b m) = max (ms_mae m) (bar_mae d en b)"
    "ms_mfe (metric_bar d en st tg zone i b m) = max (ms_mfe m) (bar_mfe d en b)"
    by (simp_all add: metric_bar_def max_def)
  show ?case using Cons.IH[of "Suc i" "metric_bar d en st tg zone i b m"] e by (auto simp: metric_bar_def)
qed simp

text \<open>The flag is set exactly when a stop was touched and no target at all.\<close>

lemma loop_flag:
  "(ms_stop (metric_loop d en st tg zone i bs m) \<and> \<not> ms_target (metric_loop d en st tg zone i bs m))
     = (\<not> ms_target m \<and> (ms_stop m \<or> (\<exists>b \<in> set bs. stop_touched d st b)) \<and> \<not> (\<exists>b \<in> set bs. target_touched d tg b))"
proof (induction bs arbitrary: i m)
  case (Cons b bs)
  show ?case using Cons.IH[of "Suc i" "metric_bar d en st tg zone i b m"] by (auto simp: metric_bar_def)
qed auto

text \<open>The index is that of the first bar of the final excursion.\<close>

lemma loop_index:
  "ms_index (metric_loop d en st tg zone i bs m) =
     (if peak (bar_mae d en) (ms_mae m) bs = ms_mae m then ms_index m
      else Some (i + length (takeWhile (\<lambda>b. bar_mae d en b \<noteq> peak (bar_mae d en) (ms_mae m) bs) bs)))"
proof (induction bs arbitrary: i m)
  case (Cons b bs)
  define m' where "m' = metric_bar d en st tg zone i b m"
  have e: "ms_mae m' = max (ms_mae m) (bar_mae d en b)" by (simp add: m'_def metric_bar_def max_def)
  have x: "ms_index m' = (if ms_mae m < bar_mae d en b then Some i else ms_index m)" by (simp add: m'_def metric_bar_def)
  define P where "P = peak (bar_mae d en) (ms_mae m') bs"
  have ge: "ms_mae m' \<le> P" using peak_ge[of "ms_mae m'"] by (simp add: P_def)
  have "ms_index (metric_loop d en st tg zone i (b # bs) m) =
      (if P = ms_mae m' then ms_index m' else Some (Suc i + length (takeWhile (\<lambda>c. bar_mae d en c \<noteq> P) bs)))"
    using Cons.IH[of "Suc i" m'] by (simp add: m'_def P_def)
  moreover have "peak (bar_mae d en) (ms_mae m) (b # bs) = P" by (simp add: P_def e)
  ultimately show ?case using ge e x by (auto simp: max_def split: if_splits)
qed simp

text \<open>What a bar's position among the held ones means: \<open>callback_bars\<close> counts from 1.\<close>

definition first_reaching :: "(bar \<Rightarrow> rat) \<Rightarrow> rat \<Rightarrow> bar list \<Rightarrow> int" where
  "first_reaching f x bs = int (length (takeWhile (\<lambda>b. f b \<noteq> x) bs)) + 1"

lemma peak_zero: "(\<forall>b. 0 \<le> f b) \<Longrightarrow> 0 \<le> peak f 0 bs"
  using peak_ge by blast

text \<open>
  The excursions are those of the bars. Whenever the computation returns, the maximum adverse (favourable)
  excursion is at least every bar's, and is 0 or some bar's; \<open>callback_bars\<close> is 0 when the trade never went against the
  entry and otherwise the 1-based position of the first bar that reaches the adverse maximum; the zone count is the
  number of bars overlapping the stop zone; and the flag named "hit stop before TP" is set exactly when
  some bar touched the stop and no bar touched the target, in whatever order.
\<close>

theorem excursions_exact:
  assumes run: "compute_trade_metrics vmean df entry stop target d atr zone_atr = Inr m"
  shows "(\<forall>b \<in> set df. bar_mae d entry b \<le> tm_mae m \<and> bar_mfe d entry b \<le> tm_mfe m)
    \<and> (tm_mae m = 0 \<or> tm_mae m \<in> bar_mae d entry ` set df) \<and> (tm_mfe m = 0 \<or> tm_mfe m \<in> bar_mfe d entry ` set df)
    \<and> tm_callback_bars m = (if tm_mae m = 0 then 0 else first_reaching (bar_mae d entry) (tm_mae m) df)
    \<and> tm_stop_zone_touches m = int (length (filter (in_stop_zone (stop_zone stop atr zone_atr)) df))
    \<and> (tm_hit_stop_before_tp m \<longleftrightarrow> (\<exists>b \<in> set df. stop_touched d stop b) \<and> \<not> (\<exists>b \<in> set df. target_touched d target b))"
proof -
  let ?l = "metric_loop d entry stop target (stop_zone stop atr zone_atr) 0 df metric_start"
  have m: "tm_mae m = ms_mae ?l" "tm_mfe m = ms_mfe ?l" "tm_stop_zone_touches m = ms_touches ?l"
    "tm_callback_bars m = (case ms_index ?l of None \<Rightarrow> 0 | Some i \<Rightarrow> int i + 1)"
    "tm_hit_stop_before_tp m = (ms_stop ?l \<and> \<not> ms_target ?l)"
    using run by (auto simp: compute_trade_metrics_def Let_def)
  have ex: "ms_mae ?l = peak (bar_mae d entry) 0 df" "ms_mfe ?l = peak (bar_mfe d entry) 0 df"
    "ms_touches ?l = int (length (filter (in_stop_zone (stop_zone stop atr zone_atr)) df))"
    using loop_extremes[of d entry stop target "stop_zone stop atr zone_atr" 0 df metric_start]
    by (simp_all add: metric_start_def)
  have ix: "ms_index ?l = (if peak (bar_mae d entry) 0 df = 0 then None
      else Some (length (takeWhile (\<lambda>b. bar_mae d entry b \<noteq> peak (bar_mae d entry) 0 df) df)))"
    using loop_index[of d entry stop target "stop_zone stop atr zone_atr" 0 df metric_start]
    by (simp add: metric_start_def)
  have flag: "tm_hit_stop_before_tp m \<longleftrightarrow> (\<exists>b \<in> set df. stop_touched d stop b) \<and> \<not> (\<exists>b \<in> set df. target_touched d target b)"
    unfolding m(5) using loop_flag[of d entry stop target "stop_zone stop atr zone_atr" 0 df metric_start]
    by (simp add: metric_start_def)
  have bars: "tm_callback_bars m = (if tm_mae m = 0 then 0 else first_reaching (bar_mae d entry) (tm_mae m) df)"
    unfolding m(4) ix m(1) ex first_reaching_def by simp
  show ?thesis
    using peak_ge[of 0 "bar_mae d entry" df] peak_ge[of 0 "bar_mfe d entry" df]
      peak_attained[of "bar_mae d entry" 0 df] peak_attained[of "bar_mfe d entry" 0 df] flag bars
    unfolding m(1-3) ex by blast
qed

definition wick :: "rat \<Rightarrow> rat \<Rightarrow> bar" where
  "wick lo hi = \<lparr>bopen = lo, bhigh = hi, blow = lo, bclose = hi, bvol = 1\<rparr>"

text \<open>The witness is the case the flag's name promises and misses: the stop is touched on the first bar, the target on the second.\<close>

theorem excursions_exact_witness:
  "\<exists>m. compute_trade_metrics fsum [wick 89 101, wick 99 111] 100 90 110 LONG 2 (fl (1 / 10)) = Inr m
     \<and> tm_mae m = 11 \<and> tm_callback_bars m = 1 \<and> \<not> tm_hit_stop_before_tp m"
proof -
  have "0 \<le> fl (1 / 10)" by (rule fl_nonneg) simp
  then obtain m where m: "compute_trade_metrics fsum [wick 89 101, wick 99 111] 100 90 110 LONG 2 (fl (1 / 10)) = Inr m"
    by (simp add: compute_trade_metrics_def Let_def)
  have "fl 11 = 11" "fl 1 = (1 :: rat)" by (simp_all flip: is_float_def)
  then have v: "bar_mae LONG 100 (wick 89 101) = 11" "bar_mae LONG 100 (wick 99 111) = 1" "target_touched LONG 110 (wick 99 111)"
    by (simp_all add: bar_mae_def target_touched_def wick_def fsub_def)
  note e = excursions_exact[OF m]
  have "tm_mae m = 11" using e v by auto
  then have "tm_mae m = 11 \<and> tm_callback_bars m = 1 \<and> \<not> tm_hit_stop_before_tp m" using e v by (simp add: first_reaching_def)
  then show ?thesis using m by blast
qed

section \<open>The bars of the first trade\<close>

lemma sim_walk_append: "sim_walk p (xs @ ys) s = sim_walk p ys (sim_walk p xs s)"
  by (induction xs arbitrary: s) auto

lemma sim_bar_grows: "\<exists>tl1. fst (sim_bar p x s) = fst s @ tl1"
  by (cases "(p, x, s)" rule: sim_bar.cases) (auto split: prod.splits option.splits)

lemma sim_walk_grows: "\<exists>tl1. fst (sim_walk p xs s) = fst s @ tl1"
proof (induction xs arbitrary: s)
  case (Cons x xs)
  obtain a where "fst (sim_bar p x s) = fst s @ a" using sim_bar_grows by blast
  moreover obtain b where "fst (sim_walk p xs (sim_bar p x s)) = fst (sim_bar p x s) @ b" using Cons.IH by blast
  ultimately show ?case by simp
qed simp

definition enters :: "sim_params \<Rightarrow> int \<times> bar \<Rightarrow> bool" where
  "enters p x \<longleftrightarrow> blow (snd x) \<le> p_entry p \<and> p_entry p \<le> bhigh (snd x)"

definition leaves :: "sim_params \<Rightarrow> int \<times> bar \<Rightarrow> bool" where
  "leaves p x \<longleftrightarrow> snd (sim_exit p (snd x)) \<noteq> None"

lemma walk_skips: "(\<forall>x \<in> set xs. \<not> enters p x) \<Longrightarrow> sim_walk p xs (dn, None) = (dn, None)"
  by (induction xs) (auto simp: enters_def)

lemma walk_holds: "(\<forall>x \<in> set xs. \<not> leaves p x) \<Longrightarrow> sim_walk p xs (dn, Some (t, n)) = (dn, Some (t, n + int (length xs)))"
proof (induction xs arbitrary: n)
  case (Cons x xs)
  obtain ts row where x: "x = (ts, row)" by (cases x)
  obtain price where "sim_exit p row = (price, None)" using Cons.prems x by (cases "sim_exit p row") (auto simp: leaves_def)
  then have "sim_walk p (x # xs) (dn, Some (t, n)) = sim_walk p xs (dn, Some (t, n + 1))" by (simp add: x)
  also have "\<dots> = (dn, Some (t, n + 1 + int (length xs)))" by (rule Cons.IH) (use Cons.prems in simp)
  finally show ?case by simp
qed simp

text \<open>The trade a run of held rows ends with.\<close>

definition closes :: "sim_params \<Rightarrow> (int \<times> bar) list \<Rightarrow> trade \<Rightarrow> bool" where
  "closes p held t \<longleftrightarrow> held \<noteq> [] \<and> (\<forall>x \<in> set (butlast held). \<not> leaves p x)
     \<and> t_entry_time t = fst (hd held) \<and> t_exit_time t = Some (fst (last held))
     \<and> (if leaves p (last held) then snd (sim_exit p (snd (last held))) = Some (t_result t) else t_result t = Scratch)"

lemma close_times [simp]:
  "t_entry_time (close_trade p n t price res ts) = t_entry_time t" "t_exit_time (close_trade p n t price res ts) = Some ts"
  "t_result (close_trade p n t price res ts) = res" "t_entry_time (close_scratch p n t price ts) = t_entry_time t"
  "t_exit_time (close_scratch p n t price ts) = Some ts" "t_result (close_scratch p n t price ts) = Scratch"
  by (simp_all add: close_trade_def close_scratch_def Let_def)

lemma walk_opens:
  assumes "enters p x" "\<not> leaves p x"
  shows "sim_bar p x (dn, None) = (dn, Some (open_trade p (fst x), 1))"
proof (cases x)
  case (Pair ts row)
  then show ?thesis using assms by (cases "sim_exit p row") (auto simp: enters_def leaves_def)
qed

lemma walk_in_and_out:
  assumes "enters p x" "sim_exit p (snd x) = (price, Some res)"
  shows "sim_bar p x (dn, None) = (dn @ [close_trade p 0 (open_trade p (fst x)) price res (fst x)], None)"
  using assms by (cases x) (simp add: enters_def)

lemma walk_closes:
  assumes "sim_exit p (snd x) = (price, Some res)"
  shows "sim_bar p x (dn, Some (t, n)) = (dn @ [close_trade p (n + 1) t price res (fst x)], None)"
  using assms by (cases x) simp

definition finish_sim :: "sim_params \<Rightarrow> int \<times> bar \<Rightarrow> sim_state \<Rightarrow> trade list" where
  "finish_sim p final s =
     (case s of (dn, None) \<Rightarrow> dn | (dn, Some (t, n)) \<Rightarrow> dn @ [close_scratch p n t (bclose (snd final)) (fst final)])"

lemma finish_hd: "fst s = t # tl1 \<Longrightarrow> \<exists>ts. finish_sim p final s = t # ts"
  by (cases s) (auto simp: finish_sim_def split: option.splits)

lemma first_from_entry:
  assumes ent: "enters p x" and fin: "finish_sim p (last (x # r)) (sim_walk p (x # r) ([], None)) = t # ts"
  shows "\<exists>held b. x # r = held @ b \<and> closes p held t"
proof (cases "\<exists>y \<in> set (x # r). leaves p y")
  case False
  have s: "sim_walk p (x # r) ([], None) = ([], Some (open_trade p (fst x), 1 + int (length r)))"
    using False walk_opens[OF ent] walk_holds[of r p "[]"] by simp
  then have "t = close_scratch p (1 + int (length r)) (open_trade p (fst x)) (bclose (snd (last (x # r)))) (fst (last (x # r)))"
    using fin by (simp add: finish_sim_def)
  moreover have "\<forall>y \<in> set (butlast (x # r)). \<not> leaves p y" using False in_set_butlastD by fast
  moreover have "\<not> leaves p (last (x # r))" using False last_in_set[of "x # r"] by blast
  ultimately have "closes p (x # r) t" by (simp add: closes_def open_trade_def)
  then show ?thesis by (metis append_Nil2)
next
  case True
  obtain c y e where sp: "x # r = c @ y # e" and y: "leaves p y" and c: "\<forall>z \<in> set c. \<not> leaves p z"
    using split_list_first_prop[OF True] by blast
  obtain price res where ex: "sim_exit p (snd y) = (price, Some res)"
    using y unfolding leaves_def by (metis option.exhaust prod.collapse)
  obtain dn' n where st: "sim_walk p (c @ [y]) ([], None) = ([dn'], None)"
    and dn': "dn' = close_trade p n (open_trade p (fst x)) price res (fst y)"
  proof (cases c)
    case Nil
    then have "sim_walk p (c @ [y]) ([], None) = ([close_trade p 0 (open_trade p (fst x)) price res (fst y)], None)"
      using sp ex walk_in_and_out[OF ent] by simp
    then show thesis using that by blast
  next
    case (Cons z c')
    then have z: "z = x" and nx: "\<not> leaves p x" using sp c by auto
    have "sim_walk p (c @ [y]) ([], None) = sim_bar p y ([], Some (open_trade p (fst x), 1 + int (length c')))"
      using Cons z c walk_opens[OF ent nx] walk_holds[of c' p "[]"] by (simp add: sim_walk_append)
    also have "\<dots> = ([close_trade p (2 + int (length c')) (open_trade p (fst x)) price res (fst y)], None)"
      using walk_closes[OF ex] by simp
    finally show thesis using that by blast
  qed
  have "sim_walk p (x # r) ([], None) = sim_walk p e ([dn'], None)" using st sp sim_walk_append[of p "c @ [y]" e] by simp
  then obtain tl1 where "fst (sim_walk p (x # r) ([], None)) = dn' # tl1" using sim_walk_grows[of p e "([dn'], None)"] by auto
  then have t: "t = dn'" using finish_hd fin by (metis list.inject)
  have hd_x: "hd (c @ [y]) = x" using sp by (cases c) auto
  have "closes p (c @ [y]) t" using c y ex hd_x by (simp add: closes_def t dn' open_trade_def leaves_def)
  then show ?thesis using sp by (metis append.assoc append_Cons append_Nil)
qed

lemma first_trade:
  assumes run: "simulate_trades rows d en st tg config = Inr (t # ts)"
    and p: "p = sim_setup d en st tg (case config of None \<Rightarrow> default_bt_config | Some c \<Rightarrow> c)"
  shows "\<exists>a held b. rows = a @ held @ b \<and> closes p held t"
proof -
  have ne: "rows \<noteq> []" using run by (auto simp: simulate_trades_def)
  obtain cfg dn opn where w: "cfg = (case config of None \<Rightarrow> default_bt_config | Some c \<Rightarrow> c)"
    "sim_walk (sim_setup d en st tg cfg) rows ([], None) = (dn, opn)"
    "t # ts = (case opn of None \<Rightarrow> dn
       | Some (t, n) \<Rightarrow> dn @ [close_scratch (sim_setup d en st tg cfg) n t (bclose (snd (last rows))) (fst (last rows))])"
    by (rule simulate_trades_Inr[OF run ne])
  have pc: "sim_setup d en st tg cfg = p" by (simp add: p w(1))
  have fin: "finish_sim p (last rows) (sim_walk p rows ([], None)) = t # ts"
    using w(2,3) unfolding pc finish_sim_def by (cases opn) auto
  have entry: "\<exists>x \<in> set rows. enters p x"
  proof (rule ccontr)
    assume "\<not> ?thesis"
    then have "sim_walk p rows ([], None) = ([], None)" by (simp add: walk_skips)
    then show False using fin by (simp add: finish_sim_def)
  qed
  obtain a x r where sp: "rows = a @ x # r" and x: "enters p x" and a: "\<forall>y \<in> set a. \<not> enters p y"
    using split_list_first_prop[OF entry] by blast
  have eq: "sim_walk p rows ([], None) = sim_walk p (x # r) ([], None)"
    by (simp only: sp sim_walk_append walk_skips[OF a])
  have l: "last rows = last (x # r)" by (simp add: sp)
  obtain held b where "x # r = held @ b" "closes p held t"
    using first_from_entry[OF x, of r t ts] fin[unfolded eq l] by blast
  then show ?thesis using sp by blast
qed

section \<open>Stage 2 reads the bars the trade was held\<close>

lemma first_position_nth: "distinct xs \<Longrightarrow> i < length xs \<Longrightarrow> first_position xs (xs ! i) = Some i"
proof (induction xs arbitrary: i)
  case (Cons x xs)
  then show ?case by (cases i) (auto dest: nth_mem)
qed simp

lemma row_position_nth: 
  assumes "distinct xs" "i < length xs"
  shows "row_position xs (xs ! i) = Inr (Some i)"
proof -
  have "length (filter (\<lambda>x. x = y) ys) \<le> 1" if "distinct ys" for ys :: "int list" and y
    using that by (induction ys) (auto simp: filter_empty_conv)
  then show ?thesis using assms by (simp add: row_position_def first_position_nth)
qed

lemma held_found:
  assumes rows: "rows = a @ held @ b" and dist: "distinct (map fst rows)" and cl: "closes p held t"
  shows "held_positions rows t = Inr (length a, length a + length held - 1)"
    and "take (length a + length held - 1 + 1 - length a) (drop (length a) rows) = held"
proof -
  have ne: "held \<noteq> []" using cl by (simp add: closes_def)
  let ?i = "length a" and ?j = "length a + length held - 1"
  have pos: "0 < length held" using ne by simp
  have "length rows = length a + length held + length b" by (simp add: rows)
  then have len: "?i < length (map fst rows)" "?j < length (map fst rows)" and ij: "?i \<le> ?j"
    unfolding length_map using pos by linarith+
  have hd: "map fst rows ! ?i = fst (hd held)" using ne rows by (simp add: nth_append hd_conv_nth)
  have "?j - ?i = length held - 1" using ne by simp
  then have lst: "map fst rows ! ?j = fst (last held)" using ne rows ij by (simp add: nth_append last_conv_nth)
  have "row_position (map fst rows) (t_entry_time t) = Inr (Some ?i)"
    using row_position_nth[OF dist len(1)] hd cl by (simp add: closes_def)
  moreover have "row_position (map fst rows) (fst (last held)) = Inr (Some ?j)"
    using row_position_nth[OF dist len(2)] lst by simp
  ultimately show "held_positions rows t = Inr (?i, ?j)" using cl ij by (simp add: held_positions_def closes_def)
  show "take (?j + 1 - ?i) (drop ?i rows) = held" using ne by (simp add: rows Suc_leI)
qed

lemma resolve_touches:
  assumes "sim_exit p x = (price, out)" and p: "p_direction p = d" "p_eff_stop p = st" "p_eff_target p = tg"
  shows "out = None \<longleftrightarrow> \<not> stop_touched d st x \<and> \<not> target_touched d tg x"
    and "out = Some Win \<Longrightarrow> target_touched d tg x" and "out = Some Loss \<Longrightarrow> stop_touched d st x"
    and "out \<noteq> Some Scratch"
  using assms by (auto simp: sim_exit_def resolve_exit_def stop_touched_def target_touched_def Let_def split: if_splits)

text \<open>What a closed trade touched, on which of its bars.\<close>

lemma closes_touches:
  assumes cl: "closes p held t" and p: "p_direction p = d" "p_eff_stop p = st" "p_eff_target p = tg"
  shows "\<forall>x \<in> set (butlast held). \<not> stop_touched d st (snd x) \<and> \<not> target_touched d tg (snd x)"
    and "t_result t = Win \<Longrightarrow> target_touched d tg (snd (last held))"
    and "t_result t = Loss \<Longrightarrow> stop_touched d st (snd (last held))"
    and "t_result t = Scratch \<Longrightarrow> \<not> stop_touched d st (snd (last held)) \<and> \<not> target_touched d tg (snd (last held))"
proof -
  have leaves: "leaves p x \<longleftrightarrow> stop_touched d st (snd x) \<or> target_touched d tg (snd x)" for x
    using resolve_touches(1)[OF _ p, of "snd x"] by (cases "sim_exit p (snd x)") (auto simp: leaves_def)
  show "\<forall>x \<in> set (butlast held). \<not> stop_touched d st (snd x) \<and> \<not> target_touched d tg (snd x)"
    using cl leaves by (auto simp: closes_def)
  obtain price out where ex: "sim_exit p (snd (last held)) = (price, out)" by (cases "sim_exit p (snd (last held))")
  note h = resolve_touches[OF ex p]
  show "t_result t = Win \<Longrightarrow> target_touched d tg (snd (last held))"
    and "t_result t = Loss \<Longrightarrow> stop_touched d st (snd (last held))"
    and "t_result t = Scratch \<Longrightarrow> \<not> stop_touched d st (snd (last held)) \<and> \<not> target_touched d tg (snd (last held))"
    using cl h ex by (auto simp: closes_def leaves_def split: if_splits)
qed

lemma find_tp_last:
  "(\<forall>b \<in> set bs. \<not> target_touched d tg b) \<Longrightarrow> target_touched d tg x \<Longrightarrow> find_tp_bar (bs @ [x]) d tg = Some (length bs)"
  by (induction bs) auto

lemma find_tp_none: "(\<forall>b \<in> set bs. \<not> target_touched d tg b) \<Longrightarrow> find_tp_bar bs d tg = None"
  by (induction bs) auto

lemma efficiency_of_last:
  assumes "held \<noteq> []" and "\<forall>x \<in> set (butlast held). \<not> target_touched d tg (snd x)" and "target_touched d tg (snd (last held))"
  shows "price_efficiency_for OutTp1 (find_tp_bar (map snd held) d tg) (int (length held))
    = fdiv (of_nat (length held - 1)) (of_nat (length held))"
proof -
  have "map snd held = map snd (butlast held) @ [snd (last held)]"
    using assms(1) by (metis append_butlast_last_id list.simps(8,9) map_append)
  then have "find_tp_bar (map snd held) d tg = Some (length held - 1)"
    using find_tp_last[of "map snd (butlast held)" d tg "snd (last held)"] assms(2,3) by simp
  moreover have "fdiv (of_nat (length held - 1)) (of_nat (length held)) \<le> 1"
    by (rule fdiv_le_float) (use assms(1) in \<open>auto simp: divide_le_eq_1\<close>)
  ultimately show ?thesis using assms(1) by (simp add: price_efficiency_for_def Let_def)
qed

text \<open>The pieces of a stage-2 run that returned a trade.\<close>

lemma stage2_pieces:
  assumes run: "stage2_backtest vmean rec rows None = Inr (Some t, r)" and tp: "sr_tp1 rec = Some tg"
    and dist: "distinct (map fst rows)"
    and fl: "is_float (sr_entry_price rec)" "is_float (sr_stop_price rec)" "is_float tg"
  obtains a held b m ts where "rows = a @ held @ b"
    "closes (sim_setup (sr_direction rec) (sr_entry_price rec) (sr_stop_price rec) tg default_bt_config) held t"
    "simulate_trades rows (sr_direction rec) (sr_entry_price rec) (sr_stop_price rec) tg None = Inr (t # ts)"
    "compute_trade_metrics vmean (map snd held) (sr_entry_price rec) (sr_stop_price rec) tg (sr_direction rec)
       (sr_atr_at_entry rec) (fl (1 / 10)) = Inr m"
    "sr_outcome r = Some (outcome_of_r (t_r t))" "sr_bars_held r = Some (int (length held))"
    "sr_hit_stop_before_tp r = Some (tm_hit_stop_before_tp m)" "sr_mae r = Some (tm_mae m)" "sr_mfe r = Some (tm_mfe m)"
    "sr_price_efficiency r = Some (price_efficiency_for (outcome_of_r (t_r t))
       (find_tp_bar (map snd held) (sr_direction rec) tg) (int (length held)))"
proof -
  let ?d = "sr_direction rec" and ?en = "sr_entry_price rec" and ?st = "sr_stop_price rec"
  obtain ts where sim: "simulate_trades rows ?d ?en ?st tg None = Inr (t # ts)"
    and st: "settle_record vmean rows rec t = Inr r"
    using run by (auto simp: stage2_backtest_def tp Let_def split: sum.splits list.splits)
  obtain a held b where rows: "rows = a @ held @ b" and cl: "closes (sim_setup ?d ?en ?st tg default_bt_config) held t"
    using first_trade[OF sim refl] by auto
  have ne: "held \<noteq> []" using cl by (simp add: closes_def)
  note hf = held_found[OF rows dist cl]
  have bh: "int (length a + length held - 1) - int (length a) + 1 = int (length held)" using ne by (cases held) auto
  define rec2 where "rec2 = rec\<lparr>sr_outcome := Some (outcome_of_r (t_r t)), sr_r_multiple := Some (Some (t_r t)),
             sr_bars_held := Some (int (length held))\<rparr>"
  have ap: "apply_trade_metrics vmean rec2 (map snd held) = Inr r"
    using st unfolding settle_record_def hf(1) ebind.simps prod.case hf(2) bh rec2_def .
  have r2: "sr_tp1 rec2 = Some tg" "sr_entry_price rec2 = ?en" "sr_stop_price rec2 = ?st" "sr_direction rec2 = ?d"
    "sr_atr_at_entry rec2 = sr_atr_at_entry rec" "sr_outcome rec2 = Some (outcome_of_r (t_r t))"
    "sr_bars_held rec2 = Some (int (length held))"
    by (simp_all add: rec2_def tp)
  obtain m where m: "compute_trade_metrics vmean (map snd held) ?en ?st tg ?d (sr_atr_at_entry rec) (fl (1 / 10)) = Inr m"
    and r: "r = (write_metrics m rec2)\<lparr>sr_price_efficiency := record_efficiency rec2 (map snd held) tg\<rparr>"
    using ap unfolding apply_trade_metrics_def r2 option.case by auto
  show thesis
    by (rule that[OF rows cl sim m]) (use ne in \<open>simp_all add: r write_metrics_def record_efficiency_def r2\<close>)
qed


definition demo_record :: signal_record where
  "demo_record = empty_record\<lparr>sr_stop_price := 90\<rparr>"


end
