(* ===== verification/Mutation.thy ===== *)
theory Mutation
  imports Tuning
begin

text \<open>
  \<^verbatim>\<open>app/loop/mutation.py\<close>: how the search perturbs a tuning. A tuning field is read and
  replaced through the table of \<open>Tuning\<close>; a replacement that the validation refuses is retried and
  then given up.

  Python's \<open>random.Random\<close> is a state threaded through every draw: a record of the draws the code
  makes, each returning the new state. \<open>draw_sample\<close> returns the positions \<open>rng.sample\<close> picks.
\<close>

section \<open>Random draws\<close>

record 's rng =
  draw_gauss :: "'s \<Rightarrow> rat \<Rightarrow> rat \<times> 's"
  draw_random :: "'s \<Rightarrow> rat \<times> 's"
  draw_choice :: "'s \<Rightarrow> nat \<Rightarrow> nat \<times> 's"
  draw_sample :: "'s \<Rightarrow> nat \<Rightarrow> nat \<Rightarrow> nat list \<times> 's"

section \<open>The cluster map\<close>

record dict_kwargs =
  per_key :: rat
  dict_min :: rat
  dict_max :: rat
  keys_bounds :: "(string \<times> rat \<times> rat) list"
  target_sum :: "int option"

datatype kind =
    AbsSmall rat rat
  | RelLarge rat rat
  | IntWindow int int
  | IntThreshold int int
  | DictPerKey dict_kwargs
  | EnumKind "fieldval list"
  | UnknownKind string

type_synonym member = "string \<times> kind"

text \<open>The keyword defaults of a dict field: \<open>min\<close> -50, \<open>max\<close> 200, no bounds per key, no target sum.\<close>

definition dict_of :: "rat \<Rightarrow> dict_kwargs" where
  "dict_of w = \<lparr>per_key = w, dict_min = - 50, dict_max = 200, keys_bounds = [], target_sum = None\<rparr>"

definition DEFAULT_CLUSTER_MAP :: "(string \<times> member list) list" where
  "DEFAULT_CLUSTER_MAP = [
     (''C1 Geometry'', [
        (''atr_prz_sweep'', AbsSmall (fl (5 / 100)) 1),
        (''fee_rate'', AbsSmall (fl (2 / 10000)) (fl (5 / 1000))),
        (''slippage_rate'', AbsSmall (fl (1 / 10000)) (fl (5 / 1000))),
        (''atr_stop_buffer'', DictPerKey ((dict_of (fl (20 / 100)))\<lparr>keys_bounds :=
           [(''conservative'', 1 / 2, 2), (''standard'', fl (2 / 10), 1 / 2), (''aggressive'', fl (1 / 10), fl (4 / 10))]\<rparr>))]),
     (''C2 Discipline'', [
        (''max_d_age_bars'', IntThreshold 5 60),
        (''max_prz_distance_atr'', AbsSmall 1 6),
        (''max_forming_prz_width_atr'', AbsSmall (fl (3 / 10)) 3),
        (''authenticity_halve'', IntThreshold 30 70),
        (''authenticity_veto'', IntThreshold 10 40),
        (''adverse_sharpe_threshold'', AbsSmall (1 / 2) (5 / 2)),
        (''regime_moderate'', IntThreshold 20 50),
        (''regime_high'', IntThreshold 40 80),
        (''target_atr_pct'', AbsSmall 1 5),
        (''default_ttl_bars'', IntThreshold 20 80)]),
     (''C3 Confluence'', [
        (''a_grade_min'', IntThreshold 50 90),
        (''a_grade_min_high_quant'', IntThreshold 60 95),
        (''high_quant_position_mult'', AbsSmall (fl (3 / 10)) 1),
        (''confluence_weights'', DictPerKey ((dict_of 5)\<lparr>target_sum := Some 100\<rparr>)),
        (''pattern_base_score'', DictPerKey (dict_of 2)),
        (''stability_window'', IntThreshold 3 15)]),
     (''C4 Macro'', [
        (''slope_trend_up'', AbsSmall (fl (2 / 10)) 1),
        (''slope_trend_down'', AbsSmall (- 1) (fl (- 2 / 10))),
        (''mult_trending_aligned'', AbsSmall (fl (8 / 10)) (3 / 2)),
        (''mult_ranging_aligned'', AbsSmall (fl (8 / 10)) (3 / 2)),
        (''mult_trending_inverse'', AbsSmall (fl (3 / 10)) (fl (9 / 10))),
        (''mult_ranging_inverse'', AbsSmall (fl (2 / 10)) (fl (9 / 10))),
        (''mult_extreme_inverse'', AbsSmall (fl (9 / 10)) (3 / 2)),
        (''mult_data_short'', AbsSmall (1 / 2) 1),
        (''extreme_deviation_pct'', AbsSmall 10 40),
        (''min_daily_bars'', IntWindow 100 400)]),
     (''C5 Windows'', [
        (''min_candles'', IntThreshold 30 200),
        (''atr_window'', IntWindow 5 50),
        (''atr_long_window'', IntWindow 50 200),
        (''rsi_window'', IntWindow 5 30),
        (''volume_ma_window'', IntWindow 5 50),
        (''swing_lookback'', IntWindow 20 120),
        (''quant_trap_lookback'', IntWindow 20 120),
        (''volume_authenticity_window'', IntWindow 20 120),
        (''quant_regime_window'', IntWindow 50 200),
        (''per_bar_sharpe_window'', IntWindow 5 50)])]"

section \<open>One mutation\<close>

definition clip :: "'a::linorder \<Rightarrow> 'a \<Rightarrow> 'a \<Rightarrow> 'a" where
  "clip x lo hi = max lo (min hi x)"

fun perturb_dict ::
    "'s rng \<Rightarrow> rat \<Rightarrow> dict_kwargs \<Rightarrow> (string \<times> rat) list \<Rightarrow> 's \<Rightarrow> (string \<times> rat) list \<times> 's" where
  "perturb_dict g sigma kw [] s = ([], s)"
| "perturb_dict g sigma kw ((k, v) # d) s =
     (let (lo, hi) = get_default (keys_bounds kw) k (dict_min kw, dict_max kw);
          (x, s1) = draw_gauss g s sigma;
          (rest, s2) = perturb_dict g sigma kw d s1
      in ((k, clip (fadd v x) lo hi) # rest, s2))"

text \<open>The renormalisation: rounded shares, the last key takes the leftover.\<close>

fun add_last :: "int \<Rightarrow> (string \<times> int) list \<Rightarrow> (string \<times> int) list" where
  "add_last drift [] = []"
| "add_last drift [(k, v)] = [(k, v + drift)]"
| "add_last drift (x # y # xs) = x # add_last drift (y # xs)"

definition rescale :: "int \<Rightarrow> (string \<times> rat) list \<Rightarrow> (string \<times> rat) list" where
  "rescale target d =
     (let total_w = fsum (vals_of d)
      in if total_w = 0 then d
         else let scale = fdiv (of_int target) total_w;
                  scaled = map (\<lambda>(k, v). (k, rhe (fmul v scale))) d;
                  drift = target - sum_list (vals_of scaled)
              in map (\<lambda>(k, v). (k, of_int v)) (add_last drift scaled))"

definition tuning_type_error :: "string \<Rightarrow> tuning_error" where
  "tuning_type_error n = UnknownFieldType n"

text \<open>
  \<open>_apply_one_mutation\<close>: the new tuning, or the error of the validation (or of a value of the wrong
  type), and the state of the generator after the draws.
\<close>

fun apply_one_mutation ::
    "'s rng \<Rightarrow> member \<Rightarrow> TuningConstants \<Rightarrow> rat \<Rightarrow> 's \<Rightarrow> (tuning_error + TuningConstants) \<times> 's" where
  "apply_one_mutation g (n, AbsSmall lo hi) t sc s =
     (case getattr t n of
        Some (FFloat c) \<Rightarrow> let (x, s1) = draw_gauss g s (fmul sc (fl (5 / 100)))
                             in (replace_field t n (FFloat (clip (fadd c x) lo hi)), s1)
      | _ \<Rightarrow> (Inl (tuning_type_error n), s))"
| "apply_one_mutation g (n, RelLarge lo hi) t sc s =
     (case getattr t n of
        Some (FFloat c) \<Rightarrow> let (x, s1) = draw_gauss g s (fmul sc (fl (5 / 100)))
                             in (replace_field t n (FFloat (clip (fmul c (fadd 1 x)) lo hi)), s1)
      | _ \<Rightarrow> (Inl (tuning_type_error n), s))"
| "apply_one_mutation g (n, IntWindow lo hi) t sc s =
     (case getattr t n of
        Some (FInt c) \<Rightarrow> let (x, s1) = draw_gauss g s (fmul sc 5)
                          in (replace_field t n (FInt (clip (rhe (fadd (of_int c) x)) lo hi)), s1)
      | _ \<Rightarrow> (Inl (tuning_type_error n), s))"
| "apply_one_mutation g (n, IntThreshold lo hi) t sc s =
     (case getattr t n of
        Some (FInt c) \<Rightarrow> let (x, s1) = draw_gauss g s (fmul sc 3)
                          in (replace_field t n (FInt (clip (rhe (fadd (of_int c) x)) lo hi)), s1)
      | _ \<Rightarrow> (Inl (tuning_type_error n), s))"
| "apply_one_mutation g (n, DictPerKey kw) t sc s =
     (case getattr t n of
        Some (FNumDict d) \<Rightarrow>
          let (d1, s1) = perturb_dict g (fmul sc (per_key kw)) kw d s;
              d2 = (case target_sum kw of None \<Rightarrow> d1 | Some target \<Rightarrow> rescale target d1)
          in (replace_field t n (FNumDict d2), s1)
      | _ \<Rightarrow> (Inl (tuning_type_error n), s))"
| "apply_one_mutation g (n, EnumKind allowed) t sc s =
     (case getattr t n of
        Some c \<Rightarrow>
          if c \<in> set allowed then
            (let (u, s1) = draw_random g s in
             if u < sc then
               (let others = filter (\<lambda>x. x \<noteq> c) allowed; (i, s2) = draw_choice g s1 (length others)
                in (if i < length others then replace_field t n (others ! i) else Inl (tuning_type_error n), s2))
             else (Inr t, s1))
          else (Inr t, s)
      | None \<Rightarrow> (Inl (tuning_type_error n), s))"
| "apply_one_mutation g (n, UnknownKind k) t sc s = (Inl (tuning_type_error n), s)"

definition MAX_RETRIES :: nat where
  "MAX_RETRIES = 5"

fun retry_mutation :: "'s rng \<Rightarrow> member \<Rightarrow> TuningConstants \<Rightarrow> rat \<Rightarrow> nat \<Rightarrow> 's \<Rightarrow> TuningConstants \<times> 's" where
  "retry_mutation g m t sc 0 s = (t, s)"
| "retry_mutation g m t sc (Suc k) s =
     (case apply_one_mutation g m t sc s of
        (Inl _, s1) \<Rightarrow> retry_mutation g m t sc k s1
      | (Inr t1, s1) \<Rightarrow> (t1, s1))"

text \<open>\<open>None\<close> is the \<open>ValueError\<close> of an unknown kind.\<close>

fun mutate_field :: "'s rng \<Rightarrow> member \<Rightarrow> TuningConstants \<Rightarrow> rat \<Rightarrow> 's \<Rightarrow> (TuningConstants \<times> 's) option" where
  "mutate_field g (n, UnknownKind k) t sc s = None"
| "mutate_field g m t sc s = Some (retry_mutation g m t sc (MAX_RETRIES + 1) s)"

section \<open>Clusters\<close>

text \<open>The step size of a field is a function of its name: one scale for all, or the scales of a report.\<close>

fun mutate_members ::
    "'s rng \<Rightarrow> member list \<Rightarrow> (string \<Rightarrow> rat) \<Rightarrow> TuningConstants \<Rightarrow> 's \<Rightarrow> (TuningConstants \<times> 's) option" where
  "mutate_members g [] sc t s = Some (t, s)"
| "mutate_members g (m # ms) sc t s =
     (case mutate_field g m t (sc (fst m)) s of None \<Rightarrow> None | Some (t1, s1) \<Rightarrow> mutate_members g ms sc t1 s1)"

text \<open>\<open>n_mutations\<close> is a count, so the negative sample size that raises has no place here.\<close>

definition mutate_cluster ::
    "'s rng \<Rightarrow> (string \<times> member list) list \<Rightarrow> TuningConstants \<Rightarrow> string \<Rightarrow> rat \<Rightarrow> nat option \<Rightarrow> 's
       \<Rightarrow> (TuningConstants \<times> 's) option" where
  "mutate_cluster g cm t cluster sc n_mutations s =
     (let members = get_default cm cluster [] in
      if members = [] then Some (t, s)
      else let k = min (case n_mutations of None \<Rightarrow> 1 | Some k \<Rightarrow> k) (length members);
               (picks, s1) = draw_sample g s (length members) k
           in mutate_members g (map ((!) members) picks) (\<lambda>_. sc) t s1)"

fun mutate_each :: "'s rng \<Rightarrow> (string \<times> member list) list \<Rightarrow> string list \<Rightarrow> rat \<Rightarrow> TuningConstants \<Rightarrow> 's
    \<Rightarrow> (TuningConstants \<times> 's) option" where
  "mutate_each g cm [] sc t s = Some (t, s)"
| "mutate_each g cm (c # cs) sc t s =
     (case mutate_cluster g cm t c sc None s of None \<Rightarrow> None | Some (t1, s1) \<Rightarrow> mutate_each g cm cs sc t1 s1)"

definition mutate_all_clusters :: "'s rng \<Rightarrow> (string \<times> member list) list \<Rightarrow> TuningConstants \<Rightarrow> rat \<Rightarrow> 's
    \<Rightarrow> (TuningConstants \<times> 's) option" where
  "mutate_all_clusters g cm t sc s = mutate_each g cm (keys_of cm) sc t s"

definition random_child :: "'s rng \<Rightarrow> (string \<times> member list) list \<Rightarrow> TuningConstants option \<Rightarrow> 's
    \<Rightarrow> (TuningConstants \<times> 's) option" where
  "random_child g cm parent s =
     (let base = (case parent of None \<Rightarrow> TUNING | Some t \<Rightarrow> t); (i, s1) = draw_choice g s (length cm)
      in mutate_cluster g cm base (keys_of cm ! i) 1 None s1)"

definition cluster_fields :: "string \<Rightarrow> (string \<times> member list) list \<Rightarrow> string list" where
  "cluster_fields cluster cm = map fst (get_default cm cluster [])"

definition all_clusters :: "(string \<times> member list) list \<Rightarrow> string list" where
  "all_clusters cm = keys_of cm"

section \<open>Fields do not interfere\<close>

lemma put_Some [simp]:
  "put_Float f1 v t = Some t' \<longleftrightarrow> (\<exists>x. v = FFloat x \<and> t' = f1 x t)"
  "put_Int f2 v t = Some t' \<longleftrightarrow> (\<exists>i. v = FInt i \<and> t' = f2 i t)"
  "put_NumDict f3 v t = Some t' \<longleftrightarrow> (\<exists>d. v = FNumDict d \<and> t' = f3 d t)"
  "put_StrDict f4 v t = Some t' \<longleftrightarrow> (\<exists>e. v = FStrDict e \<and> t' = f4 e t)"
  "put_StrSet f5 v t = Some t' \<longleftrightarrow> (\<exists>w. v = FStrSet w \<and> t' = f5 w t)"
  "put_IntTuple f6 v t = Some t' \<longleftrightarrow> (\<exists>l. v = FIntTuple l \<and> t' = f6 l t)"
  by (cases v; auto)+

lemma field_frame:
  "list_all (\<lambda>(n, g, p). \<forall>v t t'. p v t = Some t' \<longrightarrow>
      g t' = v \<and> list_all (\<lambda>(m, h, _). m = n \<or> h t' = h t) field_table) field_table"
  unfolding field_table_def by (simp add: imp_ex imp_conjL)

lemma replace_field_frame:
  assumes "replace_field t n v = Inr t'"
  shows "valid_tuning t' \<and> getattr t' n = Some v \<and> (\<forall>m. m \<noteq> n \<longrightarrow> getattr t' m = getattr t m)"
proof -
  obtain g p t1 where tab: "map_of field_table n = Some (g, p)" and put: "p v t = Some t1" and pi: "post_init t1 = Inr t'"
    using assms by (auto simp: replace_field_def split: option.splits)
  have t1: "t1 = t'" "valid_tuning t'" using post_init_Inr[OF pi] by auto
  have mem: "(n, g, p) \<in> set field_table" using map_of_SomeD[OF tab] .
  have fr: "g t' = v" "\<And>m h q. (m, h, q) \<in> set field_table \<Longrightarrow> m = n \<or> h t' = h t"
    using field_frame mem put t1 unfolding list_all_iff by fastforce+
  have "getattr t' m = getattr t m" if "m \<noteq> n" for m
  proof (cases "map_of field_table m")
    case (Some hq)
    obtain h q where hq: "hq = (h, q)" by (cases hq)
    then have "(m, h, q) \<in> set field_table" using Some map_of_SomeD by fastforce
    then show ?thesis using fr(2)[of m h q] that Some hq by (simp add: getattr_def)
  qed (simp add: getattr_def)
  then show ?thesis using fr(1) t1 tab by (simp add: getattr_def)
qed

section \<open>What one mutation can do\<close>

fun key_ok :: "dict_kwargs \<Rightarrow> string \<times> rat \<Rightarrow> bool" where
  "key_ok kw (k, v) = (case get_default (keys_bounds kw) k (dict_min kw, dict_max kw) of (lo, hi) \<Rightarrow> lo \<le> v \<and> v \<le> hi)"

text \<open>The bounds of a member, on the value of its field, and when they are coherent.\<close>

fun in_bounds :: "kind \<Rightarrow> fieldval option \<Rightarrow> bool" where
  "in_bounds (AbsSmall lo hi) (Some (FFloat x)) = (lo \<le> x \<and> x \<le> hi)"
| "in_bounds (RelLarge lo hi) (Some (FFloat x)) = (lo \<le> x \<and> x \<le> hi)"
| "in_bounds (IntWindow lo hi) (Some (FInt i)) = (lo \<le> i \<and> i \<le> hi)"
| "in_bounds (IntThreshold lo hi) (Some (FInt i)) = (lo \<le> i \<and> i \<le> hi)"
| "in_bounds (DictPerKey kw) (Some (FNumDict d)) =
     (target_sum kw \<noteq> None \<or> list_all (key_ok kw) d)"
| "in_bounds (EnumKind allowed) (Some v) = (v \<in> set allowed)"
| "in_bounds _ _ = False"

fun coherent :: "kind \<Rightarrow> bool" where
  "coherent (AbsSmall lo hi) = (lo \<le> hi)"
| "coherent (RelLarge lo hi) = (lo \<le> hi)"
| "coherent (IntWindow lo hi) = (lo \<le> hi)"
| "coherent (IntThreshold lo hi) = (lo \<le> hi)"
| "coherent (DictPerKey kw) = (dict_min kw \<le> dict_max kw \<and> list_all (\<lambda>(k, lo, hi). lo \<le> hi) (keys_bounds kw))"
| "coherent (EnumKind allowed) = True"
| "coherent (UnknownKind k) = False"

lemma clip_bounds: "lo \<le> hi \<Longrightarrow> lo \<le> clip x lo hi \<and> clip x lo hi \<le> hi"
  by (auto simp: clip_def)

lemma perturb_dict_bounds:
  "coherent (DictPerKey kw) \<Longrightarrow> perturb_dict g sigma kw d s = (d', s') \<Longrightarrow>
     map fst d' = map fst d \<and> list_all (key_ok kw) d'"
proof (induction d arbitrary: d' s s')
  case (Cons kv d)
  obtain k v where kv: "kv = (k, v)" by (cases kv)
  obtain lo hi where b: "get_default (keys_bounds kw) k (dict_min kw, dict_max kw) = (lo, hi)"
    by (cases "get_default (keys_bounds kw) k (dict_min kw, dict_max kw)")
  have "lo \<le> hi"
    using Cons.prems(1) b by (auto simp: get_default_def list_all_iff split: option.splits dest!: map_of_SomeD)
  moreover obtain x s1 where x: "draw_gauss g s sigma = (x, s1)" by (cases "draw_gauss g s sigma")
  moreover obtain rest s2 where r: "perturb_dict g sigma kw d s1 = (rest, s2)" by (cases "perturb_dict g sigma kw d s1")
  ultimately show ?case
    using Cons.IH[OF Cons.prems(1) r] Cons.prems(2) b clip_bounds[of lo hi] by (auto simp: kv)
qed simp

text \<open>The renormalised weights sum to the target exactly.\<close>

lemma add_last_sum: "xs \<noteq> [] \<Longrightarrow> sum_list (vals_of (add_last drift xs)) = sum_list (vals_of xs) + drift"
  by (induction drift xs rule: add_last.induct) (auto simp: vals_of_def)

lemma add_last_keys: "map fst (add_last drift xs) = map fst xs"
  by (induction drift xs rule: add_last.induct) auto

lemma rescale_sum:
  assumes "fsum (vals_of d) \<noteq> 0"
  shows "sum_list (vals_of (rescale target d)) = of_int target \<and> map fst (rescale target d) = map fst d"
proof -
  define scaled where "scaled = map (\<lambda>(k, v). (k, rhe (fmul v (fdiv (of_int target) (fsum (vals_of d)))))) d"
  have d: "d \<noteq> []" using assms by (auto simp: vals_of_def fsum_def)
  then have ne: "scaled \<noteq> []" by (simp add: scaled_def)
  define out where "out = add_last (target - sum_list (vals_of scaled)) scaled"
  have eq: "rescale target d = map (\<lambda>(k, v). (k, of_int v)) out"
    using assms by (simp add: rescale_def Let_def scaled_def out_def)
  have "sum_list (vals_of (map (\<lambda>(k, v). (k, rat_of_int v)) out)) = of_int (sum_list (vals_of out))"
    unfolding vals_of_def by (induction out) auto
  also have "\<dots> = of_int target" unfolding out_def add_last_sum[OF ne] by simp
  finally have "sum_list (vals_of (rescale target d)) = of_int target" by (simp add: eq)
  moreover have "map fst (rescale target d) = map fst d"
    unfolding eq by (simp add: split_def comp_def out_def add_last_keys) (simp add: scaled_def split_def comp_def)
  ultimately show ?thesis by simp
qed

lemma apply_one_sound:
  assumes "apply_one_mutation g (n, k) t sc s = (Inr t', s')" and "coherent k" and "valid_tuning t"
  shows "valid_tuning t' \<and> (\<forall>m. m \<noteq> n \<longrightarrow> getattr t' m = getattr t m) \<and> (t' = t \<or> in_bounds k (getattr t' n))"
proof -
  have "t' = t \<or> (\<exists>v. replace_field t n v = Inr t' \<and> in_bounds k (Some v))"
  proof (cases k)
    case (DictPerKey kw)
    obtain d where d: "getattr t n = Some (FNumDict d)"
      using assms(1) by (auto simp: DictPerKey split: option.splits fieldval.splits)
    obtain d1 s1 where p: "perturb_dict g (fmul sc (per_key kw)) kw d s = (d1, s1)"
      by (cases "perturb_dict g (fmul sc (per_key kw)) kw d s")
    show ?thesis
      using assms(1,2) perturb_dict_bounds[of kw g _ d s d1 s1] p
      by (auto simp: DictPerKey d Let_def split: option.splits)
  next
    case (EnumKind allowed)
    then show ?thesis
      using assms(1) by (auto simp: Let_def split: option.splits prod.splits if_splits dest: nth_mem)
  next
    case (UnknownKind x)
    then show ?thesis using assms by simp
  qed (use assms in \<open>fastforce simp: Let_def clip_bounds split: option.splits fieldval.splits prod.splits\<close>)+
  then show ?thesis using replace_field_frame assms(3) by fastforce
qed

lemma retry_sound:
  "retry_mutation g (n, k) t sc r s = (t', s') \<Longrightarrow> coherent k \<Longrightarrow> valid_tuning t \<Longrightarrow>
     valid_tuning t' \<and> (\<forall>m. m \<noteq> n \<longrightarrow> getattr t' m = getattr t m) \<and> (t' = t \<or> in_bounds k (getattr t' n))"
  by (induction r arbitrary: s) (auto simp: apply_one_sound split: prod.splits sum.splits)

lemma mutate_field_Some:
  "mutate_field g (n, k) t sc s = (case k of UnknownKind x \<Rightarrow> None
     | _ \<Rightarrow> Some (retry_mutation g (n, k) t sc (MAX_RETRIES + 1) s))"
  by (cases k) auto

text \<open>
  One mutation is local and safe. Mutating a field of a valid tuning, whatever the random draws and however
  many of the six attempts fail, gives a valid tuning that differs at most in that field, whose value is then
  inside the field's bounds; only an unknown kind raises.
\<close>

theorem mutate_field_sound:
  assumes "valid_tuning t" "coherent k"
  shows "\<exists>t' s'. mutate_field g (n, k) t sc s = Some (t', s') \<and> valid_tuning t'
    \<and> (\<forall>m. m \<noteq> n \<longrightarrow> getattr t' m = getattr t m) \<and> (t' = t \<or> in_bounds k (getattr t' n))"
proof -
  obtain t' s' where r: "retry_mutation g (n, k) t sc (MAX_RETRIES + 1) s = (t', s')"
    by (cases "retry_mutation g (n, k) t sc (MAX_RETRIES + 1) s")
  have "mutate_field g (n, k) t sc s = Some (t', s')"
    using assms(2) r by (cases k) auto
  then show ?thesis using retry_sound[OF r assms(2,1)] by blast
qed

lemma mutate_members_sound:
  "mutate_members g ms sc t s = Some (t', s') \<Longrightarrow> list_all (\<lambda>(n, k). coherent k) ms \<Longrightarrow> valid_tuning t \<Longrightarrow>
     valid_tuning t' \<and> (\<forall>n. n \<notin> set (map fst ms) \<longrightarrow> getattr t' n = getattr t n)"
  "list_all (\<lambda>(n, k). coherent k) ms \<Longrightarrow> mutate_members g ms sc t s \<noteq> None"
proof (induction ms arbitrary: t s)
  case (Cons m ms)
  obtain n k where m: "m = (n, k)" by (cases m)
  have mf: "coherent k \<Longrightarrow> mutate_field g m t (sc n) s = Some (retry_mutation g m t (sc n) (MAX_RETRIES + 1) s)" for t s
    by (cases k) (auto simp: m)
  {
    case 1
    obtain t1 s1 where r: "retry_mutation g m t (sc n) (MAX_RETRIES + 1) s = (t1, s1)"
      by (cases "retry_mutation g m t (sc n) (MAX_RETRIES + 1) s")
    have k: "coherent k" using 1(2) by (simp add: m)
    have "valid_tuning t1 \<and> (\<forall>j. j \<noteq> n \<longrightarrow> getattr t1 j = getattr t j)"
      using retry_sound[OF r[unfolded m] k] 1(3) by blast
    moreover have "mutate_members g ms sc t1 s1 = Some (t', s')"
      using 1(1) mf[OF k, of t s] r by (simp add: m)
    ultimately show ?case using Cons.IH(1)[of t1 s1] 1(2) by (auto simp: m)
  next
    case 2
    then show ?case using mf[of t s] Cons.IH(2) by (auto simp: m split: prod.splits)
  }
qed simp_all

text \<open>Bounds are kept by a sequence of mutations of distinct fields.\<close>

lemma mutate_members_bounds:
  "mutate_members g ms sc t s = Some (t', s') \<Longrightarrow> list_all (\<lambda>(n, k). coherent k) ms \<Longrightarrow> valid_tuning t \<Longrightarrow>
     distinct (map fst all) \<Longrightarrow> set ms \<subseteq> set all \<Longrightarrow> (n, k) \<in> set all \<Longrightarrow> in_bounds k (getattr t n) \<Longrightarrow>
     in_bounds k (getattr t' n)"
proof (induction ms arbitrary: t s)
  case (Cons m ms)
  obtain a b where m: "m = (a, b)" by (cases m)
  obtain t1 s1 where r: "retry_mutation g m t (sc a) (MAX_RETRIES + 1) s = (t1, s1)"
    by (cases "retry_mutation g m t (sc a) (MAX_RETRIES + 1) s")
  have b: "coherent b" using Cons.prems(2) by (simp add: m)
  have mf: "mutate_field g m t (sc a) s = Some (t1, s1)" using b r by (cases b) (auto simp: m)
  have t1: "valid_tuning t1" "\<forall>j. j \<noteq> a \<longrightarrow> getattr t1 j = getattr t j" "t1 = t \<or> in_bounds b (getattr t1 a)"
    using retry_sound[OF r[unfolded m] b Cons.prems(3)] by blast+
  have "in_bounds k (getattr t1 n)"
  proof (cases "n = a")
    case True
    have "(a, b) \<in> set all" using Cons.prems(5) by (simp add: m)
    then have "b = k" using True Cons.prems(4,6) by (metis eq_key_imp_eq_value)
    then show ?thesis using t1(3) True Cons.prems(7) by auto
  qed (use t1(2) Cons.prems(7) in simp)
  then show ?case using Cons.IH[of t1 s1] Cons.prems t1(1) mf by (simp add: m)
qed simp

section \<open>The search never leaves its box\<close>

text \<open>What \<open>random.sample\<close> promises: distinct positions, as many as asked for.\<close>

definition sample_ok :: "'s rng \<Rightarrow> bool" where
  "sample_ok g \<longleftrightarrow> (\<forall>s n k picks s'. draw_sample g s n k = (picks, s') \<and> k \<le> n \<longrightarrow>
     length picks = k \<and> distinct picks \<and> (\<forall>i \<in> set picks. i < n))"

definition all_members :: "member list" where
  "all_members = concat (map snd DEFAULT_CLUSTER_MAP)"

lemma members_coherent: "list_all (\<lambda>(n, k). coherent k) all_members"
  unfolding all_members_def by code_simp

lemma members_distinct: "distinct (map fst all_members)"
  unfolding all_members_def by code_simp

lemma clusters_distinct: "distinct (map fst DEFAULT_CLUSTER_MAP)"
  by (simp add: DEFAULT_CLUSTER_MAP_def)

lemma cluster_subset: "set (get_default DEFAULT_CLUSTER_MAP c []) \<subseteq> set all_members"
  by (cases "map_of DEFAULT_CLUSTER_MAP c") (force simp: get_default_def all_members_def dest: map_of_SomeD)+

definition in_box :: "TuningConstants \<Rightarrow> bool" where
  "in_box t \<longleftrightarrow> valid_tuning t \<and> list_all (\<lambda>(n, k). in_bounds k (getattr t n)) all_members"

lemma mutate_cluster_sound:
  assumes g: "sample_ok g" and t: "valid_tuning t"
  shows "\<exists>t' s'. mutate_cluster g DEFAULT_CLUSTER_MAP t c sc k s = Some (t', s') \<and> valid_tuning t'
    \<and> (\<forall>n. n \<notin> set (cluster_fields c DEFAULT_CLUSTER_MAP) \<longrightarrow> getattr t' n = getattr t n)
    \<and> (in_box t \<longrightarrow> in_box t')"
proof -
  define ms where "ms = get_default DEFAULT_CLUSTER_MAP c []"
  show ?thesis
  proof (cases "ms = []")
    case True
    then show ?thesis using t by (simp add: mutate_cluster_def ms_def)
  next
    case False
    define j where "j = min (case k of None \<Rightarrow> 1 | Some k \<Rightarrow> k) (length ms)"
    obtain picks s1 where d: "draw_sample g s (length ms) j = (picks, s1)" by (cases "draw_sample g s (length ms) j")
    have "j \<le> length ms" by (simp add: j_def)
    then have picks: "\<forall>i \<in> set picks. i < length ms" using g d unfolding sample_ok_def by blast
    define chosen where "chosen = map ((!) ms) picks"
    have ch: "set chosen \<subseteq> set ms" using picks by (auto simp: chosen_def)
    then have sub: "set chosen \<subseteq> set all_members" using cluster_subset[of c] by (auto simp: ms_def)
    then have coh: "list_all (\<lambda>(n, k). coherent k) chosen" using members_coherent by (auto simp: list_all_iff)
    obtain t' s' where r: "mutate_members g chosen (\<lambda>_. sc) t s1 = Some (t', s')"
      using mutate_members_sound(2)[OF coh, of g "\<lambda>_. sc" t s1] by auto
    have run: "mutate_cluster g DEFAULT_CLUSTER_MAP t c sc k s = Some (t', s')"
      using False d r by (simp add: mutate_cluster_def ms_def[symmetric] j_def[symmetric] chosen_def)
    have v: "valid_tuning t'" "\<forall>n. n \<notin> set (map fst chosen) \<longrightarrow> getattr t' n = getattr t n"
      using mutate_members_sound(1)[OF r coh t] by auto
    have frame: "\<forall>n. n \<notin> set (cluster_fields c DEFAULT_CLUSTER_MAP) \<longrightarrow> getattr t' n = getattr t n"
      using v(2) ch by (auto simp: cluster_fields_def ms_def)
    have "in_box t'" if "in_box t"
      using that v(1) mutate_members_bounds[OF r coh t members_distinct sub]
      by (auto simp: in_box_def list_all_iff)
    then show ?thesis using run v(1) frame by blast
  qed
qed

text \<open>The tunings a search can reach from a root: any clusters, step sizes, counts and draws, in any order.\<close>

inductive evolves :: "'s rng \<Rightarrow> TuningConstants \<Rightarrow> TuningConstants \<Rightarrow> bool" for g :: "'s rng" and t0 where
  root: "evolves g t0 t0"
| mutate: "evolves g t0 t \<Longrightarrow> mutate_cluster g DEFAULT_CLUSTER_MAP t c sc k s = Some (t', s') \<Longrightarrow> evolves g t0 t'"

text \<open>
  C17: The search never leaves its box. Whatever clusters are mutated, with whatever step sizes and draws, every
  tuning reachable from a valid root inside the declared bounds is valid and inside them, and the frozen
  fields (Fibonacci targets, take-profit split, higher-timeframe rules, extended patterns, funding default)
  keep the root's values.
\<close>

theorem search_stays_in_box:
  assumes g: "sample_ok g" and root_ok: "in_box t0" and path: "evolves g t0 t"
  shows "in_box t \<and> (\<forall>n. n \<notin> set (map fst all_members) \<longrightarrow> getattr t n = getattr t0 n)"
  using path
proof (induction rule: evolves.induct)
  case root
  then show ?case using root_ok by simp
next
  case (mutate t c sc k s t' s')
  have v: "valid_tuning t" using mutate.IH by (simp add: in_box_def)
  have "set (cluster_fields c DEFAULT_CLUSTER_MAP) \<subseteq> set (map fst all_members)"
    using cluster_subset[of c] by (auto simp: cluster_fields_def)
  moreover have "\<forall>n. n \<notin> set (cluster_fields c DEFAULT_CLUSTER_MAP) \<longrightarrow> getattr t' n = getattr t n" "in_box t'"
    using mutate_cluster_sound[OF g v, of c sc k s] mutate.IH mutate.hyps(2) by auto
  ultimately show ?case using mutate.IH by (metis subsetD)
qed

text \<open>The two tables of clusters, one in each module, do not agree.\<close>

lemma cluster_tables_disagree:
  "''min_candles'' \<in> set (cluster_fields ''C5 Windows'' DEFAULT_CLUSTER_MAP)"
  "''min_candles'' \<in> set (get_default clusters ''C3 Confluence'' [])"
  "''tp_close_pcts'' \<in> set (get_default clusters ''C1 Geometry'' [])"
  "''tp_close_pcts'' \<notin> set (map fst all_members)"
  by (simp_all add: cluster_fields_def DEFAULT_CLUSTER_MAP_def clusters_def get_default_def all_members_def)

text \<open>The weights after a mutation sum to 100 exactly, unless the perturbed ones sum to zero.\<close>

lemma mutated_weights_sum:
  "fsum (vals_of d) \<noteq> 0 \<Longrightarrow> sum_list (vals_of (rescale 100 d)) = 100"
  using rescale_sum[of d 100] by simp

section \<open>The default tuning is in the box\<close>

lemma default_literals:
  "fl (5 / 100) \<le> fl (3 / 10)" "fl (2 / 10000) \<le> fl (1 / 1000)" "fl (1 / 1000) \<le> fl (5 / 1000)"
  "fl (1 / 10000) \<le> fl (1 / 2000)" "fl (1 / 2000) \<le> fl (5 / 1000)" "fl (3 / 10) \<le> 1" "fl (3 / 10) \<le> fl (3 / 5)"
  "fl (3 / 5) \<le> 1" "fl (2 / 10) \<le> 1 / 2" "fl (2 / 10) \<le> fl (3 / 10)" "fl (3 / 10) \<le> 1 / 2" "fl (1 / 10) \<le> 1 / 4"
  "1 / 4 \<le> fl (4 / 10)" "- (1 / 2) \<le> fl (- 2 / 10)" "fl (8 / 10) \<le> 1" "fl (3 / 5) \<le> fl (9 / 10)" "1 / 2 \<le> fl (9 / 10)"
  "fl (9 / 10) \<le> fl (6 / 5)" "fl (6 / 5) \<le> 3 / 2" "1 / 2 \<le> fl (4 / 5)" "fl (4 / 5) \<le> 1" "fl (1 / 5) \<le> 1 / 2"
  by code_simp+

lemma getattr_members:
  "getattr t ''atr_prz_sweep'' = Some (FFloat (atr_prz_sweep t))"
  "getattr t ''fee_rate'' = Some (FFloat (fee_rate t))"
  "getattr t ''slippage_rate'' = Some (FFloat (slippage_rate t))"
  "getattr t ''atr_stop_buffer'' = Some (FNumDict (atr_stop_buffer t))"
  "getattr t ''max_d_age_bars'' = Some (FInt (max_d_age_bars t))"
  "getattr t ''max_prz_distance_atr'' = Some (FFloat (max_prz_distance_atr t))"
  "getattr t ''max_forming_prz_width_atr'' = Some (FFloat (max_forming_prz_width_atr t))"
  "getattr t ''authenticity_halve'' = Some (FInt (authenticity_halve t))"
  "getattr t ''authenticity_veto'' = Some (FInt (authenticity_veto t))"
  "getattr t ''adverse_sharpe_threshold'' = Some (FFloat (adverse_sharpe_threshold t))"
  "getattr t ''regime_moderate'' = Some (FInt (regime_moderate t))"
  "getattr t ''regime_high'' = Some (FInt (regime_high t))"
  "getattr t ''target_atr_pct'' = Some (FFloat (target_atr_pct t))"
  "getattr t ''default_ttl_bars'' = Some (FInt (default_ttl_bars t))"
  "getattr t ''a_grade_min'' = Some (FInt (a_grade_min t))"
  "getattr t ''a_grade_min_high_quant'' = Some (FInt (a_grade_min_high_quant t))"
  "getattr t ''high_quant_position_mult'' = Some (FFloat (high_quant_position_mult t))"
  "getattr t ''confluence_weights'' = Some (FNumDict (confluence_weights t))"
  "getattr t ''pattern_base_score'' = Some (FNumDict (pattern_base_score t))"
  "getattr t ''stability_window'' = Some (FInt (stability_window t))"
  "getattr t ''slope_trend_up'' = Some (FFloat (slope_trend_up t))"
  "getattr t ''slope_trend_down'' = Some (FFloat (slope_trend_down t))"
  "getattr t ''mult_trending_aligned'' = Some (FFloat (mult_trending_aligned t))"
  "getattr t ''mult_ranging_aligned'' = Some (FFloat (mult_ranging_aligned t))"
  "getattr t ''mult_trending_inverse'' = Some (FFloat (mult_trending_inverse t))"
  "getattr t ''mult_ranging_inverse'' = Some (FFloat (mult_ranging_inverse t))"
  "getattr t ''mult_extreme_inverse'' = Some (FFloat (mult_extreme_inverse t))"
  "getattr t ''mult_data_short'' = Some (FFloat (mult_data_short t))"
  "getattr t ''extreme_deviation_pct'' = Some (FFloat (extreme_deviation_pct t))"
  "getattr t ''min_daily_bars'' = Some (FInt (min_daily_bars t))"
  "getattr t ''min_candles'' = Some (FInt (min_candles t))"
  "getattr t ''atr_window'' = Some (FInt (atr_window t))"
  "getattr t ''atr_long_window'' = Some (FInt (atr_long_window t))"
  "getattr t ''rsi_window'' = Some (FInt (rsi_window t))"
  "getattr t ''volume_ma_window'' = Some (FInt (volume_ma_window t))"
  "getattr t ''swing_lookback'' = Some (FInt (swing_lookback t))"
  "getattr t ''quant_trap_lookback'' = Some (FInt (quant_trap_lookback t))"
  "getattr t ''volume_authenticity_window'' = Some (FInt (volume_authenticity_window t))"
  "getattr t ''quant_regime_window'' = Some (FInt (quant_regime_window t))"
  "getattr t ''per_bar_sharpe_window'' = Some (FInt (per_bar_sharpe_window t))"
  by (simp_all add: getattr_def field_table_def)

lemma TUNING_members:
  "atr_prz_sweep TUNING = fl (3 / 10)"
  "fee_rate TUNING = fl (1 / 1000)"
  "slippage_rate TUNING = fl (1 / 2000)"
  "atr_stop_buffer TUNING = [(''conservative'', 1), (''standard'', fl (3 / 10)), (''aggressive'', 1 / 4)]"
  "max_d_age_bars TUNING = 20"
  "max_prz_distance_atr TUNING = 3"
  "max_forming_prz_width_atr TUNING = 1"
  "authenticity_halve TUNING = 40"
  "authenticity_veto TUNING = 25"
  "adverse_sharpe_threshold TUNING = 1"
  "regime_moderate TUNING = 35"
  "regime_high TUNING = 60"
  "target_atr_pct TUNING = 5 / 2"
  "default_ttl_bars TUNING = 40"
  "a_grade_min TUNING = 70"
  "a_grade_min_high_quant TUNING = 85"
  "high_quant_position_mult TUNING = fl (3 / 5)"
  "confluence_weights TUNING = [(''price_action'', 25), (''htf_trend'', 25), (''rsi'', 15), (''structure'', 15), (''macd'', 10), (''funding'', 10)]"
  "pattern_base_score TUNING = [(''gartley'', 5), (''bat'', 2), (''butterfly'', 0), (''crab'', - 3), (''deep crab'', - 5), (''shark'', - 8)]"
  "stability_window TUNING = 5"
  "slope_trend_up TUNING = 1 / 2"
  "slope_trend_down TUNING = - (1 / 2)"
  "mult_trending_aligned TUNING = 1"
  "mult_ranging_aligned TUNING = 1"
  "mult_trending_inverse TUNING = fl (3 / 5)"
  "mult_ranging_inverse TUNING = 1 / 2"
  "mult_extreme_inverse TUNING = fl (6 / 5)"
  "mult_data_short TUNING = fl (4 / 5)"
  "extreme_deviation_pct TUNING = 20"
  "min_daily_bars TUNING = 210"
  "min_candles TUNING = 60"
  "atr_window TUNING = 14"
  "atr_long_window TUNING = 100"
  "rsi_window TUNING = 14"
  "volume_ma_window TUNING = 20"
  "swing_lookback TUNING = 60"
  "quant_trap_lookback TUNING = 60"
  "volume_authenticity_window TUNING = 60"
  "quant_regime_window TUNING = 100"
  "per_bar_sharpe_window TUNING = 20"
  by (simp_all add: TUNING_def)

lemma default_in_box: "in_box TUNING"
proof -
  have "list_all (\<lambda>(n, k). in_bounds k (getattr TUNING n)) (snd c)" if "c \<in> set DEFAULT_CLUSTER_MAP" for c
    using that default_literals unfolding DEFAULT_CLUSTER_MAP_def
    by (auto simp: getattr_members TUNING_members dict_of_def get_default_def)
  then have "list_all (\<lambda>(n, k). in_bounds k (getattr TUNING n)) all_members"
    by (auto simp: all_members_def list_all_iff)
  then show ?thesis using TUNING_valid by (simp add: in_box_def)
qed

section \<open>Witnesses\<close>

text \<open>A generator that draws a step of one standard deviation and picks the first members.\<close>

definition demo_rng :: "unit rng" where
  "demo_rng = \<lparr>draw_gauss = \<lambda>s sigma. (sigma, s), draw_random = \<lambda>s. (0, s), draw_choice = \<lambda>s n. (0, s),
     draw_sample = \<lambda>s n k. ([0..<k], s)\<rparr>"

lemma demo_sample: "sample_ok demo_rng"
  by (simp add: sample_ok_def demo_rng_def)

lemma mutate_field_sound_witness:
  "\<exists>t' s'. mutate_field demo_rng (''rsi_window'', IntWindow 5 30) TUNING 1 () = Some (t', s') \<and> valid_tuning t'
    \<and> (\<forall>m. m \<noteq> ''rsi_window'' \<longrightarrow> getattr t' m = getattr TUNING m)
    \<and> (t' = TUNING \<or> in_bounds (IntWindow 5 30) (getattr t' ''rsi_window''))"
  by (rule mutate_field_sound) (simp_all add: TUNING_valid)

lemma search_stays_in_box_witness:
  "\<exists>t s. mutate_cluster demo_rng DEFAULT_CLUSTER_MAP TUNING ''C5 Windows'' 1 (Some 2) () = Some (t, s) \<and> in_box t
    \<and> (\<forall>n. n \<notin> set (map fst all_members) \<longrightarrow> getattr t n = getattr TUNING n)"
proof -
  obtain t s where r: "mutate_cluster demo_rng DEFAULT_CLUSTER_MAP TUNING ''C5 Windows'' 1 (Some 2) () = Some (t, s)"
    using mutate_cluster_sound[OF demo_sample TUNING_valid, of "''C5 Windows''" 1 "Some 2" "()"] by auto
  have "evolves demo_rng TUNING t" by (rule evolves.mutate[OF evolves.root r])
  then show ?thesis using search_stays_in_box[OF demo_sample default_in_box, of t] r by blast
qed

end
