(* ===== verification/Search.thy ===== *)
theory Search
  imports Mutation
begin

text \<open>
  \<^verbatim>\<open>app/loop/search.py\<close>, \<^verbatim>\<open>app/loop/sensitivity.py\<close> and the candidate builder and state summary of
  \<^verbatim>\<open>app/loop/baseline.py\<close>: the safety rails of a generation, the children it writes for the driver, and
  the sensitivity report that scales their steps. The fitness function of a scan is an argument. A JSON
  file keeps numbers exactly, so a tuning is written as the dict of \<open>to_dict\<close>.
\<close>

section \<open>Decimal numerals\<close>

fun nat_text :: "nat \<Rightarrow> string" where
  "nat_text n = (if n < 10 then [char_of (48 + n)] else nat_text (n div 10) @ [char_of (48 + n mod 10)])"

declare nat_text.simps [simp del]

definition int_text :: "int \<Rightarrow> string" where
  "int_text i = (if i < 0 then CHR ''-'' # nat_text (nat (- i)) else nat_text (nat i))"

text \<open>The format \<open>{i:03d}\<close>.\<close>

definition pad3 :: "nat \<Rightarrow> string" where
  "pad3 i = replicate (3 - length (nat_text i)) CHR ''0'' @ nat_text i"

definition decimal :: "string \<Rightarrow> nat" where
  "decimal s = foldl (\<lambda>a c. 10 * a + (of_char c - 48)) 0 s"

lemma digit_value: "d < 10 \<Longrightarrow> of_char (char_of (48 + d) :: char) - 48 = (d :: nat)"
  by simp

lemma decimal_nat_text: "decimal (nat_text n) = n"
proof (induction n rule: nat_text.induct)
  case (1 n)
  show ?case
  proof (cases "n < 10")
    case True
    then show ?thesis by (subst nat_text.simps) (simp add: decimal_def)
  next
    case False
    then show ?thesis using 1 by (subst nat_text.simps) (simp add: decimal_def)
  qed
qed

lemma decimal_zeros: "decimal (replicate k CHR ''0'' @ s) = decimal s"
  by (induction k) (simp_all add: decimal_def)

lemma pad3_inject [simp]: "pad3 i = pad3 j \<longleftrightarrow> i = j"
  by (metis pad3_def decimal_zeros decimal_nat_text)

section \<open>The sensitivity report\<close>

record field_sensitivity =
  fs_field :: string
  fs_cluster :: string
  fs_kind :: kind
  fs_baseline :: "fieldval option"
  fs_plus :: rat
  fs_minus :: rat
  fs_gradient :: rat
  fs_scale :: rat

record sensitivity_report =
  sr_fields :: "field_sensitivity list"
  sr_default :: rat

definition scale_for :: "sensitivity_report \<Rightarrow> string \<Rightarrow> rat" where
  "scale_for r f = (case find (\<lambda>x. fs_field x = f) (sr_fields r) of Some x \<Rightarrow> fs_scale x | None \<Rightarrow> sr_default r)"

text \<open>The scale rule: \<open>clip(0.5 / (gradient + 1e-6), 0.25, 4.0)\<close>.\<close>

definition recommended_scale :: "rat \<Rightarrow> rat" where
  "recommended_scale grad = max (1 / 4) (min 4 (fdiv (1 / 2) (fadd grad (fl (1 / 10 ^ 6)))))"

definition scan_field ::
    "'s rng \<Rightarrow> (TuningConstants \<Rightarrow> rat) \<Rightarrow> TuningConstants \<Rightarrow> rat \<Rightarrow> string \<Rightarrow> member \<Rightarrow> 's
       \<Rightarrow> (field_sensitivity \<times> 's) option" where
  "scan_field g fitness baseline sigma cluster m s =
     (case mutate_field g m baseline sigma s of
        None \<Rightarrow> None
      | Some (up, s1) \<Rightarrow>
          (case mutate_field g m baseline (- sigma) s1 of
             None \<Rightarrow> None
           | Some (down, s2) \<Rightarrow>
               let base_fitness = fitness baseline;
                   plus_delta = fsub (fitness up) base_fitness;
                   minus_delta = fsub (fitness down) base_fitness;
                   grad_abs = fdiv (fadd \<bar>plus_delta\<bar> \<bar>minus_delta\<bar>) 2
               in Some (\<lparr>fs_field = fst m, fs_cluster = cluster, fs_kind = snd m, fs_baseline = getattr baseline (fst m),
                         fs_plus = plus_delta, fs_minus = minus_delta, fs_gradient = grad_abs,
                         fs_scale = recommended_scale grad_abs\<rparr>, s2)))"

fun scan_members ::
    "'s rng \<Rightarrow> (TuningConstants \<Rightarrow> rat) \<Rightarrow> TuningConstants \<Rightarrow> rat \<Rightarrow> string list \<Rightarrow> string \<Rightarrow> member list \<Rightarrow> 's
       \<Rightarrow> (field_sensitivity list \<times> 's) option" where
  "scan_members g fitness baseline sigma skip cluster [] s = Some ([], s)"
| "scan_members g fitness baseline sigma skip cluster (m # ms) s =
     (if fst m \<in> set skip then scan_members g fitness baseline sigma skip cluster ms s
      else case scan_field g fitness baseline sigma cluster m s of
             None \<Rightarrow> None
           | Some (x, s1) \<Rightarrow> map_option (\<lambda>(xs, s2). (x # xs, s2)) (scan_members g fitness baseline sigma skip cluster ms s1))"

fun scan_clusters ::
    "'s rng \<Rightarrow> (TuningConstants \<Rightarrow> rat) \<Rightarrow> TuningConstants \<Rightarrow> rat \<Rightarrow> string list \<Rightarrow> (string \<times> member list) list \<Rightarrow> 's
       \<Rightarrow> (field_sensitivity list \<times> 's) option" where
  "scan_clusters g fitness baseline sigma skip [] s = Some ([], s)"
| "scan_clusters g fitness baseline sigma skip ((c, ms) # cm) s =
     (case scan_members g fitness baseline sigma skip c ms s of
        None \<Rightarrow> None
      | Some (xs, s1) \<Rightarrow> map_option (\<lambda>(ys, s2). (xs @ ys, s2)) (scan_clusters g fitness baseline sigma skip cm s1))"

text \<open>\<open>None\<close> is the \<open>ValueError\<close> of an unknown kind in the cluster map.\<close>

definition sensitivity_scan ::
    "'s rng \<Rightarrow> (TuningConstants \<Rightarrow> rat) \<Rightarrow> TuningConstants option \<Rightarrow> rat \<Rightarrow> string list \<Rightarrow> (string \<times> member list) list \<Rightarrow> 's
       \<Rightarrow> sensitivity_report option" where
  "sensitivity_scan g fitness baseline sigma skip cm s =
     map_option (\<lambda>(xs, _). \<lparr>sr_fields = xs, sr_default = 1\<rparr>)
       (scan_clusters g fitness (case baseline of None \<Rightarrow> TUNING | Some t \<Rightarrow> t) sigma skip cm s)"

section \<open>Safety rails\<close>

definition DEFAULT_WEEKLY_BUDGET_USD :: rat where "DEFAULT_WEEKLY_BUDGET_USD = 25"
definition DEFAULT_DOLLARS_PER_CPU_SECOND :: rat where "DEFAULT_DOLLARS_PER_CPU_SECOND = fl (1 / 10000)"

text \<open>The argument is the environment variable \<open>DISABLE_LOOP_BUDGET\<close>.\<close>

definition budget_defaults :: "string option \<Rightarrow> rat \<times> rat" where
  "budget_defaults env =
     (if env = Some ''1'' then (0, 0) else (DEFAULT_WEEKLY_BUDGET_USD, DEFAULT_DOLLARS_PER_CPU_SECOND))"

record generation_config =
  gc_gen :: int
  gc_parent_sha :: string
  gc_parent :: TuningConstants
  gc_cluster :: string
  gc_lambda :: int
  gc_sigma :: rat
  gc_n_mutations :: int
  gc_timeout :: int
  gc_budget :: rat
  gc_rate :: rat

definition estimate_cost :: "generation_config \<Rightarrow> rat \<Rightarrow> rat" where
  "estimate_cost cfg elapsed = fmul elapsed (gc_rate cfg)"

record safety_check =
  sc_name :: string
  sc_ok :: bool

definition check_safety :: "generation_config \<Rightarrow> rat \<Rightarrow> safety_check list" where
  "check_safety cfg spend =
     (let over_budget = 0 < gc_budget cfg \<and> gc_budget cfg < fadd spend (fmul (of_int (gc_lambda cfg)) (fl (1 / 100)))
      in [\<lparr>sc_name = ''diff_size'', sc_ok = gc_n_mutations cfg \<le> 5\<rparr>,
          \<lparr>sc_name = ''timeout_floor'', sc_ok = 60 \<le> gc_timeout cfg\<rparr>,
          \<lparr>sc_name = ''weekly_budget'', sc_ok = \<not> over_budget\<rparr>,
          \<lparr>sc_name = ''cluster_exists'', sc_ok = has_key DEFAULT_CLUSTER_MAP (gc_cluster cfg)\<rparr>])"

section \<open>Children\<close>

datatype search_error = NoSuchCluster string | NegativeSample | BadKind

type_synonym candidate = "string \<times> (string \<times> fieldval) list"

definition child_of ::
    "'s rng \<Rightarrow> sensitivity_report option \<Rightarrow> TuningConstants \<Rightarrow> string \<Rightarrow> member list \<Rightarrow> rat \<Rightarrow> int \<Rightarrow> 's
       \<Rightarrow> search_error + TuningConstants \<times> 's" where
  "child_of g sens parent cluster members sigma n s =
     (case sens of
        None \<Rightarrow>
          if members = [] then Inr (parent, s)
          else if n < 0 then Inl NegativeSample
          else (case mutate_cluster g DEFAULT_CLUSTER_MAP parent cluster sigma (Some (nat n)) s of
                  None \<Rightarrow> Inl BadKind | Some r \<Rightarrow> Inr r)
      | Some report \<Rightarrow>
          if n < 0 then Inl NegativeSample
          else let (picks, s1) = draw_sample g s (length members) (min (nat n) (length members))
               in case mutate_members g (map ((!) members) picks) (scale_for report) parent s1 of
                    None \<Rightarrow> Inl BadKind | Some r \<Rightarrow> Inr r)"

definition candidate_id :: "int \<Rightarrow> string \<Rightarrow> nat \<Rightarrow> string" where
  "candidate_id gen cluster i =
     ''gen'' @ int_text gen @ ''-'' @ filter (\<lambda>c. c \<noteq> CHR '' '') cluster @ ''-'' @ pad3 i"

fun make_children ::
    "'s rng \<Rightarrow> sensitivity_report option \<Rightarrow> TuningConstants \<Rightarrow> string \<Rightarrow> member list \<Rightarrow> rat \<Rightarrow> int \<Rightarrow> int \<Rightarrow> nat \<Rightarrow> nat \<Rightarrow> 's
       \<Rightarrow> search_error + candidate list" where
  "make_children g sens parent cluster members sigma n gen i 0 s = Inr []"
| "make_children g sens parent cluster members sigma n gen i (Suc k) s =
     ebind (child_of g sens parent cluster members sigma n s) (\<lambda>(child, s1).
     ebind (make_children g sens parent cluster members sigma n gen (Suc i) k s1) (\<lambda>rest.
       Inr ((candidate_id gen cluster i, to_dict child) # rest)))"

definition make_child_candidates ::
    "'s rng \<Rightarrow> sensitivity_report option \<Rightarrow> TuningConstants \<Rightarrow> string \<Rightarrow> int \<Rightarrow> rat \<Rightarrow> int \<Rightarrow> int \<Rightarrow> 's
       \<Rightarrow> search_error + candidate list" where
  "make_child_candidates g sens parent cluster lambda sigma n gen s =
     (case map_of DEFAULT_CLUSTER_MAP cluster of
        None \<Rightarrow> Inl (NoSuchCluster cluster)
      | Some members \<Rightarrow> make_children g sens parent cluster members sigma n gen 0 (nat lambda) s)"

text \<open>The payload of \<open>next_generation.json\<close> and of the baseline file.\<close>

record cand_payload =
  cp_gen :: int
  cp_cluster :: string
  cp_symbols :: string
  cp_quarter :: "string option"
  cp_candidates :: "candidate list"

record generation_result =
  gr_gen :: int
  gr_cluster :: string
  gr_parent_sha :: string
  gr_candidates :: "candidate list"
  gr_safety :: "safety_check list"
  gr_skipped :: bool
  gr_skip :: "string list"

text \<open>The result, and the new content of \<open>next_generation.json\<close> when the run writes it.\<close>

definition run_generation ::
    "'s rng \<Rightarrow> generation_config \<Rightarrow> sensitivity_report option \<Rightarrow> rat \<Rightarrow> string \<Rightarrow> string option \<Rightarrow> 's
       \<Rightarrow> search_error + generation_result \<times> cand_payload option" where
  "run_generation g cfg sens spend symbols quarter s =
     (let safety = check_safety cfg spend;
          result = \<lparr>gr_gen = gc_gen cfg, gr_cluster = gc_cluster cfg, gr_parent_sha = gc_parent_sha cfg, gr_candidates = [],
                    gr_safety = safety, gr_skipped = False, gr_skip = []\<rparr>
      in if \<not> list_all sc_ok safety
         then Inr (result\<lparr>gr_skipped := True, gr_skip := map sc_name (filter (\<lambda>c. \<not> sc_ok c) safety)\<rparr>, None)
         else ebind (make_child_candidates g sens (gc_parent cfg) (gc_cluster cfg) (gc_lambda cfg) (gc_sigma cfg)
                       (gc_n_mutations cfg) (gc_gen cfg) s)
                (\<lambda>children. Inr (result\<lparr>gr_candidates := children\<rparr>,
                   Some \<lparr>cp_gen = gc_gen cfg, cp_cluster = gc_cluster cfg, cp_symbols = symbols, cp_quarter = quarter,
                         cp_candidates = children\<rparr>)))"

section \<open>The baseline generation\<close>

definition baseline_id :: "int \<Rightarrow> nat \<Rightarrow> string" where
  "baseline_id gen i =
     ''baseline-'' @ (if gen < 0 then CHR ''-'' # (let d = nat_text (nat (- gen)) in replicate (2 - length d) CHR ''0'' @ d)
                      else pad3 (nat gen)) @ ''-'' @ pad3 i"

fun baseline_children ::
    "'s rng \<Rightarrow> string \<Rightarrow> int \<Rightarrow> nat \<Rightarrow> nat \<Rightarrow> nat \<Rightarrow> 's \<Rightarrow> candidate list option" where
  "baseline_children g cluster gen n i 0 s = Some []"
| "baseline_children g cluster gen n i (Suc k) s =
     (let sigma = fadd (1 / 2) (fmul (fdiv (of_nat i) (of_nat (max (n - 1) 1))) (3 / 2))
      in case mutate_cluster g DEFAULT_CLUSTER_MAP TUNING cluster sigma None s of
           None \<Rightarrow> None
         | Some (child, s1) \<Rightarrow>
             map_option ((#) (baseline_id gen i, to_dict child)) (baseline_children g cluster gen n (Suc i) k s1))"

definition build_baseline_candidates ::
    "'s rng \<Rightarrow> nat \<Rightarrow> int \<Rightarrow> string option \<Rightarrow> string \<Rightarrow> 's \<Rightarrow> cand_payload option" where
  "build_baseline_candidates g n gen cluster symbols s =
     (let c = (case cluster of Some c \<Rightarrow> if c = '''' then hd (all_clusters DEFAULT_CLUSTER_MAP) else c
                             | None \<Rightarrow> hd (all_clusters DEFAULT_CLUSTER_MAP))
      in map_option (\<lambda>rest. \<lparr>cp_gen = gen, cp_cluster = c, cp_symbols = symbols, cp_quarter = None,
                             cp_candidates = (baseline_id gen 0, to_dict TUNING) # rest\<rparr>)
           (baseline_children g c gen n 1 (n - 1) s))"

section \<open>Lemmas\<close>

lemma members_all: "map_of DEFAULT_CLUSTER_MAP c = Some ms \<Longrightarrow> set ms \<subseteq> set all_members"
  using cluster_subset[of c] by (simp add: get_default_def)

lemma members_fields: "map_of DEFAULT_CLUSTER_MAP c = Some ms \<Longrightarrow> cluster_fields c DEFAULT_CLUSTER_MAP = map fst ms"
  by (simp add: cluster_fields_def get_default_def)

lemma clusters_nonempty: "map_of DEFAULT_CLUSTER_MAP c = Some ms \<Longrightarrow> ms \<noteq> []"
  unfolding DEFAULT_CLUSTER_MAP_def by (auto split: if_splits)

text \<open>What a child keeps of its parent.\<close>

definition child_ok :: "TuningConstants \<Rightarrow> string \<Rightarrow> TuningConstants \<Rightarrow> bool" where
  "child_ok parent c t \<longleftrightarrow> in_box t \<and> (\<forall>n. n \<notin> set (cluster_fields c DEFAULT_CLUSTER_MAP) \<longrightarrow> getattr t n = getattr parent n)"

lemma child_of_ok:
  assumes g: "sample_ok g" and p: "in_box parent" and c: "map_of DEFAULT_CLUSTER_MAP c = Some ms" and n: "0 \<le> n"
  shows "\<exists>t s'. child_of g sens parent c ms sigma n s = Inr (t, s') \<and> child_ok parent c t"
proof (cases sens)
  case None
  have v: "valid_tuning parent" using p by (simp add: in_box_def)
  show ?thesis
    using mutate_cluster_sound[OF g v, of c sigma "Some (nat n)" s] p n clusters_nonempty[OF c] None
    by (auto simp: child_of_def child_ok_def)
next
  case (Some report)
  have v: "valid_tuning parent" using p by (simp add: in_box_def)
  obtain picks s1 where d: "draw_sample g s (length ms) (min (nat n) (length ms)) = (picks, s1)"
    by (cases "draw_sample g s (length ms) (min (nat n) (length ms))")
  have "\<forall>i \<in> set picks. i < length ms" using g d unfolding sample_ok_def by (meson min.cobounded2)
  then have ch: "set (map ((!) ms) picks) \<subseteq> set ms" by auto
  then have sub: "set (map ((!) ms) picks) \<subseteq> set all_members" using members_all[OF c] by blast
  then have coh: "list_all (\<lambda>(n, k). coherent k) (map ((!) ms) picks)"
    using members_coherent unfolding list_all_iff by blast
  obtain t s' where r: "mutate_members g (map ((!) ms) picks) (scale_for report) parent s1 = Some (t, s')"
    using mutate_members_sound(2)[OF coh, of g "scale_for report" parent s1] by auto
  have "valid_tuning t" "\<forall>n. n \<notin> set (map fst (map ((!) ms) picks)) \<longrightarrow> getattr t n = getattr parent n"
    using mutate_members_sound(1)[OF r coh v] by auto
  moreover have "list_all (\<lambda>(n, k). in_bounds k (getattr t n)) all_members"
    using p mutate_members_bounds[OF r coh v members_distinct sub] by (auto simp: in_box_def list_all_iff)
  moreover have "set (map fst (map ((!) ms) picks)) \<subseteq> set (cluster_fields c DEFAULT_CLUSTER_MAP)"
    unfolding members_fields[OF c] set_map using ch by (intro image_mono) auto
  ultimately have "child_ok parent c t" unfolding child_ok_def in_box_def by blast
  then show ?thesis using Some n d r by (simp add: child_of_def)
qed

definition loads_as_child :: "TuningConstants \<Rightarrow> string \<Rightarrow> (string \<times> fieldval) list \<Rightarrow> bool" where
  "loads_as_child parent c d \<longleftrightarrow> (\<exists>t. from_dict d = Inr t \<and> child_ok parent c t)"

lemma not_extended: "''extended_patterns'' \<notin> set (cluster_fields c DEFAULT_CLUSTER_MAP)"
proof
  assume a: "''extended_patterns'' \<in> set (cluster_fields c DEFAULT_CLUSTER_MAP)"
  have "set (cluster_fields c DEFAULT_CLUSTER_MAP) \<subseteq> set (map fst all_members)"
    using cluster_subset[of c] by (auto simp: cluster_fields_def)
  moreover have "''extended_patterns'' \<notin> set (map fst all_members)"
    by (simp add: all_members_def DEFAULT_CLUSTER_MAP_def)
  ultimately show False using a by blast
qed

lemma getattr_extended: "getattr t ''extended_patterns'' = Some (FStrSet (extended_patterns t))"
  by (simp add: getattr_def field_table_def)

lemma child_loads:
  assumes "child_ok parent c t" "finite (extended_patterns parent)"
  shows "loads_as_child parent c (to_dict t)"
proof -
  have "getattr t ''extended_patterns'' = getattr parent ''extended_patterns''"
    using assms(1) not_extended[of c] unfolding child_ok_def by blast
  then have "extended_patterns t = extended_patterns parent"
    using getattr_extended[of t] getattr_extended[of parent] by (metis fieldval.inject(5) option.inject)
  then have "finite (extended_patterns t)" "valid_tuning t" using assms by (simp_all add: child_ok_def in_box_def)
  then have "from_dict (to_dict t) = Inr t" using from_dict_to_dict_aux[of t] by (simp add: valid_tuning_def)
  then show ?thesis using assms(1) by (auto simp: loads_as_child_def)
qed

lemma make_children_ok:
  assumes "sample_ok g" "in_box parent" "map_of DEFAULT_CLUSTER_MAP c = Some ms" "0 \<le> n" "finite (extended_patterns parent)"
  shows "\<exists>cs. make_children g sens parent c ms sigma n gen i k s = Inr cs
    \<and> map fst cs = map (candidate_id gen c) [i..<i + k] \<and> list_all (loads_as_child parent c \<circ> snd) cs"
proof (induction k arbitrary: i s)
  case (Suc k)
  obtain t s1 where t: "child_of g sens parent c ms sigma n s = Inr (t, s1)" "child_ok parent c t"
    using child_of_ok[OF assms(1-4)] by blast
  obtain cs where cs: "make_children g sens parent c ms sigma n gen (Suc i) k s1 = Inr cs"
      "map fst cs = map (candidate_id gen c) [Suc i..<Suc i + k]" "list_all (loads_as_child parent c \<circ> snd) cs"
    using Suc.IH by blast
  have "[i..<i + Suc k] = i # [Suc i..<Suc i + k]" by (simp add: upt_conv_Cons del: upt_Suc)
  then show ?case using t cs child_loads[OF t(2) assms(5)] by (simp add: comp_def del: upt_Suc)
qed simp

lemma candidate_id_inject: "candidate_id gen c i = candidate_id gen c j \<longleftrightarrow> i = j"
  by (simp add: candidate_id_def)

text \<open>
  C18: What a generation hands to the driver. From a root tuning inside the declared bounds, and with any
  sensitivity report, seed and step, a generation either is skipped because a safety rail failed, writes no
  file and says which, or writes exactly \<open>lambda\<close> candidates with distinct ids, each of which loads back as
  a valid tuning inside the bounds that differs from the parent only in the fields of the mutated cluster.
\<close>

theorem generation_hands_over_safe_candidates:
  assumes "sample_ok g" "in_box (gc_parent cfg)" "finite (extended_patterns (gc_parent cfg))" "0 \<le> gc_n_mutations cfg"
  shows "\<exists>res file. run_generation g cfg sens spend symbols quarter s = Inr (res, file)
    \<and> (if list_all sc_ok (check_safety cfg spend)
       then \<not> gr_skipped res \<and> map_option cp_candidates file = Some (gr_candidates res)
            \<and> length (gr_candidates res) = nat (gc_lambda cfg) \<and> distinct (map fst (gr_candidates res))
            \<and> list_all (loads_as_child (gc_parent cfg) (gc_cluster cfg) \<circ> snd) (gr_candidates res)
       else gr_skipped res \<and> gr_skip res \<noteq> [] \<and> file = None)"
proof (cases "list_all sc_ok (check_safety cfg spend)")
  case True
  then obtain ms where ms: "map_of DEFAULT_CLUSTER_MAP (gc_cluster cfg) = Some ms"
    by (auto simp: check_safety_def has_key_iff Let_def)
  obtain cs where cs: "make_child_candidates g sens (gc_parent cfg) (gc_cluster cfg) (gc_lambda cfg) (gc_sigma cfg)
        (gc_n_mutations cfg) (gc_gen cfg) s = Inr cs"
      "map fst cs = map (candidate_id (gc_gen cfg) (gc_cluster cfg)) [0..<nat (gc_lambda cfg)]"
      "list_all (loads_as_child (gc_parent cfg) (gc_cluster cfg) \<circ> snd) cs"
    using make_children_ok[OF assms(1,2) ms assms(4,3), of sens "gc_sigma cfg" "gc_gen cfg" 0 "nat (gc_lambda cfg)" s] ms
    by (auto simp: make_child_candidates_def)
  have "length cs = nat (gc_lambda cfg)" using arg_cong[OF cs(2), of length] by simp
  moreover have "distinct (map fst cs)" unfolding cs(2) by (simp add: distinct_map inj_on_def candidate_id_inject)
  ultimately show ?thesis using True cs by (simp add: run_generation_def Let_def)
next
  case False
  then have "map sc_name (filter (\<lambda>c. \<not> sc_ok c) (check_safety cfg spend)) \<noteq> []"
    by (simp add: list_all_iff filter_empty_conv)
  then show ?thesis using False by (simp add: run_generation_def Let_def)
qed

definition demo_config :: generation_config where
  "demo_config = \<lparr>gc_gen = 1, gc_parent_sha = ''abc'', gc_parent = TUNING, gc_cluster = ''C5 Windows'', gc_lambda = 2,
     gc_sigma = 1, gc_n_mutations = 1, gc_timeout = 900, gc_budget = 25, gc_rate = 0\<rparr>"

lemma demo_config_safe: "list_all sc_ok (check_safety demo_config 0)"
proof -
  have "fadd 0 (fmul 2 (fl (1 / 100))) \<le> 25" by code_simp
  then show ?thesis by (simp add: check_safety_def demo_config_def has_key_def DEFAULT_CLUSTER_MAP_def Let_def)
qed

theorem generation_hands_over_safe_candidates_witness:
  "\<exists>res file. run_generation demo_rng demo_config None 0 ''BTCUSD'' None () = Inr (res, file)
    \<and> \<not> gr_skipped res \<and> length (gr_candidates res) = 2
    \<and> list_all (loads_as_child TUNING ''C5 Windows'' \<circ> snd) (gr_candidates res)"
proof -
  have "finite (extended_patterns TUNING)" by (simp add: TUNING_fields)
  then show ?thesis
    using generation_hands_over_safe_candidates[OF demo_sample, of demo_config None 0 "''BTCUSD''" None "()"] default_in_box
      demo_config_safe by (auto simp: demo_config_def)
qed

section \<open>The scan\<close>

lemma recommended_scale_range: "1 / 4 \<le> recommended_scale x \<and> recommended_scale x \<le> 4"
  by (simp add: recommended_scale_def)

definition row_ok :: "field_sensitivity \<Rightarrow> bool" where
  "row_ok r = (fs_scale r = recommended_scale (fs_gradient r) \<and> 1 / 4 \<le> fs_scale r \<and> fs_scale r \<le> 4)"

definition scanned :: "string list \<Rightarrow> string \<times> member list \<Rightarrow> (string \<times> string) list" where
  "scanned skip c = map (Pair (fst c)) (filter (\<lambda>n. n \<notin> set skip) (map fst (snd c)))"

lemma scan_members_ok:
  "list_all (\<lambda>(n, k). coherent k) ms \<Longrightarrow> \<exists>xs s'. scan_members g fitness t sigma skip c ms s = Some (xs, s')
     \<and> map (\<lambda>r. (fs_cluster r, fs_field r)) xs = scanned skip (c, ms) \<and> list_all row_ok xs"
proof (induction ms arbitrary: s)
  case (Cons m ms)
  obtain n k where m: "m = (n, k)" by (cases m)
  have mf: "mutate_field g m t x s \<noteq> None" for x s using Cons.prems by (cases k) (auto simp: m)
  obtain up s3 where u: "mutate_field g m t sigma s = Some (up, s3)" using mf[of sigma s] by auto
  obtain down s4 where d: "mutate_field g m t (- sigma) s3 = Some (down, s4)" using mf[of "- sigma" s3] by auto
  obtain r s1 where r: "scan_field g fitness t sigma c m s = Some (r, s1)"
      "fs_cluster r = c" "fs_field r = n" "row_ok r"
    using u d recommended_scale_range by (simp add: scan_field_def Let_def m row_ok_def)
  obtain xs s2 where xs: "scan_members g fitness t sigma skip c ms s1 = Some (xs, s2)"
      "map (\<lambda>r. (fs_cluster r, fs_field r)) xs = scanned skip (c, ms)" "list_all row_ok xs"
    using Cons.IH[of s1] Cons.prems by auto
  show ?case
  proof (cases "n \<in> set skip")
    case True
    then show ?thesis using Cons.IH[of s] Cons.prems by (simp add: m scanned_def)
  next
    case False
    then show ?thesis using r xs by (simp add: m scanned_def)
  qed
qed (simp add: scanned_def)

lemma scan_clusters_ok:
  "list_all (\<lambda>(n, k). coherent k) (concat (map snd cm)) \<Longrightarrow>
     \<exists>xs s'. scan_clusters g fitness t sigma skip cm s = Some (xs, s')
       \<and> map (\<lambda>r. (fs_cluster r, fs_field r)) xs = concat (map (scanned skip) cm) \<and> list_all row_ok xs"
proof (induction cm arbitrary: s)
  case (Cons c cm)
  obtain a ms where c: "c = (a, ms)" by (cases c)
  obtain xs s1 where xs: "scan_members g fitness t sigma skip a ms s = Some (xs, s1)"
      "map (\<lambda>r. (fs_cluster r, fs_field r)) xs = scanned skip (a, ms)" "list_all row_ok xs"
    using scan_members_ok[of ms g fitness t sigma skip a s] Cons.prems by (auto simp: c list_all_append)
  obtain ys s2 where "scan_clusters g fitness t sigma skip cm s1 = Some (ys, s2)"
      "map (\<lambda>r. (fs_cluster r, fs_field r)) ys = concat (map (scanned skip) cm)" "list_all row_ok ys"
    using Cons.IH[of s1] Cons.prems by (auto simp: list_all_append)
  then show ?case using xs by (simp add: c list_all_append)
qed simp

text \<open>
  The sensitivity scan is complete. Over the default clusters it never fails, its rows are exactly the
  tunable fields that are not skipped, in the order of the map, and every recommended scale lies in
  [0.25, 4], so a report never freezes a field and never lets its step run away.
\<close>

theorem sensitivity_scan_complete:
  "\<exists>report. sensitivity_scan g fitness baseline sigma skip DEFAULT_CLUSTER_MAP s = Some report
     \<and> map (\<lambda>r. (fs_cluster r, fs_field r)) (sr_fields report) = concat (map (scanned skip) DEFAULT_CLUSTER_MAP)
     \<and> list_all row_ok (sr_fields report) \<and> 1 / 4 \<le> scale_for report f \<and> scale_for report f \<le> 4"
proof -
  let ?t = "case baseline of None \<Rightarrow> TUNING | Some t \<Rightarrow> t"
  obtain xs s' where xs: "scan_clusters g fitness ?t sigma skip DEFAULT_CLUSTER_MAP s = Some (xs, s')"
      "map (\<lambda>r. (fs_cluster r, fs_field r)) xs = concat (map (scanned skip) DEFAULT_CLUSTER_MAP)" "list_all row_ok xs"
    using scan_clusters_ok[OF members_coherent[unfolded all_members_def], of g fitness ?t sigma skip s] by auto
  define report where "report = \<lparr>sr_fields = xs, sr_default = 1\<rparr>"
  have "1 / 4 \<le> scale_for report f \<and> scale_for report f \<le> 4"
    using xs(3) by (auto simp: scale_for_def report_def list_all_iff row_ok_def find_Some_iff split: option.splits)
  then show ?thesis using xs by (auto simp: sensitivity_scan_def report_def)
qed

text \<open>The baseline generation always has candidate 0, the default tuning itself, even when asked for none.\<close>

lemma baseline_children_length:
  "baseline_children g c gen n i k s = Some cs \<Longrightarrow> length cs = k"
  by (induction k arbitrary: i s cs) (auto simp: Let_def split: option.splits)

lemma baseline_first:
  "build_baseline_candidates g n gen c symbols s = Some p \<Longrightarrow>
     hd (cp_candidates p) = (baseline_id gen 0, to_dict TUNING) \<and> length (cp_candidates p) = max n 1"
  by (auto simp: build_baseline_candidates_def Let_def split: option.splits if_splits dest!: baseline_children_length)

text \<open>A generation of \<open>lambda\<close> children is budgeted at one cent a child, whatever a child costs.\<close>

lemma budget_ignores_cost:
  "check_safety (cfg\<lparr>gc_rate := r\<rparr>) spend = check_safety cfg spend"
  by (simp add: check_safety_def)

end
