(* ===== verification/BenchScore.thy ===== *)
theory BenchScore
  imports BenchMetrics WalkForward Search
begin

text \<open>
  \<^verbatim>\<open>bench/pipeline\<close> stages 1, 3, 4a and 4b, \<^verbatim>\<open>bench/scoring/aggregator.py\<close>, \<^verbatim>\<open>bench/report/csv_writer.py\<close> and the
  pipeline of \<^verbatim>\<open>bench/runner.py\<close>. Each stage returns the updated record, or the error the source raises.
\<close>

section \<open>Stage 1: validity\<close>

definition geometric_subscore :: "signal_record \<Rightarrow> rat" where
  "geometric_subscore rec =
     (let w = sr_prz_width_atr rec
      in if w \<le> 0 then 4 else if 1 \<le> w then 0 else pyround (fmul 4 (fsub 1 w)) 4)"

definition prz_subscore :: "signal_record \<Rightarrow> rat" where
  "prz_subscore rec =
     (let w = sr_prz_width_atr rec in if w < 1 / 2 then 2 else if w < 1 then 1 else 0)"

definition stop_subscore :: "signal_record \<Rightarrow> rat" where
  "stop_subscore rec =
     (if sr_atr_at_entry rec \<le> 0 then 0
      else let sd_atr = fdiv \<bar>fsub (sr_entry_price rec) (sr_stop_price rec)\<bar> (sr_atr_at_entry rec)
           in if 1 / 2 \<le> sd_atr \<and> sd_atr \<le> 3 then 2
              else if sd_atr < 1 / 2 then pyround (fmul 2 (fdiv sd_atr (1 / 2))) 4
              else pyround (max 0 (fmul 2 (fsub 1 (fdiv (fsub sd_atr 3) 3)))) 4)"

definition data_subscore :: "signal_record \<Rightarrow> bench_error + rat" where
  "data_subscore rec =
     (if sr_entry_price rec \<le> 0 \<or> sr_stop_price rec \<le> 0 then Inr 0
      else case sr_tp1 rec of
        None \<Rightarrow> Inl NoneCompared
      | Some tp1 \<Rightarrow>
          Inr (if tp1 \<le> 0 then 0
               else if sr_direction rec = LONG
               then (if sr_stop_price rec < sr_entry_price rec \<and> sr_entry_price rec < tp1 then 2 else 0)
               else (if sr_entry_price rec < sr_stop_price rec \<and> tp1 < sr_entry_price rec then 2 else 0)))"

definition entry_zone_subscore :: "signal_record \<Rightarrow> rat" where
  "entry_zone_subscore rec =
     (let off = sr_entry_offset_atr rec
      in if 3 / 2 < off then 0 else if off \<le> 1 / 2 then 2 else pyround (fsub 2 (fsub off (1 / 2))) 4)"

definition stage1_score :: "signal_record \<Rightarrow> bench_error + signal_record" where
  "stage1_score rec =
     ebind (data_subscore rec) (\<lambda>data.
       let total = fadd (fadd (fadd (fadd (geometric_subscore rec) (prz_subscore rec)) (stop_subscore rec)) data)
                     (entry_zone_subscore rec)
       in Inr (rec\<lparr>sr_stage1_score := Some (pyround total 4), sr_weak_validity := (total < 4)\<rparr>))"

section \<open>Stage 3: outcome\<close>

fun result_subscore :: "outcome \<Rightarrow> rat" where
  "result_subscore OutTp3 = 25"
| "result_subscore OutTp2 = 20"
| "result_subscore OutTp1 = 15"
| "result_subscore OutBreakeven = 8"
| "result_subscore OutStoploss = 0"
| "result_subscore OutExpired = 0"
| "result_subscore OutIncomplete = 0"

definition rr_subscore :: "rat option \<Rightarrow> rat" where
  "rr_subscore nrr =
     (case nrr of None \<Rightarrow> 0
      | Some x \<Rightarrow> if 3 \<le> x then 10 else if 2 \<le> x then 7 else if 1 \<le> x then 4 else if 1 / 2 \<le> x then 2 else 0)"

definition efficiency_subscore :: "signal_record \<Rightarrow> rat" where
  "efficiency_subscore rec =
     (case sr_price_efficiency rec of None \<Rightarrow> 0
      | Some pe \<Rightarrow> if fl (8 / 10) \<le> pe then 10 else if 1 / 2 \<le> pe then 6 else if fl (3 / 10) \<le> pe then 3 else 1)"

definition stop_hit_penalty :: "signal_record \<Rightarrow> rat" where
  "stop_hit_penalty rec = (if sr_hit_stop_before_tp rec = Some True then - 5 else 0)"

definition stage3_score :: "signal_record \<Rightarrow> signal_record" where
  "stage3_score rec =
     (case sr_outcome rec of
        None \<Rightarrow> rec\<lparr>sr_stage3_score := Some 0\<rparr>
      | Some oc \<Rightarrow>
          let total = fadd (fadd (fadd (result_subscore oc) (rr_subscore (sr_net_rr rec))) (efficiency_subscore rec))
                        (stop_hit_penalty rec)
          in rec\<lparr>sr_stage3_score := Some (pyround total 4)\<rparr>)"

section \<open>Stage 4a: callback quality\<close>

definition mae_mfe_subscore :: "rat option \<Rightarrow> rat option \<Rightarrow> rat" where
  "mae_mfe_subscore mae mfe =
     (case (mae, mfe) of
        (Some a, Some f) \<Rightarrow>
          let ratio = (if f \<le> 0 then 1 else fdiv a f)
          in if ratio < fl (2 / 10) then 6 else if ratio < fl (4 / 10) then 4 else if ratio < fl (6 / 10) then 2 else 0
      | _ \<Rightarrow> 0)"

definition depth_subscore :: "rat option \<Rightarrow> rat" where
  "depth_subscore depth =
     (case depth of None \<Rightarrow> 0
      | Some x \<Rightarrow> if x < fl (3 / 10) then 5 else if x < fl (6 / 10) then 3 else if x < 1 then 1 else 0)"

definition time_subscore :: "int option \<Rightarrow> int option \<Rightarrow> rat" where
  "time_subscore callback_bars bars_held =
     (case (callback_bars, bars_held) of
        (Some c, Some h) \<Rightarrow>
          if h \<le> 0 then 0
          else let ratio = fdiv (of_int c) (of_int h)
               in if ratio < fl (2 / 10) then 3 else if ratio < fl (4 / 10) then 2 else if ratio < fl (6 / 10) then 1 else 0
      | _ \<Rightarrow> 0)"

definition volume_subscore :: "rat option \<Rightarrow> rat" where
  "volume_subscore volume_ratio =
     (case volume_ratio of None \<Rightarrow> 0
      | Some x \<Rightarrow> if x < fl (8 / 10) then 3 else if x \<le> fl (12 / 10) then 2 else 0)"

definition stop_buffer_subscore :: "rat option \<Rightarrow> rat" where
  "stop_buffer_subscore buf =
     (case buf of None \<Rightarrow> 0
      | Some x \<Rightarrow> if x < fl (3 / 10) then 3 else if x < fl (6 / 10) then 2 else if x < fl (9 / 10) then 1 else 0)"

definition buffer_consumption :: "signal_record \<Rightarrow> rat option" where
  "buffer_consumption rec =
     (case sr_mae rec of None \<Rightarrow> None
      | Some mae \<Rightarrow>
          if sr_atr_at_entry rec \<le> 0 then None
          else let risk = \<bar>fsub (sr_entry_price rec) (sr_stop_price rec)\<bar>
               in if risk \<le> 0 then None else Some (fdiv mae risk))"

definition stage4a_score :: "signal_record \<Rightarrow> signal_record" where
  "stage4a_score rec =
     (let total = fadd (fadd (fadd (fadd (mae_mfe_subscore (sr_mae rec) (sr_mfe rec)) (depth_subscore (sr_callback_depth rec)))
                    (time_subscore (sr_callback_bars rec) (sr_bars_held rec)))
                    (volume_subscore (sr_callback_volume_ratio rec))) (stop_buffer_subscore (buffer_consumption rec))
      in rec\<lparr>sr_stage4a_score := Some (pyround total 4)\<rparr>)"

section \<open>Stage 4b: technical\<close>

text \<open>\<open>_GRADE_SCORE[grade]\<close> has no entry for the reference grade the signal engine gives.\<close>

fun grade_subscore :: "grade_label \<Rightarrow> bench_error + rat" where
  "grade_subscore GradeA = Inr 4"
| "grade_subscore GradeB = Inr 2"
| "grade_subscore GradeC = Inr 0"
| "grade_subscore GradeCref = Inl GradeKey"

definition confluence_subscore :: "rat \<Rightarrow> rat" where
  "confluence_subscore confluence =
     (if 3 \<le> confluence then 3 else if 2 \<le> confluence then 2 else if 1 \<le> confluence then 1 else 0)"

definition stability_subscore :: "string \<Rightarrow> rat" where
  "stability_subscore verdict =
     (let v = lower verdict in if v = ''stable'' then 3 else if v = ''mixed'' then 1 else 0)"

definition stage4b_score :: "signal_record \<Rightarrow> bench_error + signal_record" where
  "stage4b_score rec =
     ebind (grade_subscore (sr_grade rec)) (\<lambda>g.
       let total = fadd (fadd g (confluence_subscore (sr_confluence_score rec))) (stability_subscore (sr_stability_verdict rec))
       in Inr (rec\<lparr>sr_stage4b_score := Some (pyround total 4)\<rparr>))"

section \<open>Level 1: one signal\<close>

definition or_zero :: "rat option \<Rightarrow> rat" where
  "or_zero x = (case x of None \<Rightarrow> 0 | Some v \<Rightarrow> v)"

definition signal_score :: "signal_record \<Rightarrow> signal_record" where
  "signal_score rec =
     (let s1 = fmul (fdiv (or_zero (sr_stage1_score rec)) 12) 20;
          s3 = fmul (fdiv (or_zero (sr_stage3_score rec)) 50) 50;
          s4a = fmul (fdiv (or_zero (sr_stage4a_score rec)) 20) 20;
          s4b = fmul (fdiv (or_zero (sr_stage4b_score rec)) 10) 10;
          raw = fadd (fadd (fadd s1 s3) s4a) s4b;
          weak = (case sr_stage1_score rec of None \<Rightarrow> False | Some s \<Rightarrow> s < 4)
      in rec\<lparr>sr_weak_validity := weak,
             sr_signal_score := Some (pyround (if weak then fmul raw (1 / 2) else raw) 4)\<rparr>)"

section \<open>Level 2: one configuration, pattern by pattern\<close>

definition group_by_pattern :: "signal_record list \<Rightarrow> (string \<times> signal_record list) list" where
  "group_by_pattern rs =
     foldl (\<lambda>d r. AList.update (sr_pattern_family r) (get_default d (sr_pattern_family r) [] @ [r]) d) [] rs"

record pattern_score =
  ps_family :: string
  ps_count :: int
  ps_win_rate :: rat
  ps_avg_score :: rat
  ps_avg_rr :: rat
  ps_score :: rat

definition is_win :: "signal_record \<Rightarrow> bool" where
  "is_win r \<longleftrightarrow> sr_outcome r \<in> {Some OutTp1, Some OutTp2, Some OutTp3}"

definition float_mean :: "rat list \<Rightarrow> rat" where
  "float_mean xs = (if xs = [] then 0 else fdiv (fsum xs) (of_nat (length xs)))"

definition pattern_stats :: "string \<Rightarrow> signal_record list \<Rightarrow> pattern_score" where
  "pattern_stats famname recs =
     (let n = length recs;
          wins = filter is_win recs;
          losses = filter (\<lambda>r. sr_outcome r = Some OutStoploss) recs;
          decided = length wins + length losses;
          win_rate = (if 0 < decided then fdiv (of_nat (length wins)) (of_nat decided) else 0);
          avg_score = float_mean (List.map_filter sr_signal_score recs);
          avg_rr_win = float_mean (List.map_filter sr_net_rr wins);
          score = fadd (fadd (fadd (fmul avg_score (fl (4 / 10)))
                                   (fmul (fmul win_rate 100) (1 / 4)))
                             (fmul (fmul (min (fdiv avg_rr_win 5) 1) 100) (fl (2 / 10))))
                       (fmul (fmul (min (fdiv (of_nat n) 100) 1) 100) (fl (15 / 100)))
      in \<lparr>ps_family = famname, ps_count = int n, ps_win_rate = pyround win_rate 4, ps_avg_score = pyround avg_score 4,
          ps_avg_rr = pyround avg_rr_win 4, ps_score = pyround score 4\<rparr>)"

definition config_score_with_patterns :: "signal_record list \<Rightarrow> rat option \<times> bool \<times> pattern_score list" where
  "config_score_with_patterns recs =
     (if recs = [] then (None, False, [])
      else let pattern_scores = map (\<lambda>(fam, g). pattern_stats fam g) (sort_key fst (group_by_pattern recs));
               total_n = sum_list (map ps_count pattern_scores);
               weighted = fdiv (fsum (map (\<lambda>p. fmul (ps_score p) (of_int (ps_count p))) pattern_scores)) (of_int total_n);
               low_conf = (\<exists>p \<in> set pattern_scores. ps_count p < 10);
               weighted' = (if low_conf then fmul weighted (fl (9 / 10)) else weighted)
           in (Some (pyround weighted' 4), low_conf, pattern_scores))"

definition config_score :: "signal_record list \<Rightarrow> rat option" where
  "config_score recs = fst (config_score_with_patterns recs)"

section \<open>Level 3: the run\<close>

definition bench_total :: "rat \<Rightarrow> rat option \<Rightarrow> rat" where
  "bench_total signal config =
     (case config of None \<Rightarrow> pyround signal 4
      | Some c \<Rightarrow> pyround (fadd (fmul (fl (6 / 10)) signal) (fmul (fl (4 / 10)) c)) 4)"

record aggregator_result =
  ag_signal_score :: rat
  ag_config_score :: "rat option"
  ag_bench_total :: rat
  ag_weak_validity :: bool
  ag_low_confidence :: bool
  ag_n_signals :: int
  ag_n_patterns :: int
  ag_pattern_scores :: "pattern_score list"

definition aggregate :: "signal_record list \<Rightarrow> aggregator_result \<times> signal_record list" where
  "aggregate records =
     (if records = [] then
        (\<lparr>ag_signal_score = 0, ag_config_score = None, ag_bench_total = 0, ag_weak_validity = False,
          ag_low_confidence = False, ag_n_signals = 0, ag_n_patterns = 0, ag_pattern_scores = []\<rparr>, [])
      else let scored = map signal_score records;
               (cfg, low_conf, pattern_scores) = config_score_with_patterns scored;
               first = or_zero (sr_signal_score (hd scored));
               grand = bench_total first cfg
           in (\<lparr>ag_signal_score = first, ag_config_score = cfg, ag_bench_total = grand,
                ag_weak_validity = (\<exists>r \<in> set scored. sr_weak_validity r), ag_low_confidence = low_conf,
                ag_n_signals = int (length records), ag_n_patterns = int (length pattern_scores),
                ag_pattern_scores = pattern_scores\<rparr>,
               map (\<lambda>r. r\<lparr>sr_config_score := cfg, sr_bench_total := Some grand\<rparr>) scored))"

section \<open>The runner's pipeline\<close>

fun result_to_outcome :: "wf_result \<Rightarrow> outcome" where
  "result_to_outcome WfWin = OutTp2"
| "result_to_outcome WfLoss = OutStoploss"
| "result_to_outcome WfScratch = OutBreakeven"
| "result_to_outcome WfSkipped = OutIncomplete"

fun result_text :: "wf_result \<Rightarrow> string" where
  "result_text WfWin = ''win''"
| "result_text WfLoss = ''loss''"
| "result_text WfScratch = ''scratch''"
| "result_text WfSkipped = ''skipped''"

definition int_text :: "int \<Rightarrow> string" where
  "int_text i = (if i < 0 then ''-'' @ nat_text (nat (- i)) else nat_text (nat i))"

text \<open>\<open>isofmt\<close> is pandas' text of a timestamp.\<close>

definition signal_record_from_backtest :: "(int \<Rightarrow> string) \<Rightarrow> wf_record \<Rightarrow> string \<Rightarrow> string \<Rightarrow> signal_record" where
  "signal_record_from_backtest isofmt src symbol interval =
     empty_record\<lparr>sr_signal_id := isofmt (r_time src) @ ''_'' @ int_text (r_step src), sr_run_id := ''bench_runner'',
       sr_params_sha := ''runner_default'', sr_timestamp := isofmt (r_time src), sr_symbol := symbol, sr_timeframe := interval,
       sr_pattern_type := (if r_pattern src = [] then ''unknown'' else r_pattern src),
       sr_pattern_family := (if r_family src = [] then ''XABCD'' else r_family src),
       sr_direction := r_direction src, sr_grade := r_grade src, sr_entry_price := r_entry_price src,
       sr_stop_price := r_stop src, sr_tp1 := r_tp1 src, sr_tp2 := 0, sr_tp3 := 0, sr_atr_at_entry := 2,
       sr_prz_width_atr := fl (3 / 10), sr_entry_offset_atr := 0, sr_confluence_score := 0, sr_stability_verdict := [],
       sr_regime := [], sr_volume_authenticity_score := 0, sr_outcome := Some (result_to_outcome (r_result src)),
       sr_net_rr := Some (r_r src), sr_bars_held := r_bars_held src, sr_exit_price := None,
       sr_exit_reason := Some (result_text (r_result src))\<rparr>"

definition convert_records :: "(int \<Rightarrow> string) \<Rightarrow> wf_record list \<Rightarrow> string \<Rightarrow> string \<Rightarrow> signal_record list" where
  "convert_records isofmt rs symbol interval = map (\<lambda>r. signal_record_from_backtest isofmt r symbol interval) rs"

definition run_stages :: "signal_record \<Rightarrow> bench_error + signal_record" where
  "run_stages rec =
     ebind (stage1_score rec) (\<lambda>r1. ebind (stage4b_score (stage3_score r1)) (\<lambda>r. Inr (r\<lparr>sr_stage4a_score := Some 0\<rparr>)))"

fun run_all :: "signal_record list \<Rightarrow> bench_error + signal_record list" where
  "run_all [] = Inr []"
| "run_all (r # rs) = ebind (run_stages r) (\<lambda>x. ebind (run_all rs) (\<lambda>xs. Inr (x # xs)))"

definition run_pipeline :: "signal_record list \<Rightarrow> bench_error + aggregator_result \<times> signal_record list" where
  "run_pipeline records = ebind (run_all records) (\<lambda>rs. Inr (aggregate rs))"

definition count_by_result :: "wf_record list \<Rightarrow> int \<times> int \<times> int \<times> int" where
  "count_by_result rs =
     (let n = (\<lambda>x. int (length (filter (\<lambda>r. r_result r = x) rs))) in (n WfWin, n WfLoss, n WfScratch, n WfSkipped))"

section \<open>Every score in its range\<close>

lemma fadd_int_bounds:
  assumes "of_int a \<le> x" "x \<le> of_int b" "of_int c \<le> y" "y \<le> of_int d"
    and "\<bar>a + c\<bar> \<le> 2 ^ 53" "\<bar>b + d\<bar> \<le> 2 ^ 53"
  shows "of_int (a + c) \<le> fadd x y \<and> fadd x y \<le> of_int (b + d)"
proof -
  have "of_int (a + c) \<le> x + y" "x + y \<le> of_int (b + d)" using assms by simp_all
  then show ?thesis unfolding fadd_def using float_le_fl fl_le_float is_float_of_int assms(5,6) by blast
qed

definition inrange :: "int \<Rightarrow> int \<Rightarrow> rat \<Rightarrow> bool" where
  "inrange a b x \<longleftrightarrow> of_int a \<le> x \<and> x \<le> of_int b"

lemma inrange_fadd: "inrange a b x \<Longrightarrow> inrange c d y \<Longrightarrow> \<bar>a + c\<bar> \<le> 2 ^ 53 \<Longrightarrow> \<bar>b + d\<bar> \<le> 2 ^ 53 \<Longrightarrow> inrange (a + c) (b + d) (fadd x y)"
  unfolding inrange_def using fadd_int_bounds by blast

lemma inrange_round: "inrange a b x \<Longrightarrow> \<bar>a\<bar> \<le> 2 ^ 53 \<Longrightarrow> \<bar>b\<bar> \<le> 2 ^ 53 \<Longrightarrow> inrange a b (pyround x n)"
  unfolding inrange_def using pyround_ge_int pyround_le_int by blast

lemma inrange_fl: "of_int a \<le> x \<Longrightarrow> x \<le> of_int b \<Longrightarrow> \<bar>a\<bar> \<le> 2 ^ 53 \<Longrightarrow> \<bar>b\<bar> \<le> 2 ^ 53 \<Longrightarrow> inrange a b (fl x)"
  unfolding inrange_def using float_le_fl fl_le_float is_float_of_int by blast

lemma inrange_cases: "inrange a b x \<Longrightarrow> inrange a b y \<Longrightarrow> inrange a b (if P then x else y)"
  by simp

lemma stage1_parts:
  "inrange 0 4 (geometric_subscore rec)" "inrange 0 2 (prz_subscore rec)" "inrange 0 2 (stop_subscore rec)"
  "data_subscore rec = Inr v \<Longrightarrow> inrange 0 2 v" "inrange 0 2 (entry_zone_subscore rec)"
proof -
  let ?w = "sr_prz_width_atr rec" and ?off = "sr_entry_offset_atr rec"
  have f1: "inrange 0 1 (fsub 1 x)" if "0 \<le> x" "x \<le> 1" for x
    unfolding fsub_def by (rule inrange_fl) (use that in auto)
  have f2: "inrange 0 k (fmul (of_int k) x)" if "inrange 0 1 x" "0 \<le> k" "k \<le> 2 ^ 53" for k x
    unfolding fmul_def by (rule inrange_fl) (use that in \<open>auto simp: inrange_def mult_left_le\<close>)
  show "inrange 0 4 (geometric_subscore rec)"
    using f2[OF f1[of ?w], of 4] inrange_round[of 0 4 "fmul 4 (fsub 1 ?w)" 4]
    by (auto simp: geometric_subscore_def Let_def) (auto simp: inrange_def)
  show "inrange 0 2 (prz_subscore rec)" by (auto simp: prz_subscore_def inrange_def Let_def)
  show "data_subscore rec = Inr v \<Longrightarrow> inrange 0 2 v"
    by (auto simp: data_subscore_def inrange_def split: if_splits option.splits)
  have off: "inrange 0 2 (fsub 2 (fsub ?off (1 / 2)))" if "\<not> 3 / 2 < ?off" "\<not> ?off \<le> 1 / 2"
  proof -
    have "inrange 0 1 (fsub ?off (1 / 2))" unfolding fsub_def by (rule inrange_fl) (use that in auto)
    then show ?thesis unfolding fsub_def[of 2] by (intro inrange_fl) (auto simp: inrange_def)
  qed
  show "inrange 0 2 (entry_zone_subscore rec)"
    using inrange_round[OF off, of 4] by (auto simp: entry_zone_subscore_def Let_def) (auto simp: inrange_def)
  define s where "s = fdiv \<bar>fsub (sr_entry_price rec) (sr_stop_price rec)\<bar> (sr_atr_at_entry rec)"
  have s0: "0 \<le> s" if "\<not> sr_atr_at_entry rec \<le> 0" unfolding s_def by (rule fdiv_nonneg) (use that in auto)
  have low: "inrange 0 2 (pyround (fmul 2 (fdiv s (1 / 2))) 4)" if "0 \<le> s" "s < 1 / 2"
  proof -
    have "inrange 0 1 (fdiv s (1 / 2))" unfolding fdiv_def by (rule inrange_fl) (use that in auto)
    then show ?thesis using inrange_round f2[of _ 2] by simp
  qed
  have high: "inrange 0 2 (pyround (max 0 (fmul 2 (fsub 1 (fdiv (fsub s 3) 3)))) 4)" if "3 < s"
  proof -
    have "0 \<le> fsub s 3" by (rule fsub_nonneg) (use that in simp)
    then have "0 \<le> fdiv (fsub s 3) 3" by (intro fdiv_nonneg) auto
    then have "fsub 1 (fdiv (fsub s 3) 3) \<le> 1" by (intro fsub_le) auto
    then have "fmul 2 (fsub 1 (fdiv (fsub s 3) 3)) \<le> 2" by (intro fmul_le_float) auto
    then show ?thesis by (intro inrange_round) (auto simp: inrange_def)
  qed
  show "inrange 0 2 (stop_subscore rec)"
  proof (cases "sr_atr_at_entry rec \<le> 0 \<or> (1 / 2 \<le> s \<and> s \<le> 3)")
    case True
    then show ?thesis by (auto simp: stop_subscore_def inrange_def Let_def s_def[symmetric])
  next
    case False
    then show ?thesis using low high s0 by (auto simp: stop_subscore_def Let_def s_def[symmetric])
  qed
qed

lemma stage1_range: 
  assumes "stage1_score rec = Inr r"
  shows "\<exists>s. sr_stage1_score r = Some s \<and> inrange 0 12 s"
proof -
  obtain v where v: "data_subscore rec = Inr v" and r: "sr_stage1_score r = Some (pyround (fadd (fadd (fadd (fadd
      (geometric_subscore rec) (prz_subscore rec)) (stop_subscore rec)) v) (entry_zone_subscore rec)) 4)"
    using assms by (auto simp: stage1_score_def Let_def)
  note p = stage1_parts[of rec] stage1_parts(4)[OF v]
  have "inrange (0 + 0) (4 + 2) (fadd (geometric_subscore rec) (prz_subscore rec))" by (rule inrange_fadd) (use p in simp_all)
  from inrange_fadd[OF this p(3)] have "inrange 0 8 (fadd (fadd (geometric_subscore rec) (prz_subscore rec)) (stop_subscore rec))"
    by simp
  from inrange_fadd[OF this stage1_parts(4)[OF v]]
  have "inrange 0 10 (fadd (fadd (fadd (geometric_subscore rec) (prz_subscore rec)) (stop_subscore rec)) v)" by simp
  from inrange_fadd[OF this stage1_parts(5)] show ?thesis unfolding r by (auto intro!: inrange_round)
qed

lemma stage3_range: "\<exists>s. sr_stage3_score (stage3_score rec) = Some s \<and> inrange (- 5) 45 s"
proof (cases "sr_outcome rec")
  case None
  then show ?thesis by (simp add: stage3_score_def inrange_def)
next
  case (Some oc)
  have 1: "inrange 0 25 (result_subscore oc)" by (cases oc) (auto simp: inrange_def)
  have 2: "inrange 0 10 (rr_subscore (sr_net_rr rec))" by (auto simp: rr_subscore_def inrange_def split: option.splits)
  have 3: "inrange 0 10 (efficiency_subscore rec)" by (auto simp: efficiency_subscore_def inrange_def split: option.splits)
  have 4: "inrange (- 5) 0 (stop_hit_penalty rec)" by (auto simp: stop_hit_penalty_def inrange_def)
  from inrange_fadd[OF 1 2] have "inrange 0 35 (fadd (result_subscore oc) (rr_subscore (sr_net_rr rec)))" by simp
  from inrange_fadd[OF this 3]
  have "inrange 0 45 (fadd (fadd (result_subscore oc) (rr_subscore (sr_net_rr rec))) (efficiency_subscore rec))" by simp
  from inrange_fadd[OF this 4] show ?thesis using Some by (auto simp: stage3_score_def Let_def intro!: inrange_round)
qed

lemma stage4a_range: "\<exists>s. sr_stage4a_score (stage4a_score rec) = Some s \<and> inrange 0 20 s"
proof -
  have 1: "inrange 0 6 (mae_mfe_subscore (sr_mae rec) (sr_mfe rec))"
    by (auto simp: mae_mfe_subscore_def inrange_def Let_def split: option.splits)
  have 2: "inrange 0 5 (depth_subscore (sr_callback_depth rec))" by (auto simp: depth_subscore_def inrange_def split: option.splits)
  have 3: "inrange 0 3 (time_subscore (sr_callback_bars rec) (sr_bars_held rec))"
    by (auto simp: time_subscore_def inrange_def Let_def split: option.splits)
  have 4: "inrange 0 3 (volume_subscore (sr_callback_volume_ratio rec))" by (auto simp: volume_subscore_def inrange_def split: option.splits)
  have 5: "inrange 0 3 (stop_buffer_subscore (buffer_consumption rec))"
    by (auto simp: stop_buffer_subscore_def inrange_def split: option.splits)
  from inrange_fadd[OF 1 2] have "inrange 0 11 (fadd (mae_mfe_subscore (sr_mae rec) (sr_mfe rec)) (depth_subscore (sr_callback_depth rec)))"
    by simp
  from inrange_fadd[OF inrange_fadd[OF inrange_fadd[OF this 3] 4] 5] show ?thesis
    by (auto simp: stage4a_score_def Let_def intro!: inrange_round)
qed

lemma stage4b_range:
  assumes "stage4b_score rec = Inr r"
  shows "\<exists>s. sr_stage4b_score r = Some s \<and> inrange 0 10 s"
proof -
  obtain g where g: "grade_subscore (sr_grade rec) = Inr g" and r: "sr_stage4b_score r = Some (pyround (fadd (fadd g
      (confluence_subscore (sr_confluence_score rec))) (stability_subscore (sr_stability_verdict rec))) 4)"
    using assms by (auto simp: stage4b_score_def Let_def)
  have 1: "inrange 0 4 g" using g by (cases "sr_grade rec") (auto simp: inrange_def)
  have 2: "inrange 0 3 (confluence_subscore (sr_confluence_score rec))" by (auto simp: confluence_subscore_def inrange_def)
  have 3: "inrange 0 3 (stability_subscore (sr_stability_verdict rec))" by (auto simp: stability_subscore_def inrange_def Let_def)
  from inrange_fadd[OF 1 2] have "inrange 0 7 (fadd g (confluence_subscore (sr_confluence_score rec)))" by simp
  from inrange_fadd[OF this 3] show ?thesis unfolding r by (auto intro!: inrange_round)
qed

text \<open>A stage's share of the signal score: rounded twice, and still within its integer bounds.\<close>

lemma share_range:
  assumes s: "inrange a b s" and c: "0 < c" "0 \<le> w"
    and exact: "fmul (fdiv (of_int a) c) w = of_int a'" "fmul (fdiv (of_int b) c) w = of_int b'"
  shows "inrange a' b' (fmul (fdiv s c) w)"
proof -
  have "fmul (fdiv (of_int a) c) w \<le> fmul (fdiv s c) w" "fmul (fdiv s c) w \<le> fmul (fdiv (of_int b) c) w"
    unfolding fmul_def using s c by (auto simp: inrange_def intro!: fl_mono mult_right_mono fdiv_mono)
  then show ?thesis unfolding inrange_def exact by simp
qed

lemma share1: "inrange 0 12 s \<Longrightarrow> inrange 0 20 (fmul (fdiv s 12) 20)"
proof (rule share_range)
  have "fmul (fdiv 0 12) 20 = (0 :: rat)" "fmul (fdiv 12 12) 20 = (20 :: rat)" by code_simp+
  then show "fmul (fdiv (of_int 0) 12) 20 = of_int 0" "fmul (fdiv (of_int 12) 12) 20 = of_int 20" by simp_all
qed simp_all

lemma share3: "inrange (- 5) 45 s \<Longrightarrow> inrange (- 5) 45 (fmul (fdiv s 50) 50)"
proof (rule share_range)
  have "fmul (fdiv (- 5) 50) 50 = (- 5 :: rat)" "fmul (fdiv 45 50) 50 = (45 :: rat)" by code_simp+
  then show "fmul (fdiv (of_int (- 5)) 50) 50 = of_int (- 5)" "fmul (fdiv (of_int 45) 50) 50 = of_int 45" by simp_all
qed simp_all

lemma share4a: "inrange 0 20 s \<Longrightarrow> inrange 0 20 (fmul (fdiv s 20) 20)"
proof (rule share_range)
  have "fmul (fdiv 0 20) 20 = (0 :: rat)" "fmul (fdiv 20 20) 20 = (20 :: rat)" by code_simp+
  then show "fmul (fdiv (of_int 0) 20) 20 = of_int 0" "fmul (fdiv (of_int 20) 20) 20 = of_int 20" by simp_all
qed simp_all

lemma share4b: "inrange 0 10 s \<Longrightarrow> inrange 0 10 (fmul (fdiv s 10) 10)"
proof (rule share_range)
  have "fmul (fdiv 0 10) 10 = (0 :: rat)" "fmul (fdiv 10 10) 10 = (10 :: rat)" by code_simp+
  then show "fmul (fdiv (of_int 0) 10) 10 = of_int 0" "fmul (fdiv (of_int 10) 10) 10 = of_int 10" by simp_all
qed simp_all

text \<open>A record whose stage scores are in range, or not yet there.\<close>

definition stages_ok :: "signal_record \<Rightarrow> bool" where
  "stages_ok rec \<longleftrightarrow> inrange 0 12 (or_zero (sr_stage1_score rec)) \<and> inrange (- 5) 45 (or_zero (sr_stage3_score rec))
     \<and> inrange 0 20 (or_zero (sr_stage4a_score rec)) \<and> inrange 0 10 (or_zero (sr_stage4b_score rec))"

lemma signal_range:
  assumes "stages_ok rec"
  shows "\<exists>s. sr_signal_score (signal_score rec) = Some s \<and> inrange (- 5) 95 s"
proof -
  define raw where "raw = fadd (fadd (fadd (fmul (fdiv (or_zero (sr_stage1_score rec)) 12) 20) (fmul (fdiv (or_zero (sr_stage3_score rec)) 50) 50))
      (fmul (fdiv (or_zero (sr_stage4a_score rec)) 20) 20)) (fmul (fdiv (or_zero (sr_stage4b_score rec)) 10) 10)"
  have i: "inrange 0 20 (fmul (fdiv (or_zero (sr_stage1_score rec)) 12) 20)" "inrange (- 5) 45 (fmul (fdiv (or_zero (sr_stage3_score rec)) 50) 50)"
    "inrange 0 20 (fmul (fdiv (or_zero (sr_stage4a_score rec)) 20) 20)" "inrange 0 10 (fmul (fdiv (or_zero (sr_stage4b_score rec)) 10) 10)"
    using assms share1 share3 share4a share4b by (auto simp: stages_ok_def)
  from inrange_fadd[OF inrange_fadd[OF inrange_fadd[OF i(1,2)] i(3)] i(4)] have raw: "inrange (- 5) 95 raw" by (simp add: raw_def)
  have half: "inrange (- 5) 95 (fmul raw (1 / 2))"
    unfolding fmul_def by (rule inrange_fl) (use raw in \<open>auto simp: inrange_def\<close>)
  have "sr_signal_score (signal_score rec) = Some (pyround (if (case sr_stage1_score rec of None \<Rightarrow> False | Some s \<Rightarrow> s < 4) then fmul raw (1 / 2) else raw) 4)"
    by (simp add: signal_score_def Let_def raw_def)
  then show ?thesis using inrange_round[OF raw] inrange_round[OF half] by simp
qed

section \<open>When the pipeline returns\<close>

definition data_ok :: "signal_record \<Rightarrow> bool" where
  "data_ok rec \<longleftrightarrow> sr_entry_price rec \<le> 0 \<or> sr_stop_price rec \<le> 0 \<or> sr_tp1 rec \<noteq> None"

lemma run_stages_returns: "(\<exists>r. run_stages rec = Inr r) \<longleftrightarrow> data_ok rec \<and> sr_grade rec \<noteq> GradeCref"
proof -
  have a: "(\<exists>v. data_subscore rec = Inr v) \<longleftrightarrow> data_ok rec" by (auto simp: data_subscore_def data_ok_def split: option.splits)
  have b: "(\<exists>v. grade_subscore g = Inr v) \<longleftrightarrow> g \<noteq> GradeCref" for g by (cases g) auto
  have s3: "sr_grade (stage3_score r) = sr_grade r" for r by (simp add: stage3_score_def Let_def split: option.splits)
  show ?thesis using a b[of "sr_grade rec"] by (auto simp: run_stages_def stage1_score_def stage4b_score_def s3 Let_def)
qed

lemma run_stages_ok:
  assumes "run_stages rec = Inr r"
  shows "stages_ok r \<and> sr_stage4a_score r = Some 0 \<and> sr_pattern_family r = sr_pattern_family rec"
proof -
  obtain r1 r2 where r1: "stage1_score rec = Inr r1" and r2: "stage4b_score (stage3_score r1) = Inr r2"
    and r: "r = r2\<lparr>sr_stage4a_score := Some 0\<rparr>" using assms by (auto simp: run_stages_def)
  obtain s1 where s1: "sr_stage1_score r1 = Some s1" "inrange 0 12 s1" using stage1_range[OF r1] by blast
  obtain s3 where s3: "sr_stage3_score (stage3_score r1) = Some s3" "inrange (- 5) 45 s3" using stage3_range by blast
  obtain s4 where s4: "sr_stage4b_score r2 = Some s4" "inrange 0 10 s4" using stage4b_range[OF r2] by blast
  have "sr_stage1_score r2 = Some s1" "sr_stage3_score r2 = Some s3" "sr_pattern_family r2 = sr_pattern_family rec"
    using r1 r2 s1(1) s3(1) by (auto simp: stage4b_score_def stage3_score_def stage1_score_def Let_def split: option.splits)
  then show ?thesis using s1(2) s3(2) s4 by (simp add: r stages_ok_def or_zero_def) (simp add: inrange_def)
qed

lemma run_all_returns: "(\<exists>xs. run_all rs = Inr xs) \<longleftrightarrow> (\<forall>r \<in> set rs. data_ok r \<and> sr_grade r \<noteq> GradeCref)"
proof (induction rs)
  case (Cons r rs)
  show ?case using Cons.IH run_stages_returns[of r] by auto
qed simp

lemma run_all_ok: "run_all rs = Inr xs \<Longrightarrow> list_all2 (\<lambda>r x. stages_ok x \<and> sr_pattern_family x = sr_pattern_family r) rs xs"
proof (induction rs arbitrary: xs)
  case (Cons r rs)
  then show ?case using run_stages_ok[of r] by auto
qed simp

section \<open>The pattern table\<close>

lemma group_keys:
  "distinct (map fst d) \<Longrightarrow> distinct (map fst (foldl (\<lambda>d r. AList.update (sr_pattern_family r) (get_default d (sr_pattern_family r) [] @ [r]) d) d rs))"
  by (induction rs arbitrary: d) (auto simp: distinct_update)

lemma group_lookup:
  "get_default (foldl (\<lambda>d r. AList.update (sr_pattern_family r) (get_default d (sr_pattern_family r) [] @ [r]) d) d rs) fam []
     = get_default d fam [] @ filter (\<lambda>r. sr_pattern_family r = fam) rs"
proof (induction rs arbitrary: d)
  case (Cons r rs)
  show ?case unfolding foldl_Cons Cons.IH by (simp add: get_default_def update_conv)
qed simp

lemma group_dom:
  "set (map fst (foldl (\<lambda>d r. AList.update (sr_pattern_family r) (get_default d (sr_pattern_family r) [] @ [r]) d) d rs))
     = set (map fst d) \<union> sr_pattern_family ` set rs"
proof (induction rs arbitrary: d)
  case (Cons r rs)
  show ?case unfolding foldl_Cons Cons.IH by (auto simp: dom_update)
qed simp

lemma groups_exact:
  "distinct (map fst (group_by_pattern rs))" "set (map fst (group_by_pattern rs)) = sr_pattern_family ` set rs"
  "(fam, g) \<in> set (group_by_pattern rs) \<Longrightarrow> g = filter (\<lambda>r. sr_pattern_family r = fam) rs"
proof -
  show d: "distinct (map fst (group_by_pattern rs))" unfolding group_by_pattern_def by (rule group_keys) simp
  show "set (map fst (group_by_pattern rs)) = sr_pattern_family ` set rs" unfolding group_by_pattern_def group_dom by simp
  assume "(fam, g) \<in> set (group_by_pattern rs)"
  then have "get_default (group_by_pattern rs) fam [] = g" using d by (simp add: get_default_def)
  then show "g = filter (\<lambda>r. sr_pattern_family r = fam) rs"
    using group_lookup[of "[]" rs fam] by (simp add: group_by_pattern_def get_default_def)
qed

lemma group_sizes:
  "distinct fs \<Longrightarrow> k ` set rs \<subseteq> set fs \<Longrightarrow> sum_list (map (\<lambda>f. length (filter (\<lambda>r. k r = f) rs)) fs) = length rs"
proof (induction rs)
  case (Cons r rs)
  have "sum_list (map (\<lambda>f. length (filter (\<lambda>x. k x = f) (r # rs))) fs)
      = sum_list (map (\<lambda>f. (if k r = f then 1 else 0) + length (filter (\<lambda>x. k x = f) rs)) fs)"
    by (intro arg_cong[where f = sum_list] map_cong refl) simp
  also have "\<dots> = sum_list (map (\<lambda>f. if k r = f then 1 else 0) fs) + length rs"
    using Cons by (simp add: sum_list_addf)
  also have "sum_list (map (\<lambda>f. if k r = f then (1 :: nat) else 0) fs) = 1"
  proof -
    have "k r \<in> set fs" using Cons.prems by simp
    then show ?thesis using Cons.prems(1) by (induction fs) (auto simp: sum_list_eq_0_iff)
  qed
  finally show ?case by simp
qed simp

lemma sum_of_ints: "sum_list (map (\<lambda>x. int (g x)) fs) = int (sum_list (map g fs))"
  by (induction fs) auto

lemma stats_simps [simp]: "ps_family (pattern_stats fam g) = fam" "ps_count (pattern_stats fam g) = int (length g)"
  by (simp_all add: pattern_stats_def Let_def)

text \<open>The families of the table: sorted, without repetition, each row from its own records.\<close>

definition table_families :: "signal_record list \<Rightarrow> string list" where
  "table_families rs = map fst (sort_key fst (group_by_pattern rs))"

lemma table_families_exact:
  "sorted (table_families rs) \<and> distinct (table_families rs) \<and> set (table_families rs) = sr_pattern_family ` set rs"
proof -
  have "distinct (table_families rs) \<longleftrightarrow> distinct (map fst (group_by_pattern rs))"
    unfolding table_families_def by (simp add: distinct_map)
  moreover have "set (table_families rs) = set (map fst (group_by_pattern rs))" by (simp add: table_families_def)
  ultimately show ?thesis using groups_exact(1,2)[of rs] by (simp add: table_families_def)
qed

lemma table_rows:
  "map (\<lambda>(fam, g). pattern_stats fam g) (sort_key fst (group_by_pattern rs))
     = map (\<lambda>fam. pattern_stats fam (filter (\<lambda>r. sr_pattern_family r = fam) rs)) (table_families rs)"
  unfolding table_families_def map_map by (rule map_cong) (auto dest: groups_exact(3))

text \<open>
  The pattern table is a partition of the run. For a non-empty run its rows are the families that occur, in
  sorted order and each once; every row is the statistics of exactly the records of its family; the counts add up to the
  number of records; and the low-confidence flag is set exactly when some family has fewer than ten records.
\<close>

theorem pattern_table_exact:
  assumes "rs \<noteq> []" and "config_score_with_patterns rs = (cfg, low, ps)"
  shows "sorted (map ps_family ps) \<and> distinct (map ps_family ps) \<and> set (map ps_family ps) = sr_pattern_family ` set rs
    \<and> (\<forall>p \<in> set ps. p = pattern_stats (ps_family p) (filter (\<lambda>r. sr_pattern_family r = ps_family p) rs))
    \<and> sum_list (map ps_count ps) = int (length rs)
    \<and> (low \<longleftrightarrow> (\<exists>fam \<in> sr_pattern_family ` set rs. length (filter (\<lambda>r. sr_pattern_family r = fam) rs) < 10))"
proof -
  let ?row = "\<lambda>fam. pattern_stats fam (filter (\<lambda>r. sr_pattern_family r = fam) rs)"
  have ps: "ps = map ?row (table_families rs)" and low: "low \<longleftrightarrow> (\<exists>p \<in> set ps. ps_count p < 10)"
    using assms unfolding config_score_with_patterns_def table_rows Let_def by auto
  have fam: "map ps_family ps = table_families rs" unfolding ps by (simp add: comp_def)
  note tf = table_families_exact[of rs]
  have "sum_list (map ps_count ps) = int (sum_list (map (\<lambda>f. length (filter (\<lambda>r. sr_pattern_family r = f) rs)) (table_families rs)))"
    unfolding ps map_map comp_def stats_simps by (rule sum_of_ints)
  also have "\<dots> = int (length rs)" using group_sizes[of "table_families rs" sr_pattern_family rs] tf by simp
  finally have sum: "sum_list (map ps_count ps) = int (length rs)" .
  have "low \<longleftrightarrow> (\<exists>fam \<in> sr_pattern_family ` set rs. length (filter (\<lambda>r. sr_pattern_family r = fam) rs) < 10)"
    unfolding low ps using tf by auto
  moreover have "\<forall>p \<in> set ps. p = ?row (ps_family p)" unfolding ps by auto
  ultimately show ?thesis using sum tf fam by simp
qed

theorem pattern_table_exact_witness:
  "\<exists>cfg low ps. config_score_with_patterns [empty_record] = (cfg, low, ps) \<and> map ps_family ps = [''XABCD''] \<and> low"
proof -
  obtain cfg low ps where c: "config_score_with_patterns [empty_record] = (cfg, low, ps)"
    by (rule prod_cases3)
  have f: "sr_pattern_family empty_record = ''XABCD''" by (simp add: empty_record_def)
  have "set (map ps_family ps) = {''XABCD''}" "distinct (map ps_family ps)" "low"
    using pattern_table_exact[OF _ c] by (simp_all add: f)
  moreover have "xs = [x]" if "set xs = {x}" "distinct xs" for xs and x :: string
    using that by (cases xs) (auto simp: subset_singleton_iff)
  ultimately show ?thesis using c by blast
qed


lemma aggregate_scored:
  assumes "aggregate rs = (res, out)" and "rs \<noteq> []"
  shows "ag_bench_total res = bench_total (or_zero (sr_signal_score (signal_score (hd rs)))) (ag_config_score res)"
    and "list_all2 (\<lambda>r o1. sr_signal_score o1 = sr_signal_score (signal_score r) \<and> sr_bench_total o1 = Some (ag_bench_total res)) rs out"
    and "ag_signal_score res = or_zero (sr_signal_score (signal_score (hd rs)))"
  using assms
  by (auto simp: aggregate_def Let_def hd_map list_all2_map2 list.rel_refl split: prod.splits)

text \<open>
  C34: Every score the pipeline returns is in its range, and the range is not the documented one. Each record's signal
  score lies between -5 and 95 (the documented 0 to 100 is never reached: the outcome stage gives at most 45 of its 50
  points and may give -5); and the grand total of the run, written onto every record, combines the
  configuration's score with the signal score of the first record alone.
\<close>

theorem bench_scores_in_range:
  assumes run: "run_pipeline rs = Inr (res, out)" and ne: "rs \<noteq> []"
  shows "list_all (\<lambda>r. \<exists>s. sr_signal_score r = Some s \<and> - 5 \<le> s \<and> s \<le> 95) out
    \<and> length out = length rs
    \<and> list_all (\<lambda>r. sr_bench_total r = Some (ag_bench_total res)) out
    \<and> Some (ag_signal_score res) = sr_signal_score (hd out)
    \<and> ag_bench_total res = bench_total (ag_signal_score res) (ag_config_score res)"
proof -
  obtain xs where xs: "run_all rs = Inr xs" and ag: "aggregate xs = (res, out)" using run by (auto simp: run_pipeline_def)
  have ok: "list_all2 (\<lambda>r x. stages_ok x \<and> sr_pattern_family x = sr_pattern_family r) rs xs" using run_all_ok[OF xs] .
  have xne: "xs \<noteq> []" using ok ne by auto
  note a = aggregate_scored[OF ag xne]
  have len: "length out = length rs" using list_all2_lengthD[OF a(2)] list_all2_lengthD[OF ok] by simp
  have sok: "\<forall>x \<in> set xs. stages_ok x" using ok by (auto simp: list_all2_conv_all_nth in_set_conv_nth)
  have sc: "\<exists>s. sr_signal_score o1 = Some s \<and> - 5 \<le> s \<and> s \<le> 95" "sr_bench_total o1 = Some (ag_bench_total res)" if h: "o1 \<in> set out" for o1
  proof -
    obtain i where i: "i < length out" "out ! i = o1" using h by (auto simp: in_set_conv_nth)
    have il: "i < length xs" using i(1) list_all2_lengthD[OF a(2)] by simp
    have e: "sr_signal_score o1 = sr_signal_score (signal_score (xs ! i)) \<and> sr_bench_total o1 = Some (ag_bench_total res)"
      using list_all2_nthD[OF a(2) il] i(2) by simp
    then show "sr_bench_total o1 = Some (ag_bench_total res)" by simp
    show "\<exists>s. sr_signal_score o1 = Some s \<and> - 5 \<le> s \<and> s \<le> 95"
      using e signal_range[of "xs ! i"] sok il by (auto simp: inrange_def)
  qed
  have one: "out \<noteq> []" using len ne by auto
  have hdeq: "sr_signal_score (hd out) = sr_signal_score (signal_score (hd xs))"
    using list_all2_nthD[OF a(2), of 0] xne one by (simp add: hd_conv_nth)
  obtain s where s: "sr_signal_score (hd out) = Some s" using sc(1)[of "hd out"] one by auto
  have "ag_signal_score res = s" unfolding a(3) hdeq[symmetric] s or_zero_def by simp
  then have "Some (ag_signal_score res) = sr_signal_score (hd out)" using s by simp
  then show ?thesis using sc len a(1,3) by (simp add: list_all_iff)
qed

theorem bench_scores_in_range_witness:
  "\<exists>res out. run_pipeline [empty_record] = Inr (res, out) \<and> sr_bench_total (hd out) = Some (ag_bench_total res)"
proof -
  have "\<exists>xs. run_all [empty_record] = Inr xs" unfolding run_all_returns by (simp add: empty_record_def data_ok_def)
  then obtain res out where run: "run_pipeline [empty_record] = Inr (res, out)"
    unfolding run_pipeline_def by (metis ebind.simps(2) surj_pair)
  have "list_all (\<lambda>r. sr_bench_total r = Some (ag_bench_total res)) out \<and> length out = length [empty_record]"
    using bench_scores_in_range[OF run] by blast
  then have "sr_bench_total (hd out) = Some (ag_bench_total res)" by (cases out) auto
  then show ?thesis using run by blast
qed

end
