(* ===== verification/Pareto.thy ===== *)
theory Pareto
  imports Prelude
begin

text \<open>
  \<^verbatim>\<open>app/loop/pareto.py\<close>: the Pareto front of the tuning loop. The front maintenance is
  stated once, in a locale over a strict dominance relation and an identity key, and interpreted
  on the four objectives of the code. Metrics are compared, never computed with, so a float is
  its rational value; the defaults for a missing metric are the source's.
\<close>

section \<open>Front maintenance over any strict order\<close>

text \<open>
  \<open>dom a b\<close>: \<open>a\<close> beats \<open>b\<close>. The client of the interface is the front: a list of points, extended
  one point at a time by \<open>insert_front\<close>.
\<close>

locale dominance =
  fixes dom :: "'p \<Rightarrow> 'p \<Rightarrow> bool"
  assumes dom_irrefl: "\<not> dom p p"
    and dom_trans: "dom p q \<Longrightarrow> dom q r \<Longrightarrow> dom p r"
begin

definition antichain :: "'p list \<Rightarrow> bool" where
  "antichain ps \<longleftrightarrow> (\<forall>p \<in> set ps. \<forall>q \<in> set ps. \<not> dom p q)"

definition insert_front :: "'p \<Rightarrow> 'p list \<Rightarrow> 'p list option" where
  "insert_front p ps =
     (let kept = filter (\<lambda>q. \<not> dom p q) ps in
      if list_ex (\<lambda>q. dom q p) kept then None else Some (kept @ [p]))"

lemma insert_front_Some:
  "insert_front p ps = Some qs \<Longrightarrow> qs = filter (\<lambda>q. \<not> dom p q) ps @ [p] \<and> (\<forall>q \<in> set ps. \<not> dom q p)"
proof -
  assume "insert_front p ps = Some qs"
  then have qs: "qs = filter (\<lambda>q. \<not> dom p q) ps @ [p]" and kept: "\<forall>q \<in> set ps. dom p q \<or> \<not> dom q p"
    by (auto simp: insert_front_def Let_def list_ex_iff split: if_splits)
  have "\<not> (dom p q \<and> dom q p)" for q using dom_trans dom_irrefl by blast
  then show ?thesis using qs kept by blast
qed

lemma insert_front_None: "insert_front p ps = None \<Longrightarrow> \<exists>q \<in> set ps. dom q p"
  by (auto simp: insert_front_def Let_def list_ex_iff split: if_splits)

lemma insert_front_antichain: "antichain ps \<Longrightarrow> insert_front p ps = Some qs \<Longrightarrow> antichain qs"
  by (drule insert_front_Some) (auto simp: antichain_def dom_irrefl)

lemma insert_front_rejects_antichain:
  "antichain ps \<Longrightarrow> insert_front p ps = None \<Longrightarrow> filter (\<lambda>q. \<not> dom p q) ps = ps"
proof -
  assume anti: "antichain ps" and "insert_front p ps = None"
  then obtain q where "q \<in> set ps" "dom q p" using insert_front_None by blast
  then have "\<not> dom p x" if "x \<in> set ps" for x using anti that dom_trans by (metis antichain_def)
  then show ?thesis by simp
qed

text \<open>What was covered (beaten or matched in the order by a member) stays covered.\<close>

definition covers :: "('p \<Rightarrow> 'p \<Rightarrow> bool) \<Rightarrow> 'p list \<Rightarrow> 'p \<Rightarrow> bool" where
  "covers eqv ps p \<longleftrightarrow> (\<exists>q \<in> set ps. eqv q p \<or> dom q p)"

lemma covers_insert_front:
  assumes cov: "covers eqv ps p" and ins: "insert_front n ps = Some qs"
    and eqv: "\<And>a b c. dom a b \<Longrightarrow> eqv b c \<Longrightarrow> dom a c"
  shows "covers eqv qs p"
proof -
  from cov obtain q where q: "q \<in> set ps" "eqv q p \<or> dom q p" by (auto simp: covers_def)
  show ?thesis
  proof (cases "dom n q")
    case True
    then have "dom n p" using q(2) eqv dom_trans by blast
    then show ?thesis using insert_front_Some [OF ins] by (auto simp: covers_def)
  next
    case False
    then show ?thesis using q insert_front_Some [OF ins] by (auto simp: covers_def)
  qed
qed

end

section \<open>Points and objectives\<close>

record ParetoPoint =
  params_sha :: string
  pp_gen :: int
  pp_cluster :: string
  run_dir :: string
  sharpe :: "rat option"
  calmar :: "rat option"
  profit_factor :: "rat option"
  worst_sharpe :: "rat option"
  trade_count :: int
  pp_fitness :: rat

definition safe :: "rat option \<Rightarrow> rat \<Rightarrow> rat" where
  "safe x d = (case x of Some v \<Rightarrow> v | None \<Rightarrow> d)"

definition objectives :: "ParetoPoint \<Rightarrow> rat list" where
  "objectives p = [safe (sharpe p) (- 10), safe (calmar p) (- 10), safe (profit_factor p) 0, safe (worst_sharpe p) (- 10)]"

definition dominates :: "ParetoPoint \<Rightarrow> ParetoPoint \<Rightarrow> bool" where
  "dominates a b =
     (let pairs = zip (objectives a) (objectives b)
      in list_all (\<lambda>(x, y). x \<ge> y) pairs \<and> list_ex (\<lambda>(x, y). x > y) pairs)"

interpretation front: dominance dominates
proof
  show "\<not> dominates p p" for p by (simp add: dominates_def objectives_def)
  show "dominates p q \<Longrightarrow> dominates q r \<Longrightarrow> dominates p r" for p q r
    by (auto simp: dominates_def objectives_def)
qed

definition same_objectives :: "ParetoPoint \<Rightarrow> ParetoPoint \<Rightarrow> bool" where
  "same_objectives a b \<longleftrightarrow> objectives a = objectives b"

lemma dominates_same: "dominates a b \<Longrightarrow> same_objectives b c \<Longrightarrow> dominates a c"
  by (simp add: dominates_def same_objectives_def)

section \<open>The front\<close>

text \<open>\<open>ParetoSet.add\<close>: the new points and whether the front moved.\<close>

definition pareto_add :: "ParetoPoint \<Rightarrow> ParetoPoint list \<Rightarrow> ParetoPoint list \<times> bool" where
  "pareto_add p points =
     (if list_ex (\<lambda>q. params_sha q = params_sha p) points then (points, False)
      else let new_points = filter (\<lambda>q. \<not> dominates p q) points in
           if list_ex (\<lambda>q. dominates q p) new_points then (points, False)
           else (new_points @ [p], True))"

lemma pareto_add_insert:
  "pareto_add p points =
     (if list_ex (\<lambda>q. params_sha q = params_sha p) points then (points, False)
      else case front.insert_front p points of None \<Rightarrow> (points, False) | Some qs \<Rightarrow> (qs, True))"
  by (simp add: pareto_add_def front.insert_front_def Let_def)

text \<open>The front after offering points in order, starting from a given front.\<close>

definition offer_all :: "ParetoPoint list \<Rightarrow> ParetoPoint list \<Rightarrow> ParetoPoint list" where
  "offer_all front0 ps = foldl (\<lambda>fr p. fst (pareto_add p fr)) front0 ps"

record regime_bucket =
  bucket_n :: int
  bucket_sharpe :: "rat option"

text \<open>\<open>b.get("n", 0)\<close> is 0 for a bucket without the key.\<close>

definition worst_regime_sharpe :: "(string \<times> regime_bucket) list \<Rightarrow> rat option" where
  "worst_regime_sharpe by_regime =
     (let sharpes = concat (map (\<lambda>b. if bucket_n b \<ge> 3 then (case bucket_sharpe b of Some s \<Rightarrow> [s] | None \<Rightarrow> []) else [])
                         (vals_of by_regime))
      in if sharpes = [] then None else Some (list_min sharpes))"

record front_metrics =
  fm_sharpe :: "rat option"
  fm_calmar :: "rat option"
  fm_profit_factor :: "rat option"
  fm_by_regime :: "(string \<times> regime_bucket) list"
  fm_trades :: int

definition from_metrics :: "front_metrics \<Rightarrow> string \<Rightarrow> int \<Rightarrow> string \<Rightarrow> string \<Rightarrow> rat \<Rightarrow> ParetoPoint" where
  "from_metrics m sha g cluster dir fitness =
     \<lparr>params_sha = sha, pp_gen = g, pp_cluster = cluster, run_dir = dir, sharpe = fm_sharpe m, calmar = fm_calmar m,
      profit_factor = fm_profit_factor m, worst_sharpe = worst_regime_sharpe (fm_by_regime m),
      trade_count = fm_trades m, pp_fitness = fitness\<rparr>"

definition front_ok :: "ParetoPoint list \<Rightarrow> bool" where
  "front_ok points \<longleftrightarrow> front.antichain points \<and> distinct (map params_sha points)"

lemma front_ok_add: "front_ok points \<Longrightarrow> front_ok (fst (pareto_add p points))"
proof -
  assume ok: "front_ok points"
  show ?thesis
  proof (cases "list_ex (\<lambda>q. params_sha q = params_sha p) points")
    case True
    then show ?thesis using ok by (simp add: pareto_add_insert)
  next
    case False
    then show ?thesis
    proof (cases "front.insert_front p points")
      case None
      then show ?thesis using ok False by (simp add: pareto_add_insert)
    next
      case (Some qs)
      have "front.antichain qs" using ok Some front.insert_front_antichain by (auto simp: front_ok_def)
      moreover have "distinct (map params_sha qs)"
        using front.insert_front_Some [OF Some] False ok
        by (auto simp: front_ok_def list_ex_iff distinct_map_filter)
      ultimately show ?thesis using Some False by (simp add: front_ok_def pareto_add_insert)
    qed
  qed
qed

lemma offer_all_snoc: "offer_all fr (ps @ [p]) = fst (pareto_add p (offer_all fr ps))"
  by (simp add: offer_all_def)

lemma offer_all_subset: "set (offer_all [] ps) \<subseteq> set ps"
  by (induction ps rule: rev_induct)
    (auto simp: offer_all_snoc pareto_add_def Let_def offer_all_def [of "[]" "[]"] split: if_splits)

section \<open>Properties\<close>


definition demo_point :: "string \<Rightarrow> rat \<Rightarrow> rat \<Rightarrow> ParetoPoint" where
  "demo_point sha s c = \<lparr>params_sha = sha, pp_gen = 0, pp_cluster = '''', run_dir = '''', sharpe = Some s, calmar = Some c,
     profit_factor = None, worst_sharpe = None, trade_count = 0, pp_fitness = 0\<rparr>"


end
