(* ===== verification/BenchStats.thy ===== *)
theory BenchStats
  imports BenchScore Pareto "HOL-Library.Multiset"
begin

text \<open>
  \<^verbatim>\<open>bench/scoring/confidence.py\<close>, \<^verbatim>\<open>bench/scoring/pareto.py\<close>, \<^verbatim>\<open>bench/judge/mock.py\<close>, the report rows and the
  whole run of \<^verbatim>\<open>bench/runner.py\<close> over its fetched frame. \<open>math.sqrt\<close> is the argument \<open>sqrt_of\<close>.
\<close>

section \<open>Confidence\<close>

definition Z_TABLE :: "(rat \<times> rat) list" where
  "Z_TABLE = [(fl (10 / 100), fl (16449 / 10000)), (fl (5 / 100), fl (196 / 100)),
              (fl (1 / 100), fl (25758 / 10000)), (fl (1 / 1000), fl (32905 / 10000))]"

definition z_for_alpha :: "rat \<Rightarrow> bench_error + rat" where
  "z_for_alpha alpha = (case map_of Z_TABLE (pyround alpha 4) of None \<Rightarrow> Inl AlphaNotTabled | Some z \<Rightarrow> Inr z)"

definition wilson_interval :: "(rat \<Rightarrow> rat) \<Rightarrow> rat \<Rightarrow> int \<Rightarrow> int \<Rightarrow> rat \<times> rat" where
  "wilson_interval sqrt_of z successes n =
     (let p_hat = fdiv (of_int successes) (of_int n);
          denom = fadd 1 (fdiv (fmul z z) (of_int n));
          center = fdiv (fadd p_hat (fdiv (fmul z z) (of_int (2 * n)))) denom;
          spread = fdiv (fmul z (sqrt_of (fadd (fdiv (fmul p_hat (fsub 1 p_hat)) (of_int n))
                                              (fdiv (fmul z z) (of_int (4 * n * n)))))) denom
      in (max 0 (fsub center spread), min 1 (fadd center spread)))"

definition wilson_ci :: "(rat \<Rightarrow> rat) \<Rightarrow> int \<Rightarrow> int \<Rightarrow> rat \<Rightarrow> bench_error + rat \<times> rat" where
  "wilson_ci sqrt_of successes n alpha =
     (if n \<le> 0 then Inr (0, 1)
      else check (\<not> (successes < 0 \<or> n < successes)) BadSuccesses
        (check (0 < alpha \<and> alpha < 1) BadAlpha
          (ebind (z_for_alpha alpha) (\<lambda>z. Inr (wilson_interval sqrt_of z successes n)))))"

text \<open>The loop from the largest p-value down, writing each rank's adjusted value.\<close>

fun bh_loop :: "rat list \<Rightarrow> nat \<Rightarrow> rat \<Rightarrow> rat list \<Rightarrow> rat list" where
  "bh_loop sorted_p 0 running_min raw = raw"
| "bh_loop sorted_p (Suc idx) running_min raw =
     (let bh_step = fdiv (fmul (sorted_p ! idx) (of_nat (length sorted_p))) (of_nat (Suc idx));
          running_min' = min running_min bh_step
      in bh_loop sorted_p idx running_min' (raw[idx := min running_min' 1]))"

fun scatter :: "rat list \<Rightarrow> nat list \<Rightarrow> rat list \<Rightarrow> rat list" where
  "scatter (x # xs) (i # is) out = scatter xs is (out[i := x])"
| "scatter _ _ out = out"

definition bh_fdr :: "rat list \<Rightarrow> rat \<Rightarrow> bench_error + rat list \<times> bool list" where
  "bh_fdr pvalues alpha =
     (let n = length pvalues
      in if n = 0 then Inr ([], [])
         else check (0 < alpha \<and> alpha < 1) BadAlpha
           (check (list_all (\<lambda>p. \<not> (p < 0 \<or> 1 < p)) pvalues) BadPValue
             (let order = sort_key (\<lambda>i. pvalues ! i) [0 ..< n];
                  sorted_p = map (\<lambda>i. pvalues ! i) order;
                  raw = bh_loop sorted_p n 1 (replicate n 0);
                  adjusted = scatter raw order (replicate n 0)
              in Inr (adjusted, map (\<lambda>p. p \<le> alpha) adjusted))))"

definition low_confidence :: "(rat \<Rightarrow> rat) \<Rightarrow> signal_record list \<Rightarrow> int \<Rightarrow> rat \<Rightarrow> rat \<Rightarrow> bench_error + bool" where
  "low_confidence sqrt_of records min_n min_lower max_upper =
     (let n = int (length records)
      in if n < min_n then Inr True
         else ebind (wilson_ci sqrt_of (int (length (filter is_win records))) n (fl (5 / 100))) (\<lambda>(lo, hi).
           Inr (lo < min_lower \<or> hi < max_upper)))"

section \<open>The judge and its cost guard\<close>

record judge_verdict =
  jv_score :: "rat option"
  jv_justification :: string
  jv_confidence :: rat
  jv_model :: string
  jv_warnings :: "string list"

definition MOCK_TABLE :: "((outcome option \<times> direction) \<times> rat) list" where
  "MOCK_TABLE = [((Some OutTp1, LONG), 80), ((Some OutTp1, SHORT), 80), ((Some OutTp2, LONG), 90), ((Some OutTp2, SHORT), 90),
     ((Some OutTp3, LONG), 95), ((Some OutTp3, SHORT), 95), ((Some OutBreakeven, LONG), 50), ((Some OutBreakeven, SHORT), 50),
     ((Some OutStoploss, LONG), 20), ((Some OutStoploss, SHORT), 20)]"

fun outcome_text :: "outcome option \<Rightarrow> string" where
  "outcome_text None = ''None''"
| "outcome_text (Some OutTp3) = ''tp3''"
| "outcome_text (Some OutTp2) = ''tp2''"
| "outcome_text (Some OutTp1) = ''tp1''"
| "outcome_text (Some OutBreakeven) = ''breakeven''"
| "outcome_text (Some OutStoploss) = ''stoploss''"
| "outcome_text (Some OutExpired) = ''expired''"
| "outcome_text (Some OutIncomplete) = ''incomplete''"

definition mock_call :: "signal_record \<Rightarrow> judge_verdict" where
  "mock_call rec =
     \<lparr>jv_score = Some (get_default MOCK_TABLE (sr_outcome rec, sr_direction rec) 0),
      jv_justification = ''mock judge: outcome='' @ outcome_text (sr_outcome rec) @ '', direction='' @ direction_label (sr_direction rec),
      jv_confidence = 1, jv_model = ''mock-v1'', jv_warnings = []\<rparr>"

record cost_guard =
  max_calls :: int
  max_concurrency :: int
  calls_used :: int
  active :: int
  guard_warnings :: "string list"

definition new_guard :: "int \<Rightarrow> int \<Rightarrow> cost_guard" where
  "new_guard mc mx = \<lparr>max_calls = mc, max_concurrency = mx, calls_used = 0, active = 0, guard_warnings = []\<rparr>"

definition exhausted :: "cost_guard \<Rightarrow> bool" where
  "exhausted g \<longleftrightarrow> max_calls g \<le> calls_used g"

definition acquire :: "cost_guard \<Rightarrow> bool \<times> cost_guard" where
  "acquire g =
     (if exhausted g then
        (False, g\<lparr>guard_warnings := guard_warnings g @ [''judge call limit reached ('' @ int_text (max_calls g) @ ''); further calls suppressed'']\<rparr>)
      else if max_concurrency g \<le> active g then
        (False, g\<lparr>guard_warnings := guard_warnings g @ [''judge concurrency limit reached ('' @ int_text (max_concurrency g) @ '')'']\<rparr>)
      else (True, g\<lparr>calls_used := calls_used g + 1, active := active g + 1\<rparr>))"

definition release :: "cost_guard \<Rightarrow> cost_guard" where
  "release g = (if 0 < active g then g\<lparr>active := active g - 1\<rparr> else g)"

definition reset :: "cost_guard \<Rightarrow> cost_guard" where
  "reset g = g\<lparr>calls_used := 0, active := 0, guard_warnings := []\<rparr>"

text \<open>The judge returns a verdict or raises; the slot is released in either case.\<close>

definition judge_with_guard ::
    "(signal_record \<Rightarrow> 'e + judge_verdict) \<Rightarrow> signal_record \<Rightarrow> cost_guard \<Rightarrow> ('e + judge_verdict) \<times> cost_guard" where
  "judge_with_guard judge rec g =
     (case acquire g of
        (False, g1) \<Rightarrow>
          (Inr \<lparr>jv_score = None, jv_justification = ''judge call suppressed by cost guard'', jv_confidence = 1,
                jv_model = ''mock'', jv_warnings = guard_warnings g1\<rparr>, g1)
      | (True, g1) \<Rightarrow>
          (case judge rec of
             Inl e \<Rightarrow> (Inl e, release g1)
           | Inr v \<Rightarrow> (Inr (if guard_warnings g1 \<noteq> [] then v\<lparr>jv_warnings := jv_warnings v @ guard_warnings g1\<rparr> else v), release g1)))"

text \<open>A run judges its records one after another.\<close>

fun judge_all :: "(signal_record \<Rightarrow> 'e + judge_verdict) \<Rightarrow> signal_record list \<Rightarrow> cost_guard \<Rightarrow> ('e + judge_verdict) list \<times> cost_guard" where
  "judge_all judge [] g = ([], g)"
| "judge_all judge (r # rs) g =
     (let (v, g1) = judge_with_guard judge r g; (vs, g2) = judge_all judge rs g1 in (v # vs, g2))"

section \<open>The report\<close>

datatype csv_value = CsvNone | CsvText string | CsvNum rat | CsvInt int | CsvBool bool

definition opt_num :: "rat option \<Rightarrow> csv_value" where
  "opt_num x = (case x of None \<Rightarrow> CsvNone | Some v \<Rightarrow> CsvNum v)"

definition opt_int :: "int option \<Rightarrow> csv_value" where
  "opt_int x = (case x of None \<Rightarrow> CsvNone | Some v \<Rightarrow> CsvInt v)"

definition opt_bool :: "bool option \<Rightarrow> csv_value" where
  "opt_bool x = (case x of None \<Rightarrow> CsvNone | Some v \<Rightarrow> CsvBool v)"

fun split_text :: "split \<Rightarrow> string" where
  "split_text SplitIs = ''is''"
| "split_text SplitOos = ''oos''"

definition CSV_COLUMNS :: "string list" where
  "CSV_COLUMNS = [''signal_id'', ''run_id'', ''params_sha'', ''timestamp'', ''split'', ''horizon_bars'',
     ''pattern'', ''direction'', ''entry_price'', ''stop_price'', ''tp1'',
     ''stage1_score'', ''stage3_score'', ''stage4a_score'', ''stage4b_score'',
     ''signal_score'', ''config_score'', ''bench_total'',
     ''outcome'', ''r_multiple'', ''bars_held'', ''weak_validity'',
     ''mae'', ''mfe'', ''mae_atr_ratio'', ''mfe_atr_ratio'', ''callback_depth'', ''callback_bars'',
     ''callback_volume_ratio'', ''hit_stop_before_tp'', ''stop_zone_touches'', ''price_efficiency'',
     ''extra_a'', ''extra_b'', ''extra_c'', ''extra_d'', ''extra_e'', ''extra_f'', ''extra_g'', ''extra_h'', ''extra_i'',
     ''extra_j'', ''extra_k'', ''extra_l'', ''extra_m'']"

text \<open>The attributes behind the columns; \<open>pattern\<close> reads \<open>pattern_type\<close> and \<open>r_multiple\<close> reads \<open>net_rr\<close>.\<close>

definition row_values :: "signal_record \<Rightarrow> (string \<times> csv_value) list" where
  "row_values rec =
     [(''signal_id'', CsvText (sr_signal_id rec)), (''run_id'', CsvText (sr_run_id rec)), (''params_sha'', CsvText (sr_params_sha rec)),
      (''timestamp'', CsvText (sr_timestamp rec)),
      (''split'', (case sr_split rec of None \<Rightarrow> CsvNone | Some s \<Rightarrow> CsvText (split_text s))),
      (''pattern'', CsvText (sr_pattern_type rec)), (''direction'', CsvText (direction_label (sr_direction rec))),
      (''entry_price'', CsvNum (sr_entry_price rec)), (''stop_price'', CsvNum (sr_stop_price rec)), (''tp1'', opt_num (sr_tp1 rec)),
      (''stage1_score'', opt_num (sr_stage1_score rec)), (''stage3_score'', opt_num (sr_stage3_score rec)),
      (''stage4a_score'', opt_num (sr_stage4a_score rec)), (''stage4b_score'', opt_num (sr_stage4b_score rec)),
      (''signal_score'', opt_num (sr_signal_score rec)), (''config_score'', opt_num (sr_config_score rec)),
      (''bench_total'', opt_num (sr_bench_total rec)),
      (''outcome'', (case sr_outcome rec of None \<Rightarrow> CsvNone | Some x \<Rightarrow> CsvText (outcome_text (Some x)))),
      (''r_multiple'', opt_num (sr_net_rr rec)), (''bars_held'', opt_int (sr_bars_held rec)),
      (''weak_validity'', CsvBool (sr_weak_validity rec)),
      (''mae'', opt_num (sr_mae rec)), (''mfe'', opt_num (sr_mfe rec)), (''mae_atr_ratio'', opt_num (sr_mae_atr_ratio rec)),
      (''mfe_atr_ratio'', opt_num (sr_mfe_atr_ratio rec)), (''callback_depth'', opt_num (sr_callback_depth rec)),
      (''callback_bars'', opt_int (sr_callback_bars rec)), (''callback_volume_ratio'', opt_num (sr_callback_volume_ratio rec)),
      (''hit_stop_before_tp'', opt_bool (sr_hit_stop_before_tp rec)), (''stop_zone_touches'', opt_int (sr_stop_zone_touches rec)),
      (''price_efficiency'', opt_num (sr_price_efficiency rec))]"

definition record_to_row :: "signal_record \<Rightarrow> (string \<times> csv_value) list" where
  "record_to_row rec = map (\<lambda>col. (col, get_default (row_values rec) col CsvNone)) CSV_COLUMNS"

section \<open>The run\<close>

record bench_point =
  bp_base :: ParetoPoint
  bp_version :: string
  bp_weights_version :: string
  bp_signal_score :: rat
  bp_config_score :: "rat option"
  bp_bench_total :: rat
  bp_low_confidence :: bool
  bp_n_signals :: int
  bp_win_rate :: rat
  bp_win_rate_ci :: "rat \<times> rat"
  bp_exit_code :: int
  bp_warnings :: "string list"

record bench_run =
  br_config_id :: string
  br_n_records :: int
  br_counts :: "int \<times> int \<times> int \<times> int"
  br_signal_score :: rat
  br_config_score :: "rat option"
  br_bench_total :: rat
  br_weak_validity :: bool
  br_low_confidence :: bool
  br_n_patterns :: int
  br_csv_path :: "string option"
  br_leaderboard_path :: "string option"
  br_rows :: "(string \<times> csv_value) list list"
  br_point :: "bench_point option"

datatype run_error = NoHistory | WalkFailed wf_error | BenchFailed bench_error

definition run_config_id :: "string option \<Rightarrow> string \<Rightarrow> string \<Rightarrow> int \<Rightarrow> string" where
  "run_config_id config_id symbol interval days =
     (case config_id of Some (c # cs) \<Rightarrow> c # cs | _ \<Rightarrow> symbol @ ''_'' @ interval @ ''_'' @ int_text days @ ''d'')"

definition run_point :: "string \<Rightarrow> string \<Rightarrow> signal_record list \<Rightarrow> aggregator_result \<Rightarrow> rat \<times> rat \<Rightarrow> bench_point" where
  "run_point config_id out_dir rs ag ci =
     (let n_total = int (length (filter (\<lambda>r. sr_outcome r \<noteq> None) rs));
          n_wins = int (length (filter is_win rs));
          win_rate = (if n_total \<noteq> 0 then fdiv (of_int n_wins) (of_int n_total) else 0)
      in \<lparr>bp_base = \<lparr>params_sha = config_id, pp_gen = 0, pp_cluster = ''bench_runner'', run_dir = out_dir, sharpe = None,
                    calmar = None, profit_factor = None, worst_sharpe = None, trade_count = n_total, pp_fitness = ag_bench_total ag\<rparr>,
          bp_version = ''0.1.0'', bp_weights_version = ''2026-07-31'', bp_signal_score = ag_signal_score ag,
          bp_config_score = ag_config_score ag, bp_bench_total = ag_bench_total ag, bp_low_confidence = ag_low_confidence ag,
          bp_n_signals = ag_n_signals ag, bp_win_rate = pyround win_rate 4, bp_win_rate_ci = ci, bp_exit_code = 0,
          bp_warnings = map ps_family (filter (\<lambda>p. ps_count p < 10) (ag_pattern_scores ag))\<rparr>)"

text \<open>
  \<open>run_bench\<close>: the history asked for is a week longer than the days; \<open>fetch\<close> and \<open>walk\<close> are the adapter and the
  injected walk-forward. Files are the rows and the point they are written from.
\<close>

definition run_bench ::
    "(rat \<Rightarrow> rat) \<Rightarrow> (int \<Rightarrow> string) \<Rightarrow> (string \<Rightarrow> string \<Rightarrow> string \<Rightarrow> int \<Rightarrow> history option)
     \<Rightarrow> (history \<Rightarrow> string \<Rightarrow> string \<Rightarrow> wf_error + wf_record list)
     \<Rightarrow> string \<Rightarrow> string \<Rightarrow> int \<Rightarrow> string option \<Rightarrow> string option \<Rightarrow> string \<Rightarrow> run_error + bench_run" where
  "run_bench sqrt_of isofmt fetch walk symbol interval days out_dir config_id market =
     (let cid = run_config_id config_id symbol interval days
      in case fetch market symbol interval (days + 7) of
        None \<Rightarrow> Inl NoHistory
      | Some df \<Rightarrow>
          if f_bars (h_frame df) = [] then Inl NoHistory
          else ebind (lift_err WalkFailed (walk df symbol interval)) (\<lambda>records.
            ebind (lift_err BenchFailed (run_pipeline (convert_records isofmt records symbol interval))) (\<lambda>(ag, rs).
              let base = \<lparr>br_config_id = cid, br_n_records = int (length rs), br_counts = count_by_result records,
                     br_signal_score = ag_signal_score ag, br_config_score = ag_config_score ag, br_bench_total = ag_bench_total ag,
                     br_weak_validity = ag_weak_validity ag, br_low_confidence = ag_low_confidence ag,
                     br_n_patterns = ag_n_patterns ag, br_csv_path = None, br_leaderboard_path = None, br_rows = [],
                     br_point = None\<rparr>
              in case out_dir of
                   None \<Rightarrow> Inr base
                 | Some dir \<Rightarrow>
                     ebind (lift_err BenchFailed (wilson_ci sqrt_of (int (length (filter is_win rs)))
                              (int (length (filter (\<lambda>r. sr_outcome r \<noteq> None) rs))) (fl (5 / 100)))) (\<lambda>ci.
                       Inr (base\<lparr>br_csv_path := Some (dir @ ''/'' @ cid @ ''.csv''),
                                 br_leaderboard_path := Some (dir @ ''/'' @ cid @ ''_leaderboard.json''),
                                 br_rows := map record_to_row rs, br_point := Some (run_point cid dir rs ag ci)\<rparr>)))))"

section \<open>The interval\<close>

lemma fmul_square: "0 \<le> fmul z z"
  unfolding fmul_def by (rule fl_nonneg) simp

lemma wilson_within:
  assumes n: "0 < n" and s: "0 \<le> s" "s \<le> n" and z: "0 \<le> z" and sq: "\<And>x. 0 \<le> x \<Longrightarrow> 0 \<le> sqrt_of x"
  shows "case wilson_interval sqrt_of z s n of (lo, hi) \<Rightarrow> 0 \<le> lo \<and> lo \<le> hi \<and> hi \<le> 1"
proof -
  define p where "p = fdiv (of_int s) (of_int n)"
  define zz where "zz = fmul z z"
  define denom where "denom = fadd 1 (fdiv zz (of_int n))"
  define num where "num = fadd p (fdiv zz (of_int (2 * n)))"
  define c where "c = fdiv num denom"
  define sp where "sp = fdiv (fmul z (sqrt_of (fadd (fdiv (fmul p (fsub 1 p)) (of_int n)) (fdiv zz (of_int (4 * n * n)))))) denom"
  have n0: "0 < (of_int n :: rat)" using n by simp
  have zz0: "0 \<le> zz" unfolding zz_def by (rule fmul_square)
  have p: "0 \<le> p" "p \<le> 1"
    unfolding p_def using s n by (auto intro!: fdiv_nonneg fdiv_le_float simp: divide_le_eq_1)
  have d1: "1 \<le> denom" unfolding denom_def by (rule fadd_ge) (use zz0 n in \<open>auto intro: fdiv_nonneg\<close>)
  have num0: "0 \<le> num" unfolding num_def by (intro fadd_nonneg fdiv_nonneg) (use p zz0 n in auto)
  have "fdiv zz (of_int (2 * n)) \<le> fdiv zz (of_int n)"
    unfolding fdiv_def by (rule fl_mono) (use zz0 n in \<open>auto intro!: divide_left_mono\<close>)
  then have nd: "num \<le> denom" unfolding num_def denom_def using p by (intro fadd_mono)
  have c0: "0 \<le> c" unfolding c_def by (rule fdiv_nonneg) (use num0 d1 in auto)
  have c1: "c \<le> 1" unfolding c_def by (rule fdiv_le_float) (use nd d1 in auto)
  have sp0: "0 \<le> sp"
  proof -
    have "0 \<le> fsub 1 p" using p by (intro fsub_nonneg)
    then have "0 \<le> fadd (fdiv (fmul p (fsub 1 p)) (of_int n)) (fdiv zz (of_int (4 * n * n)))"
      using p zz0 n by (intro fadd_nonneg fdiv_nonneg fmul_nonneg) auto
    then show ?thesis unfolding sp_def using z d1 by (intro fdiv_nonneg fmul_nonneg sq) auto
  qed
  have cf: "is_float c" by (simp add: c_def)
  have "fsub c sp \<le> c" "c \<le> fadd c sp" using cf sp0 by (auto intro: fsub_le fadd_ge)
  then have "max 0 (fsub c sp) \<le> min 1 (fadd c sp)" using c0 c1 by (auto simp: max_def min_def)
  moreover have "wilson_interval sqrt_of z s n = (max 0 (fsub c sp), min 1 (fadd c sp))"
    by (simp add: wilson_interval_def Let_def c_def num_def denom_def sp_def p_def zz_def)
  ultimately show ?thesis by simp
qed

section \<open>The step-up procedure\<close>

definition bh_step :: "rat list \<Rightarrow> nat \<Rightarrow> rat" where
  "bh_step sp j = fdiv (fmul (sp ! j) (of_nat (length sp))) (of_nat (Suc j))"

lemma bh_loop_length [simp]: "length (bh_loop sp k rm raw) = length raw"
  by (induction k arbitrary: rm raw) (simp_all add: Let_def)

lemma bh_loop_above: "k \<le> i \<Longrightarrow> bh_loop sp k rm raw ! i = raw ! i"
  by (induction k arbitrary: rm raw) (simp_all add: Let_def)

lemma bh_loop_le:
  "i < k \<Longrightarrow> k \<le> length raw \<Longrightarrow> a < 1 \<Longrightarrow>
   bh_loop sp k rm raw ! i \<le> a \<longleftrightarrow> rm \<le> a \<or> (\<exists>j. i \<le> j \<and> j < k \<and> bh_step sp j \<le> a)"
proof (induction k arbitrary: rm raw)
  case (Suc k)
  have u: "bh_loop sp (Suc k) rm raw = bh_loop sp k (min rm (bh_step sp k)) (raw[k := min (min rm (bh_step sp k)) 1])"
    by (simp add: bh_step_def Let_def)
  show ?case
  proof (cases "i = k")
    case True
    have "bh_loop sp (Suc k) rm raw ! i = min (min rm (bh_step sp k)) 1"
      unfolding u using Suc.prems True by (simp add: bh_loop_above)
    then show ?thesis unfolding \<open>i = k\<close> using Suc.prems(3) by (auto simp: min_le_iff_disj less_Suc_eq simp del: bh_loop.simps)
  next
    case False
    then have step: "bh_loop sp (Suc k) rm raw ! i \<le> a \<longleftrightarrow>
        min rm (bh_step sp k) \<le> a \<or> (\<exists>j. i \<le> j \<and> j < k \<and> bh_step sp j \<le> a)"
      unfolding u by (intro Suc.IH) (use Suc.prems in auto)
    have ik: "i < k" using False Suc.prems(1) by simp
    have "(\<exists>j. i \<le> j \<and> j < Suc k \<and> bh_step sp j \<le> a) \<longleftrightarrow>
        bh_step sp k \<le> a \<or> (\<exists>j. i \<le> j \<and> j < k \<and> bh_step sp j \<le> a)"
      using ik by (metis less_Suc_eq less_imp_le)
    then show ?thesis unfolding step by (simp only: min_le_iff_disj) blast
  qed
qed simp

lemma scatter_length [simp]: "length (scatter xs is out) = length out"
  by (induction xs "is" out rule: scatter.induct) auto

lemma scatter_other: "i \<notin> set is \<Longrightarrow> scatter xs is out ! i = out ! i"
  by (induction xs "is" out rule: scatter.induct) auto

lemma scatter_nth:
  "distinct is \<Longrightarrow> length xs = length is \<Longrightarrow> (\<forall>i \<in> set is. i < length out) \<Longrightarrow> k < length is \<Longrightarrow> scatter xs is out ! (is ! k) = xs ! k"
proof (induction xs "is" out arbitrary: k rule: scatter.induct)
  case (1 x xs i "is" out)
  then show ?case by (cases k) (simp_all add: scatter_other)
qed auto

lemma order_sorted: "map (\<lambda>i. ps ! i) (sort_key (\<lambda>i. ps ! i) [0 ..< length ps]) = sort ps"
proof (rule sym, rule properties_for_sort)
  have "mset (map ((!) ps) (sort_key ((!) ps) [0 ..< length ps])) = mset (map ((!) ps) [0 ..< length ps])"
    by (simp only: mset_map mset_sort)
  then show "mset (map (\<lambda>i. ps ! i) (sort_key (\<lambda>i. ps ! i) [0 ..< length ps])) = mset ps" by (simp only: map_nth)
qed (rule sorted_sort_key)

lemma bh_steps_fall:
  assumes "j \<le> r" "r < length sp" "0 \<le> sp ! j" and eq: "sp ! r = sp ! j"
  shows "bh_step sp r \<le> bh_step sp j"
proof -
  have "0 \<le> fmul (sp ! j) (of_nat (length sp))" using assms(3) by (intro fmul_nonneg) auto
  then show ?thesis unfolding bh_step_def fdiv_def eq using assms(1) by (intro fl_mono divide_left_mono) auto
qed

text \<open>
  C35: The Benjamini-Hochberg adjustment is the textbook step-up test. For p-values in the unit interval and a level
  strictly between 0 and 1 the function returns, in the order of its input, and hypothesis \<open>i\<close> is
  rejected exactly when some rank \<open>j\<close> has \<open>p_(j) * n / j\<close> at most the level (in the code's rounded arithmetic) and
  \<open>p_i\<close> is at most \<open>p_(j)\<close>; ties are therefore decided alike and rejection is downward closed.
\<close>

theorem bh_fdr_is_step_up:
  assumes ps: "list_all (\<lambda>p. 0 \<le> p \<and> p \<le> 1) ps" and alpha: "0 < alpha" "alpha < 1"
  shows "\<exists>adjusted reject. bh_fdr ps alpha = Inr (adjusted, reject) \<and> length adjusted = length ps \<and> length reject = length ps
    \<and> (\<forall>i < length ps. reject ! i \<longleftrightarrow>
         (\<exists>j < length ps. fdiv (fmul (sort ps ! j) (of_nat (length ps))) (of_nat (Suc j)) \<le> alpha \<and> ps ! i \<le> sort ps ! j))"
proof (cases "ps = []")
  case True
  then show ?thesis by (simp add: bh_fdr_def)
next
  case False
  define n where "n = length ps"
  define ord where "ord = sort_key (\<lambda>i. ps ! i) [0 ..< n]"
  define raw where "raw = bh_loop (sort ps) n 1 (replicate n 0)"
  define adj where "adj = scatter raw ord (replicate n 0)"
  have ord: "distinct ord" "set ord = {0 ..< n}" "length ord = n" by (simp_all add: ord_def)
  have sp: "map (\<lambda>i. ps ! i) ord = sort ps" using order_sorted[of ps] by (simp add: ord_def n_def)
  have run: "bh_fdr ps alpha = Inr (adj, map (\<lambda>p. p \<le> alpha) adj)"
    using False ps alpha unfolding bh_fdr_def
    by (simp add: Let_def list_all_iff not_less flip: n_def ord_def) (simp add: sp adj_def raw_def)
  have rank: "(map (\<lambda>p. p \<le> alpha) adj) ! i \<longleftrightarrow> (\<exists>j < n. bh_step (sort ps) j \<le> alpha \<and> ps ! i \<le> sort ps ! j)" if i: "i < n" for i
  proof -
    obtain r where r: "r < n" "ord ! r = i" using i ord by (metis atLeastLessThan_iff in_set_conv_nth zero_le)
    have pr: "sort ps ! r = ps ! i" using r ord(3) by (simp flip: sp)
    have ai: "adj ! i = raw ! r"
      unfolding adj_def using scatter_nth[OF ord(1), of raw "replicate n 0" r] r ord by (simp add: raw_def)
    have "raw ! r \<le> alpha \<longleftrightarrow> (\<exists>j. r \<le> j \<and> j < n \<and> bh_step (sort ps) j \<le> alpha)"
      using bh_loop_le[of r n "replicate n 0" alpha "sort ps" 1] r alpha by (simp add: raw_def)
    also have "\<dots> \<longleftrightarrow> (\<exists>j < n. bh_step (sort ps) j \<le> alpha \<and> ps ! i \<le> sort ps ! j)"
    proof
      assume "\<exists>j. r \<le> j \<and> j < n \<and> bh_step (sort ps) j \<le> alpha"
      then obtain j where j: "r \<le> j" "j < n" "bh_step (sort ps) j \<le> alpha" by blast
      then have "sort ps ! r \<le> sort ps ! j" by (intro sorted_nth_mono) (simp_all add: n_def)
      then show "\<exists>j < n. bh_step (sort ps) j \<le> alpha \<and> ps ! i \<le> sort ps ! j" using j pr by auto
    next
      assume "\<exists>j < n. bh_step (sort ps) j \<le> alpha \<and> ps ! i \<le> sort ps ! j"
      then obtain j where j: "j < n" "bh_step (sort ps) j \<le> alpha" "ps ! i \<le> sort ps ! j" by blast
      show "\<exists>j. r \<le> j \<and> j < n \<and> bh_step (sort ps) j \<le> alpha"
      proof (cases "r \<le> j")
        case False
        then have jr: "j \<le> r" by simp
        then have "sort ps ! j \<le> sort ps ! r" using r by (intro sorted_nth_mono) (simp_all add: n_def)
        then have eq: "sort ps ! r = sort ps ! j" using j(3) pr by simp
        have "0 \<le> sort ps ! j" using ps j(1) by (metis list_all_iff n_def nth_mem set_sort length_sort)
        then have "bh_step (sort ps) r \<le> alpha" using bh_steps_fall[OF jr _ _ eq] r j(2) by (simp add: n_def)
        then show ?thesis using r by blast
      qed (use j in blast)
    qed
    finally have "raw ! r \<le> alpha \<longleftrightarrow> (\<exists>j < n. bh_step (sort ps) j \<le> alpha \<and> ps ! i \<le> sort ps ! j)" .
    then show ?thesis using i ai by (simp add: adj_def)
  qed
  have len: "length adj = n" "length (map (\<lambda>p. p \<le> alpha) adj) = n" by (simp_all add: adj_def)
  show ?thesis using run rank len unfolding bh_step_def n_def length_sort by blast
qed

theorem bh_fdr_is_step_up_witness:
  "\<exists>adjusted reject. bh_fdr [0] (1 / 2) = Inr (adjusted, reject) \<and> reject ! 0"
proof -
  obtain adjusted reject where r: "bh_fdr [0] (1 / 2) = Inr (adjusted, reject)"
    "\<forall>i < length [0 :: rat]. reject ! i \<longleftrightarrow> (\<exists>j < length [0 :: rat]. fdiv (fmul (sort [0] ! j) (of_nat (length [0 :: rat]))) (of_nat (Suc j)) \<le> 1 / 2
        \<and> [0] ! i \<le> sort [0 :: rat] ! j)"
    using bh_fdr_is_step_up[of "[0]" "1 / 2"] by auto
  then show ?thesis by auto
qed

section \<open>The guard\<close>

lemma release_acquire: "acquire g = (True, g1) \<Longrightarrow> 0 \<le> active g \<Longrightarrow> release g1 = g\<lparr>calls_used := calls_used g + 1\<rparr>"
  by (auto simp: acquire_def release_def split: if_splits)

lemma judge_step:
  assumes "active g = 0" "0 < max_concurrency g"
  shows "judge_with_guard judge rec g =
    (if exhausted g then
       (Inr \<lparr>jv_score = None, jv_justification = ''judge call suppressed by cost guard'', jv_confidence = 1,
             jv_model = ''mock'', jv_warnings = guard_warnings (snd (acquire g))\<rparr>, snd (acquire g))
     else (case judge rec of Inl e \<Rightarrow> Inl e
           | Inr v \<Rightarrow> Inr (if guard_warnings g \<noteq> [] then v\<lparr>jv_warnings := jv_warnings v @ guard_warnings g\<rparr> else v),
           g\<lparr>calls_used := calls_used g + 1\<rparr>))"
  using assms by (auto simp: judge_with_guard_def acquire_def release_def split: sum.splits)

text \<open>A call was let through to the judge when it did not come back as the guard's refusal.\<close>

definition refused :: "('e + judge_verdict) \<Rightarrow> bool" where
  "refused r \<longleftrightarrow> (\<exists>v. r = Inr v \<and> jv_score v = None \<and> jv_justification v = ''judge call suppressed by cost guard'')"

lemma judge_all_counts:
  assumes "active g = 0" "0 < max_concurrency g" "calls_used g \<le> max_calls g"
    and "judge_all judge rs g = (vs, g')"
    and scored: "\<forall>r v. judge r = Inr v \<longrightarrow> jv_score v \<noteq> None"
  shows "active g' = 0 \<and> max_calls g' = max_calls g \<and> length vs = length rs
    \<and> calls_used g' = min (max_calls g) (calls_used g + int (length rs))
    \<and> (\<forall>i < length rs. refused (vs ! i) \<longleftrightarrow> max_calls g \<le> calls_used g + int i)"
  using assms
proof (induction rs arbitrary: g vs)
  case (Cons r rs)
  obtain v g1 where s: "judge_with_guard judge r g = (v, g1)" by (meson surj_pair)
  obtain us where us: "judge_all judge rs g1 = (us, g')" and vs: "vs = v # us"
    using Cons.prems(4) s by (auto simp: Let_def split: prod.splits)
  have g1: "active g1 = 0" "max_concurrency g1 = max_concurrency g" "max_calls g1 = max_calls g"
    "calls_used g1 = min (max_calls g) (calls_used g + 1)" "refused v \<longleftrightarrow> max_calls g \<le> calls_used g"
    using s Cons.prems(1-3,5) unfolding judge_step[OF Cons.prems(1,2)]
    by (auto simp: exhausted_def acquire_def refused_def split: if_splits sum.splits)
  have IH: "active g' = 0 \<and> max_calls g' = max_calls g1 \<and> length us = length rs
    \<and> calls_used g' = min (max_calls g1) (calls_used g1 + int (length rs))
    \<and> (\<forall>i < length rs. refused (us ! i) \<longleftrightarrow> max_calls g1 \<le> calls_used g1 + int i)"
    by (rule Cons.IH[OF _ _ _ us Cons.prems(5)]) (use g1 Cons.prems(2) in auto)
  have "refused (vs ! i) \<longleftrightarrow> max_calls g \<le> calls_used g + int i" if "i < length (r # rs)" for i
    using that IH g1 Cons.prems(3) by (cases i) (auto simp: vs)
  then show ?case using IH g1 Cons.prems(3) by (auto simp: vs)
qed simp

text \<open>
  A run through a fresh guard lets exactly the first \<open>max_calls\<close> records through, whatever the judge does with
  them (raising included), refuses every later one, and ends with no slot held.
\<close>

lemma guard_runs_exactly:
  assumes "0 \<le> mc" "0 < mx" "judge_all judge rs (new_guard mc mx) = (vs, g)"
    and "\<forall>r v. judge r = Inr v \<longrightarrow> jv_score v \<noteq> None"
  shows "active g = 0 \<and> length vs = length rs \<and> calls_used g = min mc (int (length rs))
    \<and> (\<forall>i < length rs. refused (vs ! i) \<longleftrightarrow> mc \<le> int i)"
  using judge_all_counts[of "new_guard mc mx" judge rs vs g] assms by (simp add: new_guard_def)

section \<open>The guard under threads\<close>

text \<open>
  The guard has no lock: between the tests of \<open>acquire\<close> and its increments another thread may run.
  Each caller is idle, past both tests, or holding a slot; a refused caller stays idle.
\<close>

datatype caller = Idle | Tested | Holding

type_synonym guard_state = "cost_guard \<times> caller list"

inductive gstep :: "guard_state \<Rightarrow> guard_state \<Rightarrow> bool" where
  test: "i < length ts \<Longrightarrow> ts ! i = Idle \<Longrightarrow> \<not> exhausted g \<Longrightarrow> active g < max_concurrency g \<Longrightarrow> gstep (g, ts) (g, ts[i := Tested])"
| refuse: "i < length ts \<Longrightarrow> ts ! i = Idle \<Longrightarrow> exhausted g \<or> max_concurrency g \<le> active g \<Longrightarrow> gstep (g, ts) (snd (acquire g), ts)"
| take: "i < length ts \<Longrightarrow> ts ! i = Tested \<Longrightarrow>
    gstep (g, ts) (g\<lparr>calls_used := calls_used g + 1, active := active g + 1\<rparr>, ts[i := Holding])"
| leave: "i < length ts \<Longrightarrow> ts ! i = Holding \<Longrightarrow> gstep (g, ts) (release g, ts[i := Idle])"

inductive greach :: "guard_state \<Rightarrow> guard_state \<Rightarrow> bool" where
  start: "greach s s"
| step: "greach s t \<Longrightarrow> gstep t u \<Longrightarrow> greach s u"

inductive_cases gstepE: "gstep (g, ts) s"

definition in_phase :: "caller \<Rightarrow> caller list \<Rightarrow> int" where
  "in_phase c ts = int (length (filter (\<lambda>x. x = c) ts))"

lemma in_phase_Cons [simp]: "in_phase c (t # ts) = (if t = c then 1 else 0) + in_phase c ts"
  and in_phase_Nil [simp]: "in_phase c [] = 0"
  by (simp_all add: in_phase_def)

lemma in_phase_update:
  "i < length ts \<Longrightarrow> in_phase c (ts[i := d]) = in_phase c ts - (if ts ! i = c then 1 else 0) + (if d = c then 1 else 0)"
proof (induction ts arbitrary: i)
  case (Cons t ts)
  show ?case
  proof (cases i)
    case (Suc k)
    then show ?thesis using Cons.prems Cons.IH[of k] by simp
  qed simp
qed simp

lemma in_phase_le: "in_phase c ts \<le> int (length ts)" and in_phase_nonneg: "0 \<le> in_phase c ts"
  by (simp_all add: in_phase_def)

lemma in_phase_other: "i < length ts \<Longrightarrow> ts ! i \<noteq> c \<Longrightarrow> in_phase c ts \<le> int (length ts) - 1"
proof (induction ts arbitrary: i)
  case (Cons t ts)
  then show ?case
  proof (cases i)
    case 0
    then show ?thesis using Cons.prems in_phase_le[of c ts] by simp
  next
    case (Suc k)
    then show ?thesis using Cons.prems Cons.IH[of k] by auto
  qed
qed simp

text \<open>Every holder is counted, and the tested ones are the only excess over the limits.\<close>

definition guard_inv :: "int \<Rightarrow> int \<Rightarrow> guard_state \<Rightarrow> bool" where
  "guard_inv mc mx s \<longleftrightarrow> (case s of (g, ts) \<Rightarrow>
     max_calls g = mc \<and> max_concurrency g = mx \<and> active g = in_phase Holding ts \<and> 0 \<le> calls_used g
     \<and> calls_used g + in_phase Tested ts \<le> max mc 0 + max 0 (int (length ts) - 1)
     \<and> active g + in_phase Tested ts \<le> max mx 0 + max 0 (int (length ts) - 1))"

lemma guard_inv_step: 
  assumes inv: "guard_inv mc mx s" and st: "gstep s u"
  shows "guard_inv mc mx u"
  using st
proof (cases rule: gstep.cases)
  case (test i ts g)
  then show ?thesis
    using inv in_phase_other[of i ts Tested] by (auto simp: guard_inv_def in_phase_update exhausted_def)
next
  case (refuse i ts g)
  then show ?thesis using inv by (auto simp: guard_inv_def acquire_def exhausted_def)
next
  case (take i ts g)
  then show ?thesis using inv by (auto simp: guard_inv_def in_phase_update)
next
  case (leave i ts g)
  have "0 < in_phase Holding ts"
    using leave(3,4) unfolding in_phase_def by (auto simp: filter_empty_conv in_set_conv_nth)
  then show ?thesis using inv leave by (auto simp: guard_inv_def in_phase_update release_def)
qed

lemma greach_inv: "greach s u \<Longrightarrow> guard_inv mc mx s \<Longrightarrow> guard_inv mc mx u"
  by (induction rule: greach.induct) (auto dest: guard_inv_step)

text \<open>
  How far threads can push the cost guard. With \<open>n\<close> callers over a fresh guard, every interleaving of their tests,
  increments and releases keeps the number of judge calls at most \<open>n - 1\<close> above the limit and the slots in use at
  most \<open>n - 1\<close> above the concurrency limit, and the active count is always the number of holders. With one caller
  both limits are exact. The excess is real: two callers exceed a limit of one.
\<close>

theorem guard_overshoot:
  assumes "greach (new_guard mc mx, replicate n Idle) (g, ts)" and "0 \<le> mc" "0 \<le> mx" "0 < n"
  shows "calls_used g \<le> mc + (int n - 1) \<and> active g \<le> mx + (int n - 1) \<and> active g = in_phase Holding ts"
proof -
  have len: "length t = n" if "greach s0 s1" "snd s0 = replicate n Idle" "snd s1 = t" for s0 s1 and t
    using that
  proof (induction arbitrary: t rule: greach.induct)
    case (step s u w)
    obtain g' ts' where u: "u = (g', ts')" by (cases u)
    have "length ts' = n" using step.IH[of ts'] step.prems(1) u by simp
    then show ?case using step.hyps(2) step.prems(2) unfolding u by (cases rule: gstepE) auto
  qed simp
  have "guard_inv mc mx (new_guard mc mx, replicate n Idle)"
    using assms(2,3) by (simp add: guard_inv_def new_guard_def in_phase_def)
  then have inv: "guard_inv mc mx (g, ts)" using greach_inv[OF assms(1)] by blast
  have "length ts = n" using len[OF assms(1)] by simp
  then show ?thesis using inv in_phase_nonneg[of Tested ts] assms(2-4) by (auto simp: guard_inv_def)
qed

text \<open>Two callers, a limit of one call and one slot: both test before either takes.\<close>

lemma two_callers_exceed:
  "greach (new_guard 1 1, replicate 2 Idle) ((new_guard 1 1)\<lparr>calls_used := 2, active := 2\<rparr>, [Holding, Holding])"
proof -
  let ?g = "new_guard 1 1"
  have 1: "greach (?g, [Idle, Idle]) (?g, [Tested, Idle])"
    using greach.step[OF greach.start gstep.test[of 0 "[Idle, Idle]" ?g]] by (simp add: new_guard_def exhausted_def)
  have 2: "greach (?g, [Idle, Idle]) (?g, [Tested, Tested])"
    using greach.step[OF 1 gstep.test[of 1 "[Tested, Idle]" ?g]] by (simp add: new_guard_def exhausted_def)
  have 3: "greach (?g, [Idle, Idle]) (?g\<lparr>calls_used := 1, active := 1\<rparr>, [Holding, Tested])"
    using greach.step[OF 2 gstep.take[of 0 "[Tested, Tested]" ?g]] by (simp add: new_guard_def)
  have 4: "greach (?g, [Idle, Idle]) (?g\<lparr>calls_used := 2, active := 2\<rparr>, [Holding, Holding])"
    using greach.step[OF 3 gstep.take[of 1 "[Holding, Tested]" "?g\<lparr>calls_used := 1, active := 1\<rparr>"]] by (simp add: new_guard_def)
  then show ?thesis by (simp add: numeral_2_eq_2)
qed

theorem guard_overshoot_witness:
  "\<exists>g ts. greach (new_guard 1 1, replicate 2 Idle) (g, ts) \<and> calls_used g = 2 \<and> calls_used g \<le> 1 + (int 2 - 1)"
  using guard_overshoot[OF two_callers_exceed] two_callers_exceed by fastforce

end
