(* ===== verification/History.thy ===== *)
theory History
  imports Prelude "HOL-Library.Multiset"
begin

text \<open>
  \<^verbatim>\<open>app/loop/state.py\<close>: the append-only journal \<open>HISTORY.jsonl\<close> of the tuning loop, with its
  source mutex, its rotation into \<open>HISTORY-<ts>.jsonl.gz\<close> archives and its replay; first one call at
  a time, then as processes whose system calls interleave.

  A file is the list of its lines, a line the record it parses to: the two fields the mutex reads and the rest,
  whose type is a parameter. \<open>json.dumps\<close> only matters through
  the number of bytes of a line, an argument \<open>line_bytes\<close>. Wall-clock seconds are an argument.
\<close>

section \<open>Records, sources and files\<close>

record 'b hist_rec =
  rec_candidate :: "string option"
  rec_source :: "string option"
  rec_body :: 'b

definition COMPATIBLE_SOURCES :: "string set list" where
  "COMPATIBLE_SOURCES =
     [{''freqtrade_hyperopt'', ''freqtrade_hyperopt''}, {''okx_live'', ''okx_live''},
      {''okx_paper'', ''okx_paper''}, {''okx_live'', ''okx_paper''}]"

definition is_conflicting_source :: "string option \<Rightarrow> string \<Rightarrow> bool" where
  "is_conflicting_source existing new =
     (case existing of
        None \<Rightarrow> False
      | Some e \<Rightarrow> if e = new then False else {e, new} \<notin> set COMPATIBLE_SOURCES)"

lemma conflict_sym: "is_conflicting_source (Some a) b = is_conflicting_source (Some b) a"
  by (auto simp: is_conflicting_source_def insert_commute)

lemma no_self_conflict [simp]: "\<not> is_conflicting_source (Some a) a"
  by (simp add: is_conflicting_source_def)

text \<open>\<open>live\<close> is \<open>HISTORY.jsonl\<close> (\<open>None\<close>: no such file), \<open>archives\<close> the gz files by timestamp.\<close>

record 'b hist =
  live :: "'b hist_rec list option"
  archives :: "(int \<times> 'b hist_rec list) list"

definition empty_hist :: "'b hist" where
  "empty_hist = \<lparr>live = None, archives = []\<rparr>"

definition live_lines :: "'b hist \<Rightarrow> 'b hist_rec list" where
  "live_lines h = (case live h of None \<Rightarrow> [] | Some ls \<Rightarrow> ls)"

datatype mutex_error = SourceMutexError string "string option" string

section \<open>One append\<close>

text \<open>The scan of the live file: the first line of the same candidate with a conflicting source.\<close>

fun first_conflict :: "string \<Rightarrow> string \<Rightarrow> 'b hist_rec list \<Rightarrow> 'b hist_rec option" where
  "first_conflict cid src [] = None"
| "first_conflict cid src (l # ls) =
     (if rec_candidate l \<noteq> Some cid then first_conflict cid src ls
      else if is_conflicting_source (rec_source l) src then Some l
      else first_conflict cid src ls)"

definition mutex_check :: "'b hist_rec \<Rightarrow> 'b hist \<Rightarrow> mutex_error option" where
  "mutex_check r h =
     (case (rec_candidate r, rec_source r, live h) of
        (Some cid, Some src, Some ls) \<Rightarrow>
          map_option (\<lambda>l. SourceMutexError cid (rec_source l) src) (first_conflict cid src ls)
      | _ \<Rightarrow> None)"

definition write_line :: "'b hist_rec \<Rightarrow> 'b hist \<Rightarrow> 'b hist" where
  "write_line r h = h\<lparr>live := Some (live_lines h @ [r])\<rparr>"

definition file_bytes :: "('b hist_rec \<Rightarrow> nat) \<Rightarrow> 'b hist_rec list \<Rightarrow> nat" where
  "file_bytes line_bytes ls = sum_list (map line_bytes ls)"

text \<open>The copy opens the archive for writing, so an archive of the same second is replaced.\<close>

definition copy_archive :: "int \<Rightarrow> 'b hist \<Rightarrow> 'b hist" where
  "copy_archive now h = h\<lparr>archives := AList.update now (live_lines h) (archives h)\<rparr>"

definition unlink_live :: "'b hist \<Rightarrow> 'b hist" where
  "unlink_live h = h\<lparr>live := None\<rparr>"

definition append_history ::
  "('b hist_rec \<Rightarrow> nat) \<Rightarrow> nat \<Rightarrow> int \<Rightarrow> 'b hist_rec \<Rightarrow> 'b hist \<Rightarrow> mutex_error + 'b hist" where
  "append_history line_bytes rotate_bytes now r h =
     (case mutex_check r h of
        Some e \<Rightarrow> Inl e
      | None \<Rightarrow>
          let h1 = write_line r h; new_size = file_bytes line_bytes (live_lines h1)
          in if new_size \<noteq> 0 \<and> new_size \<ge> rotate_bytes
             then Inr (unlink_live (copy_archive now h1)) else Inr h1)"

text \<open>
  \<open>replay_from_history\<close>: archives in the order of their names, then the live file (the dash of an
  archive name sorts before the dot of \<open>HISTORY.jsonl\<close>; timestamps have the same number of digits).
\<close>

definition replay_from_history :: "'b hist \<Rightarrow> 'b hist_rec list" where
  "replay_from_history h = concat (map snd (sort_key fst (archives h))) @ live_lines h"

text \<open>A caller that appends records in turn, keeping those that were not refused.\<close>

fun append_all :: "('b hist_rec \<Rightarrow> nat) \<Rightarrow> nat \<Rightarrow> (int \<times> 'b hist_rec) list \<Rightarrow> 'b hist \<Rightarrow> 'b hist \<times> 'b hist_rec list" where
  "append_all lb rb [] h = (h, [])"
| "append_all lb rb ((now, r) # rs) h =
     (case append_history lb rb now r h of
        Inl e \<Rightarrow> append_all lb rb rs h
      | Inr h' \<Rightarrow> (let (h'', acc) = append_all lb rb rs h' in (h'', r # acc)))"

section \<open>Lemmas\<close>

text \<open>Two records that must not share a file: same candidate, conflicting sources.\<close>

definition clash :: "'b hist_rec \<Rightarrow> 'b hist_rec \<Rightarrow> bool" where
  "clash a b \<longleftrightarrow> rec_candidate a \<noteq> None \<and> rec_candidate a = rec_candidate b \<and>
     (\<exists>s t. rec_source a = Some s \<and> rec_source b = Some t \<and> is_conflicting_source (Some s) t)"

lemma clash_sym: "clash a b \<longleftrightarrow> clash b a"
  by (auto simp: clash_def conflict_sym)

lemma first_conflict_None:
  "first_conflict cid src ls = None \<longleftrightarrow>
     (\<forall>l \<in> set ls. rec_candidate l = Some cid \<longrightarrow> \<not> is_conflicting_source (rec_source l) src)"
  by (induction ls) auto

lemma mutex_check_None: "mutex_check r h = None \<Longrightarrow> l \<in> set (live_lines h) \<Longrightarrow> \<not> clash l r"
  by (auto simp: mutex_check_def live_lines_def first_conflict_None clash_def split: option.splits)

lemma no_clash_self: "\<not> clash a a"
  by (auto simp: clash_def)

definition no_clash :: "'b hist_rec list \<Rightarrow> bool" where
  "no_clash ls \<longleftrightarrow> (\<forall>a \<in> set ls. \<forall>b \<in> set ls. \<not> clash a b)"

lemma live_lines_simps [simp]:
  "live_lines (write_line r h) = live_lines h @ [r]" "live_lines (unlink_live h) = []"
  "live_lines (copy_archive t h) = live_lines h" "archives (write_line r h) = archives h"
  "archives (unlink_live h) = archives h" "live_lines empty_hist = []" "archives empty_hist = []"
  "live (unlink_live h) = None" "live (write_line r h) = Some (live_lines h @ [r])"
  by (simp_all add: live_lines_def write_line_def unlink_live_def copy_archive_def empty_hist_def)

lemma no_clash_snoc: "no_clash ls \<Longrightarrow> (\<And>l. l \<in> set ls \<Longrightarrow> \<not> clash l r) \<Longrightarrow> no_clash (ls @ [r])"
  using clash_sym[of r] by (auto simp: no_clash_def no_clash_self)

text \<open>Every file, live or archived, is free of clashes.\<close>

definition files_clean :: "'b hist \<Rightarrow> bool" where
  "files_clean h \<longleftrightarrow> no_clash (live_lines h) \<and> (\<forall>(t, ls) \<in> set (archives h). no_clash ls)"

lemma append_history_cases:
  assumes "append_history lb rb now r h = Inr h'"
  obtains (plain) "mutex_check r h = None" "h' = write_line r h"
  | (rotated) "mutex_check r h = None" "h' = unlink_live (copy_archive now (write_line r h))"
  using assms by (auto simp: append_history_def Let_def split: option.splits if_splits)

lemma files_clean_append:
  assumes "files_clean h" "append_history lb rb now r h = Inr h'"
  shows "files_clean h'"
proof -
  have nc: "no_clash (live_lines h @ [r])"
    using assms mutex_check_None [of r h]
    by (intro no_clash_snoc) (auto simp: files_clean_def append_history_def split: option.splits)
  from assms(2) show ?thesis
  proof (cases rule: append_history_cases)
    case plain
    then show ?thesis using assms(1) nc by (simp add: files_clean_def)
  next
    case rotated
    then show ?thesis using assms(1) nc
      by (auto simp: files_clean_def copy_archive_def no_clash_def dest!: in_set_updateD)
  qed
qed

text \<open>Archives in chronological order replay as they are.\<close>

lemma replay_chrono:
  "sorted_wrt (<) (map fst (archives h)) \<Longrightarrow> replay_from_history h = concat (map snd (archives h)) @ live_lines h"
  unfolding replay_from_history_def by (simp add: strict_sorted_iff sort_key_id_if_sorted)

text \<open>After an append the live file is gone exactly when the append rotated it.\<close>

lemma append_history_replay:
  assumes "append_history lb rb now r h = Inr h'" "sorted_wrt (<) (map fst (archives h))"
    and "live h' = None \<longrightarrow> (\<forall>k \<in> fst ` set (archives h). k < now)"
  shows "replay_from_history h' = replay_from_history h @ [r] \<and> sorted_wrt (<) (map fst (archives h'))
    \<and> fst ` set (archives h') = fst ` set (archives h) \<union> (if live h' = None then {now} else {})"
  using assms(1)
proof (cases rule: append_history_cases)
  case plain
  then show ?thesis using assms(2) by (simp add: replay_chrono)
next
  case rotated
  note h' = rotated(2)
  then have gone: "live h' = None" by simp
  then have before: "\<forall>k \<in> fst ` set (archives h). k < now" using assms(3) by blast
  then have fresh: "now \<notin> fst ` set (archives h)" by blast
  have arch: "archives h' = archives h @ [(now, live_lines h @ [r])]" "live_lines h' = []"
    using fresh by (simp_all add: h' copy_archive_def update_fresh)
  then have "sorted_wrt (<) (map fst (archives h'))"
    using assms(2) before by (simp add: sorted_wrt_append)
  then show ?thesis using assms(2) arch gone by (simp add: replay_chrono)
qed

text \<open>The seconds of the rotations of a run.\<close>

fun rotations :: "('b hist_rec \<Rightarrow> nat) \<Rightarrow> nat \<Rightarrow> (int \<times> 'b hist_rec) list \<Rightarrow> 'b hist \<Rightarrow> int list" where
  "rotations lb rb [] h = []"
| "rotations lb rb ((now, r) # rs) h =
     (case append_history lb rb now r h of
        Inl e \<Rightarrow> rotations lb rb rs h
      | Inr h' \<Rightarrow> (if live h' = None then [now] else []) @ rotations lb rb rs h')"

lemma rotations_times: "set (rotations lb rb rs h) \<subseteq> fst ` set rs"
proof (induction rs arbitrary: h)
  case (Cons x rs)
  show ?case
    using Cons.IH by (cases x; cases "append_history lb rb (fst x) (snd x) h") (fastforce split: if_splits)+
qed simp

lemma append_all_replay:
  "sorted (map fst rs) \<Longrightarrow> distinct (rotations lb rb rs h) \<Longrightarrow> sorted_wrt (<) (map fst (archives h)) \<Longrightarrow>
   (\<And>k t. k \<in> fst ` set (archives h) \<Longrightarrow> t \<in> fst ` set rs \<Longrightarrow> k \<le> t) \<Longrightarrow>
   set (rotations lb rb rs h) \<inter> fst ` set (archives h) = {} \<Longrightarrow>
   append_all lb rb rs h = (h', acc) \<Longrightarrow> replay_from_history h' = replay_from_history h @ acc"
proof (induction rs arbitrary: h h' acc)
  case (Cons x rs)
  obtain now r where x: "x = (now, r)" by (cases x)
  show ?case
  proof (cases "append_history lb rb now r h")
    case (Inl e)
    then show ?thesis using Cons.prems by (intro Cons.IH [of h h' acc]) (auto simp: x)
  next
    case (Inr h1)
    obtain h2 acc2 where rest: "append_all lb rb rs h1 = (h2, acc2)" by fastforce
    have out: "h' = h2" "acc = r # acc2" using Cons.prems(6) rest x Inr by auto
    have rot: "rotations lb rb (x # rs) h = (if live h1 = None then [now] else []) @ rotations lb rb rs h1"
      by (simp add: x Inr)
    have old: "live h1 = None \<longrightarrow> (\<forall>k \<in> fst ` set (archives h). k < now)"
    proof (intro impI ballI)
      fix k assume "live h1 = None" and k: "k \<in> fst ` set (archives h)"
      then have "now \<notin> fst ` set (archives h)" using Cons.prems(5) rot by auto
      then show "k < now" using Cons.prems(4) [OF k, of now] k by (auto simp: x order_less_le)
    qed
    from append_history_replay [OF Inr Cons.prems(3) old]
    have 1: "replay_from_history h1 = replay_from_history h @ [r]" and 2: "sorted_wrt (<) (map fst (archives h1))"
      and keys: "fst ` set (archives h1) = fst ` set (archives h) \<union> (if live h1 = None then {now} else {})" by auto
    have later: "k \<le> t" if "k \<in> fst ` set (archives h1)" "t \<in> fst ` set rs" for k t
      using that Cons.prems(1) Cons.prems(4) [of k t] keys by (auto simp: x split: if_splits)
    have apart: "set (rotations lb rb rs h1) \<inter> fst ` set (archives h1) = {}" "distinct (rotations lb rb rs h1)"
      using Cons.prems(2,5) unfolding rot keys by (auto split: if_splits)
    have "replay_from_history h2 = replay_from_history h1 @ acc2"
      using Cons.prems(1) by (intro Cons.IH [OF _ apart(2) 2 later apart(1) rest]) (auto simp: x)
    then show ?thesis using 1 out by simp
  qed
qed simp

text \<open>A rotation in a second that already has an archive replaces it, and its lines are lost.\<close>

definition line_count :: "'b hist \<Rightarrow> nat" where
  "line_count h = sum_list (map (length \<circ> snd) (archives h)) + length (live_lines h)"

lemma length_replay: "length (replay_from_history h) = line_count h"
proof -
  have "mset (map (length \<circ> snd) (sort_key fst (archives h))) = mset (map (length \<circ> snd) (archives h))" by simp
  then have "sum_list (map (length \<circ> snd) (sort_key fst (archives h))) = sum_list (map (length \<circ> snd) (archives h))"
    by (metis sum_mset_sum_list)
  then show ?thesis by (simp add: replay_from_history_def line_count_def length_concat comp_def)
qed

lemma update_lines:
  "distinct (map fst al) \<Longrightarrow> (\<forall>x \<in> set al. snd x \<noteq> []) \<Longrightarrow>
   sum_list (map (length \<circ> snd) (AList.update k v al)) \<le> sum_list (map (length \<circ> snd) al) + length v
   \<and> (k \<in> fst ` set al \<longrightarrow> sum_list (map (length \<circ> snd) (AList.update k v al)) < sum_list (map (length \<circ> snd) al) + length v)"
  by (induction al) auto

lemma append_history_lines:
  assumes "append_history lb rb now r h = Inr h'" "distinct (map fst (archives h))" "\<forall>x \<in> set (archives h). snd x \<noteq> []"
  shows "line_count h' \<le> Suc (line_count h) \<and> (live h' = None \<and> now \<in> fst ` set (archives h) \<longrightarrow> line_count h' < Suc (line_count h))
    \<and> distinct (map fst (archives h')) \<and> (\<forall>x \<in> set (archives h'). snd x \<noteq> [])
    \<and> fst ` set (archives h') = fst ` set (archives h) \<union> (if live h' = None then {now} else {})"
  using assms(1)
proof (cases rule: append_history_cases)
  case plain
  then show ?thesis using assms(2,3) by (simp add: line_count_def)
next
  case rotated
  have a: "archives h' = AList.update now (live_lines h @ [r]) (archives h)" "live h' = None" "live_lines h' = []"
    by (simp_all add: rotated(2) copy_archive_def)
  have "\<forall>x \<in> set (archives h'). snd x \<noteq> []" using assms(3) unfolding a by (auto dest!: in_set_updateD)
  moreover have "distinct (map fst (archives h'))" unfolding a by (rule distinct_update) (rule assms(2))
  moreover have "fst ` set (archives h') = insert now (fst ` set (archives h))" unfolding a
    by (auto simp: update_keys simp flip: set_map)
  ultimately show ?thesis using update_lines [OF assms(2,3), of now "live_lines h @ [r]"]
    by (auto simp: line_count_def a)
qed

lemma append_all_lines:
  "distinct (map fst (archives h)) \<Longrightarrow> (\<forall>x \<in> set (archives h). snd x \<noteq> []) \<Longrightarrow> append_all lb rb rs h = (h', acc) \<Longrightarrow>
   line_count h' \<le> line_count h + length acc \<and>
   (\<not> (distinct (rotations lb rb rs h) \<and> set (rotations lb rb rs h) \<inter> fst ` set (archives h) = {}) \<longrightarrow>
      line_count h' < line_count h + length acc)"
proof (induction rs arbitrary: h h' acc)
  case (Cons x rs)
  obtain now r where x: "x = (now, r)" by (cases x)
  show ?case
  proof (cases "append_history lb rb now r h")
    case (Inl e)
    then show ?thesis using Cons.IH [of h h' acc] Cons.prems x by auto
  next
    case (Inr h1)
    obtain h2 acc2 where rest: "append_all lb rb rs h1 = (h2, acc2)" by fastforce
    have out: "h' = h2" "acc = r # acc2" using Cons.prems(3) rest x Inr by auto
    have rot: "rotations lb rb (x # rs) h = (if live h1 = None then [now] else []) @ rotations lb rb rs h1"
      by (simp add: x Inr)
    from append_history_lines [OF Inr Cons.prems(1,2)]
    have 1: "line_count h1 \<le> Suc (line_count h)" "distinct (map fst (archives h1))" "\<forall>x \<in> set (archives h1). snd x \<noteq> []"
      and lost: "live h1 = None \<and> now \<in> fst ` set (archives h) \<longrightarrow> line_count h1 < Suc (line_count h)"
      and keys: "fst ` set (archives h1) = fst ` set (archives h) \<union> (if live h1 = None then {now} else {})" by auto
    show ?thesis
      using Cons.IH [OF 1(2,3) rest] 1(1) lost keys unfolding rot out by (cases "live h1 = None") auto
  qed
qed (auto simp: line_count_def)

lemma append_all_clean: "files_clean h \<Longrightarrow> append_all lb rb rs h = (h', acc) \<Longrightarrow> files_clean h'"
proof (induction rs arbitrary: h h' acc)
  case (Cons x rs)
  obtain now r where x: "x = (now, r)" by (cases x)
  show ?case
  proof (cases "append_history lb rb now r h")
    case (Inl e)
    then show ?thesis using Cons.IH [of h h' acc] Cons.prems x by auto
  next
    case (Inr h1)
    then show ?thesis using Cons.IH [of h1] files_clean_append [OF Cons.prems(1) Inr] Cons.prems(2) x
      by (auto split: prod.splits)
  qed
qed simp

section \<open>Interleaved writers\<close>

text \<open>
  Each process runs \<open>append_history\<close> once. Its system calls are the steps: the scan under the shared
  lock (which is released before the write), the write under the exclusive lock, then, when the
  file has grown past the limit, the copy into the archive and the unlink, both without a lock.
\<close>

datatype phase = Starting | Scanned | Rotating | Copied | Finished | Refused

record 'b conc =
  disk :: "'b hist"
  procs :: "('b hist_rec \<times> phase) list"

definition oversize :: "('b hist_rec \<Rightarrow> nat) \<Rightarrow> nat \<Rightarrow> 'b hist \<Rightarrow> bool" where
  "oversize lb rb h = (let n = file_bytes lb (live_lines h) in n \<noteq> 0 \<and> n \<ge> rb)"

inductive conc_step :: "('b hist_rec \<Rightarrow> nat) \<Rightarrow> nat \<Rightarrow> int \<Rightarrow> 'b conc \<Rightarrow> 'b conc \<Rightarrow> bool" for lb rb now where
  scan: "i < length (procs c) \<Longrightarrow> procs c ! i = (r, Starting) \<Longrightarrow>
     conc_step lb rb now c (c\<lparr>procs := (procs c)[i := (r, if mutex_check r (disk c) = None then Scanned else Refused)]\<rparr>)"
| writes: "i < length (procs c) \<Longrightarrow> procs c ! i = (r, Scanned) \<Longrightarrow> h = write_line r (disk c) \<Longrightarrow>
     conc_step lb rb now c (c\<lparr>disk := h, procs := (procs c)[i := (r, if oversize lb rb h then Rotating else Finished)]\<rparr>)"
| copies: "i < length (procs c) \<Longrightarrow> procs c ! i = (r, Rotating) \<Longrightarrow> live (disk c) \<noteq> None \<Longrightarrow>
     conc_step lb rb now c (c\<lparr>disk := copy_archive now (disk c), procs := (procs c)[i := (r, Copied)]\<rparr>)"
| no_file: "i < length (procs c) \<Longrightarrow> procs c ! i = (r, Rotating) \<Longrightarrow> live (disk c) = None \<Longrightarrow>
     conc_step lb rb now c (c\<lparr>procs := (procs c)[i := (r, Finished)]\<rparr>)"
| unlinks: "i < length (procs c) \<Longrightarrow> procs c ! i = (r, Copied) \<Longrightarrow>
     conc_step lb rb now c (c\<lparr>disk := unlink_live (disk c), procs := (procs c)[i := (r, Finished)]\<rparr>)"

inductive conc_reach :: "('b hist_rec \<Rightarrow> nat) \<Rightarrow> nat \<Rightarrow> int \<Rightarrow> 'b conc \<Rightarrow> 'b conc \<Rightarrow> bool" for lb rb now c0 where
  here: "conc_reach lb rb now c0 c0"
| there: "conc_reach lb rb now c0 c \<Longrightarrow> conc_step lb rb now c c' \<Longrightarrow> conc_reach lb rb now c0 c'"

definition start_procs :: "'b hist \<Rightarrow> 'b hist_rec list \<Rightarrow> 'b conc" where
  "start_procs h rs = \<lparr>disk = h, procs = map (\<lambda>r. (r, Starting)) rs\<rparr>"

text \<open>Alone, a process does exactly \<open>append_history\<close>.\<close>

lemma conc_alone:
  assumes "append_history lb rb now r h = Inr h'"
  shows "conc_reach lb rb now (start_procs h [r]) \<lparr>disk = h', procs = [(r, Finished)]\<rparr>"
proof -
  have ok: "mutex_check r h = None" using assms by (auto simp: append_history_def split: option.splits)
  let ?c1 = "\<lparr>disk = h, procs = [(r, Scanned)]\<rparr>"
  let ?w = "write_line r h"
  have 1: "conc_step lb rb now (start_procs h [r]) ?c1"
    using conc_step.scan [of 0 "start_procs h [r]" r lb rb now] ok by (simp add: start_procs_def)
  have 2: "conc_step lb rb now ?c1 \<lparr>disk = ?w, procs = [(r, if oversize lb rb ?w then Rotating else Finished)]\<rparr>"
    using conc_step.writes [of 0 ?c1 r ?w lb rb now] by simp
  note reach2 = conc_reach.there [OF conc_reach.there [OF conc_reach.here 1] 2]
  show ?thesis
  proof (cases "oversize lb rb ?w")
    case False
    then have "h' = ?w" using assms ok by (simp add: append_history_def oversize_def Let_def split: if_splits)
    then show ?thesis using reach2 False by simp
  next
    case True
    then have h': "h' = unlink_live (copy_archive now ?w)"
      using assms ok by (simp add: append_history_def oversize_def Let_def split: if_splits)
    let ?c2 = "\<lparr>disk = ?w, procs = [(r, Rotating)]\<rparr>"
    let ?c3 = "\<lparr>disk = copy_archive now ?w, procs = [(r, Copied)]\<rparr>"
    have "live ?w \<noteq> None" by (simp add: write_line_def)
    then have 3: "conc_step lb rb now ?c2 ?c3"
      using conc_step.copies [of 0 ?c2 r lb rb now] by simp
    have 4: "conc_step lb rb now ?c3 \<lparr>disk = h', procs = [(r, Finished)]\<rparr>"
      using conc_step.unlinks [of 0 ?c3 r lb rb now] h' by simp
    show ?thesis using reach2 True conc_reach.there [OF conc_reach.there [OF _ 3] 4] by simp
  qed
qed

section \<open>Properties\<close>

text \<open>
  C7: the journal under one caller at a time. Starting with no files, with a clock that never runs back
  but may show one second for any number of calls, the replay is the list of the records that were not
  refused, in order, across every rotation, exactly when no two rotations fall in one second (the
  second would replace the archive of the first and lose its lines); and no file, live or archived, ever
  holds two records of one candidate from conflicting sources.
\<close>

theorem history_journal:
  assumes "sorted (map fst rs)" "append_all line_bytes rotate_bytes rs empty_hist = (h, accepted)"
  shows "(replay_from_history h = accepted \<longleftrightarrow> distinct (rotations line_bytes rotate_bytes rs empty_hist)) \<and> files_clean h"
proof (intro conjI iffI)
  assume "distinct (rotations line_bytes rotate_bytes rs empty_hist)"
  then have "replay_from_history h = replay_from_history empty_hist @ accepted"
    using assms by (intro append_all_replay) auto
  then show "replay_from_history h = accepted" by (simp add: replay_from_history_def)
next
  assume "replay_from_history h = accepted"
  then have "line_count h = length accepted" by (metis length_replay)
  then show "distinct (rotations line_bytes rotate_bytes rs empty_hist)"
    using append_all_lines [OF _ _ assms(2)] by (fastforce simp: line_count_def)
next
  have "files_clean empty_hist" by (simp add: files_clean_def no_clash_def)
  then show "files_clean h" using assms(2) by (rule append_all_clean)
qed

definition okx_rec :: "string hist_rec" where
  "okx_rec = \<lparr>rec_candidate = Some ''c1'', rec_source = Some ''okx_live'', rec_body = ''a''\<rparr>"

definition ft_rec :: "string hist_rec" where
  "ft_rec = \<lparr>rec_candidate = Some ''c1'', rec_source = Some ''freqtrade_hyperopt'', rec_body = ''b''\<rparr>"

lemma demo_clash: "clash okx_rec ft_rec"
  by (simp add: clash_def okx_rec_def ft_rec_def is_conflicting_source_def COMPATIBLE_SOURCES_def doubleton_eq_iff)

lemmas journal_run = append_history_def mutex_check_def empty_hist_def write_line_def live_lines_def file_bytes_def
  okx_rec_def ft_rec_def is_conflicting_source_def COMPATIBLE_SOURCES_def doubleton_eq_iff unlink_live_def
  copy_archive_def Let_def

text \<open>A refusal, then two rotations in different seconds; and two rotations in one second.\<close>

lemma demo_journal:
  "append_all (\<lambda>_. 40) 80 [(1, okx_rec), (2, ft_rec), (2, okx_rec), (2, ft_rec), (3, ft_rec)] empty_hist =
     (\<lparr>live = None, archives = [(2, [okx_rec, okx_rec]), (3, [ft_rec, ft_rec])]\<rparr>, [okx_rec, okx_rec, ft_rec, ft_rec])"
  "rotations (\<lambda>_. 40) 80 [(1, okx_rec), (2, ft_rec), (2, okx_rec), (2, ft_rec), (3, ft_rec)] empty_hist = [2, 3]"
  by (simp_all add: journal_run)

lemma demo_overwritten:
  "append_all (\<lambda>_. 40) 40 [(1, okx_rec), (1, ft_rec)] empty_hist =
     (\<lparr>live = None, archives = [(1, [ft_rec])]\<rparr>, [okx_rec, ft_rec])"
  "rotations (\<lambda>_. 40) 40 [(1, okx_rec), (1, ft_rec)] empty_hist = [1, 1]"
  by (simp_all add: journal_run)

theorem history_journal_witness:
  "replay_from_history \<lparr>live = None, archives = [(2, [okx_rec, okx_rec]), (3, [ft_rec, ft_rec])]\<rparr> =
     [okx_rec, okx_rec, ft_rec, ft_rec] \<and>
   replay_from_history \<lparr>live = None, archives = [(1, [ft_rec])]\<rparr> \<noteq> [okx_rec, ft_rec]"
  using history_journal [OF _ demo_journal(1)] history_journal [OF _ demo_overwritten(1)]
  unfolding demo_journal(2) demo_overwritten(2) by simp

text \<open>
  Where the source mutex stops. It looks only at the live file, so once a rotation has archived
  the first record a conflicting source is accepted for the same candidate; and the scan releases its lock
  before the write takes one, so two processes that both scan first both write, and the live file
  itself holds a conflict.
\<close>

theorem source_mutex_gaps:
  "(\<exists>h. append_all (\<lambda>_. 40) 40 [(1, okx_rec), (2, ft_rec)] empty_hist = (h, [okx_rec, ft_rec]) \<and>
      clash okx_rec ft_rec) \<and>
   (\<exists>c. conc_reach (\<lambda>_. 40) 100 1 (start_procs empty_hist [okx_rec, ft_rec]) c \<and>
      map snd (procs c) = [Finished, Finished] \<and> live_lines (disk c) = [okx_rec, ft_rec])"
proof
  show "\<exists>h. append_all (\<lambda>_. 40) 40 [(1, okx_rec), (2, ft_rec)] empty_hist = (h, [okx_rec, ft_rec]) \<and>
      clash okx_rec ft_rec"
    by (auto simp: append_history_def mutex_check_def empty_hist_def write_line_def live_lines_def file_bytes_def
        unlink_live_def copy_archive_def demo_clash split: option.splits)
next
  let ?lb = "\<lambda>_ :: string hist_rec. 40 :: nat"
  let ?c = "\<lambda>ls a b. \<lparr>disk = \<lparr>live = ls, archives = []\<rparr>, procs = [(okx_rec, a), (ft_rec, b)]\<rparr>"
  have free: "mutex_check r empty_hist = None" for r
    by (auto simp: mutex_check_def empty_hist_def split: option.splits)
  have 0: "start_procs empty_hist [okx_rec, ft_rec] = ?c None Starting Starting"
    by (simp add: start_procs_def empty_hist_def)
  have 1: "conc_step ?lb 100 1 (?c None Starting Starting) (?c None Scanned Starting)"
    using conc_step.scan [of 0 "?c None Starting Starting" okx_rec ?lb 100 1] free [of okx_rec]
    by (simp add: empty_hist_def)
  have 2: "conc_step ?lb 100 1 (?c None Scanned Starting) (?c None Scanned Scanned)"
    using conc_step.scan [of 1 "?c None Scanned Starting" ft_rec ?lb 100 1] free [of ft_rec]
    by (simp add: empty_hist_def)
  have 3: "conc_step ?lb 100 1 (?c None Scanned Scanned) (?c (Some [okx_rec]) Finished Scanned)"
    using conc_step.writes [of 0 "?c None Scanned Scanned" okx_rec "\<lparr>live = Some [okx_rec], archives = []\<rparr>" ?lb 100 1]
    by (simp add: write_line_def live_lines_def oversize_def file_bytes_def)
  have 4: "conc_step ?lb 100 1 (?c (Some [okx_rec]) Finished Scanned) (?c (Some [okx_rec, ft_rec]) Finished Finished)"
    using conc_step.writes [of 1 "?c (Some [okx_rec]) Finished Scanned" ft_rec
        "\<lparr>live = Some [okx_rec, ft_rec], archives = []\<rparr>" ?lb 100 1]
    by (simp add: write_line_def live_lines_def oversize_def file_bytes_def)
  have "conc_reach ?lb 100 1 (start_procs empty_hist [okx_rec, ft_rec]) (?c (Some [okx_rec, ft_rec]) Finished Finished)"
    unfolding 0 by (rule conc_reach.there [OF conc_reach.there [OF conc_reach.there [OF conc_reach.there
      [OF conc_reach.here 1] 2] 3] 4])
  then show "\<exists>c. conc_reach ?lb 100 1 (start_procs empty_hist [okx_rec, ft_rec]) c \<and>
      map snd (procs c) = [Finished, Finished] \<and> live_lines (disk c) = [okx_rec, ft_rec]"
    by (intro exI [of _ "?c (Some [okx_rec, ft_rec]) Finished Finished"]) (simp add: live_lines_def)
qed

text \<open>
  The rotation can lose an accepted record. The copy into the archive and the unlink are not
  under the lock, so a line another process appends between them is in neither file afterwards,
  although that process finished without an error.
\<close>

definition other_rec :: "string hist_rec" where
  "other_rec = \<lparr>rec_candidate = Some ''c2'', rec_source = Some ''okx_live'', rec_body = ''c''\<rparr>"

theorem rotation_race_loses_record:
  "\<exists>c. conc_reach (\<lambda>_. 40) 40 7 (start_procs empty_hist [okx_rec, other_rec]) c \<and>
     map snd (procs c) = [Finished, Finished] \<and> replay_from_history (disk c) = [okx_rec]"
proof -
  let ?lb = "\<lambda>_ :: string hist_rec. 40 :: nat"
  let ?c = "\<lambda>ls ar a b. \<lparr>disk = \<lparr>live = ls, archives = ar\<rparr>, procs = [(okx_rec, a), (other_rec, b)]\<rparr>"
  let ?l = "Some [okx_rec]" and ?a = "[(7, [okx_rec])] :: (int \<times> string hist_rec list) list"
  have free: "mutex_check r empty_hist = None" for r
    by (auto simp: mutex_check_def empty_hist_def split: option.splits)
  have 0: "start_procs empty_hist [okx_rec, other_rec] = ?c None [] Starting Starting"
    by (simp add: start_procs_def empty_hist_def)
  have 1: "conc_step ?lb 40 7 (?c None [] Starting Starting) (?c None [] Scanned Starting)"
    using conc_step.scan [of 0 "?c None [] Starting Starting" okx_rec ?lb 40 7] free [of okx_rec]
    by (simp add: empty_hist_def)
  have 2: "conc_step ?lb 40 7 (?c None [] Scanned Starting) (?c None [] Scanned Scanned)"
    using conc_step.scan [of 1 "?c None [] Scanned Starting" other_rec ?lb 40 7] free [of other_rec]
    by (simp add: empty_hist_def)
  have 3: "conc_step ?lb 40 7 (?c None [] Scanned Scanned) (?c ?l [] Rotating Scanned)"
    using conc_step.writes [of 0 "?c None [] Scanned Scanned" okx_rec "\<lparr>live = ?l, archives = []\<rparr>" ?lb 40 7]
    by (simp add: write_line_def live_lines_def oversize_def file_bytes_def)
  have 4: "conc_step ?lb 40 7 (?c ?l [] Rotating Scanned) (?c ?l ?a Copied Scanned)"
    using conc_step.copies [of 0 "?c ?l [] Rotating Scanned" okx_rec ?lb 40 7]
    by (simp add: copy_archive_def live_lines_def)
  have 5: "conc_step ?lb 40 7 (?c ?l ?a Copied Scanned) (?c (Some [okx_rec, other_rec]) ?a Copied Rotating)"
    using conc_step.writes [of 1 "?c ?l ?a Copied Scanned" other_rec
        "\<lparr>live = Some [okx_rec, other_rec], archives = ?a\<rparr>" ?lb 40 7]
    by (simp add: write_line_def live_lines_def oversize_def file_bytes_def)
  have 6: "conc_step ?lb 40 7 (?c (Some [okx_rec, other_rec]) ?a Copied Rotating) (?c None ?a Finished Rotating)"
    using conc_step.unlinks [of 0 "?c (Some [okx_rec, other_rec]) ?a Copied Rotating" okx_rec ?lb 40 7]
    by (simp add: unlink_live_def)
  have 7: "conc_step ?lb 40 7 (?c None ?a Finished Rotating) (?c None ?a Finished Finished)"
    using conc_step.no_file [of 1 "?c None ?a Finished Rotating" other_rec ?lb 40 7] by simp
  have "conc_reach ?lb 40 7 (start_procs empty_hist [okx_rec, other_rec]) (?c None ?a Finished Finished)"
    unfolding 0 by (rule conc_reach.there [OF conc_reach.there [OF conc_reach.there [OF conc_reach.there
      [OF conc_reach.there [OF conc_reach.there [OF conc_reach.there [OF conc_reach.here 1] 2] 3] 4] 5] 6] 7])
  then show ?thesis
    by (intro exI [of _ "?c None ?a Finished Finished"]) (simp add: replay_from_history_def live_lines_def)
qed

end
