(* ===== verification/MakerChecker.thy ===== *)
theory MakerChecker
  imports PyFloat "HOL-Library.List_Lexorder" "HOL-Library.Char_ord"
begin

text \<open>
  The Maker-Checker path of the tuning loop: the heuristic checker (\<^verbatim>\<open>app/loop/checker.py\<close>), the
  contract types (\<^verbatim>\<open>maker_checker/schemas.py\<close>), the isolation of the Checker from the Maker's
  metadata (\<^verbatim>\<open>isolation.py\<close>), the LLM Checker (\<^verbatim>\<open>checker_agent.py\<close>), the Arbiter's decision tree
  (\<^verbatim>\<open>arbiter.py\<close>) and the runner and adapter that compose them.

  Dynamically typed payloads are \<open>pyval\<close>s. The language model behind the Checker, the hash, the
  exponential and the text-to-float conversion are arguments. Human-readable reasons are not
  modelled; flags and triggers are.
\<close>

section \<open>Payloads\<close>

datatype pyval = PNone | PBool bool | PNum rat | PStr string | PList "pyval list" | PDict "(string \<times> pyval) list"

type_synonym payload = "(string \<times> pyval) list"

text \<open>\<open>isinstance(v, int | float)\<close> with \<open>float(v)\<close>: a \<open>bool\<close> is an \<open>int\<close>.\<close>

fun num_of :: "pyval \<Rightarrow> rat option" where
  "num_of (PNum x) = Some x"
| "num_of (PBool b) = Some (if b then 1 else 0)"
| "num_of v = None"

definition get_val :: "payload \<Rightarrow> string \<Rightarrow> pyval" where
  "get_val d k = get_default d k PNone"

section \<open>Schemas\<close>

datatype severity = High | Medium | Low

datatype mc_error =
    SelfScoreRange | EmptyClusters | EmptyDiff | DiffTooLarge string | IntentTooLong | ReasoningTooLong
  | ScoreRange string | ComponentRange string | FeedbackTooLong
  | UnknownDecision string | FinalScoreRange | CheckerConfidenceRange
  | NegativeSamples | NegativeEce | RawRange
  | UnknownLevel string | StrictNeedsId | PromptFormat | UnknownM4 string | ConfigRange string

record self_score =
  ms_score :: rat
  ms_expected_impact :: "(string \<times> string) list"

definition mk_self_score :: "rat \<Rightarrow> (string \<times> string) list \<Rightarrow> mc_error + self_score" where
  "mk_self_score score impact =
     check (0 \<le> score \<and> score \<le> 1) SelfScoreRange (Inr \<lparr>ms_score = score, ms_expected_impact = impact\<rparr>)"

record proposal =
  pr_clusters :: "string list"
  pr_diff :: "(string \<times> rat) list"
  pr_intent :: string
  pr_reasoning :: string
  pr_self_score :: self_score
  pr_id :: string

definition MAX_DIFF_PCT :: rat where "MAX_DIFF_PCT = 50"
definition MAX_REASONING_LEN :: nat where "MAX_REASONING_LEN = 200"
definition MAX_INTENT_LEN :: nat where "MAX_INTENT_LEN = 64"
definition MAX_FEEDBACK_LEN :: nat where "MAX_FEEDBACK_LEN = 200"

definition proposal_post_init :: "proposal \<Rightarrow> mc_error + proposal" where
  "proposal_post_init p =
     check (pr_clusters p \<noteq> []) EmptyClusters
     (check (pr_diff p \<noteq> []) EmptyDiff
     (case find (\<lambda>(f, m). MAX_DIFF_PCT < \<bar>m\<bar>) (pr_diff p) of
        Some (f, m) \<Rightarrow> Inl (DiffTooLarge f)
      | None \<Rightarrow>
          check (length (pr_intent p) \<le> MAX_INTENT_LEN) IntentTooLong
          (check (length (pr_reasoning p) \<le> MAX_REASONING_LEN) ReasoningTooLong
          (Inr p))))"

definition make_proposal ::
    "string list \<Rightarrow> (string \<times> rat) list \<Rightarrow> string \<Rightarrow> string \<Rightarrow> rat \<Rightarrow> string \<Rightarrow> mc_error + proposal" where
  "make_proposal clusters d intent reasoning score pid =
     ebind (mk_self_score score []) (\<lambda>ss.
       proposal_post_init \<lparr>pr_clusters = clusters, pr_diff = d, pr_intent = intent, pr_reasoning = reasoning,
                           pr_self_score = ss, pr_id = pid\<rparr>)"

text \<open>A flag of the LLM Checker keeps its severity and issue; other keys of the dict ride along.\<close>

record llm_flag =
  lf_severity :: severity
  lf_fields :: payload

record llm_verdict =
  lv_id :: string
  lv_score :: rat
  lv_confidence :: rat
  lv_components :: "(string \<times> rat) list"
  lv_flags :: "llm_flag list"
  lv_accept :: bool
  lv_feedback :: string
  lv_raw :: rat

definition in_unit :: "rat \<Rightarrow> bool" where
  "in_unit x = (0 \<le> x \<and> x \<le> 1)"

definition verdict_post_init :: "llm_verdict \<Rightarrow> mc_error + llm_verdict" where
  "verdict_post_init v =
     check (in_unit (lv_score v)) (ScoreRange ''checker_score'')
     (check (in_unit (lv_confidence v)) (ScoreRange ''confidence'')
     (check (in_unit (lv_raw v)) (ScoreRange ''raw_score'')
     (case find (\<lambda>(c, x). \<not> in_unit x) (lv_components v) of
        Some (c, x) \<Rightarrow> Inl (ComponentRange c)
      | None \<Rightarrow> check (length (lv_feedback v) \<le> MAX_FEEDBACK_LEN) FeedbackTooLong (Inr v))))"

datatype final_decision = Accepted | Rejected | SuspiciousToHuman

datatype trigger = TrM4 string | TrHardConstraint | TrLlmAccept | TrGap | TrLlmRejectOverrides | TrM4Suspicious | TrLlmReject

record merge_result =
  mr_decision :: final_decision
  mr_score :: rat
  mr_m4 :: string
  mr_triggers :: "trigger list"
  mr_confidence :: "rat option"
  mr_flags :: "llm_flag list"
  mr_agreement :: "bool option"

definition merge_post_init :: "merge_result \<Rightarrow> mc_error + merge_result" where
  "merge_post_init m =
     check (- 10 \<le> mr_score m \<and> mr_score m \<le> 10) FinalScoreRange
     (check (case mr_confidence m of None \<Rightarrow> True | Some c \<Rightarrow> in_unit c) CheckerConfidenceRange
     (Inr m))"

record calibration =
  cal_a :: rat
  cal_b :: rat
  cal_ece :: rat
  cal_n :: int

definition calibration_post_init :: "calibration \<Rightarrow> mc_error + calibration" where
  "calibration_post_init c = check (0 \<le> cal_n c) NegativeSamples (check (0 \<le> cal_ece c) NegativeEce (Inr c))"

text \<open>Platt scaling; \<open>epow z\<close> is \<open>pow(2.718281828459045, z)\<close>.\<close>

definition cal_apply :: "(rat \<Rightarrow> rat) \<Rightarrow> calibration \<Rightarrow> rat \<Rightarrow> mc_error + rat" where
  "cal_apply epow c raw =
     check (\<not> (raw < 0 \<or> 1 < raw)) RawRange
       (let z = fadd (fmul (cal_a c) raw) (cal_b c);
            p = (if 0 \<le> z then fdiv 1 (fadd 1 (epow (- z)))
                 else let ez = epow z in fdiv ez (fadd 1 ez))
        in Inr (max 0 (min 1 p)))"

section \<open>The heuristic checker\<close>

text \<open>
  A regime's blob: empty, or with its trade count (0 when absent) and its Sharpe ratio (\<open>None\<close> when
  absent or null). An absent \<open>fitness\<close> and a zero one are alike (\<open>m.get("fitness")\<close> is tested for truth).
\<close>

datatype regime_blob = EmptyBlob | Blob int "rat option"

fun blob_n :: "regime_blob \<Rightarrow> int" where
  "blob_n EmptyBlob = 0"
| "blob_n (Blob n s) = n"

fun blob_sharpe :: "regime_blob \<Rightarrow> rat option" where
  "blob_sharpe EmptyBlob = None"
| "blob_sharpe (Blob n s) = s"

record mc_metrics =
  m_trades :: int
  m_by_regime :: "(string \<times> regime_blob) list"
  m_fitness :: "rat option"

datatype m4_flag = LowSample int | RegimeImbalance string rat | BearSharpeExtreme rat | BearSharpeMissing | FitnessGainTradeDrop

text \<open>\<open>max(counts, key=counts.get)\<close>: the first key of the largest count.\<close>

fun arg_max :: "(string \<times> int) list \<Rightarrow> string" where
  "arg_max [] = undefined"
| "arg_max [(k, n)] = k"
| "arg_max ((k, n) # (k', n') # r) = (if n < n' then arg_max ((k', n') # r) else arg_max ((k, n) # r))"

definition flag_regime_imbalance :: "mc_metrics \<Rightarrow> m4_flag option" where
  "flag_regime_imbalance m =
     (let counts = filter (\<lambda>(k, n). n \<noteq> 0) (map (\<lambda>(k, b). (k, blob_n b)) (m_by_regime m));
          total = sum_list (map snd counts)
      in if total < 10 then None
         else let dominant = fdiv (of_int (list_max (map snd counts))) (of_int total)
              in if fl (85 / 100) < dominant then Some (RegimeImbalance (arg_max counts) dominant) else None)"

definition flag_low_sample :: "mc_metrics \<Rightarrow> m4_flag option" where
  "flag_low_sample m = (if m_trades m < 30 then Some (LowSample (m_trades m)) else None)"

definition flag_bear_regime_sharpe :: "mc_metrics \<Rightarrow> m4_flag option" where
  "flag_bear_regime_sharpe m =
     (let bear = (case map_of (m_by_regime m) ''bear'' of
                    Some (Blob n s) \<Rightarrow> Blob n s
                  | _ \<Rightarrow> get_default (m_by_regime m) ''range'' EmptyBlob)
      in if blob_n bear < 3 then None
         else case blob_sharpe bear of
                None \<Rightarrow> Some BearSharpeMissing
              | Some s \<Rightarrow> if s < - 1 then Some (BearSharpeExtreme s) else None)"

definition flag_fitness_gain :: "mc_metrics \<Rightarrow> mc_metrics option \<Rightarrow> m4_flag option" where
  "flag_fitness_gain m parent =
     (case parent of None \<Rightarrow> None
      | Some p \<Rightarrow>
          case (m_fitness m, m_fitness p) of
            (Some f_new, Some f_old) \<Rightarrow>
              if f_new \<noteq> 0 \<and> f_old \<noteq> 0
                 \<and> fmul 2 f_old < f_new \<and> of_int (m_trades m) < max 15 (fmul (of_int (m_trades p)) (1 / 2))
              then Some FitnessGainTradeDrop else None
          | _ \<Rightarrow> None)"

record candidate_result =
  cr_id :: string
  cr_decision :: string
  cr_metrics :: mc_metrics
  cr_payload :: payload
  cr_fitness :: "rat option"
  cr_elapsed :: rat

record m4_verdict =
  cv_id :: string
  cv_decision :: string
  cv_confidence :: rat
  cv_flags :: "m4_flag list"

definition m4_flags :: "mc_metrics \<Rightarrow> mc_metrics option \<Rightarrow> m4_flag list" where
  "m4_flags m parent = List.map_filter id
     [flag_low_sample m, flag_regime_imbalance m, flag_bear_regime_sharpe m, flag_fitness_gain m parent]"

definition check_candidate :: "candidate_result \<Rightarrow> mc_metrics option \<Rightarrow> m4_verdict" where
  "check_candidate r parent =
     (let flags = m4_flags (cr_metrics r) parent;
          (decision, confidence) =
            (if cr_decision r \<noteq> ''accepted'' then (''rejected'', fl (9 / 10))
             else if flags \<noteq> [] then (''suspicious'', max 0 (fsub (fl (7 / 10)) (fmul (fl (15 / 100)) (of_nat (length flags)))))
             else (''promising'', fl (7 / 10)))
      in \<lparr>cv_id = cr_id r, cv_decision = decision, cv_confidence = confidence, cv_flags = flags\<rparr>)"

section \<open>Isolation\<close>

definition BASE_STRIPPED :: "string list" where
  "BASE_STRIPPED = [''maker_intent'', ''reasoning'', ''self_score'', ''prompt_version'']"

definition STRICT_EXTRA :: "string list" where
  "STRICT_EXTRA = [''clusters_touched'', ''diff'', ''expected_impact'', ''generation_id'', ''parent_id'',
     ''parent_metrics'', ''gen'', ''cluster'', ''fingerprint'']"

definition MINIMAL_EXTRA :: "string list" where
  "MINIMAL_EXTRA = [''maker_intent'', ''reasoning'']"

definition STRIPPED_FIELDS_V1 :: "(string \<times> string list) list" where
  "STRIPPED_FIELDS_V1 =
     [(''strict'', BASE_STRIPPED @ STRICT_EXTRA), (''moderate'', BASE_STRIPPED), (''minimal'', MINIMAL_EXTRA)]"

text \<open>The candidate id is a string at every call; \<open>sha256_hex\<close> is \<open>hashlib.sha256(...).hexdigest()\<close>.\<close>

fun id_text :: "pyval \<Rightarrow> string" where
  "id_text (PStr s) = s"
| "id_text v = ''''"

definition salted_id :: "(string \<Rightarrow> string) \<Rightarrow> string \<Rightarrow> string \<Rightarrow> string" where
  "salted_id sha256_hex raw_id salt = take 16 (sha256_hex (salt @ ''|'' @ raw_id))"

definition strip_maker_artifacts ::
    "(string \<Rightarrow> string) \<Rightarrow> payload \<Rightarrow> string \<Rightarrow> string \<Rightarrow> mc_error + payload" where
  "strip_maker_artifacts sha256_hex payload level salt =
     (case map_of STRIPPED_FIELDS_V1 level of
        None \<Rightarrow> Inl (UnknownLevel level)
      | Some names \<Rightarrow>
          let out = foldl (\<lambda>d f. AList.delete f d) payload names
          in if level = ''strict''
             then let raw_id = id_text (get_val payload ''candidate_id'')
                  in check (raw_id \<noteq> '''') StrictNeedsId
                       (Inr (AList.update ''candidate_id'' (PStr (salted_id sha256_hex raw_id salt)) out))
             else Inr out)"

section \<open>The LLM Checker\<close>

record checker_config =
  cc_level :: string
  cc_calibration :: "calibration option"
  cc_threshold :: rat
  cc_min_confidence :: rat

definition checker_config_post_init :: "checker_config \<Rightarrow> mc_error + checker_config" where
  "checker_config_post_init c =
     check (has_key STRIPPED_FIELDS_V1 (cc_level c)) (ConfigRange ''isolation_level'')
     (check (in_unit (cc_threshold c)) (ConfigRange ''rejection_threshold'')
     (check (in_unit (cc_min_confidence c)) (ConfigRange ''min_confidence'') (Inr c)))"

text \<open>
  What the prompt text is made of: the sorted metric names, the Sharpe ratio at three decimals (sign
  and thousandths), the trade count as it stands, and the first five top-level keys.
\<close>

record prompt =
  p_metric_keys :: "string list"
  p_sharpe :: "bool \<times> int"
  p_trades :: pyval
  p_top_keys :: "string list"

definition build_prompt :: "payload \<Rightarrow> mc_error + prompt" where
  "build_prompt isolated =
     (case get_default isolated ''metrics'' (PDict []) of
        PDict metrics \<Rightarrow>
          (case num_of (get_default metrics ''sharpe'' (PNum 0)) of
             None \<Rightarrow> Inl PromptFormat
           | Some x \<Rightarrow> Inr \<lparr>p_metric_keys = sort (keys_of metrics), p_sharpe = (x < 0, rhe (\<bar>x\<bar> * 1000)),
                            p_trades = get_default metrics ''trades_count'' (PNum 0),
                            p_top_keys = take 5 (sort (keys_of isolated))\<rparr>)
      | _ \<Rightarrow> Inl PromptFormat)"

definition parse_severity :: "pyval \<Rightarrow> severity option" where
  "parse_severity v =
     (if v = PStr ''high'' then Some High else if v = PStr ''medium'' then Some Medium
      else if v = PStr ''low'' then Some Low else None)"

definition clean_flag :: "pyval \<Rightarrow> llm_flag option" where
  "clean_flag f =
     (case f of
        PDict d \<Rightarrow>
          if has_key d ''severity'' \<and> has_key d ''issue''
          then map_option (\<lambda>s. \<lparr>lf_severity = s, lf_fields = d\<rparr>) (parse_severity (get_val d ''severity''))
          else None
      | _ \<Rightarrow> None)"

fun falsy :: "pyval \<Rightarrow> bool" where
  "falsy PNone = True"
| "falsy (PBool b) = (\<not> b)"
| "falsy (PNum x) = (x = 0)"
| "falsy (PStr s) = (s = '''')"
| "falsy (PList xs) = (xs = [])"
| "falsy (PDict d) = (d = [])"

text \<open>\<open>float(v)\<close>, \<open>None\<close> where it raises; \<open>str_float\<close> is what it makes of a text.\<close>

definition to_float :: "(string \<Rightarrow> rat option) \<Rightarrow> pyval \<Rightarrow> rat option" where
  "to_float str_float v = (case v of PStr s \<Rightarrow> str_float s | _ \<Rightarrow> num_of v)"

fun to_floats :: "(string \<Rightarrow> rat option) \<Rightarrow> payload \<Rightarrow> (string \<times> rat) list option" where
  "to_floats sf [] = Some []"
| "to_floats sf ((k, v) # d) =
     (case to_float sf v of None \<Rightarrow> None
      | Some x \<Rightarrow> (case to_floats sf d of None \<Rightarrow> None | Some r \<Rightarrow> Some ((k, x) # r)))"

definition parse_verdict :: "(string \<Rightarrow> rat option) \<Rightarrow> string \<Rightarrow> pyval \<Rightarrow> llm_verdict option" where
  "parse_verdict str_float cid raw =
     (case raw of
        PDict d \<Rightarrow>
          (let score = get_val d ''checker_score'';
               flags = (let f = get_val d ''flags'' in if falsy f then PList [] else f)
           in case (num_of score, num_of (get_val d ''confidence''), get_val d ''components'', flags,
                    get_val d ''accept'', get_default d ''feedback'' (PStr '''')) of
                (Some s, Some c, PDict comps, PList fs, PBool acc, PStr fb) \<Rightarrow>
                  (let raw_score = (case num_of (get_default d ''raw_score'' score) of Some r \<Rightarrow> r | None \<Rightarrow> s)
                   in case to_floats str_float comps of
                        None \<Rightarrow> None
                      | Some components \<Rightarrow>
                          (case verdict_post_init
                             \<lparr>lv_id = cid, lv_score = s, lv_confidence = c, lv_components = components,
                              lv_flags = List.map_filter clean_flag fs, lv_accept = acc,
                              lv_feedback = take MAX_FEEDBACK_LEN fb, lv_raw = raw_score\<rparr> of
                             Inl e \<Rightarrow> None | Inr v \<Rightarrow> Some v))
              | _ \<Rightarrow> None)
      | _ \<Rightarrow> None)"

definition low_confidence_reject :: "string \<Rightarrow> mc_error + llm_verdict" where
  "low_confidence_reject cid =
     verdict_post_init
       \<lparr>lv_id = cid, lv_score = 0, lv_confidence = 0, lv_components = [],
        lv_flags = [\<lparr>lf_severity = High,
                     lf_fields = [(''severity'', PStr ''high''), (''issue'', PStr ''checker_backend_failure'')]\<rparr>],
        lv_accept = False, lv_feedback = ''checker backend failure - defaulted to reject'', lv_raw = 0\<rparr>"

text \<open>
  The agent's surroundings: the hash, the seed it derives from salt and id, the model (\<open>None\<close>: the
  call raised), the text-to-float conversion and the exponential.
\<close>

record world =
  w_sha256 :: "string \<Rightarrow> string"
  w_seed :: "string \<Rightarrow> int"
  w_backend :: "prompt \<Rightarrow> int \<Rightarrow> pyval option"
  w_str_float :: "string \<Rightarrow> rat option"
  w_epow :: "rat \<Rightarrow> rat"

definition calibrated_score :: "world \<Rightarrow> checker_config \<Rightarrow> rat \<Rightarrow> mc_error + rat" where
  "calibrated_score w cfg raw =
     (case cc_calibration cfg of None \<Rightarrow> Inr raw | Some params \<Rightarrow> cal_apply (w_epow w) params raw)"

definition verify :: "world \<Rightarrow> checker_config \<Rightarrow> string \<Rightarrow> string \<Rightarrow> payload \<Rightarrow> mc_error + llm_verdict" where
  "verify w cfg salt cid results =
     ebind (strip_maker_artifacts (w_sha256 w) (AList.update ''candidate_id'' (PStr cid) results) (cc_level cfg) salt)
       (\<lambda>isolated. ebind (build_prompt isolated)
         (\<lambda>prompt. case w_backend w prompt (w_seed w (salt @ cid)) of
            None \<Rightarrow> low_confidence_reject cid
          | Some raw_out \<Rightarrow>
              (case parse_verdict (w_str_float w) cid raw_out of
                 None \<Rightarrow> low_confidence_reject cid
               | Some verdict \<Rightarrow>
                   ebind (calibrated_score w cfg (lv_raw verdict)) (\<lambda>calibrated.
                     verdict_post_init
                       \<lparr>lv_id = cid, lv_score = calibrated, lv_confidence = lv_confidence verdict,
                        lv_components = lv_components verdict, lv_flags = lv_flags verdict,
                        lv_accept = (lv_accept verdict \<and> cc_threshold cfg \<le> calibrated
                                     \<and> cc_min_confidence cfg \<le> lv_confidence verdict),
                        lv_feedback = lv_feedback verdict, lv_raw = lv_raw verdict\<rparr>))))"

section \<open>The Arbiter\<close>

record arbiter_config =
  ac_maker_weight :: rat
  ac_checker_weight :: rat
  ac_gap :: rat

definition DEFAULT_ARBITER :: arbiter_config where
  "DEFAULT_ARBITER = \<lparr>ac_maker_weight = fl (4 / 10), ac_checker_weight = fl (6 / 10), ac_gap = fl (4 / 10)\<rparr>"

definition arbiter_post_init :: "arbiter_config \<Rightarrow> mc_error + arbiter_config" where
  "arbiter_post_init c =
     check (in_unit (ac_maker_weight c)) (ConfigRange ''maker_weight'')
     (check (in_unit (ac_checker_weight c)) (ConfigRange ''checker_weight'')
     (check (\<not> fl (1 / 100) < \<bar>fsub (fadd (ac_maker_weight c) (ac_checker_weight c)) 1\<bar>) (ConfigRange ''weight sum'')
     (check (in_unit (ac_gap c)) (ConfigRange ''gap'') (Inr c))))"

definition resolve :: "arbiter_config \<Rightarrow> m4_verdict \<Rightarrow> llm_verdict \<Rightarrow> proposal option \<Rightarrow> mc_error + merge_result" where
  "resolve cfg m4 llm maker =
     check (cv_decision m4 \<in> set [''promising'', ''suspicious'', ''rejected'']) (UnknownM4 (cv_decision m4))
       (let maker_score = (case maker of Some p \<Rightarrow> ms_score (pr_self_score p) | None \<Rightarrow> 1 / 2);
            checker_score = lv_score llm;
            gap = \<bar>fsub maker_score checker_score\<bar>;
            final = fadd (fmul (ac_maker_weight cfg) maker_score) (fmul (ac_checker_weight cfg) checker_score);
            merge = (\<lambda>decision triggers agreement. merge_post_init
              \<lparr>mr_decision = decision, mr_score = final, mr_m4 = cv_decision m4,
               mr_triggers = TrM4 (cv_decision m4) # triggers, mr_confidence = Some (lv_confidence llm),
               mr_flags = lv_flags llm, mr_agreement = Some agreement\<rparr>)
        in if cv_decision m4 = ''rejected'' then merge Rejected [TrHardConstraint] (gap \<le> ac_gap cfg)
           else if cv_decision m4 = ''promising'' then
             (if lv_accept llm then
                (if ac_gap cfg < gap then merge SuspiciousToHuman [TrLlmAccept, TrGap] False
                 else merge Accepted [TrLlmAccept] True)
              else merge Rejected [TrLlmRejectOverrides] (gap \<le> ac_gap cfg))
           else if lv_accept llm then merge SuspiciousToHuman [TrM4Suspicious, TrLlmAccept] False
           else merge Rejected [TrM4Suspicious, TrLlmReject] (gap \<le> ac_gap cfg))"

section \<open>Runner and adapter\<close>

definition evaluate ::
    "world \<Rightarrow> checker_config \<Rightarrow> arbiter_config \<Rightarrow> string \<Rightarrow> candidate_result \<Rightarrow> mc_metrics option \<Rightarrow> mc_error + merge_result" where
  "evaluate w ccfg acfg salt candidate parent =
     (let m4 = check_candidate candidate parent;
          payload = [(''metrics'', PDict (cr_payload candidate)),
                     (''fitness'', case cr_fitness candidate of None \<Rightarrow> PNone | Some f \<Rightarrow> PNum f),
                     (''decision'', PStr (cr_decision candidate)),
                     (''elapsed_seconds'', PNum (cr_elapsed candidate))]
      in ebind (verify w ccfg salt (cr_id candidate) payload) (\<lambda>llm. resolve acfg m4 llm None))"

datatype outcome = HeuristicOnly m4_verdict | Merged string final_decision rat "trigger list" "llm_flag list"

definition evaluate_candidate ::
    "world \<Rightarrow> (bool \<times> checker_config \<times> arbiter_config \<times> string) option \<Rightarrow> candidate_result
       \<Rightarrow> mc_metrics option \<Rightarrow> mc_error + outcome" where
  "evaluate_candidate w runner candidate parent =
     (let m4 = check_candidate candidate parent
      in case runner of
           None \<Rightarrow> Inr (HeuristicOnly m4)
         | Some (enabled, ccfg, acfg, salt) \<Rightarrow>
             if \<not> enabled then Inr (HeuristicOnly m4)
             else ebind (evaluate w ccfg acfg salt candidate parent)
                    (\<lambda>m. Inr (Merged (cr_id candidate) (mr_decision m) (mr_score m) (mr_triggers m) (mr_flags m))))"

section \<open>Lemmas\<close>

lemma find_None_all: "find P xs = None \<longleftrightarrow> (\<forall>x \<in> set xs. \<not> P x)"
  by (auto simp: find_None_iff)

lemma verdict_post_init_Inr:
  "verdict_post_init v = Inr v' \<longleftrightarrow> v' = v \<and> in_unit (lv_score v) \<and> in_unit (lv_confidence v) \<and> in_unit (lv_raw v)
     \<and> (\<forall>(c, x) \<in> set (lv_components v). in_unit x) \<and> length (lv_feedback v) \<le> MAX_FEEDBACK_LEN"
  by (auto simp: verdict_post_init_def find_None_all find_Some_iff split: option.splits) (fastforce dest: nth_mem)+

lemma merge_post_init_Inr:
  "merge_post_init m = Inr m' \<longleftrightarrow> m' = m \<and> - 10 \<le> mr_score m \<and> mr_score m \<le> 10
     \<and> (case mr_confidence m of None \<Rightarrow> True | Some c \<Rightarrow> in_unit c)"
  by (auto simp: merge_post_init_def)

lemma parse_verdict_valid: "parse_verdict sf cid raw = Some v \<Longrightarrow> verdict_post_init v = Inr v \<and> lv_id v = cid"
  by (auto simp: parse_verdict_def Let_def verdict_post_init_Inr
      split: pyval.splits option.splits sum.splits if_splits)

lemma foldl_delete: "foldl (\<lambda>d f. AList.delete f d) d ks = filter (\<lambda>(k, v). k \<notin> set ks) d"
  by (induction ks arbitrary: d) (auto simp: AList.delete_eq intro!: filter_cong)

lemma filter_update: "P k \<Longrightarrow> filter (\<lambda>(k, v). P k) (AList.update k v d) = AList.update k v (filter (\<lambda>(k, v). P k) d)"
  by (induction d) auto

lemma cal_apply_unit:
  assumes "\<And>z. 0 \<le> epow z" and "cal_apply epow c raw = Inr p"
  shows "in_unit p"
  using assms(2) by (auto simp: cal_apply_def Let_def in_unit_def split: if_splits)

lemma cal_apply_total: "in_unit raw \<Longrightarrow> \<exists>p. cal_apply epow c raw = Inr p \<and> in_unit p"
  by (auto simp: cal_apply_def Let_def in_unit_def check_def)

lemma low_confidence_reject_Inr:
  "\<exists>v. low_confidence_reject cid = Inr v \<and> lv_id v = cid \<and> \<not> lv_accept v \<and> lv_confidence v = 0 \<and> lv_score v = 0
     \<and> verdict_post_init v = Inr v"
  by (auto simp: low_confidence_reject_def verdict_post_init_Inr in_unit_def MAX_FEEDBACK_LEN_def)

section \<open>The heuristic verdict\<close>

lemma flag_low_sample_None: "flag_low_sample m = None \<longleftrightarrow> 30 \<le> m_trades m"
  by (auto simp: flag_low_sample_def)

definition regime_counts :: "mc_metrics \<Rightarrow> int list" where
  "regime_counts m = filter (\<lambda>n. n \<noteq> 0) (map (blob_n \<circ> snd) (m_by_regime m))"

lemma regime_counts_eq:
  "map snd (filter (\<lambda>(k, n). n \<noteq> 0) (map (\<lambda>(k, b). (k, blob_n b)) d)) = filter (\<lambda>n. n \<noteq> 0) (map (blob_n \<circ> snd) d)"
  by (induction d) auto

lemma flag_regime_imbalance_None:
  "flag_regime_imbalance m = None \<longleftrightarrow>
     sum_list (regime_counts m) < 10
     \<or> (\<forall>n \<in> set (regime_counts m). fdiv (of_int n) (of_int (sum_list (regime_counts m))) \<le> fl (85 / 100))"
proof (cases "sum_list (regime_counts m) < 10")
  case False
  let ?c = "regime_counts m"
  let ?q = "\<lambda>n. fdiv (of_int n) (of_int (sum_list ?c))"
  have ne: "?c \<noteq> []" using False by auto
  have "?q n \<le> ?q (list_max ?c)" if "n \<in> set ?c" for n
    using list_max_ge[OF that] False by (intro fdiv_mono) auto
  then have "?q (list_max ?c) \<le> fl (85 / 100) \<longleftrightarrow> (\<forall>n \<in> set ?c. ?q n \<le> fl (85 / 100))"
    using list_max_in[OF ne] by (meson order_trans)
  then show ?thesis using False
    by (auto simp: flag_regime_imbalance_def Let_def regime_counts_eq regime_counts_def[symmetric] not_less)
qed (simp add: flag_regime_imbalance_def Let_def regime_counts_eq regime_counts_def)

lemma m4_flags_Nil:
  "m4_flags m parent = [] \<longleftrightarrow> flag_low_sample m = None \<and> flag_regime_imbalance m = None
     \<and> flag_bear_regime_sharpe m = None \<and> flag_fitness_gain m parent = None"
  by (auto simp: m4_flags_def List.map_filter_def)

lemma m4_flags_length: "length (m4_flags m parent) \<le> 4"
  by (auto simp: m4_flags_def List.map_filter_def)

text \<open>The regime whose Sharpe ratio is inspected: bear, or range where bear is missing or empty.\<close>

definition inspected_regime :: "mc_metrics \<Rightarrow> regime_blob" where
  "inspected_regime m =
     (case map_of (m_by_regime m) ''bear'' of Some (Blob n s) \<Rightarrow> Blob n s
      | _ \<Rightarrow> get_default (m_by_regime m) ''range'' EmptyBlob)"

lemma flag_bear_None:
  "flag_bear_regime_sharpe m = None \<longleftrightarrow>
     blob_n (inspected_regime m) < 3 \<or> (\<exists>s. blob_sharpe (inspected_regime m) = Some s \<and> - 1 \<le> s)"
  unfolding flag_bear_regime_sharpe_def Let_def inspected_regime_def[symmetric]
  by (auto simp: not_less split: option.splits)

lemma flag_fitness_None:
  "flag_fitness_gain m (Some p) = None \<longleftrightarrow>
     (\<forall>f g. m_fitness m = Some f \<and> m_fitness p = Some g \<and> f \<noteq> 0 \<and> g \<noteq> 0 \<and> fmul 2 g < f
        \<longrightarrow> max 15 (fmul (of_int (m_trades p)) (1 / 2)) \<le> of_int (m_trades m))"
  by (auto simp: flag_fitness_gain_def not_less split: option.splits)

text \<open>
  The heuristic checker decides exactly by its rules. A candidate the worker did not accept is
  rejected; an accepted one is promising exactly when it has at least 30 trades, no regime above
  85 percent of ten or more trades, no extreme or missing Sharpe ratio in the bear (or range)
  regime with three or more trades, and no fitness doubling against its parent on too few
  trades; otherwise it is suspicious, with at least one flag and a confidence below 0.7 and
  never negative.
\<close>

theorem heuristic_verdict_exact:
  "let m = cr_metrics r; n_all = sum_list (regime_counts m) in
    cv_decision (check_candidate r parent) =
      (if cr_decision r \<noteq> ''accepted'' then ''rejected''
       else if 30 \<le> m_trades m
            \<and> (n_all < 10 \<or> (\<forall>n \<in> set (regime_counts m). fdiv (of_int n) (of_int n_all) \<le> fl (85 / 100)))
            \<and> (blob_n (inspected_regime m) < 3 \<or> (\<exists>s. blob_sharpe (inspected_regime m) = Some s \<and> - 1 \<le> s))
            \<and> (\<forall>p f g. parent = Some p \<and> m_fitness m = Some f \<and> m_fitness p = Some g \<and> f \<noteq> 0 \<and> g \<noteq> 0 \<and> fmul 2 g < f
                 \<longrightarrow> max 15 (fmul (of_int (m_trades p)) (1 / 2)) \<le> of_int (m_trades m))
            then ''promising'' else ''suspicious'')
    \<and> (cv_decision (check_candidate r parent) = ''suspicious''
        \<longleftrightarrow> cr_decision r = ''accepted'' \<and> cv_flags (check_candidate r parent) \<noteq> [])
    \<and> 0 \<le> cv_confidence (check_candidate r parent)
    \<and> (cv_decision (check_candidate r parent) = ''suspicious'' \<longrightarrow> cv_confidence (check_candidate r parent) < fl (7 / 10))"
proof -
  let ?m = "cr_metrics r" and ?n = "sum_list (regime_counts (cr_metrics r))"
  have parent: "flag_fitness_gain ?m parent = None \<longleftrightarrow>
      (\<forall>p f g. parent = Some p \<and> m_fitness ?m = Some f \<and> m_fitness p = Some g \<and> f \<noteq> 0 \<and> g \<noteq> 0 \<and> fmul 2 g < f
                 \<longrightarrow> max 15 (fmul (of_int (m_trades p)) (1 / 2)) \<le> of_int (m_trades ?m))"
    by (cases parent) (auto simp: flag_fitness_None, simp add: flag_fitness_gain_def)
  have low: "max 0 (fsub (fl (7 / 10)) (fmul (fl (15 / 100)) (of_nat n))) < fl (7 / 10)" if "1 \<le> n" for n :: nat
  proof -
    have "fmul (fl (15 / 100)) 1 \<le> fmul (fl (15 / 100)) (of_nat n)" using that by (intro fmul_mono) (auto simp: fl_nonneg)
    then have "fsub (fl (7 / 10)) (fmul (fl (15 / 100)) (of_nat n)) \<le> fsub (fl (7 / 10)) (fmul (fl (15 / 100)) 1)"
      by (intro fsub_mono) auto
    also have "\<dots> < fl (7 / 10)" by code_simp
    moreover have "0 < fl (7 / 10)" by code_simp
    ultimately show ?thesis by simp
  qed
  have pos: "0 \<le> fl (9 / 10)" "0 \<le> fl (7 / 10)" by (simp_all add: fl_nonneg)
  show ?thesis
    using low[of "length (m4_flags ?m parent)"] pos m4_flags_Nil[of ?m parent]
    unfolding check_candidate_def Let_def parent[symmetric]
      flag_low_sample_None[symmetric] flag_bear_None[symmetric]
      flag_regime_imbalance_None[symmetric]
    by (cases "m4_flags ?m parent") auto
qed

section \<open>The LLM verdict\<close>

lemma strip_levels:
  "has_key STRIPPED_FIELDS_V1 level \<Longrightarrow> \<exists>names. map_of STRIPPED_FIELDS_V1 level = Some names \<and> ''metrics'' \<notin> set names"
  by (auto simp: has_key_def STRIPPED_FIELDS_V1_def BASE_STRIPPED_def STRICT_EXTRA_def MINIMAL_EXTRA_def)

lemma strip_Inr:
  assumes "has_key STRIPPED_FIELDS_V1 level" "cid \<noteq> ''''"
  shows "\<exists>out. strip_maker_artifacts h (AList.update ''candidate_id'' (PStr cid) results) level salt = Inr out
     \<and> map_of out ''metrics'' = map_of results ''metrics''"
proof -
  obtain names where n: "map_of STRIPPED_FIELDS_V1 level = Some names" "''metrics'' \<notin> set names"
    using strip_levels[OF assms(1)] by blast
  have f: "map_of (filter (\<lambda>(k, v). k \<notin> set names) d) ''metrics'' = map_of d ''metrics''" for d :: payload
    using n(2) by (induction d) auto
  show ?thesis
    using assms(2) n(1) f
    by (auto simp: strip_maker_artifacts_def Let_def foldl_delete get_val_def get_default_def update_conv' check_def)
qed

text \<open>The results a worker hands over: a metrics dict whose Sharpe ratio, where present, is a number.\<close>

definition results_ok :: "payload \<Rightarrow> bool" where
  "results_ok results =
     (\<exists>metrics. get_default results ''metrics'' (PDict []) = PDict metrics
        \<and> num_of (get_default metrics ''sharpe'' (PNum 0)) \<noteq> None)"

lemma build_prompt_Inr:
  assumes "results_ok results" "map_of out ''metrics'' = map_of results ''metrics''"
  shows "\<exists>p. build_prompt out = Inr p"
  using assms by (auto simp: results_ok_def build_prompt_def get_default_def split: option.splits)

lemma calibrated_total:
  "in_unit raw \<Longrightarrow> \<exists>c. calibrated_score w cfg raw = Inr c \<and> in_unit c"
  using cal_apply_total[of raw] by (auto simp: calibrated_score_def split: option.splits)

definition thresholds_met :: "checker_config \<Rightarrow> llm_verdict \<Rightarrow> bool" where
  "thresholds_met cfg v = (cc_threshold cfg \<le> lv_score v \<and> cc_min_confidence cfg \<le> lv_confidence v)"

lemma verify_rest:
  assumes "in_unit (lv_raw verdict)" "verdict_post_init verdict = Inr verdict" "lv_id verdict = cid"
  shows "\<exists>v. ebind (calibrated_score w cfg (lv_raw verdict)) (\<lambda>calibrated.
            verdict_post_init
              \<lparr>lv_id = cid, lv_score = calibrated, lv_confidence = lv_confidence verdict,
               lv_components = lv_components verdict, lv_flags = lv_flags verdict,
               lv_accept = (lv_accept verdict \<and> cc_threshold cfg \<le> calibrated \<and> cc_min_confidence cfg \<le> lv_confidence verdict),
               lv_feedback = lv_feedback verdict, lv_raw = lv_raw verdict\<rparr>) = Inr v
         \<and> lv_id v = cid \<and> verdict_post_init v = Inr v \<and> (lv_accept v \<longrightarrow> thresholds_met cfg v)"
proof -
  obtain c where c: "calibrated_score w cfg (lv_raw verdict) = Inr c" "in_unit c"
    using calibrated_total[OF assms(1)] by blast
  show ?thesis using assms(2) c by (simp add: verdict_post_init_Inr thresholds_met_def)
qed

text \<open>
  The LLM Checker is total and its verdict is always well-formed. For a valid configuration, a
  named candidate and a metrics dict with a numeric Sharpe ratio, whatever the model answers (an
  exception, text, or any nested JSON), the agent returns a verdict for that candidate whose scores
  lie between 0 and 1; it accepts only at or above both thresholds; and when the call fails or the
  answer does not parse, it rejects with score and confidence 0.
\<close>

theorem llm_verdict_total:
  assumes cfg: "checker_config_post_init cfg = Inr cfg" and id: "cid \<noteq> ''''" and res: "results_ok results"
  shows "\<exists>v. verify w cfg salt cid results = Inr v \<and> lv_id v = cid \<and> verdict_post_init v = Inr v
           \<and> (lv_accept v \<longrightarrow> thresholds_met cfg v)
           \<and> ((\<forall>p seed raw. w_backend w p seed = Some raw \<longrightarrow> parse_verdict (w_str_float w) cid raw = None)
                \<longrightarrow> \<not> lv_accept v \<and> lv_confidence v = 0 \<and> lv_score v = 0)"
proof -
  have key: "has_key STRIPPED_FIELDS_V1 (cc_level cfg)" using cfg by (simp add: checker_config_post_init_def)
  obtain out where out: "strip_maker_artifacts (w_sha256 w) (AList.update ''candidate_id'' (PStr cid) results) (cc_level cfg) salt = Inr out"
    "map_of out ''metrics'' = map_of results ''metrics''"
    using strip_Inr[OF key id] by blast
  obtain p where p: "build_prompt out = Inr p" using build_prompt_Inr[OF res out(2)] by blast
  show ?thesis
  proof (cases "Option.bind (w_backend w p (w_seed w (salt @ cid))) (parse_verdict (w_str_float w) cid)")
    case None
    then have "verify w cfg salt cid results = low_confidence_reject cid"
      using out(1) p by (auto simp: verify_def bind_eq_None_conv split: option.splits)
    then show ?thesis using low_confidence_reject_Inr[of cid] by auto
  next
    case (Some verdict)
    then obtain raw where raw: "w_backend w p (w_seed w (salt @ cid)) = Some raw"
      "parse_verdict (w_str_float w) cid raw = Some verdict" by (auto simp: bind_eq_Some_conv)
    have "in_unit (lv_raw verdict)" using parse_verdict_valid[OF raw(2)] by (simp add: verdict_post_init_Inr)
    then show ?thesis
      using verify_rest[of verdict cid w cfg] parse_verdict_valid[OF raw(2)] raw
      by (auto simp: verify_def out(1) p)
  qed
qed

section \<open>Isolation\<close>

text \<open>
  What a Checker under strict isolation must not see, listed field by field and not by the tables of the code:
  the fields of a \<open>Proposal\<close> (\<^verbatim>\<open>schemas.py\<close>), the further ones the module documents for
  \<open>strict\<close>, and the lineage a driver knows.
\<close>

definition maker_fields :: "string set" where
  "maker_fields =
     {''clusters_touched'', ''diff'', ''maker_intent'', ''reasoning'', ''self_score'',
      ''prompt_version'', ''expected_impact'', ''generation_id'', ''parent_id'',
      ''parent_metrics'', ''gen'', ''cluster'', ''fingerprint''}"

lemma strict_names: "map_of STRIPPED_FIELDS_V1 ''strict'' = Some (BASE_STRIPPED @ STRICT_EXTRA)"
  "set (BASE_STRIPPED @ STRICT_EXTRA) = maker_fields"
  by (simp_all add: STRIPPED_FIELDS_V1_def maker_fields_def BASE_STRIPPED_def STRICT_EXTRA_def insert_commute)

lemma strict_strip:
  "cid \<noteq> '''' \<Longrightarrow> strip_maker_artifacts h (AList.update ''candidate_id'' (PStr cid) results) ''strict'' salt
     = Inr (AList.update ''candidate_id'' (PStr (salted_id h cid salt))
              (AList.update ''candidate_id'' (PStr cid) (filter (\<lambda>(k, v). k \<notin> maker_fields) results)))"
proof -
  have "''candidate_id'' \<notin> maker_fields" by (simp add: maker_fields_def)
  moreover assume "cid \<noteq> ''''"
  ultimately show ?thesis
    unfolding strip_maker_artifacts_def foldl_delete
    using filter_update[of "\<lambda>k. k \<notin> maker_fields" "''candidate_id''" "PStr cid" results]
    by (simp add: Let_def get_val_def get_default_def update_conv' check_def strict_names del: set_append)
qed

text \<open>
  C12: Under strict isolation the Maker's metadata cannot influence the Checker. Two result
  payloads that agree, in order, outside the thirteen fields listed in \<open>maker_fields\<close> (clusters, diff, intent,
  reasoning, self score, prompt version, expected impact, generation and parent ids, parent metrics, generation number,
  cluster, fingerprint) get the same verdict, whatever the model, the hash, the seed function and the calibration
  are. The list is written out, not taken from the lists the code strips.
\<close>

theorem strict_isolation_noninterference:
  assumes "cc_level cfg = ''strict''"
    and "filter (\<lambda>(k, v). k \<notin> maker_fields) results = filter (\<lambda>(k, v). k \<notin> maker_fields) results'"
  shows "verify w cfg salt cid results = verify w cfg salt cid results'"
proof (cases "cid = ''''")
  case True
  have "strip_maker_artifacts (w_sha256 w) (AList.update ''candidate_id'' (PStr cid) d) ''strict'' salt = Inl StrictNeedsId" for d
    using True by (simp add: strip_maker_artifacts_def STRIPPED_FIELDS_V1_def Let_def get_val_def get_default_def update_conv')
  then show ?thesis using assms(1) by (simp add: verify_def)
next
  case False
  then show ?thesis using assms by (simp add: verify_def strict_strip)
qed

text \<open>
  The moderate level lets lineage through: the names of the Maker's structural fields are among the
  top-level keys of the prompt. The minimal level keeps two fields the module says are removed at
  every level.
\<close>

lemma moderate_isolation_leaks:
  "map_option id (case strip_maker_artifacts h [(''clusters_touched'', PList []), (''metrics'', PDict [])] ''moderate'' salt of
      Inr out \<Rightarrow> (case build_prompt out of Inr p \<Rightarrow> Some (p_top_keys p) | Inl e \<Rightarrow> None) | Inl e \<Rightarrow> None)
     = Some [''clusters_touched'', ''metrics'']"
  by code_simp

lemma minimal_keeps_self_score:
  "''self_score'' \<in> set BASE_STRIPPED \<and> map_of STRIPPED_FIELDS_V1 ''minimal'' = Some [''maker_intent'', ''reasoning'']"
  by (simp add: BASE_STRIPPED_def STRIPPED_FIELDS_V1_def MINIMAL_EXTRA_def)

section \<open>The decision tree\<close>

lemma unit_mul:
  assumes "in_unit a" "in_unit b" "is_float a"
  shows "0 \<le> fmul a b" and "fmul a b \<le> a"
proof -
  show "0 \<le> fmul a b" using assms by (intro fmul_nonneg) (auto simp: in_unit_def)
  show "fmul a b \<le> a"
    using assms by (intro fmul_le_float) (auto simp: in_unit_def intro: mult_left_le)
qed

lemma merge_score:
  assumes "arbiter_post_init cfg = Inr cfg" "is_float (ac_maker_weight cfg)" "is_float (ac_checker_weight cfg)"
    and "in_unit a" "in_unit b"
  shows "0 \<le> fadd (fmul (ac_maker_weight cfg) a) (fmul (ac_checker_weight cfg) b)"
    and "fadd (fmul (ac_maker_weight cfg) a) (fmul (ac_checker_weight cfg) b)
           \<le> fadd (ac_maker_weight cfg) (ac_checker_weight cfg)"
    and "fadd (ac_maker_weight cfg) (ac_checker_weight cfg) \<le> 2"
proof -
  have w: "in_unit (ac_maker_weight cfg)" "in_unit (ac_checker_weight cfg)"
    using assms(1) by (auto simp: arbiter_post_init_def)
  show "0 \<le> fadd (fmul (ac_maker_weight cfg) a) (fmul (ac_checker_weight cfg) b)"
    using unit_mul(1) w assms by (intro fadd_nonneg) auto
  show "fadd (fmul (ac_maker_weight cfg) a) (fmul (ac_checker_weight cfg) b)
           \<le> fadd (ac_maker_weight cfg) (ac_checker_weight cfg)"
    using unit_mul(2) w assms by (intro fadd_mono) auto
  show "fadd (ac_maker_weight cfg) (ac_checker_weight cfg) \<le> 2"
    using w by (intro fadd_le_float) (auto simp: in_unit_def)
qed

definition maker_score :: "proposal option \<Rightarrow> rat" where
  "maker_score maker = (case maker of Some p \<Rightarrow> ms_score (pr_self_score p) | None \<Rightarrow> 1 / 2)"

definition decide :: "arbiter_config \<Rightarrow> string \<Rightarrow> llm_verdict \<Rightarrow> rat \<Rightarrow> final_decision" where
  "decide cfg m4 llm score =
     (if m4 = ''rejected'' \<or> \<not> lv_accept llm then Rejected
      else if m4 = ''promising'' \<and> \<bar>fsub score (lv_score llm)\<bar> \<le> ac_gap cfg then Accepted
      else SuspiciousToHuman)"

text \<open>
  The Arbiter follows its decision tree and never fails. For a valid configuration, a known
  heuristic decision and scores between 0 and 1 it returns a result: rejected exactly when the
  heuristics or the LLM reject; accepted exactly when the heuristics find the candidate
  promising, the LLM accepts and the two scores are within the gap; otherwise it goes to a human.
  The merged score is nonnegative and at most the sum of the weights, an accepted result counts as
  agreement, and the Checker's confidence is passed on.
\<close>

theorem arbiter_decision_tree:
  assumes cfg: "arbiter_post_init cfg = Inr cfg" "is_float (ac_maker_weight cfg)" "is_float (ac_checker_weight cfg)"
    and m4: "cv_decision m4 \<in> {''promising'', ''suspicious'', ''rejected''}"
    and llm: "verdict_post_init llm = Inr llm" and maker: "in_unit (maker_score maker)"
  shows "\<exists>m. resolve cfg m4 llm maker = Inr m
    \<and> mr_decision m = decide cfg (cv_decision m4) llm (maker_score maker)
    \<and> 0 \<le> mr_score m \<and> mr_score m \<le> fadd (ac_maker_weight cfg) (ac_checker_weight cfg)
    \<and> mr_confidence m = Some (lv_confidence llm)
    \<and> (mr_decision m = Accepted \<longrightarrow> mr_agreement m = Some True)
    \<and> (mr_decision m = SuspiciousToHuman \<longrightarrow> mr_agreement m = Some False)"
proof -
  let ?f = "fadd (fmul (ac_maker_weight cfg) (maker_score maker)) (fmul (ac_checker_weight cfg) (lv_score llm))"
  have "in_unit (lv_score llm)" "in_unit (lv_confidence llm)" using llm by (simp_all add: verdict_post_init_Inr)
  note score = merge_score[OF cfg maker this(1)]
  have ok: "merge_post_init m = Inr m" if "mr_score m = ?f" "mr_confidence m = Some (lv_confidence llm)" for m
    using that score \<open>in_unit (lv_confidence llm)\<close> by (simp add: merge_post_init_Inr)
  show ?thesis
    using m4 score(1,2)
    unfolding resolve_def maker_score_def[symmetric] Let_def
    by (elim insertE emptyE; cases "lv_accept llm"; cases "ac_gap cfg < \<bar>fsub (maker_score maker) (lv_score llm)\<bar>")
      (auto simp: ok decide_def)
qed

section \<open>Runner and adapter\<close>

lemma resolve_accepted:
  assumes "resolve cfg m4 llm maker = Inr m" "mr_decision m = Accepted"
  shows "cv_decision m4 = ''promising'' \<and> lv_accept llm \<and> \<bar>fsub (maker_score maker) (lv_score llm)\<bar> \<le> ac_gap cfg"
  using assms unfolding resolve_def maker_score_def[symmetric] Let_def
  by (auto simp: merge_post_init_Inr split: if_splits)

lemma verify_accepts:
  assumes "verify w cfg salt cid results = Inr v" "lv_accept v"
  shows "thresholds_met cfg v"
proof -
  have no: "low_confidence_reject cid \<noteq> Inr v" using low_confidence_reject_Inr[of cid] assms(2) by auto
  obtain out p where "strip_maker_artifacts (w_sha256 w) (AList.update ''candidate_id'' (PStr cid) results) (cc_level cfg) salt = Inr out"
    "build_prompt out = Inr p"
    using assms(1) by (auto simp: verify_def)
  then show ?thesis
    using assms no
    by (cases "w_backend w p (w_seed w (salt @ cid))"; cases "parse_verdict (w_str_float w) cid (the (w_backend w p (w_seed w (salt @ cid))))")
      (auto simp: verify_def verdict_post_init_Inr thresholds_met_def)
qed

text \<open>
  Nothing is accepted by the Maker-Checker loop unless every reviewer agrees. If the
  adapter reports a candidate as accepted, the worker had accepted it, the heuristics raised no flag, the
  LLM accepted with score and confidence at or above the thresholds, and the score lies within the
  gap of one half, the self score the runner assumes.
\<close>

theorem accepted_needs_every_reviewer:
  assumes "evaluate_candidate w runner candidate parent = Inr (Merged cid Accepted score triggers flags)"
  shows "\<exists>ccfg acfg salt payload v. runner = Some (True, ccfg, acfg, salt)
    \<and> cr_decision candidate = ''accepted'' \<and> cv_flags (check_candidate candidate parent) = []
    \<and> verify w ccfg salt (cr_id candidate) payload = Inr v \<and> lv_accept v \<and> thresholds_met ccfg v
    \<and> \<bar>fsub (1 / 2) (lv_score v)\<bar> \<le> ac_gap acfg"
proof -
  obtain ccfg acfg salt m where r: "runner = Some (True, ccfg, acfg, salt)"
    and m: "evaluate w ccfg acfg salt candidate parent = Inr m" "mr_decision m = Accepted"
    using assms by (auto simp: evaluate_candidate_def Let_def split: option.splits if_splits)
  obtain payload v where v: "verify w ccfg salt (cr_id candidate) payload = Inr v"
    "resolve acfg (check_candidate candidate parent) v None = Inr m"
    using m(1) by (auto simp: evaluate_def Let_def)
  have acc: "cv_decision (check_candidate candidate parent) = ''promising''" "lv_accept v"
    "\<bar>fsub (1 / 2) (lv_score v)\<bar> \<le> ac_gap acfg"
    using resolve_accepted[OF v(2) m(2)] by (auto simp: maker_score_def)
  have "cr_decision candidate = ''accepted'' \<and> cv_flags (check_candidate candidate parent) = []"
    using acc(1) by (auto simp: check_candidate_def Let_def split: if_splits)
  then show ?thesis using r v(1) acc(2,3) verify_accepts[OF v(1) acc(2)] by blast
qed

text \<open>
  The runner passes no proposal, so the Arbiter measures the gap from one half: with the default gap of
  0.4 a candidate the LLM scores at 0.91 or more is never accepted.
\<close>

lemma confident_verdict_diverted:
  assumes "resolve DEFAULT_ARBITER m4 llm None = Inr m" "91 / 100 \<le> lv_score llm"
  shows "mr_decision m \<noteq> Accepted"
proof
  assume "mr_decision m = Accepted"
  then have "\<bar>fsub (1 / 2) (lv_score llm)\<bar> \<le> fl (4 / 10)"
    using resolve_accepted[OF assms(1)] by (simp add: maker_score_def DEFAULT_ARBITER_def)
  moreover have "fsub (1 / 2) (lv_score llm) \<le> fsub (1 / 2) (91 / 100)" using assms(2) by (intro fsub_mono) auto
  moreover have "fsub (1 / 2) (91 / 100) < - fl (4 / 10)" by code_simp
  ultimately show False by linarith
qed

section \<open>Witnesses\<close>

definition demo_world :: world where
  "demo_world = \<lparr>w_sha256 = (\<lambda>s. s), w_seed = (\<lambda>s. int (length s)),
     w_backend = (\<lambda>p seed. Some (PDict [(''checker_score'', PNum (1 / 2)), (''confidence'', PNum (1 / 2)),
        (''components'', PDict []), (''accept'', PBool True)])),
     w_str_float = (\<lambda>_. None), w_epow = (\<lambda>_. 1)\<rparr>"

definition demo_cfg :: checker_config where
  "demo_cfg = \<lparr>cc_level = ''strict'', cc_calibration = None, cc_threshold = 1 / 4, cc_min_confidence = 0\<rparr>"

definition demo_results :: payload where
  "demo_results = [(''metrics'', PDict [(''sharpe'', PNum 1), (''trades_count'', PNum 40)])]"

theorem llm_verdict_total_witness:
  "\<exists>v. verify demo_world demo_cfg ''salt'' ''c1'' demo_results = Inr v \<and> lv_id v = ''c1''"
proof -
  have "checker_config_post_init demo_cfg = Inr demo_cfg" "results_ok demo_results"
    by (simp_all add: checker_config_post_init_def demo_cfg_def in_unit_def has_key_def STRIPPED_FIELDS_V1_def
        results_ok_def demo_results_def get_default_def)
  then show ?thesis using llm_verdict_total[of demo_cfg "''c1''" demo_results demo_world "''salt''"] by auto
qed

theorem strict_isolation_noninterference_witness:
  "verify demo_world demo_cfg ''salt'' ''c1'' ((''reasoning'', PStr ''trust me'') # demo_results @ [(''fingerprint'', PNum 7)])
     = verify demo_world demo_cfg ''salt'' ''c1'' demo_results"
  by (rule strict_isolation_noninterference)
    (simp_all add: demo_cfg_def maker_fields_def demo_results_def)

definition demo_m4 :: m4_verdict where
  "demo_m4 = \<lparr>cv_id = ''c1'', cv_decision = ''promising'', cv_confidence = 1 / 2, cv_flags = []\<rparr>"

definition demo_llm :: llm_verdict where
  "demo_llm = \<lparr>lv_id = ''c1'', lv_score = 3 / 4, lv_confidence = 1 / 2, lv_components = [], lv_flags = [],
     lv_accept = True, lv_feedback = [], lv_raw = 3 / 4\<rparr>"

theorem arbiter_decision_tree_witness:
  "\<exists>m. resolve DEFAULT_ARBITER demo_m4 demo_llm None = Inr m \<and> 0 \<le> mr_score m"
proof -
  have "arbiter_post_init DEFAULT_ARBITER = Inr DEFAULT_ARBITER" by code_simp
  moreover have "is_float (ac_maker_weight DEFAULT_ARBITER)" "is_float (ac_checker_weight DEFAULT_ARBITER)"
    by (simp_all add: DEFAULT_ARBITER_def)
  moreover have "verdict_post_init demo_llm = Inr demo_llm"
    by (simp add: verdict_post_init_Inr demo_llm_def in_unit_def MAX_FEEDBACK_LEN_def)
  ultimately show ?thesis
    using arbiter_decision_tree[of DEFAULT_ARBITER demo_m4 demo_llm None]
    by (auto simp: demo_m4_def maker_score_def in_unit_def)
qed

definition demo_candidate :: candidate_result where
  "demo_candidate = \<lparr>cr_id = ''c1'', cr_decision = ''accepted'',
     cr_metrics = \<lparr>m_trades = 40, m_by_regime = [], m_fitness = None\<rparr>,
     cr_payload = [(''sharpe'', PNum 1), (''trades_count'', PNum 40)], cr_fitness = None, cr_elapsed = 1\<rparr>"

lemma demo_accepted:
  "\<exists>score triggers flags. evaluate_candidate demo_world (Some (True, demo_cfg, DEFAULT_ARBITER, ''salt'')) demo_candidate None
     = Inr (Merged ''c1'' Accepted score triggers flags)"
proof -
  have low: "0 \<le> fl (4 / 10)" by (simp add: fl_nonneg)
  have cfg: "arbiter_post_init DEFAULT_ARBITER = Inr DEFAULT_ARBITER" by code_simp
  have f: "is_float (ac_maker_weight DEFAULT_ARBITER)" "is_float (ac_checker_weight DEFAULT_ARBITER)"
    by (simp_all add: DEFAULT_ARBITER_def)
  have half: "in_unit (1 / 2)" by (simp add: in_unit_def)
  have score: "0 \<le> s \<and> s \<le> 10"
    if "s = fadd (fmul (ac_maker_weight DEFAULT_ARBITER) (1 / 2)) (fmul (ac_checker_weight DEFAULT_ARBITER) (1 / 2))" for s
    using merge_score[OF cfg f half half] that by linarith
  define d where "d = [(''metrics'', PDict (cr_payload demo_candidate)), (''fitness'', PNone),
    (''decision'', PStr ''accepted''), (''elapsed_seconds'', PNum 1)]"
  have key: "has_key STRIPPED_FIELDS_V1 (cc_level demo_cfg)" "''c1'' \<noteq> ''''"
    by (simp_all add: demo_cfg_def has_key_def STRIPPED_FIELDS_V1_def)
  obtain out where out: "strip_maker_artifacts (w_sha256 demo_world)
      (AList.update ''candidate_id'' (PStr ''c1'') d) (cc_level demo_cfg) ''salt'' = Inr out"
    "map_of out ''metrics'' = map_of d ''metrics''"
    using strip_Inr[OF key] by blast
  have "results_ok d" by (simp add: d_def results_ok_def get_default_def demo_candidate_def)
  then obtain p where p: "build_prompt out = Inr p" using build_prompt_Inr out(2) by blast
  have v: "verify demo_world demo_cfg ''salt'' ''c1'' d
    = Inr \<lparr>lv_id = ''c1'', lv_score = 1 / 2, lv_confidence = 1 / 2, lv_components = [], lv_flags = [],
        lv_accept = True, lv_feedback = [], lv_raw = 1 / 2\<rparr>"
    unfolding verify_def out(1) ebind.simps p
    by (simp add: demo_cfg_def demo_world_def parse_verdict_def get_val_def get_default_def Let_def calibrated_score_def
        verdict_post_init_Inr[THEN iffD2] in_unit_def List.map_filter_def)
  have m4: "cv_decision (check_candidate demo_candidate None) = ''promising''"
    by (simp add: check_candidate_def m4_flags_Nil[THEN iffD2] demo_candidate_def flag_low_sample_def
        flag_regime_imbalance_def flag_bear_regime_sharpe_def flag_fitness_gain_def get_default_def Let_def)
  show ?thesis
    using v m4 score low half unfolding d_def
    by (simp add: evaluate_candidate_def evaluate_def Let_def resolve_def demo_candidate_def merge_post_init_Inr[THEN iffD2]
        DEFAULT_ARBITER_def)
qed

theorem accepted_needs_every_reviewer_witness:
  "cv_flags (check_candidate demo_candidate None) = []"
  using demo_accepted accepted_needs_every_reviewer by blast

theorem heuristic_verdict_exact_witness:
  "cv_decision (check_candidate demo_candidate None) = ''promising''"
  using heuristic_verdict_exact[of demo_candidate None]
  by (simp add: Let_def demo_candidate_def regime_counts_def inspected_regime_def get_default_def)

end
