(* ===== verification/Driver.thy ===== *)
theory Driver
  imports Search Pareto History MakerChecker
begin

text \<open>
  \<^verbatim>\<open>app/loop/worker.py\<close> and \<^verbatim>\<open>app/loop/driver.py\<close>: one candidate's run and one generation's
  bookkeeping. The backtest subprocess is an argument, the way it ended and the summary it left; the
  driver's results arrive in any order. The driver composes the journal (\<open>History\<close>), the checkers
  (\<open>MakerChecker\<close>) and the front (\<open>Pareto\<close>). \<open>PARETO.json\<close> and the other JSON files hold what
  was written to them. Metrics counters and log lines are not modelled.
\<close>

section \<open>One candidate\<close>

text \<open>The metrics of the summary; a summary without the group has \<open>None\<close>, the empty dict.\<close>

record run_metrics =
  rm_trades :: int
  rm_sharpe :: "rat option"
  rm_calmar :: "rat option"
  rm_profit_factor :: "rat option"
  rm_regimes :: "(string \<times> regime_blob) list"
  rm_other :: payload

record summary =
  su_metrics :: "run_metrics option"
  su_fitness :: "rat option"

text \<open>How the subprocess ended: at the timeout, or with its exit code and the summary found afterwards.\<close>

datatype harness_run = TimedOut | Exited int "summary option"

datatype worker_error = TimeoutError | ExitError int bool | WorkerRaised

record run_result =
  rr_id :: string
  rr_sha :: string
  rr_cluster :: string
  rr_gen :: int
  rr_decision :: string
  rr_reason :: "string option"
  rr_metrics :: "run_metrics option"
  rr_fitness :: "rat option"
  rr_dir :: string
  rr_elapsed :: rat
  rr_error :: "worker_error option"

definition trades_of :: "run_metrics option \<Rightarrow> int" where
  "trades_of m = (case m of None \<Rightarrow> 0 | Some x \<Rightarrow> rm_trades x)"

definition run_candidate :: "string \<Rightarrow> string \<Rightarrow> string \<Rightarrow> rat \<Rightarrow> harness_run \<Rightarrow> run_result" where
  "run_candidate cid sha dir elapsed h =
     (let base = \<lparr>rr_id = cid, rr_sha = sha, rr_cluster = ''?'', rr_gen = - 1, rr_decision = ''error'', rr_reason = None,
                  rr_metrics = None, rr_fitness = None, rr_dir = dir, rr_elapsed = elapsed, rr_error = None\<rparr>
      in case h of
           TimedOut \<Rightarrow> base\<lparr>rr_error := Some TimeoutError\<rparr>
         | Exited code None \<Rightarrow> base\<lparr>rr_error := Some (ExitError code False)\<rparr>
         | Exited code (Some s) \<Rightarrow>
             if code \<noteq> 0 then base\<lparr>rr_error := Some (ExitError code True)\<rparr>
             else let tc = trades_of (su_metrics s);
                      filled = base\<lparr>rr_metrics := su_metrics s, rr_fitness := su_fitness s\<rparr>
                  in if tc < 30
                     then filled\<lparr>rr_decision := ''rejected'', rr_reason := Some (''trades_count='' @ int_text tc @ '' < 30'')\<rparr>
                     else filled\<lparr>rr_decision := ''accepted''\<rparr>)"

text \<open>The dry run: synthetic metrics from the last hex digit of the hash.\<close>

definition nibble_of :: "string \<Rightarrow> int" where
  "nibble_of sha =
     (if sha = '''' then 8
      else case find (\<lambda>(c, _). c = last sha) (zip ''0123456789abcdef'' [0..15]) of Some (_, n) \<Rightarrow> n | None \<Rightarrow> 8)"

definition dry_run_result :: "string \<Rightarrow> string \<Rightarrow> string \<Rightarrow> rat \<Rightarrow> run_result" where
  "dry_run_result cid sha dir elapsed =
     (let nibble = nibble_of sha; x = rat_of_int nibble;
          fitness = fadd (1 / 2) (fmul (fdiv x 15) (3 / 2));
          trades = 30 + nibble;
          metrics = \<lparr>rm_trades = trades,
            rm_sharpe = Some (pyround (fadd (fl (2 / 10)) (fmul x (fl (5 / 100)))) 4),
            rm_calmar = Some (pyround (fadd (1 / 2) (fmul x (fl (1 / 10)))) 4),
            rm_profit_factor = Some (pyround (fadd (fl (12 / 10)) (fmul x (fl (5 / 100)))) 4),
            rm_regimes = [(''bull'', Blob (trades div 2) (Some (fl (3 / 10)))), (''bear'', Blob (trades div 3) (Some (fl (1 / 10)))),
                          (''range'', Blob (max 1 (trades div 6)) (Some 0))],
            rm_other = []\<rparr>
      in \<lparr>rr_id = cid, rr_sha = sha, rr_cluster = ''?'', rr_gen = - 1, rr_decision = ''accepted'', rr_reason = None,
          rr_metrics = Some metrics, rr_fitness = Some fitness, rr_dir = dir, rr_elapsed = elapsed, rr_error = None\<rparr>)"

section \<open>What the driver sees of a result\<close>

definition num_or_null :: "rat option \<Rightarrow> pyval" where
  "num_or_null x = (case x of None \<Rightarrow> PNone | Some v \<Rightarrow> PNum v)"

definition regime_payload :: "regime_blob \<Rightarrow> pyval" where
  "regime_payload b = (case b of EmptyBlob \<Rightarrow> PDict [] | Blob n s \<Rightarrow> PDict [(''n'', PNum (of_int n)), (''sharpe'', num_or_null s)])"

definition metrics_payload :: "run_metrics option \<Rightarrow> payload" where
  "metrics_payload m =
     (case m of None \<Rightarrow> []
      | Some x \<Rightarrow> [(''trades_count'', PNum (of_int (rm_trades x))), (''sharpe'', num_or_null (rm_sharpe x)),
                   (''calmar'', num_or_null (rm_calmar x)), (''profit_factor'', num_or_null (rm_profit_factor x)),
                   (''by_regime'', PDict (map (\<lambda>(k, b). (k, regime_payload b)) (rm_regimes x)))] @ rm_other x)"

definition as_candidate :: "run_result \<Rightarrow> candidate_result" where
  "as_candidate r =
     \<lparr>cr_id = rr_id r, cr_decision = rr_decision r,
      cr_metrics = \<lparr>m_trades = trades_of (rr_metrics r),
                    m_by_regime = (case rr_metrics r of None \<Rightarrow> [] | Some m \<Rightarrow> rm_regimes m), m_fitness = None\<rparr>,
      cr_payload = metrics_payload (rr_metrics r), cr_fitness = rr_fitness r, cr_elapsed = rr_elapsed r\<rparr>"

definition front_view :: "run_metrics option \<Rightarrow> front_metrics" where
  "front_view m =
     (case m of
        None \<Rightarrow> \<lparr>fm_sharpe = None, fm_calmar = None, fm_profit_factor = None, fm_by_regime = [], fm_trades = 0\<rparr>
      | Some x \<Rightarrow> \<lparr>fm_sharpe = rm_sharpe x, fm_calmar = rm_calmar x, fm_profit_factor = rm_profit_factor x,
                   fm_by_regime = map (\<lambda>(k, b). (k, \<lparr>bucket_n = blob_n b, bucket_sharpe = blob_sharpe b\<rparr>)) (rm_regimes x),
                   fm_trades = rm_trades x\<rparr>)"

definition fitness_or_0 :: "run_result \<Rightarrow> rat" where
  "fitness_or_0 r = (case rr_fitness r of None \<Rightarrow> 0 | Some f \<Rightarrow> f)"

section \<open>One generation\<close>

text \<open>
  A line of the journal, key by key (the candidate is kept by \<open>hist_rec\<close>). \<open>error\<close> and \<open>checker\<close> hold the value
  whose text the code writes; every other value is the one in the line, the metrics as the dict itself.
\<close>

record driver_line =
  dl_ts :: rat
  dl_gen :: int
  dl_cluster :: string
  dl_sha :: string
  dl_decision :: string
  dl_reason :: "string option"
  dl_fitness :: "rat option"
  dl_metrics :: payload
  dl_dir :: string
  dl_error :: "worker_error option"
  dl_checker :: outcome
  dl_version :: string

text \<open>\<open>de_stamp\<close> is the reading of the clock that a line carries; the second of a rotation is read later.\<close>

record driver_env =
  de_gen :: int
  de_cluster :: string
  de_line_bytes :: "driver_line hist_rec \<Rightarrow> nat"
  de_rotate :: nat
  de_stamp :: "run_result \<Rightarrow> rat"
  de_version :: string
  de_world :: world
  de_runner :: "(bool \<times> checker_config \<times> arbiter_config \<times> string) option"
  de_tuning_yaml :: "string \<Rightarrow> string option"

text \<open>The durable files. \<open>renames\<close> are the moves of rejected run directories, in order.\<close>

record loop_disk =
  journal :: "driver_line hist"
  pareto_file :: "ParetoPoint list"
  snapshots :: "(string \<times> string) list"
  pending_issues :: "string list"
  renames :: "(string \<times> string) list"
  state_md :: "(run_result option \<times> nat \<times> nat \<times> nat \<times> nat) option"

record gen_state =
  gs_disk :: loop_disk
  gs_front :: "ParetoPoint list"
  gs_accepted :: nat
  gs_rejected :: nat
  gs_errors :: nat
  gs_best :: "run_result option"

datatype driver_error = VerdictRaised mc_error | JournalRaised mutex_error | NoTuningYaml string

definition decision_text :: "final_decision \<Rightarrow> string" where
  "decision_text d = (case d of Accepted \<Rightarrow> ''accepted'' | Rejected \<Rightarrow> ''rejected'' | SuspiciousToHuman \<Rightarrow> ''suspicious_to_human'')"

definition verdict_decision :: "outcome \<Rightarrow> string" where
  "verdict_decision v = (case v of HeuristicOnly m \<Rightarrow> cv_decision m | Merged _ d _ _ _ \<Rightarrow> decision_text d)"

text \<open>A worker that raised becomes an error result; every result is stamped with the generation.\<close>

definition collect_result :: "driver_env \<Rightarrow> string \<times> run_result option \<Rightarrow> run_result" where
  "collect_result env x =
     (case x of (cid, fut) \<Rightarrow>
       (case fut of
          Some r \<Rightarrow> r
        | None \<Rightarrow> \<lparr>rr_id = cid, rr_sha = ''?'', rr_cluster = de_cluster env, rr_gen = de_gen env, rr_decision = ''error'',
                   rr_reason = None, rr_metrics = None, rr_fitness = None, rr_dir = '''', rr_elapsed = 0,
                   rr_error = Some WorkerRaised\<rparr>)
         \<lparr>rr_cluster := de_cluster env, rr_gen := de_gen env\<rparr>)"

definition verdict_of :: "driver_env \<Rightarrow> run_result \<Rightarrow> mc_error + outcome" where
  "verdict_of env r = evaluate_candidate (de_world env) (de_runner env) (as_candidate r) None"

definition journal_record :: "driver_env \<Rightarrow> run_result \<Rightarrow> outcome \<Rightarrow> driver_line hist_rec" where
  "journal_record env r v =
     \<lparr>rec_candidate = Some (rr_id r), rec_source = None,
      rec_body = \<lparr>dl_ts = de_stamp env r, dl_gen = de_gen env, dl_cluster = de_cluster env, dl_sha = rr_sha r,
        dl_decision = rr_decision r, dl_reason = rr_reason r, dl_fitness = rr_fitness r,
        dl_metrics = metrics_payload (rr_metrics r), dl_dir = rr_dir r, dl_error = rr_error r, dl_checker = v,
        dl_version = de_version env\<rparr>\<rparr>"

definition point_of :: "driver_env \<Rightarrow> run_result \<Rightarrow> ParetoPoint" where
  "point_of env r = from_metrics (front_view (rr_metrics r)) (rr_sha r) (de_gen env) (de_cluster env) (rr_dir r) (fitness_or_0 r)"

definition path_name :: "string \<Rightarrow> string" where
  "path_name p = last (split_on CHR ''/'' p)"

definition accept_result :: "driver_env \<Rightarrow> run_result \<Rightarrow> gen_state \<Rightarrow> driver_error \<times> loop_disk + gen_state" where
  "accept_result env r s =
     (let s1 = s\<lparr>gs_accepted := gs_accepted s + 1\<rparr>;
          point = point_of env r;
          (front1, moved) = pareto_add point (gs_front s1);
          s2 = s1\<lparr>gs_front := front1\<rparr>;
          best = (case gs_best s of None \<Rightarrow> Some r | Some b \<Rightarrow> if fitness_or_0 b < fitness_or_0 r then Some r else Some b)
      in if \<not> moved then Inr (s2\<lparr>gs_best := best\<rparr>)
         else case de_tuning_yaml env (rr_dir r) of
                None \<Rightarrow> Inl (NoTuningYaml (rr_dir r), gs_disk s)
              | Some payload \<Rightarrow>
                  Inr (s2\<lparr>gs_disk := (gs_disk s)\<lparr>snapshots := AList.update (rr_sha r) payload (snapshots (gs_disk s))\<rparr>,
                          gs_best := best\<rparr>))"

definition move_run :: "run_result \<Rightarrow> string \<Rightarrow> gen_state \<Rightarrow> gen_state" where
  "move_run r folder s =
     s\<lparr>gs_disk := (gs_disk s)\<lparr>renames := renames (gs_disk s) @ [(rr_dir r, ''REJECTED/'' @ folder @ ''/'' @ path_name (rr_dir r))]\<rparr>\<rparr>"

definition decide_result :: "driver_env \<Rightarrow> run_result \<Rightarrow> gen_state \<Rightarrow> driver_error \<times> loop_disk + gen_state" where
  "decide_result env r s =
     (if rr_decision r = ''accepted'' then accept_result env r s
      else if rr_decision r = ''rejected'' then
        let reason = (case rr_reason r of None \<Rightarrow> ''unknown'' | Some t \<Rightarrow> if t = '''' then ''unknown'' else t)
        in Inr (move_run r (replace_char CHR '' '' CHR ''_'' reason) (s\<lparr>gs_rejected := gs_rejected s + 1\<rparr>))
      else if rr_decision r = ''error'' then Inr (move_run r ''errors'' (s\<lparr>gs_errors := gs_errors s + 1\<rparr>))
      else Inr s)"

text \<open>The first component of an error is the exception that ends the run, the second the disk it leaves.\<close>

definition handle_result :: "driver_env \<Rightarrow> int \<Rightarrow> run_result \<Rightarrow> gen_state \<Rightarrow> driver_error \<times> loop_disk + gen_state" where
  "handle_result env now r s =
     (case verdict_of env r of
        Inl e \<Rightarrow> Inl (VerdictRaised e, gs_disk s)
      | Inr v \<Rightarrow>
          (case append_history (de_line_bytes env) (de_rotate env) now (journal_record env r v) (journal (gs_disk s)) of
             Inl e \<Rightarrow> Inl (JournalRaised e, gs_disk s)
           | Inr h \<Rightarrow>
               let d1 = (gs_disk s)\<lparr>journal := h\<rparr>;
                   d2 = (if verdict_decision v = ''suspicious_to_human''
                         then d1\<lparr>pending_issues := pending_issues d1 @ [rr_id r]\<rparr> else d1)
               in decide_result env r (s\<lparr>gs_disk := d2\<rparr>)))"

fun handle_results :: "driver_env \<Rightarrow> (int \<times> run_result) list \<Rightarrow> gen_state \<Rightarrow> driver_error \<times> loop_disk + gen_state" where
  "handle_results env [] s = Inr s"
| "handle_results env ((now, r) # rs) s = ebind (handle_result env now r s) (handle_results env rs)"

definition start_state :: "loop_disk \<Rightarrow> gen_state" where
  "start_state d = \<lparr>gs_disk = d, gs_front = pareto_file d, gs_accepted = 0, gs_rejected = 0, gs_errors = 0, gs_best = None\<rparr>"

definition finish :: "gen_state \<Rightarrow> loop_disk" where
  "finish s = (gs_disk s)\<lparr>pareto_file := gs_front s,
     state_md := Some (gs_best s, length (gs_front s), gs_accepted s, gs_rejected s, gs_errors s)\<rparr>"

text \<open>The futures in the order they complete, each with the second its journal line is written.\<close>

definition drive ::
    "driver_env \<Rightarrow> (int \<times> string \<times> run_result option) list \<Rightarrow> loop_disk \<Rightarrow> driver_error \<times> loop_disk + loop_disk" where
  "drive env futures d =
     ebind (handle_results env (map (\<lambda>(now, f). (now, collect_result env f)) futures) (start_state d)) (\<lambda>s. Inr (finish s))"

section \<open>The front can be rebuilt from the journal\<close>

lemma append_no_source:
  "rec_source r = None \<Longrightarrow> \<exists>h'. append_history lb rb now r h = Inr h'"
  by (auto simp: append_history_def mutex_check_def Let_def split: option.splits)

definition accepted_points :: "driver_env \<Rightarrow> (int \<times> run_result) list \<Rightarrow> ParetoPoint list" where
  "accepted_points env rs = map (point_of env \<circ> snd) (filter (\<lambda>(_, r). rr_decision r = ''accepted'') rs)"

lemma decide_result_frame:
  "decide_result env r s = Inr s' \<Longrightarrow> journal (gs_disk s') = journal (gs_disk s)
     \<and> gs_front s' = (if rr_decision r = ''accepted'' then fst (pareto_add (point_of env r) (gs_front s)) else gs_front s)"
  by (auto simp: decide_result_def accept_result_def move_run_def Let_def split: if_splits prod.splits option.splits)

lemma handle_result_frame:
  assumes "handle_result env now r s = Inr s'"
  shows "\<exists>v. verdict_of env r = Inr v
    \<and> append_history (de_line_bytes env) (de_rotate env) now (journal_record env r v) (journal (gs_disk s)) = Inr (journal (gs_disk s'))
    \<and> gs_front s' = (if rr_decision r = ''accepted'' then fst (pareto_add (point_of env r) (gs_front s)) else gs_front s)"
  using assms decide_result_frame[of env r _ s']
  by (fastforce simp: handle_result_def Let_def split: sum.splits if_splits)

text \<open>
  The reader of the journal: the Pareto point of an accepted line, from the line alone. The metrics are
  looked up in the dict by their names, with the defaults of \<open>from_metrics\<close> for a missing key.
\<close>

definition read_int :: "pyval \<Rightarrow> int" where
  "read_int v = (case num_of v of None \<Rightarrow> 0 | Some x \<Rightarrow> \<lfloor>x\<rfloor>)"

fun read_dict :: "pyval \<Rightarrow> payload" where
  "read_dict (PDict d) = d"
| "read_dict v = []"

definition read_metrics :: "payload \<Rightarrow> front_metrics" where
  "read_metrics d =
     \<lparr>fm_sharpe = num_of (get_val d ''sharpe''), fm_calmar = num_of (get_val d ''calmar''),
      fm_profit_factor = num_of (get_val d ''profit_factor''),
      fm_by_regime = map (\<lambda>(k, b). (k, \<lparr>bucket_n = read_int (get_val (read_dict b) ''n''),
          bucket_sharpe = num_of (get_val (read_dict b) ''sharpe'')\<rparr>)) (read_dict (get_val d ''by_regime'')),
      fm_trades = read_int (get_val d ''trades_count'')\<rparr>"

definition line_point :: "driver_line \<Rightarrow> ParetoPoint option" where
  "line_point l =
     (if dl_decision l = ''accepted''
      then Some (from_metrics (read_metrics (dl_metrics l)) (dl_sha l) (dl_gen l) (dl_cluster l) (dl_dir l)
             (case dl_fitness l of None \<Rightarrow> 0 | Some f \<Rightarrow> f))
      else None)"

lemma num_of_num_or_null [simp]: "num_of (num_or_null x) = x"
  by (simp add: num_or_null_def split: option.split)

lemma read_regime: "bucket_n b = n \<Longrightarrow> bucket_sharpe b = x \<Longrightarrow> b = \<lparr>bucket_n = n, bucket_sharpe = x\<rparr>"
  by simp

lemma read_regime_payload:
  "read_int (get_val (read_dict (regime_payload b)) ''n'') = blob_n b"
  "num_of (get_val (read_dict (regime_payload b)) ''sharpe'') = blob_sharpe b"
  by (cases b; simp add: regime_payload_def get_val_def get_default_def read_int_def)+

lemma read_metrics_payload: "read_metrics (metrics_payload m) = front_view m"
proof (cases m)
  case None
  then show ?thesis
    by (simp add: read_metrics_def metrics_payload_def front_view_def get_val_def get_default_def read_int_def)
next
  case (Some x)
  have "map (\<lambda>(k, b). (k, \<lparr>bucket_n = read_int (get_val (read_dict b) ''n''),
      bucket_sharpe = num_of (get_val (read_dict b) ''sharpe'')\<rparr>)) (map (\<lambda>(k, b). (k, regime_payload b)) rs)
    = map (\<lambda>(k, b). (k, \<lparr>bucket_n = blob_n b, bucket_sharpe = blob_sharpe b\<rparr>)) rs" for rs
    by (simp add: split_def comp_def read_regime_payload)
  then show ?thesis using Some
    by (simp add: read_metrics_def metrics_payload_def front_view_def get_val_def get_default_def read_int_def)
qed

text \<open>The line that is written reads back as the point that is offered.\<close>

lemma line_reads_back:
  "line_point (rec_body (journal_record env r v)) = (if rr_decision r = ''accepted'' then Some (point_of env r) else None)"
  by (simp add: line_point_def journal_record_def point_of_def read_metrics_payload fitness_or_0_def)

definition rebuild :: "driver_line hist_rec list \<Rightarrow> ParetoPoint list" where
  "rebuild ls = offer_all [] (List.map_filter (line_point \<circ> rec_body) ls)"

lemma rebuild_snoc:
  "rebuild (ls @ [l]) = (case line_point (rec_body l) of None \<Rightarrow> rebuild ls | Some p \<Rightarrow> fst (pareto_add p (rebuild ls)))"
  by (auto simp: rebuild_def List.map_filter_def offer_all_snoc split: option.splits)

text \<open>The seconds of the rotations: an append rotated when it left no live file.\<close>

fun result_rotations :: "driver_env \<Rightarrow> (int \<times> run_result) list \<Rightarrow> gen_state \<Rightarrow> int list" where
  "result_rotations env [] s = []"
| "result_rotations env ((now, r) # rs) s =
     (case handle_result env now r s of
        Inl e \<Rightarrow> []
      | Inr s' \<Rightarrow> (if live (journal (gs_disk s')) = None then [now] else []) @ result_rotations env rs s')"

definition archive_keys :: "loop_disk \<Rightarrow> int set" where
  "archive_keys d = fst ` set (archives (journal d))"

definition chronological :: "loop_disk \<Rightarrow> int list \<Rightarrow> int list \<Rightarrow> bool" where
  "chronological d secs rots \<longleftrightarrow> sorted secs \<and> distinct rots \<and> sorted_wrt (<) (map fst (archives (journal d)))
     \<and> (\<forall>k \<in> archive_keys d. \<forall>t \<in> set secs. k \<le> t) \<and> set rots \<inter> archive_keys d = {}"

lemma handle_result_rebuild:
  assumes run: "handle_result env now r s = Inr s1"
    and chr: "chronological (gs_disk s) (now # secs) ((if live (journal (gs_disk s1)) = None then [now] else []) @ rots)"
    and fr: "gs_front s = rebuild (replay_from_history (journal (gs_disk s)))"
  shows "gs_front s1 = rebuild (replay_from_history (journal (gs_disk s1))) \<and> chronological (gs_disk s1) secs rots
    \<and> archive_keys (gs_disk s1) = archive_keys (gs_disk s) \<union> (if live (journal (gs_disk s1)) = None then {now} else {})"
proof -
  obtain v where v: "append_history (de_line_bytes env) (de_rotate env) now (journal_record env r v) (journal (gs_disk s)) = Inr (journal (gs_disk s1))"
    and fr1: "gs_front s1 = (if rr_decision r = ''accepted'' then fst (pareto_add (point_of env r) (gs_front s)) else gs_front s)"
    using handle_result_frame[OF run] by blast
  have old: "live (journal (gs_disk s1)) = None \<longrightarrow> (\<forall>k \<in> fst ` set (archives (journal (gs_disk s))). k < now)"
  proof (intro impI ballI)
    fix k assume gone: "live (journal (gs_disk s1)) = None" and k: "k \<in> fst ` set (archives (journal (gs_disk s)))"
    have "\<forall>k \<in> archive_keys (gs_disk s). \<forall>t \<in> set (now # secs). k \<le> t" using chr unfolding chronological_def by blast
    then have "k \<le> now" using k by (auto simp: archive_keys_def)
    moreover have "set ([now] @ rots) \<inter> archive_keys (gs_disk s) = {}" using chr gone unfolding chronological_def by simp
    then have "now \<notin> fst ` set (archives (journal (gs_disk s)))" unfolding archive_keys_def by auto
    ultimately show "k < now" using k by (cases "k = now") auto
  qed
  have so: "sorted_wrt (<) (map fst (archives (journal (gs_disk s))))" using chr by (simp add: chronological_def)
  note app = append_history_replay[OF v so old]
  have keys: "archive_keys (gs_disk s1) = archive_keys (gs_disk s) \<union> (if live (journal (gs_disk s1)) = None then {now} else {})"
    and rep: "replay_from_history (journal (gs_disk s1)) = replay_from_history (journal (gs_disk s)) @ [journal_record env r v]"
    using app by (simp_all add: archive_keys_def)
  have "chronological (gs_disk s1) secs rots"
  proof (cases "live (journal (gs_disk s1)) = None")
    case True
    show ?thesis using chr[unfolded if_P[OF True]] app keys[unfolded if_P[OF True]]
      by (auto simp: chronological_def)
  next
    case False
    show ?thesis using chr[unfolded if_not_P[OF False]] app keys[unfolded if_not_P[OF False]]
      by (simp add: chronological_def)
  qed
  moreover have "gs_front s1 = rebuild (replay_from_history (journal (gs_disk s1)))"
    unfolding rep rebuild_snoc line_reads_back fr1 fr by simp
  ultimately show ?thesis using keys by blast
qed

lemma handle_results_rebuild:
  "handle_results env rs s = Inr s' \<Longrightarrow> chronological (gs_disk s) (map fst rs @ secs) (result_rotations env rs s @ rots) \<Longrightarrow>
     gs_front s = rebuild (replay_from_history (journal (gs_disk s))) \<Longrightarrow>
     gs_front s' = rebuild (replay_from_history (journal (gs_disk s'))) \<and> chronological (gs_disk s') secs rots"
proof (induction rs arbitrary: s)
  case (Cons x rs)
  obtain now r where x: "x = (now, r)" by (cases x)
  obtain s1 where s1: "handle_result env now r s = Inr s1" "handle_results env rs s1 = Inr s'"
    using Cons.prems(1) by (auto simp: x)
  have "chronological (gs_disk s) (now # map fst rs @ secs)
      ((if live (journal (gs_disk s1)) = None then [now] else []) @ result_rotations env rs s1 @ rots)"
    using Cons.prems(2) by (simp add: x s1(1))
  from handle_result_rebuild[OF s1(1) this Cons.prems(3)] show ?case using Cons.IH[OF s1(2)] by blast
qed simp

definition results_of :: "driver_env \<Rightarrow> (int \<times> string \<times> run_result option) list \<Rightarrow> (int \<times> run_result) list" where
  "results_of env futures = map (\<lambda>(now, f). (now, collect_result env f)) futures"

lemma drive_results: "drive env fs d = ebind (handle_results env (results_of env fs) (start_state d)) (\<lambda>s. Inr (finish s))"
  by (simp add: drive_def results_of_def)

lemma results_times [simp]: "map fst (results_of env fs) = map fst fs"
  by (simp add: results_of_def split_def comp_def)

text \<open>Generations run one after the other on the same state root, each on the files the last one left.\<close>

fun drive_all ::
    "(driver_env \<times> (int \<times> string \<times> run_result option) list) list \<Rightarrow> loop_disk \<Rightarrow> driver_error \<times> loop_disk + loop_disk" where
  "drive_all [] d = Inr d"
| "drive_all ((env, fs) # gens) d = ebind (drive env fs d) (drive_all gens)"

definition empty_disk :: loop_disk where
  "empty_disk = \<lparr>journal = empty_hist, pareto_file = [], snapshots = [], pending_issues = [], renames = [], state_md = None\<rparr>"

lemma finish_simps [simp]:
  "journal (finish s) = journal (gs_disk s)" "pareto_file (finish s) = gs_front s"
  "chronological (finish s) = chronological (gs_disk s)"
  by (simp_all add: finish_def chronological_def archive_keys_def fun_eq_iff)

lemma start_simps [simp]: "gs_disk (start_state d) = d" "gs_front (start_state d) = pareto_file d"
  by (simp_all add: start_state_def)

fun all_rotations :: "(driver_env \<times> (int \<times> string \<times> run_result option) list) list \<Rightarrow> loop_disk \<Rightarrow> int list" where
  "all_rotations [] d = []"
| "all_rotations ((env, fs) # gens) d =
     result_rotations env (results_of env fs) (start_state d)
       @ (case drive env fs d of Inl e \<Rightarrow> [] | Inr d' \<Rightarrow> all_rotations gens d')"

lemma drive_all_rebuild:
  "drive_all gens d = Inr d' \<Longrightarrow> chronological d (concat (map (\<lambda>(env, fs). map fst fs) gens)) (all_rotations gens d) \<Longrightarrow>
     pareto_file d = rebuild (replay_from_history (journal d)) \<Longrightarrow>
     pareto_file d' = rebuild (replay_from_history (journal d'))"
proof (induction gens arbitrary: d)
  case (Cons x gens)
  obtain env fs where x: "x = (env, fs)" by (cases x)
  obtain s where s: "handle_results env (results_of env fs) (start_state d) = Inr s" "drive_all gens (finish s) = Inr d'"
    using Cons.prems(1) by (auto simp: x drive_results)
  have "drive env fs d = Inr (finish s)" by (simp add: drive_results s(1))
  then have chr: "chronological (gs_disk (start_state d))
      (map fst (results_of env fs) @ concat (map (\<lambda>(env, fs). map fst fs) gens))
      (result_rotations env (results_of env fs) (start_state d) @ all_rotations gens (finish s))"
    using Cons.prems(2) by (simp add: x)
  have fr: "gs_front (start_state d) = rebuild (replay_from_history (journal (gs_disk (start_state d))))"
    using Cons.prems(3) by simp
  from handle_results_rebuild[OF s(1) chr fr] show ?case
    by (intro Cons.IH[OF s(2)]) simp_all
qed simp

text \<open>
  C19: The journal is the source of truth. After any sequence of completed generations on a fresh state root,
  with any checkers, any rotations and results in any order, \<open>PARETO.json\<close> is exactly the front obtained by
  replaying the journal, reading a point back out of each accepted line alone (its fields and its metrics
  dict) and offering those points in order. The clock may show one second for any number of lines, but it does
  not run back and no two rotations of the journal fall in one second (the second would overwrite the
  archive of the first).
\<close>

theorem front_rebuilt_from_journal:
  assumes "drive_all gens empty_disk = Inr d" "sorted (concat (map (\<lambda>(env, fs). map fst fs) gens))"
    and "distinct (all_rotations gens empty_disk)"
  shows "pareto_file d = rebuild (replay_from_history (journal d))"
proof (rule drive_all_rebuild[OF assms(1)])
  show "chronological empty_disk (concat (map (\<lambda>(env, fs). map fst fs) gens)) (all_rotations gens empty_disk)"
    using assms(2,3) by (simp add: chronological_def archive_keys_def empty_disk_def)
  show "pareto_file empty_disk = rebuild (replay_from_history (journal empty_disk))"
    by (simp add: empty_disk_def replay_from_history_def rebuild_def offer_all_def List.map_filter_def)
qed

section \<open>The verdict does not decide\<close>

definition same_outcome :: "gen_state \<Rightarrow> gen_state \<Rightarrow> bool" where
  "same_outcome s u \<longleftrightarrow> gs_front s = gs_front u \<and> gs_accepted s = gs_accepted u \<and> gs_rejected s = gs_rejected u
     \<and> gs_errors s = gs_errors u \<and> gs_best s = gs_best u
     \<and> snapshots (gs_disk s) = snapshots (gs_disk u) \<and> renames (gs_disk s) = renames (gs_disk u)"

definition judged_by :: "world \<Rightarrow> (bool \<times> checker_config \<times> arbiter_config \<times> string) option \<Rightarrow> driver_env \<Rightarrow> driver_env" where
  "judged_by w runner env = env\<lparr>de_world := w, de_runner := runner\<rparr>"

lemma judged_simps [simp]:
  "de_gen (judged_by w x env) = de_gen env" "de_cluster (judged_by w x env) = de_cluster env"
  "de_tuning_yaml (judged_by w x env) = de_tuning_yaml env" "point_of (judged_by w x env) = point_of env"
  "de_line_bytes (judged_by w x env) = de_line_bytes env" "de_rotate (judged_by w x env) = de_rotate env"
  "journal_record (judged_by w x env) = journal_record env"
  "collect_result (judged_by w x env) = collect_result env" "results_of (judged_by w x env) = results_of env"
  by (auto simp: judged_by_def point_of_def collect_result_def results_of_def fun_eq_iff journal_record_def
      split: option.splits)

lemma judged_decide [simp]: "decide_result (judged_by w x env) r s = decide_result env r s"
  unfolding decide_result_def accept_result_def judged_simps ..

lemma decide_same:
  "decide_result env r s = Inr s' \<Longrightarrow> decide_result env r u = Inr u' \<Longrightarrow> same_outcome s u \<Longrightarrow> same_outcome s' u'"
  by (auto simp: decide_result_def accept_result_def move_run_def same_outcome_def Let_def
      split: if_splits option.splits prod.splits)

lemma handle_decide:
  "handle_result env now r s = Inr s' \<Longrightarrow> \<exists>d. decide_result env r (s\<lparr>gs_disk := d\<rparr>) = Inr s'
     \<and> snapshots d = snapshots (gs_disk s) \<and> renames d = renames (gs_disk s)"
  by (fastforce simp: handle_result_def Let_def split: sum.splits if_splits)

lemma handle_results_same:
  "handle_results env rs s = Inr s' \<Longrightarrow> handle_results (judged_by w x env) rs u = Inr u' \<Longrightarrow> same_outcome s u \<Longrightarrow> same_outcome s' u'"
proof (induction rs arbitrary: s u)
  case (Cons a rs)
  obtain now r where a: "a = (now, r)" by (cases a)
  obtain s1 where s1: "handle_result env now r s = Inr s1" "handle_results env rs s1 = Inr s'"
    using Cons.prems(1) by (auto simp: a)
  obtain u1 where u1: "handle_result (judged_by w x env) now r u = Inr u1" "handle_results (judged_by w x env) rs u1 = Inr u'"
    using Cons.prems(2) by (auto simp: a)
  obtain d where d: "decide_result env r (s\<lparr>gs_disk := d\<rparr>) = Inr s1"
      "snapshots d = snapshots (gs_disk s)" "renames d = renames (gs_disk s)"
    using handle_decide[OF s1(1)] by blast
  obtain e where e: "decide_result (judged_by w x env) r (u\<lparr>gs_disk := e\<rparr>) = Inr u1"
      "snapshots e = snapshots (gs_disk u)" "renames e = renames (gs_disk u)"
    using handle_decide[OF u1(1)] by blast
  have "same_outcome (s\<lparr>gs_disk := d\<rparr>) (u\<lparr>gs_disk := e\<rparr>)" using Cons.prems(3) d e by (simp add: same_outcome_def)
  then have "same_outcome s1 u1" using decide_same[OF d(1) e(1)[unfolded judged_decide]] by blast
  then show ?case using Cons.IH[OF s1(2) u1(2)] by blast
qed simp

text \<open>
  The second opinion is only logged. Whatever model judges and however the Maker-Checker loop is
  configured, on or off, two completed runs over the same results end with the same front, the same
  snapshots, the same moved directories and the same summary: a verdict never keeps a candidate out of
  the front, nor puts one in.
\<close>

theorem verdict_never_decides:
  assumes "drive env fs d = Inr d1" "drive (judged_by w runner env) fs d = Inr d2"
  shows "pareto_file d2 = pareto_file d1 \<and> snapshots d2 = snapshots d1 \<and> renames d2 = renames d1 \<and> state_md d2 = state_md d1"
proof -
  obtain s where s: "handle_results env (results_of env fs) (start_state d) = Inr s" "d1 = finish s"
    using assms(1) by (auto simp: drive_results)
  obtain u where u: "handle_results (judged_by w runner env) (results_of env fs) (start_state d) = Inr u" "d2 = finish u"
    using assms(2) by (auto simp: drive_results)
  have "same_outcome s u" by (rule handle_results_same[OF s(1) u(1)]) (simp add: same_outcome_def)
  then show ?thesis by (simp add: s u same_outcome_def finish_def)
qed

section \<open>A candidate without a Sharpe ratio\<close>

lemma null_sharpe_verdict:
  assumes "de_runner env = Some (True, ccfg, acfg, salt)" "has_key STRIPPED_FIELDS_V1 (cc_level ccfg)"
    and "rr_metrics r = Some m" "rm_sharpe m = None" "rr_id r \<noteq> ''''"
  shows "verdict_of env r = Inl PromptFormat"
proof -
  define c where "c = as_candidate r"
  define d where "d = [(''metrics'', PDict (cr_payload c)),
     (''fitness'', case cr_fitness c of None \<Rightarrow> PNone | Some f \<Rightarrow> PNum f),
     (''decision'', PStr (cr_decision c)), (''elapsed_seconds'', PNum (cr_elapsed c))]"
  have id: "cr_id c \<noteq> ''''" using assms(5) by (simp add: c_def as_candidate_def)
  obtain out where out: "strip_maker_artifacts (w_sha256 (de_world env)) (AList.update ''candidate_id'' (PStr (cr_id c)) d)
      (cc_level ccfg) salt = Inr out" "map_of out ''metrics'' = map_of d ''metrics''"
    using strip_Inr[OF assms(2) id] by blast
  have "get_default (cr_payload c) ''sharpe'' (PNum 0) = PNone"
    using assms(3,4) by (simp add: c_def as_candidate_def metrics_payload_def get_default_def num_or_null_def)
  then have "build_prompt out = Inl PromptFormat"
    using out(2) by (simp add: build_prompt_def get_default_def d_def)
  then have "verify (de_world env) ccfg salt (cr_id c) d = Inl PromptFormat" using out(1) by (simp add: verify_def)
  then show ?thesis
    using assms(1) by (simp add: verdict_of_def evaluate_candidate_def evaluate_def Let_def c_def d_def)
qed

lemma handle_results_append:
  "handle_results env (xs @ ys) s = ebind (handle_results env xs s) (handle_results env ys)"
proof (induction xs arbitrary: s)
  case (Cons x xs)
  then show ?case by (cases x; cases "handle_result env (fst x) (snd x) s") auto
qed simp

lemma handle_keeps_files:
  "handle_result env now r s = Inr s' \<Longrightarrow> pareto_file (gs_disk s') = pareto_file (gs_disk s) \<and> state_md (gs_disk s') = state_md (gs_disk s)"
  by (auto simp: handle_result_def decide_result_def accept_result_def move_run_def Let_def
      split: sum.splits if_splits option.splits prod.splits)

lemma handle_results_keep_files:
  "handle_results env rs s = Inr s' \<Longrightarrow> pareto_file (gs_disk s') = pareto_file (gs_disk s) \<and> state_md (gs_disk s') = state_md (gs_disk s)"
proof (induction rs arbitrary: s)
  case (Cons x rs)
  then show ?case using handle_keeps_files by (cases x) fastforce
qed simp

text \<open>
  A candidate with no trades aborts a judged generation. With the Maker-Checker runner enabled, the first
  result whose Sharpe ratio is null (what the backtest writes for an empty group) raises in the prompt
  formatting, whatever came before and after it: the run ends there, with the journal lines of the
  earlier results written but \<open>PARETO.json\<close> and \<open>STATE.md\<close> as they were, so their accepted candidates are
  journalled and missing from the front.
\<close>

theorem null_sharpe_aborts_generation:
  assumes runner: "de_runner env = Some (True, ccfg, acfg, salt)" "has_key STRIPPED_FIELDS_V1 (cc_level ccfg)"
    and before: "handle_results env (results_of env pre) (start_state d) = Inr s"
    and null: "rr_metrics r = Some m" "rm_sharpe m = None" "rr_id r \<noteq> ''''"
  shows "drive env (pre @ (now, cid, Some r) # post) d = Inl (VerdictRaised PromptFormat, gs_disk s)
    \<and> pareto_file (gs_disk s) = pareto_file d \<and> state_md (gs_disk s) = state_md d"
proof -
  have "verdict_of env (collect_result env (cid, Some r)) = Inl PromptFormat"
    by (rule null_sharpe_verdict[OF runner]) (use null in \<open>simp_all add: collect_result_def\<close>)
  then have "handle_result env now (collect_result env (cid, Some r)) s = Inl (VerdictRaised PromptFormat, gs_disk s)"
    by (simp add: handle_result_def)
  then have "drive env (pre @ (now, cid, Some r) # post) d = Inl (VerdictRaised PromptFormat, gs_disk s)"
    using before by (simp add: drive_results results_of_def handle_results_append)
  then show ?thesis using handle_results_keep_files[OF before] by (simp add: start_state_def)
qed

section \<open>Witnesses\<close>

definition demo_env :: driver_env where
  "demo_env = \<lparr>de_gen = 1, de_cluster = ''C5 Windows'', de_line_bytes = (\<lambda>_. 100), de_rotate = 200,
     de_stamp = (\<lambda>_. 1), de_version = ''v3'', de_world = demo_world, de_runner = None, de_tuning_yaml = (\<lambda>_. Some ''yaml'')\<rparr>"

definition demo_metrics :: "int \<Rightarrow> rat option \<Rightarrow> run_metrics" where
  "demo_metrics n s = \<lparr>rm_trades = n, rm_sharpe = s, rm_calmar = None, rm_profit_factor = None, rm_regimes = [], rm_other = []\<rparr>"

definition demo_run :: "string \<Rightarrow> int \<Rightarrow> rat option \<Rightarrow> run_result" where
  "demo_run dir n s = run_candidate ''c'' dir dir 1 (Exited 0 (Some \<lparr>su_metrics = Some (demo_metrics n s), su_fitness = Some 1\<rparr>))"

definition demo_futures :: "(int \<times> string \<times> run_result option) list" where
  "demo_futures = [(1, ''c'', Some (demo_run ''a'' 40 (Some 1))), (1, ''d'', None), (2, ''e'', Some (demo_run ''b'' 50 (Some 2)))]"

lemma demo_verdict: "verdict_of demo_env r = Inr (HeuristicOnly (check_candidate (as_candidate r) None))"
  by (simp add: verdict_of_def evaluate_candidate_def demo_env_def)

lemma demo_drives: "\<exists>d. drive demo_env demo_futures empty_disk = Inr d"
proof -
  have step: "\<exists>s'. handle_result demo_env now r s = Inr s'" for now r s
  proof -
    let ?l = "journal_record demo_env r (HeuristicOnly (check_candidate (as_candidate r) None))"
    have "rec_source ?l = None" by (simp add: journal_record_def)
    then obtain h where "append_history (de_line_bytes demo_env) (de_rotate demo_env) now ?l (journal (gs_disk s)) = Inr h"
      using append_no_source by blast
    moreover have "\<exists>s'. decide_result demo_env r u = Inr s'" for u
      by (auto simp: decide_result_def accept_result_def demo_env_def Let_def split: prod.splits)
    ultimately show ?thesis by (simp add: handle_result_def demo_verdict Let_def)
  qed
  have "\<exists>s'. handle_results demo_env rs s = Inr s'" for rs s
  proof (induction rs arbitrary: s)
    case (Cons x rs)
    obtain s1 where "handle_result demo_env (fst x) (snd x) s = Inr s1" using step by blast
    then show ?case using Cons.IH[of s1] by (cases x) auto
  qed simp
  then show ?thesis by (fastforce simp: drive_results)
qed

text \<open>Two lines in the first second, the second of which rotates, and one in the next.\<close>

lemma demo_step:
  assumes "handle_result demo_env now r s = Inr s'"
  shows "live_lines (journal (gs_disk s)) = [] \<Longrightarrow>
      live (journal (gs_disk s')) \<noteq> None \<and> length (live_lines (journal (gs_disk s'))) = 1"
    and "length (live_lines (journal (gs_disk s))) = 1 \<Longrightarrow>
      live (journal (gs_disk s')) = None \<and> live_lines (journal (gs_disk s')) = []"
proof -
  obtain v where v: "append_history (\<lambda>_. 100) 200 now (journal_record demo_env r v) (journal (gs_disk s)) = Inr (journal (gs_disk s'))"
    using handle_result_frame[OF assms] by (auto simp: demo_env_def)
  have b: "file_bytes (\<lambda>_. 100) (ls :: driver_line hist_rec list) = 100 * length ls" for ls by (induction ls) (simp_all add: file_bytes_def)
  show "live_lines (journal (gs_disk s)) = [] \<Longrightarrow>
      live (journal (gs_disk s')) \<noteq> None \<and> length (live_lines (journal (gs_disk s'))) = 1"
    and "length (live_lines (journal (gs_disk s))) = 1 \<Longrightarrow>
      live (journal (gs_disk s')) = None \<and> live_lines (journal (gs_disk s')) = []"
    using v by (auto simp: append_history_def b Let_def split: option.splits if_splits dest!: sym[of _ "journal (gs_disk s')"])
qed

lemma demo_rotations: "drive demo_env demo_futures empty_disk = Inr d \<Longrightarrow> all_rotations [(demo_env, demo_futures)] empty_disk = [1]"
proof -
  assume "drive demo_env demo_futures empty_disk = Inr d"
  then obtain s1 s2 s3 r1 r2 r3 where st: "handle_result demo_env 1 r1 (start_state empty_disk) = Inr s1"
      "handle_result demo_env 1 r2 s1 = Inr s2" "handle_result demo_env 2 r3 s2 = Inr s3"
      and rs: "results_of demo_env demo_futures = [(1, r1), (1, r2), (2, r3)]"
    by (auto simp: drive_results results_of_def demo_futures_def)
  have 0: "live_lines (journal (gs_disk (start_state empty_disk))) = []" by (simp add: start_state_def empty_disk_def)
  note 1 = demo_step(1)[OF st(1) 0]
  note 2 = demo_step(2)[OF st(2)] 
  have 2: "live (journal (gs_disk s2)) = None" "live_lines (journal (gs_disk s2)) = []" using 1 2 by simp_all
  note 3 = demo_step(1)[OF st(3) 2(2)]
  have "result_rotations demo_env (results_of demo_env demo_futures) (start_state empty_disk) = [1]"
    unfolding rs using st 1 2 3 by simp
  then show ?thesis by (simp split: sum.split)
qed

theorem front_rebuilt_from_journal_witness:
  "\<exists>d. drive demo_env demo_futures empty_disk = Inr d
     \<and> pareto_file d = rebuild (replay_from_history (journal d))"
proof -
  obtain d where d: "drive demo_env demo_futures empty_disk = Inr d" using demo_drives by blast
  then have all: "drive_all [(demo_env, demo_futures)] empty_disk = Inr d" by simp
  have "sorted (concat (map (\<lambda>(env, fs). map fst fs) [(demo_env, demo_futures)]))" by (simp add: demo_futures_def)
  then show ?thesis using front_rebuilt_from_journal[OF all] demo_rotations[OF d] d by simp
qed

theorem verdict_never_decides_witness:
  "\<exists>d. drive (judged_by demo_world (Some (False, demo_cfg, DEFAULT_ARBITER, ''salt'')) demo_env) demo_futures empty_disk = Inr d
     \<and> drive demo_env demo_futures empty_disk = Inr d"
proof -
  obtain d where d: "drive demo_env demo_futures empty_disk = Inr d" using demo_drives by blast
  have "handle_results (judged_by demo_world (Some (False, demo_cfg, DEFAULT_ARBITER, ''salt'')) demo_env) rs s
      = handle_results demo_env rs s" for rs s
  proof (induction rs arbitrary: s)
    case (Cons x rs)
    have v: "verdict_of (judged_by demo_world (Some (False, demo_cfg, DEFAULT_ARBITER, ''salt'')) demo_env) r
        = verdict_of demo_env r" for r
      unfolding demo_verdict by (simp add: verdict_of_def evaluate_candidate_def judged_by_def)
    have "handle_result (judged_by demo_world (Some (False, demo_cfg, DEFAULT_ARBITER, ''salt'')) demo_env) now r u
        = handle_result demo_env now r u" for now r u
      unfolding handle_result_def judged_simps judged_decide v ..
    moreover have "handle_results (judged_by demo_world (Some (False, demo_cfg, DEFAULT_ARBITER, ''salt'')) demo_env) rs
        = handle_results demo_env rs" using Cons.IH by (simp add: fun_eq_iff)
    ultimately show ?case by (cases x) simp
  qed simp
  then have e: "drive (judged_by demo_world (Some (False, demo_cfg, DEFAULT_ARBITER, ''salt'')) demo_env) demo_futures empty_disk = Inr d"
    using d by (simp add: drive_results)
  have "pareto_file d = pareto_file d" using verdict_never_decides[OF d e] by simp
  then show ?thesis using d e by blast
qed

theorem null_sharpe_aborts_generation_witness:
  "drive (judged_by demo_world (Some (True, demo_cfg, DEFAULT_ARBITER, ''salt'')) demo_env)
     [(1, ''c'', Some (demo_run ''a'' 0 None))] empty_disk = Inl (VerdictRaised PromptFormat, empty_disk)"
proof -
  let ?env = "judged_by demo_world (Some (True, demo_cfg, DEFAULT_ARBITER, ''salt'')) demo_env"
  have "handle_results ?env (results_of ?env []) (start_state empty_disk) = Inr (start_state empty_disk)"
    by (simp add: results_of_def)
  from null_sharpe_aborts_generation[OF _ _ this, of demo_cfg DEFAULT_ARBITER "''salt''" "demo_run ''a'' 0 None" "demo_metrics 0 None" 1 "''c''" "[]"]
  show ?thesis
    by (simp add: judged_by_def demo_cfg_def has_key_def STRIPPED_FIELDS_V1_def demo_run_def run_candidate_def trades_of_def
        demo_metrics_def start_state_def)
qed

section \<open>The worker's decision\<close>

lemma run_candidate_accepted:
  "rr_decision (run_candidate cid sha dir el h) = ''accepted'' \<longleftrightarrow>
     (\<exists>s. h = Exited 0 (Some s) \<and> 30 \<le> trades_of (su_metrics s))"
  by (auto simp: run_candidate_def Let_def split: harness_run.splits option.splits)

lemma run_candidate_total:
  "rr_decision (run_candidate cid sha dir el h) \<in> {''accepted'', ''rejected'', ''error''}
     \<and> (rr_decision (run_candidate cid sha dir el h) = ''error'' \<longleftrightarrow> rr_error (run_candidate cid sha dir el h) \<noteq> None)"
  by (auto simp: run_candidate_def Let_def split: harness_run.splits option.splits)

text \<open>What the worker accepts never carries the checker's small-sample flag.\<close>

lemma accepted_not_low_sample:
  "rr_decision (run_candidate cid sha dir el h) = ''accepted'' \<Longrightarrow>
     flag_low_sample (cr_metrics (as_candidate (run_candidate cid sha dir el h))) = None"
proof -
  assume "rr_decision (run_candidate cid sha dir el h) = ''accepted''"
  then obtain s where "h = Exited 0 (Some s)" "30 \<le> trades_of (su_metrics s)" by (auto simp: run_candidate_accepted)
  then show ?thesis by (simp add: flag_low_sample_def as_candidate_def run_candidate_def Let_def)
qed

end
