(* ===== verification/Robustness.thy ===== *)
theory Robustness
  imports Driver
begin

text \<open>
  \<^verbatim>\<open>app/loop/walk_forward.py\<close>, \<^verbatim>\<open>app/loop/oos_validator.py\<close> and \<^verbatim>\<open>app/loop/regime_buckets.py\<close>: the
  quarters a candidate is run on, the aggregate of its quarters, the out-of-sample verdict and the
  aggregate of its regimes. The square root of the dispersion is an argument,
  and a float's square is its rounded product with itself.
\<close>

section \<open>Quarters\<close>

definition quarter_label :: "int \<times> nat \<Rightarrow> string" where
  "quarter_label yq = int_text (fst yq) @ ''-Q'' @ nat_text (snd yq)"

fun next_quarter :: "int \<times> nat \<Rightarrow> int \<times> nat" where
  "next_quarter (year, q) = (if q + 1 > 4 then (year + 1, 1) else (year, q + 1))"

fun quarters_from :: "int \<times> nat \<Rightarrow> nat \<Rightarrow> string list" where
  "quarters_from yq 0 = []"
| "quarters_from yq (Suc n) = quarter_label yq # quarters_from (next_quarter yq) n"

definition list_quarters :: "int \<Rightarrow> nat \<Rightarrow> string list" where
  "list_quarters start_year n_quarters = quarters_from (start_year, 1) n_quarters"

section \<open>Walk-forward aggregate\<close>

record wf_aggregate =
  wa_candidate :: string
  wa_quarters :: "string list"
  wa_blobs :: "(string \<times> run_metrics option) list"
  wa_mean_sharpe :: rat
  wa_mean_calmar :: rat
  wa_mean_trades :: rat
  wa_worst_sharpe :: rat
  wa_oos_quarter :: "string option"
  wa_oos_sharpe :: "rat option"
  wa_oos_trades :: int
  wa_oos_collapse :: bool

definition empty_aggregate :: wf_aggregate where
  "empty_aggregate = \<lparr>wa_candidate = ''?'', wa_quarters = [], wa_blobs = [], wa_mean_sharpe = 0, wa_mean_calmar = 0,
     wa_mean_trades = 0, wa_worst_sharpe = 0, wa_oos_quarter = None, wa_oos_sharpe = None, wa_oos_trades = 0,
     wa_oos_collapse = False\<rparr>"

definition sharpe_of :: "run_metrics option \<Rightarrow> rat option" where
  "sharpe_of m = (case m of None \<Rightarrow> None | Some x \<Rightarrow> rm_sharpe x)"

definition calmar_of :: "run_metrics option \<Rightarrow> rat option" where
  "calmar_of m = (case m of None \<Rightarrow> None | Some x \<Rightarrow> rm_calmar x)"

definition or_0 :: "rat option \<Rightarrow> rat" where
  "or_0 x = (case x of None \<Rightarrow> 0 | Some v \<Rightarrow> v)"

definition mean :: "rat list \<Rightarrow> rat" where
  "mean xs = fdiv (fsum xs) (of_nat (length xs))"

text \<open>\<open>candidate\<close> is the id the caller puts into every blob.\<close>

definition aggregate :: "string \<Rightarrow> (string \<times> run_metrics option) list \<Rightarrow> string option \<Rightarrow> wf_aggregate" where
  "aggregate candidate per_quarter oos_quarter =
     (if per_quarter = [] then empty_aggregate
      else
        let sharpes = map (or_0 \<circ> sharpe_of \<circ> snd) per_quarter;
            calmars = map (or_0 \<circ> calmar_of \<circ> snd) per_quarter;
            counts = map (trades_of \<circ> snd) per_quarter;
            oos_metrics = (case oos_quarter of None \<Rightarrow> None | Some oq \<Rightarrow> find (\<lambda>(q, m). q = oq) per_quarter);
            (oos_sharpe, oos_tc, collapse) =
              (case oos_metrics of
                 None \<Rightarrow> (None, 0, False)
               | Some (q, m) \<Rightarrow>
                   (sharpe_of m, trades_of m,
                    (case sharpe_of m of None \<Rightarrow> True | Some x \<Rightarrow> x < 0) \<or> trades_of m < 15))
        in \<lparr>wa_candidate = candidate, wa_quarters = map fst per_quarter, wa_blobs = per_quarter,
            wa_mean_sharpe = mean sharpes, wa_mean_calmar = mean calmars,
            wa_mean_trades = fdiv (of_int (sum_list counts)) (of_nat (length counts)),
            wa_worst_sharpe = list_min sharpes, wa_oos_quarter = oos_quarter, wa_oos_sharpe = oos_sharpe,
            wa_oos_trades = oos_tc, wa_oos_collapse = collapse\<rparr>)"

text \<open>
  The run of each quarter is an argument: its subprocess and its directory. Errored quarters are
  missing data; the last quarter asked for is the out-of-sample one.
\<close>

definition walk_forward_quarters :: "(string \<Rightarrow> string \<Rightarrow> run_result) \<Rightarrow> string \<Rightarrow> string list \<Rightarrow> wf_aggregate" where
  "walk_forward_quarters run cid quarters =
     (let last_quarter = (if quarters = [] then None else Some (last quarters));
          per_quarter = List.map_filter (\<lambda>q. let r = run (cid @ ''-'' @ q) q in
            if rr_decision r = ''error'' then None else Some (q, rr_metrics r)) quarters
      in aggregate cid per_quarter last_quarter)"

section \<open>Out-of-sample verdict\<close>

datatype oos_reason = FewTrades int | NoSharpe | BelowFloor rat | Dropped rat | Consistent

record oos_verdict =
  ov_passed :: bool
  ov_robustness :: rat
  ov_reasons :: "oos_reason list"
  ov_in_sample :: rat
  ov_sharpe :: "rat option"
  ov_trades :: int

definition oos_validate ::
    "run_metrics option list \<Rightarrow> run_metrics option \<Rightarrow> int \<Rightarrow> rat \<Rightarrow> rat \<Rightarrow> oos_verdict" where
  "oos_validate in_sample oos min_trades sharpe_floor tolerance =
     (let xs = map (or_0 \<circ> sharpe_of) in_sample;
          in_sample_mean = (if xs = [] then 0 else mean xs);
          oos_tc = trades_of oos;
          r1 = (if oos_tc < min_trades then [FewTrades oos_tc] else []);
          r2 = (case sharpe_of oos of
                  None \<Rightarrow> [NoSharpe]
                | Some x \<Rightarrow> if x < sharpe_floor then [BelowFloor x]
                            else if x < fmul in_sample_mean (fsub 1 tolerance) then [Dropped x] else []);
          denom = max in_sample_mean (fl (1 / 100));
          robustness = (case sharpe_of oos of None \<Rightarrow> 0 | Some x \<Rightarrow> max 0 (min 1 (fdiv x denom)))
      in \<lparr>ov_passed = (r1 @ r2 = []), ov_robustness = robustness, ov_reasons = (if r1 @ r2 = [] then [Consistent] else r1 @ r2),
          ov_in_sample = in_sample_mean, ov_sharpe = sharpe_of oos, ov_trades = oos_tc\<rparr>)"

section \<open>Regimes\<close>

record regime_stats =
  rs_n :: int
  rs_share :: rat
  rs_mean :: "rat option"

record regime_aggregate =
  ra_regimes :: "(string \<times> regime_stats) list"
  ra_worst :: rat
  ra_label :: string
  ra_dispersion :: rat
  ra_skewed :: bool

text \<open>The running totals of a regime: its trades, and the sum and number of its usable Sharpe ratios.\<close>

type_synonym regime_totals = "(string \<times> int \<times> rat \<times> nat) list"

definition add_stats :: "regime_totals \<Rightarrow> string \<times> regime_blob \<Rightarrow> regime_totals" where
  "add_stats acc kb =
     (case kb of (regime, b) \<Rightarrow>
       let (c, s, k) = get_default acc regime (0, 0, 0); n = blob_n b
       in AList.update regime
            (case blob_sharpe b of
               None \<Rightarrow> (c + n, s, k)
             | Some x \<Rightarrow> if n < 3 then (c + n, s, k) else (c + n, fadd s x, k + 1)) acc)"

definition regime_totals_of :: "(string \<times> regime_blob) list option list \<Rightarrow> regime_totals" where
  "regime_totals_of blobs = foldl add_stats [] (concat (map (\<lambda>b. case b of None \<Rightarrow> [] | Some kbs \<Rightarrow> kbs) blobs))"

definition stats_of :: "int \<Rightarrow> string \<times> int \<times> rat \<times> nat \<Rightarrow> string \<times> regime_stats" where
  "stats_of n_total t =
     (case t of (regime, n, s, k) \<Rightarrow>
       (regime, \<lparr>rs_n = n, rs_share = (if n_total \<noteq> 0 then fdiv (of_int n) (of_int n_total) else 0),
                 rs_mean = (if k \<noteq> 0 then Some (fdiv s (of_nat k)) else None)\<rparr>))"

definition stddev :: "(rat \<Rightarrow> rat) \<Rightarrow> rat list \<Rightarrow> rat" where
  "stddev sqrt_of xs =
     (if length xs < 2 then 0
      else let m = mean xs
           in sqrt_of (fdiv (fsum (map (\<lambda>x. let d = fsub x m in fmul d d) xs)) (of_nat (length xs - 1))))"

text \<open>\<open>min(..., key=...)\<close>: the first pair of the least mean.\<close>

fun first_min :: "(string \<times> rat) list \<Rightarrow> string \<times> rat" where
  "first_min [] = (''unknown'', 0)"
| "first_min [p] = p"
| "first_min (p # q # ps) = (if snd q < snd p then first_min (q # ps) else first_min (p # ps))"

definition aggregate_regimes ::
    "(rat \<Rightarrow> rat) \<Rightarrow> (string \<times> regime_blob) list option list \<Rightarrow> rat \<Rightarrow> regime_aggregate" where
  "aggregate_regimes sqrt_of blobs threshold =
     (let totals = regime_totals_of blobs;
          n_total = sum_list (map (\<lambda>t. fst (snd t)) totals);
          regimes = map (stats_of n_total) (sort_key fst totals);
          mean_sharpes = List.map_filter (\<lambda>(r, v). map_option (Pair r) (rs_mean v)) regimes;
          (label, worst) = first_min mean_sharpes;
          dispersion = (if mean_sharpes = [] then 0 else stddev sqrt_of (map snd mean_sharpes));
          skewed = (0 < n_total \<and> regimes \<noteq> [] \<and> threshold \<le> list_max (map (rs_share \<circ> snd) regimes))
      in \<lparr>ra_regimes = regimes, ra_worst = worst, ra_label = label, ra_dispersion = dispersion, ra_skewed = skewed\<rparr>)"

section \<open>Quarters in order\<close>

lemma quarters_from_nth:
  "q \<in> {1..4} \<Longrightarrow> i < n \<Longrightarrow> quarters_from (y, q) n ! i = quarter_label (y + int ((q - 1 + i) div 4), (q - 1 + i) mod 4 + 1)"
proof (induction n arbitrary: y q i)
  case (Suc n)
  show ?case
  proof (cases i)
    case 0
    have "(q - 1) div 4 = 0" "(q - 1) mod 4 + 1 = q" using Suc.prems(1) by auto
    then show ?thesis using 0 by simp
  next
    case (Suc j)
    have j: "j < n" using Suc Suc.prems(2) by simp
    show ?thesis
    proof (cases "q = 4")
      case True
      then show ?thesis using Suc.IH[of 1 j "y + 1"] j Suc by (simp add: add.assoc)
    next
      case False
      then have "q + 1 \<in> {1..4}" "\<not> 4 < q + 1" using Suc.prems(1) by auto
      moreover have "q - 1 + i = q + 1 - 1 + j" using Suc Suc.prems(1) by simp
      ultimately show ?thesis using Suc.IH[of "q + 1" j y] j Suc by simp
    qed
  qed
qed simp

lemma length_quarters_from: "length (quarters_from yq n) = n"
  by (induction n arbitrary: yq) auto

text \<open>The \<open>i\<close>-th quarter is quarter \<open>i mod 4 + 1\<close> of year \<open>start + i div 4\<close>.\<close>

lemma list_quarters_nth:
  "length (list_quarters y n) = n \<and>
   (i < n \<longrightarrow> list_quarters y n ! i = quarter_label (y + int (i div 4), i mod 4 + 1))"
  using quarters_from_nth[of 1 i n y] by (simp add: list_quarters_def length_quarters_from)

section \<open>Out of sample\<close>

lemma oos_robustness_range: "0 \<le> ov_robustness (oos_validate xs m n fl0 tol) \<and> ov_robustness (oos_validate xs m n fl0 tol) \<le> 1"
  by (auto simp: oos_validate_def Let_def split: option.splits)

text \<open>
  The out-of-sample verdict. A candidate passes exactly when the held-out quarter has enough trades and a
  Sharpe ratio that is neither below the floor nor below the tolerated share of the in-sample mean; the
  reasons are empty of flags exactly then, and the robustness score always lies in [0, 1].
\<close>

theorem oos_verdict_exact:
  "let v = oos_validate in_sample oos min_trades sharpe_floor tolerance in
     ov_passed v = (min_trades \<le> trades_of oos
       \<and> (case sharpe_of oos of None \<Rightarrow> False
          | Some x \<Rightarrow> sharpe_floor \<le> x \<and> fmul (ov_in_sample v) (fsub 1 tolerance) \<le> x))
     \<and> (ov_passed v \<longleftrightarrow> ov_reasons v = [Consistent]) \<and> ov_reasons v \<noteq> []
     \<and> 0 \<le> ov_robustness v \<and> ov_robustness v \<le> 1"
  using oos_robustness_range[of in_sample oos min_trades sharpe_floor tolerance]
  by (auto simp: oos_validate_def Let_def not_less split: option.splits if_splits)

text \<open>
  A missing out-of-sample quarter is not a collapse. When the run of the last quarter errors (and the
  labels are distinct) the aggregate reports no out-of-sample Sharpe ratio, no trades and no collapse, so
  a candidate whose held-out run failed carries the same flag as one that passed it.
\<close>

theorem errored_oos_not_collapse:
  assumes "rr_decision (run (cid @ ''-'' @ last qs) (last qs)) = ''error''" "qs \<noteq> []" "distinct qs"
  shows "let a = walk_forward_quarters run cid qs in
    \<not> wa_oos_collapse a \<and> wa_oos_sharpe a = None \<and> wa_oos_trades a = 0"
proof -
  define blobs where "blobs = List.map_filter (\<lambda>q. let r = run (cid @ ''-'' @ q) q in
            if rr_decision r = ''error'' then None else Some (q, rr_metrics r)) qs"
  have "\<forall>(q, m) \<in> set blobs. q \<noteq> last qs"
    using assms(1) by (auto simp: blobs_def List.map_filter_def Let_def split: if_splits)
  then have none: "find (\<lambda>(q, m). q = last qs) blobs = None" by (auto simp: find_None_iff)
  have run: "walk_forward_quarters run cid qs = aggregate cid blobs (Some (last qs))"
    using assms(2) by (simp add: walk_forward_quarters_def blobs_def)
  show ?thesis unfolding run using none by (simp add: aggregate_def empty_aggregate_def Let_def)
qed

section \<open>The aggregate of the regimes\<close>

lemma first_min_least:
  "ps \<noteq> [] \<Longrightarrow> first_min ps \<in> set ps \<and> (\<forall>p \<in> set ps. snd (first_min ps) \<le> snd p)"
  by (induction ps rule: first_min.induct) (auto split: if_splits; fastforce)+

definition blob_trades :: "string \<Rightarrow> (string \<times> regime_blob) list \<Rightarrow> int" where
  "blob_trades regime kbs = sum_list (map (\<lambda>(k, b). if k = regime then blob_n b else 0) kbs)"

lemma add_stats_count:
  "fst (get_default (add_stats acc kb) regime (0, 0, 0))
     = fst (get_default acc regime (0, 0, 0)) + (if fst kb = regime then blob_n (snd kb) else 0)"
  by (cases kb) (auto simp: add_stats_def get_default_def Let_def update_conv' split: option.splits prod.splits)

lemma fold_stats_count:
  "fst (get_default (foldl add_stats acc kbs) regime (0, 0, 0))
     = fst (get_default acc regime (0, 0, 0)) + blob_trades regime kbs"
proof (induction kbs arbitrary: acc)
  case (Cons kb kbs)
  then show ?case by (cases kb) (simp add: add_stats_count blob_trades_def)
qed (simp add: blob_trades_def)

lemma add_stats_update: "\<exists>v. add_stats acc kb = AList.update (fst kb) v acc"
proof -
  obtain c s k where "get_default acc (fst kb) (0, 0, 0) = (c, s, k)" by (rule prod_cases3)
  then show ?thesis by (intro exI) (simp add: add_stats_def Let_def split_def)
qed

lemma add_stats_keys: "fst ` set (add_stats acc kb) = insert (fst kb) (fst ` set acc)"
proof -
  obtain v where v: "add_stats acc kb = AList.update (fst kb) v acc" using add_stats_update by blast
  have "dom (map_of (AList.update (fst kb) v acc)) = insert (fst kb) (dom (map_of acc))" by (simp add: update_conv')
  then show ?thesis unfolding v dom_map_of_conv_image_fst .
qed

lemma add_stats_distinct: "distinct (map fst acc) \<Longrightarrow> distinct (map fst (add_stats acc kb))"
  using add_stats_update[of acc kb] distinct_update by metis

lemma fold_stats_keys:
  "fst ` set (foldl add_stats acc kbs) = fst ` set acc \<union> fst ` set kbs
     \<and> (distinct (map fst acc) \<longrightarrow> distinct (map fst (foldl add_stats acc kbs)))"
  by (induction kbs arbitrary: acc) (auto simp: add_stats_keys add_stats_distinct)

definition all_blobs :: "(string \<times> regime_blob) list option list \<Rightarrow> (string \<times> regime_blob) list" where
  "all_blobs blobs = concat (map (\<lambda>b. case b of None \<Rightarrow> [] | Some kbs \<Rightarrow> kbs) blobs)"

text \<open>
  One row per regime that occurs, in name order, with all its trades; the worst regime's mean is a lower
  bound of every regime's mean.
\<close>

lemma regime_aggregate_exact:
  assumes "a = aggregate_regimes sqrt_of blobs threshold"
  shows "map fst (ra_regimes a) = sorted_list_of_set (fst ` set (all_blobs blobs))
    \<and> (\<forall>(r, st) \<in> set (ra_regimes a). rs_n st = blob_trades r (all_blobs blobs)
         \<and> (case rs_mean st of None \<Rightarrow> True | Some m \<Rightarrow> ra_worst a \<le> m))"
proof
  define totals where "totals = regime_totals_of blobs"
  have t: "fst ` set totals = fst ` set (all_blobs blobs)" "distinct (map fst totals)"
    using fold_stats_keys[of "[]" "all_blobs blobs"] by (simp_all add: totals_def regime_totals_of_def all_blobs_def)
  define n_total where "n_total = sum_list (map (\<lambda>t. fst (snd t)) totals)"
  define rows where "rows = map (stats_of n_total) (sort_key fst totals)"
  have ra: "ra_regimes a = rows"
    by (simp add: assms aggregate_regimes_def Let_def rows_def n_total_def totals_def split: prod.splits)
  have fst_stats: "fst (stats_of n x) = fst x" for n x by (cases x) (simp add: stats_of_def)
  then have "map fst rows = map fst (sort_key fst totals)" by (simp add: rows_def)
  also have "\<dots> = sorted_list_of_set (fst ` set (all_blobs blobs))"
    using t by (metis (no_types, lifting) distinct_map_filter list.set_map set_sort sorted_sort_key distinct_sort
        sorted_list_of_set.idem_if_sorted_distinct distinct_map)
  finally show "map fst (ra_regimes a) = sorted_list_of_set (fst ` set (all_blobs blobs))" by (simp add: ra)
  show "\<forall>(r, st) \<in> set (ra_regimes a). rs_n st = blob_trades r (all_blobs blobs)
         \<and> (case rs_mean st of None \<Rightarrow> True | Some m \<Rightarrow> ra_worst a \<le> m)"
  proof (clarify, rule conjI)
    fix r st assume "(r, st) \<in> set (ra_regimes a)"
    then obtain x where x: "x \<in> set totals" "stats_of n_total x = (r, st)" by (auto simp: ra rows_def)
    obtain n s k where v: "x = (r, n, s, k)" using x(2) by (cases x) (auto simp: stats_of_def)
    have "map_of totals r = Some (n, s, k)" using t(2) x(1) v by (simp add: map_of_is_SomeI)
    then have "n = blob_trades r (all_blobs blobs)"
      using fold_stats_count[of "[]" "all_blobs blobs" r]
      by (simp add: totals_def regime_totals_of_def all_blobs_def get_default_def)
    then show "rs_n st = blob_trades r (all_blobs blobs)" using x(2) v by (auto simp: stats_of_def)
    define ms where "ms = List.map_filter (\<lambda>(r, v). map_option (Pair r) (rs_mean v)) rows"
    have w: "ra_worst a = snd (first_min ms)"
      by (simp add: assms aggregate_regimes_def Let_def rows_def n_total_def totals_def ms_def split: prod.splits)
    have "(r, m) \<in> set ms" if "rs_mean st = Some m" for m
      using \<open>(r, st) \<in> set (ra_regimes a)\<close> that by (force simp: ms_def ra List.map_filter_def)
    then have "ra_worst a \<le> m" if "rs_mean st = Some m" for m
      using first_min_least[of ms] that w by (metis empty_iff list.set(1) snd_conv)
    then show "case rs_mean st of None \<Rightarrow> True | Some m \<Rightarrow> ra_worst a \<le> m" by (simp split: option.split)
  qed
qed

section \<open>Witness\<close>

theorem errored_oos_not_collapse_witness:
  "let a = walk_forward_quarters (\<lambda>_ q. if q = ''2025-Q4'' then run_candidate q q q 1 TimedOut else demo_run q 40 (Some 1)) ''c''
       [''2025-Q3'', ''2025-Q4''] in \<not> wa_oos_collapse a \<and> wa_oos_sharpe a = None \<and> wa_oos_trades a = 0"
  by (rule errored_oos_not_collapse) (simp_all add: run_candidate_def Let_def)

end
