(* ===== verification/Scheduler.thy ===== *)
theory Scheduler
  imports PyFloat
begin

text \<open>
  \<^verbatim>\<open>app/loop/scheduler.py\<close>: when the tuning loop wakes next. A \<open>datetime\<close> is local wall-clock time
  without a zone, in microseconds since 1970-01-01 (a Thursday). The journal is the list of its lines,
  objects or \<open>None\<close> for a line that does not parse; the file missing is \<open>None\<close>. \<open>local\<close> converts a timestamp to
  wall-clock time.
\<close>

section \<open>Clock\<close>

definition minute :: int where "minute = 60 * 10 ^ 6"
definition hour :: int where "hour = 60 * minute"
definition day :: int where "day = 24 * hour"

definition hour_of :: "int \<Rightarrow> int" where
  "hour_of t = (t div hour) mod 24"

definition weekday :: "int \<Rightarrow> int" where
  "weekday t = (t div day + 3) mod 7"

record scheduler_config =
  max_interval_minutes :: int
  plateau_backoff_gens :: nat
  quiet_hours_start :: int
  quiet_hours_end :: int
  weekend_skip :: bool

definition DEFAULT_SCHEDULER :: scheduler_config where
  "DEFAULT_SCHEDULER = \<lparr>max_interval_minutes = 60, plateau_backoff_gens = 5, quiet_hours_start = 23, quiet_hours_end = 7,
     weekend_skip = False\<rparr>"

section \<open>Reading the journal\<close>

record journal_line =
  jl_gen :: "int option"
  jl_fitness :: "rat option"
  jl_decision :: string
  jl_ts :: "rat option"

definition fit_of :: "journal_line \<Rightarrow> rat" where
  "fit_of l = (case jl_fitness l of None \<Rightarrow> 0 | Some f \<Rightarrow> f)"

definition add_best :: "(int option \<times> rat) list \<Rightarrow> journal_line \<Rightarrow> (int option \<times> rat) list" where
  "add_best best l =
     (if jl_decision l = ''accepted''
         \<and> (case map_of best (jl_gen l) of None \<Rightarrow> True | Some f \<Rightarrow> f < fit_of l)
      then AList.update (jl_gen l) (fit_of l) best else best)"

fun plateau_walk :: "rat \<Rightarrow> nat \<Rightarrow> rat list \<Rightarrow> nat" where
  "plateau_walk prev plateau [] = plateau"
| "plateau_walk prev plateau (f # fs) = (if prev < f then plateau_walk f 0 fs else plateau_walk prev (plateau + 1) fs)"

text \<open>\<open>None\<close> is the \<open>TypeError\<close> of sorting a missing generation with the numbered ones.\<close>

definition plateau_count_from_history :: "journal_line option list option \<Rightarrow> nat option" where
  "plateau_count_from_history file =
     (case file of
        None \<Rightarrow> Some 0
      | Some ls \<Rightarrow>
          let best = foldl add_best [] (List.map_filter id ls)
          in if best = [] then Some 0
             else if has_key best None \<and> 1 < length best then None
             else (case map (\<lambda>g. get_default best g 0) (map fst (sort_key (\<lambda>(g, _). case g of None \<Rightarrow> 0 | Some n \<Rightarrow> n) best)) of
                     [] \<Rightarrow> Some 0 | f # fs \<Rightarrow> Some (plateau_walk f 0 fs)))"

definition add_dated :: "(int \<times> rat \<times> rat) list \<Rightarrow> journal_line \<Rightarrow> (int \<times> rat \<times> rat) list" where
  "add_dated best l =
     (case (jl_gen l, jl_ts l) of
        (Some g, Some ts) \<Rightarrow>
          if jl_decision l = ''accepted'' \<and> (case map_of best g of None \<Rightarrow> True | Some (f, _) \<Rightarrow> f < fit_of l)
          then AList.update g (fit_of l, ts) best else best
      | _ \<Rightarrow> best)"

fun growth_walk :: "rat \<Rightarrow> rat \<Rightarrow> (rat \<times> rat) list \<Rightarrow> rat" where
  "growth_walk prev ts [] = ts"
| "growth_walk prev ts ((f, u) # fs) = (if prev < f then growth_walk f u fs else growth_walk prev ts fs)"

definition last_growth :: "journal_line option list option \<Rightarrow> rat option" where
  "last_growth file =
     (case file of
        None \<Rightarrow> None
      | Some ls \<Rightarrow>
          (case map snd (sort_key fst (foldl add_dated [] (List.map_filter id ls))) of
             [] \<Rightarrow> None | (f, ts) # fs \<Rightarrow> Some (growth_walk f ts fs)))"

definition last_improvement_age_hours :: "(rat \<Rightarrow> int) \<Rightarrow> journal_line option list option \<Rightarrow> int \<Rightarrow> rat option" where
  "last_improvement_age_hours local file now =
     map_option (\<lambda>ts. fdiv (fdiv (of_int (now - local ts)) 1000000) 3600) (last_growth file)"

section \<open>The next wake\<close>

definition in_quiet_hours :: "scheduler_config \<Rightarrow> int \<Rightarrow> bool" where
  "in_quiet_hours cfg t =
     (let h = hour_of t in
      if quiet_hours_start cfg < quiet_hours_end cfg then quiet_hours_start cfg \<le> h \<and> h < quiet_hours_end cfg
      else quiet_hours_start cfg \<le> h \<or> h < quiet_hours_end cfg)"

definition is_weekend :: "scheduler_config \<Rightarrow> int \<Rightarrow> bool" where
  "is_weekend cfg t = (weekend_skip cfg \<and> 5 \<le> weekday t)"

fun active_window :: "scheduler_config \<Rightarrow> int \<Rightarrow> int \<Rightarrow> nat \<Rightarrow> int" where
  "active_window cfg now candidate 0 = now + 24 * hour"
| "active_window cfg now candidate (Suc k) =
     (let c = candidate + hour
      in if \<not> in_quiet_hours cfg c \<and> \<not> is_weekend cfg c then c - c mod hour else active_window cfg now c k)"

definition next_active_window :: "scheduler_config \<Rightarrow> int \<Rightarrow> int" where
  "next_active_window cfg now = active_window cfg now now 48"

datatype wake_reason = Quiet | OperatorPending | PlateauBackoff | Recent24h | Recent7d | NoRecent

record wake_decision =
  wake_at :: int
  wake_why :: wake_reason
  wake_plateau :: nat
  wake_age :: "rat option"

definition next_wake_at ::
    "(rat \<Rightarrow> int) \<Rightarrow> scheduler_config \<Rightarrow> journal_line option list option \<Rightarrow> bool \<Rightarrow> int \<Rightarrow> wake_decision option" where
  "next_wake_at local cfg file pending now =
     (case plateau_count_from_history file of
        None \<Rightarrow> None
      | Some plateau \<Rightarrow>
          Some (if in_quiet_hours cfg now \<or> is_weekend cfg now
                then \<lparr>wake_at = next_active_window cfg now, wake_why = Quiet, wake_plateau = plateau, wake_age = None\<rparr>
                else if pending
                then \<lparr>wake_at = now + 5 * minute, wake_why = OperatorPending, wake_plateau = plateau, wake_age = None\<rparr>
                else if plateau_backoff_gens cfg \<le> plateau
                then \<lparr>wake_at = next_active_window cfg now, wake_why = PlateauBackoff, wake_plateau = plateau, wake_age = None\<rparr>
                else
                  let age = last_improvement_age_hours local file now;
                      (delta, why) =
                        (case age of
                           None \<Rightarrow> (max_interval_minutes cfg * minute, NoRecent)
                         | Some a \<Rightarrow> if a < 24 then (15 * minute, Recent24h)
                                    else if a < 24 * 7 then (30 * minute, Recent7d)
                                    else (max_interval_minutes cfg * minute, NoRecent))
                  in \<lparr>wake_at = now + delta, wake_why = why, wake_plateau = plateau, wake_age = age\<rparr>))"

section \<open>Lemmas\<close>

lemma hour_pos: "0 < hour" "0 < minute"
  by (simp_all add: hour_def minute_def)

definition active :: "scheduler_config \<Rightarrow> int \<Rightarrow> bool" where
  "active cfg t \<longleftrightarrow> \<not> in_quiet_hours cfg t \<and> \<not> is_weekend cfg t"

text \<open>Whether an instant is active depends on its hour only.\<close>

lemma active_hour: "t div hour = u div hour \<Longrightarrow> active cfg t \<longleftrightarrow> active cfg u"
proof -
  assume eq: "t div hour = u div hour"
  have d: "x div day = x div hour div 24" for x :: int
    using hour_pos(1) by (simp add: day_def zdiv_zmult2_eq[symmetric] mult.commute)
  show ?thesis by (simp add: active_def in_quiet_hours_def is_weekend_def hour_of_def weekday_def Let_def d eq)
qed

lemma snap: "(c - c mod hour) div hour = c div hour" "(c - c mod hour) mod hour = 0"
  "c - hour < c - c mod hour" "c - c mod hour \<le> c"
proof -
  show "(c - c mod hour) div hour = c div hour" "(c - c mod hour) mod hour = 0"
    using hour_pos(1) by (simp_all add: minus_mod_eq_mult_div)
  show "c - hour < c - c mod hour" "c - c mod hour \<le> c" using hour_pos(1) by simp_all
qed

lemma plus_hours: "(now + j * hour) div hour = now div hour + j"
  using hour_pos(1) by simp

text \<open>No instant of the hours after \<open>now\<close>, up to hour number \<open>n\<close>, is active.\<close>

definition no_active_hour :: "scheduler_config \<Rightarrow> int \<Rightarrow> int \<Rightarrow> bool" where
  "no_active_hour cfg now n \<longleftrightarrow> (\<forall>t. now div hour < t div hour \<and> t div hour \<le> now div hour + n \<longrightarrow> \<not> active cfg t)"

text \<open>The first whole hour after \<open>now\<close> that is active.\<close>

definition first_active :: "scheduler_config \<Rightarrow> int \<Rightarrow> int \<Rightarrow> bool" where
  "first_active cfg now w \<longleftrightarrow> now < w \<and> w mod hour = 0 \<and> active cfg w
     \<and> (\<forall>t. now div hour < t div hour \<and> t < w \<longrightarrow> \<not> active cfg t)"

lemma no_active_step:
  "no_active_hour cfg now n \<Longrightarrow> \<not> active cfg (now + (n + 1) * hour) \<Longrightarrow> no_active_hour cfg now (n + 1)"
  unfolding no_active_hour_def
proof (intro allI impI, elim conjE)
  fix t
  assume old: "\<forall>t. now div hour < t div hour \<and> t div hour \<le> now div hour + n \<longrightarrow> \<not> active cfg t"
    and new: "\<not> active cfg (now + (n + 1) * hour)" and t: "now div hour < t div hour" "t div hour \<le> now div hour + (n + 1)"
  show "\<not> active cfg t"
  proof (cases "t div hour = now div hour + (n + 1)")
    case True
    then show ?thesis using new active_hour[of t "now + (n + 1) * hour" cfg] plus_hours[of now "n + 1"] by simp
  next
    case False
    then show ?thesis using old t by simp
  qed
qed

lemma active_window_first:
  "n + int k = 48 \<Longrightarrow> 0 \<le> n \<Longrightarrow> no_active_hour cfg now n \<Longrightarrow> w = active_window cfg now (now + n * hour) k \<Longrightarrow>
     (first_active cfg now w \<and> w \<le> now + 48 * hour) \<or> (w = now + 24 * hour \<and> no_active_hour cfg now 48)"
proof (induction k arbitrary: n)
  case 0
  then show ?case by simp
next
  case (Suc k)
  let ?c = "now + (n + 1) * hour"
  have c: "now + n * hour + hour = ?c" by (simp add: algebra_simps)
  show ?case
  proof (cases "active cfg ?c")
    case True
    have w: "w = ?c - ?c mod hour" using Suc.prems(4) True by (simp add: c active_def Let_def)
    have "(w div hour) = now div hour + (n + 1)" unfolding w snap plus_hours ..
    have "now + 0 * hour \<le> now + n * hour" using Suc.prems(2) hour_pos(1) by (intro add_left_mono mult_right_mono) auto
    then have "now < w" using snap(3)[of ?c] unfolding w by (simp add: algebra_simps)
    moreover have "w \<le> now + 48 * hour"
    proof -
      have "?c \<le> now + 48 * hour" using Suc.prems(1) hour_pos(1) by (intro add_left_mono mult_right_mono) auto
      then show ?thesis using snap(4)[of ?c] unfolding w by linarith
    qed
    moreover have "active cfg w" using True active_hour[OF snap(1), of cfg ?c] unfolding w by blast
    moreover have "w mod hour = 0" unfolding w by (rule snap)
    moreover have "\<not> active cfg t" if t: "now div hour < t div hour" "t < w" for t
    proof -
      have "t div hour < w div hour"
      proof (rule ccontr)
        assume "\<not> t div hour < w div hour"
        then have "w div hour * hour \<le> t div hour * hour" using hour_pos(1) by (intro mult_right_mono) auto
        moreover have "w div hour * hour = w" using \<open>w mod hour = 0\<close> by (simp add: minus_mod_eq_div_mult[symmetric])
        moreover have "t div hour * hour \<le> t" using hour_pos(1) by (simp add: minus_mod_eq_div_mult[symmetric])
        ultimately show False using t(2) by linarith
      qed
      then show ?thesis using Suc.prems(3) t(1) \<open>w div hour = now div hour + (n + 1)\<close> by (simp add: no_active_hour_def)
    qed
    ultimately show ?thesis by (simp add: first_active_def)
  next
    case False
    then have "w = active_window cfg now ?c k" using Suc.prems(4) by (auto simp: c active_def Let_def)
    then show ?thesis using Suc.IH[of "n + 1"] Suc.prems(1,2) no_active_step[OF Suc.prems(3) False] by simp
  qed
qed

lemma next_active_window_first:
  "(first_active cfg now (next_active_window cfg now) \<and> next_active_window cfg now \<le> now + 48 * hour)
   \<or> (next_active_window cfg now = now + 24 * hour \<and> no_active_hour cfg now 48)"
proof (rule active_window_first)
  show "no_active_hour cfg now 0" by (auto simp: no_active_hour_def)
  show "next_active_window cfg now = active_window cfg now (now + 0 * hour) 48" by (simp add: next_active_window_def)
qed simp_all

text \<open>Without the weekend rule, quiet hours that leave an hour of the day free leave one within a day.\<close>

definition proper_quiet :: "scheduler_config \<Rightarrow> bool" where
  "proper_quiet cfg \<longleftrightarrow> 0 \<le> quiet_hours_start cfg \<and> quiet_hours_start cfg < 24 \<and> 0 \<le> quiet_hours_end cfg
     \<and> quiet_hours_end cfg < 24 \<and> quiet_hours_start cfg \<noteq> quiet_hours_end cfg \<and> \<not> weekend_skip cfg"

lemma proper_active: "proper_quiet cfg \<Longrightarrow> hour_of t = quiet_hours_end cfg \<Longrightarrow> active cfg t"
  by (auto simp: proper_quiet_def active_def in_quiet_hours_def is_weekend_def Let_def)

lemma proper_hour:
  assumes "proper_quiet cfg"
  shows "\<exists>j. 1 \<le> j \<and> j \<le> 24 \<and> active cfg (now + j * hour)"
proof -
  define j where "j = 1 + (quiet_hours_end cfg - now div hour - 1) mod 24"
  have "1 \<le> j \<and> j \<le> 24" by (simp add: j_def)
  moreover have "hour_of (now + j * hour) = quiet_hours_end cfg"
  proof -
    have "(a + (1 + (e - a - 1) mod 24)) mod 24 = e mod 24" for a e :: int
    proof -
      have "(a + (1 + (e - a - 1) mod 24)) mod 24 = ((a + 1) + (e - a - 1)) mod 24"
        unfolding add.assoc[symmetric] by (rule mod_add_right_eq)
      then show ?thesis by simp
    qed
    then show ?thesis using assms by (simp add: hour_of_def plus_hours j_def proper_quiet_def)
  qed
  ultimately show ?thesis using proper_active[OF assms] by blast
qed

lemma next_active_window_proper:
  assumes "proper_quiet cfg"
  shows "first_active cfg now (next_active_window cfg now) \<and> next_active_window cfg now \<le> now + 24 * hour"
proof -
  obtain j where j: "1 \<le> j" "j \<le> 24" "active cfg (now + j * hour)" using proper_hour[OF assms] by blast
  then have "\<not> no_active_hour cfg now 48"
    unfolding no_active_hour_def not_all by (intro exI[of _ "now + j * hour"]) (simp add: plus_hours)
  then have first: "first_active cfg now (next_active_window cfg now)" using next_active_window_first by blast
  have "\<not> now + j * hour < next_active_window cfg now"
    using first j by (auto simp: first_active_def plus_hours)
  moreover have "now + j * hour \<le> now + 24 * hour" using j hour_pos(1) by (intro add_left_mono mult_right_mono) auto
  ultimately show ?thesis using first by linarith
qed

lemma first_not_none:
  assumes "no_active_hour cfg now 48" "first_active cfg now (next_active_window cfg now)"
    "next_active_window cfg now \<le> now + 48 * hour"
  shows False
proof -
  let ?w = "next_active_window cfg now"
  have "?w div hour \<le> (now + 48 * hour) div hour" using assms(3) hour_pos(1) by (intro zdiv_mono1)
  then have "?w div hour \<le> now div hour + 48" by (simp only: plus_hours)
  moreover have "now div hour < ?w div hour"
  proof (rule ccontr)
    assume "\<not> now div hour < ?w div hour"
    then have "?w div hour * hour \<le> now div hour * hour" using hour_pos(1) by (intro mult_right_mono) auto
    moreover have "?w div hour * hour = ?w" using assms(2) by (simp add: first_active_def minus_mod_eq_div_mult[symmetric])
    moreover have "now div hour * hour \<le> now" using hour_pos(1) by (simp add: minus_mod_eq_div_mult[symmetric])
    ultimately show False using assms(2) by (simp add: first_active_def)
  qed
  ultimately show False using assms(1,2) by (simp add: no_active_hour_def first_active_def)
qed


text \<open>
  The plateau back-off does not back off. In the middle of the active hours (the hour after is active too) a
  search that has stalled for the configured number of generations is woken at the start of the next hour,
  so no later, and usually sooner, than the sixty minutes of a search that makes slow progress.
\<close>

theorem plateau_backoff_is_short:
  assumes "next_wake_at local cfg file False now = Some w" "wake_why w = PlateauBackoff" "active cfg (now + hour)"
  shows "wake_at w = (now + hour) - now mod hour \<and> wake_at w \<le> now + hour"
proof -
  have "wake_at w = next_active_window cfg now"
    using assms(1,2) by (auto simp: next_wake_at_def Let_def split: option.splits if_splits)
  moreover have "next_active_window cfg now = (now + hour) - (now + hour) mod hour"
    using assms(3) by (simp add: next_active_window_def active_def eval_nat_numeral Let_def)
  moreover have "0 \<le> now mod hour" using hour_pos by simp
  ultimately show ?thesis by simp
qed

section \<open>Plateaus\<close>

lemma plateau_walk_bound: "plateau_walk prev p fs \<le> p + length fs"
proof (induction fs arbitrary: prev p)
  case (Cons f fs)
  show ?case using Cons.IH[of f 0] Cons.IH[of prev "p + 1"] by simp
qed simp

lemma plateau_walk_flat: "(\<And>f. f \<in> set fs \<Longrightarrow> f \<le> prev) \<Longrightarrow> plateau_walk prev p fs = p + length fs"
proof (induction fs arbitrary: p)
  case (Cons f fs)
  have "\<not> prev < f" using Cons.prems[of f] by simp
  then show ?case using Cons by simp
qed simp

text \<open>A better last generation resets the count, whatever cluster it mutated.\<close>

lemma plateau_walk_reset:
  "prev < f \<Longrightarrow> (\<And>x. x \<in> set fs \<Longrightarrow> x < f) \<Longrightarrow> plateau_walk prev p (fs @ [f]) = 0"
  by (induction fs arbitrary: prev p) auto

section \<open>Witnesses\<close>

definition demo_line :: "int \<Rightarrow> rat \<Rightarrow> journal_line option" where
  "demo_line g f = Some \<lparr>jl_gen = Some g, jl_fitness = Some f, jl_decision = ''accepted'', jl_ts = Some 0\<rparr>"

definition demo_stall :: "journal_line option list option" where
  "demo_stall = Some [demo_line 1 3, demo_line 2 2, demo_line 3 2, demo_line 4 1, demo_line 5 2, demo_line 6 1]"

lemma demo_plateau: "plateau_count_from_history demo_stall = Some 5"
  by code_simp

definition ten_to_eleven :: int where
  "ten_to_eleven = 10 * hour + 59 * minute"

lemma demo_wake:
  "next_wake_at (\<lambda>_. 0) DEFAULT_SCHEDULER demo_stall False ten_to_eleven
     = Some \<lparr>wake_at = 11 * hour, wake_why = PlateauBackoff, wake_plateau = 5, wake_age = None\<rparr>"
  by code_simp

theorem plateau_backoff_is_short_witness:
  "\<exists>w. next_wake_at (\<lambda>_. 0) DEFAULT_SCHEDULER demo_stall False ten_to_eleven = Some w \<and> wake_at w = ten_to_eleven + minute"
proof -
  have "active DEFAULT_SCHEDULER (ten_to_eleven + hour)" by code_simp
  moreover have "ten_to_eleven + hour - ten_to_eleven mod hour = ten_to_eleven + minute" by code_simp
  ultimately show ?thesis using plateau_backoff_is_short[OF demo_wake] demo_wake by simp
qed

text \<open>At half past eleven in the evening the default scheduler sleeps until seven.\<close>

definition late_evening :: int where
  "late_evening = 23 * hour + 30 * minute"

lemma demo_night:
  "next_wake_at (\<lambda>_. 0) DEFAULT_SCHEDULER None True late_evening
     = Some \<lparr>wake_at = day + 7 * hour, wake_why = Quiet, wake_plateau = 0, wake_age = None\<rparr>"
  by code_simp


text \<open>
  With the weekend rule the two days of look-ahead are too short: late on a Friday no hour up to Sunday
  night is active, and the fallback wakes the loop on Saturday night, in the weekend and in the quiet hours.
\<close>

definition friday_night :: int where
  "friday_night = day + late_evening"

lemma weekend_fallback:
  "next_wake_at (\<lambda>_. 0) (DEFAULT_SCHEDULER\<lparr>weekend_skip := True\<rparr>) None False friday_night
     = Some \<lparr>wake_at = 2 * day + late_evening, wake_why = Quiet, wake_plateau = 0, wake_age = None\<rparr>
   \<and> is_weekend (DEFAULT_SCHEDULER\<lparr>weekend_skip := True\<rparr>) (2 * day + late_evening)
   \<and> in_quiet_hours (DEFAULT_SCHEDULER\<lparr>weekend_skip := True\<rparr>) (2 * day + late_evening)"
  by code_simp

end
