(* ===== verification/TrendRsi.thy ===== *)
theory TrendRsi
  imports Validation
begin

text \<open>
  \<^verbatim>\<open>app/domain/strategy_core.py\<close>, its wrapper \<^verbatim>\<open>app/domain/rsi_trend.py\<close> and the Freqtrade adapter
  \<^verbatim>\<open>app/strategies/trend_rsi_strategy.py\<close>: the RSI trend strategy's indicators, entry signals, quality
  score and latest state, and the adapter's entry and exit conditions.

  The pandas means are arguments: \<open>ti_ema span\<close> is \<open>ewm(span, adjust=False).mean()\<close>, \<open>ti_wilder n\<close> is
  \<open>ewm(alpha=1/n, adjust=False).mean()\<close>, each on a series without missing values. A missing value is
  \<open>None\<close>. A data frame is the list of its rows with their time stamps.
\<close>

section \<open>Constants\<close>

definition RSI_WINDOW :: nat where "RSI_WINDOW = 14"
definition ATR_WINDOW :: nat where "ATR_WINDOW = 14"
definition EMA_TREND_SPAN :: nat where "EMA_TREND_SPAN = 200"
definition EMA_FAST_SPAN :: nat where "EMA_FAST_SPAN = 50"
definition OVERSOLD :: rat where "OVERSOLD = 30"
definition OVERBOUGHT :: rat where "OVERBOUGHT = 70"
definition PULLBACK_OVERSOLD :: rat where "PULLBACK_OVERSOLD = 40"
definition PULLBACK_OVERBOUGHT :: rat where "PULLBACK_OVERBOUGHT = 60"
definition REWARD_RISK :: rat where "REWARD_RISK = 2"
definition WARMUP_BARS :: nat where "WARMUP_BARS = EMA_TREND_SPAN"

definition RSI_ZONES :: "(string \<times> rat \<times> rat) list" where
  "RSI_ZONES = [(''extreme'', OVERSOLD, OVERBOUGHT), (''pullback'', PULLBACK_OVERSOLD, PULLBACK_OVERBOUGHT)]"

section \<open>Indicators\<close>

record trend_ind =
  ti_ema :: "nat \<Rightarrow> rat list \<Rightarrow> rat list"
  ti_wilder :: "nat \<Rightarrow> rat list \<Rightarrow> rat list"

record trow = bar +
  r_time :: string
  r_ema200 :: rat
  r_ema50 :: rat
  r_rsi :: "rat option"
  r_rsi_prev :: "rat option"
  r_atr :: "rat option"

definition diffs :: "rat list \<Rightarrow> rat list" where
  "diffs xs = map2 fsub (tl xs) xs"

text \<open>
  A zero loss is replaced by \<open>pd.NA\<close>, so the quotient is missing; the pure-gain case is then set to 100. What
  stays missing (\<open>None\<close>) is \<open>pd.NA\<close> where neither a gain nor a loss has been seen.
\<close>

definition rsi_of :: "rat \<Rightarrow> rat \<Rightarrow> rat option" where
  "rsi_of gain loss =
     (if loss = 0 then (if 0 < gain then Some 100 else None)
      else Some (fsub 100 (fdiv 100 (fadd 1 (fdiv gain loss)))))"

definition trend_rsi_series :: "trend_ind \<Rightarrow> nat \<Rightarrow> rat list \<Rightarrow> rat option list" where
  "trend_rsi_series ind w closes =
     (if closes = [] then []
      else None # map2 rsi_of (ti_wilder ind w (map (\<lambda>d. max d 0) (diffs closes)))
                              (ti_wilder ind w (map (\<lambda>d. - min d 0) (diffs closes))))"

definition tr_of :: "rat option \<Rightarrow> bar \<Rightarrow> rat" where
  "tr_of prev b =
     (case prev of
        None \<Rightarrow> fsub (bhigh b) (blow b)
      | Some c \<Rightarrow> max (fsub (bhigh b) (blow b)) (max \<bar>fsub (bhigh b) c\<bar> \<bar>fsub (blow b) c\<bar>))"

definition atr_series :: "trend_ind \<Rightarrow> nat \<Rightarrow> bar list \<Rightarrow> rat list" where
  "atr_series ind w bars = ti_wilder ind w (map2 tr_of (None # map (Some \<circ> bclose) bars) bars)"

definition compute_indicators :: "trend_ind \<Rightarrow> (string \<times> bar) list \<Rightarrow> trow list" where
  "compute_indicators ind rows =
     (let bars = map snd rows; closes = map bclose bars;
          rsis = trend_rsi_series ind RSI_WINDOW closes;
          cols = zip (ti_ema ind EMA_TREND_SPAN closes) (zip (ti_ema ind EMA_FAST_SPAN closes)
                   (zip rsis (zip (None # rsis) (atr_series ind ATR_WINDOW bars))))
      in map2 (\<lambda>(t, b) (e200, e50, r, rp, a).
           \<lparr>bopen = bopen b, bhigh = bhigh b, blow = blow b, bclose = bclose b, bvol = bvol b,
            r_time = t, r_ema200 = e200, r_ema50 = e50, r_rsi = r, r_rsi_prev = rp, r_atr = Some a\<rparr>) rows cols)"

section \<open>Quality\<close>

definition signal_quality :: "direction \<Rightarrow> rat \<Rightarrow> rat \<Rightarrow> rat \<Rightarrow> rat \<Rightarrow> rat \<Rightarrow> rat option \<Rightarrow> rat \<Rightarrow> rat" where
  "signal_quality d close ema200 ema50 rsi rsi_prev atr0 open_price =
     (case atr0 of
        None \<Rightarrow> 0
      | Some atr \<Rightarrow>
          if atr \<le> 0 then 0
          else
            let displacement = fdiv \<bar>fsub close ema200\<bar> atr;
                trend_score = fmul (fdiv (min displacement 10) 10) 40;
                ema50_ok = (if d = LONG then ema50 < close else close < ema50);
                ema50_score = (if ema50_ok then 20 else 0);
                rsi_momentum = \<bar>fsub rsi rsi_prev\<bar>;
                rsi_score = fmul (fdiv (min rsi_momentum 20) 20) 25;
                color_ok = (if d = LONG then open_price < close else close < open_price);
                color_score = (if color_ok then 15 else 0)
            in min (fadd (fadd (fadd trend_score ema50_score) rsi_score) color_score) 100)"

section \<open>Signals\<close>

record tsignal =
  g_direction :: direction
  g_entry :: rat
  g_stop :: rat
  g_target :: rat
  g_atr :: rat
  g_rsi :: rat
  g_quality :: rat
  g_time :: string
  g_index :: nat

record core_signal = tsignal +
  g_rsi_prev :: rat

record detect_params =
  dp_use_ema50 :: bool
  dp_color :: bool
  dp_atr_mult :: rat
  dp_zone :: string
  dp_rr :: rat
  dp_min_quality :: rat
  dp_short_min :: rat

definition DEFAULT_DETECT :: detect_params where
  "DEFAULT_DETECT = \<lparr>dp_use_ema50 = False, dp_color = False, dp_atr_mult = 1, dp_zone = ''extreme'', dp_rr = REWARD_RISK,
     dp_min_quality = 0, dp_short_min = 65\<rparr>"

definition zone_of :: "string \<Rightarrow> rat \<times> rat" where
  "zone_of z = get_default RSI_ZONES z (OVERSOLD, OVERBOUGHT)"

text \<open>One bar of the scan, once its RSI has been read; \<open>None\<close> is every \<open>continue\<close>.\<close>

definition signal_at :: "detect_params \<Rightarrow> nat \<Rightarrow> trow \<Rightarrow> core_signal option" where
  "signal_at p i row =
     (case (r_rsi row, r_rsi_prev row, r_atr row) of
        (Some rsi_now, Some rsi_prev, Some atr) \<Rightarrow>
          let (oversold, overbought) = zone_of (dp_zone p);
              close = bclose row;
              crossed_up = (rsi_prev \<le> oversold \<and> oversold < rsi_now);
              crossed_down = (overbought \<le> rsi_prev \<and> rsi_now < overbought)
          in if \<not> (crossed_up \<or> crossed_down) then None
             else if crossed_up \<and> r_ema200 row < close then
               (if dp_use_ema50 p \<and> \<not> r_ema50 row < close then None
                else if dp_color p \<and> \<not> bopen row < close then None
                else let stop = fsub (blow row) (fmul (dp_atr_mult p) atr); risk = fsub close stop
                     in if risk \<le> 0 then None
                        else Some \<lparr>g_direction = LONG, g_entry = close, g_stop = stop,
                               g_target = fadd close (fmul (dp_rr p) risk), g_atr = atr, g_rsi = rsi_now,
                               g_quality = signal_quality LONG close (r_ema200 row) (r_ema50 row) rsi_now rsi_prev (Some atr) (bopen row),
                               g_time = r_time row, g_index = i, g_rsi_prev = rsi_prev\<rparr>)
             else if crossed_down \<and> close < r_ema200 row then
               (if dp_use_ema50 p \<and> \<not> close < r_ema50 row then None
                else if dp_color p \<and> \<not> close < bopen row then None
                else if 0 < dp_short_min p \<and> rsi_prev < dp_short_min p then None
                else let stop = fadd (bhigh row) (fmul (dp_atr_mult p) atr); risk = fsub stop close
                     in if risk \<le> 0 then None
                        else Some \<lparr>g_direction = SHORT, g_entry = close, g_stop = stop,
                               g_target = fsub close (fmul (dp_rr p) risk), g_atr = atr, g_rsi = rsi_now,
                               g_quality = signal_quality SHORT close (r_ema200 row) (r_ema50 row) rsi_now rsi_prev (Some atr) (bopen row),
                               g_time = r_time row, g_index = i, g_rsi_prev = rsi_prev\<rparr>)
             else None
      | _ \<Rightarrow> None)"

text \<open>
  The scan reads \<open>float(row["rsi"])\<close> before it asks whether the value is missing, and \<open>float\<close> of \<open>pd.NA\<close> is a
  \<open>TypeError\<close>: \<open>None\<close> is that exception.
\<close>

definition scan_rows :: "detect_params \<Rightarrow> trow list \<Rightarrow> core_signal list option" where
  "scan_rows p data =
     (let min_qs = max 0 (min (dp_min_quality p) 100)
      in if list_ex (\<lambda>i. r_rsi (data ! i) = None) [WARMUP_BARS..<length data] then None
         else Some (filter (\<lambda>s. min_qs \<le> g_quality s)
           (List.map_filter (\<lambda>i. signal_at p i (data ! i)) [WARMUP_BARS..<length data])))"

definition detect_signals_core :: "trend_ind \<Rightarrow> (string \<times> bar) list \<Rightarrow> detect_params \<Rightarrow> core_signal list option" where
  "detect_signals_core ind rows p =
     (if length rows \<le> WARMUP_BARS then Some [] else scan_rows p (compute_indicators ind rows))"

text \<open>The legacy wrapper drops the previous RSI.\<close>

definition detect_signals :: "trend_ind \<Rightarrow> (string \<times> bar) list \<Rightarrow> detect_params \<Rightarrow> tsignal list option" where
  "detect_signals ind rows p = map_option (map tsignal.truncate) (detect_signals_core ind rows p)"

section \<open>The latest state\<close>

datatype trend = Bullish | Bearish | Neutral

record trend_state =
  ts_time :: string
  ts_close :: rat
  ts_ema200 :: rat
  ts_ema50 :: rat
  ts_rsi :: "rat option"
  ts_atr :: "rat option"
  ts_trend :: trend
  ts_deviation :: rat
  ts_entangled :: bool

definition current_state_core :: "trend_ind \<Rightarrow> (string \<times> bar) list \<Rightarrow> trend_state option" where
  "current_state_core ind rows =
     (if length rows \<le> WARMUP_BARS then None
      else let row = last (compute_indicators ind rows); close = bclose row; ema200 = r_ema200 row
           in Some \<lparr>ts_time = r_time row, ts_close = close, ts_ema200 = ema200, ts_ema50 = r_ema50 row,
                    ts_rsi = r_rsi row, ts_atr = r_atr row,
                    ts_trend = (if ema200 < close then Bullish else if close < ema200 then Bearish else Neutral),
                    ts_deviation = (if ema200 \<noteq> 0 then fmul (fdiv (fsub close ema200) ema200) 100 else 0),
                    ts_entangled = (case r_atr row of None \<Rightarrow> False | Some a \<Rightarrow> \<bar>fsub close ema200\<bar> < fmul (1 / 2) a)\<rparr>)"

section \<open>The Freqtrade adapter\<close>

text \<open>
  The hyperopt values and class attributes the conditions read. A comparison with a missing value is
  false, as in the data frame.
\<close>

record ft_params =
  fp_atr_mult :: rat
  fp_zone :: string
  fp_short_min :: rat
  fp_use_ema50 :: bool
  fp_color :: bool
  fp_ttl :: int

definition ft_zone :: "ft_params \<Rightarrow> rat \<times> rat" where
  "ft_zone p = get_default RSI_ZONES (fp_zone p) (OVERSOLD, OVERBOUGHT)"

definition cross_up :: "ft_params \<Rightarrow> trow \<Rightarrow> bool" where
  "cross_up p row = (case (r_rsi_prev row, r_rsi row) of
     (Some rp, Some r) \<Rightarrow> rp \<le> fst (ft_zone p) \<and> fst (ft_zone p) < r | _ \<Rightarrow> False)"

definition cross_down :: "ft_params \<Rightarrow> trow \<Rightarrow> bool" where
  "cross_down p row = (case (r_rsi_prev row, r_rsi row) of
     (Some rp, Some r) \<Rightarrow> snd (ft_zone p) \<le> rp \<and> r < snd (ft_zone p) | _ \<Rightarrow> False)"

definition atr_floor_ok :: "ft_params \<Rightarrow> trow \<Rightarrow> bool" where
  "atr_floor_ok p row = (case r_atr row of
     None \<Rightarrow> False | Some a \<Rightarrow> fmul (fl (5 / 1000)) (fp_atr_mult p) \<le> fdiv a (bclose row))"

definition enter_long :: "ft_params \<Rightarrow> trow \<Rightarrow> bool" where
  "enter_long p row =
     (r_ema200 row < bclose row \<and> cross_up p row \<and> atr_floor_ok p row
      \<and> (\<not> fp_use_ema50 p \<or> r_ema50 row < bclose row) \<and> (\<not> fp_color p \<or> bopen row < bclose row) \<and> 0 < bvol row)"

definition enter_short :: "ft_params \<Rightarrow> trow \<Rightarrow> bool" where
  "enter_short p row =
     (bclose row < r_ema200 row \<and> cross_down p row \<and> atr_floor_ok p row
      \<and> (\<not> fp_use_ema50 p \<or> bclose row < r_ema50 row)
      \<and> (case r_rsi_prev row of None \<Rightarrow> False | Some rp \<Rightarrow> fp_short_min p \<le> rp) \<and> 0 < bvol row)"

definition exit_long :: "ft_params \<Rightarrow> trow \<Rightarrow> bool" where
  "exit_long p row = ((case r_rsi row of None \<Rightarrow> False | Some r \<Rightarrow> snd (ft_zone p) \<le> r) \<and> bclose row < r_ema200 row \<and> 0 < bvol row)"

definition exit_short :: "ft_params \<Rightarrow> trow \<Rightarrow> bool" where
  "exit_short p row = ((case r_rsi row of None \<Rightarrow> False | Some r \<Rightarrow> r \<le> fst (ft_zone p)) \<and> r_ema200 row < bclose row \<and> 0 < bvol row)"

text \<open>
  \<open>custom_exit\<close>: the seconds since the trade opened (\<open>None\<close> without an opening date), and the RSI column
  of the pair's frame (\<open>None\<close>: no frame). The comparison with a missing RSI is false.
\<close>

definition custom_exit :: "ft_params \<Rightarrow> bool \<Rightarrow> rat option \<Rightarrow> rat option list option \<Rightarrow> string option" where
  "custom_exit p is_short elapsed rsis =
     (if 0 < fp_ttl p \<and> (case elapsed of None \<Rightarrow> False | Some s \<Rightarrow> fp_ttl p \<le> py_int (fdiv s 3600)) then Some ''ttl''
      else case rsis of
             None \<Rightarrow> None
           | Some col \<Rightarrow>
               if length col < 2 then None
               else case last col of
                      None \<Rightarrow> None
                    | Some r \<Rightarrow> if \<not> is_short \<and> snd (ft_zone p) \<le> r then Some ''rsi_extreme''
                               else if is_short \<and> r \<le> fst (ft_zone p) then Some ''rsi_extreme'' else None)"

section \<open>Lemmas\<close>

lemma fsub_pos_less: "0 < fsub x y \<Longrightarrow> y < x"
  using fl_nonpos[of "x - y"] by (auto simp: fsub_def not_le[symmetric])

lemma share_bounds:
  assumes "0 \<le> x" "0 < k" "is_float k" "0 \<le> w" "is_float w"
  shows "0 \<le> fmul (fdiv (min x k) k) w \<and> fmul (fdiv (min x k) k) w \<le> w"
proof -
  have "0 \<le> fdiv (min x k) k" using assms by (intro fdiv_nonneg) auto
  moreover have "fdiv (min x k) k \<le> 1" using assms by (intro fdiv_le_float) auto
  ultimately show ?thesis using assms by (auto intro!: fmul_nonneg fmul_le_float simp: mult_left_le_one_le)
qed

lemma signal_quality_range: "0 \<le> signal_quality d c e200 e50 r rp a op \<and> signal_quality d c e200 e50 r rp a op \<le> 100"
proof (cases a)
  case None
  then show ?thesis by (simp add: signal_quality_def)
next
  case (Some atr)
  define t where "t = fmul (fdiv (min (fdiv \<bar>fsub c e200\<bar> atr) 10) 10) 40"
  define u where "u = fmul (fdiv (min \<bar>fsub r rp\<bar> 20) 20) 25"
  have u: "0 \<le> u" unfolding u_def using share_bounds[of "\<bar>fsub r rp\<bar>" 20 25] by simp
  have t: "0 \<le> t" if "0 < atr" unfolding t_def
    using share_bounds[of "fdiv \<bar>fsub c e200\<bar> atr" 10 40] that by (simp add: fdiv_nonneg)
  show ?thesis
    using t u unfolding signal_quality_def Some option.case Let_def t_def[symmetric] u_def[symmetric]
    by (auto simp: not_le intro!: fadd_nonneg)
qed

lemma signal_at_cases:
  assumes "signal_at p i row = Some s"
  obtains r rp a where "r_rsi row = Some r" "r_rsi_prev row = Some rp" "r_atr row = Some a"
    "g_entry s = bclose row" "g_index s = i" "0 \<le> g_quality s" "g_quality s \<le> 100"
    "g_direction s = LONG \<and> rp \<le> fst (zone_of (dp_zone p)) \<and> fst (zone_of (dp_zone p)) < r \<and> r_ema200 row < bclose row
       \<and> g_stop s = fsub (blow row) (fmul (dp_atr_mult p) a) \<and> 0 < fsub (bclose row) (g_stop s)
       \<and> g_target s = fadd (bclose row) (fmul (dp_rr p) (fsub (bclose row) (g_stop s)))
     \<or> g_direction s = SHORT \<and> snd (zone_of (dp_zone p)) \<le> rp \<and> r < snd (zone_of (dp_zone p)) \<and> bclose row < r_ema200 row
       \<and> g_stop s = fadd (bhigh row) (fmul (dp_atr_mult p) a) \<and> 0 < fsub (g_stop s) (bclose row)
       \<and> g_target s = fsub (bclose row) (fmul (dp_rr p) (fsub (g_stop s) (bclose row)))"
proof -
  obtain r rp a where v: "r_rsi row = Some r" "r_rsi_prev row = Some rp" "r_atr row = Some a"
    using assms by (auto simp: signal_at_def split: option.splits)
  obtain lo hi where z: "zone_of (dp_zone p) = (lo, hi)" by (cases "zone_of (dp_zone p)")
  show ?thesis
    by (rule that[OF v]; use assms in \<open>auto simp: signal_at_def v z Let_def signal_quality_range not_le split: if_splits\<close>)
qed

lemma compute_indicators_length: "length (compute_indicators ind rows) \<le> length rows"
  by (simp add: compute_indicators_def Let_def)

lemma compute_indicators_close:
  "i < length (compute_indicators ind rows) \<Longrightarrow> bclose (compute_indicators ind rows ! i) = bclose (snd (rows ! i))"
  by (auto simp: compute_indicators_def Let_def split_def)

lemma in_map_filter: "s \<in> set (List.map_filter f xs) \<longleftrightarrow> (\<exists>i \<in> set xs. f i = Some s)"
  by (force simp: List.map_filter_def)

lemma map_filter_sorted:
  assumes "\<And>i s. f i = Some s \<Longrightarrow> g s = (i :: nat)"
  shows "sorted_wrt (<) xs \<Longrightarrow> sorted_wrt (<) (map g (List.map_filter f xs))"
proof (induction xs)
  case (Cons x xs)
  have "x < g s" if "s \<in> set (List.map_filter f xs)" for s
    using that Cons.prems assms by (auto simp: List.map_filter_def)
  then show ?case using Cons assms by (auto simp: List.map_filter_def split: option.splits)
qed (simp add: List.map_filter_def)

text \<open>The levels of a signal, for a reward-to-risk ratio that is not negative and closes that are floats.\<close>

definition levels_sound :: "core_signal \<Rightarrow> bool" where
  "levels_sound s = (case g_direction s of
     LONG \<Rightarrow> g_stop s < g_entry s \<and> g_entry s \<le> g_target s
   | SHORT \<Rightarrow> g_target s \<le> g_entry s \<and> g_entry s < g_stop s)"

lemma signal_at_levels:
  assumes s: "signal_at p i row = Some s" and rr: "0 \<le> dp_rr p" and cl: "is_float (bclose row)"
  shows "levels_sound s"
proof -
  have up: "bclose row \<le> fadd (bclose row) (fmul (dp_rr p) x)" if "0 < x" for x
    using rr that cl by (intro fadd_ge fmul_nonneg) auto
  have down: "fsub (bclose row) (fmul (dp_rr p) x) \<le> bclose row" if "0 < x" for x
    using rr that cl by (intro fsub_le fmul_nonneg) auto
  from s show ?thesis
    by (rule signal_at_cases) (use up down fsub_pos_less in \<open>auto simp: levels_sound_def\<close>)
qed

text \<open>From a ratio of two the target moves off the entry however close the stop is, in spite of the rounding.\<close>

definition target_beyond :: "core_signal \<Rightarrow> bool" where
  "target_beyond s = (case g_direction s of LONG \<Rightarrow> g_entry s < g_target s | SHORT \<Rightarrow> g_target s < g_entry s)"

lemma signal_at_target:
  assumes s: "signal_at p i row = Some s" and rr: "2 \<le> dp_rr p" and cl: "is_float (bclose row)" "0 < bclose row"
  shows "target_beyond s"
proof -
  note moves = double_gap_moves[OF cl _ _ rr refl]
  from s show ?thesis
  proof (rule signal_at_cases)
    fix r rp a
    assume lv: "g_direction s = LONG \<and> rp \<le> fst (zone_of (dp_zone p)) \<and> fst (zone_of (dp_zone p)) < r \<and> r_ema200 row < bclose row
       \<and> g_stop s = fsub (blow row) (fmul (dp_atr_mult p) a) \<and> 0 < fsub (bclose row) (g_stop s)
       \<and> g_target s = fadd (bclose row) (fmul (dp_rr p) (fsub (bclose row) (g_stop s)))
     \<or> g_direction s = SHORT \<and> snd (zone_of (dp_zone p)) \<le> rp \<and> r < snd (zone_of (dp_zone p)) \<and> bclose row < r_ema200 row
       \<and> g_stop s = fadd (bhigh row) (fmul (dp_atr_mult p) a) \<and> 0 < fsub (g_stop s) (bclose row)
       \<and> g_target s = fsub (bclose row) (fmul (dp_rr p) (fsub (g_stop s) (bclose row)))"
      and entry: "g_entry s = bclose row"
    have fs: "is_float (g_stop s)" using lv by auto
    from lv show ?thesis
    proof (elim disjE conjE)
      assume "g_direction s = LONG" "0 < fsub (bclose row) (g_stop s)"
        "g_target s = fadd (bclose row) (fmul (dp_rr p) (fsub (bclose row) (g_stop s)))"
      moreover from this have "g_stop s < bclose row" using fsub_pos_less by blast
      ultimately show ?thesis using moves(1)[OF fs] by (simp add: target_beyond_def entry max_def min_def)
    next
      assume "g_direction s = SHORT" "0 < fsub (g_stop s) (bclose row)"
        "g_target s = fsub (bclose row) (fmul (dp_rr p) (fsub (g_stop s) (bclose row)))"
      moreover from this have "bclose row < g_stop s" using fsub_pos_less by blast
      ultimately show ?thesis using moves(2)[OF fs] by (simp add: target_beyond_def entry max_def min_def)
    qed
  qed
qed

text \<open>
  C21: Every entry signal is executable. When the scan returns, each of its signals lies past the warm-up, one per bar
  and in bar order, enters at that bar's close, has its stop strictly on the losing side and its target
  not on the losing side of the entry (and strictly on the winning side from a reward-to-risk ratio of two, the default), and a
  quality score in [0, 100] not below the requested minimum. It returns unless a bar past the warm-up has a missing RSI.
\<close>

theorem detected_signals_executable:
  assumes rr: "0 \<le> dp_rr p" and closes: "\<forall>(t, b) \<in> set rows. is_float (bclose b) \<and> 0 < bclose b"
    and found: "detect_signals_core ind rows p = Some ss"
  shows "sorted_wrt (<) (map g_index ss)
    \<and> (\<forall>s \<in> set ss. WARMUP_BARS \<le> g_index s \<and> g_index s < length rows \<and> g_entry s = bclose (snd (rows ! g_index s))
         \<and> levels_sound s \<and> (2 \<le> dp_rr p \<longrightarrow> target_beyond s)
         \<and> 0 \<le> g_quality s \<and> g_quality s \<le> 100 \<and> min (dp_min_quality p) 100 \<le> g_quality s)"
proof -
  define data where "data = compute_indicators ind rows"
  define f where "f i = signal_at p i (data ! i)" for i
  have idx: "g_index s = i" if "f i = Some s" for i s using that unfolding f_def by (rule signal_at_cases)
  have srt: "sorted_wrt (<) (map g_index (filter Q (List.map_filter f [WARMUP_BARS..<n])))" for Q n
  proof -
    have "sorted_wrt (<) (map g_index (List.map_filter f [WARMUP_BARS..<n]))"
      by (rule map_filter_sorted[OF idx]) (auto simp: sorted_wrt_upt)
    then show ?thesis by (auto simp: sorted_wrt_map intro: sorted_wrt_filter)
  qed
  have each: "WARMUP_BARS \<le> g_index s \<and> g_index s < length rows \<and> g_entry s = bclose (snd (rows ! g_index s))
      \<and> levels_sound s \<and> (2 \<le> dp_rr p \<longrightarrow> target_beyond s) \<and> 0 \<le> g_quality s \<and> g_quality s \<le> 100"
    if mem: "s \<in> set (List.map_filter f [WARMUP_BARS..<length data])" for s
  proof -
    obtain i where "i \<in> set [WARMUP_BARS..<length data]" "f i = Some s" using mem unfolding in_map_filter by blast
    then have i: "WARMUP_BARS \<le> i" "i < length data" "signal_at p i (data ! i) = Some s" by (simp_all add: f_def)
    have il: "i < length rows" using i(2) compute_indicators_length[of ind rows] by (simp add: data_def)
    have c: "bclose (data ! i) = bclose (snd (rows ! i))" using i(2) compute_indicators_close by (simp add: data_def)
    have "rows ! i \<in> set rows" using il by simp
    then have fc: "is_float (bclose (snd (rows ! i)))" "0 < bclose (snd (rows ! i))" using closes by (force simp: split_def)+
    then have "levels_sound s" using signal_at_levels[OF i(3) rr] c by simp
    moreover have "2 \<le> dp_rr p \<longrightarrow> target_beyond s" using signal_at_target[OF i(3)] fc c by simp
    moreover have "g_index s = i \<and> g_entry s = bclose (data ! i) \<and> 0 \<le> g_quality s \<and> g_quality s \<le> 100"
      using i(3) by (rule signal_at_cases) simp
    ultimately show ?thesis using i(1) il c by simp
  qed
  show ?thesis
  proof (cases "length rows \<le> WARMUP_BARS")
    case True
    then show ?thesis using found by (simp add: detect_signals_core_def)
  next
    case False
    then have eq: "ss = filter (\<lambda>s. max 0 (min (dp_min_quality p) 100) \<le> g_quality s)
        (List.map_filter f [WARMUP_BARS..<length data])"
      using found by (simp add: detect_signals_core_def scan_rows_def data_def[symmetric] f_def[abs_def] Let_def split: if_splits)
    show ?thesis unfolding eq using srt each by auto
  qed
qed

definition core_params :: "ft_params \<Rightarrow> detect_params" where
  "core_params p = \<lparr>dp_use_ema50 = fp_use_ema50 p, dp_color = False, dp_atr_mult = fp_atr_mult p, dp_zone = fp_zone p,
     dp_rr = REWARD_RISK, dp_min_quality = 0, dp_short_min = fp_short_min p\<rparr>"

lemma overbought_pos: "60 \<le> snd (ft_zone p)"
  by (auto simp: ft_zone_def RSI_ZONES_def get_default_def OVERBOUGHT_def PULLBACK_OVERBOUGHT_def)

lemma zone_not_both: "fst (ft_zone p) < snd (ft_zone p)"
  by (auto simp: ft_zone_def RSI_ZONES_def get_default_def OVERBOUGHT_def PULLBACK_OVERBOUGHT_def OVERSOLD_def PULLBACK_OVERSOLD_def)

lemma core_zone: "zone_of (dp_zone (core_params p)) = ft_zone p"
  by (simp add: zone_of_def core_params_def ft_zone_def)

lemma core_params_simps [simp]:
  "dp_use_ema50 (core_params p) = fp_use_ema50 p" "\<not> dp_color (core_params p)"
  "dp_atr_mult (core_params p) = fp_atr_mult p" "dp_rr (core_params p) = REWARD_RISK"
  "dp_short_min (core_params p) = fp_short_min p"
  by (simp_all add: core_params_def)

text \<open>
  The Freqtrade adapter trades the core's signals behind a volatility floor. On a complete row whose
  stops keep a distance, and without the candle-colour option, the adapter opens a long (short) exactly
  when the core's scan signals one, the bar has volume, and the range exceeds the adapter's own floor
  of half a percent of the price per unit of the multiplier, a condition the core does not have.
\<close>

theorem freqtrade_entries_are_filtered_core:
  assumes row: "r_rsi row = Some r" "r_rsi_prev row = Some rp" "r_atr row = Some a"
    and color: "\<not> fp_color p"
    and stops: "0 < fsub (bclose row) (fsub (blow row) (fmul (fp_atr_mult p) a))"
      "0 < fsub (fadd (bhigh row) (fmul (fp_atr_mult p) a)) (bclose row)"
  shows "enter_long p row = (map_option g_direction (signal_at (core_params p) i row) = Some LONG \<and> atr_floor_ok p row \<and> 0 < bvol row)
    \<and> enter_short p row = (map_option g_direction (signal_at (core_params p) i row) = Some SHORT \<and> atr_floor_ok p row \<and> 0 < bvol row)"
proof -
  obtain lo hi where z: "ft_zone p = (lo, hi)" by (cases "ft_zone p")
  have hi: "60 \<le> hi" "lo < hi" using overbought_pos[of p] zone_not_both[of p] by (simp_all add: z)
  have short: "fp_short_min p \<le> rp" if "\<not> (0 < fp_short_min p \<and> rp < fp_short_min p)" "hi \<le> rp"
    using that hi by linarith
  have "map_option g_direction (signal_at (core_params p) i row) = Some LONG
      \<longleftrightarrow> rp \<le> lo \<and> lo < r \<and> r_ema200 row < bclose row \<and> (\<not> fp_use_ema50 p \<or> r_ema50 row < bclose row)"
    using stops hi(2) by (auto simp: signal_at_def row core_zone z Let_def not_le)
  moreover have "map_option g_direction (signal_at (core_params p) i row) = Some SHORT
      \<longleftrightarrow> hi \<le> rp \<and> r < hi \<and> bclose row < r_ema200 row \<and> (\<not> fp_use_ema50 p \<or> bclose row < r_ema50 row) \<and> fp_short_min p \<le> rp"
    using stops hi short by (auto simp: signal_at_def row core_zone z Let_def not_le not_less)
  ultimately show ?thesis using color
    by (auto simp: enter_long_def enter_short_def cross_up_def cross_down_def row z)
qed

section \<open>Witnesses\<close>

definition demo_trow :: "rat \<Rightarrow> trow" where
  "demo_trow a = \<lparr>bopen = 100, bhigh = 102, blow = 98, bclose = 100, bvol = 5, r_time = ''t'', r_ema200 = 90, r_ema50 = 95,
     r_rsi = Some 31, r_rsi_prev = Some 29, r_atr = Some a\<rparr>"

definition demo_ft :: ft_params where
  "demo_ft = \<lparr>fp_atr_mult = 1, fp_zone = ''extreme'', fp_short_min = 65, fp_use_ema50 = False, fp_color = False, fp_ttl = 0\<rparr>"

lemma demo_trow_signal: "map_option g_direction (signal_at (core_params demo_ft) 0 (demo_trow (1 / 4))) = Some LONG"
  by code_simp

text \<open>A quiet bar: the core signals a long, the adapter's floor refuses it.\<close>

theorem freqtrade_entries_are_filtered_core_witness:
  "map_option g_direction (signal_at (core_params demo_ft) 0 (demo_trow (1 / 4))) = Some LONG \<and> \<not> enter_long demo_ft (demo_trow (1 / 4))"
proof -
  have "0 < fsub (bclose (demo_trow (1 / 4))) (fsub (blow (demo_trow (1 / 4))) (fmul (fp_atr_mult demo_ft) (1 / 4)))"
    "0 < fsub (fadd (bhigh (demo_trow (1 / 4))) (fmul (fp_atr_mult demo_ft) (1 / 4))) (bclose (demo_trow (1 / 4)))"
    "\<not> atr_floor_ok demo_ft (demo_trow (1 / 4))"
    by code_simp+
  then show ?thesis
    using freqtrade_entries_are_filtered_core[of "demo_trow (1 / 4)" 31 29 "1 / 4" demo_ft 0] demo_trow_signal
    by (simp add: demo_trow_def demo_ft_def)
qed

text \<open>A frame of 201 bars and means under which the last bar gives a long signal.\<close>

definition plan_bar :: "rat \<Rightarrow> string \<times> bar" where
  "plan_bar p = (''t'', \<lparr>bopen = 106, bhigh = 112, blow = 104, bclose = p, bvol = 1\<rparr>)"

definition plan_rows :: "(string \<times> bar) list" where
  "plan_rows = plan_bar 105 # replicate 200 (plan_bar 110)"

definition plan_wilder :: "nat \<Rightarrow> rat list \<Rightarrow> rat list" where
  "plan_wilder n xs =
     (if length xs = 201 then replicate 201 8
      else if 0 < hd xs then replicate 199 0 @ [1] else replicate 199 1 @ [0])"

definition plan_ind :: trend_ind where
  "plan_ind = \<lparr>ti_ema = (\<lambda>n xs. replicate 201 (if n = 200 then 100 else 105)), ti_wilder = plan_wilder\<rparr>"

lemma plan_rows_closes: "map bclose (map snd plan_rows) = 105 # replicate 200 110" "length plan_rows = 201"
  by (simp_all add: plan_rows_def plan_bar_def)

lemma plan_rsis:
  "trend_rsi_series plan_ind RSI_WINDOW (105 # replicate 200 110) = None # replicate 199 (Some 0) @ [Some 100]"
proof -
  have d: "diffs (105 # replicate 200 110) = fsub 110 105 # replicate 199 (fsub 110 110)"
    by (simp add: diffs_def zip_Cons1 numeral_eq_Suc)
  have f: "fsub 110 105 = 5" by (simp add: fsub_def fl_of_numeral)
  have g: "plan_wilder RSI_WINDOW (map (\<lambda>d. max d 0) (diffs (105 # replicate 200 110))) = replicate 199 0 @ [1]"
    and l: "plan_wilder RSI_WINDOW (map (\<lambda>d. - min d 0) (diffs (105 # replicate 200 110))) = replicate 199 1 @ [0]"
    unfolding d by (simp_all add: plan_wilder_def f)
  have r: "rsi_of 0 1 = Some 0" "rsi_of 1 0 = Some 100" by code_simp+
  show ?thesis
    unfolding trend_rsi_series_def plan_ind_def trend_ind.simps g l
    by (simp add: zip_append map_replicate_const zip_replicate r)
qed

lemma plan_row_200:
  "length (compute_indicators plan_ind plan_rows) = 201 \<and>
   compute_indicators plan_ind plan_rows ! 200 =
     \<lparr>bopen = 106, bhigh = 112, blow = 104, bclose = 110, bvol = 1, r_time = ''t'', r_ema200 = 100, r_ema50 = 105,
      r_rsi = Some 100, r_rsi_prev = Some 0, r_atr = Some 8\<rparr>"
proof -
  have a: "atr_series plan_ind ATR_WINDOW (map snd plan_rows) = replicate 201 8"
    by (simp add: atr_series_def plan_ind_def plan_wilder_def plan_rows_closes)
  have r: "plan_rows ! 200 = plan_bar 110" by (simp add: plan_rows_def)
  have e: "ti_ema plan_ind EMA_TREND_SPAN xs = replicate 201 100" "ti_ema plan_ind EMA_FAST_SPAN xs = replicate 201 105" for xs
    by (simp_all add: plan_ind_def EMA_TREND_SPAN_def EMA_FAST_SPAN_def)
  show ?thesis
    unfolding compute_indicators_def Let_def plan_rows_closes plan_rsis e a
    by (simp add: plan_rows_closes r nth_append plan_bar_def)
qed

definition plan_row :: trow where
  "plan_row = \<lparr>bopen = 106, bhigh = 112, blow = 104, bclose = 110, bvol = 1, r_time = ''t'', r_ema200 = 100, r_ema50 = 105,
      r_rsi = Some 100, r_rsi_prev = Some 0, r_atr = Some 8\<rparr>"

definition plan_signal :: tsignal where
  "plan_signal = \<lparr>g_direction = LONG, g_entry = 110, g_stop = 96, g_target = 138, g_atr = 8, g_rsi = 100,
     g_quality = 65, g_time = ''t'', g_index = 200\<rparr>"

lemma plan_detected: "detect_signals plan_ind plan_rows DEFAULT_DETECT = Some [plan_signal]"
proof -
  have arith: "fdiv 10 8 = 5 / 4" "fdiv (5 / 4) 10 = 1 / 8" "fmul (1 / 8) 40 = 5" "fdiv 20 20 = 1" "fmul 1 25 = 25"
    "fmul 1 8 = 8" "fsub 104 8 = 96" "fsub 110 96 = 14" "fmul 2 14 = 28" "fadd 110 28 = 138" "fsub 110 100 = 10"
    "fsub 100 0 = 100" "fadd 5 20 = 25" "fadd 25 25 = 50" "fadd 50 15 = 65"
    using fl_dyadic[of 5 2] fl_dyadic[of 1 3] fl_dyadic[of 1 0]
    by (simp_all add: fdiv_def fmul_def fsub_def fadd_def fl_of_numeral)
  have q: "signal_quality LONG 110 100 105 100 0 (Some 8) 106 = 65"
    by (simp add: signal_quality_def Let_def arith)
  have s: "map_option tsignal.truncate (signal_at DEFAULT_DETECT 200 plan_row) = Some plan_signal"
    "map_option (\<lambda>s. 0 \<le> g_quality s) (signal_at DEFAULT_DETECT 200 plan_row) = Some True"
    by (simp_all add: signal_at_def plan_row_def DEFAULT_DETECT_def zone_of_def RSI_ZONES_def get_default_def OVERSOLD_def
        OVERBOUGHT_def REWARD_RISK_def Let_def arith q plan_signal_def tsignal.defs)
  have rsi: "r_rsi plan_row = Some 100" by (simp add: plan_row_def)
  from s obtain c where c: "signal_at DEFAULT_DETECT 200 plan_row = Some c" "tsignal.truncate c = plan_signal" "0 \<le> g_quality c"
    by auto
  have "[200..<201] = [200 :: nat]" by code_simp
  then show ?thesis
    using c plan_row_200 rsi
    by (simp add: detect_signals_def detect_signals_core_def scan_rows_def plan_rows_closes WARMUP_BARS_def
        EMA_TREND_SPAN_def map_filter_simps plan_row_def [symmetric] Let_def DEFAULT_DETECT_def)
qed

theorem detected_signals_executable_witness:
  "\<exists>s. detect_signals_core plan_ind plan_rows DEFAULT_DETECT = Some [s] \<and> g_direction s = LONG \<and> g_index s = 200
     \<and> target_beyond s \<and> levels_sound s"
proof -
  obtain s where s: "detect_signals_core plan_ind plan_rows DEFAULT_DETECT = Some [s]" "tsignal.truncate s = plan_signal"
    using plan_detected by (auto simp: detect_signals_def)
  have "\<forall>(t, b) \<in> set plan_rows. is_float (bclose b) \<and> 0 < bclose b" by (simp add: plan_rows_def plan_bar_def)
  from detected_signals_executable[OF _ this s(1)] have "target_beyond s \<and> levels_sound s"
    by (simp add: DEFAULT_DETECT_def REWARD_RISK_def)
  moreover have "g_direction s = LONG \<and> g_index s = 200"
    using s(2) by (cases s) (simp add: tsignal.defs plan_signal_def)
  ultimately show ?thesis using s(1) by blast
qed

text \<open>
  A history without a single move raises. With means that are zero on zeros, every RSI of a flat series is
  missing, and past the warm-up the scan raises its \<open>TypeError\<close> instead of finding no signal.
\<close>

lemma flat_series_raises:
  assumes flat: "\<forall>(t, b) \<in> set rows. bclose b = x" and long: "WARMUP_BARS < length rows"
    and zeros: "ti_wilder ind RSI_WINDOW (replicate (length rows - 1) 0) = replicate (length rows - 1) 0"
    and sizes: "length (ti_ema ind EMA_TREND_SPAN (replicate (length rows) x)) = length rows"
      "length (ti_ema ind EMA_FAST_SPAN (replicate (length rows) x)) = length rows"
      "length (atr_series ind ATR_WINDOW (map snd rows)) = length rows"
  shows "detect_signals_core ind rows p = None"
proof -
  let ?n = "length rows"
  have "map bclose (map snd rows) = map (\<lambda>_. x) rows" using flat by (auto simp: split_def)
  then have c: "map bclose (map snd rows) = replicate ?n x" by (simp only: map_replicate_const)
  have "diffs (replicate ?n x) = replicate (?n - 1) 0"
    unfolding diffs_def by (rule nth_equalityI) auto
  then have r: "trend_rsi_series ind RSI_WINDOW (replicate ?n x) = replicate ?n None"
    using long zeros by (cases ?n) (simp_all add: trend_rsi_series_def zip_replicate rsi_of_def)
  have "r_rsi (compute_indicators ind rows ! WARMUP_BARS) = None \<and> WARMUP_BARS < length (compute_indicators ind rows)"
    using long sizes unfolding compute_indicators_def Let_def c r by (simp add: split_def)
  then show ?thesis using long by (auto simp: detect_signals_core_def scan_rows_def list_ex_iff Let_def)
qed

end
