(* ===== verification/TrendTrade.thy ===== *)
theory TrendTrade
  imports TrendRsi
begin

text \<open>
  \<^verbatim>\<open>app/domain/rsi_trend_backtest.py\<close>: the event-driven simulator of the RSI trend strategy, with its
  partial exits, breakeven and trailing stop, trend-flip and time exits, and the aggregate of a run. The
  signals come from the scan of the same frame, so a signal's bar exists.
\<close>

section \<open>Trades\<close>

datatype exit_reason = ExitStop | ExitTarget | ExitPartialTarget | ExitRsiExtreme | ExitTrendFlip | ExitEnd | ExitTtl

record partial_exit =
  pe_fraction :: rat
  pe_price :: rat
  pe_r :: rat
  pe_reason :: exit_reason
  pe_time :: string

record strategy_trade =
  st_direction :: direction
  st_entry :: rat
  st_entry_time :: string
  st_stop :: rat
  st_target :: rat
  st_exit :: rat
  st_exit_time :: string
  st_reason :: exit_reason
  st_r :: rat
  st_bars :: int
  st_partials :: "partial_exit list"

datatype exit_ema = Ema200 | Ema50

record sim_options =
  so_partial :: bool
  so_trailing :: bool
  so_exit_ema :: exit_ema
  so_ttl :: int

definition r_multiple :: "direction \<Rightarrow> rat \<Rightarrow> rat \<Rightarrow> rat \<Rightarrow> rat" where
  "r_multiple d entry initial_stop price =
     (let risk = \<bar>fsub entry initial_stop\<bar>
      in if risk \<le> 0 then 0 else if d = LONG then fdiv (fsub price entry) risk else fdiv (fsub entry price) risk)"

section \<open>One bar\<close>

text \<open>What is still open of a position.\<close>

record open_pos =
  op_remaining :: rat
  op_realized :: rat
  op_stop :: rat
  op_t1 :: bool
  op_rsi :: bool
  op_trail :: bool
  op_partials :: "partial_exit list"

definition fresh_pos :: "tsignal \<Rightarrow> open_pos" where
  "fresh_pos s = \<lparr>op_remaining = 1, op_realized = 0, op_stop = g_stop s, op_t1 = False, op_rsi = False, op_trail = False, op_partials = []\<rparr>"

definition r_of :: "tsignal \<Rightarrow> rat \<Rightarrow> rat" where
  "r_of s price = r_multiple (g_direction s) (g_entry s) (g_stop s) price"

text \<open>A full exit at a price: the realised multiple it ends with.\<close>

definition close_all :: "tsignal \<Rightarrow> rat \<Rightarrow> open_pos \<Rightarrow> open_pos" where
  "close_all s price p = p\<lparr>op_realized := fadd (op_realized p) (fmul (op_remaining p) (r_of s price)), op_remaining := 0\<rparr>"

definition sell_half :: "tsignal \<Rightarrow> rat \<Rightarrow> exit_reason \<Rightarrow> string \<Rightarrow> open_pos \<Rightarrow> open_pos" where
  "sell_half s price reason time p =
     (let half = fmul (op_remaining p) (1 / 2); r = r_of s price
      in p\<lparr>op_realized := fadd (op_realized p) (fmul half r),
           op_partials := op_partials p @ [\<lparr>pe_fraction = half, pe_price = price, pe_r = fmul half r, pe_reason = reason, pe_time = time\<rparr>],
           op_remaining := fsub (op_remaining p) half\<rparr>)"

definition stop_hit :: "tsignal \<Rightarrow> trow \<Rightarrow> open_pos \<Rightarrow> bool" where
  "stop_hit s row p = (if g_direction s = LONG then blow row \<le> op_stop p else op_stop p \<le> bhigh row)"

definition target_hit :: "tsignal \<Rightarrow> trow \<Rightarrow> bool" where
  "target_hit s row = (if g_direction s = LONG then g_target s \<le> bhigh row else blow row \<le> g_target s)"

definition after_target :: "sim_options \<Rightarrow> tsignal \<Rightarrow> trow \<Rightarrow> open_pos \<Rightarrow> open_pos" where
  "after_target o0 s row p =
     (if target_hit s row \<and> \<not> op_t1 p
      then (sell_half s (g_target s) ExitPartialTarget (r_time row) p)\<lparr>op_t1 := True, op_stop := g_entry s, op_trail := so_trailing o0\<rparr>
      else p)"

definition after_rsi :: "sim_options \<Rightarrow> tsignal \<Rightarrow> trow \<Rightarrow> open_pos \<Rightarrow> open_pos" where
  "after_rsi o0 s row p =
     (case r_rsi row of
        None \<Rightarrow> p
      | Some rsi \<Rightarrow>
          if so_partial o0 \<and> op_t1 p \<and> \<not> op_rsi p \<and> (if g_direction s = LONG then OVERBOUGHT < rsi else rsi < OVERSOLD)
          then (sell_half s (bclose row) ExitRsiExtreme (r_time row) p)\<lparr>op_rsi := True\<rparr>
          else p)"

definition after_trail :: "tsignal \<Rightarrow> trow \<Rightarrow> open_pos \<Rightarrow> open_pos" where
  "after_trail s row p =
     (case r_atr row of
        None \<Rightarrow> p
      | Some atr \<Rightarrow>
          if \<not> op_trail p then p
          else if g_direction s = LONG then
            (let c = fsub (bclose row) atr in if op_stop p < c then p\<lparr>op_stop := c\<rparr> else p)
          else (let c = fadd (bclose row) atr in if c < op_stop p then p\<lparr>op_stop := c\<rparr> else p))"

definition trend_flipped :: "sim_options \<Rightarrow> tsignal \<Rightarrow> trow \<Rightarrow> bool" where
  "trend_flipped o0 s row =
     (let ema = (case so_exit_ema o0 of Ema200 \<Rightarrow> r_ema200 row | Ema50 \<Rightarrow> r_ema50 row)
      in if g_direction s = LONG then bclose row < ema else ema < bclose row)"

text \<open>\<open>Inl\<close>: closed, with the exit price and reason; \<open>Inr\<close>: still open after the bar.\<close>

definition trade_bar ::
    "sim_options \<Rightarrow> tsignal \<Rightarrow> nat \<Rightarrow> trow \<Rightarrow> open_pos \<Rightarrow> (open_pos \<times> rat \<times> exit_reason) + open_pos" where
  "trade_bar o0 s i row p =
     (if stop_hit s row p then Inl (close_all s (op_stop p) p, op_stop p, ExitStop)
      else if i = g_index s then Inr p
      else if target_hit s row \<and> \<not> op_t1 p \<and> \<not> so_partial o0
        then Inl (close_all s (g_target s) p, g_target s, ExitTarget)
      else
        let p1 = (if so_partial o0 then after_target o0 s row p else p);
            p2 = after_rsi o0 s row p1;
            p3 = after_trail s row p2
        in if trend_flipped o0 s row then Inl (close_all s (bclose row) p3, bclose row, ExitTrendFlip)
           else if 0 < so_ttl o0 \<and> so_ttl o0 \<le> int i - int (g_index s) then Inl (close_all s (bclose row) p3, bclose row, ExitTtl)
           else Inr p3)"

fun trade_bars ::
    "sim_options \<Rightarrow> tsignal \<Rightarrow> nat \<Rightarrow> trow list \<Rightarrow> open_pos \<Rightarrow> (open_pos \<times> rat \<times> exit_reason \<times> nat \<times> string) + open_pos" where
  "trade_bars o0 s i [] p = Inr p"
| "trade_bars o0 s i (row # rows) p =
     (case trade_bar o0 s i row p of
        Inl (q, price, reason) \<Rightarrow> Inl (q, price, reason, i, r_time row)
      | Inr q \<Rightarrow> trade_bars o0 s (i + 1) rows q)"

definition simulate_signal :: "sim_options \<Rightarrow> trow list \<Rightarrow> tsignal \<Rightarrow> strategy_trade" where
  "simulate_signal o0 data s =
     (let (q, price, reason, i, time) =
        (case trade_bars o0 s (g_index s) (drop (g_index s) data) (fresh_pos s) of
           Inl x \<Rightarrow> x
         | Inr p \<Rightarrow> (close_all s (bclose (last data)) p, bclose (last data), ExitEnd, length data - 1, r_time (last data)))
      in \<lparr>st_direction = g_direction s, st_entry = g_entry s, st_entry_time = g_time s, st_stop = g_stop s, st_target = g_target s,
          st_exit = price, st_exit_time = time, st_reason = reason, st_r = op_realized q, st_bars = int i - int (g_index s),
          st_partials = op_partials q\<rparr>)"

section \<open>A run\<close>

text \<open>\<open>PfNone\<close>: no winning and no losing trade; \<open>PfInf\<close>: winners only.\<close>

datatype profit_ratio = PfNone | PfInf | PfVal rat

record trend_result =
  tr_signals :: nat
  tr_trades :: "strategy_trade list"
  tr_wins :: nat
  tr_losses :: nat
  tr_scratches :: nat
  tr_win_rate :: rat
  tr_avg_r :: rat
  tr_total_r :: rat
  tr_profit :: profit_ratio
  tr_max_dd :: rat
  tr_avg_bars :: rat

fun take_signals :: "sim_options \<Rightarrow> trow list \<Rightarrow> int \<Rightarrow> tsignal list \<Rightarrow> (tsignal \<times> strategy_trade) list" where
  "take_signals o0 data open_until [] = []"
| "take_signals o0 data open_until (s # ss) =
     (if int (g_index s) \<le> open_until then take_signals o0 data open_until ss
      else let t = simulate_signal o0 data s in (s, t) # take_signals o0 data (int (g_index s) + st_bars t) ss)"

fun dd_walk :: "rat list \<Rightarrow> rat \<Rightarrow> rat \<Rightarrow> rat \<Rightarrow> rat" where
  "dd_walk [] cumulative peak max_dd = max_dd"
| "dd_walk (r # rs) cumulative peak max_dd =
     (let c = fadd cumulative r; pk = max peak c in dd_walk rs c pk (max max_dd (fsub pk c)))"

definition summarize_trades :: "nat \<Rightarrow> strategy_trade list \<Rightarrow> trend_result" where
  "summarize_trades n_signals trades =
     (let rs = map st_r trades; n = length trades;
          wins = filter (\<lambda>r. 0 < r) rs; losses = filter (\<lambda>r. r < 0) rs;
          gross_win = fsum wins; gross_loss = \<bar>fsum losses\<bar>
      in \<lparr>tr_signals = n_signals, tr_trades = trades, tr_wins = length wins, tr_losses = length losses,
          tr_scratches = length (filter (\<lambda>r. r = 0) rs),
          tr_win_rate = (if n \<noteq> 0 then fdiv (of_nat (length wins)) (of_nat n) else 0),
          tr_avg_r = (if n \<noteq> 0 then fdiv (fsum rs) (of_nat n) else 0), tr_total_r = fsum rs,
          tr_profit = (if 0 < gross_loss then PfVal (fdiv gross_win gross_loss) else if gross_win = 0 then PfNone else PfInf),
          tr_max_dd = dd_walk rs 0 0 0,
          tr_avg_bars = (if n \<noteq> 0 then fdiv (of_int (sum_list (map st_bars trades))) (of_nat n) else 0)\<rparr>)"

definition run_trend_backtest :: "trend_ind \<Rightarrow> sim_options \<Rightarrow> (string \<times> bar) list \<Rightarrow> tsignal list \<Rightarrow> trend_result" where
  "run_trend_backtest ind o0 rows signals =
     summarize_trades (length signals) (map snd (take_signals o0 (compute_indicators ind rows) (- 1) signals))"

section \<open>A trade never loses more than its risk\<close>

definition keeps :: "tsignal \<Rightarrow> rat \<Rightarrow> bool" where
  "keeps s price = (if g_direction s = LONG then g_stop s \<le> price else price \<le> g_stop s)"

definition signal_ok :: "tsignal \<Rightarrow> bool" where
  "signal_ok s = (case g_direction s of
     LONG \<Rightarrow> g_stop s \<le> g_entry s \<and> g_entry s \<le> g_target s | SHORT \<Rightarrow> g_target s \<le> g_entry s \<and> g_entry s \<le> g_stop s)"

definition row_shape :: "trow \<Rightarrow> bool" where
  "row_shape row = (blow row \<le> bclose row \<and> bclose row \<le> bhigh row)"

lemma r_of_ge: "keeps s price \<Longrightarrow> - 1 \<le> r_of s price"
proof -
  assume k: "keeps s price"
  have ge: "- 1 \<le> fdiv (fsub a b) \<bar>fsub c d\<bar>" if "0 < \<bar>fsub c d\<bar>" "- \<bar>fsub c d\<bar> \<le> fsub a b" for a b c d
    using that unfolding fdiv_def by (intro float_le_fl) (simp_all add: pos_le_divide_eq)
  have neg: "fsub x y = - fsub y x" for x y by (simp add: fsub_def fl_minus[symmetric])
  show ?thesis
  proof (cases "g_direction s")
    case LONG
    then have "fsub (g_stop s) (g_entry s) \<le> fsub price (g_entry s)" using k by (intro fsub_mono) (auto simp: keeps_def)
    then have "- \<bar>fsub (g_entry s) (g_stop s)\<bar> \<le> fsub price (g_entry s)" using neg[of "g_stop s" "g_entry s"] by linarith
    then show ?thesis using LONG ge by (simp add: r_of_def r_multiple_def Let_def)
  next
    case SHORT
    then have "fsub (g_entry s) (g_stop s) \<le> fsub (g_entry s) price" using k by (intro fsub_mono) (auto simp: keeps_def)
    then have "- \<bar>fsub (g_entry s) (g_stop s)\<bar> \<le> fsub (g_entry s) price" by linarith
    then show ?thesis using SHORT ge by (simp add: r_of_def r_multiple_def Let_def)
  qed
qed

lemma r_of_target: "signal_ok s \<Longrightarrow> 0 \<le> r_of s (g_target s)"
  by (cases "g_direction s")
     (auto simp: signal_ok_def r_of_def r_multiple_def Let_def not_le intro!: fdiv_nonneg fsub_nonneg)

definition half_part :: rat where "half_part = 1 / 2"
definition quarter_part :: rat where "quarter_part = 1 / 4"

definition pos_inv :: "tsignal \<Rightarrow> open_pos \<Rightarrow> bool" where
  "pos_inv s p \<longleftrightarrow> keeps s (op_stop p) \<and>
     (\<not> op_t1 p \<and> \<not> op_rsi p \<and> op_remaining p = 1 \<and> op_realized p = 0
      \<or> op_t1 p \<and> \<not> op_rsi p \<and> op_remaining p = half_part \<and> 0 \<le> op_realized p
      \<or> op_t1 p \<and> op_rsi p \<and> op_remaining p = quarter_part \<and> - quarter_part \<le> op_realized p)"

lemma halves:
  "fmul 1 (1 / 2) = half_part" "fmul half_part (1 / 2) = quarter_part" "fsub 1 half_part = half_part"
  "fsub half_part quarter_part = quarter_part" "is_float half_part" "is_float quarter_part"
  "0 \<le> half_part" "0 \<le> quarter_part" "half_part \<le> 1" "quarter_part + quarter_part \<le> 1"
  unfolding half_part_def quarter_part_def by code_simp+

lemma scaled_ge: "0 \<le> k \<Longrightarrow> is_float k \<Longrightarrow> - 1 \<le> r \<Longrightarrow> - k \<le> fmul k r"
  unfolding fmul_def by (intro float_le_fl) (simp_all add: mult_left_mono[of "- 1" r k, simplified])

lemma close_all_ge:
  assumes "pos_inv s p" "keeps s price"
  shows "- 1 \<le> op_realized (close_all s price p)"
proof -
  have r: "- 1 \<le> r_of s price" using assms(2) by (rule r_of_ge)
  note scaled = scaled_ge[OF _ _ r]
  have add: "- 1 \<le> fadd x y" if "- 1 \<le> x + y" for x y
    unfolding fadd_def using that by (intro float_le_fl) simp_all
  from assms(1) consider "op_remaining p = 1" "op_realized p = 0" | "op_remaining p = half_part" "0 \<le> op_realized p"
    | "op_remaining p = quarter_part" "- quarter_part \<le> op_realized p"
    unfolding pos_inv_def by blast
  then have "- 1 \<le> op_realized p + fmul (op_remaining p) (r_of s price)"
  proof cases
    case 1
    then show ?thesis using scaled[of 1] by simp
  next
    case 2
    then show ?thesis using scaled[of half_part] halves(5,7,9) by simp
  next
    case 3
    then show ?thesis using scaled[of quarter_part] halves(6,8,10) by simp
  qed
  then show ?thesis by (simp add: close_all_def add)
qed

lemma keeps_trans: "keeps s a \<Longrightarrow> (if g_direction s = LONG then a \<le> b else b \<le> a) \<Longrightarrow> keeps s b"
  by (auto simp: keeps_def split: if_splits)

lemma not_hit_keeps: "pos_inv s p \<Longrightarrow> row_shape row \<Longrightarrow> \<not> stop_hit s row p \<Longrightarrow> keeps s (bclose row)"
  by (auto simp: pos_inv_def stop_hit_def row_shape_def keeps_def split: if_splits)

lemma keeps_entry: "signal_ok s \<Longrightarrow> keeps s (g_entry s)"
  by (cases "g_direction s") (auto simp: signal_ok_def keeps_def)

lemma keeps_target: "signal_ok s \<Longrightarrow> keeps s (g_target s)"
  by (cases "g_direction s") (auto simp: signal_ok_def keeps_def)

lemma after_target_inv:
  assumes "pos_inv s p" "signal_ok s"
  shows "pos_inv s (after_target o0 s row p)"
proof (cases "target_hit s row \<and> \<not> op_t1 p")
  case True
  then have p: "op_remaining p = 1" "op_realized p = 0" "\<not> op_rsi p" using assms(1) by (auto simp: pos_inv_def)
  have "0 \<le> fadd 0 (fmul half_part (r_of s (g_target s)))"
    using r_of_target[OF assms(2)] halves(7) by (intro fadd_nonneg fmul_nonneg) auto
  then show ?thesis using True p keeps_entry[OF assms(2)] halves by (simp add: after_target_def sell_half_def pos_inv_def Let_def)
qed (use assms in \<open>auto simp: after_target_def\<close>)

lemma after_rsi_inv:
  assumes "pos_inv s p" "keeps s (bclose row)"
  shows "pos_inv s (after_rsi o0 s row p)"
proof -
  have q: "- quarter_part \<le> fmul quarter_part (r_of s (bclose row))"
    using scaled_ge[of quarter_part] r_of_ge[OF assms(2)] halves(6,8) by simp
  have "- quarter_part \<le> fadd x (fmul quarter_part (r_of s (bclose row)))" if "0 \<le> x" for x
    unfolding fadd_def using that q halves(6) by (intro float_le_fl) auto
  then show ?thesis using assms(1) halves
    by (auto simp: after_rsi_def sell_half_def pos_inv_def Let_def split: option.splits)
qed

lemma after_trail_inv: "pos_inv s p \<Longrightarrow> pos_inv s (after_trail s row p)"
  by (auto simp: after_trail_def pos_inv_def keeps_def Let_def split: option.splits)

lemma trade_bar_inv:
  assumes "pos_inv s p" "signal_ok s" "row_shape row"
  shows "case trade_bar o0 s i row p of Inl (q, _) \<Rightarrow> - 1 \<le> op_realized q | Inr q \<Rightarrow> pos_inv s q \<and> keeps s (bclose row)"
proof (cases "stop_hit s row p")
  case True
  then show ?thesis using close_all_ge[OF assms(1)] assms(1) by (simp add: trade_bar_def pos_inv_def)
next
  case False
  have k: "keeps s (bclose row)" using not_hit_keeps[OF assms(1,3) False] .
  have inv: "pos_inv s (after_trail s row (after_rsi o0 s row (if so_partial o0 then after_target o0 s row p else p)))"
    using assms k by (auto intro!: after_trail_inv after_rsi_inv after_target_inv)
  show ?thesis
    using False k inv assms close_all_ge[OF inv k] close_all_ge[OF assms(1) keeps_target[OF assms(2)]]
    by (auto simp: trade_bar_def Let_def)
qed

lemma trade_bars_inv:
  "pos_inv s p \<Longrightarrow> signal_ok s \<Longrightarrow> list_all row_shape rows \<Longrightarrow>
     (case trade_bars o0 s i rows p of Inl (q, _) \<Rightarrow> - 1 \<le> op_realized q
      | Inr q \<Rightarrow> pos_inv s q \<and> (rows \<noteq> [] \<longrightarrow> keeps s (bclose (last rows))))"
proof (induction rows arbitrary: i p)
  case (Cons row rows)
  have b: "case trade_bar o0 s i row p of Inl (q, _) \<Rightarrow> - 1 \<le> op_realized q | Inr q \<Rightarrow> pos_inv s q \<and> keeps s (bclose row)"
    using trade_bar_inv[of s p row o0 i] Cons.prems by simp
  show ?case
  proof (cases "trade_bar o0 s i row p")
    case (Inl x)
    then show ?thesis using b by (cases x) auto
  next
    case (Inr q)
    then have "pos_inv s q" "keeps s (bclose row)" using b by auto
    then show ?thesis using Cons.IH[of q "i + 1"] Cons.prems Inr by (cases rows) (auto split: sum.splits)
  qed
qed simp

text \<open>
  C22: A trade never loses more than its risk. Whatever the options, the path of the bars and the partial
  exits, a signal whose stop and target are on their sides of the entry ends with a multiple of at
  least -1, in rounded arithmetic, on bars whose close lies between their low and high.
\<close>

theorem trade_loses_at_most_one_r:
  assumes "signal_ok s" "list_all row_shape data" "g_index s < length data"
  shows "- 1 \<le> st_r (simulate_signal o0 data s)"
proof -
  have fresh: "pos_inv s (fresh_pos s)" by (auto simp: pos_inv_def fresh_pos_def keeps_def)
  have shape: "list_all row_shape (drop (g_index s) data)" using assms(2) by (metis append_take_drop_id list_all_append)
  have ne: "drop (g_index s) data \<noteq> []" "last (drop (g_index s) data) = last data" using assms(3) by simp_all
  note run = trade_bars_inv[OF fresh assms(1) shape, of o0 "g_index s"]
  show ?thesis
  proof (cases "trade_bars o0 s (g_index s) (drop (g_index s) data) (fresh_pos s)")
    case (Inl x)
    then show ?thesis using run by (cases x) (auto simp: simulate_signal_def)
  next
    case (Inr p)
    then show ?thesis using run ne close_all_ge[of s p "bclose (last data)"] by (simp add: simulate_signal_def)
  qed
qed

section \<open>One position at a time\<close>

lemma trade_bars_index:
  "trade_bars o0 s i rows p = Inl (q, price, reason, j, time) \<Longrightarrow> i \<le> j \<and> j < i + length rows"
  by (induction rows arbitrary: i p) (auto split: sum.splits prod.splits, fastforce+)

lemma st_bars_range:
  assumes "g_index s < length data"
  shows "0 \<le> st_bars (simulate_signal o0 data s) \<and> int (g_index s) + st_bars (simulate_signal o0 data s) < int (length data)"
proof (cases "trade_bars o0 s (g_index s) (drop (g_index s) data) (fresh_pos s)")
  case (Inl x)
  obtain q price reason j time where x: "x = (q, price, reason, j, time)" by (rule prod_cases5)
  have "g_index s \<le> j \<and> j < g_index s + length (drop (g_index s) data)"
    using trade_bars_index Inl unfolding x by blast
  then show ?thesis using Inl assms by (auto simp: simulate_signal_def x)
next
  case (Inr p)
  then show ?thesis using assms by (auto simp: simulate_signal_def)
qed

lemma take_signals_after:
  "(s, t) \<in> set (take_signals o0 data u ss) \<Longrightarrow> \<forall>x \<in> set ss. g_index x < length data \<Longrightarrow>
     s \<in> set ss \<and> t = simulate_signal o0 data s \<and> u < int (g_index s)"
proof (induction ss arbitrary: u)
  case (Cons x ss)
  have "0 \<le> st_bars (simulate_signal o0 data x)" using st_bars_range[of x data o0] Cons.prems(2) by simp
  then show ?case using Cons.IH Cons.prems by (fastforce simp: Let_def split: if_splits)
qed simp

text \<open>
  Positions never overlap. In a run over the frame its signals come from, every simulated trade starts on
  its signal's bar and ends on a bar of the frame, and each trade starts strictly after the bar on which
  the previous one ended, so no two positions are ever open together.
\<close>

theorem positions_never_overlap:
  assumes "\<forall>x \<in> set ss. g_index x < length data"
  shows "sorted_wrt (\<lambda>(s, t) (s', t'). int (g_index s) + st_bars t < int (g_index s')) (take_signals o0 data u ss)
    \<and> list_all (\<lambda>(s, t). t = simulate_signal o0 data s \<and> 0 \<le> st_bars t
         \<and> int (g_index s) + st_bars t < int (length data)) (take_signals o0 data u ss)"
  using assms
proof (induction ss arbitrary: u)
  case (Cons x ss)
  let ?t = "simulate_signal o0 data x"
  have ok: "\<forall>x \<in> set ss. g_index x < length data" using Cons.prems by simp
  have x: "0 \<le> st_bars ?t" "int (g_index x) + st_bars ?t < int (length data)"
    using st_bars_range[of x data o0] Cons.prems by auto
  have "\<forall>(s, t) \<in> set (take_signals o0 data (int (g_index x) + st_bars ?t) ss). int (g_index x) + st_bars ?t < int (g_index s)"
    using take_signals_after[OF _ ok] by blast
  then show ?case using Cons.IH[OF ok] x by (auto simp: Let_def split_def)
qed simp

section \<open>Counts\<close>

lemma trade_counts:
  "let r = summarize_trades n ts in tr_wins r + tr_losses r + tr_scratches r = length ts"
proof -
  have "length (filter (\<lambda>r. 0 < r) rs) + length (filter (\<lambda>r. r < 0) rs) + length (filter (\<lambda>r. r = 0) rs) = length rs"
    for rs :: "rat list"
    by (induction rs) auto
  from this[of "map st_r ts"] show ?thesis by (simp add: summarize_trades_def Let_def)
qed

section \<open>Witnesses\<close>

definition demo_signal :: "nat \<Rightarrow> tsignal" where
  "demo_signal i = \<lparr>g_direction = LONG, g_entry = 100, g_stop = 98, g_target = 104, g_atr = 1, g_rsi = 31, g_quality = 50,
     g_time = ''t'', g_index = i\<rparr>"

definition demo_data :: "trow list" where
  "demo_data = [demo_trow 1, (demo_trow 1)\<lparr>blow := 99, bhigh := 105, bclose := 103\<rparr>, (demo_trow 1)\<lparr>blow := 97\<rparr>]"

definition demo_options :: sim_options where
  "demo_options = \<lparr>so_partial = True, so_trailing = True, so_exit_ema = Ema200, so_ttl = 0\<rparr>"

theorem trade_loses_at_most_one_r_witness:
  "- 1 \<le> st_r (simulate_signal demo_options demo_data (demo_signal 1))"
  by (rule trade_loses_at_most_one_r) (simp_all add: signal_ok_def demo_signal_def demo_data_def row_shape_def demo_trow_def)

theorem positions_never_overlap_witness:
  "sorted_wrt (\<lambda>(s, t) (s', t'). int (g_index s) + st_bars t < int (g_index s'))
     (take_signals demo_options demo_data (- 1) [demo_signal 0, demo_signal 1, demo_signal 2])"
  using positions_never_overlap[of "[demo_signal 0, demo_signal 1, demo_signal 2]" demo_data demo_options "- 1"]
  by (simp add: demo_signal_def demo_data_def del: take_signals.simps)

end
