(* ===== verification/TrendPlan.thy ===== *)
theory TrendPlan
  imports TrendTrade
begin

text \<open>
  The trading plan of the RSI trend strategy: \<^verbatim>\<open>app/domain/rsi_trend_plan.py\<close> (market overview,
  the four-layer decision, targets, position size, history), and the two services over it,
  \<^verbatim>\<open>app/services/rsi_trend_service.py\<close> (scan and backtest) and
  \<^verbatim>\<open>app/services/rsi_trend_plan_service.py\<close> (the plan of one request).

  The fetched frame, the stored position settings and the language model's reply are arguments;
  sentences are constructors that carry what they print.
\<close>

section \<open>Constants\<close>

definition DEVIATION_WATCH_PCT :: rat where "DEVIATION_WATCH_PCT = 15"
definition FRESH_BARS :: int where "FRESH_BARS = 3"
definition STALE_BARS :: int where "STALE_BARS = 12"
definition QUALITY_HARD_FLOOR :: rat where "QUALITY_HARD_FLOOR = 50"
definition ATR_LOW_PCT :: rat where "ATR_LOW_PCT = fl (8 / 10)"
definition ATR_HIGH_PCT :: rat where "ATR_HIGH_PCT = 3"
definition VOLATILITY_SIZE_REDUCTION :: rat where "VOLATILITY_SIZE_REDUCTION = 1 / 2"
definition CONF_W_TREND :: rat where "CONF_W_TREND = fl (35 / 100)"
definition CONF_W_QUALITY :: rat where "CONF_W_QUALITY = fl (30 / 100)"
definition CONF_W_RSI :: rat where "CONF_W_RSI = fl (20 / 100)"
definition CONF_W_FRESHNESS :: rat where "CONF_W_FRESHNESS = fl (15 / 100)"
definition TP1_WEIGHT :: rat where "TP1_WEIGHT = 1 / 2"
definition TP2_WEIGHT :: rat where "TP2_WEIGHT = fl (30 / 100)"
definition TP3_WEIGHT :: rat where "TP3_WEIGHT = fl (20 / 100)"
definition TP1_RISK_MULT :: rat where "TP1_RISK_MULT = 1"
definition TP2_RISK_MULT :: rat where "TP2_RISK_MULT = 2"
definition TP3_RISK_MULT :: rat where "TP3_RISK_MULT = 7 / 2"
definition WU_UNIT :: rat where "WU_UNIT = 10000"
definition DEFAULT_RISK_PCT :: rat where "DEFAULT_RISK_PCT = fl (1 / 100)"

definition RISK_BY_APPETITE :: "(string \<times> rat) list" where
  "RISK_BY_APPETITE = [(''conservative'', fl (5 / 1000)), (''balanced'', fl (1 / 100)), (''aggressive'', fl (15 / 1000))]"

section \<open>Market overview\<close>

datatype volatility = VolLow | VolNormal | VolHigh

datatype overview_note = PriceSide trend | HugsEma | FarFromEma rat | EmasEntangled

record MarketOverview =
  ov_trend :: trend
  ov_strength :: rat
  ov_close :: rat
  ov_ema200 :: rat
  ov_ema50 :: rat
  ov_deviation :: rat
  ov_rsi :: "rat option"
  ov_atr :: "rat option"
  ov_atr_pct :: "rat option"
  ov_volatility :: volatility
  ov_entangled :: bool
  ov_notes :: "overview_note list"

definition empty_overview :: MarketOverview where
  "empty_overview = \<lparr>ov_trend = Neutral, ov_strength = 0, ov_close = 0, ov_ema200 = 0, ov_ema50 = 0, ov_deviation = 0,
     ov_rsi = None, ov_atr = None, ov_atr_pct = None, ov_volatility = VolNormal, ov_entangled = False, ov_notes = []\<rparr>"

definition compute_trend_strength :: "rat \<Rightarrow> rat \<Rightarrow> rat \<Rightarrow> rat option \<Rightarrow> rat" where
  "compute_trend_strength close ema200 ema50 atr =
     (if ema200 \<le> 0 \<or> close \<le> 0 then 0
      else let alignment = (if (ema50 < close \<and> ema200 < ema50) \<or> (close < ema50 \<and> ema50 < ema200) then 1 / 2 else 0);
               deviation = min \<bar>fdiv (fsub close ema200) ema200\<bar> (fl (1 / 10));
               s0 = fmul (fdiv deviation (fl (1 / 10))) (1 / 2);
               s1 = (case atr of None \<Rightarrow> s0
                     | Some a \<Rightarrow> if a \<noteq> 0 \<and> \<bar>fsub close ema200\<bar> < fmul (1 / 2) a then fmul s0 (fl (4 / 10)) else s0)
           in pyround (min (fadd alignment s1) 1) 2)"

definition volatility_regime :: "rat option \<Rightarrow> rat \<Rightarrow> volatility" where
  "volatility_regime atr close =
     (case atr of None \<Rightarrow> VolNormal
      | Some a \<Rightarrow> if close \<le> 0 then VolNormal
          else let pct = fmul (fdiv a close) 100 in
            if pct < ATR_LOW_PCT then VolLow else if ATR_HIGH_PCT < pct then VolHigh else VolNormal)"

definition build_market_overview :: "trend_state option \<Rightarrow> MarketOverview" where
  "build_market_overview st =
     (case st of None \<Rightarrow> empty_overview
      | Some s \<Rightarrow>
          \<lparr>ov_trend = ts_trend s,
           ov_strength = compute_trend_strength (ts_close s) (ts_ema200 s) (ts_ema50 s) (ts_atr s),
           ov_close = ts_close s, ov_ema200 = ts_ema200 s, ov_ema50 = ts_ema50 s, ov_deviation = ts_deviation s,
           ov_rsi = ts_rsi s, ov_atr = ts_atr s,
           ov_atr_pct = (case ts_atr s of None \<Rightarrow> None
              | Some a \<Rightarrow> if a \<noteq> 0 \<and> ts_close s \<noteq> 0 then Some (pyround (fmul (fdiv a (ts_close s)) 100) 2) else None),
           ov_volatility = volatility_regime (ts_atr s) (ts_close s),
           ov_entangled = ts_entangled s,
           ov_notes = (if ts_trend s = Neutral then [HugsEma] else [PriceSide (ts_trend s)])
             @ (if ts_deviation s \<noteq> 0 \<and> 10 < \<bar>ts_deviation s\<bar> then [FarFromEma \<bar>ts_deviation s\<bar>] else [])
             @ (if ts_entangled s then [EmasEntangled] else [])\<rparr>)"

section \<open>Decision\<close>

datatype plan_action = Trade | Watch | NoTrade

datatype decision_reason = TrendNeutral | ChaseRisk rat | EntangledReason | NoRecentSignal
  | DirectionConflict direction trend | StaleSignal int | QualityTooLow rat | QualityPassed rat
  | RsiTriggered direction | OnTrendSide direction

datatype decision_warning = AgedSignal int | HighVolatility

datatype watch_goal = WaitBreakout | WaitPullback rat | WaitUntangle | WaitRsiSetup | WaitNewCross

record Decision =
  de_action :: plan_action
  de_direction :: "direction option"
  de_confidence :: rat
  de_reasons :: "decision_reason list"
  de_warnings :: "decision_warning list"
  de_watch_for :: "watch_goal option"

definition no_decision :: Decision where
  "no_decision = \<lparr>de_action = NoTrade, de_direction = None, de_confidence = 0, de_reasons = [], de_warnings = [],
     de_watch_for = None\<rparr>"

definition compute_confidence :: "rat \<Rightarrow> rat \<Rightarrow> int \<Rightarrow> rat" where
  "compute_confidence strength quality age =
     (let qs = fdiv quality 100;
          freshness = max 0 (fsub 1 (fdiv (of_int age) (of_int (STALE_BARS * 2))));
          rsi_momentum = fl (7 / 10);
          conf = fadd (fadd (fadd (fmul CONF_W_TREND strength) (fmul CONF_W_QUALITY qs))
                            (fmul CONF_W_RSI rsi_momentum))
                      (fmul CONF_W_FRESHNESS freshness)
      in min (max conf 0) 1)"

definition evaluate_decision :: "MarketOverview \<Rightarrow> tsignal option \<Rightarrow> rat \<Rightarrow> int \<Rightarrow> Decision" where
  "evaluate_decision ov latest quality age =
     (if ov_trend ov = Neutral
      then no_decision\<lparr>de_action := Watch, de_reasons := [TrendNeutral], de_watch_for := Some WaitBreakout\<rparr>
      else let dir = (if ov_trend ov = Bullish then LONG else SHORT) in
      if DEVIATION_WATCH_PCT \<le> \<bar>ov_deviation ov\<bar>
      then no_decision\<lparr>de_action := Watch, de_direction := Some dir, de_reasons := [ChaseRisk (ov_deviation ov)],
                       de_watch_for := Some (WaitPullback (ov_deviation ov))\<rparr>
      else if ov_entangled ov
      then no_decision\<lparr>de_action := Watch, de_direction := Some dir, de_reasons := [EntangledReason],
                       de_watch_for := Some WaitUntangle\<rparr>
      else case latest of
        None \<Rightarrow> no_decision\<lparr>de_reasons := [NoRecentSignal], de_watch_for := Some WaitRsiSetup\<rparr>
      | Some s \<Rightarrow>
        if g_direction s \<noteq> dir
        then no_decision\<lparr>de_reasons := [DirectionConflict (g_direction s) (ov_trend ov)]\<rparr>
        else if STALE_BARS < age
        then no_decision\<lparr>de_action := Watch, de_direction := Some dir, de_reasons := [StaleSignal age],
                         de_watch_for := Some WaitNewCross\<rparr>
        else if quality < QUALITY_HARD_FLOOR
        then no_decision\<lparr>de_reasons := [QualityTooLow quality]\<rparr>
        else \<lparr>de_action = Trade, de_direction = Some dir,
              de_confidence = pyround (compute_confidence (ov_strength ov) quality age) 2,
              de_reasons = [QualityPassed quality, RsiTriggered dir, OnTrendSide dir],
              de_warnings = (if FRESH_BARS < age then [AgedSignal age] else [])
                            @ (if ov_volatility ov = VolHigh then [HighVolatility] else []),
              de_watch_for = None\<rparr>)"

section \<open>Targets, position and history\<close>

record plan_target =
  pt_level :: string
  pt_price :: rat
  pt_rr :: rat
  pt_weight :: rat

text \<open>The direction is the empty string when the decision has none; anything but long is a short.\<close>

definition plan_targets :: "rat \<Rightarrow> rat \<Rightarrow> direction option \<Rightarrow> plan_target list" where
  "plan_targets entry stop d =
     (let risk = \<bar>fsub entry stop\<bar> in
      if risk \<le> 0 then []
      else let px = (\<lambda>m. pyround (fadd entry (fmul (if d = Some LONG then risk else - risk) m)) 8)
        in [\<lparr>pt_level = ''tp1'', pt_price = px TP1_RISK_MULT, pt_rr = pyround TP1_RISK_MULT 2, pt_weight = TP1_WEIGHT\<rparr>,
            \<lparr>pt_level = ''tp2'', pt_price = px TP2_RISK_MULT, pt_rr = pyround TP2_RISK_MULT 2, pt_weight = TP2_WEIGHT\<rparr>,
            \<lparr>pt_level = ''tp3'', pt_price = px TP3_RISK_MULT, pt_rr = pyround TP3_RISK_MULT 2, pt_weight = TP3_WEIGHT\<rparr>])"

datatype sizing_note = NoNote | HalvedForVolatility | NotConfigured | NoCapital

record PositionPlan =
  pp_risk_pct :: "rat option"
  pp_capital :: "rat option"
  pp_risk_wu :: "rat option"
  pp_size_wu :: "rat option"
  pp_size_u :: "rat option"
  pp_note :: sizing_note
  pp_configured :: bool

definition unsized :: "rat option \<Rightarrow> sizing_note \<Rightarrow> PositionPlan" where
  "unsized pct nt = \<lparr>pp_risk_pct = pct, pp_capital = None, pp_risk_wu = None, pp_size_wu = None, pp_size_u = None,
     pp_note = nt, pp_configured = False\<rparr>"

datatype plan_error = InvalidParams | MarketDataUnavailable | ZeroDivision | NoTarget | RsiTypeError

definition compute_position :: "rat \<Rightarrow> rat \<Rightarrow> rat \<Rightarrow> string \<Rightarrow> volatility \<Rightarrow> plan_error + PositionPlan" where
  "compute_position entry stop capital appetite vol =
     (let risk_pct = get_default RISK_BY_APPETITE appetite DEFAULT_RISK_PCT;
          risk_amount = fmul capital risk_pct
      in if entry = 0 then Inl ZeroDivision
         else let per_unit = fdiv \<bar>fsub entry stop\<bar> entry in
           if per_unit \<le> 0 then Inr (unsized (Some risk_pct) NoNote)
           else let size0 = fdiv risk_amount per_unit;
                    size = (if vol = VolHigh then fmul size0 VOLATILITY_SIZE_REDUCTION else size0)
             in Inr \<lparr>pp_risk_pct = Some (pyround (fmul risk_pct 100) 2), pp_capital = Some capital,
                     pp_risk_wu = Some (pyround risk_amount 2), pp_size_wu = Some (pyround size 2),
                     pp_size_u = Some (pyround (fdiv size WU_UNIT) 4),
                     pp_note = (if vol = VolHigh then HalvedForVolatility else NoNote), pp_configured = True\<rparr>)"

record history_summary =
  hs_count :: nat
  hs_longs :: nat
  hs_shorts :: nat
  hs_avg_quality :: rat
  hs_same_window_note :: bool

text \<open>\<open>None\<close> is the summary of an empty history, which has only the count and a sentence.\<close>

definition build_history_summary :: "tsignal list \<Rightarrow> history_summary option" where
  "build_history_summary ss =
     (if ss = [] then None
      else let n = length ss; longs = length (filter (\<lambda>s. g_direction s = LONG) ss)
        in Some \<lparr>hs_count = n, hs_longs = longs, hs_shorts = n - longs,
                 hs_avg_quality = pyround (fdiv (fsum (map g_quality ss)) (of_nat n)) 1,
                 hs_same_window_note = (n < 20)\<rparr>)"

section \<open>The scan service\<close>

text \<open>The frame the data source returned for the request, \<open>None\<close> for no data.\<close>

type_synonym frame = "(string \<times> bar) list"

record scan_core =
  sk_rows :: frame
  sk_state :: "trend_state option"
  sk_signals :: "tsignal list"

definition RECENT_SIGNALS_LIMIT :: nat where "RECENT_SIGNALS_LIMIT = 10"

definition require_rows :: "frame option \<Rightarrow> plan_error + frame" where
  "require_rows df =
     (case df of None \<Rightarrow> Inl MarketDataUnavailable
      | Some rows \<Rightarrow> if rows = [] then Inl MarketDataUnavailable
          else check (\<not> length rows \<le> WARMUP_BARS) InvalidParams (Inr rows))"

text \<open>The scan endpoint does not pass the short threshold: the detector's default applies.\<close>

definition scan_pipeline :: "trend_ind \<Rightarrow> detect_params \<Rightarrow> frame option \<Rightarrow> plan_error + scan_core" where
  "scan_pipeline ind p df =
     ebind (require_rows df) (\<lambda>rows.
       case detect_signals ind rows (p\<lparr>dp_short_min := dp_short_min DEFAULT_DETECT\<rparr>) of
         None \<Rightarrow> Inl RsiTypeError
       | Some ss \<Rightarrow> Inr \<lparr>sk_rows = rows, sk_state = current_state_core ind rows, sk_signals = ss\<rparr>)"

record scan_reply =
  sr_bars :: nat
  sr_state :: "trend_state option"
  sr_latest :: "tsignal option"
  sr_recent :: "tsignal list"

definition trend_scan :: "trend_ind \<Rightarrow> detect_params \<Rightarrow> frame option \<Rightarrow> plan_error + scan_reply" where
  "trend_scan ind p df =
     ebind (scan_pipeline ind p df) (\<lambda>core.
       let recent = rev (tail_rows RECENT_SIGNALS_LIMIT (sk_signals core)) in
       Inr \<lparr>sr_bars = length (sk_rows core), sr_state = sk_state core,
            sr_latest = (if recent = [] then None else Some (hd recent)), sr_recent = recent\<rparr>)"

datatype history_reply = HistoryValueError | HistoryRuntimeError | HistoryRows "frame option"

definition trend_backtest ::
  "trend_ind \<Rightarrow> detect_params \<Rightarrow> sim_options \<Rightarrow> history_reply \<Rightarrow> plan_error + (nat \<times> trend_result)" where
  "trend_backtest ind p opts reply =
     (case reply of HistoryValueError \<Rightarrow> Inl InvalidParams
      | HistoryRuntimeError \<Rightarrow> Inl MarketDataUnavailable
      | HistoryRows df \<Rightarrow>
          ebind (require_rows df) (\<lambda>rows.
            case detect_signals ind rows p of
              None \<Rightarrow> Inl RsiTypeError
            | Some ss \<Rightarrow> Inr (length rows, run_trend_backtest ind opts rows ss)))"

section \<open>The plan service\<close>

record position_settings =
  ps_capital :: rat
  ps_emergency :: rat
  ps_altcoin :: rat

definition derive_appetite :: "position_settings \<Rightarrow> string" where
  "derive_appetite cfg =
     (if fl (4 / 10) \<le> ps_emergency cfg then ''conservative''
      else if fl (2 / 10) \<le> ps_altcoin cfg then ''aggressive'' else ''balanced'')"

definition load_position ::
  "position_settings option \<Rightarrow> rat \<Rightarrow> rat \<Rightarrow> volatility \<Rightarrow> plan_error + PositionPlan" where
  "load_position cfg entry stop vol =
     (case cfg of None \<Rightarrow> Inr (unsized None NotConfigured)
      | Some c \<Rightarrow> if ps_capital c \<le> 0 then Inr (unsized None NoCapital)
          else compute_position entry stop (ps_capital c) (derive_appetite c) vol)"

definition TIME_STOP_BARS :: "(string \<times> nat) list" where
  "TIME_STOP_BARS = [(''4h'', 48), (''1d'', 20), (''1h'', 96), (''1w'', 8)]"

definition time_stop :: "string \<Rightarrow> nat" where
  "time_stop interval = get_default TIME_STOP_BARS interval 48"

datatype invalidation = TrendLost direction rat | StopCrossed direction rat | SignalReversed direction

definition invalidations :: "direction \<Rightarrow> rat \<Rightarrow> rat \<Rightarrow> invalidation list" where
  "invalidations d ema200 stop = [TrendLost d ema200, StopCrossed d stop, SignalReversed d]"

record plan_body =
  pb_entry :: rat
  pb_stop :: rat
  pb_distance_atr :: rat
  pb_targets :: "plan_target list"
  pb_risk_reward :: rat
  pb_position :: PositionPlan
  pb_time_stop :: nat
  pb_invalidation :: "invalidation list"

definition plan_of ::
  "position_settings option \<Rightarrow> string \<Rightarrow> MarketOverview \<Rightarrow> Decision \<Rightarrow> tsignal \<Rightarrow> plan_error + plan_body" where
  "plan_of cfg interval ov d s =
     (let entry = g_entry s; stop = g_stop s; atr = (if g_atr s = 0 then 1 else g_atr s);
          ts = plan_targets entry stop (de_direction d);
          rr = (if ts = [] then 0 else pyround (fsum (map (\<lambda>t. fmul (pt_rr t) (pt_weight t)) ts)) 2)
      in ebind (load_position cfg entry stop (ov_volatility ov)) (\<lambda>pos.
         Inr \<lparr>pb_entry = entry, pb_stop = stop, pb_distance_atr = pyround (fdiv \<bar>fsub entry stop\<bar> atr) 2,
              pb_targets = ts, pb_risk_reward = rr, pb_position = pos, pb_time_stop = time_stop interval,
              pb_invalidation = (case de_direction d of Some dir \<Rightarrow> invalidations dir (ov_ema200 ov) stop | None \<Rightarrow> [])\<rparr>))"

text \<open>
  The insight of the language model. The request has no field \<open>_last_bar_ts\<close>, so the cache key is the
  symbol, the interval and an empty bar key. \<open>reply\<close> is the model's text for the prompt, \<open>None\<close> when the
  call failed; \<open>parse\<close> is the JSON reading of it: \<open>None\<close> for JSON without a summary, else the summary
  and risk note (a text that is not JSON is itself the summary).
\<close>

record insight =
  in_summary :: string
  in_risk :: string
  in_cached :: bool

type_synonym ai_cache = "((string \<times> string) \<times> insight) list"

definition parse_ai_response :: "(string \<Rightarrow> (string \<times> string) option option) \<Rightarrow> string \<Rightarrow> insight option" where
  "parse_ai_response json text =
     (case json text of
        Some (Some (summary, risk)) \<Rightarrow> Some \<lparr>in_summary = summary, in_risk = risk, in_cached = False\<rparr>
      | Some None \<Rightarrow> None
      | None \<Rightarrow> Some \<lparr>in_summary = take 240 text, in_risk = '''', in_cached = False\<rparr>)"

definition ai_insight ::
  "(string \<Rightarrow> (string \<times> string) option option) \<Rightarrow> (MarketOverview \<Rightarrow> Decision \<Rightarrow> plan_body option \<Rightarrow> string option) \<Rightarrow>
   string \<Rightarrow> string \<Rightarrow> MarketOverview \<Rightarrow> Decision \<Rightarrow> plan_body option \<Rightarrow> ai_cache \<Rightarrow>
   plan_error + (insight option \<times> ai_cache)" where
  "ai_insight json reply symbol interval ov d pb cache =
     (case map_of cache (symbol, interval) of
        Some i \<Rightarrow> Inr (Some (i\<lparr>in_cached := True\<rparr>), cache)
      | None \<Rightarrow>
          check (case pb of None \<Rightarrow> True | Some b \<Rightarrow> pb_targets b \<noteq> []) NoTarget (
          case reply ov d pb of
            None \<Rightarrow> Inr (None, cache)
          | Some text \<Rightarrow>
              (case parse_ai_response json text of
                 None \<Rightarrow> Inr (None, cache)
               | Some i \<Rightarrow> Inr (Some i, AList.update (symbol, interval) i cache))))"

record trading_plan =
  tp_overview :: MarketOverview
  tp_decision :: Decision
  tp_plan :: "plan_body option"
  tp_history :: "history_summary option"
  tp_insight :: "insight option"

record plan_request =
  rq_symbol :: string
  rq_interval :: string
  rq_params :: detect_params

record plan_env =
  pe_ind :: trend_ind
  pe_json :: "string \<Rightarrow> (string \<times> string) option option"
  pe_reply :: "MarketOverview \<Rightarrow> Decision \<Rightarrow> plan_body option \<Rightarrow> string option"

definition signal_age :: "frame \<Rightarrow> tsignal \<Rightarrow> int" where
  "signal_age rows s = max 0 (int (length rows) - 1 - int (g_index s))"

definition decide_core :: "scan_core \<Rightarrow> MarketOverview \<times> tsignal option \<times> Decision" where
  "decide_core core =
     (let ov = build_market_overview (sk_state core);
          latest = (if sk_signals core = [] then None else Some (last (sk_signals core)));
          (quality, age) = (case latest of None \<Rightarrow> (0, 999) | Some s \<Rightarrow> (g_quality s, signal_age (sk_rows core) s))
      in (ov, latest, evaluate_decision ov latest quality age))"

definition build_plan ::
  "plan_env \<Rightarrow> position_settings option \<Rightarrow> plan_request \<Rightarrow> frame option \<Rightarrow> ai_cache \<Rightarrow>
   plan_error + (trading_plan \<times> ai_cache)" where
  "build_plan env cfg rq df cache =
     ebind (scan_pipeline (pe_ind env) (rq_params rq) df) (\<lambda>core.
       let (ov, latest, d) = decide_core core in
       ebind (case (de_action d, latest) of
                (Trade, Some s) \<Rightarrow> ebind (plan_of cfg (rq_interval rq) ov d s) (\<lambda>b. Inr (Some b))
              | _ \<Rightarrow> Inr None) (\<lambda>body.
       ebind (if de_action d = NoTrade then Inr (None, cache)
              else ai_insight (pe_json env) (pe_reply env) (rq_symbol rq) (rq_interval rq) ov d body cache) (\<lambda>(ins, cache').
       Inr (\<lparr>tp_overview = ov, tp_decision = d, tp_plan = body,
             tp_history = build_history_summary (sk_signals core), tp_insight = ins\<rparr>, cache'))))"

section \<open>Lemmas\<close>

definition trade_gates :: "MarketOverview \<Rightarrow> tsignal option \<Rightarrow> rat \<Rightarrow> int \<Rightarrow> bool" where
  "trade_gates ov latest quality age \<longleftrightarrow>
     ov_trend ov \<noteq> Neutral \<and> \<bar>ov_deviation ov\<bar> < 15 \<and> \<not> ov_entangled ov \<and>
     latest \<noteq> None \<and> g_direction (the latest) = (if ov_trend ov = Bullish then LONG else SHORT) \<and>
     age \<le> 12 \<and> 50 \<le> quality"

lemmas gate_consts = DEVIATION_WATCH_PCT_def STALE_BARS_def FRESH_BARS_def QUALITY_HARD_FLOOR_def

lemma decision_trade_iff: "de_action (evaluate_decision ov latest quality age) = Trade \<longleftrightarrow> trade_gates ov latest quality age"
  by (cases latest) (auto simp: evaluate_decision_def trade_gates_def no_decision_def gate_consts Let_def)

lemma confidence_range: "0 \<le> compute_confidence st q a" "compute_confidence st q a \<le> 1"
  by (auto simp: compute_confidence_def Let_def)

lemma rounded_confidence_range:
  "0 \<le> pyround (compute_confidence st q a) 2" "pyround (compute_confidence st q a) 2 \<le> 1"
  using pyround_ge_int [of 0 "compute_confidence st q a" 2] pyround_le_int [of "compute_confidence st q a" 1 2]
    confidence_range [of st q a] by auto

lemma decision_not_trade:
  "\<not> trade_gates ov latest quality age \<Longrightarrow> de_confidence (evaluate_decision ov latest quality age) = 0"
  by (cases latest) (auto simp: evaluate_decision_def trade_gates_def no_decision_def gate_consts Let_def)

lemma decision_trade_fields:
  assumes "trade_gates ov latest quality age"
  shows "de_direction (evaluate_decision ov latest quality age) = map_option g_direction latest"
    and "de_confidence (evaluate_decision ov latest quality age) = pyround (compute_confidence (ov_strength ov) quality age) 2"
    and "de_warnings (evaluate_decision ov latest quality age) = [] \<longleftrightarrow> age \<le> 3 \<and> ov_volatility ov \<noteq> VolHigh"
  using assms by (auto simp: evaluate_decision_def trade_gates_def no_decision_def gate_consts Let_def)

text \<open>The targets of a positive risk, and their weights.\<close>

lemma plan_targets_shape:
  assumes risk: "entry \<noteq> stop" "is_float entry" "is_float stop"
  shows "map pt_level (plan_targets entry stop d) = [''tp1'', ''tp2'', ''tp3''] \<and>
    (if d = Some LONG then sorted (pyround entry 8 # map pt_price (plan_targets entry stop d))
     else sorted (rev (pyround entry 8 # map pt_price (plan_targets entry stop d))))"
proof -
  define r where "r = \<bar>fsub entry stop\<bar>"
  have "fsub entry stop \<noteq> 0"
    using fsub_pos [of entry stop] fsub_pos [of stop entry] risk
    by (metis fsub_def fl_minus less_irrefl minus_diff_eq neg_equal_0_iff_equal linorder_neqE)
  then have r: "0 < r" by (simp add: r_def)
  have up: "entry \<le> fadd entry (fmul r 1)" "fadd entry (fmul r 1) \<le> fadd entry (fmul r 2)"
    "fadd entry (fmul r 2) \<le> fadd entry (fmul r (7 / 2))"
    using r risk(2) by (auto intro!: fadd_ge fmul_nonneg fadd_mono fl_mono simp: fmul_def fl_nonneg)
  have neg: "fmul (- r) m = - fmul r m" for m by (simp add: fmul_def fl_minus)
  have steps: "- fmul r 1 \<le> 0" "- fmul r 2 \<le> - fmul r 1" "- fmul r (7 / 2) \<le> - fmul r 2"
    using r by (auto intro!: fl_mono fl_nonneg simp: fmul_def)
  have dn: "fadd entry (fmul (- r) 1) \<le> entry"
    using steps(1) risk(2) unfolding neg by (intro fadd_le_float) auto
  have dn': "fadd entry (fmul (- r) 2) \<le> fadd entry (fmul (- r) 1)"
    "fadd entry (fmul (- r) (7 / 2)) \<le> fadd entry (fmul (- r) 2)"
    unfolding neg by (rule fadd_mono [OF order_refl steps(2)], rule fadd_mono [OF order_refl steps(3)])
  show ?thesis
    using r up dn dn' unfolding plan_targets_def r_def [symmetric] Let_def TP1_RISK_MULT_def TP2_RISK_MULT_def TP3_RISK_MULT_def
    by (auto intro!: pyround_mono intro: order_trans)
qed

lemma plan_targets_rr:
  assumes "plan_targets entry stop d \<noteq> []"
  shows "pyround (fsum (map (\<lambda>t. fmul (pt_rr t) (pt_weight t)) (plan_targets entry stop d))) 2 = fl (9 / 5)"
    and "fsum (map pt_weight (plan_targets entry stop d)) = 1"
proof -
  have c: "pyround (fsum [fmul (pyround 1 2) (1 / 2), fmul (pyround 2 2) (fl (30 / 100)),
       fmul (pyround (7 / 2) 2) (fl (20 / 100))]) 2 = fl (9 / 5)"
    "fsum [1 / 2, fl (30 / 100), fl (20 / 100)] = 1"
    by code_simp+
  have p: "0 < \<bar>fsub entry stop\<bar>" using assms unfolding plan_targets_def Let_def by (metis not_less)
  have "map (\<lambda>t. fmul (pt_rr t) (pt_weight t)) (plan_targets entry stop d) =
      [fmul (pyround 1 2) (1 / 2), fmul (pyround 2 2) (fl (30 / 100)), fmul (pyround (7 / 2) 2) (fl (20 / 100))]"
    "map pt_weight (plan_targets entry stop d) = [1 / 2, fl (30 / 100), fl (20 / 100)]"
    using p unfolding plan_targets_def Let_def TP1_RISK_MULT_def TP2_RISK_MULT_def TP3_RISK_MULT_def
      TP1_WEIGHT_def TP2_WEIGHT_def TP3_WEIGHT_def by simp_all
  then show "pyround (fsum (map (\<lambda>t. fmul (pt_rr t) (pt_weight t)) (plan_targets entry stop d))) 2 = fl (9 / 5)"
    "fsum (map pt_weight (plan_targets entry stop d)) = 1"
    by (simp_all only: c)
qed

lemma last_signal_levels:
  assumes "detect_signals ind rows p = Some (sk_signals core)" "sk_signals core \<noteq> []"
    and rr: "0 \<le> dp_rr p" and closes: "\<forall>(t, b) \<in> set rows. is_float (bclose b)"
  shows "\<exists>i < length rows. g_index (last (sk_signals core)) = i \<and> g_entry (last (sk_signals core)) = bclose (snd (rows ! i)) \<and>
    is_float (g_stop (last (sk_signals core))) \<and> (case g_direction (last (sk_signals core)) of
       LONG \<Rightarrow> g_stop (last (sk_signals core)) < g_entry (last (sk_signals core))
     | SHORT \<Rightarrow> g_entry (last (sk_signals core)) < g_stop (last (sk_signals core)))"
proof -
  obtain ss where ss: "detect_signals_core ind rows p = Some ss" "sk_signals core = map tsignal.truncate ss"
    using assms(1) by (auto simp: detect_signals_def)
  define s where "s = last ss"
  have ne: "ss \<noteq> []" using assms(2) ss(2) by simp
  have l: "last (sk_signals core) = tsignal.truncate s"
    using ne ss(2) by (simp add: s_def last_map)
  have "s \<in> set ss" using ne by (simp add: s_def)
  then obtain i where i: "i < length (compute_indicators ind rows)" "signal_at p i (compute_indicators ind rows ! i) = Some s"
    using ss(1) by (auto simp: detect_signals_core_def scan_rows_def in_map_filter Let_def split: if_splits)
  have il: "i < length rows" using i(1) compute_indicators_length [of ind rows] by simp
  have c: "bclose (compute_indicators ind rows ! i) = bclose (snd (rows ! i))" using i(1) by (rule compute_indicators_close)
  have "is_float (bclose (snd (rows ! i)))" using closes il by (metis (mono_tags, lifting) case_prod_unfold nth_mem)
  then have "levels_sound s" using signal_at_levels [OF i(2) rr] c by simp
  moreover have "g_index s = i \<and> g_entry s = bclose (snd (rows ! i)) \<and> is_float (g_stop s)"
    using i(2) c by (auto elim: signal_at_cases)
  ultimately show ?thesis
    using il unfolding l by (auto simp: levels_sound_def tsignal.truncate_def split: direction.splits)
qed

text \<open>Where the body of a plan comes from.\<close>

lemma build_plan_body:
  assumes ok: "build_plan env cfg rq df cache = Inr (plan, cache')" and body: "tp_plan plan = Some b"
  obtains core s where "scan_pipeline (pe_ind env) (rq_params rq) df = Inr core"
    and "tp_decision plan = snd (snd (decide_core core))"
    and "fst (snd (decide_core core)) = Some s" and "de_action (tp_decision plan) = Trade"
    and "plan_of cfg (rq_interval rq) (fst (decide_core core)) (tp_decision plan) s = Inr b"
proof -
  obtain core where core: "scan_pipeline (pe_ind env) (rq_params rq) df = Inr core"
    using ok by (auto simp: build_plan_def)
  obtain ov latest d where dc: "decide_core core = (ov, latest, d)" by (metis prod_cases3)
  have d: "tp_decision plan = d"
    using ok core dc by (auto simp: build_plan_def)
  have bd: "(case (de_action d, latest) of
      (Trade, Some s) \<Rightarrow> ebind (plan_of cfg (rq_interval rq) ov d s) (\<lambda>b. Inr (Some b)) | _ \<Rightarrow> Inr None) = Inr (Some b)"
    using ok core dc body by (auto simp: build_plan_def)
  show thesis
  proof (cases "de_action d")
    case Trade
    with bd obtain s where "latest = Some s" "plan_of cfg (rq_interval rq) ov d s = Inr b"
      by (cases latest) auto
    then show thesis using that [OF core] dc d Trade by simp
  qed (use bd in simp_all)
qed

section \<open>Properties\<close>

text \<open>
  C23: the decision trades exactly when all four layers agree: a directed trend within 15 percent of
  its mean and not entangled, a latest signal in the trend's direction at most 12 bars old, and a
  quality of at least 50. A trade has the signal's direction; the confidence is between 0 and 1, is 0
  for every other decision, and a trade is free of warnings exactly when the signal is at most 3 bars
  old and the volatility is not high.
\<close>

theorem decision_gates:
  "(de_action (evaluate_decision ov latest quality age) = Trade \<longleftrightarrow> trade_gates ov latest quality age) \<and>
   0 \<le> de_confidence (evaluate_decision ov latest quality age) \<and>
   de_confidence (evaluate_decision ov latest quality age) \<le> 1 \<and>
   (if trade_gates ov latest quality age
    then de_direction (evaluate_decision ov latest quality age) = map_option g_direction latest \<and>
         (de_warnings (evaluate_decision ov latest quality age) = [] \<longleftrightarrow> age \<le> 3 \<and> ov_volatility ov \<noteq> VolHigh)
    else de_confidence (evaluate_decision ov latest quality age) = 0)"
  using rounded_confidence_range [of "ov_strength ov" quality age] decision_not_trade decision_trade_fields
  by (cases "trade_gates ov latest quality age") (simp_all add: decision_trade_iff)

text \<open>
  C24: Every plan is executable. A plan with a body belongs to a decision to trade; it enters at
  the close of a bar at most 12 bars old, with the stop strictly on the losing side and three targets
  that, rounded to eight places, lie in order from the entry to the winning side; their weights sum to 1, and the quoted reward-to-risk is
  1.8, whatever the signal. The closes of the frame are floats.
\<close>

theorem built_plan_executable:
  assumes ok: "build_plan env cfg rq (Some rows) cache = Inr (plan, cache')"
    and body: "tp_plan plan = Some b"
    and rr: "0 \<le> dp_rr (rq_params rq)"
    and closes: "\<forall>(t, b) \<in> set rows. is_float (bclose b)"
  shows "de_action (tp_decision plan) = Trade \<and> map pt_level (pb_targets b) = [''tp1'', ''tp2'', ''tp3''] \<and>
    (\<exists>i < length rows. int (length rows) - 1 - int i \<le> 12 \<and> pb_entry b = bclose (snd (rows ! i))) \<and>
    (if de_direction (tp_decision plan) = Some LONG
     then pb_stop b < pb_entry b \<and> sorted (pyround (pb_entry b) 8 # map pt_price (pb_targets b))
     else pb_entry b < pb_stop b \<and> sorted (rev (pyround (pb_entry b) 8 # map pt_price (pb_targets b)))) \<and>
    fsum (map pt_weight (pb_targets b)) = 1 \<and> pb_risk_reward b = fl (9 / 5)"
proof -
  define p where "p = (rq_params rq)\<lparr>dp_short_min := dp_short_min DEFAULT_DETECT\<rparr>"
  obtain core s where core: "scan_pipeline (pe_ind env) (rq_params rq) (Some rows) = Inr core"
    and plan: "tp_decision plan = snd (snd (decide_core core))"
    and s: "fst (snd (decide_core core)) = Some s" and act: "de_action (tp_decision plan) = Trade"
    and po: "plan_of cfg (rq_interval rq) (fst (decide_core core)) (tp_decision plan) s = Inr b"
    by (rule build_plan_body [OF ok body])
  have sig: "detect_signals (pe_ind env) rows p = Some (sk_signals core)" "sk_rows core = rows"
    using core by (auto simp: scan_pipeline_def require_rows_def p_def split: if_splits option.splits)
  have ne: "sk_signals core \<noteq> []" and sl: "s = last (sk_signals core)"
    using s by (auto simp: decide_core_def Let_def split: if_splits option.splits)
  have gates: "trade_gates (fst (decide_core core)) (Some s) (g_quality s) (signal_age rows s)"
    using act ne sl sig unfolding plan by (simp add: decide_core_def Let_def decision_trade_iff)
  have dir: "de_direction (tp_decision plan) = Some (g_direction s)"
    using decision_trade_fields(1) [OF gates] ne sl sig unfolding plan by (simp add: decide_core_def Let_def)
  obtain i where i: "i < length rows" "g_index s = i" "g_entry s = bclose (snd (rows ! i))"
    and stop: "is_float (g_stop s)"
    and side: "case g_direction s of LONG \<Rightarrow> g_stop s < g_entry s | SHORT \<Rightarrow> g_entry s < g_stop s"
    using last_signal_levels [OF sig(1) ne] rr closes unfolding sl p_def by auto
  have "is_float (g_entry s)"
    using closes i unfolding i(3) by (metis (mono_tags, lifting) case_prod_unfold nth_mem)
  moreover have b: "pb_entry b = g_entry s" "pb_stop b = g_stop s"
    "pb_targets b = plan_targets (g_entry s) (g_stop s) (de_direction (tp_decision plan))"
    "pb_risk_reward b = (if pb_targets b = [] then 0
       else pyround (fsum (map (\<lambda>t. fmul (pt_rr t) (pt_weight t)) (pb_targets b))) 2)"
    using po unfolding plan_of_def Let_def by auto
  ultimately have shape: "map pt_level (pb_targets b) = [''tp1'', ''tp2'', ''tp3''] \<and>
    (if de_direction (tp_decision plan) = Some LONG then sorted (pyround (g_entry s) 8 # map pt_price (pb_targets b))
     else sorted (rev (pyround (g_entry s) 8 # map pt_price (pb_targets b))))"
    using side stop unfolding b(3) by (intro plan_targets_shape) (auto split: direction.splits)
  then have "pb_targets b \<noteq> []" by auto
  then have "pb_risk_reward b = fl (9 / 5)" "fsum (map pt_weight (pb_targets b)) = 1"
    using plan_targets_rr [of "g_entry s" "g_stop s" "de_direction (tp_decision plan)"] b by simp_all
  moreover have "int (length rows) - 1 - int i \<le> 12"
    using gates i(2) by (simp add: trade_gates_def signal_age_def)
  ultimately show ?thesis
    using act i side shape dir b(1,2) by (auto split: direction.splits)
qed

text \<open>
  A cached insight is never refreshed. The cache key has no bar in it, so once a symbol and
  interval have an insight every later plan returns it, marked cached, whatever the market, the
  decision and the model's reply are by then.
\<close>

theorem insight_never_refreshes:
  assumes "ai_insight json reply symbol interval ov d pb cache = Inr (Some i, cache')"
  shows "ai_insight json' reply' symbol interval ov' d' pb' cache' = Inr (Some (i\<lparr>in_cached := True\<rparr>), cache')"
proof (cases "map_of cache (symbol, interval)")
  case (Some j)
  with assms show ?thesis by (auto simp: ai_insight_def)
next
  case None
  with assms have "map_of cache' (symbol, interval) = Some i"
    by (auto simp: ai_insight_def update_conv split: option.splits)
  then show ?thesis by (simp add: ai_insight_def)
qed

theorem insight_never_refreshes_witness:
  "\<exists>i cache'. ai_insight (\<lambda>t. Some (Some (t, []))) (\<lambda>ov d b. Some ''up'') ''BTCUSDT'' ''4h'' empty_overview no_decision None []
       = Inr (Some i, cache') \<and>
     ai_insight (\<lambda>t. None) (\<lambda>ov d b. Some ''down'') ''BTCUSDT'' ''4h'' empty_overview no_decision None cache'
       = Inr (Some \<lparr>in_summary = ''up'', in_risk = [], in_cached = True\<rparr>, cache')"
proof -
  have e: "ai_insight (\<lambda>t. Some (Some (t, []))) (\<lambda>ov d b. Some ''up'') ''BTCUSDT'' ''4h'' empty_overview no_decision None []
       = Inr (Some \<lparr>in_summary = ''up'', in_risk = [], in_cached = False\<rparr>,
              [((''BTCUSDT'', ''4h''), \<lparr>in_summary = ''up'', in_risk = [], in_cached = False\<rparr>)])"
    by (simp add: ai_insight_def parse_ai_response_def)
  from insight_never_refreshes [OF e] e show ?thesis by force
qed

section \<open>A witness\<close>

text \<open>The frame of 201 bars whose last one gives a long signal.\<close>

definition plan_state :: trend_state where
  "plan_state = \<lparr>ts_time = ''t'', ts_close = 110, ts_ema200 = 100, ts_ema50 = 105, ts_rsi = Some 100, ts_atr = Some 8,
     ts_trend = Bullish, ts_deviation = fmul (fdiv 10 100) 100, ts_entangled = False\<rparr>"

lemma plan_current: "current_state_core plan_ind plan_rows = Some plan_state"
proof -
  have "last (compute_indicators plan_ind plan_rows) = plan_row"
    using plan_row_200 by (subst last_conv_nth) (auto simp: plan_row_def)
  then show ?thesis
    by (simp add: current_state_core_def plan_rows_closes WARMUP_BARS_def EMA_TREND_SPAN_def plan_row_def plan_state_def
        Let_def fsub_def fmul_def fl_of_numeral)
qed

definition plan_env_demo :: plan_env where
  "plan_env_demo = \<lparr>pe_ind = plan_ind, pe_json = (\<lambda>t. None), pe_reply = (\<lambda>ov d b. None)\<rparr>"

definition plan_rq :: plan_request where
  "plan_rq = \<lparr>rq_symbol = ''BTCUSDT'', rq_interval = ''4h'', rq_params = DEFAULT_DETECT\<rparr>"

lemma plan_core:
  "scan_pipeline plan_ind DEFAULT_DETECT (Some plan_rows) =
     Inr \<lparr>sk_rows = plan_rows, sk_state = Some plan_state, sk_signals = [plan_signal]\<rparr>"
proof -
  have "DEFAULT_DETECT\<lparr>dp_short_min := dp_short_min DEFAULT_DETECT\<rparr> = DEFAULT_DETECT" by simp
  then show ?thesis
    using plan_rows_closes(2)
    by (auto simp: scan_pipeline_def require_rows_def plan_detected plan_current WARMUP_BARS_def EMA_TREND_SPAN_def)
qed

lemma plan_built:
  "\<exists>plan b. build_plan plan_env_demo None plan_rq (Some plan_rows) [] = Inr (plan, []) \<and>
     tp_plan plan = Some b \<and> pb_entry b = 110 \<and> pb_stop b = 96"
proof -
  have g: "trade_gates (build_market_overview (Some plan_state)) (Some plan_signal) 65 0" by code_simp
  have t: "de_action (evaluate_decision (build_market_overview (Some plan_state)) (Some plan_signal) 65 0) = Trade"
    using g by (simp add: decision_trade_iff)
  have age: "signal_age plan_rows plan_signal = 0" by (simp add: signal_age_def plan_rows_closes plan_signal_def)
  have ts: "plan_targets 110 96 d \<noteq> []" for d
    by (simp add: plan_targets_def fsub_def fl_of_numeral)
  show ?thesis
    using t ts age
    by (auto simp: build_plan_def plan_env_demo_def plan_rq_def plan_core decide_core_def plan_of_def load_position_def
        ai_insight_def plan_signal_def [unfolded atomize_eq] Let_def)
qed

theorem built_plan_executable_witness:
  "\<exists>plan b. build_plan plan_env_demo None plan_rq (Some plan_rows) [] = Inr (plan, []) \<and> tp_plan plan = Some b \<and>
     de_action (tp_decision plan) = Trade \<and> pb_stop b < pb_entry b \<and> pb_risk_reward b = fl (9 / 5)"
proof -
  obtain plan b where p: "build_plan plan_env_demo None plan_rq (Some plan_rows) [] = Inr (plan, [])"
    and b: "tp_plan plan = Some b" "pb_entry b = 110" "pb_stop b = 96" using plan_built by blast
  have "\<forall>(t, b) \<in> set plan_rows. is_float (bclose b)" by (simp add: plan_rows_def plan_bar_def)
  moreover have "0 \<le> dp_rr (rq_params plan_rq)" by (simp add: plan_rq_def DEFAULT_DETECT_def REWARD_RISK_def)
  ultimately have "de_action (tp_decision plan) = Trade \<and> pb_risk_reward b = fl (9 / 5)"
    using built_plan_executable [OF p b(1)] b by simp
  then show ?thesis using p b by auto
qed

end
