(* ===== verification/MarketContext.thy ===== *)
theory MarketContext
  imports Validation
begin

text \<open>
  The context a harmonic candidate is read in: \<^verbatim>\<open>app/services/discipline_filters.py\<close> with the
  composite view of \<^verbatim>\<open>app/domain/forming_schemas.py\<close>, \<^verbatim>\<open>app/services/macro_bias.py\<close>,
  \<^verbatim>\<open>app/services/market_regime.py\<close> and \<^verbatim>\<open>app/services/signal_grader.py\<close>.

  Exponential means (\<open>ewm\<close>) and window means are pandas: they are arguments. A pandas series made
  from a plain array is labelled \<open>0, 1, ...\<close>, and \<open>s[k]\<close> looks the label up, so a negative \<open>k\<close> is a
  missing label (\<open>series_at\<close>), where \<open>s.iloc[-k]\<close> counts from the end (\<open>iloc_end\<close>). Advice and
  direction texts are constructors.
\<close>

definition series_at :: "rat list \<Rightarrow> int \<Rightarrow> signal_error + rat" where
  "series_at xs k = (if 0 \<le> k \<and> nat k < length xs then Inr (xs ! nat k) else Inl (KeyError ''label''))"

definition iloc_end :: "rat list \<Rightarrow> nat \<Rightarrow> signal_error + rat" where
  "iloc_end xs k = (if 1 \<le> k \<and> k \<le> length xs then Inr (xs ! (length xs - k)) else Inl IndexError)"

text \<open>\<open>df.iloc[k:]\<close>: a negative start counts from the end, clamped at the first row.\<close>

definition iloc_from :: "int \<Rightarrow> 'a list \<Rightarrow> 'a list" where
  "iloc_from k xs = (if 0 \<le> k then drop (nat k) xs else drop (nat (int (length xs) + k)) xs)"

section \<open>Discipline filters\<close>

record CandidateMetrics =
  bars_since_c :: int
  stale :: bool
  breached_stop :: bool
  past_tp2 :: bool
  in_prz :: bool
  dist_pct :: rat
  liquidity_sweep :: bool

record DisciplineResult =
  passed :: bool
  dmetrics :: CandidateMetrics

definition bars_since :: "int option \<Rightarrow> int \<Rightarrow> int" where
  "bars_since c_idx total_bars =
     (case c_idx of None \<Rightarrow> 0 | Some c \<Rightarrow> if c < 0 then 0 else max 0 (total_bars - 1 - c))"

definition prz_was_touched :: "bar list \<Rightarrow> rat \<Rightarrow> rat \<Rightarrow> bool \<Rightarrow> bool" where
  "prz_was_touched after lo hi bull =
     (if after = [] then False
      else if bull then (\<exists>b \<in> set after. bhigh b \<ge> lo \<and> blow b \<le> hi)
      else (\<exists>b \<in> set after. blow b \<le> hi \<and> bhigh b \<ge> lo))"

definition past_second_target :: "TuningConstants \<Rightarrow> rat \<Rightarrow> Candidate \<Rightarrow> bool \<Rightarrow> signal_error + bool" where
  "past_second_target tun price c bull =
     (let prz_mid = fdiv (fadd (prz_low c) (prz_high c)) 2 in
      if prz_mid \<le> 0 then Inr False
      else ebind (compute_targets tun c prz_mid) (\<lambda>ts.
           ebind (index_at IndexError ts 1) (\<lambda>tp2.
           Inr (if bull then target_price tp2 < price else price < target_price tp2))))"

definition LIQUIDITY_SWEEP_MULT :: rat where
  "LIQUIDITY_SWEEP_MULT = 3"

text \<open>\<open>vol\<close> is the volume column, \<open>None\<close> when it is absent or all missing; \<open>mean\<close> is the window mean.\<close>

definition swept_liquidity :: "(rat list \<Rightarrow> rat) \<Rightarrow> rat list option \<Rightarrow> nat \<Rightarrow> Candidate \<Rightarrow> bool" where
  "swept_liquidity mean vol rows c =
     (case vol of None \<Rightarrow> False
      | Some vs \<Rightarrow>
          if length (cindices c) < 2 then False
          else let d_idx = last (cindices c) in
            if d_idx \<le> 0 \<or> int rows \<le> d_idx then False
            else let window = drop (nat (max 0 (d_idx - 20))) (take (nat d_idx) vs) in
              if length window = 0 \<or> mean window \<le> 0 then False
              else fmul (mean window) LIQUIDITY_SWEEP_MULT < vs ! nat d_idx)"

definition prz_dist_pct :: "rat \<Rightarrow> Candidate \<Rightarrow> bool \<Rightarrow> rat" where
  "prz_dist_pct price c bull =
     (let lo = prz_low c; hi = prz_high c in
      if price \<le> 0 \<or> lo \<le> 0 \<or> hi \<le> 0 then 0
      else if lo \<le> price \<and> price \<le> hi then 0
      else if bull then
        (if hi < price then fmul (fsub (fdiv price hi) 1) 100 else fmul (fsub (fdiv lo price) 1) 100)
      else if price < lo then fmul (fsub (fdiv lo price) 1) 100
      else fmul (fsub (fdiv price hi) 1) 100)"

text \<open>Where the C point is: the given index, else the last but one bar index, else time, else 0.\<close>

definition c_index :: "int option \<Rightarrow> Candidate \<Rightarrow> int" where
  "c_index given c =
     (case given of Some k \<Rightarrow> k
      | None \<Rightarrow> if 2 \<le> length (cindices c) then cindices c ! (length (cindices c) - 2)
                else if 2 \<le> length (ctimes c) then ctimes c ! (length (ctimes c) - 2)
                else 0)"

definition bars_after :: "bar list \<Rightarrow> int \<Rightarrow> bar list" where
  "bars_after df k = (if k + 1 < int (length df) then iloc_from (k + 1) df else [])"

definition evaluate ::
  "TuningConstants \<Rightarrow> (rat list \<Rightarrow> rat) \<Rightarrow> bar list \<Rightarrow> rat list option \<Rightarrow> Candidate \<Rightarrow> rat \<Rightarrow>
   int option \<Rightarrow> int option \<Rightarrow> signal_error + DisciplineResult" where
  "evaluate tun mean df vol c price ttl given =
     (let max_ttl = (case ttl of None \<Rightarrow> default_ttl_bars tun | Some t \<Rightarrow> t) in
      check (0 < length df) ViolationError (
      check (0 < prz_low c \<and> 0 < prz_high c) ViolationError (
      check (0 < price) ViolationError (
      check (0 \<le> max_ttl) ViolationError (
      let c_idx = c_index given c;
          since = bars_since (Some c_idx) (int (length df));
          breached = prz_was_touched (bars_after df c_idx) (prz_low c) (prz_high c) (bullish c)
      in ebind (past_second_target tun price c (bullish c)) (\<lambda>past.
         let m = \<lparr>bars_since_c = since, stale = max_ttl < since, breached_stop = breached, past_tp2 = past,
                  in_prz = (prz_low c \<le> price \<and> price \<le> prz_high c),
                  dist_pct = prz_dist_pct price c (bullish c),
                  liquidity_sweep = swept_liquidity mean vol (length df) c\<rparr>
         in Inr \<lparr>passed = (\<not> breached \<and> \<not> past), dmetrics = m\<rparr>))))))"

section \<open>The composite view\<close>

datatype macro_regime = DataShort | UnknownRegime | BullMarket | BearMarket

datatype vs_macro = VsMissing | VsUnknown | CounterExtreme | WithTrend | CounterTrend

datatype macro_advice = ShortDataAdvice | UnknownAdvice | ExtremeCounterAdvice | TrendAlignedAdvice
  | RangeAlignedAdvice | UptrendPullbackAdvice | DowntrendBounceAdvice | RangeCounterAdvice

record MacroOverlay =
  size_mult :: rat
  advice :: macro_advice
  macro_dir :: macro_regime
  signal_vs_macro :: vs_macro
  deviation_pct :: rat
  ema200_slope_20d :: rat

record CandidateWithMetrics =
  view_candidate :: Candidate
  view_metrics :: CandidateMetrics
  view_macro :: "MacroOverlay option"

definition default_metrics :: CandidateMetrics where
  "default_metrics = \<lparr>bars_since_c = 0, stale = False, breached_stop = False, past_tp2 = False,
     in_prz = False, dist_pct = 0, liquidity_sweep = False\<rparr>"

definition tradable :: "CandidateWithMetrics \<Rightarrow> bool" where
  "tradable v =
     (if stale (view_metrics v) then False
      else if breached_stop (view_metrics v) then False
      else if past_tp2 (view_metrics v) then False else True)"

definition width_pct :: "CandidateWithMetrics \<Rightarrow> rat" where
  "width_pct v =
     (let lo = prz_low (view_candidate v); hi = prz_high (view_candidate v) in
      if lo \<le> 0 \<or> hi \<le> 0 then 0
      else let mid = fdiv (fadd lo hi) 2 in
        if mid \<le> 0 then 0 else fdiv (fsub hi lo) mid)"

section \<open>Macro bias\<close>

definition macro_classify ::
  "TuningConstants \<Rightarrow> int \<Rightarrow> bool \<Rightarrow> rat \<Rightarrow> rat \<Rightarrow> rat \<times> macro_advice \<times> vs_macro" where
  "macro_classify t dir price_above deviation slope =
     (let up = slope_trend_up t \<le> slope; down = slope \<le> slope_trend_down t; ranging = (\<not> (up \<or> down));
          long = (dir = 1);
          aligned = ((long \<and> price_above) \<or> (\<not> long \<and> \<not> price_above));
          extreme = extreme_deviation_pct t < \<bar>deviation\<bar>
      in if extreme \<and> \<not> aligned then (mult_extreme_inverse t, ExtremeCounterAdvice, CounterExtreme)
         else if aligned \<and> \<not> ranging then (mult_trending_aligned t, TrendAlignedAdvice, WithTrend)
         else if aligned \<and> ranging then (mult_ranging_aligned t, RangeAlignedAdvice, WithTrend)
         else if \<not> aligned \<and> up \<and> long then (mult_trending_inverse t, UptrendPullbackAdvice, CounterTrend)
         else if \<not> aligned \<and> down \<and> \<not> long then (mult_trending_inverse t, DowntrendBounceAdvice, CounterTrend)
         else (mult_ranging_inverse t, RangeCounterAdvice, CounterTrend))"

text \<open>The slope of the mean over its last 20 steps, in percent; 0 when there is no positive base.\<close>

definition ema_slope_pct :: "rat list \<Rightarrow> rat" where
  "ema_slope_pct es =
     (case iloc_end es 21 of Inl _ \<Rightarrow> 0
      | Inr base \<Rightarrow> if 0 < base then fmul (fsub (fdiv (es ! (length es - 1)) base) 1) 100 else 0)"

definition macro_compute ::
  "TuningConstants \<Rightarrow> (rat list \<Rightarrow> rat list) \<Rightarrow> rat list option \<Rightarrow> int \<Rightarrow> signal_error + MacroOverlay" where
  "macro_compute t ewm200 daily dir =
     check (dir \<in> set [- 1, 0, 1]) ViolationError (
     if (case daily of None \<Rightarrow> True | Some xs \<Rightarrow> int (length xs) < min_daily_bars t)
     then Inr \<lparr>size_mult = mult_data_short t, advice = ShortDataAdvice, macro_dir = DataShort,
               signal_vs_macro = VsMissing, deviation_pct = 0, ema200_slope_20d = 0\<rparr>
     else if dir \<notin> set [1, - 1]
     then Inr \<lparr>size_mult = 1, advice = UnknownAdvice, macro_dir = UnknownRegime,
               signal_vs_macro = VsUnknown, deviation_pct = 0, ema200_slope_20d = 0\<rparr>
     else let xs = (case daily of None \<Rightarrow> [] | Some xs \<Rightarrow> xs); es = ewm200 xs in
       ebind (iloc_end xs 1) (\<lambda>price. ebind (iloc_end es 1) (\<lambda>v200.
       let dev = (if 0 < v200 then fmul (fsub (fdiv price v200) 1) 100 else 0);
           slope = ema_slope_pct es;
           price_above = v200 < price;
           (mult, adv, vs) = macro_classify t dir price_above dev slope
       in Inr \<lparr>size_mult = mult, advice = adv, macro_dir = (if price_above then BullMarket else BearMarket),
               signal_vs_macro = vs, deviation_pct = pyround dev 1, ema200_slope_20d = pyround slope 1\<rparr>)))"

section \<open>Market regime\<close>

datatype market_regime = BullMkt | BearMkt | NeutralMkt

datatype block_reason = InsufficientData | HighImpactEvents "string list"

record MarketRegimeResult =
  mr_regime :: market_regime
  mr_ema_slope :: rat
  mr_atr_ratio :: rat
  mr_event_blocked :: bool
  mr_block_reason :: "block_reason option"
  mr_bars :: "bar list option"

definition EMA_PERIOD :: nat where "EMA_PERIOD = 72"
definition SLOPE_UP_THRESHOLD :: rat where "SLOPE_UP_THRESHOLD = fl (5 / 10000)"
definition SLOPE_DOWN_THRESHOLD :: rat where "SLOPE_DOWN_THRESHOLD = - fl (5 / 10000)"
definition ATR_UPPER_BOUND :: rat where "ATR_UPPER_BOUND = 2"
definition ATR_LOWER_BOUND :: rat where "ATR_LOWER_BOUND = 1 / 2"

fun true_ranges_from :: "rat option \<Rightarrow> bar list \<Rightarrow> rat list" where
  "true_ranges_from pc [] = []"
| "true_ranges_from pc (b # bs) =
     (case pc of None \<Rightarrow> fsub (bhigh b) (blow b)
      | Some c \<Rightarrow> max (max (fsub (bhigh b) (blow b)) \<bar>fsub (bhigh b) c\<bar>) \<bar>fsub (blow b) c\<bar>)
     # true_ranges_from (Some (bclose b)) bs"

definition true_ranges :: "bar list \<Rightarrow> rat list" where
  "true_ranges bs = true_ranges_from None bs"

text \<open>
  \<open>events\<close> is what the calendar query returned for the dates checked (empty when the client is
  missing, the query fails or there is nothing); the built-in calendar is empty.
\<close>

definition is_event_clear :: "string list \<Rightarrow> bool \<times> block_reason option" where
  "is_event_clear events = (if events \<noteq> [] then (False, Some (HighImpactEvents events)) else (True, None))"

definition regime_of_slope :: "rat \<Rightarrow> market_regime" where
  "regime_of_slope s =
     (if SLOPE_UP_THRESHOLD < s then BullMkt else if s < SLOPE_DOWN_THRESHOLD then BearMkt else NeutralMkt)"

text \<open>The part of \<open>get_market_regime\<close> after the slope.\<close>

definition regime_result :: "(rat list \<Rightarrow> rat) \<Rightarrow> string list \<Rightarrow> bar list \<Rightarrow> rat \<Rightarrow> MarketRegimeResult" where
  "regime_result mean events bars slope =
     (let trs = true_ranges bars;
          atr14 = mean (tail_rows 14 trs);
          atr20 = mean (tail_rows 20 trs);
          ratio = (if 0 < atr20 then fdiv atr14 atr20 else 1);
          (blocked, reason) = is_event_clear events
      in \<lparr>mr_regime = regime_of_slope slope, mr_ema_slope = slope, mr_atr_ratio = ratio,
          mr_event_blocked = blocked, mr_block_reason = reason, mr_bars = Some bars\<rparr>)"

definition neutral_regime :: MarketRegimeResult where
  "neutral_regime = \<lparr>mr_regime = NeutralMkt, mr_ema_slope = 0, mr_atr_ratio = 1,
     mr_event_blocked = False, mr_block_reason = Some InsufficientData, mr_bars = None\<rparr>"

definition get_market_regime ::
  "(rat list \<Rightarrow> rat list) \<Rightarrow> (rat list \<Rightarrow> rat) \<Rightarrow> string list \<Rightarrow> bar list \<Rightarrow> signal_error + MarketRegimeResult" where
  "get_market_regime ewm72 mean events bars =
     (if length bars < EMA_PERIOD + 2 then Inr neutral_regime
      else let ema = ewm72 (map bclose bars) in
        ebind (series_at ema (- 1)) (\<lambda>e1.
        ebind (series_at ema (- 2)) (\<lambda>e2.
        Inr (regime_result mean events bars (fdiv (fsub e1 e2) e2)))))"

definition is_volatility_healthy :: "rat \<Rightarrow> bool" where
  "is_volatility_healthy r \<longleftrightarrow> ATR_LOWER_BOUND \<le> r \<and> r \<le> ATR_UPPER_BOUND"

definition is_direction_allowed :: "market_regime \<Rightarrow> string \<Rightarrow> bool" where
  "is_direction_allowed r d =
     (if r = NeutralMkt then True
      else if r = BullMkt \<and> d = ''bullish'' then True
      else if r = BearMkt \<and> d = ''bearish'' then True
      else False)"

text \<open>
  The RSI series of \<open>n\<close> prices has labels 0 to \<open>n - 1\<close> with a missing value at label 0; \<open>rsi_tail\<close>
  holds labels 1 to \<open>n - 1\<close>. \<open>ew\<close> is the mean with \<open>alpha = 1/period\<close>.
\<close>

definition price_changes :: "rat list \<Rightarrow> rat list" where
  "price_changes xs = map2 fsub (tl xs) xs"

definition rsi_tail :: "(rat list \<Rightarrow> rat list) \<Rightarrow> rat list \<Rightarrow> rat list" where
  "rsi_tail ew prices =
     (let ds = price_changes prices;
          gain = ew (map (\<lambda>d. max d 0) ds);
          loss = ew (map (\<lambda>d. - min d 0) ds)
      in map2 (\<lambda>g l. fsub 100 (fdiv 100 (fadd 1 (fdiv g (if l = 0 then fl (1 / 10 ^ 10) else l))))) gain loss)"

definition rsi_label :: "rat list \<Rightarrow> int \<Rightarrow> signal_error + rat option" where
  "rsi_label rs k =
     (if k = 0 then Inr None else ebind (series_at rs (k - 1)) (\<lambda>v. Inr (Some v)))"

text \<open>\<open>a < b\<close> where \<open>a\<close> may be missing: comparisons with a missing value are false.\<close>

definition opt_less :: "rat option \<Rightarrow> rat \<Rightarrow> bool" where
  "opt_less a b = (case a of None \<Rightarrow> False | Some x \<Rightarrow> x < b)"

definition opt_greater :: "rat option \<Rightarrow> rat \<Rightarrow> bool" where
  "opt_greater a b = (case a of None \<Rightarrow> False | Some x \<Rightarrow> b < x)"

text \<open>The default \<open>lookback\<close>, the only one the repository uses.\<close>

definition RSI_LOOKBACK :: nat where "RSI_LOOKBACK = 14"

definition compute_rsi_divergence ::
  "(rat list \<Rightarrow> rat list) \<Rightarrow> bar list \<Rightarrow> signal_error + bool" where
  "compute_rsi_divergence ew bars =
     (let lookback = RSI_LOOKBACK in
      if length bars < lookback + 5 then Inr False
      else let prices = map bclose bars; n = length prices; rs = rsi_tail ew prices;
               prior = drop (n - (lookback + 1)) (take (n - lookback div 2) prices);
               recent = prices ! (n - 2)
        in ebind (rsi_label rs (- 2)) (\<lambda>recent_rsi.
             let swing = tail_rows (lookback + 1) rs in
             if recent < list_min prior \<and> opt_greater recent_rsi (list_min swing) then Inr True
             else if list_max prior < recent \<and> opt_less recent_rsi (list_max swing) then Inr True
             else Inr False))"

definition is_volume_confirming :: "(rat list \<Rightarrow> rat) \<Rightarrow> bar list \<Rightarrow> rat \<Rightarrow> bool" where
  "is_volume_confirming mean bars threshold =
     (if length bars < 10 then True
      else let vol = map bvol bars; n = length vol;
               avg = mean (drop (n - 10) (take (n - 1) vol))
        in fmul avg threshold \<le> vol ! (n - 1))"

section \<open>Signal grader\<close>

definition MIN_SCORE_STRONG :: int where "MIN_SCORE_STRONG = 80"
definition MIN_SCORE_MEDIUM :: int where "MIN_SCORE_MEDIUM = 60"
definition MIN_RR_RATIO :: rat where "MIN_RR_RATIO = 3 / 2"
definition PATTERN_SCORE_MAX :: int where "PATTERN_SCORE_MAX = 40"
definition CONF_RSI_DIVERGENCE :: int where "CONF_RSI_DIVERGENCE = 10"
definition CONF_VOLUME :: int where "CONF_VOLUME = 10"
definition CONTEXT_TREND :: int where "CONTEXT_TREND = 15"
definition CONTEXT_ATR :: int where "CONTEXT_ATR = 8"
definition CONTEXT_EVENT :: int where "CONTEXT_EVENT = 7"

datatype signal_grade = StrongSignal | MediumSignal | SkipSignal

datatype deduction = PatternIncomplete int | NoRsiDivergence | NoVolumeConfirm
  | DirectionRegimeConflict string market_regime | AtrUnhealthy rat | EventBlackout | RrTooLow rat

record GradeResult =
  gr_total :: int
  gr_pattern :: int
  gr_confirm :: int
  gr_context :: int
  gr_grade :: signal_grade
  gr_reasons :: "deduction list"
  gr_passes_rr :: bool

definition direction_matches_regime :: "string \<Rightarrow> market_regime \<Rightarrow> bool" where
  "direction_matches_regime d r \<longleftrightarrow> (d = ''bullish'' \<and> r = BullMkt) \<or> (d = ''bearish'' \<and> r = BearMkt)"

definition pattern_points :: "rat \<Rightarrow> int" where
  "pattern_points ps = py_int (fmul ps (of_int PATTERN_SCORE_MAX))"

definition confirm_points :: "bool \<Rightarrow> bool \<Rightarrow> int" where
  "confirm_points rsi vol = (if rsi then CONF_RSI_DIVERGENCE else 0) + (if vol then CONF_VOLUME else 0)"

definition context_points :: "market_regime \<Rightarrow> string \<Rightarrow> rat \<Rightarrow> bool \<Rightarrow> int" where
  "context_points regime d atr clear =
     (if regime = NeutralMkt then 0
      else if direction_matches_regime d regime then CONTEXT_TREND else CONTEXT_TREND div 3)
     + (if 1 / 2 \<le> atr \<and> atr \<le> 2 then CONTEXT_ATR else 0)
     + (if clear then CONTEXT_EVENT else 0)"

definition grade_signal ::
  "rat \<Rightarrow> bool \<Rightarrow> bool \<Rightarrow> MarketRegimeResult option \<Rightarrow> string \<Rightarrow> rat \<Rightarrow> rat \<Rightarrow> bool \<Rightarrow> GradeResult" where
  "grade_signal ps rsi vol rr_result d rr atr clear =
     (let regime = (case rr_result of None \<Rightarrow> NeutralMkt | Some r \<Rightarrow> mr_regime r);
          pat = pattern_points ps;
          conf = confirm_points rsi vol;
          ctx = context_points regime d atr clear;
          passes = MIN_RR_RATIO \<le> rr;
          tot0 = min (pat + conf + ctx) 100;
          tot = (if passes then tot0 else max (tot0 - 20) 0);
          g = (if MIN_SCORE_STRONG \<le> tot then StrongSignal
               else if MIN_SCORE_MEDIUM \<le> tot then MediumSignal else SkipSignal);
          reasons =
            (if of_int pat < fmul (of_int PATTERN_SCORE_MAX) (fl (7 / 10)) then [PatternIncomplete pat] else [])
            @ (if rsi then [] else [NoRsiDivergence])
            @ (if vol then [] else [NoVolumeConfirm])
            @ (if regime \<noteq> NeutralMkt \<and> \<not> direction_matches_regime d regime
               then [DirectionRegimeConflict d regime] else [])
            @ (if 1 / 2 \<le> atr \<and> atr \<le> 2 then [] else [AtrUnhealthy atr])
            @ (if clear then [] else [EventBlackout])
            @ (if passes then [] else [RrTooLow rr])
      in \<lparr>gr_total = tot, gr_pattern = pat, gr_confirm = conf, gr_context = ctx, gr_grade = g,
          gr_reasons = reasons, gr_passes_rr = passes\<rparr>)"

section \<open>Lemmas\<close>

lemma evaluate_Inr:
  assumes "evaluate tun mean df vol c price ttl given = Inr r"
  obtains "df \<noteq> []" "0 < prz_low c" "0 < prz_high c" "0 < price"
    "past_second_target tun price c (bullish c) = Inr (past_tp2 (dmetrics r))"
    "breached_stop (dmetrics r) = prz_was_touched (bars_after df (c_index given c)) (prz_low c) (prz_high c) (bullish c)"
    "passed r = (\<not> breached_stop (dmetrics r) \<and> \<not> past_tp2 (dmetrics r))"
    "in_prz (dmetrics r) = (prz_low c \<le> price \<and> price \<le> prz_high c)"
    "dist_pct (dmetrics r) = prz_dist_pct price c (bullish c)"
    "bars_since_c (dmetrics r) = bars_since (Some (c_index given c)) (int (length df))"
    "stale (dmetrics r) = ((case ttl of None \<Rightarrow> default_ttl_bars tun | Some t \<Rightarrow> t) < bars_since_c (dmetrics r))"
  using assms unfolding evaluate_def Let_def by (auto split del: if_split option.split)

text \<open>Both branches of the touch test say the same: some bar's range meets the zone.\<close>

lemma prz_was_touched_iff:
  "prz_was_touched after lo hi bull \<longleftrightarrow> (\<exists>b \<in> set after. lo \<le> bhigh b \<and> blow b \<le> hi)"
  by (auto simp: prz_was_touched_def)

lemma last_in_bars_after:
  assumes "k + 1 < int (length df)" "df \<noteq> []"
  shows "last df \<in> set (bars_after df k)"
proof -
  have "\<exists>j < length df. bars_after df k = drop j df"
  proof (cases "0 \<le> k + 1")
    case True
    then show ?thesis
      using assms by (intro exI [of _ "nat (k + 1)"]) (auto simp: bars_after_def iloc_from_def)
  next
    case False
    have "0 < length df" using assms by simp
    then have "nat (int (length df) + (k + 1)) < length df" using False by arith
    with False show ?thesis
      using assms by (intro exI [of _ "nat (int (length df) + (k + 1))"]) (auto simp: bars_after_def iloc_from_def)
  qed
  then obtain j where j: "j < length df" "bars_after df k = drop j df" by blast
  then have "drop j df \<noteq> []" and "last (drop j df) = last df" by auto
  then show ?thesis using last_in_set [of "drop j df"] j by simp
qed

lemma ratio_excess_nonneg: "0 < x \<Longrightarrow> x \<le> y \<Longrightarrow> 0 \<le> fmul (fsub (fdiv y x) 1) 100"
  by (intro fmul_nonneg fsub_nonneg) (auto simp: fdiv_def intro!: float_le_fl)

lemma prz_dist_pct_nonneg: "0 \<le> prz_dist_pct price c bull"
proof -
  have "prz_low c \<le> prz_high c" by (rule prz_low_le_high)
  then show ?thesis
    by (auto simp: prz_dist_pct_def Let_def not_le not_less intro!: ratio_excess_nonneg)
qed

lemma pattern_points_bounds: "0 \<le> ps \<Longrightarrow> ps \<le> 1 \<Longrightarrow> 0 \<le> pattern_points ps \<and> pattern_points ps \<le> 40"
proof -
  assume a: "0 \<le> ps" "ps \<le> 1"
  have "0 \<le> fmul ps 40" using a by (intro fmul_nonneg) auto
  moreover have "fmul ps 40 \<le> 40" using a by (intro fmul_le_float) auto
  ultimately show ?thesis
    unfolding pattern_points_def PATTERN_SCORE_MAX_def py_int_def by (auto simp: le_floor_iff floor_le_iff)
qed

lemma pattern_points_mono: "0 \<le> ps \<Longrightarrow> ps \<le> qs \<Longrightarrow> pattern_points ps \<le> pattern_points qs"
proof -
  assume a: "0 \<le> ps" "ps \<le> qs"
  then have "0 \<le> fmul ps 40" "fmul ps 40 \<le> fmul qs 40"
    by (auto intro!: fl_nonneg fl_mono simp: fmul_def)
  then show ?thesis
    unfolding pattern_points_def PATTERN_SCORE_MAX_def py_int_def by (auto intro: floor_mono)
qed

lemma context_points_bounds: "0 \<le> context_points r d a e" "context_points r d a e \<le> 30"
  by (auto simp: context_points_def CONTEXT_TREND_def CONTEXT_ATR_def CONTEXT_EVENT_def)

lemma context_points_neutral: "context_points NeutralMkt d a e \<le> 15"
  by (auto simp: context_points_def CONTEXT_ATR_def CONTEXT_EVENT_def)

lemma context_points_conflict:
  "r \<noteq> NeutralMkt \<Longrightarrow> \<not> direction_matches_regime d r \<Longrightarrow> context_points r d a e \<le> 20"
  by (auto simp: context_points_def CONTEXT_TREND_def CONTEXT_ATR_def CONTEXT_EVENT_def)

lemma confirm_points_bounds: "0 \<le> confirm_points a b" "confirm_points a b \<le> 20"
  by (auto simp: confirm_points_def CONF_RSI_DIVERGENCE_def CONF_VOLUME_def)

lemmas grade_signal_simps = grade_signal_def Let_def MIN_SCORE_STRONG_def MIN_SCORE_MEDIUM_def

lemma series_at_negative [simp]: "k < 0 \<Longrightarrow> series_at xs k = Inl (KeyError ''label'')"
  by (simp add: series_at_def)

lemma macro_compute_signed:
  assumes "macro_compute t ew (Some xs) dir = Inr m" "min_daily_bars t \<le> int (length xs)" "dir = 1 \<or> dir = - 1"
  shows "\<exists>price v200. iloc_end xs 1 = Inr price \<and> iloc_end (ew xs) 1 = Inr v200 \<and>
    (let dev = (if 0 < v200 then fmul (fsub (fdiv price v200) 1) 100 else 0);
         c = macro_classify t dir (v200 < price) dev (ema_slope_pct (ew xs))
     in size_mult m = fst c \<and> advice m = fst (snd c) \<and> signal_vs_macro m = snd (snd c) \<and>
        macro_dir m = (if v200 < price then BullMarket else BearMarket) \<and>
        deviation_pct m = pyround dev 1 \<and> ema200_slope_20d m = pyround (ema_slope_pct (ew xs)) 1)"
proof -
  have "\<not> int (length xs) < min_daily_bars t" "dir \<in> set [- 1, 0, 1]" "dir \<in> set [1, - 1]"
    using assms(2,3) by auto
  with assms(1) show ?thesis
    unfolding macro_compute_def by (auto simp: Let_def case_prod_unfold simp del: set_simps)
qed

text \<open>With enough history the first negative lookup raises.\<close>

lemma regime_lookup:
  "74 \<le> length bars \<Longrightarrow> get_market_regime ew mean events bars = Inl (KeyError ''label'')"
  unfolding get_market_regime_def EMA_PERIOD_def Let_def by simp

section \<open>Properties\<close>

text \<open>
  What the discipline filter decides. The distance is never negative and 0 inside the zone; the
  candidate passes exactly when no bar after C meets the zone and the second target is not crossed;
  and a price inside the zone never passes once a bar after C holds that price, because that bar has
  touched the zone: a tradable row is never one whose price stands in its zone.
\<close>

theorem discipline_verdict:
  assumes ok: "evaluate tun mean df vol c price ttl given = Inr r"
    and current: "blow (last df) \<le> price" "price \<le> bhigh (last df)"
    and after: "c_index given c + 1 < int (length df)"
  shows "0 \<le> dist_pct (dmetrics r) \<and> 0 \<le> bars_since_c (dmetrics r) \<and>
    (passed r \<longleftrightarrow> (\<forall>b \<in> set (bars_after df (c_index given c)). bhigh b < prz_low c \<or> prz_high c < blow b)
                 \<and> past_second_target tun price c (bullish c) = Inr False) \<and>
    (in_prz (dmetrics r) \<longrightarrow> dist_pct (dmetrics r) = 0 \<and> \<not> passed r) \<and>
    (tradable (CandidateWithMetrics.make c (dmetrics r) None) \<longleftrightarrow> passed r \<and> \<not> stale (dmetrics r))"
proof -
  from ok show ?thesis
  proof (rule evaluate_Inr)
    assume e: "past_second_target tun price c (bullish c) = Inr (past_tp2 (dmetrics r))"
      "breached_stop (dmetrics r) = prz_was_touched (bars_after df (c_index given c)) (prz_low c) (prz_high c) (bullish c)"
      "passed r = (\<not> breached_stop (dmetrics r) \<and> \<not> past_tp2 (dmetrics r))"
      "in_prz (dmetrics r) = (prz_low c \<le> price \<and> price \<le> prz_high c)"
      "dist_pct (dmetrics r) = prz_dist_pct price c (bullish c)"
      "bars_since_c (dmetrics r) = bars_since (Some (c_index given c)) (int (length df))" "df \<noteq> []"
    have touched: "breached_stop (dmetrics r)" if "in_prz (dmetrics r)"
      using last_in_bars_after [OF after e(7)] that current unfolding e(2,4) prz_was_touched_iff
      by (intro bexI [of _ "last df"]) auto
    have dist0: "dist_pct (dmetrics r) = 0" if "in_prz (dmetrics r)"
      using that unfolding e(4,5) by (simp add: prz_dist_pct_def Let_def)
    have pass: "passed r \<longleftrightarrow> (\<forall>b \<in> set (bars_after df (c_index given c)). bhigh b < prz_low c \<or> prz_high c < blow b)
                 \<and> past_second_target tun price c (bullish c) = Inr False"
      unfolding e(1,2,3) prz_was_touched_iff by (auto simp: not_le not_less)
    have "0 \<le> bars_since_c (dmetrics r)" unfolding e(6) by (simp add: bars_since_def)
    moreover have "0 \<le> dist_pct (dmetrics r)" unfolding e(5) by (rule prz_dist_pct_nonneg)
    moreover have "tradable (CandidateWithMetrics.make c (dmetrics r) None) \<longleftrightarrow> passed r \<and> \<not> stale (dmetrics r)"
      unfolding e(3) by (auto simp: tradable_def CandidateWithMetrics.make_def)
    ultimately show ?thesis using touched dist0 pass e(3) by blast
  qed
qed

text \<open>
  The grade. With a completeness between 0 and 1 the total lies between 0 and 90, the score does
  not fall when the completeness rises, and a strong signal has passed the reward-to-risk gate, has
  at least one confirmation, and stands in a trending regime; against the trend it needs both
  confirmations, a healthy range and a clear calendar.
\<close>

theorem grade_signal_sound:
  assumes ps: "0 \<le> ps" "ps \<le> qs" "qs \<le> 1"
  shows "0 \<le> gr_total (grade_signal ps rsi vol res d rr atr clear) \<and>
    gr_total (grade_signal ps rsi vol res d rr atr clear) \<le> 90 \<and>
    gr_total (grade_signal ps rsi vol res d rr atr clear) \<le> gr_total (grade_signal qs rsi vol res d rr atr clear) \<and>
    (gr_grade (grade_signal ps rsi vol res d rr atr clear) = StrongSignal \<longrightarrow>
       MIN_RR_RATIO \<le> rr \<and> (rsi \<or> vol) \<and>
       (\<exists>r. res = Some r \<and> mr_regime r \<noteq> NeutralMkt \<and>
          (\<not> direction_matches_regime d (mr_regime r) \<longrightarrow>
             rsi \<and> vol \<and> is_volatility_healthy atr \<and> clear \<and> pattern_points ps = 40)))"
proof -
  define regime where "regime = (case res of None \<Rightarrow> NeutralMkt | Some r \<Rightarrow> mr_regime r)"
  have p: "0 \<le> pattern_points ps" "pattern_points ps \<le> 40" "pattern_points ps \<le> pattern_points qs"
    using pattern_points_bounds [of ps] pattern_points_mono [of ps qs] ps by auto
  note b = confirm_points_bounds [of rsi vol] context_points_bounds [of regime d atr clear]
  have strong: "80 \<le> pattern_points ps + confirm_points rsi vol + context_points regime d atr clear \<and> MIN_RR_RATIO \<le> rr"
    if "gr_grade (grade_signal ps rsi vol res d rr atr clear) = StrongSignal"
    using that b p by (auto simp: grade_signal_simps regime_def split: if_splits)
  have trending: "regime \<noteq> NeutralMkt"
    if "80 \<le> pattern_points ps + confirm_points rsi vol + context_points regime d atr clear"
    using that b p context_points_neutral [of d atr clear] by auto
  have confirmed: "rsi \<or> vol"
    if "80 \<le> pattern_points ps + confirm_points rsi vol + context_points regime d atr clear"
    using that b p by (auto simp: confirm_points_def CONF_RSI_DIVERGENCE_def CONF_VOLUME_def split: if_splits)
  have conflict: "rsi \<and> vol \<and> is_volatility_healthy atr \<and> clear \<and> pattern_points ps = 40"
    if "80 \<le> pattern_points ps + confirm_points rsi vol + context_points regime d atr clear"
      and "\<not> direction_matches_regime d regime"
    using that p trending [OF that(1)]
    by (auto simp: confirm_points_def context_points_def CONTEXT_TREND_def CONTEXT_ATR_def CONTEXT_EVENT_def
        CONF_RSI_DIVERGENCE_def CONF_VOLUME_def is_volatility_healthy_def ATR_LOWER_BOUND_def ATR_UPPER_BOUND_def
        split: if_splits)
  have total: "gr_total (grade_signal qs rsi vol res d rr atr clear) =
      (if MIN_RR_RATIO \<le> rr then min (pattern_points qs + confirm_points rsi vol + context_points regime d atr clear) 100
       else max (min (pattern_points qs + confirm_points rsi vol + context_points regime d atr clear) 100 - 20) 0)" for qs
    by (simp add: grade_signal_simps regime_def)
  have "\<exists>r. res = Some r \<and> mr_regime r = regime" if "regime \<noteq> NeutralMkt"
    using that by (cases res) (auto simp: regime_def)
  then show ?thesis
    using strong trending confirmed conflict p b unfolding total by auto
qed

text \<open>
  The macro overlay on a full daily series. Of a long and a short signal on the same series
  exactly one runs with the trend, whatever the slope; both see the same regime, deviation and
  slope; the counter signal counts as extreme exactly beyond the deviation threshold, and at a valid
  tuning no counter signal is sized above the extreme multiplier, and none above 3/2.
\<close>

theorem macro_overlay_policy:
  assumes l: "macro_compute t ew (Some xs) 1 = Inr lo" and s: "macro_compute t ew (Some xs) (- 1) = Inr sh"
    and n: "min_daily_bars t \<le> int (length xs)" and v: "valid_tuning t"
  shows "(signal_vs_macro lo = WithTrend \<longleftrightarrow> signal_vs_macro sh \<noteq> WithTrend) \<and>
    (signal_vs_macro lo = WithTrend \<longleftrightarrow> macro_dir lo = BullMarket) \<and>
    macro_dir lo = macro_dir sh \<and> deviation_pct lo = deviation_pct sh \<and> ema200_slope_20d lo = ema200_slope_20d sh \<and>
    (signal_vs_macro lo \<noteq> WithTrend \<longrightarrow> size_mult lo \<le> mult_extreme_inverse t \<and> size_mult lo \<le> 3 / 2) \<and>
    (signal_vs_macro sh \<noteq> WithTrend \<longrightarrow> size_mult sh \<le> mult_extreme_inverse t \<and> size_mult sh \<le> 3 / 2) \<and>
    (\<exists>dev. deviation_pct lo = pyround dev 1 \<and>
       (signal_vs_macro lo = CounterExtreme \<or> signal_vs_macro sh = CounterExtreme \<longleftrightarrow> extreme_deviation_pct t < \<bar>dev\<bar>))"
proof -
  obtain price v200 where pv: "iloc_end xs 1 = Inr price" "iloc_end (ew xs) 1 = Inr v200"
    and lo: "let dev = (if 0 < v200 then fmul (fsub (fdiv price v200) 1) 100 else 0);
         c = macro_classify t 1 (v200 < price) dev (ema_slope_pct (ew xs))
     in size_mult lo = fst c \<and> advice lo = fst (snd c) \<and> signal_vs_macro lo = snd (snd c) \<and>
        macro_dir lo = (if v200 < price then BullMarket else BearMarket) \<and>
        deviation_pct lo = pyround dev 1 \<and> ema200_slope_20d lo = pyround (ema_slope_pct (ew xs)) 1"
    using macro_compute_signed [OF l n] by blast
  obtain price' v200' where pv': "iloc_end xs 1 = Inr price'" "iloc_end (ew xs) 1 = Inr v200'"
    and sh: "let dev = (if 0 < v200' then fmul (fsub (fdiv price' v200') 1) 100 else 0);
         c = macro_classify t (- 1) (v200' < price') dev (ema_slope_pct (ew xs))
     in size_mult sh = fst c \<and> advice sh = fst (snd c) \<and> signal_vs_macro sh = snd (snd c) \<and>
        macro_dir sh = (if v200' < price' then BullMarket else BearMarket) \<and>
        deviation_pct sh = pyround dev 1 \<and> ema200_slope_20d sh = pyround (ema_slope_pct (ew xs)) 1"
    using macro_compute_signed [OF s n] by blast
  have eq: "price' = price" "v200' = v200" using pv pv' by auto
  define dev where "dev = (if 0 < v200 then fmul (fsub (fdiv price v200) 1) 100 else 0)"
  note lo = lo [folded dev_def, unfolded Let_def] and sh = sh [unfolded eq, folded dev_def, unfolded Let_def]
  note m = valid_mults(1-3) [OF v]
  have c: "snd (snd (macro_classify t 1 b dv sl)) = WithTrend \<longleftrightarrow> b"
    "snd (snd (macro_classify t (- 1) b dv sl)) = WithTrend \<longleftrightarrow> \<not> b"
    "snd (snd (macro_classify t 1 b dv sl)) = CounterExtreme \<longleftrightarrow> \<not> b \<and> extreme_deviation_pct t < \<bar>dv\<bar>"
    "snd (snd (macro_classify t (- 1) b dv sl)) = CounterExtreme \<longleftrightarrow> b \<and> extreme_deviation_pct t < \<bar>dv\<bar>"
    "\<not> b \<Longrightarrow> fst (macro_classify t 1 b dv sl) \<le> mult_extreme_inverse t"
    "b \<Longrightarrow> fst (macro_classify t (- 1) b dv sl) \<le> mult_extreme_inverse t" for b dv sl
    using m by (auto simp: macro_classify_def Let_def)
  have "(signal_vs_macro lo = CounterExtreme \<or> signal_vs_macro sh = CounterExtreme) = (extreme_deviation_pct t < \<bar>dev\<bar>)"
    using lo sh c(3,4) by auto
  moreover have "size_mult lo \<le> mult_extreme_inverse t" if "signal_vs_macro lo \<noteq> WithTrend"
    using that lo c(1,5) by auto
  moreover have "size_mult sh \<le> mult_extreme_inverse t" if "signal_vs_macro sh \<noteq> WithTrend"
    using that sh c(2,6) by auto
  ultimately show ?thesis
    using lo sh c(1,2) m(1) by (metis macro_regime.distinct(11) order_trans)
qed

text \<open>
  The regime filter as written never classifies anything. With too little history it answers
  neutral without bars; with enough, the negative lookup in a labelled series raises, as does the
  divergence test. And the event flag of a classified regime is the negation of its meaning: blocked
  exactly when the calendar is empty.
\<close>

theorem regime_filter_always_raises:
  "get_market_regime ew mean events bars =
     (if length bars < 74 then Inr neutral_regime else Inl (KeyError ''label'')) \<and>
   compute_rsi_divergence ew bars =
     (if length bars < 19 then Inr False else Inl (KeyError ''label'')) \<and>
   (mr_event_blocked (regime_result mean events bars slope) \<longleftrightarrow> events = [])"
proof -
  have "get_market_regime ew mean events bars =
     (if length bars < 74 then Inr neutral_regime else Inl (KeyError ''label''))"
    unfolding get_market_regime_def EMA_PERIOD_def Let_def by simp
  moreover have "compute_rsi_divergence ew bars =
     (if length bars < 19 then Inr False else Inl (KeyError ''label''))"
    unfolding compute_rsi_divergence_def RSI_LOOKBACK_def rsi_label_def Let_def by simp
  ultimately show ?thesis
    by (simp add: regime_result_def is_event_clear_def Let_def)
qed

section \<open>Witnesses\<close>

definition ctx_bar :: "rat \<Rightarrow> bar" where
  "ctx_bar p = \<lparr>bopen = p, bhigh = p + 1, blow = p - 1, bclose = p, bvol = 10\<rparr>"

definition ctx_candidate :: Candidate where
  "ctx_candidate = \<lparr>family = ''XABCD'', cname = ''gartley'', bullish = True, formed = False,
     cpoints = [90, 120, 100, 110], completion_min = 95, completion_max = 97,
     ctimes = [], cindices = [0, 1]\<rparr>"

lemma ctx_evaluate: "\<exists>r. evaluate TUNING (\<lambda>_. 10) (map ctx_bar [110, 104, 96]) None ctx_candidate 96 (Some 40) None = Inr r"
proof -
  have "\<exists>b. past_second_target TUNING 96 ctx_candidate True = Inr b"
    unfolding past_second_target_def compute_targets_def a_price_def ctx_candidate_def index_at_def TUNING_fields Let_def
    by (simp add: prz_low_def prz_high_def fadd_def fdiv_def fl_of_numeral)
  then obtain b where "past_second_target TUNING 96 ctx_candidate True = Inr b" ..
  moreover have "bullish ctx_candidate" "prz_low ctx_candidate = 95" "prz_high ctx_candidate = 97"
    by (simp_all add: ctx_candidate_def prz_low_def prz_high_def)
  ultimately show ?thesis by (simp add: evaluate_def Let_def)
qed

theorem discipline_verdict_witness:
  "\<exists>r. evaluate TUNING (\<lambda>_. 10) (map ctx_bar [110, 104, 96]) None ctx_candidate 96 (Some 40) None = Inr r \<and>
     in_prz (dmetrics r) \<and> dist_pct (dmetrics r) = 0 \<and> \<not> passed r"
proof -
  obtain r where r: "evaluate TUNING (\<lambda>_. 10) (map ctx_bar [110, 104, 96]) None ctx_candidate 96 (Some 40) None = Inr r"
    using ctx_evaluate by blast
  have "in_prz (dmetrics r)"
    by (rule evaluate_Inr [OF r]) (simp add: ctx_candidate_def prz_low_def prz_high_def)
  moreover have "blow (last (map ctx_bar [110, 104, 96])) \<le> 96" "96 \<le> bhigh (last (map ctx_bar [110, 104, 96]))"
    "c_index None ctx_candidate + 1 < int (length (map ctx_bar [110, 104, 96]))"
    by (simp_all add: ctx_bar_def c_index_def ctx_candidate_def)
  ultimately show ?thesis using discipline_verdict [OF r] r by blast
qed

theorem grade_signal_sound_witness:
  "gr_total (grade_signal (1/2) True True (Some (regime_result (\<lambda>_. 1) [] [] (1/10))) ''bullish'' 2 1 True)
     \<le> gr_total (grade_signal 1 True True (Some (regime_result (\<lambda>_. 1) [] [] (1/10))) ''bullish'' 2 1 True) \<and>
   gr_total (grade_signal 1 True True (Some (regime_result (\<lambda>_. 1) [] [] (1/10))) ''bullish'' 2 1 True) \<le> 90"
  using grade_signal_sound [of "1/2" 1 True True "Some (regime_result (\<lambda>_. 1) [] [] (1/10))" "''bullish''" 2 1 True]
    grade_signal_sound [of 1 1 True True "Some (regime_result (\<lambda>_. 1) [] [] (1/10))" "''bullish''" 2 1 True]
  by simp

lemma TUNING_macro_fields:
  "min_daily_bars TUNING = 210" "extreme_deviation_pct TUNING = 20"
  by (simp_all add: TUNING_def)

theorem macro_overlay_policy_witness:
  "\<exists>lo sh. macro_compute TUNING (\<lambda>xs. xs) (Some (replicate 210 100)) 1 = Inr lo \<and>
     macro_compute TUNING (\<lambda>xs. xs) (Some (replicate 210 100)) (- 1) = Inr sh \<and>
     macro_dir lo = macro_dir sh \<and> (signal_vs_macro lo = WithTrend \<longleftrightarrow> signal_vs_macro sh \<noteq> WithTrend)"
proof -
  have i: "iloc_end (replicate 210 (100 :: rat)) 1 = Inr 100" by (simp add: iloc_end_def)
  have "\<exists>m. macro_compute TUNING (\<lambda>xs. xs) (Some (replicate 210 100)) d = Inr m" if "d = 1 \<or> d = - 1" for d
    using that unfolding macro_compute_def TUNING_macro_fields
    by (auto simp: i [simplified] Let_def case_prod_unfold)
  from this [of 1] this [of "- 1"]
  obtain lo sh where l: "macro_compute TUNING (\<lambda>xs. xs) (Some (replicate 210 100)) 1 = Inr lo"
    and s: "macro_compute TUNING (\<lambda>xs. xs) (Some (replicate 210 100)) (- 1) = Inr sh" by auto
  from macro_overlay_policy [OF l s _ TUNING_valid] l s show ?thesis
    by (simp add: TUNING_macro_fields)
qed

end
