(* ===== verification/WatchScan.thy ===== *)
theory WatchScan
  imports MarketContext
begin

text \<open>
  \<^verbatim>\<open>app/tasks/watchlist_scan.py\<close>: the scan of the users' watchlists, with the fetch guard of
  \<^verbatim>\<open>app/services/market_regime.py\<close>.

  Arguments stand for what the scan reads from outside: the kline reply of the exchange per symbol,
  the high-impact events of the calendar, the pandas means (\<open>scan_env\<close>), whether a message is
  delivered, and the Redis lock store. \<open>_detect_harmonic_candidate\<close> passes the bar frame to
  \<open>extract_candidates\<close>, whose contract requires a dict; the contract raises and the \<open>except\<close> branch
  runs, so detection is \<open>fallback_candidate\<close>. The fields of the result that only a formatter reads
  as text stay text.
\<close>

section \<open>Fetching\<close>

definition upper_letter :: "char \<Rightarrow> bool" where
  "upper_letter c \<longleftrightarrow> (let n = of_char c :: nat in 65 \<le> n \<and> n \<le> 90)"

text \<open>\<open>re.match(r"^[A-Z]{2,10}USDT?$", s)\<close>: \<open>$\<close> also matches before a final newline.\<close>

definition drop_newline :: "string \<Rightarrow> string" where
  "drop_newline s = (if s \<noteq> [] \<and> last s = CHR 0x0A then butlast s else s)"

definition base_then :: "string \<Rightarrow> string \<Rightarrow> bool" where
  "base_then sfx s \<longleftrightarrow>
     (let n = length s - length sfx in
      length sfx \<le> length s \<and> drop n s = sfx \<and> 2 \<le> n \<and> n \<le> 10 \<and> list_all upper_letter (take n s))"

definition valid_symbol :: "string \<Rightarrow> bool" where
  "valid_symbol s \<longleftrightarrow> base_then ''USD'' (drop_newline s) \<or> base_then ''USDT'' (drop_newline s)"

definition fetch_4h_bars :: "(string \<Rightarrow> bar list option) \<Rightarrow> string \<Rightarrow> bar list" where
  "fetch_4h_bars reply s =
     (if \<not> valid_symbol s then [] else case reply s of None \<Rightarrow> [] | Some rows \<Rightarrow> rows)"

section \<open>Levels\<close>

text \<open>ATR(14) of the frame; the scan reaches it with at least 74 rows, so no window is short.\<close>

definition get_atr :: "(rat list \<Rightarrow> rat) \<Rightarrow> bar list \<Rightarrow> rat" where
  "get_atr mean bars = (if bars = [] then 0 else mean (tail_rows 14 (true_ranges bars)))"

definition compute_atr_stop :: "string \<Rightarrow> rat \<Rightarrow> rat \<Rightarrow> rat" where
  "compute_atr_stop d entry atr0 =
     (let atr = (if atr0 = 0 then fmul entry (fl (3 / 100)) else atr0);
          stop = (if d = ''bullish'' then fsub entry (fmul (5 / 2) atr) else fadd entry (fmul (5 / 2) atr))
      in pyround stop 4)"

definition compute_target :: "rat \<Rightarrow> rat \<Rightarrow> rat \<Rightarrow> rat" where
  "compute_target entry stop rr = (let risk = \<bar>fsub entry stop\<bar> in pyround (fadd entry (fmul rr risk)) 4)"

definition compute_rr :: "rat \<Rightarrow> rat \<Rightarrow> rat \<Rightarrow> rat" where
  "compute_rr entry stop target =
     (let risk = \<bar>fsub entry stop\<bar> in
      if risk = 0 then 0 else pyround (fdiv \<bar>fsub target entry\<bar> risk) 2)"

section \<open>Scanning one symbol\<close>

record raw_candidate =
  rc_pattern :: string
  rc_direction :: string
  rc_entry :: rat
  rc_score :: rat

definition fallback_candidate :: "bar list \<Rightarrow> raw_candidate option" where
  "fallback_candidate bars =
     (if length bars < 60 then None
      else let price = bclose (last bars);
               hi = list_max (map bhigh (tail_rows 20 bars));
               lo = list_min (map blow (tail_rows 20 bars))
        in if \<not> (fmul hi (fl (97 / 100)) \<le> price \<or> price \<le> fmul lo (fl (103 / 100))) then None
           else Some \<lparr>rc_pattern = ''Gartley'',
                      rc_direction = (if price < fmul lo (fl (101 / 100)) then ''bullish'' else ''bearish''),
                      rc_entry = price, rc_score = fl (6 / 10)\<rparr>)"

definition detect_harmonic_candidate :: "bar list \<Rightarrow> raw_candidate option" where
  "detect_harmonic_candidate bars = fallback_candidate bars"

datatype skip_reason = EventBlocked "block_reason option" | NoBarData | NoCandidate
  | DirectionBlocked string market_regime | GradeReasons "deduction list"

record ScanResult =
  sc_symbol :: string
  sc_pattern :: string
  sc_direction :: string
  sc_score :: int
  sc_grade :: signal_grade
  sc_entry :: rat
  sc_stop :: rat
  sc_target1 :: rat
  sc_target2 :: rat
  sc_atr :: rat
  sc_rr :: rat
  sc_trend_ok :: bool
  sc_rsi_div :: bool
  sc_volume :: bool
  sc_volatility_ok :: bool
  sc_event_ok :: bool
  sc_regime :: market_regime
  sc_skipped :: bool
  sc_reason :: "skip_reason option"

definition make_skip :: "string \<Rightarrow> skip_reason \<Rightarrow> ScanResult" where
  "make_skip s why = \<lparr>sc_symbol = s, sc_pattern = '''', sc_direction = '''', sc_score = 0, sc_grade = SkipSignal,
     sc_entry = 0, sc_stop = 0, sc_target1 = 0, sc_target2 = 0, sc_atr = 0, sc_rr = 0,
     sc_trend_ok = False, sc_rsi_div = False, sc_volume = False, sc_volatility_ok = False, sc_event_ok = False,
     sc_regime = NeutralMkt, sc_skipped = True, sc_reason = Some why\<rparr>"

record scan_env =
  se_ewm72 :: "rat list \<Rightarrow> rat list"
  se_ewm14 :: "rat list \<Rightarrow> rat list"
  se_mean :: "rat list \<Rightarrow> rat"
  se_events :: "string list"
  se_reply :: "string \<Rightarrow> bar list option"

text \<open>The steps after the regime is known.\<close>

definition scan_with_regime :: "scan_env \<Rightarrow> string \<Rightarrow> MarketRegimeResult \<Rightarrow> signal_error + ScanResult" where
  "scan_with_regime env s reg =
     (if mr_event_blocked reg then Inr (make_skip s (EventBlocked (mr_block_reason reg)))
      else case mr_bars reg of None \<Rightarrow> Inr (make_skip s NoBarData)
      | Some bars \<Rightarrow> if bars = [] then Inr (make_skip s NoBarData)
        else case detect_harmonic_candidate bars of None \<Rightarrow> Inr (make_skip s NoCandidate)
        | Some c \<Rightarrow>
          let d = (if rc_direction c = ''bullish'' then ''bullish'' else ''bearish'') in
          if \<not> is_direction_allowed (mr_regime reg) d
          then Inr (make_skip s (DirectionBlocked d (mr_regime reg)))
          else ebind (compute_rsi_divergence (se_ewm14 env) bars) (\<lambda>rsi.
            let vol = is_volume_confirming (se_mean env) bars (fl (11 / 10));
                atr_ok = is_volatility_healthy (mr_atr_ratio reg);
                event_ok = (\<not> mr_event_blocked reg);
                entry = rc_entry c;
                atr = get_atr (se_mean env) bars;
                stop = compute_atr_stop d entry atr;
                t1 = compute_target entry stop (3 / 2);
                t2 = compute_target entry stop (5 / 2);
                rr = compute_rr entry stop t1;
                score = (if rc_score c \<le> 0 then 1 / 2 else rc_score c);
                g = grade_signal score rsi vol (Some reg) d rr (mr_atr_ratio reg) event_ok
            in Inr \<lparr>sc_symbol = s, sc_pattern = rc_pattern c, sc_direction = d, sc_score = gr_total g,
                    sc_grade = gr_grade g, sc_entry = entry, sc_stop = stop, sc_target1 = t1, sc_target2 = t2,
                    sc_atr = atr, sc_rr = rr, sc_trend_ok = is_direction_allowed (mr_regime reg) d,
                    sc_rsi_div = rsi, sc_volume = vol, sc_volatility_ok = atr_ok, sc_event_ok = event_ok,
                    sc_regime = mr_regime reg, sc_skipped = (gr_grade g = SkipSignal),
                    sc_reason = (if gr_reasons g \<noteq> [] then Some (GradeReasons (gr_reasons g)) else None)\<rparr>))"

definition scan_symbol :: "scan_env \<Rightarrow> string \<Rightarrow> signal_error + ScanResult" where
  "scan_symbol env s =
     ebind (get_market_regime (se_ewm72 env) (se_mean env) (se_events env) (fetch_4h_bars (se_reply env) s))
       (scan_with_regime env s)"

section \<open>Scanning a user's list\<close>

record scan_prefs =
  sp_interval_hours :: int
  sp_min_score :: int
  sp_webhook :: "string option"
  sp_daily_summary :: bool
  sp_bearish_only :: bool
  sp_notify_on_pattern :: bool

datatype scan_message = DetailedMsg ScanResult | CompactMsg ScanResult
  | DailyMsg nat "ScanResult list" "ScanResult list"

text \<open>A row of \<open>scan_log\<close>: the symbol, the result and \<open>is_sent\<close>.\<close>

type_synonym scan_row = "string \<times> ScanResult \<times> bool"

record user_scan =
  us_scanned :: nat
  us_strong :: "ScanResult list"
  us_medium :: "ScanResult list"
  us_rows :: "scan_row list"

definition scan_step :: "scan_prefs \<Rightarrow> string \<Rightarrow> ScanResult \<Rightarrow> user_scan \<Rightarrow> user_scan" where
  "scan_step prefs s r u =
     (let u1 = u\<lparr>us_scanned := us_scanned u + 1\<rparr> in
      if sc_skipped r \<or> sc_score r < sp_min_score prefs then u1\<lparr>us_rows := us_rows u1 @ [(s, r, False)]\<rparr>
      else let u2 = (if sc_grade r = StrongSignal then u1\<lparr>us_strong := us_strong u1 @ [r]\<rparr>
                     else if sc_grade r = MediumSignal then u1\<lparr>us_medium := us_medium u1 @ [r]\<rparr>
                     else u1)
           in u2\<lparr>us_rows := us_rows u2 @ [(s, r, True)]\<rparr>)"

text \<open>
  The loop over the symbols. A raise leaves the loop; the rows logged before it have been written,
  so the loop returns them with the error.
\<close>

fun scan_loop :: "(string \<Rightarrow> signal_error + ScanResult) \<Rightarrow> scan_prefs \<Rightarrow> string list \<Rightarrow> user_scan \<Rightarrow>
    user_scan \<times> signal_error option" where
  "scan_loop scan prefs [] u = (u, None)"
| "scan_loop scan prefs (s # ss) u =
     (case scan s of Inl e \<Rightarrow> (u, Some e)
      | Inr r \<Rightarrow> scan_loop scan prefs ss (scan_step prefs s r u))"

definition empty_scan :: user_scan where
  "empty_scan = \<lparr>us_scanned = 0, us_strong = [], us_medium = [], us_rows = []\<rparr>"

definition user_messages :: "scan_prefs \<Rightarrow> user_scan \<Rightarrow> scan_message list" where
  "user_messages prefs u =
     (case sp_webhook prefs of None \<Rightarrow> []
      | Some url \<Rightarrow> if url = [] then []
        else map DetailedMsg (us_strong u) @ map CompactMsg (us_medium u) @
             (if sp_daily_summary prefs \<and> (us_strong u \<noteq> [] \<or> us_medium u \<noteq> [])
              then [DailyMsg (us_scanned u) (us_strong u) (us_medium u)] else []))"

record user_counts =
  uc_scanned :: nat
  uc_signals :: nat
  uc_sent :: nat

definition scan_user ::
  "(scan_message \<Rightarrow> bool) \<Rightarrow> (string \<Rightarrow> signal_error + ScanResult) \<Rightarrow> scan_prefs \<Rightarrow> string list \<Rightarrow>
   (signal_error + user_counts) \<times> scan_row list \<times> scan_message list" where
  "scan_user delivered scan prefs symbols =
     (case scan_loop scan prefs symbols empty_scan of
        (u, Some e) \<Rightarrow> (Inl e, us_rows u, [])
      | (u, None) \<Rightarrow>
          (Inr \<lparr>uc_scanned = us_scanned u, uc_signals = length (us_strong u) + length (us_medium u),
                uc_sent = length (filter delivered (user_messages prefs u))\<rparr>,
           us_rows u, user_messages prefs u))"

section \<open>Scanning all users\<close>

text \<open>
  The lock store: absent, failing, or the set of the keys held. \<open>SET key 1 EX ttl NX\<close> succeeds
  exactly when the key is not held; nothing releases a lock before its hour is over.
\<close>

datatype lock_store = NoRedis | RedisFails | RedisLocks "(string \<times> int) list"

definition acquire_scan_lock :: "string \<Rightarrow> int \<Rightarrow> lock_store \<Rightarrow> bool \<times> lock_store" where
  "acquire_scan_lock uid hours locks =
     (case locks of NoRedis \<Rightarrow> (True, NoRedis)
      | RedisFails \<Rightarrow> (True, RedisFails)
      | RedisLocks ks \<Rightarrow> if (uid, hours) \<in> set ks then (False, RedisLocks ks)
                       else (True, RedisLocks ((uid, hours) # ks)))"

record scan_summary =
  ss_users :: nat
  ss_symbols :: nat
  ss_signals :: nat
  ss_sent :: nat
  ss_errors :: "(string \<times> signal_error) list"
  ss_locks :: lock_store
  ss_log :: "(string \<times> scan_row) list"

definition scan_one_user ::
  "(string \<Rightarrow> scan_message \<Rightarrow> bool) \<Rightarrow> (string \<Rightarrow> signal_error + ScanResult) \<Rightarrow> (string \<Rightarrow> string list) \<Rightarrow>
   string \<times> scan_prefs \<Rightarrow> scan_summary \<Rightarrow> scan_summary" where
  "scan_one_user delivered scan items up sm =
     (let (uid, prefs) = up; (ok, locks) = acquire_scan_lock uid (sp_interval_hours prefs) (ss_locks sm);
          sm1 = sm\<lparr>ss_locks := locks\<rparr> in
      if \<not> ok then sm1
      else let (res, rows, msgs) = scan_user (delivered uid) scan prefs (items uid);
               sm2 = sm1\<lparr>ss_log := ss_log sm1 @ map (Pair uid) rows\<rparr>
        in case res of
             Inl e \<Rightarrow> sm2\<lparr>ss_errors := ss_errors sm2 @ [(uid, e)]\<rparr>
           | Inr c \<Rightarrow> sm2\<lparr>ss_users := ss_users sm2 + 1, ss_symbols := ss_symbols sm2 + uc_scanned c,
                         ss_signals := ss_signals sm2 + uc_signals c, ss_sent := ss_sent sm2 + uc_sent c\<rparr>)"

definition scan_all_users ::
  "(string \<Rightarrow> scan_message \<Rightarrow> bool) \<Rightarrow> (string \<Rightarrow> signal_error + ScanResult) \<Rightarrow> (string \<Rightarrow> string list) \<Rightarrow>
   (string \<times> scan_prefs) list \<Rightarrow> lock_store \<Rightarrow> scan_summary" where
  "scan_all_users delivered scan items users locks =
     fold (scan_one_user delivered scan items) users
       \<lparr>ss_users = 0, ss_symbols = 0, ss_signals = 0, ss_sent = 0, ss_errors = [], ss_locks = locks, ss_log = []\<rparr>"

section \<open>Lemmas\<close>

lemma fmul_nonneg_half: "0 \<le> x \<Longrightarrow> 0 \<le> fmul (5 / 2) x"
  by (intro fmul_nonneg) auto

lemma stop_on_its_side:
  assumes "0 \<le> entry" "is_float entry" "0 \<le> atr"
  shows "d = ''bullish'' \<Longrightarrow> compute_atr_stop d entry atr \<le> pyround entry 4"
    and "d \<noteq> ''bullish'' \<Longrightarrow> pyround entry 4 \<le> compute_atr_stop d entry atr"
proof -
  define a where "a = (if atr = 0 then fmul entry (fl (3 / 100)) else atr)"
  have "0 \<le> a" using assms by (auto simp: a_def intro!: fmul_nonneg fl_nonneg)
  then have h: "0 \<le> fmul (5 / 2) a" by (rule fmul_nonneg_half)
  show "d = ''bullish'' \<Longrightarrow> compute_atr_stop d entry atr \<le> pyround entry 4"
    unfolding compute_atr_stop_def Let_def a_def [symmetric]
    using fsub_le [OF assms(2) h] by (auto intro: pyround_mono)
  show "d \<noteq> ''bullish'' \<Longrightarrow> pyround entry 4 \<le> compute_atr_stop d entry atr"
    unfolding compute_atr_stop_def Let_def a_def [symmetric]
    using fadd_ge [OF assms(2) h] by (auto intro: pyround_mono)
qed

lemma target_above_entry: "is_float entry \<Longrightarrow> 0 \<le> rr \<Longrightarrow> pyround entry 4 \<le> compute_target entry stop rr"
  unfolding compute_target_def Let_def by (intro pyround_mono fadd_ge fmul_nonneg) auto

text \<open>What the loop of one user keeps: the rows, the counters and the two lists agree.\<close>

definition reported :: "scan_prefs \<Rightarrow> ScanResult \<Rightarrow> bool" where
  "reported prefs r \<longleftrightarrow> \<not> sc_skipped r \<and> sp_min_score prefs \<le> sc_score r"

definition scan_inv :: "scan_prefs \<Rightarrow> user_scan \<Rightarrow> bool" where
  "scan_inv prefs u \<longleftrightarrow>
     us_scanned u = length (us_rows u) \<and>
     (\<forall>(s, r, sent) \<in> set (us_rows u). sent \<longleftrightarrow> reported prefs r) \<and>
     us_strong u = filter (\<lambda>r. reported prefs r \<and> sc_grade r = StrongSignal) (map (fst \<circ> snd) (us_rows u)) \<and>
     us_medium u = filter (\<lambda>r. reported prefs r \<and> sc_grade r = MediumSignal) (map (fst \<circ> snd) (us_rows u))"

lemma scan_inv_empty: "scan_inv prefs empty_scan"
  by (simp add: scan_inv_def empty_scan_def)

lemma scan_inv_step: "scan_inv prefs u \<Longrightarrow> scan_inv prefs (scan_step prefs s r u)"
  by (auto simp: scan_inv_def scan_step_def reported_def Let_def)

lemma scan_step_rows: "map fst (us_rows (scan_step prefs s r u)) = map fst (us_rows u) @ [s]"
  by (simp add: scan_step_def Let_def)

lemma scan_loop_ok:
  "scan_loop scan prefs ss u = (u', None) \<Longrightarrow> scan_inv prefs u \<Longrightarrow>
     scan_inv prefs u' \<and> map fst (us_rows u') = map fst (us_rows u) @ ss \<and>
     (\<forall>s \<in> set ss. \<exists>r. scan s = Inr r)"
proof (induction scan prefs ss u rule: scan_loop.induct)
  case (2 scan prefs s ss u)
  then obtain r where r: "scan s = Inr r" and l: "scan_loop scan prefs ss (scan_step prefs s r u) = (u', None)"
    by (auto split: sum.splits)
  from "2.IH" [OF r l scan_inv_step [OF "2.prems"(2)]] r show ?case
    by (auto simp: scan_step_rows)
qed simp

lemma scan_loop_raises: "s \<in> set ss \<Longrightarrow> scan s = Inl e \<Longrightarrow> \<exists>u' e'. scan_loop scan prefs ss u = (u', Some e')"
  by (induction scan prefs ss u rule: scan_loop.induct) (auto split: sum.splits)

section \<open>Properties\<close>

text \<open>
  The levels of a scan result. Whatever the direction both targets lie at or above the entry, so
  a bearish result, whose stop also lies at or above it, has its stop and its targets on the same
  side: the targets of a short stand where the trade loses.
\<close>

theorem scan_targets_above_entry:
  assumes "is_float entry" "0 \<le> entry" "0 \<le> atr"
  shows "pyround entry 4 \<le> compute_target entry (compute_atr_stop d entry atr) (3 / 2) \<and>
    pyround entry 4 \<le> compute_target entry (compute_atr_stop d entry atr) (5 / 2) \<and>
    (if d = ''bullish'' then compute_atr_stop d entry atr \<le> pyround entry 4
     else pyround entry 4 \<le> compute_atr_stop d entry atr)"
  using stop_on_its_side [OF assms(2,1,3)] target_above_entry [OF assms(1)] by simp

theorem scan_targets_above_entry_witness:
  "(100 :: rat) \<le> compute_target 100 (compute_atr_stop ''bearish'' 100 2) (3 / 2) \<and>
   (100 :: rat) \<le> compute_atr_stop ''bearish'' 100 2"
  using scan_targets_above_entry [of 100 2 "''bearish''"] by (simp add: pyround_of_numeral)

text \<open>
  The scan of one user. When no symbol raises, every listed symbol is scanned and logged once, in
  order; a row says \<open>is_sent\<close> exactly for a result that is not skipped and reaches the user's
  minimum, whether or not a message goes out; the signals counted are the reported strong and medium
  ones; no more messages are delivered than these and one summary; and without a webhook none is.
\<close>

theorem scan_user_accounting:
  assumes "scan_user delivered scan prefs symbols = (Inr c, rows, msgs)"
  shows "uc_scanned c = length symbols \<and> map fst rows = symbols \<and>
    (\<forall>(s, r, sent) \<in> set rows. sent \<longleftrightarrow> reported prefs r) \<and>
    uc_signals c = length (filter (\<lambda>r. reported prefs r \<and> sc_grade r \<noteq> SkipSignal) (map (fst \<circ> snd) rows)) \<and>
    uc_sent c \<le> uc_signals c + 1 \<and> uc_sent c = length (filter delivered msgs) \<and>
    (sp_webhook prefs = None \<longrightarrow> msgs = [])"
proof -
  obtain u where u: "scan_loop scan prefs symbols empty_scan = (u, None)"
    and c: "c = \<lparr>uc_scanned = us_scanned u, uc_signals = length (us_strong u) + length (us_medium u),
                uc_sent = length (filter delivered (user_messages prefs u))\<rparr>"
      "rows = us_rows u" "msgs = user_messages prefs u"
  proof (cases "scan_loop scan prefs symbols empty_scan")
    case (Pair u e)
    with assms have "e = None" by (cases e) (simp_all add: scan_user_def)
    with Pair assms show ?thesis by (intro that [of u]) (auto simp: scan_user_def)
  qed
  have inv: "scan_inv prefs u" and fst: "map fst (us_rows u) = symbols"
    using scan_loop_ok [OF u scan_inv_empty] by (auto simp: empty_scan_def)
  have split: "length (filter (\<lambda>r. P r \<and> sc_grade r = StrongSignal) xs) + length (filter (\<lambda>r. P r \<and> sc_grade r = MediumSignal) xs)
      = length (filter (\<lambda>r. P r \<and> sc_grade r \<noteq> SkipSignal) xs)" for P :: "ScanResult \<Rightarrow> bool" and xs
  proof (induction xs)
    case (Cons x xs)
    then show ?case by (cases "sc_grade x") auto
  qed simp
  have "length (user_messages prefs u) \<le> length (us_strong u) + length (us_medium u) + 1"
    by (cases "sp_webhook prefs") (simp_all add: user_messages_def)
  then have sent: "uc_sent c \<le> uc_signals c + 1"
    unfolding c by (simp add: order_trans [OF length_filter_le])
  have sig: "uc_signals c = length (filter (\<lambda>r. reported prefs r \<and> sc_grade r \<noteq> SkipSignal) (map (fst \<circ> snd) rows))"
    using inv unfolding c scan_inv_def by (simp only: user_counts.simps split)
  have "length (us_rows u) = length symbols" using fst by (metis length_map)
  moreover have "uc_scanned c = length (us_rows u)" using inv unfolding c scan_inv_def by simp
  moreover have "\<forall>(s, r, sent) \<in> set rows. sent \<longleftrightarrow> reported prefs r" using inv unfolding c scan_inv_def by blast
  moreover have "uc_sent c = length (filter delivered msgs)" unfolding c by simp
  moreover have "sp_webhook prefs = None \<longrightarrow> msgs = []" unfolding c by (simp add: user_messages_def)
  ultimately show ?thesis using sent sig fst unfolding c(2) by simp
qed

definition scan_prefs_demo :: scan_prefs where
  "scan_prefs_demo = \<lparr>sp_interval_hours = 4, sp_min_score = 60, sp_webhook = None, sp_daily_summary = True,
     sp_bearish_only = True, sp_notify_on_pattern = True\<rparr>"

definition demo_strong :: ScanResult where
  "demo_strong = (make_skip ''BTCUSDT'' NoCandidate)\<lparr>sc_score := 85, sc_grade := StrongSignal,
     sc_direction := ''bullish'', sc_skipped := False\<rparr>"

theorem scan_user_accounting_witness:
  "\<exists>c rows. scan_user (\<lambda>_. True) (\<lambda>_. Inr demo_strong) scan_prefs_demo [''BTCUSDT''] = (Inr c, rows, []) \<and>
     rows = [(''BTCUSDT'', demo_strong, True)] \<and> uc_signals c = 1 \<and> uc_sent c = 0 \<and> uc_scanned c = 1"
proof -
  obtain c rows msgs where
    e: "scan_user (\<lambda>_. True) (\<lambda>_. Inr demo_strong) scan_prefs_demo [''BTCUSDT''] = (Inr c, rows, msgs)"
    and rows: "rows = [(''BTCUSDT'', demo_strong, True)]"
    by (simp add: scan_user_def empty_scan_def scan_step_def demo_strong_def make_skip_def scan_prefs_demo_def)
  from scan_user_accounting [OF e] e rows show ?thesis
    by (auto simp: scan_prefs_demo_def demo_strong_def make_skip_def reported_def)
qed

text \<open>
  A run of the scan over real history ends every user it concerns. Once the exchange returns 74
  bars or more for a symbol of the list, scanning that symbol raises, so the user's scan is an error:
  nothing is counted and no message is sent.
\<close>

theorem full_history_ends_user_scan:
  assumes "s \<in> set symbols" "valid_symbol s" "se_reply env s = Some bars" "74 \<le> length bars"
  shows "\<exists>e rows. scan_user delivered (scan_symbol env) prefs symbols = (Inl e, rows, [])"
proof -
  have "scan_symbol env s = Inl (KeyError ''label'')"
    using assms regime_lookup [of bars "se_ewm72 env" "se_mean env" "se_events env"]
    by (simp add: scan_symbol_def fetch_4h_bars_def)
  from scan_loop_raises [where scan = "scan_symbol env" and prefs = prefs and u = empty_scan, OF assms(1) this] show ?thesis
    by (auto simp: scan_user_def)
qed

theorem full_history_ends_user_scan_witness:
  "\<exists>e rows. scan_user (\<lambda>_. True)
     (scan_symbol \<lparr>se_ewm72 = (\<lambda>xs. xs), se_ewm14 = (\<lambda>xs. xs), se_mean = (\<lambda>xs. 1), se_events = [],
        se_reply = (\<lambda>_. Some (replicate 100 (ctx_bar 50)))\<rparr>) scan_prefs_demo [''BTCUSDT''] = (Inl e, rows, [])"
  by (rule full_history_ends_user_scan [of "''BTCUSDT''" _ _ "replicate 100 (ctx_bar 50)"])
     (simp_all add: valid_symbol_def base_then_def drop_newline_def upper_letter_def)

text \<open>
  The scan lock. While a user's key is held no second scan of that user starts: the summary, its
  log included, stays as it is; and a lock store that is missing or failing never blocks a scan.
\<close>

lemma scan_one_user_locked:
  "ss_locks sm = RedisLocks ks \<Longrightarrow> (uid, sp_interval_hours prefs) \<in> set ks \<Longrightarrow>
     scan_one_user delivered scan items (uid, prefs) sm = sm"
  by (simp add: scan_one_user_def acquire_scan_lock_def)

end
