(* ===== verification/Watchlist.thy ===== *)
theory Watchlist
  imports Prelude "HOL-Library.Multiset"
begin

text \<open>
  \<^verbatim>\<open>app/infra/watchlist_store.py\<close>: the watchlist of each user, with its three backends.

  The memory backend is a dict of rows per user, the Redis backend a dict of row lists per market
  and user (the JSON text is its value); both are total in the user, a user without an entry having
  no rows. The Supabase table is not code of the repository: each call takes the reply it gives,
  \<open>None\<close> when no client is configured. Row ids (\<open>uuid4\<close>) and times are arguments; a time is the
  instant, which orders as its ISO text does. A call returns its result, or the error raised, and the
  state it leaves behind.

  \<open>watch_backend\<close> is the contract the public calls rely on; both fallback backends interpret it.
\<close>

section \<open>Rows\<close>

record witem =
  wi_id :: string
  wi_user :: string
  wi_market :: string
  wi_symbol :: string
  wi_base :: string
  wi_quote :: string
  wi_contract :: string
  wi_underlying :: "string option"
  wi_sub_types :: "string list"
  wi_price_prec :: int
  wi_qty_prec :: int
  wi_tradfi :: bool
  wi_note :: string
  wi_sort :: int
  wi_created :: int
  wi_updated :: int

record SymbolMeta =
  sm_symbol :: string
  sm_base :: string
  sm_quote :: string
  sm_contract :: string
  sm_underlying :: "string option"
  sm_sub_types :: "string list"
  sm_price_prec :: int
  sm_qty_prec :: int
  sm_tradfi :: bool

datatype wl_error = LimitReached | Duplicate string string | NotFound string
  | IdsMismatch "string set" "string set" | UnknownSymbol string | WValueError

definition MAX_ITEMS_PER_USER :: nat where "MAX_ITEMS_PER_USER = 50"
definition MAX_NOTE_LENGTH :: nat where "MAX_NOTE_LENGTH = 280"

text \<open>A cache entry, every key but the symbol optional.\<close>

record symbol_entry =
  en_symbol :: string
  en_base :: "string option"
  en_quote :: "string option"
  en_contract :: "string option"
  en_underlying :: "string option"
  en_sub_types :: "string list option"
  en_price_prec :: "int option"
  en_qty_prec :: "int option"
  en_tradfi :: "bool option"

definition or_else :: "'a option \<Rightarrow> 'a \<Rightarrow> 'a" where
  "or_else x d = (case x of None \<Rightarrow> d | Some v \<Rightarrow> v)"

definition symbol_meta_from_cache :: "symbol_entry \<Rightarrow> SymbolMeta" where
  "symbol_meta_from_cache e =
     \<lparr>sm_symbol = en_symbol e, sm_base = or_else (en_base e) '''', sm_quote = or_else (en_quote e) ''USDT'',
      sm_contract = or_else (en_contract e) ''PERPETUAL'', sm_underlying = en_underlying e,
      sm_sub_types = or_else (en_sub_types e) [], sm_price_prec = or_else (en_price_prec e) 2,
      sm_qty_prec = or_else (en_qty_prec e) 3, sm_tradfi = or_else (en_tradfi e) False\<rparr>"

text \<open>\<open>rows.sort(key=lambda r: (sort_index, created_at))\<close>: two stable sorts.\<close>

definition sort_items :: "witem list \<Rightarrow> witem list" where
  "sort_items rs = sort_key wi_sort (sort_key wi_created rs)"

record item_patch =
  ip_note :: "string option"
  ip_sort :: "int option"
  ip_at :: int

definition apply_patch :: "item_patch \<Rightarrow> witem \<Rightarrow> witem" where
  "apply_patch p r = r\<lparr>wi_updated := ip_at p, wi_note := or_else (ip_note p) (wi_note r),
                       wi_sort := or_else (ip_sort p) (wi_sort r)\<rparr>"

record order_patch =
  op_id :: string
  op_sort :: int
  op_at :: int

definition set_order :: "order_patch \<Rightarrow> witem \<Rightarrow> witem" where
  "set_order p r = r\<lparr>wi_sort := op_sort p, wi_updated := op_at p\<rparr>"

section \<open>The memory backend\<close>

type_synonym mem_state = "string \<Rightarrow> (string \<times> witem) list"

definition list_memory :: "mem_state \<Rightarrow> string \<Rightarrow> string \<Rightarrow> witem list" where
  "list_memory st u m = sort_items (filter (\<lambda>r. wi_market r = m) (vals_of (st u)))"

definition create_memory :: "string \<Rightarrow> witem \<Rightarrow> mem_state \<Rightarrow> (wl_error + witem) \<times> mem_state" where
  "create_memory u it st =
     (if \<exists>r \<in> set (vals_of (st u)). wi_market r = wi_market it \<and> wi_symbol r = wi_symbol it
      then (Inl (Duplicate (wi_symbol it) (wi_market it)), st)
      else if MAX_ITEMS_PER_USER \<le> length (st u) then (Inl LimitReached, st)
      else (Inr it, st(u := AList.update (wi_id it) it (st u))))"

definition update_memory :: "string \<Rightarrow> string \<Rightarrow> (witem \<Rightarrow> witem) \<Rightarrow> mem_state \<Rightarrow> (wl_error + witem) \<times> mem_state" where
  "update_memory i u f st =
     (case map_of (st u) i of None \<Rightarrow> (Inl (NotFound i), st)
      | Some r \<Rightarrow> (Inr (f r), st(u := AList.update i (f r) (st u))))"

definition delete_memory :: "string \<Rightarrow> string \<Rightarrow> mem_state \<Rightarrow> (wl_error + unit) \<times> mem_state" where
  "delete_memory i u st =
     (if \<not> has_key (st u) i then (Inl (NotFound i), st) else (Inr (), st(u := AList.delete i (st u))))"

text \<open>The updates run one by one: a raise leaves the earlier ones applied.\<close>

fun reorder_memory_loop ::
  "string \<Rightarrow> order_patch list \<Rightarrow> witem list \<Rightarrow> mem_state \<Rightarrow> (wl_error + witem list) \<times> mem_state" where
  "reorder_memory_loop u [] acc st = (Inr (sort_key wi_sort acc), st)"
| "reorder_memory_loop u (p # ps) acc st =
     (case update_memory (op_id p) u (set_order p) st of
        (Inl e, st') \<Rightarrow> (Inl e, st')
      | (Inr r, st') \<Rightarrow> reorder_memory_loop u ps (acc @ [r]) st')"

definition reorder_memory ::
  "string \<Rightarrow> string \<Rightarrow> order_patch list \<Rightarrow> mem_state \<Rightarrow> (wl_error + witem list) \<times> mem_state" where
  "reorder_memory u m ps st = reorder_memory_loop u ps [] st"

text \<open>\<open>_mirror_reorder\<close> on memory: each row's position, until one is missing.\<close>

fun mirror_reorder_memory :: "string \<Rightarrow> string \<Rightarrow> witem list \<Rightarrow> mem_state \<Rightarrow> mem_state" where
  "mirror_reorder_memory u m [] st = st"
| "mirror_reorder_memory u m (r # rs) st =
     (case update_memory (wi_id r) u (\<lambda>x. x\<lparr>wi_sort := wi_sort r, wi_updated := wi_updated r\<rparr>) st of
        (Inl e, st') \<Rightarrow> st'
      | (Inr _, st') \<Rightarrow> mirror_reorder_memory u m rs st')"

section \<open>The Redis backend\<close>

type_synonym redis_data = "(string \<times> witem list) list"
type_synonym redis_state = "string \<Rightarrow> redis_data"

definition list_redis :: "redis_state \<Rightarrow> string \<Rightarrow> string \<Rightarrow> witem list" where
  "list_redis st u m = sort_items (get_default (st u) m [])"

definition create_redis :: "string \<Rightarrow> witem \<Rightarrow> redis_state \<Rightarrow> (wl_error + witem) \<times> redis_state" where
  "create_redis u it st =
     (let m = wi_market it; rows = get_default (st u) m [] in
      if \<exists>r \<in> set rows. wi_symbol r = wi_symbol it then (Inl (Duplicate (wi_symbol it) m), st)
      else if MAX_ITEMS_PER_USER \<le> length rows then (Inl LimitReached, st)
      else (Inr it, st(u := AList.update m (rows @ [it]) (st u))))"

text \<open>The first row with the id, market by market, is changed in place.\<close>

fun update_rows :: "string \<Rightarrow> (witem \<Rightarrow> witem) \<Rightarrow> witem list \<Rightarrow> (witem \<times> witem list) option" where
  "update_rows i f [] = None"
| "update_rows i f (r # rs) =
     (if wi_id r = i then Some (f r, f r # rs)
      else map_option (\<lambda>(x, xs). (x, r # xs)) (update_rows i f rs))"

fun update_data :: "string \<Rightarrow> (witem \<Rightarrow> witem) \<Rightarrow> redis_data \<Rightarrow> (witem \<times> redis_data) option" where
  "update_data i f [] = None"
| "update_data i f ((m, rows) # d) =
     (case update_rows i f rows of
        Some (x, rows') \<Rightarrow> Some (x, (m, rows') # d)
      | None \<Rightarrow> map_option (\<lambda>(x, d'). (x, (m, rows) # d')) (update_data i f d))"

definition update_redis :: "string \<Rightarrow> string \<Rightarrow> (witem \<Rightarrow> witem) \<Rightarrow> redis_state \<Rightarrow> (wl_error + witem) \<times> redis_state" where
  "update_redis i u f st =
     (case update_data i f (st u) of None \<Rightarrow> (Inl (NotFound i), st)
      | Some (r, d) \<Rightarrow> (Inr r, st(u := d)))"

fun delete_data :: "string \<Rightarrow> redis_data \<Rightarrow> redis_data option" where
  "delete_data i [] = None"
| "delete_data i ((m, rows) # d) =
     (let rows' = filter (\<lambda>r. wi_id r \<noteq> i) rows in
      if length rows' \<noteq> length rows then Some ((m, rows') # d)
      else map_option (Cons (m, rows)) (delete_data i d))"

definition delete_redis :: "string \<Rightarrow> string \<Rightarrow> redis_state \<Rightarrow> (wl_error + unit) \<times> redis_state" where
  "delete_redis i u st =
     (case delete_data i (st u) of None \<Rightarrow> (Inl (NotFound i), st) | Some d \<Rightarrow> (Inr (), st(u := d)))"

text \<open>
  The patches are applied to the rows in memory and saved together: a missing id raises before the
  save. The saved list keeps the rows' old order; the returned one is sorted.
\<close>

fun patch_rows :: "order_patch list \<Rightarrow> witem list \<Rightarrow> wl_error + witem list" where
  "patch_rows [] rows = Inr rows"
| "patch_rows (p # ps) rows =
     (case update_rows (op_id p) (set_order p) rows of
        None \<Rightarrow> Inl (NotFound (op_id p))
      | Some (x, rows') \<Rightarrow> patch_rows ps rows')"

definition reorder_redis ::
  "string \<Rightarrow> string \<Rightarrow> order_patch list \<Rightarrow> redis_state \<Rightarrow> (wl_error + witem list) \<times> redis_state" where
  "reorder_redis u m ps st =
     (case patch_rows ps (get_default (st u) m []) of
        Inl e \<Rightarrow> (Inl e, st)
      | Inr rows \<Rightarrow> (Inr (sort_key wi_sort rows),
                     st(u := if has_key (st u) m then AList.update m rows (st u) else st u)))"

definition mirror_reorder_redis :: "string \<Rightarrow> string \<Rightarrow> witem list \<Rightarrow> redis_state \<Rightarrow> redis_state" where
  "mirror_reorder_redis u m rows st = st(u := AList.update m rows (st u))"

section \<open>The public calls\<close>

text \<open>What the calls use of a fallback backend.\<close>

record 'st backend =
  bk_list :: "'st \<Rightarrow> string \<Rightarrow> string \<Rightarrow> witem list"
  bk_create :: "string \<Rightarrow> witem \<Rightarrow> 'st \<Rightarrow> (wl_error + witem) \<times> 'st"
  bk_update :: "string \<Rightarrow> string \<Rightarrow> (witem \<Rightarrow> witem) \<Rightarrow> 'st \<Rightarrow> (wl_error + witem) \<times> 'st"
  bk_delete :: "string \<Rightarrow> string \<Rightarrow> 'st \<Rightarrow> (wl_error + unit) \<times> 'st"
  bk_reorder :: "string \<Rightarrow> string \<Rightarrow> order_patch list \<Rightarrow> 'st \<Rightarrow> (wl_error + witem list) \<times> 'st"
  bk_mirror_row :: "witem \<Rightarrow> witem \<Rightarrow> witem"
  bk_mirror_reorder :: "string \<Rightarrow> string \<Rightarrow> witem list \<Rightarrow> 'st \<Rightarrow> 'st"

definition memory_backend :: "mem_state backend" where
  "memory_backend = \<lparr>bk_list = list_memory, bk_create = create_memory, bk_update = update_memory,
     bk_delete = delete_memory, bk_reorder = reorder_memory,
     bk_mirror_row = (\<lambda>new old. new\<lparr>wi_id := wi_id old, wi_user := wi_user old\<rparr>),
     bk_mirror_reorder = mirror_reorder_memory\<rparr>"

definition redis_backend :: "redis_state backend" where
  "redis_backend = \<lparr>bk_list = list_redis, bk_create = create_redis, bk_update = update_redis,
     bk_delete = delete_redis, bk_reorder = reorder_redis,
     bk_mirror_row = (\<lambda>new old. new\<lparr>wi_id := wi_id old, wi_user := wi_user old, wi_market := wi_market old\<rparr>),
     bk_mirror_reorder = mirror_reorder_redis\<rparr>"

text \<open>The table's reply to one statement: the rows, a unique violation, or another failure.\<close>

datatype table_reply = TableRows "witem list" | UniqueViolation | TableFails

definition list_items :: "'st backend \<Rightarrow> table_reply option \<Rightarrow> string \<Rightarrow> string \<Rightarrow> 'st \<Rightarrow> witem list" where
  "list_items bk reply u m st =
     (case reply of Some (TableRows rows) \<Rightarrow> rows | _ \<Rightarrow> bk_list bk st u m)"

definition validate_note :: "string \<Rightarrow> bool" where
  "validate_note nt \<longleftrightarrow> length nt \<le> MAX_NOTE_LENGTH"

definition ensure_whitelisted :: "(string \<Rightarrow> SymbolMeta option) option \<Rightarrow> SymbolMeta \<Rightarrow> bool" where
  "ensure_whitelisted resolver meta =
     (case resolver of None \<Rightarrow> True
      | Some f \<Rightarrow> (case f (sm_symbol meta) of None \<Rightarrow> False | Some r \<Rightarrow> sm_quote r = sm_quote meta))"

definition next_sort_index :: "witem list \<Rightarrow> int" where
  "next_sort_index existing = (if existing = [] then 0 else list_max (map wi_sort existing) + 1)"

definition new_item :: "string \<Rightarrow> string \<Rightarrow> string \<Rightarrow> SymbolMeta \<Rightarrow> string \<Rightarrow> int \<Rightarrow> int \<Rightarrow> witem" where
  "new_item i u m meta nt idx now =
     \<lparr>wi_id = i, wi_user = u, wi_market = m, wi_symbol = sm_symbol meta, wi_base = sm_base meta,
      wi_quote = sm_quote meta, wi_contract = sm_contract meta, wi_underlying = sm_underlying meta,
      wi_sub_types = sm_sub_types meta, wi_price_prec = sm_price_prec meta, wi_qty_prec = sm_qty_prec meta,
      wi_tradfi = sm_tradfi meta, wi_note = nt, wi_sort = idx, wi_created = now, wi_updated = now\<rparr>"

text \<open>\<open>listed\<close> and \<open>inserted\<close> are the table's replies to the listing and to the insert.\<close>

definition create_item ::
  "'st backend \<Rightarrow> (string \<Rightarrow> SymbolMeta option) option \<Rightarrow> table_reply option \<Rightarrow> table_reply option \<Rightarrow>
   string \<Rightarrow> int \<Rightarrow> string \<Rightarrow> string \<Rightarrow> SymbolMeta \<Rightarrow> string \<Rightarrow> 'st \<Rightarrow> (wl_error + witem) \<times> 'st" where
  "create_item bk resolver listed inserted i now u m meta nt st =
     (if \<not> validate_note nt then (Inl WValueError, st)
      else if \<not> ensure_whitelisted resolver meta then (Inl (UnknownSymbol (sm_symbol meta)), st)
      else let payload = new_item i u m meta nt (next_sort_index (list_items bk listed u m st)) now in
        case inserted of None \<Rightarrow> bk_create bk u payload st
        | Some (TableRows (r # _)) \<Rightarrow> (Inr r, snd (bk_create bk u payload st))
        | Some UniqueViolation \<Rightarrow> (Inl (Duplicate (sm_symbol meta) m), st)
        | Some _ \<Rightarrow> bk_create bk u payload st)"

definition update_item ::
  "'st backend \<Rightarrow> table_reply option \<Rightarrow> string \<Rightarrow> string \<Rightarrow> string option \<Rightarrow> int option \<Rightarrow> int \<Rightarrow> 'st \<Rightarrow>
   (wl_error + witem) \<times> 'st" where
  "update_item bk reply i u nt idx now st =
     (if nt = None \<and> idx = None then (Inl WValueError, st)
      else if (case nt of None \<Rightarrow> False | Some n \<Rightarrow> \<not> validate_note n) then (Inl WValueError, st)
      else let f = apply_patch \<lparr>ip_note = nt, ip_sort = idx, ip_at = now\<rparr> in
        case reply of
          Some (TableRows []) \<Rightarrow> (Inl (NotFound i), st)
        | Some (TableRows (r # _)) \<Rightarrow> (Inr r, snd (bk_update bk i u (bk_mirror_row bk r) st))
        | _ \<Rightarrow> bk_update bk i u f st)"

definition delete_item ::
  "'st backend \<Rightarrow> table_reply option \<Rightarrow> string \<Rightarrow> string \<Rightarrow> 'st \<Rightarrow> (wl_error + unit) \<times> 'st" where
  "delete_item bk reply i u st =
     (case reply of
        Some (TableRows []) \<Rightarrow> (Inl (NotFound i), st)
      | Some (TableRows (_ # _)) \<Rightarrow> (Inr (), snd (bk_delete bk i u st))
      | _ \<Rightarrow> bk_delete bk i u st)"

definition order_patches :: "int \<Rightarrow> string list \<Rightarrow> order_patch list" where
  "order_patches now ids = map2 (\<lambda>k i. \<lparr>op_id = i, op_sort = int k, op_at = now\<rparr>) [0..<length ids] ids"

text \<open>One UPDATE per id on the table: \<open>None\<close> when a statement failed, so that the fallback runs.\<close>

fun reorder_table :: "order_patch list \<Rightarrow> table_reply list \<Rightarrow> witem list \<Rightarrow> (wl_error + witem list) option" where
  "reorder_table [] rs acc = Some (Inr acc)"
| "reorder_table (p # ps) [] acc = None"
| "reorder_table (p # ps) (r # rs) acc =
     (case r of TableRows [] \<Rightarrow> Some (Inl (NotFound (op_id p)))
      | TableRows (x # _) \<Rightarrow> reorder_table ps rs (acc @ [x])
      | _ \<Rightarrow> None)"

definition reorder ::
  "'st backend \<Rightarrow> table_reply option \<Rightarrow> table_reply list option \<Rightarrow> string \<Rightarrow> string \<Rightarrow> string list \<Rightarrow> int \<Rightarrow> 'st \<Rightarrow>
   (wl_error + witem list) \<times> 'st" where
  "reorder bk listed replies u m ids now st =
     (let existing = map wi_id (list_items bk listed u m st) in
      if \<not> distinct ids then (Inl WValueError, st)
      else if set ids \<noteq> set existing
      then (Inl (IdsMismatch (set existing - set ids) (set ids - set existing)), st)
      else let ps = order_patches now ids in
        case replies of None \<Rightarrow> bk_reorder bk u m ps st
        | Some rs \<Rightarrow> (case reorder_table ps rs [] of
            None \<Rightarrow> bk_reorder bk u m ps st
          | Some (Inl e) \<Rightarrow> (Inl e, st)
          | Some (Inr rows) \<Rightarrow>
              (let sorted = sort_key wi_sort rows in (Inr sorted, bk_mirror_reorder bk u m sorted st))))"


section \<open>Sorting\<close>

lemma set_sort_items [simp]: "set (sort_items rs) = set rs"
  and length_sort_items [simp]: "length (sort_items rs) = length rs"
  and mset_sort_items [simp]: "mset (sort_items rs) = mset rs"
  by (simp_all add: sort_items_def)

lemma sorted_sort_items [simp]: "sorted (map wi_sort (sort_items rs))"
  by (simp add: sort_items_def)

lemma distinct_sort_items [simp]: "distinct (map f (sort_items rs)) \<longleftrightarrow> distinct (map f rs)"
  by (metis mset_eq_imp_distinct_iff mset_map mset_sort_items)

lemma filter_sort_items: "filter P (sort_items rs) = sort_items (filter P rs)"
  by (simp add: sort_items_def filter_sort)

lemma sort_items_last:
  assumes "\<forall>r \<in> set rs. wi_sort r < wi_sort x"
  shows "sort_items (rs @ [x]) = sort_items rs @ [x]"
  unfolding sort_items_def
proof (rule properties_for_sort_key)
  show "mset (sort_key wi_sort (sort_key wi_created rs) @ [x]) = mset (sort_key wi_created (rs @ [x]))" by simp
  show "sorted (map wi_sort (sort_key wi_sort (sort_key wi_created rs) @ [x]))"
    using assms by (auto simp: sorted_append less_imp_le)
next
  fix y assume "y \<in> set (sort_key wi_sort (sort_key wi_created rs) @ [x])"
  have "filter (\<lambda>r. wi_sort y = wi_sort r) (sort_key wi_created (rs @ [x])) =
      sort_key wi_created (filter (\<lambda>r. wi_sort y = wi_sort r) (rs @ [x]))" by (rule filter_sort)
  also have "\<dots> = (if wi_sort y = wi_sort x then [x] else sort_key wi_created (filter (\<lambda>r. wi_sort y = wi_sort r) rs))"
  proof -
    have "filter (\<lambda>r. wi_sort x = wi_sort r) rs = []" using assms by (auto simp: filter_empty_conv)
    then show ?thesis by auto
  qed
  also have "\<dots> = filter (\<lambda>r. wi_sort y = wi_sort r) (sort_key wi_sort (sort_key wi_created rs) @ [x])"
  proof -
    have st: "filter (\<lambda>r. wi_sort y = wi_sort r) (sort_key wi_sort zs) = filter (\<lambda>r. wi_sort y = wi_sort r) zs" for zs
      using sort_key_stable [of wi_sort "wi_sort y" zs] by (simp add: eq_commute)
    have "filter (\<lambda>r. wi_sort x = wi_sort r) rs = []" using assms by (auto simp: filter_empty_conv)
    then show ?thesis by (auto simp: st filter_sort [of _ wi_created])
  qed
  finally show "filter (\<lambda>r. wi_sort y = wi_sort r) (sort_key wi_sort (sort_key wi_created rs) @ [x]) =
      filter (\<lambda>r. wi_sort y = wi_sort r) (sort_key wi_created (rs @ [x]))" by (rule sym)
qed

text \<open>Two sorted lists of the same rows agree when the positions are distinct.\<close>

lemma sorted_rows_unique:
  assumes "set xs = set ys" "sorted (map wi_sort xs)" "sorted (map wi_sort ys)"
    "distinct (map wi_sort xs)" "distinct (map wi_sort ys)"
  shows "xs = ys"
proof (rule map_sorted_distinct_set_unique [where f = wi_sort])
  show "inj_on wi_sort (set xs \<union> set ys)" using assms by (simp add: distinct_map)
qed (use assms in auto)

section \<open>Applying an order\<close>

definition apply_order :: "order_patch list \<Rightarrow> witem \<Rightarrow> witem" where
  "apply_order ps r = fold (\<lambda>p r. if wi_id r = op_id p then set_order p r else r) ps r"

lemma set_order_keeps [simp]:
  "wi_id (set_order p r) = wi_id r" "wi_user (set_order p r) = wi_user r" "wi_market (set_order p r) = wi_market r"
  "wi_symbol (set_order p r) = wi_symbol r" "wi_sort (set_order p r) = op_sort p"
  by (simp_all add: set_order_def)

lemma apply_order_keeps [simp]:
  "wi_id (apply_order ps r) = wi_id r" "wi_user (apply_order ps r) = wi_user r"
  "wi_market (apply_order ps r) = wi_market r" "wi_symbol (apply_order ps r) = wi_symbol r"
  unfolding apply_order_def by (induction ps arbitrary: r) auto

lemma apply_order_Cons:
  "apply_order (p # ps) r = apply_order ps (if wi_id r = op_id p then set_order p r else r)"
  by (simp add: apply_order_def)

lemma apply_order_absent: "wi_id r \<notin> op_id ` set ps \<Longrightarrow> apply_order ps r = r"
  by (induction ps) (auto simp: apply_order_def)

lemma apply_order_at:
  "distinct (map op_id ps) \<Longrightarrow> p \<in> set ps \<Longrightarrow> wi_id r = op_id p \<Longrightarrow> apply_order ps r = set_order p r"
proof (induction ps arbitrary: r)
  case (Cons q ps)
  show ?case
  proof (cases "p = q")
    case True
    with Cons.prems have "op_id p \<notin> op_id ` set ps" by auto
    then show ?thesis using True Cons.prems by (simp add: apply_order_Cons apply_order_absent)
  next
    case False
    with Cons.prems have m: "p \<in> set ps" by simp
    then have "op_id p \<noteq> op_id q" using Cons.prems(1) by (auto simp: image_iff)
    then show ?thesis using Cons m by (simp add: apply_order_Cons)
  qed
qed simp

lemma order_patches_ids: "map op_id (order_patches now ids) = ids"
  by (simp add: order_patches_def map_zip_map case_prod_unfold comp_def
      flip: map_map) (simp add: comp_def case_prod_unfold)

lemma apply_order_patches:
  assumes "distinct ids" "k < length ids" "wi_id r = ids ! k"
  shows "wi_sort (apply_order (order_patches now ids) r) = int k"
proof -
  have l: "length (order_patches now ids) = length ids" by (simp add: order_patches_def)
  have p: "order_patches now ids ! k = \<lparr>op_id = ids ! k, op_sort = int k, op_at = now\<rparr>"
    using assms by (simp add: order_patches_def)
  have "apply_order (order_patches now ids) r = set_order (order_patches now ids ! k) r"
    using assms l p nth_mem [of k "order_patches now ids"] by (intro apply_order_at) (auto simp: order_patches_ids)
  then show ?thesis by (simp add: p)
qed

lemma ordered_rows:
  assumes d: "distinct ids" and R: "wi_id ` R = set ids" "inj_on wi_id R"
    and ys: "set ys = apply_order (order_patches now ids) ` R" "sorted (map wi_sort ys)" "length ys = length ids"
  shows "map wi_id ys = ids \<and> distinct (map wi_sort ys)"
proof -
  have idx: "\<exists>k < length ids. wi_id r = ids ! k \<and> wi_sort r = int k" if "r \<in> set ys" for r
  proof -
    obtain q where q: "q \<in> R" "r = apply_order (order_patches now ids) q" using \<open>r \<in> set ys\<close> ys(1) by auto
    then have "wi_id q \<in> set ids" using R by auto
    then obtain k where "k < length ids" "wi_id q = ids ! k" by (metis in_set_conv_nth)
    then show ?thesis using apply_order_patches [OF d] q by auto
  qed
  have "wi_sort ` set ys = int ` {..<length ids}"
  proof (intro equalityI subsetI)
    fix x assume "x \<in> wi_sort ` set ys"
    then show "x \<in> int ` {..<length ids}" using idx by auto
  next
    fix x assume "x \<in> int ` {..<length ids}"
    then obtain k where k: "k < length ids" "x = int k" by auto
    then have "ids ! k \<in> wi_id ` R" using R by simp
    then obtain q where "q \<in> R" "wi_id q = ids ! k" by (metis imageE)
    then show "x \<in> wi_sort ` set ys"
      using apply_order_patches [OF d k(1)] k ys(1) by (metis image_eqI)
  qed
  then have "card (set (map wi_sort ys)) = length (map wi_sort ys)"
    using ys(3) by (simp add: card_image)
  then have dist: "distinct (map wi_sort ys)" by (rule card_distinct)
  have "map wi_sort ys = map int [0..<length ids]"
  proof (rule sorted_distinct_set_unique)
    show "set (map wi_sort ys) = set (map int [0..<length ids])"
      using \<open>wi_sort ` set ys = int ` {..<length ids}\<close> by (auto simp: atLeast0LessThan)
    show "sorted (map int [0..<length ids])" by (simp add: sorted_iff_nth_mono)
    show "distinct (map int [0..<length ids])" by (simp add: distinct_map)
  qed (use ys dist in auto)
  then have nth: "wi_sort (ys ! k) = int k" if "k < length ids" for k
    using that ys(3) by (metis (no_types, lifting) add_0 length_upt minus_nat.diff_0 nth_map nth_upt)
  have "map wi_id ys = ids"
  proof (rule nth_equalityI)
    fix k assume "k < length (map wi_id ys)"
    then have k: "k < length ids" "ys ! k \<in> set ys" using ys(3) by auto
    from idx [OF k(2)] nth [OF k(1)] k ys(3) show "map wi_id ys ! k = ids ! k" by auto
  qed (use ys in auto)
  with dist show ?thesis by simp
qed


section \<open>The contract of a fallback backend\<close>

text \<open>
  \<open>ok used st\<close> is the backend's invariant, \<open>used\<close> the ids handed out so far. The laws say what a
  listing returns and what each call leaves for every listing.
\<close>

definition keeps_key :: "(witem \<Rightarrow> witem) \<Rightarrow> bool" where
  "keeps_key f \<longleftrightarrow> (\<forall>r. wi_id (f r) = wi_id r \<and> wi_user (f r) = wi_user r \<and> wi_market (f r) = wi_market r \<and>
     wi_symbol (f r) = wi_symbol r)"

lemma keeps_key_patch: "keeps_key (apply_patch p)"
  by (simp add: keeps_key_def apply_patch_def)

locale watch_backend =
  fixes bk :: "'st backend" and ok :: "string set \<Rightarrow> 'st \<Rightarrow> bool"
  assumes list_rows: "ok used st \<Longrightarrow> r \<in> set (bk_list bk st u m) \<Longrightarrow> wi_user r = u \<and> wi_market r = m \<and> wi_id r \<in> used"
    and list_distinct: "ok used st \<Longrightarrow> distinct (map wi_id (bk_list bk st u m)) \<and> distinct (map wi_symbol (bk_list bk st u m))"
    and list_sorted: "ok used st \<Longrightarrow> sorted (map wi_sort (bk_list bk st u m))"
    and list_bound: "ok used st \<Longrightarrow> length (bk_list bk st u m) \<le> MAX_ITEMS_PER_USER"
    and create_ok: "ok used st \<Longrightarrow> wi_user it = u \<Longrightarrow> wi_id it \<notin> used \<Longrightarrow> ok (insert (wi_id it) used) (snd (bk_create bk u it st))"
    and create_lists: "ok used st \<Longrightarrow> wi_user it = u \<Longrightarrow> wi_id it \<notin> used \<Longrightarrow> bk_create bk u it st = (Inr r, st') \<Longrightarrow> r = it \<and>
        ((\<forall>r \<in> set (bk_list bk st u (wi_market it)). wi_sort r < wi_sort it) \<longrightarrow>
           bk_list bk st' u (wi_market it) = bk_list bk st u (wi_market it) @ [it]) \<and>
        (\<forall>u' m'. (u', m') \<noteq> (u, wi_market it) \<longrightarrow> bk_list bk st' u' m' = bk_list bk st u' m')"
    and create_error: "bk_create bk u it st = (Inl e, st') \<Longrightarrow> st' = st"
    and update_ok: "ok used st \<Longrightarrow> keeps_key f \<Longrightarrow> ok used (snd (bk_update bk i u f st))"
    and update_lists: "ok used st \<Longrightarrow> keeps_key f \<Longrightarrow> bk_update bk i u f st = (Inr r, st') \<Longrightarrow>
        (\<exists>m. \<exists>q \<in> set (bk_list bk st u m). wi_id q = i \<and> r = f q) \<and>
        (\<forall>m. set (bk_list bk st' u m) = (\<lambda>q. if wi_id q = i then f q else q) ` set (bk_list bk st u m)) \<and>
        (\<forall>u' m'. u' \<noteq> u \<longrightarrow> bk_list bk st' u' m' = bk_list bk st u' m')"
    and update_error: "bk_update bk i u f st = (Inl e, st') \<Longrightarrow> st' = st"
    and delete_ok: "ok used st \<Longrightarrow> ok used (snd (bk_delete bk i u st))"
    and delete_lists: "ok used st \<Longrightarrow> bk_delete bk i u st = (Inr x, st') \<Longrightarrow>
        (\<forall>m. bk_list bk st' u m = filter (\<lambda>q. wi_id q \<noteq> i) (bk_list bk st u m)) \<and>
        (\<forall>u' m'. u' \<noteq> u \<longrightarrow> bk_list bk st' u' m' = bk_list bk st u' m')"
    and delete_error: "bk_delete bk i u st = (Inl e, st') \<Longrightarrow> st' = st"
    and reorder_lists: "ok used st \<Longrightarrow> distinct ids \<Longrightarrow> set ids = set (map wi_id (bk_list bk st u m)) \<Longrightarrow>
        \<exists>rows st'. bk_reorder bk u m (order_patches now ids) st = (Inr rows, st') \<and> ok used st' \<and>
          map wi_id rows = ids \<and> bk_list bk st' u m = rows \<and>
          (\<forall>u' m'. (u', m') \<noteq> (u, m) \<longrightarrow> bk_list bk st' u' m' = bk_list bk st u' m')"
begin

lemma create_last:
  assumes "ok used st" "i \<notin> used" "create_item bk resolver None None i now u m meta nt st = (Inr r, st')"
  shows "bk_list bk st' u m = bk_list bk st u m @ [r] \<and> wi_id r = i \<and> wi_symbol r = sm_symbol meta \<and>
    (\<forall>u' m'. (u', m') \<noteq> (u, m) \<longrightarrow> bk_list bk st' u' m' = bk_list bk st u' m')"
proof -
  define it where "it = new_item i u m meta nt (next_sort_index (bk_list bk st u m)) now"
  have it: "wi_user it = u" "wi_id it = i" "wi_market it = m" "wi_symbol it = sm_symbol meta"
    "wi_sort it = next_sort_index (bk_list bk st u m)"
    by (simp_all add: it_def new_item_def)
  have c: "bk_create bk u it st = (Inr r, st')"
    using assms(3) unfolding create_item_def Let_def list_items_def it_def by (simp split: if_splits)
  have "\<forall>r \<in> set (bk_list bk st u m). wi_sort r < wi_sort it"
  proof
    fix q assume "q \<in> set (bk_list bk st u m)"
    then have "wi_sort q \<le> list_max (map wi_sort (bk_list bk st u m))" by (intro list_max_ge) simp
    with \<open>q \<in> _\<close> show "wi_sort q < wi_sort it" by (auto simp: it next_sort_index_def)
  qed
  with create_lists [OF assms(1) it(1) _ c] it assms(2) show ?thesis by auto
qed

lemma reorder_exact:
  assumes "ok used st" "reorder bk None None u m ids now st = (Inr rows, st')"
  shows "map wi_id rows = ids \<and> bk_list bk st' u m = rows"
proof -
  have d: "distinct ids" "set ids = set (map wi_id (bk_list bk st u m))"
    and r: "bk_reorder bk u m (order_patches now ids) st = (Inr rows, st')"
    using assms(2) unfolding reorder_def Let_def list_items_def by (auto split: if_splits)
  from reorder_lists [OF assms(1) d, of now] r show ?thesis by auto
qed

lemma reorder_ok:
  assumes "ok used st"
  shows "ok used (snd (reorder bk None None u m ids now st)) \<and>
    (\<forall>u' m'. u' \<noteq> u \<longrightarrow> bk_list bk (snd (reorder bk None None u m ids now st)) u' m' = bk_list bk st u' m')"
proof (cases "distinct ids \<and> set ids = set (map wi_id (bk_list bk st u m))")
  case True
  then obtain rows st' where "bk_reorder bk u m (order_patches now ids) st = (Inr rows, st')" "ok used st'"
    "\<forall>u' m'. (u', m') \<noteq> (u, m) \<longrightarrow> bk_list bk st' u' m' = bk_list bk st u' m'"
    using reorder_lists [OF assms, of ids u m now] by blast
  with True show ?thesis by (simp add: reorder_def list_items_def Let_def)
next
  case False
  then show ?thesis using assms by (auto simp: reorder_def list_items_def Let_def)
qed

lemma create_item_ok:
  assumes "ok used st" "i \<notin> used"
  shows "(ok used (snd (create_item bk resolver None None i now u m meta nt st)) \<or>
          ok (insert i used) (snd (create_item bk resolver None None i now u m meta nt st))) \<and>
    (\<forall>u' m'. u' \<noteq> u \<longrightarrow> bk_list bk (snd (create_item bk resolver None None i now u m meta nt st)) u' m' = bk_list bk st u' m')"
proof (cases "validate_note nt \<and> ensure_whitelisted resolver meta")
  case True
  define it where "it = new_item i u m meta nt (next_sort_index (bk_list bk st u m)) now"
  have it: "wi_user it = u" "wi_id it = i" by (simp_all add: it_def new_item_def)
  have c: "create_item bk resolver None None i now u m meta nt st = bk_create bk u it st"
    using True by (simp add: create_item_def list_items_def it_def Let_def)
  obtain res st' where r: "bk_create bk u it st = (res, st')" by (cases "bk_create bk u it st")
  show ?thesis
  proof (cases res)
    case (Inl e)
    then have "st' = st" using create_error r by blast
    then show ?thesis using c r assms by simp
  next
    case (Inr x)
    then show ?thesis using c r create_ok [OF assms(1) it(1)] create_lists [OF assms(1) it(1)] it assms(2) by fastforce
  qed
next
  case False
  then show ?thesis using assms by (auto simp: create_item_def)
qed

lemma update_item_ok:
  assumes "ok used st"
  shows "ok used (snd (update_item bk None i u nt idx now st)) \<and>
    (\<forall>u' m'. u' \<noteq> u \<longrightarrow> bk_list bk (snd (update_item bk None i u nt idx now st)) u' m' = bk_list bk st u' m')"
proof -
  define f where "f = apply_patch \<lparr>ip_note = nt, ip_sort = idx, ip_at = now\<rparr>"
  have k: "keeps_key f" unfolding f_def by (rule keeps_key_patch)
  obtain res st' where r: "bk_update bk i u f st = (res, st')" by (cases "bk_update bk i u f st")
  have "ok used st'" using update_ok [OF assms k, of i u] r by simp
  moreover have "u' \<noteq> u \<Longrightarrow> bk_list bk st' u' m' = bk_list bk st u' m'" for u' m'
  proof (cases res)
    case (Inl e)
    then have "st' = st" using update_error r by blast
    then show ?thesis by simp
  next
    case (Inr x)
    then show "u' \<noteq> u \<Longrightarrow> bk_list bk st' u' m' = bk_list bk st u' m'" using update_lists [OF assms k] r by blast
  qed
  ultimately show ?thesis
    using assms r by (auto simp: update_item_def f_def [symmetric])
qed

lemma delete_item_ok:
  assumes "ok used st"
  shows "ok used (snd (delete_item bk None i u st)) \<and>
    (\<forall>u' m'. u' \<noteq> u \<longrightarrow> bk_list bk (snd (delete_item bk None i u st)) u' m' = bk_list bk st u' m')"
proof -
  obtain res st' where r: "bk_delete bk i u st = (res, st')" by (cases "bk_delete bk i u st")
  have "ok used st'" using delete_ok [OF assms, of i u] r by simp
  moreover have "u' \<noteq> u \<Longrightarrow> bk_list bk st' u' m' = bk_list bk st u' m'" for u' m'
  proof (cases res)
    case (Inl e)
    then have "st' = st" using delete_error r by blast
    then show ?thesis by simp
  next
    case (Inr x)
    then show "u' \<noteq> u \<Longrightarrow> bk_list bk st' u' m' = bk_list bk st u' m'" using delete_lists [OF assms] r by blast
  qed
  ultimately show ?thesis using r by (simp add: delete_item_def)
qed

end

section \<open>Sessions\<close>

datatype wcall =
    CCreate string int string string SymbolMeta string
  | CUpdate string string "string option" "int option" int
  | CDelete string string
  | CReorder string string "string list" int

fun call_user :: "wcall \<Rightarrow> string" where
  "call_user (CCreate i now u m meta nt) = u"
| "call_user (CUpdate i u nt idx now) = u"
| "call_user (CDelete i u) = u"
| "call_user (CReorder u m ids now) = u"

fun call_ids :: "wcall \<Rightarrow> string list" where
  "call_ids (CCreate i now u m meta nt) = [i]"
| "call_ids _ = []"

text \<open>The state after a call when no table client is configured.\<close>

fun run_wcall :: "'st backend \<Rightarrow> (string \<Rightarrow> SymbolMeta option) option \<Rightarrow> wcall \<Rightarrow> 'st \<Rightarrow> 'st" where
  "run_wcall bk resolver (CCreate i now u m meta nt) st = snd (create_item bk resolver None None i now u m meta nt st)"
| "run_wcall bk resolver (CUpdate i u nt idx now) st = snd (update_item bk None i u nt idx now st)"
| "run_wcall bk resolver (CDelete i u) st = snd (delete_item bk None i u st)"
| "run_wcall bk resolver (CReorder u m ids now) st = snd (reorder bk None None u m ids now st)"

definition run_wcalls :: "'st backend \<Rightarrow> (string \<Rightarrow> SymbolMeta option) option \<Rightarrow> wcall list \<Rightarrow> 'st \<Rightarrow> 'st" where
  "run_wcalls bk resolver cs st = fold (run_wcall bk resolver) cs st"

context watch_backend begin

lemma call_preserves:
  assumes "ok used st" "set (call_ids c) \<inter> used = {}"
  shows "\<exists>used'. used \<subseteq> used' \<and> used' \<subseteq> used \<union> set (call_ids c) \<and> ok used' (run_wcall bk resolver c st) \<and>
    (\<forall>u m. u \<noteq> call_user c \<longrightarrow> bk_list bk (run_wcall bk resolver c st) u m = bk_list bk st u m)"
proof (cases c)
  case (CCreate i now u m meta nt)
  then show ?thesis using create_item_ok [OF assms(1), of i resolver now u m meta nt] assms(2)
    by (auto intro: exI [of _ used] exI [of _ "insert i used"])
next
  case (CUpdate i u nt idx now)
  then show ?thesis using update_item_ok [OF assms(1)] by (auto intro: exI [of _ used])
next
  case (CDelete i u)
  then show ?thesis using delete_item_ok [OF assms(1)] by (auto intro: exI [of _ used])
next
  case (CReorder u m ids now)
  then show ?thesis using reorder_ok [OF assms(1)] by (auto intro: exI [of _ used])
qed

lemma calls_preserve:
  "ok used st \<Longrightarrow> distinct (concat (map call_ids cs)) \<Longrightarrow> set (concat (map call_ids cs)) \<inter> used = {} \<Longrightarrow>
     (\<exists>used'. ok used' (run_wcalls bk resolver cs st)) \<and>
     (\<forall>u m. u \<notin> call_user ` set cs \<longrightarrow> bk_list bk (run_wcalls bk resolver cs st) u m = bk_list bk st u m)"
proof (induction cs arbitrary: used st)
  case Nil
  then show ?case by (auto simp: run_wcalls_def)
next
  case (Cons c cs)
  have "set (call_ids c) \<inter> used = {}" using Cons.prems(3) by auto
  then obtain used' where u: "used' \<subseteq> used \<union> set (call_ids c)" "ok used' (run_wcall bk resolver c st)"
    "\<forall>u m. u \<noteq> call_user c \<longrightarrow> bk_list bk (run_wcall bk resolver c st) u m = bk_list bk st u m"
    using call_preserves [OF Cons.prems(1), of c resolver] by metis
  have "set (concat (map call_ids cs)) \<inter> used' = {}" using u(1) Cons.prems(2,3) by auto
  from Cons.IH [OF u(2) _ this] Cons.prems(2) u(3) show ?case
    by (auto simp: run_wcalls_def)
qed

end


section \<open>The memory backend meets the contract\<close>

definition change_row :: "string \<Rightarrow> (witem \<Rightarrow> witem) \<Rightarrow> witem \<Rightarrow> witem" where
  "change_row i f q = (if wi_id q = i then f q else q)"

lemma change_row_keeps [simp]:
  "keeps_key f \<Longrightarrow> wi_id (change_row i f q) = wi_id q" "keeps_key f \<Longrightarrow> wi_user (change_row i f q) = wi_user q"
  "keeps_key f \<Longrightarrow> wi_market (change_row i f q) = wi_market q" "keeps_key f \<Longrightarrow> wi_symbol (change_row i f q) = wi_symbol q"
  by (simp_all add: change_row_def keeps_key_def)

lemma keeps_key_set_order: "keeps_key (set_order p)"
  by (simp add: keeps_key_def)

definition user_rows_ok :: "string set \<Rightarrow> string \<Rightarrow> (string \<times> witem) list \<Rightarrow> bool" where
  "user_rows_ok used u d \<longleftrightarrow> distinct (map fst d) \<and> (\<forall>(k, r) \<in> set d. k = wi_id r \<and> wi_user r = u \<and> k \<in> used) \<and>
     distinct (map (\<lambda>r. (wi_market r, wi_symbol r)) (vals_of d)) \<and> length d \<le> MAX_ITEMS_PER_USER"

definition memory_ok :: "string set \<Rightarrow> mem_state \<Rightarrow> bool" where
  "memory_ok used st \<longleftrightarrow> (\<forall>u. user_rows_ok used u (st u))"

lemma memory_ok_upd: "memory_ok used st \<Longrightarrow> user_rows_ok used u d \<Longrightarrow> memory_ok used (st(u := d))"
  by (simp add: memory_ok_def)

lemma user_rows_ids: "user_rows_ok used u d \<Longrightarrow> map wi_id (vals_of d) = map fst d"
  by (auto simp: user_rows_ok_def vals_of_def)

lemma user_rows_mem: "user_rows_ok used u d \<Longrightarrow> r \<in> set (vals_of d) \<Longrightarrow> wi_user r = u \<and> wi_id r \<in> used \<and> (wi_id r, r) \<in> set d"
  by (auto simp: user_rows_ok_def vals_of_def)

definition map_rows :: "(witem \<Rightarrow> witem) \<Rightarrow> (string \<times> witem) list \<Rightarrow> (string \<times> witem) list" where
  "map_rows g d = map (\<lambda>(k, q). (k, g q)) d"

lemma map_rows_simps [simp]:
  "vals_of (map_rows g d) = map g (vals_of d)" "map fst (map_rows g d) = map fst d" "length (map_rows g d) = length d"
  "set (map_rows g d) = (\<lambda>(k, q). (k, g q)) ` set d"
  by (auto simp: map_rows_def vals_of_def)

lemma update_as_map:
  "user_rows_ok used u d \<Longrightarrow> map_of d i = Some r \<Longrightarrow> AList.update i (f r) d = map_rows (change_row i f) d"
proof -
  have "distinct (map fst d) \<Longrightarrow> \<forall>(k, r) \<in> set d. k = wi_id r \<Longrightarrow> map_of d i = Some r \<Longrightarrow>
      AList.update i (f r) d = map_rows (change_row i f) d"
  proof (induction d)
    case (Cons x d)
    obtain k q where x: "x = (k, q)" by (cases x)
    show ?case
    proof (cases "k = i")
      case True
      have ne: "wi_id b \<noteq> i" if "(a, b) \<in> set d" for a b
        using that Cons.prems(1,2) True x by force
      have "map_rows (change_row i f) d = d"
        unfolding map_rows_def by (rule map_idI) (auto simp: change_row_def dest: ne)
      then show ?thesis using True x Cons.prems by (auto simp: map_rows_def change_row_def)
    next
      case False
      then show ?thesis using x Cons by (auto simp: map_rows_def change_row_def)
    qed
  qed simp
  then show "user_rows_ok used u d \<Longrightarrow> map_of d i = Some r \<Longrightarrow> ?thesis"
    by (auto simp: user_rows_ok_def)
qed

lemma user_rows_map:
  assumes "user_rows_ok used u d" "keeps_key g"
  shows "user_rows_ok used u (map_rows g d)"
proof -
  have k: "wi_id (g q) = wi_id q" "wi_user (g q) = wi_user q" "wi_market (g q) = wi_market q" "wi_symbol (g q) = wi_symbol q" for q
    using assms(2) by (auto simp: keeps_key_def)
  show ?thesis
    using assms(1) by (auto simp: user_rows_ok_def k comp_def)
qed

lemma keeps_key_change: "keeps_key f \<Longrightarrow> keeps_key (change_row i f)"
  by (simp add: keeps_key_def change_row_def)

lemma keeps_key_apply_order: "keeps_key (apply_order ps)"
  by (simp add: keeps_key_def)

lemma list_memory_map:
  "keeps_key g \<Longrightarrow> st u = map_rows g d \<Longrightarrow>
     list_memory st u m = sort_items (map g (filter (\<lambda>r. wi_market r = m) (vals_of d)))"
  by (simp add: list_memory_def filter_map comp_def keeps_key_def)

text \<open>What a reorder returns and what it leaves, for either backend.\<close>

lemma reorder_result:
  assumes d: "distinct ids" and R: "distinct (map wi_id R)" "set ids = set (map wi_id R)"
    and xs: "set xs = apply_order (order_patches now ids) ` set R" "length xs = length ids"
  shows "sort_key wi_sort xs = sort_items (map (apply_order (order_patches now ids)) R) \<and>
    map wi_id (sort_key wi_sort xs) = ids"
proof -
  have lR: "length R = length ids"
    using R d by (metis distinct_card length_map)
  have inj: "inj_on wi_id (set R)" "wi_id ` set R = set ids" using R by (auto simp: distinct_map)
  have a: "map wi_id (sort_key wi_sort xs) = ids \<and> distinct (map wi_sort (sort_key wi_sort xs))"
    using xs by (intro ordered_rows [OF d inj(2,1)]) auto
  moreover have "map wi_id (sort_items (map (apply_order (order_patches now ids)) R)) = ids \<and>
      distinct (map wi_sort (sort_items (map (apply_order (order_patches now ids)) R)))"
    using lR by (intro ordered_rows [OF d inj(2,1)]) auto
  ultimately show ?thesis
    using xs by (auto intro!: sorted_rows_unique)
qed

lemma reorder_memory_loop_result:
  assumes "memory_ok used st" "distinct (map op_id ps)" "op_id ` set ps \<subseteq> fst ` set (st u)"
  shows "\<exists>rows. reorder_memory_loop u ps acc st = (Inr (sort_key wi_sort (acc @ rows)), st(u := map_rows (apply_order ps) (st u))) \<and>
     length rows = length ps \<and> set rows = apply_order ps ` {q \<in> set (vals_of (st u)). wi_id q \<in> op_id ` set ps}"
  using assms
proof (induction ps arbitrary: acc st)
  case Nil
  have "map_rows (apply_order []) (st u) = st u" by (simp add: map_rows_def apply_order_def)
  then show ?case by simp
next
  case (Cons p ps)
  have ok: "user_rows_ok used u (st u)" using Cons.prems(1) by (simp add: memory_ok_def)
  obtain r where r: "map_of (st u) (op_id p) = Some r"
    using Cons.prems(3) by (auto simp: map_of_eq_None_iff image_iff dest!: weak_map_of_SomeI)
  define g where "g = change_row (op_id p) (set_order p)"
  define st1 where "st1 = st(u := map_rows g (st u))"
  have kg: "keeps_key g" unfolding g_def by (rule keeps_key_change [OF keeps_key_set_order])
  have up: "update_memory (op_id p) u (set_order p) st = (Inr (set_order p r), st1)"
    using r update_as_map [OF ok r, of "set_order p"] by (simp add: update_memory_def st1_def g_def)
  have ok1: "memory_ok used st1" unfolding st1_def by (rule memory_ok_upd [OF Cons.prems(1) user_rows_map [OF ok kg]])
  have sub: "op_id ` set ps \<subseteq> fst ` set (st1 u)" using Cons.prems(3) by (force simp: st1_def)
  have dp: "distinct (map op_id ps)" "op_id p \<notin> op_id ` set ps" using Cons.prems(2) by auto
  obtain rows where rows: "reorder_memory_loop u ps (acc @ [set_order p r]) st1 =
      (Inr (sort_key wi_sort ((acc @ [set_order p r]) @ rows)), st1(u := map_rows (apply_order ps) (st1 u)))"
    "length rows = length ps"
    "set rows = apply_order ps ` {q \<in> set (vals_of (st1 u)). wi_id q \<in> op_id ` set ps}"
    using Cons.IH [OF ok1 dp(1) sub] by blast
  have ap: "apply_order (p # ps) q = apply_order ps (g q)" for q
    by (simp add: apply_order_Cons g_def change_row_def)
  have st: "st1(u := map_rows (apply_order ps) (st1 u)) = st(u := map_rows (apply_order (p # ps)) (st u))"
    by (simp add: st1_def map_rows_def ap comp_def case_prod_unfold)
  have mem: "(op_id p, r) \<in> set (st u)" using r by (rule map_of_SomeD)
  have rin: "r \<in> set (vals_of (st u))" using mem by (force simp: vals_of_def)
  have rid: "wi_id r = op_id p" using mem ok by (auto simp: user_rows_ok_def)
  have only: "q = r" if "q \<in> set (vals_of (st u))" "wi_id q = op_id p" for q
  proof -
    have "(op_id p, q) \<in> set (st u)" using user_rows_mem [OF ok that(1)] that(2) by simp
    then have "map_of (st u) (op_id p) = Some q" using ok by (intro map_of_is_SomeI) (simp_all add: user_rows_ok_def)
    with r show ?thesis by simp
  qed
  have "apply_order ps (g r) = set_order p r"
    using rid dp by (simp add: g_def change_row_def apply_order_absent)
  moreover have "{q \<in> set (vals_of (st1 u)). wi_id q \<in> op_id ` set ps} = g ` {q \<in> set (vals_of (st u)). wi_id q \<in> op_id ` set ps}"
    using kg by (auto simp: st1_def keeps_key_def)
  moreover have "{q \<in> set (vals_of (st u)). wi_id q \<in> op_id ` set (p # ps)} =
      insert r {q \<in> set (vals_of (st u)). wi_id q \<in> op_id ` set ps}"
    using rin rid by (auto dest: only)
  ultimately have "set (set_order p r # rows) =
      apply_order (p # ps) ` {q \<in> set (vals_of (st u)). wi_id q \<in> op_id ` set (p # ps)}"
    by (simp add: rows(3) ap image_image)
  moreover have "reorder_memory_loop u (p # ps) acc st = reorder_memory_loop u ps (acc @ [set_order p r]) st1"
    by (simp add: up)
  then have "reorder_memory_loop u (p # ps) acc st =
      (Inr (sort_key wi_sort (acc @ (set_order p r # rows))), st(u := map_rows (apply_order (p # ps)) (st u)))"
    unfolding rows(1) st by simp
  ultimately show ?case
    using rows(2) by (intro exI [of _ "set_order p r # rows"]) auto
qed



lemma memory_list_mem: "r \<in> set (list_memory st u m) \<longleftrightarrow> r \<in> set (vals_of (st u)) \<and> wi_market r = m"
  by (auto simp: list_memory_def)

lemma list_memory_other: "u' \<noteq> u \<Longrightarrow> list_memory (st(u := d)) u' m = list_memory st u' m"
  by (simp add: list_memory_def)

lemma memory_list_distinct:
  assumes "memory_ok used st"
  shows "distinct (map wi_id (list_memory st u m)) \<and> distinct (map wi_symbol (list_memory st u m)) \<and>
    length (list_memory st u m) \<le> MAX_ITEMS_PER_USER"
proof -
  have ok: "user_rows_ok used u (st u)" using assms by (simp add: memory_ok_def)
  have "distinct (map wi_id (vals_of (st u)))" using user_rows_ids [OF ok] ok by (simp add: user_rows_ok_def)
  then have "distinct (map wi_id (filter (\<lambda>r. wi_market r = m) (vals_of (st u))))" by (rule distinct_map_filter)
  moreover have "distinct (map wi_symbol (filter (\<lambda>r. wi_market r = m) (vals_of (st u))))"
    using ok by (auto simp: user_rows_ok_def distinct_map inj_on_def)
  moreover have "length (vals_of (st u)) \<le> MAX_ITEMS_PER_USER" using ok by (simp add: user_rows_ok_def vals_of_def)
  ultimately show ?thesis
    by (simp add: list_memory_def) (meson length_filter_le order_trans)
qed

lemma create_memory_fresh:
  assumes ok: "memory_ok used st" and it: "wi_user it = u" "wi_id it \<notin> used"
    and c: "create_memory u it st = (Inr r, st')"
  shows "r = it \<and> st' = st(u := st u @ [(wi_id it, it)]) \<and> memory_ok (insert (wi_id it) used) st'"
proof -
  have u: "user_rows_ok used u (st u)" using ok by (simp add: memory_ok_def)
  have "wi_id it \<notin> fst ` set (st u)" using u it by (auto simp: user_rows_ok_def)
  then have eq: "AList.update (wi_id it) it (st u) = st u @ [(wi_id it, it)]" by (rule update_fresh)
  have "length (st u) < MAX_ITEMS_PER_USER" and r: "r = it" "st' = st(u := st u @ [(wi_id it, it)])"
    and new: "\<not> (\<exists>r \<in> set (vals_of (st u)). wi_market r = wi_market it \<and> wi_symbol r = wi_symbol it)"
    using c by (auto simp: create_memory_def eq split: if_splits)
  then have "user_rows_ok (insert (wi_id it) used) u (st u @ [(wi_id it, it)])"
    using u it \<open>wi_id it \<notin> fst ` set (st u)\<close> by (force simp: user_rows_ok_def vals_of_def)
  moreover have "user_rows_ok (insert (wi_id it) used) u' (st u')" for u'
    using ok by (auto simp: memory_ok_def user_rows_ok_def)
  ultimately show ?thesis using r by (simp add: memory_ok_def)
qed

lemma list_memory_append:
  assumes "\<forall>r \<in> set (list_memory st u (wi_market it)). wi_sort r < wi_sort it"
  shows "list_memory (st(u := st u @ [(k, it)])) u (wi_market it) = list_memory st u (wi_market it) @ [it]"
proof -
  have "vals_of (st u @ [(k, it)]) = vals_of (st u) @ [it]" by (simp add: vals_of_def)
  moreover have "\<forall>r \<in> set (filter (\<lambda>r. wi_market r = wi_market it) (vals_of (st u))). wi_sort r < wi_sort it"
    using assms by (auto simp: memory_list_mem)
  ultimately show ?thesis by (simp add: list_memory_def sort_items_last)
qed

lemma list_memory_delete:
  "user_rows_ok used u (st u) \<Longrightarrow>
     list_memory (st(u := AList.delete i (st u))) u m = filter (\<lambda>q. wi_id q \<noteq> i) (list_memory st u m)"
proof -
  assume u: "user_rows_ok used u (st u)"
  have "vals_of (AList.delete i d) = filter (\<lambda>q. wi_id q \<noteq> i) (vals_of d)" if "\<forall>(k, r) \<in> set d. k = wi_id r" for d
    using that by (induction d) (auto simp: vals_of_def AList.delete_eq)
  then have "vals_of (AList.delete i (st u)) = filter (\<lambda>q. wi_id q \<noteq> i) (vals_of (st u))"
    using u by (auto simp: user_rows_ok_def)
  then show ?thesis
    by (simp add: list_memory_def filter_sort_items) (metis (no_types, lifting) conj_commute)
qed

lemma user_rows_delete: "user_rows_ok used u d \<Longrightarrow> user_rows_ok used u (AList.delete i d)"
proof -
  assume u: "user_rows_ok used u d"
  have f: "AList.delete i d = filter (\<lambda>x. i \<noteq> fst x) d" by (simp add: AList.delete_eq case_prod_unfold)
  have "distinct (map (\<lambda>r. (wi_market r, wi_symbol r)) (vals_of (filter P d)))" if "distinct (map (\<lambda>r. (wi_market r, wi_symbol r)) (vals_of d))" for P
    using distinct_map_filter [where f = "\<lambda>x. (wi_market (snd x), wi_symbol (snd x))" and P = P] that
    by (simp add: vals_of_def comp_def)
  then show ?thesis
    using u unfolding f user_rows_ok_def
    by (auto simp: distinct_map_filter intro: order_trans [OF length_filter_le])
qed

lemma reorder_memory_result:
  assumes ok: "memory_ok used st" and d: "distinct ids" and ids: "set ids = set (map wi_id (list_memory st u m))"
  shows "\<exists>rows st'. reorder_memory u m (order_patches now ids) st = (Inr rows, st') \<and> memory_ok used st' \<and>
    map wi_id rows = ids \<and> list_memory st' u m = rows \<and>
    (\<forall>u' m'. (u', m') \<noteq> (u, m) \<longrightarrow> list_memory st' u' m' = list_memory st u' m')"
proof -
  let ?ps = "order_patches now ids" and ?R = "filter (\<lambda>r. wi_market r = m) (vals_of (st u))"
  have u: "user_rows_ok used u (st u)" using ok by (simp add: memory_ok_def)
  have pid: "op_id ` set ?ps = set ids" using order_patches_ids [of now ids] by (metis set_map)
  have setR: "set ids = set (map wi_id ?R)" using ids by (simp add: list_memory_def)
  have dR: "distinct (map wi_id (vals_of (st u)))" using user_rows_ids [OF u] u by (simp add: user_rows_ok_def)
  have sub: "op_id ` set ?ps \<subseteq> fst ` set (st u)"
    unfolding pid setR using user_rows_ids [OF u] by (metis (no_types, lifting) filter_is_subset image_mono list.set_map)
  obtain rows where rows: "reorder_memory u m ?ps st = (Inr (sort_key wi_sort rows), st(u := map_rows (apply_order ?ps) (st u)))"
    "length rows = length ?ps" "set rows = apply_order ?ps ` {q \<in> set (vals_of (st u)). wi_id q \<in> set ids}"
    using reorder_memory_loop_result [OF ok, of ?ps u "[]"] sub d unfolding reorder_memory_def pid
    by (auto simp: order_patches_ids)
  have "{q \<in> set (vals_of (st u)). wi_id q \<in> set ids} = set ?R"
    unfolding setR using dR by (auto simp: distinct_map inj_on_def)
  then have res: "sort_key wi_sort rows = sort_items (map (apply_order ?ps) ?R) \<and> map wi_id (sort_key wi_sort rows) = ids"
    using rows(2,3) dR setR by (intro reorder_result [OF d]) (auto simp: distinct_map_filter order_patches_def)
  have m: "list_memory (st(u := map_rows (apply_order ?ps) (st u))) u m' =
      sort_items (map (apply_order ?ps) (filter (\<lambda>r. wi_market r = m') (vals_of (st u))))" for m'
    by (rule list_memory_map [OF keeps_key_apply_order]) simp
  have same: "map (apply_order ?ps) (filter (\<lambda>r. wi_market r = m') (vals_of (st u))) = filter (\<lambda>r. wi_market r = m') (vals_of (st u))"
    if "m' \<noteq> m" for m'
  proof (rule map_idI)
    fix q assume q: "q \<in> set (filter (\<lambda>r. wi_market r = m') (vals_of (st u)))"
    have "wi_id q \<notin> set ids"
      using q that dR unfolding setR by (auto simp: distinct_map inj_on_def)
    then show "apply_order ?ps q = q" by (intro apply_order_absent) (simp add: pid)
  qed
  have "list_memory (st(u := map_rows (apply_order ?ps) (st u))) u' m' = list_memory st u' m'"
    if "(u', m') \<noteq> (u, m)" for u' m'
    using that same m by (cases "u' = u") (simp_all add: list_memory_other, simp add: list_memory_def)
  moreover have "memory_ok used (st(u := map_rows (apply_order ?ps) (st u)))"
    by (rule memory_ok_upd [OF ok user_rows_map [OF u keeps_key_apply_order]])
  ultimately show ?thesis using rows(1) res m by auto
qed

lemma update_memory_result:
  assumes ok: "memory_ok used st" and k: "keeps_key f" and up: "update_memory i u f st = (Inr r, st')"
  shows "memory_ok used st' \<and> (\<exists>q \<in> set (vals_of (st u)). wi_id q = i \<and> r = f q) \<and>
    st' = st(u := map_rows (change_row i f) (st u))"
proof -
  have u: "user_rows_ok used u (st u)" using ok by (simp add: memory_ok_def)
  obtain q where q: "map_of (st u) i = Some q" "r = f q" "st' = st(u := AList.update i (f q) (st u))"
    using up by (auto simp: update_memory_def split: option.splits)
  have "(i, q) \<in> set (st u)" using q(1) by (rule map_of_SomeD)
  then have "q \<in> set (vals_of (st u))" "wi_id q = i" using u by (force simp: vals_of_def user_rows_ok_def)+
  moreover have "st' = st(u := map_rows (change_row i f) (st u))" using q update_as_map [OF u q(1)] by simp
  ultimately show ?thesis
    using q memory_ok_upd [OF ok user_rows_map [OF u keeps_key_change [OF k]]] by auto
qed

interpretation mb: watch_backend memory_backend memory_ok
proof unfold_locales
  fix used st u m and r :: witem
  show "memory_ok used st \<Longrightarrow> r \<in> set (bk_list memory_backend st u m) \<Longrightarrow> wi_user r = u \<and> wi_market r = m \<and> wi_id r \<in> used"
    using user_rows_mem [of used u "st u" r] by (auto simp: memory_backend_def memory_list_mem memory_ok_def)
  show "memory_ok used st \<Longrightarrow> distinct (map wi_id (bk_list memory_backend st u m)) \<and> distinct (map wi_symbol (bk_list memory_backend st u m))"
    "memory_ok used st \<Longrightarrow> length (bk_list memory_backend st u m) \<le> MAX_ITEMS_PER_USER"
    using memory_list_distinct [of used st u m] by (auto simp: memory_backend_def)
  show "sorted (map wi_sort (bk_list memory_backend st u m))" by (simp add: memory_backend_def list_memory_def)
next
  fix used st u and it :: witem
  assume ok: "memory_ok used st" and it: "wi_user it = u" "wi_id it \<notin> used"
  show "memory_ok (insert (wi_id it) used) (snd (bk_create memory_backend u it st))"
  proof (cases "create_memory u it st")
    case (Pair res st')
    show ?thesis
    proof (cases res)
      case (Inl e)
      then have "st' = st" using Pair by (auto simp: create_memory_def split: if_splits)
      then show ?thesis using ok Pair by (auto simp: memory_backend_def memory_ok_def user_rows_ok_def)
    next
      case (Inr r)
      have "memory_ok (insert (wi_id it) used) st'"
        using create_memory_fresh [OF ok it, of r st'] Pair Inr by blast
      then show ?thesis using Pair by (simp add: memory_backend_def)
    qed
  qed
  fix r st' assume c: "bk_create memory_backend u it st = (Inr r, st')"
  then have c': "r = it" "st' = st(u := st u @ [(wi_id it, it)])"
    using create_memory_fresh [OF ok it] by (auto simp: memory_backend_def)
  have "bk_list memory_backend st' u' m' = bk_list memory_backend st u' m'" if "(u', m') \<noteq> (u, wi_market it)" for u' m'
    using that by (cases "u' = u") (auto simp: c' memory_backend_def list_memory_def vals_of_def)
  then show "r = it \<and>
        ((\<forall>r \<in> set (bk_list memory_backend st u (wi_market it)). wi_sort r < wi_sort it) \<longrightarrow>
           bk_list memory_backend st' u (wi_market it) = bk_list memory_backend st u (wi_market it) @ [it]) \<and>
        (\<forall>u' m'. (u', m') \<noteq> (u, wi_market it) \<longrightarrow> bk_list memory_backend st' u' m' = bk_list memory_backend st u' m')"
    using list_memory_append [of st u it "wi_id it"] by (auto simp: c' memory_backend_def)
next
  fix u st e st' and it :: witem
  show "bk_create memory_backend u it st = (Inl e, st') \<Longrightarrow> st' = st"
    by (auto simp: memory_backend_def create_memory_def split: if_splits)
next
  fix used st f i u
  assume ok: "memory_ok used st" and k: "keeps_key f"
  show "memory_ok used (snd (bk_update memory_backend i u f st))"
  proof (cases "update_memory i u f st")
    case (Pair res st')
    then show ?thesis
    proof (cases res)
      case (Inl e)
      then have "st' = st" using Pair by (auto simp: update_memory_def split: option.splits)
      then show ?thesis using ok Pair by (simp add: memory_backend_def)
    qed (use Pair update_memory_result [OF ok k] in \<open>simp add: memory_backend_def\<close>)
  qed
  fix r st' assume "bk_update memory_backend i u f st = (Inr r, st')"
  then have up: "\<exists>q \<in> set (vals_of (st u)). wi_id q = i \<and> r = f q" "st' = st(u := map_rows (change_row i f) (st u))"
    using update_memory_result [OF ok k] by (auto simp: memory_backend_def)
  have l: "list_memory st' u m = sort_items (map (change_row i f) (filter (\<lambda>r. wi_market r = m) (vals_of (st u))))" for m
    by (rule list_memory_map [OF keeps_key_change [OF k]]) (simp add: up)
  show "(\<exists>m. \<exists>q \<in> set (bk_list memory_backend st u m). wi_id q = i \<and> r = f q) \<and>
        (\<forall>m. set (bk_list memory_backend st' u m) = (\<lambda>q. if wi_id q = i then f q else q) ` set (bk_list memory_backend st u m)) \<and>
        (\<forall>u' m'. u' \<noteq> u \<longrightarrow> bk_list memory_backend st' u' m' = bk_list memory_backend st u' m')"
  proof (intro conjI allI impI)
    show "\<exists>m. \<exists>q \<in> set (bk_list memory_backend st u m). wi_id q = i \<and> r = f q"
    proof -
      obtain q where "q \<in> set (vals_of (st u))" "wi_id q = i" "r = f q" using up(1) by blast
      then show ?thesis
        by (intro exI [of _ "wi_market q"] bexI [of _ q]) (simp_all add: memory_backend_def memory_list_mem)
    qed
    fix m
    have "set (list_memory st' u m) = change_row i f ` set (list_memory st u m)"
      unfolding l by (simp add: list_memory_def)
    then show "set (bk_list memory_backend st' u m) = (\<lambda>q. if wi_id q = i then f q else q) ` set (bk_list memory_backend st u m)"
      by (simp add: memory_backend_def change_row_def [abs_def])
  next
    fix u' m' assume "u' \<noteq> u"
    then show "bk_list memory_backend st' u' m' = bk_list memory_backend st u' m'"
      by (simp add: memory_backend_def up(2) list_memory_other)
  qed
next
  fix i u f st e st'
  show "bk_update memory_backend i u f st = (Inl e, st') \<Longrightarrow> st' = st"
    by (auto simp: memory_backend_def update_memory_def split: option.splits)
next
  fix used st i u
  assume ok: "memory_ok used st"
  have ur: "user_rows_ok used u (st u)" using ok by (simp add: memory_ok_def)
  show "memory_ok used (snd (bk_delete memory_backend i u st))"
    using ok memory_ok_upd [OF ok user_rows_delete [OF ur]] by (simp add: memory_backend_def delete_memory_def)
  fix x st' assume "bk_delete memory_backend i u st = (Inr x, st')"
  then have "st' = st(u := AList.delete i (st u))" by (auto simp: memory_backend_def delete_memory_def split: if_splits)
  then show "(\<forall>m. bk_list memory_backend st' u m = filter (\<lambda>q. wi_id q \<noteq> i) (bk_list memory_backend st u m)) \<and>
        (\<forall>u' m'. u' \<noteq> u \<longrightarrow> bk_list memory_backend st' u' m' = bk_list memory_backend st u' m')"
    using list_memory_delete [of used u st, OF ur] by (simp add: memory_backend_def list_memory_other)
next
  fix i u st e st'
  show "bk_delete memory_backend i u st = (Inl e, st') \<Longrightarrow> st' = st"
    by (auto simp: memory_backend_def delete_memory_def split: if_splits)
next
  fix used st ids u m now
  show "memory_ok used st \<Longrightarrow> distinct ids \<Longrightarrow> set ids = set (map wi_id (bk_list memory_backend st u m)) \<Longrightarrow>
        \<exists>rows st'. bk_reorder memory_backend u m (order_patches now ids) st = (Inr rows, st') \<and> memory_ok used st' \<and>
          map wi_id rows = ids \<and> bk_list memory_backend st' u m = rows \<and>
          (\<forall>u' m'. (u', m') \<noteq> (u, m) \<longrightarrow> bk_list memory_backend st' u' m' = bk_list memory_backend st u' m')"
    using reorder_memory_result [of used st ids u m now] by (simp add: memory_backend_def)
qed



section \<open>The Redis backend meets the contract\<close>

definition rows_of :: "redis_data \<Rightarrow> string \<Rightarrow> witem list" where
  "rows_of d m = get_default d m []"

definition all_rows :: "redis_data \<Rightarrow> witem list" where
  "all_rows d = concat (map snd d)"

lemma rows_of_simps [simp]:
  "rows_of [] m = []" "rows_of ((k, rows) # d) m = (if m = k then rows else rows_of d m)"
  by (simp_all add: rows_of_def get_default_def)

lemma rows_of_absent: "m \<notin> fst ` set d \<Longrightarrow> rows_of d m = []"
  by (simp add: rows_of_def get_default_def map_of_eq_None_iff [THEN iffD2])

lemma rows_of_update [simp]: "rows_of (AList.update k rows d) m = (if m = k then rows else rows_of d m)"
  by (simp add: rows_of_def get_default_def update_conv)

lemma all_rows_simps [simp]: "all_rows [] = []" "all_rows ((k, rows) # d) = rows @ all_rows d"
  by (simp_all add: all_rows_def)

lemma rows_of_subset: "set (rows_of d m) \<subseteq> set (all_rows d)"
  by (induction d) (auto split: if_splits)

lemma distinct_rows_of: "distinct (map f (all_rows d)) \<Longrightarrow> distinct (map f (rows_of d m))"
  by (induction d) auto

lemma all_rows_in: "distinct (map fst d) \<Longrightarrow> r \<in> set (all_rows d) \<Longrightarrow> \<exists>m. r \<in> set (rows_of d m)"
proof (induction d)
  case (Cons x d)
  obtain k rows where x: "x = (k, rows)" by (cases x)
  show ?case
  proof (cases "r \<in> set rows")
    case True
    then show ?thesis using x by (auto intro: exI [of _ k])
  next
    case False
    then obtain m where m: "r \<in> set (rows_of d m)" using Cons x by auto
    then have "m \<noteq> k" using Cons.prems(1) x rows_of_absent [of k d] by auto
    then show ?thesis using m x by (auto intro: exI [of _ m])
  qed
qed simp

definition user_data_ok :: "string set \<Rightarrow> string \<Rightarrow> redis_data \<Rightarrow> bool" where
  "user_data_ok used u d \<longleftrightarrow> distinct (map fst d) \<and> distinct (map wi_id (all_rows d)) \<and>
     (\<forall>m. (\<forall>r \<in> set (rows_of d m). wi_user r = u \<and> wi_market r = m \<and> wi_id r \<in> used) \<and>
          distinct (map wi_symbol (rows_of d m)) \<and> length (rows_of d m) \<le> MAX_ITEMS_PER_USER)"

definition redis_ok :: "string set \<Rightarrow> redis_state \<Rightarrow> bool" where
  "redis_ok used st \<longleftrightarrow> (\<forall>u. user_data_ok used u (st u))"

lemma redis_ok_upd: "redis_ok used st \<Longrightarrow> user_data_ok used u d \<Longrightarrow> redis_ok used (st(u := d))"
  by (simp add: redis_ok_def)

lemma list_redis_rows: "list_redis st u m = sort_items (rows_of (st u) m)"
  by (simp add: list_redis_def rows_of_def)

lemma list_redis_other: "u' \<noteq> u \<Longrightarrow> list_redis (st(u := d)) u' m = list_redis st u' m"
  by (simp add: list_redis_def)

definition map_data :: "(witem list \<Rightarrow> witem list) \<Rightarrow> redis_data \<Rightarrow> redis_data" where
  "map_data g d = map (\<lambda>(m, rows). (m, g rows)) d"

lemma map_data_simps [simp]:
  "map_data g [] = []" "map_data g ((k, rows) # d) = (k, g rows) # map_data g d"
  "map fst (map_data g d) = map fst d"
  by (auto simp: map_data_def)

lemma rows_of_map_data: "g [] = [] \<Longrightarrow> rows_of (map_data g d) m = g (rows_of d m)"
  by (induction d) auto

lemma all_rows_map_data: "(\<And>xs ys. g (xs @ ys) = g xs @ g ys) \<Longrightarrow> g [] = [] \<Longrightarrow> all_rows (map_data g d) = g (all_rows d)"
  by (induction d) auto

lemma change_rows_absent: "i \<notin> wi_id ` set rows \<Longrightarrow> map (change_row i f) rows = rows"
  by (rule map_idI) (auto simp: change_row_def)

lemma map_data_absent: "i \<notin> wi_id ` set (all_rows d) \<Longrightarrow> map_data (map (change_row i f)) d = d"
  by (induction d) (auto simp: change_rows_absent image_Un)

lemma update_rows_None: "update_rows i f rows = None \<longleftrightarrow> i \<notin> wi_id ` set rows"
  by (induction rows) auto

lemma update_rows_Some:
  "update_rows i f rows = Some (x, rows') \<Longrightarrow> distinct (map wi_id rows) \<Longrightarrow>
     rows' = map (change_row i f) rows \<and> (\<exists>q \<in> set rows. wi_id q = i \<and> x = f q)"
proof (induction rows arbitrary: rows')
  case (Cons q rows)
  show ?case
  proof (cases "wi_id q = i")
    case True
    then have "map (change_row i f) rows = rows" using Cons.prems(2) by (intro change_rows_absent) auto
    then show ?thesis using True Cons.prems(1) by (auto simp: change_row_def [of i f q])
  next
    case False
    then show ?thesis using Cons by (auto simp: change_row_def)
  qed
qed simp

lemma update_data_Some:
  "update_data i f d = Some (x, d') \<Longrightarrow> distinct (map wi_id (all_rows d)) \<Longrightarrow>
     d' = map_data (map (change_row i f)) d \<and> (\<exists>q \<in> set (all_rows d). wi_id q = i \<and> x = f q)"
proof (induction i f d arbitrary: d' rule: update_data.induct)
  case (2 i f m rows d)
  show ?case
  proof (cases "update_rows i f rows")
    case None
    then have rows: "map (change_row i f) rows = rows" by (intro change_rows_absent) (simp add: update_rows_None)
    obtain e where e: "update_data i f d = Some (x, e)" "d' = (m, rows) # e"
      using None "2.prems"(1) by auto
    have "e = map_data (map (change_row i f)) d \<and> (\<exists>q \<in> set (all_rows d). wi_id q = i \<and> x = f q)"
      using "2.IH" [OF None e(1)] "2.prems"(2) by simp
    then show ?thesis using e rows by auto
  next
    case (Some y)
    obtain z rows' where y: "y = (z, rows')" by (cases y)
    then have z: "rows' = map (change_row i f) rows" "\<exists>q \<in> set rows. wi_id q = i \<and> z = f q"
      using update_rows_Some [of i f rows z rows'] Some "2.prems"(2) by auto
    then have "i \<notin> wi_id ` set (all_rows d)" using "2.prems"(2) by force
    then show ?thesis using Some y z "2.prems"(1) map_data_absent [of i d f] by auto
  qed
qed simp

lemma delete_data_Some:
  "delete_data i d = Some d' \<Longrightarrow> distinct (map wi_id (all_rows d)) \<Longrightarrow> d' = map_data (filter (\<lambda>r. wi_id r \<noteq> i)) d"
proof (induction i d arbitrary: d' rule: delete_data.induct)
  case (2 i m rows d)
  have keep: "filter (\<lambda>r. wi_id r \<noteq> i) xs = xs" if "i \<notin> wi_id ` set xs" for xs
    using that by (auto simp: filter_id_conv)
  have keep_data: "map_data (filter (\<lambda>r. wi_id r \<noteq> i)) d = d" if "i \<notin> wi_id ` set (all_rows d)" for d
    using that by (induction d) (auto simp: image_Un keep)
  show ?case
  proof (cases "length (filter (\<lambda>r. wi_id r \<noteq> i) rows) = length rows")
    case True
    then have "filter (\<lambda>r. wi_id r \<noteq> i) rows = rows" by (metis length_filter_less less_irrefl filter_id_conv)
    then show ?thesis using True "2.IH" "2.prems" by (auto simp: Let_def)
  next
    case False
    then have "i \<in> wi_id ` set rows" using keep by force
    then have "i \<notin> wi_id ` set (all_rows d)" using "2.prems"(2) by auto
    then show ?thesis using False "2.prems"(1) keep_data by (auto simp: Let_def)
  qed
qed simp

lemma patch_rows_result:
  "distinct (map wi_id rows) \<Longrightarrow> op_id ` set ps \<subseteq> wi_id ` set rows \<Longrightarrow> patch_rows ps rows = Inr (map (apply_order ps) rows)"
proof (induction ps arbitrary: rows)
  case Nil
  then show ?case by (simp add: apply_order_def)
next
  case (Cons p ps)
  obtain x rows' where u: "update_rows (op_id p) (set_order p) rows = Some (x, rows')"
    using Cons.prems(2) update_rows_None [of "op_id p" "set_order p" rows]
    by (cases "update_rows (op_id p) (set_order p) rows") auto
  have r: "rows' = map (change_row (op_id p) (set_order p)) rows" using update_rows_Some [OF u Cons.prems(1)] by simp
  have i: "map wi_id rows' = map wi_id rows" by (simp add: r keeps_key_set_order)
  have "patch_rows ps rows' = Inr (map (apply_order ps) rows')"
    using Cons.IH [of rows'] Cons.prems i by (metis image_insert insert_subset list.simps(15) list.set_map)
  then show ?case using u by (simp add: r apply_order_Cons change_row_def comp_def)
qed

lemma user_data_map:
  assumes ok: "user_data_ok used u d" and k: "keeps_key g"
  shows "user_data_ok used u (map_data (map g) d)"
proof -
  have s: "wi_id (g q) = wi_id q" "wi_user (g q) = wi_user q" "wi_market (g q) = wi_market q" "wi_symbol (g q) = wi_symbol q" for q
    using k by (auto simp: keeps_key_def)
  have "all_rows (map_data (map g) d) = map g (all_rows d)" by (rule all_rows_map_data) auto
  then show ?thesis
    using ok by (auto simp: user_data_ok_def rows_of_map_data s comp_def)
qed

lemma mset_all_rows_update:
  "distinct (map fst d) \<Longrightarrow> mset (all_rows (AList.update m (rows_of d m @ [x]) d)) = mset (x # all_rows d)"
  by (induction d) (auto simp: rows_of_absent)

lemma mset_all_rows_map:
  "distinct (map fst d) \<Longrightarrow> m \<in> fst ` set d \<Longrightarrow>
     map wi_id rows = map wi_id (rows_of d m) \<Longrightarrow> map wi_id (all_rows (AList.update m rows d)) = map wi_id (all_rows d)"
proof (induction d)
  case (Cons x d)
  obtain a b where x: "x = (a, b)" by (cases x)
  show ?case
  proof (cases "a = m")
    case False
    then have "m \<in> fst ` set d" using Cons.prems(2) x by auto
    then show ?thesis using Cons False x by simp
  qed (use Cons.prems(3) x in simp)
qed simp



text \<open>The calls on Redis by what they do to a user's data.\<close>

lemma create_redis_fresh:
  assumes ok: "redis_ok used st" and it: "wi_user it = u" "wi_id it \<notin> used"
    and c: "create_redis u it st = (Inr r, st')"
  shows "r = it \<and> st' = st(u := AList.update (wi_market it) (rows_of (st u) (wi_market it) @ [it]) (st u)) \<and>
    redis_ok (insert (wi_id it) used) st'"
proof -
  let ?m = "wi_market it" and ?d = "st u"
  let ?e = "AList.update ?m (rows_of ?d ?m @ [it]) ?d"
  have u: "user_data_ok used u ?d" using ok by (simp add: redis_ok_def)
  have r: "r = it" "st' = st(u := ?e)" and len: "length (rows_of ?d ?m) < MAX_ITEMS_PER_USER"
    and new: "\<not> (\<exists>r \<in> set (rows_of ?d ?m). wi_symbol r = wi_symbol it)"
    using c by (auto simp: create_redis_def rows_of_def [symmetric] Let_def split: if_splits)
  have "mset (map wi_id (all_rows ?e)) = mset (map wi_id (it # all_rows ?d))"
    using mset_all_rows_update [of ?d ?m it] u by (metis mset_map user_data_ok_def)
  moreover have "wi_id it \<notin> wi_id ` set (all_rows ?d)"
    using u it all_rows_in [of ?d] by (force simp: user_data_ok_def)
  ultimately have "distinct (map wi_id (all_rows ?e))"
    using u mset_eq_imp_distinct_iff by (metis distinct.simps(2) list.set_map list.simps(9) user_data_ok_def)
  moreover have "distinct (map fst ?e)" using u by (simp add: user_data_ok_def distinct_update)
  moreover have "(\<forall>r \<in> set (rows_of ?e m). wi_user r = u \<and> wi_market r = m \<and> wi_id r \<in> insert (wi_id it) used) \<and>
      distinct (map wi_symbol (rows_of ?e m)) \<and> length (rows_of ?e m) \<le> MAX_ITEMS_PER_USER" for m
  proof -
    have o: "(\<forall>r \<in> set (rows_of ?d m). wi_user r = u \<and> wi_market r = m \<and> wi_id r \<in> used) \<and>
      distinct (map wi_symbol (rows_of ?d m)) \<and> length (rows_of ?d m) \<le> MAX_ITEMS_PER_USER"
      using u by (simp add: user_data_ok_def)
    show ?thesis
    proof (cases "m = ?m")
      case True
      then show ?thesis using o it(1) len new by (simp add: image_iff) metis
    next
      case False
      then show ?thesis using o by simp
    qed
  qed
  ultimately have "user_data_ok (insert (wi_id it) used) u ?e"
    unfolding user_data_ok_def by blast
  moreover have "user_data_ok (insert (wi_id it) used) u' (st u')" for u'
    using ok by (auto simp: redis_ok_def user_data_ok_def)
  ultimately show ?thesis using r by (simp add: redis_ok_def)
qed

lemma update_redis_result:
  assumes ok: "redis_ok used st" and k: "keeps_key f" and up: "update_redis i u f st = (Inr r, st')"
  shows "redis_ok used st' \<and> (\<exists>q \<in> set (all_rows (st u)). wi_id q = i \<and> r = f q) \<and>
    st' = st(u := map_data (map (change_row i f)) (st u))"
proof -
  have u: "user_data_ok used u (st u)" using ok by (simp add: redis_ok_def)
  obtain d where d: "update_data i f (st u) = Some (r, d)" "st' = st(u := d)"
    using up by (auto simp: update_redis_def split: option.splits)
  have "d = map_data (map (change_row i f)) (st u) \<and> (\<exists>q \<in> set (all_rows (st u)). wi_id q = i \<and> r = f q)"
    using update_data_Some [OF d(1)] u by (simp add: user_data_ok_def)
  then show ?thesis
    using d redis_ok_upd [OF ok user_data_map [OF u keeps_key_change [OF k]]] by auto
qed

lemma user_data_delete: "user_data_ok used u d \<Longrightarrow> user_data_ok used u (map_data (filter (\<lambda>r. wi_id r \<noteq> i)) d)"
proof -
  assume u: "user_data_ok used u d"
  have "all_rows (map_data (filter (\<lambda>r. wi_id r \<noteq> i)) d) = filter (\<lambda>r. wi_id r \<noteq> i) (all_rows d)"
    by (rule all_rows_map_data) auto
  then show ?thesis
    using u by (auto simp: user_data_ok_def rows_of_map_data distinct_map_filter intro: order_trans [OF length_filter_le])
qed

lemma delete_redis_result:
  assumes ok: "redis_ok used st" and d: "delete_redis i u st = (Inr x, st')"
  shows "redis_ok used st' \<and> st' = st(u := map_data (filter (\<lambda>r. wi_id r \<noteq> i)) (st u))"
proof -
  have u: "user_data_ok used u (st u)" using ok by (simp add: redis_ok_def)
  obtain e where e: "delete_data i (st u) = Some e" "st' = st(u := e)"
    using d by (auto simp: delete_redis_def split: option.splits)
  then have "e = map_data (filter (\<lambda>r. wi_id r \<noteq> i)) (st u)"
    using delete_data_Some u by (simp add: user_data_ok_def)
  then show ?thesis using e redis_ok_upd [OF ok user_data_delete [OF u]] by simp
qed

lemma reorder_redis_result:
  assumes ok: "redis_ok used st" and d: "distinct ids" and ids: "set ids = set (map wi_id (list_redis st u m))"
  shows "\<exists>rows st'. reorder_redis u m (order_patches now ids) st = (Inr rows, st') \<and> redis_ok used st' \<and>
    map wi_id rows = ids \<and> list_redis st' u m = rows \<and>
    (\<forall>u' m'. (u', m') \<noteq> (u, m) \<longrightarrow> list_redis st' u' m' = list_redis st u' m')"
proof -
  let ?ps = "order_patches now ids" and ?R = "rows_of (st u) m"
  define xs where "xs = map (apply_order ?ps) ?R"
  define e where "e = (if has_key (st u) m then AList.update m xs (st u) else st u)"
  have u: "user_data_ok used u (st u)" using ok by (simp add: redis_ok_def)
  have pid: "op_id ` set ?ps = set ids" using order_patches_ids [of now ids] by (metis set_map)
  have dR: "distinct (map wi_id ?R)" using u by (auto simp: user_data_ok_def intro: distinct_rows_of)
  have setR: "set ids = set (map wi_id ?R)" using ids by (simp add: list_redis_rows)
  have p: "patch_rows ?ps ?R = Inr xs" unfolding xs_def by (rule patch_rows_result [OF dR]) (simp add: pid setR)
  have r: "reorder_redis u m ?ps st = (Inr (sort_key wi_sort xs), st(u := e))"
    using p by (simp add: reorder_redis_def rows_of_def [symmetric] e_def)
  have len: "length xs = length ids"
    using dR setR d by (simp add: xs_def) (metis distinct_card length_map set_map)
  have res: "sort_key wi_sort xs = sort_items xs \<and> map wi_id (sort_key wi_sort xs) = ids"
    unfolding xs_def by (rule reorder_result [OF d dR setR]) (use len in \<open>simp_all add: xs_def\<close>)
  have rows_e: "rows_of e m' = (if m' = m then xs else rows_of (st u) m')" for m'
  proof (cases "has_key (st u) m")
    case False
    then have "?R = []" by (intro rows_of_absent) (simp add: has_key_def)
    then show ?thesis using False by (simp add: e_def xs_def)
  qed (simp add: e_def)
  have "map wi_id (all_rows e) = map wi_id (all_rows (st u))"
  proof (cases "has_key (st u) m")
    case True
    have "map wi_id xs = map wi_id ?R" by (simp add: xs_def)
    then show ?thesis
      using True u by (simp add: e_def has_key_def user_data_ok_def mset_all_rows_map)
  qed (simp add: e_def)
  moreover have "distinct (map fst e)" using u by (simp add: e_def user_data_ok_def distinct_update)
  ultimately have "user_data_ok used u e"
    using u unfolding user_data_ok_def rows_e xs_def by (auto simp: comp_def)
  then have "redis_ok used (st(u := e))" by (rule redis_ok_upd [OF ok])
  moreover have "list_redis (st(u := e)) u' m' = list_redis st u' m'" if "(u', m') \<noteq> (u, m)" for u' m'
    using that by (cases "u' = u") (auto simp: list_redis_rows rows_e)
  moreover have "list_redis (st(u := e)) u m = sort_key wi_sort xs"
    using res by (simp add: list_redis_rows rows_e)
  ultimately show ?thesis using r res by auto
qed


lemma update_redis_error: "update_redis i u f st = (Inl e, st') \<Longrightarrow> st' = st"
  by (auto simp: update_redis_def split: option.splits)

lemma create_redis_error: "create_redis u it st = (Inl e, st') \<Longrightarrow> st' = st"
  by (auto simp: create_redis_def Let_def split: if_splits)

lemma delete_redis_error: "delete_redis i u st = (Inl e, st') \<Longrightarrow> st' = st"
  by (auto simp: delete_redis_def split: option.splits)

lemma redis_ok_more: "redis_ok used st \<Longrightarrow> redis_ok (insert i used) st"
  by (auto simp: redis_ok_def user_data_ok_def)

interpretation rb: watch_backend redis_backend redis_ok
proof unfold_locales
  fix used st u m and r :: witem
  assume ok: "redis_ok used st"
  then have u: "user_data_ok used u (st u)" by (simp add: redis_ok_def)
  show "r \<in> set (bk_list redis_backend st u m) \<Longrightarrow> wi_user r = u \<and> wi_market r = m \<and> wi_id r \<in> used"
    using u by (auto simp: redis_backend_def list_redis_rows user_data_ok_def)
  show "distinct (map wi_id (bk_list redis_backend st u m)) \<and> distinct (map wi_symbol (bk_list redis_backend st u m))"
    using u by (auto simp: redis_backend_def list_redis_rows user_data_ok_def distinct_rows_of)
  show "length (bk_list redis_backend st u m) \<le> MAX_ITEMS_PER_USER"
    using u by (auto simp: redis_backend_def list_redis_rows user_data_ok_def)
  show "sorted (map wi_sort (bk_list redis_backend st u m))" by (simp add: redis_backend_def list_redis_rows)
next
  fix used st u and it :: witem
  assume ok: "redis_ok used st" and it: "wi_user it = u" "wi_id it \<notin> used"
  obtain res st1 where c: "create_redis u it st = (res, st1)" by (cases "create_redis u it st")
  show "redis_ok (insert (wi_id it) used) (snd (bk_create redis_backend u it st))"
  proof (cases res)
    case (Inl e)
    then have "st1 = st" using c create_redis_error by blast
    then show ?thesis using c redis_ok_more [OF ok] by (simp add: redis_backend_def)
  next
    case (Inr r)
    have "redis_ok (insert (wi_id it) used) st1" using create_redis_fresh [OF ok it, of r st1] c Inr by blast
    then show ?thesis using c by (simp add: redis_backend_def)
  qed
  fix r st' assume "bk_create redis_backend u it st = (Inr r, st')"
  then have c': "r = it" "st' = st(u := AList.update (wi_market it) (rows_of (st u) (wi_market it) @ [it]) (st u))"
    using create_redis_fresh [OF ok it] by (auto simp: redis_backend_def)
  have "bk_list redis_backend st' u' m' = bk_list redis_backend st u' m'" if "(u', m') \<noteq> (u, wi_market it)" for u' m'
    using that by (cases "u' = u") (auto simp: c' redis_backend_def list_redis_rows)
  moreover have "bk_list redis_backend st' u (wi_market it) = bk_list redis_backend st u (wi_market it) @ [it]"
    if "\<forall>r \<in> set (bk_list redis_backend st u (wi_market it)). wi_sort r < wi_sort it"
    using that by (simp add: c' redis_backend_def list_redis_rows sort_items_last)
  ultimately show "r = it \<and>
        ((\<forall>r \<in> set (bk_list redis_backend st u (wi_market it)). wi_sort r < wi_sort it) \<longrightarrow>
           bk_list redis_backend st' u (wi_market it) = bk_list redis_backend st u (wi_market it) @ [it]) \<and>
        (\<forall>u' m'. (u', m') \<noteq> (u, wi_market it) \<longrightarrow> bk_list redis_backend st' u' m' = bk_list redis_backend st u' m')"
    using c'(1) by blast
next
  fix u st e st' and it :: witem
  show "bk_create redis_backend u it st = (Inl e, st') \<Longrightarrow> st' = st"
    by (simp add: redis_backend_def create_redis_error)
next
  fix used st f i u
  assume ok: "redis_ok used st" and k: "keeps_key f"
  have u: "user_data_ok used u (st u)" using ok by (simp add: redis_ok_def)
  obtain res st1 where up: "update_redis i u f st = (res, st1)" by (cases "update_redis i u f st")
  show "redis_ok used (snd (bk_update redis_backend i u f st))"
  proof (cases res)
    case (Inl e)
    then have "st1 = st" using up update_redis_error by blast
    then show ?thesis using up ok by (simp add: redis_backend_def)
  next
    case (Inr r)
    have "redis_ok used st1" using update_redis_result [OF ok k, of i u r st1] up Inr by blast
    then show ?thesis using up by (simp add: redis_backend_def)
  qed
  fix r st' assume "bk_update redis_backend i u f st = (Inr r, st')"
  then have up: "\<exists>q \<in> set (all_rows (st u)). wi_id q = i \<and> r = f q"
      "st' = st(u := map_data (map (change_row i f)) (st u))"
    using update_redis_result [OF ok k] by (auto simp: redis_backend_def)
  show "(\<exists>m. \<exists>q \<in> set (bk_list redis_backend st u m). wi_id q = i \<and> r = f q) \<and>
        (\<forall>m. set (bk_list redis_backend st' u m) = (\<lambda>q. if wi_id q = i then f q else q) ` set (bk_list redis_backend st u m)) \<and>
        (\<forall>u' m'. u' \<noteq> u \<longrightarrow> bk_list redis_backend st' u' m' = bk_list redis_backend st u' m')"
  proof (intro conjI allI impI)
    obtain q where q: "q \<in> set (all_rows (st u))" "wi_id q = i" "r = f q" using up(1) by blast
    then obtain m where "q \<in> set (rows_of (st u) m)" using all_rows_in [of "st u" q] u by (auto simp: user_data_ok_def)
    then show "\<exists>m. \<exists>q \<in> set (bk_list redis_backend st u m). wi_id q = i \<and> r = f q"
      using q by (intro exI [of _ m] bexI [of _ q]) (simp_all add: redis_backend_def list_redis_rows)
    fix m
    show "set (bk_list redis_backend st' u m) = (\<lambda>q. if wi_id q = i then f q else q) ` set (bk_list redis_backend st u m)"
      by (simp add: redis_backend_def list_redis_rows up(2) rows_of_map_data change_row_def [abs_def])
  next
    fix u' m' assume "u' \<noteq> u"
    then show "bk_list redis_backend st' u' m' = bk_list redis_backend st u' m'"
      by (simp add: redis_backend_def up(2) list_redis_other)
  qed
next
  fix i u f st e st'
  show "bk_update redis_backend i u f st = (Inl e, st') \<Longrightarrow> st' = st"
    by (simp add: redis_backend_def update_redis_error)
next
  fix used st i u
  assume ok: "redis_ok used st"
  obtain res st1 where d: "delete_redis i u st = (res, st1)" by (cases "delete_redis i u st")
  show "redis_ok used (snd (bk_delete redis_backend i u st))"
  proof (cases res)
    case (Inl e)
    then have "st1 = st" using d delete_redis_error by blast
    then show ?thesis using d ok by (simp add: redis_backend_def)
  next
    case (Inr r)
    have "redis_ok used st1" using delete_redis_result [OF ok, of i u r st1] d Inr by blast
    then show ?thesis using d by (simp add: redis_backend_def)
  qed
  fix x st' assume "bk_delete redis_backend i u st = (Inr x, st')"
  then have "st' = st(u := map_data (filter (\<lambda>r. wi_id r \<noteq> i)) (st u))"
    using delete_redis_result [OF ok] by (auto simp: redis_backend_def)
  then show "(\<forall>m. bk_list redis_backend st' u m = filter (\<lambda>q. wi_id q \<noteq> i) (bk_list redis_backend st u m)) \<and>
        (\<forall>u' m'. u' \<noteq> u \<longrightarrow> bk_list redis_backend st' u' m' = bk_list redis_backend st u' m')"
    by (simp add: redis_backend_def list_redis_rows rows_of_map_data filter_sort_items)
next
  fix i u st e st'
  show "bk_delete redis_backend i u st = (Inl e, st') \<Longrightarrow> st' = st"
    by (simp add: redis_backend_def delete_redis_error)
next
  fix used st ids u m now
  show "redis_ok used st \<Longrightarrow> distinct ids \<Longrightarrow> set ids = set (map wi_id (bk_list redis_backend st u m)) \<Longrightarrow>
        \<exists>rows st'. bk_reorder redis_backend u m (order_patches now ids) st = (Inr rows, st') \<and> redis_ok used st' \<and>
          map wi_id rows = ids \<and> bk_list redis_backend st' u m = rows \<and>
          (\<forall>u' m'. (u', m') \<noteq> (u, m) \<longrightarrow> bk_list redis_backend st' u' m' = bk_list redis_backend st u' m')"
    using reorder_redis_result [of used st ids u m now] by (simp add: redis_backend_def)
qed

section \<open>Properties\<close>

text \<open>What any session of calls leaves in a backend, for every user and market.\<close>

definition watch_lists_sound :: "'st backend \<Rightarrow> 'st \<Rightarrow> bool" where
  "watch_lists_sound bk st \<longleftrightarrow>
     (\<forall>u m. length (bk_list bk st u m) \<le> MAX_ITEMS_PER_USER \<and> sorted (map wi_sort (bk_list bk st u m)) \<and>
        distinct (map wi_id (bk_list bk st u m)) \<and> distinct (map wi_symbol (bk_list bk st u m)) \<and>
        (\<forall>r \<in> set (bk_list bk st u m). wi_user r = u \<and> wi_market r = m))"

context watch_backend begin

lemma ok_lists_sound: "ok used st \<Longrightarrow> watch_lists_sound bk st"
  using list_rows list_distinct list_sorted list_bound unfolding watch_lists_sound_def by blast

end

text \<open>
  C25: after any session of calls, from an empty store and with fresh ids, every listing of either
  backend has at most 50 rows, in order of position, without a repeated id or symbol, each owned by
  the user and of the market asked for; and a user who made no call has an empty list, whatever the
  others did.
\<close>

theorem watchlist_sessions:
  assumes "distinct (concat (map call_ids cs))"
  shows "watch_lists_sound memory_backend (run_wcalls memory_backend resolver cs (\<lambda>_. [])) \<and>
    watch_lists_sound redis_backend (run_wcalls redis_backend resolver cs (\<lambda>_. [])) \<and>
    (\<forall>u m. u \<in> call_user ` set cs \<or>
       (list_memory (run_wcalls memory_backend resolver cs (\<lambda>_. [])) u m = [] \<and>
        list_redis (run_wcalls redis_backend resolver cs (\<lambda>_. [])) u m = []))"
proof -
  have m0: "memory_ok {} (\<lambda>_. [])" by (simp add: memory_ok_def user_rows_ok_def vals_of_def)
  have r0: "redis_ok {} (\<lambda>_. [])" by (simp add: redis_ok_def user_data_ok_def)
  have lm: "list_memory (\<lambda>_. []) u m = []" for u m by (simp add: list_memory_def vals_of_def sort_items_def)
  have lr: "list_redis (\<lambda>_. []) u m = []" for u m by (simp add: list_redis_rows sort_items_def)
  from mb.calls_preserve [OF m0 assms, of resolver] rb.calls_preserve [OF r0 assms, of resolver]
  show ?thesis
    using mb.ok_lists_sound rb.ok_lists_sound lm lr
    by (auto simp: memory_backend_def redis_backend_def)
qed

definition demo_meta :: SymbolMeta where
  "demo_meta = \<lparr>sm_symbol = ''BTCUSDT'', sm_base = ''BTC'', sm_quote = ''USDT'', sm_contract = ''PERPETUAL'',
     sm_underlying = None, sm_sub_types = [], sm_price_prec = 2, sm_qty_prec = 3, sm_tradfi = False\<rparr>"

theorem watchlist_sessions_witness:
  "watch_lists_sound memory_backend (run_wcalls memory_backend None
     [CCreate ''i1'' 1 ''ann'' ''futures'' demo_meta [], CCreate ''i2'' 2 ''bob'' ''futures'' demo_meta []] (\<lambda>_. []))"
  using watchlist_sessions [of "[CCreate ''i1'' 1 ''ann'' ''futures'' demo_meta [], CCreate ''i2'' 2 ''bob'' ''futures'' demo_meta []]" None]
  by simp

text \<open>
  The order of a list is the one asked for. A created row is the last of its list, behind the
  rows there were; and after a reorder the list is exactly the given ids in the given order, which is
  also what the call returns. Both hold on either backend in any state a session reaches.
\<close>

theorem watchlist_order:
  assumes s: "memory_ok used st" "redis_ok used st2" and fresh: "i \<notin> used"
    and c1: "create_item memory_backend resolver None None i now u m meta nt st = (Inr r, st')"
    and c2: "create_item redis_backend resolver None None i now u m meta nt st2 = (Inr r2, st2')"
    and o1: "reorder memory_backend None None u m ids now st = (Inr rows, st3)"
    and o2: "reorder redis_backend None None u m ids now st2 = (Inr rows2, st4)"
  shows "list_memory st' u m = list_memory st u m @ [r] \<and> list_redis st2' u m = list_redis st2 u m @ [r2] \<and>
    map wi_id (list_memory st3 u m) = ids \<and> rows = list_memory st3 u m \<and>
    map wi_id (list_redis st4 u m) = ids \<and> rows2 = list_redis st4 u m"
  using mb.create_last [OF s(1) fresh c1] rb.create_last [OF s(2) fresh c2] mb.reorder_exact [OF s(1) o1]
    rb.reorder_exact [OF s(2) o2]
  by (auto simp: memory_backend_def redis_backend_def)

theorem watchlist_order_witness:
  "\<exists>r st'. create_item memory_backend None None None ''i1'' 1 ''ann'' ''futures'' demo_meta [] (\<lambda>_. []) = (Inr r, st') \<and>
     list_memory st' ''ann'' ''futures'' = [r]"
proof -
  have m0: "memory_ok {} (\<lambda>_. [])" by (simp add: memory_ok_def user_rows_ok_def vals_of_def)
  have r0: "redis_ok {} (\<lambda>_. [])" by (simp add: redis_ok_def user_data_ok_def)
  have lm: "list_memory (\<lambda>_. []) u m = []" for u m by (simp add: list_memory_def vals_of_def sort_items_def)
  have lr: "list_redis (\<lambda>_. []) u m = []" for u m by (simp add: list_redis_rows sort_items_def)
  obtain r st' where c1: "create_item memory_backend None None None ''i1'' 1 ''ann'' ''futures'' demo_meta [] (\<lambda>_. []) = (Inr r, st')"
    by (simp add: create_item_def validate_note_def ensure_whitelisted_def memory_backend_def create_memory_def vals_of_def
        MAX_ITEMS_PER_USER_def Let_def)
  obtain r2 st2 where c2: "create_item redis_backend None None None ''i1'' 1 ''ann'' ''futures'' demo_meta [] (\<lambda>_. []) = (Inr r2, st2)"
    by (simp add: create_item_def validate_note_def ensure_whitelisted_def redis_backend_def create_redis_def get_default_def
        MAX_ITEMS_PER_USER_def Let_def)
  obtain a b where o1: "reorder memory_backend None None ''ann'' ''futures'' [] 1 (\<lambda>_. []) = (Inr a, b)"
    by (simp add: reorder_def list_items_def memory_backend_def lm order_patches_def reorder_memory_def)
  obtain c d where o2: "reorder redis_backend None None ''ann'' ''futures'' [] 1 (\<lambda>_. []) = (Inr c, d)"
    by (simp add: reorder_def list_items_def redis_backend_def lr order_patches_def reorder_redis_def)
  from watchlist_order [OF m0 r0 _ c1 c2 o1 o2] c1 lm show ?thesis by auto
qed

text \<open>
  The limit differs between the backends: memory counts the rows of all markets of a user, Redis
  those of one market.
\<close>

lemma memory_limit_counts_all_markets:
  "memory_ok used st \<Longrightarrow> length (st u) = MAX_ITEMS_PER_USER \<Longrightarrow>
     fst (create_memory u it st) \<in> {Inl (Duplicate (wi_symbol it) (wi_market it)), Inl LimitReached}"
  by (auto simp: create_memory_def)

lemma redis_limit_counts_one_market:
  "rows_of (st u) (wi_market it) = [] \<Longrightarrow> fst (create_redis u it st) = Inr it"
  by (simp add: create_redis_def rows_of_def MAX_ITEMS_PER_USER_def Let_def)


end
