(* ===== verification/Quota.thy ===== *)
theory Quota
  imports Prelude
begin

text \<open>
  The daily quota: the three ledger procedures of the database
  (\<open>migrations/20260910_001_auth_complete.sql\<close> for \<open>reserve_quota\<close>, \<open>20260721_002\<close> for
  \<open>consume_quota\<close> and \<open>release_quota\<close>), their callers in \<open>app/infra/supabase_client.py\<close>, and the
  routes that reserve, work and settle (\<open>app/api/rsi_trend_routes.py\<close>, \<open>invoke_tool\<close> of
  \<open>app/api/vibe_routes.py\<close>).

  A procedure is one transaction, so an atomic function on the ledger; the ledger is the list of
  its rows in order of creation. What the network does to a call is an argument of type
  \<open>call_fault\<close>. Requests of many users interleave as steps of \<open>qstep\<close>.
\<close>

section \<open>The ledger and its procedures\<close>

datatype ledger_status = LReserved | LConsumed | LReleased

record ledger_row =
  l_id :: string
  l_user :: string
  l_analysis :: "string option"
  l_date :: int
  l_units_reserved :: int
  l_units_consumed :: int
  l_status :: ledger_status
  l_pool :: string
  l_tokens :: "int option \<times> int option \<times> int option"

record profile =
  pf_active :: bool
  pf_daily_quota :: int
  pf_rsi_daily_quota :: int

text \<open>A row of the table analyses (the columns the routes read or write), newest last.\<close>

record analysis_row =
  ar_id :: string
  ar_user :: string
  ar_market :: string
  ar_symbol :: string
  ar_interval :: string
  ar_type :: string
  ar_row_status :: string
  ar_technical :: "string option"
  ar_summary :: "string option"
  ar_error :: "string option"
  ar_idem :: "string option"

record quota_db =
  db_profiles :: "string \<Rightarrow> profile option"
  db_analyses :: "analysis_row list"
  db_ledger :: "ledger_row list"

text \<open>
  The procedures raise with a code: \<open>P0001\<close> for \<open>RAISE EXCEPTION\<close>, class 23 for a constraint
  (the pool's CHECK; the foreign key to analyses was dropped by \<open>20260811_001\<close>).
\<close>

definition counted_units :: "ledger_row \<Rightarrow> int" where
  "counted_units r = (case l_status r of LReserved \<Rightarrow> l_units_reserved r
     | LConsumed \<Rightarrow> l_units_consumed r | LReleased \<Rightarrow> 0)"

definition used_today :: "int \<Rightarrow> string \<Rightarrow> string \<Rightarrow> ledger_row list \<Rightarrow> int" where
  "used_today day u pool rows =
     sum_list (map counted_units (filter (\<lambda>r. l_user r = u \<and> l_date r = day \<and> l_pool r = pool) rows))"

definition active_quota :: "quota_db \<Rightarrow> string \<Rightarrow> int option" where
  "active_quota db u = (case db_profiles db u of None \<Rightarrow> None
     | Some pf \<Rightarrow> if pf_active pf then Some (pf_daily_quota pf) else None)"

definition reserved_row :: "string \<Rightarrow> int \<Rightarrow> string \<Rightarrow> string option \<Rightarrow> int \<Rightarrow> string \<Rightarrow> ledger_row" where
  "reserved_row i day u a units pool =
     \<lparr>l_id = i, l_user = u, l_analysis = a, l_date = day, l_units_reserved = units, l_units_consumed = 0,
      l_status = LReserved, l_pool = pool, l_tokens = (None, None, None)\<rparr>"

definition reserve_quota ::
    "string \<Rightarrow> int \<Rightarrow> string \<Rightarrow> string option \<Rightarrow> int \<Rightarrow> string \<Rightarrow> quota_db \<Rightarrow> (string + bool \<times> int) \<times> quota_db" where
  "reserve_quota i day u a units pool db =
     (if units \<le> 0 then (Inl ''P0001'', db)
      else case active_quota db u of
        None \<Rightarrow> (Inr (False, 0), db)
      | Some q \<Rightarrow>
          (let used = used_today day u pool (db_ledger db) in
           if q < used + units then (Inr (False, q - used), db)
           else if pool \<notin> {''default'', ''rsi_backtest''} then (Inl ''23514'', db)
           else (Inr (True, q - used - units),
                 db\<lparr>db_ledger := db_ledger db @ [reserved_row i day u a units pool]\<rparr>)))"

definition coalesce :: "'a option \<Rightarrow> 'a option \<Rightarrow> 'a option" where
  "coalesce a b = (case a of None \<Rightarrow> b | Some x \<Rightarrow> Some x)"

definition consume_row :: "int option \<times> int option \<times> int option \<Rightarrow> ledger_row \<Rightarrow> ledger_row" where
  "consume_row t r = (case (t, l_tokens r) of ((a, b, c), (x, y, z)) \<Rightarrow>
     r\<lparr>l_status := LConsumed, l_units_consumed := l_units_reserved r,
       l_tokens := (coalesce a x, coalesce b y, coalesce c z)\<rparr>)"

definition release_row :: "ledger_row \<Rightarrow> ledger_row" where
  "release_row r = r\<lparr>l_status := LReleased, l_units_consumed := 0\<rparr>"

definition on_row :: "string \<Rightarrow> (ledger_row \<Rightarrow> ledger_row) \<Rightarrow> ledger_row list \<Rightarrow> ledger_row list" where
  "on_row i f rows = map (\<lambda>r. if l_id r = i then f r else r) rows"

definition consume_quota :: "string \<Rightarrow> int option \<times> int option \<times> int option \<Rightarrow> quota_db \<Rightarrow> quota_db" where
  "consume_quota i t db = db\<lparr>db_ledger := on_row i (consume_row t) (db_ledger db)\<rparr>"

definition release_quota :: "string \<Rightarrow> quota_db \<Rightarrow> quota_db" where
  "release_quota i db = db\<lparr>db_ledger := on_row i release_row (db_ledger db)\<rparr>"

section \<open>The callers\<close>

text \<open>
  A call succeeds, never reaches the database, runs but loses its reply (both raise without a
  code), or is aborted by PostgreSQL with a code.
\<close>

datatype call_fault = CallOk | CallDown | CallLost | CallAborted string

definition rpc_call :: "call_fault \<Rightarrow> (quota_db \<Rightarrow> (string + 'a) \<times> quota_db) \<Rightarrow> quota_db \<Rightarrow> (string + 'a) \<times> quota_db" where
  "rpc_call f p db = (case f of CallOk \<Rightarrow> p db | CallDown \<Rightarrow> (Inl '''', db)
     | CallLost \<Rightarrow> (Inl '''', snd (p db)) | CallAborted c \<Rightarrow> (Inl c, db))"

definition retry_code :: "string \<Rightarrow> bool" where
  "retry_code c = (2 \<le> length c \<and> take 2 c \<in> {''23'', ''40''})"

definition reserve_quota_rpc ::
    "call_fault \<Rightarrow> call_fault \<Rightarrow> string \<Rightarrow> int \<Rightarrow> string \<Rightarrow> string option \<Rightarrow> int \<Rightarrow> string \<Rightarrow> quota_db
      \<Rightarrow> (string + bool \<times> int) \<times> quota_db" where
  "reserve_quota_rpc f1 f2 i day u a units pool db =
     (case rpc_call f1 (reserve_quota i day u a units pool) db of
        (Inr x, db1) \<Rightarrow> (Inr x, db1)
      | (Inl c, db1) \<Rightarrow> if retry_code c then rpc_call f2 (reserve_quota i day u a units pool) db1 else (Inl c, db1))"

text \<open>The newest row of the user and pool that is still reserved.\<close>

definition latest_reserved :: "string \<Rightarrow> string \<Rightarrow> ledger_row list \<Rightarrow> string option" where
  "latest_reserved u pool rows =
     (case filter (\<lambda>r. l_user r = u \<and> l_status r = LReserved \<and> l_pool r = pool) (rev rows) of
        [] \<Rightarrow> None | r # _ \<Rightarrow> Some (l_id r))"

definition reserve_user_quota ::
    "call_fault \<Rightarrow> call_fault \<Rightarrow> bool \<Rightarrow> string \<Rightarrow> int \<Rightarrow> string \<Rightarrow> string option \<Rightarrow> int \<Rightarrow> string \<Rightarrow> quota_db
      \<Rightarrow> (bool \<times> int \<times> string option) \<times> quota_db" where
  "reserve_user_quota f1 f2 lookup_ok i day u a units pool db =
     (case reserve_quota_rpc f1 f2 i day u a units pool db of
        (Inl _, db1) \<Rightarrow> ((False, 0, None), db1)
      | (Inr (reserved, remaining), db1) \<Rightarrow>
          if lookup_ok then ((reserved, remaining, latest_reserved u pool (db_ledger db1)), db1)
          else ((False, 0, None), db1))"

definition consume_ledger_quota ::
    "call_fault \<Rightarrow> string \<Rightarrow> int option \<times> int option \<times> int option \<Rightarrow> quota_db \<Rightarrow> bool \<times> quota_db" where
  "consume_ledger_quota f i t db =
     (case rpc_call f (\<lambda>d. (Inr (), consume_quota i t d)) db of (r, db1) \<Rightarrow> (\<not> isl r, db1))"

definition release_ledger_quota :: "call_fault \<Rightarrow> string \<Rightarrow> quota_db \<Rightarrow> bool \<times> quota_db" where
  "release_ledger_quota f i db =
     (case rpc_call f (\<lambda>d. (Inr (), release_quota i d)) db of (r, db1) \<Rightarrow> (\<not> isl r, db1))"

text \<open>\<open>if ledger_id: \<dots>\<close>: the guarded calls of the routes; an empty id is falsy.\<close>

definition settle :: "(string \<Rightarrow> quota_db \<Rightarrow> bool \<times> quota_db) \<Rightarrow> string option \<Rightarrow> quota_db \<Rightarrow> quota_db" where
  "settle call l db = (case l of None \<Rightarrow> db | Some i \<Rightarrow> if i = [] then db else snd (call i db))"

text \<open>
  The trend-RSI routes. \<open>_reserve_quota\<close> answers \<open>None\<close> in local development, \<open>False\<close> for a
  refusal and the ledger id otherwise; the service either raises or returns.
\<close>

datatype reservation = NoLedger | Refused | Ledger string

definition rsi_reserve ::
    "bool \<Rightarrow> call_fault \<Rightarrow> call_fault \<Rightarrow> bool \<Rightarrow> string \<Rightarrow> int \<Rightarrow> string \<Rightarrow> quota_db \<Rightarrow> reservation \<times> quota_db" where
  "rsi_reserve local f1 f2 lookup_ok i day u db =
     (if local then (NoLedger, db)
      else case reserve_user_quota f1 f2 lookup_ok i day u None 1 ''rsi_backtest'' db of
        ((reserved, _, l), db1) \<Rightarrow>
          (if \<not> reserved then Refused else (case l of None \<Rightarrow> NoLedger | Some x \<Rightarrow> Ledger x), db1))"

datatype 'a rsi_reply = QuotaExceeded | ServiceRaised | RsiOk 'a

definition rsi_route ::
    "bool \<Rightarrow> call_fault \<Rightarrow> call_fault \<Rightarrow> bool \<Rightarrow> call_fault \<Rightarrow> string \<Rightarrow> int \<Rightarrow> string \<Rightarrow> 'a option \<Rightarrow> quota_db
      \<Rightarrow> 'a rsi_reply \<times> quota_db" where
  "rsi_route local f1 f2 lookup_ok f3 i day u service db =
     (case rsi_reserve local f1 f2 lookup_ok i day u db of
        (Refused, db1) \<Rightarrow> (QuotaExceeded, db1)
      | (rv, db1) \<Rightarrow>
          (let l = (case rv of Ledger x \<Rightarrow> Some x | _ \<Rightarrow> None) in
           case service of
             None \<Rightarrow> (ServiceRaised, settle (release_ledger_quota f3) l db1)
           | Some x \<Rightarrow> (RsiOk x, settle (\<lambda>j. consume_ledger_quota f3 j (None, None, None)) l db1)))"

text \<open>
  \<open>invoke_tool\<close>: the allowlist comes before the reservation; an unknown tool, an output that is
  not completed, or an exception of the registry end the call (the exception without a release).
\<close>

datatype tool_reply = Forbidden | ToolQuotaExceeded | ToolNotFound | ToolInvalid | ToolFailed | ToolRaised | ToolOk

definition DIRECT_TOOL_ALLOWLIST :: "string list" where
  "DIRECT_TOOL_ALLOWLIST = [''explain_market'', ''position_check'']"

definition invoke_tool ::
    "bool \<Rightarrow> call_fault \<Rightarrow> call_fault \<Rightarrow> bool \<Rightarrow> call_fault \<Rightarrow> string \<Rightarrow> int \<Rightarrow> string \<Rightarrow> string \<Rightarrow> bool
      \<Rightarrow> string option \<Rightarrow> quota_db \<Rightarrow> tool_reply \<times> quota_db" where
  "invoke_tool local f1 f2 lookup_ok f3 i day u tool registered output db =
     (if tool \<notin> set DIRECT_TOOL_ALLOWLIST then (Forbidden, db)
      else
        (let ((reserved, l), db1) =
           (if local then ((True, None), db)
            else case reserve_user_quota f1 f2 lookup_ok i day u None 1 ''default'' db of
              ((rv, _, l), d) \<Rightarrow> ((rv, l), d))
         in if \<not> reserved then (ToolQuotaExceeded, db1)
            else if \<not> registered then (ToolNotFound, settle (release_ledger_quota f3) l db1)
            else case output of
              None \<Rightarrow> (ToolRaised, db1)
            | Some st \<Rightarrow>
                if st \<noteq> ''completed'' then
                  (if st = ''invalid_input'' then ToolInvalid else ToolFailed, settle (release_ledger_quota f3) l db1)
                else (ToolOk, settle (\<lambda>j. consume_ledger_quota f3 j (None, None, None)) l db1)))"

section \<open>Lemmas of the ledger\<close>

lemma used_today_Nil [simp]: "used_today day u pool [] = 0"
  by (simp add: used_today_def)

lemma used_today_append: "used_today day u pool (xs @ ys) = used_today day u pool xs + used_today day u pool ys"
  by (simp add: used_today_def)

lemma used_today_reserved_row:
  "used_today day' u' pool' [reserved_row i day u a units pool] = (if day' = day \<and> u' = u \<and> pool' = pool then units else 0)"
  by (simp add: used_today_def reserved_row_def counted_units_def)

lemma row_ops_keep [simp]:
  "l_id (consume_row t r) = l_id r" "l_user (consume_row t r) = l_user r" "l_date (consume_row t r) = l_date r"
  "l_pool (consume_row t r) = l_pool r" "l_units_reserved (consume_row t r) = l_units_reserved r"
  "l_id (release_row r) = l_id r" "l_user (release_row r) = l_user r" "l_date (release_row r) = l_date r"
  "l_pool (release_row r) = l_pool r" "l_units_reserved (release_row r) = l_units_reserved r"
  by (simp_all add: consume_row_def release_row_def split: prod.splits)

lemma row_ops_status [simp]:
  "l_status (consume_row t r) = LConsumed" "l_units_consumed (consume_row t r) = l_units_reserved r"
  "l_status (release_row r) = LReleased" "l_units_consumed (release_row r) = 0"
  by (simp_all add: consume_row_def release_row_def split: prod.splits)

lemma ids_on_row [simp]: "(\<And>r. l_id (f r) = l_id r) \<Longrightarrow> map l_id (on_row i f rows) = map l_id rows"
  by (simp add: on_row_def o_def if_distrib cong: if_cong)

lemma used_today_on_row:
  assumes "\<And>r. r \<in> set rows \<Longrightarrow> l_id r = i \<Longrightarrow>
    l_user (f r) = l_user r \<and> l_date (f r) = l_date r \<and> l_pool (f r) = l_pool r \<and> counted_units (f r) \<le> counted_units r"
  shows "used_today day u pool (on_row i f rows) \<le> used_today day u pool rows"
  using assms
proof (induction rows)
  case (Cons r rows)
  have "used_today day u pool (on_row i f rows) \<le> used_today day u pool rows"
    using Cons by auto
  with Cons.prems [of r] show ?case
    by (auto simp: on_row_def used_today_def)
qed (simp add: on_row_def)

text \<open>
  A reservation is admitted exactly when the user is active and the units fit into what is left of
  the day in that pool; then it inserts one row, and otherwise it changes nothing.
\<close>

lemma reserve_quota_admits:
  assumes "reserve_quota i day u a units pool db = (Inr (True, n), db')"
  shows "\<exists>q. active_quota db u = Some q \<and> 0 < units \<and> n = q - used_today day u pool (db_ledger db) - units \<and> 0 \<le> n \<and>
     db' = db\<lparr>db_ledger := db_ledger db @ [reserved_row i day u a units pool]\<rparr>"
  using assms by (auto simp: reserve_quota_def Let_def split: if_splits option.splits)

lemma reserve_quota_refuses:
  assumes "reserve_quota i day u a units pool db = (r, db')" "r \<notin> {Inr (True, n) | n. True}"
  shows "db' = db"
  using assms by (auto simp: reserve_quota_def Let_def split: if_splits option.splits)

lemma reserve_quota_decision:
  assumes "active_quota db u = Some q" "0 < units" "pool \<in> {''default'', ''rsi_backtest''}"
  shows "(\<exists>n. fst (reserve_quota i day u a units pool db) = Inr (True, n)) \<longleftrightarrow>
     used_today day u pool (db_ledger db) + units \<le> q"
  using assms by (auto simp: reserve_quota_def Let_def)

text \<open>The pool of the trend-RSI routes is measured against the daily quota of the analyses.\<close>

lemma rsi_quota_never_read:
  "reserve_quota i day u a units pool (db\<lparr>db_profiles := (db_profiles db)(u \<mapsto> pf\<lparr>pf_rsi_daily_quota := k\<rparr>)\<rparr>) =
   (let db0 = db\<lparr>db_profiles := (db_profiles db)(u \<mapsto> pf)\<rparr> in
    case reserve_quota i day u a units pool db0 of (r, db1) \<Rightarrow>
      (r, db1\<lparr>db_profiles := (db_profiles db)(u \<mapsto> pf\<lparr>pf_rsi_daily_quota := k\<rparr>)\<rparr>))"
  by (auto simp: reserve_quota_def active_quota_def Let_def split: option.splits)

section \<open>Interleaved requests\<close>

text \<open>
  A request reserves, looks its ledger id up, works, and settles: three calls to the database,
  each atomic, with those of other requests in between. A request is known by the id of the row
  its reservation inserted; what the code holds is the id its lookup returned.
\<close>

datatype qphase = Admitted | Holding "string option" | Finished bool

record qreq =
  rq_own :: string
  rq_user :: string
  rq_pool :: string
  rq_phase :: qphase

record qsys =
  q_db :: quota_db
  q_reqs :: "qreq list"

datatype qact = QReserve string int string string | QLookup string | QSettle string bool

definition set_phase :: "string \<Rightarrow> qphase \<Rightarrow> qreq list \<Rightarrow> qreq list" where
  "set_phase i ph = map (\<lambda>q. if rq_own q = i then q\<lparr>rq_phase := ph\<rparr> else q)"

definition find_req :: "string \<Rightarrow> qreq list \<Rightarrow> qreq option" where
  "find_req i = find (\<lambda>q. rq_own q = i)"

fun qexec :: "qact \<Rightarrow> qsys \<Rightarrow> qsys" where
  "qexec (QReserve i day u pool) s =
     (case reserve_quota i day u None 1 pool (q_db s) of
        (Inr (True, n), db) \<Rightarrow> s\<lparr>q_db := db,
           q_reqs := q_reqs s @ [\<lparr>rq_own = i, rq_user = u, rq_pool = pool, rq_phase = Admitted\<rparr>]\<rparr>
      | (_, db) \<Rightarrow> s\<lparr>q_db := db\<rparr>)"
| "qexec (QLookup i) s =
     (case find_req i (q_reqs s) of None \<Rightarrow> s
      | Some q \<Rightarrow> s\<lparr>q_reqs := set_phase i (Holding (latest_reserved (rq_user q) (rq_pool q) (db_ledger (q_db s)))) (q_reqs s)\<rparr>)"
| "qexec (QSettle i good) s =
     (case find_req i (q_reqs s) of None \<Rightarrow> s
      | Some q \<Rightarrow> (case rq_phase q of
           Holding l \<Rightarrow> s\<lparr>q_db := (if good then settle (\<lambda>j. consume_ledger_quota CallOk j (None, None, None)) l (q_db s)
                                  else settle (release_ledger_quota CallOk) l (q_db s)),
                        q_reqs := set_phase i (Finished good) (q_reqs s)\<rparr>
         | _ \<Rightarrow> s))"

fun running :: "qphase \<Rightarrow> bool" where
  "running (Finished _) = False"
| "running _ = True"

definition busy :: "string \<Rightarrow> string \<Rightarrow> qreq \<Rightarrow> bool" where
  "busy u pool q = (rq_user q = u \<and> rq_pool q = pool \<and> running (rq_phase q))"

text \<open>With \<open>serial\<close>, a user has at most one request of a pool under way.\<close>

inductive qstep :: "bool \<Rightarrow> qsys \<Rightarrow> qact \<Rightarrow> qsys \<Rightarrow> bool" for serial where
  reserve: "i \<noteq> [] \<Longrightarrow> i \<notin> l_id ` set (db_ledger (q_db s)) \<Longrightarrow> (serial \<longrightarrow> filter (busy u pool) (q_reqs s) = []) \<Longrightarrow>
     qstep serial s (QReserve i day u pool) (qexec (QReserve i day u pool) s)"
| lookup: "find_req i (q_reqs s) = Some q \<Longrightarrow> rq_phase q = Admitted \<Longrightarrow> qstep serial s (QLookup i) (qexec (QLookup i) s)"
| settled: "find_req i (q_reqs s) = Some q \<Longrightarrow> rq_phase q = Holding l \<Longrightarrow>
     qstep serial s (QSettle i good) (qexec (QSettle i good) s)"

inductive qreach :: "bool \<Rightarrow> qsys \<Rightarrow> qsys \<Rightarrow> bool" for serial s0 where
  start: "qreach serial s0 s0"
| more: "qreach serial s0 s \<Longrightarrow> qstep serial s a s' \<Longrightarrow> qreach serial s0 s'"

text \<open>The row of a request mirrors its phase.\<close>

fun status_of :: "qphase \<Rightarrow> ledger_status" where
  "status_of (Finished True) = LConsumed"
| "status_of (Finished False) = LReleased"
| "status_of _ = LReserved"

definition row_of :: "ledger_row \<Rightarrow> qreq \<Rightarrow> bool" where
  "row_of r q = (l_id r = rq_own q \<and> l_user r = rq_user q \<and> l_pool r = rq_pool q \<and> l_units_reserved r = 1 \<and>
     rq_own q \<noteq> [] \<and> l_status r = status_of (rq_phase q) \<and>
     l_units_consumed r = (if rq_phase q = Finished True then 1 else 0) \<and>
     (\<forall>l. rq_phase q = Holding l \<longrightarrow> l = Some (rq_own q)))"

definition quota_respected :: "qsys \<Rightarrow> bool" where
  "quota_respected s = (\<forall>day u pool k. active_quota (q_db s) u = Some k \<longrightarrow>
     used_today day u pool (db_ledger (q_db s)) \<le> k)"

definition quota_inv :: "qsys \<Rightarrow> bool" where
  "quota_inv s = (list_all2 row_of (db_ledger (q_db s)) (q_reqs s) \<and> distinct (map rq_own (q_reqs s)) \<and>
     (\<forall>u pool. length (filter (busy u pool) (q_reqs s)) \<le> 1) \<and> quota_respected s)"

lemma rows_ids: "list_all2 row_of rows reqs \<Longrightarrow> map l_id rows = map rq_own reqs"
  by (induction rule: list_all2_induct) (auto simp: row_of_def)

lemma running_status: "status_of ph = LReserved \<longleftrightarrow> running ph"
  by (cases ph rule: running.cases) (auto split: bool.splits, metis status_of.simps(1,2) ledger_status.distinct(1,3))

lemma rows_busy:
  "list_all2 row_of rows reqs \<Longrightarrow>
     list_all2 row_of (filter (\<lambda>r. l_user r = u \<and> l_status r = LReserved \<and> l_pool r = pool) rows) (filter (busy u pool) reqs)"
  by (induction rule: list_all2_induct) (auto simp: row_of_def busy_def running_status)

lemma find_reqD: "find_req i reqs = Some q \<Longrightarrow> q \<in> set reqs \<and> rq_own q = i"
  by (auto simp: find_req_def find_Some_iff)

lemma single_filter: "length (filter P xs) \<le> 1 \<Longrightarrow> x \<in> set xs \<Longrightarrow> P x \<Longrightarrow> filter P xs = [x]"
proof -
  assume "length (filter P xs) \<le> 1" "x \<in> set xs" "P x"
  then have "x \<in> set (filter P xs)" "length (filter P xs) \<le> 1" by auto
  then show "filter P xs = [x]" by (cases "filter P xs") auto
qed

lemma lookup_finds_own:
  assumes inv: "quota_inv s" and q: "find_req i (q_reqs s) = Some q" "running (rq_phase q)"
  shows "latest_reserved (rq_user q) (rq_pool q) (db_ledger (q_db s)) = Some i"
proof -
  let ?R = "filter (\<lambda>r. l_user r = rq_user q \<and> l_status r = LReserved \<and> l_pool r = rq_pool q) (db_ledger (q_db s))"
  have "q \<in> set (q_reqs s)" "rq_own q = i" "busy (rq_user q) (rq_pool q) q"
    using find_reqD [OF q(1)] q(2) by (auto simp: busy_def)
  moreover have "length (filter (busy (rq_user q) (rq_pool q)) (q_reqs s)) \<le> 1"
    using inv unfolding quota_inv_def by simp
  ultimately have "filter (busy (rq_user q) (rq_pool q)) (q_reqs s) = [q]"
    by (intro single_filter)
  then have "list_all2 row_of ?R [q]"
    using rows_busy [of "db_ledger (q_db s)" "q_reqs s" "rq_user q" "rq_pool q"] inv unfolding quota_inv_def by simp
  then obtain r where "?R = [r]" "row_of r q" by (auto simp: list_all2_Cons2)
  then show ?thesis
    using \<open>rq_own q = i\<close> by (simp add: latest_reserved_def rev_filter [symmetric] row_of_def)
qed

lemma set_phase_own [simp]: "map rq_own (set_phase i ph reqs) = map rq_own reqs"
  by (simp add: set_phase_def o_def if_distrib cong: if_cong)

lemma set_phase_user: "rq_user (if b then q\<lparr>rq_phase := ph\<rparr> else q) = rq_user q"
  "rq_pool (if b then q\<lparr>rq_phase := ph\<rparr> else q) = rq_pool q"
  by auto

lemma busy_set_phase:
  assumes "\<And>q. q \<in> set reqs \<Longrightarrow> rq_own q = i \<Longrightarrow> running (rq_phase q)"
  shows "length (filter (busy u pool) (set_phase i ph reqs)) \<le> length (filter (busy u pool) reqs)"
  using assms by (induction reqs) (auto simp: set_phase_def busy_def)

lemma own_unique:
  assumes "distinct (map rq_own reqs)" "find_req i reqs = Some q" "q' \<in> set reqs" "rq_own q' = i"
  shows "q' = q"
  using assms find_reqD [OF assms(2)] by (metis distinct_map inj_on_eq_iff)

lemma rows_on_row:
  assumes "list_all2 row_of rows reqs"
    and "\<And>r q. q \<in> set reqs \<Longrightarrow> rq_own q = i \<Longrightarrow> row_of r q \<Longrightarrow> row_of (f r) (q\<lparr>rq_phase := ph\<rparr>)"
  shows "list_all2 row_of (on_row i f rows) (set_phase i ph reqs)"
  using assms
proof (induction rule: list_all2_induct)
  case (Cons r rows q reqs)
  have "l_id r = rq_own q" using Cons.hyps(1) by (simp add: row_of_def)
  with Cons show ?case by (auto simp: on_row_def set_phase_def)
qed (simp add: on_row_def set_phase_def)

lemma on_row_id: "on_row i (\<lambda>r. r) rows = rows"
  by (simp add: on_row_def)

lemma row_in_ledger:
  assumes "list_all2 row_of rows reqs" "r \<in> set rows" "l_id r = i"
  shows "\<exists>q \<in> set reqs. rq_own q = i \<and> row_of r q"
proof -
  obtain n where n: "n < length rows" "r = rows ! n" using assms(2) by (auto simp: in_set_conv_nth)
  then have "row_of r (reqs ! n)" "reqs ! n \<in> set reqs"
    using assms(1) by (auto simp: list_all2_conv_all_nth)
  then show ?thesis using assms(3) by (auto simp: row_of_def)
qed

lemma reserve_preserves:
  assumes inv: "quota_inv s" and fresh: "i \<noteq> []" "i \<notin> l_id ` set (db_ledger (q_db s))"
    and free: "filter (busy u pool) (q_reqs s) = []"
  shows "quota_inv (qexec (QReserve i day u pool) s)"
proof (cases "\<exists>n. fst (reserve_quota i day u None 1 pool (q_db s)) = Inr (True, n)")
  case False
  then obtain r db where r: "reserve_quota i day u None 1 pool (q_db s) = (r, db)" and "r \<notin> {Inr (True, n) | n. True}"
    by (cases "reserve_quota i day u None 1 pool (q_db s)") auto
  then have "db = q_db s" using reserve_quota_refuses by blast
  with r False have "qexec (QReserve i day u pool) s = s"
    by (auto split: sum.splits prod.splits bool.splits)
  then show ?thesis using inv by simp
next
  case True
  then obtain n db where r: "reserve_quota i day u None 1 pool (q_db s) = (Inr (True, n), db)"
    by (metis prod.collapse)
  from reserve_quota_admits [OF this] obtain k where k: "active_quota (q_db s) u = Some k"
    "0 \<le> k - used_today day u pool (db_ledger (q_db s)) - 1"
    and db: "db = (q_db s)\<lparr>db_ledger := db_ledger (q_db s) @ [reserved_row i day u None 1 pool]\<rparr>" by auto
  let ?q = "\<lparr>rq_own = i, rq_user = u, rq_pool = pool, rq_phase = Admitted\<rparr>"
  have ids: "i \<notin> rq_own ` set (q_reqs s)"
    using rows_ids inv fresh unfolding quota_inv_def by (metis image_set)
  have "length (filter (busy u' pool') (q_reqs s @ [?q])) \<le> 1" for u' pool'
    using inv free by (cases "busy u' pool' ?q") (auto simp: quota_inv_def busy_def)
  moreover have "row_of (reserved_row i day u None 1 pool) ?q"
    using fresh by (simp add: row_of_def reserved_row_def)
  moreover have "quota_respected (s\<lparr>q_db := db, q_reqs := q_reqs s @ [?q]\<rparr>)"
    using inv k by (auto simp: quota_respected_def quota_inv_def db active_quota_def used_today_append used_today_reserved_row)
  ultimately show ?thesis
    using inv ids r by (simp add: quota_inv_def db list_all2_appendI)
qed

lemma lookup_preserves:
  assumes inv: "quota_inv s" and q: "find_req i (q_reqs s) = Some q" "rq_phase q = Admitted"
  shows "quota_inv (qexec (QLookup i) s)"
proof -
  have own: "latest_reserved (rq_user q) (rq_pool q) (db_ledger (q_db s)) = Some i"
    using lookup_finds_own [OF inv q(1)] q(2) by simp
  have uni: "q' = q" if "q' \<in> set (q_reqs s)" "rq_own q' = i" for q'
    using own_unique q(1) inv that unfolding quota_inv_def by blast
  have "list_all2 row_of (on_row i (\<lambda>r. r) (db_ledger (q_db s))) (set_phase i (Holding (Some i)) (q_reqs s))"
    using inv uni q find_reqD [OF q(1)] by (intro rows_on_row) (auto simp: quota_inv_def row_of_def)
  moreover have "length (filter (busy u pool) (set_phase i (Holding (Some i)) (q_reqs s))) \<le> 1" for u pool
    using busy_set_phase [of "q_reqs s" i u pool] uni q inv unfolding quota_inv_def
    by (metis (no_types, lifting) le_trans running.simps(2))
  ultimately show ?thesis
    using inv q(1) own by (simp add: quota_inv_def quota_respected_def on_row_id)
qed

lemma settle_call_ok:
  "i \<noteq> [] \<Longrightarrow> settle (\<lambda>j. consume_ledger_quota CallOk j t) (Some i) db = consume_quota i t db"
  "i \<noteq> [] \<Longrightarrow> settle (release_ledger_quota CallOk) (Some i) db = release_quota i db"
  by (simp_all add: settle_def consume_ledger_quota_def release_ledger_quota_def rpc_call_def)

lemma settle_preserves:
  assumes inv: "quota_inv s" and q: "find_req i (q_reqs s) = Some q" "rq_phase q = Holding l"
  shows "quota_inv (qexec (QSettle i good) s)"
proof -
  define f where "f = (if good then consume_row (None, None, None) else release_row)"
  have uni: "q' = q" if "q' \<in> set (q_reqs s)" "rq_own q' = i" for q'
    using own_unique q(1) inv that unfolding quota_inv_def by blast
  obtain r0 where "row_of r0 q"
    using inv find_reqD [OF q(1)] unfolding quota_inv_def by (metis in_set_conv_nth list_all2_conv_all_nth)
  then have l: "l = Some i" and i: "i \<noteq> []"
    using q find_reqD [OF q(1)] by (auto simp: row_of_def)
  let ?L = "on_row i f (db_ledger (q_db s))"
  have ex: "qexec (QSettle i good) s =
      s\<lparr>q_db := (q_db s)\<lparr>db_ledger := ?L\<rparr>, q_reqs := set_phase i (Finished good) (q_reqs s)\<rparr>"
    using q l settle_call_ok [OF i] by (simp add: f_def consume_quota_def release_quota_def)
  have "list_all2 row_of ?L (set_phase i (Finished good) (q_reqs s))"
    using inv uni q by (intro rows_on_row) (auto simp: quota_inv_def row_of_def f_def)
  moreover have "length (filter (busy u pool) (set_phase i (Finished good) (q_reqs s))) \<le> 1" for u pool
    using busy_set_phase [of "q_reqs s" i u pool "Finished good"] uni q inv unfolding quota_inv_def
    by (metis (no_types, lifting) le_trans running.simps(3))
  moreover have "used_today day u pool ?L \<le> used_today day u pool (db_ledger (q_db s))" for day u pool
  proof (rule used_today_on_row)
    fix r assume "r \<in> set (db_ledger (q_db s))" "l_id r = i"
    then obtain q' where "q' \<in> set (q_reqs s)" "rq_own q' = i" "row_of r q'"
      using row_in_ledger inv unfolding quota_inv_def by metis
    then have "row_of r q" using uni by blast
    then show "l_user (f r) = l_user r \<and> l_date (f r) = l_date r \<and> l_pool (f r) = l_pool r \<and> counted_units (f r) \<le> counted_units r"
      using q by (auto simp: f_def counted_units_def row_of_def)
  qed
  ultimately show ?thesis
    using inv unfolding ex quota_inv_def quota_respected_def
    by (auto simp: active_quota_def) (meson order_trans)
qed

lemma qreach_inv: "qreach True s0 s \<Longrightarrow> quota_inv s0 \<Longrightarrow> quota_inv s"
proof (induction rule: qreach.induct)
  case (more s a s')
  from more.hyps(2) more.IH [OF more.prems] show ?case
    by (cases rule: qstep.cases) (blast intro: reserve_preserves lookup_preserves settle_preserves)+
qed

text \<open>Runs of a list of actions, for the concrete executions below.\<close>

fun enabled :: "bool \<Rightarrow> qact \<Rightarrow> qsys \<Rightarrow> bool" where
  "enabled serial (QReserve i day u pool) s =
     (i \<noteq> [] \<and> i \<notin> l_id ` set (db_ledger (q_db s)) \<and> (serial \<longrightarrow> filter (busy u pool) (q_reqs s) = []))"
| "enabled serial (QLookup i) s = (case find_req i (q_reqs s) of None \<Rightarrow> False | Some q \<Rightarrow> rq_phase q = Admitted)"
| "enabled serial (QSettle i good) s =
     (case find_req i (q_reqs s) of None \<Rightarrow> False | Some q \<Rightarrow> (case rq_phase q of Holding l \<Rightarrow> True | _ \<Rightarrow> False))"

fun all_enabled :: "bool \<Rightarrow> qact list \<Rightarrow> qsys \<Rightarrow> bool" where
  "all_enabled serial [] s = True"
| "all_enabled serial (a # acts) s = (enabled serial a s \<and> all_enabled serial acts (qexec a s))"

lemma enabled_step: "enabled serial a s \<Longrightarrow> qstep serial s a (qexec a s)"
  by (cases "(serial, a, s)" rule: enabled.cases)
    (auto intro: qstep.intros split: option.splits qphase.splits simp del: qexec.simps)

lemma qreach_trans_run: "qreach serial s0 s \<Longrightarrow> all_enabled serial acts s \<Longrightarrow> qreach serial s0 (fold qexec acts s)"
proof (induction acts arbitrary: s)
  case (Cons a acts)
  then have "qreach serial s0 (qexec a s)" using enabled_step qreach.more by (metis all_enabled.simps(2))
  with Cons show ?case by simp
qed simp

definition demo_sys :: "int \<Rightarrow> qsys" where
  "demo_sys k = \<lparr>q_db = \<lparr>db_profiles = (\<lambda>u. if u = ''ann'' then Some \<lparr>pf_active = True, pf_daily_quota = k, pf_rsi_daily_quota = 50\<rparr> else None),
       db_analyses = [], db_ledger = []\<rparr>, q_reqs = []\<rparr>"


definition demo_serial :: "qact list" where
  "demo_serial = [QReserve ''L1'' 1 ''ann'' ''default'', QLookup ''L1'', QSettle ''L1'' True,
     QReserve ''L2'' 1 ''ann'' ''default'', QLookup ''L2'', QSettle ''L2'' False, QReserve ''L3'' 1 ''ann'' ''default'']"

lemma demo_serial_enabled: "all_enabled True demo_serial (demo_sys 2)"
  by code_simp

lemma demo_sys_start: "db_ledger (q_db (demo_sys k)) = []" "q_reqs (demo_sys k) = []"
  "active_quota (q_db (demo_sys k)) u = Some n \<Longrightarrow> n = k"
  by (auto simp: demo_sys_def active_quota_def split: if_splits)


definition demo_race :: "qact list" where
  "demo_race = [QReserve ''L1'' 1 ''ann'' ''default'', QReserve ''L2'' 1 ''ann'' ''default'', QLookup ''L1'',
     QLookup ''L2'', QSettle ''L1'' False, QReserve ''L3'' 1 ''ann'' ''default'', QSettle ''L2'' True]"

lemma demo_race_enabled: "all_enabled False demo_race (demo_sys 2)"
  by code_simp

lemma demo_race_end:
  "used_today 1 ''ann'' ''default'' (db_ledger (q_db (fold qexec demo_race (demo_sys 2)))) = 3"
  "map (\<lambda>q. (rq_own q, rq_phase q)) (q_reqs (fold qexec demo_race (demo_sys 2))) =
     [(''L1'', Finished False), (''L2'', Finished True), (''L3'', Admitted)]"
  "map (\<lambda>r. (l_id r, l_status r)) (db_ledger (q_db (fold qexec demo_race (demo_sys 2)))) =
     [(''L1'', LReserved), (''L2'', LConsumed), (''L3'', LReserved)]"
  "active_quota (q_db (fold qexec demo_race (demo_sys 2))) ''ann'' = Some 2"
  by code_simp+

text \<open>
  Two overlapping requests of one user break the ledger. The lookup takes the newest reserved
  row, so both may hold the same one: with a quota of two, one request's failure releases the row
  the other then consumes, three units are counted on the day, and the row of a request that
  finished stays reserved.
\<close>

theorem quota_race:
  "\<exists>s. qreach False (demo_sys 2) s \<and> active_quota (q_db s) ''ann'' = Some 2 \<and>
     used_today 1 ''ann'' ''default'' (db_ledger (q_db s)) = 3 \<and>
     map (\<lambda>q. (rq_own q, rq_phase q)) (q_reqs s) =
       [(''L1'', Finished False), (''L2'', Finished True), (''L3'', Admitted)] \<and>
     map (\<lambda>r. (l_id r, l_status r)) (db_ledger (q_db s)) =
       [(''L1'', LReserved), (''L2'', LConsumed), (''L3'', LReserved)]"
proof -
  have r: "qreach False (demo_sys 2) (fold qexec demo_race (demo_sys 2))"
    by (rule qreach_trans_run [OF qreach.start demo_race_enabled])
  show ?thesis using r demo_race_end by (intro exI [of _ "fold qexec demo_race (demo_sys 2)"]) simp
qed

section \<open>One request alone\<close>

text \<open>
  With the network up and no other reserved row of the user, a trend-RSI request adds at most one
  row: none when refused, a released one when the service raised, a consumed one when it returned.
\<close>

definition no_reserved :: "string \<Rightarrow> string \<Rightarrow> ledger_row list \<Rightarrow> bool" where
  "no_reserved u pool rows = (\<forall>r \<in> set rows. \<not> (l_user r = u \<and> l_status r = LReserved \<and> l_pool r = pool))"

lemma latest_reserved_new:
  "latest_reserved u pool (rows @ [reserved_row i day u a units pool]) = Some i"
  by (simp add: latest_reserved_def reserved_row_def)

lemma on_row_new:
  "i \<notin> l_id ` set rows \<Longrightarrow> on_row i f (rows @ [reserved_row i day u a units pool]) = rows @ [f (reserved_row i day u a units pool)]"
  by (induction rows) (auto simp: on_row_def reserved_row_def)

lemma reserve_user_quota_up:
  "reserve_user_quota CallOk f2 True i day u None units pool db =
     (case reserve_quota i day u None units pool db of
        (Inr (True, n), db1) \<Rightarrow> ((True, n, Some i), db1)
      | (Inr (False, n), db1) \<Rightarrow> ((False, n, latest_reserved u pool (db_ledger db)), db1)
      | (Inl c, db1) \<Rightarrow> if retry_code c
          then (case rpc_call f2 (reserve_quota i day u None units pool) db1 of
             (Inl _, db2) \<Rightarrow> ((False, 0, None), db2)
           | (Inr (b, n), db2) \<Rightarrow> ((b, n, latest_reserved u pool (db_ledger db2)), db2))
          else ((False, 0, None), db1))"
proof (cases "reserve_quota i day u None units pool db")
  case (Pair r db1)
  show ?thesis
  proof (cases r)
    case (Inr x)
    then obtain b n where x: "x = (b, n)" by (cases x)
    show ?thesis
    proof (cases b)
      case True
      with Pair Inr x have "db1 = db\<lparr>db_ledger := db_ledger db @ [reserved_row i day u None units pool]\<rparr>"
        using reserve_quota_admits [of i day u None units pool db n db1] by auto
      with Pair Inr x True show ?thesis
        by (simp add: reserve_user_quota_def reserve_quota_rpc_def rpc_call_def latest_reserved_new)
    next
      case False
      with Pair Inr x have "db1 = db" using reserve_quota_refuses [of i day u None units pool db r db1] by auto
      with Pair Inr x False show ?thesis
        by (simp add: reserve_user_quota_def reserve_quota_rpc_def rpc_call_def)
    qed
  qed (auto simp: Pair reserve_user_quota_def reserve_quota_rpc_def rpc_call_def split: call_fault.splits sum.splits prod.splits)
qed

lemma rsi_route_settles:
  assumes "i \<noteq> []" "i \<notin> l_id ` set (db_ledger db)"
    and q: "active_quota db u = Some k"
  shows "rsi_route False CallOk f2 True CallOk i day u service db =
    (if k < used_today day u ''rsi_backtest'' (db_ledger db) + 1 then (QuotaExceeded, db)
     else let row = reserved_row i day u None 1 ''rsi_backtest'' in
       case service of
         None \<Rightarrow> (ServiceRaised, db\<lparr>db_ledger := db_ledger db @ [release_row row]\<rparr>)
       | Some x \<Rightarrow> (RsiOk x, db\<lparr>db_ledger := db_ledger db @ [consume_row (None, None, None) row]\<rparr>))"
proof (cases "k < used_today day u ''rsi_backtest'' (db_ledger db) + 1")
  case True
  then have "reserve_quota i day u None 1 ''rsi_backtest'' db = (Inr (False, k - used_today day u ''rsi_backtest'' (db_ledger db)), db)"
    using q by (simp add: reserve_quota_def Let_def)
  with True show ?thesis by (simp add: rsi_route_def rsi_reserve_def reserve_user_quota_up)
next
  case False
  then have "reserve_quota i day u None 1 ''rsi_backtest'' db =
      (Inr (True, k - used_today day u ''rsi_backtest'' (db_ledger db) - 1),
       db\<lparr>db_ledger := db_ledger db @ [reserved_row i day u None 1 ''rsi_backtest'']\<rparr>)"
    using q by (simp add: reserve_quota_def Let_def)
  with False assms show ?thesis
    by (auto simp: rsi_route_def rsi_reserve_def reserve_user_quota_up settle_call_ok consume_quota_def release_quota_def
        on_row_new Let_def split: option.splits)
qed

text \<open>A reservation whose lookup fails is refused to the caller and stays in the ledger.\<close>

lemma lost_lookup_leaks:
  assumes "reserve_quota i day u None 1 pool db = (Inr (True, n), db')"
  shows "reserve_user_quota CallOk f2 False i day u None 1 pool db =
    ((False, 0, None), db\<lparr>db_ledger := db_ledger db @ [reserved_row i day u None 1 pool]\<rparr>)"
  using reserve_quota_admits [OF assms] assms
  by (auto simp: reserve_user_quota_def reserve_quota_rpc_def rpc_call_def)

text \<open>Only tools of the allowlist touch the ledger when invoked directly.\<close>

lemma invoke_tool_forbidden:
  "tool \<notin> {''explain_market'', ''position_check''} \<Longrightarrow> invoke_tool local f1 f2 ok f3 i day u tool reg out db = (Forbidden, db)"
  by (simp add: invoke_tool_def DIRECT_TOOL_ALLOWLIST_def)

lemma invoke_tool_local_keeps:
  "snd (invoke_tool True f1 f2 ok f3 i day u tool reg out db) = db"
  by (simp add: invoke_tool_def settle_def split: option.splits)

end
