(* ===== verification/AnalyzeRoute.thy ===== *)
theory AnalyzeRoute
  imports Quota
begin

text \<open>
  \<open>POST /api/analyze\<close> (\<open>app/api/routes.py\<close>): the idempotency lookup with its bounded cache, the
  placeholder row, the quota, the run and its settlement, with the table operations of
  \<open>app/infra/supabase_client.py\<close> and the constraints of the table analyses
  (\<open>migrations/20260715_001_initial_schema.sql\<close>). What the analysis engine does is an argument.
\<close>

section \<open>The table analyses\<close>

definition row_checks :: "analysis_row \<Rightarrow> bool" where
  "row_checks r = (ar_market r \<in> {''binance'', ''yahoo''} \<and> ar_interval r \<in> {''15m'', ''1h'', ''4h'', ''1d'', ''1w''} \<and>
     ar_type r \<in> {''forming'', ''formed'', ''divergence''} \<and>
     ar_row_status r \<in> {''created'', ''validating'', ''fetching_market_data'', ''detecting_patterns'', ''interpreting'',
       ''rendering_chart'', ''completed'', ''no_result'', ''failed_upstream'', ''failed_model'', ''failed_chart'',
       ''rejected'', ''stale''})"

definition insert_analysis :: "analysis_row \<Rightarrow> quota_db \<Rightarrow> (string + unit) \<times> quota_db" where
  "insert_analysis r db =
     (if \<not> row_checks r then (Inl ''23514'', db)
      else if db_profiles db (ar_user r) = None then (Inl ''23503'', db)
      else if ar_id r \<in> ar_id ` set (db_analyses db) then (Inl ''23505'', db)
      else if ar_idem r \<noteq> None \<and> (\<exists>x \<in> set (db_analyses db). ar_user x = ar_user r \<and> ar_idem x = ar_idem r)
        then (Inl ''23505'', db)
      else (Inr (), db\<lparr>db_analyses := db_analyses db @ [r]\<rparr>))"

text \<open>
  An update names its columns: one the table does not have aborts the whole statement, and so does
  an explicit null for \<open>analysis_type\<close>, which is NOT NULL. The columns of the table are an argument
  of the operations; \<open>ANALYSES_COLUMNS\<close> are those of the migrations.
\<close>

definition ANALYSES_COLUMNS :: "string list" where
  "ANALYSES_COLUMNS = [''id'', ''user_id'', ''input_mode'', ''market'', ''symbol'', ''interval'', ''analysis_type'',
     ''parameters'', ''status'', ''technical_result'', ''interpretation'', ''chart_path'', ''model_provider'',
     ''model_name'', ''prompt_version'', ''input_tokens'', ''output_tokens'', ''estimated_cost_micros'',
     ''error_code'', ''error_message'', ''duration_ms'', ''created_at'', ''started_at'', ''completed_at'',
     ''idempotency_key'']"

record row_patch =
  rp_status :: string
  rp_type :: "string option option"
  rp_summary :: "string option option"
  rp_error :: "string option"

definition apply_row_patch :: "row_patch \<Rightarrow> analysis_row \<Rightarrow> analysis_row" where
  "apply_row_patch p r = r\<lparr>ar_row_status := rp_status p,
     ar_type := (case rp_type p of Some (Some t) \<Rightarrow> t | _ \<Rightarrow> ar_type r),
     ar_summary := (case rp_summary p of Some s \<Rightarrow> s | None \<Rightarrow> ar_summary r),
     ar_error := (case rp_error p of Some e \<Rightarrow> Some e | None \<Rightarrow> ar_error r)\<rparr>"

definition patch_columns :: "row_patch \<Rightarrow> string list" where
  "patch_columns p = [''status''] @ (if rp_type p = None then [] else [''analysis_type'']) @
     (if rp_summary p = None then [] else [''result_summary'']) @ (if rp_error p = None then [] else [''error_message''])"

definition update_analysis :: "string list \<Rightarrow> string \<Rightarrow> row_patch \<Rightarrow> quota_db \<Rightarrow> (string + unit) \<times> quota_db" where
  "update_analysis cols i p db =
     (if \<not> set (patch_columns p) \<subseteq> set cols then (Inl ''PGRST204'', db)
      else if \<exists>r \<in> set (db_analyses db). ar_id r = i \<and> (rp_type p = Some None \<or> \<not> row_checks (apply_row_patch p r))
      then (Inl ''23502'', db)
      else (Inr (), db\<lparr>db_analyses := map (\<lambda>r. if ar_id r = i then apply_row_patch p r else r) (db_analyses db)\<rparr>))"

definition delete_analysis :: "string \<Rightarrow> quota_db \<Rightarrow> (string + unit) \<times> quota_db" where
  "delete_analysis i db = (Inr (), db\<lparr>db_analyses := filter (\<lambda>r. ar_id r \<noteq> i) (db_analyses db)\<rparr>)"

definition ANALYSIS_TYPE_MAP :: "(string \<times> string) list" where
  "ANALYSIS_TYPE_MAP = [(''auto'', ''forming'')]"

definition MARKET_MAP :: "(string \<times> string) list" where
  "MARKET_MAP = [(''futures'', ''binance'')]"

definition INTERVAL_MAP :: "(string \<times> string) list" where
  "INTERVAL_MAP = [(''1m'', ''15m''), (''5m'', ''15m'')]"

definition normalise_row :: "analysis_row \<Rightarrow> analysis_row" where
  "normalise_row r = r\<lparr>ar_type := get_default ANALYSIS_TYPE_MAP (ar_type r) (ar_type r),
     ar_market := get_default MARKET_MAP (ar_market r) (ar_market r),
     ar_interval := get_default INTERVAL_MAP (ar_interval r) (ar_interval r)\<rparr>"

definition create_analysis_record :: "call_fault \<Rightarrow> analysis_row \<Rightarrow> quota_db \<Rightarrow> string option \<times> quota_db" where
  "create_analysis_record f r db =
     (case rpc_call f (insert_analysis (normalise_row r)) db of
        (Inr _, db1) \<Rightarrow> (Some (ar_id r), db1) | (Inl _, db1) \<Rightarrow> (None, db1))"

definition update_analysis_record :: "string list \<Rightarrow> call_fault \<Rightarrow> string \<Rightarrow> row_patch \<Rightarrow> quota_db \<Rightarrow> bool \<times> quota_db" where
  "update_analysis_record cols f i p db = (case rpc_call f (update_analysis cols i p) db of (r, db1) \<Rightarrow> (\<not> isl r, db1))"

definition delete_analysis_record :: "call_fault \<Rightarrow> string \<Rightarrow> quota_db \<Rightarrow> bool \<times> quota_db" where
  "delete_analysis_record f i db = (case rpc_call f (delete_analysis i) db of (r, db1) \<Rightarrow> (\<not> isl r, db1))"

section \<open>The idempotency lookup\<close>

type_synonym idem_cache = "((string \<times> string) \<times> rat \<times> analysis_row option) list"

definition IDEM_CACHE_TTL_SECONDS :: rat where
  "IDEM_CACHE_TTL_SECONDS = 60"

definition IDEM_CACHE_MAX_ENTRIES :: nat where
  "IDEM_CACHE_MAX_ENTRIES = 1024"

definition lookup_idem_row :: "string \<Rightarrow> string \<Rightarrow> quota_db \<Rightarrow> analysis_row option" where
  "lookup_idem_row u k db = find (\<lambda>r. ar_user r = u \<and> ar_idem r = Some k) (rev (db_analyses db))"

text \<open>\<open>min(d, key=\<dots>)\<close>: the first key in insertion order with the least time.\<close>

definition oldest_key :: "idem_cache \<Rightarrow> string \<times> string" where
  "oldest_key c = fst (hd (filter (\<lambda>e. fst (snd e) = list_min (map (\<lambda>e. fst (snd e)) c)) c))"

definition idem_insert :: "string \<times> string \<Rightarrow> rat \<Rightarrow> analysis_row option \<Rightarrow> idem_cache \<Rightarrow> idem_cache" where
  "idem_insert key now rec c =
     AList.update key (now, rec) (if IDEM_CACHE_MAX_ENTRIES \<le> length c then AList.delete (oldest_key c) c else c)"

definition get_analysis_by_idem_key ::
    "call_fault \<Rightarrow> rat \<Rightarrow> string \<Rightarrow> string \<Rightarrow> quota_db \<Rightarrow> idem_cache \<Rightarrow> analysis_row option \<times> idem_cache" where
  "get_analysis_by_idem_key f now u k db c =
     (if u = [] \<or> k = [] then (None, c)
      else
        let key = (u, k);
            fetched = (\<lambda>c1. let rec = (if f = CallOk then lookup_idem_row u k db else None) in (rec, idem_insert key now rec c1))
        in case map_of c key of
             None \<Rightarrow> fetched c
           | Some (ts, rec) \<Rightarrow> if now - ts < IDEM_CACHE_TTL_SECONDS then (rec, c) else fetched (AList.delete key c))"

section \<open>The route\<close>

record analyze_request =
  aq_market :: string
  aq_symbol :: string
  aq_interval :: string
  aq_type :: string
  aq_idem :: "string option"

text \<open>
  The engine raises an application error (with its text), raises anything else, or returns: its
  resolved type (\<open>None\<close> without a signal), the summary of its signal, and whether the response
  can be built from it.
\<close>

datatype engine_outcome = EngineAppError string | EngineRaises | EngineReturns "string option" "string option" bool

datatype analyze_reply = Replay string | AnalyzeQuotaExceeded int | Completed string | AnalyzeAppError string | InternalError

definition truthy :: "string option \<Rightarrow> bool" where
  "truthy x = (case x of None \<Rightarrow> False | Some s \<Rightarrow> s \<noteq> [])"

text \<open>What the network does to each call of one request, in the order of the calls.\<close>

record analyze_faults =
  af_lookup :: call_fault
  af_create :: call_fault
  af_reserve1 :: call_fault
  af_reserve2 :: call_fault
  af_ledger :: bool
  af_delete :: call_fault
  af_settle :: call_fault
  af_update :: call_fault
  af_release :: call_fault

definition placeholder_row :: "string \<Rightarrow> string \<Rightarrow> analyze_request \<Rightarrow> analysis_row" where
  "placeholder_row i u q = \<lparr>ar_id = i, ar_user = u, ar_market = aq_market q, ar_symbol = aq_symbol q,
     ar_interval = aq_interval q, ar_type = aq_type q, ar_row_status = ''created'', ar_technical = None,
     ar_summary = None, ar_error = None, ar_idem = (if truthy (aq_idem q) then aq_idem q else None)\<rparr>"

definition on_record :: "string option \<Rightarrow> (string \<Rightarrow> quota_db \<Rightarrow> bool \<times> quota_db) \<Rightarrow> quota_db \<Rightarrow> quota_db" where
  "on_record r call db = (case r of None \<Rightarrow> db | Some i \<Rightarrow> snd (call i db))"

definition failed_patch :: "string \<Rightarrow> row_patch" where
  "failed_patch msg = \<lparr>rp_status = ''failed_upstream'', rp_type = None, rp_summary = None, rp_error = Some msg\<rparr>"

definition completed_patch :: "string option \<Rightarrow> string option \<Rightarrow> row_patch" where
  "completed_patch resolved summary = \<lparr>rp_status = ''completed'',
     rp_type = Some (if truthy resolved then resolved else None), rp_summary = Some summary, rp_error = None\<rparr>"

text \<open>From the reservation on; \<open>l\<close> is the ledger id, \<open>r\<close> the record id.\<close>

definition run_analysis ::
    "string list \<Rightarrow> analyze_faults \<Rightarrow> string \<Rightarrow> string option \<Rightarrow> string option \<Rightarrow> engine_outcome \<Rightarrow> quota_db \<Rightarrow> analyze_reply \<times> quota_db" where
  "run_analysis cols fs i r l out db =
     (case out of
        EngineAppError msg \<Rightarrow>
          (AnalyzeAppError msg, on_record r (\<lambda>j. update_analysis_record cols (af_update fs) j (failed_patch msg))
             (settle (release_ledger_quota (af_settle fs)) l db))
      | EngineRaises \<Rightarrow>
          (InternalError, on_record r (\<lambda>j. update_analysis_record cols (af_update fs) j (failed_patch ''Internal error''))
             (settle (release_ledger_quota (af_settle fs)) l db))
      | EngineReturns resolved summary serialises \<Rightarrow>
          (let db1 = settle (\<lambda>j. consume_ledger_quota (af_settle fs) j (None, None, None)) l db;
               db2 = on_record r (\<lambda>j. update_analysis_record cols (af_update fs) j (completed_patch resolved summary)) db1
           in if serialises then (Completed i, db2)
              else (InternalError, on_record r (\<lambda>j. update_analysis_record cols (af_update fs) j (failed_patch ''Internal error''))
                 (settle (release_ledger_quota (af_release fs)) l db2))))"

definition analyze ::
    "string list \<Rightarrow> bool \<Rightarrow> analyze_faults \<Rightarrow> rat \<Rightarrow> int \<Rightarrow> string \<Rightarrow> string \<Rightarrow> string \<Rightarrow> analyze_request \<Rightarrow> engine_outcome
      \<Rightarrow> quota_db \<times> idem_cache \<Rightarrow> analyze_reply \<times> quota_db \<times> idem_cache" where
  "analyze cols local fs now day i li u q out st =
     (let (db, c) = st;
          (prior, c1) = (case aq_idem q of
              Some k \<Rightarrow> if k = [] then (None, c) else get_analysis_by_idem_key (af_lookup fs) now u k db c
            | None \<Rightarrow> (None, c))
      in case (case prior of Some p \<Rightarrow> if ar_row_status p = ''completed'' \<and> truthy (ar_technical p) then Some p else None
                           | None \<Rightarrow> None) of
           Some p \<Rightarrow> (Replay (ar_id p), db, c1)
         | None \<Rightarrow>
             (let (r, db1) = create_analysis_record (af_create fs) (placeholder_row i u q) db;
                  ((reserved, remaining, l), db2) =
                    (if local then ((True, 100, None), db1)
                     else reserve_user_quota (af_reserve1 fs) (af_reserve2 fs) (af_ledger fs) li day u r 1 ''default'' db1)
              in if \<not> reserved then
                   (AnalyzeQuotaExceeded remaining, if local then db2 else on_record r (delete_analysis_record (af_delete fs)) db2, c1)
                 else case run_analysis cols fs i r l out db2 of (rep, db3) \<Rightarrow> (rep, db3, c1)))"

section \<open>Sessions\<close>

record acall =
  ac_faults :: analyze_faults
  ac_now :: rat
  ac_day :: int
  ac_id :: string
  ac_ledger_id :: string
  ac_user :: string
  ac_request :: analyze_request
  ac_outcome :: engine_outcome

definition call_analyze :: "string list \<Rightarrow> bool \<Rightarrow> acall \<Rightarrow> quota_db \<times> idem_cache \<Rightarrow> analyze_reply \<times> quota_db \<times> idem_cache" where
  "call_analyze cols local a = analyze cols local (ac_faults a) (ac_now a) (ac_day a) (ac_id a) (ac_ledger_id a)
     (ac_user a) (ac_request a) (ac_outcome a)"

fun run_analyzes :: "string list \<Rightarrow> bool \<Rightarrow> acall list \<Rightarrow> quota_db \<times> idem_cache \<Rightarrow> analyze_reply list \<times> quota_db \<times> idem_cache" where
  "run_analyzes cols local [] st = ([], st)"
| "run_analyzes cols local (a # calls) st =
     (case call_analyze cols local a st of (r, st1) \<Rightarrow>
        case run_analyzes cols local calls st1 of (rs, st2) \<Rightarrow> (r # rs, st2))"

section \<open>No replay\<close>

definition rows_plain :: "string list \<Rightarrow> analysis_row list \<Rightarrow> bool" where
  "rows_plain cols rows = (\<forall>r \<in> set rows. ar_technical r = None \<and>
     (''result_summary'' \<notin> set cols \<longrightarrow> ar_row_status r \<in> {''created'', ''failed_upstream''}))"

definition cache_plain :: "idem_cache \<Rightarrow> bool" where
  "cache_plain c = (\<forall>k t r. (k, t, Some r) \<in> set c \<longrightarrow> ar_technical r = None)"

lemma rpc_call_db: "snd (rpc_call f p db) \<in> {db, snd (p db)}"
  by (auto simp: rpc_call_def split: call_fault.splits)

lemma settle_rows [simp]:
  "db_analyses (settle (\<lambda>j. consume_ledger_quota f j t) l db) = db_analyses db"
  "db_analyses (settle (release_ledger_quota f) l db) = db_analyses db"
  by (auto simp: settle_def consume_ledger_quota_def release_ledger_quota_def rpc_call_def consume_quota_def
      release_quota_def split: option.splits call_fault.splits)

lemma reserve_quota_rows: "reserve_quota i day u a units pool db = (r, db') \<Longrightarrow> db_analyses db' = db_analyses db"
  by (auto simp: reserve_quota_def Let_def split: if_splits option.splits)

lemma rpc_call_rows:
  "(\<And>db. db_analyses (snd (p db)) = db_analyses db) \<Longrightarrow> db_analyses (snd (rpc_call f p db)) = db_analyses db"
  by (auto simp: rpc_call_def split: call_fault.splits)

lemma reserve_rpc_rows: "db_analyses (snd (rpc_call f (reserve_quota i day u a units pool) db)) = db_analyses db"
  by (rule rpc_call_rows) (metis reserve_quota_rows prod.collapse)

lemma reserve_user_quota_rows [simp]:
  "db_analyses (snd (reserve_user_quota f1 f2 ok i day u a units pool db)) = db_analyses db"
proof -
  obtain r1 db1 where 1: "rpc_call f1 (reserve_quota i day u a units pool) db = (r1, db1)" by (meson surj_pair)
  obtain r2 db2 where 2: "rpc_call f2 (reserve_quota i day u a units pool) db1 = (r2, db2)" by (meson surj_pair)
  have e: "db_analyses db1 = db_analyses db" "db_analyses db2 = db_analyses db1"
    using reserve_rpc_rows [of f1 i day u a units pool db] reserve_rpc_rows [of f2 i day u a units pool db1] 1 2
    by simp_all
  show ?thesis
    by (cases r1; cases r2; cases ok) (auto simp: reserve_user_quota_def reserve_quota_rpc_def 1 2 e split: prod.splits)
qed

lemma insert_plain: "rows_plain cols (db_analyses db) \<Longrightarrow> ar_technical r = None \<Longrightarrow> ar_row_status r = ''created'' \<Longrightarrow>
    rows_plain cols (db_analyses (snd (insert_analysis r db)))"
  by (auto simp: insert_analysis_def rows_plain_def)

lemma create_plain:
  assumes "rows_plain cols (db_analyses db)"
  shows "rows_plain cols (db_analyses (snd (create_analysis_record f (placeholder_row i u q) db)))"
proof -
  have n: "ar_technical (normalise_row (placeholder_row i u q)) = None"
    "ar_row_status (normalise_row (placeholder_row i u q)) = ''created''"
    by (simp_all add: normalise_row_def placeholder_row_def)
  show ?thesis
    using assms insert_plain [OF assms n] rpc_call_db [of f "insert_analysis (normalise_row (placeholder_row i u q))" db]
    by (auto simp: create_analysis_record_def split: prod.splits sum.splits)
qed

definition patch_plain :: "string list \<Rightarrow> row_patch \<Rightarrow> bool" where
  "patch_plain cols p = (rp_status p = ''failed_upstream'' \<or> rp_summary p \<noteq> None)"

lemma apply_row_patch_keeps [simp]:
  "ar_technical (apply_row_patch p r) = ar_technical r" "ar_row_status (apply_row_patch p r) = rp_status p"
  by (simp_all add: apply_row_patch_def)

lemma update_plain:
  assumes "rows_plain cols (db_analyses db)" "patch_plain cols p"
  shows "rows_plain cols (db_analyses (snd (update_analysis cols i p db)))"
proof (cases "set (patch_columns p) \<subseteq> set cols")
  case False
  then show ?thesis using assms by (simp add: update_analysis_def)
next
  case True
  then have "''result_summary'' \<notin> set cols \<Longrightarrow> rp_status p = ''failed_upstream''"
    using assms(2) by (auto simp: patch_plain_def patch_columns_def split: if_splits)
  then have "rows_plain cols (map (\<lambda>r. if ar_id r = i then apply_row_patch p r else r) (db_analyses db))"
    using assms(1) by (auto simp: rows_plain_def)
  then show ?thesis using assms(1) by (simp add: update_analysis_def)
qed

lemma update_record_plain:
  assumes "rows_plain cols (db_analyses db)" "patch_plain cols p"
  shows "rows_plain cols (db_analyses (on_record r (\<lambda>j. update_analysis_record cols f j p) db))"
proof (cases r)
  case (Some i)
  have "snd (update_analysis_record cols f i p db) \<in> {db, snd (update_analysis cols i p db)}"
    using rpc_call_db [of f "update_analysis cols i p" db] by (auto simp: update_analysis_record_def split: prod.splits)
  then show ?thesis using assms update_plain [OF assms, of i] Some by (auto simp: on_record_def)
qed (use assms in \<open>simp add: on_record_def\<close>)

lemma delete_record_plain:
  assumes "rows_plain cols (db_analyses db)"
  shows "rows_plain cols (db_analyses (on_record r (delete_analysis_record f) db))"
proof (cases r)
  case (Some i)
  have "snd (delete_analysis_record f i db) \<in> {db, snd (delete_analysis i db)}"
    using rpc_call_db [of f "delete_analysis i" db] by (auto simp: delete_analysis_record_def split: prod.splits)
  then show ?thesis using assms Some by (auto simp: on_record_def delete_analysis_def rows_plain_def)
qed (use assms in \<open>simp add: on_record_def\<close>)

lemma patches_plain [simp]: "patch_plain cols (failed_patch msg)" "patch_plain cols (completed_patch t sm)"
  by (simp_all add: patch_plain_def failed_patch_def completed_patch_def)

lemma run_analysis_plain:
  "rows_plain cols (db_analyses db) \<Longrightarrow> rows_plain cols (db_analyses (snd (run_analysis cols fs i r l out db)))"
  by (auto simp: run_analysis_def Let_def update_record_plain split: engine_outcome.splits)

lemma AList_delete_set: "set (AList.delete k c) \<subseteq> set c"
  by (induction c) auto

lemma delete_plain: "cache_plain c \<Longrightarrow> cache_plain (AList.delete k c)"
  unfolding cache_plain_def using AList_delete_set [of k c] by fastforce

lemma update_plain_cache:
  "cache_plain c \<Longrightarrow> (\<And>r. rec = Some r \<Longrightarrow> ar_technical r = None) \<Longrightarrow> cache_plain (AList.update key (now, rec) c)"
  unfolding cache_plain_def by (auto dest!: in_set_updateD)

lemma idem_insert_plain:
  "cache_plain c \<Longrightarrow> (\<And>r. rec = Some r \<Longrightarrow> ar_technical r = None) \<Longrightarrow> cache_plain (idem_insert key now rec c)"
  unfolding idem_insert_def by (auto intro: update_plain_cache delete_plain)

lemma lookup_plain: "rows_plain cols (db_analyses db) \<Longrightarrow> lookup_idem_row u k db = Some r \<Longrightarrow> ar_technical r = None"
  by (auto simp: lookup_idem_row_def rows_plain_def find_Some_iff) (metis nth_mem length_rev set_rev)

lemma cache_hit_plain: "cache_plain c \<Longrightarrow> map_of c key = Some (ts, Some r) \<Longrightarrow> ar_technical r = None"
  unfolding cache_plain_def by (meson map_of_SomeD)

lemma idem_lookup_plain:
  assumes r: "rows_plain cols (db_analyses db)" and c: "cache_plain c"
    and g: "get_analysis_by_idem_key f now u k db c = (rec, c')"
  shows "cache_plain c' \<and> (\<forall>r. rec = Some r \<longrightarrow> ar_technical r = None)"
proof -
  define fetched where "fetched = (if f = CallOk then lookup_idem_row u k db else None)"
  have f: "ar_technical r = None" if "fetched = Some r" for r
    using that lookup_plain [OF r] by (auto simp: fetched_def split: if_splits)
  have "(rec, c') = (None, c) \<or> (rec, c') = (fetched, idem_insert (u, k) now fetched c) \<or>
      (rec, c') = (fetched, idem_insert (u, k) now fetched (AList.delete (u, k) c)) \<or>
      (\<exists>ts. map_of c (u, k) = Some (ts, rec) \<and> c' = c)"
    using g by (auto simp: get_analysis_by_idem_key_def Let_def fetched_def split: if_splits option.splits)
  then show ?thesis
    using c f idem_insert_plain delete_plain [OF c] cache_hit_plain [OF c] by blast
qed

lemma analyze_plain:
  assumes r: "rows_plain cols (db_analyses db)" and c: "cache_plain c"
    and a: "analyze cols local fs now day i li u q out (db, c) = (rep, db', c')"
  shows "rows_plain cols (db_analyses db') \<and> cache_plain c' \<and> (\<forall>x. rep \<noteq> Replay x)"
proof -
  define idem where "idem = (case aq_idem q of
              Some k \<Rightarrow> if k = [] then (None, c) else get_analysis_by_idem_key (af_lookup fs) now u k db c
            | None \<Rightarrow> (None, c))"
  obtain prior c1 where i: "idem = (prior, c1)" by (cases idem)
  then have p: "cache_plain c1 \<and> (\<forall>r. prior = Some r \<longrightarrow> ar_technical r = None)"
    using c idem_lookup_plain [OF r c] by (auto simp: idem_def split: option.splits if_splits)
  obtain rid db1 where cr: "create_analysis_record (af_create fs) (placeholder_row i u q) db = (rid, db1)" by (meson surj_pair)
  have r1: "rows_plain cols (db_analyses db1)" using create_plain [OF r, of "af_create fs" i u q] cr by simp
  obtain rv rem l db2 where rs: "(if local then ((True, 100, None), db1)
      else reserve_user_quota (af_reserve1 fs) (af_reserve2 fs) (af_ledger fs) li day u rid 1 ''default'' db1) = ((rv, rem, l), db2)"
    by (metis prod.collapse)
  have r2: "rows_plain cols (db_analyses db2)"
    using r1 rs reserve_user_quota_rows [of "af_reserve1 fs" "af_reserve2 fs" "af_ledger fs" li day u rid 1 "''default''" db1]
    by (cases local) (auto simp del: reserve_user_quota_rows)
  have out: "(rep, db', c') = (if \<not> rv then (AnalyzeQuotaExceeded rem,
        if local then db2 else on_record rid (delete_analysis_record (af_delete fs)) db2, c1)
      else case run_analysis cols fs i rid l out db2 of (rep, db3) \<Rightarrow> (rep, db3, c1))"
    using a p by (auto simp: analyze_def Let_def idem_def [symmetric] i cr rs truthy_def split: option.splits)
  obtain rep3 db3 where rn: "run_analysis cols fs i rid l out db2 = (rep3, db3)" by (meson surj_pair)
  have "rows_plain cols (db_analyses db3)" using run_analysis_plain [OF r2, of fs i rid l out] rn by simp
  moreover have "rep3 \<noteq> Replay x" for x
    using rn by (auto simp: run_analysis_def Let_def split: engine_outcome.splits if_splits)
  ultimately show ?thesis
    using out p r2 delete_record_plain [OF r2] by (auto simp: rn split: if_splits)
qed

lemma run_analyzes_plain:
  "rows_plain cols (db_analyses db) \<Longrightarrow> cache_plain c \<Longrightarrow> run_analyzes cols local calls (db, c) = (reps, db', c') \<Longrightarrow>
     rows_plain cols (db_analyses db') \<and> (\<forall>x. Replay x \<notin> set reps)"
proof (induction calls arbitrary: db c reps)
  case (Cons a calls)
  obtain rep db1 c1 where 1: "call_analyze cols local a (db, c) = (rep, db1, c1)" by (metis prod.collapse)
  obtain reps' where 2: "run_analyzes cols local calls (db1, c1) = (reps', db', c')" "reps = rep # reps'"
    using Cons.prems(3) 1 by (auto split: prod.splits)
  show ?case
    using analyze_plain [OF Cons.prems(1,2) 1 [unfolded call_analyze_def]] Cons.IH [OF _ _ 2(1)] 2(2) by auto
qed auto

section \<open>The ledger of a session\<close>

definition quiet :: "acall \<Rightarrow> bool" where
  "quiet a = (af_reserve1 (ac_faults a) = CallOk \<and> af_ledger (ac_faults a) \<and> af_settle (ac_faults a) = CallOk \<and>
     af_release (ac_faults a) = CallOk \<and> ac_ledger_id a \<noteq> [])"

lemma table_ledger [simp]:
  "db_ledger (snd (create_analysis_record f row db)) = db_ledger db"
  "db_ledger (on_record r (\<lambda>j. update_analysis_record cols f j p) db) = db_ledger db"
  "db_ledger (on_record r (delete_analysis_record f) db) = db_ledger db"
  "db_profiles (snd (create_analysis_record f row db)) = db_profiles db"
  "db_profiles (on_record r (\<lambda>j. update_analysis_record cols f j p) db) = db_profiles db"
  "db_profiles (on_record r (delete_analysis_record f) db) = db_profiles db"
  by (auto simp: create_analysis_record_def update_analysis_record_def delete_analysis_record_def on_record_def rpc_call_def
      insert_analysis_def update_analysis_def delete_analysis_def split: option.splits call_fault.splits prod.splits sum.splits)

definition final_row :: "acall \<Rightarrow> string option \<Rightarrow> analyze_reply \<Rightarrow> ledger_row" where
  "final_row a r rep = (let row = reserved_row (ac_ledger_id a) (ac_day a) (ac_user a) r 1 ''default''
     in case rep of Completed _ \<Rightarrow> consume_row (None, None, None) row
        | InternalError \<Rightarrow> (case ac_outcome a of EngineReturns _ _ _ \<Rightarrow> release_row (consume_row (None, None, None) row)
             | _ \<Rightarrow> release_row row)
        | _ \<Rightarrow> release_row row)"

fun admitted :: "analyze_reply \<Rightarrow> bool" where
  "admitted (Replay _) = False"
| "admitted (AnalyzeQuotaExceeded _) = False"
| "admitted _ = True"

lemma reserved_row_id: "l_id (reserved_row i day u a units pool) = i"
  by (simp add: reserved_row_def)

lemma run_analysis_ledger:
  assumes "i \<noteq> []" "i \<notin> l_id ` set rows" "af_settle fs = CallOk" "af_release fs = CallOk"
    and "db_ledger db = rows @ [row]" "l_id row = i" "run_analysis cols fs x r (Some i) out db = (rep, db')"
  shows "admitted rep \<and> db_profiles db' = db_profiles db \<and> db_ledger db' = rows @
    [case rep of Completed _ \<Rightarrow> consume_row (None, None, None) row
       | InternalError \<Rightarrow> (case out of EngineReturns _ _ _ \<Rightarrow> release_row (consume_row (None, None, None) row) | _ \<Rightarrow> release_row row)
       | _ \<Rightarrow> release_row row]"
proof -
  have s: "on_row i f (rows @ [y]) = rows @ [f y]" if "l_id y = i" for f y
    using assms(2) that by (induction rows) (auto simp: on_row_def)
  have c: "db_ledger (consume_quota j t d) = on_row j (consume_row t) (db_ledger d)"
    "db_ledger (release_quota j d) = on_row j release_row (db_ledger d)"
    "db_profiles (consume_quota j t d) = db_profiles d" "db_profiles (release_quota j d) = db_profiles d" for t d j
    by (simp_all add: consume_quota_def release_quota_def)
  show ?thesis
    using assms(3-5,7)
    by (cases out) (auto simp: run_analysis_def Let_def settle_call_ok [OF assms(1)] c s assms(6) split: if_splits)
qed

lemma analyze_ledger:
  assumes q: "quiet a" and fresh: "ac_ledger_id a \<notin> l_id ` set (db_ledger db)"
    and a: "call_analyze cols False a (db, c) = (rep, db', c')"
  shows "db_profiles db' = db_profiles db \<and>
    (if admitted rep then (\<exists>r k. db_ledger db' = db_ledger db @ [final_row a r rep] \<and> active_quota db (ac_user a) = Some k \<and>
        used_today (ac_day a) (ac_user a) ''default'' (db_ledger db) + 1 \<le> k)
     else db_ledger db' = db_ledger db)"
proof -
  let ?fs = "ac_faults a" and ?u = "ac_user a" and ?li = "ac_ledger_id a" and ?day = "ac_day a"
  obtain prior c1 where i: "(case aq_idem (ac_request a) of
              Some k \<Rightarrow> if k = [] then (None, c) else get_analysis_by_idem_key (af_lookup ?fs) (ac_now a) ?u k db c
            | None \<Rightarrow> (None, c)) = (prior, c1)" by (meson surj_pair)
  obtain rid db1 where cr: "create_analysis_record (af_create ?fs) (placeholder_row (ac_id a) ?u (ac_request a)) db = (rid, db1)"
    by (meson surj_pair)
  have d1: "db_ledger db1 = db_ledger db" "db_profiles db1 = db_profiles db"
    using table_ledger(1,4) [of "af_create ?fs" "placeholder_row (ac_id a) ?u (ac_request a)" db] cr by simp_all
  obtain rv rem l db2 where rs: "reserve_user_quota (af_reserve1 ?fs) (af_reserve2 ?fs) (af_ledger ?fs) ?li ?day ?u rid 1 ''default'' db1 = ((rv, rem, l), db2)"
    by (metis prod.collapse)
  obtain rr db2' where rq: "reserve_quota ?li ?day ?u rid 1 ''default'' db1 = (rr, db2')" by (meson surj_pair)
  have ok: "\<not> isl rr"
    using rq by (auto simp: reserve_quota_def Let_def split: option.splits if_splits)
  obtain b n where rr: "rr = Inr (b, n)" using ok by (cases rr) auto
  have e2: "rv = b" "db2 = db2'" "l = latest_reserved ?u ''default'' (db_ledger db2')"
    using rs rq rr q by (auto simp: quiet_def reserve_user_quota_def reserve_quota_rpc_def rpc_call_def)
  have out: "(case prior of Some p \<Rightarrow> if ar_row_status p = ''completed'' \<and> truthy (ar_technical p) then Some p else None
                           | None \<Rightarrow> None) = None \<Longrightarrow> (rep, db') = (if \<not> rv then (AnalyzeQuotaExceeded rem,
        on_record rid (delete_analysis_record (af_delete ?fs)) db2)
      else run_analysis cols ?fs (ac_id a) rid l (ac_outcome a) db2)"
    using a by (auto simp: call_analyze_def analyze_def Let_def i cr rs split: prod.splits)
  show ?thesis
  proof (cases "(case prior of Some p \<Rightarrow> if ar_row_status p = ''completed'' \<and> truthy (ar_technical p) then Some p else None
                           | None \<Rightarrow> None)")
    case (Some p)
    then have "rep = Replay (ar_id p) \<and> db' = db"
      using a by (auto simp: call_analyze_def analyze_def Let_def i split: prod.splits)
    then show ?thesis by simp
  next
    case None
    show ?thesis
    proof (cases b)
      case False
      then have "db2 = db1" using rq rr e2 reserve_quota_refuses [OF rq] by auto
      then show ?thesis using out [OF None] False e2 d1 by simp
    next
      case True
      from reserve_quota_admits [of ?li ?day ?u rid 1 "''default''" db1 n db2'] obtain k
        where k: "active_quota db1 ?u = Some k" "0 \<le> k - used_today ?day ?u ''default'' (db_ledger db1) - 1"
          and db2: "db2' = db1\<lparr>db_ledger := db_ledger db1 @ [reserved_row ?li ?day ?u rid 1 ''default'']\<rparr>"
        using rq rr True by auto
      have l: "l = Some ?li" using e2 db2 by (simp add: latest_reserved_new)
      have "run_analysis cols ?fs (ac_id a) rid (Some ?li) (ac_outcome a) db2' = (rep, db')"
        using out [OF None] True e2 l by simp
      from run_analysis_ledger [OF _ _ _ _ _ _ this, of "db_ledger db1" "reserved_row ?li ?day ?u rid 1 ''default''"]
      have "admitted rep \<and> db_profiles db' = db_profiles db \<and> db_ledger db' = db_ledger db @ [final_row a rid rep]"
        using q fresh d1 by (auto simp: quiet_def db2 final_row_def reserved_row_id Let_def)
      then show ?thesis using k d1 by (auto simp: active_quota_def)
    qed
  qed
qed

definition completes :: "string \<Rightarrow> acall \<times> analyze_reply \<Rightarrow> bool" where
  "completes u ar = (ac_user (fst ar) = u \<and> (\<exists>x. snd ar = Completed x))"

definition consumed_by :: "string \<Rightarrow> ledger_row \<Rightarrow> bool" where
  "consumed_by u r = (l_user r = u \<and> l_status r = LConsumed)"

definition ledger_settled :: "quota_db \<Rightarrow> bool" where
  "ledger_settled db = ((\<forall>r \<in> set (db_ledger db). l_status r \<noteq> LReserved) \<and>
     (\<forall>day u pool k. active_quota db u = Some k \<longrightarrow> used_today day u pool (db_ledger db) \<le> k))"

lemma final_row_facts [simp]:
  "l_id (final_row a r rep) = ac_ledger_id a" "l_user (final_row a r rep) = ac_user a"
  "l_date (final_row a r rep) = ac_day a" "l_pool (final_row a r rep) = ''default''"
  by (simp_all add: final_row_def Let_def reserved_row_def split: analyze_reply.splits engine_outcome.splits)

lemma final_row_status:
  "l_status (final_row a r rep) = (if \<exists>x. rep = Completed x then LConsumed else LReleased)"
  "counted_units (final_row a r rep) \<le> 1"
  by (simp_all add: final_row_def Let_def reserved_row_def counted_units_def split: analyze_reply.splits engine_outcome.splits)

lemma final_row_used:
  "used_today day u pool [final_row a r rep] \<le> (if day = ac_day a \<and> u = ac_user a \<and> pool = ''default'' then 1 else 0)"
  using final_row_status(2) by (auto simp: used_today_def)

lemma run_analyzes_ledger:
  assumes "\<And>a. a \<in> set calls \<Longrightarrow> quiet a" "distinct (map ac_ledger_id calls)"
    "\<And>a. a \<in> set calls \<Longrightarrow> ac_ledger_id a \<notin> l_id ` set (db_ledger db)" "ledger_settled db"
    "run_analyzes cols False calls (db, c) = (reps, db', c')"
  shows "ledger_settled db' \<and> length (filter (consumed_by u) (db_ledger db')) =
    length (filter (consumed_by u) (db_ledger db)) + length (filter (completes u) (zip calls reps))"
  using assms
proof (induction calls arbitrary: db c reps)
  case (Cons a calls)
  obtain rep db1 c1 where 1: "call_analyze cols False a (db, c) = (rep, db1, c1)" by (metis prod.collapse)
  obtain reps' where 2: "run_analyzes cols False calls (db1, c1) = (reps', db', c')" "reps = rep # reps'"
    using Cons.prems(5) 1 by (auto split: prod.splits)
  have L: "db_profiles db1 = db_profiles db \<and>
    (if admitted rep then (\<exists>r k. db_ledger db1 = db_ledger db @ [final_row a r rep] \<and> active_quota db (ac_user a) = Some k \<and>
        used_today (ac_day a) (ac_user a) ''default'' (db_ledger db) + 1 \<le> k)
     else db_ledger db1 = db_ledger db)"
    by (rule analyze_ledger [OF _ _ 1]) (use Cons.prems(1,3) in auto)
  have s1: "ledger_settled db1 \<and> (\<forall>b \<in> set calls. ac_ledger_id b \<notin> l_id ` set (db_ledger db1)) \<and>
      length (filter (consumed_by u) (db_ledger db1)) =
        length (filter (consumed_by u) (db_ledger db)) + (if completes u (a, rep) then 1 else 0)"
  proof (cases "admitted rep")
    case False
    then have "\<not> completes u (a, rep)" by (cases rep) (auto simp: completes_def)
    then show ?thesis using L False Cons.prems(3,4) by (auto simp: ledger_settled_def active_quota_def)
  next
    case True
    then obtain r k where rk: "db_ledger db1 = db_ledger db @ [final_row a r rep]" "active_quota db (ac_user a) = Some k"
        "used_today (ac_day a) (ac_user a) ''default'' (db_ledger db) + 1 \<le> k" using L by auto
    have p: "active_quota db1 v = active_quota db v" for v using L by (simp add: active_quota_def)
    have "used_today day v pool (db_ledger db1) \<le> k'" if "active_quota db1 v = Some k'" for day v pool k'
      using Cons.prems(4) that rk final_row_used [of day v pool a r rep]
      by (auto simp: ledger_settled_def used_today_append p split: if_splits) (smt (verit))+
    then have "ledger_settled db1"
      using Cons.prems(4) rk final_row_status(1) by (auto simp: ledger_settled_def)
    moreover have "ac_ledger_id b \<noteq> ac_ledger_id a" if "b \<in> set calls" for b
      using Cons.prems(2) that by (metis distinct.simps(2) image_eqI list.set_map list.simps(9))
    ultimately show ?thesis
      using rk Cons.prems(3) final_row_status(1) [of a r rep] by (auto simp: consumed_by_def completes_def)
  qed
  have "ledger_settled db' \<and> length (filter (consumed_by u) (db_ledger db')) =
    length (filter (consumed_by u) (db_ledger db1)) + length (filter (completes u) (zip calls reps'))"
    using Cons.IH [OF _ _ _ _ 2(1)] Cons.prems(1,2) s1 by simp
  then show ?case using s1 2(2) by simp
qed auto

section \<open>What the route promises\<close>

definition rows_of_user :: "string \<Rightarrow> analysis_row list \<Rightarrow> analysis_row list" where
  "rows_of_user u rows = filter (\<lambda>r. ar_user r = u) rows"

text \<open>
  The replay that the docstring of \<open>get_analysis_by_idem_key\<close> promises does not happen: it needs a
  completed row with a technical result, but the route never writes that column. In any session of
  requests that starts from an empty table and an empty cache, retries with the same idempotency key
  included, nothing is replayed; and with the table of the migrations, which has no column
  \<open>result_summary\<close>, every row stays created or failed, whatever the runs returned.
\<close>

lemma analyze_never_replays:
  assumes "db_analyses db = []" "run_analyzes cols local calls (db, []) = (reps, db', c')"
  shows "(\<forall>x. Replay x \<notin> set reps) \<and>
    (\<forall>r \<in> set (db_analyses db'). ar_technical r = None \<and>
      (cols = ANALYSES_COLUMNS \<longrightarrow> ar_row_status r \<in> {''created'', ''failed_upstream''}))"
proof -
  have "rows_plain cols (db_analyses db)" "cache_plain []"
    using assms(1) by (simp_all add: rows_plain_def cache_plain_def)
  from run_analyzes_plain [OF this assms(2)] show ?thesis
    by (auto simp: rows_plain_def ANALYSES_COLUMNS_def)
qed

text \<open>
  C27: a session of analyses settles the ledger exactly, provided it is \<open>quiet\<close>: in every request the
  call that reserves, the lookup of the reserved ledger row, the call that settles and the call that
  releases all succeed, and the ledger ids drawn are distinct and not empty. From an empty ledger and
  quotas that are not negative, with one request after another, no row stays reserved, a user's
  consumed rows are as many as the user's completed replies, and no day exceeds the daily quota. The
  calls to the table analyses may fail in any way. Without the condition on the lookup a row does
  stay reserved (lemma \<open>lost_lookup_leaks\<close> of Quota).
\<close>

theorem analyze_settles:
  assumes "\<And>a. a \<in> set calls \<Longrightarrow> quiet a" "distinct (map ac_ledger_id calls)"
    and "db_ledger db = []" "\<And>u k. active_quota db u = Some k \<Longrightarrow> 0 \<le> k"
    and "run_analyzes cols False calls (db, c) = (reps, db', c')"
  shows "ledger_settled db' \<and>
    length (filter (consumed_by u) (db_ledger db')) = length (filter (completes u) (zip calls reps))"
proof -
  have "ledger_settled db" using assms(3,4) by (simp add: ledger_settled_def)
  from run_analyzes_ledger [OF assms(1,2) _ this assms(5), of u] assms(3) show ?thesis by simp
qed

definition demo_faults :: analyze_faults where
  "demo_faults = \<lparr>af_lookup = CallOk, af_create = CallOk, af_reserve1 = CallOk, af_reserve2 = CallOk, af_ledger = True,
     af_delete = CallOk, af_settle = CallOk, af_update = CallOk, af_release = CallOk\<rparr>"

definition demo_retry :: "string \<Rightarrow> string \<Rightarrow> rat \<Rightarrow> acall" where
  "demo_retry i li t = \<lparr>ac_faults = demo_faults, ac_now = t, ac_day = 1, ac_id = i, ac_ledger_id = li, ac_user = ''ann'',
     ac_request = \<lparr>aq_market = ''futures'', aq_symbol = ''BTCUSDT'', aq_interval = ''4h'', aq_type = ''auto'',
       aq_idem = Some ''key''\<rparr>,
     ac_outcome = EngineReturns (Some ''formed'') (Some ''long'') True\<rparr>"

definition demo_db :: quota_db where
  "demo_db = q_db (demo_sys 5)"

text \<open>A retry with the same key: both runs complete and are charged, and the table keeps one row.\<close>

definition demo_retries :: "analyze_reply list \<times> quota_db \<times> idem_cache" where
  "demo_retries = run_analyzes ANALYSES_COLUMNS False [demo_retry ''a1'' ''L1'' 0, demo_retry ''a2'' ''L2'' 1000] (demo_db, [])"

lemma demo_retries_eval:
  "fst demo_retries = [Completed ''a1'', Completed ''a2'']"
  "map l_status (db_ledger (fst (snd demo_retries))) = [LConsumed, LConsumed]"
  "map (\<lambda>r. (ar_id r, ar_row_status r)) (db_analyses (fst (snd demo_retries))) = [(''a1'', ''created'')]"
  by code_simp+

lemma retry_runs_again:
  "fst demo_retries = [Completed ''a1'', Completed ''a2''] \<and>
   map (\<lambda>r. (ar_id r, ar_row_status r, ar_technical r)) (db_analyses (fst (snd demo_retries))) = [(''a1'', ''created'', None)]"
proof -
  have d: "run_analyzes ANALYSES_COLUMNS False [demo_retry ''a1'' ''L1'' 0, demo_retry ''a2'' ''L2'' 1000] (demo_db, []) =
      (fst demo_retries, fst (snd demo_retries), snd (snd demo_retries))" by (simp add: demo_retries_def)
  have e: "db_analyses demo_db = []" by (simp add: demo_db_def demo_sys_def)
  have "\<forall>r \<in> set (db_analyses (fst (snd demo_retries))). ar_technical r = None"
    using analyze_never_replays [OF e d] by blast
  then show ?thesis using demo_retries_eval(1,3) by auto
qed

theorem analyze_settles_witness:
  "ledger_settled (fst (snd demo_retries)) \<and>
   length (filter (consumed_by ''ann'') (db_ledger (fst (snd demo_retries)))) = 2"
proof -
  have d: "run_analyzes ANALYSES_COLUMNS False [demo_retry ''a1'' ''L1'' 0, demo_retry ''a2'' ''L2'' 1000] (demo_db, []) =
      (fst demo_retries, fst (snd demo_retries), snd (snd demo_retries))" by (simp add: demo_retries_def)
  let ?calls = "[demo_retry ''a1'' ''L1'' 0, demo_retry ''a2'' ''L2'' 1000]"
  have q: "quiet a" if "a \<in> set ?calls" for a
    using that by (auto simp: quiet_def demo_retry_def demo_faults_def)
  have n: "distinct (map ac_ledger_id ?calls)" by (simp add: demo_retry_def)
  have e: "db_ledger demo_db = []" "\<And>u k. active_quota demo_db u = Some k \<Longrightarrow> 0 \<le> k"
    using demo_sys_start(1,3) [of 5] by (fastforce simp: demo_db_def)+
  have "length (filter (completes ''ann'') (zip ?calls (fst demo_retries))) = 2"
    unfolding demo_retries_eval(1) by (simp add: completes_def demo_retry_def)
  then show ?thesis using analyze_settles [OF q n e d, where u = "''ann''"] by (simp only: simp_thms)
qed

text \<open>
  A row can only become completed when the engine resolved a type: without a signal the update
  carries a null for a NOT NULL column and the row stays as it was.
\<close>

lemma unresolved_never_completes:
  "ar_id ` set (db_analyses db) \<inter> {i} \<noteq> {} \<Longrightarrow> update_analysis cols i (completed_patch None sm) db = (r, db') \<Longrightarrow> db' = db"
  by (auto simp: update_analysis_def completed_patch_def truthy_def split: if_splits)

text \<open>
  A failed lookup is remembered as a miss: for the next minute the same key is not looked up again,
  even when a row was stored in between.
\<close>

lemma miss_is_remembered:
  assumes "u \<noteq> []" "k \<noteq> []" "map_of c (u, k) = Some (t, None)" "now - t < 60"
  shows "get_analysis_by_idem_key f now u k db c = (None, c)"
  using assms by (simp add: get_analysis_by_idem_key_def Let_def IDEM_CACHE_TTL_SECONDS_def)

text \<open>The cache holds at most 1024 entries.\<close>

lemma oldest_key_in: "c \<noteq> [] \<Longrightarrow> oldest_key c \<in> fst ` set c"
proof -
  assume "c \<noteq> []"
  then have "list_min (map (\<lambda>e. fst (snd e)) c) \<in> (\<lambda>e. fst (snd e)) ` set c"
    using list_min_in [of "map (\<lambda>e. fst (snd e)) c"] by simp
  then obtain e where "fst (snd e) = list_min (map (\<lambda>e. fst (snd e)) c)" "e \<in> set c" by auto
  then have "filter (\<lambda>e. fst (snd e) = list_min (map (\<lambda>e. fst (snd e)) c)) c \<noteq> []"
    unfolding filter_empty_conv by blast
  from hd_in_set [OF this] show "oldest_key c \<in> fst ` set c" by (auto simp: oldest_key_def)
qed

lemma length_AList_update: "length (AList.update k v c) \<le> Suc (length c)"
  by (induction c) auto

lemma length_AList_delete: "k \<in> fst ` set c \<Longrightarrow> length (AList.delete k c) < length c"
  by (induction c) (auto simp: AList.delete_eq intro: le_imp_less_Suc)

lemma idem_cache_bounded:
  assumes "length c \<le> IDEM_CACHE_MAX_ENTRIES"
  shows "length (idem_insert key now rec c) \<le> IDEM_CACHE_MAX_ENTRIES"
proof (cases "IDEM_CACHE_MAX_ENTRIES \<le> length c")
  case True
  then have "c \<noteq> []" by (auto simp: IDEM_CACHE_MAX_ENTRIES_def)
  then have "length (AList.delete (oldest_key c) c) < IDEM_CACHE_MAX_ENTRIES"
    using length_AList_delete [OF oldest_key_in] assms by fastforce
  then show ?thesis
    using True length_AList_update [of key "(now, rec)" "AList.delete (oldest_key c) c"] by (simp add: idem_insert_def)
qed (use length_AList_update [of key "(now, rec)" c] in \<open>simp add: idem_insert_def\<close>)

end
