(* ===== verification/VibeStore.thy ===== *)
theory VibeStore
  imports Prelude
begin

text \<open>
  The stores of the assistant: sessions, messages and runs (\<open>app/infra/vibe_session_store.py\<close> on its
  Redis backend), the events of a run (\<open>app/infra/vibe_event_store.py\<close>), and the event stream a
  client reads (\<open>_stream_events\<close> of \<open>app/api/vibe_routes.py\<close>).

  A JSON document is a value of \<open>json\<close>; a Redis value is the document it encodes. Times and fresh
  ids are arguments.
\<close>

section \<open>Documents\<close>

datatype json = JNull | JBool bool | JNum rat | JStr string | JList "json list" | JObj "(string \<times> json) list"

fun is_obj :: "json \<Rightarrow> bool" where
  "is_obj (JObj _) = True"
| "is_obj _ = False"

text \<open>\<open>d.get(k)\<close> on an object; a missing key is null.\<close>

fun jget :: "json \<Rightarrow> string \<Rightarrow> json" where
  "jget (JObj d) k = get_default d k JNull"
| "jget _ k = JNull"

fun jtruthy :: "json \<Rightarrow> bool" where
  "jtruthy JNull = False"
| "jtruthy (JBool b) = b"
| "jtruthy (JNum n) = (n \<noteq> 0)"
| "jtruthy (JStr s) = (s \<noteq> [])"
| "jtruthy (JList xs) = (xs \<noteq> [])"
| "jtruthy (JObj d) = (d \<noteq> [])"

section \<open>Sessions, messages and runs\<close>

text \<open>Why a run failed; the text of an error is the rendering of one of these.\<close>

datatype run_error = CancelledByUser | LlmError string | TypeErrorNotCallable | Raised string

record tool_call =
  tc_id :: string
  tc_name :: string
  tc_args :: json

record vmessage =
  vm_id :: string
  vm_session :: string
  vm_run :: string
  vm_role :: string
  vm_content :: "string option"
  vm_tool_calls :: "tool_call list option"
  vm_tool_call_id :: "string option"
  vm_tool_summary :: "json option"
  vm_cards :: "(string \<times> json) list option"

record vsession =
  vs_id :: string
  vs_user :: string
  vs_title :: "string option"
  vs_context :: json
  vs_status :: string
  vs_count :: nat
  vs_last_message :: "rat option"
  vs_created :: rat
  vs_updated :: rat

record vrun =
  vr_id :: string
  vr_session :: string
  vr_user :: string
  vr_status :: string
  vr_prompt :: string
  vr_tokens :: "(int \<times> int) option"
  vr_tools_called :: "string list option"
  vr_error :: "run_error option"
  vr_cancelled_by :: "string option"
  vr_completed :: "rat option"

record vstore =
  st_sessions :: "string \<Rightarrow> vsession option"
  st_messages :: "string \<Rightarrow> vmessage list option"
  st_runs :: "string \<Rightarrow> vrun option"
  st_user_sessions :: "string \<Rightarrow> string list option"

definition opt_list :: "'a list option \<Rightarrow> 'a list" where
  "opt_list x = (case x of None \<Rightarrow> [] | Some xs \<Rightarrow> xs)"

definition create_session :: "string \<Rightarrow> rat \<Rightarrow> string \<Rightarrow> string option \<Rightarrow> json \<Rightarrow> vstore \<Rightarrow> vsession \<times> vstore" where
  "create_session sid now u title ctx st =
     (let payload = \<lparr>vs_id = sid, vs_user = u, vs_title = title, vs_context = (if jtruthy ctx then ctx else JObj []),
            vs_status = ''active'', vs_count = 0, vs_last_message = None, vs_created = now, vs_updated = now\<rparr>;
          ids = opt_list (st_user_sessions st u);
          ids1 = (if sid \<in> set ids then ids else sid # ids)
      in (payload, st\<lparr>st_sessions := (st_sessions st)(sid \<mapsto> payload), st_messages := (st_messages st)(sid \<mapsto> []),
           st_user_sessions := (st_user_sessions st)(u \<mapsto> ids1)\<rparr>))"

definition get_session :: "string \<Rightarrow> string \<Rightarrow> vstore \<Rightarrow> vsession option" where
  "get_session sid u st = (case st_sessions st sid of None \<Rightarrow> None
     | Some s \<Rightarrow> if vs_user s = u then Some s else None)"

text \<open>Newest first; \<open>sort(reverse=True)\<close> keeps the order of equal times.\<close>

definition newest_first :: "vsession list \<Rightarrow> vsession list" where
  "newest_first ss = rev (sort_key vs_updated (rev ss))"

definition list_sessions :: "string \<Rightarrow> nat \<Rightarrow> nat \<Rightarrow> string \<Rightarrow> vstore \<Rightarrow> vsession list" where
  "list_sessions u lmt offset status st =
     (let ids = opt_list (st_user_sessions st u);
          found = List.map_filter (\<lambda>sid. case st_sessions st sid of
                    Some s \<Rightarrow> if vs_status s = status then Some s else None | None \<Rightarrow> None) ids
      in take lmt (drop offset (newest_first found)))"

definition update_session_title :: "string \<Rightarrow> rat \<Rightarrow> string \<Rightarrow> vstore \<Rightarrow> vstore" where
  "update_session_title sid now title st = (case st_sessions st sid of None \<Rightarrow> st
     | Some s \<Rightarrow> st\<lparr>st_sessions := (st_sessions st)(sid \<mapsto> s\<lparr>vs_title := Some title, vs_updated := now\<rparr>)\<rparr>)"

definition archive_session :: "string \<Rightarrow> string \<Rightarrow> rat \<Rightarrow> vstore \<Rightarrow> vstore" where
  "archive_session sid u now st = (case st_sessions st sid of None \<Rightarrow> st
     | Some s \<Rightarrow> if vs_user s \<noteq> u then st
         else let st1 = st\<lparr>st_sessions := (st_sessions st)(sid \<mapsto> s\<lparr>vs_status := ''deleted'', vs_updated := now\<rparr>)\<rparr>;
                  ids = opt_list (st_user_sessions st u)
              in if sid \<in> set ids then st1\<lparr>st_user_sessions := (st_user_sessions st)(u \<mapsto> remove1 sid ids)\<rparr> else st1)"

definition touch_session :: "string \<Rightarrow> rat \<Rightarrow> vstore \<Rightarrow> vstore" where
  "touch_session sid now st = (case st_sessions st sid of None \<Rightarrow> st
     | Some s \<Rightarrow> st\<lparr>st_sessions := (st_sessions st)(sid \<mapsto> s\<lparr>vs_updated := now,
         vs_count := length (opt_list (st_messages st sid)), vs_last_message := Some now\<rparr>)\<rparr>)"

definition create_message :: "rat \<Rightarrow> vmessage \<Rightarrow> vstore \<Rightarrow> vstore" where
  "create_message now msg st =
     (let sid = vm_session msg
      in touch_session sid now (st\<lparr>st_messages := (st_messages st)(sid \<mapsto> opt_list (st_messages st sid) @ [msg])\<rparr>))"

definition list_messages :: "string \<Rightarrow> nat \<Rightarrow> nat \<Rightarrow> vstore \<Rightarrow> vmessage list" where
  "list_messages sid lmt offset st = take lmt (drop offset (opt_list (st_messages st sid)))"

definition create_run :: "vrun \<Rightarrow> vstore \<Rightarrow> vstore" where
  "create_run r st = st\<lparr>st_runs := (st_runs st)(vr_id r \<mapsto> r)\<rparr>"

definition get_run :: "string \<Rightarrow> string \<Rightarrow> vstore \<Rightarrow> vrun option" where
  "get_run rid u st = (case st_runs st rid of None \<Rightarrow> None | Some r \<Rightarrow> if vr_user r = u then Some r else None)"

definition update_run :: "string \<Rightarrow> (vrun \<Rightarrow> vrun) \<Rightarrow> vstore \<Rightarrow> vstore" where
  "update_run rid upd st = (case st_runs st rid of None \<Rightarrow> st | Some r \<Rightarrow> st\<lparr>st_runs := (st_runs st)(rid \<mapsto> upd r)\<rparr>)"

definition cancel_run :: "string \<Rightarrow> string \<Rightarrow> rat \<Rightarrow> vstore \<Rightarrow> vstore" where
  "cancel_run rid u now = update_run rid (\<lambda>r. r\<lparr>vr_status := ''cancelled'', vr_cancelled_by := Some u, vr_completed := Some now\<rparr>)"

section \<open>Events\<close>

datatype vevent = RunStarted | ToolStart string string json | ToolEnd string string json | Delta string
  | Card string json | Done int int int | RunError string run_error bool

text \<open>The typed schema: the inputs, outputs and payloads must be objects.\<close>

fun valid_event :: "vevent \<Rightarrow> bool" where
  "valid_event (ToolStart i t x) = is_obj x"
| "valid_event (ToolEnd i t x) = is_obj x"
| "valid_event (Card t x) = is_obj x"
| "valid_event _ = True"

record stored_event =
  se_id :: string
  se_seq :: int
  se_event :: vevent

record event_store =
  es_redis :: "string \<Rightarrow> stored_event list"
  es_redis_seq :: "string \<Rightarrow> int"
  es_memory :: "string \<Rightarrow> stored_event list"
  es_seq_memory :: "string \<Rightarrow> int option"

text \<open>
  Which Redis commands of a call get through; with no Redis configured none does.
\<close>

record redis_up =
  ru_incr :: bool
  ru_push :: bool

definition next_seq :: "bool \<Rightarrow> string \<Rightarrow> event_store \<Rightarrow> int \<times> event_store" where
  "next_seq up rid es =
     (if up then let n = es_redis_seq es rid + 1 in (n - 1, es\<lparr>es_redis_seq := (es_redis_seq es)(rid := n)\<rparr>)
      else let n = (case es_seq_memory es rid of None \<Rightarrow> -1 | Some k \<Rightarrow> k) + 1
           in (n, es\<lparr>es_seq_memory := (es_seq_memory es)(rid \<mapsto> n)\<rparr>))"

definition publish :: "redis_up \<Rightarrow> string \<Rightarrow> string \<Rightarrow> vevent \<Rightarrow> event_store \<Rightarrow> event_store" where
  "publish up rid eid ev es =
     (let (seq, es1) = next_seq (ru_incr up) rid es;
          rec = \<lparr>se_id = eid, se_seq = seq, se_event = ev\<rparr>
      in if \<not> valid_event ev then es1
         else if ru_push up then es1\<lparr>es_redis := (es_redis es1)(rid := es_redis es1 rid @ [rec])\<rparr>
         else es1\<lparr>es_memory := (es_memory es1)(rid := es_memory es1 rid @ [rec])\<rparr>)"

definition fetch_all :: "bool \<Rightarrow> string \<Rightarrow> event_store \<Rightarrow> stored_event list" where
  "fetch_all up rid es = (if up then es_redis es rid else es_memory es rid)"

definition fetch_range :: "bool \<Rightarrow> string \<Rightarrow> nat \<Rightarrow> nat \<Rightarrow> event_store \<Rightarrow> stored_event list" where
  "fetch_range up rid offset lmt es = take lmt (drop offset (fetch_all up rid es))"

text \<open>\<open>xs[-n:]\<close> of Python: the last \<open>n\<close>, and everything for \<open>n = 0\<close>.\<close>

definition last_n :: "nat \<Rightarrow> 'a list \<Rightarrow> 'a list" where
  "last_n n xs = (if n = 0 then xs else drop (length xs - n) xs)"

definition after_id :: "string \<Rightarrow> stored_event list \<Rightarrow> stored_event list" where
  "after_id eid evs = tl (dropWhile (\<lambda>e. se_id e \<noteq> eid) evs)"

definition get_events :: "bool \<Rightarrow> string \<Rightarrow> string option \<Rightarrow> nat option \<Rightarrow> nat option \<Rightarrow> nat \<Rightarrow> event_store \<Rightarrow> stored_event list" where
  "get_events up rid after aft_seq offset lmt es =
     (case aft_seq of Some k \<Rightarrow> fetch_range up rid (k + 1) lmt es
      | None \<Rightarrow> (case after of Some eid \<Rightarrow> last_n lmt (after_id eid (fetch_all up rid es))
         | None \<Rightarrow> fetch_range up rid (case offset of None \<Rightarrow> 0 | Some k \<Rightarrow> k) lmt es))"

definition clear_events :: "bool \<Rightarrow> string \<Rightarrow> event_store \<Rightarrow> event_store" where
  "clear_events up rid es =
     (let es1 = (if up then es\<lparr>es_redis := (es_redis es)(rid := []), es_redis_seq := (es_redis_seq es)(rid := 0)\<rparr> else es)
      in es1\<lparr>es_memory := (es_memory es1)(rid := []), es_seq_memory := (es_seq_memory es1)(rid := None)\<rparr>)"

section \<open>The event stream of a client\<close>

fun terminal_event :: "vevent \<Rightarrow> bool" where
  "terminal_event (Done _ _ _) = True"
| "terminal_event (RunError _ _ _) = True"
| "terminal_event _ = False"

text \<open>The inner loop over one batch: what is sent, and whether it ended the stream.\<close>

fun send_batch :: "stored_event list \<Rightarrow> stored_event list \<times> bool" where
  "send_batch [] = ([], False)"
| "send_batch (e # es) = (if terminal_event (se_event e) then ([e], True)
     else case send_batch es of (out, fin) \<Rightarrow> (e # out, fin))"

definition run_is_terminal :: "string option \<Rightarrow> bool" where
  "run_is_terminal s = (s \<in> {Some ''completed'', Some ''failed'', Some ''cancelled''})"

text \<open>
  One list element per poll: the store at that moment and the status of the run. The result is
  what was sent and whether the stream has ended (by a terminal event or by the timeout).
\<close>

fun stream_events :: "nat \<Rightarrow> string \<Rightarrow> nat \<Rightarrow> nat \<Rightarrow> (event_store \<times> string option) list \<Rightarrow> stored_event list \<times> bool" where
  "stream_events max_empty rid seen empties [] = ([], max_empty \<le> empties)"
| "stream_events max_empty rid seen empties ((es, status) # polls) =
     (if max_empty \<le> empties then ([], True)
      else
        let events = get_events True rid None None (Some seen) 50 es in
        case send_batch events of
          (out, True) \<Rightarrow> (out, True)
        | (out, False) \<Rightarrow>
            let empties1 = (if events = [] then (if run_is_terminal status then empties + 1 else 0) else empties)
            in case stream_events max_empty rid (seen + length out) empties1 polls of (rest, fin) \<Rightarrow> (out @ rest, fin))"

section \<open>Lemmas of the event store\<close>

definition publish_all :: "redis_up \<Rightarrow> string \<Rightarrow> (string \<times> vevent) list \<Rightarrow> event_store \<Rightarrow> event_store" where
  "publish_all up rid evs es = fold (\<lambda>(eid, ev). publish up rid eid ev) evs es"

lemma next_seq_redis [simp]: "es_redis (snd (next_seq up rid es)) = es_redis es"
  by (simp add: next_seq_def Let_def split: option.splits)

lemma publish_redis:
  assumes "ru_push up"
  shows "map se_event (es_redis (publish up rid eid ev es) rid) =
    map se_event (es_redis es rid) @ (if valid_event ev then [ev] else [])"
proof -
  obtain q es1 where n: "next_seq (ru_incr up) rid es = (q, es1)" by (meson surj_pair)
  then have "es_redis es1 = es_redis es" using next_seq_redis [of "ru_incr up" rid es] by simp
  then show ?thesis using assms by (simp add: publish_def n)
qed

lemma publish_all_redis:
  "ru_push up \<Longrightarrow> map se_event (es_redis (publish_all up rid evs es) rid) =
     map se_event (es_redis es rid) @ filter valid_event (map snd evs)"
proof (induction evs arbitrary: es)
  case (Cons e evs)
  then have "map se_event (es_redis (publish_all up rid evs (publish up rid (fst e) (snd e) es)) rid) =
      map se_event (es_redis (publish up rid (fst e) (snd e) es) rid) @ filter valid_event (map snd evs)" by blast
  with Cons.prems show ?case by (simp add: publish_all_def publish_redis case_prod_unfold)
qed (simp add: publish_all_def)

text \<open>
  While every event is valid and Redis is up, the sequence number of an event is its index in the
  list, so resuming after a sequence number neither skips nor repeats. A dropped event leaves a
  gap, and from then on the two differ.
\<close>

definition seq_is_index :: "string \<Rightarrow> event_store \<Rightarrow> bool" where
  "seq_is_index rid es = (map se_seq (es_redis es rid) = map int [0..<length (es_redis es rid)] \<and>
     es_redis_seq es rid = int (length (es_redis es rid)))"

lemma publish_seq:
  assumes "ru_incr up" "ru_push up" "valid_event ev" "seq_is_index rid es"
  shows "seq_is_index rid (publish up rid eid ev es)"
  using assms by (auto simp: publish_def next_seq_def Let_def seq_is_index_def)

lemma resume_exact:
  assumes "seq_is_index rid es" "k < length (es_redis es rid)"
  shows "get_events True rid None (Some k) None lmt es = take lmt (filter (\<lambda>e. int k < se_seq e) (es_redis es rid))"
proof -
  let ?L = "es_redis es rid"
  have seq: "se_seq (?L ! i) = int i" if "i < length ?L" for i
    using assms(1) that unfolding seq_is_index_def by (metis nth_map nth_upt add_0 length_map length_upt diff_zero)
  have "filter (\<lambda>e. int k < se_seq e) ?L = drop (k + 1) ?L"
  proof -
    have "filter (\<lambda>e. int k < se_seq e) (take (k + 1) ?L) = []"
      using seq by (auto simp: filter_empty_conv in_set_conv_nth)
    moreover have "filter (\<lambda>e. int k < se_seq e) (drop (k + 1) ?L) = drop (k + 1) ?L"
      using seq by (auto simp: filter_id_conv in_set_conv_nth)
    ultimately show ?thesis by (metis append_take_drop_id filter_append append_Nil)
  qed
  then show ?thesis by (simp add: get_events_def fetch_range_def fetch_all_def)
qed

lemma dropped_event_leaves_gap:
  assumes "seq_is_index rid es" "ru_incr up" "ru_push up" "\<not> valid_event bad" "valid_event ev"
  shows "se_seq (last (es_redis (publish up rid eid ev (publish up rid eid' bad es)) rid)) =
    int (length (es_redis es rid)) + 1"
  using assms by (auto simp: publish_def next_seq_def Let_def seq_is_index_def)

text \<open>
  Polling by event id returns the newest events behind the cursor, not the next ones: with more
  than the limit waiting, the first of them is left out.
\<close>

lemma polling_skips:
  assumes "fetch_all up rid es = before @ cur # behind" "se_id cur \<notin> se_id ` set before" "0 < lmt" "lmt < length behind"
  shows "get_events up rid (Some (se_id cur)) None offset lmt es = drop (length behind - lmt) behind"
proof -
  have "dropWhile (\<lambda>e. se_id e \<noteq> se_id cur) (before @ cur # behind) = cur # behind"
    using assms(2) by (induction before) auto
  then show ?thesis using assms by (simp add: get_events_def after_id_def last_n_def)
qed

section \<open>Lemmas of the event stream\<close>

definition upto_terminal :: "stored_event list \<Rightarrow> stored_event list" where
  "upto_terminal es = (let P = (\<lambda>e. \<not> terminal_event (se_event e)) in takeWhile P es @ take 1 (dropWhile P es))"

definition has_terminal :: "stored_event list \<Rightarrow> bool" where
  "has_terminal es = (\<exists>e \<in> set es. terminal_event (se_event e))"

lemma upto_terminal_Cons [simp]:
  "upto_terminal [] = []"
  "upto_terminal (e # es) = (if terminal_event (se_event e) then [e] else e # upto_terminal es)"
  by (simp_all add: upto_terminal_def Let_def)

lemma has_terminal_Cons [simp]:
  "has_terminal [] = False" "has_terminal (e # es) = (terminal_event (se_event e) \<or> has_terminal es)"
  "has_terminal (xs @ ys) = (has_terminal xs \<or> has_terminal ys)"
  by (auto simp: has_terminal_def)

lemma send_batch_eq: "send_batch es = (upto_terminal es, has_terminal es)"
  by (induction es) auto

lemma upto_terminal_append:
  "upto_terminal (xs @ ys) = (if has_terminal xs then upto_terminal xs else xs @ upto_terminal ys)"
  by (induction xs) auto

lemma upto_terminal_none: "\<not> has_terminal xs \<Longrightarrow> upto_terminal xs = xs"
  by (induction xs) auto

lemma batch_of_prefix:
  assumes "prefix L F"
  shows "\<exists>rest. drop n F = take m (drop n L) @ rest"
proof -
  obtain T where "F = L @ T" using assms by (auto simp: prefix_def)
  then have "drop n F = drop n L @ drop (n - length L) T" by simp
  then show ?thesis by (metis append.assoc append_take_drop_id)
qed

lemma stream_sound:
  "(\<And>es s. (es, s) \<in> set polls \<Longrightarrow> prefix (es_redis es rid) F) \<Longrightarrow> seen \<le> length F \<Longrightarrow>
     stream_events me rid seen k polls = (out, fin) \<Longrightarrow> prefix out (upto_terminal (drop seen F))"
proof (induction polls arbitrary: seen k out fin)
  case (Cons p polls)
  obtain es s where p: "p = (es, s)" by (cases p)
  let ?B = "take 50 (drop seen (es_redis es rid))"
  obtain rest where F: "drop seen F = ?B @ rest"
    using batch_of_prefix [of "es_redis es rid" F seen 50] Cons.prems(1) p by auto
  have ev: "get_events True rid None None (Some seen) 50 es = ?B"
    by (simp add: get_events_def fetch_range_def fetch_all_def)
  show ?case
  proof (cases "me \<le> k")
    case True
    then show ?thesis using Cons.prems(3) p by auto
  next
    case False
    show ?thesis
    proof (cases "has_terminal ?B")
      case True
      then show ?thesis using Cons.prems(3) p False ev F by (simp add: send_batch_eq upto_terminal_append)
    next
      case none: False
      obtain k1 out1 where r: "stream_events me rid (seen + length ?B) k1 polls = (out1, fin)" "out = ?B @ out1"
        using Cons.prems(3) p False none ev
        by (auto simp: send_batch_eq upto_terminal_none Let_def split: prod.splits)
      have len: "seen + length ?B \<le> length F" using F Cons.prems(2) by (metis length_append length_drop le_add1 le_diff_conv2 add.commute)
      have "drop (seen + length ?B) F = rest" using F by (metis append_eq_conv_conj drop_drop add.commute)
      with Cons.IH [OF _ len r(1)] Cons.prems(1) show ?thesis
        using F none r(2) by (auto simp: upto_terminal_append)
    qed
  qed
qed simp

text \<open>
  Once the store holds the whole run, every poll sends the next fifty events, so
  enough polls reach the terminal event. Before that, polls do no harm while the run is active, however many they are; only
  those that find the status already terminal must be fewer than the timeout.
\<close>

lemma stream_late:
  "\<forall>p \<in> set polls. es_redis (fst p) rid = F \<Longrightarrow> has_terminal (drop seen F) \<Longrightarrow> k < me \<Longrightarrow>
     length (drop seen F) \<le> 50 * length polls \<Longrightarrow>
     stream_events me rid seen k polls = (upto_terminal (drop seen F), True)"
proof (induction polls arbitrary: seen)
  case (Cons p polls)
  obtain es s where p: "p = (es, s)" by (cases p)
  let ?B = "take 50 (drop seen F)"
  have ev: "get_events True rid None None (Some seen) 50 es = ?B"
    using Cons.prems(1) p by (simp add: get_events_def fetch_range_def fetch_all_def)
  have F: "drop seen F = ?B @ drop 50 (drop seen F)" by (rule append_take_drop_id [symmetric])
  have ne: "?B \<noteq> []" using Cons.prems(2) by auto
  show ?case
  proof (cases "has_terminal ?B")
    case True
    then have "upto_terminal (drop seen F) = upto_terminal ?B"
      using upto_terminal_append [of ?B "drop 50 (drop seen F)"] F by metis
    then show ?thesis using Cons.prems(3) p ev True by (simp add: send_batch_eq)
  next
    case none: False
    then have t: "has_terminal (drop 50 (drop seen F))" using Cons.prems(2) F by (metis has_terminal_Cons(3))
    then have long: "length ?B = 50" by (cases "50 \<le> length (drop seen F)") auto
    have "stream_events me rid (seen + 50) k polls = (upto_terminal (drop (seen + 50) F), True)"
      using Cons.IH [of "seen + 50"] Cons.prems(1,3,4) t by (auto simp: add.commute)
    moreover have "upto_terminal (drop seen F) = ?B @ upto_terminal (drop (seen + 50) F)"
      using upto_terminal_append [of ?B "drop 50 (drop seen F)"] F none by (metis drop_drop add.commute)
    ultimately show ?thesis
      using Cons.prems(3) p ev ne none long by (simp add: send_batch_eq upto_terminal_none Let_def)
  qed
qed auto

lemma stream_complete:
  "\<forall>p \<in> set early. prefix (es_redis (fst p) rid) F \<Longrightarrow> \<forall>p \<in> set late. es_redis (fst p) rid = F \<Longrightarrow> seen \<le> length F \<Longrightarrow> has_terminal (drop seen F) \<Longrightarrow>
   k + length (filter (run_is_terminal \<circ> snd) early) < me \<Longrightarrow> length F \<le> 50 * length late \<Longrightarrow>
   stream_events me rid seen k (early @ late) = (upto_terminal (drop seen F), True)"
proof (induction early arbitrary: seen k)
  case Nil
  then show ?case using stream_late [of late rid F seen k me] by simp
next
  case (Cons p early)
  obtain es s where p: "p = (es, s)" by (cases p)
  let ?B = "take 50 (drop seen (es_redis es rid))"
  obtain rest where F: "drop seen F = ?B @ rest"
    using batch_of_prefix [of "es_redis es rid" F seen 50] Cons.prems(1) p by auto
  have ev: "get_events True rid None None (Some seen) 50 es = ?B"
    by (simp add: get_events_def fetch_range_def fetch_all_def)
  show ?case
  proof (cases "has_terminal ?B")
    case True
    then show ?thesis using Cons.prems(5) p ev F by (simp add: send_batch_eq upto_terminal_append)
  next
    case none: False
    define k1 where "k1 = (if ?B = [] then (if run_is_terminal s then k + 1 else 0) else k)"
    have k1: "k1 + length (filter (run_is_terminal \<circ> snd) early) < me"
      using Cons.prems(5) by (auto simp: k1_def p comp_def split: if_splits)
    have len: "seen + length ?B \<le> length F"
      using F Cons.prems(3) by (metis length_append length_drop le_add1 le_diff_conv2 add.commute)
    have rest: "drop (seen + length ?B) F = rest" using F by (metis append_eq_conv_conj drop_drop add.commute)
    then have t: "has_terminal (drop (seen + length ?B) F)" using Cons.prems(4) F none by (metis has_terminal_Cons(3))
    have "stream_events me rid (seen + length ?B) k1 (early @ late) = (upto_terminal rest, True)"
      using Cons.IH [OF _ Cons.prems(2) len t k1 Cons.prems(6)] Cons.prems(1) rest by auto
    then show ?thesis
      using Cons.prems(5) p ev F none by (simp add: send_batch_eq upto_terminal_none upto_terminal_append Let_def k1_def)
  qed
qed

section \<open>The session store stays consistent\<close>

datatype vop = OCreate string rat string "string option" json | OTitle string rat string | OArchive string string rat
  | OMessage rat vmessage | ORun vrun | OUpdate string "vrun \<Rightarrow> vrun"

fun vexec :: "vop \<Rightarrow> vstore \<Rightarrow> vstore" where
  "vexec (OCreate sid now u title ctx) st = snd (create_session sid now u title ctx st)"
| "vexec (OTitle sid now title) st = update_session_title sid now title st"
| "vexec (OArchive sid u now) st = archive_session sid u now st"
| "vexec (OMessage now msg) st = create_message now msg st"
| "vexec (ORun r) st = create_run r st"
| "vexec (OUpdate rid f) st = update_run rid f st"

fun created :: "vop \<Rightarrow> string list" where
  "created (OCreate sid _ _ _ _) = [sid]"
| "created _ = []"

definition user_ids :: "vstore \<Rightarrow> string \<Rightarrow> string list" where
  "user_ids st u = opt_list (st_user_sessions st u)"

definition is_active :: "vstore \<Rightarrow> string \<Rightarrow> string \<Rightarrow> bool" where
  "is_active st u sid = (case st_sessions st sid of None \<Rightarrow> False | Some s \<Rightarrow> vs_user s = u \<and> vs_status s = ''active'')"

definition store_ok :: "string set \<Rightarrow> vstore \<Rightarrow> bool" where
  "store_ok used st = ((\<forall>sid s. st_sessions st sid = Some s \<longrightarrow> sid \<in> used \<and> vs_id s = sid \<and>
       vs_count s = length (opt_list (st_messages st sid))) \<and>
     (\<forall>u. distinct (user_ids st u) \<and> set (user_ids st u) = {sid. is_active st u sid}))"

definition empty_store :: vstore where
  "empty_store = \<lparr>st_sessions = (\<lambda>_. None), st_messages = (\<lambda>_. None), st_runs = (\<lambda>_. None), st_user_sessions = (\<lambda>_. None)\<rparr>"

lemma opt_list_simps [simp]: "opt_list None = []" "opt_list (Some xs) = xs"
  by (simp_all add: opt_list_def)

lemma create_session_ok:
  assumes "store_ok used st" "sid \<notin> used"
  shows "store_ok (insert sid used) (snd (create_session sid now u title ctx st))"
proof -
  have n: "st_sessions st sid = None" using assms unfolding store_ok_def by (metis option.exhaust)
  then have "\<not> is_active st v sid" for v by (simp add: is_active_def)
  then have f: "sid \<notin> set (user_ids st v)" for v using assms(1) unfolding store_ok_def by blast
  let ?st = "snd (create_session sid now u title ctx st)"
  have ids: "user_ids ?st v = (if v = u then sid # user_ids st u else user_ids st v)" for v
    using f [of u] by (simp add: create_session_def Let_def user_ids_def)
  have act: "is_active ?st v x \<longleftrightarrow> (if x = sid then v = u else is_active st v x)" for v x
    by (auto simp: create_session_def Let_def is_active_def)
  show ?thesis
    unfolding store_ok_def
  proof (intro conjI allI impI)
    fix x s assume "st_sessions ?st x = Some s"
    then show "x \<in> insert sid used" "vs_id s = x" "vs_count s = length (opt_list (st_messages ?st x))"
      using assms(1) by (auto simp: create_session_def Let_def store_ok_def split: if_splits)
  next
    fix v show "distinct (user_ids ?st v)" using ids f assms(1) by (simp add: store_ok_def)
  next
    fix v show "set (user_ids ?st v) = {x. is_active ?st v x}"
      using assms(1) ids act f n by (auto simp: store_ok_def is_active_def)
  qed
qed

text \<open>An update that keeps owner, status and the exact count keeps the invariant.\<close>

lemma same_sessions_ok:
  assumes "store_ok used st" "\<And>u. user_ids st' u = user_ids st u" "\<And>u x. is_active st' u x = is_active st u x"
    "\<And>x s. st_sessions st' x = Some s \<Longrightarrow> st_sessions st x \<noteq> None \<and> vs_id s = x \<and> vs_count s = length (opt_list (st_messages st' x))"
  shows "store_ok used st'"
  using assms unfolding store_ok_def by (metis (mono_tags, lifting) not_None_eq Collect_cong)

lemma title_ok: "store_ok used st \<Longrightarrow> store_ok used (update_session_title sid now t st)"
  by (rule same_sessions_ok, assumption)
    (auto simp: update_session_title_def user_ids_def is_active_def store_ok_def split: option.splits if_splits)

lemma message_ok: "store_ok used st \<Longrightarrow> store_ok used (create_message now m st)"
  by (rule same_sessions_ok, assumption)
    (auto simp: create_message_def touch_session_def Let_def user_ids_def is_active_def store_ok_def split: option.splits if_splits)

lemma run_ops_ok: "store_ok used st \<Longrightarrow> store_ok used (create_run r st)" "store_ok used st \<Longrightarrow> store_ok used (update_run rid f st)"
  by (rule same_sessions_ok, assumption,
      auto simp: create_run_def update_run_def user_ids_def is_active_def store_ok_def split: option.splits)+

lemma archive_ok:
  assumes "store_ok used st"
  shows "store_ok used (archive_session sid u now st)"
proof (cases "\<exists>s. st_sessions st sid = Some s \<and> vs_user s = u")
  case False
  then show ?thesis using assms by (auto simp: archive_session_def split: option.splits)
next
  case True
  then obtain s where s: "st_sessions st sid = Some s" "vs_user s = u" by blast
  let ?st = "archive_session sid u now st"
  have ids: "user_ids ?st v = (if v = u then remove1 sid (user_ids st u) else user_ids st v)" for v
    using s by (auto simp: archive_session_def Let_def user_ids_def remove1_idem)
  have act: "is_active ?st v x \<longleftrightarrow> x \<noteq> sid \<and> is_active st v x" for v x
    using s by (auto simp: archive_session_def Let_def is_active_def split: option.splits)
  have other: "sid \<notin> set (user_ids st v)" if "v \<noteq> u" for v
    using assms s that by (auto simp: store_ok_def is_active_def)
  show ?thesis
    unfolding store_ok_def
  proof (intro conjI allI impI)
    fix x r assume "st_sessions ?st x = Some r"
    then show "x \<in> used" "vs_id r = x" "vs_count r = length (opt_list (st_messages ?st x))"
      using assms s by (auto simp: archive_session_def Let_def store_ok_def split: if_splits)
  next
    fix v show "distinct (user_ids ?st v)" using ids assms by (simp add: store_ok_def distinct_remove1)
  next
    fix v show "set (user_ids ?st v) = {x. is_active ?st v x}"
    proof (cases "v = u")
      case True
      then show ?thesis using assms ids act by (auto simp: store_ok_def)
    next
      case False
      then show ?thesis using assms ids act other [OF False] by (auto simp: store_ok_def)
    qed
  qed
qed

lemma vexec_ok:
  assumes "store_ok used st" "set (created x) \<inter> used = {}"
  shows "store_ok (set (created x) \<union> used) (vexec x st)"
  using assms by (cases x) (auto intro: create_session_ok title_ok archive_ok message_ok run_ops_ok)

lemma vops_ok:
  "store_ok used st \<Longrightarrow> distinct (concat (map created xs)) \<Longrightarrow> set (concat (map created xs)) \<inter> used = {} \<Longrightarrow>
     \<exists>used'. store_ok used' (fold vexec xs st)"
proof (induction xs arbitrary: used st)
  case (Cons x xs)
  have "store_ok (set (created x) \<union> used) (vexec x st)" using vexec_ok Cons.prems by auto
  then show ?case using Cons.IH [of "set (created x) \<union> used" "vexec x st"] Cons.prems by auto
qed auto

lemma set_newest_first [simp]: "set (newest_first ss) = set ss"
  by (simp add: newest_first_def)

lemma newest_first_sorted: "sorted (rev (map vs_updated (newest_first ss)))"
  by (simp add: newest_first_def rev_map [symmetric])

lemma set_map_filter_iff: "y \<in> set (List.map_filter f xs) \<longleftrightarrow> (\<exists>x \<in> set xs. f x = Some y)"
  by (induction xs) (auto simp: List.map_filter_def split: option.splits)

text \<open>
  In any state a session of calls reaches, from an empty store with fresh session ids, a user's
  listing is exactly the user's own active sessions, newest first, and each counts its messages.
\<close>

theorem listing_exact:
  assumes "distinct (concat (map created xs))"
  shows "let st = fold vexec xs empty_store; all = list_sessions u (length (user_ids st u)) 0 ''active'' st in
    set all = {s. \<exists>sid. st_sessions st sid = Some s \<and> vs_user s = u \<and> vs_status s = ''active''} \<and>
    sorted (rev (map vs_updated all)) \<and> (\<forall>s \<in> set all. vs_count s = length (opt_list (st_messages st (vs_id s))))"
proof -
  let ?st = "fold vexec xs empty_store"
  have "store_ok {} empty_store" by (simp add: store_ok_def empty_store_def user_ids_def is_active_def)
  from vops_ok [OF this assms] obtain used where ok: "store_ok used ?st" by auto
  let ?found = "List.map_filter (\<lambda>sid. case st_sessions ?st sid of
                    Some s \<Rightarrow> if vs_status s = ''active'' then Some s else None | None \<Rightarrow> None) (user_ids ?st u)"
  have len: "length (newest_first ?found) \<le> length (user_ids ?st u)"
    by (simp add: newest_first_def List.map_filter_def)
  then have all: "list_sessions u (length (user_ids ?st u)) 0 ''active'' ?st = newest_first ?found"
    by (simp add: list_sessions_def Let_def user_ids_def)
  have "set ?found = {s. \<exists>sid. st_sessions ?st sid = Some s \<and> vs_user s = u \<and> vs_status s = ''active''}"
  proof (rule set_eqI)
    fix s
    have "s \<in> set ?found \<longleftrightarrow> (\<exists>sid \<in> set (user_ids ?st u). st_sessions ?st sid = Some s \<and> vs_status s = ''active'')"
      by (auto simp: set_map_filter_iff split: option.splits if_splits)
    also have "\<dots> \<longleftrightarrow> s \<in> {s. \<exists>sid. st_sessions ?st sid = Some s \<and> vs_user s = u \<and> vs_status s = ''active''}"
      using ok by (auto simp: store_ok_def is_active_def split: option.splits)
    finally show "s \<in> set ?found \<longleftrightarrow> s \<in> {s. \<exists>sid. st_sessions ?st sid = Some s \<and> vs_user s = u \<and> vs_status s = ''active''}" .
  qed
  then show ?thesis
    unfolding Let_def all using newest_first_sorted ok by (auto simp: store_ok_def)
qed

end
