(* ===== verification/VibeRun.thy ===== *)
theory VibeRun
  imports VibeStore
begin

text \<open>
  One run of the assistant: the prompt and its history (\<open>app/services/vibe/context.py\<close>), the tool
  registry (\<open>tools/registry.py\<close>, \<open>tools/base.py\<close>) and the agent loop (\<open>orchestrator.py\<close>) over the
  stores of VibeStore. The language model, the tools, the cancellation flag, the ledger's replies,
  times and fresh ids are arguments.
\<close>

section \<open>Tools\<close>

record tool_output =
  to_status :: string
  to_data :: json
  to_error :: "string option"
  to_summary :: "string option"

text \<open>
  A registered tool: the required keys of its schema, and what running it on an input does: return,
  raise, or not finish within the time limit.
\<close>

datatype tool_result = ToolReturns tool_output | ToolRaises string | ToolHangs

record vtool =
  tl_required :: "string list"
  tl_run :: "json \<Rightarrow> tool_result"

definition tool_success :: "json \<Rightarrow> string option \<Rightarrow> tool_output" where
  "tool_success d s = \<lparr>to_status = ''completed'', to_data = d, to_error = None, to_summary = s\<rparr>"

definition tool_from_error :: "string \<Rightarrow> string \<Rightarrow> tool_output" where
  "tool_from_error msg code = \<lparr>to_status = ''error'', to_data = JObj [(''code'', JStr code)], to_error = Some msg, to_summary = None\<rparr>"

definition tool_invalid_input :: "string \<Rightarrow> tool_output" where
  "tool_invalid_input msg = \<lparr>to_status = ''invalid_input'', to_data = JObj [], to_error = Some msg, to_summary = None\<rparr>"

definition tool_timeout :: "string \<Rightarrow> tool_output" where
  "tool_timeout msg = \<lparr>to_status = ''timeout'', to_data = JObj [(''code'', JStr ''TIMEOUT'')], to_error = Some msg, to_summary = None\<rparr>"

text \<open>
  The first required key that is absent or null. \<open>key not in input\<close> works on any iterable
  document; indexing needs an object, and a number or null has no membership test at all.
\<close>

datatype validation = InputValid | InputMissing string | InputTypeError

definition validate_input :: "string list \<Rightarrow> json \<Rightarrow> validation" where
  "validate_input required inp =
     (case inp of
        JObj d \<Rightarrow> (case find (\<lambda>k. jget inp k = JNull) required of None \<Rightarrow> InputValid | Some k \<Rightarrow> InputMissing k)
      | JList xs \<Rightarrow> (case required of [] \<Rightarrow> InputValid | k # _ \<Rightarrow> if JStr k \<in> set xs then InputTypeError else InputMissing k)
      | JStr s \<Rightarrow> (case required of [] \<Rightarrow> InputValid | k # _ \<Rightarrow> if str_in k s then InputTypeError else InputMissing k)
      | _ \<Rightarrow> (case required of [] \<Rightarrow> InputValid | _ \<Rightarrow> InputTypeError))"

text \<open>
  \<open>ToolOutput.error(\<dots>)\<close> is the field's default, \<open>None\<close>, called: an unknown tool and a tool that
  raises therefore raise a \<open>TypeError\<close>.
\<close>

definition registry_execute :: "(string \<Rightarrow> vtool option) \<Rightarrow> string \<Rightarrow> json \<Rightarrow> run_error + tool_output" where
  "registry_execute tools nm inp =
     (case tools nm of
        None \<Rightarrow> Inl TypeErrorNotCallable
      | Some t \<Rightarrow> (case validate_input (tl_required t) inp of
           InputMissing k \<Rightarrow> Inr (tool_invalid_input k)
         | InputTypeError \<Rightarrow> Inl (Raised ''TypeError'')
         | InputValid \<Rightarrow> (case tl_run t inp of
              ToolReturns out \<Rightarrow> Inr out
            | ToolHangs \<Rightarrow> Inr (tool_timeout nm)
            | ToolRaises e \<Rightarrow> Inl TypeErrorNotCallable)))"

section \<open>Prompt and history\<close>

text \<open>
  The content of a prompt message: plain text, the JSON of a tool result, the system prompt with
  its parts, or the summary of older messages with one line per message.
\<close>

datatype summary_line = AskedBefore string | AnsweredBefore string

datatype pcontent = PText string | PJson json | PSystem json json "string option" | PSummary "summary_line list"

record pmessage =
  pm_role :: string
  pm_content :: pcontent
  pm_tool_calls :: "tool_call list option"
  pm_tool_call_id :: "string option"

definition plain :: "string \<Rightarrow> pcontent \<Rightarrow> pmessage" where
  "plain r c = \<lparr>pm_role = r, pm_content = c, pm_tool_calls = None, pm_tool_call_id = None\<rparr>"

fun text_of :: "pcontent \<Rightarrow> string" where
  "text_of (PText s) = s"
| "text_of _ = []"

definition summary_of :: "pmessage \<Rightarrow> summary_line option" where
  "summary_of m = (if pm_role m = ''user'' then Some (AskedBefore (take 100 (text_of (pm_content m))))
     else if pm_role m = ''assistant'' then Some (AnsweredBefore (take 100 (text_of (pm_content m)))) else None)"

definition MAX_RECENT :: nat where
  "MAX_RECENT = 6"

definition compress_messages :: "pmessage list \<Rightarrow> pmessage list" where
  "compress_messages ms =
     (if length ms \<le> MAX_RECENT then ms
      else let older = take (length ms - MAX_RECENT) ms; recent = drop (length ms - MAX_RECENT) ms
           in plain ''system'' (PSummary (List.map_filter summary_of older)) # recent)"

definition format_message :: "vmessage \<Rightarrow> pmessage" where
  "format_message m =
     (if vm_role m = ''tool'' then
        \<lparr>pm_role = ''tool'', pm_content = PJson (case vm_tool_summary m of Some d \<Rightarrow> if jtruthy d then d else JObj [] | None \<Rightarrow> JObj []),
         pm_tool_calls = None, pm_tool_call_id = vm_tool_call_id m\<rparr>
      else if vm_role m = ''assistant'' then
        \<lparr>pm_role = ''assistant'', pm_content = PText (case vm_content m of None \<Rightarrow> [] | Some s \<Rightarrow> s),
         pm_tool_calls = vm_tool_calls m, pm_tool_call_id = None\<rparr>
      else plain (vm_role m) (PText (case vm_content m of None \<Rightarrow> [] | Some s \<Rightarrow> s)))"

definition load_history :: "string \<Rightarrow> vstore \<Rightarrow> pmessage list" where
  "load_history sid st = compress_messages (map format_message (list_messages sid 50 0 st))"

definition context_get :: "json \<Rightarrow> string \<Rightarrow> string \<Rightarrow> json" where
  "context_get ctx k d = (case ctx of JObj kv \<Rightarrow> get_default kv k (JStr d) | _ \<Rightarrow> JStr d)"

section \<open>The agent loop\<close>

record llm_response =
  lr_content :: "string option"
  lr_tool_calls :: "tool_call list"
  lr_in :: int
  lr_out :: int
  lr_error :: "string option"

text \<open>The model is asked with the messages so far; \<open>chat\<close> may raise.\<close>

type_synonym llm = "pmessage list \<Rightarrow> string + llm_response"

record agent =
  ag_messages :: "pmessage list"
  ag_events :: "vevent list"
  ag_in :: int
  ag_out :: int
  ag_polls :: nat
  ag_calls :: nat

text \<open>The number in \<open>VIBE_MAX_ITERATIONS\<close>, ten when it is not set; \<open>range\<close> of a negative number is empty.\<close>

definition MAX_ITERATIONS :: "int option \<Rightarrow> nat" where
  "MAX_ITERATIONS vibe_max_iterations = nat (case vibe_max_iterations of None \<Rightarrow> 10 | Some n \<Rightarrow> n)"

definition emit :: "vevent \<Rightarrow> agent \<Rightarrow> agent" where
  "emit e a = a\<lparr>ag_events := ag_events a @ [e]\<rparr>"

definition say :: "pmessage \<Rightarrow> agent \<Rightarrow> agent" where
  "say m a = a\<lparr>ag_messages := ag_messages a @ [m]\<rparr>"

text \<open>The cancellation flag is read before each model call and before each tool call.\<close>

definition poll_cancel :: "(nat \<Rightarrow> bool) \<Rightarrow> agent \<Rightarrow> bool \<times> agent" where
  "poll_cancel cancelled a = (cancelled (ag_polls a), a\<lparr>ag_polls := ag_polls a + 1\<rparr>)"

definition output_json :: "tool_output \<Rightarrow> json" where
  "output_json out = JObj [(''status'', JStr (to_status out)), (''data'', to_data out),
     (''error'', (case to_error out of None \<Rightarrow> JNull | Some s \<Rightarrow> JStr s)),
     (''summary'', (case to_summary out of None \<Rightarrow> JNull | Some s \<Rightarrow> JStr s))]"

definition execute_tool :: "(string \<Rightarrow> vtool option) \<Rightarrow> tool_call \<Rightarrow> agent \<Rightarrow> (run_error + tool_output) \<times> agent" where
  "execute_tool tools tc a =
     (let a1 = emit (ToolStart (tc_id tc) (tc_name tc) (tc_args tc)) a in
      case registry_execute tools (tc_name tc) (tc_args tc) of
        Inl e \<Rightarrow> (Inl e, a1)
      | Inr out \<Rightarrow> (Inr out, emit (ToolEnd (tc_id tc) (tc_name tc) (to_data out)) a1))"

fun run_tools :: "(string \<Rightarrow> vtool option) \<Rightarrow> (nat \<Rightarrow> bool) \<Rightarrow> tool_call list \<Rightarrow> agent \<Rightarrow> (run_error + unit) \<times> agent" where
  "run_tools tools cancelled [] a = (Inr (), a)"
| "run_tools tools cancelled (tc # tcs) a =
     (case poll_cancel cancelled a of
        (True, a1) \<Rightarrow> (Inl CancelledByUser, a1)
      | (False, a1) \<Rightarrow> (case execute_tool tools tc a1 of
           (Inl e, a2) \<Rightarrow> (Inl e, a2)
         | (Inr out, a2) \<Rightarrow> run_tools tools cancelled tcs
             (say \<lparr>pm_role = ''tool'', pm_content = PJson (output_json out), pm_tool_calls = None,
                   pm_tool_call_id = Some (tc_id tc)\<rparr> a2)))"

fun split_content :: "nat \<Rightarrow> string \<Rightarrow> string list" where
  "split_content n s = (if n = 0 \<or> s = [] then [] else take n s # split_content n (drop n s))"

datatype loop_end = Answered string | LimitHit

definition chat_content :: "llm_response \<Rightarrow> string" where
  "chat_content r = (case lr_content r of None \<Rightarrow> [] | Some s \<Rightarrow> s)"

fun agent_loop :: "llm \<Rightarrow> (string \<Rightarrow> vtool option) \<Rightarrow> (nat \<Rightarrow> bool) \<Rightarrow> nat \<Rightarrow> agent \<Rightarrow> (run_error + loop_end) \<times> agent" where
  "agent_loop chat tools cancelled 0 a = (Inr LimitHit, a)"
| "agent_loop chat tools cancelled (Suc n) a =
     (case poll_cancel cancelled a of
        (True, a1) \<Rightarrow> (Inl CancelledByUser, a1)
      | (False, a1) \<Rightarrow>
          let a2 = a1\<lparr>ag_calls := ag_calls a1 + 1\<rparr> in
          case chat (ag_messages a2) of
            Inl e \<Rightarrow> (Inl (Raised e), a2)
          | Inr r \<Rightarrow>
              let a3 = a2\<lparr>ag_in := ag_in a2 + lr_in r, ag_out := ag_out a2 + lr_out r\<rparr> in
              case lr_error r of
                Some e \<Rightarrow> (Inl (LlmError e), a3)
              | None \<Rightarrow>
                  if lr_tool_calls r \<noteq> [] then
                    (case run_tools tools cancelled (lr_tool_calls r)
                        (say \<lparr>pm_role = ''assistant'', pm_content = PText (chat_content r),
                              pm_tool_calls = Some (lr_tool_calls r), pm_tool_call_id = None\<rparr> a3) of
                       (Inl e, a4) \<Rightarrow> (Inl e, a4)
                     | (Inr _, a4) \<Rightarrow> agent_loop chat tools cancelled n a4)
                  else (Inr (Answered (chat_content r)),
                        fold (\<lambda>c. emit (Delta c)) (split_content 6 (chat_content r)) a3))"

section \<open>Cards and the end of a run\<close>

fun jstr :: "json \<Rightarrow> string" where
  "jstr (JStr s) = s"
| "jstr _ = []"

definition jget_default :: "json \<Rightarrow> string \<Rightarrow> json \<Rightarrow> json" where
  "jget_default d k v = (case d of JObj kv \<Rightarrow> get_default kv k v | _ \<Rightarrow> v)"

definition signal_from_analysis :: "json \<Rightarrow> json" where
  "signal_from_analysis d =
     (if jtruthy (jget d ''signal'') then jget d ''signal''
      else JObj [(''status'', JStr ''confirmed''), (''grade'', JStr ''C''),
        (''direction'', jget_default d ''direction'' (JStr ''long'')),
        (''pattern_name'', jget_default d ''pattern_type'' (JStr ''unknown'')),
        (''family'', jget_default d ''pattern_family'' (JStr ''unknown'')), (''formed'', JBool True),
        (''entry_zone'', JList [jget d ''entry_price'', jget d ''entry_price'']),
        (''entry_reference'', jget d ''entry_price''), (''stop_loss'', jget d ''stop_loss''),
        (''targets'', JList [JObj [(''label'', JStr ''TP1''), (''price'', jget d ''target_price''), (''close_pct'', JNum 100)]])])"

definition card_of :: "pmessage \<Rightarrow> (string \<times> json) option" where
  "card_of m =
     (case pm_content m of
        PJson c \<Rightarrow>
          if pm_role m \<noteq> ''tool'' then None
          else
            let d = (if jtruthy (jget c ''data'') then jget c ''data'' else JObj []);
                v = jstr (jget d ''schema_version'')
            in if jget c ''status'' \<noteq> JStr ''completed'' then None
               else if str_in ''analyze_harmonic'' v then Some (''signal'', signal_from_analysis d)
               else if str_in ''trade_signal'' v \<and> jtruthy (jget d ''signal'') then Some (''signal'', jget d ''signal'')
               else if str_in ''position_check'' v then Some (''position_check'', d)
               else if str_in ''backtest_signal'' v then Some (''backtest'', d)
               else None
      | _ \<Rightarrow> None)"

definition build_cards :: "pmessage list \<Rightarrow> (string \<times> json) list" where
  "build_cards ms = List.map_filter card_of ms"

definition tools_called :: "pmessage list \<Rightarrow> string list" where
  "tools_called ms = concat (map (\<lambda>m. if pm_role m = ''assistant'' then map tc_name (opt_list (pm_tool_calls m)) else []) ms)"

definition generate_title :: "string \<Rightarrow> string" where
  "generate_title prompt =
     (let title = take 30 (replace_char (CHR 0x0A) (CHR '' '') (strip prompt))
      in if 30 < length prompt then title @ ''...'' else title)"

datatype ledger_call = ConsumeCall "int option" "int option" bool | ReleaseCall bool

record run_env =
  re_max_iterations :: "int option"
  re_chat :: llm
  re_tools :: "string \<Rightarrow> vtool option"
  re_cancelled :: "nat \<Rightarrow> bool"
  re_ledger :: "string option"
  re_consume1 :: bool
  re_consume2 :: bool
  re_release :: bool
  re_now :: "nat \<Rightarrow> rat"
  re_user_msg :: string
  re_answer_msg :: string
  re_notice :: string
  re_position :: "string option"
  re_duration :: int

record run_result =
  rr_status :: string
  rr_events :: "vevent list"
  rr_store :: vstore
  rr_ledger :: "ledger_call list"
  rr_agent :: agent
  rr_content :: string

definition or_none :: "int \<Rightarrow> int option" where
  "or_none n = (if n = 0 then None else Some n)"

definition has_ledger :: "string option \<Rightarrow> bool" where
  "has_ledger l = (case l of None \<Rightarrow> False | Some i \<Rightarrow> i \<noteq> [])"

definition user_message :: "run_env \<Rightarrow> string \<Rightarrow> string \<Rightarrow> string \<Rightarrow> vmessage" where
  "user_message env sid rid prompt = \<lparr>vm_id = re_user_msg env, vm_session = sid, vm_run = rid, vm_role = ''user'',
     vm_content = Some prompt, vm_tool_calls = None, vm_tool_call_id = None, vm_tool_summary = None, vm_cards = None\<rparr>"

definition assistant_message :: "run_env \<Rightarrow> string \<Rightarrow> string \<Rightarrow> string \<Rightarrow> (string \<times> json) list \<Rightarrow> vmessage" where
  "assistant_message env sid rid content cards = \<lparr>vm_id = re_answer_msg env, vm_session = sid, vm_run = rid,
     vm_role = ''assistant'', vm_content = Some content, vm_tool_calls = None, vm_tool_call_id = None,
     vm_tool_summary = None, vm_cards = Some cards\<rparr>"

definition first_messages :: "run_env \<Rightarrow> string \<Rightarrow> string \<Rightarrow> vsession option \<Rightarrow> vstore \<Rightarrow> pmessage list" where
  "first_messages env sid prompt session st =
     (let ctx = (case session of None \<Rightarrow> JObj [] | Some s \<Rightarrow> if jtruthy (vs_context s) then vs_context s else JObj [])
      in plain ''system'' (PSystem (context_get ctx ''default_market'' ''binance'') (context_get ctx ''default_symbol'' ''BTCUSDT'')
           (re_position env)) # load_history sid st @ [plain ''user'' (PText prompt)])"

definition finish_run :: "run_env \<Rightarrow> string \<Rightarrow> string \<Rightarrow> string \<Rightarrow> agent \<Rightarrow> run_error option \<Rightarrow> vstore \<Rightarrow> vstore" where
  "finish_run env status rid prompt a err = update_run rid (\<lambda>r. r\<lparr>vr_status := status, vr_tokens := Some (ag_in a, ag_out a),
     vr_prompt := prompt, vr_tools_called := Some (tools_called (ag_messages a)),
     vr_error := err,
     vr_completed := (if status \<in> {''completed'', ''completed_with_limit''} then Some (re_now env 2) else None)\<rparr>)"

text \<open>The run up to the loop: the user's message is stored before the history is read.\<close>

definition start_agent :: "run_env \<Rightarrow> string \<Rightarrow> string \<Rightarrow> string \<Rightarrow> string \<Rightarrow> vstore \<Rightarrow> agent" where
  "start_agent env sid rid u prompt st =
     \<lparr>ag_messages = first_messages env sid prompt (get_session sid u st)
        (create_message (re_now env 0) (user_message env sid rid prompt) st),
      ag_events = [RunStarted], ag_in = 0, ag_out = 0, ag_polls = 0, ag_calls = 0\<rparr>"

definition failed_run :: "run_env \<Rightarrow> string \<Rightarrow> string \<Rightarrow> run_error \<Rightarrow> agent \<Rightarrow> vstore \<Rightarrow> run_result" where
  "failed_run env rid prompt e a st1 =
     (let a1 = emit (RunError ''RUN_ERROR'' e True) a
      in \<lparr>rr_status = ''failed'', rr_events = ag_events a1, rr_store = finish_run env ''failed'' rid prompt a (Some e) st1,
          rr_ledger = (if has_ledger (re_ledger env) then [ReleaseCall (re_release env)] else []),
          rr_agent = a1, rr_content = []\<rparr>)"

text \<open>
  The second call to the ledger is made only when the first was refused; the title is written last.
\<close>

definition consume_calls :: "run_env \<Rightarrow> agent \<Rightarrow> ledger_call list" where
  "consume_calls env a =
     (let consume = ConsumeCall (or_none (ag_in a)) (or_none (ag_out a))
      in if \<not> has_ledger (re_ledger env) then []
         else consume (re_consume1 env) # (if re_consume1 env then [] else [consume (re_consume2 env)]))"

definition title_session :: "run_env \<Rightarrow> string \<Rightarrow> string \<Rightarrow> vsession option \<Rightarrow> vstore \<Rightarrow> vstore" where
  "title_session env sid prompt session st =
     (let title = generate_title prompt;
          untitled = (case session of None \<Rightarrow> False | Some s \<Rightarrow> (case vs_title s of None \<Rightarrow> True | Some t \<Rightarrow> t = []))
      in if untitled \<and> title \<noteq> [] then update_session_title sid (re_now env 3) title st else st)"

definition completed_run :: "run_env \<Rightarrow> string \<Rightarrow> string \<Rightarrow> string \<Rightarrow> vsession option \<Rightarrow> loop_end \<Rightarrow> agent \<Rightarrow> vstore \<Rightarrow> run_result" where
  "completed_run env sid rid prompt session le a st1 =
     (let status = (case le of Answered _ \<Rightarrow> ''completed'' | LimitHit \<Rightarrow> ''completed_with_limit'');
          content = (case le of Answered s \<Rightarrow> s | LimitHit \<Rightarrow> re_notice env);
          cards = build_cards (ag_messages a);
          st2 = create_message (re_now env 1) (assistant_message env sid rid content cards) st1;
          a1 = fold (\<lambda>c. emit (Card (fst c) (snd c))) cards a;
          st3 = finish_run env status rid prompt a None st2;
          a2 = emit (Done (ag_in a) (ag_out a) (re_duration env)) a1
      in \<lparr>rr_status = status, rr_events = ag_events a2, rr_store = title_session env sid prompt session st3,
          rr_ledger = consume_calls env a, rr_agent = a2, rr_content = content\<rparr>)"

definition vibe_run :: "run_env \<Rightarrow> string \<Rightarrow> string \<Rightarrow> string \<Rightarrow> string \<Rightarrow> vstore \<Rightarrow> run_result" where
  "vibe_run env sid rid u prompt st =
     (let st1 = create_message (re_now env 0) (user_message env sid rid prompt) st
      in case agent_loop (re_chat env) (re_tools env) (re_cancelled env) (MAX_ITERATIONS (re_max_iterations env))
          (start_agent env sid rid u prompt st) of
           (Inl e, a) \<Rightarrow> failed_run env rid prompt e a st1
         | (Inr le, a) \<Rightarrow> completed_run env sid rid prompt (get_session sid u st) le a st1)"

section \<open>The protocol of a run's events\<close>

datatype phase = PInit | PRunning | PInTool string string | PAnswering | PCards | PEnded

fun advance :: "phase \<Rightarrow> vevent \<Rightarrow> phase option" where
  "advance PInit RunStarted = Some PRunning"
| "advance PRunning (ToolStart i t x) = Some (PInTool i t)"
| "advance (PInTool i t) (ToolEnd j s x) = (if i = j \<and> t = s then Some PRunning else None)"
| "advance PRunning (Delta c) = Some PAnswering"
| "advance PAnswering (Delta c) = Some PAnswering"
| "advance PRunning (Card t x) = Some PCards"
| "advance PAnswering (Card t x) = Some PCards"
| "advance PCards (Card t x) = Some PCards"
| "advance PRunning (Done i n d) = Some PEnded"
| "advance PAnswering (Done i n d) = Some PEnded"
| "advance PCards (Done i n d) = Some PEnded"
| "advance PRunning (RunError c e r) = Some PEnded"
| "advance (PInTool i t) (RunError c e r) = Some PEnded"
| "advance _ _ = None"

fun phase_of :: "phase \<Rightarrow> vevent list \<Rightarrow> phase option" where
  "phase_of p [] = Some p"
| "phase_of p (e # es) = (case advance p e of None \<Rightarrow> None | Some q \<Rightarrow> phase_of q es)"

lemma phase_of_append: "phase_of p (xs @ ys) = (case phase_of p xs of None \<Rightarrow> None | Some q \<Rightarrow> phase_of q ys)"
  by (induction xs arbitrary: p) (auto split: option.splits)

lemma phase_snoc: "phase_of p xs = Some q \<Longrightarrow> phase_of p (xs @ [e]) = advance q e"
  by (simp add: phase_of_append split: option.splits)

fun deltas :: "vevent list \<Rightarrow> string" where
  "deltas [] = []"
| "deltas (Delta c # es) = c @ deltas es"
| "deltas (_ # es) = deltas es"

fun cards_in :: "vevent list \<Rightarrow> (string \<times> json) list" where
  "cards_in [] = []"
| "cards_in (Card t x # es) = (t, x) # cards_in es"
| "cards_in (_ # es) = cards_in es"

lemma deltas_append [simp]: "deltas (xs @ ys) = deltas xs @ deltas ys"
  by (induction xs rule: deltas.induct) auto

lemma cards_in_append [simp]: "cards_in (xs @ ys) = cards_in xs @ cards_in ys"
  by (induction xs rule: cards_in.induct) auto

lemma split_content_unfold:
  "split_content n [] = []" "0 < n \<Longrightarrow> s \<noteq> [] \<Longrightarrow> split_content n s = take n s # split_content n (drop n s)"
  by simp_all

declare split_content.simps [simp del]

lemma concat_split_content: "0 < n \<Longrightarrow> concat (split_content n s) = s"
  by (induction n s rule: split_content.induct) (metis append_take_drop_id concat.simps split_content_unfold gr0_implies_Suc not_gr_zero)

lemma split_content_chunks: "0 < n \<Longrightarrow> c \<in> set (split_content n s) \<Longrightarrow> c \<noteq> [] \<and> length c \<le> n"
proof (induction n s rule: split_content.induct)
  case (1 n s)
  show ?case
  proof (cases "s = []")
    case True
    then show ?thesis using 1 by (simp add: split_content_unfold)
  next
    case False
    then show ?thesis using 1 by (auto simp: split_content_unfold)
  qed
qed

definition mid_run :: "agent \<Rightarrow> bool" where
  "mid_run a = (phase_of PInit (ag_events a) = Some PRunning \<and> deltas (ag_events a) = [] \<and> cards_in (ag_events a) = [])"

definition broken_off :: "agent \<Rightarrow> bool" where
  "broken_off a = ((phase_of PInit (ag_events a) = Some PRunning \<or> (\<exists>i t. phase_of PInit (ag_events a) = Some (PInTool i t))) \<and>
     deltas (ag_events a) = [] \<and> cards_in (ag_events a) = [])"

lemma agent_updates [simp]:
  "ag_events (emit e a) = ag_events a @ [e]" "ag_messages (emit e a) = ag_messages a" "ag_calls (emit e a) = ag_calls a"
  "ag_events (say m a) = ag_events a" "ag_messages (say m a) = ag_messages a @ [m]" "ag_calls (say m a) = ag_calls a"
  by (simp_all add: emit_def say_def)

lemma fold_emit [simp]:
  "ag_events (fold (\<lambda>c. emit (f c)) cs a) = ag_events a @ map f cs"
  "ag_messages (fold (\<lambda>c. emit (f c)) cs a) = ag_messages a"
  "ag_calls (fold (\<lambda>c. emit (f c)) cs a) = ag_calls a"
  by (induction cs arbitrary: a) auto

lemma mid_run_fields [simp]:
  "mid_run (a\<lparr>ag_polls := k\<rparr>) = mid_run a" "mid_run (a\<lparr>ag_calls := k\<rparr>) = mid_run a"
  "mid_run (a\<lparr>ag_in := i, ag_out := n\<rparr>) = mid_run a" "mid_run (say m a) = mid_run a"
  by (simp_all add: mid_run_def)

lemma execute_tool_phase:
  assumes "mid_run a" "execute_tool tools tc a = (r, a')"
  shows "(case r of Inl e \<Rightarrow> broken_off a' | Inr x \<Rightarrow> mid_run a') \<and> ag_calls a' = ag_calls a"
  using assms by (auto simp: execute_tool_def Let_def mid_run_def broken_off_def phase_of_append split: sum.splits)

lemma mid_broken: "mid_run a \<Longrightarrow> broken_off a"
  by (simp add: mid_run_def broken_off_def)

lemma run_tools_phase:
  "mid_run a \<Longrightarrow> run_tools tools cancelled tcs a = (r, a') \<Longrightarrow>
     (case r of Inl e \<Rightarrow> broken_off a' | Inr x \<Rightarrow> mid_run a') \<and> ag_calls a' = ag_calls a"
proof (induction tcs arbitrary: a)
  case (Cons tc tcs)
  let ?a = "a\<lparr>ag_polls := ag_polls a + 1\<rparr>"
  have m: "mid_run ?a" using Cons.prems(1) by simp
  show ?case
  proof (cases "cancelled (ag_polls a)")
    case True
    then show ?thesis using Cons.prems(2) mid_broken [OF m] by (auto simp: poll_cancel_def)
  next
    case False
    obtain x a2 where x: "execute_tool tools tc ?a = (x, a2)" by (meson surj_pair)
    note e = execute_tool_phase [OF m x]
    show ?thesis
    proof (cases x)
      case (Inl err)
      then show ?thesis using Cons.prems(2) False x e by (auto simp: poll_cancel_def)
    next
      case (Inr out)
      then have a2: "mid_run (say m a2)" "ag_calls (say m a2) = ag_calls a" for m using e by auto
      have "run_tools tools cancelled tcs (say \<lparr>pm_role = ''tool'', pm_content = PJson (output_json out), pm_tool_calls = None,
          pm_tool_call_id = Some (tc_id tc)\<rparr> a2) = (r, a')"
        using Cons.prems(2) False x Inr by (simp add: poll_cancel_def)
      from Cons.IH [OF a2(1) this] show ?thesis by (simp only: a2(2))
    qed
  qed
qed auto

lemma phase_deltas:
  "p \<in> {PRunning, PAnswering} \<Longrightarrow> phase_of p (map Delta cs) = Some (if cs = [] then p else PAnswering)"
  by (induction cs arbitrary: p) fastforce+

lemma phase_cards:
  "p \<in> {PRunning, PAnswering, PCards} \<Longrightarrow>
     phase_of p (map (\<lambda>c. Card (fst c) (snd c)) cs) = Some (if cs = [] then p else PCards)"
  by (induction cs arbitrary: p) fastforce+

lemma deltas_map [simp]: "deltas (map Delta cs) = concat cs" "cards_in (map Delta cs) = []"
  by (induction cs) auto

lemma cards_map [simp]: "cards_in (map (\<lambda>c. Card (fst c) (snd c)) cs) = cs" "deltas (map (\<lambda>c. Card (fst c) (snd c)) cs) = []"
  by (induction cs) auto

definition answered :: "loop_end \<Rightarrow> agent \<Rightarrow> bool" where
  "answered le a = ((\<exists>p \<in> {PRunning, PAnswering}. phase_of PInit (ag_events a) = Some p) \<and> cards_in (ag_events a) = [] \<and>
     deltas (ag_events a) = (case le of Answered s \<Rightarrow> s | LimitHit \<Rightarrow> []))"

lemma agent_loop_phase:
  "mid_run a \<Longrightarrow> agent_loop chat tools cancelled n a = (r, a') \<Longrightarrow>
     (case r of Inl e \<Rightarrow> broken_off a' | Inr le \<Rightarrow> answered le a') \<and> ag_calls a' \<le> ag_calls a + n"
proof (induction n arbitrary: a)
  case 0
  then show ?case by (auto simp: answered_def mid_run_def)
next
  case (Suc n)
  let ?a = "a\<lparr>ag_polls := ag_polls a + 1\<rparr>"
  let ?b = "?a\<lparr>ag_calls := ag_calls a + 1\<rparr>"
  have m: "mid_run ?a" "mid_run ?b" using Suc.prems(1) by simp_all
  show ?case
  proof (cases "cancelled (ag_polls a)")
    case True
    then show ?thesis using Suc.prems(2) mid_broken [OF m(1)] by (auto simp: poll_cancel_def)
  next
    case False
    show ?thesis
    proof (cases "chat (ag_messages a)")
      case (Inl e)
      then show ?thesis using Suc.prems(2) False mid_broken [OF m(2)] by (auto simp: poll_cancel_def)
    next
      case (Inr resp)
      let ?c = "?b\<lparr>ag_in := ag_in a + lr_in resp, ag_out := ag_out a + lr_out resp\<rparr>"
      have mc: "mid_run ?c" using m(2) by simp
      show ?thesis
      proof (cases "lr_error resp")
        case (Some e)
        then show ?thesis using Suc.prems(2) False Inr mid_broken [OF mc] by (auto simp: poll_cancel_def)
      next
        case None
        show ?thesis
        proof (cases "lr_tool_calls resp = []")
          case True
          let ?d = "fold (\<lambda>c. emit (Delta c)) (split_content 6 (chat_content resp)) ?c"
          have "answered (Answered (chat_content resp)) ?d"
            using mc concat_split_content [of 6 "chat_content resp"] phase_deltas [of PRunning "split_content 6 (chat_content resp)"]
            by (cases "split_content 6 (chat_content resp) = []") (auto simp: answered_def mid_run_def phase_of_append)
          then show ?thesis using Suc.prems(2) False Inr None True by (auto simp: poll_cancel_def)
        next
          case calls: False
          let ?m = "\<lparr>pm_role = ''assistant'', pm_content = PText (chat_content resp), pm_tool_calls = Some (lr_tool_calls resp),
             pm_tool_call_id = None\<rparr>"
          obtain x a4 where x: "run_tools tools cancelled (lr_tool_calls resp) (say ?m ?c) = (x, a4)" by (meson surj_pair)
          have ms: "mid_run (say ?m ?c)" using mc by simp
          note t = run_tools_phase [OF ms x]
          show ?thesis
          proof (cases x)
            case (Inl e)
            then show ?thesis using Suc.prems(2) False Inr None calls x t by (auto simp: poll_cancel_def)
          next
            case ok: (Inr y)
            then have a4: "mid_run a4" "ag_calls a4 = ag_calls a + 1" using t by auto
            have "agent_loop chat tools cancelled n a4 = (r, a')"
              using Suc.prems(2) False Inr None calls x ok by (simp add: poll_cancel_def)
            from Suc.IH [OF a4(1) this] a4(2) show ?thesis by auto
          qed
        qed
      qed
    qed
  qed
qed

section \<open>What a run leaves behind\<close>

lemma start_mid_run: "mid_run (start_agent env sid rid u prompt st)"
  by (simp add: start_agent_def mid_run_def)

lemma messages_kept [simp]:
  "st_messages (touch_session s t x) = st_messages x" "st_messages (update_run r f x) = st_messages x"
  "st_messages (update_session_title s t ti x) = st_messages x" "st_messages (title_session env s p ss x) = st_messages x"
  "st_messages (finish_run env status r p a e x) = st_messages x"
  by (simp_all add: touch_session_def update_run_def update_session_title_def title_session_def finish_run_def Let_def
      split: option.splits)

lemma create_message_messages:
  "opt_list (st_messages (create_message t m x) s) = opt_list (st_messages x s) @ (if vm_session m = s then [m] else [])"
  by (simp add: create_message_def Let_def opt_list_def)

lemma message_sessions [simp]:
  "vm_session (user_message env sid rid p) = sid" "vm_session (assistant_message env sid rid c cs) = sid"
  by (simp_all add: user_message_def assistant_message_def)

text \<open>
  Every run is one of two: broken off by an error, or answered (by the model or by the limit).
\<close>

lemma vibe_run_split:
  obtains (failed) e a where "vibe_run env sid rid u prompt st = failed_run env rid prompt e a
       (create_message (re_now env 0) (user_message env sid rid prompt) st)" "broken_off a" "ag_calls a \<le> MAX_ITERATIONS (re_max_iterations env)"
  | (answered) le a where "vibe_run env sid rid u prompt st = completed_run env sid rid prompt (get_session sid u st) le a
       (create_message (re_now env 0) (user_message env sid rid prompt) st)" "answered le a" "ag_calls a \<le> MAX_ITERATIONS (re_max_iterations env)"
proof -
  obtain res a where l: "agent_loop (re_chat env) (re_tools env) (re_cancelled env) (MAX_ITERATIONS (re_max_iterations env))
      (start_agent env sid rid u prompt st) = (res, a)" by (meson surj_pair)
  have ph: "(case res of Inl e \<Rightarrow> broken_off a | Inr le \<Rightarrow> answered le a) \<and> ag_calls a \<le> MAX_ITERATIONS (re_max_iterations env)"
    using agent_loop_phase [OF start_mid_run l] by (simp add: start_agent_def)
  show ?thesis
    by (cases res) (use ph failed answered in \<open>auto simp: vibe_run_def l\<close>)
qed

lemma advance_terminal: "advance p e = Some q \<Longrightarrow> terminal_event e \<longleftrightarrow> q = PEnded"
  by (cases "(p, e)" rule: advance.cases) (auto split: if_splits)

lemma phase_ended: "phase_of PEnded es = Some q \<Longrightarrow> es = []"
  by (cases es) auto

lemma phase_terminal: "phase_of p es = Some q \<Longrightarrow> q \<noteq> PEnded \<Longrightarrow> x \<in> set es \<Longrightarrow> \<not> terminal_event x"
proof (induction es arbitrary: p)
  case (Cons e es)
  then obtain r where r: "advance p e = Some r" "phase_of r es = Some q" by (auto split: option.splits)
  have "r \<noteq> PEnded" using r(2) Cons.prems(2) phase_ended by fastforce
  then show ?case using Cons r advance_terminal [OF r(1)] by auto
qed simp

definition ends_once :: "vevent list \<Rightarrow> vevent \<Rightarrow> bool" where
  "ends_once evs e = (\<exists>before. evs = before @ [e] \<and> terminal_event e \<and> (\<forall>x \<in> set before. \<not> terminal_event x))"

lemma ends_onceI: "phase_of PInit before = Some q \<Longrightarrow> q \<noteq> PEnded \<Longrightarrow> terminal_event e \<Longrightarrow> ends_once (before @ [e]) e"
  unfolding ends_once_def using phase_terminal by blast

lemma answered_events:
  assumes "answered le a"
  shows "\<exists>q \<in> {PRunning, PAnswering, PCards}. phase_of PInit (ag_events a @ map (\<lambda>c. Card (fst c) (snd c)) cs) = Some q"
  using assms phase_cards unfolding answered_def by (fastforce simp: phase_of_append)

lemma completed_events:
  "rr_events (completed_run env sid rid p ss le a st1) =
     (ag_events a @ map (\<lambda>c. Card (fst c) (snd c)) (build_cards (ag_messages a))) @ [Done (ag_in a) (ag_out a) (re_duration env)]"
  by (simp add: completed_run_def Let_def)

lemma failed_events: "rr_events (failed_run env rid p e a st1) = ag_events a @ [RunError ''RUN_ERROR'' e True]"
  by (simp add: failed_run_def Let_def)

lemma run_status [simp]:
  "rr_status (failed_run env rid p e a st1) = ''failed''"
  "rr_status (completed_run env sid rid p ss le a st1) = (case le of Answered s \<Rightarrow> ''completed'' | LimitHit \<Rightarrow> ''completed_with_limit'')"
  "ag_calls (rr_agent (failed_run env rid p e a st1)) = ag_calls a"
  "ag_calls (rr_agent (completed_run env sid rid p ss le a st1)) = ag_calls a"
  by (simp_all add: failed_run_def completed_run_def Let_def)

text \<open>
  C28: every run keeps the protocol of its events. It starts with run_started, each tool result
  follows its own tool call, then the text in deltas, then the cards, and exactly one terminal event ends it: an
  error exactly when the run failed. The deltas of a completed run concatenate to the stored answer; a run that
  failed has none, and neither has one that hit the iteration limit, although a notice is stored as its answer. The
  model is asked at most as often as the setting \<open>VIBE_MAX_ITERATIONS\<close> allows.
\<close>

theorem run_keeps_protocol:
  "let r = vibe_run env sid rid u prompt st in
     phase_of PInit (rr_events r) = Some PEnded \<and>
     (\<exists>e. ends_once (rr_events r) e \<and> (rr_status r = ''failed'' \<longleftrightarrow> (\<exists>err. e = RunError ''RUN_ERROR'' err True))) \<and>
     deltas (rr_events r) = (if rr_status r = ''completed'' then rr_content r else []) \<and>
     ag_calls (rr_agent r) \<le> MAX_ITERATIONS (re_max_iterations env)"
proof (cases rule: vibe_run_split [of env sid rid u prompt st])
  case (failed e a)
  then obtain q where q: "phase_of PInit (ag_events a) = Some q" "q = PRunning \<or> (\<exists>i t. q = PInTool i t)"
    unfolding broken_off_def by blast
  then have "ends_once (ag_events a @ [RunError ''RUN_ERROR'' e True]) (RunError ''RUN_ERROR'' e True)"
    using ends_onceI by fastforce
  then show ?thesis
    using q failed(2,3) unfolding failed(1) Let_def failed_events
    by (auto simp: phase_of_append broken_off_def)
next
  case (answered le a)
  obtain q where q: "phase_of PInit (ag_events a @ map (\<lambda>c. Card (fst c) (snd c)) (build_cards (ag_messages a))) = Some q"
    "q \<in> {PRunning, PAnswering, PCards}" using answered_events [OF answered(2)] by blast
  have "ends_once (rr_events (vibe_run env sid rid u prompt st)) (Done (ag_in a) (ag_out a) (re_duration env))"
    unfolding answered(1) completed_events using q by (intro ends_onceI [of _ q]) auto
  moreover have "phase_of PInit (rr_events (vibe_run env sid rid u prompt st)) = Some PEnded"
    unfolding answered(1) completed_events using q phase_snoc by fastforce
  ultimately show ?thesis
    using answered(2,3) unfolding answered(1) Let_def
    by (auto simp: completed_run_def Let_def answered_def split: loop_end.splits intro!: exI)
qed

text \<open>
  C29: a run settles its reservation and its messages by its outcome. A failed run releases the
  ledger entry once and stores the user's message alone; any other run consumes, with a second
  attempt only after a refused first one, and stores the user's message and one answer with the
  cards it published. No other session's messages change, and nothing is both consumed and released.
\<close>

theorem run_settles:
  "let r = vibe_run env sid rid u prompt st in
     (\<forall>s. s = sid \<or> opt_list (st_messages (rr_store r) s) = opt_list (st_messages st s)) \<and>
     (if rr_status r = ''failed'' then
        rr_ledger r = (if has_ledger (re_ledger env) then [ReleaseCall (re_release env)] else []) \<and>
        opt_list (st_messages (rr_store r) sid) = opt_list (st_messages st sid) @ [user_message env sid rid prompt]
      else
        (\<exists>i n. rr_ledger r = map (ConsumeCall i n)
          (if \<not> has_ledger (re_ledger env) then [] else if re_consume1 env then [True] else [False, re_consume2 env])) \<and>
        opt_list (st_messages (rr_store r) sid) = opt_list (st_messages st sid) @ [user_message env sid rid prompt,
          assistant_message env sid rid (rr_content r) (cards_in (rr_events r))])"
proof (cases rule: vibe_run_split [of env sid rid u prompt st])
  case (failed e a)
  show ?thesis unfolding failed(1) Let_def
    by (auto simp: failed_run_def Let_def create_message_messages)
next
  case (answered le a)
  then show ?thesis unfolding answered(1) Let_def
    by (auto simp: completed_run_def Let_def create_message_messages consume_calls_def answered_def split: loop_end.splits)
qed

section \<open>What the model is shown\<close>

lemma compress_messages_recent:
  "MAX_RECENT < length ms \<Longrightarrow> length (compress_messages ms) = MAX_RECENT + 1 \<and>
     drop 1 (compress_messages ms) = drop (length ms - MAX_RECENT) ms"
  by (simp add: compress_messages_def Let_def)

lemma compress_messages_last: "ms \<noteq> [] \<Longrightarrow> last (compress_messages ms) = last ms \<and> compress_messages ms \<noteq> []"
  by (auto simp: compress_messages_def Let_def MAX_RECENT_def last_drop)

lemma format_user_message: "format_message (user_message env sid rid prompt) = plain ''user'' (PText prompt)"
  by (simp add: format_message_def user_message_def)

text \<open>
  What the model is shown of a session. With fewer than fifty stored messages the history
  already holds the new prompt, so the prompt is sent twice in a row. From fifty on the history is
  made of the first fifty messages for ever: nothing said later reaches the model.
\<close>

theorem model_sees_the_oldest:
  "let old = opt_list (st_messages st sid); shown = ag_messages (start_agent env sid rid u prompt st) in
     (if length old < 50 then
        \<exists>before. shown = before @ [plain ''user'' (PText prompt), plain ''user'' (PText prompt)]
      else
        \<exists>sys. shown = sys # compress_messages (map format_message (take 50 old)) @ [plain ''user'' (PText prompt)])"
proof -
  let ?old = "opt_list (st_messages st sid)"
  let ?st1 = "create_message (re_now env 0) (user_message env sid rid prompt) st"
  let ?h = "load_history sid ?st1"
  have h: "?h = compress_messages (map format_message (take 50 (?old @ [user_message env sid rid prompt])))"
    by (simp add: load_history_def list_messages_def create_message_messages)
  obtain sys where sys: "ag_messages (start_agent env sid rid u prompt st) = sys # ?h @ [plain ''user'' (PText prompt)]"
    by (simp add: start_agent_def first_messages_def Let_def)
  show ?thesis
  proof (cases "length ?old < 50")
    case True
    let ?ms = "map format_message (take 50 (?old @ [user_message env sid rid prompt]))"
    have "?ms \<noteq> []" "last ?ms = plain ''user'' (PText prompt)"
      using True by (simp_all add: format_user_message)
    then have "last ?h = plain ''user'' (PText prompt)" "?h \<noteq> []"
      using compress_messages_last h by metis+
    then have "?h = butlast ?h @ [plain ''user'' (PText prompt)]" by (metis append_butlast_last_id)
    then show ?thesis using True sys by (simp add: Let_def) (metis append.assoc append_Cons append_Nil)
  next
    case False
    then show ?thesis using sys h by (simp add: Let_def)
  qed
qed

section \<open>What the client receives\<close>

lemma run_ends_once: "\<exists>e. ends_once (rr_events (vibe_run env sid rid u prompt st)) e"
proof (cases rule: vibe_run_split [of env sid rid u prompt st])
  case (failed e a)
  then obtain q where "phase_of PInit (ag_events a) = Some q" "q \<noteq> PEnded" unfolding broken_off_def by blast
  then have "ends_once (ag_events a @ [RunError ''RUN_ERROR'' e True]) (RunError ''RUN_ERROR'' e True)"
    by (rule ends_onceI) simp
  then show ?thesis unfolding failed(1) failed_events by blast
next
  case (answered le a)
  obtain q where "phase_of PInit (ag_events a @ map (\<lambda>c. Card (fst c) (snd c)) (build_cards (ag_messages a))) = Some q"
    "q \<in> {PRunning, PAnswering, PCards}" using answered_events [OF answered(2)] by blast
  then have "ends_once (rr_events (vibe_run env sid rid u prompt st)) (Done (ag_in a) (ag_out a) (re_duration env))"
    unfolding answered(1) completed_events by (intro ends_onceI [of _ q]) auto
  then show ?thesis by blast
qed

lemma ends_once_valid:
  assumes "ends_once evs e"
  shows "\<exists>before. filter valid_event evs = before @ [e] \<and> (\<forall>x \<in> set before. \<not> terminal_event x) \<and> terminal_event e"
proof -
  obtain before where b: "evs = before @ [e]" "terminal_event e" "\<forall>x \<in> set before. \<not> terminal_event x"
    using assms unfolding ends_once_def by blast
  have "valid_event e" using b(2) by (cases e) auto
  then show ?thesis using b by (intro exI [of _ "filter valid_event before"]) auto
qed

lemma stored_ends_once:
  assumes "map se_event F = before @ [e]" "\<forall>x \<in> set before. \<not> terminal_event x" "terminal_event e"
  shows "has_terminal F \<and> upto_terminal F = F"
proof -
  obtain G r where F: "F = G @ [r]" "map se_event G = before" "se_event r = e"
    using assms(1) by (auto simp: map_eq_append_conv)
  have "\<not> has_terminal G" using F(2) assms(2) by (auto simp: has_terminal_def)
  then show ?thesis using F assms(3) by (simp add: upto_terminal_append)
qed

text \<open>
  C30: the client's stream delivers the run. When every push of the run's events to Redis succeeds, a client that
  polls from the start, however long the run takes, receives every valid event of the run, in order and once, and the stream
  ends with the run's terminal event. Before all events are stored it may see any prefixes of the list and poll any number of
  times while the run's status is not terminal, but fewer times than the timeout (\<open>max_empty\<close>) once it is; afterwards
  it polls once for every fifty events.
\<close>

theorem client_receives_run:
  assumes run: "map snd evs = rr_events (vibe_run env sid rid u prompt st)"
    and store: "final = publish_all up rid evs es0" "ru_push up" "es_redis es0 rid = []"
    and early: "\<forall>p \<in> set early. prefix (es_redis (fst p) rid) (es_redis final rid)"
      "length (filter (run_is_terminal \<circ> snd) early) < max_empty"
    and late: "\<forall>p \<in> set late. fst p = final" "length evs \<le> 50 * length late"
  shows "snd (stream_events max_empty rid 0 0 (early @ late)) \<and>
    map se_event (fst (stream_events max_empty rid 0 0 (early @ late))) = filter valid_event (rr_events (vibe_run env sid rid u prompt st))"
proof -
  let ?F = "es_redis final rid"
  have F: "map se_event ?F = filter valid_event (rr_events (vibe_run env sid rid u prompt st))"
    using publish_all_redis [OF store(2), of rid evs es0] store(1,3) run by simp
  then have len: "length ?F \<le> length evs"
    using run by (metis length_filter_le length_map)
  have t: "has_terminal ?F \<and> upto_terminal ?F = ?F"
    using run_ends_once ends_once_valid stored_ends_once F by metis
  have "stream_events max_empty rid 0 0 (early @ late) = (upto_terminal (drop 0 ?F), True)"
    by (rule stream_complete) (use early late len t in auto)
  then show ?thesis using t F by simp
qed

definition demo_env :: run_env where
  "demo_env = \<lparr>re_max_iterations = None, re_chat = (\<lambda>ms. Inr \<lparr>lr_content = Some ''hello world'', lr_tool_calls = [], lr_in = 7, lr_out = 3, lr_error = None\<rparr>),
     re_tools = (\<lambda>_. None), re_cancelled = (\<lambda>_. False), re_ledger = Some ''L1'', re_consume1 = True, re_consume2 = True,
     re_release = True, re_now = of_nat, re_user_msg = ''m1'', re_answer_msg = ''m2'', re_notice = ''limit'', re_position = None,
     re_duration = 5\<rparr>"

definition no_events :: event_store where
  "no_events = \<lparr>es_redis = (\<lambda>_. []), es_redis_seq = (\<lambda>_. 0), es_memory = (\<lambda>_. []), es_seq_memory = (\<lambda>_. None)\<rparr>"

definition demo_run :: run_result where
  "demo_run = vibe_run demo_env ''s1'' ''r1'' ''ann'' ''hi'' (snd (create_session ''s1'' 0 ''ann'' None JNull empty_store))"

lemma demo_run_events: "rr_events demo_run = [RunStarted, Delta ''hello '', Delta ''world'', Done 7 3 5]"
  by code_simp

definition demo_final :: event_store where
  "demo_final = publish_all \<lparr>ru_incr = True, ru_push = True\<rparr> ''r1'' (map (\<lambda>e. (''evt'', e)) (rr_events demo_run)) no_events"

theorem client_receives_run_witness:
  "map se_event (fst (stream_events 60 ''r1'' 0 0 (replicate 100 (no_events, Some ''running'') @ [(demo_final, Some ''completed'')]))) =
     [RunStarted, Delta ''hello '', Delta ''world'', Done 7 3 5]"
proof -
  have run: "map snd (map (\<lambda>e. (''evt'', e)) (rr_events demo_run)) =
      rr_events (vibe_run demo_env ''s1'' ''r1'' ''ann'' ''hi'' (snd (create_session ''s1'' 0 ''ann'' None JNull empty_store)))"
    by (simp add: demo_run_def o_def)
  let ?early = "replicate 100 (no_events, Some ''running'')"
  have "map se_event (fst (stream_events 60 ''r1'' 0 0 (?early @ [(demo_final, Some ''completed'')]))) =
      filter valid_event (rr_events demo_run)"
    using client_receives_run [OF run demo_final_def, of ?early 60 "[(demo_final, Some ''completed'')]"]
    by (simp add: no_events_def demo_run_events demo_run_def [symmetric] run_is_terminal_def)
  then show ?thesis by (simp add: demo_run_events)
qed

text \<open>
  A cancelled run does not stay cancelled: the flag breaks the loop, and the run's own update then
  overwrites the status with failed.
\<close>

lemma cancelled_becomes_failed:
  assumes "re_cancelled env 0" "st_runs st rid = Some r" "0 < MAX_ITERATIONS (re_max_iterations env)"
  shows "(\<exists>r'. st_runs (rr_store (vibe_run env sid rid u prompt st)) rid = Some r' \<and> vr_status r' = ''failed'' \<and>
    vr_completed r' = None) \<and> rr_events (vibe_run env sid rid u prompt st) = [RunStarted, RunError ''RUN_ERROR'' CancelledByUser True]"
proof -
  obtain n where n: "MAX_ITERATIONS (re_max_iterations env) = Suc n" using assms(3) gr0_implies_Suc by blast
  have "agent_loop (re_chat env) (re_tools env) (re_cancelled env) (MAX_ITERATIONS (re_max_iterations env))
      (start_agent env sid rid u prompt st) = (Inl CancelledByUser, (start_agent env sid rid u prompt st)\<lparr>ag_polls := 1\<rparr>)"
    using assms(1) by (simp add: n poll_cancel_def start_agent_def)
  moreover have "st_runs (create_message t m st) rid = Some r" for t m
    using assms(2) by (simp add: create_message_def touch_session_def Let_def split: option.splits)
  ultimately show ?thesis
    by (simp add: vibe_run_def failed_run_def finish_run_def update_run_def start_agent_def Let_def)
qed

text \<open>An unknown tool, or one that raises, breaks the run off after its start event.\<close>

lemma failing_tool_fails_run:
  assumes "tools (tc_name tc) = None \<or> (\<exists>t e. tools (tc_name tc) = Some t \<and>
     validate_input (tl_required t) (tc_args tc) = InputValid \<and> tl_run t (tc_args tc) = ToolRaises e)"
  shows "execute_tool tools tc a = (Inl TypeErrorNotCallable, emit (ToolStart (tc_id tc) (tc_name tc) (tc_args tc)) a)"
  using assms by (auto simp: execute_tool_def registry_execute_def Let_def)

end
