(* ===== verification/Position.thy ===== *)
theory Position
  imports PyFloat
begin

text \<open>
  \<^verbatim>\<open>app/services/position_manager.py\<close>: the state machine of an open position, one bar
  at a time. Every \<open>dataclasses.replace\<close> runs \<open>__post_init__\<close> again, so each state change of
  the model goes through \<open>pos_init\<close> and can raise.
\<close>

section \<open>State and actions\<close>

datatype close_why = StopOut | TimeStop | Tp3Close

datatype pos_error = BadEntry | BadInitialStop | BadTargets | BadAtr | BadCdLeg | BadSize | PosViolation

record PositionState =
  p_bullish :: bool
  entry_price :: rat
  initial_stop :: rat
  current_stop :: rat
  tp1 :: rat
  tp2 :: rat
  tp3 :: rat
  p_atr :: rat
  cd_leg_bars :: int
  chandelier_period :: int
  chandelier_atr_mult :: rat
  time_stop_cd_mult :: rat
  bars_held :: int
  size_remaining :: rat
  tp1_hit :: bool
  tp2_hit :: bool
  tp3_hit :: bool
  closed :: bool
  close_reason :: "close_why option"
  chandelier_high :: "rat option"
  chandelier_low :: "rat option"

definition pos_init :: "PositionState \<Rightarrow> pos_error + PositionState" where
  "pos_init s =
     check (entry_price s > 0) BadEntry (
     check (initial_stop s > 0) BadInitialStop (
     check (tp1 s > 0 \<and> tp2 s > 0 \<and> tp3 s > 0) BadTargets (
     check (p_atr s > 0) BadAtr (
     check (cd_leg_bars s \<ge> 0) BadCdLeg (
     check (0 \<le> size_remaining s \<and> size_remaining s \<le> 1) BadSize (Inr s))))))"

datatype tp_name = Tp1 | Tp2 | Tp3

datatype pos_action =
    Hold | HoldClosed
  | ClosePartial rat tp_name
  | MoveStopAfter rat tp_name
  | MoveStopChandelier rat
  | CloseAllStop | CloseAllTime | CloseAllTp3

section \<open>Helpers\<close>

definition chandelier_stop :: "PositionState \<Rightarrow> rat \<Rightarrow> rat" where
  "chandelier_stop s extreme =
     (if p_bullish s then fsub extreme (fmul (chandelier_atr_mult s) (p_atr s))
      else fadd extreme (fmul (chandelier_atr_mult s) (p_atr s)))"

definition tp_hit :: "rat \<Rightarrow> rat \<Rightarrow> rat \<Rightarrow> bool \<Rightarrow> bool" where
  "tp_hit high low tp bull = (if bull then high \<ge> tp else low \<le> tp)"

definition stop_hit :: "rat \<Rightarrow> rat \<Rightarrow> rat \<Rightarrow> bool \<Rightarrow> bool" where
  "stop_hit high low stop bull = (if bull then low \<le> stop else high \<ge> stop)"

fun was_hit :: "tp_name \<Rightarrow> PositionState \<Rightarrow> bool" where
  "was_hit Tp1 s = tp1_hit s"
| "was_hit Tp2 s = tp2_hit s"
| "was_hit Tp3 s = tp3_hit s"

fun tp_of :: "tp_name \<Rightarrow> PositionState \<Rightarrow> rat" where
  "tp_of Tp1 s = tp1 s"
| "tp_of Tp2 s = tp2 s"
| "tp_of Tp3 s = tp3 s"

fun pct_of :: "tp_name \<Rightarrow> rat" where
  "pct_of Tp1 = 1 / 2"
| "pct_of Tp2 = fl (3 / 10)"
| "pct_of Tp3 = fl (2 / 10)"

text \<open>The updates that mark a target: at TP1 the chandelier starts at the bar's extreme.\<close>

fun mark_hit :: "tp_name \<Rightarrow> rat \<Rightarrow> rat \<Rightarrow> PositionState \<Rightarrow> PositionState" where
  "mark_hit Tp1 high low s = s\<lparr>tp1_hit := True,
     chandelier_high := (if p_bullish s then Some high else None),
     chandelier_low := (if \<not> p_bullish s then Some low else None)\<rparr>"
| "mark_hit Tp2 high low s = s\<lparr>tp2_hit := True\<rparr>"
| "mark_hit Tp3 high low s = s\<lparr>tp3_hit := True\<rparr>"

text \<open>The stop the target moves to; \<open>None\<close> for TP3, which closes the position.\<close>

fun next_stop :: "tp_name \<Rightarrow> PositionState \<Rightarrow> rat option" where
  "next_stop Tp1 s = Some (entry_price s)"
| "next_stop Tp2 s = Some (tp1 s)"
| "next_stop Tp3 s = None"

section \<open>One bar\<close>

text \<open>The target loop; the flag says that it returned from the function (TP3 closed the position).\<close>

fun tp_loop :: "tp_name list \<Rightarrow> rat \<Rightarrow> rat \<Rightarrow> PositionState \<Rightarrow> pos_action list \<Rightarrow>
    pos_error + (PositionState \<times> pos_action list \<times> bool)" where
  "tp_loop [] high low s acts = Inr (s, acts, False)"
| "tp_loop (tp # tps) high low s acts =
     (if was_hit tp s then tp_loop tps high low s acts
      else if \<not> tp_hit high low (tp_of tp s) (p_bullish s) then Inr (s, acts, False)
      else
        ebind (pos_init (mark_hit tp high low s)) (\<lambda>s1.
        ebind (pos_init (s1\<lparr>size_remaining := fsub (size_remaining s1) (pct_of tp)\<rparr>)) (\<lambda>s2.
        let acts2 = acts @ [ClosePartial (pct_of tp) tp] in
        case next_stop tp s2 of
          None \<Rightarrow>
            ebind (pos_init (s2\<lparr>closed := True, size_remaining := 0, close_reason := Some Tp3Close\<rparr>)) (\<lambda>s3.
              Inr (s3, acts2 @ [CloseAllTp3], True))
        | Some new_stop \<Rightarrow>
            if new_stop \<noteq> current_stop s2
            then ebind (pos_init (s2\<lparr>current_stop := new_stop\<rparr>)) (\<lambda>s3.
                   tp_loop tps high low s3 (acts2 @ [MoveStopAfter new_stop tp]))
            else tp_loop tps high low s2 acts2)))"

definition ratchet :: "rat \<Rightarrow> rat \<Rightarrow> PositionState \<Rightarrow> pos_action list \<Rightarrow>
    pos_error + (PositionState \<times> pos_action list)" where
  "ratchet high low s acts =
     (if tp1_hit s \<and> \<not> closed s \<and> bars_held s > 0
      then let extreme = (if p_bullish s
                 then max (case chandelier_high s of Some p \<Rightarrow> p | None \<Rightarrow> high) high
                 else min (case chandelier_low s of Some p \<Rightarrow> p | None \<Rightarrow> low) low)
           in ebind (pos_init (if p_bullish s then s\<lparr>chandelier_high := Some extreme\<rparr>
                                else s\<lparr>chandelier_low := Some extreme\<rparr>)) (\<lambda>s1.
              let trail = chandelier_stop s1 extreme;
                  improved = (p_bullish s1 \<and> trail > current_stop s1) \<or> (\<not> p_bullish s1 \<and> trail < current_stop s1)
              in if improved
                 then ebind (pos_init (s1\<lparr>current_stop := trail\<rparr>)) (\<lambda>s2. Inr (s2, acts @ [MoveStopChandelier trail]))
                 else Inr (s1, acts))
      else Inr (s, acts))"

definition process_bar_body :: "PositionState \<Rightarrow> rat \<Rightarrow> rat \<Rightarrow> pos_error + (PositionState \<times> pos_action list)" where
  "process_bar_body s high low =
     (if closed s then Inr (s, [HoldClosed])
      else ebind (pos_init (s\<lparr>bars_held := bars_held s + 1\<rparr>)) (\<lambda>s1.
        if stop_hit high low (current_stop s1) (p_bullish s1)
        then ebind (pos_init (s1\<lparr>closed := True, size_remaining := 0, close_reason := Some StopOut\<rparr>)) (\<lambda>s2.
               Inr (s2, [CloseAllStop]))
        else if of_int (bars_held s1) > fmul (time_stop_cd_mult s1) (of_int (cd_leg_bars s1))
        then ebind (pos_init (s1\<lparr>closed := True, size_remaining := 0, close_reason := Some TimeStop\<rparr>)) (\<lambda>s2.
               Inr (s2, [CloseAllTime]))
        else ebind (tp_loop [Tp1, Tp2, Tp3] high low s1 []) (\<lambda>(s2, acts, returned).
               if returned then Inr (s2, acts)
               else ebind (ratchet high low s2 acts) (\<lambda>(s3, acts3).
                      Inr (s3, if acts3 = [] then [Hold] else acts3)))))"

text \<open>The \<open>@require\<close> decorators repeat \<open>__post_init__\<close>; \<open>bar_close\<close> is not read by the body.\<close>

definition process_bar :: "PositionState \<Rightarrow> rat \<Rightarrow> rat \<Rightarrow> rat \<Rightarrow> pos_error + (PositionState \<times> pos_action list)" where
  "process_bar s high low close =
     check (entry_price s > 0 \<and> initial_stop s > 0 \<and> (tp1 s > 0 \<and> tp2 s > 0 \<and> tp3 s > 0) \<and> p_atr s > 0 \<and>
            cd_leg_bars s \<ge> 0 \<and> 0 \<le> size_remaining s \<and> size_remaining s \<le> 1) PosViolation (
     ebind (process_bar_body s high low) (\<lambda>(s', acts).
       check (closed s' \<longrightarrow> close_reason s' \<noteq> None) PosViolation (Inr (s', acts))))"

fun process_bars :: "PositionState \<Rightarrow> (rat \<times> rat \<times> rat) list \<Rightarrow> pos_error + PositionState" where
  "process_bars s [] = Inr s"
| "process_bars s ((h, l, c) # bs) = ebind (process_bar s h l c) (\<lambda>(s', _). process_bars s' bs)"

section \<open>The step relation and its invariant\<close>

text \<open>What construction fixes for the life of the position.\<close>

definition plan :: "PositionState \<Rightarrow> bool \<times> rat \<times> rat \<times> rat \<times> rat \<times> rat \<times> rat \<times> int \<times> rat \<times> rat" where
  "plan s = (p_bullish s, entry_price s, initial_stop s, tp1 s, tp2 s, tp3 s, p_atr s, cd_leg_bars s,
             chandelier_atr_mult s, time_stop_cd_mult s)"

definition plan_ok :: "PositionState \<Rightarrow> bool" where
  "plan_ok s \<longleftrightarrow> entry_price s > 0 \<and> initial_stop s > 0 \<and> tp1 s > 0 \<and> tp2 s > 0 \<and> tp3 s > 0 \<and> p_atr s > 0 \<and>
     cd_leg_bars s \<ge> 0"

definition opened :: "PositionState \<Rightarrow> bool" where
  "opened s \<longleftrightarrow> plan_ok s \<and> current_stop s = initial_stop s \<and> bars_held s = 0 \<and> size_remaining s = 1 \<and>
     \<not> tp1_hit s \<and> \<not> tp2_hit s \<and> \<not> tp3_hit s \<and> \<not> closed s \<and> close_reason s = None \<and>
     chandelier_high s = None \<and> chandelier_low s = None"

inductive bar_step :: "PositionState \<Rightarrow> pos_action list \<Rightarrow> PositionState \<Rightarrow> bool" where
  "process_bar s high low close = Inr (s', acts) \<Longrightarrow> bar_step s acts s'"

inductive_cases bar_stepE: "bar_step s acts s'"

inductive reachable :: "PositionState \<Rightarrow> PositionState \<Rightarrow> bool" for s0 where
  start: "opened s0 \<Longrightarrow> reachable s0 s0"
| next_bar: "reachable s0 s \<Longrightarrow> bar_step s acts s' \<Longrightarrow> reachable s0 s'"

text \<open>The trailing level the recorded extreme gives, and the stop an open position must have.\<close>

definition extreme_of :: "PositionState \<Rightarrow> rat option" where
  "extreme_of s = (if p_bullish s then chandelier_high s else chandelier_low s)"

definition base_stop :: "PositionState \<Rightarrow> rat" where
  "base_stop s = (if tp2_hit s then tp1 s else if tp1_hit s then entry_price s else initial_stop s)"

definition trailed_stop :: "PositionState \<Rightarrow> rat" where
  "trailed_stop s =
     (case extreme_of s of
        None \<Rightarrow> base_stop s
      | Some x \<Rightarrow> if p_bullish s then max (base_stop s) (chandelier_stop s x) else min (base_stop s) (chandelier_stop s x))"

definition size_for :: "bool \<Rightarrow> bool \<Rightarrow> rat" where
  "size_for t1 t2 = (if t2 then fl (2 / 10) else if t1 then 1 / 2 else 1)"

definition pos_inv :: "PositionState \<Rightarrow> bool" where
  "pos_inv s \<longleftrightarrow> plan_ok s \<and> 0 \<le> bars_held s \<and>
     (tp2_hit s \<longrightarrow> tp1_hit s) \<and> (tp3_hit s \<longrightarrow> tp2_hit s) \<and>
     (if closed s then size_remaining s = 0 \<and> close_reason s \<noteq> None
      else \<not> tp3_hit s \<and> close_reason s = None \<and> size_remaining s = size_for (tp1_hit s) (tp2_hit s) \<and>
           (extreme_of s \<noteq> None) = tp1_hit s \<and> current_stop s = trailed_stop s)"

lemma size_facts:
  "fsub (size_for False False) (1 / 2) = size_for True False"
  "fsub (size_for True False) (fl (3 / 10)) = size_for True True"
  "fsub (size_for True True) (fl (1 / 5)) = 0"
  by code_simp+

lemma size_for_bounds: "0 \<le> size_for a b" "size_for a b \<le> 1"
  using fl_le_float [of "2 / 10" 1] by (auto simp: size_for_def fl_nonneg)

lemma pos_init_eq: "plan_ok s \<Longrightarrow> pos_init s = (if 0 \<le> size_remaining s \<and> size_remaining s \<le> 1 then Inr s else Inl BadSize)"
  by (auto simp: pos_init_def plan_ok_def check_def)

lemma plan_ok_update [simp]:
  "plan_ok (s\<lparr>bars_held := b\<rparr>) = plan_ok s" "plan_ok (s\<lparr>size_remaining := x\<rparr>) = plan_ok s"
  "plan_ok (s\<lparr>current_stop := x\<rparr>) = plan_ok s" "plan_ok (s\<lparr>closed := c\<rparr>) = plan_ok s"
  "plan_ok (s\<lparr>close_reason := r\<rparr>) = plan_ok s" "plan_ok (s\<lparr>chandelier_high := h\<rparr>) = plan_ok s"
  "plan_ok (s\<lparr>chandelier_low := h\<rparr>) = plan_ok s" "plan_ok (s\<lparr>tp1_hit := t\<rparr>) = plan_ok s"
  "plan_ok (s\<lparr>tp2_hit := t\<rparr>) = plan_ok s" "plan_ok (s\<lparr>tp3_hit := t\<rparr>) = plan_ok s"
  by (simp_all add: plan_ok_def)

definition same_plan :: "PositionState \<Rightarrow> PositionState \<Rightarrow> bool" where
  "same_plan s s' \<longleftrightarrow> plan s' = plan s"

text \<open>An open position before the target loop: everything of the invariant but the stop.\<close>

definition loop_pre :: "PositionState \<Rightarrow> bool" where
  "loop_pre s \<longleftrightarrow> plan_ok s \<and> \<not> closed s \<and> close_reason s = None \<and> \<not> tp3_hit s \<and>
     (tp2_hit s \<longrightarrow> tp1_hit s) \<and> size_remaining s = size_for (tp1_hit s) (tp2_hit s) \<and>
     (extreme_of s \<noteq> None) = tp1_hit s"

definition loop_post :: "PositionState \<Rightarrow> PositionState \<Rightarrow> bool \<Rightarrow> bool" where
  "loop_post s s' returned \<longleftrightarrow> plan s' = plan s \<and> bars_held s' = bars_held s \<and>
     (if returned
      then tp1_hit s' \<and> tp2_hit s' \<and> tp3_hit s' \<and> closed s' \<and> size_remaining s' = 0 \<and> close_reason s' = Some Tp3Close
      else loop_pre s' \<and> (tp1_hit s \<longrightarrow> tp1_hit s' \<and> extreme_of s' = extreme_of s) \<and> (tp2_hit s \<longrightarrow> tp2_hit s') \<and>
        (if tp1_hit s' = tp1_hit s \<and> tp2_hit s' = tp2_hit s then current_stop s' = current_stop s
         else current_stop s' = base_stop s'))"

lemmas loop_simps = pos_init_eq loop_pre_def loop_post_def plan_def extreme_of_def base_stop_def Let_def
  size_facts size_for_bounds

lemma ex_flag: "\<exists>r :: bool. r" "\<exists>r. \<not> r"
  by auto

lemma tp_loop_post:
  assumes "loop_pre s"
  shows "\<exists>s' acts r. tp_loop [Tp1, Tp2, Tp3] high low s [] = Inr (s', acts, r) \<and> loop_post s s' r"
proof -
  consider "tp1_hit s" "tp2_hit s" | "tp1_hit s" "\<not> tp2_hit s" | "\<not> tp1_hit s" "\<not> tp2_hit s"
    using assms by (auto simp: loop_pre_def)
  then show ?thesis
  proof cases
    case 1
    then show ?thesis using assms
      by (cases "p_bullish s"; cases "tp_hit high low (tp3 s) (p_bullish s)") (simp_all add: loop_simps ex_flag)
  next
    case 2
    then show ?thesis using assms
      by (cases "p_bullish s"; cases "tp_hit high low (tp2 s) (p_bullish s)";
          cases "tp_hit high low (tp3 s) (p_bullish s)"; cases "tp1 s = current_stop s") (simp_all add: loop_simps ex_flag)
  next
    case 3
    then show ?thesis using assms
      by (cases "p_bullish s"; cases "tp_hit high low (tp1 s) (p_bullish s)"; cases "tp_hit high low (tp2 s) (p_bullish s)";
          cases "tp_hit high low (tp3 s) (p_bullish s)"; cases "entry_price s = current_stop s"; cases "tp1 s = current_stop s";
          cases "tp1 s = entry_price s")
        (simp_all add: loop_simps ex_flag)
  qed
qed

lemma chandelier_stop_mono:
  "p_bullish s \<Longrightarrow> x \<le> y \<Longrightarrow> chandelier_stop s x \<le> chandelier_stop s y"
  "\<not> p_bullish s \<Longrightarrow> x \<le> y \<Longrightarrow> chandelier_stop s x \<le> chandelier_stop s y"
  by (auto simp: chandelier_stop_def intro: fsub_mono fadd_mono)

lemma chandelier_stop_update [simp]:
  "chandelier_stop (s\<lparr>chandelier_high := h\<rparr>) x = chandelier_stop s x"
  "chandelier_stop (s\<lparr>chandelier_low := h\<rparr>) x = chandelier_stop s x"
  "chandelier_stop (s\<lparr>current_stop := c\<rparr>) x = chandelier_stop s x"
  by (simp_all add: chandelier_stop_def)

text \<open>The recorded extreme, once there, only moves in the trade's favour.\<close>

definition ext_improves :: "PositionState \<Rightarrow> PositionState \<Rightarrow> bool" where
  "ext_improves s s' \<longleftrightarrow> (\<forall>x. extreme_of s = Some x \<longrightarrow>
     (\<exists>y. extreme_of s' = Some y \<and> (if p_bullish s then x \<le> y else y \<le> x)))"

lemma ratchet_post:
  assumes pre: "loop_pre s" and bars: "0 < bars_held s"
    and stop: "current_stop s = base_stop s \<or> current_stop s = trailed_stop s"
  shows "\<exists>s' acts'. ratchet high low s acts = Inr (s', acts') \<and> plan s' = plan s \<and> bars_held s' = bars_held s \<and>
    loop_pre s' \<and> tp1_hit s' = tp1_hit s \<and> tp2_hit s' = tp2_hit s \<and> current_stop s' = trailed_stop s' \<and>
    ext_improves s s'"
proof (cases "tp1_hit s")
  case False
  then show ?thesis using assms
    by (auto simp: ratchet_def loop_pre_def trailed_stop_def ext_improves_def)
next
  case t: True
  show ?thesis
  proof (cases "p_bullish s")
    case True
    then obtain x where x: "chandelier_high s = Some x" using pre t by (auto simp: loop_pre_def extreme_of_def)
    have mono: "chandelier_stop s x \<le> chandelier_stop s (max x high)"
      by (rule chandelier_stop_mono(1) [OF True]) simp
    show ?thesis
      using pre bars stop t True x mono
      by (cases "chandelier_stop s (max x high) > current_stop s")
        (auto simp: ratchet_def loop_simps trailed_stop_def ext_improves_def)
  next
    case False
    then obtain x where x: "chandelier_low s = Some x" using pre t by (auto simp: loop_pre_def extreme_of_def)
    have mono: "chandelier_stop s (min x low) \<le> chandelier_stop s x"
      by (rule chandelier_stop_mono(2) [OF False]) simp
    show ?thesis
      using pre bars stop t False x mono
      by (cases "chandelier_stop s (min x low) < current_stop s")
        (auto simp: ratchet_def loop_simps trailed_stop_def ext_improves_def)
  qed
qed

lemma pos_inv_open: "pos_inv s \<Longrightarrow> \<not> closed s \<Longrightarrow> loop_pre s \<and> current_stop s = trailed_stop s"
  by (auto simp: pos_inv_def loop_pre_def)

lemma pos_inv_openI: "loop_pre s \<Longrightarrow> current_stop s = trailed_stop s \<Longrightarrow> 0 \<le> bars_held s \<Longrightarrow> pos_inv s"
  by (auto simp: pos_inv_def loop_pre_def)

lemma bars_held_update [simp]:
  "trailed_stop (s\<lparr>bars_held := b\<rparr>) = trailed_stop s" "loop_pre (s\<lparr>bars_held := b\<rparr>) = loop_pre s"
  "extreme_of (s\<lparr>bars_held := b\<rparr>) = extreme_of s"
  by (simp_all add: trailed_stop_def loop_pre_def extreme_of_def base_stop_def chandelier_stop_def split: option.splits)

lemma plan_ok_cong: "plan s' = plan s \<Longrightarrow> plan_ok s' = plan_ok s"
  by (simp add: plan_def plan_ok_def)

lemma trailed_stop_cong:
  "plan s' = plan s \<Longrightarrow> tp1_hit s' = tp1_hit s \<Longrightarrow> tp2_hit s' = tp2_hit s \<Longrightarrow> extreme_of s' = extreme_of s \<Longrightarrow>
   trailed_stop s' = trailed_stop s"
  by (simp add: trailed_stop_def base_stop_def plan_def chandelier_stop_def split: option.splits)

lemma process_body_post:
  assumes inv: "pos_inv s" and op: "\<not> closed s"
  shows "\<exists>s' acts. process_bar_body s high low = Inr (s', acts) \<and> plan s' = plan s \<and> pos_inv s' \<and>
    bars_held s' = bars_held s + 1 \<and> (tp1_hit s \<longrightarrow> tp1_hit s') \<and> (tp2_hit s \<longrightarrow> tp2_hit s') \<and>
    (closed s' \<or> ext_improves s s') \<and>
    (closed s' \<or> of_int (bars_held s + 1) \<le> fmul (time_stop_cd_mult s) (of_int (cd_leg_bars s)))"
proof -
  let ?s1 = "s\<lparr>bars_held := bars_held s + 1\<rparr>"
  note open_s = pos_inv_open [OF inv op]
  have plan: "plan_ok s" and sz: "0 \<le> size_remaining s" "size_remaining s \<le> 1"
    using open_s size_for_bounds by (auto simp: loop_pre_def)
  have bars: "0 < bars_held ?s1" using inv by (simp add: pos_inv_def)
  show ?thesis
  proof (cases "stop_hit high low (current_stop s) (p_bullish s) \<or>
      of_int (bars_held s + 1) > fmul (time_stop_cd_mult s) (of_int (cd_leg_bars s))")
    case True
    let ?shut = "\<lambda>why. ?s1\<lparr>closed := True, size_remaining := 0, close_reason := Some why\<rparr>"
    have shut: "plan (?shut why) = plan s \<and> pos_inv (?shut why)" for why
      using inv by (simp add: pos_inv_def plan_def plan_ok_def)
    show ?thesis
    proof (cases "stop_hit high low (current_stop s) (p_bullish s)")
      case True
      then have "process_bar_body s high low = Inr (?shut StopOut, [CloseAllStop])"
        using plan sz op by (simp add: process_bar_body_def pos_init_eq)
      with shut [of StopOut] show ?thesis by simp
    next
      case False
      with \<open>stop_hit high low (current_stop s) (p_bullish s) \<or> _\<close>
      have "process_bar_body s high low = Inr (?shut TimeStop, [CloseAllTime])"
        using plan sz op by (simp add: process_bar_body_def pos_init_eq)
      with shut [of TimeStop] show ?thesis by simp
    qed
  next
    case False
    have "loop_pre ?s1" using open_s by simp
    from tp_loop_post [OF this, of high low] obtain s2 acts r
      where loop: "tp_loop [Tp1, Tp2, Tp3] high low ?s1 [] = Inr (s2, acts, r)" and post: "loop_post ?s1 s2 r" by blast
    have body: "process_bar_body s high low =
       (if r then Inr (s2, acts) else ebind (ratchet high low s2 acts) (\<lambda>(s3, acts3).
          Inr (s3, if acts3 = [] then [Hold] else acts3)))"
      using False op plan sz loop by (simp add: process_bar_body_def pos_init_eq)
    show ?thesis
    proof (cases r)
      case True
      then have "plan s2 = plan s" "pos_inv s2" "bars_held s2 = bars_held s + 1" "closed s2" "tp1_hit s2" "tp2_hit s2"
        using post plan inv plan_ok_cong [of s2 ?s1] by (auto simp: loop_post_def pos_inv_def plan_def)
      then show ?thesis using True body by simp
    next
      case False
      have pre2: "loop_pre s2" and pl: "plan s2 = plan s" and b2: "bars_held s2 = bars_held s + 1"
        and hit: "tp1_hit s \<longrightarrow> tp1_hit s2" "tp2_hit s \<longrightarrow> tp2_hit s2"
        using post False by (auto simp: loop_post_def plan_def)
      have stop2: "current_stop s2 = base_stop s2 \<or> current_stop s2 = trailed_stop s2"
      proof (cases "tp1_hit s2 = tp1_hit s \<and> tp2_hit s2 = tp2_hit s")
        case True
        then have "extreme_of s2 = extreme_of s" 
          using post False open_s pre2 by (cases "tp1_hit s") (auto simp: loop_post_def loop_pre_def extreme_of_def)
        then have "trailed_stop s2 = trailed_stop s" using True pl by (intro trailed_stop_cong) auto
        then show ?thesis using True post False open_s by (auto simp: loop_post_def)
      next
        case F: False
        then show ?thesis using post False by (auto simp: loop_post_def)
      qed
      from ratchet_post [OF pre2 _ stop2, of high low acts] b2 bars obtain s3 acts3
        where "ratchet high low s2 acts = Inr (s3, acts3)" "plan s3 = plan s2" "bars_held s3 = bars_held s2"
          "loop_pre s3" "tp1_hit s3 = tp1_hit s2" "tp2_hit s3 = tp2_hit s2" "current_stop s3 = trailed_stop s3" and e3: "ext_improves s2 s3" by auto
      moreover have "ext_improves s s3"
      proof -
        have "p_bullish s2 = p_bullish s" using pl by (simp add: plan_def)
        moreover have "extreme_of s \<noteq> None \<longrightarrow> extreme_of s2 = extreme_of s"
          using post False open_s by (auto simp: loop_post_def loop_pre_def)
        ultimately show ?thesis using e3 by (auto simp: ext_improves_def)
      qed
      ultimately show ?thesis using body False pl b2 hit bars \<open>\<not> (stop_hit high low (current_stop s) (p_bullish s) \<or>
      of_int (bars_held s + 1) > fmul (time_stop_cd_mult s) (of_int (cd_leg_bars s)))\<close>
        by (auto simp: not_less intro!: pos_inv_openI)
    qed
  qed
qed

lemma process_bar_open:
  assumes inv: "pos_inv s" and op: "\<not> closed s"
  shows "\<exists>s' acts. process_bar s high low close = Inr (s', acts) \<and> plan s' = plan s \<and> pos_inv s' \<and>
    bars_held s' = bars_held s + 1 \<and> (tp1_hit s \<longrightarrow> tp1_hit s') \<and> (tp2_hit s \<longrightarrow> tp2_hit s') \<and>
    (closed s' \<or> ext_improves s s') \<and>
    (closed s' \<or> of_int (bars_held s + 1) \<le> fmul (time_stop_cd_mult s) (of_int (cd_leg_bars s)))"
proof -
  from process_body_post [OF assms, of high low] obtain s' acts
    where b: "process_bar_body s high low = Inr (s', acts)" and i': "pos_inv s'"
      and rest: "plan s' = plan s" "bars_held s' = bars_held s + 1" "tp1_hit s \<longrightarrow> tp1_hit s'" "tp2_hit s \<longrightarrow> tp2_hit s'"
      "closed s' \<or> ext_improves s s'"
      "closed s' \<or> of_int (bars_held s + 1) \<le> fmul (time_stop_cd_mult s) (of_int (cd_leg_bars s))" by blast
  have "closed s' \<longrightarrow> close_reason s' \<noteq> None" using i' by (auto simp: pos_inv_def)
  moreover have "plan_ok s" "0 \<le> size_remaining s" "size_remaining s \<le> 1"
    using pos_inv_open [OF assms] size_for_bounds by (auto simp: loop_pre_def)
  ultimately have "process_bar s high low close = Inr (s', acts)"
    using b by (simp add: process_bar_def plan_ok_def)
  then show ?thesis using i' rest by blast
qed

lemma process_bar_closed: "pos_inv s \<Longrightarrow> closed s \<Longrightarrow> process_bar s high low close = Inr (s, [HoldClosed])"
  by (auto simp: process_bar_def process_bar_body_def pos_inv_def plan_ok_def)

lemma opened_inv: "opened s \<Longrightarrow> pos_inv s"
  by (auto simp: opened_def pos_inv_def size_for_def extreme_of_def trailed_stop_def base_stop_def)

lemma reachable_inv: "reachable s0 s \<Longrightarrow> opened s0 \<and> pos_inv s \<and> plan s = plan s0"
proof (induction rule: reachable.induct)
  case start
  then show ?case by (simp add: opened_inv)
next
  case (next_bar s acts s')
  from next_bar.hyps(2) obtain h l c where run: "process_bar s h l c = Inr (s', acts)" by (rule bar_stepE)
  show ?case
  proof (cases "closed s")
    case True
    then show ?thesis using run next_bar.IH process_bar_closed [of s h l c] by simp
  next
    case False
    then show ?thesis using run next_bar.IH process_bar_open [of s h l c] by auto
  qed
qed

section \<open>Properties\<close>

text \<open>
  C3: the life of a position. In every state reachable from a freshly opened position the plan is
  the one it was opened with; the next bar never raises, whatever its prices; targets are hit in
  order; the open size is exactly 1, 0.5 or 0.2 according to the targets hit; a closed position has
  size 0 and a reason, and further bars leave it unchanged.
\<close>

theorem position_lifecycle:
  assumes r: "reachable s0 s"
  shows "plan s = plan s0 \<and> (\<exists>s' acts. process_bar s high low close = Inr (s', acts)) \<and>
    \<not> (tp2_hit s \<and> \<not> tp1_hit s) \<and> \<not> (tp3_hit s \<and> \<not> tp2_hit s) \<and>
    (if closed s then size_remaining s = 0 \<and> close_reason s \<noteq> None \<and> process_bar s high low close = Inr (s, [HoldClosed])
     else size_remaining s = size_for (tp1_hit s) (tp2_hit s))"
proof -
  have inv: "pos_inv s" "plan s = plan s0" using reachable_inv [OF r] by auto
  show ?thesis
    using inv process_bar_open [OF inv(1), of high low close] process_bar_closed [OF inv(1), of high low close]
    by (cases "closed s") (auto simp: pos_inv_def)
qed

definition demo_position :: PositionState where
  "demo_position = \<lparr>p_bullish = True, entry_price = 100, initial_stop = 95, current_stop = 95,
     tp1 = 110, tp2 = 120, tp3 = 200, p_atr = 1, cd_leg_bars = 10, chandelier_period = 22,
     chandelier_atr_mult = 2, time_stop_cd_mult = 3 / 2, bars_held = 0, size_remaining = 1,
     tp1_hit = False, tp2_hit = False, tp3_hit = False, closed = False, close_reason = None,
     chandelier_high = None, chandelier_low = None\<rparr>"

lemma demo_opened: "opened demo_position"
  by (simp add: opened_def demo_position_def plan_ok_def)

lemma demo_first_bar:
  "process_bar demo_position 118 101 117 =
     Inr (demo_position\<lparr>bars_held := 1, size_remaining := 1 / 2, tp1_hit := True, current_stop := 116,
          chandelier_high := Some 118\<rparr>,
        [ClosePartial (1 / 2) Tp1, MoveStopAfter 100 Tp1, MoveStopChandelier 116])"
  unfolding demo_position_def by code_simp

lemma demo_reachable:
  "reachable demo_position (demo_position\<lparr>bars_held := 1, size_remaining := 1 / 2, tp1_hit := True, current_stop := 116,
          chandelier_high := Some 118\<rparr>)"
  by (rule reachable.next_bar [OF reachable.start [OF demo_opened] bar_step.intros [OF demo_first_bar]])

theorem position_lifecycle_witness:
  "\<exists>s' acts. process_bar (demo_position\<lparr>bars_held := 1, size_remaining := 1 / 2, tp1_hit := True, current_stop := 116,
          chandelier_high := Some 118\<rparr>) 121 117 119 = Inr (s', acts)"
  using position_lifecycle [OF demo_reachable, of 121 117 119] by simp

text \<open>
  The order of the requests of one bar: when TP2 is hit while the trailing stop already stands
  above TP1, the bar first asks to move the stop back down to TP1 and then to the new trail.
\<close>

lemma tp2_request_loosens_first:
  "map_sum id snd (process_bar (demo_position\<lparr>bars_held := 1, size_remaining := 1 / 2, tp1_hit := True, current_stop := 116,
          chandelier_high := Some 118\<rparr>) 121 117 119) =
     Inr [ClosePartial (fl (3 / 10)) Tp2, MoveStopAfter 110 Tp2, MoveStopChandelier 119]"
  unfolding demo_position_def by code_simp

text \<open>
  C4: the stop only ratchets. Over one bar of a reachable position that stays open, with the
  planned geometry (initial stop, entry and TP1 in order), the stop at the end of the bar is never
  looser than before it, even when TP2 resets it to TP1; and it always equals the better of the
  stop the targets hit so far give (initial stop, entry or TP1) and the chandelier level of the
  extreme recorded since TP1.
\<close>

theorem stop_never_loosens:
  assumes r: "reachable s0 s" and step: "bar_step s acts s'" and still: "\<not> closed s'"
    and geometry: "if p_bullish s0 then initial_stop s0 \<le> entry_price s0 \<and> entry_price s0 \<le> tp1 s0
                   else tp1 s0 \<le> entry_price s0 \<and> entry_price s0 \<le> initial_stop s0"
  shows "current_stop s' = trailed_stop s' \<and>
    (if p_bullish s0 then current_stop s \<le> current_stop s' else current_stop s' \<le> current_stop s)"
proof -
  have inv: "pos_inv s" "plan s = plan s0" using reachable_inv [OF r] by auto
  from step obtain h l c where run: "process_bar s h l c = Inr (s', acts)" by (rule bar_stepE)
  have op: "\<not> closed s" using run still process_bar_closed [OF inv(1), of h l c] by auto
  from process_bar_open [OF inv(1) op, of h l c] run still
  have post: "plan s' = plan s" "pos_inv s'" "tp1_hit s \<longrightarrow> tp1_hit s'" "tp2_hit s \<longrightarrow> tp2_hit s'" "ext_improves s s'"
    by auto
  have stops: "current_stop s = trailed_stop s" "current_stop s' = trailed_stop s'"
    and ord: "tp2_hit s' \<longrightarrow> tp1_hit s'" "tp2_hit s \<longrightarrow> tp1_hit s"
    using inv(1) post(2) op still by (auto simp: pos_inv_def)
  have plans: "p_bullish s' = p_bullish s" "entry_price s' = entry_price s" "initial_stop s' = initial_stop s"
    "tp1 s' = tp1 s" "\<And>x. chandelier_stop s' x = chandelier_stop s x"
    "p_bullish s0 = p_bullish s" "entry_price s0 = entry_price s" "initial_stop s0 = initial_stop s" "tp1 s0 = tp1 s"
    using post(1) inv(2) by (auto simp: plan_def chandelier_stop_def)
  have base: "if p_bullish s then base_stop s \<le> base_stop s' else base_stop s' \<le> base_stop s"
    using geometry post(3,4) ord unfolding plans by (auto simp: base_stop_def plans)
  have trail: "if p_bullish s then trailed_stop s \<le> trailed_stop s' else trailed_stop s' \<le> trailed_stop s"
    using base post(5) chandelier_stop_mono [of s]
    by (cases "extreme_of s"; cases "extreme_of s'")
      (auto simp: trailed_stop_def ext_improves_def plans simp del: max.bounded_iff min.bounded_iff
        intro: max.mono min.mono max.coboundedI1 min.coboundedI1)
  show ?thesis using stops trail plans by simp
qed


theorem stop_never_loosens_witness:
  "(95 :: rat) \<le> 116 \<and> reachable demo_position demo_position"
  using stop_never_loosens [OF reachable.start [OF demo_opened] bar_step.intros [OF demo_first_bar]]
    reachable.start [OF demo_opened]
  by (simp add: demo_position_def)

text \<open>
  C5: the time stop bounds the life of a position. A freshly opened position is closed after any
  non-empty sequence of bars longer than \<open>time_stop_cd_mult * cd_leg_bars\<close>, and no bar of the sequence raises.
\<close>

theorem time_stop_bounds_life:
  assumes "opened s" "bs \<noteq> []" "fmul (time_stop_cd_mult s) (of_int (cd_leg_bars s)) < of_nat (length bs)"
  shows "\<exists>s'. process_bars s bs = Inr s' \<and> closed s' \<and> size_remaining s' = 0"
proof -
  have shut: "process_bars u xs = Inr u" if "pos_inv u" "closed u" for u xs
    using that by (induction xs) (auto simp: process_bar_closed)
  have "\<exists>s'. process_bars u bs = Inr s' \<and> pos_inv s' \<and>
      (closed s' \<or> plan s' = plan s \<and> bars_held s' = bars_held u + int (length bs) \<and>
       (bs = [] \<or> of_int (bars_held s') \<le> fmul (time_stop_cd_mult s) (of_int (cd_leg_bars s))))"
    if "pos_inv u" "closed u \<or> plan u = plan s" for u
    using that
  proof (induction bs arbitrary: u)
    case (Cons b bs)
    obtain h l c where b: "b = (h, l, c)" by (cases b)
    show ?case
    proof (cases "closed u")
      case True
      then show ?thesis using shut Cons.prems by blast
    next
      case False
      with Cons.prems have pl: "plan u = plan s" by simp
      from process_bar_open [OF Cons.prems(1) False, of h l c] obtain u' acts where
        step: "process_bar u h l c = Inr (u', acts)" "plan u' = plan u" "pos_inv u'" "bars_held u' = bars_held u + 1"
        and alive: "closed u' \<or> of_int (bars_held u + 1) \<le> fmul (time_stop_cd_mult u) (of_int (cd_leg_bars u))" by blast
      have tm: "time_stop_cd_mult u = time_stop_cd_mult s" "cd_leg_bars u = cd_leg_bars s"
        using pl by (auto simp: plan_def)
      from Cons.IH [of u'] step(2,3) pl obtain s' where "process_bars u' bs = Inr s'" "pos_inv s'"
        "closed s' \<or> plan s' = plan s \<and> bars_held s' = bars_held u' + int (length bs) \<and>
          (bs = [] \<or> of_int (bars_held s') \<le> fmul (time_stop_cd_mult s) (of_int (cd_leg_bars s)))" by auto
      then show ?thesis using step b alive tm by (cases "bs = []") auto
    qed
  qed auto
  from this [of s] obtain s' where "process_bars s bs = Inr s'" "pos_inv s'"
    "closed s' \<or> bars_held s' = int (length bs) \<and>
       (bs = [] \<or> of_int (bars_held s') \<le> fmul (time_stop_cd_mult s) (of_int (cd_leg_bars s)))"
    using opened_inv [OF assms(1)] assms(1) by (auto simp: opened_def)
  then show ?thesis using assms by (auto simp: pos_inv_def)
qed

theorem time_stop_bounds_life_witness:
  "\<exists>s'. process_bars demo_position (replicate 16 (105, 99, 100)) = Inr s' \<and> closed s' \<and> size_remaining s' = 0"
proof (rule time_stop_bounds_life [OF demo_opened])
  show "replicate 16 (105 :: rat, 99 :: rat, 100 :: rat) \<noteq> []" by simp
  show "fmul (time_stop_cd_mult demo_position) (of_int (cd_leg_bars demo_position)) < of_nat (length (replicate 16 (105 :: rat, 99 :: rat, 100 :: rat)))"
    unfolding demo_position_def by code_simp
qed

end
