(* ===== verification/Promotion.thy ===== *)
theory Promotion
  imports PyFloat Pareto
begin

text \<open>
  The gates between a tuned candidate and production: \<^verbatim>\<open>app/loop/tuning_promotion.py\<close> (which
  paths and tools may be touched), \<^verbatim>\<open>app/loop/tuning_promotion_v3.py\<close> (the nine-item metric gate)
  and \<^verbatim>\<open>app/ft_strategy/verdict.py\<close> (keep, revert or crash). Notes and messages are not
  modelled; labels, verdicts, observed values and thresholds are.
\<close>

section \<open>The interface of a check-list gate\<close>

text \<open>
  A gate evaluates a list of labelled checks; it is open when all passed, and it reports the labels
  of those that failed. Clients (routes, agents) rely only on these laws.
\<close>

locale check_gate =
  fixes items :: "'a \<Rightarrow> 'i list"
    and passed :: "'i \<Rightarrow> bool"
    and label :: "'i \<Rightarrow> string"
    and ok :: "'a \<Rightarrow> bool"
    and blockers :: "'a \<Rightarrow> string list"
  assumes ok_law: "ok a \<longleftrightarrow> list_all passed (items a)"
    and blockers_law: "blockers a = map label (filter (\<lambda>i. \<not> passed i) (items a))"
begin

lemma ok_iff_no_blockers: "ok a \<longleftrightarrow> blockers a = []"
  by (simp add: ok_law blockers_law list_all_iff filter_empty_conv)

lemma blockers_subseq: "subseq (blockers a) (map label (items a))"
  unfolding blockers_law by (rule subseq_map) simp

lemma blocker_iff:
  "distinct (map label (items a)) \<Longrightarrow> i \<in> set (items a) \<Longrightarrow> label i \<in> set (blockers a) \<longleftrightarrow> \<not> passed i"
  unfolding blockers_law by (auto simp: distinct_map inj_on_def)

end

section \<open>Path gate\<close>

definition LIVE_TUNING_PARTS :: "string list" where
  "LIVE_TUNING_PARTS = [''app'', ''config'', ''tuning.py'']"

definition LIVE_TUNING_PATH :: string where
  "LIVE_TUNING_PATH = ''app/config/tuning.py''"

text \<open>
  \<open>Path(path).as_posix()\<close>: the lexical normalisation of \<open>pathlib\<close>. Empty and single-dot components
  disappear, a double-dot component stays, one or exactly two leading slashes are kept.
\<close>

definition path_parts :: "string \<Rightarrow> string list" where
  "path_parts s = filter (\<lambda>c. c \<noteq> [] \<and> c \<noteq> ''.'') (split_on (CHR ''/'') s)"

definition path_root :: "string \<Rightarrow> string" where
  "path_root s =
     (if startswith s ''//'' \<and> \<not> startswith s ''///'' then ''//'' else if startswith s ''/'' then ''/'' else [])"

definition as_posix :: "string \<Rightarrow> string" where
  "as_posix s =
     (if path_root s = [] \<and> path_parts s = [] then ''.'' else path_root s @ join ''/'' (path_parts s))"

definition is_live_tuning_path :: "string \<Rightarrow> bool" where
  "is_live_tuning_path path =
     (let p = as_posix path in p = LIVE_TUNING_PATH \<or> suffix (''/'' @ LIVE_TUNING_PATH) p)"

definition promotion_allowed_for_files :: "string list \<Rightarrow> bool \<times> string option" where
  "promotion_allowed_for_files paths =
     (case filter is_live_tuning_path paths of p # _ \<Rightarrow> (False, Some p) | [] \<Rightarrow> (True, None))"

section \<open>Tool gates\<close>

definition OKX_WRITE_TOOLS :: "string list" where
  "OKX_WRITE_TOOLS = [
     ''spot_place_order'', ''spot_cancel_order'', ''spot_amend_order'', ''spot_batch_place_orders'',
     ''spot_batch_cancel_orders'', ''account_transfer'', ''account_set_position_mode'', ''account_set_leverage'',
     ''swap_place_order'', ''swap_cancel_order'', ''swap_amend_order'', ''swap_batch_place_orders'',
     ''swap_batch_cancel_orders'', ''swap_set_leverage'', ''swap_close_position'', ''move_order_stop'',
     ''futures_place_order'', ''futures_cancel_order'', ''futures_amend_order'', ''futures_batch_place_orders'',
     ''futures_batch_cancel_orders'', ''futures_set_leverage'', ''futures_close_position'',
     ''option_place_order'', ''option_cancel_order'', ''option_amend_order'', ''option_batch_cancel_orders'',
     ''earn_purchase'', ''earn_redeem'', ''earn_subscribe'', ''earn_redeem_subscription'',
     ''event_place_order'', ''event_amend_order'', ''event_cancel_order'',
     ''bot_create_grid'', ''bot_create_dca'', ''bot_stop'']"

definition is_live_execution_tool :: "string \<Rightarrow> bool" where
  "is_live_execution_tool name = (name \<in> set OKX_WRITE_TOOLS)"

datatype exec_mode = NoWrites | PaperWrites "string list" | LiveWrites "string list"

definition execution_allowed_for_tools :: "string list \<Rightarrow> bool \<Rightarrow> bool \<times> exec_mode" where
  "execution_allowed_for_tools names paper =
     (let write_hits = filter is_live_execution_tool names in
      if write_hits \<noteq> [] \<and> \<not> paper then (True, LiveWrites write_hits)
      else if write_hits = [] then (True, NoWrites)
      else (True, PaperWrites write_hits))"

definition BINANCE_MARKET_TOOLS :: "string list" where
  "BINANCE_MARKET_TOOLS = [
     ''futures-usds_mark-price'', ''futures-usds_open-interest'', ''futures-usds_open-interest-statistics'',
     ''futures-usds_get-funding-rate-history'', ''futures-usds_get-funding-rate-info'',
     ''futures-usds_mark-price-kline-candlestick-data'', ''futures-usds_premium-index'',
     ''spot_ticker'', ''spot_klines'', ''spot_depth'', ''spot_avg-price'', ''spot_trades'']"

definition is_market_data_tool :: "string \<Rightarrow> bool" where
  "is_market_data_tool name = (name \<in> set BINANCE_MARKET_TOOLS)"

definition market_data_allowed_for_tools :: "string list \<Rightarrow> bool \<times> string list" where
  "market_data_allowed_for_tools names =
     (let unknown = filter (\<lambda>n. \<not> is_market_data_tool n) names
      in if unknown \<noteq> [] then (False, unknown) else (True, names))"

section \<open>The nine-item gate\<close>

definition DEFAULT_DRAWDOWN_BASELINE :: rat where "DEFAULT_DRAWDOWN_BASELINE = fl (156 / 1000)"
definition DRAWDOWN_MULTIPLIER :: rat where "DRAWDOWN_MULTIPLIER = 2"
definition DEFAULT_PROFIT_FLOOR :: rat where "DEFAULT_PROFIT_FLOOR = fl (5 / 100)"
definition DEFAULT_MIN_POSITION_SIZE :: int where "DEFAULT_MIN_POSITION_SIZE = 30"
definition DEFAULT_ROBUST_SHARPE_MIN :: rat where "DEFAULT_ROBUST_SHARPE_MIN = 0"
definition DEFAULT_ROBUST_CALMAR_MIN :: rat where "DEFAULT_ROBUST_CALMAR_MIN = 1"
definition REASONING_MIN_LENGTH :: nat where "REASONING_MIN_LENGTH = 10"

record PerTimerangeResult =
  pt_regime :: string
  pt_sharpe :: rat
  pt_max_dd :: rat
  pt_calmar :: rat

record PromotionCandidate =
  pc_strategy :: string
  pc_version :: int
  pc_sharpe :: rat
  pc_max_dd :: rat
  pc_calmar :: rat
  pc_win_rate :: rat
  pc_profit_pct :: rat
  pc_trades :: int
  pc_timeranges :: "PerTimerangeResult list"
  pc_final_report :: bool
  pc_open_crashes :: int
  pc_shadow :: bool

type_synonym shape = "rat \<times> rat \<times> rat \<times> rat"

record PromotionContext =
  ctx_baseline_dd :: rat
  ctx_profit_floor :: rat
  ctx_min_size :: int
  ctx_sharpe_min :: rat
  ctx_calmar_min :: rat
  ctx_priors :: "shape list"

definition default_context :: PromotionContext where
  "default_context = \<lparr>ctx_baseline_dd = DEFAULT_DRAWDOWN_BASELINE, ctx_profit_floor = DEFAULT_PROFIT_FLOOR,
     ctx_min_size = DEFAULT_MIN_POSITION_SIZE, ctx_sharpe_min = DEFAULT_ROBUST_SHARPE_MIN,
     ctx_calmar_min = DEFAULT_ROBUST_CALMAR_MIN, ctx_priors = []\<rparr>"

record PromotionCheckItem =
  item_label :: string
  item_passed :: bool
  observed :: "rat option"
  threshold :: "rat option"

record PromotionResult =
  res_ok :: bool
  res_items :: "PromotionCheckItem list"
  hard_blockers :: "string list"

text \<open>One prior against the candidate: the body of the loop of \<open>_pareto_dominated\<close>.\<close>

definition shape_dominates :: "shape \<Rightarrow> shape \<Rightarrow> bool" where
  "shape_dominates prior cand =
     (case (prior, cand) of ((ps, pc, pdd, pwr), (cs, cc, cdd, cwr)) \<Rightarrow>
        (ps \<ge> cs \<and> pc \<ge> cc \<and> pdd \<ge> cdd \<and> pwr \<ge> cwr) \<and> (ps > cs \<or> pc > cc \<or> pdd > cdd \<or> pwr > cwr))"

definition pareto_dominated :: "shape \<Rightarrow> shape list \<Rightarrow> bool" where
  "pareto_dominated cand priors = list_ex (\<lambda>p. shape_dominates p cand) priors"

interpretation shapes: dominance shape_dominates
  by unfold_locales (auto simp: shape_dominates_def)

definition robust_item :: "string \<Rightarrow> rat list \<Rightarrow> rat \<Rightarrow> PromotionCheckItem" where
  "robust_item lbl xs bound =
     (if xs \<noteq> []
      then \<lparr>item_label = lbl, item_passed = list_min xs \<ge> bound, observed = Some (pyround (list_min xs) 4),
            threshold = Some bound\<rparr>
      else \<lparr>item_label = lbl, item_passed = False, observed = None, threshold = Some bound\<rparr>)"

definition candidate_shape :: "PromotionCandidate \<Rightarrow> shape" where
  "candidate_shape c = (pc_sharpe c, pc_calmar c, - pc_max_dd c, pc_win_rate c)"

definition gate_items :: "PromotionCandidate \<Rightarrow> PromotionContext \<Rightarrow> PromotionCheckItem list" where
  "gate_items c ctx =
     (let dd = fmul DRAWDOWN_MULTIPLIER (ctx_baseline_dd ctx) in
      [robust_item ''robust_sharpe_min'' (map pt_sharpe (pc_timeranges c)) (ctx_sharpe_min ctx),
       robust_item ''robust_calmar_min'' (map pt_calmar (pc_timeranges c)) (ctx_calmar_min ctx),
       \<lparr>item_label = ''max_drawdown'', item_passed = pc_max_dd c \<le> dd, observed = Some (pyround (pc_max_dd c) 4),
         threshold = Some (pyround dd 4)\<rparr>,
       \<lparr>item_label = ''profit_floor'', item_passed = pc_profit_pct c \<ge> ctx_profit_floor ctx,
         observed = Some (pyround (pc_profit_pct c) 4), threshold = Some (ctx_profit_floor ctx)\<rparr>,
       \<lparr>item_label = ''min_position_size'', item_passed = pc_trades c \<ge> ctx_min_size ctx,
         observed = Some (fl (of_int (pc_trades c))), threshold = Some (fl (of_int (ctx_min_size ctx)))\<rparr>,
       \<lparr>item_label = ''not_pareto_dominated'', item_passed = \<not> pareto_dominated (candidate_shape c) (ctx_priors ctx),
         observed = None, threshold = None\<rparr>,
       \<lparr>item_label = ''shadow_observed'', item_passed = pc_shadow c, observed = Some (if pc_shadow c then 1 else 0),
         threshold = None\<rparr>,
       \<lparr>item_label = ''report_referenced'', item_passed = pc_final_report c, observed = None, threshold = None\<rparr>,
       \<lparr>item_label = ''no_open_crash_in_window'', item_passed = pc_open_crashes c = 0,
         observed = Some (fl (of_int (pc_open_crashes c))), threshold = Some 0\<rparr>])"

definition check_promotion_v3 :: "PromotionCandidate \<Rightarrow> PromotionContext option \<Rightarrow> PromotionResult" where
  "check_promotion_v3 c ctx0 =
     (let ctx = (case ctx0 of None \<Rightarrow> default_context | Some x \<Rightarrow> x);
          items = gate_items c ctx;
          failing = filter (\<lambda>i. \<not> item_passed i) items
      in \<lparr>res_ok = (failing = []), res_items = items, hard_blockers = map item_label failing\<rparr>)"

interpretation v3: check_gate "\<lambda>(c, x). res_items (check_promotion_v3 c x)" item_passed item_label
  "\<lambda>(c, x). res_ok (check_promotion_v3 c x)" "\<lambda>(c, x). hard_blockers (check_promotion_v3 c x)"
  by unfold_locales (auto simp: check_promotion_v3_def Let_def filter_neg_Nil_iff list_all_iff split: prod.splits)

text \<open>\<open>assert_crash_closure_window\<close>: the value of the ValueError's window, or the window.\<close>

definition assert_crash_closure_window :: "int \<Rightarrow> int + int" where
  "assert_crash_closure_window days = (if days < 0 \<or> days > 90 then Inl days else Inr days)"

section \<open>Experiment verdicts\<close>

datatype verdict = Keep | Revert | Crash

record MetricsSnapshot =
  ms_sharpe :: rat
  ms_max_dd :: rat
  ms_win_rate :: rat
  ms_profit :: rat

record VerdictResult =
  vr_verdict :: verdict
  vr_hard_rule :: bool

definition suggest_verdict :: "MetricsSnapshot \<Rightarrow> MetricsSnapshot \<Rightarrow> rat \<Rightarrow> rat \<Rightarrow> VerdictResult" where
  "suggest_verdict prev cur baseline_dd min_win =
     (if ms_max_dd cur > fmul DRAWDOWN_MULTIPLIER baseline_dd then \<lparr>vr_verdict = Crash, vr_hard_rule = True\<rparr>
      else if ms_sharpe cur \<ge> ms_sharpe prev \<and> ms_max_dd cur \<le> ms_max_dd prev \<and> ms_win_rate cur \<ge> min_win
        then \<lparr>vr_verdict = Keep, vr_hard_rule = False\<rparr>
      else \<lparr>vr_verdict = Revert, vr_hard_rule = False\<rparr>)"

definition reasoning_ok :: "string \<Rightarrow> bool" where
  "reasoning_ok s \<longleftrightarrow> length (strip s) \<ge> REASONING_MIN_LENGTH"

section \<open>Lemmas on paths\<close>

lemma join_split_on: "join [c] (split_on c s) = s"
proof (induction s)
  case (Cons x xs)
  then show ?case by (cases "split_on c xs"; cases "tl (split_on c xs)") (auto split: list.splits)
qed simp

lemma join_append: "us \<noteq> [] \<Longrightarrow> ws \<noteq> [] \<Longrightarrow> join sep (us @ ws) = join sep us @ sep @ join sep ws"
proof (induction us rule: induct_list012)
  case (2 x)
  then show ?case by (cases ws) auto
qed auto

lemma suffix_join_iff:
  assumes "ws \<noteq> []" "\<And>w. w \<in> set ws \<Longrightarrow> c \<notin> set w"
  shows "suffix (c # join [c] ws) s \<longleftrightarrow> (\<exists>us. us \<noteq> [] \<and> split_on c s = us @ ws)"
proof
  assume "suffix (c # join [c] ws) s"
  then obtain u where "s = u @ c # join [c] ws" by (auto simp: suffix_def)
  then have "split_on c s = split_on c u @ ws"
    using assms by (simp add: split_on_append_sep split_on_join)
  then show "\<exists>us. us \<noteq> [] \<and> split_on c s = us @ ws" using split_on_nonempty by blast
next
  assume "\<exists>us. us \<noteq> [] \<and> split_on c s = us @ ws"
  then obtain us where us: "us \<noteq> []" "split_on c s = us @ ws" by blast
  have "s = join [c] us @ [c] @ join [c] ws"
    using join_split_on [of c s] us assms(1) by (simp add: join_append)
  then show "suffix (c # join [c] ws) s" by (auto simp: suffix_def)
qed

lemma split_on_clean_parts: "w \<in> set (split_on c s) \<Longrightarrow> c \<notin> set w"
proof (induction s arbitrary: w)
  case (Cons x xs)
  then show ?case by (cases "split_on c xs") (auto split: if_splits)
qed simp

lemma path_parts_clean: "w \<in> set (path_parts s) \<Longrightarrow> CHR ''/'' \<notin> set w \<and> w \<noteq> []"
  using split_on_clean_parts by (auto simp: path_parts_def)

text \<open>How the normalised path splits again: the root contributes empty components only.\<close>

lemma split_as_posix:
  assumes "path_parts s \<noteq> []"
  shows "\<exists>es. set es \<subseteq> {[]} \<and> split_on (CHR ''/'') (as_posix s) = es @ path_parts s"
proof -
  have j: "split_on (CHR ''/'') (join ''/'' (path_parts s)) = path_parts s"
    using assms path_parts_clean by (intro split_on_join) auto
  consider "path_root s = []" | "path_root s = ''/''" | "path_root s = ''//''"
    unfolding path_root_def by metis
  then show ?thesis
  proof cases
    case 1
    then show ?thesis using assms j by (intro exI [of _ "[]"]) (simp add: as_posix_def)
  next
    case 2
    then show ?thesis using assms j by (intro exI [of _ "[[]]"]) (simp add: as_posix_def)
  next
    case 3
    then show ?thesis using assms j by (intro exI [of _ "[[], []]"]) (simp add: as_posix_def)
  qed
qed

lemma live_path_join: "LIVE_TUNING_PATH = join ''/'' LIVE_TUNING_PARTS"
  by (simp add: LIVE_TUNING_PATH_def LIVE_TUNING_PARTS_def)

lemma live_parts_clean: "w \<in> set LIVE_TUNING_PARTS \<Longrightarrow> CHR ''/'' \<notin> set w \<and> w \<noteq> []"
  by (auto simp: LIVE_TUNING_PARTS_def)

lemma suffix_cases: "suffix ws xs \<longleftrightarrow> xs = ws \<or> (\<exists>us. us \<noteq> [] \<and> xs = us @ ws)"
  unfolding suffix_def by (metis append_Nil)

section \<open>Lemmas on the gate\<close>

definition GATE_LABELS :: "string list" where
  "GATE_LABELS = [''robust_sharpe_min'', ''robust_calmar_min'', ''max_drawdown'', ''profit_floor'',
     ''min_position_size'', ''not_pareto_dominated'', ''shadow_observed'', ''report_referenced'', ''no_open_crash_in_window'']"

lemma gate_labels: "map item_label (gate_items c ctx) = GATE_LABELS"
  by (simp add: gate_items_def robust_item_def Let_def GATE_LABELS_def)

lemma gate_labels_distinct: "distinct GATE_LABELS"
  by code_simp

lemma check_v3_items: "res_items (check_promotion_v3 c x) = gate_items c (case x of None \<Rightarrow> default_context | Some y \<Rightarrow> y)"
  by (simp add: check_promotion_v3_def Let_def)

lemma blocker_at:
  assumes "k < 9"
  shows "GATE_LABELS ! k \<in> set (hard_blockers (check_promotion_v3 c x)) \<longleftrightarrow>
    \<not> item_passed (gate_items c (case x of None \<Rightarrow> default_context | Some y \<Rightarrow> y) ! k)"
proof -
  let ?items = "gate_items c (case x of None \<Rightarrow> default_context | Some y \<Rightarrow> y)"
  have len: "length ?items = 9" by (simp add: gate_items_def Let_def)
  have "item_label (?items ! k) = GATE_LABELS ! k"
    using assms len gate_labels [of c "case x of None \<Rightarrow> default_context | Some y \<Rightarrow> y"] by (metis nth_map)
  then show ?thesis
    using v3.blocker_iff [of "(c, x)" "?items ! k"] assms len gate_labels gate_labels_distinct
    by (simp add: check_v3_items)
qed

lemma gate_items_sem:
  "list_all item_passed (gate_items c ctx) \<longleftrightarrow>
      pc_timeranges c \<noteq> [] \<and> list_all (\<lambda>t. ctx_sharpe_min ctx \<le> pt_sharpe t \<and> ctx_calmar_min ctx \<le> pt_calmar t) (pc_timeranges c) \<and>
      pc_max_dd c \<le> fmul 2 (ctx_baseline_dd ctx) \<and> ctx_profit_floor ctx \<le> pc_profit_pct c \<and>
      ctx_min_size ctx \<le> pc_trades c \<and> \<not> list_ex (\<lambda>p. shape_dominates p (candidate_shape c)) (ctx_priors ctx) \<and>
      pc_shadow c \<and> pc_final_report c \<and> pc_open_crashes c = 0"
  by (auto simp: gate_items_def robust_item_def Let_def pareto_dominated_def DRAWDOWN_MULTIPLIER_def
      list_min_ge_iff list_all_iff)

lemma list_all2_inD: "list_all2 P xs ys \<Longrightarrow> x \<in> set xs \<Longrightarrow> \<exists>y \<in> set ys. P x y"
  by (induction rule: list_all2_induct) auto

section \<open>Properties\<close>

text \<open>
  The nine-item gate. It opens exactly when all nine named conditions hold, it always reports the nine
  items in the same order and names exactly the failing ones as blockers; without a context the
  Pareto item always passes.
\<close>

theorem promotion_gate_exact:
  "(let ctx = (case x of None \<Rightarrow> default_context | Some y \<Rightarrow> y); r = check_promotion_v3 c x in
    (res_ok r \<longleftrightarrow>
      pc_timeranges c \<noteq> [] \<and> list_all (\<lambda>t. ctx_sharpe_min ctx \<le> pt_sharpe t \<and> ctx_calmar_min ctx \<le> pt_calmar t) (pc_timeranges c) \<and>
      pc_max_dd c \<le> fmul 2 (ctx_baseline_dd ctx) \<and> ctx_profit_floor ctx \<le> pc_profit_pct c \<and>
      ctx_min_size ctx \<le> pc_trades c \<and> \<not> list_ex (\<lambda>p. shape_dominates p (candidate_shape c)) (ctx_priors ctx) \<and>
      pc_shadow c \<and> pc_final_report c \<and> pc_open_crashes c = 0) \<and>
    map item_label (res_items r) = [''robust_sharpe_min'', ''robust_calmar_min'', ''max_drawdown'', ''profit_floor'',
      ''min_position_size'', ''not_pareto_dominated'', ''shadow_observed'', ''report_referenced'', ''no_open_crash_in_window''] \<and>
    (res_ok r \<longleftrightarrow> hard_blockers r = []) \<and> subseq (hard_blockers r) (map item_label (res_items r)) \<and>
    \<not> (x = None \<and> ''not_pareto_dominated'' \<in> set (hard_blockers r)))"
proof -
  define ctx where "ctx = (case x of None \<Rightarrow> default_context | Some y \<Rightarrow> y)"
  have items: "res_items (check_promotion_v3 c x) = gate_items c ctx"
    by (simp add: check_promotion_v3_def ctx_def Let_def)
  have labels: "map item_label (gate_items c ctx) = [''robust_sharpe_min'', ''robust_calmar_min'', ''max_drawdown'', ''profit_floor'',
      ''min_position_size'', ''not_pareto_dominated'', ''shadow_observed'', ''report_referenced'', ''no_open_crash_in_window'']"
    using gate_labels by (simp add: GATE_LABELS_def)
  have ok: "res_ok (check_promotion_v3 c x) \<longleftrightarrow> list_all item_passed (gate_items c ctx)"
    using v3.ok_law [of "(c, x)"] items by simp
  note sem = gate_items_sem [of c ctx]
  have vac: "\<not> (x = None \<and> ''not_pareto_dominated'' \<in> set (hard_blockers (check_promotion_v3 c x)))"
    using blocker_at [of 5 c x]
    by (auto simp: GATE_LABELS_def gate_items_def Let_def default_context_def pareto_dominated_def)
  show ?thesis
    using v3.ok_iff_no_blockers [of "(c, x)"] v3.blockers_subseq [of "(c, x)"] ok sem labels items vac
    unfolding Let_def ctx_def [symmetric] by simp
qed

text \<open>Candidate \<open>c'\<close> is at least as good as \<open>c\<close> on everything the gate looks at.\<close>

definition at_least_as_good :: "PromotionCandidate \<Rightarrow> PromotionCandidate \<Rightarrow> bool" where
  "at_least_as_good c' c \<longleftrightarrow>
     list_all2 (\<lambda>t' t. pt_sharpe t \<le> pt_sharpe t' \<and> pt_calmar t \<le> pt_calmar t') (pc_timeranges c') (pc_timeranges c) \<and>
     pc_sharpe c \<le> pc_sharpe c' \<and> pc_calmar c \<le> pc_calmar c' \<and> pc_max_dd c' \<le> pc_max_dd c \<and> pc_win_rate c \<le> pc_win_rate c' \<and>
     pc_profit_pct c \<le> pc_profit_pct c' \<and> pc_trades c \<le> pc_trades c' \<and>
     (pc_final_report c \<longrightarrow> pc_final_report c') \<and> (pc_shadow c \<longrightarrow> pc_shadow c') \<and>
     (pc_open_crashes c = 0 \<longrightarrow> pc_open_crashes c' = 0)"

lemma shape_dominates_weaken:
  "at_least_as_good c' c \<Longrightarrow> shape_dominates p (candidate_shape c') \<Longrightarrow> shape_dominates p (candidate_shape c)"
  by (cases p) (auto simp: shape_dominates_def candidate_shape_def at_least_as_good_def)

lemma gate_ok_iff:
  "res_ok (check_promotion_v3 c x) \<longleftrightarrow> list_all item_passed (gate_items c (case x of None \<Rightarrow> default_context | Some y \<Rightarrow> y))"
  using v3.ok_law [of "(c, x)"] by (simp add: check_promotion_v3_def Let_def)

text \<open>
  The gate is monotone. A candidate that is at least as good as another on every metric, regime
  by regime, and has at least its report, shadow and crash status, passes whenever the other
  passes, under the same context and whatever the prior keeps are.
\<close>

theorem promotion_gate_monotone:
  assumes better: "at_least_as_good c' c" and ok: "res_ok (check_promotion_v3 c x)"
  shows "res_ok (check_promotion_v3 c' x)"
proof -
  define ctx where "ctx = (case x of None \<Rightarrow> default_context | Some y \<Rightarrow> y)"
  have ex: "\<exists>t \<in> set (pc_timeranges c). pt_sharpe t \<le> pt_sharpe t' \<and> pt_calmar t \<le> pt_calmar t'"
    if "t' \<in> set (pc_timeranges c')" for t'
  proof -
    have "list_all2 (\<lambda>t' t. pt_sharpe t \<le> pt_sharpe t' \<and> pt_calmar t \<le> pt_calmar t') (pc_timeranges c') (pc_timeranges c)"
      using better by (simp add: at_least_as_good_def)
    from list_all2_inD [OF this that] show ?thesis .
  qed
  have old: "list_all item_passed (gate_items c ctx)" using ok by (simp add: gate_ok_iff ctx_def)
  note old = old [unfolded gate_items_sem]
  have "pc_timeranges c' \<noteq> []" using better old by (auto simp: at_least_as_good_def)
  moreover have "list_all (\<lambda>t. ctx_sharpe_min ctx \<le> pt_sharpe t \<and> ctx_calmar_min ctx \<le> pt_calmar t) (pc_timeranges c')"
    unfolding list_all_iff
  proof
    fix t' assume "t' \<in> set (pc_timeranges c')"
    from ex [OF this] obtain t where "t \<in> set (pc_timeranges c)" "pt_sharpe t \<le> pt_sharpe t'" "pt_calmar t \<le> pt_calmar t'"
      by blast
    moreover from this have "ctx_sharpe_min ctx \<le> pt_sharpe t \<and> ctx_calmar_min ctx \<le> pt_calmar t"
      using old by (simp add: list_all_iff)
    ultimately show "ctx_sharpe_min ctx \<le> pt_sharpe t' \<and> ctx_calmar_min ctx \<le> pt_calmar t'" by linarith
  qed
  moreover have "pc_max_dd c' \<le> fmul 2 (ctx_baseline_dd ctx)" "ctx_profit_floor ctx \<le> pc_profit_pct c'"
    "ctx_min_size ctx \<le> pc_trades c'" "pc_shadow c'" "pc_final_report c'" "pc_open_crashes c' = 0"
    using better old unfolding at_least_as_good_def by linarith+
  moreover have "\<not> list_ex (\<lambda>p. shape_dominates p (candidate_shape c')) (ctx_priors ctx)"
    using old shape_dominates_weaken [OF better] unfolding list_ex_iff by blast
  ultimately have "list_all item_passed (gate_items c' ctx)" by (simp add: gate_items_sem)
  then show ?thesis by (simp add: gate_ok_iff ctx_def)
qed

definition demo_candidate :: "rat \<Rightarrow> PromotionCandidate" where
  "demo_candidate s = \<lparr>pc_strategy = ''s'', pc_version = 1, pc_sharpe = s, pc_max_dd = 1 / 8, pc_calmar = 2,
     pc_win_rate = 1 / 2, pc_profit_pct = 1 / 4, pc_trades = 40,
     pc_timeranges = [\<lparr>pt_regime = ''bull'', pt_sharpe = s, pt_max_dd = 1 / 8, pt_calmar = 2\<rparr>],
     pc_final_report = True, pc_open_crashes = 0, pc_shadow = True\<rparr>"

lemma demo_candidate_passes: "res_ok (check_promotion_v3 (demo_candidate 1) None)"
  by code_simp

theorem promotion_gate_monotone_witness: "res_ok (check_promotion_v3 (demo_candidate 2) None)"
  by (rule promotion_gate_monotone [OF _ demo_candidate_passes]) (simp add: at_least_as_good_def demo_candidate_def)

text \<open>
  The path gate blocks exactly the paths whose components, empty and single-dot ones removed, end in
  \<open>app\<close>, \<open>config\<close>, \<open>tuning.py\<close>, absolute or relative, so no number of extra slashes or dots gets
  around it; a list is allowed exactly when no path in it is blocked. A double-dot component is
  not resolved: a path that leaves and re-enters \<open>config\<close> names the same file and is not blocked.
\<close>

theorem live_path_gate:
  "(is_live_tuning_path p \<longleftrightarrow> suffix [''app'', ''config'', ''tuning.py''] (path_parts p)) \<and>
   (fst (promotion_allowed_for_files ps) \<longleftrightarrow> \<not> list_ex is_live_tuning_path ps) \<and>
   \<not> is_live_tuning_path ''app/config/../config/tuning.py''"
proof (intro conjI)
  show "is_live_tuning_path p \<longleftrightarrow> suffix [''app'', ''config'', ''tuning.py''] (path_parts p)"
    unfolding LIVE_TUNING_PARTS_def [symmetric]
  proof (cases "path_parts p = []")
    case True
    have "as_posix p \<in> {''.'', ''/'', ''//''}" using True by (auto simp: as_posix_def path_root_def)
    then have "\<not> is_live_tuning_path p"
      by (auto simp: is_live_tuning_path_def LIVE_TUNING_PATH_def suffix_def Let_def Cons_eq_append_conv append_eq_Cons_conv)
    then show "is_live_tuning_path p = suffix LIVE_TUNING_PARTS (path_parts p)"
      using True by (simp add: LIVE_TUNING_PARTS_def)
  next
    case False
    let ?L = LIVE_TUNING_PARTS and ?s = "as_posix p"
    have L: "?L \<noteq> []" "\<And>w. w \<in> set ?L \<Longrightarrow> CHR ''/'' \<notin> set w" using live_parts_clean by (auto simp: LIVE_TUNING_PARTS_def)
    from split_as_posix [OF False] obtain es where es: "set es \<subseteq> {[]}" "split_on (CHR ''/'') ?s = es @ path_parts p" by blast
    have eq: "?s = LIVE_TUNING_PATH \<longleftrightarrow> split_on (CHR ''/'') ?s = ?L"
      using split_on_join [OF L] join_split_on [of "CHR ''/''" ?s] unfolding live_path_join by metis
    have suf: "suffix (''/'' @ LIVE_TUNING_PATH) ?s \<longleftrightarrow> (\<exists>us. us \<noteq> [] \<and> split_on (CHR ''/'') ?s = us @ ?L)"
      using suffix_join_iff [OF L] unfolding live_path_join by simp
    have "is_live_tuning_path p \<longleftrightarrow> suffix ?L (es @ path_parts p)"
      unfolding is_live_tuning_path_def Let_def eq suf es(2) suffix_cases [of ?L] by (rule refl)
    also have "\<dots> \<longleftrightarrow> suffix ?L (path_parts p)"
    proof
      assume a: "suffix ?L (es @ path_parts p)"
      then obtain zs where z: "es @ path_parts p = zs @ ?L" by (auto simp: suffix_def)
      then obtain us where "(es = zs @ us \<and> us @ path_parts p = ?L) \<or> (es @ us = zs \<and> path_parts p = us @ ?L)"
        by (auto simp: append_eq_append_conv2)
      then show "suffix ?L (path_parts p)"
      proof
        assume "es = zs @ us \<and> us @ path_parts p = ?L"
        then have "set us \<subseteq> {[]}" "set us \<subseteq> set ?L" using es(1) by (auto, metis Un_iff set_append)
        then have "us = []" using live_parts_clean by (cases us) auto
        then show ?thesis using \<open>es = zs @ us \<and> us @ path_parts p = ?L\<close> by simp
      next
        assume "es @ us = zs \<and> path_parts p = us @ ?L"
        then show ?thesis by (auto simp: suffix_def)
      qed
    qed (auto simp: suffix_def)
    finally show "is_live_tuning_path p = suffix ?L (path_parts p)" .
  qed
  show "fst (promotion_allowed_for_files ps) \<longleftrightarrow> \<not> list_ex is_live_tuning_path ps"
    by (auto simp: promotion_allowed_for_files_def list_ex_iff filter_empty_conv split: list.splits)
      (metis filter_empty_conv list.distinct(1))+
  show "\<not> is_live_tuning_path ''app/config/../config/tuning.py''" by code_simp
qed

text \<open>
  Verdicts agree with the gate. With the same baseline, \<open>suggest_verdict\<close> says crash exactly when the
  gate's drawdown item would block the current metrics, and only then claims a hard rule; keep means
  no worse Sharpe and drawdown and the win-rate floor, and never coexists with a blocked drawdown.
\<close>

theorem verdict_agrees_with_gate:
  "(let v = suggest_verdict prev cur base wmin;
        blocked = (''max_drawdown'' \<in> set (hard_blockers (check_promotion_v3 (c\<lparr>pc_max_dd := ms_max_dd cur\<rparr>)
                     (Some (ctx\<lparr>ctx_baseline_dd := base\<rparr>)))))
    in (vr_verdict v = Crash \<longleftrightarrow> blocked) \<and> (vr_hard_rule v \<longleftrightarrow> vr_verdict v = Crash) \<and>
       (vr_verdict v = Keep \<longleftrightarrow> \<not> blocked \<and> ms_sharpe prev \<le> ms_sharpe cur \<and> ms_max_dd cur \<le> ms_max_dd prev \<and>
          wmin \<le> ms_win_rate cur))"
proof -
  have "''max_drawdown'' \<in> set (hard_blockers (check_promotion_v3 (c\<lparr>pc_max_dd := ms_max_dd cur\<rparr>)
                     (Some (ctx\<lparr>ctx_baseline_dd := base\<rparr>)))) \<longleftrightarrow> ms_max_dd cur > fmul 2 base"
    using blocker_at [of 2 "c\<lparr>pc_max_dd := ms_max_dd cur\<rparr>" "Some (ctx\<lparr>ctx_baseline_dd := base\<rparr>)"]
    by (simp add: GATE_LABELS_def gate_items_def Let_def DRAWDOWN_MULTIPLIER_def not_le)
  then show ?thesis by (auto simp: suggest_verdict_def DRAWDOWN_MULTIPLIER_def Let_def)
qed

end
