(* ===== verification/FtRepo.thy ===== *)
theory FtRepo
  imports Promotion
begin

text \<open>
  \<^verbatim>\<open>app/ft_strategy/supabase_repo.py\<close> and \<^verbatim>\<open>report_validator.py\<close>: the strategy
  repository over its SQLite tables. A table is the association list of its rows by primary key, in
  insertion order; constraints of the schema (primary keys, foreign keys, the unique run stage,
  cascading deletes) are branches. Ids, timestamps and serialised JSON texts are arguments. A call
  that raises leaves the database unchanged: it returns \<open>Inl\<close> and the caller keeps its state.
\<close>

section \<open>Tables\<close>

datatype event_kind = EvCreate | EvEvolve | EvStable | EvFork | EvKill | EvShadowStart | EvShadowEnd

definition parse_event :: "string \<Rightarrow> event_kind option" where
  "parse_event s =
     (if s = ''create'' then Some EvCreate else if s = ''evolve'' then Some EvEvolve
      else if s = ''stable'' then Some EvStable else if s = ''fork'' then Some EvFork
      else if s = ''kill'' then Some EvKill else if s = ''shadow_start'' then Some EvShadowStart
      else if s = ''shadow_end'' then Some EvShadowEnd else None)"

definition parse_verdict :: "string \<Rightarrow> verdict option" where
  "parse_verdict s =
     (if s = ''keep'' then Some Keep else if s = ''revert'' then Some Revert else if s = ''crash'' then Some Crash else None)"

record strategy_row =
  s_user :: "string option"
  s_name :: string
  s_description :: "string option"
  s_market_type :: string
  s_pair :: string
  s_interval :: string
  s_idea_source :: string
  s_idea_payload :: string
  s_status :: string
  s_version :: int
  s_latest_result :: "string option"
  s_research_md :: string
  s_last_event :: event_kind
  s_stagnation :: nat
  s_created :: string
  s_updated :: string

record run_row =
  run_strategy :: string
  run_version :: int
  run_stage :: string
  run_status :: string
  run_progress :: int
  run_source :: string
  run_created :: string

record event_row =
  ev_strategy :: string
  ev_version :: "int option"
  ev_kind :: event_kind
  ev_sharpe :: "rat option"
  ev_max_dd :: "rat option"
  ev_note :: "string option"
  ev_recorded :: string

record experiment_row =
  ex_strategy :: string
  ex_from :: int
  ex_to :: int
  ex_verdict :: verdict
  ex_reasoning :: string
  ex_delta :: "string option"
  ex_decided_by :: "string option"
  ex_recorded :: string

datatype authoring = Draft | Final

record report_row =
  rp_strategy :: string
  rp_version :: int
  rp_state :: authoring
  rp_finding :: "string option"
  rp_json :: string
  rp_md :: "string option"
  rp_metrics :: "string option"
  rp_baseline :: "string option"
  rp_published_at :: "string option"
  rp_updated :: string

record ft_db =
  strategies :: "(string \<times> strategy_row) list"
  runs :: "(string \<times> run_row) list"
  events :: "(nat \<times> event_row) list"
  next_event :: nat
  experiments :: "(string \<times> experiment_row) list"
  reports :: "(string \<times> report_row) list"

definition empty_db :: ft_db where
  "empty_db = \<lparr>strategies = [], runs = [], events = [], next_event = 1, experiments = [], reports = []\<rparr>"

datatype ft_error =
    StrategyNotFound string | ReasoningEmpty | ReportFinalLocked | ReportInvalidFinal
  | FtStrategyError | IntegrityError

section \<open>Report finality\<close>

datatype final_error = BadState | FindingNull | FindingBlank | FindingTodo | PublishedNull

definition validate_report_final :: "string \<Rightarrow> string option \<Rightarrow> string option \<Rightarrow> final_error list" where
  "validate_report_final state finding published =
     (if state \<notin> {''draft'', ''final''} then [BadState]
      else if state = ''draft'' then []
      else (case finding of
              None \<Rightarrow> [FindingNull]
            | Some f \<Rightarrow> if strip f = [] then [FindingBlank] else if startswith f ''TODO:'' then [FindingTodo] else [])
           @ (if published = None then [PublishedNull] else []))"

text \<open>SQL's \<open>LIKE 'TODO:%'\<close>, which ignores the case of ASCII letters in SQLite.\<close>

definition ascii_upper :: "char \<Rightarrow> char" where
  "ascii_upper c = (let n = of_char c :: nat in if 97 \<le> n \<and> n \<le> 122 then char_of (n - 32) else c)"

definition like_todo :: "string \<Rightarrow> bool" where
  "like_todo s = prefix ''TODO:'' (map ascii_upper s)"

text \<open>The \<open>WHEN\<close> clause of the SQLite triggers: true when the write is aborted.\<close>

definition trigger_aborts :: "string \<Rightarrow> string option \<Rightarrow> string option \<Rightarrow> bool" where
  "trigger_aborts state finding published =
     (state = ''final'' \<and>
      (finding = None \<or> finding = Some [] \<or> (case finding of Some f \<Rightarrow> like_todo f | None \<Rightarrow> False) \<or> published = None))"

definition check_reserved_finding :: "string \<Rightarrow> bool" where
  "check_reserved_finding text = (text \<noteq> [] \<and> \<not> startswith text ''TODO:'')"

section \<open>Operations\<close>

definition get_strategy :: "string \<Rightarrow> ft_db \<Rightarrow> ft_error + strategy_row" where
  "get_strategy sid db =
     (case map_of (strategies db) sid of None \<Rightarrow> Inl (StrategyNotFound sid) | Some s \<Rightarrow> Inr s)"

text \<open>\<open>UPDATE ft_strategies SET ... WHERE id = ?\<close>: no row, no change.\<close>

definition update_strategy :: "string \<Rightarrow> (strategy_row \<Rightarrow> strategy_row) \<Rightarrow> ft_db \<Rightarrow> ft_db" where
  "update_strategy sid f db =
     db\<lparr>strategies := map (\<lambda>(i, s). if i = sid then (i, f s) else (i, s)) (strategies db)\<rparr>"

record strategy_input =
  in_user :: "string option"
  in_name :: string
  in_research :: string
  in_payload :: string
  in_market :: string
  in_pair :: string
  in_interval :: string
  in_source :: string
  in_description :: "string option"

definition new_strategy :: "strategy_input \<Rightarrow> string \<Rightarrow> strategy_row" where
  "new_strategy i now = \<lparr>s_user = in_user i, s_name = in_name i, s_description = in_description i,
     s_market_type = in_market i, s_pair = in_pair i, s_interval = in_interval i, s_idea_source = in_source i,
     s_idea_payload = in_payload i, s_status = ''draft'', s_version = 1, s_latest_result = None,
     s_research_md = in_research i, s_last_event = EvCreate, s_stagnation = 0, s_created = now, s_updated = now\<rparr>"

definition create_strategy :: "string \<Rightarrow> strategy_input \<Rightarrow> string \<Rightarrow> ft_db \<Rightarrow> ft_error + ft_db" where
  "create_strategy sid i now db =
     (if has_key (strategies db) sid then Inl IntegrityError
      else Inr (db\<lparr>strategies := strategies db @ [(sid, new_strategy i now)]\<rparr>))"

definition update_status :: "string \<Rightarrow> string \<Rightarrow> string \<Rightarrow> ft_db \<Rightarrow> ft_db" where
  "update_status sid status now db = update_strategy sid (\<lambda>s. s\<lparr>s_status := status, s_updated := now\<rparr>) db"

definition update_latest_result :: "string \<Rightarrow> string \<Rightarrow> string \<Rightarrow> ft_db \<Rightarrow> ft_db" where
  "update_latest_result sid result now db =
     update_strategy sid (\<lambda>s. s\<lparr>s_latest_result := Some result, s_updated := now\<rparr>) db"

definition refine :: "string \<Rightarrow> string \<Rightarrow> ft_db \<Rightarrow> ft_error + ft_db" where
  "refine sid now db =
     (if has_key (strategies db) sid
      then Inr (update_strategy sid (\<lambda>s. s\<lparr>s_version := s_version s + 1, s_updated := now, s_status := ''refining''\<rparr>) db)
      else Inl (StrategyNotFound sid))"

definition create_run :: "string \<Rightarrow> string \<Rightarrow> int \<Rightarrow> string \<Rightarrow> string \<Rightarrow> string \<Rightarrow> ft_db \<Rightarrow> ft_error + ft_db" where
  "create_run rid sid version stage source now db =
     (if has_key (runs db) rid \<or> \<not> has_key (strategies db) sid \<or>
         list_ex (\<lambda>(_, r). run_strategy r = sid \<and> run_version r = version \<and> run_stage r = stage) (runs db)
      then Inl IntegrityError
      else Inr (db\<lparr>runs := runs db @ [(rid, \<lparr>run_strategy = sid, run_version = version, run_stage = stage,
             run_status = ''queued'', run_progress = 0, run_source = source, run_created = now\<rparr>)]\<rparr>))"

definition record_experiment ::
  "string \<Rightarrow> string \<Rightarrow> int \<Rightarrow> string \<Rightarrow> string \<Rightarrow> string option \<Rightarrow> string option \<Rightarrow> string \<Rightarrow> ft_db \<Rightarrow> ft_error + ft_db" where
  "record_experiment eid sid v0 verd reasoning delta decided now db =
     check (reasoning_ok reasoning) ReasoningEmpty (
     (case parse_verdict verd of
        None \<Rightarrow> Inl FtStrategyError
      | Some v \<Rightarrow>
          if has_key (experiments db) eid \<or> \<not> has_key (strategies db) sid then Inl IntegrityError
          else Inr (db\<lparr>experiments := experiments db @ [(eid, \<lparr>ex_strategy = sid, ex_from = v0, ex_to = v0 + 1,
                 ex_verdict = v, ex_reasoning = reasoning, ex_delta = delta, ex_decided_by = decided,
                 ex_recorded = now\<rparr>)]\<rparr>)))"

definition list_open_crashes :: "string \<Rightarrow> nat \<Rightarrow> ft_db \<Rightarrow> nat" where
  "list_open_crashes sid window_days db =
     length (filter (\<lambda>(_, e). ex_strategy e = sid \<and> ex_verdict e = Crash \<and> ex_decided_by e = None) (experiments db))"

definition create_report ::
  "string \<Rightarrow> string \<Rightarrow> int \<Rightarrow> string \<Rightarrow> string option \<Rightarrow> string option \<Rightarrow> string option \<Rightarrow> string option \<Rightarrow> string \<Rightarrow>
   ft_db \<Rightarrow> ft_error + ft_db" where
  "create_report rid sid version json md metrics baseline finding now db =
     (if has_key (reports db) rid \<or> \<not> has_key (strategies db) sid then Inl IntegrityError
      else Inr (db\<lparr>reports := reports db @ [(rid, \<lparr>rp_strategy = sid, rp_version = version, rp_state = Draft,
             rp_finding = finding, rp_json = json, rp_md = md, rp_metrics = metrics, rp_baseline = baseline,
             rp_published_at = None, rp_updated = now\<rparr>)]\<rparr>))"

text \<open>\<open>trig\<close> says whether \<open>install_sqlite_check_trigger\<close> has been run on the connection.\<close>

definition publish_report :: "bool \<Rightarrow> string \<Rightarrow> string \<Rightarrow> string \<Rightarrow> ft_db \<Rightarrow> ft_error + ft_db" where
  "publish_report trig rid finding now db =
     (case map_of (reports db) rid of
        None \<Rightarrow> Inl FtStrategyError
      | Some r \<Rightarrow>
          if rp_state r = Final then Inl ReportFinalLocked
          else if \<not> check_reserved_finding finding then Inl ReportInvalidFinal
          else if validate_report_final ''final'' (Some finding) (Some ''<pending>'') \<noteq> [] then Inl ReportInvalidFinal
          else if trig \<and> trigger_aborts ''final'' (Some finding) (Some now) then Inl IntegrityError
          else Inr (db\<lparr>reports := map (\<lambda>(i, r). if i = rid
                 then (i, r\<lparr>rp_state := Final, rp_finding := Some finding, rp_published_at := Some now, rp_updated := now\<rparr>)
                 else (i, r)) (reports db)\<rparr>))"

definition has_final_report :: "string \<Rightarrow> ft_db \<Rightarrow> bool" where
  "has_final_report sid db = list_ex (\<lambda>(_, r). rp_strategy r = sid \<and> rp_state r = Final) (reports db)"

text \<open>The mirror of an event on its strategy row.\<close>

definition mirror_event :: "event_kind \<Rightarrow> string \<Rightarrow> strategy_row \<Rightarrow> strategy_row" where
  "mirror_event ev now s =
     (let s1 = s\<lparr>s_last_event := ev, s_updated := now\<rparr> in
      if ev = EvStable then s1\<lparr>s_stagnation := s_stagnation s1 + 1\<rparr>
      else if ev \<in> {EvEvolve, EvFork, EvKill} then s1\<lparr>s_stagnation := 0\<rparr> else s1)"

definition record_event ::
  "string \<Rightarrow> string \<Rightarrow> int option \<Rightarrow> rat option \<Rightarrow> rat option \<Rightarrow> string option \<Rightarrow> string \<Rightarrow> ft_db \<Rightarrow>
   ft_error + (ft_db \<times> nat)" where
  "record_event sid ev version sh dd nt now db =
     (case parse_event ev of
        None \<Rightarrow> Inl FtStrategyError
      | Some k \<Rightarrow>
          if \<not> has_key (strategies db) sid then Inl IntegrityError
          else let db1 = db\<lparr>events := events db @ [(next_event db, \<lparr>ev_strategy = sid, ev_version = version, ev_kind = k,
                       ev_sharpe = sh, ev_max_dd = dd, ev_note = nt, ev_recorded = now\<rparr>)],
                       next_event := next_event db + 1\<rparr>
               in Inr (update_strategy sid (mirror_event k now) db1, next_event db))"

definition events_of :: "string \<Rightarrow> ft_db \<Rightarrow> event_kind list" where
  "events_of sid db = map (ev_kind \<circ> snd) (filter (\<lambda>(_, e). ev_strategy e = sid) (events db))"

text \<open>\<open>ORDER BY id DESC\<close>: ids are handed out in insertion order.\<close>

definition recent_stable_count :: "string \<Rightarrow> ft_db \<Rightarrow> nat" where
  "recent_stable_count sid db = length (takeWhile (\<lambda>k. k = EvStable) (rev (events_of sid db)))"

definition has_shadow_observation :: "string \<Rightarrow> ft_db \<Rightarrow> bool" where
  "has_shadow_observation sid db = list_ex (\<lambda>(_, e). ev_strategy e = sid \<and> ev_kind e = EvShadowEnd) (events db)"

definition reset_stagnation :: "string \<Rightarrow> ft_db \<Rightarrow> ft_db" where
  "reset_stagnation sid db = update_strategy sid (\<lambda>s. s\<lparr>s_stagnation := 0\<rparr>) db"

text \<open>\<open>DELETE FROM ft_strategies WHERE id = ?\<close> with its cascades (\<^verbatim>\<open>app/api/ft_strategy_routes.py\<close>).\<close>

definition delete_strategy :: "string \<Rightarrow> ft_db \<Rightarrow> ft_db" where
  "delete_strategy sid db = db\<lparr>
     strategies := filter (\<lambda>(i, _). i \<noteq> sid) (strategies db),
     runs := filter (\<lambda>(_, r). run_strategy r \<noteq> sid) (runs db),
     events := filter (\<lambda>(_, e). ev_strategy e \<noteq> sid) (events db),
     experiments := filter (\<lambda>(_, e). ex_strategy e \<noteq> sid) (experiments db),
     reports := filter (\<lambda>(_, r). rp_strategy r \<noteq> sid) (reports db)\<rparr>"

section \<open>Sequences of calls\<close>

datatype ft_op =
    OpCreate string strategy_input string
  | OpStatus string string string
  | OpResult string string string
  | OpRefine string string
  | OpRun string string int string string string
  | OpExperiment string string int string string "string option" "string option" string
  | OpReport string string int string "string option" "string option" "string option" "string option" string
  | OpPublish bool string string string
  | OpEvent string string "int option" "rat option" "rat option" "string option" string
  | OpReset string
  | OpDelete string

fun exec_op :: "ft_op \<Rightarrow> ft_db \<Rightarrow> ft_error + ft_db" where
  "exec_op (OpCreate sid i now) db = create_strategy sid i now db"
| "exec_op (OpStatus sid st now) db = Inr (update_status sid st now db)"
| "exec_op (OpResult sid r now) db = Inr (update_latest_result sid r now db)"
| "exec_op (OpRefine sid now) db = refine sid now db"
| "exec_op (OpRun rid sid v stage source now) db = create_run rid sid v stage source now db"
| "exec_op (OpExperiment eid sid v0 verd reasoning delta decided now) db =
     record_experiment eid sid v0 verd reasoning delta decided now db"
| "exec_op (OpReport rid sid v json md metrics baseline finding now) db =
     create_report rid sid v json md metrics baseline finding now db"
| "exec_op (OpPublish trig rid finding now) db = publish_report trig rid finding now db"
| "exec_op (OpEvent sid ev v sh dd nt now) db = map_sum id fst (record_event sid ev v sh dd nt now db)"
| "exec_op (OpReset sid) db = Inr (reset_stagnation sid db)"
| "exec_op (OpDelete sid) db = Inr (delete_strategy sid db)"

text \<open>A session: a call that raised left the database as it was.\<close>

fun run_ops :: "ft_op list \<Rightarrow> ft_db \<Rightarrow> ft_db" where
  "run_ops [] db = db"
| "run_ops (o1 # os) db = run_ops os (case exec_op o1 db of Inl _ \<Rightarrow> db | Inr db' \<Rightarrow> db')"

section \<open>Lemmas\<close>

lemma map_of_map_at:
  "map_of (map (\<lambda>(i, r). if i = k then (i, f r) else (i, r)) xs) j =
     (if j = k then map_option f (map_of xs j) else map_of xs j)"
  by (induction xs) auto

lemma fst_map_at [simp]: "map fst (map (\<lambda>(i, r). if i = k then (i, f r) else (i, r)) xs) = map fst xs"
  by (induction xs) auto

lemma has_key_map_at [simp]: "has_key (map (\<lambda>(i, r). if i = k then (i, f r) else (i, r)) xs) j = has_key xs j"
  by (simp add: has_key_iff map_of_map_at)

lemma map_of_filter_hit: "map_of xs k = Some v \<Longrightarrow> P (k, v) \<Longrightarrow> map_of (filter P xs) k = Some v"
  by (induction xs) (auto split: if_splits)

lemma map_of_append_hit: "map_of xs k = Some v \<Longrightarrow> map_of (xs @ ys) k = Some v"
  by (simp add: map_add_Some_iff)

lemma has_key_append [simp]: "has_key (xs @ ys) k \<longleftrightarrow> has_key xs k \<or> has_key ys k"
  by (auto simp: has_key_def)

lemma has_key_filter_key: "has_key (filter (\<lambda>x. fst x \<noteq> k) xs) j \<longleftrightarrow> j \<noteq> k \<and> has_key xs j"
  by (auto simp: has_key_def)

lemma map_of_filter_key: "map_of (filter (\<lambda>x. fst x \<noteq> k) xs) j = (if j = k then None else map_of xs j)"
  by (induction xs) auto

lemma update_strategy_simps [simp]:
  "runs (update_strategy sid f db) = runs db" "events (update_strategy sid f db) = events db"
  "next_event (update_strategy sid f db) = next_event db" "experiments (update_strategy sid f db) = experiments db"
  "reports (update_strategy sid f db) = reports db"
  "map_of (strategies (update_strategy sid f db)) j =
     (if j = sid then map_option f (map_of (strategies db) j) else map_of (strategies db) j)"
  "has_key (strategies (update_strategy sid f db)) j = has_key (strategies db) j"
  by (simp_all add: update_strategy_def map_of_map_at)

lemmas op_defs = create_strategy_def update_status_def update_latest_result_def refine_def create_run_def
  record_experiment_def create_report_def publish_report_def record_event_def reset_stagnation_def delete_strategy_def

lemma run_ops_append: "run_ops (os1 @ os2) db = run_ops os2 (run_ops os1 db)"
  by (induction os1 arbitrary: db) auto

text \<open>An invariant of every successful call is an invariant of every session.\<close>

lemma run_ops_invariant:
  assumes "\<And>c db db'. c \<in> set os \<Longrightarrow> I db \<Longrightarrow> exec_op c db = Inr db' \<Longrightarrow> I db'" "I db"
  shows "I (run_ops os db)"
  using assms
proof (induction os arbitrary: db)
  case (Cons o1 os)
  have step: "I (case exec_op o1 db of Inl _ \<Rightarrow> db | Inr db' \<Rightarrow> db')"
    using Cons.prems(1) [of o1 db] Cons.prems(2) by (auto split: sum.splits)
  have "I (run_ops os (case exec_op o1 db of Inl _ \<Rightarrow> db | Inr db' \<Rightarrow> db'))"
    by (rule Cons.IH [OF _ step]) (auto intro: Cons.prems(1))
  then show ?case by simp
qed simp

subsection \<open>Well-formed databases\<close>

definition final_ok :: "report_row \<Rightarrow> bool" where
  "final_ok r \<longleftrightarrow> rp_state r = Draft \<or>
     (case rp_finding r of None \<Rightarrow> False | Some f \<Rightarrow> strip f \<noteq> [] \<and> \<not> startswith f ''TODO:'') \<and> rp_published_at r \<noteq> None"

definition db_ok :: "ft_db \<Rightarrow> bool" where
  "db_ok db \<longleftrightarrow>
     (\<forall>(i, r) \<in> set (reports db). final_ok r \<and> has_key (strategies db) (rp_strategy r)) \<and>
     (\<forall>(i, e) \<in> set (experiments db). ex_to e = ex_from e + 1 \<and> reasoning_ok (ex_reasoning e) \<and>
        has_key (strategies db) (ex_strategy e)) \<and>
     (\<forall>(i, r) \<in> set (runs db). has_key (strategies db) (run_strategy r)) \<and>
     (\<forall>(i, e) \<in> set (events db). has_key (strategies db) (ev_strategy e) \<and> i < next_event db) \<and>
     sorted_wrt (<) (map fst (events db))"

lemma validate_final_Nil:
  "validate_report_final ''final'' (Some f) (Some p) = [] \<longleftrightarrow> strip f \<noteq> [] \<and> \<not> startswith f ''TODO:''"
  by (simp add: validate_report_final_def)

lemma not_Final [simp]: "s \<noteq> Final \<longleftrightarrow> s = Draft"
  by (cases s) auto

lemma publish_Inr:
  "publish_report trig rid f now db = Inr db' \<Longrightarrow>
     \<exists>r. map_of (reports db) rid = Some r \<and> rp_state r = Draft \<and> strip f \<noteq> [] \<and> \<not> startswith f ''TODO:'' \<and>
       db' = db\<lparr>reports := map (\<lambda>(i, r). if i = rid
                 then (i, r\<lparr>rp_state := Final, rp_finding := Some f, rp_published_at := Some now, rp_updated := now\<rparr>)
                 else (i, r)) (reports db)\<rparr>"
  by (cases "map_of (reports db) rid")
    (auto simp: publish_report_def validate_final_Nil split: if_splits)

lemma record_event_Inr:
  assumes "record_event sid ev v sh dd nt now db = Inr (db', n)"
  obtains k row where "parse_event ev = Some k" "has_key (strategies db) sid" "n = next_event db"
    "ev_strategy row = sid" "ev_kind row = k"
    "db' = update_strategy sid (mirror_event k now)
       (db\<lparr>events := events db @ [(next_event db, row)], next_event := next_event db + 1\<rparr>)"
proof -
  from assms obtain k where k: "parse_event ev = Some k" by (cases "parse_event ev") (auto simp: record_event_def)
  with assms have key: "has_key (strategies db) sid" by (auto simp: record_event_def split: if_splits)
  let ?row = "\<lparr>ev_strategy = sid, ev_version = v, ev_kind = k, ev_sharpe = sh, ev_max_dd = dd, ev_note = nt, ev_recorded = now\<rparr>"
  from assms k key have "n = next_event db" "db' = update_strategy sid (mirror_event k now)
       (db\<lparr>events := events db @ [(next_event db, ?row)], next_event := next_event db + 1\<rparr>)"
    by (auto simp: record_event_def Let_def)
  then show thesis using that [OF k key, of ?row] by simp
qed

lemma record_experiment_Inr:
  assumes "record_experiment eid sid v0 verd reasoning delta decided now db = Inr db'"
  obtains row where "has_key (strategies db) sid" "ex_strategy row = sid" "ex_from row = v0" "ex_to row = v0 + 1"
    "ex_reasoning row = reasoning" "reasoning_ok reasoning" "db' = db\<lparr>experiments := experiments db @ [(eid, row)]\<rparr>"
proof -
  from assms have r: "reasoning_ok reasoning" by (simp add: record_experiment_def)
  from assms r obtain v where v: "parse_verdict verd = Some v"
    by (cases "parse_verdict verd") (auto simp: record_experiment_def)
  with assms r have key: "has_key (strategies db) sid" by (auto simp: record_experiment_def split: if_splits)
  let ?row = "\<lparr>ex_strategy = sid, ex_from = v0, ex_to = v0 + 1, ex_verdict = v, ex_reasoning = reasoning,
    ex_delta = delta, ex_decided_by = decided, ex_recorded = now\<rparr>"
  from assms r v key have "db' = db\<lparr>experiments := experiments db @ [(eid, ?row)]\<rparr>"
    by (auto simp: record_experiment_def split: if_splits)
  then show thesis using that [OF key, of ?row] r by simp
qed

lemma db_ok_exec:
  assumes "db_ok db" "exec_op c db = Inr db'"
  shows "db_ok db'"
proof (cases c)
  case (OpPublish trig rid f now)
  then have "publish_report trig rid f now db = Inr db'" using assms(2) by simp
  from publish_Inr [OF this] assms(1) show ?thesis
    by (fastforce simp: db_ok_def final_ok_def split: if_splits)
next
  case (OpEvent sid ev v sh dd nt now)
  then obtain n where "record_event sid ev v sh dd nt now db = Inr (db', n)"
    using assms(2) by (cases "record_event sid ev v sh dd nt now db") auto
  then obtain k row where key: "has_key (strategies db) sid" "ev_strategy row = sid"
    and db': "db' = update_strategy sid (mirror_event k now)
       (db\<lparr>events := events db @ [(next_event db, row)], next_event := next_event db + 1\<rparr>)"
    by (rule record_event_Inr)
  have "sorted_wrt (<) (map fst (events db'))"
    using assms(1) by (auto simp: db' db_ok_def sorted_wrt_append)
  moreover have "\<forall>(i, e) \<in> set (events db'). has_key (strategies db') (ev_strategy e) \<and> i < next_event db'"
    using assms(1) key by (auto simp: db' db_ok_def intro: less_SucI)
  ultimately show ?thesis using assms(1) by (simp add: db' db_ok_def)
next
  case (OpDelete sid)
  have "sorted_wrt (<) (map fst (filter P (events db)))" for P
    using assms(1) by (auto simp: db_ok_def sorted_wrt_map intro: sorted_wrt_filter)
  moreover have db': "db' = delete_strategy sid db" using assms(2) OpDelete by simp
  ultimately show ?thesis using assms(1)
    by (simp add: db' delete_strategy_def db_ok_def has_key_filter_key split_def)
next
  case (OpExperiment eid sid v0 verd reasoning delta decided now)
  then have "record_experiment eid sid v0 verd reasoning delta decided now db = Inr db'" using assms(2) by simp
  then obtain row where row: "has_key (strategies db) sid" "ex_strategy row = sid" "ex_from row = v0" "ex_to row = v0 + 1"
    "ex_reasoning row = reasoning" "reasoning_ok reasoning" and db': "db' = db\<lparr>experiments := experiments db @ [(eid, row)]\<rparr>"
    by (rule record_experiment_Inr)
  show ?thesis using assms(1) row by (simp add: db' db_ok_def)
next
  case (OpReport rid sid v json md metrics baseline finding now)
  then have rep: "create_report rid sid v json md metrics baseline finding now db = Inr db'" using assms(2) by simp
  then have key: "has_key (strategies db) sid" by (auto simp: create_report_def split: if_splits)
  from rep have db': "db' = db\<lparr>reports := reports db @ [(rid, \<lparr>rp_strategy = sid, rp_version = v, rp_state = Draft,
             rp_finding = finding, rp_json = json, rp_md = md, rp_metrics = metrics, rp_baseline = baseline,
             rp_published_at = None, rp_updated = now\<rparr>)]\<rparr>"
    by (auto simp: create_report_def split: if_splits)
  show ?thesis using assms(1) key by (simp add: db' db_ok_def final_ok_def)
next
  case (OpRun rid sid v stage source now)
  then have rep: "create_run rid sid v stage source now db = Inr db'" using assms(2) by simp
  then have key: "has_key (strategies db) sid" by (auto simp: create_run_def split: if_splits)
  from rep have db': "db' = db\<lparr>runs := runs db @ [(rid, \<lparr>run_strategy = sid, run_version = v, run_stage = stage,
             run_status = ''queued'', run_progress = 0, run_source = source, run_created = now\<rparr>)]\<rparr>"
    by (auto simp: create_run_def split: if_splits)
  show ?thesis using assms(1) key by (simp add: db' db_ok_def)
next
  case (OpCreate sid i now)
  then have "db' = db\<lparr>strategies := strategies db @ [(sid, new_strategy i now)]\<rparr>"
    using assms(2) by (auto simp: create_strategy_def split: if_splits)
  then show ?thesis using assms(1) by (auto simp: db_ok_def)
next
  case (OpRefine sid now)
  then have "\<exists>f. db' = update_strategy sid f db" using assms(2) by (auto simp: refine_def split: if_splits)
  then show ?thesis using assms(1) by (auto simp: db_ok_def)
qed (use assms in \<open>auto simp: op_defs db_ok_def\<close>)

subsection \<open>One report, one strategy\<close>

text \<open>What a call can do to an existing report: only publishing it, or deleting its strategy, changes it.\<close>

lemma exec_keeps_final:
  assumes "exec_op c db = Inr db'" "map_of (reports db) rid = Some r" "rp_state r = Final"
    "c \<noteq> OpDelete (rp_strategy r)"
  shows "map_of (reports db') rid = Some r"
proof (cases c)
  case (OpPublish trig rid' f now)
  then have pub: "publish_report trig rid' f now db = Inr db'" using assms(1) by simp
  from publish_Inr [OF pub] assms(2,3) have "rid' \<noteq> rid" by auto
  with publish_Inr [OF pub] assms(2) show ?thesis by (auto simp: map_of_map_at)
next
  case (OpEvent sid ev v sh dd nt now)
  then obtain n where "record_event sid ev v sh dd nt now db = Inr (db', n)"
    using assms(1) by (cases "record_event sid ev v sh dd nt now db") auto
  then show ?thesis by (rule record_event_Inr) (simp add: assms(2))
next
  case (OpExperiment eid sid v0 verd reasoning delta decided now)
  then have "record_experiment eid sid v0 verd reasoning delta decided now db = Inr db'" using assms(1) by simp
  then show ?thesis by (rule record_experiment_Inr) (simp add: assms(2))
next
  case (OpReport rid' sid v json md metrics baseline finding now)
  then show ?thesis using assms(1,2)
    by (auto simp: create_report_def map_add_Some_iff has_key_iff split: if_splits)
next
  case (OpDelete sid)
  then show ?thesis using assms by (auto simp: delete_strategy_def intro!: map_of_filter_hit)
next
  case (OpCreate sid i now)
  then show ?thesis using assms by (auto simp: create_strategy_def split: if_splits)
next
  case (OpRefine sid now)
  then show ?thesis using assms by (auto simp: refine_def split: if_splits)
next
  case (OpRun rid sid v stage source now)
  then show ?thesis using assms by (auto simp: create_run_def split: if_splits)
qed (use assms in \<open>auto simp: update_status_def update_latest_result_def reset_stagnation_def\<close>)

text \<open>Counting refinements of one strategy that is neither created nor deleted in between.\<close>

fun refines :: "string \<Rightarrow> ft_op \<Rightarrow> bool" where
  "refines sid (OpRefine s now) = (s = sid)"
| "refines sid _ = False"

fun births :: "string \<Rightarrow> ft_op \<Rightarrow> bool" where
  "births sid (OpCreate s i now) = (s = sid)"
| "births sid (OpDelete s) = (s = sid)"
| "births sid _ = False"

lemma mirror_version [simp]: "s_version (mirror_event k now s) = s_version s"
  by (simp add: mirror_event_def Let_def)

lemma exec_version:
  assumes "map_of (strategies db) sid = Some s" "\<not> births sid c"
  shows "\<exists>s'. map_of (strategies (case exec_op c db of Inl _ \<Rightarrow> db | Inr db' \<Rightarrow> db')) sid = Some s' \<and>
    s_version s' = s_version s + (if refines sid c then 1 else 0)"
proof (cases "exec_op c db")
  case (Inl e)
  then show ?thesis using assms by (cases c) (auto simp: refine_def has_key_iff split: if_splits)
next
  case (Inr db')
  show ?thesis
  proof (cases c)
    case (OpEvent i ev v sh dd nt now)
    then obtain n where "record_event i ev v sh dd nt now db = Inr (db', n)"
      using Inr by (cases "record_event i ev v sh dd nt now db") auto
    then show ?thesis using Inr OpEvent assms
      by (elim record_event_Inr) (auto simp: map_option_case)
  next
    case (OpExperiment eid i v0 verd reasoning delta decided now)
    then have "record_experiment eid i v0 verd reasoning delta decided now db = Inr db'" using Inr by simp
    then show ?thesis using Inr OpExperiment assms by (elim record_experiment_Inr) auto
  next
    case (OpPublish trig rid f now)
    then have "publish_report trig rid f now db = Inr db'" using Inr by simp
    from publish_Inr [OF this] show ?thesis using Inr OpPublish assms by auto
  next
    case (OpDelete i)
    then show ?thesis using Inr assms by (auto simp: delete_strategy_def intro!: map_of_filter_hit)
  next
    case (OpCreate i inp now)
    then show ?thesis using Inr assms by (auto simp: create_strategy_def map_add_Some_iff split: if_splits)
  next
    case (OpReport rid i v json md metrics baseline finding now)
    then show ?thesis using Inr assms by (auto simp: create_report_def split: if_splits)
  next
    case (OpRun rid i v stage source now)
    then show ?thesis using Inr assms by (auto simp: create_run_def split: if_splits)
  next
    case (OpRefine i now)
    then show ?thesis using Inr assms by (auto simp: refine_def split: if_splits)
  qed (use Inr assms in \<open>auto simp: update_status_def update_latest_result_def reset_stagnation_def\<close>)
qed

subsection \<open>Stagnation\<close>

fun stag_step :: "nat \<Rightarrow> event_kind \<Rightarrow> nat" where
  "stag_step n EvStable = n + 1"
| "stag_step n EvEvolve = 0"
| "stag_step n EvFork = 0"
| "stag_step n EvKill = 0"
| "stag_step n EvCreate = n"
| "stag_step n EvShadowStart = n"
| "stag_step n EvShadowEnd = n"

definition stag_of :: "event_kind list \<Rightarrow> nat" where
  "stag_of evs = foldl stag_step 0 evs"

lemma mirror_stagnation: "s_stagnation (mirror_event k now s) = stag_step (s_stagnation s) k"
  by (cases k) (auto simp: mirror_event_def Let_def)

definition stag_ok :: "ft_db \<Rightarrow> bool" where
  "stag_ok db \<longleftrightarrow> db_ok db \<and>
     (\<forall>sid s. map_of (strategies db) sid = Some s \<longrightarrow> s_stagnation s = stag_of (events_of sid db))"

lemma events_of_none: "db_ok db \<Longrightarrow> \<not> has_key (strategies db) sid \<Longrightarrow> events_of sid db = []"
  by (auto simp: events_of_def db_ok_def filter_empty_conv)

lemma events_of_cong: "events db' = events db \<Longrightarrow> events_of sid db' = events_of sid db"
  by (simp add: events_of_def)

fun is_reset :: "ft_op \<Rightarrow> bool" where
  "is_reset (OpReset _) = True"
| "is_reset _ = False"

lemma stag_ok_exec:
  assumes ok: "stag_ok db" and ex: "exec_op c db = Inr db'" and nr: "\<not> is_reset c"
  shows "stag_ok db'"
proof -
  have dok: "db_ok db'" using db_ok_exec [OF _ ex] ok by (simp add: stag_ok_def)
  have old: "map_of (strategies db) sid = Some s \<Longrightarrow> s_stagnation s = stag_of (events_of sid db)" for sid s
    using ok by (simp add: stag_ok_def)
  have "s_stagnation s = stag_of (events_of sid db')" if s: "map_of (strategies db') sid = Some s" for sid s
  proof (cases c)
    case (OpEvent i ev v sh dd nt now)
    then obtain n where "record_event i ev v sh dd nt now db = Inr (db', n)"
      using ex by (cases "record_event i ev v sh dd nt now db") auto
    then obtain k row where row: "ev_strategy row = i" "ev_kind row = k"
      and db': "db' = update_strategy i (mirror_event k now)
       (db\<lparr>events := events db @ [(next_event db, row)], next_event := next_event db + 1\<rparr>)"
      by (rule record_event_Inr)
    have ev: "events_of sid db' = events_of sid db @ (if sid = i then [k] else [])"
      using row by (simp add: events_of_def db')
    show ?thesis
    proof (cases "sid = i")
      case True
      then obtain s0 where "map_of (strategies db) sid = Some s0" "s = mirror_event k now s0" using s by (auto simp: db')
      then show ?thesis using old ev True by (simp add: mirror_stagnation stag_of_def)
    next
      case False
      then show ?thesis using s old ev by (simp add: db')
    qed
  next
    case (OpCreate i inp now)
    then have db': "db' = db\<lparr>strategies := strategies db @ [(i, new_strategy inp now)]\<rparr>" "\<not> has_key (strategies db) i"
      using ex by (auto simp: create_strategy_def split: if_splits)
    have ev: "events_of sid db' = events_of sid db" by (rule events_of_cong) (simp add: db'(1))
    show ?thesis
    proof (cases "map_of (strategies db) sid")
      case None
      then have "sid = i" "s = new_strategy inp now" using s by (auto simp: db'(1) map_add_Some_iff split: if_splits)
      then show ?thesis using ev events_of_none [of db i] db'(2) ok by (simp add: new_strategy_def stag_of_def stag_ok_def)
    next
      case (Some s0)
      then have "s = s0" using s db'(2) by (auto simp: db'(1) map_add_def has_key_iff split: option.splits if_splits)
      then show ?thesis using Some old ev by simp
    qed
  next
    case (OpDelete i)
    then have db': "db' = delete_strategy i db" using ex by simp
    have "sid \<noteq> i" using s by (auto simp: db' delete_strategy_def dest: map_of_SomeD)
    then have s0: "map_of (strategies db) sid = Some s"
      using s by (auto simp: db' delete_strategy_def map_of_filter_key split_def)
    have "events_of sid db' = events_of sid db"
      using \<open>sid \<noteq> i\<close> by (auto simp: events_of_def db' delete_strategy_def intro!: arg_cong [where f = "map _"] filter_cong)
    then show ?thesis using s0 old by simp
  next
    case (OpStatus i st now)
    then show ?thesis using ex s old by (auto simp: update_status_def events_of_def split: if_splits)
  next
    case (OpResult i st now)
    then show ?thesis using ex s old by (auto simp: update_latest_result_def events_of_def split: if_splits)
  next
    case (OpRefine i now)
    then show ?thesis using ex s old by (auto simp: refine_def events_of_def split: if_splits)
  next
    case (OpRun rid i v stage source now)
    then show ?thesis using ex s old by (auto simp: create_run_def events_of_def split: if_splits)
  next
    case (OpExperiment eid i v0 verd reasoning delta decided now)
    then have "record_experiment eid i v0 verd reasoning delta decided now db = Inr db'" using ex by simp
    then show ?thesis using s old by (elim record_experiment_Inr) (auto simp: events_of_def)
  next
    case (OpReport rid i v json md metrics baseline finding now)
    then show ?thesis using ex s old by (auto simp: create_report_def events_of_def split: if_splits)
  next
    case (OpPublish trig rid f now)
    then have "publish_report trig rid f now db = Inr db'" using ex by simp
    from publish_Inr [OF this] show ?thesis using s old by (auto simp: events_of_def)
  qed (use nr in simp)
  then show ?thesis using dok by (simp add: stag_ok_def)
qed

lemma takeWhile_stable_le: "length (takeWhile (\<lambda>k. k = EvStable) (rev evs)) \<le> stag_of evs"
proof (induction evs rule: rev_induct)
  case (snoc k evs)
  then show ?case by (cases k) (auto simp: stag_of_def)
qed (simp add: stag_of_def)

lemma db_ok_empty: "db_ok empty_db" and stag_ok_empty: "stag_ok empty_db"
  by (simp_all add: db_ok_def stag_ok_def empty_db_def)

section \<open>Properties\<close>

text \<open>
  C8: the repository stays well formed under every session, failed calls included: a final report has a
  non-blank, non-TODO finding and a publication time; every experiment goes from a version to the next
  one with a reasoning of at least ten characters; every run, event, experiment and report belongs
  to an existing strategy (deletes cascade); event ids grow.
\<close>

theorem repo_well_formed: "db_ok (run_ops ops empty_db)"
  by (rule run_ops_invariant [of _ db_ok]) (auto intro: db_ok_exec db_ok_empty)

text \<open>
  Publishing is final. Once a report is final, its row never changes again, whatever calls
  follow, as long as its strategy is not deleted; in particular publishing it again is refused.
\<close>

theorem final_report_sticky:
  assumes "map_of (reports db) rid = Some r" "rp_state r = Final" "OpDelete (rp_strategy r) \<notin> set later"
  shows "map_of (reports (run_ops later db)) rid = Some r \<and>
    publish_report trig rid f now (run_ops later db) = Inl ReportFinalLocked"
proof -
  have "map_of (reports (run_ops later db)) rid = Some r"
    by (rule run_ops_invariant [of later "\<lambda>d. map_of (reports d) rid = Some r"])
      (use assms exec_keeps_final in blast)+
  then show ?thesis using assms(2) by (simp add: publish_report_def)
qed

definition demo_input :: strategy_input where
  "demo_input = \<lparr>in_user = Some ''u'', in_name = ''n'', in_research = ''md'', in_payload = ''{}'',
     in_market = ''futures'', in_pair = ''BTC/USDT'', in_interval = ''5m'', in_source = ''template'', in_description = None\<rparr>"

definition demo_final_db :: ft_db where
  "demo_final_db = run_ops [OpCreate ''s'' demo_input ''t0'', OpReport ''r'' ''s'' 1 ''{}'' None None None None ''t1'',
     OpPublish False ''r'' ''edge persists'' ''t2''] empty_db"

definition demo_final_row :: report_row where
  "demo_final_row = \<lparr>rp_strategy = ''s'', rp_version = 1, rp_state = Final, rp_finding = Some ''edge persists'',
     rp_json = ''{}'', rp_md = None, rp_metrics = None, rp_baseline = None, rp_published_at = Some ''t2'', rp_updated = ''t2''\<rparr>"

lemma demo_final: "map_of (reports demo_final_db) ''r'' = Some demo_final_row"
  unfolding demo_final_db_def demo_final_row_def demo_input_def by code_simp

theorem final_report_sticky_witness:
  "map_of (reports (run_ops [OpPublish False ''r'' ''new'' ''t3'', OpRefine ''s'' ''t4''] demo_final_db)) ''r'' = Some demo_final_row"
  using final_report_sticky [OF demo_final, of "[OpPublish False ''r'' ''new'' ''t3'', OpRefine ''s'' ''t4'']"]
  by (simp add: demo_final_row_def)

text \<open>
  No refinement is lost or invented. Over any session in which a strategy is neither created nor
  deleted, its version grows by exactly the number of \<open>refine\<close> calls on it.
\<close>

theorem version_counts_refines:
  assumes "map_of (strategies db) sid = Some s" "\<not> list_ex (births sid) ops"
  shows "\<exists>s'. map_of (strategies (run_ops ops db)) sid = Some s' \<and>
    s_version s' = s_version s + int (length (filter (refines sid) ops))"
  using assms
proof (induction ops arbitrary: db s)
  case (Cons c ops)
  let ?db1 = "case exec_op c db of Inl _ \<Rightarrow> db | Inr db' \<Rightarrow> db'"
  from exec_version [OF Cons.prems(1), of c] Cons.prems(2) obtain s1 where
    s1: "map_of (strategies ?db1) sid = Some s1" "s_version s1 = s_version s + (if refines sid c then 1 else 0)" by auto
  from Cons.IH [OF s1(1)] Cons.prems(2) obtain s' where
    "map_of (strategies (run_ops ops ?db1)) sid = Some s'"
    "s_version s' = s_version s1 + int (length (filter (refines sid) ops))" by auto
  then show ?case using s1(2) by auto
qed simp

lemma demo_strategy: "map_of (strategies demo_final_db) ''s'' = Some (new_strategy demo_input ''t0'')"
  unfolding demo_final_db_def demo_input_def by code_simp

theorem version_counts_refines_witness:
  "\<exists>s'. map_of (strategies (run_ops [OpRefine ''s'' ''a'', OpStatus ''s'' ''x'' ''b'', OpRefine ''s'' ''c''] demo_final_db)) ''s'' = Some s' \<and>
     s_version s' = 3"
  using version_counts_refines [OF demo_strategy, of "[OpRefine ''s'' ''a'', OpStatus ''s'' ''x'' ''b'', OpRefine ''s'' ''c'']"]
  by (simp add: new_strategy_def)

text \<open>
  The stagnation counter. In sessions that never call \<open>reset_stagnation\<close>, the counter on a strategy is
  the number of stable events since its last evolve, fork or kill event, and is never below
  \<open>recent_stable_count\<close>, the trailing run of stable events the refine route tests. The two differ
  when a shadow event interrupts the run.
\<close>

theorem stagnation_counter:
  assumes "\<not> list_ex is_reset ops" "map_of (strategies (run_ops ops empty_db)) sid = Some s"
  shows "s_stagnation s = stag_of (events_of sid (run_ops ops empty_db)) \<and>
    recent_stable_count sid (run_ops ops empty_db) \<le> s_stagnation s"
proof -
  have "stag_ok (run_ops ops empty_db)"
    by (rule run_ops_invariant [of ops stag_ok])
      (use assms(1) stag_ok_exec stag_ok_empty in \<open>auto simp: list_ex_iff\<close>)
  then have "s_stagnation s = stag_of (events_of sid (run_ops ops empty_db))" using assms(2) by (simp add: stag_ok_def)
  then show ?thesis by (simp add: recent_stable_count_def takeWhile_stable_le)
qed

definition demo_stable_ops :: "ft_op list" where
  "demo_stable_ops = [OpCreate ''s'' demo_input ''t'', OpEvent ''s'' ''stable'' None None None None ''t'',
     OpEvent ''s'' ''shadow_start'' None None None None ''t'', OpEvent ''s'' ''stable'' None None None None ''t'']"

lemma demo_stable: "map_option s_stagnation (map_of (strategies (run_ops demo_stable_ops empty_db)) ''s'') = Some 2"
  and demo_recent: "recent_stable_count ''s'' (run_ops demo_stable_ops empty_db) = 1"
  unfolding demo_stable_ops_def demo_input_def by code_simp+

theorem stagnation_counter_witness:
  "stag_of (events_of ''s'' (run_ops demo_stable_ops empty_db)) = 2"
proof -
  from demo_stable obtain s where s: "map_of (strategies (run_ops demo_stable_ops empty_db)) ''s'' = Some s" "s_stagnation s = 2"
    by auto
  have "\<not> list_ex is_reset demo_stable_ops" by (simp add: demo_stable_ops_def)
  from stagnation_counter [OF this s(1)] s(2) show ?thesis by simp
qed

text \<open>
  The Python validator and the SQLite trigger agree on final rows except in two cases: a finding
  that starts with TODO: in another letter case (the trigger's LIKE ignores case) is accepted by
  the validator and aborted by the trigger, and a non-empty finding of only white space is refused
  by the validator and let through by the trigger.
\<close>

theorem validator_trigger_gap:
  "(validate_report_final ''final'' f p = [] \<and> trigger_aborts ''final'' f p \<longleftrightarrow>
      (\<exists>t. f = Some t \<and> p \<noteq> None \<and> like_todo t \<and> \<not> startswith t ''TODO:'' \<and> strip t \<noteq> [])) \<and>
   (validate_report_final ''final'' f p \<noteq> [] \<and> \<not> trigger_aborts ''final'' f p \<longleftrightarrow>
      (\<exists>t. f = Some t \<and> p \<noteq> None \<and> t \<noteq> [] \<and> strip t = [] \<and> \<not> like_todo t)) \<and>
   validate_report_final ''final'' (Some ''todo: x'') (Some ''t'') = [] \<and>
   publish_report True ''r'' ''todo: x'' ''t'' (run_ops [OpCreate ''s'' demo_input ''t'',
      OpReport ''r'' ''s'' 1 ''{}'' None None None None ''t''] empty_db) = Inl IntegrityError"
proof (intro conjI)
  have up: "startswith t ''TODO:'' \<Longrightarrow> like_todo t" for t
    by (auto simp: startswith_def like_todo_def prefix_def ascii_upper_def)
  have blank: "strip [] = []" by (simp add: strip_def rstrip_def lstrip_def)
  show "validate_report_final ''final'' f p = [] \<and> trigger_aborts ''final'' f p \<longleftrightarrow>
      (\<exists>t. f = Some t \<and> p \<noteq> None \<and> like_todo t \<and> \<not> startswith t ''TODO:'' \<and> strip t \<noteq> [])"
    using blank by (cases f; cases p) (auto simp: validate_report_final_def trigger_aborts_def)
  show "validate_report_final ''final'' f p \<noteq> [] \<and> \<not> trigger_aborts ''final'' f p \<longleftrightarrow>
      (\<exists>t. f = Some t \<and> p \<noteq> None \<and> t \<noteq> [] \<and> strip t = [] \<and> \<not> like_todo t)"
    using blank up by (cases f; cases p) (auto simp: validate_report_final_def trigger_aborts_def)
  show "validate_report_final ''final'' (Some ''todo: x'') (Some ''t'') = []" by code_simp
  show "publish_report True ''r'' ''todo: x'' ''t'' (run_ops [OpCreate ''s'' demo_input ''t'',
      OpReport ''r'' ''s'' 1 ''{}'' None None None None ''t''] empty_db) = Inl IntegrityError"
    unfolding demo_input_def by code_simp
qed

end
