(* ===== verification/EventLog.thy ===== *)
theory EventLog
  imports FtRepo
begin

text \<open>
  \<^verbatim>\<open>app/services/freqtrade/event_log.py\<close>: one event written to the database and to the
  strategy's \<^verbatim>\<open>.tsv\<close> file, and the reading of that file.

  A file is its text (\<open>None\<close>: it does not exist). It is read in text mode with universal newlines:
  a carriage return ends a line too. The commit hash and Python's rendering of floats are arguments,
  as is whether the temporary-file append raises.
\<close>

section \<open>Rows and files\<close>

abbreviation TAB :: char where "TAB \<equiv> CHR 0x09"
abbreviation NL :: char where "NL \<equiv> CHR 0x0A"
abbreviation CR :: char where "CR \<equiv> CHR 0x0D"

definition HEADER_COLS :: "string list" where
  "HEADER_COLS = [''commit'', ''event'', ''strategy_name'', ''sharpe'', ''max_dd'', ''note'']"

definition HEADER :: string where
  "HEADER = join [TAB] HEADER_COLS"

record log_entry =
  le_event :: string
  le_name :: string
  le_sharpe :: "rat option"
  le_max_dd :: "rat option"
  le_note :: string

definition clean_field :: "string \<Rightarrow> string" where
  "clean_field s = strip (replace_char NL CHR '' '' (replace_char TAB CHR '' '' s))"

definition float_field :: "(rat \<Rightarrow> string) \<Rightarrow> rat option \<Rightarrow> string" where
  "float_field shw x = (case x of None \<Rightarrow> [] | Some v \<Rightarrow> shw v)"

definition row_fields :: "(rat \<Rightarrow> string) \<Rightarrow> string \<Rightarrow> log_entry \<Rightarrow> string list" where
  "row_fields shw commit e =
     [commit, clean_field (le_event e), clean_field (le_name e), clean_field (float_field shw (le_sharpe e)),
      clean_field (float_field shw (le_max_dd e)), clean_field (le_note e)]"

definition format_row :: "(rat \<Rightarrow> string) \<Rightarrow> string \<Rightarrow> log_entry \<Rightarrow> string" where
  "format_row shw commit e = join [TAB] (row_fields shw commit e)"

text \<open>Universal newlines: what \<open>open(path, "r")\<close> makes of the stored text.\<close>

fun universal :: "string \<Rightarrow> string" where
  "universal [] = []"
| "universal [c] = [if c = CR then NL else c]"
| "universal (c # d # ds) =
     (if c = CR then NL # (if d = NL then universal ds else universal (d # ds)) else c # universal (d # ds))"

definition write_header_if_missing :: "string option \<Rightarrow> string" where
  "write_header_if_missing file = (case file of Some (c # cs) \<Rightarrow> c # cs | _ \<Rightarrow> HEADER @ [NL])"

definition append_crash_safe :: "string \<Rightarrow> string option \<Rightarrow> string" where
  "append_crash_safe row file =
     (let chunk = universal (write_header_if_missing file) in
      chunk @ (if chunk \<noteq> [] \<and> last chunk \<noteq> NL then [NL] else []) @ row @ [NL])"

definition read_tsv_events :: "string option \<Rightarrow> (string \<times> string) list list" where
  "read_tsv_events file =
     (case file of
        None \<Rightarrow> []
      | Some text \<Rightarrow>
          (case filter (\<lambda>l. strip l \<noteq> []) (split_on NL (universal text)) of
             [] \<Rightarrow> []
           | h # ls \<Rightarrow>
               let header_cols = split_on TAB h in
               map (\<lambda>l. let cols = split_on TAB l
                        in zip header_cols (cols @ replicate (length header_cols - length cols) [])) ls))"

section \<open>Connection with savepoints\<close>

text \<open>
  SQLite's transactions as the code uses them: statements change \<open>working\<close>, \<open>COMMIT\<close> makes it durable
  and forgets every savepoint, \<open>ROLLBACK TO\<close> and \<open>RELEASE\<close> of an unknown savepoint fail (\<open>None\<close>).
\<close>

record conn =
  working :: ft_db
  durable :: ft_db
  savepoints :: "(string \<times> ft_db) list"

definition sql_savepoint :: "string \<Rightarrow> conn \<Rightarrow> conn" where
  "sql_savepoint n c = c\<lparr>savepoints := (n, working c) # savepoints c\<rparr>"

definition sql_commit :: "conn \<Rightarrow> conn" where
  "sql_commit c = c\<lparr>durable := working c, savepoints := []\<rparr>"

definition sql_rollback_to :: "string \<Rightarrow> conn \<Rightarrow> conn option" where
  "sql_rollback_to n c =
     (case dropWhile (\<lambda>(m, _). m \<noteq> n) (savepoints c) of
        [] \<Rightarrow> None
      | (m, db) # sps \<Rightarrow> Some (c\<lparr>working := db, savepoints := (m, db) # sps\<rparr>))"

definition sql_release :: "string \<Rightarrow> conn \<Rightarrow> conn option" where
  "sql_release n c =
     (case dropWhile (\<lambda>(m, _). m \<noteq> n) (savepoints c) of
        [] \<Rightarrow> None
      | _ # sps \<Rightarrow> Some (if sps = [] then c\<lparr>durable := working c, savepoints := []\<rparr> else c\<lparr>savepoints := sps\<rparr>))"

text \<open>\<open>FtStrategyRepo.record_event\<close> on the connection: it commits after its statements.\<close>

definition conn_record_event ::
  "string \<Rightarrow> string \<Rightarrow> int option \<Rightarrow> rat option \<Rightarrow> rat option \<Rightarrow> string option \<Rightarrow> string \<Rightarrow> conn \<Rightarrow> ft_error + (conn \<times> nat)" where
  "conn_record_event sid ev version sh dd nt now c =
     (case record_event sid ev version sh dd nt now (working c) of
        Inl e \<Rightarrow> Inl e
      | Inr (db, n) \<Rightarrow> Inr (sql_commit (c\<lparr>working := db\<rparr>), n))"

section \<open>The dual write\<close>

datatype evlog_error = UnknownEvent | BadName | NoStrategy | DbFailed ft_error | TsvFailed

record dual_state =
  dconn :: conn
  tsv :: "string option"

text \<open>Errors of the savepoint statements are swallowed by the context manager.\<close>

definition swallow :: "conn option \<Rightarrow> conn \<Rightarrow> conn" where
  "swallow r c = (case r of None \<Rightarrow> c | Some c' \<Rightarrow> c')"

definition record_event_dual ::
  "(rat \<Rightarrow> string) \<Rightarrow> string \<Rightarrow> bool \<Rightarrow> string \<Rightarrow> string \<Rightarrow> log_entry \<Rightarrow> int option \<Rightarrow> string \<Rightarrow> dual_state \<Rightarrow>
   dual_state \<times> (evlog_error + nat)" where
  "record_event_dual shw commit append_raises sp sid e version now st =
     (if parse_event (le_event e) = None then (st, Inl UnknownEvent)
      else if strip (le_name e) = [] then (st, Inl BadName)
      else case get_strategy sid (working (dconn st)) of
        Inl _ \<Rightarrow> (st, Inl NoStrategy)
      | Inr _ \<Rightarrow>
          let c1 = sql_savepoint sp (dconn st) in
          (case conn_record_event sid (le_event e) version (le_sharpe e) (le_max_dd e) (Some (le_note e)) now c1 of
             Inl err \<Rightarrow> (st\<lparr>dconn := swallow (sql_rollback_to sp c1) c1\<rparr>, Inl (DbFailed err))
           | Inr (c2, n) \<Rightarrow>
               if append_raises then (st\<lparr>dconn := swallow (sql_rollback_to sp c2) c2\<rparr>, Inl TsvFailed)
               else (st\<lparr>dconn := swallow (sql_release sp c2) c2,
                       tsv := Some (append_crash_safe (format_row shw commit e) (tsv st))\<rparr>, Inr n)))"

section \<open>Lemmas\<close>

lemma strip_Nil_iff: "strip s = [] \<longleftrightarrow> (\<forall>c \<in> set s. py_space c)"
proof -
  have d: "dropWhile py_space xs = [] \<longleftrightarrow> (\<forall>c \<in> set xs. py_space c)" for xs
    by (induction xs) auto
  have "(\<forall>c \<in> set (dropWhile py_space s). py_space c) \<longleftrightarrow> (\<forall>c \<in> set s. py_space c)"
    by (induction s) auto
  then show ?thesis by (simp add: strip_def rstrip_def lstrip_def d)
qed

lemma clean_field_chars: "TAB \<notin> set (clean_field s) \<and> NL \<notin> set (clean_field s)"
proof -
  have "set (clean_field s) \<subseteq> set (replace_char NL CHR '' '' (replace_char TAB CHR '' '' s))"
    unfolding clean_field_def by (rule set_strip)
  also have "\<dots> \<subseteq> insert CHR '' '' (set s - {TAB, NL})"
    by (auto simp: replace_char_def)
  finally show ?thesis by auto
qed

lemma clean_field_no_CR: "CR \<notin> set s \<Longrightarrow> CR \<notin> set (clean_field s)"
  unfolding clean_field_def by (rule contra_subsetD [OF set_strip]) (auto simp: replace_char_def)

lemma universal_clean: "CR \<notin> set s \<Longrightarrow> universal s = s"
  by (induction s rule: universal.induct) auto

lemma set_join: "set (join sep ws) \<subseteq> set sep \<union> \<Union> (set ` set ws)"
  by (induction ws rule: induct_list012) auto

lemma join_contains: "w \<in> set ws \<Longrightarrow> set w \<subseteq> set (join sep ws)"
  by (induction ws rule: induct_list012) auto

text \<open>A file of complete lines.\<close>

definition file_of :: "string list \<Rightarrow> string" where
  "file_of ls = concat (map (\<lambda>l. l @ [NL]) ls)"

lemma split_file_of: "(\<And>l. l \<in> set ls \<Longrightarrow> NL \<notin> set l) \<Longrightarrow> split_on NL (file_of ls) = ls @ [[]]"
  by (induction ls) (auto simp: file_of_def split_on_append)

lemma last_file_of: "ls \<noteq> [] \<Longrightarrow> file_of ls \<noteq> [] \<and> last (file_of ls) = NL"
  by (induction ls rule: rev_induct) (auto simp: file_of_def)

definition entry_ok :: "(rat \<Rightarrow> string) \<Rightarrow> string \<Rightarrow> log_entry \<Rightarrow> bool" where
  "entry_ok shw commit e \<longleftrightarrow> parse_event (le_event e) \<noteq> None \<and>
     set commit \<inter> {TAB, NL, CR} = {} \<and> CR \<notin> set (le_name e) \<and> CR \<notin> set (le_note e) \<and>
     (\<forall>x. CR \<notin> set (shw x))"

lemma parse_event_chars: "parse_event s \<noteq> None \<Longrightarrow> CR \<notin> set s \<and> clean_field s = s \<and> (\<exists>c \<in> set s. \<not> py_space c)"
proof -
  assume "parse_event s \<noteq> None"
  then have "s \<in> {''create'', ''evolve'', ''stable'', ''fork'', ''kill'', ''shadow_start'', ''shadow_end''}"
    by (auto simp: parse_event_def split: if_splits)
  then show ?thesis
    by (auto simp: clean_field_def replace_char_def strip_def rstrip_def lstrip_def py_space_def Let_def)
qed

lemma row_fields_clean:
  assumes "entry_ok shw commit e" "w \<in> set (row_fields shw commit e)"
  shows "TAB \<notin> set w \<and> NL \<notin> set w \<and> CR \<notin> set w"
proof -
  have "CR \<notin> set (float_field shw x)" for x using assms(1) by (auto simp: entry_ok_def float_field_def split: option.splits)
  moreover have "CR \<notin> set (le_event e)" using assms(1) parse_event_chars by (auto simp: entry_ok_def)
  ultimately show ?thesis
    using assms clean_field_chars clean_field_no_CR by (auto simp: row_fields_def entry_ok_def)
qed

lemma format_row_clean:
  assumes "entry_ok shw commit e"
  shows "NL \<notin> set (format_row shw commit e)" "CR \<notin> set (format_row shw commit e)"
    "split_on TAB (format_row shw commit e) = row_fields shw commit e" "strip (format_row shw commit e) \<noteq> []"
proof -
  have "set (format_row shw commit e) \<subseteq> {TAB} \<union> \<Union> (set ` set (row_fields shw commit e))"
    unfolding format_row_def using set_join [of "[TAB]"] by simp
  then show "NL \<notin> set (format_row shw commit e)" "CR \<notin> set (format_row shw commit e)"
    using row_fields_clean [OF assms] by auto
  show "split_on TAB (format_row shw commit e) = row_fields shw commit e"
    unfolding format_row_def
    by (rule split_on_join) (use row_fields_clean [OF assms] in \<open>auto simp: row_fields_def\<close>)
  have "clean_field (le_event e) \<in> set (row_fields shw commit e)" by (simp add: row_fields_def)
  then have "set (clean_field (le_event e)) \<subseteq> set (format_row shw commit e)"
    unfolding format_row_def by (rule join_contains)
  moreover have "\<exists>c \<in> set (clean_field (le_event e)). \<not> py_space c"
    using assms parse_event_chars [of "le_event e"] by (auto simp: entry_ok_def)
  ultimately show "strip (format_row shw commit e) \<noteq> []" unfolding strip_Nil_iff by blast
qed

lemma HEADER_facts: "NL \<notin> set HEADER" "CR \<notin> set HEADER" "strip HEADER \<noteq> []" "split_on TAB HEADER = HEADER_COLS"
  unfolding HEADER_def HEADER_COLS_def by code_simp+

lemma file_of_append: "file_of (xs @ ys) = file_of xs @ file_of ys" and file_of_single: "file_of [x] = x @ [NL]"
  by (simp_all add: file_of_def)

lemma universal_file_of: "(\<And>l. l \<in> set ls \<Longrightarrow> CR \<notin> set l) \<Longrightarrow> universal (file_of ls) = file_of ls"
  by (rule universal_clean) (auto simp: file_of_def)

lemma header_file: "write_header_if_missing None = file_of [HEADER]"
  "write_header_if_missing (Some (file_of (HEADER # ks))) = file_of (HEADER # ks)"
  by (simp_all add: write_header_if_missing_def file_of_def HEADER_def HEADER_COLS_def)

lemma append_row:
  assumes "write_header_if_missing file = file_of (HEADER # ks)" "\<And>l. l \<in> set ks \<Longrightarrow> CR \<notin> set l"
  shows "append_crash_safe row file = file_of (HEADER # ks @ [row])"
proof -
  have u: "universal (file_of (HEADER # ks)) = file_of (HEADER # ks)"
    using assms(2) HEADER_facts(2) by (intro universal_file_of) auto
  have "file_of (HEADER # ks @ [row]) = file_of (HEADER # ks) @ row @ [NL]"
    using file_of_append [of "HEADER # ks" "[row]"] by (simp add: file_of_single)
  then show ?thesis
    using last_file_of [of "HEADER # ks"] by (simp add: append_crash_safe_def assms(1) u)
qed

text \<open>A session of appends to one file, each row with its commit hash.\<close>

fun append_rows :: "(rat \<Rightarrow> string) \<Rightarrow> string option \<Rightarrow> (string \<times> log_entry) list \<Rightarrow> string option" where
  "append_rows shw file [] = file"
| "append_rows shw file ((commit, e) # es) =
     append_rows shw (Some (append_crash_safe (format_row shw commit e) file)) es"

lemma append_rows_file:
  "(\<And>c e. (c, e) \<in> set es \<Longrightarrow> entry_ok shw c e) \<Longrightarrow>
   append_rows shw None es = (if es = [] then None
     else Some (file_of (HEADER # map (\<lambda>(c, e). format_row shw c e) es)))"
proof (induction es rule: rev_induct)
  case (snoc ce es)
  obtain c e where ce: "ce = (c, e)" by (cases ce)
  have step: "append_rows shw f (xs @ [(c, e)]) =
      Some (append_crash_safe (format_row shw c e) (append_rows shw f xs))" for f xs
    by (induction xs arbitrary: f) auto
  have clean: "CR \<notin> set l" if "l \<in> set (map (\<lambda>(c, e). format_row shw c e) es)" for l
  proof -
    from that obtain c e where "(c, e) \<in> set es" "l = format_row shw c e" by auto
    then show ?thesis using snoc.prems [of c e] format_row_clean(2) by simp
  qed
  have IH: "append_rows shw None es = (if es = [] then None
     else Some (file_of (HEADER # map (\<lambda>(c, e). format_row shw c e) es)))" using snoc by simp
  have "write_header_if_missing (append_rows shw None es) = file_of (HEADER # map (\<lambda>(c, e). format_row shw c e) es)"
    unfolding IH by (cases "es = []") (simp_all add: header_file)
  from append_row [OF this clean] show ?case by (simp add: ce step)
qed simp

section \<open>Properties\<close>

text \<open>
  C9: the event file round-trips up to the cleaning of the fields. Reading back a file that was
  built by appending rows to no file gives, oldest first, exactly one record per row with the six
  written fields under the header's names: the commit as it is, and the event, the name, the two
  numbers and the note after \<open>_clean\<close>, which puts spaces for tabs and line feeds and strips the ends.
  Every entry must satisfy \<open>entry_ok\<close>: an allowed event, a commit without tab, line feed or carriage
  return (it is written uncleaned), and no carriage return in the name, the note or a printed
  number; tabs and line feeds in the name and the note are allowed. The lemma
  \<open>carriage_return_splits_row\<close> below shows that the last condition is needed.
\<close>

theorem tsv_round_trip:
  assumes "\<And>c e. (c, e) \<in> set es \<Longrightarrow> entry_ok shw c e"
  shows "read_tsv_events (append_rows shw None es) = map (\<lambda>(c, e). zip HEADER_COLS (row_fields shw c e)) es"
proof (cases "es = []")
  case True
  then show ?thesis by (simp add: read_tsv_events_def)
next
  case False
  let ?rows = "map (\<lambda>(c, e). format_row shw c e) es"
  have row: "NL \<notin> set r \<and> CR \<notin> set r \<and> strip r \<noteq> []" if "r \<in> set ?rows" for r
    using that assms format_row_clean by fastforce
  have u: "universal (file_of (HEADER # ?rows)) = file_of (HEADER # ?rows)"
    using row HEADER_facts by (intro universal_file_of) auto
  have lines: "split_on NL (file_of (HEADER # ?rows)) = (HEADER # ?rows) @ [[]]"
    using row HEADER_facts by (intro split_file_of) auto
  have "strip [] = []" by (simp add: strip_Nil_iff)
  then have keep: "filter (\<lambda>l. strip l \<noteq> []) ((HEADER # ?rows) @ [[]]) = HEADER # ?rows"
    using row HEADER_facts(3) by (auto intro!: filter_True)
  have cols: "split_on TAB (format_row shw c e) = row_fields shw c e" if "(c, e) \<in> set es" for c e
    using format_row_clean(3) assms that by blast
  have len: "length (row_fields shw c e) = length HEADER_COLS" for c e
    by (simp add: row_fields_def HEADER_COLS_def)
  have "read_tsv_events (Some (file_of (HEADER # ?rows))) =
      map (\<lambda>l. zip HEADER_COLS (split_on TAB l @ replicate (length HEADER_COLS - length (split_on TAB l)) [])) ?rows"
    unfolding read_tsv_events_def option.case u lines keep by (simp add: HEADER_facts(4) Let_def)
  also have "\<dots> = map (\<lambda>(c, e). zip HEADER_COLS (row_fields shw c e)) es"
    using cols len by auto
  finally show ?thesis using append_rows_file [OF assms] False by simp
qed

definition demo_entry :: "string \<Rightarrow> log_entry" where
  "demo_entry n = \<lparr>le_event = ''stable'', le_name = ''s'', le_sharpe = None, le_max_dd = None, le_note = n\<rparr>"

theorem tsv_round_trip_witness:
  "read_tsv_events (append_rows (\<lambda>_. []) None [(''abc'', demo_entry [CHR ''x'', TAB, CHR ''y'', NL])]) =
     [zip HEADER_COLS [''abc'', ''stable'', ''s'', [], [], ''x y'']]"
proof -
  have "entry_ok (\<lambda>_. []) ''abc'' (demo_entry [CHR ''x'', TAB, CHR ''y'', NL])"
    by (simp add: entry_ok_def demo_entry_def parse_event_def)
  moreover have "row_fields (\<lambda>_. []) ''abc'' (demo_entry [CHR ''x'', TAB, CHR ''y'', NL]) = [''abc'', ''stable'', ''s'', [], [], ''x y'']"
    unfolding demo_entry_def by code_simp
  ultimately show ?thesis
    using tsv_round_trip [of "[(''abc'', demo_entry [CHR ''x'', TAB, CHR ''y'', NL])]" "\<lambda>_. []"] by simp
qed

text \<open>
  A carriage return inside a note is neither a tab nor a line feed for \<open>_clean\<close>, but ends a line when
  the file is read: one row comes back as two records.
\<close>

lemma carriage_return_splits_row:
  "map (map snd) (read_tsv_events (append_rows (\<lambda>_. []) None [(''abc'', demo_entry [CHR ''x'', CR, CHR ''y''])])) =
     [[''abc'', ''stable'', ''s'', [], [], ''x''], [''y'', [], [], [], [], []]]"
  unfolding demo_entry_def by code_simp

text \<open>
  The dual write is not atomic. \<open>record_event\<close> commits inside the savepoint, which discards it, so
  when the file append then fails the rollback has nothing to return to: the call raises the
  file error, the file is unchanged, and the event is nevertheless durably in the database. When the
  append succeeds both sides have the event.
\<close>

theorem dual_write_commits_early:
  assumes "parse_event (le_event e) = Some k" "strip (le_name e) \<noteq> []"
    and "map_of (strategies (working (dconn st))) sid = Some s"
  shows "case record_event_dual shw commit append_raises sp sid e version now st of (st', res) \<Rightarrow>
    events_of sid (durable (dconn st')) = events_of sid (working (dconn st)) @ [k] \<and>
    (if append_raises then res = Inl TsvFailed \<and> tsv st' = tsv st
     else res = Inr (next_event (working (dconn st))) \<and>
       tsv st' = Some (append_crash_safe (format_row shw commit e) (tsv st)))"
proof -
  let ?db = "working (dconn st)"
  let ?row = "\<lparr>ev_strategy = sid, ev_version = version, ev_kind = k, ev_sharpe = le_sharpe e, ev_max_dd = le_max_dd e,
    ev_note = Some (le_note e), ev_recorded = now\<rparr>"
  have key: "has_key (strategies ?db) sid" using assms(3) by (simp add: has_key_iff)
  obtain db1 where rec: "record_event sid (le_event e) version (le_sharpe e) (le_max_dd e) (Some (le_note e)) now ?db =
      Inr (db1, next_event ?db)" and ev: "events_of sid db1 = events_of sid ?db @ [k]"
  proof
    let ?db1 = "update_strategy sid (mirror_event k now) (?db\<lparr>events := events ?db @ [(next_event ?db, ?row)],
      next_event := next_event ?db + 1\<rparr>)"
    show "record_event sid (le_event e) version (le_sharpe e) (le_max_dd e) (Some (le_note e)) now ?db =
      Inr (?db1, next_event ?db)"
      using assms(1) key by (simp add: record_event_def Let_def)
    show "events_of sid ?db1 = events_of sid ?db @ [k]" by (simp add: events_of_def)
  qed
  define c1 where "c1 = sql_savepoint sp (dconn st)"
  define c2 where "c2 = sql_commit (c1\<lparr>working := db1\<rparr>)"
  have conn: "conn_record_event sid (le_event e) version (le_sharpe e) (le_max_dd e) (Some (le_note e)) now c1 =
      Inr (c2, next_event ?db)"
    using rec by (simp add: conn_record_event_def c1_def c2_def sql_savepoint_def)
  have gone: "sql_rollback_to sp c2 = None" "sql_release sp c2 = None"
    by (simp_all add: sql_rollback_to_def sql_release_def sql_commit_def c2_def)
  have dur: "durable c2 = db1" by (simp add: sql_commit_def c2_def)
  have run: "record_event_dual shw commit append_raises sp sid e version now st =
     (if append_raises then (st\<lparr>dconn := c2\<rparr>, Inl TsvFailed)
      else (st\<lparr>dconn := c2, tsv := Some (append_crash_safe (format_row shw commit e) (tsv st))\<rparr>, Inr (next_event ?db)))"
    unfolding record_event_dual_def c1_def [symmetric] Let_def
    using assms by (simp add: get_strategy_def conn gone swallow_def)
  show ?thesis unfolding run using ev dur by simp
qed

definition demo_dual :: dual_state where
  "demo_dual = \<lparr>dconn = \<lparr>working = demo_final_db, durable = demo_final_db, savepoints = []\<rparr>, tsv = None\<rparr>"

theorem dual_write_commits_early_witness:
  "case record_event_dual (\<lambda>_. []) ''abc'' True ''sp'' ''s'' (demo_entry ''n'') None ''t'' demo_dual of (st', res) \<Rightarrow>
    events_of ''s'' (durable (dconn st')) = events_of ''s'' demo_final_db @ [EvStable] \<and> res = Inl TsvFailed \<and> tsv st' = None"
proof -
  have 1: "parse_event (le_event (demo_entry ''n'')) = Some EvStable" by (simp add: demo_entry_def parse_event_def)
  have 2: "strip (le_name (demo_entry ''n'')) \<noteq> []" unfolding demo_entry_def by code_simp
  have 3: "map_of (strategies (working (dconn demo_dual))) ''s'' = Some (new_strategy demo_input ''t0'')"
    using demo_strategy by (simp add: demo_dual_def)
  show ?thesis
    using dual_write_commits_early [OF 1 2 3, where append_raises = True and shw = "\<lambda>_. []"]
    by (simp add: demo_dual_def split: prod.splits)
qed

end
