(* ===== verification/RateLimit.thy ===== *)
theory RateLimit
  imports PyFloat
begin

text \<open>
  \<^verbatim>\<open>app/api/rate_limit.py\<close>: the sliding-window rate limiter. The store is the \<open>defaultdict\<close> of
  time stamps by key. \<open>check\<close> is three bodies under the lock, and each reads \<open>time.monotonic()\<close> before it takes
  the lock; every operation takes its readings as arguments. First one caller at a time, whose readings
  follow one another; then threads, whose bodies take the lock in any order, with readings
  that may be older than those of bodies that came before. The handler behind the decorator is an argument.
\<close>

section \<open>The store\<close>

record rl_config =
  rl_requests :: int
  rl_window :: int

type_synonym rl_store = "(string \<times> rat list) list"

definition stamps :: "rl_store \<Rightarrow> string \<Rightarrow> rat list" where
  "stamps s key = get_default s key []"

definition prune :: "rl_store \<Rightarrow> string \<Rightarrow> rat \<Rightarrow> rl_store" where
  "prune s key cutoff = AList.update key (filter (\<lambda>t. cutoff < t) (stamps s key)) s"

definition is_allowed :: "rl_store \<Rightarrow> string \<Rightarrow> int \<Rightarrow> int \<Rightarrow> rat \<Rightarrow> bool \<times> rl_store" where
  "is_allowed s key max_requests window_seconds now =
     (let cutoff = fsub now (of_int window_seconds);
          s1 = prune s key cutoff;
          count = int (length (stamps s1 key))
      in if max_requests \<le> count then (False, s1)
         else (True, AList.update key (stamps s1 key @ [now]) s1))"

definition remaining :: "rl_store \<Rightarrow> string \<Rightarrow> int \<Rightarrow> int \<Rightarrow> rat \<Rightarrow> int \<times> rl_store" where
  "remaining s key max_requests window_seconds now =
     (let s1 = prune s key (fsub now (of_int window_seconds))
      in (max 0 (max_requests - int (length (stamps s1 key))), s1))"

definition reset_key :: "rl_store \<Rightarrow> string \<Rightarrow> rl_store" where
  "reset_key s key = AList.delete key s"

section \<open>The limiter\<close>

definition DEFAULT_LIMITS :: "(string \<times> rl_config) list" where
  "DEFAULT_LIMITS =
     [(''analyze'', \<lparr>rl_requests = 10, rl_window = 60\<rparr>),
      (''batch_quotes'', \<lparr>rl_requests = 30, rl_window = 60\<rparr>),
      (''watchlist_crud'', \<lparr>rl_requests = 60, rl_window = 60\<rparr>),
      (''history'', \<lparr>rl_requests = 120, rl_window = 60\<rparr>),
      (''health'', \<lparr>rl_requests = 300, rl_window = 60\<rparr>),
      (''admin'', \<lparr>rl_requests = 10, rl_window = 60\<rparr>)]"

definition config_for :: "string \<Rightarrow> rl_config" where
  "config_for endpoint = get_default DEFAULT_LIMITS endpoint \<lparr>rl_requests = 60, rl_window = 60\<rparr>"

definition key_for :: "string option \<Rightarrow> string \<Rightarrow> string" where
  "key_for user_id endpoint =
     (let uid = (case user_id of None \<Rightarrow> ''anonymous'' | Some u \<Rightarrow> if u = '''' then ''anonymous'' else u)
      in uid @ CHR '':'' # endpoint)"

definition check_limit ::
    "rl_store \<Rightarrow> string option \<Rightarrow> string \<Rightarrow> rat \<Rightarrow> rat \<Rightarrow> rat \<Rightarrow> (bool \<times> int \<times> int) \<times> rl_store" where
  "check_limit s user_id endpoint n1 n2 n3 =
     (let config = config_for endpoint;
          key = key_for user_id endpoint;
          (allowed, s1) = is_allowed s key (rl_requests config) (rl_window config) n1;
          (left, s2) = remaining s1 key (rl_requests config) (rl_window config) n2
      in if allowed then ((True, left, 0), s2)
         else let timestamps = get_default s2 key [];
                  reset_in = (if timestamps \<noteq> []
                              then py_int (fsub (fadd (list_min timestamps) (of_int (rl_window config))) n3) + 1
                              else rl_window config)
              in ((False, 0, max 1 reset_in), s2))"

text \<open>
  The decorator: \<open>kwargs.get("user")\<close> is absent or a dict whose \<open>id\<close> may be missing. A rejected
  request gets a 429 that carries the retry time and never reaches the handler.
\<close>

definition user_of :: "string option option \<Rightarrow> string option" where
  "user_of user = (case user of None \<Rightarrow> None | Some None \<Rightarrow> Some ''None'' | Some (Some i) \<Rightarrow> Some i)"

datatype 'r limited = RateLimited int | Served 'r int

definition limit_wrapper ::
    "rl_store \<Rightarrow> string option option \<Rightarrow> string \<Rightarrow> rat \<Rightarrow> rat \<Rightarrow> rat \<Rightarrow> (unit \<Rightarrow> 'r) \<Rightarrow> 'r limited \<times> rl_store" where
  "limit_wrapper s user endpoint n1 n2 n3 fn =
     (let ((allowed, left, reset_in), s') = check_limit s (user_of user) endpoint n1 n2 n3
      in (if \<not> allowed then RateLimited reset_in else Served (fn ()) left, s'))"

section \<open>Sessions\<close>

text \<open>
  A session is a sequence of checks and resets on an empty store; beside it runs the log of the
  requests each key has been granted since its last reset.
\<close>

datatype rl_op = CheckOp "string option" string rat rat rat | ResetOp string

fun rl_step :: "rl_store \<times> (string \<Rightarrow> rat list) \<Rightarrow> rl_op \<Rightarrow> rl_store \<times> (string \<Rightarrow> rat list)" where
  "rl_step (s, granted) (CheckOp u e n1 n2 n3) =
     (let ((allowed, _), s') = check_limit s u e n1 n2 n3; k = key_for u e
      in (s', if allowed then granted(k := granted k @ [n1]) else granted))"
| "rl_step (s, granted) (ResetOp k) = (reset_key s k, granted(k := []))"

definition rl_run :: "rl_op list \<Rightarrow> rl_store \<times> (string \<Rightarrow> rat list)" where
  "rl_run ops = foldl rl_step ([], \<lambda>_. []) ops"

fun readings :: "rl_op \<Rightarrow> rat list" where
  "readings (CheckOp u e n1 n2 n3) = [n1, n2, n3]"
| "readings (ResetOp k) = []"

fun rl_endpoint_ok :: "rl_op \<Rightarrow> bool" where
  "rl_endpoint_ok (CheckOp u e n1 n2 n3) = (CHR '':'' \<notin> set e)"
| "rl_endpoint_ok (ResetOp k) = True"

text \<open>
  Readings are floats between 0 and \<open>2 ^ 39\<close> seconds (seventeen thousand years of uptime): there a
  rounded sum or difference is off by less than an eighth of a millisecond.
\<close>

definition clock :: "rat \<Rightarrow> bool" where
  "clock t = (0 \<le> t \<and> t \<le> 2 ^ 39)"

text \<open>The clock is monotone and endpoints carry no colon (so that a key determines its endpoint).\<close>

definition rl_session :: "rl_op list \<Rightarrow> bool" where
  "rl_session ops = (sorted (concat (map readings ops)) \<and> list_all clock (concat (map readings ops)) \<and> list_all rl_endpoint_ok ops)"

definition endpoint_of :: "string \<Rightarrow> string" where
  "endpoint_of key = last (split_on (CHR '':'') key)"

text \<open>How many requests of a log fall into the window that ends at \<open>n\<close>.\<close>

definition in_window :: "int \<Rightarrow> rat list \<Rightarrow> rat \<Rightarrow> nat" where
  "in_window w ts n = length (filter (\<lambda>t. fsub n (of_int w) < t \<and> t \<le> n) ts)"

section \<open>Lemmas\<close>

lemma last_split_on: "c \<notin> set t \<Longrightarrow> last (split_on c (s @ c # t)) = t"
  by (simp add: split_on_append_sep split_on_clean)

lemma endpoint_of_key: "CHR '':'' \<notin> set e \<Longrightarrow> endpoint_of (key_for u e) = e"
  by (simp add: endpoint_of_def key_for_def Let_def last_split_on split: option.splits)

lemma config_for_pos: "0 < rl_requests (config_for e) \<and> 0 < rl_window (config_for e) \<and> rl_window (config_for e) \<le> 60"
  by (auto simp: config_for_def DEFAULT_LIMITS_def get_default_def split: option.splits if_splits)

lemma stamps_update: "stamps (AList.update k v s) k' = (if k' = k then v else stamps s k')"
  by (simp add: stamps_def get_default_def update_conv')

lemma stamps_prune: "stamps (prune s k c) k' = (if k' = k then filter (\<lambda>t. c < t) (stamps s k) else stamps s k')"
  by (simp add: prune_def stamps_update)

lemma stamps_reset: "stamps (reset_key s k) k' = (if k' = k then [] else stamps s k')"
  by (auto simp: stamps_def get_default_def reset_key_def delete_conv')

section \<open>The invariant\<close>

text \<open>
  The stamps kept for a key are the granted requests of some recent stretch of time, no more than
  the limit, and no window of the log holds more than the limit.
\<close>

definition rl_inv :: "rat \<Rightarrow> rl_store \<times> (string \<Rightarrow> rat list) \<Rightarrow> bool" where
  "rl_inv now st = (\<forall>k. let s = fst st; g = snd st k; c = config_for (endpoint_of k) in
     sorted g \<and> (\<forall>t \<in> set g. 0 \<le> t \<and> t \<le> now)
     \<and> (\<exists>b \<le> fsub now (of_int (rl_window c)). stamps s k = filter (\<lambda>t. b < t) g)
     \<and> int (length (stamps s k)) \<le> rl_requests c
     \<and> (\<forall>n. int (in_window (rl_window c) g n) \<le> rl_requests c))"

lemma rl_invD:
  assumes "rl_inv now (s, g)"
  shows "sorted (g k)" "t \<in> set (g k) \<Longrightarrow> 0 \<le> t \<and> t \<le> now"
    and "\<exists>b \<le> fsub now (of_int (rl_window (config_for (endpoint_of k)))). stamps s k = filter (\<lambda>t. b < t) (g k)"
    and "int (length (stamps s k)) \<le> rl_requests (config_for (endpoint_of k))"
    and "int (in_window (rl_window (config_for (endpoint_of k))) (g k) n) \<le> rl_requests (config_for (endpoint_of k))"
  using assms unfolding rl_inv_def Let_def by auto

lemma rl_inv_empty: "rl_inv now ([], \<lambda>_. [])"
  using config_for_pos by (auto simp: rl_inv_def Let_def stamps_def get_default_def in_window_def less_imp_le)

lemma rl_inv_later:
  assumes "rl_inv now st" "now \<le> now'"
  shows "rl_inv now' st"
proof -
  have "fsub now w \<le> fsub now' w" for w using assms(2) by (intro fsub_mono) auto
  with assms show ?thesis unfolding rl_inv_def Let_def by (meson order_trans)
qed

lemma filter_cutoff: "b \<le> c \<Longrightarrow> filter (\<lambda>t. c < t) (filter (\<lambda>t. (b :: rat) < t) ts) = filter (\<lambda>t. c < t) ts"
  by (auto intro: filter_cong)

text \<open>What a prune at a reading no earlier than the last one leaves.\<close>

lemma prune_log:
  assumes "rl_inv now (s, g)" "now \<le> n"
  shows "filter (\<lambda>t. fsub n (of_int (rl_window (config_for (endpoint_of k)))) < t) (stamps s k)
       = filter (\<lambda>t. fsub n (of_int (rl_window (config_for (endpoint_of k)))) < t) (g k)"
proof -
  let ?w = "of_int (rl_window (config_for (endpoint_of k))) :: rat"
  obtain b where b: "b \<le> fsub now ?w" "stamps s k = filter (\<lambda>t. b < t) (g k)"
    using rl_invD(3)[OF assms(1)] by blast
  have "b \<le> fsub n ?w" using b(1) fsub_mono[OF assms(2), of ?w ?w] by simp
  then show ?thesis by (simp add: b(2) filter_cutoff del: filter_filter)
qed

lemma length_filter_mono: "(\<And>x. P x \<Longrightarrow> Q x) \<Longrightarrow> length (filter P xs) \<le> length (filter Q xs)"
  by (induction xs) auto

lemma in_window_now:
  "\<forall>t \<in> set ts. t \<le> n \<Longrightarrow> in_window w ts n = length (filter (\<lambda>t. fsub n (of_int w) < t) ts)"
  unfolding in_window_def by (intro arg_cong[where f = length] filter_cong) auto

lemma rl_inv_prune:
  assumes "rl_inv now (s, g)" "now \<le> n" "c = config_for (endpoint_of k)"
  shows "rl_inv n (prune s k (fsub n (of_int (rl_window c))), g)"
  unfolding rl_inv_def Let_def fst_conv snd_conv
proof (intro allI conjI ballI)
  fix k' t m
  note inv = rl_invD[OF rl_inv_later[OF assms(1,2)], where k = k']
  let ?w = "\<lambda>k. of_int (rl_window (config_for (endpoint_of k))) :: rat"
  show "sorted (g k')" by (rule inv)
  show "0 \<le> t" "t \<le> n" if "t \<in> set (g k')" using inv(2)[OF that] by simp_all
  show "int (in_window (rl_window (config_for (endpoint_of k'))) (g k') m)
          \<le> rl_requests (config_for (endpoint_of k'))" by (rule inv)
  show "int (length (stamps (prune s k (fsub n (of_int (rl_window c)))) k'))
          \<le> rl_requests (config_for (endpoint_of k'))"
    using inv(4) by (auto simp: stamps_prune intro: order_trans[OF of_nat_mono[OF length_filter_le]])
  show "\<exists>b \<le> fsub n (?w k'). stamps (prune s k (fsub n (of_int (rl_window c)))) k' = filter (\<lambda>t. b < t) (g k')"
    using inv(3) prune_log[OF assms(1,2), of k] assms(3) by (auto simp: stamps_prune)
qed

lemma rl_inv_grant:
  assumes inv: "rl_inv n (s, g)" and c: "c = config_for (endpoint_of k)"
    and room: "int (length (stamps s k)) < rl_requests c"
    and pruned: "stamps s k = filter (\<lambda>t. fsub n (of_int (rl_window c)) < t) (g k)"
    and w: "fsub n (of_int (rl_window c)) < n" and n: "0 \<le> n"
  shows "rl_inv n (AList.update k (stamps s k @ [n]) s, g(k := g k @ [n]))"
  unfolding rl_inv_def Let_def fst_conv snd_conv
proof (intro allI conjI ballI)
  fix k' t m
  note inv' = rl_invD[OF inv]
  let ?s = "AList.update k (stamps s k @ [n]) s" and ?g = "g(k := g k @ [n])"
  show "sorted (?g k')" using inv'(1,2) by (auto simp: sorted_append)
  show "0 \<le> t" "t \<le> n" if "t \<in> set (?g k')" using that inv'(2) n by (auto split: if_splits)
  show "\<exists>b \<le> fsub n (of_int (rl_window (config_for (endpoint_of k')))). stamps ?s k' = filter (\<lambda>t. b < t) (?g k')"
    using inv'(3)[of k'] pruned w c by (auto simp: stamps_update)
  show "int (length (stamps ?s k')) \<le> rl_requests (config_for (endpoint_of k'))"
    using inv'(4)[of k'] room c by (auto simp: stamps_update)
  show "int (in_window (rl_window (config_for (endpoint_of k'))) (?g k') m)
          \<le> rl_requests (config_for (endpoint_of k'))"
  proof (cases "k' = k \<and> n \<le> m")
    case True
    have "in_window (rl_window c) (?g k) m \<le> length (filter (\<lambda>t. fsub n (of_int (rl_window c)) < t) (g k @ [n]))"
      using fsub_mono[of n m "of_int (rl_window c)" "of_int (rl_window c)"] True
      unfolding in_window_def fun_upd_same by (intro length_filter_mono) auto
    also have "\<dots> = length (stamps s k) + 1" using w by (simp add: pruned)
    finally show ?thesis using True room c by simp
  next
    case False
    then show ?thesis using inv'(5)[of k' m] c by (auto simp: in_window_def)
  qed
qed

section \<open>Clock arithmetic\<close>

lemma clock_literals: "(2 :: rat) ^ 39 = 549755813888" "(2 :: rat) ^ 40 = 1099511627776"
  by simp_all

lemma fl_close:
  assumes "\<bar>x\<bar> \<le> 2 ^ 40"
  shows "\<bar>fl x - x\<bar> \<le> 1 / 8192"
proof (cases "x = 0")
  case False
  have "flog2 \<bar>x\<bar> \<le> flog2 (2 ^ 40)" using assms False by (intro flog2_mono) auto
  also have "flog2 (2 ^ 40) = 40" by code_simp
  finally have "fexp x - 1 \<le> - 13" by (simp add: fexp_def)
  then have "(2 :: rat) powi (fexp x - 1) \<le> 2 powi (- 13)" by (intro power_int_increasing) auto
  also have "\<dots> = 1 / 8192" by simp
  finally show ?thesis using fl_error[OF False] by simp
qed simp

lemma window_start_close:
  assumes "clock n" "0 \<le> w" "w \<le> 60"
  shows "\<bar>fsub n w - (n - w)\<bar> \<le> 1 / 8192" and "\<bar>fadd n w - (n + w)\<bar> \<le> 1 / 8192"
  using assms clock_literals unfolding fsub_def fadd_def clock_def by - (rule fl_close, linarith)+

lemma window_start_before:
  assumes "clock n" "c = config_for e"
  shows "fsub n (of_int (rl_window c)) < n"
proof -
  have "1 \<le> (of_int (rl_window c) :: rat)" "(of_int (rl_window c) :: rat) \<le> 60"
    using config_for_pos[of e] assms(2) by simp_all
  then show ?thesis using window_start_close(1)[OF assms(1), of "of_int (rl_window c)"] by linarith
qed

lemma retry_delay:
  fixes w :: int
  assumes "clock oldest" "clock n3" "oldest \<le> n3" "0 < w" "w \<le> 60"
    and r: "r = py_int (fsub (fadd oldest (of_int w)) n3) + 1"
  shows "r \<le> w + 1" and "n3 + of_int r + 1 / 1000 \<le> n \<Longrightarrow> clock n \<Longrightarrow> oldest \<le> fsub n (of_int w)"
proof -
  let ?w = "of_int w :: rat" and ?x = "fsub (fadd oldest (of_int w)) n3"
  have w: "0 \<le> ?w" "?w \<le> 60" using assms(4,5) by simp_all
  have a: "\<bar>fadd oldest ?w - (oldest + ?w)\<bar> \<le> 1 / 8192" by (rule window_start_close(2)[OF assms(1) w])
  have "\<bar>fadd oldest ?w - n3\<bar> \<le> 2 ^ 40" using a w assms(1,2) clock_literals unfolding clock_def by linarith
  then have b: "\<bar>?x - (fadd oldest ?w - n3)\<bar> \<le> 1 / 8192" unfolding fsub_def by (rule fl_close)
  have "?x \<le> ?w + 1 / 2" using a b assms(3) by linarith
  then have "of_int (py_int ?x) \<le> ?w + 1 / 2" using w by (intro py_int_le) auto
  then have "(of_int (py_int ?x) :: rat) < of_int (w + 1)" by simp
  then show "r \<le> w + 1" unfolding of_int_less_iff using r by simp
  assume n: "n3 + of_int r + 1 / 1000 \<le> n" "clock n"
  have "?x < of_int r" using py_int_less[of ?x] r by simp
  then show "oldest \<le> fsub n ?w" using window_start_close(1)[OF n(2) w] n(1) a b by linarith
qed

section \<open>Properties\<close>

lemma is_allowed_post:
  assumes inv: "rl_inv now (s, g)" and n: "now \<le> n" "clock n" and c: "c = config_for (endpoint_of k)"
    and ia: "is_allowed s k (rl_requests c) (rl_window c) n = (ok, s1)"
  shows "ok \<longleftrightarrow> int (in_window (rl_window c) (g k) n) < rl_requests c"
    and "rl_inv n (s1, if ok then g(k := g k @ [n]) else g)"
proof -
  let ?w = "of_int (rl_window c) :: rat" and ?p = "prune s k (fsub n (of_int (rl_window c)))"
  have p: "rl_inv n (?p, g)" using inv n(1) c by (rule rl_inv_prune)
  have st: "stamps ?p k = filter (\<lambda>t. fsub n ?w < t) (g k)"
    using prune_log[OF inv n(1), of k] c by (simp add: stamps_prune)
  have le: "\<forall>t \<in> set (g k). t \<le> n" using rl_invD(2)[OF inv, of _ k] n(1) by (meson order_trans)
  have win: "length (stamps ?p k) = in_window (rl_window c) (g k) n" using le by (simp add: st in_window_now)
  show ok: "ok \<longleftrightarrow> int (in_window (rl_window c) (g k) n) < rl_requests c"
    using ia by (auto simp: is_allowed_def Let_def win split: if_splits)
  show "rl_inv n (s1, if ok then g(k := g k @ [n]) else g)"
  proof (cases ok)
    case True
    then have "s1 = AList.update k (stamps ?p k @ [n]) ?p"
      using ia by (auto simp: is_allowed_def Let_def split: if_splits)
    then show ?thesis
      using rl_inv_grant[OF p c _ st window_start_before[OF n(2) c]] n(2) ok win True by (simp add: clock_def)
  next
    case False
    then show ?thesis using ia p by (auto simp: is_allowed_def Let_def split: if_splits)
  qed
qed

lemma check_limit_post:
  assumes inv: "rl_inv now (s, g)" and n: "now \<le> n1" "n1 \<le> n2" "n2 \<le> n3"
    and clk: "clock n1" "clock n2" "clock n3" and e: "CHR '':'' \<notin> set e"
    and k: "k = key_for u e" and c: "c = config_for e"
    and ch: "check_limit s u e n1 n2 n3 = ((ok, left, retry), s')"
  shows "ok \<longleftrightarrow> int (in_window (rl_window c) (g k) n1) < rl_requests c"
    and "rl_inv n3 (s', if ok then g(k := g k @ [n1]) else g)"
    and "ok \<Longrightarrow> retry = 0 \<and> 0 \<le> left \<and> left = rl_requests c - int (in_window (rl_window c) (g k @ [n1]) n2)"
    and "\<not> ok \<Longrightarrow> left = 0 \<and> 1 \<le> retry \<and> retry \<le> rl_window c + 1"
    and "\<not> ok \<Longrightarrow> n3 + of_int retry + 1 / 1000 \<le> n \<Longrightarrow> clock n
           \<Longrightarrow> int (in_window (rl_window c) (g k) n) < rl_requests c"
proof -
  have ck: "c = config_for (endpoint_of k)" using endpoint_of_key[OF e] k c by simp
  obtain ok' s1 where ia: "is_allowed s k (rl_requests c) (rl_window c) n1 = (ok', s1)"
    by (cases "is_allowed s k (rl_requests c) (rl_window c) n1")
  let ?s2 = "prune s1 k (fsub n2 (of_int (rl_window c)))"
  let ?reset = "if stamps ?s2 k \<noteq> []
      then py_int (fsub (fadd (list_min (stamps ?s2 k)) (of_int (rl_window c))) n3) + 1 else rl_window c"
  have eq: "((ok, left, retry), s') = (if ok' then ((True, max 0 (rl_requests c - int (length (stamps ?s2 k))), 0), ?s2)
      else ((False, 0, max 1 ?reset), ?s2))"
    unfolding ch[symmetric] check_limit_def Let_def k[symmetric] c[symmetric] ia remaining_def prod.case stamps_def
    by simp
  then have s': "ok = ok'" "s' = ?s2" by (simp_all split: if_splits)
  let ?g = "if ok then g(k := g k @ [n1]) else g"
  note post = is_allowed_post[OF inv n(1) clk(1) ck ia]
  show "ok \<longleftrightarrow> int (in_window (rl_window c) (g k) n1) < rl_requests c" using post(1) s'(1) by simp
  have inv1: "rl_inv n1 (s1, ?g)" using post(2) s'(1) by simp
  have inv2: "rl_inv n2 (s', ?g)" using rl_inv_prune[OF inv1 n(2) ck] s'(2) by simp
  show "rl_inv n3 (s', ?g)" using inv2 n(3) by (rule rl_inv_later)
  note inv2' = rl_invD[OF inv2, where k = k]
  have st: "stamps s' k = filter (\<lambda>t. fsub n2 (of_int (rl_window c)) < t) (?g k)"
    using prune_log[OF inv1 n(2), of k] ck s'(2) by (simp add: stamps_prune)
  have win: "length (stamps s' k) = in_window (rl_window c) (?g k) n2"
    unfolding st by (subst in_window_now) (use inv2'(2) in auto)
  show "ok \<Longrightarrow> retry = 0 \<and> 0 \<le> left \<and> left = rl_requests c - int (in_window (rl_window c) (g k @ [n1]) n2)"
    using eq s' win inv2'(4)[folded ck] by simp
  have w: "0 < rl_window c" "rl_window c \<le> 60" "0 < rl_requests c" using config_for_pos[of e] c by simp_all
  assume no: "\<not> ok"
  then have st': "stamps s' k = filter (\<lambda>t. fsub n2 (of_int (rl_window c)) < t) (g k)" using st by simp
  have res: "left = 0" "retry = max 1 ?reset" using eq no s'(1) by simp_all
  have small: "int (length (stamps ?s2 k)) \<le> rl_requests c" using inv2'(4)[folded ck] s'(2) by simp
  have stamp: "clock t \<and> t \<le> n3" if "t \<in> set (stamps ?s2 k)" for t
    using that st' s'(2) inv2'(2)[of t] n(3) clk(2) no window_start_close(1)[OF clk(2), of "of_int (rl_window c)"] w
    by (auto simp: clock_def)
  show "left = 0 \<and> 1 \<le> retry \<and> retry \<le> rl_window c + 1"
  proof (cases "stamps ?s2 k = []")
    case False
    then have "clock (list_min (stamps ?s2 k))" "list_min (stamps ?s2 k) \<le> n3" using stamp list_min_in by blast+
    then show ?thesis using retry_delay(1)[OF _ clk(3) _ w(1,2) refl] res False w by simp
  qed (use res w in simp)
  assume n': "n3 + of_int retry + 1 / 1000 \<le> n" "clock n"
  let ?b = "fsub n (of_int (rl_window c))"
  have "n2 \<le> n" using n' n(3) res(2) by linarith
  then have b: "fsub n2 (of_int (rl_window c)) \<le> ?b" by (intro fsub_mono) auto
  have "in_window (rl_window c) (g k) n \<le> length (filter (\<lambda>t. ?b < t) (g k))"
    unfolding in_window_def by (rule length_filter_mono) simp
  also have "\<dots> = length (filter (\<lambda>t. ?b < t) (stamps ?s2 k))"
    using st' s'(2) b by (simp add: filter_cutoff del: filter_filter)
  finally have le: "in_window (rl_window c) (g k) n \<le> length (filter (\<lambda>t. ?b < t) (stamps ?s2 k))" .
  show "int (in_window (rl_window c) (g k) n) < rl_requests c"
  proof (cases "stamps ?s2 k = []")
    case False
    let ?o = "list_min (stamps ?s2 k)"
    have o: "?o \<in> set (stamps ?s2 k)" using False by (rule list_min_in)
    have "n3 + of_int (py_int (fsub (fadd ?o (of_int (rl_window c))) n3) + 1) + 1 / 1000 \<le> n"
      using n'(1) res(2) False by (simp add: max_def split: if_splits)
    then have "?o \<le> ?b" using retry_delay(2)[OF _ clk(3) _ w(1,2) refl _ n'(2)] stamp[OF o] by blast
    then have "length (filter (\<lambda>t. ?b < t) (stamps ?s2 k)) < length (stamps ?s2 k)"
      using o by (intro length_filter_less) auto
    then show ?thesis using le small by linarith
  qed (use le w in simp)
qed

lemma rl_run_snoc: "rl_run (ops @ [x]) = rl_step (rl_run ops) x"
  by (simp add: rl_run_def)

lemma rl_session_snoc:
  "rl_session (ops @ [x]) \<longleftrightarrow> rl_session ops \<and> sorted (readings x) \<and> list_all clock (readings x) \<and> rl_endpoint_ok x
     \<and> (\<forall>r \<in> set (concat (map readings ops)). \<forall>n \<in> set (readings x). r \<le> n)"
  by (auto simp: rl_session_def sorted_append list_all_iff)

lemma rl_run_inv:
  "rl_session ops \<Longrightarrow> 0 \<le> now \<Longrightarrow> (\<forall>r \<in> set (concat (map readings ops)). r \<le> now) \<Longrightarrow> rl_inv now (rl_run ops)"
proof (induction ops arbitrary: now rule: rev_induct)
  case Nil
  then show ?case by (simp add: rl_run_def rl_inv_empty)
next
  case (snoc x ops)
  obtain s g where run: "rl_run ops = (s, g)" by (cases "rl_run ops")
  show ?case
  proof (cases x)
    case (ResetOp k)
    have inv: "rl_inv now (s, g)" using snoc ResetOp run by (auto simp: rl_session_snoc)
    have "0 \<le> rl_requests (config_for e)" for e using config_for_pos[of e] by simp
    then have "rl_inv now (reset_key s k, g(k := []))"
      using inv unfolding rl_inv_def Let_def
      by (auto simp: stamps_reset in_window_def intro!: exI[of _ "fsub now _"])
    then show ?thesis using ResetOp run by (simp add: rl_run_snoc)
  next
    case (CheckOp u e n1 n2 n3)
    have ses: "rl_session ops" "n1 \<le> n2" "n2 \<le> n3" "clock n1" "clock n2" "clock n3" "CHR '':'' \<notin> set e"
      "\<forall>r \<in> set (concat (map readings ops)). r \<le> n1" "n3 \<le> now"
      using snoc.prems CheckOp by (auto simp: rl_session_snoc)
    have inv: "rl_inv n1 (s, g)" using snoc.IH[OF ses(1), of n1] ses(4,8) run by (simp add: clock_def)
    obtain ok left retry s' where ch: "check_limit s u e n1 n2 n3 = ((ok, left, retry), s')"
      by (cases "check_limit s u e n1 n2 n3") auto
    have "rl_inv n3 (s', if ok then g(key_for u e := g (key_for u e) @ [n1]) else g)"
      using check_limit_post(2)[OF inv _ ses(2-7) refl refl ch] by simp
    then show ?thesis using ses(9) rl_inv_later by (auto simp: rl_run_snoc run CheckOp ch Let_def)
  qed
qed

definition demo_ops :: "rl_op list" where
  "demo_ops = map (\<lambda>i. CheckOp (Some ''u1'') ''admin'' (of_int i) (of_int i) (of_int i)) [1..10]"

lemma demo_ops_session: "rl_session demo_ops"
  by (simp add: rl_session_def demo_ops_def upto.simps clock_def)

text \<open>
  A rejection is exact and its retry time is honest. In any reachable state a request is
  served, with the handler's own response, exactly when the requests granted to its key inside
  the window are fewer than the limit; the remaining count shown is never negative nor above the limit. Otherwise the
  handler is not run and the retry time is between one second and one second more than the window;
  the next check of the key a millisecond past the retry time is granted.
\<close>

theorem rejection_exact_and_retry_honest:
  assumes ses: "rl_session (ops @ [CheckOp user_id endpoint n1 n2 n3])"
    and run: "rl_run ops = (s, granted)"
    and user: "user_id = user_of user"
    and res: "limit_wrapper s user endpoint n1 n2 n3 fn = (r, s')"
    and c: "c = config_for endpoint" and k: "k = key_for user_id endpoint"
  shows "if int (in_window (rl_window c) (granted k) n1) < rl_requests c
         then \<exists>left. r = Served (fn ()) left \<and> 0 \<le> left \<and> left \<le> rl_requests c
         else \<exists>retry. r = RateLimited retry \<and> 1 \<le> retry \<and> retry \<le> rl_window c + 1
                \<and> (\<forall>m1 m2 m3. n3 + of_int retry + 1 / 1000 \<le> m1 \<and> m1 \<le> m2 \<and> m2 \<le> m3 \<and> m3 \<le> 2 ^ 39
                     \<longrightarrow> fst (fst (check_limit s' user_id endpoint m1 m2 m3)))"
proof -
  have n: "n1 \<le> n2" "n2 \<le> n3" "clock n1" "clock n2" "clock n3" "CHR '':'' \<notin> set endpoint"
    and ops: "rl_session ops" "\<forall>r \<in> set (concat (map readings ops)). r \<le> n1"
    using ses by (auto simp: rl_session_snoc)
  have inv: "rl_inv n1 (s, granted)" using rl_run_inv[OF ops(1) _ ops(2)] n(3) run by (simp add: clock_def)
  obtain ok left retry s1 where ch: "check_limit s user_id endpoint n1 n2 n3 = ((ok, left, retry), s1)"
    by (cases "check_limit s user_id endpoint n1 n2 n3") auto
  note post = check_limit_post[OF inv order_refl n k c ch]
  have r: "r = (if ok then Served (fn ()) left else RateLimited retry)" "s' = s1"
    using res by (auto simp: limit_wrapper_def Let_def user[symmetric] ch)
  show ?thesis
  proof (cases ok)
    case True
    then show ?thesis using post(1,3) r by simp
  next
    case False
    have inv3: "rl_inv n3 (s1, granted)" using post(2) False by simp
    have "fst (fst (check_limit s1 user_id endpoint m1 m2 m3))"
      if m: "n3 + of_int retry + 1 / 1000 \<le> m1" "m1 \<le> m2" "m2 \<le> m3" "m3 \<le> 2 ^ 39" for m1 m2 m3
    proof -
      obtain ok' left' retry' s2 where ch': "check_limit s1 user_id endpoint m1 m2 m3 = ((ok', left', retry'), s2)"
        by (cases "check_limit s1 user_id endpoint m1 m2 m3") auto
      have le: "n3 \<le> m1" "clock m1" "clock m2" "clock m3"
        using m post(4)[OF False] n(5) by (auto simp: clock_def)
      show ?thesis
        using check_limit_post(1)[OF inv3 le(1) m(2,3) le(2-4) n(6) k c ch'] post(5)[OF False m(1) le(2)] ch' by simp
    qed
    then show ?thesis using post(1,4) False r by auto
  qed
qed

lemma demo_ops_full: "in_window 60 (snd (rl_run demo_ops) ''u1:admin'') 13 = 10"
  by code_simp

lemma demo_ops_next: "rl_session (demo_ops @ [CheckOp (Some ''u1'') ''admin'' 13 13 13])"
  using demo_ops_session by (simp add: rl_session_snoc clock_def) (simp add: demo_ops_def upto.simps)

theorem rejection_exact_and_retry_honest_witness:
  "\<exists>retry. fst (limit_wrapper (fst (rl_run demo_ops)) (Some (Some ''u1'')) ''admin'' 13 13 13 (\<lambda>_. 200 :: int))
       = RateLimited retry \<and> 1 \<le> retry \<and> retry \<le> 61"
proof -
  obtain r s' where res: "limit_wrapper (fst (rl_run demo_ops)) (Some (Some ''u1'')) ''admin'' 13 13 13 (\<lambda>_. 200 :: int) = (r, s')"
    by (cases "limit_wrapper (fst (rl_run demo_ops)) (Some (Some ''u1'')) ''admin'' 13 13 13 (\<lambda>_. 200 :: int)")
  show ?thesis
    using rejection_exact_and_retry_honest[OF demo_ops_next prod.collapse[symmetric] _ res refl refl] demo_ops_full
    by (auto simp: res user_of_def config_for_def DEFAULT_LIMITS_def get_default_def key_for_def)
qed

section \<open>Threads\<close>

text \<open>
  The bodies that hold the lock and change the store, each with the reading it made before it took the lock. Two bodies of one
  \<open>check\<close> may have bodies of other threads between them; the third body of a rejected \<open>check\<close> only reads.
\<close>

datatype rl_block = AllowBlock "string option" string rat | RemainBlock "string option" string rat | ResetBlock string

text \<open>
  Beside the store runs the log of what each key was granted: the grants since its last reset, and
  the grants between earlier resets. Nothing is ever taken out of it.
\<close>

record rl_shared =
  sh_store :: rl_store
  sh_current :: "string \<Rightarrow> rat list"
  sh_past :: "string \<Rightarrow> rat list list"

definition shared_start :: rl_shared where
  "shared_start = \<lparr>sh_store = [], sh_current = (\<lambda>_. []), sh_past = (\<lambda>_. [])\<rparr>"

fun block_step :: "rl_shared \<Rightarrow> rl_block \<Rightarrow> rl_shared" where
  "block_step sh (AllowBlock u e now) =
     (let k = key_for u e; c = config_for e;
          (ok, s) = is_allowed (sh_store sh) k (rl_requests c) (rl_window c) now
      in sh\<lparr>sh_store := s, sh_current := (if ok then (sh_current sh)(k := sh_current sh k @ [now]) else sh_current sh)\<rparr>)"
| "block_step sh (RemainBlock u e now) =
     (let c = config_for e in sh\<lparr>sh_store := snd (remaining (sh_store sh) (key_for u e) (rl_requests c) (rl_window c) now)\<rparr>)"
| "block_step sh (ResetBlock k) =
     sh\<lparr>sh_store := reset_key (sh_store sh) k, sh_current := (sh_current sh)(k := []),
        sh_past := (sh_past sh)(k := sh_current sh k # sh_past sh k)\<rparr>"

definition run_blocks :: "rl_block list \<Rightarrow> rl_shared" where
  "run_blocks bs = foldl block_step shared_start bs"

text \<open>A \<open>check\<close> that no other thread interrupts is its blocks one after the other.\<close>

lemma check_blocks:
  "sh_store (foldl block_step sh [AllowBlock u e n1, RemainBlock u e n2]) = snd (check_limit (sh_store sh) u e n1 n2 n3)
   \<and> fst (fst (check_limit (sh_store sh) u e n1 n2 n3))
       = fst (is_allowed (sh_store sh) (key_for u e) (rl_requests (config_for e)) (rl_window (config_for e)) n1)"
  by (auto simp: check_limit_def Let_def split: prod.splits)

fun block_reading :: "rl_block \<Rightarrow> rat list" where
  "block_reading (AllowBlock u e n) = [n]"
| "block_reading (RemainBlock u e n) = [n]"
| "block_reading (ResetBlock k) = []"

fun block_endpoint_ok :: "rl_block \<Rightarrow> bool" where
  "block_endpoint_ok (AllowBlock u e n) = (CHR '':'' \<notin> set e)"
| "block_endpoint_ok (RemainBlock u e n) = (CHR '':'' \<notin> set e)"
| "block_endpoint_ok (ResetBlock k) = True"

text \<open>No reading is more than \<open>d\<close> seconds older than one whose body took the lock before.\<close>

definition readings_within :: "rat \<Rightarrow> rl_block list \<Rightarrow> bool" where
  "readings_within d bs = sorted_wrt (\<lambda>earlier later. earlier \<le> later + d) (concat (map block_reading bs))"

text \<open>The grants of a log in the window that ends at \<open>n\<close>, shortened by \<open>d\<close> at its old end.\<close>

definition window_grants :: "rat \<Rightarrow> int \<Rightarrow> rat list \<Rightarrow> rat \<Rightarrow> nat" where
  "window_grants d w ts n = length (filter (\<lambda>t. fsub (n + d) (of_int w) < t \<and> t \<le> n) ts)"

lemma window_grants_in_order: "window_grants 0 w ts n = in_window w ts n"
  by (simp add: window_grants_def in_window_def)

text \<open>
  Whatever the readings so far, for a moment no earlier than all of them the store and the log agree on the window
  that ends there; and no log has a window over the limit.
\<close>

definition shared_inv :: "rat \<Rightarrow> rat list \<Rightarrow> rl_shared \<Rightarrow> bool" where
  "shared_inv d rs sh \<longleftrightarrow> (\<forall>k. let c = config_for (endpoint_of k) in
     (\<forall>x. (\<forall>r \<in> set rs. r \<le> x) \<longrightarrow> filter (\<lambda>t. fsub x (of_int (rl_window c)) < t) (stamps (sh_store sh) k)
        = filter (\<lambda>t. fsub x (of_int (rl_window c)) < t) (sh_current sh k))
     \<and> (\<forall>ts \<in> set (sh_current sh k # sh_past sh k). \<forall>n. int (window_grants d (rl_window c) ts n) \<le> rl_requests c))"

lemma shared_invD:
  assumes "shared_inv d rs sh"
  shows "(\<And>r. r \<in> set rs \<Longrightarrow> r \<le> x) \<Longrightarrow>
      filter (\<lambda>t. fsub x (of_int (rl_window (config_for (endpoint_of k)))) < t) (stamps (sh_store sh) k)
        = filter (\<lambda>t. fsub x (of_int (rl_window (config_for (endpoint_of k)))) < t) (sh_current sh k)"
    and "ts \<in> set (sh_current sh k # sh_past sh k) \<Longrightarrow>
      int (window_grants d (rl_window (config_for (endpoint_of k))) ts n) \<le> rl_requests (config_for (endpoint_of k))"
  using assms unfolding shared_inv_def Let_def by blast+

lemma shared_inv_prune:
  assumes "shared_inv d rs sh" "c = config_for (endpoint_of k)"
  shows "shared_inv d (rs @ [now]) (sh\<lparr>sh_store := prune (sh_store sh) k (fsub now (of_int (rl_window c)))\<rparr>)"
  unfolding shared_inv_def Let_def
proof (intro allI conjI impI ballI)
  fix k' x
  assume x: "\<forall>r \<in> set (rs @ [now]). r \<le> x"
  then have "fsub now (of_int (rl_window c)) \<le> fsub x (of_int (rl_window c))" by (intro fsub_mono) auto
  then show "filter (\<lambda>t. fsub x (of_int (rl_window (config_for (endpoint_of k')))) < t)
        (stamps (sh_store (sh\<lparr>sh_store := prune (sh_store sh) k (fsub now (of_int (rl_window c)))\<rparr>)) k')
      = filter (\<lambda>t. fsub x (of_int (rl_window (config_for (endpoint_of k')))) < t)
        (sh_current (sh\<lparr>sh_store := prune (sh_store sh) k (fsub now (of_int (rl_window c)))\<rparr>) k')"
    using shared_invD(1)[OF assms(1), of x k'] x
    by (cases "k' = k") (simp_all add: stamps_prune filter_cutoff assms(2) del: filter_filter)
qed (use shared_invD(2)[OF assms(1)] in simp)

lemma window_grants_snoc:
  "window_grants d w (ts @ [r]) n = window_grants d w ts n + (if fsub (n + d) (of_int w) < r \<and> r \<le> n then 1 else 0)"
  by (simp add: window_grants_def)

text \<open>A grant: the store held fewer than the limit after the prune.\<close>

lemma shared_inv_grant:
  assumes inv: "shared_inv d rs sh" and c: "c = config_for (endpoint_of k)"
    and late: "\<And>q. q \<in> set rs \<Longrightarrow> q \<le> r + d" and d: "0 \<le> d"
    and room: "int (length (filter (\<lambda>t. fsub r (of_int (rl_window c)) < t) (stamps (sh_store sh) k))) < rl_requests c"
    and n: "r \<le> n"
  shows "int (window_grants d (rl_window c) (sh_current sh k) n) < rl_requests c"
proof -
  let ?w = "of_int (rl_window c) :: rat" and ?S = "stamps (sh_store sh) k"
  have "fsub (r + d) ?w \<le> fsub (n + d) ?w" "fsub r ?w \<le> fsub (r + d) ?w" using n d by (auto intro: fsub_mono)
  then have "window_grants d (rl_window c) (sh_current sh k) n \<le> length (filter (\<lambda>t. fsub (r + d) ?w < t) (sh_current sh k))"
    unfolding window_grants_def by (intro length_filter_mono) auto
  also have "\<dots> = length (filter (\<lambda>t. fsub (r + d) ?w < t) ?S)"
    using shared_invD(1)[OF inv late, of k] c by simp
  also have "\<dots> \<le> length (filter (\<lambda>t. fsub r ?w < t) ?S)"
    using \<open>fsub r ?w \<le> fsub (r + d) ?w\<close> by (intro length_filter_mono) auto
  finally show ?thesis using room by linarith
qed

lemma block_step_inv:
  assumes inv: "shared_inv d rs sh" and d: "0 \<le> d" and ok: "block_endpoint_ok b"
    and late: "\<And>q r. q \<in> set rs \<Longrightarrow> r \<in> set (block_reading b) \<Longrightarrow> q \<le> r + d"
  shows "shared_inv d (rs @ block_reading b) (block_step sh b)"
proof (cases b)
  case (AllowBlock u e r)
  let ?k = "key_for u e" and ?c = "config_for e"
  have c: "?c = config_for (endpoint_of ?k)" using ok AllowBlock by (simp add: endpoint_of_key)
  let ?p = "prune (sh_store sh) ?k (fsub r (of_int (rl_window ?c)))"
  have p: "shared_inv d (rs @ [r]) (sh\<lparr>sh_store := ?p\<rparr>)" by (rule shared_inv_prune[OF inv c])
  show ?thesis
  proof (cases "rl_requests ?c \<le> int (length (stamps ?p ?k))")
    case True
    then show ?thesis using p AllowBlock by (simp add: is_allowed_def Let_def)
  next
    case False
    let ?sh = "sh\<lparr>sh_store := AList.update ?k (stamps ?p ?k @ [r]) ?p, sh_current := (sh_current sh)(?k := sh_current sh ?k @ [r])\<rparr>"
    have room: "int (length (filter (\<lambda>t. fsub r (of_int (rl_window ?c)) < t) (stamps (sh_store sh) ?k))) < rl_requests ?c"
      using False by (simp add: stamps_prune)
    have less: "int (window_grants d (rl_window ?c) (sh_current sh ?k) n) < rl_requests ?c" if "r \<le> n" for n
      using shared_inv_grant[OF inv c _ d room that] late AllowBlock by simp
    have "shared_inv d (rs @ [r]) ?sh"
      unfolding shared_inv_def Let_def
    proof (intro allI conjI impI ballI)
      fix k' x
      assume x: "\<forall>q \<in> set (rs @ [r]). q \<le> x"
      show "filter (\<lambda>t. fsub x (of_int (rl_window (config_for (endpoint_of k')))) < t) (stamps (sh_store ?sh) k')
          = filter (\<lambda>t. fsub x (of_int (rl_window (config_for (endpoint_of k')))) < t) (sh_current ?sh k')"
        using shared_invD(1)[OF p, of x k'] x by (cases "k' = ?k") (auto simp: stamps_update)
    next
      fix k' ts n
      assume ts: "ts \<in> set (sh_current ?sh k' # sh_past ?sh k')"
      show "int (window_grants d (rl_window (config_for (endpoint_of k'))) ts n) \<le> rl_requests (config_for (endpoint_of k'))"
      proof (cases "k' = ?k \<and> ts = sh_current sh ?k @ [r]")
        case True
        then show ?thesis
          using less[of n] shared_invD(2)[OF inv, of "sh_current sh ?k" ?k n] c by (auto simp: window_grants_snoc)
      next
        case False
        then have "ts \<in> set (sh_current sh k' # sh_past sh k')" using ts by (auto split: if_splits)
        then show ?thesis by (rule shared_invD(2)[OF inv])
      qed
    qed
    then show ?thesis using False AllowBlock by (simp add: is_allowed_def Let_def)
  qed
next
  case (RemainBlock u e r)
  have "config_for e = config_for (endpoint_of (key_for u e))" using ok RemainBlock by (simp add: endpoint_of_key)
  from shared_inv_prune[OF inv this] show ?thesis using RemainBlock by (simp add: remaining_def Let_def)
next
  case (ResetBlock k)
  have "0 \<le> rl_requests (config_for (endpoint_of k))" using config_for_pos[of "endpoint_of k"] by simp
  then have "window_grants d w [] n \<le> rl_requests (config_for (endpoint_of k))" for w n by (simp add: window_grants_def)
  then show ?thesis using inv ResetBlock unfolding shared_inv_def Let_def by (auto simp: stamps_reset)
qed

lemma run_blocks_inv:
  "0 \<le> d \<Longrightarrow> readings_within d bs \<Longrightarrow> list_all block_endpoint_ok bs \<Longrightarrow>
     shared_inv d (concat (map block_reading bs)) (run_blocks bs)"
proof (induction bs rule: rev_induct)
  case Nil
  have "0 \<le> rl_requests (config_for e)" for e using config_for_pos[of e] by simp
  then show ?case by (simp add: shared_inv_def shared_start_def run_blocks_def stamps_def get_default_def window_grants_def Let_def)
next
  case (snoc b bs)
  then have "shared_inv d (concat (map block_reading bs)) (run_blocks bs)"
    by (auto simp: readings_within_def sorted_wrt_append)
  from block_step_inv[OF this snoc.prems(1)] show ?case
    using snoc.prems(2,3) by (fastforce simp: readings_within_def sorted_wrt_append run_blocks_def)
qed

text \<open>
  C10: The limiter keeps an endpoint's limit in every window, with threads interleaved. The locked bodies of any number of
  checks (and resets) run in any order on an empty store, each with a reading of the clock made before it got the lock.
  When no reading is more than \<open>d\<close> seconds older than that of a body that got the lock earlier, then, for every
  user, endpoint and moment, the requests granted to the key between two of its resets (or since the last, or with no reset at
  all) whose readings fall into the window ending at that moment, less \<open>d\<close> seconds at its old end, number at most
  the endpoint's configured maximum. For readings in lock order \<open>d\<close> is 0 and the window is the full one. A reset of a
  key starts its count again.
\<close>

theorem rate_limit_window:
  assumes "0 \<le> d" "readings_within d bs" "list_all block_endpoint_ok bs" and "CHR '':'' \<notin> set endpoint"
    and "k = key_for user endpoint" and "granted \<in> set (sh_current (run_blocks bs) k # sh_past (run_blocks bs) k)"
  shows "int (window_grants d (rl_window (config_for endpoint)) granted n) \<le> rl_requests (config_for endpoint)"
  using shared_invD(2)[OF run_blocks_inv[OF assms(1-3)] assms(6)] assms(5) endpoint_of_key[OF assms(4)] by simp

text \<open>Eleven bodies of two users' checks, the readings a quarter of a second out of order; ten are of one user.\<close>

definition demo_blocks :: "rl_block list" where
  "demo_blocks = map (\<lambda>i. AllowBlock (Some ''u1'') ''admin'' (of_int i)) [1..10]
     @ [AllowBlock (Some ''u2'') ''admin'' (41 / 4), AllowBlock (Some ''u1'') ''admin'' 10]"

theorem rate_limit_window_witness:
  "int (window_grants (1 / 4) 60 (sh_current (run_blocks demo_blocks) ''u1:admin'') 12) \<le> 10"
proof -
  have "readings_within (1 / 4) demo_blocks"
    by (simp add: readings_within_def demo_blocks_def upto.simps)
  from rate_limit_window[OF _ this, of "''admin''" _ "Some ''u1''" _ 12] show ?thesis
    by (simp add: demo_blocks_def config_for_def DEFAULT_LIMITS_def get_default_def key_for_def list_all_iff)
qed

text \<open>
  The skew is real. With a limit of two: after two grants at 1.25 one thread reads 61.375 and another 61.125, and the first
  gets the lock first. Its prune drops the two old grants, so the second is granted as well, and three
  grants carry readings in the window of sixty seconds that ends at 61.125.
\<close>

lemma stale_reading_exceeds:
  "let (a, s1) = is_allowed [] ''u1:x'' 2 60 (5 / 4);
       (b, s2) = is_allowed s1 ''u1:x'' 2 60 (5 / 4);
       (c, s3) = is_allowed s2 ''u1:x'' 2 60 (491 / 8);
       (d, s4) = is_allowed s3 ''u1:x'' 2 60 (489 / 8)
   in a \<and> b \<and> c \<and> d \<and> in_window 60 [5 / 4, 5 / 4, 489 / 8] (489 / 8) = 3"
  by code_simp

end
