(* ===== verification/Cache.thy ===== *)
theory Cache
  imports PyFloat
begin

text \<open>
  \<^verbatim>\<open>app/infra/memory_cache.py\<close> and the memory mode of \<^verbatim>\<open>app/infra/kline_cache.py\<close> (no Redis
  client). An \<open>OrderedDict\<close> is the list of its entries, oldest first; \<open>time.time()\<close> is read once
  per operation and is an argument. Every operation holds the lock for its whole body. The payload of
  the K-line cache (a data frame serialised by pandas) is an argument, \<open>None\<close> where serialising raises.
\<close>

section \<open>The memory cache\<close>

record 'v mcache =
  mc_max :: int
  mc_ttl :: int
  mc_data :: "(string \<times> rat \<times> 'v) list"

datatype cache_error = MaxSizeNotPositive

definition mc_init :: "int \<Rightarrow> int \<Rightarrow> cache_error + 'v mcache" where
  "mc_init max_size ttl_seconds =
     check (\<not> max_size \<le> 0) MaxSizeNotPositive
       (Inr \<lparr>mc_max = max_size, mc_ttl = ttl_seconds, mc_data = []\<rparr>)"

definition move_to_end :: "string \<Rightarrow> (string \<times> 'a) list \<Rightarrow> (string \<times> 'a) list" where
  "move_to_end key d = (case map_of d key of None \<Rightarrow> d | Some x \<Rightarrow> AList.delete key d @ [(key, x)])"

definition mc_get :: "'v mcache \<Rightarrow> string \<Rightarrow> rat \<Rightarrow> 'v option \<times> 'v mcache" where
  "mc_get c key now =
     (case map_of (mc_data c) key of
        None \<Rightarrow> (None, c)
      | Some (expires_at, v) \<Rightarrow>
          if expires_at < now then (None, c\<lparr>mc_data := AList.delete key (mc_data c)\<rparr>)
          else (Some v, c\<lparr>mc_data := move_to_end key (mc_data c)\<rparr>))"

text \<open>\<open>while len(data) > max_size: data.popitem(last=False)\<close>; the maximum is positive.\<close>

fun evict :: "int \<Rightarrow> 'a list \<Rightarrow> 'a list" where
  "evict m [] = []"
| "evict m (x # xs) = (if m < int (length (x # xs)) then evict m xs else x # xs)"

definition mc_set :: "'v mcache \<Rightarrow> string \<Rightarrow> 'v \<Rightarrow> rat \<Rightarrow> 'v mcache" where
  "mc_set c key v now =
     (let d1 = if has_key (mc_data c) key then move_to_end key (mc_data c) else mc_data c;
          d2 = AList.update key (fadd now (of_int (mc_ttl c)), v) d1
      in c\<lparr>mc_data := evict (mc_max c) d2\<rparr>)"

definition mc_delete :: "'v mcache \<Rightarrow> string \<Rightarrow> bool \<times> 'v mcache" where
  "mc_delete c key =
     (if has_key (mc_data c) key then (True, c\<lparr>mc_data := AList.delete key (mc_data c)\<rparr>) else (False, c))"

definition mc_clear :: "'v mcache \<Rightarrow> 'v mcache" where
  "mc_clear c = c\<lparr>mc_data := []\<rparr>"

definition mc_keys :: "'v mcache \<Rightarrow> string list" where
  "mc_keys c = keys_of (mc_data c)"

definition mc_values :: "'v mcache \<Rightarrow> rat \<Rightarrow> 'v list" where
  "mc_values c now = map (snd \<circ> snd) (filter (\<lambda>(k, expires_at, v). now \<le> expires_at) (mc_data c))"

section \<open>Sessions and the abstract cache\<close>

text \<open>
  The abstract cache is a map without a capacity: the expiry and value of the last write of
  each key. Reads never change it.
\<close>

datatype 'v mc_op = MGet string rat | MSet string 'v rat | MDelete string | MClear

fun mc_exec :: "'v mcache \<Rightarrow> 'v mc_op \<Rightarrow> 'v mcache" where
  "mc_exec c (MGet k now) = snd (mc_get c k now)"
| "mc_exec c (MSet k v now) = mc_set c k v now"
| "mc_exec c (MDelete k) = snd (mc_delete c k)"
| "mc_exec c MClear = mc_clear c"

fun spec_exec :: "int \<Rightarrow> (string \<rightharpoonup> rat \<times> 'v) \<Rightarrow> 'v mc_op \<Rightarrow> (string \<rightharpoonup> rat \<times> 'v)" where
  "spec_exec ttl m (MGet k now) = m"
| "spec_exec ttl m (MSet k v now) = m(k \<mapsto> (fadd now (of_int ttl), v))"
| "spec_exec ttl m (MDelete k) = m(k := None)"
| "spec_exec ttl m MClear = Map.empty"

definition mc_ok :: "'v mcache \<Rightarrow> bool" where
  "mc_ok c = (0 < mc_max c \<and> distinct (mc_keys c) \<and> int (length (mc_data c)) \<le> mc_max c)"

section \<open>Lemmas\<close>

lemma evict_suffix: "\<exists>p. d = p @ evict m d"
proof (induction d)
  case (Cons x d)
  then obtain p where "d = p @ evict m d" by blast
  then have "x # d = (x # p) @ evict m d" by simp
  then show ?case by (cases "m < int (length (x # d))") (auto simp del: length_Cons intro: exI[of _ "x # p"] exI[of _ "[]"])
qed simp

lemma evict_length: "0 \<le> m \<Longrightarrow> int (length (evict m d)) \<le> m"
  by (induction d) auto

lemma evict_small: "int (length d) \<le> m \<Longrightarrow> evict m d = d"
  by (cases d) auto

lemma evict_keeps: "int (length r) \<le> m \<Longrightarrow> \<exists>p'. evict m (p @ r) = p' @ r"
proof (induction p)
  case Nil
  then show ?case by (auto simp: evict_small intro: exI[of _ "[]"])
next
  case (Cons x p)
  then show ?case by (cases "m < int (length (x # p @ r))") (auto intro: exI[of _ "x # p"])
qed

lemma set_evict: "set (evict m d) \<subseteq> set d"
  by (induction d) auto

lemma distinct_evict: "distinct (map fst d) \<Longrightarrow> distinct (map fst (evict m d))"
  using evict_suffix[of d m] by (metis distinct_append map_append)

lemma map_of_evict:
  assumes "distinct (map fst d)" "map_of (evict m d) k = Some x"
  shows "map_of d k = Some x"
  using assms set_evict[of m d] distinct_evict[OF assms(1), of m] by (auto simp: map_of_eq_Some_iff)

lemma map_of_move: "distinct (map fst d) \<Longrightarrow> map_of (move_to_end k d) k' = map_of d k'"
  by (auto simp: move_to_end_def map_add_def delete_conv' split: option.splits)

lemma move_to_end_append: "map_of d k = Some x \<Longrightarrow> move_to_end k d = AList.delete k d @ [(k, x)]"
  by (simp add: move_to_end_def)

lemma distinct_move: "distinct (map fst d) \<Longrightarrow> distinct (map fst (move_to_end k d))"
  using AList.delete_notin_dom[of k d] AList.distinct_delete[of d k] by (auto simp: move_to_end_def split: option.splits)

lemma length_delete: "map_of d k \<noteq> None \<Longrightarrow> length (AList.delete k d) < length d"
  by (auto simp: AList.delete_eq map_of_eq_None_iff intro!: length_filter_less)

lemma length_move: "length (move_to_end k d) \<le> length d"
  using length_delete[of d k] by (auto simp: move_to_end_def split: option.splits)

lemma update_last: "k \<notin> fst ` set e \<Longrightarrow> AList.update k y (e @ [(k, x)]) = e @ [(k, y)]"
  by (induction e) auto

lemma update_move:
  "AList.update k y (if has_key d k then move_to_end k d else d) = AList.delete k d @ [(k, y)]"
proof (cases "map_of d k")
  case None
  then have "k \<notin> fst ` set d" by (simp add: map_of_eq_None_iff)
  then show ?thesis using None by (simp add: has_key_iff update_fresh)
next
  case (Some x)
  then show ?thesis by (simp add: has_key_iff move_to_end_append update_last AList.delete_notin_dom)
qed

lemma mc_set_data:
  "mc_data (mc_set c k v now)
     = evict (mc_max c) (AList.delete k (mc_data c) @ [(k, fadd now (of_int (mc_ttl c)), v)])"
  by (simp add: mc_set_def Let_def update_move)

lemma mc_config [simp]:
  "mc_max (mc_exec c x) = mc_max c" "mc_ttl (mc_exec c x) = mc_ttl c"
  by (cases x; auto simp: mc_get_def mc_set_def mc_delete_def mc_clear_def Let_def split: option.splits)+

section \<open>Capacity and coherence\<close>

definition mc_refines :: "'v mcache \<Rightarrow> (string \<rightharpoonup> rat \<times> 'v) \<Rightarrow> bool" where
  "mc_refines c m = (mc_ok c \<and> map_of (mc_data c) \<subseteq>\<^sub>m m)"

lemma mc_ok_delete: "mc_ok c \<Longrightarrow> mc_ok (c\<lparr>mc_data := AList.delete k (mc_data c)\<rparr>)"
  using length_delete_le[of k "mc_data c"] AList.distinct_delete[of "mc_data c" k]
  by (auto simp: mc_ok_def mc_keys_def keys_of_def)

lemma mc_ok_move: "mc_ok c \<Longrightarrow> mc_ok (c\<lparr>mc_data := move_to_end k (mc_data c)\<rparr>)"
  using length_move[of k "mc_data c"] distinct_move[of "mc_data c" k]
  by (auto simp: mc_ok_def mc_keys_def keys_of_def)

lemma mc_set_eq:
  "mc_set c k v now = c\<lparr>mc_data := evict (mc_max c) (AList.delete k (mc_data c) @ [(k, fadd now (of_int (mc_ttl c)), v)])\<rparr>"
  by (simp add: mc_set_def Let_def update_move)

lemma distinct_requeue: "distinct (map fst d) \<Longrightarrow> distinct (map fst (AList.delete k d @ [(k, y)]))"
  using AList.distinct_delete[of d k] AList.delete_notin_dom[of k d] by simp

lemma mc_ok_set: "mc_ok c \<Longrightarrow> mc_ok (mc_set c k v now)"
  using evict_length[of "mc_max c"] distinct_evict[OF distinct_requeue]
  by (auto simp: mc_ok_def mc_keys_def keys_of_def mc_set_eq)

lemma map_of_requeue: "map_of (AList.delete k d @ [(k, y)]) = (map_of d)(k \<mapsto> y)"
  by (auto simp: map_add_def delete_conv' split: option.splits)

lemma mc_refines_exec:
  assumes "mc_refines c m"
  shows "mc_refines (mc_exec c x) (spec_exec (mc_ttl c) m x)"
proof (cases x)
  case (MGet k now)
  then show ?thesis using assms mc_ok_delete[of c k] mc_ok_move[of c k]
    by (auto simp: mc_refines_def mc_get_def map_le_def delete_conv' map_of_move mc_ok_def mc_keys_def keys_of_def
        split: option.splits)
next
  case (MSet k v now)
  let ?d = "AList.delete k (mc_data c) @ [(k, fadd now (of_int (mc_ttl c)), v)]"
  have "distinct (map fst (mc_data c))" using assms by (simp add: mc_refines_def mc_ok_def mc_keys_def keys_of_def)
  then have d: "distinct (map fst ?d)" by (rule distinct_requeue)
  have "map_of (evict (mc_max c) ?d) \<subseteq>\<^sub>m map_of ?d" using map_of_evict[OF d] by (auto simp: map_le_def dom_def)
  then have "map_of (evict (mc_max c) ?d) \<subseteq>\<^sub>m m(k \<mapsto> (fadd now (of_int (mc_ttl c)), v))"
    using assms unfolding map_of_requeue mc_refines_def by (blast intro: map_le_trans map_le_upd)
  then show ?thesis using assms mc_ok_set[of c k v now] MSet by (simp add: mc_refines_def mc_set_eq)
next
  case (MDelete k)
  then show ?thesis using assms mc_ok_delete[of c k]
    by (auto simp: mc_refines_def mc_delete_def map_le_def delete_conv' has_key_iff)
next
  case MClear
  then show ?thesis using assms by (simp add: mc_refines_def mc_clear_def mc_ok_def mc_keys_def keys_of_def)
qed

definition mc_run :: "'v mcache \<Rightarrow> 'v mc_op list \<Rightarrow> 'v mcache" where
  "mc_run c ops = foldl mc_exec c ops"

definition spec_run :: "int \<Rightarrow> 'v mc_op list \<Rightarrow> (string \<rightharpoonup> rat \<times> 'v)" where
  "spec_run ttl ops = foldl (spec_exec ttl) Map.empty ops"

lemma mc_run_snoc: "mc_run c (ops @ [x]) = mc_exec (mc_run c ops) x"
  by (simp add: mc_run_def)

lemma mc_run_ttl: "mc_ttl (mc_run c ops) = mc_ttl c" and mc_run_max: "mc_max (mc_run c ops) = mc_max c"
  by (induction ops rule: rev_induct) (simp_all add: mc_run_def)

lemma mc_run_refines:
  assumes "mc_init max_size ttl = Inr c"
  shows "mc_refines (mc_run c ops) (spec_run ttl ops)"
proof (induction ops rule: rev_induct)
  case Nil
  then show ?case using assms
    by (auto simp: mc_init_def mc_run_def spec_run_def mc_refines_def mc_ok_def mc_keys_def keys_of_def)
next
  case (snoc x ops)
  have "mc_ttl (mc_run c ops) = ttl" using assms by (auto simp: mc_run_ttl mc_init_def)
  then show ?case using mc_refines_exec[OF snoc, of x] by (simp add: mc_run_snoc spec_run_def)
qed

text \<open>
  C11: The in-memory cache never exceeds its capacity and never serves a stale value. After any
  sequence of reads, writes, deletions and clears on a fresh cache it holds at most
  \<open>max_size\<close> entries, one per key; a read that returns a value returns the one last written under that
  key, not deleted or cleared since, no later than its expiry; \<open>values()\<close> lists only such values.
\<close>

theorem memory_cache_coherent:
  assumes "mc_init max_size ttl = Inr c" and "c' = mc_run c ops"
  shows "int (length (mc_keys c')) \<le> max_size \<and> distinct (mc_keys c')
    \<and> (\<forall>key now v. fst (mc_get c' key now) = Some v \<longrightarrow> (\<exists>e. spec_run ttl ops key = Some (e, v) \<and> now \<le> e))
    \<and> (\<forall>now v. v \<in> set (mc_values c' now) \<longrightarrow> (\<exists>key e. spec_run ttl ops key = Some (e, v) \<and> now \<le> e))"
proof (intro conjI allI impI)
  have ref: "mc_refines c' (spec_run ttl ops)" using mc_run_refines[OF assms(1)] assms(2) by simp
  have "mc_max c' = max_size" using assms by (auto simp: mc_run_max mc_init_def)
  then show "int (length (mc_keys c')) \<le> max_size" "distinct (mc_keys c')"
    using ref by (auto simp: mc_refines_def mc_ok_def mc_keys_def keys_of_def)
  have le: "map_of (mc_data c') k = Some x \<Longrightarrow> spec_run ttl ops k = Some x" for k x
    using ref by (auto simp: mc_refines_def map_le_def dom_def)
  show "\<exists>e. spec_run ttl ops key = Some (e, v) \<and> now \<le> e" if "fst (mc_get c' key now) = Some v" for key now v
    using that le by (auto simp: mc_get_def split: option.splits if_splits)
  show "\<exists>key e. spec_run ttl ops key = Some (e, v) \<and> now \<le> e" if v: "v \<in> set (mc_values c' now)" for now v
  proof -
    obtain k e where "(k, e, v) \<in> set (mc_data c')" "now \<le> e" using v by (auto simp: mc_values_def)
    moreover have "distinct (map fst (mc_data c'))" using ref by (simp add: mc_refines_def mc_ok_def mc_keys_def keys_of_def)
    ultimately have "spec_run ttl ops k = Some (e, v)" using le by (simp add: map_of_eq_Some_iff)
    then show ?thesis using \<open>now \<le> e\<close> by blast
  qed
qed

lemma demo_cache_init: "mc_init 2 60 = Inr \<lparr>mc_max = 2, mc_ttl = 60, mc_data = [] :: (string \<times> rat \<times> int) list\<rparr>"
  by (simp add: mc_init_def)

theorem memory_cache_coherent_witness:
  "int (length (mc_keys (mc_run \<lparr>mc_max = 2, mc_ttl = 60, mc_data = []\<rparr>
      [MSet ''a'' (1 :: int) 0, MSet ''b'' 2 1, MGet ''a'' 2, MSet ''c'' 3 3]))) \<le> 2"
  using memory_cache_coherent[OF demo_cache_init refl] by blast

section \<open>Recency\<close>

text \<open>The entry of \<open>k\<close> is there and every entry after it belongs to \<open>T\<close>.\<close>

definition recent :: "string \<Rightarrow> 'a \<Rightarrow> string set \<Rightarrow> (string \<times> 'a) list \<Rightarrow> bool" where
  "recent k x T d = (\<exists>p q. d = p @ (k, x) # q \<and> fst ` set q \<subseteq> T)"

text \<open>What an operation touches, and the operations that leave the entry \<open>(e, v)\<close> of \<open>k\<close> alone.\<close>

fun touched :: "'v mc_op \<Rightarrow> string set" where
  "touched (MGet k now) = {k}"
| "touched (MSet k v now) = {k}"
| "touched (MDelete k) = {}"
| "touched MClear = {}"

fun leaves_alone :: "string \<Rightarrow> rat \<Rightarrow> 'v mc_op \<Rightarrow> bool" where
  "leaves_alone k e (MGet k' now) = (k' = k \<longrightarrow> now \<le> e)"
| "leaves_alone k e (MSet k' v now) = (k' \<noteq> k)"
| "leaves_alone k e (MDelete k') = (k' \<noteq> k)"
| "leaves_alone k e MClear = False"

lemma recent_end: "recent k x T (d @ [(k, x)])"
  unfolding recent_def by (rule exI[of _ d], rule exI[of _ "[]"]) simp

lemma recent_delete:
  assumes "recent k x T d" "k' \<noteq> k"
  shows "recent k x T (AList.delete k' d)"
proof -
  obtain p q where d: "d = p @ (k, x) # q" "fst ` set q \<subseteq> T" using assms(1) by (auto simp: recent_def)
  have "AList.delete k' d = AList.delete k' p @ (k, x) # AList.delete k' q"
    using assms(2) by (simp add: d(1) AList.delete_eq)
  then show ?thesis using d(2) dom_delete_subset[of k' q] unfolding recent_def by blast
qed

lemma recent_append:
  assumes "recent k x T d" "k' \<in> T"
  shows "recent k x T (d @ [(k', y)])"
proof -
  obtain p q where "d @ [(k', y)] = p @ (k, x) # (q @ [(k', y)])" "fst ` set (q @ [(k', y)]) \<subseteq> T"
    using assms by (auto simp: recent_def)
  then show ?thesis unfolding recent_def by blast
qed

lemma recent_map_of: "recent k x T d \<Longrightarrow> distinct (map fst d) \<Longrightarrow> map_of d k = Some x"
  by (auto simp: recent_def map_of_eq_Some_iff)

lemma recent_evict:
  assumes r: "recent k x T d" and "distinct (map fst d)" "finite T" "k \<notin> T" "int (card T) < m"
  shows "recent k x T (evict m d)"
proof -
  obtain p q where d: "d = p @ (k, x) # q" "fst ` set q \<subseteq> T" using r by (auto simp: recent_def)
  have "length q = card (fst ` set q)" using assms(2) d(1) distinct_card[of "map fst q"] by simp
  also have "\<dots> \<le> card T" using assms(3) d(2) by (intro card_mono) auto
  finally have "int (length ((k, x) # q)) \<le> m" using assms(5) by simp
  then obtain p' where "evict m d = p' @ (k, x) # q" using evict_keeps d(1) by blast
  then show ?thesis using d(2) by (auto simp: recent_def)
qed

lemma recent_exec:
  assumes r: "recent k (e, v) T (mc_data c)" and ok: "mc_ok c"
    and x: "leaves_alone k e x" "touched x - {k} \<subseteq> T"
    and T: "finite T" "k \<notin> T" "int (card T) < mc_max c"
  shows "recent k (e, v) T (mc_data (mc_exec c x))"
proof (cases x)
  case (MGet k' now)
  have d: "distinct (map fst (mc_data c))" using ok by (simp add: mc_ok_def mc_keys_def keys_of_def)
  show ?thesis
  proof (cases "k' = k")
    case True
    then show ?thesis using MGet x(1) recent_map_of[OF r d] by (simp add: mc_get_def move_to_end_append recent_end)
  next
    case False
    then have "k' \<in> T" using MGet x(2) by simp
    then show ?thesis using r recent_delete[OF r False] recent_append[OF recent_delete[OF r False]]
      by (auto simp: MGet mc_get_def move_to_end_append split: option.splits)
  qed
next
  case (MSet k' v' now)
  then have "k' \<noteq> k" "k' \<in> T" using x by auto
  moreover have "distinct (map fst (mc_data c))" using ok by (simp add: mc_ok_def mc_keys_def keys_of_def)
  ultimately show ?thesis
    using recent_evict[OF recent_append[OF recent_delete[OF r]] distinct_requeue T] MSet by (simp add: mc_set_eq)
next
  case (MDelete k')
  then show ?thesis using r x(1) recent_delete[OF r] by (auto simp: mc_delete_def)
next
  case MClear
  then show ?thesis using x(1) by simp
qed

lemma recent_set:
  assumes "mc_ok c"
  shows "recent k (fadd t (of_int (mc_ttl c)), v) T (mc_data (mc_set c k v t))"
proof -
  let ?y = "(fadd t (of_int (mc_ttl c)), v)"
  obtain p' where "evict (mc_max c) (AList.delete k (mc_data c) @ [(k, ?y)]) = p' @ [(k, ?y)]"
    using evict_keeps[of "[(k, ?y)]" "mc_max c" "AList.delete k (mc_data c)"] assms by (auto simp: mc_ok_def)
  then show ?thesis by (simp add: mc_set_eq recent_end)
qed

text \<open>
  The cache evicts in least-recently-used order. A value written under a key is still served,
  until its expiry, after any further operations that do not write, delete, clear or read the key
  past its expiry, as long as they touch fewer than \<open>max_size\<close> other keys.
\<close>

theorem lru_retention:
  assumes init: "mc_init max_size ttl = Inr c"
    and alone: "list_all (leaves_alone key (fadd t (of_int ttl))) post"
    and few: "int (card (\<Union> (set (map touched post)) - {key})) < max_size"
    and now: "now \<le> fadd t (of_int ttl)"
  shows "fst (mc_get (mc_run c (pre @ MSet key v t # post)) key now) = Some v"
proof -
  let ?T = "\<Union> (set (map touched post)) - {key}" and ?e = "fadd t (of_int ttl)"
  have fin: "finite ?T"
  proof -
    have "finite (touched x)" for x :: "'a mc_op" by (cases x) auto
    then show ?thesis by auto
  qed
  have c: "mc_max c = max_size" "mc_ttl c = ttl" using init by (auto simp: mc_init_def)
  have ok: "mc_ok (mc_run c ops)" for ops using mc_run_refines[OF init] by (auto simp: mc_refines_def)
  have "list_all (leaves_alone key ?e) qs \<Longrightarrow> (\<Union> (set (map touched qs)) - {key}) \<subseteq> ?T
      \<Longrightarrow> recent key (?e, v) ?T (mc_data (mc_run c (pre @ MSet key v t # qs)))" for qs
  proof (induction qs rule: rev_induct)
    case Nil
    then show ?case using recent_set[OF ok[of pre], of key t v] c mc_run_ttl[of c pre]
      by (simp add: mc_run_def)
  next
    case (snoc x qs)
    let ?c = "mc_run c (pre @ MSet key v t # qs)"
    have "recent key (?e, v) ?T (mc_data (mc_exec ?c x))"
      using snoc few by (intro recent_exec ok fin) (auto simp: mc_run_max c)
    then show ?case by (simp add: mc_run_def)
  qed
  then have "recent key (?e, v) ?T (mc_data (mc_run c (pre @ MSet key v t # post)))" using alone by simp
  then have "map_of (mc_data (mc_run c (pre @ MSet key v t # post))) key = Some (?e, v)"
    using ok by (intro recent_map_of) (auto simp: mc_ok_def mc_keys_def keys_of_def)
  then show ?thesis using now by (simp add: mc_get_def)
qed

theorem lru_retention_witness:
  "fst (mc_get (mc_run \<lparr>mc_max = 2, mc_ttl = 60, mc_data = []\<rparr>
      ([MSet ''a'' (1 :: int) 0, MSet ''b'' 2 1] @ MSet ''c'' 3 2 # [MSet ''a'' 4 3, MGet ''c'' 4])) ''c'' 50) = Some 3"
proof -
  have "fadd 2 (of_int 60) = 62" by code_simp
  then show ?thesis by (intro lru_retention[OF demo_cache_init]) auto
qed

section \<open>The store interface\<close>

text \<open>
  What the K-line cache relies on: a store it writes, reads at a moment, and deletes from, with
  the set of keys it holds. A write may drop other keys but never alters one; a read may drop the key
  it reads and reorders the rest.
\<close>

locale key_store =
  fixes good :: "'s \<Rightarrow> bool"
    and look :: "'s \<Rightarrow> string \<Rightarrow> rat \<Rightarrow> 'v option"
    and read :: "'s \<Rightarrow> string \<Rightarrow> rat \<Rightarrow> 's"
    and put :: "'s \<Rightarrow> string \<Rightarrow> 'v \<Rightarrow> rat \<Rightarrow> 's"
    and remove :: "'s \<Rightarrow> string \<Rightarrow> 's"
    and holds :: "'s \<Rightarrow> string set"
  assumes good_put: "good s \<Longrightarrow> good (put s k v t)"
    and good_read: "good s \<Longrightarrow> good (read s k t)"
    and good_remove: "good s \<Longrightarrow> good (remove s k)"
    and look_holds: "good s \<Longrightarrow> look s k t \<noteq> None \<Longrightarrow> k \<in> holds s"
    and holds_put: "good s \<Longrightarrow> holds (put s k v t) \<subseteq> insert k (holds s)"
    and holds_read: "good s \<Longrightarrow> holds (read s k t) \<subseteq> holds s"
    and holds_remove: "good s \<Longrightarrow> holds (remove s k) = holds s - {k}"
    and look_remove: "good s \<Longrightarrow> k' \<noteq> k \<Longrightarrow> look (remove s k) k' t = look s k' t"
begin

definition remove_all :: "'s \<Rightarrow> string list \<Rightarrow> 's" where
  "remove_all s ks = foldl remove s ks"

lemma good_remove_all: "good s \<Longrightarrow> good (remove_all s ks)"
  unfolding remove_all_def by (induction ks arbitrary: s) (auto intro: good_remove)

lemma holds_remove_all: "good s \<Longrightarrow> holds (remove_all s ks) = holds s - set ks"
  unfolding remove_all_def by (induction ks arbitrary: s) (auto simp: good_remove holds_remove)

lemma look_remove_all_gone: "good s \<Longrightarrow> k \<in> set ks \<Longrightarrow> look (remove_all s ks) k t = None"
  using look_holds[OF good_remove_all, of s ks k t] holds_remove_all[of s ks] by auto

lemma look_remove_all_other: "good s \<Longrightarrow> k \<notin> set ks \<Longrightarrow> look (remove_all s ks) k t = look s k t"
  unfolding remove_all_def by (induction ks arbitrary: s) (auto simp: good_remove look_remove)

end

definition mc_look :: "'v mcache \<Rightarrow> string \<Rightarrow> rat \<Rightarrow> 'v option" where
  "mc_look c k t = fst (mc_get c k t)"

definition mc_read :: "'v mcache \<Rightarrow> string \<Rightarrow> rat \<Rightarrow> 'v mcache" where
  "mc_read c k t = snd (mc_get c k t)"

definition mc_remove :: "'v mcache \<Rightarrow> string \<Rightarrow> 'v mcache" where
  "mc_remove c k = snd (mc_delete c k)"

definition mc_holds :: "'v mcache \<Rightarrow> string set" where
  "mc_holds c = set (mc_keys c)"

lemmas mc_store_defs = mc_look_def mc_read_def mc_remove_def mc_holds_def mc_get_def mc_delete_def mc_keys_def keys_of_def

lemma mc_exec_ok: "mc_ok c \<Longrightarrow> mc_ok (mc_exec c x)"
  using mc_refines_exec[of c "map_of (mc_data c)" x] by (simp add: mc_refines_def)

lemma mc_holds_dom: "mc_holds c = dom (map_of (mc_data c))"
  by (simp add: mc_holds_def mc_keys_def keys_of_def dom_map_of_conv_image_fst)

lemma mc_holds_exec: "mc_ok c \<Longrightarrow> mc_holds (mc_exec c x) \<subseteq> dom (spec_exec (mc_ttl c) (map_of (mc_data c)) x)"
  using mc_refines_exec[of c "map_of (mc_data c)" x] by (simp add: mc_refines_def mc_holds_dom map_le_implies_dom_le)

interpretation mem: key_store mc_ok mc_look mc_read mc_set mc_remove mc_holds
proof
  fix c :: "'v mcache" and k k' t v
  assume ok: "mc_ok c"
  show "mc_ok (mc_set c k v t)" using ok by (rule mc_ok_set)
  show "mc_ok (mc_read c k t)" using mc_exec_ok[OF ok, of "MGet k t"] by (simp add: mc_read_def)
  show "mc_ok (mc_remove c k)" using mc_exec_ok[OF ok, of "MDelete k"] by (simp add: mc_remove_def)
  show "k \<in> mc_holds c" if "mc_look c k t \<noteq> None"
    using that by (auto simp: mc_holds_dom mc_look_def mc_get_def split: option.splits)
  show "mc_holds (mc_set c k v t) \<subseteq> insert k (mc_holds c)"
    using mc_holds_exec[OF ok, of "MSet k v t"] by (simp add: mc_holds_dom)
  show "mc_holds (mc_read c k t) \<subseteq> mc_holds c"
    using mc_holds_exec[OF ok, of "MGet k t"] by (simp add: mc_holds_dom mc_read_def)
  show "mc_holds (mc_remove c k) = mc_holds c - {k}"
    by (auto simp: mc_remove_def mc_delete_def mc_holds_dom has_key_iff delete_conv')
  show "mc_look (mc_remove c k) k' t = mc_look c k' t" if "k' \<noteq> k"
    using that by (auto simp: mc_store_defs delete_conv' split: option.splits)
qed

section \<open>The K-line cache\<close>

record kline_meta =
  km_source :: string
  km_exchange :: string
  km_symbol :: string
  km_interval :: string
  km_fetched_at :: string
  km_latency_ms :: rat
  km_version :: string

record 'v kline_cache =
  kc_enabled :: bool
  kc_memory :: "'v mcache"
  kc_index :: "(string \<times> string list) list"

definition kc_init :: "bool \<Rightarrow> int option \<Rightarrow> int \<Rightarrow> cache_error + 'v kline_cache" where
  "kc_init enabled ttl_seconds env_ttl =
     (let ttl = (case ttl_seconds of Some t \<Rightarrow> if t \<noteq> 0 then t else env_ttl | None \<Rightarrow> env_ttl)
      in ebind (mc_init 256 ttl) (\<lambda>m. Inr \<lparr>kc_enabled = enabled, kc_memory = m, kc_index = []\<rparr>))"

definition params_key :: "kline_meta \<Rightarrow> string" where
  "params_key meta = km_exchange meta @ '':'' @ km_symbol meta @ '':'' @ km_interval meta"

definition kc_get :: "('v \<Rightarrow> 'd option) \<Rightarrow> 'v kline_cache \<Rightarrow> string \<Rightarrow> rat \<Rightarrow> 'd option \<times> 'v kline_cache" where
  "kc_get decode kc key now =
     (if \<not> kc_enabled kc then (None, kc)
      else case mc_get (kc_memory kc) key now of
             (None, m) \<Rightarrow> (None, kc\<lparr>kc_memory := m\<rparr>)
           | (Some payload, m) \<Rightarrow> (decode payload, kc\<lparr>kc_memory := m\<rparr>))"

definition kc_set :: "'v kline_cache \<Rightarrow> string \<Rightarrow> 'v option \<Rightarrow> kline_meta \<Rightarrow> rat \<Rightarrow> 'v kline_cache" where
  "kc_set kc key payload meta now =
     (if \<not> kc_enabled kc then kc
      else case payload of
             None \<Rightarrow> kc
           | Some v \<Rightarrow>
               let p = params_key meta; idx = kc_index kc;
                   idx1 = (if has_key idx p then idx else AList.update p [] idx)
               in kc\<lparr>kc_memory := mc_set (kc_memory kc) key v now,
                     kc_index := AList.update p (List.insert key (get_default idx1 p [])) idx1\<rparr>)"

text \<open>
  \<open>re.compile(pattern.replace("*", ".*").replace("?", ".")).search\<close> for patterns without regex
  metacharacters other than the dot: a dot and a question mark match any character but a newline,
  a star any run of them, and the search is not anchored.
\<close>

datatype glob_tok = GLit char | GAny | GStar

definition glob_token :: "char \<Rightarrow> glob_tok" where
  "glob_token c = (if c = CHR ''*'' then GStar else if c = CHR ''?'' \<or> c = CHR ''.'' then GAny else GLit c)"

fun match_here :: "glob_tok list \<Rightarrow> string \<Rightarrow> bool" where
  "match_here [] s = True"
| "match_here (GLit c # ts) [] = False"
| "match_here (GLit c # ts) (x # s) = (x = c \<and> match_here ts s)"
| "match_here (GAny # ts) [] = False"
| "match_here (GAny # ts) (x # s) = (x \<noteq> CHR 0x0A \<and> match_here ts s)"
| "match_here (GStar # ts) [] = match_here ts []"
| "match_here (GStar # ts) (x # s) = (match_here ts (x # s) \<or> (x \<noteq> CHR 0x0A \<and> match_here (GStar # ts) s))"

definition glob_search :: "string \<Rightarrow> string \<Rightarrow> bool" where
  "glob_search pattern s = list_ex (match_here (map glob_token pattern)) (suffixes s)"

definition kc_invalidate :: "'v kline_cache \<Rightarrow> string \<Rightarrow> int \<times> 'v kline_cache" where
  "kc_invalidate kc pattern =
     (if \<not> kc_enabled kc then (0, kc)
      else let keys_to_delete = foldl (\<lambda>acc p. if glob_search pattern p
                   then List.union (get_default (kc_index kc) p []) acc else acc) [] (keys_of (kc_index kc));
               memory = foldl (\<lambda>m key. snd (mc_delete m key)) (kc_memory kc) keys_to_delete;
               idx = filter (\<lambda>(p, ks). ks \<noteq> [])
                       (map (\<lambda>(p, ks). (p, filter (\<lambda>k. k \<notin> set keys_to_delete) ks)) (kc_index kc))
           in (int (length keys_to_delete), kc\<lparr>kc_memory := memory, kc_index := idx\<rparr>))"

datatype 'v kc_op = KGet string rat | KSet string "'v option" kline_meta rat | KInvalidate string

fun kc_exec :: "'v kline_cache \<Rightarrow> 'v kc_op \<Rightarrow> 'v kline_cache" where
  "kc_exec kc (KGet k now) = snd (kc_get (\<lambda>_. Some ()) kc k now)"
| "kc_exec kc (KSet k v meta now) = kc_set kc k v meta now"
| "kc_exec kc (KInvalidate pattern) = snd (kc_invalidate kc pattern)"

definition kc_run :: "'v kline_cache \<Rightarrow> 'v kc_op list \<Rightarrow> 'v kline_cache" where
  "kc_run kc ops = foldl kc_exec kc ops"

text \<open>The parameters each key was last written with, and all it was ever written with.\<close>

fun owner_exec :: "(string \<rightharpoonup> string) \<Rightarrow> 'v kc_op \<Rightarrow> (string \<rightharpoonup> string)" where
  "owner_exec m (KSet k (Some v) meta now) = m(k \<mapsto> params_key meta)"
| "owner_exec m x = m"

definition owner :: "'v kc_op list \<Rightarrow> string \<rightharpoonup> string" where
  "owner ops = foldl owner_exec Map.empty ops"

fun writes :: "'v kc_op \<Rightarrow> (string \<times> string) list" where
  "writes (KSet k (Some v) meta now) = [(k, params_key meta)]"
| "writes x = []"

definition index_at_params :: "'v kline_cache \<Rightarrow> string \<Rightarrow> string list" where
  "index_at_params kc p = get_default (kc_index kc) p []"

definition kc_inv :: "'v kc_op list \<Rightarrow> 'v kline_cache \<Rightarrow> bool" where
  "kc_inv ops kc = (mc_ok (kc_memory kc) \<and> distinct (map fst (kc_index kc))
     \<and> (\<forall>k \<in> mc_holds (kc_memory kc). \<exists>p. owner ops k = Some p \<and> k \<in> set (index_at_params kc p))
     \<and> (\<forall>p. \<forall>k \<in> set (index_at_params kc p). (k, p) \<in> set (concat (map writes ops))))"

lemma set_doomed:
  "set (foldl (\<lambda>acc p. if Q p then List.union (f p) acc else acc) acc ps) = set acc \<union> (\<Union>p \<in> {p \<in> set ps. Q p}. set (f p))"
  by (induction ps arbitrary: acc) auto

lemma distinct_doomed:
  "distinct acc \<Longrightarrow> distinct (foldl (\<lambda>acc p. if Q p then List.union (f p) acc else acc) acc ps)"
  by (induction ps arbitrary: acc) auto

lemma get_default_absent: "p \<notin> set (keys_of d) \<Longrightarrow> get_default d p x = x"
  by (simp add: get_default_def keys_of_def map_of_eq_None_iff[THEN iffD2] split: option.splits)

definition doomed :: "'v kline_cache \<Rightarrow> string \<Rightarrow> string list" where
  "doomed kc pattern = foldl (\<lambda>acc p. if glob_search pattern p
     then List.union (get_default (kc_index kc) p []) acc else acc) [] (keys_of (kc_index kc))"

lemma set_doomed_keys: "k \<in> set (doomed kc pattern) \<longleftrightarrow> (\<exists>p. glob_search pattern p \<and> k \<in> set (index_at_params kc p))"
proof -
  have "p \<in> set (keys_of (kc_index kc))" if "k \<in> set (index_at_params kc p)" for p
    using that get_default_absent[of p "kc_index kc" "[]"] by (cases "p \<in> set (keys_of (kc_index kc))") (auto simp: index_at_params_def)
  then show ?thesis unfolding doomed_def set_doomed index_at_params_def by auto
qed

lemma distinct_doomed_keys: "distinct (doomed kc pattern)"
  unfolding doomed_def by (rule distinct_doomed) simp

lemma remove_all_mem: "mem.remove_all m ks = foldl (\<lambda>m key. snd (mc_delete m key)) m ks"
  by (subst mem.remove_all_def, subst mc_remove_def[abs_def], rule refl)

lemma kc_invalidate_eq:
  "kc_enabled kc \<Longrightarrow> kc_invalidate kc pattern = (int (length (doomed kc pattern)),
     kc\<lparr>kc_memory := mem.remove_all (kc_memory kc) (doomed kc pattern),
        kc_index := filter (\<lambda>(p, ks). ks \<noteq> [])
          (map (\<lambda>(p, ks). (p, filter (\<lambda>k. k \<notin> set (doomed kc pattern)) ks)) (kc_index kc))\<rparr>)"
  unfolding kc_invalidate_def Let_def doomed_def[symmetric] remove_all_mem by simp

lemma get_default_Cons: "get_default ((p', x) # d) p y = (if p = p' then x else get_default d p y)"
  by (simp add: get_default_def)

lemma index_after_invalidate:
  assumes "distinct (map fst idx)"
  shows "set (get_default (filter (\<lambda>(p, ks). ks \<noteq> []) (map (\<lambda>(p, ks). (p, filter Q ks)) idx)) p [])
       = {k \<in> set (get_default idx p []). Q k}"
  using assms
proof (induction idx)
  case (Cons a idx)
  obtain p' ks where a: "a = (p', ks)" by (cases a)
  let ?f = "\<lambda>idx. filter (\<lambda>(p, ks). ks \<noteq> []) (map (\<lambda>(p, ks). (p, filter Q ks)) idx)"
  have no: "get_default (?f idx) p' [] = []"
    using Cons.prems a by (intro get_default_absent) (force simp: keys_of_def)
  have "?f (a # idx) = (if filter Q ks = [] then ?f idx else (p', filter Q ks) # ?f idx)" by (simp add: a)
  then show ?case using Cons no a by (cases "filter Q ks = []") (auto simp: get_default_Cons filter_empty_conv)
qed (simp add: get_default_def)

lemma kc_exec_enabled [simp]: "kc_enabled (kc_exec kc x) = kc_enabled kc"
  by (cases x) (auto simp: kc_get_def kc_set_def kc_invalidate_def Let_def split: option.splits prod.splits)

lemma kc_inv_exec:
  assumes inv: "kc_inv ops kc" and en: "kc_enabled kc"
  shows "kc_inv (ops @ [x]) (kc_exec kc x)"
proof -
  have ok: "mc_ok (kc_memory kc)" and dk: "distinct (map fst (kc_index kc))"
    and held: "\<And>k. k \<in> mc_holds (kc_memory kc) \<Longrightarrow> \<exists>p. owner ops k = Some p \<and> k \<in> set (index_at_params kc p)"
    and wr: "\<And>p k. k \<in> set (index_at_params kc p) \<Longrightarrow> (k, p) \<in> set (concat (map writes ops))"
    using inv by (auto simp: kc_inv_def)
  show ?thesis
  proof (cases x)
    case (KGet k now)
    have eq: "kc_exec kc x = kc\<lparr>kc_memory := mc_read (kc_memory kc) k now\<rparr>"
      by (cases "mc_get (kc_memory kc) k now") (auto simp: KGet kc_get_def en mc_read_def split: option.splits)
    show ?thesis using mem.good_read[OF ok] mem.holds_read[OF ok, of k now] dk held wr
      unfolding kc_inv_def eq by (auto simp: owner_def KGet index_at_params_def)
  next
    case (KSet k v meta now)
    show ?thesis
    proof (cases v)
      case None
      then have eq: "kc_exec kc x = kc" by (simp add: KSet kc_set_def)
      show ?thesis using ok dk held wr unfolding kc_inv_def eq by (auto simp: KSet None owner_def)
    next
      case (Some w)
      let ?p = "params_key meta"
      let ?idx = "if has_key (kc_index kc) ?p then kc_index kc else AList.update ?p [] (kc_index kc)"
      have eq: "kc_exec kc x = kc\<lparr>kc_memory := mc_set (kc_memory kc) k w now,
          kc_index := AList.update ?p (List.insert k (get_default ?idx ?p [])) ?idx\<rparr>"
        by (simp add: KSet Some kc_set_def en Let_def)
      have at: "set (index_at_params (kc_exec kc x) q)
          = (if q = ?p then insert k (set (index_at_params kc q)) else set (index_at_params kc q))" for q
        unfolding eq by (auto simp: index_at_params_def get_default_def update_conv' has_key_iff split: option.splits)
      have m: "kc_memory (kc_exec kc x) = mc_set (kc_memory kc) k w now" by (simp add: eq)
      have "distinct (map fst (kc_index (kc_exec kc x)))"
        using dk by (simp add: eq distinct_update)
      moreover have "\<exists>q. owner (ops @ [x]) k' = Some q \<and> k' \<in> set (index_at_params (kc_exec kc x) q)"
        if hk: "k' \<in> mc_holds (mc_set (kc_memory kc) k w now)" for k'
      proof (cases "k' = k")
        case False
        then obtain q where "owner ops k' = Some q" "k' \<in> set (index_at_params kc q)"
          using hk mem.holds_put[OF ok, of k w now] held[of k'] by blast
        then show ?thesis using False unfolding at by (intro exI[of _ q]) (auto simp: owner_def KSet Some)
      next
        case True
        then show ?thesis unfolding at by (intro exI[of _ ?p]) (simp add: owner_def KSet Some)
      qed
      moreover have "(k', q) \<in> set (concat (map writes (ops @ [x])))"
        if "k' \<in> set (index_at_params (kc_exec kc x) q)" for k' q
        using that wr[of k' q] unfolding at by (auto simp: KSet Some split: if_splits)
      ultimately show ?thesis using mem.good_put[OF ok] unfolding kc_inv_def m by blast
    qed
  next
    case (KInvalidate pattern)
    let ?d = "doomed kc pattern"
    have eq: "kc_exec kc x = kc\<lparr>kc_memory := mem.remove_all (kc_memory kc) ?d,
        kc_index := filter (\<lambda>(p, ks). ks \<noteq> []) (map (\<lambda>(p, ks). (p, filter (\<lambda>k. k \<notin> set ?d) ks)) (kc_index kc))\<rparr>"
      by (simp add: KInvalidate kc_invalidate_eq[OF en])
    have at: "set (index_at_params (kc_exec kc x) q) = set (index_at_params kc q) - set ?d" for q
      unfolding eq index_at_params_def by (auto simp: index_after_invalidate[OF dk])
    have m: "kc_memory (kc_exec kc x) = mem.remove_all (kc_memory kc) ?d" by (simp add: eq)
    have own: "owner (ops @ [x]) = owner ops" by (simp add: owner_def KInvalidate)
    have "map fst (map (\<lambda>(p, ks). (p, filter Q ks)) d) = map fst d" for Q :: "string \<Rightarrow> bool" and d
      by (induction d) auto
    then have fst: "distinct (map fst (map (\<lambda>(p, ks). (p, filter (\<lambda>k. k \<notin> set ?d) ks)) (kc_index kc)))"
      using dk by metis
    have idx: "kc_index (kc_exec kc x)
        = filter (\<lambda>(p, ks). ks \<noteq> []) (map (\<lambda>(p, ks). (p, filter (\<lambda>k. k \<notin> set ?d) ks)) (kc_index kc))"
      by (simp add: eq)
    have "distinct (map fst (kc_index (kc_exec kc x)))" unfolding idx using fst by (rule distinct_map_filter)
    then show ?thesis using mem.good_remove_all[OF ok] held wr
      unfolding kc_inv_def m own at mem.holds_remove_all[OF ok] by (auto simp: KInvalidate)
  qed
qed

lemma kc_run_inv:
  assumes "kc_init True ttl env_ttl = Inr kc"
  shows "kc_inv ops (kc_run kc ops) \<and> kc_enabled (kc_run kc ops)"
proof (induction ops rule: rev_induct)
  case Nil
  show ?case using assms
    by (auto simp: kc_init_def Let_def mc_init_def kc_run_def kc_inv_def mc_ok_def mc_holds_def mc_keys_def
        keys_of_def index_at_params_def get_default_def)
next
  case (snoc x ops)
  then show ?case using kc_inv_exec[of ops "kc_run kc ops" x] by (simp add: kc_run_def)
qed

text \<open>
  Invalidation by pattern is complete and touches nothing else. After any sequence of reads,
  writes and invalidations on an enabled cache, \<open>invalidate(pattern)\<close> leaves no entry whose last
  write was for parameters the pattern matches; a key never written for such parameters is looked
  up exactly as before; and the number returned is at least the number of entries that went.
\<close>

theorem kline_invalidate_complete:
  assumes init: "kc_init True ttl env_ttl = Inr kc0" and kc: "kc = kc_run kc0 ops"
    and iv: "kc_invalidate kc pattern = (n, kc')"
  shows "(\<forall>key p. owner ops key = Some p \<and> glob_search pattern p \<longrightarrow> fst (kc_get decode kc' key now) = None)
    \<and> (\<forall>key. (\<forall>p. (key, p) \<in> set (concat (map writes ops)) \<longrightarrow> \<not> glob_search pattern p)
         \<longrightarrow> fst (kc_get decode kc' key now) = fst (kc_get decode kc key now))
    \<and> int (card (mc_holds (kc_memory kc) - mc_holds (kc_memory kc'))) \<le> n"
proof -
  have inv: "kc_inv ops kc" and en: "kc_enabled kc" using kc_run_inv[OF init, of ops] kc by auto
  have ok: "mc_ok (kc_memory kc)" using inv by (simp add: kc_inv_def)
  let ?d = "doomed kc pattern"
  have eq: "kc_memory kc' = mem.remove_all (kc_memory kc) ?d" "n = int (length ?d)" "kc_enabled kc'"
    using iv kc_invalidate_eq[OF en, of pattern] en by auto
  have get: "fst (kc_get decode k key now) = Option.bind (mc_look (kc_memory k) key now) decode" if "kc_enabled k" for k key
    using that by (auto simp: kc_get_def mc_look_def split: option.splits prod.splits)
  have gone: "mc_look (kc_memory kc') key now = None" if "owner ops key = Some p" "glob_search pattern p" for key p
  proof (cases "key \<in> mc_holds (kc_memory kc)")
    case True
    then obtain q where "owner ops key = Some q" "key \<in> set (index_at_params kc q)"
      using inv unfolding kc_inv_def by blast
    then have "key \<in> set ?d" using that unfolding set_doomed_keys by auto
    then show ?thesis unfolding eq(1) by (rule mem.look_remove_all_gone[OF ok])
  next
    case False
    then have "key \<notin> mc_holds (kc_memory kc')" by (simp add: eq(1) mem.holds_remove_all[OF ok])
    then show ?thesis using mem.look_holds[OF mem.good_remove_all[OF ok]] eq(1) by metis
  qed
  have kept: "mc_look (kc_memory kc') key now = mc_look (kc_memory kc) key now"
    if "\<forall>p. (key, p) \<in> set (concat (map writes ops)) \<longrightarrow> \<not> glob_search pattern p" for key
  proof -
    have "key \<notin> set ?d" using inv that unfolding set_doomed_keys kc_inv_def by blast
    then show ?thesis unfolding eq(1) by (rule mem.look_remove_all_other[OF ok])
  qed
  have "card (mc_holds (kc_memory kc) - mc_holds (kc_memory kc')) \<le> card (set ?d)"
    by (intro card_mono) (auto simp: eq(1) mem.holds_remove_all[OF ok])
  also have "\<dots> = length ?d" by (rule distinct_card[OF distinct_doomed_keys])
  finally show ?thesis using gone kept eq(2,3) en by (simp add: get)
qed

definition demo_meta :: "string \<Rightarrow> kline_meta" where
  "demo_meta pair = \<lparr>km_source = ''ccxt'', km_exchange = ''okx'', km_symbol = pair, km_interval = ''15m'',
     km_fetched_at = ''t'', km_latency_ms = 0, km_version = ''v1''\<rparr>"

definition demo_kc :: "int kline_cache" where
  "demo_kc = \<lparr>kc_enabled = True, kc_memory = \<lparr>mc_max = 256, mc_ttl = 900, mc_data = []\<rparr>, kc_index = []\<rparr>"

lemma demo_kc_init: "kc_init True None 900 = Inr demo_kc"
  by (simp add: kc_init_def mc_init_def demo_kc_def)

theorem kline_invalidate_complete_witness:
  "fst (kc_get Some (snd (kc_invalidate (kc_run demo_kc [KSet ''k1'' (Some 7) (demo_meta ''BTCUSDT'') 0]) ''okx:BTC*''))
     ''k1'' 1) = None"
proof -
  let ?ops = "[KSet ''k1'' (Some 7) (demo_meta ''BTCUSDT'') 0]"
  have "glob_search ''okx:BTC*'' ''okx:BTCUSDT:15m''" by code_simp
  then show ?thesis
    using kline_invalidate_complete[OF demo_kc_init refl prod.collapse[symmetric], of ?ops "''okx:BTC*''" Some 1]
    by (simp add: owner_def demo_meta_def params_key_def)
qed

text \<open>
  The number returned counts index entries, not deletions: an entry that expired and was dropped by
  a read stays in the index and is counted. The search is not anchored, so a pattern for the
  one-minute interval also drops the fifteen-minute one.
\<close>

lemma invalidate_counts_expired:
  "fst (kc_invalidate (kc_run demo_kc [KSet ''k1'' (Some 7) (demo_meta ''BTCUSDT'') 0, KGet ''k1'' 1000]) ''*'') = 1
   \<and> mc_holds (kc_memory (kc_run demo_kc [KSet ''k1'' (Some 7) (demo_meta ''BTCUSDT'') 0, KGet ''k1'' 1000])) = {}"
  by code_simp

lemma invalidate_not_anchored: "glob_search ''okx:BTCUSDT:1'' ''okx:BTCUSDT:15m''"
  by code_simp

end
