(* ===== verification/OkxExec.thy ===== *)
theory OkxExec
  imports Promotion VibeStore
begin

text \<open>
  \<^verbatim>\<open>app/services/okx\<close>: the client of the order server (\<^verbatim>\<open>mcp_client.py\<close>), the audit log (\<^verbatim>\<open>audit.py\<close>) and the
  executor every order goes through (\<^verbatim>\<open>executor.py\<close>). The server is an argument: the reply to a request may
  depend on every request that reached it and on the new one, which a broken pipe keeps from reaching it. Times, the
  hash of a document and Python's text of a value that is no string are arguments, and the file system accepts the
  log's writes.
\<close>

section \<open>The audit log\<close>

definition AUDIT_REDACT_KEYS :: "string list" where
  "AUDIT_REDACT_KEYS = [''api_key'', ''secret_key'', ''passphrase'', ''apiKey'', ''secretKey'', ''password'', ''token'', ''secret'']"

fun redact_args :: "json \<Rightarrow> json" where
  "redact_args (JObj d) = JObj (map (\<lambda>kv. (fst kv, if fst kv \<in> set AUDIT_REDACT_KEYS then JStr ''***'' else redact_args (snd kv))) d)"
| "redact_args (JList xs) = JList (map redact_args xs)"
| "redact_args j = j"

record audit_record =
  au_ts :: int
  au_tool :: string
  au_args :: json
  au_result_code :: string
  au_body_hash :: string
  au_user :: string
  au_salt_version :: int
  au_paper :: bool
  au_cl_ord_id :: json
  au_latency_ms :: int
  au_trace_id :: json
  au_gate :: string
  au_gate_reason :: "exec_mode option"

text \<open>\<open>build_record\<close>; no caller passes a result body, so the hash is that of the gate and the code.\<close>

definition build_record ::
    "(json \<Rightarrow> string) \<Rightarrow> string \<Rightarrow> int \<Rightarrow> string \<Rightarrow> json \<Rightarrow> int \<Rightarrow> bool \<Rightarrow> string \<Rightarrow> string \<Rightarrow> int \<Rightarrow> json \<Rightarrow> json \<Rightarrow> json option \<Rightarrow> audit_record" where
  "build_record hash_of user now tool args salt_version paper gate result_code latency_ms trace_id cl_ord_id result_body =
     \<lparr>au_ts = now, au_tool = tool, au_args = redact_args args, au_result_code = result_code,
      au_body_hash = (case result_body of Some b \<Rightarrow> hash_of b
                      | None \<Rightarrow> hash_of (JObj [(''gate'', JStr gate), (''result_code'', JStr result_code)])),
      au_user = user, au_salt_version = salt_version, au_paper = paper, au_cl_ord_id = cl_ord_id,
      au_latency_ms = latency_ms, au_trace_id = trace_id, au_gate = gate, au_gate_reason = None\<rparr>"

section \<open>The client\<close>

definition MAX_OKX_WRITE_PER_GEN :: int where "MAX_OKX_WRITE_PER_GEN = 3"
definition RATE_LIMIT_CODE :: string where "RATE_LIMIT_CODE = ''50011''"

datatype wire_reply = Answer json | RpcError | NotObject | NotJson | Eof | NoAnswer | Broken

datatype okx_error =
    NotStarted | PipeBroken | CallTimeout | ServerClosed | NonJson | BadShape | RpcFailed | WriteCap
  | ApiError string json json

fun is_api_error :: "okx_error \<Rightarrow> bool" where
  "is_api_error (ApiError _ _ _) = True"
| "is_api_error _ = False"

record okx_client =
  oc_started :: bool
  oc_writes :: int
  oc_sent :: "(string \<times> json) list"

definition start_client :: okx_client where
  "start_client = \<lparr>oc_started = True, oc_writes = 0, oc_sent = []\<rparr>"

text \<open>A request over the pipe; a reply that is no object raises outside the client's own errors.\<close>

definition wire_call :: "((string \<times> json) list \<Rightarrow> wire_reply) \<Rightarrow> string \<Rightarrow> json \<Rightarrow> okx_client \<Rightarrow> (okx_error + json) \<times> okx_client" where
  "wire_call server name args c =
     (if \<not> oc_started c then (Inl NotStarted, c)
      else let c1 = c\<lparr>oc_sent := oc_sent c @ [(name, args)]\<rparr>
           in case server (oc_sent c1) of
                Broken \<Rightarrow> (Inl PipeBroken, c)
              | NoAnswer \<Rightarrow> (Inl CallTimeout, c1)
              | Eof \<Rightarrow> (Inl ServerClosed, c1)
              | NotJson \<Rightarrow> (Inl NonJson, c1)
              | NotObject \<Rightarrow> (Inl BadShape, c1)
              | RpcError \<Rightarrow> (Inl RpcFailed, c1)
              | Answer j \<Rightarrow> (Inr j, c1))"

definition close_client :: "okx_client \<Rightarrow> okx_client" where
  "close_client c = c\<lparr>oc_started := False\<rparr>"

definition reply_code :: "(json \<Rightarrow> string) \<Rightarrow> json \<Rightarrow> string" where
  "reply_code text_of j =
     (case j of JObj d \<Rightarrow> (case map_of d ''code'' of None \<Rightarrow> ''0'' | Some (JStr s) \<Rightarrow> s | Some v \<Rightarrow> text_of v) | _ \<Rightarrow> ''0'')"

record tool_result =
  tr_ok :: bool
  tr_data :: json
  tr_code :: string
  tr_trace :: json
  tr_latency :: int

text \<open>The rate-limit retry sends the same call again; the write was counted once.\<close>

definition judge_reply :: "(json \<Rightarrow> string) \<Rightarrow> int \<Rightarrow> json \<Rightarrow> okx_error + tool_result" where
  "judge_reply text_of latency j =
     (if reply_code text_of j \<noteq> ''0''
      then Inl (ApiError (reply_code text_of j) (if is_obj j then get_default (case j of JObj d \<Rightarrow> d | _ \<Rightarrow> []) ''msg'' (JStr ''unknown'') else JStr ''unknown'') (jget j ''traceId''))
      else Inr \<lparr>tr_ok = True, tr_data = j, tr_code = ''0'', tr_trace = jget j ''traceId'', tr_latency = latency\<rparr>)"

definition count_write :: "bool \<Rightarrow> okx_client \<Rightarrow> okx_error + okx_client" where
  "count_write is_write c =
     (if is_write then
        (if MAX_OKX_WRITE_PER_GEN \<le> oc_writes c then Inl WriteCap else Inr (c\<lparr>oc_writes := oc_writes c + 1\<rparr>))
      else Inr c)"

definition invoke_tool ::
    "(json \<Rightarrow> string) \<Rightarrow> ((string \<times> json) list \<Rightarrow> wire_reply) \<Rightarrow> int \<Rightarrow> string \<Rightarrow> json \<Rightarrow> bool \<Rightarrow> okx_client
     \<Rightarrow> (okx_error + tool_result) \<times> okx_client" where
  "invoke_tool text_of server latency name args is_write c =
     (case count_write is_write c of
        Inl e \<Rightarrow> (Inl e, c)
      | Inr c0 \<Rightarrow>
          (case wire_call server name args c0 of
             (Inl e, c1) \<Rightarrow> (Inl e, c1)
           | (Inr j, c1) \<Rightarrow>
               if reply_code text_of j = RATE_LIMIT_CODE then
                 (case wire_call server name args c1 of
                    (Inl e, c2) \<Rightarrow> (Inl e, c2)
                  | (Inr j2, c2) \<Rightarrow> (judge_reply text_of latency j2, c2))
               else (judge_reply text_of latency j, c1)))"

definition reset_gen_counter :: "okx_client \<Rightarrow> okx_client" where
  "reset_gen_counter c = c\<lparr>oc_writes := 0\<rparr>"

section \<open>The executor\<close>

record executor =
  ex_client :: okx_client
  ex_audit :: "audit_record list"
  ex_paper :: bool
  ex_allow_live :: bool

definition truthy_env :: "string \<Rightarrow> bool" where
  "truthy_env s = (lower s \<in> {''1'', ''true'', ''yes''})"

text \<open>\<open>paper\<close> explicit or from \<open>OKX_PAPER_MODE\<close>; live mode only from \<open>OKX_ALLOW_LIVE\<close>.\<close>

definition new_executor :: "okx_client \<Rightarrow> bool option \<Rightarrow> string option \<Rightarrow> string option \<Rightarrow> executor" where
  "new_executor c paper paper_env live_env =
     \<lparr>ex_client = c, ex_audit = [],
      ex_paper = (case paper of Some p \<Rightarrow> p | None \<Rightarrow> truthy_env (case paper_env of Some s \<Rightarrow> s | None \<Rightarrow> ''true'')),
      ex_allow_live = truthy_env (case live_env of Some s \<Rightarrow> s | None \<Rightarrow> [])\<rparr>"

record dispatch_ctx =
  dc_hash :: "json \<Rightarrow> string"
  dc_text :: "json \<Rightarrow> string"
  dc_server :: "(string \<times> json) list \<Rightarrow> wire_reply"
  dc_user :: string

record dispatch_result =
  dr_tool :: string
  dr_paper :: bool
  dr_record :: audit_record
  dr_data :: "json option"
  dr_gate_passed :: bool

definition log_record :: "audit_record \<Rightarrow> executor \<Rightarrow> executor" where
  "log_record r e = e\<lparr>ex_audit := ex_audit e @ [r]\<rparr>"

text \<open>A rejection before the server: one record, nothing sent.\<close>

definition reject ::
    "dispatch_ctx \<Rightarrow> int \<Rightarrow> string \<Rightarrow> json \<Rightarrow> int \<Rightarrow> bool \<Rightarrow> string \<Rightarrow> exec_mode option \<Rightarrow> executor \<Rightarrow> (okx_error + dispatch_result) \<times> executor" where
  "reject cx now tool args salt paper gate reason e =
     (let r = (build_record (dc_hash cx) (dc_user cx) now tool args salt paper gate ''REJECTED'' 0 JNull (jget args ''clOrdId'') None)
                \<lparr>au_gate_reason := reason\<rparr>
      in (Inr \<lparr>dr_tool = tool, dr_paper = paper, dr_record = r, dr_data = None, dr_gate_passed = False\<rparr>, log_record r e))"

definition dispatch ::
    "dispatch_ctx \<Rightarrow> int \<Rightarrow> int \<Rightarrow> string \<Rightarrow> json \<Rightarrow> int \<Rightarrow> executor \<Rightarrow> (okx_error + dispatch_result) \<times> executor" where
  "dispatch cx now latency tool args salt e =
     (if \<not> is_live_execution_tool tool then reject cx now tool args salt (ex_paper e) ''gate1_unknown_tool'' None e
      else if \<not> ex_paper e \<and> \<not> ex_allow_live e then reject cx now tool args salt False ''gate2_no_allow_live'' None e
      else case execution_allowed_for_tools [tool] (ex_paper e) of
        (False, reason) \<Rightarrow> reject cx now tool args salt (ex_paper e) ''gate3_tool_blocked'' (Some reason) e
      | (True, _) \<Rightarrow>
          (case invoke_tool (dc_text cx) (dc_server cx) latency tool args True (ex_client e) of
             (Inr res, c) \<Rightarrow>
               (let r = build_record (dc_hash cx) (dc_user cx) now tool args salt (ex_paper e) ''dispatched'' (tr_code res)
                          (tr_latency res) (tr_trace res) (jget args ''clOrdId'') None
                in (Inr \<lparr>dr_tool = tool, dr_paper = ex_paper e, dr_record = r, dr_data = Some (tr_data res), dr_gate_passed = True\<rparr>,
                    log_record r (e\<lparr>ex_client := c\<rparr>)))
           | (Inl err, c) \<Rightarrow>
               (case err of
                  ApiError code msg trace \<Rightarrow>
                    (Inl err, log_record (build_record (dc_hash cx) (dc_user cx) now tool args salt (ex_paper e) ''dispatched_api_error''
                                code 0 trace (jget args ''clOrdId'') None) (e\<lparr>ex_client := c\<rparr>))
                | _ \<Rightarrow> (Inl err, e\<lparr>ex_client := c\<rparr>))))"

text \<open>A session of the loop: orders, new generations, and the end of the client.\<close>

datatype okx_event = Order int int string json int | NewGeneration | CloseClient

fun okx_step :: "dispatch_ctx \<Rightarrow> okx_event \<Rightarrow> executor \<Rightarrow> executor" where
  "okx_step cx (Order now latency tool args salt) e = snd (dispatch cx now latency tool args salt e)"
| "okx_step cx NewGeneration e = e\<lparr>ex_client := reset_gen_counter (ex_client e)\<rparr>"
| "okx_step cx CloseClient e = e\<lparr>ex_client := close_client (ex_client e)\<rparr>"

definition okx_run :: "dispatch_ctx \<Rightarrow> okx_event list \<Rightarrow> executor \<Rightarrow> executor" where
  "okx_run cx evs e = fold (okx_step cx) evs e"

section \<open>No secret reaches the logged arguments\<close>

text \<open>
  No key of the list has its value, at any depth. Only \<open>au_args\<close> is redacted: the client order id and the server's trace id are stored as
  they came, and a secret under a key that is not in the list stays.
\<close>

fun secret_free :: "json \<Rightarrow> bool" where
  "secret_free (JObj d) = list_all (\<lambda>kv. if fst kv \<in> set AUDIT_REDACT_KEYS then snd kv = JStr ''***'' else secret_free (snd kv)) d"
| "secret_free (JList xs) = list_all secret_free xs"
| "secret_free j = True"

lemma redact_secret_free: "secret_free (redact_args j)"
  by (induction j rule: redact_args.induct) (auto simp: list_all_iff)

lemma redact_id: "secret_free j \<Longrightarrow> redact_args j = j"
  by (induction j rule: secret_free.induct) (auto simp: list_all_iff intro!: map_idI split: if_splits)

lemma record_args [simp]:
  "au_args (build_record h u now t a s p g rc l tr cl b) = redact_args a" "au_tool (build_record h u now t a s p g rc l tr cl b) = t"
  "au_gate (build_record h u now t a s p g rc l tr cl b) = g" "au_result_code (build_record h u now t a s p g rc l tr cl b) = rc"
  by (simp_all add: build_record_def)

section \<open>What an order does to the client\<close>

lemma wire_call_client:
  assumes "wire_call server name args c = (r, c')"
  shows "oc_writes c' = oc_writes c" and "oc_sent c' = oc_sent c \<or> oc_sent c' = oc_sent c @ [(name, args)]"
  using assms by (auto simp: wire_call_def Let_def split: if_splits wire_reply.splits)

text \<open>One write sends at most two requests and is counted once; a refused one sends none.\<close>

lemma invoke_write:
  assumes "invoke_tool text_of server latency name args True c = (r, c')"
  shows "oc_writes c' = oc_writes c \<and> oc_sent c' = oc_sent c \<and> r = Inl WriteCap \<and> 3 \<le> oc_writes c
    \<or> oc_writes c' = oc_writes c + 1 \<and> oc_writes c < 3
      \<and> (\<exists>k \<le> 2. oc_sent c' = oc_sent c @ replicate k (name, args))"
proof (cases "3 \<le> oc_writes c")
  case True
  then show ?thesis using assms by (simp add: invoke_tool_def count_write_def MAX_OKX_WRITE_PER_GEN_def)
next
  case False
  define c0 where "c0 = c\<lparr>oc_writes := oc_writes c + 1\<rparr>"
  have cw: "count_write True c = Inr c0" using False by (simp add: count_write_def MAX_OKX_WRITE_PER_GEN_def c0_def)
  obtain r1 c1 where w1: "wire_call server name args c0 = (r1, c1)" by (meson surj_pair)
  obtain r2 c2 where w2: "wire_call server name args c1 = (r2, c2)" by (meson surj_pair)
  have c': "c' = c1 \<or> c' = c2"
    using assms by (auto simp: invoke_tool_def cw w1 w2 split: sum.splits if_splits)
  note f1 = wire_call_client[OF w1] and f2 = wire_call_client[OF w2]
  have k1: "\<exists>k \<le> 1. oc_sent c1 = oc_sent c @ replicate k (name, args)"
    using f1(2) by (auto simp: c0_def intro: exI[of _ 0] exI[of _ 1])
  then have "\<exists>k \<le> 2. oc_sent c1 = oc_sent c @ replicate k (name, args)" by fastforce
  moreover have "\<exists>k \<le> 2. oc_sent c2 = oc_sent c @ replicate k (name, args)"
  proof -
    obtain k where k: "k \<le> 1" "oc_sent c1 = oc_sent c @ replicate k (name, args)" using k1 by blast
    show ?thesis using f2(2)
    proof
      assume "oc_sent c2 = oc_sent c1 @ [(name, args)]"
      then have "oc_sent c2 = oc_sent c @ replicate (Suc k) (name, args)" using k by (simp add: replicate_append_same)
      then show ?thesis using k(1) by (intro exI[of _ "Suc k"]) simp
    qed (use k in \<open>auto intro: exI[of _ k]\<close>)
  qed
  ultimately show ?thesis using c' f1(1) f2(1) False by (auto simp: c0_def)
qed

lemma reject_simps [simp]:
  "ex_client (snd (reject cx now t a s p g reason e)) = ex_client e" "ex_paper (snd (reject cx now t a s p g reason e)) = ex_paper e"
  "ex_allow_live (snd (reject cx now t a s p g reason e)) = ex_allow_live e"
  by (simp_all add: reject_def log_record_def Let_def)

lemma reject_result:
  "\<exists>r. ex_audit (snd (reject cx now t a s p g reason e)) = ex_audit e @ [r] \<and> au_tool r = t \<and> au_args r = redact_args a"
  "\<exists>v. fst (reject cx now t a s p g reason e) = Inr v \<and> \<not> dr_gate_passed v"
  by (simp_all add: reject_def log_record_def Let_def)

lemma tools_allowed: "fst (execution_allowed_for_tools [tool] paper) = True"
  by (simp add: execution_allowed_for_tools_def Let_def)

text \<open>The three ways out of \<open>dispatch\<close>: rejected, refused or broken on the way, or dispatched.\<close>

lemma dispatch_outcome:
  assumes d: "dispatch cx now latency tool args salt e = (res, e')"
  shows "ex_paper e' = ex_paper e \<and> ex_allow_live e' = ex_allow_live e
    \<and> (if is_live_execution_tool tool \<and> (ex_paper e \<or> ex_allow_live e)
       then \<exists>r. invoke_tool (dc_text cx) (dc_server cx) latency tool args True (ex_client e) = (r, ex_client e')
            \<and> (case r of Inl err \<Rightarrow> res = Inl err | Inr v \<Rightarrow> \<exists>w. res = Inr w \<and> dr_gate_passed w)
       else ex_client e' = ex_client e \<and> (\<exists>v. res = Inr v \<and> \<not> dr_gate_passed v))
    \<and> (if \<exists>err. res = Inl err \<and> \<not> is_api_error err then ex_audit e' = ex_audit e
       else \<exists>a. ex_audit e' = ex_audit e @ [a] \<and> au_tool a = tool \<and> au_args a = redact_args args)"
proof (cases "is_live_execution_tool tool \<and> (ex_paper e \<or> ex_allow_live e)")
  case True
  obtain mode where m: "execution_allowed_for_tools [tool] (ex_paper e) = (True, mode)"
    using tools_allowed[of tool "ex_paper e"] by (metis prod.collapse)
  obtain r c where i: "invoke_tool (dc_text cx) (dc_server cx) latency tool args True (ex_client e) = (r, c)" by (meson surj_pair)
  have run: "dispatch cx now latency tool args salt e =
      (case (r, c) of (Inr v, c) \<Rightarrow>
          (let a = build_record (dc_hash cx) (dc_user cx) now tool args salt (ex_paper e) ''dispatched'' (tr_code v)
                     (tr_latency v) (tr_trace v) (jget args ''clOrdId'') None
           in (Inr \<lparr>dr_tool = tool, dr_paper = ex_paper e, dr_record = a, dr_data = Some (tr_data v), dr_gate_passed = True\<rparr>,
               log_record a (e\<lparr>ex_client := c\<rparr>)))
        | (Inl err, c) \<Rightarrow>
            (case err of
               ApiError code msg trace \<Rightarrow>
                 (Inl err, log_record (build_record (dc_hash cx) (dc_user cx) now tool args salt (ex_paper e) ''dispatched_api_error''
                             code 0 trace (jget args ''clOrdId'') None) (e\<lparr>ex_client := c\<rparr>))
             | _ \<Rightarrow> (Inl err, e\<lparr>ex_client := c\<rparr>)))"
  proof -
    have t: "is_live_execution_tool tool = True" "(\<not> ex_paper e \<and> \<not> ex_allow_live e) = False" using True by simp_all
    show ?thesis unfolding dispatch_def m i t not_True_eq_False if_False prod.case bool.case ..
  qed
  show ?thesis
  proof (cases r)
    case (Inr v)
    then show ?thesis using d run i True by (auto simp: log_record_def Let_def)
  next
    case (Inl err)
    then show ?thesis using d run i True by (cases err) (auto simp: log_record_def)
  qed
next
  case False
  obtain g p where "dispatch cx now latency tool args salt e = reject cx now tool args salt p g None e"
  proof (cases "is_live_execution_tool tool")
    case True
    then have "dispatch cx now latency tool args salt e = reject cx now tool args salt False ''gate2_no_allow_live'' None e"
      using False by (simp add: dispatch_def)
    then show thesis by (rule that)
  next
    case nolive: False
    then have "dispatch cx now latency tool args salt e = reject cx now tool args salt (ex_paper e) ''gate1_unknown_tool'' None e"
      by (simp add: dispatch_def)
    then show thesis by (rule that)
  qed
  then have e': "e' = snd (reject cx now tool args salt p g None e)" and r: "res = fst (reject cx now tool args salt p g None e)"
    using d by (metis fst_conv snd_conv)+
  obtain a where a: "ex_audit e' = ex_audit e @ [a]" "au_tool a = tool" "au_args a = redact_args args"
    using reject_result(1) unfolding e' by blast
  obtain v where v: "res = Inr v" "\<not> dr_gate_passed v" using reject_result(2) unfolding r by blast
  have same: "ex_client e' = ex_client e" "ex_paper e' = ex_paper e" "ex_allow_live e' = ex_allow_live e" unfolding e' by simp_all
  show ?thesis unfolding if_not_P[OF False] using a v same by simp
qed

section \<open>Sessions\<close>

fun orders :: "okx_event list \<Rightarrow> nat" where
  "orders [] = 0"
| "orders (Order now latency tool args salt # evs) = Suc (orders evs)"
| "orders (_ # evs) = orders evs"

definition okx_ok :: "bool \<times> bool \<Rightarrow> nat \<Rightarrow> executor \<Rightarrow> bool" where
  "okx_ok mode n e \<longleftrightarrow>
     list_all (\<lambda>ta. is_live_execution_tool (fst ta)) (oc_sent (ex_client e))
     \<and> (ex_paper e \<or> ex_allow_live e \<or> oc_sent (ex_client e) = [])
     \<and> 0 \<le> oc_writes (ex_client e) \<and> oc_writes (ex_client e) \<le> 3
     \<and> length (ex_audit e) \<le> n \<and> list_all (\<lambda>a. secret_free (au_args a)) (ex_audit e)
     \<and> (ex_paper e, ex_allow_live e) = mode"

lemma okx_order_ok:
  assumes ok: "okx_ok mode n e" and d: "dispatch cx now latency tool args salt e = (res, e')"
  shows "okx_ok mode (Suc n) e'"
proof -
  note o1 = dispatch_outcome[OF d]
  have audit: "length (ex_audit e') \<le> Suc n \<and> list_all (\<lambda>a. secret_free (au_args a)) (ex_audit e')"
    using o1 ok by (auto simp: okx_ok_def redact_secret_free split: if_splits)
  have mode: "ex_paper e' = ex_paper e" "ex_allow_live e' = ex_allow_live e" using o1 by blast+
  show ?thesis
  proof (cases "is_live_execution_tool tool \<and> (ex_paper e \<or> ex_allow_live e)")
    case True
    then obtain r where i: "invoke_tool (dc_text cx) (dc_server cx) latency tool args True (ex_client e) = (r, ex_client e')"
      using o1 by auto
    show ?thesis using invoke_write[OF i] ok audit mode True by (auto simp: okx_ok_def list_all_iff)
  next
    case False
    then have "ex_client e' = ex_client e" using o1 by auto
    then show ?thesis using ok audit mode by (simp add: okx_ok_def)
  qed
qed

lemma okx_step_ok: "okx_ok mode n e \<Longrightarrow> okx_ok mode (n + orders [ev]) (okx_step cx ev e)"
proof (cases ev)
  case (Order now latency tool args salt)
  assume ok: "okx_ok mode n e"
  obtain res e' where "dispatch cx now latency tool args salt e = (res, e')" by (meson surj_pair)
  then show ?thesis using okx_order_ok[OF ok] Order by simp
next
  case NewGeneration
  assume "okx_ok mode n e"
  then show ?thesis using NewGeneration by (auto simp: okx_ok_def reset_gen_counter_def)
next
  case CloseClient
  assume "okx_ok mode n e"
  then show ?thesis using CloseClient by (auto simp: okx_ok_def close_client_def)
qed

lemma okx_run_simps [simp]:
  "okx_run cx [] e = e" "okx_run cx (ev # evs) e = okx_run cx evs (okx_step cx ev e)"
  "okx_run cx (evs @ evs') e = okx_run cx evs' (okx_run cx evs e)"
  by (simp_all add: okx_run_def)

lemma okx_run_ok: "okx_ok mode n e \<Longrightarrow> okx_ok mode (n + orders evs) (okx_run cx evs e)"
proof (induction evs arbitrary: e n)
  case (Cons ev evs)
  have "okx_ok mode (n + orders [ev] + orders evs) (okx_run cx evs (okx_step cx ev e))"
    by (rule Cons.IH) (rule okx_step_ok[OF Cons.prems])
  then show ?case by (cases ev) simp_all
qed simp

lemma orders_append [simp]: "orders (evs @ evs') = orders evs + orders evs'"
  by (induction evs rule: orders.induct) simp_all

text \<open>Within a generation every request is paid for by the write counter, two at most for each write counted.\<close>

lemma okx_step_sent:
  assumes "ev \<noteq> NewGeneration"
  shows "\<exists>new. oc_sent (ex_client (okx_step cx ev e)) = oc_sent (ex_client e) @ new
    \<and> int (length new) \<le> 2 * (oc_writes (ex_client (okx_step cx ev e)) - oc_writes (ex_client e))"
proof (cases ev)
  case (Order now latency tool args salt)
  obtain res e' where d: "dispatch cx now latency tool args salt e = (res, e')" by (meson surj_pair)
  note out = dispatch_outcome[OF d]
  show ?thesis
  proof (cases "is_live_execution_tool tool \<and> (ex_paper e \<or> ex_allow_live e)")
    case True
    then obtain r where i: "invoke_tool (dc_text cx) (dc_server cx) latency tool args True (ex_client e) = (r, ex_client e')"
      using out by auto
    show ?thesis using invoke_write[OF i] Order d by auto
  next
    case False
    then have "ex_client e' = ex_client e" using out by auto
    then show ?thesis using Order d by simp
  qed
qed (use assms in \<open>simp_all add: close_client_def\<close>)

lemma okx_generation_sent:
  "list_all (\<lambda>ev. ev \<noteq> NewGeneration) evs \<Longrightarrow> \<exists>new. oc_sent (ex_client (okx_run cx evs e)) = oc_sent (ex_client e) @ new
    \<and> int (length new) \<le> 2 * (oc_writes (ex_client (okx_run cx evs e)) - oc_writes (ex_client e))"
proof (induction evs arbitrary: e)
  case (Cons ev evs)
  obtain new where new: "oc_sent (ex_client (okx_step cx ev e)) = oc_sent (ex_client e) @ new"
      "int (length new) \<le> 2 * (oc_writes (ex_client (okx_step cx ev e)) - oc_writes (ex_client e))"
    using okx_step_sent[of ev cx e] Cons.prems by auto
  obtain rest where rest: "oc_sent (ex_client (okx_run cx evs (okx_step cx ev e))) = oc_sent (ex_client (okx_step cx ev e)) @ rest"
      "int (length rest) \<le> 2 * (oc_writes (ex_client (okx_run cx evs (okx_step cx ev e))) - oc_writes (ex_client (okx_step cx ev e)))"
    using Cons.IH[of "okx_step cx ev e"] Cons.prems by auto
  have "int (length (new @ rest)) \<le> 2 * (oc_writes (ex_client (okx_run cx (ev # evs) e)) - oc_writes (ex_client e))"
    using new(2) rest(2) by simp
  moreover have "oc_sent (ex_client (okx_run cx (ev # evs) e)) = oc_sent (ex_client e) @ new @ rest"
    using new(1) rest(1) by simp
  ultimately show ?case by blast
qed simp

text \<open>
  C36: Nothing reaches the exchange past the gates. In every session of orders, new generations and closed clients from a fresh
  executor, whatever the server answers, every request sent is for a listed write tool; if neither paper mode nor the
  live switch is on, nothing is sent at all; the events between two resets of the counter, whatever came before them, send at most
  six requests (three writes, each at most once more after a rate limit); there are at most as many audit records as
  orders; and the logged arguments of no record hold the value of a key of the redaction list.
\<close>

theorem okx_orders_gated:
  assumes "list_all (\<lambda>ev. ev \<noteq> NewGeneration) generation"
    and "start = okx_run cx before (new_executor start_client paper paper_env live_env)" "e = okx_run cx generation start"
  shows "list_all (\<lambda>ta. is_live_execution_tool (fst ta)) (oc_sent (ex_client e))
     \<and> (ex_paper e \<or> ex_allow_live e \<or> oc_sent (ex_client e) = [])
     \<and> (\<exists>new. oc_sent (ex_client e) = oc_sent (ex_client start) @ new \<and> length new \<le> 6)
     \<and> length (ex_audit e) \<le> orders (before @ generation)
     \<and> list_all (\<lambda>a. secret_free (au_args a)) (ex_audit e)"
proof -
  let ?e0 = "new_executor start_client paper paper_env live_env"
  have "okx_ok (ex_paper ?e0, ex_allow_live ?e0) 0 ?e0" by (simp add: okx_ok_def new_executor_def start_client_def)
  from okx_run_ok[OF this, of before cx] okx_run_ok[OF this, of "before @ generation" cx]
  have ok: "okx_ok (ex_paper ?e0, ex_allow_live ?e0) (orders before) start"
      "okx_ok (ex_paper ?e0, ex_allow_live ?e0) (orders (before @ generation)) e"
    unfolding assms(2,3) by simp_all
  obtain new where new: "oc_sent (ex_client e) = oc_sent (ex_client start) @ new"
      "int (length new) \<le> 2 * (oc_writes (ex_client e) - oc_writes (ex_client start))"
    using okx_generation_sent[OF assms(1), of cx start] assms(3) by blast
  have "0 \<le> oc_writes (ex_client start)" "oc_writes (ex_client e) \<le> 3" using ok unfolding okx_ok_def by blast+
  then have "2 * (oc_writes (ex_client e) - oc_writes (ex_client start)) \<le> 6" by simp
  then have "int (length new) \<le> 6" using new(2) by (rule order_trans[rotated])
  then have "length new \<le> 6" by simp
  then show ?thesis using ok(2) new(1) unfolding okx_ok_def by blast
qed

text \<open>Four orders against a server that always answers with the rate limit: six requests, and the fourth order is refused.\<close>

definition limited_ctx :: dispatch_ctx where
  "limited_ctx = \<lparr>dc_hash = (\<lambda>_. ''h''), dc_text = (\<lambda>_. ''''), dc_server = (\<lambda>_. Answer (JObj [(''code'', JStr RATE_LIMIT_CODE)])),
     dc_user = ''u''\<rparr>"

definition four_orders :: "okx_event list" where
  "four_orders = replicate 4 (Order 0 0 ''spot_place_order'' (JObj [(''token'', JStr ''x'')]) 1)"

definition limited_run :: "okx_event list \<Rightarrow> executor" where
  "limited_run evs = okx_run limited_ctx evs (new_executor start_client (Some True) None None)"

lemma limited_counts:
  "length (oc_sent (ex_client (limited_run (four_orders @ [NewGeneration])))) = 6"
  "length (oc_sent (ex_client (limited_run (four_orders @ [NewGeneration] @ four_orders)))) = 12"
  by code_simp+

theorem okx_orders_gated_witness:
  "\<exists>new. oc_sent (ex_client (limited_run (four_orders @ [NewGeneration] @ four_orders)))
       = oc_sent (ex_client (limited_run (four_orders @ [NewGeneration]))) @ new \<and> length new = 6"
proof -
  have "list_all (\<lambda>ev. ev \<noteq> NewGeneration) four_orders" by (simp add: four_orders_def list_all_iff)
  from okx_orders_gated[OF this refl refl, of limited_ctx "four_orders @ [NewGeneration]" "Some True" None None]
  obtain new where "oc_sent (ex_client (limited_run (four_orders @ [NewGeneration] @ four_orders)))
      = oc_sent (ex_client (limited_run (four_orders @ [NewGeneration]))) @ new" "length new \<le> 6"
    by (auto simp: limited_run_def)
  then show ?thesis using limited_counts by (metis (no_types, lifting) add_left_cancel length_append numeral_Bit0)
qed

text \<open>The client order id is logged as it is in the arguments, whatever keys it holds.\<close>

lemma client_id_unredacted:
  "au_cl_ord_id (build_record h u now t (JObj [(''clOrdId'', v)]) s p g rc l tr (jget (JObj [(''clOrdId'', v)]) ''clOrdId'') b) = v"
  by (simp add: build_record_def get_default_def)

text \<open>
  An order whose answer does not come has reached the server and leaves no audit record.
\<close>

lemma unanswered_order_unaudited:
  assumes "is_live_execution_tool tool" "dc_server cx [(tool, args)] = NoAnswer"
  shows "dispatch cx now latency tool args salt (new_executor start_client (Some True) None None) =
    (Inl CallTimeout, (new_executor start_client (Some True) None None)
       \<lparr>ex_client := start_client\<lparr>oc_writes := 1, oc_sent := [(tool, args)]\<rparr>\<rparr>)"
proof -
  obtain mode where m: "execution_allowed_for_tools [tool] True = (True, mode)"
    using tools_allowed[of tool True] by (metis prod.collapse)
  show ?thesis
    using assms
    by (simp add: dispatch_def new_executor_def m invoke_tool_def count_write_def wire_call_def start_client_def
        MAX_OKX_WRITE_PER_GEN_def)
qed

text \<open>The tools named as out of scope are in the list, so the gate lets them through rather than rejecting them.\<close>

lemma out_of_scope_tools_pass: "is_live_execution_tool ''earn_purchase'' \<and> is_live_execution_tool ''option_place_order''"
  by (simp add: is_live_execution_tool_def OKX_WRITE_TOOLS_def)

end
