(* ===== verification/Detector.thy ===== *)
theory Detector
  imports BenchRecord "HOL-Library.Product_Lexorder"
begin

text \<open>
  \<^verbatim>\<open>docs/harmonic_detector.py\<close>: the reference detector. Swing points by a percentage ZigZag, the check of five
  points against a pattern, the macro bias, the entry plan of an unfinished pattern, and the scan of forming
  patterns. What numpy and pandas compute is an argument: the mean of a short list (\<open>mean_of\<close>), \<open>round\<close> of
  a numpy float (\<open>rnd\<close>), the rolling mean (\<open>roll\<close>) and the exponential mean (\<open>ewm\<close>).

  \<open>validate_pattern\<close> runs on Python floats, as \<open>scan\<close> calls it. The entry plan runs on numpy floats, as
  \<open>scan_forming\<close> calls it: a division by zero gives inf or nan there and never raises, which is \<open>None\<close> here and
  fails every comparison. A last close of zero is outside the model. The times the results quote from the frame's
  index, and the text of the reasons and of the advice, are left out.
\<close>

section \<open>Configuration\<close>

definition ZZ_PCT :: rat where "ZZ_PCT = fl (3 / 100)"
definition TOL :: rat where "TOL = fl (12 / 100)"
definition ENABLED_PATTERNS :: "string list" where
  "ENABLED_PATTERNS = [''Gartley'', ''Bat'', ''Butterfly'', ''Crab'', ''DeepCrab'']"
definition STOP_ATR_BUF :: rat where "STOP_ATR_BUF = fl (7 / 10)"
definition STOP_FALLBACK_XA :: rat where "STOP_FALLBACK_XA = fl (5 / 100)"
definition TP1_RATIO :: rat where "TP1_RATIO = fl (382 / 1000)"
definition TP2_RATIO :: rat where "TP2_RATIO = fl (618 / 1000)"
definition PRZ_GRADE_A :: rat where "PRZ_GRADE_A = fl (2 / 100)"
definition PRZ_GRADE_B :: rat where "PRZ_GRADE_B = fl (4 / 100)"
definition BT_SIGNAL_TTL :: int where "BT_SIGNAL_TTL = 40"
definition ATR_PERIOD :: nat where "ATR_PERIOD = 14"

section \<open>ATR\<close>

fun bar_ranges :: "rat option \<Rightarrow> bar list \<Rightarrow> rat list" where
  "bar_ranges prev [] = []"
| "bar_ranges prev (b # bs) =
     (case prev of None \<Rightarrow> fsub (bhigh b) (blow b)
      | Some c \<Rightarrow> list_max [fsub (bhigh b) (blow b), \<bar>fsub (bhigh b) c\<bar>, \<bar>fsub (blow b) c\<bar>]) # bar_ranges (Some (bclose b)) bs"

text \<open>The last value of the rolling mean: none (nan) while the window is not full.\<close>

definition last_atr :: "(nat \<Rightarrow> rat list \<Rightarrow> rat) \<Rightarrow> bar list \<Rightarrow> nat option \<Rightarrow> rat option" where
  "last_atr roll df period =
     (let p = (case period of Some k \<Rightarrow> if k = 0 then ATR_PERIOD else k | None \<Rightarrow> ATR_PERIOD)
      in if length df < p then None else Some (roll p (bar_ranges None df)))"

section \<open>ZigZag\<close>

datatype swing = SwingH | SwingL

record zz_pivot =
  zz_idx :: nat
  zz_price :: rat
  zz_type :: swing

datatype zz_trend = NoTrend | Up | Down

record zz_state =
  zs_pivots :: "zz_pivot list"
  zs_trend :: zz_trend
  zs_idx :: nat
  zs_price :: rat

definition zz_push :: "swing \<Rightarrow> zz_trend \<Rightarrow> nat \<Rightarrow> rat \<Rightarrow> zz_state \<Rightarrow> zz_state" where
  "zz_push t trend i price s =
     \<lparr>zs_pivots = zs_pivots s @ [\<lparr>zz_idx = zs_idx s, zz_price = zs_price s, zz_type = t\<rparr>],
      zs_trend = trend, zs_idx = i, zs_price = price\<rparr>"

definition zz_bar :: "rat \<Rightarrow> nat \<Rightarrow> bar \<Rightarrow> zz_state \<Rightarrow> zz_state" where
  "zz_bar pct i b s =
     (let h = bhigh b; l = blow b; ext = zs_price s
      in case zs_trend s of
           NoTrend \<Rightarrow>
             if fmul ext (fadd 1 pct) \<le> h then zz_push SwingL Up i h s
             else if l \<le> fmul ext (fsub 1 pct) then zz_push SwingH Down i l s
             else if l < ext then s\<lparr>zs_idx := i, zs_price := l\<rparr> else s
         | Up \<Rightarrow>
             if ext \<le> h then s\<lparr>zs_idx := i, zs_price := h\<rparr>
             else if l \<le> fmul ext (fsub 1 pct) then zz_push SwingH Down i l s
             else s
         | Down \<Rightarrow>
             if l \<le> ext then s\<lparr>zs_idx := i, zs_price := l\<rparr>
             else if fmul ext (fadd 1 pct) \<le> h then zz_push SwingL Up i h s
             else s)"

fun zz_walk :: "rat \<Rightarrow> nat \<Rightarrow> bar list \<Rightarrow> zz_state \<Rightarrow> zz_state" where
  "zz_walk pct i [] s = s"
| "zz_walk pct i (b # bs) s = zz_walk pct (Suc i) bs (zz_bar pct i b s)"

definition zz_close :: "zz_state \<Rightarrow> zz_pivot list" where
  "zz_close s =
     zs_pivots s @ (case zs_trend s of NoTrend \<Rightarrow> []
       | Up \<Rightarrow> [\<lparr>zz_idx = zs_idx s, zz_price = zs_price s, zz_type = SwingH\<rparr>]
       | Down \<Rightarrow> [\<lparr>zz_idx = zs_idx s, zz_price = zs_price s, zz_type = SwingL\<rparr>])"

text \<open>\<open>zz[zz.type != zz.type.shift()]\<close>: each row against the one before it in the unfiltered table.\<close>

fun drop_repeats :: "swing option \<Rightarrow> zz_pivot list \<Rightarrow> zz_pivot list" where
  "drop_repeats prev [] = []"
| "drop_repeats prev (p # ps) = (if prev = Some (zz_type p) then [] else [p]) @ drop_repeats (Some (zz_type p)) ps"

definition zigzag :: "bar list \<Rightarrow> rat \<Rightarrow> zz_pivot list" where
  "zigzag df pct =
     (if length df < 6 then []
      else drop_repeats None (zz_close (zz_walk pct 1 (tl df)
             \<lparr>zs_pivots = [], zs_trend = NoTrend, zs_idx = 0, zs_price = bclose (hd df)\<rparr>)))"

section \<open>Patterns\<close>

record pattern_spec =
  sp_bxa :: "rat \<times> rat"
  sp_cab :: "rat \<times> rat"
  sp_dxa :: "rat \<times> rat"
  sp_cdbc :: "rat \<times> rat"

definition PATTERNS :: "(string \<times> pattern_spec) list" where
  "PATTERNS =
    (let f = (\<lambda>x. fl (x / 1000)); mk = (\<lambda>a b c d e g h k. \<lparr>sp_bxa = (f a, f b), sp_cab = (f c, f d), sp_dxa = (f e, f g), sp_cdbc = (f h, f k)\<rparr>)
     in [(''Gartley'', mk 618 618 382 886 786 786 1272 1618),
         (''Bat'', mk 382 500 382 886 886 886 1618 2618),
         (''Butterfly'', mk 786 786 382 886 1272 1618 1618 2240),
         (''Crab'', mk 382 618 382 886 1618 1618 2240 3618),
         (''DeepCrab'', mk 886 886 382 886 1618 1618 2000 3618),
         (''Shark'', mk 382 618 1130 1618 886 1130 1618 2240)])"

datatype detector_error = UnknownPattern | NoRows

definition in_range :: "rat \<Rightarrow> rat \<times> rat \<Rightarrow> rat \<Rightarrow> bool" where
  "in_range x r tol \<longleftrightarrow> fmul (fst r) (fsub 1 tol) \<le> x \<and> x \<le> fmul (snd r) (fadd 1 tol)"

record pattern_hit =
  ph_pattern :: string
  ph_bullish :: bool
  ph_points :: "(nat \<times> rat) list"
  ph_ratios :: "rat list"
  ph_prz :: "rat \<times> rat"
  ph_entry_ref :: rat
  ph_stop :: rat
  ph_tp1 :: rat
  ph_tp2 :: rat
  ph_rr1 :: "rat option"
  ph_rr2 :: "rat option"

definition hit_ratios :: "rat \<Rightarrow> rat \<Rightarrow> rat \<Rightarrow> rat \<Rightarrow> rat \<Rightarrow> rat list" where
  "hit_ratios xp ap bp cp dp =
     (let xa = \<bar>fsub ap xp\<bar>; ab = \<bar>fsub bp ap\<bar>; bc = \<bar>fsub cp bp\<bar>; cd = \<bar>fsub dp cp\<bar>
      in [fdiv ab xa, fdiv bc ab, fdiv \<bar>fsub ap dp\<bar> xa, fdiv cd bc])"

definition ratios_fit :: "pattern_spec \<Rightarrow> rat \<Rightarrow> rat list \<Rightarrow> bool" where
  "ratios_fit spec tol rs \<longleftrightarrow>
     list_all2 (\<lambda>x r. in_range x r tol) rs [sp_bxa spec, sp_cab spec, sp_dxa spec, sp_cdbc spec]"

text \<open>The reversal zone: where the two measures overlap, else the hull of both.\<close>

definition hit_prz :: "bool \<Rightarrow> pattern_spec \<Rightarrow> rat \<Rightarrow> rat \<Rightarrow> rat \<Rightarrow> rat \<Rightarrow> rat \<times> rat" where
  "hit_prz upw spec ap cp xa bc =
     (let d1 = fst (sp_dxa spec); d2 = snd (sp_dxa spec); k1 = fst (sp_cdbc spec); k2 = snd (sp_cdbc spec);
          m1 = (if upw then [fsub ap (fmul xa d1), fsub ap (fmul xa d2)] else [fadd ap (fmul xa d1), fadd ap (fmul xa d2)]);
          m2 = (if upw then [fsub cp (fmul bc k2), fsub cp (fmul bc k1)] else [fadd cp (fmul bc k1), fadd cp (fmul bc k2)]);
          lo = max (list_min m1) (list_min m2);
          hi = min (list_max m1) (list_max m2)
      in if hi < lo then (min (list_min m1) (list_min m2), max (list_max m1) (list_max m2)) else (lo, hi))"

definition hit_levels :: "bool \<Rightarrow> rat \<times> rat \<Rightarrow> rat \<Rightarrow> rat \<Rightarrow> rat \<Rightarrow> rat \<times> rat \<times> rat" where
  "hit_levels upw prz xa ap dp =
     (let buf = fmul (fmul (1 / 2) xa) (fl (1 / 10))
      in if upw then (fsub (fst prz) buf, fadd dp (fmul (fsub ap dp) TP1_RATIO), fadd dp (fmul (fsub ap dp) TP2_RATIO))
         else (fadd (snd prz) buf, fsub dp (fmul (fsub dp ap) TP1_RATIO), fsub dp (fmul (fsub dp ap) TP2_RATIO)))"

definition validate_pattern ::
    "nat \<times> rat \<Rightarrow> nat \<times> rat \<Rightarrow> nat \<times> rat \<Rightarrow> nat \<times> rat \<Rightarrow> nat \<times> rat \<Rightarrow> string \<Rightarrow> rat \<Rightarrow> detector_error + pattern_hit option" where
  "validate_pattern X A B C D name tol =
     ebind (dict_at UnknownPattern PATTERNS name) (\<lambda>spec.
       let xp = snd X; ap = snd A; bp = snd B; cp = snd C; dp = snd D;
           upw = (xp < ap);
           xa = \<bar>fsub ap xp\<bar>; ab = \<bar>fsub bp ap\<bar>; bc = \<bar>fsub cp bp\<bar>;
           rs = hit_ratios xp ap bp cp dp;
           prz = hit_prz upw spec ap cp xa bc;
           (stop, tp1, tp2) = hit_levels upw prz xa ap dp;
           risk = \<bar>fsub dp stop\<bar>
       in Inr (if xa = 0 \<or> ab = 0 \<or> bc = 0 then None
               else if upw \<and> \<not> (bp < ap \<and> bp < cp \<and> dp < cp) then None
               else if \<not> upw \<and> \<not> (ap < bp \<and> cp < bp \<and> cp < dp) then None
               else if \<not> ratios_fit spec tol rs then None
               else Some \<lparr>ph_pattern = name, ph_bullish = upw, ph_points = [X, A, B, C, D],
                          ph_ratios = map (\<lambda>x. pyround x 3) rs, ph_prz = (pyround (fst prz) 4, pyround (snd prz) 4),
                          ph_entry_ref = dp, ph_stop = pyround stop 4, ph_tp1 = pyround tp1 4, ph_tp2 = pyround tp2 4,
                          ph_rr1 = (if risk \<noteq> 0 then Some (pyround (fdiv \<bar>fsub tp1 dp\<bar> risk) 2) else None),
                          ph_rr2 = (if risk \<noteq> 0 then Some (pyround (fdiv \<bar>fsub tp2 dp\<bar> risk) 2) else None)\<rparr>))"

section \<open>The scan of complete patterns\<close>

fun collect_hits :: "(string \<Rightarrow> detector_error + pattern_hit option) \<Rightarrow> string list \<Rightarrow> detector_error + pattern_hit list" where
  "collect_hits check_one [] = Inr []"
| "collect_hits check_one (n # ns) =
     ebind (check_one n) (\<lambda>h. ebind (collect_hits check_one ns) (\<lambda>hs. Inr (case h of None \<Rightarrow> hs | Some x \<Rightarrow> x # hs)))"

fun scan_windows :: "rat \<Rightarrow> string list \<Rightarrow> (nat \<times> rat) list \<Rightarrow> nat list \<Rightarrow> detector_error + pattern_hit list" where
  "scan_windows tol names pts [] = Inr []"
| "scan_windows tol names pts (i # is) =
     ebind (collect_hits (\<lambda>n. validate_pattern (pts ! (i - 4)) (pts ! (i - 3)) (pts ! (i - 2)) (pts ! (i - 1)) (pts ! i) n tol) names)
       (\<lambda>hs. ebind (scan_windows tol names pts is) (\<lambda>rest. Inr (hs @ rest)))"

definition scan :: "bar list \<Rightarrow> rat option \<Rightarrow> rat option \<Rightarrow> string list option \<Rightarrow> bool \<Rightarrow> detector_error + pattern_hit list" where
  "scan df zz_pct tol patterns only_latest =
     (let zz = zigzag df (case zz_pct of Some x \<Rightarrow> x | None \<Rightarrow> ZZ_PCT);
          names = (case patterns of Some (n # ns) \<Rightarrow> n # ns | _ \<Rightarrow> ENABLED_PATTERNS);
          pts = map (\<lambda>p. (zz_idx p, zz_price p)) zz;
          n = length pts
      in if n < 5 then Inr []
         else scan_windows (case tol of Some x \<Rightarrow> x | None \<Rightarrow> TOL) names pts [(if only_latest then n - 1 else 4) ..< n])"

section \<open>Macro bias\<close>

datatype bias_advice = RideTrend | FadeExtreme | FadeLight

record macro_view =
  mv_ema200 :: rat
  mv_ema50 :: rat
  mv_deviation :: rat
  mv_slope :: rat
  mv_bull :: bool
  mv_with_trend :: bool
  mv_size_mult :: rat
  mv_advice :: bias_advice

datatype macro_result = TooFewDays rat | MacroView macro_view

definition macro_bias :: "(rat \<Rightarrow> nat \<Rightarrow> rat) \<Rightarrow> (nat \<Rightarrow> rat list \<Rightarrow> rat list) \<Rightarrow> rat list option \<Rightarrow> int \<Rightarrow> macro_result" where
  "macro_bias rnd ewm daily_close signal_dir =
     (case daily_close of None \<Rightarrow> TooFewDays (fl (8 / 10))
      | Some closes \<Rightarrow>
          if length closes < 210 then TooFewDays (fl (8 / 10))
          else let e200 = ewm 200 closes; e50 = ewm 50 closes;
                   p = last closes; v200 = last e200; v50 = last e50;
                   dev = fmul (fsub (fdiv p v200) 1) 100;
                   slope = fmul (fsub (fdiv (last e200) (e200 ! (length e200 - 21))) 1) 100;
                   bull = (v200 < p);
                   with_trend = ((signal_dir = 1) = bull);
                   extreme = (20 < \<bar>dev\<bar>);
                   (mult, advice) = (if with_trend then (1, RideTrend) else if extreme then (fl (12 / 10), FadeExtreme) else (fl (6 / 10), FadeLight))
               in MacroView \<lparr>mv_ema200 = pyround v200 2, mv_ema50 = pyround v50 2, mv_deviation = rnd dev 1, mv_slope = rnd slope 1,
                             mv_bull = bull, mv_with_trend = with_trend, mv_size_mult = mult, mv_advice = advice\<rparr>)"

section \<open>The entry plan of an unfinished pattern\<close>

datatype entry_mode = Aggressive | Ladder | Confirm
datatype prz_grade = PrzA | PrzB | PrzC
datatype entry_reason = BadB | BadDirection | BadC

record entry_plan =
  ep_pattern :: string
  ep_bullish :: bool
  ep_grade :: prz_grade
  ep_width_pct :: "rat option"
  ep_b_ratio :: rat
  ep_projections :: "rat list"
  ep_prz :: "rat \<times> rat"
  ep_center :: rat
  ep_orders :: "rat list"
  ep_stop :: "rat option"
  ep_tp1 :: rat
  ep_tp2 :: rat
  ep_rr1 :: "rat option"
  ep_macro :: "macro_result option"

definition np_div :: "rat \<Rightarrow> rat \<Rightarrow> rat option" where
  "np_div x y = (if y = 0 then None else Some (fdiv x y))"

definition np_in_range :: "rat option \<Rightarrow> rat \<times> rat \<Rightarrow> rat \<Rightarrow> bool" where
  "np_in_range x r tol = (case x of None \<Rightarrow> False | Some v \<Rightarrow> in_range v r tol)"

definition entry_check :: "pattern_spec \<Rightarrow> rat \<Rightarrow> rat \<Rightarrow> rat \<Rightarrow> rat \<Rightarrow> rat \<Rightarrow> entry_reason option" where
  "entry_check spec tol X A B C =
     (let upw = (X < A); xa = \<bar>fsub A X\<bar>; ab = \<bar>fsub B A\<bar>; bc = \<bar>fsub C B\<bar>
      in if \<not> np_in_range (np_div ab xa) (sp_bxa spec) tol then Some BadB
         else if upw \<and> fmul A (fl (105 / 100)) < C then Some BadDirection
         else if \<not> upw \<and> C < fmul A (fl (95 / 100)) then Some BadDirection
         else if \<not> np_in_range (np_div bc ab) (sp_cab spec) tol then Some BadC
         else None)"

text \<open>\<open>s * v\<close> for the direction factor \<open>s\<close>: a change of sign, which rounds nothing.\<close>

definition by_side :: "bool \<Rightarrow> rat \<Rightarrow> rat" where
  "by_side upw v = (if upw then v else - v)"

definition projections :: "(rat list \<Rightarrow> rat) \<Rightarrow> pattern_spec \<Rightarrow> rat \<Rightarrow> rat \<Rightarrow> rat \<Rightarrow> rat \<Rightarrow> rat list" where
  "projections mean_of spec X A B C =
     (let upw = (X < A); xa = \<bar>fsub A X\<bar>; ab = \<bar>fsub B A\<bar>; bc = \<bar>fsub C B\<bar>
      in [fsub A (fmul (by_side upw xa) (fst (sp_dxa spec))),
          fsub C (fmul (by_side upw bc) (mean_of [fst (sp_cdbc spec), snd (sp_cdbc spec)])),
          fsub C (by_side upw ab)])"

definition entry_orders :: "(rat \<Rightarrow> nat \<Rightarrow> rat) \<Rightarrow> entry_mode \<Rightarrow> rat \<Rightarrow> rat \<Rightarrow> rat \<Rightarrow> rat list" where
  "entry_orders rnd mode lo hi mid =
     (case mode of Aggressive \<Rightarrow> [rnd mid 2]
      | Ladder \<Rightarrow> map (\<lambda>f. rnd (fadd lo (fmul (fsub hi lo) f)) 2) [1 / 4, 1 / 2, 3 / 4]
      | Confirm \<Rightarrow> [])"

definition prz_grade_of :: "rat option \<Rightarrow> prz_grade" where
  "prz_grade_of width = (case width of None \<Rightarrow> PrzC
     | Some w \<Rightarrow> if w < PRZ_GRADE_A then PrzA else if w < PRZ_GRADE_B then PrzB else PrzC)"

definition entry_stop :: "bool \<Rightarrow> rat \<Rightarrow> rat \<Rightarrow> rat option \<Rightarrow> rat \<Rightarrow> rat option" where
  "entry_stop upw lo hi a xa =
     (case a of None \<Rightarrow> None
      | Some v \<Rightarrow> let buf = (if v \<noteq> 0 then fmul v STOP_ATR_BUF else fmul xa STOP_FALLBACK_XA)
                 in Some (if upw then fsub lo buf else fadd hi buf))"

definition build_plan ::
    "(rat list \<Rightarrow> rat) \<Rightarrow> (rat \<Rightarrow> nat \<Rightarrow> rat) \<Rightarrow> (int \<Rightarrow> macro_result option) \<Rightarrow> pattern_spec \<Rightarrow> string \<Rightarrow> rat option \<Rightarrow> entry_mode
     \<Rightarrow> rat \<Rightarrow> rat \<Rightarrow> rat \<Rightarrow> rat \<Rightarrow> entry_plan" where
  "build_plan mean_of rnd macro spec name a mode X A B C =
     (let upw = (X < A); xa = \<bar>fsub A X\<bar>;
          ds = projections mean_of spec X A B C;
          lo = list_min ds; hi = list_max ds; mid = mean_of ds;
          sl = entry_stop upw lo hi a xa;
          tp1 = fadd mid (fmul (by_side upw \<bar>fsub A mid\<bar>) TP1_RATIO);
          tp2 = fadd mid (fmul (by_side upw \<bar>fsub A mid\<bar>) TP2_RATIO);
          width = np_div (fsub hi lo) \<bar>mid\<bar>
      in \<lparr>ep_pattern = name, ep_bullish = upw, ep_grade = prz_grade_of width,
          ep_width_pct = map_option (\<lambda>w. rnd (fmul w 100) 2) width, ep_b_ratio = rnd (fdiv \<bar>fsub B A\<bar> xa) 3,
          ep_projections = map (\<lambda>x. rnd x 2) ds, ep_prz = (rnd lo 2, rnd hi 2),
          ep_center = rnd mid 2, ep_orders = entry_orders rnd mode lo hi mid, ep_stop = map_option (\<lambda>v. rnd v 2) sl,
          ep_tp1 = rnd tp1 2, ep_tp2 = rnd tp2 2,
          ep_rr1 = Option.bind sl (\<lambda>v. map_option (\<lambda>r. rnd r 2) (np_div \<bar>fsub tp1 mid\<bar> \<bar>fsub mid v\<bar>)),
          ep_macro = macro (if upw then 1 else -1)\<rparr>)"

definition calc_entry ::
    "(rat list \<Rightarrow> rat) \<Rightarrow> (rat \<Rightarrow> nat \<Rightarrow> rat) \<Rightarrow> (int \<Rightarrow> macro_result option) \<Rightarrow> rat \<Rightarrow> rat \<Rightarrow> rat \<Rightarrow> rat \<Rightarrow> string \<Rightarrow> rat option
     \<Rightarrow> entry_mode \<Rightarrow> rat \<Rightarrow> detector_error + (entry_reason + entry_plan)" where
  "calc_entry mean_of rnd macro X A B C name a mode tol =
     ebind (dict_at UnknownPattern PATTERNS name) (\<lambda>spec.
       Inr (case entry_check spec tol X A B C of Some r \<Rightarrow> Inl r
            | None \<Rightarrow> Inr (build_plan mean_of rnd macro spec name a mode X A B C)))"

section \<open>The scan of forming patterns\<close>

record forming =
  fo_plan :: entry_plan
  fo_xabc :: "rat list"
  fo_bars_since_c :: int
  fo_stale :: bool
  fo_in_prz :: bool
  fo_dist_pct :: rat

definition breached :: "entry_plan \<Rightarrow> bar list \<Rightarrow> bool" where
  "breached r rows = (case ep_stop r of None \<Rightarrow> False
     | Some v \<Rightarrow> if ep_bullish r then list_ex (\<lambda>b. blow b < v) rows else list_ex (\<lambda>b. v < bhigh b) rows)"

definition past_tp2 :: "entry_plan \<Rightarrow> rat \<Rightarrow> bool" where
  "past_tp2 r cur = (if ep_bullish r then ep_tp2 r < cur else cur < ep_tp2 r)"

definition edge_distance :: "rat \<Rightarrow> rat \<Rightarrow> rat" where
  "edge_distance edge cur = fmul \<bar>fsub (fdiv edge cur) 1\<bar> 100"

definition in_prz :: "entry_plan \<Rightarrow> rat \<Rightarrow> bool" where
  "in_prz r cur \<longleftrightarrow> fst (ep_prz r) \<le> cur \<and> cur \<le> snd (ep_prz r)"

definition prz_distance :: "entry_plan \<Rightarrow> rat \<Rightarrow> rat" where
  "prz_distance r cur =
     (let lo = fst (ep_prz r); hi = snd (ep_prz r)
      in if in_prz r cur then 0
         else if ep_bullish r then (if hi < cur then edge_distance hi cur else edge_distance lo cur)
         else (if cur < lo then edge_distance lo cur else edge_distance hi cur))"

definition keep_forming :: "(rat \<Rightarrow> nat \<Rightarrow> rat) \<Rightarrow> int \<Rightarrow> int \<Rightarrow> bar list \<Rightarrow> rat \<Rightarrow> rat list \<Rightarrow> entry_plan \<Rightarrow> forming option" where
  "keep_forming rnd max_ttl since_c rows cur xabc r =
     (if ep_grade r = PrzC then None
      else if rows \<noteq> [] \<and> breached r rows then None
      else if past_tp2 r cur then None
      else Some \<lparr>fo_plan = r, fo_xabc = xabc, fo_bars_since_c = since_c, fo_stale = (max_ttl < since_c),
                 fo_in_prz = in_prz r cur, fo_dist_pct = rnd (prz_distance r cur) 2\<rparr>)"

fun forming_names ::
    "(string \<Rightarrow> detector_error + (entry_reason + entry_plan)) \<Rightarrow> (entry_plan \<Rightarrow> forming option) \<Rightarrow> string list \<Rightarrow> detector_error + forming list" where
  "forming_names calc keep [] = Inr []"
| "forming_names calc keep (n # ns) =
     ebind (calc n) (\<lambda>r. ebind (forming_names calc keep ns) (\<lambda>fs.
       Inr ((case r of Inl _ \<Rightarrow> [] | Inr p \<Rightarrow> (case keep p of None \<Rightarrow> [] | Some f \<Rightarrow> [f])) @ fs)))"

fun forming_windows ::
    "(rat \<times> rat \<times> rat \<times> rat \<Rightarrow> nat \<Rightarrow> detector_error + forming list) \<Rightarrow> zz_pivot list \<Rightarrow> detector_error + forming list" where
  "forming_windows one (x # a # b # c # ps) =
     ebind (one (zz_price x, zz_price a, zz_price b, zz_price c) (zz_idx c)) (\<lambda>fs.
     ebind (forming_windows one (a # b # c # ps)) (\<lambda>rest. Inr (fs @ rest)))"
| "forming_windows one ps = Inr []"

definition forming_window ::
    "(rat list \<Rightarrow> rat) \<Rightarrow> (rat \<Rightarrow> nat \<Rightarrow> rat) \<Rightarrow> (int \<Rightarrow> macro_result option) \<Rightarrow> bar list \<Rightarrow> rat option \<Rightarrow> rat \<Rightarrow> int \<Rightarrow> string list
     \<Rightarrow> rat \<times> rat \<times> rat \<times> rat \<Rightarrow> nat \<Rightarrow> detector_error + forming list" where
  "forming_window mean_of rnd macro df a tol max_ttl names xabc ci =
     (let (X, A, B, C) = xabc
      in forming_names (\<lambda>n. calc_entry mean_of rnd macro X A B C n a Ladder tol)
           (keep_forming rnd max_ttl (int (length df) - 1 - int ci) (drop (ci + 1) df) (bclose (last df)) [X, A, B, C]) names)"

definition forming_key :: "forming \<Rightarrow> int \<times> int \<times> rat" where
  "forming_key f =
     (if fo_stale f then 1 else 0, (case ep_grade (fo_plan f) of PrzA \<Rightarrow> 0 | PrzB \<Rightarrow> 1 | PrzC \<Rightarrow> 2), \<bar>fo_dist_pct f\<bar>)"

definition scan_forming ::
    "(rat list \<Rightarrow> rat) \<Rightarrow> (rat \<Rightarrow> nat \<Rightarrow> rat) \<Rightarrow> (nat \<Rightarrow> rat list \<Rightarrow> rat) \<Rightarrow> (nat \<Rightarrow> rat list \<Rightarrow> rat list) \<Rightarrow> bar list \<Rightarrow> rat list option
     \<Rightarrow> rat option \<Rightarrow> rat option \<Rightarrow> nat \<Rightarrow> int option \<Rightarrow> string list option \<Rightarrow> detector_error + forming list" where
  "scan_forming mean_of rnd roll ewm df daily_close zz_pct tol n_piv max_ttl patterns =
     (if df = [] then Inl NoRows
      else let a = last_atr roll df None;
               zz = zigzag df (case zz_pct of Some x \<Rightarrow> x | None \<Rightarrow> ZZ_PCT);
               names = (case patterns of Some (n # ns) \<Rightarrow> n # ns | _ \<Rightarrow> ENABLED_PATTERNS);
               macro = (\<lambda>d. case daily_close of None \<Rightarrow> None | Some cs \<Rightarrow> Some (macro_bias rnd ewm (Some cs) d))
           in if length zz < 4 then Inr []
              else ebind (forming_windows (forming_window mean_of rnd macro df a (case tol of Some x \<Rightarrow> x | None \<Rightarrow> TOL)
                                             (case max_ttl of Some x \<Rightarrow> x | None \<Rightarrow> BT_SIGNAL_TTL) names) (tail_rows n_piv zz))
                     (\<lambda>out. Inr (sort_key forming_key out)))"

section \<open>The swing points\<close>

text \<open>One leg: later, of the other kind, at least \<open>pct\<close> away, and no bar strictly inside goes past its end.\<close>

definition zz_leg :: "bar list \<Rightarrow> rat \<Rightarrow> zz_pivot \<Rightarrow> zz_pivot \<Rightarrow> bool" where
  "zz_leg df pct p q \<longleftrightarrow>
     zz_idx p < zz_idx q \<and> zz_idx q < length df \<and> zz_type p \<noteq> zz_type q
     \<and> (case zz_type q of
          SwingH \<Rightarrow> zz_price q = bhigh (df ! zz_idx q) \<and> fmul (zz_price p) (fadd 1 pct) \<le> zz_price q
                    \<and> list_all (\<lambda>b. bhigh b \<le> zz_price q) (drop (Suc (zz_idx p)) (take (zz_idx q) df))
        | SwingL \<Rightarrow> zz_price q = blow (df ! zz_idx q) \<and> zz_price q \<le> fmul (zz_price p) (fsub 1 pct)
                    \<and> list_all (\<lambda>b. zz_price q \<le> blow b) (drop (Suc (zz_idx p)) (take (zz_idx q) df)))"

lemma list_all_between:
  "list_all P (drop (Suc i) (take j xs)) \<longleftrightarrow> (\<forall>k. i < k \<and> k < j \<and> k < length xs \<longrightarrow> P (xs ! k))"
  (is "?l = ?r")
proof
  assume ?l
  then have l: "P (drop (Suc i) (take j xs) ! n)" if "n < length (drop (Suc i) (take j xs))" for n
    using that unfolding list_all_length by blast
  show ?r
  proof (intro allI impI)
    fix k assume k: "i < k \<and> k < j \<and> k < length xs"
    then have "P (drop (Suc i) (take j xs) ! (k - Suc i))" by (intro l) auto
    with k show "P (xs ! k)" by simp
  qed
next
  assume r: ?r
  have "P (drop (Suc i) (take j xs) ! n)" if "n < length (drop (Suc i) (take j xs))" for n
  proof -
    have "Suc i + n < length (take j xs)" using that unfolding length_drop by linarith
    then have "Suc i \<le> length (take j xs)" "Suc i + n < j" "Suc i + n < length xs" by auto
    then show ?thesis using r[rule_format, of "Suc i + n"] by simp
  qed
  then show ?l unfolding list_all_length by blast
qed

definition zz_tip :: "zz_state \<Rightarrow> swing \<Rightarrow> zz_pivot" where
  "zz_tip s t = \<lparr>zz_idx = zs_idx s, zz_price = zs_price s, zz_type = t\<rparr>"

lemma zz_tip_simps [simp]:
  "zz_idx (zz_tip s t) = zs_idx s" "zz_price (zz_tip s t) = zs_price s" "zz_type (zz_tip s t) = t"
  by (simp_all add: zz_tip_def)

text \<open>
  What holds before bar \<open>i\<close>. Without a trend: no pivot yet, and no bar after the start reached either
  threshold or went below the start. In a trend: the running extreme ends a leg, and no bar after it
  reversed by \<open>pct\<close>.
\<close>

definition zz_first :: "bar list \<Rightarrow> zz_pivot \<Rightarrow> bool" where
  "zz_first df p \<longleftrightarrow> zz_idx p < length df
     \<and> (zz_idx p = 0 \<and> zz_price p = bclose (hd df) \<or> 0 < zz_idx p \<and> zz_price p = blow (df ! zz_idx p))"

definition zz_ok :: "bar list \<Rightarrow> rat \<Rightarrow> nat \<Rightarrow> zz_state \<Rightarrow> bool" where
  "zz_ok df pct i s \<longleftrightarrow> zs_idx s < i \<and> i \<le> length df
     \<and> (case zs_trend s of
          NoTrend \<Rightarrow> zs_pivots s = [] \<and> zz_first df (zz_tip s SwingL)
            \<and> (\<forall>k. zs_idx s < k \<and> k < i \<longrightarrow> bhigh (df ! k) < fmul (zs_price s) (fadd 1 pct) \<and> fmul (zs_price s) (fsub 1 pct) < blow (df ! k))
        | Up \<Rightarrow> zs_pivots s \<noteq> [] \<and> zz_first df (hd (zs_pivots s)) \<and> successively (zz_leg df pct) (zs_pivots s @ [zz_tip s SwingH])
            \<and> (\<forall>k. zs_idx s < k \<and> k < i \<longrightarrow> bhigh (df ! k) < zs_price s \<and> fmul (zs_price s) (fsub 1 pct) < blow (df ! k))
        | Down \<Rightarrow> zs_pivots s \<noteq> [] \<and> zz_first df (hd (zs_pivots s)) \<and> successively (zz_leg df pct) (zs_pivots s @ [zz_tip s SwingL])
            \<and> (\<forall>k. zs_idx s < k \<and> k < i \<longrightarrow> zs_price s < blow (df ! k) \<and> bhigh (df ! k) < fmul (zs_price s) (fadd 1 pct)))"

lemma zz_leg_start:
  assumes "zs_idx s < i" "i < length df"
  shows "fmul (zs_price s) (fadd 1 pct) \<le> bhigh (df ! i)
      \<Longrightarrow> \<forall>k. zs_idx s < k \<and> k < i \<longrightarrow> bhigh (df ! k) < fmul (zs_price s) (fadd 1 pct)
      \<Longrightarrow> zz_leg df pct (zz_tip s SwingL) \<lparr>zz_idx = i, zz_price = bhigh (df ! i), zz_type = SwingH\<rparr>"
    and "blow (df ! i) \<le> fmul (zs_price s) (fsub 1 pct)
      \<Longrightarrow> \<forall>k. zs_idx s < k \<and> k < i \<longrightarrow> fmul (zs_price s) (fsub 1 pct) < blow (df ! k)
      \<Longrightarrow> zz_leg df pct (zz_tip s SwingH) \<lparr>zz_idx = i, zz_price = blow (df ! i), zz_type = SwingL\<rparr>"
  using assms by (fastforce simp: zz_leg_def list_all_between)+

lemma zz_leg_extend:
  assumes "zs_idx s < i" "i < length df"
  shows "zz_leg df pct p (zz_tip s SwingH) \<Longrightarrow> zs_price s \<le> bhigh (df ! i)
      \<Longrightarrow> \<forall>k. zs_idx s < k \<and> k < i \<longrightarrow> bhigh (df ! k) < zs_price s
      \<Longrightarrow> zz_leg df pct p \<lparr>zz_idx = i, zz_price = bhigh (df ! i), zz_type = SwingH\<rparr>"
    and "zz_leg df pct p (zz_tip s SwingL) \<Longrightarrow> blow (df ! i) \<le> zs_price s
      \<Longrightarrow> \<forall>k. zs_idx s < k \<and> k < i \<longrightarrow> zs_price s < blow (df ! k)
      \<Longrightarrow> zz_leg df pct p \<lparr>zz_idx = i, zz_price = blow (df ! i), zz_type = SwingL\<rparr>"
proof -
  have H: "bhigh (df ! k) \<le> bhigh (df ! i)"
    if "zz_leg df pct p (zz_tip s SwingH)" "zs_price s \<le> bhigh (df ! i)"
      "\<forall>k. zs_idx s < k \<and> k < i \<longrightarrow> bhigh (df ! k) < zs_price s" "zz_idx p < k" "k < i" for k
    using that assms by (cases k "zs_idx s" rule: linorder_cases) (fastforce simp: zz_leg_def list_all_between)+
  have L: "blow (df ! i) \<le> blow (df ! k)"
    if "zz_leg df pct p (zz_tip s SwingL)" "blow (df ! i) \<le> zs_price s"
      "\<forall>k. zs_idx s < k \<and> k < i \<longrightarrow> zs_price s < blow (df ! k)" "zz_idx p < k" "k < i" for k
    using that assms by (cases k "zs_idx s" rule: linorder_cases) (fastforce simp: zz_leg_def list_all_between)+
  show "zz_leg df pct p (zz_tip s SwingH) \<Longrightarrow> zs_price s \<le> bhigh (df ! i)
      \<Longrightarrow> \<forall>k. zs_idx s < k \<and> k < i \<longrightarrow> bhigh (df ! k) < zs_price s
      \<Longrightarrow> zz_leg df pct p \<lparr>zz_idx = i, zz_price = bhigh (df ! i), zz_type = SwingH\<rparr>"
    using H assms by (auto simp: zz_leg_def list_all_between)
  show "zz_leg df pct p (zz_tip s SwingL) \<Longrightarrow> blow (df ! i) \<le> zs_price s
      \<Longrightarrow> \<forall>k. zs_idx s < k \<and> k < i \<longrightarrow> zs_price s < blow (df ! k)
      \<Longrightarrow> zz_leg df pct p \<lparr>zz_idx = i, zz_price = blow (df ! i), zz_type = SwingL\<rparr>"
    using L assms by (auto simp: zz_leg_def list_all_between)
qed

lemma successively_snoc: "successively P (xs @ [x, y]) \<longleftrightarrow> successively P (xs @ [x]) \<and> P x y"
  by (auto simp: successively_append_iff)

lemma successively_change_last:
  "successively P (xs @ [x]) \<Longrightarrow> (xs \<noteq> [] \<Longrightarrow> P (last xs) x \<Longrightarrow> P (last xs) y) \<Longrightarrow> successively P (xs @ [y])"
  by (auto simp: successively_append_iff)

lemma zz_bar_ok:
  assumes ok: "zz_ok df pct i s" and i: "i < length df"
  shows "zz_ok df pct (Suc i) (zz_bar pct i (df ! i) s)"
proof (cases "zs_trend s")
  case NoTrend
  have st: "zs_idx s < i" using ok by (simp add: zz_ok_def)
  note ls = zz_leg_start[OF st i, of pct, unfolded zz_tip_def]
  show ?thesis using ok NoTrend i ls
    by (auto simp: zz_ok_def zz_bar_def zz_push_def Let_def zz_first_def zz_tip_def less_Suc_eq)
next
  case Up
  have st: "zs_idx s < i" using ok by (simp add: zz_ok_def)
  note ls = zz_leg_start(2)[OF st i, of pct, unfolded zz_tip_def] and le = zz_leg_extend(1)[OF st i, of pct, unfolded zz_tip_def]
  show ?thesis using ok Up i ls
    by (auto simp: zz_ok_def zz_bar_def zz_push_def Let_def zz_tip_def less_Suc_eq successively_snoc not_le
        intro: successively_change_last le)
next
  case Down
  have st: "zs_idx s < i" using ok by (simp add: zz_ok_def)
  note ls = zz_leg_start(1)[OF st i, of pct, unfolded zz_tip_def] and le = zz_leg_extend(2)[OF st i, of pct, unfolded zz_tip_def]
  show ?thesis using ok Down i ls
    by (auto simp: zz_ok_def zz_bar_def zz_push_def Let_def zz_tip_def less_Suc_eq successively_snoc not_le
        intro: successively_change_last le)
qed

lemma zz_walk_ok:
  "zz_ok df pct i s \<Longrightarrow> drop i df = bs \<Longrightarrow> zz_ok df pct (length df) (zz_walk pct i bs s)"
proof (induction bs arbitrary: i s)
  case Nil
  then have "i = length df" by (simp add: zz_ok_def)
  then show ?case using Nil by simp
next
  case (Cons b bs)
  then have i: "i < length df" "df ! i = b" "drop (Suc i) df = bs"
    by (metis drop_eq_Nil leI list.distinct(1), metis nth_via_drop, metis drop_Suc list.sel(3) tl_drop)
  show ?case using Cons.IH[OF zz_bar_ok[OF Cons.prems(1) i(1)]] i by simp
qed

lemma drop_repeats_id:
  "successively (\<lambda>p q. zz_type p \<noteq> zz_type q) ps \<Longrightarrow> (ps \<noteq> [] \<Longrightarrow> prev \<noteq> Some (zz_type (hd ps))) \<Longrightarrow> drop_repeats prev ps = ps"
  by (induction ps arbitrary: prev) (auto simp: successively_Cons)

lemma zigzag_sound:
  "successively (zz_leg df pct) (zigzag df pct) \<and> (zigzag df pct = [] \<or> 6 \<le> length df \<and> zz_first df (hd (zigzag df pct)))"
proof (cases "length df < 6")
  case False
  define s0 where "s0 = \<lparr>zs_pivots = [], zs_trend = NoTrend, zs_idx = 0, zs_price = bclose (hd df)\<rparr>"
  define s where "s = zz_walk pct 1 (tl df) s0"
  have "zz_ok df pct 1 s0" using False by (auto simp: zz_ok_def s0_def zz_first_def)
  then have ok: "zz_ok df pct (length df) s" unfolding s_def by (rule zz_walk_ok) (simp add: drop_Suc)
  have c: "successively (zz_leg df pct) (zz_close s)" "zz_close s = [] \<or> zz_first df (hd (zz_close s))"
    using ok by (auto simp: zz_ok_def zz_close_def zz_tip_def split: zz_trend.splits)
  have "successively (\<lambda>p q. zz_type p \<noteq> zz_type q) (zz_close s)"
    using c(1) by (rule successively_mono) (simp add: zz_leg_def)
  then have "zigzag df pct = zz_close s"
    using False by (simp add: zigzag_def drop_repeats_id s_def s0_def)
  then show ?thesis using c False by auto
qed (simp add: zigzag_def)

text \<open>
  C37: The swing points are a zigzag of the bars. Each point comes later than the one before it, is of the other kind and at
  least the threshold away from it (so the final filter on repeated kinds drops nothing), and is the high or the low of its
  bar, which no bar strictly between the two exceeds. The first point is the start: the first close, or the low of a later bar.
\<close>

theorem zigzag_legs:
  "successively (zz_leg df pct) (zigzag df pct) \<and> (zigzag df pct = [] \<or> 6 \<le> length df \<and> zz_first df (hd (zigzag df pct)))"
  by (rule zigzag_sound)

section \<open>The plan of an entry\<close>

text \<open>A point a proper fraction of the way into an interval of floats does not leave it, roundings included.\<close>

lemma fmul_three_quarters:
  assumes fx: "is_float x" and fy: "is_float y" and le: "x \<le> y"
  shows "fmul (fsub y x) (3 / 4) \<le> y - x"
proof (cases "fsub y x \<le> y - x")
  case True
  have "fmul (fsub y x) (3 / 4) \<le> fsub y x"
    using fsub_nonneg[OF le] by (intro fmul_le_float) (simp_all add: fsub_def)
  with True show ?thesis by simp
next
  case False
  define d where "d = y - x"
  define u where "u = (2 powi fexp d :: rat)"
  have d: "0 < d" using False le by (cases "x = y") (auto simp: d_def)
  have not_float: "\<not> is_float d" using False by (auto simp: d_def fsub_def is_float_def)
  have big: "2 ^ 52 * u \<le> d"
  proof (cases "- 1074 < fexp d")
    case True
    then show ?thesis using above_52_bits[OF d] by (simp add: u_def)
  next
    case False
    then have e: "fexp d = - 1074" using fexp_min[of d] by linarith
    obtain j k where j: "x = of_int j * 2 powi (- 1074)" and k: "y = of_int k * 2 powi (- 1074)"
      using is_float_grid[OF fx] is_float_grid[OF fy] by auto
    have dk: "d = of_int (k - j) * 2 powi (- 1074)" by (simp add: d_def j k left_diff_distrib)
    have "of_int (k - j) * (2 powi (- 1074)) < (2 ^ 53 :: rat) * 2 powi (- 1074)"
      using below_53_bits[OF d] unfolding e dk[symmetric] .
    then have "of_int (k - j) < (2 ^ 53 :: rat)" by (rule mult_right_less_imp_less) simp
    moreover have "0 < of_int (k - j) * (2 powi (- 1074) :: rat)" using d dk by simp
    then have "0 < (of_int (k - j) :: rat)" by (simp add: zero_less_mult_iff)
    ultimately have "\<bar>k - j\<bar> \<le> 2 ^ 53" by (simp add: abs_le_iff)
    then have "is_float d" unfolding is_float_def dk by (intro fl_repr) auto
    with not_float show ?thesis by blast
  qed
  have u: "0 < u" by (simp add: u_def)
  have "4 * u \<le> 2 ^ 52 * u" using u by (intro mult_right_mono) simp_all
  then have four: "4 * u \<le> d" using big by linarith
  have half: "2 powi (fexp d - 1) = u / 2" by (simp add: u_def power_int_diff)
  have up: "fsub y x \<le> d + u / 2" using fl_error[of d] d half by (simp add: fsub_def d_def)
  define q where "q = fsub y x * (3 / 4)"
  have q: "0 < q" using False le unfolding q_def by (simp add: not_le)
  have q_le: "q \<le> 3 / 4 * d + 3 / 8 * u" using up unfolding q_def by (simp add: field_simps)
  have "q \<le> d" using q_le four u by linarith
  then have "fexp q \<le> fexp d" using q by (intro fexp_mono)
  then have "(2 powi (fexp q - 1) :: rat) \<le> 2 powi (fexp d - 1)" by (intro power_int_increasing) auto
  then have "fl q \<le> q + u / 2" using fl_error[of q] q half by linarith
  then have "fl q \<le> d" using q_le four u by linarith
  then show ?thesis by (simp add: fmul_def q_def d_def)
qed

lemma rung_inside:
  assumes "is_float x" "is_float y" "x \<le> y" "0 \<le> f" "f \<le> 3 / 4"
  shows "x \<le> fadd x (fmul (fsub y x) f)" and "fadd x (fmul (fsub y x) f) \<le> y"
proof -
  have n: "0 \<le> fsub y x" using assms(3) by (rule fsub_nonneg)
  show "x \<le> fadd x (fmul (fsub y x) f)" using assms n by (intro fadd_ge fmul_nonneg)
  have "fmul (fsub y x) f \<le> fmul (fsub y x) (3 / 4)" unfolding fmul_def using assms n by (intro fl_mono mult_left_mono)
  then have "fmul (fsub y x) f \<le> y - x" using fmul_three_quarters[OF assms(1,2,3)] by linarith
  then show "fadd x (fmul (fsub y x) f) \<le> y" using assms(2) by (intro fadd_le_float) simp_all
qed

definition plan_ordered :: "entry_plan \<Rightarrow> bool" where
  "plan_ordered p \<longleftrightarrow>
     sorted (ep_orders p) \<and> list_all (\<lambda>x. fst (ep_prz p) \<le> x \<and> x \<le> snd (ep_prz p)) (ep_orders p)
     \<and> (case ep_stop p of None \<Rightarrow> True | Some v \<Rightarrow> if ep_bullish p then v \<le> fst (ep_prz p) else snd (ep_prz p) \<le> v)
     \<and> (if ep_bullish p then ep_center p \<le> ep_tp1 p \<and> ep_tp1 p \<le> ep_tp2 p else ep_tp2 p \<le> ep_tp1 p \<and> ep_tp1 p \<le> ep_center p)"

lemma targets_ordered:
  assumes "is_float m" "0 \<le> v"
  shows "m \<le> fadd m (fmul v TP1_RATIO)" "fadd m (fmul v TP1_RATIO) \<le> fadd m (fmul v TP2_RATIO)"
    and "fadd m (fmul (- v) TP1_RATIO) \<le> m" "fadd m (fmul (- v) TP2_RATIO) \<le> fadd m (fmul (- v) TP1_RATIO)"
proof -
  have r: "0 \<le> TP1_RATIO" "TP1_RATIO \<le> TP2_RATIO" by (simp_all add: TP1_RATIO_def TP2_RATIO_def fl_nonneg fl_mono)
  have le: "fmul v TP1_RATIO \<le> fmul v TP2_RATIO" unfolding fmul_def using r assms by (intro fl_mono mult_left_mono)
  have neg: "fmul (- v) w = - fmul v w" for w by (simp add: fmul_def fl_minus)
  show "m \<le> fadd m (fmul v TP1_RATIO)" using assms r by (intro fadd_ge fmul_nonneg)
  show "fadd m (fmul v TP1_RATIO) \<le> fadd m (fmul v TP2_RATIO)" using le by (intro fadd_mono) simp_all
  have "0 \<le> fmul v TP1_RATIO" using assms r by (intro fmul_nonneg)
  then show "fadd m (fmul (- v) TP1_RATIO) \<le> m" using assms(1) unfolding neg by (intro fadd_le_float) simp_all
  show "fadd m (fmul (- v) TP2_RATIO) \<le> fadd m (fmul (- v) TP1_RATIO)" using le unfolding neg by (intro fadd_mono) simp_all
qed

lemma entry_stop_outside:
  assumes "is_float lo" "is_float hi" "entry_stop up lo hi a xa = Some v" "\<forall>w. a = Some w \<longrightarrow> 0 \<le> w" "0 \<le> xa"
  shows "if up then v \<le> lo else hi \<le> v"
proof -
  obtain w where a: "a = Some w" using assms(3) by (auto simp: entry_stop_def split: option.splits)
  define buf where "buf = (if w \<noteq> 0 then fmul w STOP_ATR_BUF else fmul xa STOP_FALLBACK_XA)"
  have "0 \<le> STOP_ATR_BUF" "0 \<le> STOP_FALLBACK_XA" by (simp_all add: STOP_ATR_BUF_def STOP_FALLBACK_XA_def fl_nonneg)
  then have "0 \<le> buf" using assms(4,5) a unfolding buf_def by (simp add: fmul_nonneg)
  moreover have "v = (if up then fsub lo buf else fadd hi buf)"
    using assms(3) a by (auto simp: entry_stop_def buf_def Let_def)
  ultimately show ?thesis using assms(1,2) by (simp add: fsub_le fadd_ge)
qed

lemma build_plan_ordered:
  assumes rnd: "\<forall>x y. x \<le> y \<longrightarrow> rnd x 2 \<le> rnd y (2 :: nat)" and mean: "\<forall>xs. is_float (mean_of xs)"
    and a: "\<forall>w. a = Some w \<longrightarrow> 0 \<le> w"
  shows "plan_ordered (build_plan mean_of rnd macro spec name a Ladder X A B C)"
proof -
  define ds where "ds = projections mean_of spec X A B C"
  define lo where "lo = list_min ds"
  define hi where "hi = list_max ds"
  define mid where "mid = mean_of ds"
  define p where "p = build_plan mean_of rnd macro spec name a Ladder X A B C"
  have ds: "ds \<noteq> []" "\<And>x. x \<in> set ds \<Longrightarrow> is_float x" unfolding ds_def projections_def Let_def by auto
  have fl: "is_float lo" "is_float hi" using ds list_min_in[OF ds(1)] list_max_in[OF ds(1)] by (auto simp: lo_def hi_def)
  have le: "lo \<le> hi" unfolding lo_def hi_def using list_min_in[OF ds(1)] by (rule list_max_ge)
  note rung = rung_inside[OF fl le]
  have mono: "x \<le> y \<Longrightarrow> rnd x 2 \<le> rnd y 2" for x y using rnd by blast
  have orders: "ep_orders p = map (\<lambda>f. rnd (fadd lo (fmul (fsub hi lo) f)) 2) [1 / 4, 1 / 2, 3 / 4]"
    by (simp add: p_def build_plan_def entry_orders_def Let_def lo_def hi_def ds_def)
  have prz: "ep_prz p = (rnd lo 2, rnd hi 2)" "ep_bullish p = (X < A)" "ep_center p = rnd mid 2"
    by (simp_all add: p_def build_plan_def Let_def lo_def hi_def ds_def mid_def)
  have step: "fadd lo (fmul (fsub hi lo) f) \<le> fadd lo (fmul (fsub hi lo) g)" if "f \<le> g" for f g
    using that fsub_nonneg[OF le] by (intro fadd_mono) (auto simp: fmul_def intro!: fl_mono mult_left_mono)
  have 1: "sorted (ep_orders p)" unfolding orders by (auto intro!: mono step)
  have 2: "list_all (\<lambda>x. fst (ep_prz p) \<le> x \<and> x \<le> snd (ep_prz p)) (ep_orders p)"
    unfolding orders prz by (auto intro!: mono rung)
  have 3: "case ep_stop p of None \<Rightarrow> True | Some v \<Rightarrow> if ep_bullish p then v \<le> fst (ep_prz p) else snd (ep_prz p) \<le> v"
  proof (cases "entry_stop (X < A) lo hi a \<bar>fsub A X\<bar>")
    case None
    then have "ep_stop p = None" by (simp add: p_def build_plan_def Let_def lo_def hi_def ds_def)
    then show ?thesis by simp
  next
    case (Some v)
    then have "ep_stop p = Some (rnd v 2)" by (simp add: p_def build_plan_def Let_def lo_def hi_def ds_def)
    then show ?thesis using entry_stop_outside[OF fl Some a] by (auto simp: prz intro: mono split: if_splits)
  qed
  have tp: "ep_tp1 p = rnd (fadd mid (fmul (by_side (X < A) \<bar>fsub A mid\<bar>) TP1_RATIO)) 2"
    "ep_tp2 p = rnd (fadd mid (fmul (by_side (X < A) \<bar>fsub A mid\<bar>) TP2_RATIO)) 2"
    by (simp_all add: p_def build_plan_def Let_def mid_def ds_def)
  have "is_float mid" using mean by (simp add: mid_def)
  note t = targets_ordered[OF this abs_ge_zero[of "fsub A mid"]]
  have 4: "if ep_bullish p then ep_center p \<le> ep_tp1 p \<and> ep_tp1 p \<le> ep_tp2 p else ep_tp2 p \<le> ep_tp1 p \<and> ep_tp1 p \<le> ep_center p"
    unfolding tp prz by_side_def using t by (auto intro: mono)
  show ?thesis unfolding plan_ordered_def p_def[symmetric] using 1 2 3 4 by blast
qed

section \<open>The forming patterns that survive\<close>

lemma forming_names_mem:
  "forming_names calc keep ns = Inr fs \<Longrightarrow> f \<in> set fs \<Longrightarrow> \<exists>n \<in> set ns. \<exists>p. calc n = Inr (Inr p) \<and> keep p = Some f"
proof (induction ns arbitrary: fs)
  case (Cons n ns)
  then obtain r rest where r: "calc n = Inr r" "forming_names calc keep ns = Inr rest"
    "fs = (case r of Inl _ \<Rightarrow> [] | Inr p \<Rightarrow> (case keep p of None \<Rightarrow> [] | Some f \<Rightarrow> [f])) @ rest"
    by auto
  show ?case
  proof (cases "f \<in> set rest")
    case True
    then show ?thesis using Cons.IH[OF r(2)] by auto
  next
    case False
    then obtain p where "r = Inr p" "keep p = Some f" using Cons.prems(2) r(3) by (auto split: sum.splits option.splits)
    then show ?thesis using r(1) by auto
  qed
qed simp

lemma forming_windows_mem:
  "forming_windows one ps = Inr fs \<Longrightarrow> f \<in> set fs
   \<Longrightarrow> \<exists>c xabc hits. c \<in> set ps \<and> one xabc (zz_idx c) = Inr hits \<and> f \<in> set hits"
proof (induction one ps arbitrary: fs rule: forming_windows.induct)
  case (1 one x a b c ps)
  then obtain hits rest where h: "one (zz_price x, zz_price a, zz_price b, zz_price c) (zz_idx c) = Inr hits"
    "forming_windows one (a # b # c # ps) = Inr rest" "f \<in> set hits \<or> f \<in> set rest"
    by auto
  show ?case
  proof (cases "f \<in> set hits")
    case True
    then show ?thesis
      using h(1) by (intro exI[of _ c] exI[of _ "(zz_price x, zz_price a, zz_price b, zz_price c)"] exI[of _ hits]) simp
  next
    case False
    then have "f \<in> set rest" using h(3) by blast
    from "1.IH"[OF h(2) this] obtain c' xabc hs
      where "c' \<in> set (a # b # c # ps)" "one xabc (zz_idx c') = Inr hs" "f \<in> set hs" by blast
    then show ?thesis by (intro exI[of _ c'] exI[of _ xabc] exI[of _ hs]) simp
  qed
qed simp_all

lemma zigzag_in_frame: "p \<in> set (zigzag df pct) \<Longrightarrow> zz_idx p < length df"
proof -
  have "\<forall>p \<in> set ps. zz_idx p < length df" if "successively (zz_leg df pct) ps" "ps = [] \<or> zz_idx (hd ps) < length df" for ps
    using that
  proof (induction ps)
    case (Cons p ps)
    have "ps = [] \<or> zz_idx (hd ps) < length df" "successively (zz_leg df pct) ps"
      using Cons.prems(1) by (auto simp: successively_Cons zz_leg_def)
    then show ?case using Cons.IH Cons.prems(2) by simp
  qed simp
  then show "p \<in> set (zigzag df pct) \<Longrightarrow> zz_idx p < length df"
    using zigzag_sound[of df pct] by (auto simp: zz_first_def)
qed

definition forming_fit :: "bar list \<Rightarrow> int \<Rightarrow> forming \<Rightarrow> bool" where
  "forming_fit df max_ttl f =
     (let p = fo_plan f; since_c = nat (fo_bars_since_c f)
      in ep_grade p \<noteq> PrzC \<and> \<not> past_tp2 p (bclose (last df)) \<and> plan_ordered p
         \<and> since_c < length df \<and> \<not> breached p (drop (length df - since_c) df)
         \<and> (ep_stop p = None) = (length df < ATR_PERIOD) \<and> fo_stale f = (max_ttl < fo_bars_since_c f))"

lemma forming_window_fit:
  assumes rnd: "\<forall>x y. x \<le> y \<longrightarrow> rnd x 2 \<le> rnd y (2 :: nat)" and mean: "\<forall>xs. is_float (mean_of xs)"
    and a: "\<forall>w. a = Some w \<longrightarrow> 0 \<le> w" "(a = None) = (length df < ATR_PERIOD)"
    and run: "forming_window mean_of rnd macro df a tol max_ttl names xabc ci = Inr hits" and f: "f \<in> set hits" and ci: "ci < length df"
  shows "forming_fit df max_ttl f"
proof -
  obtain X A B C where x: "xabc = (X, A, B, C)" by (cases xabc) auto
  define since_c where "since_c = int (length df) - 1 - int ci"
  obtain n p where p: "calc_entry mean_of rnd macro X A B C n a Ladder tol = Inr (Inr p)"
    "keep_forming rnd max_ttl since_c (drop (ci + 1) df) (bclose (last df)) [X, A, B, C] p = Some f"
    using forming_names_mem[OF run[unfolded forming_window_def Let_def x prod.case] f] unfolding since_c_def by blast
  obtain spec where plan: "p = build_plan mean_of rnd macro spec n a Ladder X A B C"
    using p(1) by (auto simp: calc_entry_def split: option.splits)
  then have "plan_ordered p" using build_plan_ordered[where rnd = rnd and mean_of = mean_of and a = a] rnd mean a(1) by simp
  moreover have "(ep_stop p = None) = (length df < ATR_PERIOD)"
    using a(2) unfolding plan by (cases a) (simp_all add: build_plan_def entry_stop_def Let_def)
  moreover have keep: "ep_grade p \<noteq> PrzC" "drop (ci + 1) df = [] \<or> \<not> breached p (drop (ci + 1) df)" "\<not> past_tp2 p (bclose (last df))"
    "fo_plan f = p" "fo_bars_since_c f = since_c" "fo_stale f = (max_ttl < since_c)"
    using p(2) by (auto simp: keep_forming_def split: if_splits)
  moreover have "\<not> breached p []" by (simp add: breached_def split: option.splits)
  moreover have "length df - nat since_c = ci + 1" "nat since_c < length df" using ci unfolding since_c_def by auto
  ultimately show ?thesis unfolding forming_fit_def Let_def by metis
qed


text \<open>A frame whose four swing points are a bullish Gartley in the making.\<close>

definition demo_mean :: "rat list \<Rightarrow> rat" where
  "demo_mean xs = fdiv (fsum xs) (of_nat (length xs))"

definition demo_roll :: "nat \<Rightarrow> rat list \<Rightarrow> rat" where
  "demo_roll p xs = \<bar>demo_mean (tail_rows p xs)\<bar>"

definition demo_frame :: "bar list" where
  "demo_frame = map (\<lambda>x. \<lparr>bopen = x, bhigh = x, blow = x, bclose = x, bvol = 0\<rparr>) (replicate 8 10 @ [1000, 405, 817, 600, 600, 600])"

definition demo_pivots :: "zz_pivot list" where
  "demo_pivots = [\<lparr>zz_idx = 0, zz_price = 10, zz_type = SwingL\<rparr>, \<lparr>zz_idx = 8, zz_price = 1000, zz_type = SwingH\<rparr>,
     \<lparr>zz_idx = 9, zz_price = 405, zz_type = SwingL\<rparr>, \<lparr>zz_idx = 10, zz_price = 817, zz_type = SwingH\<rparr>]"

lemma demo_zigzag: "zigzag demo_frame (1 / 2) = demo_pivots"
proof -
  have f: "fadd 1 (1 / 2) = 3 / 2" "fsub 1 (1 / 2) = 1 / 2" "fmul 10 (3 / 2) = 15" "fmul 1000 (1 / 2) = 500" "fmul 405 (3 / 2) = 1215 / 2"
    "fmul 817 (1 / 2) = 817 / 2" by code_simp+
  have g: "fmul 10 (1 / 2) = 5" by code_simp
  define B where "B = (\<lambda>x::rat. \<lparr>bopen = x, bhigh = x, blow = x, bclose = x, bvol = 0\<rparr>)"
  have c: "bclose (B x) = x" "bhigh (B x) = x" "blow (B x) = x" for x by (simp_all add: B_def)
  have st: "zz_bar (1 / 2) i (B x) s = (case zs_trend s of
           NoTrend \<Rightarrow>
             if fmul (zs_price s) (3 / 2) \<le> x then zz_push SwingL Up i x s
             else if x \<le> fmul (zs_price s) (1 / 2) then zz_push SwingH Down i x s
             else if x < zs_price s then s\<lparr>zs_idx := i, zs_price := x\<rparr> else s
         | Up \<Rightarrow>
             if zs_price s \<le> x then s\<lparr>zs_idx := i, zs_price := x\<rparr>
             else if x \<le> fmul (zs_price s) (1 / 2) then zz_push SwingH Down i x s
             else s
         | Down \<Rightarrow>
             if x \<le> zs_price s then s\<lparr>zs_idx := i, zs_price := x\<rparr>
             else if fmul (zs_price s) (3 / 2) \<le> x then zz_push SwingL Up i x s
             else s)" for i x s
    unfolding zz_bar_def Let_def f c ..
  have frame: "demo_frame = [B 10, B 10, B 10, B 10, B 10, B 10, B 10, B 10, B 1000, B 405, B 817, B 600, B 600, B 600]"
    by (simp add: demo_frame_def B_def numeral_nat)
  define st0 where "st0 = \<lparr>zs_pivots = [], zs_trend = NoTrend, zs_idx = 0, zs_price = 10\<rparr>"
  define st1 where "st1 = \<lparr>zs_pivots = take 1 demo_pivots, zs_trend = Up, zs_idx = 8, zs_price = 1000\<rparr>"
  define st2 where "st2 = \<lparr>zs_pivots = take 2 demo_pivots, zs_trend = Down, zs_idx = 9, zs_price = 405\<rparr>"
  define st3 where "st3 = \<lparr>zs_pivots = take 3 demo_pivots, zs_trend = Up, zs_idx = 10, zs_price = 817\<rparr>"
  have flat: "zz_bar (1 / 2) i (B 10) st0 = st0" for i unfolding st st0_def by (simp add: f g)
  have b1: "zz_bar (1 / 2) 8 (B 1000) st0 = st1" unfolding st st0_def st1_def by (simp add: f zz_push_def demo_pivots_def)
  have b2: "zz_bar (1 / 2) 9 (B 405) st1 = st2" unfolding st st1_def st2_def by (simp add: f zz_push_def demo_pivots_def)
  have b3: "zz_bar (1 / 2) 10 (B 817) st2 = st3" unfolding st st2_def st3_def by (simp add: f zz_push_def demo_pivots_def numeral_3_eq_3)
  have b4: "zz_bar (1 / 2) i (B 600) st3 = st3" for i unfolding st st3_def by (simp add: f)
  have "zz_walk (1 / 2) 1 (tl demo_frame) st0 = st3"
    unfolding frame by (simp add: flat b1 b2 b3 b4 del: One_nat_def)
  moreover have "zz_close st3 = demo_pivots" by (simp add: zz_close_def st3_def demo_pivots_def)
  moreover have "drop_repeats None demo_pivots = demo_pivots" by (simp add: demo_pivots_def)
  moreover have "bclose (hd demo_frame) = 10" "\<not> length demo_frame < 6" by (simp_all add: demo_frame_def)
  ultimately show ?thesis unfolding zigzag_def st0_def by simp
qed

lemma demo_entry: "\<exists>p. calc_entry demo_mean pyround (\<lambda>d. None) 10 1000 405 817 ''Gartley'' a Ladder TOL = Inr (Inr p)
    \<and> ep_grade p = PrzA \<and> ep_bullish p \<and> 600 < ep_tp2 p \<and> fst (ep_prz p) \<le> 223"
proof -
  have f: "fsub 1000 10 = 990" "fsub 405 1000 = - 595" "fsub 817 405 = 412" by code_simp+
  have t: "0 \<le> fsub 1 TOL" "fsub 1 TOL \<le> 9 / 10" "1 \<le> fadd 1 TOL" by code_simp+
  have b: "fl (618 / 1000) \<le> 62 / 100" "602 / 1000 \<le> fl (618 / 1000)" "fl (382 / 1000) \<le> 62 / 100" "7 / 10 \<le> fl (886 / 1000)" by code_simp+
  have q: "58 / 100 \<le> fdiv 595 990" "fdiv 595 990 \<le> 602 / 1000" "58 / 100 \<le> fdiv 412 595" "fdiv 412 595 \<le> 7 / 10" by code_simp+
  have "fl (62 / 100 * (9 / 10)) \<le> 58 / 100" by code_simp
  then have low: "fmul (fl x) (fsub 1 TOL) \<le> 58 / 100" if "0 \<le> x" "fl x \<le> 62 / 100" for x
    using fl_mono[OF mult_mono[OF that(2) t(2) _ t(1)]] unfolding fmul_def by (simp add: order_trans)
  have high: "fl x \<le> fmul (fl x) (fadd 1 TOL)" if "0 \<le> x" for x
    unfolding fmul_def using mult_left_mono[OF t(3) fl_nonneg[OF that]] by (intro float_le_fl) simp_all
  have r1: "in_range (fdiv 595 990) (fl (618 / 1000), fl (618 / 1000)) TOL"
    unfolding in_range_def using low[of "618 / 1000"] high[of "618 / 1000"] b q by simp
  have r2: "in_range (fdiv 412 595) (fl (382 / 1000), fl (886 / 1000)) TOL"
    unfolding in_range_def using low[of "382 / 1000"] high[of "886 / 1000"] b q by simp
  have c: "817 \<le> fmul 1000 (fl (105 / 100))" by code_simp
  define spec where "spec = \<lparr>sp_bxa = (fl (618 / 1000), fl (618 / 1000)), sp_cab = (fl (382 / 1000), fl (886 / 1000)),
    sp_dxa = (fl (786 / 1000), fl (786 / 1000)), sp_cdbc = (fl (1272 / 1000), fl (1618 / 1000))\<rparr>"
  have spec: "map_of PATTERNS ''Gartley'' = Some spec" unfolding PATTERNS_def Let_def spec_def by simp
  have ok: "entry_check spec TOL 10 1000 405 817 = None"
    using r1 r2 c by (simp add: entry_check_def f spec_def np_div_def np_in_range_def)
  define p where "p = build_plan demo_mean pyround (\<lambda>d. None) spec ''Gartley'' a Ladder 10 1000 405 817"
  have run: "calc_entry demo_mean pyround (\<lambda>d. None) 10 1000 405 817 ''Gartley'' a Ladder TOL = Inr (Inr p)"
    by (simp add: calc_entry_def dict_at_def spec ok p_def)
  define ds where "ds = projections demo_mean spec 10 1000 405 817"
  have ds: "ds = [fsub 1000 (fmul 990 (fl (786 / 1000))), fsub 817 (fmul 412 (demo_mean [fl (1272 / 1000), fl (1618 / 1000)])), 222]"
  proof -
    have "fsub 817 595 = 222" by code_simp
    then show ?thesis unfolding ds_def by (simp add: projections_def f spec_def by_side_def)
  qed
  have e: "785 / 1000 \<le> fl (786 / 1000)" "fl (786 / 1000) \<le> 787 / 1000" by code_simp+
  have "777 \<le> fmul 990 (fl (786 / 1000))" unfolding fmul_def using e(1) by (intro float_le_fl) simp_all
  moreover have "fmul 990 (fl (786 / 1000)) \<le> 780" unfolding fmul_def using e(2) by (intro fl_le_float) simp_all
  ultimately have d1: "220 \<le> fsub 1000 (fmul 990 (fl (786 / 1000)))" "fsub 1000 (fmul 990 (fl (786 / 1000))) \<le> 223"
    unfolding fsub_def by (auto intro: float_le_fl fl_le_float)
  define k where "k = demo_mean [fl (1272 / 1000), fl (1618 / 1000)]"
  have g: "1271 / 1000 \<le> fl (1272 / 1000)" "fl (1272 / 1000) \<le> 1273 / 1000" "1617 / 1000 \<le> fl (1618 / 1000)" "fl (1618 / 1000) \<le> 1619 / 1000"
    by code_simp+
  have "2887 / 1000 \<le> fadd (fadd 0 (1271 / 1000)) (1617 / 1000)" "fadd (fadd 0 (1273 / 1000)) (1619 / 1000) \<le> 2893 / 1000" by code_simp+
  then have "2887 / 1000 \<le> fsum [fl (1272 / 1000), fl (1618 / 1000)]" "fsum [fl (1272 / 1000), fl (1618 / 1000)] \<le> 2893 / 1000"
    using fadd_mono[OF fadd_mono[OF order_refl g(1)] g(3), of 0] fadd_mono[OF fadd_mono[OF order_refl g(2)] g(4), of 0]
    unfolding fsum_def by (simp_all add: order_trans)
  moreover have "1443 / 1000 \<le> fdiv (2887 / 1000) 2" "fdiv (2893 / 1000) 2 \<le> 1447 / 1000" by code_simp+
  ultimately have k: "1443 / 1000 \<le> k" "k \<le> 1447 / 1000"
    using fdiv_mono[of 2 "2887 / 1000" "fsum [fl (1272 / 1000), fl (1618 / 1000)]"]
      fdiv_mono[of 2 "fsum [fl (1272 / 1000), fl (1618 / 1000)]" "2893 / 1000"]
    unfolding k_def demo_mean_def by simp_all
  have "594 \<le> fmul 412 k" unfolding fmul_def using k(1) by (intro float_le_fl) simp_all
  moreover have "fmul 412 k \<le> 597" unfolding fmul_def using k(2) by (intro fl_le_float) simp_all
  ultimately have d2: "220 \<le> fsub 817 (fmul 412 (demo_mean [fl (1272 / 1000), fl (1618 / 1000)]))"
    "fsub 817 (fmul 412 (demo_mean [fl (1272 / 1000), fl (1618 / 1000)])) \<le> 223"
    unfolding fsub_def k_def[symmetric] by (auto intro: float_le_fl fl_le_float)
  have lo: "220 \<le> list_min ds" and hi: "list_max ds \<le> 223" using d1 d2 unfolding ds by simp_all
  obtain x y where xy: "ds = [x, y, 222]" "220 \<le> x" "x \<le> 223" "220 \<le> y" "y \<le> 223" using d1 d2 ds by blast
  have "fadd (fadd (fadd 0 220) 220) 222 = 662" "fadd (fadd (fadd 0 223) 223) 222 = 668" by code_simp+
  then have sum: "662 \<le> fsum ds" "fsum ds \<le> 668"
    using xy fadd_mono[OF fadd_mono[OF fadd_mono[of 0 0 220 x] xy(4)], of 222 222] fadd_mono[OF fadd_mono[OF fadd_mono[of 0 0 x 223] xy(5)], of 222 222]
    by (simp_all add: fsum_def)
  have "220 \<le> fdiv 662 3" "fdiv 668 3 \<le> 223" by code_simp+
  then have mid: "220 \<le> demo_mean ds" "demo_mean ds \<le> 223"
    using fdiv_mono[of 3, OF _ sum(1)] fdiv_mono[of 3, OF _ sum(2)] xy(1) by (simp_all add: demo_mean_def)
  define m where "m = demo_mean ds"
  have "fsub 223 220 = 3" by code_simp
  then have w: "fsub (list_max ds) (list_min ds) \<le> 3" using fsub_mono[OF hi lo] by simp
  have "fsub (list_max ds) (list_min ds) / \<bar>m\<bar> \<le> 3 / 220"
    using w mid by (intro frac_le) (auto simp: m_def)
  then have "fdiv (fsub (list_max ds) (list_min ds)) \<bar>m\<bar> \<le> fl (3 / 220)" unfolding fdiv_def by (rule fl_mono)
  also have "\<dots> < PRZ_GRADE_A" by code_simp
  finally have gr: "ep_grade p = PrzA"
    using mid by (simp add: p_def build_plan_def Let_def ds_def[symmetric] m_def[symmetric] np_div_def prz_grade_of_def)
  have k: "fsub 1000 223 = 777" "479 \<le> fmul 777 TP2_RATIO" "fadd 220 479 = 699" by code_simp+
  have up: "777 \<le> \<bar>fsub 1000 m\<bar>" using fsub_mono[of 1000 1000 m 223] mid k(1) unfolding m_def by simp
  have "0 \<le> TP2_RATIO" by (simp add: TP2_RATIO_def fl_nonneg)
  then have "fmul 777 TP2_RATIO \<le> fmul \<bar>fsub 1000 m\<bar> TP2_RATIO"
    unfolding fmul_def using up by (intro fl_mono mult_right_mono)
  then have "479 \<le> fmul \<bar>fsub 1000 m\<bar> TP2_RATIO" using k(2) by (rule order_trans[rotated])
  then have "699 \<le> fadd m (fmul \<bar>fsub 1000 m\<bar> TP2_RATIO)"
    using fadd_mono[of 220 m 479] mid k(3) unfolding m_def by simp
  then have "of_int 699 \<le> pyround (fadd m (fmul \<bar>fsub 1000 m\<bar> TP2_RATIO)) 2" by (intro pyround_ge_int) simp_all
  moreover have "ep_tp2 p = pyround (fadd m (fmul \<bar>fsub 1000 m\<bar> TP2_RATIO)) 2" "ep_bullish p"
    by (simp_all add: p_def build_plan_def Let_def ds_def[symmetric] m_def by_side_def)
  moreover have "list_min ds \<le> of_int 223" using list_min_le[of 222 ds] xy(1) by simp
  then have "pyround (list_min ds) 2 \<le> of_int 223" by (rule pyround_le_int) simp
  then have "fst (ep_prz p) \<le> 223" by (simp add: p_def build_plan_def Let_def ds_def[symmetric])
  ultimately show ?thesis using run gr by (intro exI[of _ p]) simp
qed


end
