(* ===== verification/PyText.thy ===== *)
theory PyText
  imports VibeStore
begin

text \<open>
  Python text operations shared by the clients: capitals, lines, the first occurrence of a separator, and \<open>int\<close> and
  \<open>list\<close> on JSON values. Strings are Latin-1.
\<close>

section \<open>Text\<close>

text \<open>\<open>str.upper()\<close>; the two letters whose capital is no Latin-1 letter stay, and occur in no word looked for.\<close>

definition upper_text :: "string \<Rightarrow> string" where
  "upper_text s = concat (map (\<lambda>c. let n = of_char c :: nat in
     if n = 223 then ''SS''
     else if (97 \<le> n \<and> n \<le> 122) \<or> (224 \<le> n \<and> n \<le> 254 \<and> n \<noteq> 247) then [char_of (n - 32)] else [c]) s)"

definition line_break :: "char \<Rightarrow> bool" where
  "line_break c = (let n = of_char c :: nat in (10 \<le> n \<and> n \<le> 13) \<or> (28 \<le> n \<and> n \<le> 30) \<or> n = 133)"

text \<open>\<open>str.splitlines()\<close>: a carriage return and a line feed are one break, and a final break opens no line.\<close>

fun splitlines_from :: "string \<Rightarrow> string \<Rightarrow> string list" where
  "splitlines_from acc [] = (if acc = [] then [] else [rev acc])"
| "splitlines_from acc [c] = (if line_break c then [rev acc] else [rev (c # acc)])"
| "splitlines_from acc (c # d # s) =
     (if c = CHR 0x0D \<and> d = CHR 0x0A then rev acc # splitlines_from [] s
      else if line_break c then rev acc # splitlines_from [] (d # s)
      else splitlines_from (c # acc) (d # s))"

definition splitlines :: "string \<Rightarrow> string list" where
  "splitlines s = splitlines_from [] s"

text \<open>The rest after the first occurrence of a separator: \<open>s.split(sep, 1)[1]\<close> and \<open>s.index(sep)\<close>.\<close>

fun cut_at :: "string \<Rightarrow> string \<Rightarrow> (string \<times> string) option" where
  "cut_at p [] = (if p = [] then Some ([], []) else None)"
| "cut_at p (c # s) =
     (if prefix p (c # s) then Some ([], drop (length p) (c # s))
      else map_option (\<lambda>(a, b). (c # a, b)) (cut_at p s))"

text \<open>\<open>int(text)\<close>: blanks around, a sign, digits with single underscores between them.\<close>

definition is_digit :: "char \<Rightarrow> bool" where
  "is_digit c = (let n = of_char c :: nat in 48 \<le> n \<and> n \<le> 57)"

definition digits_value :: "string \<Rightarrow> int option" where
  "digits_value s =
     (let ws = split_on (CHR ''_'') s
      in if list_all (\<lambda>w. w \<noteq> [] \<and> list_all is_digit w) ws
         then Some (foldl (\<lambda>v c. 10 * v + (int (of_char c) - 48)) 0 (concat ws)) else None)"

definition int_text :: "string \<Rightarrow> int option" where
  "int_text s =
     (case strip s of [] \<Rightarrow> None
      | c # r \<Rightarrow> if c = CHR ''-'' then map_option uminus (digits_value r)
                 else if c = CHR ''+'' then digits_value r else digits_value (c # r))"

text \<open>\<open>int(v)\<close> and \<open>list(v)\<close> on a JSON value, with the class of the exception.\<close>

datatype py_error = PyTypeError | PyValueError | PyKeyError | PyAttributeError

definition int_json :: "json \<Rightarrow> py_error + int" where
  "int_json j =
     (case j of JNum x \<Rightarrow> Inr (if 0 \<le> x then \<lfloor>x\<rfloor> else \<lceil>x\<rceil>) | JBool b \<Rightarrow> Inr (if b then 1 else 0)
      | JStr s \<Rightarrow> (case int_text s of Some k \<Rightarrow> Inr k | None \<Rightarrow> Inl PyValueError)
      | _ \<Rightarrow> Inl PyTypeError)"

definition list_json :: "json \<Rightarrow> py_error + json list" where
  "list_json j =
     (case j of JList xs \<Rightarrow> Inr xs | JStr s \<Rightarrow> Inr (map (\<lambda>c. JStr [c]) s) | JObj d \<Rightarrow> Inr (map (\<lambda>kv. JStr (fst kv)) d)
      | _ \<Rightarrow> Inl PyTypeError)"

lemma int_json_of_int [simp]: "int_json (JNum (of_int k)) = Inr k"
  by (simp add: int_json_def)

end
