(* ===== verification/Skillpay.thy ===== *)
theory Skillpay
  imports PyText
begin

text \<open>
  \<^verbatim>\<open>app/infra/alipay_client.py\<close> and \<^verbatim>\<open>app/api/skillpay_routes.py\<close>: the purchase of a skill. The commands for the
  payment program, the reading of its output, what an answer leads to, and the download, extraction and
  installation of an archive. Arguments: what the program prints, the text and the parser of JSON, the reply of a
  download, what the archive and its \<^verbatim>\<open>SKILL.md\<close> hold, and which paths exist. The effects on the file system are a
  list, which the file system accepts. Strings are Latin-1, so the Chinese form of the marker of an open payment is left out.
\<close>

section \<open>The payment program\<close>

datatype skillpay_error =
    NoCredentials | BotFailed | AttributeError
  | PaymentRequired | UnhandledResponse json | BadUrl | TooLarge | BadLength | DownloadFailed
  | ExtractionFailed | NoSkillFile | MissingMetadata | InstallFailed

record alipay_client =
  ac_merchant :: string
  ac_skill :: string
  ac_bot :: string

definition or_env :: "string option \<Rightarrow> string option \<Rightarrow> string" where
  "or_env v env = (case v of Some (c # s) \<Rightarrow> c # s | _ \<Rightarrow> (case env of Some e \<Rightarrow> e | None \<Rightarrow> []))"

definition find_alipay_bot :: "(string \<Rightarrow> bool) \<Rightarrow> string \<Rightarrow> string" where
  "find_alipay_bot answers home =
     (case filter answers [''alipay-bot'', home @ ''/.local/bin/alipay-bot''] of [] \<Rightarrow> ''alipay-bot'' | b # _ \<Rightarrow> b)"

definition new_alipay ::
    "(string \<Rightarrow> bool) \<Rightarrow> string \<Rightarrow> string option \<Rightarrow> string option \<Rightarrow> string option \<Rightarrow> string option \<Rightarrow> string option \<Rightarrow> alipay_client" where
  "new_alipay answers home merchant skill bot_path env_merchant env_skill =
     \<lparr>ac_merchant = or_env merchant env_merchant, ac_skill = or_env skill env_skill,
      ac_bot = (case bot_path of Some (c # s) \<Rightarrow> c # s | _ \<Rightarrow> find_alipay_bot answers home)\<rparr>"

definition AGENTPAY_BASE :: string where "AGENTPAY_BASE = ''https://agentpay.alipay.com/ai-pay/proxy''"

definition fulfillment_url :: "alipay_client \<Rightarrow> skillpay_error + string" where
  "fulfillment_url c =
     (if ac_merchant c = [] \<or> ac_skill c = [] then Inl NoCredentials
      else Inr (AGENTPAY_BASE @ ''/'' @ ac_merchant c @ ''/'' @ ac_skill c))"

definition opt_text :: "string option \<Rightarrow> string" where
  "opt_text v = (case v of Some s \<Rightarrow> s | None \<Rightarrow> [])"

definition request_args :: "string \<Rightarrow> string \<Rightarrow> string \<Rightarrow> string list" where
  "request_args url meth data =
     [''--resource-url'', url, ''--method'', meth, ''--data'', data, ''--header'', ''Content-Type: application/json'']"

definition fulfill_cmd ::
    "(json \<Rightarrow> string) \<Rightarrow> alipay_client \<Rightarrow> string \<Rightarrow> string option \<Rightarrow> string option \<Rightarrow> string \<Rightarrow> string option \<Rightarrow> string option
     \<Rightarrow> skillpay_error + string list" where
  "fulfill_cmd dumps c prompt order_no resource_url meth data skill_zip_url =
     (let data_str = (if opt_text data \<noteq> [] then opt_text data else dumps (JObj [(''prompt'', JStr prompt)]));
          cmd = [ac_bot c, ''skillpay'', ''--json'']
      in if opt_text skill_zip_url \<noteq> [] then Inr (cmd @ [''--fulfillment-proof'', opt_text skill_zip_url])
         else if opt_text resource_url \<noteq> [] then
           Inr (cmd @ request_args (opt_text resource_url) meth data_str
                @ (if opt_text order_no \<noteq> [] then [''--out-shake-no'', opt_text order_no] else []))
         else ebind (fulfillment_url c) (\<lambda>url. Inr (cmd @ request_args url ''POST'' data_str)))"

text \<open>The first line that looks like JSON decides; one that does not parse gives the raw text.\<close>

definition parse_response :: "(string \<Rightarrow> json option) \<Rightarrow> string \<Rightarrow> json" where
  "parse_response loads raw =
     (case filter (\<lambda>s. startswith s ''{'' \<or> startswith s ''['') (map strip (splitlines raw)) of
        [] \<Rightarrow> JObj [(''raw'', JStr raw)]
      | s # _ \<Rightarrow> (case loads s of Some j \<Rightarrow> j | None \<Rightarrow> JObj [(''raw'', JStr raw)]))"

definition fulfill ::
    "(json \<Rightarrow> string) \<Rightarrow> (string \<Rightarrow> json option) \<Rightarrow> (string list \<Rightarrow> string option) \<Rightarrow> alipay_client \<Rightarrow> string \<Rightarrow> skillpay_error + json" where
  "fulfill dumps loads run c prompt =
     ebind (fulfill_cmd dumps c prompt None None ''POST'' None None) (\<lambda>cmd.
       case run cmd of None \<Rightarrow> Inl BotFailed | Some raw \<Rightarrow> Inr (parse_response loads raw))"

datatype pay_state = PAID | PENDING | REFUNDED | UNKNOWN

record payment_status =
  ps_order :: string
  ps_status :: pay_state
  ps_paid_at :: json
  ps_skill_id :: json
  ps_skill_name :: json

definition classify :: "string \<Rightarrow> pay_state" where
  "classify status_text =
     (let t = upper_text status_text
      in if str_in ''PAID'' t \<or> str_in ''TRADE_SUCCESS'' t then PAID
         else if str_in ''PENDING'' t \<or> str_in ''WAIT'' t then PENDING
         else if str_in ''REFUND'' t then REFUNDED
         else UNKNOWN)"

definition json_or :: "json \<Rightarrow> json \<Rightarrow> json" where
  "json_or a b = (if jtruthy a then a else b)"

definition parse_payment_status :: "(string \<Rightarrow> json option) \<Rightarrow> (json \<Rightarrow> string) \<Rightarrow> string \<Rightarrow> string \<Rightarrow> skillpay_error + payment_status" where
  "parse_payment_status loads text_of raw order_no =
     (case parse_response loads raw of
        JObj d \<Rightarrow>
          let st = get_default d ''status'' (get_default d ''trade_status'' (JStr []))
          in Inr \<lparr>ps_order = order_no, ps_status = classify (case st of JStr s \<Rightarrow> s | v \<Rightarrow> text_of v),
                  ps_paid_at = json_or (get_default d ''gmt_payment'' JNull) (get_default d ''pay_time'' JNull),
                  ps_skill_id = get_default d ''skill_id'' JNull, ps_skill_name = get_default d ''skill_name'' JNull\<rparr>
      | _ \<Rightarrow> Inl AttributeError)"

definition query_cmd :: "(json \<Rightarrow> string) \<Rightarrow> alipay_client \<Rightarrow> string \<Rightarrow> string option \<Rightarrow> string \<Rightarrow> string option \<Rightarrow> skillpay_error + string list" where
  "query_cmd dumps c order_no resource_url meth data =
     ebind (if opt_text resource_url \<noteq> [] then Inr (opt_text resource_url) else fulfillment_url c) (\<lambda>url.
       Inr ([ac_bot c, ''402-query-payment-status'', ''--out-shake-no'', order_no]
            @ request_args url meth (if opt_text data \<noteq> [] then opt_text data else dumps (JObj [(''prompt'', JStr ''firsttimebuy'')]))))"

definition query_payment_status ::
    "(json \<Rightarrow> string) \<Rightarrow> (string \<Rightarrow> json option) \<Rightarrow> (json \<Rightarrow> string) \<Rightarrow> (string list \<Rightarrow> string option) \<Rightarrow> alipay_client \<Rightarrow> string
     \<Rightarrow> skillpay_error + payment_status" where
  "query_payment_status dumps loads text_of run c order_no =
     ebind (query_cmd dumps c order_no None ''POST'' None) (\<lambda>cmd.
       case run cmd of None \<Rightarrow> Inl BotFailed | Some raw \<Rightarrow> parse_payment_status loads text_of raw order_no)"

section \<open>Paths\<close>

text \<open>\<open>os.path.normpath\<close> (POSIX): blanks and dots dropped, a parent step removes the step before it.\<close>

definition norm_step :: "bool \<Rightarrow> string list \<Rightarrow> string \<Rightarrow> string list" where
  "norm_step rooted comps c =
     (if c = [] \<or> c = ''.'' then comps
      else if c \<noteq> ''..'' \<or> (\<not> rooted \<and> comps = []) \<or> (comps \<noteq> [] \<and> last comps = ''..'') then comps @ [c]
      else butlast comps)"

definition norm_comps :: "string \<Rightarrow> string list" where
  "norm_comps p = foldl (norm_step (startswith p ''/'')) [] (split_on (CHR ''/'') p)"

definition normpath :: "string \<Rightarrow> string" where
  "normpath p =
     (if p = [] then ''.''
      else let slashes = (if \<not> startswith p ''/'' then [] else if startswith p ''//'' \<and> \<not> startswith p ''///'' then ''//'' else ''/'');
               r = slashes @ join ''/'' (norm_comps p)
           in if r = [] then ''.'' else r)"

text \<open>Where a name leads from a directory, step by step; an absolute one leaves it.\<close>

definition walk_step :: "string list \<Rightarrow> string \<Rightarrow> string list" where
  "walk_step dir c = (if c = [] \<or> c = ''.'' then dir else if c = ''..'' then butlast dir else dir @ [c])"

definition resolve :: "string list \<Rightarrow> string \<Rightarrow> string list" where
  "resolve dir name = foldl walk_step (if startswith name ''/'' then [] else dir) (split_on (CHR ''/'') name)"

section \<open>Download, extraction, installation\<close>

text \<open>\<open>_validate_archive_members\<close>: a member with an empty name is skipped; \<open>_validate_zip_members\<close> skips none.\<close>

definition unsafe_name :: "string \<Rightarrow> bool" where
  "unsafe_name name = (let n = normpath name in startswith n ''..'' \<or> startswith n ''/'' \<or> str_in ''..'' n)"

datatype member_kind = RegularMember | DirMember | SymLinkTo string | HardLinkTo string

record tar_member =
  tm_name :: string
  tm_kind :: member_kind

text \<open>The check reads the names; neither the kind of a member nor the target of a link is looked at.\<close>

definition validate_archive_members :: "tar_member list \<Rightarrow> bool" where
  "validate_archive_members members = list_all (\<lambda>m. tm_name m = [] \<or> \<not> unsafe_name (tm_name m)) members"

definition validate_zip_members :: "string list \<Rightarrow> bool" where
  "validate_zip_members names = list_all (\<lambda>m. \<not> unsafe_name m) names"

text \<open>
  \<open>tarfile.extractall\<close> as Python 3.11 has it, into a directory that is empty before: the symbolic links it has made, the hard links as the
  file each is another name of, and the places it has written or created, in order. A path is walked as the system does it, links
  followed, at most forty of them; \<open>None\<close> is the error of a longer chain. A hard link's file is taken to exist.
\<close>

record extraction =
  xt_links :: "(string list \<times> string) list"
  xt_hard :: "(string list \<times> string list) list"
  xt_paths :: "string list list"

fun follow :: "nat \<Rightarrow> (string list \<times> string) list \<Rightarrow> string list \<Rightarrow> string list \<Rightarrow> string list option" where
  "follow n links cur [] = Some cur"
| "follow n links cur (c # cs) =
     (let p = walk_step cur c
      in case map_of links p of
           None \<Rightarrow> follow n links p cs
         | Some t \<Rightarrow>
             (case n of 0 \<Rightarrow> None
              | Suc m \<Rightarrow> follow m links (if startswith t ''/'' then [] else butlast p) (split_on (CHR ''/'') t @ cs)))"

definition locate :: "(string list \<times> string) list \<Rightarrow> string list \<Rightarrow> string \<Rightarrow> string list option" where
  "locate links dir name = follow 40 links (if startswith name ''/'' then [] else dir) (split_on (CHR ''/'') name)"

text \<open>A symbolic link is made where the name leads, its own last step not followed.\<close>

definition link_place :: "(string list \<times> string) list \<Rightarrow> string list \<Rightarrow> string \<Rightarrow> string list option" where
  "link_place links dir name =
     (let cs = filter (\<lambda>c. c \<noteq> [] \<and> c \<noteq> ''.'') (split_on (CHR ''/'') name)
      in if cs = [] \<or> last cs = ''..'' then None
         else map_option (\<lambda>d. d @ [last cs]) (follow 40 links (if startswith name ''/'' then [] else dir) (butlast cs)))"

definition extract_member :: "string list \<Rightarrow> tar_member \<Rightarrow> extraction \<Rightarrow> extraction option" where
  "extract_member dir m x =
     (let place = (\<lambda>p. case map_of (xt_hard x) p of Some q \<Rightarrow> q | None \<Rightarrow> p)
      in case tm_kind m of
           SymLinkTo t \<Rightarrow>
             map_option (\<lambda>p. x\<lparr>xt_links := AList.update p t (xt_links x), xt_paths := xt_paths x @ [p]\<rparr>)
               (link_place (xt_links x) dir (tm_name m))
         | HardLinkTo t \<Rightarrow>
             Option.bind (locate (xt_links x) dir t) (\<lambda>q.
               map_option (\<lambda>p. x\<lparr>xt_hard := AList.update p (place q) (xt_hard x), xt_paths := xt_paths x @ [p]\<rparr>)
                 (locate (xt_links x) dir (tm_name m)))
         | _ \<Rightarrow> map_option (\<lambda>p. x\<lparr>xt_paths := xt_paths x @ [place p]\<rparr>) (locate (xt_links x) dir (tm_name m)))"

fun extract_members :: "string list \<Rightarrow> tar_member list \<Rightarrow> extraction \<Rightarrow> extraction option" where
  "extract_members dir [] x = Some x"
| "extract_members dir (m # ms) x = Option.bind (extract_member dir m x) (extract_members dir ms)"

definition extract_tar :: "string list \<Rightarrow> tar_member list \<Rightarrow> string list list option" where
  "extract_tar dir ms = map_option xt_paths (extract_members dir ms \<lparr>xt_links = [], xt_hard = [], xt_paths = []\<rparr>)"

text \<open>\<open>zipfile\<close> drops the empty, dot and parent steps of a name and knows no links.\<close>

definition extract_zip :: "string list \<Rightarrow> string list \<Rightarrow> string list list" where
  "extract_zip dir names = map (\<lambda>m. dir @ filter (\<lambda>c. c \<notin> {[], ''.'', ''..''}) (split_on (CHR ''/'') m)) names"

text \<open>What a file is to the archive modules: what \<open>tarfile\<close> finds in it as gzip, as plain tar, and \<open>zipfile\<close>; and whether its data can be read.\<close>

record archive =
  ar_tgz :: "tar_member list option"
  ar_tar :: "tar_member list option"
  ar_zip :: "string list option"
  ar_extracts :: bool

definition checked_tar :: "string list \<Rightarrow> bool \<Rightarrow> tar_member list option \<Rightarrow> string list list option" where
  "checked_tar dir extracts members =
     (case members of Some ms \<Rightarrow> if validate_archive_members ms \<and> extracts then extract_tar dir ms else None | None \<Rightarrow> None)"

text \<open>The places written, \<open>None\<close> for an archive that is refused or fails.\<close>

definition secure_extract :: "string \<Rightarrow> string list \<Rightarrow> archive \<Rightarrow> string list list option" where
  "secure_extract suffix_of dir a =
     (if suffix_of \<in> {''.tar'', ''.gz'', ''.tgz'', ''.tar.gz''} then
        checked_tar dir (ar_extracts a) (if suffix_of = ''.gz'' then ar_tgz a else ar_tar a)
      else if suffix_of = ''.zip'' then
        (case ar_zip a of Some ns \<Rightarrow> if validate_zip_members ns \<and> ar_extracts a then Some (extract_zip dir ns) else None | None \<Rightarrow> None)
      else checked_tar dir (ar_extracts a) (ar_tgz a))"

text \<open>\<open>urlparse(url).scheme\<close> as Python 3.11 has it.\<close>

definition scheme_char :: "char \<Rightarrow> bool" where
  "scheme_char c = (let n = of_char c :: nat in
     (65 \<le> n \<and> n \<le> 90) \<or> (97 \<le> n \<and> n \<le> 122) \<or> is_digit c \<or> c \<in> {CHR ''+'', CHR ''-'', CHR ''.''})"

definition ascii_letter :: "char \<Rightarrow> bool" where
  "ascii_letter c = (let n = of_char c :: nat in (65 \<le> n \<and> n \<le> 90) \<or> (97 \<le> n \<and> n \<le> 122))"

definition url_scheme :: "string \<Rightarrow> string" where
  "url_scheme url =
     (let u = filter (\<lambda>c. c \<notin> {CHR 0x09, CHR 0x0A, CHR 0x0D}) (dropWhile (\<lambda>c. (of_char c :: nat) \<le> 32) url)
      in case cut_at '':'' u of
           Some (c # s, _) \<Rightarrow> if ascii_letter c \<and> list_all scheme_char s then lower (c # s) else []
         | _ \<Rightarrow> [])"

datatype reply = Unreachable | Reply "string option" bool archive

definition MAX_ARCHIVE :: int where "MAX_ARCHIVE = 100 * 1024 * 1024"

definition secure_download :: "string \<Rightarrow> reply \<Rightarrow> skillpay_error + archive" where
  "secure_download url reply =
     (if url_scheme url \<notin> {''http'', ''https''} then Inl BadUrl
      else case reply of
        Unreachable \<Rightarrow> Inl DownloadFailed
      | Reply content_length full a \<Rightarrow>
          ebind (if opt_text content_length = [] then Inr ()
                 else case int_text (opt_text content_length) of
                        None \<Rightarrow> Inl BadLength
                      | Some n \<Rightarrow> if MAX_ARCHIVE < n then Inl TooLarge else Inr ())
            (\<lambda>_. if full then Inr a else Inl DownloadFailed))"

definition unquote :: "string \<Rightarrow> string" where
  "unquote s = (let q = (\<lambda>c. c = CHR 0x22 \<or> c = CHR 0x27) in rev (dropWhile q (rev (dropWhile q s))))"

text \<open>
  \<open>re.search(r'^name:\\s*(.+)$', text, re.MULTILINE)\<close>: the first line that begins with the key and is followed, over
  blank lines too, by something; a tail of blanks alone matches when one of them is no line feed, and strips to nothing.
\<close>

fun name_field :: "bool \<Rightarrow> string \<Rightarrow> string option" where
  "name_field fresh [] = None"
| "name_field fresh (c # s) =
     (let here = (if fresh \<and> prefix ''name:'' (c # s) then
          (let r = drop 5 (c # s); t = dropWhile py_space r
           in if t \<noteq> [] then Some (takeWhile (\<lambda>x. x \<noteq> CHR 0x0A) t)
              else if list_ex (\<lambda>x. x \<noteq> CHR 0x0A) r then Some [] else None) else None)
      in case here of Some v \<Rightarrow> Some v | None \<Rightarrow> name_field (c = CHR 0x0A) s)"

text \<open>No name, an unreadable file and a front matter that is not closed all give none.\<close>

definition read_skill_name :: "string option \<Rightarrow> string option" where
  "read_skill_name text =
     (case text of None \<Rightarrow> None
      | Some t \<Rightarrow>
          let rest = map_option (\<lambda>v. unquote (strip v)) (name_field True t)
          in if startswith t ''---'' then
               (case cut_at ''---'' (drop 3 t) of None \<Rightarrow> None
                | Some (front, _) \<Rightarrow>
                    (case filter (\<lambda>l. startswith (strip l) ''name:'') (splitlines front) of
                       l # _ \<Rightarrow> map_option (\<lambda>(_, v). unquote (strip v)) (cut_at ''name:'' l)
                     | [] \<Rightarrow> rest))
             else rest)"

text \<open>\<open>target_dir / skill_name\<close> of \<open>pathlib\<close>: an absolute name replaces the directory, and parent steps stay.\<close>

definition path_join :: "string list \<Rightarrow> string \<Rightarrow> string list" where
  "path_join dir name =
     (if startswith name ''/'' then [] else dir) @ filter (\<lambda>c. c \<noteq> [] \<and> c \<noteq> ''.'') (split_on (CHR ''/'') name)"

datatype fs_effect = Mkdir "string list" | Move "string list" "string list" | CopyTree "string list"

text \<open>\<open>with_name\<close> raises on a path without a last component.\<close>

definition install_to :: "(string list \<Rightarrow> bool) \<Rightarrow> string \<Rightarrow> string list \<Rightarrow> (skillpay_error + unit) \<times> fs_effect list" where
  "install_to exists_at stamp p =
     (if exists_at p then
        (if p = [] then (Inl InstallFailed, [Mkdir (butlast p)])
         else (Inr (), [Mkdir (butlast p), Move p (butlast p @ [last p @ ''.backup-'' @ stamp]), CopyTree p]))
      else (Inr (), [Mkdir (butlast p), CopyTree p]))"

record fulfillment_result =
  fr_success :: bool
  fr_skill_name :: "string option"
  fr_install_path :: "string list option"
  fr_error :: "skillpay_error option"
  fr_order_no :: json
  fr_payment_url :: json
  fr_already_paid :: bool

definition failed :: "skillpay_error \<Rightarrow> fulfillment_result" where
  "failed e = \<lparr>fr_success = False, fr_skill_name = None, fr_install_path = None, fr_error = Some e,
     fr_order_no = JNull, fr_payment_url = JNull, fr_already_paid = False\<rparr>"

record install_ctx =
  ix_reply :: "string \<Rightarrow> reply"
  ix_tmp :: "string list"
  ix_skill_md :: "string list list \<Rightarrow> string option option"
  ix_exists :: "string list \<Rightarrow> bool"
  ix_stamp :: string
  ix_home :: "string list"

text \<open>The downloaded file is called \<^verbatim>\<open>skill_archive\<close>, so it has no suffix.\<close>

definition install_from_url :: "install_ctx \<Rightarrow> string \<Rightarrow> string list option \<Rightarrow> fulfillment_result \<times> fs_effect list" where
  "install_from_url cx url skill_dir =
     (let target = (case skill_dir of Some d \<Rightarrow> d | None \<Rightarrow> ix_home cx)
      in case secure_download url (ix_reply cx url) of
           Inl e \<Rightarrow> (failed e, [])
         | Inr a \<Rightarrow>
             (case secure_extract [] (ix_tmp cx) a of
                None \<Rightarrow> (failed ExtractionFailed, [])
              | Some paths \<Rightarrow>
                  (case ix_skill_md cx paths of
                     None \<Rightarrow> (failed ExtractionFailed, [])
                   | Some text \<Rightarrow>
                       (case read_skill_name text of
                          None \<Rightarrow> (failed MissingMetadata, [])
                        | Some [] \<Rightarrow> (failed MissingMetadata, [])
                        | Some name \<Rightarrow>
                            (let p = path_join target name
                             in case install_to (ix_exists cx) (ix_stamp cx) p of
                                  (Inl e, fx) \<Rightarrow> (failed e, fx)
                                | (Inr _, fx) \<Rightarrow>
                                    ((failed InstallFailed)\<lparr>fr_success := True, fr_skill_name := Some name,
                                        fr_install_path := Some p, fr_error := None\<rparr>, fx))))))"

section \<open>What an answer leads to\<close>

text \<open>A marker of capitals and underscores occurs in the JSON text exactly when a key or a string holds it.\<close>

fun mentions :: "string \<Rightarrow> json \<Rightarrow> bool" where
  "mentions p (JStr s) = str_in p s"
| "mentions p (JList xs) = list_ex (mentions p) xs"
| "mentions p (JObj d) = list_ex (\<lambda>kv. str_in p (fst kv) \<or> mentions p (snd kv)) d"
| "mentions p _ = False"

definition process_fulfillment_response :: "install_ctx \<Rightarrow> json \<Rightarrow> string list option \<Rightarrow> skillpay_error + fulfillment_result \<times> fs_effect list" where
  "process_fulfillment_response cx resp skill_dir =
     (if \<not> is_obj resp then Inl AttributeError
      else if mentions ''PAYMENT_REQUIRED'' resp then
        (let order_no = json_or (jget resp ''order_no'') (case resp of JObj d \<Rightarrow> get_default d ''out_trade_no'' (JStr []) | _ \<Rightarrow> JNull);
             pay = json_or (jget resp ''pay_url'') (json_or (jget resp ''qr_code'') (JStr []))
         in Inr ((failed PaymentRequired)\<lparr>fr_order_no := order_no, fr_payment_url := pay\<rparr>, []))
      else let u = json_or (jget resp ''fulfillment_proof'') (json_or (jget resp ''download_url'') (jget resp ''url''))
           in if jtruthy u \<and> \<not> (case u of JStr _ \<Rightarrow> True | _ \<Rightarrow> False) then Inl AttributeError
              else case u of
                JStr s \<Rightarrow> if startswith s ''http'' then Inr (install_from_url cx s skill_dir)
                          else if jget resp ''success'' = JBool True \<or> jget resp ''fulfillment_result'' = JStr ''SUCCESS''
                          then Inr ((failed InstallFailed)\<lparr>fr_success := True, fr_error := None, fr_already_paid := True\<rparr>, [])
                          else Inr (failed (UnhandledResponse resp), [])
              | _ \<Rightarrow> if jget resp ''success'' = JBool True \<or> jget resp ''fulfillment_result'' = JStr ''SUCCESS''
                     then Inr ((failed InstallFailed)\<lparr>fr_success := True, fr_error := None, fr_already_paid := True\<rparr>, [])
                     else Inr (failed (UnhandledResponse resp), []))"

definition fulfill_skill ::
    "install_ctx \<Rightarrow> (json \<Rightarrow> string) \<Rightarrow> (string \<Rightarrow> json option) \<Rightarrow> (string list \<Rightarrow> string option) \<Rightarrow> alipay_client \<Rightarrow> string
     \<Rightarrow> string list option \<Rightarrow> string option \<Rightarrow> skillpay_error + fulfillment_result \<times> fs_effect list" where
  "fulfill_skill cx dumps loads run c prompt skill_dir skill_zip_url =
     (if opt_text skill_zip_url \<noteq> [] then Inr (install_from_url cx (opt_text skill_zip_url) skill_dir)
      else case fulfill dumps loads run c prompt of
             Inl e \<Rightarrow> Inr (failed e, [])
           | Inr resp \<Rightarrow> process_fulfillment_response cx resp skill_dir)"

section \<open>The routes\<close>

text \<open>The status and the body, without the messages for the user.\<close>

definition error_json :: "(skillpay_error \<Rightarrow> string) \<Rightarrow> skillpay_error option \<Rightarrow> json" where
  "error_json err_text e = (case e of None \<Rightarrow> JNull | Some x \<Rightarrow> JStr (err_text x))"

definition path_text :: "string list \<Rightarrow> string" where
  "path_text p = ''/'' @ join ''/'' p"

definition fulfill_route :: "(skillpay_error \<Rightarrow> string) \<Rightarrow> skillpay_error + fulfillment_result \<times> fs_effect list \<Rightarrow> nat \<times> json" where
  "fulfill_route err_text res =
     (case res of
        Inl e \<Rightarrow> (500, JObj [(''success'', JBool False), (''error'', JStr (err_text e))])
      | Inr (r, _) \<Rightarrow>
          (if fr_success r \<or> jtruthy (fr_payment_url r) then 200 else 400,
           JObj ([(''success'', JBool (fr_success r)), (''error'', error_json err_text (fr_error r))]
             @ (if jtruthy (fr_order_no r) then [(''order_no'', fr_order_no r)] else [])
             @ (if jtruthy (fr_payment_url r) then [(''payment_url'', fr_payment_url r)] else [])
             @ (case fr_install_path r of None \<Rightarrow> [] | Some p \<Rightarrow> [(''install_path'', JStr (path_text p))])
             @ (if opt_text (fr_skill_name r) \<noteq> [] then [(''skill_name'', JStr (opt_text (fr_skill_name r)))] else []))))"

definition pay_state_text :: "pay_state \<Rightarrow> string" where
  "pay_state_text s = (case s of PAID \<Rightarrow> ''PAID'' | PENDING \<Rightarrow> ''PENDING'' | REFUNDED \<Rightarrow> ''REFUNDED'' | UNKNOWN \<Rightarrow> ''UNKNOWN'')"

definition status_route :: "(skillpay_error \<Rightarrow> string) \<Rightarrow> skillpay_error + payment_status \<Rightarrow> nat \<times> json" where
  "status_route err_text res =
     (case res of
        Inl e \<Rightarrow> (500, JObj [(''success'', JBool False), (''error'', JStr (err_text e))])
      | Inr s \<Rightarrow> (200, JObj [(''order_no'', JStr (ps_order s)), (''status'', JStr (pay_state_text (ps_status s))),
          (''paid_at'', ps_paid_at s), (''skill_id'', ps_skill_id s), (''skill_name'', ps_skill_name s)]))"

definition install_route :: "(skillpay_error \<Rightarrow> string) \<Rightarrow> install_ctx \<Rightarrow> string option \<Rightarrow> nat \<times> json" where
  "install_route err_text cx zip_url =
     (if opt_text zip_url = [] then (400, JObj [(''success'', JBool False), (''error'', JStr ''skill_zip_url is required'')])
      else let r = fst (install_from_url cx (opt_text zip_url) None)
           in (200, JObj [(''success'', JBool (fr_success r)),
                (''skill_name'', case fr_skill_name r of None \<Rightarrow> JNull | Some n \<Rightarrow> JStr n),
                (''install_path'', case fr_install_path r of None \<Rightarrow> JNull | Some p \<Rightarrow> JStr (path_text p)),
                (''error'', error_json err_text (fr_error r))]))"

text \<open>The callback of the payment: one row for the scan log, whatever its parameters say; the answer is always success.\<close>

definition payment_event :: "(json \<Rightarrow> string) \<Rightarrow> string \<Rightarrow> json \<Rightarrow> json \<Rightarrow> json \<Rightarrow> json \<Rightarrow> json" where
  "payment_event text_of now order_no trade_no trade_status amount =
     (let sent = (trade_status = JStr ''TRADE_SUCCESS'' \<or> trade_status = JStr ''TRADE_FINISHED'')
      in JObj [(''user_id'', order_no), (''symbol'', JStr (''PAYMENT:'' @ text_of trade_status)), (''scan_time'', JStr now),
               (''timeframe'', JStr ''PAYMENT''), (''signals_found'', JNum 0), (''top_score'', JNum 0),
               (''top_pattern'', JStr (''amount:'' @ text_of amount)), (''top_direction'', trade_no),
               (''is_sent'', JBool sent), (''sent_at'', if sent then JStr now else JNull)])"

definition webhook :: "(json \<Rightarrow> string) \<Rightarrow> string \<Rightarrow> (string \<times> json) list \<Rightarrow> (string \<times> nat) \<times> json" where
  "webhook text_of now params =
     ((''success'', 200),
      payment_event text_of now (get_default params ''out_trade_no'' (JStr [])) (get_default params ''trade_no'' (JStr []))
        (get_default params ''trade_status'' (JStr []))
        (json_or (get_default params ''total_amount'' JNull) (get_default params ''buyer_pay_amount'' (JStr ''0''))))"

section \<open>An accepted archive stays in its directory\<close>

lemma walk_norm:
  "''..'' \<notin> set (foldl (norm_step False) [] cs) \<Longrightarrow> foldl walk_step dir cs = dir @ foldl (norm_step False) [] cs"
proof (induction cs rule: rev_induct)
  case (snoc c cs)
  define n where "n = foldl (norm_step False) [] cs"
  have clean: "''..'' \<notin> set (norm_step False n c)" using snoc.prems by (simp add: n_def)
  have "''..'' \<notin> set n \<and> (c = ''..'' \<longrightarrow> n \<noteq> [])"
  proof (cases "c = ''..''")
    case True
    then have "n \<noteq> []" "last n \<noteq> ''..''" "''..'' \<notin> set (butlast n)"
      using clean by (auto simp: norm_step_def split: if_splits)
    then show ?thesis by (metis append_butlast_last_id insert_iff list.set(2) rotate1.simps(2) set_rotate1)
  qed (use clean in \<open>auto simp: norm_step_def split: if_splits\<close>)
  then have "foldl walk_step dir cs = dir @ n" "c = ''..'' \<longrightarrow> n \<noteq> [] \<and> last n \<noteq> ''..''"
    using snoc.IH last_in_set[of n] unfolding n_def by metis+
  moreover from this(2) have "walk_step (dir @ n) c = dir @ norm_step False n c"
    by (auto simp: norm_step_def walk_step_def butlast_append)
  ultimately show ?case by (simp add: n_def)
qed simp

lemma sublist_join: "w \<in> set ws \<Longrightarrow> sublist w (join sep ws)"
proof (induction ws rule: induct_list012)
  case (3 x y zs)
  then show ?case by (auto intro: sublist_appendI[of _ _ "[]" for x, simplified] sublist_order.order_trans[of _ "join sep (y # zs)"] simp: append_assoc[symmetric] simp del: append_assoc)
qed auto

lemma safe_name_inside:
  assumes "\<not> unsafe_name m" "m \<noteq> []"
  shows "resolve dir m = dir @ norm_comps m"
proof -
  have n: "\<not> startswith (normpath m) ''/''" "\<not> sublist ''..'' (normpath m)"
    using assms(1) by (auto simp: unsafe_name_def Let_def str_in_iff)
  have root: "\<not> startswith m ''/''" using n(1) assms(2) by (auto simp: normpath_def startswith_def Let_def split: if_splits)
  then have norm: "normpath m = (if join ''/'' (norm_comps m) = [] then ''.'' else join ''/'' (norm_comps m))"
    using assms(2) by (simp add: normpath_def Let_def)
  have "''..'' \<notin> set (norm_comps m)"
  proof
    assume "''..'' \<in> set (norm_comps m)"
    then have "sublist ''..'' (join ''/'' (norm_comps m))" by (rule sublist_join)
    then show False using n(2) norm by (auto split: if_splits)
  qed
  then show ?thesis using walk_norm root unfolding norm_comps_def resolve_def by simp
qed

text \<open>Without links a name leads where its steps do.\<close>

definition plain_member :: "tar_member \<Rightarrow> bool" where
  "plain_member m = (tm_kind m = RegularMember \<or> tm_kind m = DirMember)"

lemma follow_plain: "follow n [] cur cs = Some (foldl walk_step cur cs)"
  by (induction cs arbitrary: cur) simp_all

lemma extract_plain:
  "list_all plain_member ms \<Longrightarrow> xt_links x = [] \<Longrightarrow> xt_hard x = [] \<Longrightarrow>
     extract_members dir ms x = Some (x\<lparr>xt_paths := xt_paths x @ map (\<lambda>m. resolve dir (tm_name m)) ms\<rparr>)"
proof (induction ms arbitrary: x)
  case (Cons m ms)
  have "locate [] dir (tm_name m) = Some (resolve dir (tm_name m))" by (simp add: locate_def follow_plain resolve_def)
  then have "extract_member dir m x = Some (x\<lparr>xt_paths := xt_paths x @ [resolve dir (tm_name m)]\<rparr>)"
    using Cons.prems by (auto simp: extract_member_def plain_member_def)
  then show ?case using Cons by simp
qed simp

lemma safe_plain_inside:
  assumes "validate_archive_members ms" "list_all plain_member ms" "extract_tar dir ms = Some paths"
  shows "list_all (prefix dir) paths"
proof -
  have "prefix dir (resolve dir (tm_name m))" if m: "m \<in> set ms" for m
  proof (cases "tm_name m = []")
    case True
    then show ?thesis by (simp add: resolve_def startswith_def walk_step_def)
  next
    case False
    then have "\<not> unsafe_name (tm_name m)" using assms(1) m by (auto simp: validate_archive_members_def list_all_iff)
    then show ?thesis using safe_name_inside False by simp
  qed
  moreover have "paths = map (\<lambda>m. resolve dir (tm_name m)) ms"
    using assms(3) extract_plain[OF assms(2), of "\<lparr>xt_links = [], xt_hard = [], xt_paths = []\<rparr>"] by (simp add: extract_tar_def)
  ultimately show ?thesis by (simp add: list_all_iff)
qed

lemma plain_join: "CHR ''/'' \<notin> set name \<Longrightarrow> name \<noteq> [] \<Longrightarrow> name \<noteq> ''.'' \<Longrightarrow> path_join dir name = dir @ [name]"
  by (cases name) (auto simp: path_join_def split_on_clean startswith_def)

text \<open>
  C39: An installed skill comes from a checked archive. When the installation of a URL succeeds, the URL is HTTP or HTTPS, the
  file was a gzipped tar (no other kind is accepted) whose names passed the check, and if it holds regular files and
  directories only, every place the extraction wrote lies below its own directory. (With a link among the members that fails, see below.)
  The skill's name is not empty, and the skill is copied to the target joined with that name: directly below the target when the name is a
  single step other than the dot and the two dots.
\<close>

theorem skill_install_confined:
  assumes "install_from_url cx url skill_dir = (r, fx)" and "fr_success r"
  shows "url_scheme url \<in> {''http'', ''https''}
    \<and> (\<exists>len full a ms paths name p.
          ix_reply cx url = Reply len full a \<and> ar_tgz a = Some ms \<and> extract_tar (ix_tmp cx) ms = Some paths
          \<and> list_all (\<lambda>m. tm_name m = [] \<or> \<not> unsafe_name (tm_name m)) ms
          \<and> (if list_all plain_member ms then list_all (prefix (ix_tmp cx)) paths else True)
          \<and> fr_skill_name r = Some name \<and> name \<noteq> [] \<and> fr_install_path r = Some p \<and> last fx = CopyTree p
          \<and> p = path_join (case skill_dir of Some d \<Rightarrow> d | None \<Rightarrow> ix_home cx) name
          \<and> (if CHR ''/'' \<in> set name \<or> name \<in> {''.'', ''..''} then True
             else p = (case skill_dir of Some d \<Rightarrow> d | None \<Rightarrow> ix_home cx) @ [name]))"
proof -
  define target where "target = (case skill_dir of Some d \<Rightarrow> d | None \<Rightarrow> ix_home cx)"
  obtain a where a: "secure_download url (ix_reply cx url) = Inr a"
    using assms by (auto simp: install_from_url_def failed_def Let_def split: sum.splits)
  obtain paths where n: "secure_extract [] (ix_tmp cx) a = Some paths"
    using assms a by (auto simp: install_from_url_def failed_def Let_def split: option.splits)
  obtain md where t: "ix_skill_md cx paths = Some md"
    using assms a n by (auto simp: install_from_url_def failed_def Let_def split: option.splits)
  obtain name where name: "read_skill_name md = Some name" "name \<noteq> []"
    using assms a n t by (auto simp: install_from_url_def failed_def Let_def split: option.splits list.splits)
  define p where "p = path_join target name"
  obtain c cs where cs: "name = c # cs" using name(2) by (cases name) auto
  have go: "install_from_url cx url skill_dir =
      (case install_to (ix_exists cx) (ix_stamp cx) p of
         (Inl e, fx) \<Rightarrow> (failed e, fx)
       | (Inr _, fx) \<Rightarrow> ((failed InstallFailed)\<lparr>fr_success := True, fr_skill_name := Some name,
            fr_install_path := Some p, fr_error := None\<rparr>, fx))"
    unfolding p_def target_def cs using a n t name(1)[unfolded cs] by (simp add: install_from_url_def Let_def)
  have out: "fr_skill_name r = Some name" "fr_install_path r = Some p" "last fx = CopyTree p"
    using assms unfolding go by (auto simp: install_to_def failed_def split: if_splits)
  obtain len full where reply: "ix_reply cx url = Reply len full a" "url_scheme url \<in> {''http'', ''https''}"
    using a by (auto simp: secure_download_def split: if_splits reply.splits)
  obtain ms where tgz: "ar_tgz a = Some ms" "validate_archive_members ms" "extract_tar (ix_tmp cx) ms = Some paths"
    using n by (auto simp: secure_extract_def checked_tar_def split: option.splits if_splits)
  have inside: "if list_all plain_member ms then list_all (prefix (ix_tmp cx)) paths else True"
    using safe_plain_inside[OF tgz(2) _ tgz(3)] by simp
  have "if CHR ''/'' \<in> set name \<or> name \<in> {''.'', ''..''} then True else p = target @ [name]"
    using plain_join name(2) by (simp add: p_def)
  then show ?thesis
    using reply tgz(1,3) tgz(2)[unfolded validate_archive_members_def] inside out name(2) unfolding p_def target_def by blast
qed

definition demo_members :: "tar_member list" where
  "demo_members = [\<lparr>tm_name = ''skill'', tm_kind = DirMember\<rparr>, \<lparr>tm_name = ''skill/SKILL.md'', tm_kind = RegularMember\<rparr>]"

definition demo_archive :: archive where
  "demo_archive = \<lparr>ar_tgz = Some demo_members, ar_tar = None, ar_zip = None, ar_extracts = True\<rparr>"

definition demo_install :: install_ctx where
  "demo_install = \<lparr>ix_reply = (\<lambda>u. Reply (Some ''1024'') True demo_archive), ix_tmp = [''tmp''],
     ix_skill_md = (\<lambda>ns. Some (Some ''name: charts'')), ix_exists = (\<lambda>p. False), ix_stamp = ''0'', ix_home = [''home'', ''skills'']\<rparr>"

lemma demo_facts:
  "url_scheme ''https://x/y'' = ''https''" "int_text ''1024'' = Some 1024" "validate_archive_members demo_members"
  "read_skill_name (Some ''name: charts'') = Some ''charts''"
  "extract_tar [''tmp''] demo_members = Some [[''tmp'', ''skill''], [''tmp'', ''skill'', ''SKILL.md'']]"
  by code_simp+

lemma skill_install_confined_witness:
  "\<exists>r fx. install_from_url demo_install ''https://x/y'' None = (r, fx) \<and> fr_success r
     \<and> fr_install_path r = Some [''home'', ''skills'', ''charts'']
     \<and> list_all (prefix [''tmp'']) [[''tmp'', ''skill''], [''tmp'', ''skill'', ''SKILL.md'']]"
proof -
  have d: "secure_download ''https://x/y'' (ix_reply demo_install ''https://x/y'') = Inr demo_archive"
    by (simp add: secure_download_def demo_facts demo_install_def opt_text_def MAX_ARCHIVE_def)
  have e: "secure_extract [] (ix_tmp demo_install) demo_archive = Some [[''tmp'', ''skill''], [''tmp'', ''skill'', ''SKILL.md'']]"
    by (simp add: secure_extract_def checked_tar_def demo_archive_def demo_install_def demo_facts)
  have p: "path_join [''home'', ''skills''] ''charts'' = [''home'', ''skills'', ''charts'']" by code_simp
  obtain r fx where run: "install_from_url demo_install ''https://x/y'' None = (r, fx)" by (meson surj_pair)
  have rest: "ix_skill_md demo_install ns = Some (Some ''name: charts'')" "ix_exists demo_install q = False"
    "ix_home demo_install = [''home'', ''skills'']" for ns q by (simp_all add: demo_install_def)
  have ok: "fr_success r \<and> fr_install_path r = Some [''home'', ''skills'', ''charts'']"
    using run unfolding install_from_url_def Let_def d sum.case e option.case rest demo_facts(4) by (auto simp: rest p install_to_def)
  have plain: "list_all plain_member demo_members" by (simp add: demo_members_def plain_member_def)
  have "list_all (prefix [''tmp'']) [[''tmp'', ''skill''], [''tmp'', ''skill'', ''SKILL.md'']]"
    using skill_install_confined[OF run conjunct1[OF ok]] plain
    by (auto simp: demo_install_def demo_archive_def demo_facts(5))
  then show ?thesis using run ok by blast
qed

text \<open>
  Links defeat the check. A symbolic link and a file below it, or a hard link and a file of the same name, have names that pass, and the
  extraction writes outside its directory.
\<close>

lemma links_escape:
  "let ms = [\<lparr>tm_name = ''a'', tm_kind = SymLinkTo ''/etc''\<rparr>, \<lparr>tm_name = ''a/passwd'', tm_kind = RegularMember\<rparr>]
   in validate_archive_members ms \<and> extract_tar [''tmp''] ms = Some [[''tmp'', ''a''], [''etc'', ''passwd'']]"
  "let ms = [\<lparr>tm_name = ''a'', tm_kind = HardLinkTo ''../etc/passwd''\<rparr>, \<lparr>tm_name = ''a'', tm_kind = RegularMember\<rparr>]
   in validate_archive_members ms \<and> extract_tar [''tmp''] ms = Some [[''tmp'', ''a''], [''etc'', ''passwd'']]"
  by code_simp+

text \<open>
  The name in the archive's own file is not checked, so it can lead out of the target; and an order
  that is not paid counts as paid, since the word for it contains the other.
\<close>

lemma skill_name_escapes: "resolve [] (join ''/'' (path_join [''home'', ''skills''] ''../../bin'')) = [''bin'']"
  by code_simp

lemma unpaid_is_paid: "classify ''UNPAID'' = PAID"
  by code_simp

end
