(* ===== verification/SymbolCache.thy ===== *)
theory SymbolCache
  imports PyText PyFloat "HOL-Library.List_Lexorder" "HOL-Library.Char_ord"
begin

text \<open>
  \<^verbatim>\<open>app/infra/futures_symbols_cache.py\<close>: the file-backed cache of futures symbols. Parsing and filtering of the feed,
  the rows of the file, loading, the refresh in the foreground and in the background, and the interleaving of
  callers with the background thread. The feed, the clock and the outcome of a write are arguments; a JSON number is
  finite, and symbols are compared only as strings.
\<close>

section \<open>Entries\<close>

definition ALLOWED_CONTRACT_TYPES :: "json list" where
  "ALLOWED_CONTRACT_TYPES = [JStr ''PERPETUAL'', JStr ''TRADIFI_PERPETUAL'']"
definition STALENESS_SECONDS :: rat where "STALENESS_SECONDS = 604800"

record symbol_entry =
  se_symbol :: json
  se_base :: json
  se_quote :: json
  se_contract :: json
  se_underlying :: json
  se_sub_types :: "json list"
  se_price_precision :: int
  se_quantity_precision :: int
  se_tradfi :: bool
  se_onboard :: int

definition to_dict :: "symbol_entry \<Rightarrow> json" where
  "to_dict e = JObj [(''symbol'', se_symbol e), (''baseAsset'', se_base e), (''quoteAsset'', se_quote e),
     (''contractType'', se_contract e), (''underlyingType'', se_underlying e), (''underlyingSubTypes'', JList (se_sub_types e)),
     (''pricePrecision'', JNum (of_int (se_price_precision e))), (''quantityPrecision'', JNum (of_int (se_quantity_precision e))),
     (''isTradfi'', JBool (se_tradfi e)), (''onboardDate'', JNum (of_int (se_onboard e)))]"

definition or_empty :: "json \<Rightarrow> json" where
  "or_empty j = (if jtruthy j then j else JList [])"

definition entry_fields :: "(string \<times> json) list \<Rightarrow> bool \<Rightarrow> py_error + symbol_entry" where
  "entry_fields d tradfi =
     ebind (dict_at PyKeyError d ''symbol'') (\<lambda>s. ebind (dict_at PyKeyError d ''baseAsset'') (\<lambda>b.
     ebind (dict_at PyKeyError d ''quoteAsset'') (\<lambda>q. ebind (dict_at PyKeyError d ''contractType'') (\<lambda>ct.
     ebind (list_json (or_empty (get_default d ''underlyingSubTypes'' JNull))) (\<lambda>sub.
     ebind (int_json (get_default d ''pricePrecision'' (JNum 2))) (\<lambda>pp.
     ebind (int_json (get_default d ''quantityPrecision'' (JNum 3))) (\<lambda>qp.
     ebind (int_json (get_default d ''onboardDate'' (JNum 0))) (\<lambda>ob.
       Inr \<lparr>se_symbol = s, se_base = b, se_quote = q, se_contract = ct,
            se_underlying = get_default d ''underlyingType'' (JStr ''COIN''), se_sub_types = sub, se_price_precision = pp,
            se_quantity_precision = qp, se_tradfi = tradfi, se_onboard = ob\<rparr>))))))))"

text \<open>A raw symbol that is no object raises; one that is not kept, or malformed, is skipped.\<close>

definition parse_entry :: "json \<Rightarrow> py_error + symbol_entry option" where
  "parse_entry raw =
     (case raw of
        JObj d \<Rightarrow>
          if get_default d ''status'' JNull \<noteq> JStr ''TRADING'' \<or> get_default d ''quoteAsset'' JNull \<noteq> JStr ''USDT''
             \<or> get_default d ''contractType'' JNull \<notin> set ALLOWED_CONTRACT_TYPES then Inr None
          else (case entry_fields d (get_default d ''contractType'' JNull = JStr ''TRADIFI_PERPETUAL'') of
                  Inl _ \<Rightarrow> Inr None | Inr e \<Rightarrow> Inr (Some e))
      | _ \<Rightarrow> Inl PyAttributeError)"

fun parse_all :: "json list \<Rightarrow> py_error + symbol_entry list" where
  "parse_all [] = Inr []"
| "parse_all (j # js) = ebind (parse_entry j) (\<lambda>e. ebind (parse_all js) (\<lambda>es.
     Inr (case e of None \<Rightarrow> es | Some x \<Rightarrow> x # es)))"

fun is_str :: "json \<Rightarrow> bool" where
  "is_str (JStr s) = True"
| "is_str _ = False"

fun symbol_key :: "json \<Rightarrow> string" where
  "symbol_key (JStr s) = s"
| "symbol_key _ = []"

definition entries_from_exchangeinfo :: "json \<Rightarrow> py_error + symbol_entry list" where
  "entries_from_exchangeinfo raw =
     (case raw of
        JObj d \<Rightarrow>
          ebind (list_json (or_empty (get_default d ''symbols'' JNull))) (\<lambda>js.
          ebind (parse_all js) (\<lambda>es.
            if list_all (\<lambda>e. is_str (se_symbol e)) es then Inr (sort_key (\<lambda>e. symbol_key (se_symbol e)) es) else Inl PyTypeError))
      | _ \<Rightarrow> Inl PyAttributeError)"

definition entry_from_dict :: "json \<Rightarrow> py_error + symbol_entry" where
  "entry_from_dict j =
     (case j of JObj d \<Rightarrow> entry_fields d (jtruthy (get_default d ''isTradfi'' (JBool False))) | _ \<Rightarrow> Inl PyTypeError)"

fun entries_from_dicts :: "json list \<Rightarrow> py_error + symbol_entry list" where
  "entries_from_dicts [] = Inr []"
| "entries_from_dicts (j # js) = ebind (entry_from_dict j) (\<lambda>e. ebind (entries_from_dicts js) (\<lambda>es. Inr (e # es)))"

section \<open>The cache\<close>

text \<open>What reading the file gives: its JSON, an error the cache handles, or a decoding error it does not.\<close>

datatype file_text = Parsed json | Unreadable | NotText

record sym_cache =
  sc_memory :: "json option"
  sc_mtime_at_load :: rat
  sc_in_progress :: bool
  sc_file :: "(file_text \<times> rat) option"

datatype write_outcome = Written | WriteRefused | NoDirectory

definition write_entries :: "write_outcome \<Rightarrow> rat \<Rightarrow> symbol_entry list \<Rightarrow> sym_cache \<Rightarrow> (py_error + unit) \<times> sym_cache" where
  "write_entries w now es c =
     (case w of
        Written \<Rightarrow> (Inr (), c\<lparr>sc_file := Some (Parsed (JList (map to_dict es)), now)\<rparr>)
      | WriteRefused \<Rightarrow> (Inr (), c)
      | NoDirectory \<Rightarrow> (Inl PyValueError, c))"

definition note_load :: "symbol_entry list \<Rightarrow> sym_cache \<Rightarrow> sym_cache" where
  "note_load es c = c\<lparr>sc_memory := Some (JList (map to_dict es)),
     sc_mtime_at_load := (case sc_file c of Some (_, t) \<Rightarrow> t | None \<Rightarrow> 0)\<rparr>"

text \<open>\<open>refresh\<close>: a failure of the fetch, of the feed's shape or of the directory leaves the cache as it was.\<close>

definition refresh :: "json option \<Rightarrow> write_outcome \<Rightarrow> rat \<Rightarrow> sym_cache \<Rightarrow> (py_error option + symbol_entry list) \<times> sym_cache" where
  "refresh fetch w now c =
     (case fetch of None \<Rightarrow> (Inl None, c)
      | Some raw \<Rightarrow>
          (case entries_from_exchangeinfo raw of Inl e \<Rightarrow> (Inl (Some e), c)
           | Inr es \<Rightarrow>
               (case write_entries w now es c of (Inl e, c1) \<Rightarrow> (Inl (Some e), c1)
                | (Inr _, c1) \<Rightarrow> (Inr es, note_load es c1))))"

text \<open>The first load without a file: the same steps in the caller's thread, and an empty list after any failure.\<close>

definition bootstrap :: "json option \<Rightarrow> write_outcome \<Rightarrow> rat \<Rightarrow> sym_cache \<Rightarrow> symbol_entry list \<times> sym_cache" where
  "bootstrap fetch w now c =
     (case refresh fetch w now c of (Inr es, c1) \<Rightarrow> (es, c1) | (Inl _, c1) \<Rightarrow> ([], c1\<lparr>sc_memory := Some (JList [])\<rparr>))"

definition rows_of :: "json \<Rightarrow> py_error + symbol_entry list" where
  "rows_of j = ebind (list_json j) entries_from_dicts"

definition caught :: "py_error \<Rightarrow> bool" where
  "caught e \<longleftrightarrow> e = PyTypeError"

definition memory_current :: "sym_cache \<Rightarrow> bool" where
  "memory_current c = (sc_memory c \<noteq> None \<and> (case sc_file c of Some (_, t) \<Rightarrow> t = sc_mtime_at_load c | None \<Rightarrow> False))"

text \<open>Reading the file anew: what it holds becomes the memory before its rows are converted.\<close>

definition load_file :: "json option \<Rightarrow> write_outcome \<Rightarrow> rat \<Rightarrow> sym_cache \<Rightarrow> (py_error + symbol_entry list) \<times> sym_cache" where
  "load_file fetch w now c =
     (let boot = (\<lambda>c. case bootstrap fetch w now c of (es, c1) \<Rightarrow> (Inr es, c1))
      in case sc_file c of
           None \<Rightarrow> boot c
         | Some (Unreadable, _) \<Rightarrow> boot c
         | Some (NotText, _) \<Rightarrow> (Inl PyValueError, c)
         | Some (Parsed j, t) \<Rightarrow>
             (let c1 = c\<lparr>sc_memory := Some j, sc_mtime_at_load := t\<rparr>
              in case rows_of j of Inr es \<Rightarrow> (Inr es, c1) | Inl e \<Rightarrow> if caught e then boot c1 else (Inl e, c1)))"

definition ensure_loaded :: "json option \<Rightarrow> write_outcome \<Rightarrow> rat \<Rightarrow> sym_cache \<Rightarrow> (py_error + symbol_entry list) \<times> sym_cache" where
  "ensure_loaded fetch w now c =
     (if memory_current c then
        (case sc_file c of
           Some (Parsed j, _) \<Rightarrow>
             (case rows_of j of Inr es \<Rightarrow> (Inr es, c) | Inl e \<Rightarrow> if caught e then load_file fetch w now c else (Inl e, c))
         | Some (NotText, _) \<Rightarrow> (Inl PyValueError, c)
         | _ \<Rightarrow> load_file fetch w now c)
      else load_file fetch w now c)"

definition should_refresh :: "rat \<Rightarrow> sym_cache \<Rightarrow> bool" where
  "should_refresh now c =
     (if sc_in_progress c then False
      else case sc_file c of None \<Rightarrow> True | Some (_, t) \<Rightarrow> STALENESS_SECONDS < fsub now t)"

text \<open>The kick takes the flag under the lock; it starts a thread unless one is under way.\<close>

definition kick :: "sym_cache \<Rightarrow> bool \<times> sym_cache" where
  "kick c = (if sc_in_progress c then (False, c) else (True, c\<lparr>sc_in_progress := True\<rparr>))"

definition get_symbols :: "json option \<Rightarrow> write_outcome \<Rightarrow> rat \<Rightarrow> sym_cache \<Rightarrow> (py_error + json list) \<times> bool \<times> sym_cache" where
  "get_symbols fetch w now c =
     (case ensure_loaded fetch w now c of
        (Inl e, c1) \<Rightarrow> (Inl e, False, c1)
      | (Inr es, c1) \<Rightarrow>
          (case (if should_refresh now c1 then kick c1 else (False, c1)) of (started, c2) \<Rightarrow> (Inr (map to_dict es), started, c2)))"

definition get_meta :: "string \<Rightarrow> json list \<Rightarrow> json option" where
  "get_meta name rows = find (\<lambda>r. jget r ''symbol'' = JStr name) rows"

definition worker_done :: "sym_cache \<Rightarrow> sym_cache" where
  "worker_done c = c\<lparr>sc_in_progress := False\<rparr>"

section \<open>Callers and the background thread\<close>

text \<open>
  A process: the cache, how many callers have seen that a refresh is due and not yet asked for it, how many threads
  run, and how many have finished their refresh and not yet cleared the flag.
\<close>

record sym_process =
  sp_cache :: sym_cache
  sp_due :: nat
  sp_running :: nat
  sp_finishing :: nat

inductive sym_step :: "sym_process \<Rightarrow> sym_process \<Rightarrow> bool" where
  load: "ensure_loaded fetch w now (sp_cache p) = (r, c) \<Longrightarrow> sym_step p (p\<lparr>sp_cache := c\<rparr>)"
| check: "should_refresh now (sp_cache p) \<Longrightarrow> sym_step p (p\<lparr>sp_due := Suc (sp_due p)\<rparr>)"
| start: "0 < sp_due p \<Longrightarrow> kick (sp_cache p) = (started, c)
    \<Longrightarrow> sym_step p (p\<lparr>sp_cache := c, sp_due := sp_due p - 1, sp_running := (if started then Suc (sp_running p) else sp_running p)\<rparr>)"
| work: "0 < sp_running p \<Longrightarrow> refresh fetch w now (sp_cache p) = (r, c)
    \<Longrightarrow> sym_step p (p\<lparr>sp_cache := c, sp_running := sp_running p - 1, sp_finishing := Suc (sp_finishing p)\<rparr>)"
| finish: "0 < sp_finishing p \<Longrightarrow> sym_step p (p\<lparr>sp_cache := worker_done (sp_cache p), sp_finishing := sp_finishing p - 1\<rparr>)"
| force: "refresh fetch w now (sp_cache p) = (r, c) \<Longrightarrow> sym_step p (p\<lparr>sp_cache := c\<rparr>)"
| outside: "sym_step p (p\<lparr>sp_cache := (sp_cache p)\<lparr>sc_file := f\<rparr>\<rparr>)"

inductive_cases sym_step_elim: "sym_step p q"

definition fresh_process :: "(file_text \<times> rat) option \<Rightarrow> sym_process" where
  "fresh_process f = \<lparr>sp_cache = \<lparr>sc_memory = None, sc_mtime_at_load = 0, sc_in_progress = False, sc_file = f\<rparr>,
     sp_due = 0, sp_running = 0, sp_finishing = 0\<rparr>"

lemma refresh_flag: "refresh fetch w now c = (r, c') \<Longrightarrow> sc_in_progress c' = sc_in_progress c"
  by (auto simp: refresh_def write_entries_def note_load_def split: option.splits sum.splits write_outcome.splits)

lemma bootstrap_flag: "bootstrap fetch w now c = (es, c') \<Longrightarrow> sc_in_progress c' = sc_in_progress c"
  by (auto simp: bootstrap_def dest: refresh_flag split: prod.splits sum.splits)

lemma load_file_flag: "load_file fetch w now c = (r, c') \<Longrightarrow> sc_in_progress c' = sc_in_progress c"
  by (auto simp: load_file_def Let_def dest: bootstrap_flag split: prod.splits sum.splits option.splits file_text.splits if_splits)

lemma ensure_loaded_flag: "ensure_loaded fetch w now c = (r, c') \<Longrightarrow> sc_in_progress c' = sc_in_progress c"
  by (auto simp: ensure_loaded_def dest: load_file_flag split: prod.splits sum.splits option.splits file_text.splits if_splits)

definition single_flight :: "sym_process \<Rightarrow> bool" where
  "single_flight p \<longleftrightarrow> sp_running p + sp_finishing p = (if sc_in_progress (sp_cache p) then 1 else 0)"

lemma single_flight_step: "sym_step p q \<Longrightarrow> single_flight p \<Longrightarrow> single_flight q"
  by (erule sym_step_elim)
    (auto simp: single_flight_def kick_def worker_done_def dest!: refresh_flag ensure_loaded_flag split: if_splits)

text \<open>However callers and threads interleave, at most one background refresh is under way.\<close>

lemma single_flight_always: "sym_step\<^sup>*\<^sup>* (fresh_process f) p \<Longrightarrow> single_flight p"
proof (induction rule: rtranclp_induct)
  case base
  show ?case by (simp add: single_flight_def fresh_process_def)
qed (rule single_flight_step)

section \<open>What a caller reads\<close>

definition kept :: "symbol_entry \<Rightarrow> bool" where
  "kept e \<longleftrightarrow> is_str (se_symbol e) \<and> se_quote e = JStr ''USDT'' \<and> se_contract e \<in> set ALLOWED_CONTRACT_TYPES"

lemma entry_round_trip: "entry_from_dict (to_dict e) = Inr e"
  by (cases "se_sub_types e") (simp_all add: entry_from_dict_def to_dict_def entry_fields_def dict_at_def get_default_def or_empty_def list_json_def)

lemma entries_round_trip: "entries_from_dicts (map to_dict es) = Inr es"
  by (induction es) (simp_all add: entry_round_trip)

lemma rows_round_trip: "rows_of (JList (map to_dict es)) = Inr es"
  by (simp add: rows_of_def list_json_def entries_round_trip)

lemma entry_fields_quote:
  "entry_fields d t = Inr e \<Longrightarrow> se_quote e = get_default d ''quoteAsset'' JNull \<and> se_contract e = get_default d ''contractType'' JNull"
  by (auto simp: entry_fields_def get_default_def)

lemma parse_all_kept:
  "parse_all js = Inr es \<Longrightarrow> e \<in> set es \<Longrightarrow> se_quote e = JStr ''USDT'' \<and> se_contract e \<in> set ALLOWED_CONTRACT_TYPES"
proof (induction js arbitrary: es)
  case (Cons j js)
  then show ?case
    by (auto simp: parse_entry_def dest!: entry_fields_quote split: json.splits if_splits sum.splits option.splits)
qed simp

lemma feed_entries:
  assumes "entries_from_exchangeinfo raw = Inr es"
  shows "list_all kept es" "sorted (map (\<lambda>e. symbol_key (se_symbol e)) es)"
proof -
  obtain js fs where p: "parse_all js = Inr fs" "list_all (\<lambda>e. is_str (se_symbol e)) fs"
    "es = sort_key (\<lambda>e. symbol_key (se_symbol e)) fs"
    using assms by (auto simp: entries_from_exchangeinfo_def split: json.splits if_splits)
  show "list_all kept es" using p parse_all_kept[OF p(1)] by (auto simp: kept_def list_all_iff)
  show "sorted (map (\<lambda>e. symbol_key (se_symbol e)) es)" unfolding p(3) by simp
qed

text \<open>The memory is never what a caller gets: the file is read again even when the memory is current.\<close>

lemma memory_is_not_read:
  "sc_file c = Some (Parsed j, t) \<Longrightarrow> rows_of j = Inr es \<Longrightarrow> fst (ensure_loaded fetch w now c) = Inr es"
  by (simp add: ensure_loaded_def load_file_def)

text \<open>
  C40: What a refresh writes is what callers read. After a refresh that reached the file, a call returns exactly the rows of the
  entries the refresh returned, whatever the memory holds and whatever the feed would answer now; every one is a USDT
  contract of an allowed kind, and they are sorted by symbol.
\<close>

theorem symbol_rows_read_back:
  assumes "refresh (Some raw) Written now c = (Inr es, c1)"
  shows "(\<exists>started c3. get_symbols fetch w later (c1\<lparr>sc_memory := m, sc_mtime_at_load := t\<rparr>) = (Inr (map to_dict es), started, c3))
    \<and> list_all kept es \<and> sorted (map (\<lambda>e. symbol_key (se_symbol e)) es)"
proof -
  have feed: "entries_from_exchangeinfo raw = Inr es" and stored: "sc_file c1 = Some (Parsed (JList (map to_dict es)), now)"
    using assms by (auto simp: refresh_def write_entries_def note_load_def split: sum.splits)
  let ?c = "c1\<lparr>sc_memory := m, sc_mtime_at_load := t\<rparr>"
  have "fst (ensure_loaded fetch w later ?c) = Inr es"
    by (rule memory_is_not_read[OF _ rows_round_trip]) (simp add: stored)
  then obtain c2 where "ensure_loaded fetch w later ?c = (Inr es, c2)" by (metis prod.collapse)
  then have "\<exists>started c3. get_symbols fetch w later ?c = (Inr (map to_dict es), started, c3)"
    by (auto simp: get_symbols_def split: prod.splits)
  then show ?thesis using feed_entries[OF feed] by blast
qed

definition demo_feed :: json where
  "demo_feed = JObj [(''symbols'', JList [
     JObj [(''symbol'', JStr ''ETHUSDT''), (''status'', JStr ''TRADING''), (''baseAsset'', JStr ''ETH''), (''quoteAsset'', JStr ''USDT''), (''contractType'', JStr ''PERPETUAL'')],
     JObj [(''symbol'', JStr ''BTCUSDT''), (''status'', JStr ''TRADING''), (''baseAsset'', JStr ''BTC''), (''quoteAsset'', JStr ''USDT''), (''contractType'', JStr ''PERPETUAL'')],
     JObj [(''symbol'', JStr ''OLDUSDT''), (''status'', JStr ''BREAK''), (''quoteAsset'', JStr ''USDT''), (''contractType'', JStr ''PERPETUAL'')]])]"

lemma symbol_rows_read_back_witness:
  "\<exists>es c1 started c3. refresh (Some demo_feed) Written 5 (sp_cache (fresh_process None)) = (Inr es, c1) \<and> map se_symbol es = [JStr ''BTCUSDT'', JStr ''ETHUSDT'']
     \<and> get_symbols None WriteRefused 6 (c1\<lparr>sc_memory := None, sc_mtime_at_load := 0\<rparr>) = (Inr (map to_dict es), started, c3)"
proof -
  have "case entries_from_exchangeinfo demo_feed of Inl _ \<Rightarrow> False | Inr es \<Rightarrow> map se_symbol es = [JStr ''BTCUSDT'', JStr ''ETHUSDT'']"
    by code_simp
  then obtain es where es: "entries_from_exchangeinfo demo_feed = Inr es" "map se_symbol es = [JStr ''BTCUSDT'', JStr ''ETHUSDT'']"
    by (auto split: sum.splits)
  obtain c1 where run: "refresh (Some demo_feed) Written 5 (sp_cache (fresh_process None)) = (Inr es, c1)"
    by (simp add: refresh_def es(1) write_entries_def)
  obtain started c3 where "get_symbols None WriteRefused 6 (c1\<lparr>sc_memory := None, sc_mtime_at_load := 0\<rparr>) = (Inr (map to_dict es), started, c3)"
    using symbol_rows_read_back[OF run, where fetch = None and w = WriteRefused and later = 6 and m = None and t = 0] by (elim conjE exE)
  then show ?thesis using run es(2) by (intro exI[of _ es] exI[of _ c1] exI[of _ started] exI[of _ c3] conjI)
qed

text \<open>Without a file every caller fetches, and an empty list is what they all see while the feed fails.\<close>

lemma no_file_no_symbols: "sc_file c = None \<Longrightarrow> fst (get_symbols None w now c) = Inr []"
  by (simp add: get_symbols_def ensure_loaded_def memory_current_def load_file_def bootstrap_def refresh_def split: prod.splits)

text \<open>A row of the file without a symbol is an error the cache does not catch.\<close>

lemma bad_row_raises: "fst (get_symbols fetch w now \<lparr>sc_memory = None, sc_mtime_at_load = 0, sc_in_progress = False,
    sc_file = Some (Parsed (JList [JObj []]), 0)\<rparr>) = Inl PyKeyError"
  by (simp add: get_symbols_def ensure_loaded_def memory_current_def load_file_def rows_of_def list_json_def entry_from_dict_def
      entry_fields_def dict_at_def caught_def)

end
