(* ===== verification/Spec2Isabelle.thy ===== *)
theory Spec2Isabelle
  imports WalkForward BenchStats Driver Robustness Scheduler TrendPlan WatchScan Watchlist AnalyzeRoute VibeRun Position Pareto History Promotion FtRepo EventLog RateLimit Cache MakerChecker OkxExec Detector Skillpay SymbolCache
begin

text \<open>
  A verification library of CryptoAggHarmonic, the Python service that detects harmonic patterns in
  market data, turns them into trade signals, tunes its own parameters in a loop, scans users'
  watchlists and answers them through an assistant. Paths are those of the repository's source tree.

  \<^bold>\<open>The program.\<close> Candles come from exchanges through adapters. The signal engine scores the pattern
  candidates found in them and builds at most one executable signal; simulators replay signals over
  history; the tuning loop mutates the parameters, evaluates each candidate by those simulators,
  keeps a Pareto front and a journal, and hands candidates to a promotion gate and to a
  Maker-Checker review. A second strategy, RSI trend, has its own detector, simulator and plan. Around
  them stand the routes of the service: quota, idempotency, rate limits, watchlists, and the
  assistant's runs with their event streams.

  \<^bold>\<open>Numbers and strings.\<close> PyFloat models Python's float on finite values as the rational the binary64
  number denotes, with rounding after every operation (\<open>fadd\<close>, \<open>fmul\<close>, \<open>fdiv\<close> and so on); its lemmas
  give sign, monotonicity and rounding bounds. Overflow to infinity and NaN are outside the model, and the
  definitions that could meet them say so. Python's integers are \<open>int\<close>. Prelude holds strings on
  Latin-1, dictionaries as association lists in insertion order, and errors as sums.

  \<^bold>\<open>The signal side.\<close>
  \<^item> Tuning: \<open>app/config/tuning.py\<close>; every field, its checks, its dictionary form and the scoped override.
  \<^item> Signals, Validation: \<open>app/domain/signals.py\<close>, \<open>validation.py\<close>; stops, targets, net risk-reward,
    candidate validity and the trap score.
  \<^item> SignalEngine: \<open>app/services/signal_engine.py\<close>; from candidates to one signal, every gate in the
    code's order. A returned signal is executable and passed every gate.
  \<^item> MarketContext: discipline filters, forming view, macro bias, regime, grader.
  \<^item> Position: \<open>app/services/position_manager.py\<close>; the state machine of an open position, one bar a step,
    with its invariant, the ratchet of the stop and the bound on its life.
  \<^item> Detector: \<open>docs/harmonic_detector.py\<close>; the swing points are a zigzag of the bars, and the forming patterns
    it returns satisfy its own filters, with their orders inside the zone and the stop outside it.
  \<^item> TradeSim, WalkForward: the trade simulator and the walk-forward backtest over it; trades in
    sequence, long-short mirror, no lookahead, termination.

  \<^bold>\<open>The tuning loop\<close> (\<open>app/loop\<close>).
  \<^item> Mutation, Search: the perturbations and one generation of the search; candidates stay in their box.
  \<^item> Pareto, History: the front, as an abstract set of non-dominated points, and the append-only journal
    with its rotations. Under one caller the replay is complete exactly when no two rotations fall in one
    second; several callers are interleaved as steps, with what they can lose.
  \<^item> Driver: one candidate's run and one generation's, over Pareto and History, the journal line field by
    field; the front read back from the lines is the front kept in memory, under the same condition on rotations.
  \<^item> Promotion, Robustness, Scheduler: the gates to production, the out-of-sample checks, the next wake-up,
    which leaves the quiet hours at the first active hour where the two days of look-ahead hold one.
  \<^item> MakerChecker: the reviewers, what each may see, and the arbiter.

  \<^bold>\<open>The RSI trend strategy\<close> (\<open>app/domain\<close>): TrendRsi detects, TrendTrade simulates, TrendPlan builds
  the plan and its decision. The scan returns an option: None is the \<open>TypeError\<close> of a missing RSI past the
  warm-up, which a flat series runs into.

  \<^bold>\<open>The benchmark\<close> (\<open>bench\<close>).
  \<^item> BenchRecord, BenchMetrics: the record, its walk-forward split, the excursions of a trade, and stage 2 over
    TradeSim; the held window is the simulator's, and what the flags mean is proved, not what they are called.
  \<^item> BenchScore: the stages, the aggregation and the pipeline over WalkForward's records, with every score's range.
  \<^item> BenchStats: the Wilson interval, the Benjamini-Hochberg adjustment against the step-up rule, the cost guard
    alone and under threads (\<open>gstep\<close>), the report rows and the whole run.

  \<^bold>\<open>The service.\<close>
  \<^item> Watchlist, WatchScan: the store of the watchlists with its three backends behind one interface, and the
    scan of all users' lists with its accounting.
  \<^item> Quota: the three ledger procedures of the database, the calls to them with network faults, the routes
    that reserve and settle, and the requests of all users as interleaved steps (\<open>qstep\<close>). While no
    user has two requests of a pool under way the ledger is exact; two overlapping ones break it.
  \<^item> AnalyzeRoute: the analysis route over Quota, with its idempotency cache and the constraints of its table.
    The ledger settles when the quota calls succeed; the replay of a stored analysis never happens.
  \<^item> VibeStore, VibeRun: sessions, messages, runs and events of the assistant; the whole agent run; the
    client's event stream, composed so that what a run publishes is what the client receives.
  \<^item> RateLimit, Cache: the sliding window and the bounded caches with their expiry. The limiter's clock is read
    before its lock is taken and one check takes the lock more than once, so its bound is proved for the
    interleaved locked bodies of any threads, with the skew of the readings as a parameter.
  \<^item> OkxExec: the path of an order to the exchange, over Promotion's list of tools; nothing is sent past the gates,
    the cap bounds the requests of each generation, and the logged arguments hold no value of a redacted key (the
    order id and the trace id are logged as they come).
  \<^item> Skillpay: the purchase and installation of a skill; an archive of files and directories that passes the
    check stays in its directory, and links, which the model extracts as well, can leave it.
    SymbolCache: the file-backed symbol list and its background refresh; callers read what a refresh wrote.
    PyText: the text operations both use.
  \<^item> FtRepo, EventLog: the strategy repository and the event log of the Freqtrade integration.

  \<^bold>\<open>Interfaces.\<close> A client that relies on another component states what it needs as a locale, and the
  provider's theory interprets it on its own definitions: \<open>watch_backend\<close> (Watchlist, interpreted on the
  in-memory and the Redis backend), \<open>key_store\<close> (Cache, on the cache's own operations), \<open>dominance\<close>
  (Pareto, on the front's order, and again in Promotion on the order of shapes) and \<open>check_gate\<close> (Promotion,
  on the gate of the third version). The properties are top-level theorems over the definitions and
  rest on the interpretations.

  \<^bold>\<open>Arguments.\<close> What the source does not contain is an argument: candles and indicator columns that
  pandas or an exchange would deliver, the language model, replies of the database, Redis and HTTP services,
  random draws, clocks and fresh identifiers. A hypothesis on such an argument is stated in the theorem
  that needs it and met in its witness.

  \<^bold>\<open>Loops and fuel.\<close> Loops over lists are structural recursion. The walk-forward loop and the string
  scanners have termination measures; the scheduler's search and the agent loop carry the source's own
  bounds (the agent loop the setting \<open>VIBE_MAX_ITERATIONS\<close>), and the client's stream runs over an explicit list of polls,
  with a theorem that says how many are enough.

  \<^bold>\<open>Not modelled.\<close> Request parsing and response rendering (Flask, pydantic), authentication, the
  adapters to market data and to pandas, charts, notification clients, scripts that drive
  downloads or print reports, and the frontend: they move data between libraries and hold little logic
  of their own, or rest on libraries whose behaviour is not in the repository. The in-process expiry of
  values kept in Redis is the server's. The components list of the manifest names each left-out part.
\<close>

end
